(* ===== verification/TFM_Prelude.thy ===== *)
theory TFM_Prelude
  imports Main "HOL-Library.Word"
begin

text \<open>
  Shared vocabulary of the development: the PSA status codes, 32-bit wrapping
  arithmetic on naturals, byte buffers (a block of flash, a structure in memory),
  little-endian encodings, and the state-and-error functions in which the C routines
  are written. A C routine of type \<open>psa_status_t f(...)\<close> is a function from the state to
  a pair of a result and the state afterwards: \<open>Inl e\<close> is the error code \<open>e\<close> (never
  success), \<open>Inr x\<close> is \<open>PSA_SUCCESS\<close> with the out-parameters \<open>x\<close>. The state changes made
  before an error are kept, as they are in C.
\<close>

unbundle bit_operations_syntax

named_theorems io_simps \<open>equations of the state-and-error functions\<close>
named_theorems wrap_simps \<open>wrapping arithmetic that does not wrap\<close>
named_theorems buf_simps \<open>reads of updated byte buffers\<close>

section \<open>Status codes\<close>

text \<open>The error values of \<open>psa_status_t\<close> (interface/include/psa/error.h) the modelled code returns.\<close>

datatype psa_error =
    PSA_ERROR_PROGRAMMER_ERROR
  | PSA_ERROR_CONNECTION_REFUSED
  | PSA_ERROR_CONNECTION_BUSY
  | PSA_ERROR_GENERIC_ERROR
  | PSA_ERROR_NOT_PERMITTED
  | PSA_ERROR_NOT_SUPPORTED
  | PSA_ERROR_INVALID_ARGUMENT
  | PSA_ERROR_INVALID_HANDLE
  | PSA_ERROR_BAD_STATE
  | PSA_ERROR_BUFFER_TOO_SMALL
  | PSA_ERROR_ALREADY_EXISTS
  | PSA_ERROR_DOES_NOT_EXIST
  | PSA_ERROR_INSUFFICIENT_MEMORY
  | PSA_ERROR_INSUFFICIENT_STORAGE
  | PSA_ERROR_STORAGE_FAILURE
  | PSA_ERROR_INVALID_SIGNATURE
  | PSA_ERROR_DATA_CORRUPT

section \<open>State-and-error functions\<close>

type_synonym ('s, 'a) io = "'s \<Rightarrow> (psa_error + 'a) \<times> 's"

definition return_io :: "'a \<Rightarrow> ('s, 'a) io" where
  "return_io x = (\<lambda>s. (Inr x, s))"

definition raise_io :: "psa_error \<Rightarrow> ('s, 'a) io" where
  "raise_io e = (\<lambda>s. (Inl e, s))"

text \<open>\<open>err = m(); if (err != PSA_SUCCESS) return err;\<close> and then the rest.\<close>

definition bind_io :: "('s, 'a) io \<Rightarrow> ('a \<Rightarrow> ('s, 'b) io) \<Rightarrow> ('s, 'b) io" where
  "bind_io m f = (\<lambda>s. case m s of (Inl e, s') \<Rightarrow> (Inl e, s') | (Inr x, s') \<Rightarrow> f x s')"

text \<open>\<open>err = m(); if (err != PSA_SUCCESS) return e;\<close>: every error is reported as \<open>e\<close>.\<close>

definition on_error :: "psa_error \<Rightarrow> ('s, 'a) io \<Rightarrow> ('s, 'a) io" where
  "on_error e m = (\<lambda>s. case m s of (Inl _, s') \<Rightarrow> (Inl e, s') | (Inr x, s') \<Rightarrow> (Inr x, s'))"

text \<open>The status as a value, for code that inspects it.\<close>

definition try_io :: "('s, 'a) io \<Rightarrow> ('s, psa_error + 'a) io" where
  "try_io m = (\<lambda>s. case m s of (r, s') \<Rightarrow> (Inr r, s'))"

definition gets_io :: "('s \<Rightarrow> 'a) \<Rightarrow> ('s, 'a) io" where
  "gets_io f = (\<lambda>s. (Inr (f s), s))"

definition modify_io :: "('s \<Rightarrow> 's) \<Rightarrow> ('s, unit) io" where
  "modify_io f = (\<lambda>s. (Inr (), f s))"

text \<open>A \<open>for\<close> loop over a list of indices that stops at the first error.\<close>

fun for_io :: "'i list \<Rightarrow> ('i \<Rightarrow> ('s, unit) io) \<Rightarrow> ('s, unit) io" where
  "for_io [] body = return_io ()"
| "for_io (i # is) body = bind_io (body i) (\<lambda>_. for_io is body)"

lemma return_io_simp [io_simps]: "return_io x s = (Inr x, s)"
  by (simp add: return_io_def)

lemma raise_io_simp [io_simps]: "raise_io e s = (Inl e, s)"
  by (simp add: raise_io_def)

lemma gets_io_simp [io_simps]: "gets_io f s = (Inr (f s), s)"
  by (simp add: gets_io_def)

lemma modify_io_simp [io_simps]: "modify_io f s = (Inr (), f s)"
  by (simp add: modify_io_def)

lemma bind_io_Inr [io_simps]: "m s = (Inr x, s') \<Longrightarrow> bind_io m f s = f x s'"
  by (simp add: bind_io_def)

lemma bind_io_Inl [io_simps]: "m s = (Inl e, s') \<Longrightarrow> bind_io m f s = (Inl e, s')"
  by (simp add: bind_io_def)

lemma on_error_Inr [io_simps]: "m s = (Inr x, s') \<Longrightarrow> on_error e m s = (Inr x, s')"
  by (simp add: on_error_def)

lemma on_error_Inl [io_simps]: "m s = (Inl e', s') \<Longrightarrow> on_error e m s = (Inl e, s')"
  by (simp add: on_error_def)

lemma try_io_simp [io_simps]: "m s = (r, s') \<Longrightarrow> try_io m s = (Inr r, s')"
  by (simp add: try_io_def)

lemma bind_io_return [io_simps]: "bind_io (return_io x) f = f x"
  by (simp add: bind_io_def return_io_def fun_eq_iff)

lemma bind_io_raise [io_simps]: "bind_io (raise_io e) f = raise_io e"
  by (simp add: bind_io_def raise_io_def fun_eq_iff)

lemma bind_io_gets [io_simps]: "bind_io (gets_io g) f s = f (g s) s"
  by (simp add: bind_io_def gets_io_def)

lemma bind_io_modify [io_simps]: "bind_io (modify_io g) f s = f () (g s)"
  by (simp add: bind_io_def modify_io_def)

lemma bind_io_assoc: "bind_io (bind_io m f) g = bind_io m (\<lambda>x. bind_io (f x) g)"
  by (auto simp: bind_io_def fun_eq_iff split: prod.splits sum.splits)

lemma bind_io_eq_Inr:
  "bind_io m f s = (Inr y, t) \<longleftrightarrow> (\<exists>x s'. m s = (Inr x, s') \<and> f x s' = (Inr y, t))"
  by (auto simp: bind_io_def split: prod.splits sum.splits)

lemma on_error_eq_Inr: "on_error e m s = (Inr y, t) \<longleftrightarrow> m s = (Inr y, t)"
  by (auto simp: on_error_def split: prod.splits sum.splits)

text \<open>
  Loops that keep an invariant: when every iteration succeeds from a state that satisfies
  it, the loop succeeds and the invariant, indexed by the iterations done, holds after it.
\<close>

lemma for_io_rule:
  assumes "P 0 s"
    and "\<And>k s. k < length is \<Longrightarrow> P k s \<Longrightarrow> \<exists>s'. body (is ! k) s = (Inr (), s') \<and> P (Suc k) s'"
  shows "\<exists>t. for_io is body s = (Inr (), t) \<and> P (length is) t"
  using assms
proof (induction "is" arbitrary: P s)
  case Nil
  then show ?case by (simp add: io_simps)
next
  case (Cons i "is")
  from Cons.prems(2)[of 0 s] Cons.prems(1) obtain s1
    where s1: "body i s = (Inr (), s1)" "P (Suc 0) s1" by auto
  have "\<exists>t. for_io is body s1 = (Inr (), t) \<and> P (Suc (length is)) t"
  proof (rule Cons.IH[of "\<lambda>k. P (Suc k)"])
    show "P (Suc 0) s1" by (rule s1)
    fix k s assume "k < length is" "P (Suc k) s"
    then show "\<exists>s'. body (is ! k) s = (Inr (), s') \<and> P (Suc (Suc k)) s'"
      using Cons.prems(2)[of "Suc k" s] by simp
  qed
  with s1 show ?case by (simp add: io_simps)
qed

section \<open>32-bit arithmetic on naturals\<close>

text \<open>
  \<open>size_t\<close> and \<open>uint32_t\<close> values are naturals below \<open>2 ^ 32\<close> (the targets are 32-bit Arm
  cores); the operators that may leave that range are written with their wrap-around.
\<close>

abbreviation SIZE_MAX_P1 :: nat where "SIZE_MAX_P1 \<equiv> 4294967296"

definition add32 :: "nat \<Rightarrow> nat \<Rightarrow> nat" where
  "add32 a b = (a + b) mod SIZE_MAX_P1"

definition sub32 :: "nat \<Rightarrow> nat \<Rightarrow> nat" where
  "sub32 a b = (a + (SIZE_MAX_P1 - b mod SIZE_MAX_P1)) mod SIZE_MAX_P1"

definition mul32 :: "nat \<Rightarrow> nat \<Rightarrow> nat" where
  "mul32 a b = (a * b) mod SIZE_MAX_P1"

lemma add32_id [wrap_simps]: "a + b < SIZE_MAX_P1 \<Longrightarrow> add32 a b = a + b"
  by (simp add: add32_def)

lemma mul32_id [wrap_simps]: "a * b < SIZE_MAX_P1 \<Longrightarrow> mul32 a b = a * b"
  by (simp add: mul32_def)

lemma sub32_id [wrap_simps]: "b \<le> a \<Longrightarrow> a < SIZE_MAX_P1 \<Longrightarrow> sub32 a b = a - b"
proof -
  assume *: "b \<le> a" "a < SIZE_MAX_P1"
  then have "a + (SIZE_MAX_P1 - b mod SIZE_MAX_P1) = (a - b) + SIZE_MAX_P1" by simp
  moreover from * have "a - b < SIZE_MAX_P1" by simp
  ultimately show ?thesis by (simp only: sub32_def mod_add_self2 mod_less)
qed

lemma add32_bound [simp]: "add32 a b < SIZE_MAX_P1"
  and sub32_bound [simp]: "sub32 a b < SIZE_MAX_P1"
  and mul32_bound [simp]: "mul32 a b < SIZE_MAX_P1"
  by (simp_all add: add32_def sub32_def mul32_def)

section \<open>Byte buffers\<close>

type_synonym byte = "8 word"

text \<open>\<open>rd b off n\<close>: the \<open>n\<close> bytes of \<open>b\<close> from \<open>off\<close>; \<open>wr b off d\<close>: \<open>b\<close> with \<open>d\<close> copied to \<open>off\<close>.\<close>

definition rd :: "'a list \<Rightarrow> nat \<Rightarrow> nat \<Rightarrow> 'a list" where
  "rd b off n = take n (drop off b)"

definition wr :: "'a list \<Rightarrow> nat \<Rightarrow> 'a list \<Rightarrow> 'a list" where
  "wr b off d = take off b @ d @ drop (off + length d) b"

lemma length_rd [simp]: "length (rd b off n) = min n (length b - off)"
  by (simp add: rd_def)

lemma length_wr [simp]: "off + length d \<le> length b \<Longrightarrow> length (wr b off d) = length b"
  by (simp add: wr_def)

lemma nth_rd: "i < n \<Longrightarrow> off + n \<le> length b \<Longrightarrow> rd b off n ! i = b ! (off + i)"
  by (simp add: rd_def)

lemma nth_wr:
  "off + length d \<le> length b \<Longrightarrow> i < length b \<Longrightarrow>
   wr b off d ! i = (if off \<le> i \<and> i < off + length d then d ! (i - off) else b ! i)"
  by (auto simp: wr_def nth_append min_def add.commute)

lemma rd_0 [simp]: "rd b off 0 = []"
  by (simp add: rd_def)

lemma wr_Nil [simp]: "wr b off [] = b"
  by (simp add: wr_def)

lemma rd_all [simp]: "length b = n \<Longrightarrow> rd b 0 n = b"
  by (simp add: rd_def)

lemma rd_eqI:
  assumes "off + n \<le> length b" "off' + n \<le> length b'"
    and "\<And>i. i < n \<Longrightarrow> b ! (off + i) = b' ! (off' + i)"
  shows "rd b off n = rd b' off' n"
  by (rule nth_equalityI) (use assms in \<open>auto simp: nth_rd\<close>)

lemma rd_wr_same [buf_simps]:
  "off + length d \<le> length b \<Longrightarrow> n = length d \<Longrightarrow> rd (wr b off d) off n = d"
  by (simp add: rd_def wr_def)

lemma rd_wr_disj [buf_simps]:
  assumes "off + length d \<le> length b" "off' + n \<le> length b"
    and "off' + n \<le> off \<or> off + length d \<le> off'"
  shows "rd (wr b off d) off' n = rd b off' n"
  by (rule rd_eqI) (use assms in \<open>auto simp: nth_wr\<close>)

lemma rd_wr_inside [buf_simps]:
  assumes "off + length d \<le> length b" "off \<le> off'" "off' + n \<le> off + length d"
  shows "rd (wr b off d) off' n = rd d (off' - off) n"
  by (rule rd_eqI) (use assms in \<open>auto simp: nth_wr\<close>)

lemma rd_rd [buf_simps]: "off' + n \<le> m \<Longrightarrow> rd (rd b off m) off' n = rd b (off + off') n"
  by (simp add: rd_def drop_take min_absorb1 add.commute)

lemma rd_append: "rd b off (m + n) = rd b off m @ rd b (off + m) n"
  by (simp add: rd_def take_add add.commute)

lemma take_rd: "k \<le> n \<Longrightarrow> take k (rd b off n) = rd b off k"
  by (simp add: rd_def min_absorb1)

lemma wr_wr_append:
  "off + length d + length e \<le> length b \<Longrightarrow> wr (wr b off d) (off + length d) e = wr b off (d @ e)"
  by (simp add: wr_def add.assoc add.commute add.left_commute)

lemma wr_wr_same: "off + length d \<le> length b \<Longrightarrow> length e = length d \<Longrightarrow> wr (wr b off d) off e = wr b off e"
  by (simp add: wr_def)

lemma wr_rd_id: "off + n \<le> length b \<Longrightarrow> wr b off (rd b off n) = b"
  by (simp add: wr_def rd_def) (metis append_take_drop_id drop_drop add.commute)

section \<open>Little-endian encoding\<close>

definition le32 :: "nat \<Rightarrow> byte list" where
  "le32 n = [word_of_nat n, word_of_nat (n div 256), word_of_nat (n div 65536),
             word_of_nat (n div 16777216)]"

definition de32 :: "byte list \<Rightarrow> nat" where
  "de32 bs = unat (bs ! 0) + 256 * unat (bs ! 1) + 65536 * unat (bs ! 2)
             + 16777216 * unat (bs ! 3)"

lemma length_le32 [simp]: "length (le32 n) = 4"
  by (simp add: le32_def)

lemma unat_byte_lt [simp]: "unat (x :: byte) < 256"
  using unsigned_less[of x] by simp

lemma unat_byte_of_nat: "unat (word_of_nat n :: byte) = n mod 256"
  by (simp add: unat_of_nat)

lemma de32_le32 [simp]:
  assumes "n < SIZE_MAX_P1"
  shows "de32 (le32 n) = n"
proof -
  have "n div 65536 = n div 256 div 256" "n div 16777216 = n div 65536 div 256"
    by (simp_all add: div_mult2_eq[symmetric])
  moreover have top: "n div 16777216 mod 256 = n div 16777216" using assms by (simp add: div_less)
  moreover have "n = n mod 256 + 256 * (n div 256)"
    "n div 256 = n div 256 mod 256 + 256 * (n div 256 div 256)"
    "n div 65536 = n div 65536 mod 256 + 256 * (n div 65536 div 256)"
    by simp_all
  ultimately have "n mod 256 + 256 * (n div 256 mod 256) + 65536 * (n div 65536 mod 256)
      + 16777216 * (n div 16777216 mod 256) = n"
    by linarith
  with top have "n mod 256 + 256 * (n div 256 mod 256) + 65536 * (n div 65536 mod 256)
      + 16777216 * (n div 16777216) = n"
    by linarith
  with top show ?thesis
    by (simp add: de32_def le32_def unat_byte_of_nat numeral_2_eq_2 numeral_3_eq_3)
qed

lemma de32_bound [simp]: "de32 bs < SIZE_MAX_P1"
  using unat_byte_lt[of "bs ! 0"] unat_byte_lt[of "bs ! 1"] unat_byte_lt[of "bs ! 2"]
    unat_byte_lt[of "bs ! 3"]
  unfolding de32_def by linarith

end
