(* ===== verification/ITS_Utils.thy ===== *)
theory ITS_Utils
  imports TFM_Prelude
begin

text \<open>
  The utilities of the Internal Trusted Storage partition
  (src/secure_fw/partitions/internal_trusted_storage/its_utils.c and its_utils.h):
  the boundary check every access goes through, the file identifier check, and the
  alignment macros.
\<close>

section \<open>Definitions\<close>

definition ITS_FILE_ID_SIZE :: nat where "ITS_FILE_ID_SIZE = 12"

definition its_utils_check_contained_in :: "nat \<Rightarrow> nat \<Rightarrow> nat \<Rightarrow> psa_error + unit" where
  "its_utils_check_contained_in superset_size subset_offset subset_size =
     (if subset_offset > superset_size then Inl PSA_ERROR_INVALID_ARGUMENT
      else if subset_size > sub32 superset_size subset_offset then Inl PSA_ERROR_INVALID_ARGUMENT
      else Inr ())"

text \<open>The loop of \<open>its_utils_validate_fid\<close>: \<open>n\<close> bytes are left to inspect.\<close>

fun validate_fid_loop :: "nat \<Rightarrow> byte list \<Rightarrow> psa_error + unit" where
  "validate_fid_loop 0 fid = Inl PSA_ERROR_DOES_NOT_EXIST"
| "validate_fid_loop (Suc n) fid =
     (if hd fid \<noteq> 0 then Inr () else validate_fid_loop n (tl fid))"

definition its_utils_validate_fid :: "byte list \<Rightarrow> psa_error + unit" where
  "its_utils_validate_fid fid = validate_fid_loop ITS_FILE_ID_SIZE fid"

definition ITS_UTILS_ALIGN :: "nat \<Rightarrow> nat \<Rightarrow> nat" where
  "ITS_UTILS_ALIGN x a =
     (let x = word_of_nat x :: 32 word; a = word_of_nat a :: 32 word
      in unat ((x + (a - 1)) AND NOT (a - 1)))"

definition ITS_UTILS_IS_ALIGNED :: "nat \<Rightarrow> nat \<Rightarrow> bool" where
  "ITS_UTILS_IS_ALIGNED x a =
     ((word_of_nat x :: 32 word) AND (word_of_nat a - 1) = 0)"

abbreviation fid_valid :: "byte list \<Rightarrow> bool" where
  "fid_valid fid \<equiv> its_utils_validate_fid fid = Inr ()"

section \<open>The boundary check\<close>

lemma check_contained_in_iff:
  assumes "superset_size < SIZE_MAX_P1"
  shows "its_utils_check_contained_in superset_size off n = Inr () \<longleftrightarrow> off + n \<le> superset_size"
  using assms by (auto simp: its_utils_check_contained_in_def wrap_simps)

lemma check_contained_in_error:
  "its_utils_check_contained_in superset_size off n = Inl e \<Longrightarrow> e = PSA_ERROR_INVALID_ARGUMENT"
  by (auto simp: its_utils_check_contained_in_def split: if_splits)

section \<open>File identifiers\<close>

lemma validate_fid_loop_iff:
  "length fid = n \<Longrightarrow> validate_fid_loop n fid = Inr () \<longleftrightarrow> (\<exists>x \<in> set fid. x \<noteq> 0)"
  by (induction n fid rule: validate_fid_loop.induct) (auto simp: length_Suc_conv)

lemma validate_fid_iff:
  "length fid = ITS_FILE_ID_SIZE \<Longrightarrow> fid_valid fid \<longleftrightarrow> fid \<noteq> replicate ITS_FILE_ID_SIZE 0"
  using validate_fid_loop_iff[of fid ITS_FILE_ID_SIZE]
  by (auto simp: its_utils_validate_fid_def replicate_eqI in_set_replicate)

lemma validate_fid_zero [simp]: "\<not> fid_valid (replicate ITS_FILE_ID_SIZE 0)"
  using validate_fid_iff[of "replicate ITS_FILE_ID_SIZE 0"] by simp

lemma validate_fid_cases:
  "its_utils_validate_fid fid = Inr () \<or> its_utils_validate_fid fid = Inl PSA_ERROR_DOES_NOT_EXIST"
proof -
  have "validate_fid_loop n fid = Inr () \<or> validate_fid_loop n fid = Inl PSA_ERROR_DOES_NOT_EXIST" for n
    by (induction n fid rule: validate_fid_loop.induct) auto
  then show ?thesis by (simp add: its_utils_validate_fid_def)
qed

section \<open>Alignment\<close>

text \<open>For a power of two the masks compute rounding up to a multiple and divisibility.\<close>

lemma and_not_mask_eq_push_drop: "w AND NOT (mask n) = push_bit n (drop_bit n (w :: 32 word))"
  by (rule bit_word_eqI) (auto simp: bit_simps)

lemma word_pow2_minus_1: "(word_of_nat (2 ^ k) :: 32 word) - 1 = mask k"
  by (simp add: mask_eq_exp_minus_1)

lemma ITS_UTILS_IS_ALIGNED_iff:
  assumes "k < 32" "x < SIZE_MAX_P1"
  shows "ITS_UTILS_IS_ALIGNED x (2 ^ k) \<longleftrightarrow> 2 ^ k dvd x"
proof -
  have "ITS_UTILS_IS_ALIGNED x (2 ^ k) \<longleftrightarrow> take_bit k (word_of_nat x :: 32 word) = 0"
    by (simp only: ITS_UTILS_IS_ALIGNED_def word_pow2_minus_1 take_bit_eq_mask)
  also have "\<dots> \<longleftrightarrow> unat (take_bit k (word_of_nat x :: 32 word)) = 0"
    by (simp only: unat_eq_zero)
  also have "unat (take_bit k (word_of_nat x :: 32 word)) = x mod 2 ^ k"
    using assms by (simp add: unsigned_take_bit_eq unat_of_nat take_bit_eq_mod [symmetric]
        take_bit_nat_eq_self_iff)
  finally show ?thesis by (simp add: dvd_eq_mod_eq_0)
qed

lemma ITS_UTILS_ALIGN_eq:
  assumes "k < 32" "x + 2 ^ k \<le> SIZE_MAX_P1"
  shows "ITS_UTILS_ALIGN x (2 ^ k) = (x + (2 ^ k - 1)) div 2 ^ k * 2 ^ k"
proof -
  let ?y = "x + (2 ^ k - 1)"
  have y: "?y < 2 ^ 32" using assms by simp
  have "(word_of_nat x :: 32 word) + (word_of_nat (2 ^ k) - 1) = word_of_nat ?y"
  proof -
    have "(word_of_nat (2 ^ k - 1) :: 32 word) = word_of_nat (2 ^ k) - 1" by (subst of_nat_diff) simp_all
    then show ?thesis by (simp only: of_nat_add)
  qed
  then have "ITS_UTILS_ALIGN x (2 ^ k) = unat (push_bit k (drop_bit k (word_of_nat ?y :: 32 word)))"
    by (simp only: ITS_UTILS_ALIGN_def Let_def word_pow2_minus_1 and_not_mask_eq_push_drop)
  also have "\<dots> = take_bit 32 (push_bit k (drop_bit k ?y))"
    using y by (simp add: unsigned_push_bit_eq unsigned_drop_bit_eq unat_of_nat take_bit_nat_eq_self)
  also have "push_bit k (drop_bit k ?y) = ?y div 2 ^ k * 2 ^ k"
    by (simp add: push_bit_eq_mult drop_bit_eq_div)
  also have "take_bit 32 \<dots> = \<dots>"
    using y by (intro take_bit_nat_eq_self) (meson div_times_less_eq_dividend le_less_trans)
  finally show ?thesis .
qed

end
