(* ===== verification/ITS_Flash.thy ===== *)
theory ITS_Flash
  imports ITS_Utils
begin

text \<open>
  The flash interface of Internal Trusted Storage
  (src/secure_fw/partitions/internal_trusted_storage/flash/its_flash_hal.h) and the driver
  that emulates flash in RAM (its_flash_ram.c). The function table \<open>its_flash_ops_t\<close> is a
  record of functions over the driver's state \<open>'d\<close>, which stands for what
  \<open>cfg->context\<close> points to. The locale \<open>flash_device\<close> is the contract the file system relies
  on: the device is an array of blocks, a read in range returns the bytes of the block, a
  write of at least one byte in range replaces them, an erase fills the block with the erase value.
\<close>

section \<open>The flash interface\<close>

record its_flash_config_t =
  flash_area_addr :: nat
  block_size :: nat
  num_blocks :: nat
  program_unit :: nat
  erase_val :: byte

text \<open>
  \<open>ops_read cfg block offset size\<close> returns the bytes stored through the out-pointer;
  \<open>ops_write cfg block buff offset size\<close> programs the first \<open>size\<close> bytes of \<open>buff\<close>;
  \<open>ops_init\<close> returns the configuration it fills in.
\<close>

record 'd its_flash_ops_t =
  ops_init :: "its_flash_config_t \<Rightarrow> ('d, its_flash_config_t) io"
  ops_read :: "its_flash_config_t \<Rightarrow> nat \<Rightarrow> nat \<Rightarrow> nat \<Rightarrow> ('d, byte list) io"
  ops_write :: "its_flash_config_t \<Rightarrow> nat \<Rightarrow> byte list \<Rightarrow> nat \<Rightarrow> nat \<Rightarrow> ('d, unit) io"
  ops_flush :: "its_flash_config_t \<Rightarrow> nat \<Rightarrow> ('d, unit) io"
  ops_erase :: "its_flash_config_t \<Rightarrow> nat \<Rightarrow> ('d, unit) io"

definition ITS_BLOCK_INVALID_ID :: nat where "ITS_BLOCK_INVALID_ID = 4294967295"

section \<open>The contract of a device\<close>

locale flash_device =
  fixes fcfg :: its_flash_config_t
    and fops :: "'d its_flash_ops_t"
    and content :: "'d \<Rightarrow> nat \<Rightarrow> byte list"
    and upd :: "'d \<Rightarrow> nat \<Rightarrow> byte list \<Rightarrow> 'd"
    and dev_ok :: "'d \<Rightarrow> bool"
  assumes content_length:
      "dev_ok d \<Longrightarrow> b < num_blocks fcfg \<Longrightarrow> length (content d b) = block_size fcfg"
    and content_upd:
      "dev_ok d \<Longrightarrow> b < num_blocks fcfg \<Longrightarrow> b' < num_blocks fcfg \<Longrightarrow> length x = block_size fcfg \<Longrightarrow>
       content (upd d b x) b' = (if b' = b then x else content d b')"
    and dev_ok_upd:
      "dev_ok d \<Longrightarrow> b < num_blocks fcfg \<Longrightarrow> length x = block_size fcfg \<Longrightarrow> dev_ok (upd d b x)"
    and upd_id: "dev_ok d \<Longrightarrow> b < num_blocks fcfg \<Longrightarrow> upd d b (content d b) = d"
    and upd_upd:
      "dev_ok d \<Longrightarrow> b < num_blocks fcfg \<Longrightarrow> length x = block_size fcfg \<Longrightarrow> length y = block_size fcfg \<Longrightarrow>
       upd (upd d b x) b y = upd d b y"
    and read_law:
      "dev_ok d \<Longrightarrow> b < num_blocks fcfg \<Longrightarrow> off < block_size fcfg \<Longrightarrow> off + n \<le> block_size fcfg \<Longrightarrow>
       ops_read fops fcfg b off n d = (Inr (rd (content d b) off n), d)"
    and write_law:
      "dev_ok d \<Longrightarrow> b < num_blocks fcfg \<Longrightarrow> off < block_size fcfg \<Longrightarrow> off + n \<le> block_size fcfg \<Longrightarrow>
       0 < n \<Longrightarrow> n \<le> length buff \<Longrightarrow>
       ops_write fops fcfg b buff off n d = (Inr (), upd d b (wr (content d b) off (take n buff)))"
    and erase_law:
      "dev_ok d \<Longrightarrow> b < num_blocks fcfg \<Longrightarrow>
       ops_erase fops fcfg b d = (Inr (), upd d b (replicate (block_size fcfg) (erase_val fcfg)))"
    and flush_law:
      "dev_ok d \<Longrightarrow> b < num_blocks fcfg \<Longrightarrow> ops_flush fops fcfg b d = (Inr (), d)"
begin

text \<open>Reading back what was written, and reading elsewhere, on the interface itself.\<close>

lemma read_after_write:
  assumes "dev_ok d" "b < num_blocks fcfg" "off < block_size fcfg" "off + length buff \<le> block_size fcfg" "buff \<noteq> []"
    and "ops_write fops fcfg b buff off (length buff) d = (r, d')"
  shows "r = Inr () \<and> ops_read fops fcfg b off (length buff) d' = (Inr buff, d')"
proof -
  let ?x = "wr (content d b) off buff"
  from assms have d': "r = Inr ()" "d' = upd d b ?x" by (simp_all add: write_law)
  have len: "length ?x = block_size fcfg" using assms by (simp add: content_length)
  have "ops_read fops fcfg b off (length buff) d' = (Inr (rd (content d' b) off (length buff)), d')"
    using assms len by (simp add: d' read_law dev_ok_upd)
  moreover have "content d' b = ?x" using assms len by (simp add: d' content_upd)
  ultimately show ?thesis using assms d' by (simp add: rd_wr_same content_length)
qed

lemma read_other_block:
  assumes "dev_ok d" "b < num_blocks fcfg" "off + length buff \<le> block_size fcfg" "off < block_size fcfg" "buff \<noteq> []"
    and "b' < num_blocks fcfg" "b' \<noteq> b" "off' < block_size fcfg" "off' + n \<le> block_size fcfg"
    and "ops_write fops fcfg b buff off (length buff) d = (r, d')"
  shows "fst (ops_read fops fcfg b' off' n d') = fst (ops_read fops fcfg b' off' n d)"
  using assms by (auto simp: write_law read_law dev_ok_upd content_upd content_length)

end

section \<open>Flash emulated in RAM\<close>

text \<open>The state is \<open>dev->buffer\<close>; \<open>dev->size\<close> is its length.\<close>

type_synonym ram_dev = "byte list"

definition get_phys_address_ram :: "its_flash_config_t \<Rightarrow> nat \<Rightarrow> nat \<Rightarrow> nat" where
  "get_phys_address_ram cfg block_id offset = add32 (mul32 block_id (block_size cfg)) offset"

definition its_flash_ram_init :: "its_flash_config_t \<Rightarrow> (ram_dev, its_flash_config_t) io" where
  "its_flash_ram_init cfg = (\<lambda>d.
     if block_size cfg > length d \<or> length d div block_size cfg < num_blocks cfg
     then (Inl PSA_ERROR_PROGRAMMER_ERROR, d)
     else (Inr cfg, d))"

definition its_flash_ram_read ::
  "its_flash_config_t \<Rightarrow> nat \<Rightarrow> nat \<Rightarrow> nat \<Rightarrow> (ram_dev, byte list) io" where
  "its_flash_ram_read cfg block_id offset sz = (\<lambda>d.
     let idx = get_phys_address_ram cfg block_id offset
     in if idx \<ge> length d \<or> sz > length d \<or> idx > length d - sz
        then (Inl PSA_ERROR_PROGRAMMER_ERROR, d)
        else (Inr (rd d idx sz), d))"

definition its_flash_ram_write ::
  "its_flash_config_t \<Rightarrow> nat \<Rightarrow> byte list \<Rightarrow> nat \<Rightarrow> nat \<Rightarrow> (ram_dev, unit) io" where
  "its_flash_ram_write cfg block_id buff offset sz = (\<lambda>d.
     let idx = get_phys_address_ram cfg block_id offset
     in if idx \<ge> length d \<or> sz > length d \<or> idx > length d - sz
        then (Inl PSA_ERROR_PROGRAMMER_ERROR, d)
        else (Inr (), wr d idx (take sz buff)))"

definition its_flash_ram_flush :: "its_flash_config_t \<Rightarrow> nat \<Rightarrow> (ram_dev, unit) io" where
  "its_flash_ram_flush cfg block_id = return_io ()"

definition its_flash_ram_erase :: "its_flash_config_t \<Rightarrow> nat \<Rightarrow> (ram_dev, unit) io" where
  "its_flash_ram_erase cfg block_id = (\<lambda>d.
     let idx = get_phys_address_ram cfg block_id 0
     in if idx \<ge> length d \<or> idx > sub32 (length d) (block_size cfg)
        then (Inl PSA_ERROR_PROGRAMMER_ERROR, d)
        else (Inr (), wr d idx (replicate (block_size cfg) (erase_val cfg))))"

definition its_flash_fs_ops_ram :: "ram_dev its_flash_ops_t" where
  "its_flash_fs_ops_ram =
     \<lparr>ops_init = its_flash_ram_init, ops_read = its_flash_ram_read,
      ops_write = its_flash_ram_write, ops_flush = its_flash_ram_flush,
      ops_erase = its_flash_ram_erase\<rparr>"

text \<open>
  The RAM device as an array of blocks. \<open>ram_ok\<close> is what \<open>its_flash_ram_init\<close> establishes
  (the configured blocks fit in the buffer), with sizes that fit in 32 bits.
\<close>

definition ram_ok :: "its_flash_config_t \<Rightarrow> ram_dev \<Rightarrow> bool" where
  "ram_ok cfg d \<longleftrightarrow> 0 < block_size cfg \<and> num_blocks cfg * block_size cfg \<le> length d
     \<and> length d < SIZE_MAX_P1"

definition ram_content :: "its_flash_config_t \<Rightarrow> ram_dev \<Rightarrow> nat \<Rightarrow> byte list" where
  "ram_content cfg d b = rd d (b * block_size cfg) (block_size cfg)"

definition ram_upd :: "its_flash_config_t \<Rightarrow> ram_dev \<Rightarrow> nat \<Rightarrow> byte list \<Rightarrow> ram_dev" where
  "ram_upd cfg d b x = wr d (b * block_size cfg) x"

lemma block_in_range:
  assumes "b < n" "off + m \<le> bs"
  shows "b * bs + (off + m) \<le> n * (bs :: nat)"
proof -
  have "b * bs + (off + m) \<le> Suc b * bs" using assms(2) by simp
  also have "\<dots> \<le> n * bs" using assms(1) by (intro mult_le_mono1) simp
  finally show ?thesis .
qed

lemma ram_phys_address:
  assumes "ram_ok cfg d" "b < num_blocks cfg" "off < block_size cfg" "off + n \<le> block_size cfg"
  shows "get_phys_address_ram cfg b off = b * block_size cfg + off"
    and "b * block_size cfg + off < length d"
    and "b * block_size cfg + off + n \<le> length d"
proof -
  have *: "b * block_size cfg + (off + n) \<le> num_blocks cfg * block_size cfg"
    "b * block_size cfg + (off + 1) \<le> num_blocks cfg * block_size cfg"
    using assms by (intro block_in_range; simp)+
  with assms(1) show "b * block_size cfg + off < length d"
    and "b * block_size cfg + off + n \<le> length d"
    by (auto simp: ram_ok_def)
  with assms(1) show "get_phys_address_ram cfg b off = b * block_size cfg + off"
    by (simp add: get_phys_address_ram_def ram_ok_def wrap_simps)
qed

lemma wr_wr_nested:
  assumes "base + n \<le> length d" "off + length x \<le> n"
  shows "wr d (base + off) x = wr d base (wr (rd d base n) off x)"
proof (rule nth_equalityI)
  show "length (wr d (base + off) x) = length (wr d base (wr (rd d base n) off x))"
    using assms by simp
  fix i assume "i < length (wr d (base + off) x)"
  then have i: "i < length d" using assms by simp
  show "wr d (base + off) x ! i = wr d base (wr (rd d base n) off x) ! i"
  proof (cases "base \<le> i \<and> i < base + n")
    case True
    then have "wr (rd d base n) off x ! (i - base)
        = (if off \<le> i - base \<and> i - base < off + length x then x ! (i - base - off) else d ! i)"
      using assms by (subst nth_wr) (auto simp: nth_rd)
    with True show ?thesis using assms i by (auto simp: nth_wr)
  next
    case False
    then show ?thesis using assms i by (auto simp: nth_wr)
  qed
qed

interpretation ram: flash_device fcfg its_flash_fs_ops_ram "ram_content fcfg" "ram_upd fcfg" "ram_ok fcfg"
  for fcfg
proof unfold_locales
  fix d b assume a: "ram_ok fcfg d" "b < num_blocks fcfg"
  have fits: "b * block_size fcfg + block_size fcfg \<le> length d" "0 < block_size fcfg"
    using a ram_phys_address(3)[of fcfg d b 0 "block_size fcfg"] by (auto simp: ram_ok_def)
  then show "length (ram_content fcfg d b) = block_size fcfg" by (simp add: ram_content_def)
  show "ops_flush its_flash_fs_ops_ram fcfg b d = (Inr (), d)"
    by (simp add: its_flash_fs_ops_ram_def its_flash_ram_flush_def io_simps)
  have "b * block_size fcfg \<le> length d - block_size fcfg" using fits by simp
  moreover have "sub32 (length d) (block_size fcfg) = length d - block_size fcfg"
    using fits a by (simp add: wrap_simps ram_ok_def)
  ultimately show "ops_erase its_flash_fs_ops_ram fcfg b d
      = (Inr (), ram_upd fcfg d b (replicate (block_size fcfg) (erase_val fcfg)))"
    using a fits ram_phys_address(1,2)[of fcfg d b 0 1]
    by (simp add: its_flash_fs_ops_ram_def its_flash_ram_erase_def ram_upd_def Let_def)
  show "ram_upd fcfg d b (ram_content fcfg d b) = d"
    using fits by (simp add: ram_upd_def ram_content_def wr_rd_id)
  fix x :: "byte list" assume x: "length x = block_size fcfg"
  show "ram_upd fcfg (ram_upd fcfg d b x) b y = ram_upd fcfg d b y"
    if "length y = block_size fcfg" for y
    using fits x that by (simp add: ram_upd_def wr_wr_same)
  show "ram_ok fcfg (ram_upd fcfg d b x)"
    using a fits x by (simp add: ram_ok_def ram_upd_def)
next
  fix d b b' and x :: "byte list"
  assume a: "ram_ok fcfg d" "b < num_blocks fcfg" "b' < num_blocks fcfg" "length x = block_size fcfg"
  have fits: "b * block_size fcfg + block_size fcfg \<le> length d"
    "b' * block_size fcfg + block_size fcfg \<le> length d"
    using a ram_phys_address(3)[of fcfg d _ 0 "block_size fcfg"] by (auto simp: ram_ok_def)
  have "b' * block_size fcfg + block_size fcfg \<le> b * block_size fcfg" if "b' < b"
    using that block_in_range[of b' b 0 "block_size fcfg" "block_size fcfg"] by simp
  moreover have "b * block_size fcfg + block_size fcfg \<le> b' * block_size fcfg" if "b < b'"
    using that block_in_range[of b b' 0 "block_size fcfg" "block_size fcfg"] by simp
  ultimately show "ram_content fcfg (ram_upd fcfg d b x) b' = (if b' = b then x else ram_content fcfg d b')"
    using fits a(4)
    by (cases b b' rule: linorder_cases)
      (simp_all add: ram_content_def ram_upd_def rd_wr_same rd_wr_disj)
next
  fix d b off n
  assume a: "ram_ok fcfg d" "b < num_blocks fcfg" "off < block_size fcfg" "off + n \<le> block_size fcfg"
  note p = ram_phys_address[OF a]
  show "ops_read its_flash_fs_ops_ram fcfg b off n d = (Inr (rd (ram_content fcfg d b) off n), d)"
    using a p by (simp add: its_flash_fs_ops_ram_def its_flash_ram_read_def ram_content_def Let_def rd_rd)
  fix buff :: "byte list" assume "n \<le> length buff"
  moreover have "b * block_size fcfg + block_size fcfg \<le> length d"
    using a ram_phys_address(3)[of fcfg d b 0 "block_size fcfg"] by auto
  ultimately show "ops_write its_flash_fs_ops_ram fcfg b buff off n d
      = (Inr (), ram_upd fcfg d b (wr (ram_content fcfg d b) off (take n buff)))"
    using a p by (simp add: its_flash_fs_ops_ram_def its_flash_ram_write_def ram_upd_def ram_content_def
        Let_def wr_wr_nested)
qed

lemma its_flash_ram_init_ok:
  assumes "0 < block_size cfg" "length d < SIZE_MAX_P1"
  shows "its_flash_ram_init cfg d = (Inr cfg', d') \<longleftrightarrow>
    0 < num_blocks cfg \<and> ram_ok cfg d \<and> cfg' = cfg \<and> d' = d
    \<or> num_blocks cfg = 0 \<and> block_size cfg \<le> length d \<and> cfg' = cfg \<and> d' = d"
proof -
  have "\<not> length d div block_size cfg < num_blocks cfg \<longleftrightarrow> num_blocks cfg * block_size cfg \<le> length d"
    using assms(1) by (simp add: div_less_iff_less_mult not_less)
  moreover have "block_size cfg \<le> num_blocks cfg * block_size cfg" if "0 < num_blocks cfg"
    using that by simp
  ultimately show ?thesis
    using assms by (auto simp: its_flash_ram_init_def ram_ok_def)
qed

end
