(* ===== verification/ITS_Mblock.thy ===== *)
theory ITS_Mblock
  imports ITS_Flash
begin

text \<open>
  The metadata block of the flash file system
  (src/secure_fw/partitions/internal_trusted_storage/flash_fs/its_flash_fs_mblock.c and .h).
  The structures programmed to flash are records with their byte layout written out
  (\<open>header_bytes\<close>, \<open>block_meta_bytes\<close>, \<open>file_meta_bytes\<close>); the layout is the one of
  \<open>ITS_FLASH_MAX_ALIGNMENT <= 4\<close> without \<open>ITS_ENCRYPTION\<close>, where the \<open>roundup\<close> members are
  absent. Compile-time options that change the behaviour (\<open>ITS_VALIDATE_METADATA_FROM_FLASH\<close>,
  \<open>ITS_FLASH_MAX_ALIGNMENT\<close>) are fields of the configuration.
\<close>

section \<open>Structures\<close>

text \<open>
  \<open>its_metadata_block_header_t\<close> with its trailing padding byte, which the whole-structure
  reads and writes carry along.
\<close>

record its_metadata_block_header_t =
  scratch_dblock :: nat
  fs_version :: byte
  metadata_xor :: byte
  active_swap_count :: byte
  header_pad :: byte

record its_block_meta_t =
  phy_id :: nat
  data_start :: nat
  free_size :: nat

record its_file_meta_t =
  lblock :: nat
  data_idx :: nat
  cur_size :: nat
  max_size :: nat
  flags :: "32 word"
  fid :: "byte list"

record 'd its_flash_fs_config_t =
  flash_cfg :: its_flash_config_t
  ops :: "'d its_flash_ops_t"
  max_file_size :: nat
  max_num_files :: nat
  validate_metadata :: bool   \<comment> \<open>\<open>ITS_VALIDATE_METADATA_FROM_FLASH\<close>\<close>
  max_alignment :: nat        \<comment> \<open>\<open>ITS_FLASH_MAX_ALIGNMENT\<close>\<close>

text \<open>The context; \<open>dev\<close> is the state of the flash driver behind \<open>cfg->flash_cfg->context\<close>.\<close>

record 'd its_flash_fs_ctx_t =
  meta_block_header :: its_metadata_block_header_t
  active_metablock :: nat
  scratch_metablock :: nat
  dev :: 'd

definition ITS_SUPPORTED_VERSION :: byte where "ITS_SUPPORTED_VERSION = 2"
definition ITS_BACKWARD_SUPPORTED_VERSION :: byte where "ITS_BACKWARD_SUPPORTED_VERSION = 1"
definition ITS_METADATA_INVALID_INDEX :: nat where "ITS_METADATA_INVALID_INDEX = 65535"
definition ITS_LOGICAL_DBLOCK0 :: nat where "ITS_LOGICAL_DBLOCK0 = 0"
definition ITS_METADATA_BLOCK0 :: nat where "ITS_METADATA_BLOCK0 = 0"
definition ITS_METADATA_BLOCK1 :: nat where "ITS_METADATA_BLOCK1 = 1"
definition ITS_MAX_BLOCK_DATA_COPY :: nat where "ITS_MAX_BLOCK_DATA_COPY = 256"
definition ITS_BLOCK_META_HEADER_SIZE :: nat where "ITS_BLOCK_META_HEADER_SIZE = 8"
definition ITS_BLOCK_META_HEADER_COMP_SIZE :: nat where "ITS_BLOCK_META_HEADER_COMP_SIZE = 8"
definition ITS_BLOCK_METADATA_SIZE :: nat where "ITS_BLOCK_METADATA_SIZE = 12"
definition ITS_FILE_METADATA_SIZE :: nat where "ITS_FILE_METADATA_SIZE = 32"

lemmas its_consts = ITS_SUPPORTED_VERSION_def ITS_BACKWARD_SUPPORTED_VERSION_def
  ITS_METADATA_INVALID_INDEX_def ITS_LOGICAL_DBLOCK0_def ITS_METADATA_BLOCK0_def
  ITS_METADATA_BLOCK1_def ITS_MAX_BLOCK_DATA_COPY_def ITS_BLOCK_META_HEADER_SIZE_def
  ITS_BLOCK_META_HEADER_COMP_SIZE_def ITS_BLOCK_METADATA_SIZE_def ITS_FILE_METADATA_SIZE_def
  ITS_FILE_ID_SIZE_def

definition header_bytes :: "its_metadata_block_header_t \<Rightarrow> byte list" where
  "header_bytes h = le32 (scratch_dblock h) @
     [fs_version h, metadata_xor h, active_swap_count h, header_pad h]"

definition header_of_bytes :: "byte list \<Rightarrow> its_metadata_block_header_t" where
  "header_of_bytes bs =
     \<lparr>scratch_dblock = de32 (rd bs 0 4), fs_version = bs ! 4, metadata_xor = bs ! 5,
      active_swap_count = bs ! 6, header_pad = bs ! 7\<rparr>"

definition block_meta_bytes :: "its_block_meta_t \<Rightarrow> byte list" where
  "block_meta_bytes m = le32 (phy_id m) @ le32 (data_start m) @ le32 (free_size m)"

definition block_meta_of_bytes :: "byte list \<Rightarrow> its_block_meta_t" where
  "block_meta_of_bytes bs =
     \<lparr>phy_id = de32 (rd bs 0 4), data_start = de32 (rd bs 4 4), free_size = de32 (rd bs 8 4)\<rparr>"

definition file_meta_bytes :: "its_file_meta_t \<Rightarrow> byte list" where
  "file_meta_bytes m = le32 (lblock m) @ le32 (data_idx m) @ le32 (cur_size m)
     @ le32 (max_size m) @ le32 (unat (flags m)) @ fid m"

definition file_meta_of_bytes :: "byte list \<Rightarrow> its_file_meta_t" where
  "file_meta_of_bytes bs =
     \<lparr>lblock = de32 (rd bs 0 4), data_idx = de32 (rd bs 4 4), cur_size = de32 (rd bs 8 4),
      max_size = de32 (rd bs 12 4), flags = word_of_nat (de32 (rd bs 16 4)), fid = rd bs 20 12\<rparr>"

definition zero_file_meta :: its_file_meta_t where
  "zero_file_meta = \<lparr>lblock = 0, data_idx = 0, cur_size = 0, max_size = 0, flags = 0,
     fid = replicate ITS_FILE_ID_SIZE 0\<rparr>"

section \<open>Calls of the flash driver\<close>

definition dev_read :: "'d its_flash_fs_config_t \<Rightarrow> nat \<Rightarrow> nat \<Rightarrow> nat
    \<Rightarrow> ('d its_flash_fs_ctx_t, byte list) io" where
  "dev_read c blk off n = (\<lambda>s. case ops_read (ops c) (flash_cfg c) blk off n (dev s) of
     (r, d) \<Rightarrow> (r, s\<lparr>dev := d\<rparr>))"

definition dev_write :: "'d its_flash_fs_config_t \<Rightarrow> nat \<Rightarrow> byte list \<Rightarrow> nat \<Rightarrow> nat
    \<Rightarrow> ('d its_flash_fs_ctx_t, unit) io" where
  "dev_write c blk buff off n = (\<lambda>s. case ops_write (ops c) (flash_cfg c) blk buff off n (dev s) of
     (r, d) \<Rightarrow> (r, s\<lparr>dev := d\<rparr>))"

definition dev_flush :: "'d its_flash_fs_config_t \<Rightarrow> nat \<Rightarrow> ('d its_flash_fs_ctx_t, unit) io" where
  "dev_flush c blk = (\<lambda>s. case ops_flush (ops c) (flash_cfg c) blk (dev s) of
     (r, d) \<Rightarrow> (r, s\<lparr>dev := d\<rparr>))"

definition dev_erase :: "'d its_flash_fs_config_t \<Rightarrow> nat \<Rightarrow> ('d its_flash_fs_ctx_t, unit) io" where
  "dev_erase c blk = (\<lambda>s. case ops_erase (ops c) (flash_cfg c) blk (dev s) of
     (r, d) \<Rightarrow> (r, s\<lparr>dev := d\<rparr>))"

section \<open>Layout of the flash area\<close>

definition ITS_OTHER_META_BLOCK :: "nat \<Rightarrow> nat" where
  "ITS_OTHER_META_BLOCK metablock =
     (if metablock = ITS_METADATA_BLOCK0 then ITS_METADATA_BLOCK1 else ITS_METADATA_BLOCK0)"

definition its_init_scratch_dblock :: "'d its_flash_fs_config_t \<Rightarrow> nat" where
  "its_init_scratch_dblock c = (if num_blocks (flash_cfg c) = 2 then 1 else 2)"

definition its_init_dblock_start :: "'d its_flash_fs_config_t \<Rightarrow> nat" where
  "its_init_dblock_start c = (if num_blocks (flash_cfg c) = 2 then 0 else 3)"

definition its_num_dedicated_dblocks :: "'d its_flash_fs_config_t \<Rightarrow> nat" where
  "its_num_dedicated_dblocks c =
     (if num_blocks (flash_cfg c) = 2 then 0
      else sub32 (num_blocks (flash_cfg c)) (its_init_dblock_start c))"

definition its_num_active_dblocks :: "'d its_flash_fs_config_t \<Rightarrow> nat" where
  "its_num_active_dblocks c = add32 (its_num_dedicated_dblocks c) 1"

definition its_mblock_block_meta_offset :: "nat \<Rightarrow> nat" where
  "its_mblock_block_meta_offset lb =
     add32 ITS_BLOCK_META_HEADER_SIZE (mul32 lb ITS_BLOCK_METADATA_SIZE)"

definition its_mblock_file_meta_offset :: "'d its_flash_fs_config_t \<Rightarrow> nat \<Rightarrow> nat" where
  "its_mblock_file_meta_offset c idx =
     add32 (add32 ITS_BLOCK_META_HEADER_SIZE
              (mul32 (its_num_active_dblocks c) ITS_BLOCK_METADATA_SIZE))
           (mul32 idx ITS_FILE_METADATA_SIZE)"

definition its_mblock_swap_metablocks :: "('d its_flash_fs_ctx_t, unit) io" where
  "its_mblock_swap_metablocks = modify_io (\<lambda>s.
     let tmp_block = scratch_metablock s;
         s = s\<lparr>scratch_metablock := active_metablock s\<rparr>
     in s\<lparr>active_metablock := tmp_block\<rparr>)"

definition its_mblock_latest_meta_block ::
  "'d its_flash_fs_config_t \<Rightarrow> its_metadata_block_header_t \<Rightarrow> its_metadata_block_header_t \<Rightarrow> nat" where
  "its_mblock_latest_meta_block c h_meta0 h_meta1 =
     (let meta0_swap_count = active_swap_count h_meta0;
          meta1_swap_count = active_swap_count h_meta1;
          rollover_val = (if erase_val (flash_cfg c) = 0 then 1 else 0)
      in if meta1_swap_count = rollover_val \<and> meta0_swap_count \<noteq> rollover_val + 1
         then ITS_METADATA_BLOCK1
         else if meta0_swap_count = rollover_val \<and> meta1_swap_count \<noteq> rollover_val + 1
         then ITS_METADATA_BLOCK0
         else if meta1_swap_count > meta0_swap_count then ITS_METADATA_BLOCK1
         else ITS_METADATA_BLOCK0)"

section \<open>Validation of what is read from flash\<close>

definition its_mblock_validate_file_meta ::
  "'d its_flash_fs_config_t \<Rightarrow> its_file_meta_t \<Rightarrow> psa_error + unit" where
  "its_mblock_validate_file_meta c file_meta =
     (if lblock file_meta \<ge> its_num_active_dblocks c then Inl PSA_ERROR_DATA_CORRUPT
      else if fid_valid (fid file_meta) then
        (if max_size file_meta > max_file_size c then Inl PSA_ERROR_DATA_CORRUPT
         else if cur_size file_meta > max_size file_meta then Inl PSA_ERROR_DATA_CORRUPT
         else if lblock file_meta = ITS_LOGICAL_DBLOCK0
               \<and> data_idx file_meta < its_mblock_file_meta_offset c (max_num_files c)
         then Inl PSA_ERROR_DATA_CORRUPT
         else if its_utils_check_contained_in (block_size (flash_cfg c)) (data_idx file_meta)
                   (max_size file_meta) \<noteq> Inr ()
         then Inl PSA_ERROR_DATA_CORRUPT
         else Inr ())
      else Inr ())"

definition its_mblock_validate_block_meta ::
  "'d its_flash_fs_config_t \<Rightarrow> its_block_meta_t \<Rightarrow> psa_error + unit" where
  "its_mblock_validate_block_meta c block_meta =
     (if phy_id block_meta \<ge> num_blocks (flash_cfg c) then Inl PSA_ERROR_DATA_CORRUPT
      else if its_utils_check_contained_in (block_size (flash_cfg c)) (data_start block_meta)
                (free_size block_meta) \<noteq> Inr ()
      then Inl PSA_ERROR_DATA_CORRUPT
      else
        (let valid_data_start_value =
               (if phy_id block_meta = ITS_METADATA_BLOCK0 \<or> phy_id block_meta = ITS_METADATA_BLOCK1
                then its_mblock_file_meta_offset c (max_num_files c) else 0)
         in if data_start block_meta \<noteq> valid_data_start_value then Inl PSA_ERROR_DATA_CORRUPT
            else Inr ()))"

definition its_mblock_validate_block_meta_comp ::
  "'d its_flash_fs_config_t \<Rightarrow> its_block_meta_t \<Rightarrow> psa_error + unit" where
  "its_mblock_validate_block_meta_comp c block_meta =
     (if phy_id block_meta \<ge> num_blocks (flash_cfg c) then Inl PSA_ERROR_DATA_CORRUPT
      else if its_utils_check_contained_in (block_size (flash_cfg c)) (data_start block_meta)
                (free_size block_meta) \<noteq> Inr ()
      then Inl PSA_ERROR_DATA_CORRUPT
      else
        (let valid_data_start_value =
               (if phy_id block_meta = ITS_METADATA_BLOCK0 \<or> phy_id block_meta = ITS_METADATA_BLOCK1
                then add32 (add32 ITS_BLOCK_META_HEADER_COMP_SIZE
                              (mul32 (its_num_active_dblocks c) ITS_BLOCK_METADATA_SIZE))
                           (mul32 (max_num_files c) ITS_FILE_METADATA_SIZE)
                else 0)
         in if data_start block_meta \<noteq> valid_data_start_value then Inl PSA_ERROR_DATA_CORRUPT
            else Inr ()))"

text \<open>\<open>for (j = 0; j < size; j++) xor_value_temp ^= metadata[j];\<close>\<close>

definition xor_bytes :: "byte list \<Rightarrow> byte \<Rightarrow> byte" where
  "xor_bytes bs acc = foldl (XOR) acc bs"

fun xor_entries_loop :: "'d its_flash_fs_config_t \<Rightarrow> nat \<Rightarrow> (nat \<Rightarrow> nat) \<Rightarrow> nat \<Rightarrow> nat list \<Rightarrow> byte
    \<Rightarrow> ('d its_flash_fs_ctx_t, byte) io" where
  "xor_entries_loop c block_id offset_of entry_size [] acc = return_io acc"
| "xor_entries_loop c block_id offset_of entry_size (i # is) acc =
     bind_io (dev_read c block_id (offset_of i) entry_size) (\<lambda>metadata.
     xor_entries_loop c block_id offset_of entry_size is (xor_bytes metadata acc))"

definition its_mblock_calculate_metadata_xor ::
  "'d its_flash_fs_config_t \<Rightarrow> nat \<Rightarrow> ('d its_flash_fs_ctx_t, byte) io" where
  "its_mblock_calculate_metadata_xor c block_id =
     (if block_id \<noteq> ITS_METADATA_BLOCK0 \<and> block_id \<noteq> ITS_METADATA_BLOCK1
      then raise_io PSA_ERROR_INVALID_ARGUMENT
      else
        bind_io (xor_entries_loop c block_id its_mblock_block_meta_offset ITS_BLOCK_METADATA_SIZE
                   [0..<its_num_active_dblocks c] 0) (\<lambda>acc.
        xor_entries_loop c block_id (its_mblock_file_meta_offset c) ITS_FILE_METADATA_SIZE
          [0..<max_num_files c] acc))"

definition its_mblock_validate_metadata_xor ::
  "'d its_flash_fs_config_t \<Rightarrow> its_metadata_block_header_t \<Rightarrow> nat \<Rightarrow> ('d its_flash_fs_ctx_t, unit) io" where
  "its_mblock_validate_metadata_xor c h_meta block_id =
     bind_io (its_mblock_calculate_metadata_xor c block_id) (\<lambda>xor_value.
     if xor_value \<noteq> metadata_xor h_meta then raise_io PSA_ERROR_STORAGE_FAILURE
     else return_io ())"

definition its_mblock_validate_swap_count ::
  "'d its_flash_fs_config_t \<Rightarrow> byte \<Rightarrow> psa_error + unit" where
  "its_mblock_validate_swap_count c swap_count =
     (if swap_count = erase_val (flash_cfg c) then Inl PSA_ERROR_GENERIC_ERROR else Inr ())"

definition its_mblock_validate_fs_version :: "byte \<Rightarrow> psa_error + bool" where
  "its_mblock_validate_fs_version version =
     (if version = ITS_BACKWARD_SUPPORTED_VERSION then Inr True
      else if version = ITS_SUPPORTED_VERSION then Inr False
      else Inl PSA_ERROR_GENERIC_ERROR)"

definition lift_status :: "psa_error + 'a \<Rightarrow> ('s, 'a) io" where
  "lift_status r = (\<lambda>s. (r, s))"

text \<open>
  In the backward compatible layout \<open>active_swap_count\<close> sits where the current layout has
  \<open>metadata_xor\<close> (\<open>its_metadata_block_header_comp_t\<close>): the pointer cast of the source reads
  that byte.
\<close>

definition comp_active_swap_count :: "its_metadata_block_header_t \<Rightarrow> byte" where
  "comp_active_swap_count h = metadata_xor h"

definition its_mblock_validate_header_meta ::
  "'d its_flash_fs_config_t \<Rightarrow> its_metadata_block_header_t \<Rightarrow> nat \<Rightarrow> ('d its_flash_fs_ctx_t, unit) io" where
  "its_mblock_validate_header_meta c h_meta block_id =
     bind_io (lift_status (its_mblock_validate_fs_version (fs_version h_meta))) (\<lambda>backward_compatible.
     if backward_compatible
     then lift_status (its_mblock_validate_swap_count c (comp_active_swap_count h_meta))
     else
       bind_io (lift_status (its_mblock_validate_swap_count c (active_swap_count h_meta))) (\<lambda>_.
       if validate_metadata c then its_mblock_validate_metadata_xor c h_meta block_id
       else return_io ()))"

section \<open>Reading and writing entries\<close>

definition its_flash_fs_mblock_read_file_meta ::
  "'d its_flash_fs_config_t \<Rightarrow> nat \<Rightarrow> ('d its_flash_fs_ctx_t, its_file_meta_t) io" where
  "its_flash_fs_mblock_read_file_meta c idx =
     bind_io (gets_io active_metablock) (\<lambda>active.
     bind_io (dev_read c active (its_mblock_file_meta_offset c idx) ITS_FILE_METADATA_SIZE) (\<lambda>bs.
     let file_meta = file_meta_of_bytes bs
     in if validate_metadata c
        then bind_io (lift_status (its_mblock_validate_file_meta c file_meta))
               (\<lambda>_. return_io file_meta)
        else return_io file_meta))"

definition its_flash_fs_mblock_read_block_metadata ::
  "'d its_flash_fs_config_t \<Rightarrow> nat \<Rightarrow> ('d its_flash_fs_ctx_t, its_block_meta_t) io" where
  "its_flash_fs_mblock_read_block_metadata c lb =
     bind_io (gets_io active_metablock) (\<lambda>active.
     bind_io (dev_read c active (its_mblock_block_meta_offset lb) ITS_BLOCK_METADATA_SIZE) (\<lambda>bs.
     let block_meta = block_meta_of_bytes bs
     in if validate_metadata c
        then bind_io (lift_status (its_mblock_validate_block_meta c block_meta))
               (\<lambda>_. return_io block_meta)
        else return_io block_meta))"

definition its_flash_fs_mblock_read_block_metadata_comp ::
  "'d its_flash_fs_config_t \<Rightarrow> nat \<Rightarrow> ('d its_flash_fs_ctx_t, its_block_meta_t) io" where
  "its_flash_fs_mblock_read_block_metadata_comp c lb =
     bind_io (gets_io active_metablock) (\<lambda>active.
     bind_io (dev_read c active
                (add32 ITS_BLOCK_META_HEADER_COMP_SIZE (mul32 lb ITS_BLOCK_METADATA_SIZE))
                ITS_BLOCK_METADATA_SIZE) (\<lambda>bs.
     let block_meta = block_meta_of_bytes bs
     in if validate_metadata c
        then bind_io (lift_status (its_mblock_validate_block_meta_comp c block_meta))
               (\<lambda>_. return_io block_meta)
        else return_io block_meta))"

fun free_file_index_loop :: "'d its_flash_fs_config_t \<Rightarrow> nat list \<Rightarrow> bool
    \<Rightarrow> ('d its_flash_fs_ctx_t, nat) io" where
  "free_file_index_loop c [] use_spare = return_io ITS_METADATA_INVALID_INDEX"
| "free_file_index_loop c (i # is) use_spare =
     bind_io (try_io (its_flash_fs_mblock_read_file_meta c i)) (\<lambda>r. case r of
       Inl err \<Rightarrow> return_io ITS_METADATA_INVALID_INDEX
     | Inr tmp_metadata \<Rightarrow>
         if its_utils_validate_fid (fid tmp_metadata) \<noteq> Inr ()
         then if \<not> use_spare then free_file_index_loop c is True else return_io i
         else free_file_index_loop c is use_spare)"

definition its_get_free_file_index :: "'d its_flash_fs_config_t \<Rightarrow> bool
    \<Rightarrow> ('d its_flash_fs_ctx_t, nat) io" where
  "its_get_free_file_index c use_spare = free_file_index_loop c [0..<max_num_files c] use_spare"

definition its_flash_fs_mblock_cur_data_scratch_id :: "nat \<Rightarrow> ('d its_flash_fs_ctx_t, nat) io" where
  "its_flash_fs_mblock_cur_data_scratch_id lb = gets_io (\<lambda>s.
     if lb = ITS_LOGICAL_DBLOCK0 then scratch_metablock s
     else scratch_dblock (meta_block_header s))"

definition its_mblock_erase_scratch_blocks ::
  "'d its_flash_fs_config_t \<Rightarrow> ('d its_flash_fs_ctx_t, unit) io" where
  "its_mblock_erase_scratch_blocks c =
     bind_io (gets_io scratch_metablock) (\<lambda>scratch.
     bind_io (dev_erase c scratch) (\<lambda>_.
     if num_blocks (flash_cfg c) > 2
     then bind_io (its_flash_fs_mblock_cur_data_scratch_id (ITS_LOGICAL_DBLOCK0 + 1))
            (\<lambda>scratch_datablock. dev_erase c scratch_datablock)
     else return_io ()))"

definition its_mblock_update_scratch_block_meta ::
  "'d its_flash_fs_config_t \<Rightarrow> nat \<Rightarrow> its_block_meta_t \<Rightarrow> ('d its_flash_fs_ctx_t, unit) io" where
  "its_mblock_update_scratch_block_meta c lb block_meta =
     bind_io (gets_io scratch_metablock) (\<lambda>scratch.
     dev_write c scratch (block_meta_bytes block_meta) (its_mblock_block_meta_offset lb)
       ITS_BLOCK_METADATA_SIZE)"

definition its_flash_fs_mblock_update_scratch_file_meta ::
  "'d its_flash_fs_config_t \<Rightarrow> nat \<Rightarrow> its_file_meta_t \<Rightarrow> ('d its_flash_fs_ctx_t, unit) io" where
  "its_flash_fs_mblock_update_scratch_file_meta c idx file_meta =
     bind_io (gets_io scratch_metablock) (\<lambda>scratch.
     dev_write c scratch (file_meta_bytes file_meta) (its_mblock_file_meta_offset c idx)
       ITS_FILE_METADATA_SIZE)"

function its_flash_fs_block_to_block_move ::
  "'d its_flash_fs_config_t \<Rightarrow> nat \<Rightarrow> nat \<Rightarrow> nat \<Rightarrow> nat \<Rightarrow> nat \<Rightarrow> ('d its_flash_fs_ctx_t, unit) io" where
  "its_flash_fs_block_to_block_move c dst_block dst_offset src_block src_offset sz =
     (if sz > 0 then
        (let bytes_to_move = min sz ITS_MAX_BLOCK_DATA_COPY
         in bind_io (dev_read c src_block src_offset bytes_to_move) (\<lambda>dst_block_data_copy.
            bind_io (dev_write c dst_block dst_block_data_copy dst_offset bytes_to_move) (\<lambda>_.
            its_flash_fs_block_to_block_move c dst_block (add32 dst_offset bytes_to_move)
              src_block (add32 src_offset bytes_to_move) (sz - bytes_to_move))))
      else return_io ())"
  by pat_completeness auto
termination
  by (relation "measure (\<lambda>(c, dst_block, dst_offset, src_block, src_offset, sz). sz)")
    (auto simp: ITS_MAX_BLOCK_DATA_COPY_def)

declare its_flash_fs_block_to_block_move.simps [simp del]

definition its_mblock_copy_remaining_block_meta ::
  "'d its_flash_fs_config_t \<Rightarrow> nat \<Rightarrow> ('d its_flash_fs_ctx_t, unit) io" where
  "its_mblock_copy_remaining_block_meta c lb =
     bind_io (gets_io scratch_metablock) (\<lambda>scratch_block.
     bind_io (gets_io active_metablock) (\<lambda>meta_block.
     bind_io
       (if lb \<noteq> ITS_LOGICAL_DBLOCK0 then
          bind_io (on_error PSA_ERROR_GENERIC_ERROR
                     (its_flash_fs_mblock_read_block_metadata c ITS_LOGICAL_DBLOCK0)) (\<lambda>block_meta.
          bind_io (on_error PSA_ERROR_GENERIC_ERROR
                     (its_mblock_update_scratch_block_meta c ITS_LOGICAL_DBLOCK0
                        (block_meta\<lparr>phy_id := scratch_block\<rparr>))) (\<lambda>_.
          if lb > 1 then
            (let pos = its_mblock_block_meta_offset (ITS_LOGICAL_DBLOCK0 + 1);
                 sz = sub32 (its_mblock_block_meta_offset lb) pos
             in its_flash_fs_block_to_block_move c scratch_block pos meta_block pos sz)
          else return_io ()))
        else return_io ()) (\<lambda>_.
     let pos = its_mblock_block_meta_offset (add32 lb 1);
         sz = sub32 (its_mblock_file_meta_offset c 0) pos
     in its_flash_fs_block_to_block_move c scratch_block pos meta_block pos sz)))"

definition its_flash_fs_mblock_update_scratch_block_meta ::
  "'d its_flash_fs_config_t \<Rightarrow> nat \<Rightarrow> its_block_meta_t \<Rightarrow> ('d its_flash_fs_ctx_t, unit) io" where
  "its_flash_fs_mblock_update_scratch_block_meta c lb block_meta =
     bind_io (gets_io scratch_metablock) (\<lambda>scratch.
     let block_meta = (if lb = ITS_LOGICAL_DBLOCK0 then block_meta\<lparr>phy_id := scratch\<rparr> else block_meta)
     in bind_io (on_error PSA_ERROR_GENERIC_ERROR
                   (its_mblock_update_scratch_block_meta c lb block_meta)) (\<lambda>_.
        its_mblock_copy_remaining_block_meta c lb))"

definition its_flash_fs_mblock_cp_file_meta ::
  "'d its_flash_fs_config_t \<Rightarrow> nat \<Rightarrow> nat \<Rightarrow> ('d its_flash_fs_ctx_t, unit) io" where
  "its_flash_fs_mblock_cp_file_meta c idx_start idx_end =
     bind_io (gets_io scratch_metablock) (\<lambda>scratch.
     bind_io (gets_io active_metablock) (\<lambda>active.
     let pos_start = its_mblock_file_meta_offset c idx_start;
         pos_end = its_mblock_file_meta_offset c idx_end
     in its_flash_fs_block_to_block_move c scratch pos_start active pos_start
          (sub32 pos_end pos_start)))"

definition its_flash_fs_mblock_migrate_lb0_data_to_scratch ::
  "'d its_flash_fs_config_t \<Rightarrow> ('d its_flash_fs_ctx_t, unit) io" where
  "its_flash_fs_mblock_migrate_lb0_data_to_scratch c =
     bind_io (its_flash_fs_mblock_read_block_metadata c ITS_LOGICAL_DBLOCK0) (\<lambda>block_meta.
     bind_io (gets_io scratch_metablock) (\<lambda>scratch.
     bind_io (gets_io active_metablock) (\<lambda>active.
     let data_size = sub32 (sub32 (block_size (flash_cfg c)) (data_start block_meta))
                       (free_size block_meta)
     in its_flash_fs_block_to_block_move c scratch (data_start block_meta) active
          (data_start block_meta) data_size)))"

definition its_flash_fs_mblock_set_data_scratch ::
  "nat \<Rightarrow> nat \<Rightarrow> ('d its_flash_fs_ctx_t, unit) io" where
  "its_flash_fs_mblock_set_data_scratch pid lb = modify_io (\<lambda>s.
     if lb \<noteq> ITS_LOGICAL_DBLOCK0
     then s\<lparr>meta_block_header := (meta_block_header s)\<lparr>scratch_dblock := pid\<rparr>\<rparr>
     else s)"

section \<open>Committing a metadata block\<close>

definition bump_swap_count :: "('d its_flash_fs_ctx_t, unit) io" where
  "bump_swap_count = modify_io (\<lambda>s. s\<lparr>meta_block_header :=
     (meta_block_header s)\<lparr>active_swap_count := active_swap_count (meta_block_header s) + 1\<rparr>\<rparr>)"

definition set_metadata_xor :: "byte \<Rightarrow> ('d its_flash_fs_ctx_t, unit) io" where
  "set_metadata_xor x = modify_io (\<lambda>s. s\<lparr>meta_block_header :=
     (meta_block_header s)\<lparr>metadata_xor := x\<rparr>\<rparr>)"

definition its_mblock_write_scratch_meta_header ::
  "'d its_flash_fs_config_t \<Rightarrow> ('d its_flash_fs_ctx_t, unit) io" where
  "its_mblock_write_scratch_meta_header c =
     bind_io bump_swap_count (\<lambda>_.
     bind_io (gets_io (\<lambda>s. active_swap_count (meta_block_header s))) (\<lambda>swap_count.
     bind_io (if its_mblock_validate_swap_count c swap_count \<noteq> Inr () then bump_swap_count
              else return_io ()) (\<lambda>_.
     bind_io (gets_io scratch_metablock) (\<lambda>scratch.
     bind_io (if validate_metadata c
              then bind_io (its_mblock_calculate_metadata_xor c scratch) set_metadata_xor
              else set_metadata_xor 0) (\<lambda>_.
     bind_io (gets_io meta_block_header) (\<lambda>h.
     dev_write c scratch (header_bytes h) 0 ITS_BLOCK_META_HEADER_SIZE))))))"

definition its_flash_fs_mblock_meta_update_finalize ::
  "'d its_flash_fs_config_t \<Rightarrow> ('d its_flash_fs_ctx_t, unit) io" where
  "its_flash_fs_mblock_meta_update_finalize c =
     bind_io (its_mblock_write_scratch_meta_header c) (\<lambda>_.
     bind_io (gets_io scratch_metablock) (\<lambda>scratch.
     bind_io (dev_flush c scratch) (\<lambda>_.
     bind_io its_mblock_swap_metablocks (\<lambda>_.
     its_mblock_erase_scratch_blocks c))))"

definition its_mblock_upgrade_meta_header ::
  "'d its_flash_fs_config_t \<Rightarrow> ('d its_flash_fs_ctx_t, unit) io" where
  "its_mblock_upgrade_meta_header c =
     bind_io (gets_io meta_block_header) (\<lambda>h.
     bind_io (lift_status (its_mblock_validate_fs_version (fs_version h))) (\<lambda>backward_compatible.
     if \<not> backward_compatible then return_io ()
     else
       bind_io (its_flash_fs_mblock_read_block_metadata_comp c ITS_LOGICAL_DBLOCK0) (\<lambda>block_meta_0.
       bind_io (gets_io scratch_metablock) (\<lambda>scratch.
       bind_io (gets_io active_metablock) (\<lambda>active.
       let number = sub32 (sub32 (block_size (flash_cfg c)) (free_size block_meta_0))
                      ITS_BLOCK_META_HEADER_COMP_SIZE
       in bind_io (its_flash_fs_block_to_block_move c scratch
                     (its_mblock_block_meta_offset ITS_LOGICAL_DBLOCK0) active
                     ITS_BLOCK_META_HEADER_COMP_SIZE number) (\<lambda>_.
          bind_io (modify_io (\<lambda>s. s\<lparr>meta_block_header := (meta_block_header s)
                     \<lparr>active_swap_count := comp_active_swap_count (meta_block_header s)\<rparr>\<rparr>)) (\<lambda>_.
          bind_io (modify_io (\<lambda>s. s\<lparr>meta_block_header := (meta_block_header s)
                     \<lparr>fs_version := ITS_SUPPORTED_VERSION\<rparr>\<rparr>)) (\<lambda>_.
          its_flash_fs_mblock_meta_update_finalize c))))))))"

definition its_mblock_read_meta_header ::
  "'d its_flash_fs_config_t \<Rightarrow> ('d its_flash_fs_ctx_t, unit) io" where
  "its_mblock_read_meta_header c =
     bind_io (gets_io active_metablock) (\<lambda>active.
     bind_io (dev_read c active 0 ITS_BLOCK_META_HEADER_SIZE) (\<lambda>bs.
     bind_io (modify_io (\<lambda>s. s\<lparr>meta_block_header := header_of_bytes bs\<rparr>)) (\<lambda>_.
     its_mblock_validate_header_meta c (header_of_bytes bs) active)))"

section \<open>Reserving space for a file\<close>

fun reserve_file_loop :: "'d its_flash_fs_config_t \<Rightarrow> byte list \<Rightarrow> nat \<Rightarrow> 32 word \<Rightarrow> nat list
    \<Rightarrow> ('d its_flash_fs_ctx_t, its_file_meta_t \<times> its_block_meta_t) io" where
  "reserve_file_loop c file_id sz flgs [] = raise_io PSA_ERROR_INSUFFICIENT_STORAGE"
| "reserve_file_loop c file_id sz flgs (i # is) =
     bind_io (on_error PSA_ERROR_GENERIC_ERROR (its_flash_fs_mblock_read_block_metadata c i))
       (\<lambda>block_meta.
     if free_size block_meta \<ge> sz
     then return_io
       (\<lparr>lblock = i,
         data_idx = sub32 (block_size (flash_cfg c)) (free_size block_meta),
         cur_size = 0, max_size = sz, flags = flgs, fid = file_id\<rparr>,
        block_meta\<lparr>free_size := free_size block_meta - sz\<rparr>)
     else reserve_file_loop c file_id sz flgs is)"

definition its_mblock_reserve_file ::
  "'d its_flash_fs_config_t \<Rightarrow> byte list \<Rightarrow> nat \<Rightarrow> 32 word
    \<Rightarrow> ('d its_flash_fs_ctx_t, its_file_meta_t \<times> its_block_meta_t) io" where
  "its_mblock_reserve_file c file_id sz flgs =
     reserve_file_loop c file_id sz flgs [0..<its_num_active_dblocks c]"

definition its_flash_fs_mblock_reserve_file ::
  "'d its_flash_fs_config_t \<Rightarrow> byte list \<Rightarrow> bool \<Rightarrow> nat \<Rightarrow> 32 word
    \<Rightarrow> ('d its_flash_fs_ctx_t, nat \<times> its_file_meta_t \<times> its_block_meta_t) io" where
  "its_flash_fs_mblock_reserve_file c file_id use_spare sz flgs =
     bind_io (try_io (its_mblock_reserve_file c file_id sz flgs)) (\<lambda>r.
     bind_io (its_get_free_file_index c use_spare) (\<lambda>idx.
     case r of
       Inl err \<Rightarrow> raise_io PSA_ERROR_INSUFFICIENT_STORAGE
     | Inr (file_meta, block_meta) \<Rightarrow>
         if idx = ITS_METADATA_INVALID_INDEX then raise_io PSA_ERROR_INSUFFICIENT_STORAGE
         else return_io (idx, file_meta, block_meta)))"

section \<open>Finding files\<close>

fun file_idx_meta_loop :: "'d its_flash_fs_config_t \<Rightarrow> byte list \<Rightarrow> nat list
    \<Rightarrow> ('d its_flash_fs_ctx_t, nat \<times> its_file_meta_t) io" where
  "file_idx_meta_loop c file_id [] = raise_io PSA_ERROR_DOES_NOT_EXIST"
| "file_idx_meta_loop c file_id (i # is) =
     bind_io (on_error PSA_ERROR_GENERIC_ERROR (its_flash_fs_mblock_read_file_meta c i))
       (\<lambda>tmp_metadata.
     if fid tmp_metadata = file_id then return_io (i, tmp_metadata)
     else file_idx_meta_loop c file_id is)"

definition its_flash_fs_mblock_get_file_idx_meta ::
  "'d its_flash_fs_config_t \<Rightarrow> byte list \<Rightarrow> ('d its_flash_fs_ctx_t, nat \<times> its_file_meta_t) io" where
  "its_flash_fs_mblock_get_file_idx_meta c file_id =
     file_idx_meta_loop c file_id [0..<max_num_files c]"

fun file_idx_flag_loop :: "'d its_flash_fs_config_t \<Rightarrow> 32 word \<Rightarrow> nat list
    \<Rightarrow> ('d its_flash_fs_ctx_t, nat) io" where
  "file_idx_flag_loop c flgs [] = raise_io PSA_ERROR_DOES_NOT_EXIST"
| "file_idx_flag_loop c flgs (i # is) =
     bind_io (on_error PSA_ERROR_GENERIC_ERROR (its_flash_fs_mblock_read_file_meta c i))
       (\<lambda>tmp_metadata.
     if flags tmp_metadata AND flgs \<noteq> 0 then return_io i
     else file_idx_flag_loop c flgs is)"

definition its_flash_fs_mblock_get_file_idx_flag ::
  "'d its_flash_fs_config_t \<Rightarrow> 32 word \<Rightarrow> ('d its_flash_fs_ctx_t, nat) io" where
  "its_flash_fs_mblock_get_file_idx_flag c flgs = file_idx_flag_loop c flgs [0..<max_num_files c]"

section \<open>Initialisation and reset\<close>

text \<open>One metadata block: is its header readable and valid? (The two halves of the C function.)\<close>

definition meta_block_header_valid ::
  "'d its_flash_fs_config_t \<Rightarrow> nat \<Rightarrow> ('d its_flash_fs_ctx_t, its_metadata_block_header_t option) io" where
  "meta_block_header_valid c block_id =
     bind_io (try_io (dev_read c block_id 0 ITS_BLOCK_META_HEADER_SIZE)) (\<lambda>r. case r of
       Inl err \<Rightarrow> return_io None
     | Inr bs \<Rightarrow>
         bind_io (try_io (its_mblock_validate_header_meta c (header_of_bytes bs) block_id)) (\<lambda>v.
         return_io (if v = Inr () then Some (header_of_bytes bs) else None)))"

definition its_init_get_active_metablock ::
  "'d its_flash_fs_config_t \<Rightarrow> ('d its_flash_fs_ctx_t, unit) io" where
  "its_init_get_active_metablock c =
     bind_io (meta_block_header_valid c ITS_METADATA_BLOCK0) (\<lambda>v0.
     bind_io (meta_block_header_valid c ITS_METADATA_BLOCK1) (\<lambda>v1.
     let set_active = (\<lambda>cur_meta_block. modify_io (\<lambda>s. s\<lparr>active_metablock := cur_meta_block,
                         scratch_metablock := ITS_OTHER_META_BLOCK cur_meta_block\<rparr>))
     in case (v0, v1) of
          (Some h_meta0, Some h_meta1) \<Rightarrow> set_active (its_mblock_latest_meta_block c h_meta0 h_meta1)
        | (None, Some h_meta1) \<Rightarrow> set_active ITS_METADATA_BLOCK1
        | (Some h_meta0, None) \<Rightarrow> set_active ITS_METADATA_BLOCK0
        | (None, None) \<Rightarrow> raise_io PSA_ERROR_GENERIC_ERROR))"

definition its_flash_fs_mblock_init ::
  "'d its_flash_fs_config_t \<Rightarrow> ('d its_flash_fs_ctx_t, unit) io" where
  "its_flash_fs_mblock_init c =
     bind_io (on_error PSA_ERROR_GENERIC_ERROR (its_init_get_active_metablock c)) (\<lambda>_.
     bind_io (on_error PSA_ERROR_GENERIC_ERROR (its_mblock_read_meta_header c)) (\<lambda>_.
     bind_io (on_error PSA_ERROR_GENERIC_ERROR (its_mblock_erase_scratch_blocks c)) (\<lambda>_.
     its_mblock_upgrade_meta_header c)))"

text \<open>\<open>err |= erase(...)\<close> over the data blocks: all are erased, \<open>failed\<close> remembers any error.\<close>

fun erase_all_loop :: "'d its_flash_fs_config_t \<Rightarrow> nat list \<Rightarrow> bool
    \<Rightarrow> ('d its_flash_fs_ctx_t, bool) io" where
  "erase_all_loop c [] failed = return_io failed"
| "erase_all_loop c (b # bs) failed =
     bind_io (try_io (dev_erase c b)) (\<lambda>r. erase_all_loop c bs (failed \<or> r \<noteq> Inr ()))"

definition its_flash_fs_mblock_reset_metablock ::
  "'d its_flash_fs_config_t \<Rightarrow> ('d its_flash_fs_ctx_t, unit) io" where
  "its_flash_fs_mblock_reset_metablock c =
     bind_io (try_io (its_init_get_active_metablock c)) (\<lambda>r.
     bind_io (gets_io scratch_metablock) (\<lambda>scratch0.
     let metablock_to_erase_first = (if r = Inr () then scratch0 else ITS_METADATA_BLOCK0);
         bs = block_size (flash_cfg c)
     in bind_io (dev_erase c metablock_to_erase_first) (\<lambda>_.
        bind_io (dev_erase c (ITS_OTHER_META_BLOCK metablock_to_erase_first)) (\<lambda>_.
        bind_io (modify_io (\<lambda>s. s\<lparr>meta_block_header := (meta_block_header s)
                   \<lparr>active_swap_count := (if erase_val (flash_cfg c) = 0 then 1 else 0),
                    scratch_dblock := its_init_scratch_dblock c,
                    fs_version := ITS_SUPPORTED_VERSION\<rparr>,
                   scratch_metablock := ITS_METADATA_BLOCK1,
                   active_metablock := ITS_METADATA_BLOCK0\<rparr>)) (\<lambda>_.
        let start = its_mblock_file_meta_offset c (max_num_files c)
        in bind_io (its_mblock_update_scratch_block_meta c ITS_LOGICAL_DBLOCK0
                      \<lparr>phy_id = ITS_METADATA_BLOCK1, data_start = start, free_size = sub32 bs start\<rparr>) (\<lambda>_.
           bind_io (erase_all_loop c (map (\<lambda>i. add32 i (its_init_dblock_start c))
                                        [0..<its_num_dedicated_dblocks c]) False) (\<lambda>failed.
           if failed then raise_io PSA_ERROR_STORAGE_FAILURE
           else
             bind_io (on_error PSA_ERROR_GENERIC_ERROR
                        (for_io [0..<its_num_dedicated_dblocks c] (\<lambda>i.
                           its_mblock_update_scratch_block_meta c (add32 i 1)
                             \<lparr>phy_id = add32 i (its_init_dblock_start c), data_start = 0,
                              free_size = bs\<rparr>))) (\<lambda>_.
             bind_io (on_error PSA_ERROR_GENERIC_ERROR
                        (for_io [0..<max_num_files c] (\<lambda>i.
                           its_flash_fs_mblock_update_scratch_file_meta c i zero_file_meta))) (\<lambda>_.
             bind_io (on_error PSA_ERROR_GENERIC_ERROR (its_mblock_write_scratch_meta_header c)) (\<lambda>_.
             bind_io (gets_io scratch_metablock) (\<lambda>scratch.
             bind_io (dev_flush c scratch) (\<lambda>_.
             its_mblock_swap_metablocks))))))))))))"

end
