(* ===== verification/ITS_FS.thy ===== *)
theory ITS_FS
  imports ITS_Mblock
begin

text \<open>
  The flash file system of Internal Trusted Storage: the data blocks
  (src/secure_fw/partitions/internal_trusted_storage/flash_fs/its_flash_fs_dblock.c) and the
  file operations (its_flash_fs.c). Every operation is the whole C function: its guards, every
  call of the flash driver in the order of the source, and the status it returns.
\<close>

section \<open>Data blocks\<close>

definition its_dblock_lo_to_phy ::
  "'d its_flash_fs_config_t \<Rightarrow> nat \<Rightarrow> ('d its_flash_fs_ctx_t, nat) io" where
  "its_dblock_lo_to_phy c lb =
     bind_io (try_io (its_flash_fs_mblock_read_block_metadata c lb)) (\<lambda>r. case r of
       Inl err \<Rightarrow> return_io ITS_BLOCK_INVALID_ID
     | Inr block_meta \<Rightarrow> return_io (phy_id block_meta))"

definition its_flash_fs_dblock_compact_block ::
  "'d its_flash_fs_config_t \<Rightarrow> nat \<Rightarrow> nat \<Rightarrow> nat \<Rightarrow> nat \<Rightarrow> nat \<Rightarrow> ('d its_flash_fs_ctx_t, unit) io" where
  "its_flash_fs_dblock_compact_block c lb freed src_offset dst_offset sz =
     bind_io (its_flash_fs_mblock_read_block_metadata c lb) (\<lambda>bm.
     let block_meta = bm\<lparr>free_size := add32 (free_size bm) freed\<rparr>
     in bind_io (its_flash_fs_mblock_cur_data_scratch_id lb) (\<lambda>scratch_id.
        bind_io (if sz > 0
                 then on_error PSA_ERROR_GENERIC_ERROR
                        (its_flash_fs_block_to_block_move c scratch_id dst_offset
                           (phy_id block_meta) src_offset sz)
                 else return_io ()) (\<lambda>_.
        bind_io (if dst_offset > data_start block_meta
                 then on_error PSA_ERROR_GENERIC_ERROR
                        (its_flash_fs_block_to_block_move c scratch_id (data_start block_meta)
                           (phy_id block_meta) (data_start block_meta)
                           (dst_offset - data_start block_meta))
                 else return_io ()) (\<lambda>_.
        let flush_data = (sz > 0 \<or> dst_offset > data_start block_meta)
        in bind_io (its_flash_fs_mblock_set_data_scratch (phy_id block_meta) lb) (\<lambda>_.
           bind_io (try_io (its_flash_fs_mblock_update_scratch_block_meta c lb
                              (block_meta\<lparr>phy_id := scratch_id\<rparr>))) (\<lambda>r. case r of
             Inl err \<Rightarrow>
               bind_io (its_flash_fs_mblock_set_data_scratch scratch_id lb) (\<lambda>_. raise_io err)
           | Inr _ \<Rightarrow>
               if lb \<noteq> ITS_LOGICAL_DBLOCK0 \<and> flush_data then dev_flush c scratch_id
               else return_io ()))))))"

definition its_flash_fs_dblock_read_file ::
  "'d its_flash_fs_config_t \<Rightarrow> its_file_meta_t \<Rightarrow> nat \<Rightarrow> nat \<Rightarrow> ('d its_flash_fs_ctx_t, byte list) io" where
  "its_flash_fs_dblock_read_file c file_meta offset sz =
     bind_io (its_dblock_lo_to_phy c (lblock file_meta)) (\<lambda>phys_block.
     if phys_block = ITS_BLOCK_INVALID_ID then raise_io PSA_ERROR_GENERIC_ERROR
     else dev_read c phys_block (add32 (data_idx file_meta) offset) sz)"

definition its_flash_fs_dblock_write_file ::
  "'d its_flash_fs_config_t \<Rightarrow> its_block_meta_t \<Rightarrow> its_file_meta_t \<Rightarrow> nat \<Rightarrow> nat \<Rightarrow> byte list
    \<Rightarrow> ('d its_flash_fs_ctx_t, unit) io" where
  "its_flash_fs_dblock_write_file c block_meta file_meta offset sz data =
     bind_io (its_flash_fs_mblock_cur_data_scratch_id (lblock file_meta)) (\<lambda>scratch_id.
     let pos = add32 (data_idx file_meta) offset
     in bind_io (its_flash_fs_block_to_block_move c scratch_id (data_start block_meta)
                   (phy_id block_meta) (data_start block_meta)
                   (sub32 pos (data_start block_meta))) (\<lambda>_.
        bind_io (dev_write c scratch_id data pos sz) (\<lambda>_.
        let pos = add32 (data_idx file_meta) (max_size file_meta);
            num_bytes = sub32 (sub32 (block_size (flash_cfg c)) (free_size block_meta)) pos
        in bind_io (its_flash_fs_block_to_block_move c scratch_id pos (phy_id block_meta) pos
                      num_bytes) (\<lambda>_.
           if lblock file_meta \<noteq> ITS_LOGICAL_DBLOCK0 then dev_flush c scratch_id
           else return_io ()))))"

section \<open>File operations\<close>

record its_flash_fs_file_info_t =
  size_current :: nat
  size_max :: nat
  info_flags :: "32 word"

definition ITS_FLASH_FS_INTERNAL_FLAGS_MASK :: "32 word" where
  "ITS_FLASH_FS_INTERNAL_FLAGS_MASK = 0xFF000000"
definition ITS_FLASH_FS_FLAG_DELETE :: "32 word" where
  "ITS_FLASH_FS_FLAG_DELETE = 0x1000000"
definition ITS_FLASH_FS_USER_FLAGS_MASK :: "32 word" where
  "ITS_FLASH_FS_USER_FLAGS_MASK = 0xFFFF"
definition ITS_FLASH_FS_FLAG_CREATE :: "32 word" where
  "ITS_FLASH_FS_FLAG_CREATE = 0x10000"
definition ITS_FLASH_FS_FLAG_TRUNCATE :: "32 word" where
  "ITS_FLASH_FS_FLAG_TRUNCATE = 0x20000"

lemmas its_fs_flag_consts = ITS_FLASH_FS_INTERNAL_FLAGS_MASK_def ITS_FLASH_FS_FLAG_DELETE_def
  ITS_FLASH_FS_USER_FLAGS_MASK_def ITS_FLASH_FS_FLAG_CREATE_def ITS_FLASH_FS_FLAG_TRUNCATE_def

definition its_flash_fs_file_write_aligned_data ::
  "'d its_flash_fs_config_t \<Rightarrow> its_block_meta_t \<Rightarrow> its_file_meta_t \<Rightarrow> nat \<Rightarrow> nat \<Rightarrow> byte list
    \<Rightarrow> ('d its_flash_fs_ctx_t, unit) io" where
  "its_flash_fs_file_write_aligned_data c block_meta file_meta offset sz data =
     (if max_alignment c \<noteq> 1 \<and> \<not> ITS_UTILS_IS_ALIGNED offset (program_unit (flash_cfg c))
      then raise_io PSA_ERROR_INVALID_ARGUMENT
      else
        (let sz = (if max_alignment c \<noteq> 1 then ITS_UTILS_ALIGN sz (program_unit (flash_cfg c)) else sz)
         in if offset > cur_size file_meta then raise_io PSA_ERROR_INVALID_ARGUMENT
            else if its_utils_check_contained_in (max_size file_meta) offset sz \<noteq> Inr ()
            then raise_io PSA_ERROR_INVALID_ARGUMENT
            else its_flash_fs_dblock_write_file c block_meta file_meta offset sz data))"

definition its_flash_fs_num_active_dblocks :: "'d its_flash_fs_config_t \<Rightarrow> nat" where
  "its_flash_fs_num_active_dblocks c =
     (if num_blocks (flash_cfg c) = 2 then 1 else sub32 (num_blocks (flash_cfg c)) 2)"

definition its_flash_fs_all_metadata_size :: "'d its_flash_fs_config_t \<Rightarrow> nat" where
  "its_flash_fs_all_metadata_size c =
     add32 (add32 ITS_BLOCK_META_HEADER_SIZE
              (mul32 (its_flash_fs_num_active_dblocks c) ITS_BLOCK_METADATA_SIZE))
           (mul32 (max_num_files c) ITS_FILE_METADATA_SIZE)"

definition its_flash_fs_validate_config :: "'d its_flash_fs_config_t \<Rightarrow> psa_error + unit" where
  "its_flash_fs_validate_config c =
     (let nb = num_blocks (flash_cfg c); bs = block_size (flash_cfg c);
          bad_blocks = (nb < 2 \<or> nb = 3);
          bad_two = (nb = 2 \<and> max_file_size c > sub32 bs (its_flash_fs_all_metadata_size c));
          bad_file = (max_file_size c > bs);
          bad_meta = (its_flash_fs_all_metadata_size c > bs)
      in if bad_blocks \<or> bad_two \<or> bad_file \<or> bad_meta then Inl PSA_ERROR_INVALID_ARGUMENT
         else Inr ())"

text \<open>
  \<open>memset(fs_ctx, 0, sizeof *fs_ctx)\<close> and the association of the configuration. \<open>init\<close> may
  change the configuration (the erase value), which the result carries.
\<close>

definition zero_ctx :: "'d \<Rightarrow> 'd its_flash_fs_ctx_t" where
  "zero_ctx d = \<lparr>meta_block_header = \<lparr>scratch_dblock = 0, fs_version = 0, metadata_xor = 0,
       active_swap_count = 0, header_pad = 0\<rparr>,
     active_metablock = 0, scratch_metablock = 0, dev = d\<rparr>"

definition its_flash_fs_init_ctx ::
  "'d its_flash_fs_config_t \<Rightarrow> ('d its_flash_fs_ctx_t, 'd its_flash_fs_config_t) io" where
  "its_flash_fs_init_ctx c = (\<lambda>s.
     case ops_init (ops c) (flash_cfg c) (dev s) of
       (Inl e, d) \<Rightarrow> (Inl e, s\<lparr>dev := d\<rparr>)
     | (Inr fcfg, d) \<Rightarrow>
         (let c' = c\<lparr>flash_cfg := fcfg\<rparr>
          in case its_flash_fs_validate_config c' of
               Inl e \<Rightarrow> (Inl e, s\<lparr>dev := d\<rparr>)
             | Inr _ \<Rightarrow> (Inr c', zero_ctx d)))"

text \<open>
  The loop of \<open>its_flash_fs_delete_idx\<close> over all file entries but the deleted one: files behind
  the deleted data move down; \<open>src_offset\<close> and \<open>nbr_bytes_to_move\<close> are accumulated.
\<close>

fun delete_idx_loop :: "'d its_flash_fs_config_t \<Rightarrow> nat \<Rightarrow> nat \<Rightarrow> nat \<Rightarrow> nat \<Rightarrow> nat list \<Rightarrow> nat \<Rightarrow> nat
    \<Rightarrow> ('d its_flash_fs_ctx_t, nat \<times> nat) io" where
  "delete_idx_loop c del_idx del_lblock del_data_idx del_max_size [] src_offset nbr =
     return_io (src_offset, nbr)"
| "delete_idx_loop c del_idx del_lblock del_data_idx del_max_size (idx # idxs) src_offset nbr =
     (if idx = del_idx
      then delete_idx_loop c del_idx del_lblock del_data_idx del_max_size idxs src_offset nbr
      else
        bind_io (its_flash_fs_mblock_read_file_meta c idx) (\<lambda>file_meta.
        let moves = (lblock file_meta = del_lblock \<and> fid_valid (fid file_meta)
                     \<and> data_idx file_meta > del_data_idx);
            src' = (if moves \<and> src_offset > data_idx file_meta then data_idx file_meta else src_offset);
            nbr' = (if moves then add32 nbr (max_size file_meta) else nbr);
            file_meta' = (if moves
                          then file_meta\<lparr>data_idx := sub32 (data_idx file_meta) del_max_size\<rparr>
                          else file_meta)
        in bind_io (its_flash_fs_mblock_update_scratch_file_meta c idx file_meta') (\<lambda>_.
           delete_idx_loop c del_idx del_lblock del_data_idx del_max_size idxs src' nbr')))"

definition its_flash_fs_delete_idx ::
  "'d its_flash_fs_config_t \<Rightarrow> nat \<Rightarrow> ('d its_flash_fs_ctx_t, unit) io" where
  "its_flash_fs_delete_idx c del_file_idx =
     bind_io (its_flash_fs_mblock_read_file_meta c del_file_idx) (\<lambda>file_meta.
     if its_utils_validate_fid (fid file_meta) \<noteq> Inr () then raise_io PSA_ERROR_DOES_NOT_EXIST
     else
       (let del_file_lblock = lblock file_meta;
            del_file_data_idx = data_idx file_meta;
            del_file_max_size = max_size file_meta
        in bind_io (its_flash_fs_mblock_update_scratch_file_meta c del_file_idx zero_file_meta) (\<lambda>_.
           bind_io (delete_idx_loop c del_file_idx del_file_lblock del_file_data_idx del_file_max_size
                      [0..<max_num_files c] (block_size (flash_cfg c)) 0)
             (\<lambda>(src_offset, nbr_bytes_to_move).
           bind_io (if del_file_max_size = 0
                    then bind_io (its_flash_fs_mblock_read_block_metadata c ITS_LOGICAL_DBLOCK0)
                           (\<lambda>block_meta. its_flash_fs_mblock_update_scratch_block_meta c
                              ITS_LOGICAL_DBLOCK0 block_meta)
                    else its_flash_fs_dblock_compact_block c del_file_lblock del_file_max_size
                           src_offset del_file_data_idx nbr_bytes_to_move) (\<lambda>_.
           bind_io (if (del_file_max_size \<noteq> 0 \<and> del_file_lblock \<noteq> ITS_LOGICAL_DBLOCK0)
                       \<or> del_file_max_size = 0
                    then on_error PSA_ERROR_GENERIC_ERROR
                           (its_flash_fs_mblock_migrate_lb0_data_to_scratch c)
                    else return_io ()) (\<lambda>_.
           its_flash_fs_mblock_meta_update_finalize c))))))"

definition its_flash_fs_prepare ::
  "'d its_flash_fs_config_t \<Rightarrow> ('d its_flash_fs_ctx_t, unit) io" where
  "its_flash_fs_prepare c =
     bind_io (its_flash_fs_mblock_init c) (\<lambda>_.
     bind_io (try_io (its_flash_fs_mblock_get_file_idx_flag c ITS_FLASH_FS_FLAG_DELETE)) (\<lambda>r.
     case r of
       Inr idx \<Rightarrow> its_flash_fs_delete_idx c idx
     | Inl err \<Rightarrow> if err \<noteq> PSA_ERROR_DOES_NOT_EXIST then raise_io err else return_io ()))"

definition its_flash_fs_wipe_all ::
  "'d its_flash_fs_config_t \<Rightarrow> ('d its_flash_fs_ctx_t, unit) io" where
  "its_flash_fs_wipe_all c = its_flash_fs_mblock_reset_metablock c"

definition its_flash_fs_file_get_info ::
  "'d its_flash_fs_config_t \<Rightarrow> byte list \<Rightarrow> ('d its_flash_fs_ctx_t, its_flash_fs_file_info_t) io" where
  "its_flash_fs_file_get_info c file_id =
     bind_io (on_error PSA_ERROR_DOES_NOT_EXIST (its_flash_fs_mblock_get_file_idx_meta c file_id))
       (\<lambda>(idx, tmp_metadata).
     return_io \<lparr>size_current = cur_size tmp_metadata, size_max = max_size tmp_metadata,
       info_flags = flags tmp_metadata AND ITS_FLASH_FS_USER_FLAGS_MASK\<rparr>)"

text \<open>
  The first part of \<open>its_flash_fs_file_write\<close>: look the file up and decide between reusing its
  entry and replacing it. The result is the old index, the new index and the file metadata; an
  index that is not known is \<open>ITS_METADATA_INVALID_INDEX\<close>.
\<close>

definition file_write_lookup ::
  "'d its_flash_fs_config_t \<Rightarrow> byte list \<Rightarrow> its_flash_fs_file_info_t
    \<Rightarrow> ('d its_flash_fs_ctx_t, nat \<times> nat \<times> its_file_meta_t) io" where
  "file_write_lookup c file_id finfo =
     bind_io (try_io (its_flash_fs_mblock_get_file_idx_meta c file_id)) (\<lambda>r. case r of
       Inr (old_idx, file_meta) \<Rightarrow>
         if info_flags finfo AND ITS_FLASH_FS_FLAG_TRUNCATE \<noteq> 0 then
           if max_size file_meta = size_max finfo
           then return_io (old_idx, old_idx, file_meta\<lparr>cur_size := 0, flags := info_flags finfo\<rparr>)
           else
             (let file_meta = file_meta\<lparr>flags := flags file_meta OR ITS_FLASH_FS_FLAG_DELETE\<rparr>
              in bind_io (on_error PSA_ERROR_GENERIC_ERROR
                            (its_flash_fs_mblock_update_scratch_file_meta c old_idx file_meta)) (\<lambda>_.
                 return_io (old_idx, ITS_METADATA_INVALID_INDEX, file_meta)))
         else return_io (old_idx, old_idx, file_meta)
     | Inl err \<Rightarrow>
         if err = PSA_ERROR_DOES_NOT_EXIST then
           if info_flags finfo AND ITS_FLASH_FS_FLAG_CREATE = 0
           then raise_io PSA_ERROR_DOES_NOT_EXIST
           else return_io (ITS_METADATA_INVALID_INDEX, ITS_METADATA_INVALID_INDEX, zero_file_meta)
         else raise_io err)"

text \<open>The second part: reserve a new file, or read the block of the reused one.\<close>

definition file_write_reserve ::
  "'d its_flash_fs_config_t \<Rightarrow> byte list \<Rightarrow> its_flash_fs_file_info_t \<Rightarrow> nat \<Rightarrow> nat \<Rightarrow> its_file_meta_t
    \<Rightarrow> ('d its_flash_fs_ctx_t, nat \<times> its_file_meta_t \<times> its_block_meta_t) io" where
  "file_write_reserve c file_id finfo old_idx new_idx file_meta =
     (if new_idx = ITS_METADATA_INVALID_INDEX then
        if size_max finfo > max_file_size c then raise_io PSA_ERROR_INVALID_ARGUMENT
        else its_flash_fs_mblock_reserve_file c file_id (old_idx \<noteq> ITS_METADATA_INVALID_INDEX)
               (size_max finfo) (info_flags finfo)
      else
        bind_io (on_error PSA_ERROR_GENERIC_ERROR
                   (its_flash_fs_mblock_read_block_metadata c (lblock file_meta))) (\<lambda>block_meta.
        return_io (new_idx, file_meta, block_meta)))"

text \<open>The third part: the data into the scratch data block, and the swap of the data blocks.\<close>

definition file_write_data ::
  "'d its_flash_fs_config_t \<Rightarrow> its_file_meta_t \<Rightarrow> its_block_meta_t \<Rightarrow> nat \<Rightarrow> nat \<Rightarrow> byte list
    \<Rightarrow> ('d its_flash_fs_ctx_t, its_file_meta_t \<times> its_block_meta_t) io" where
  "file_write_data c file_meta block_meta data_size offset data =
     (if data_size \<noteq> 0 then
        bind_io (on_error PSA_ERROR_GENERIC_ERROR
                   (its_flash_fs_file_write_aligned_data c block_meta file_meta offset data_size data)) (\<lambda>_.
        let file_meta = (if add32 offset data_size > cur_size file_meta
                         then file_meta\<lparr>cur_size := add32 offset data_size\<rparr> else file_meta);
            cur_phys_block = phy_id block_meta
        in bind_io (its_flash_fs_mblock_cur_data_scratch_id (lblock file_meta)) (\<lambda>scratch_id.
           bind_io (its_flash_fs_mblock_set_data_scratch cur_phys_block (lblock file_meta)) (\<lambda>_.
           return_io (file_meta, block_meta\<lparr>phy_id := scratch_id\<rparr>))))
      else return_io (file_meta, block_meta))"

text \<open>The fourth part: the metadata entries into the scratch metadata block.\<close>

definition file_write_metadata ::
  "'d its_flash_fs_config_t \<Rightarrow> nat \<Rightarrow> nat \<Rightarrow> its_file_meta_t \<Rightarrow> its_block_meta_t
    \<Rightarrow> ('d its_flash_fs_ctx_t, unit) io" where
  "file_write_metadata c old_idx new_idx file_meta block_meta =
     on_error PSA_ERROR_GENERIC_ERROR (
     bind_io (its_flash_fs_mblock_update_scratch_block_meta c (lblock file_meta) block_meta) (\<lambda>_.
     bind_io (its_flash_fs_mblock_update_scratch_file_meta c new_idx file_meta) (\<lambda>_.
     let idx = min new_idx old_idx
     in bind_io (its_flash_fs_mblock_cp_file_meta c 0 idx) (\<lambda>_.
        if old_idx \<noteq> ITS_METADATA_INVALID_INDEX \<and> old_idx \<noteq> new_idx
        then bind_io (its_flash_fs_mblock_cp_file_meta c (add32 idx 1) (max new_idx old_idx)) (\<lambda>_.
             its_flash_fs_mblock_cp_file_meta c (add32 (max new_idx old_idx) 1) (max_num_files c))
        else its_flash_fs_mblock_cp_file_meta c (add32 idx 1) (max_num_files c)))))"

definition its_flash_fs_file_write ::
  "'d its_flash_fs_config_t \<Rightarrow> byte list \<Rightarrow> its_flash_fs_file_info_t option \<Rightarrow> nat \<Rightarrow> nat \<Rightarrow> byte list
    \<Rightarrow> ('d its_flash_fs_ctx_t, its_flash_fs_file_info_t) io" where
  "its_flash_fs_file_write c file_id finfo_ptr data_size offset data =
     (case finfo_ptr of
        None \<Rightarrow> raise_io PSA_ERROR_INVALID_ARGUMENT
      | Some finfo0 \<Rightarrow>
          if info_flags finfo0 AND ITS_FLASH_FS_INTERNAL_FLAGS_MASK \<noteq> 0
          then raise_io PSA_ERROR_INVALID_ARGUMENT
          else
            (let finfo = (if max_alignment c \<noteq> 1
                          then finfo0\<lparr>size_max := ITS_UTILS_ALIGN (size_max finfo0)
                                        (program_unit (flash_cfg c))\<rparr>
                          else finfo0)
             in bind_io (file_write_lookup c file_id finfo) (\<lambda>(old_idx, new_idx0, file_meta0).
                bind_io (file_write_reserve c file_id finfo old_idx new_idx0 file_meta0)
                  (\<lambda>(new_idx, file_meta1, block_meta1).
                bind_io (file_write_data c file_meta1 block_meta1 data_size offset data)
                  (\<lambda>(file_meta, block_meta).
                bind_io (file_write_metadata c old_idx new_idx file_meta block_meta) (\<lambda>_.
                bind_io (if lblock file_meta \<noteq> ITS_LOGICAL_DBLOCK0 \<or> data_size = 0
                         then on_error PSA_ERROR_GENERIC_ERROR
                                (its_flash_fs_mblock_migrate_lb0_data_to_scratch c)
                         else return_io ()) (\<lambda>_.
                bind_io (its_flash_fs_mblock_meta_update_finalize c) (\<lambda>_.
                bind_io (if old_idx \<noteq> ITS_METADATA_INVALID_INDEX \<and> old_idx \<noteq> new_idx
                         then its_flash_fs_delete_idx c old_idx
                         else return_io ()) (\<lambda>_.
                return_io finfo)))))))))"

definition its_flash_fs_file_delete ::
  "'d its_flash_fs_config_t \<Rightarrow> byte list \<Rightarrow> ('d its_flash_fs_ctx_t, unit) io" where
  "its_flash_fs_file_delete c file_id =
     bind_io (on_error PSA_ERROR_DOES_NOT_EXIST (its_flash_fs_mblock_get_file_idx_meta c file_id))
       (\<lambda>(del_file_idx, _). its_flash_fs_delete_idx c del_file_idx)"

definition its_flash_fs_file_read ::
  "'d its_flash_fs_config_t \<Rightarrow> byte list \<Rightarrow> nat \<Rightarrow> nat \<Rightarrow> ('d its_flash_fs_ctx_t, byte list) io" where
  "its_flash_fs_file_read c file_id sz offset =
     bind_io (on_error PSA_ERROR_DOES_NOT_EXIST (its_flash_fs_mblock_get_file_idx_meta c file_id))
       (\<lambda>(idx, tmp_metadata).
     bind_io (lift_status (its_utils_check_contained_in (cur_size tmp_metadata) offset sz)) (\<lambda>_.
     on_error PSA_ERROR_GENERIC_ERROR
       (its_flash_fs_dblock_read_file c tmp_metadata offset sz)))"

end
