(* ===== verification/ITS_Mblock_Props.thy ===== *)
theory ITS_Mblock_Props
  imports ITS_Mblock
begin

text \<open>
  Facts about the metadata block: which of the two blocks is the latest, the byte layout of the
  structures, the checksum, and, inside the locale \<open>flash_fs\<close>, what each routine of
  \<open>ITS_Mblock\<close> does to a lawful device.
\<close>

lemma bind_lift_status [io_simps]:
  "bind_io (lift_status (Inr x)) f = f x" "bind_io (lift_status (Inl e)) f = raise_io e"
  by (simp_all add: lift_status_def bind_io_def raise_io_def fun_eq_iff)

section \<open>Which metadata block is the latest\<close>

definition next_swap_count :: "'d its_flash_fs_config_t \<Rightarrow> byte \<Rightarrow> byte" where
  "next_swap_count c n =
     (if its_mblock_validate_swap_count c (n + 1) \<noteq> Inr () then n + 1 + 1 else n + 1)"

lemma next_swap_count_valid:
  "its_mblock_validate_swap_count c (next_swap_count c n) = Inr ()"
proof -
  have ne: "(n + 1) + 1 \<noteq> n + 1" by (simp only: add_cancel_left_right) simp
  show ?thesis
  proof (cases "n + 1 = erase_val (flash_cfg c)")
    case True
    with ne have "n + 1 + 1 \<noteq> erase_val (flash_cfg c)" by simp
    with True show ?thesis by (simp add: next_swap_count_def its_mblock_validate_swap_count_def)
  qed (simp add: next_swap_count_def its_mblock_validate_swap_count_def)
qed

lemma byte_cases_end:
  obtains "n = 255" | "n = 254" | "unat (n :: byte) < 254"
proof -
  have "n = word_of_nat (unat n)" by simp
  then have "n = 255" if "unat n = 255" using that by (metis of_nat_numeral)
  moreover have "n = 254" if "unat n = 254"
    using that \<open>n = word_of_nat (unat n)\<close> by (metis of_nat_numeral)
  ultimately show thesis using that unat_byte_lt[of n] by linarith
qed

lemma byte_succ:
  assumes "unat (n :: byte) < 254"
  shows "n < n + 1" "n + 1 \<noteq> 0" "n + 1 \<noteq> 255" "n \<noteq> n + 1" "n + 1 = 1 \<longleftrightarrow> n = 0" "n + 1 = 2 \<longleftrightarrow> n = 1"
    "unat (n + 1) = unat n + 1"
proof -
  show u: "unat (n + 1) = unat n + 1" using assms by (simp add: unat_word_ariths)
  show "n < n + 1" using u by (simp add: word_less_nat_alt)
  show "n + 1 \<noteq> 0" using u by (metis add_is_0 one_neq_zero unat_0)
  show "n + 1 \<noteq> 255"
  proof
    assume "n + 1 = 255"
    then have "unat (n + 1) = 255" by simp
    with u assms show False by simp
  qed
  show "n \<noteq> n + 1" by simp
  show "n + 1 = 1 \<longleftrightarrow> n = 0" by simp
  show "n + 1 = 2 \<longleftrightarrow> n = 1" by (metis add_right_cancel one_add_one)
qed

lemma latest_meta_block_succ:
  assumes ev: "erase_val (flash_cfg c) \<in> {0, 255}"
    and valid: "its_mblock_validate_swap_count c (active_swap_count h) = Inr ()"
    and succ: "active_swap_count h' = next_swap_count c (active_swap_count h)"
  shows "its_mblock_latest_meta_block c h h' = ITS_METADATA_BLOCK1"
    and "its_mblock_latest_meta_block c h' h = ITS_METADATA_BLOCK0"
proof -
  let ?n = "active_swap_count h"
  have n: "?n \<noteq> erase_val (flash_cfg c)"
    using valid by (auto simp: its_mblock_validate_swap_count_def split: if_splits)
  have "its_mblock_latest_meta_block c h h' = ITS_METADATA_BLOCK1
      \<and> its_mblock_latest_meta_block c h' h = ITS_METADATA_BLOCK0"
  proof (cases ?n rule: byte_cases_end)
    case 1
    with ev n succ show ?thesis
      by (auto simp: its_mblock_latest_meta_block_def next_swap_count_def
          its_mblock_validate_swap_count_def its_consts)
  next
    case 2
    with ev n succ show ?thesis
      by (auto simp: its_mblock_latest_meta_block_def next_swap_count_def
          its_mblock_validate_swap_count_def its_consts)
  next
    case 3
    note b = byte_succ[OF this]
    have "active_swap_count h' = ?n + 1"
      using succ ev b by (auto simp: next_swap_count_def its_mblock_validate_swap_count_def)
    with b n ev show ?thesis
      by (auto simp: its_mblock_latest_meta_block_def its_consts dest: less_imp_not_less)
  qed
  then show "its_mblock_latest_meta_block c h h' = ITS_METADATA_BLOCK1"
    and "its_mblock_latest_meta_block c h' h = ITS_METADATA_BLOCK0" by auto
qed

section \<open>Layout of the structures\<close>

lemma length_header_bytes [simp]: "length (header_bytes h) = 8"
  by (simp add: header_bytes_def)

lemma length_block_meta_bytes [simp]: "length (block_meta_bytes m) = 12"
  by (simp add: block_meta_bytes_def)

lemma length_file_meta_bytes [simp]: "length (fid m) = 12 \<Longrightarrow> length (file_meta_bytes m) = 32"
  by (simp add: file_meta_bytes_def)

lemma header_roundtrip:
  "scratch_dblock h < SIZE_MAX_P1 \<Longrightarrow> header_of_bytes (header_bytes h) = h"
  by (simp add: header_of_bytes_def header_bytes_def rd_def nth_append)

lemma block_meta_roundtrip:
  "phy_id m < SIZE_MAX_P1 \<Longrightarrow> data_start m < SIZE_MAX_P1 \<Longrightarrow> free_size m < SIZE_MAX_P1 \<Longrightarrow>
   block_meta_of_bytes (block_meta_bytes m) = m"
  by (simp add: block_meta_of_bytes_def block_meta_bytes_def rd_def)

definition file_meta_typed :: "its_file_meta_t \<Rightarrow> bool" where
  "file_meta_typed m \<longleftrightarrow> lblock m < SIZE_MAX_P1 \<and> data_idx m < SIZE_MAX_P1 \<and> cur_size m < SIZE_MAX_P1
     \<and> max_size m < SIZE_MAX_P1 \<and> length (fid m) = ITS_FILE_ID_SIZE"

lemma unat_flags_lt: "unat (w :: 32 word) < SIZE_MAX_P1"
  using unsigned_less[of w] by simp

lemma file_meta_roundtrip:
  "file_meta_typed m \<Longrightarrow> file_meta_of_bytes (file_meta_bytes m) = m"
  by (simp add: file_meta_of_bytes_def file_meta_bytes_def rd_def file_meta_typed_def
      its_consts unat_flags_lt)

section \<open>The metadata checksum\<close>

lemma xor_bytes_acc: "xor_bytes bs acc = acc XOR xor_bytes bs 0"
proof (induction bs arbitrary: acc)
  case Nil
  then show ?case by (simp add: xor_bytes_def)
next
  case (Cons b bs)
  then have "xor_bytes bs (acc XOR b) = (acc XOR b) XOR xor_bytes bs 0"
    and "xor_bytes bs (0 XOR b) = (0 XOR b) XOR xor_bytes bs 0" by blast+
  then show ?case by (simp only: xor_bytes_def foldl.simps xor.assoc xor.left_neutral)
qed

lemma xor_bytes_append: "xor_bytes (xs @ ys) acc = xor_bytes ys (xor_bytes xs acc)"
  by (simp add: xor_bytes_def)

lemma xor_bytes_Cons: "xor_bytes (x # xs) acc = xor_bytes xs (acc XOR x)"
  by (simp add: xor_bytes_def)

lemma xor_left_cancel: "(a :: byte) XOR x = a XOR y \<longleftrightarrow> x = y"
proof
  assume "a XOR x = a XOR y"
  then have "a XOR (a XOR x) = a XOR (a XOR y)" by simp
  then show "x = y" by (simp only: xor.assoc[symmetric] xor_self_eq xor.left_neutral)
qed simp

text \<open>Changing exactly one byte of a buffer changes its checksum.\<close>

lemma xor_bytes_update:
  assumes "i < length bs" "bs ! i \<noteq> x"
  shows "xor_bytes (bs[i := x]) acc \<noteq> xor_bytes bs acc"
proof -
  have bs: "bs = take i bs @ bs ! i # drop (Suc i) bs" using assms(1) by (rule id_take_nth_drop)
  have upd: "bs[i := x] = take i bs @ x # drop (Suc i) bs" using assms(1) by (rule upd_conv_take_nth_drop)
  let ?a = "xor_bytes (take i bs) acc" and ?d = "xor_bytes (drop (Suc i) bs) 0"
  have "xor_bytes (bs[i := x]) acc = (?a XOR x) XOR ?d"
    unfolding upd by (simp only: xor_bytes_append xor_bytes_Cons xor_bytes_acc[of "drop (Suc i) bs" "?a XOR x"])
  moreover have "xor_bytes bs acc = (?a XOR bs ! i) XOR ?d"
    using arg_cong[OF bs, of "\<lambda>b. xor_bytes b acc"]
    by (simp only: xor_bytes_append xor_bytes_Cons xor_bytes_acc[of "drop (Suc i) bs" "?a XOR bs ! i"])
  moreover have "(?a XOR x) XOR ?d = ?a XOR (?d XOR x)"
    "(?a XOR bs ! i) XOR ?d = ?a XOR (?d XOR bs ! i)"
    by (simp_all only: xor.assoc xor.commute[of ?d])
  ultimately show ?thesis using assms(2) by (simp only: xor_left_cancel)
qed

section \<open>The file system on a lawful device\<close>

locale flash_fs = flash_device "flash_cfg c" "ops c" content upd dev_ok
  for c :: "'d its_flash_fs_config_t"
    and content :: "'d \<Rightarrow> nat \<Rightarrow> byte list"
    and upd :: "'d \<Rightarrow> nat \<Rightarrow> byte list \<Rightarrow> 'd"
    and dev_ok :: "'d \<Rightarrow> bool"
begin

lemma dev_read_ok [io_simps]:
  "dev_ok (dev s) \<Longrightarrow> b < num_blocks (flash_cfg c) \<Longrightarrow> off < block_size (flash_cfg c) \<Longrightarrow>
   off + n \<le> block_size (flash_cfg c) \<Longrightarrow>
   dev_read c b off n s = (Inr (rd (content (dev s) b) off n), s)"
  by (simp add: dev_read_def read_law)

lemma dev_write_ok [io_simps]:
  "dev_ok (dev s) \<Longrightarrow> b < num_blocks (flash_cfg c) \<Longrightarrow> off < block_size (flash_cfg c) \<Longrightarrow>
   off + n \<le> block_size (flash_cfg c) \<Longrightarrow> 0 < n \<Longrightarrow> n \<le> length buff \<Longrightarrow>
   dev_write c b buff off n s
   = (Inr (), s\<lparr>dev := upd (dev s) b (wr (content (dev s) b) off (take n buff))\<rparr>)"
  by (simp add: dev_write_def write_law)

lemma dev_erase_ok [io_simps]:
  "dev_ok (dev s) \<Longrightarrow> b < num_blocks (flash_cfg c) \<Longrightarrow>
   dev_erase c b s = (Inr (), s\<lparr>dev := upd (dev s) b
     (replicate (block_size (flash_cfg c)) (erase_val (flash_cfg c)))\<rparr>)"
  by (simp add: dev_erase_def erase_law)

lemma dev_flush_ok [io_simps]:
  "dev_ok (dev s) \<Longrightarrow> b < num_blocks (flash_cfg c) \<Longrightarrow> dev_flush c b s = (Inr (), s)"
  by (simp add: dev_flush_def flush_law)

text \<open>The chunked copy loop is one copy.\<close>

lemma block_to_block_move_ok:
  assumes "dev_ok (dev s)" "dst < num_blocks (flash_cfg c)" "src < num_blocks (flash_cfg c)"
    and "dst \<noteq> src" "block_size (flash_cfg c) < SIZE_MAX_P1"
    and "doff + n \<le> block_size (flash_cfg c)" "soff + n \<le> block_size (flash_cfg c)"
  shows "its_flash_fs_block_to_block_move c dst doff src soff n s
    = (Inr (), s\<lparr>dev := upd (dev s) dst
         (wr (content (dev s) dst) doff (rd (content (dev s) src) soff n))\<rparr>)"
  using assms
proof (induction n arbitrary: doff soff s rule: less_induct)
  case (less n)
  let ?D = "content (dev s) dst" and ?S = "content (dev s) src"
  have len: "length ?D = block_size (flash_cfg c)" "length ?S = block_size (flash_cfg c)"
    using less.prems by (simp_all add: content_length)
  show ?case
  proof (cases "n = 0")
    case True
    then show ?thesis
      using less.prems
      by (subst its_flash_fs_block_to_block_move.simps) (simp add: io_simps upd_id)
  next
    case False
    define k where "k = min n ITS_MAX_BLOCK_DATA_COPY"
    have k: "0 < k" "k \<le> n" using False by (auto simp: k_def its_consts)
    let ?x1 = "rd ?S soff k" and ?x2 = "rd ?S (soff + k) (n - k)"
    define s1 where "s1 = s\<lparr>dev := upd (dev s) dst (wr ?D doff ?x1)\<rparr>"
    have len1: "length ?x1 = k" "length (wr ?D doff ?x1) = block_size (flash_cfg c)"
      using less.prems len k by simp_all
    have s1: "dev_ok (dev s1)" "content (dev s1) dst = wr ?D doff ?x1" "content (dev s1) src = ?S"
      using less.prems len1 by (simp_all add: s1_def dev_ok_upd content_upd)
    have "its_flash_fs_block_to_block_move c dst doff src soff n s
        = its_flash_fs_block_to_block_move c dst (add32 doff k) src (add32 soff k) (n - k) s1"
      using less.prems False len len1 k
      by (subst its_flash_fs_block_to_block_move.simps)
        (simp add: io_simps k_def[symmetric] Let_def s1_def)
    also have "\<dots> = its_flash_fs_block_to_block_move c dst (doff + k) src (soff + k) (n - k) s1"
      using less.prems k by (simp add: wrap_simps)
    also have "\<dots> = (Inr (), s1\<lparr>dev := upd (dev s1) dst (wr (wr ?D doff ?x1) (doff + k) ?x2)\<rparr>)"
      using less.IH[of "n - k" s1 "doff + k" "soff + k"] less.prems k s1 by simp
    also have "wr (wr ?D doff ?x1) (doff + k) ?x2 = wr ?D doff (?x1 @ ?x2)"
      using less.prems len len1 k wr_wr_append[of doff ?x1 ?x2 ?D] by simp
    also have "?x1 @ ?x2 = rd ?S soff n"
      using rd_append[of ?S soff k "n - k"] k by simp
    finally show ?thesis
      using less.prems len len1 by (simp add: s1_def upd_upd)
  qed
qed

end

end
