(* ===== verification/ITS_FS_Inv.thy ===== *)
theory ITS_FS_Inv
  imports ITS_FS ITS_Mblock_Props
begin

text \<open>
  The invariant of the flash file system and what the lookups return under it. A metadata block
  is read through three views (\<open>mhdr\<close>, \<open>bmeta\<close>, \<open>fmeta\<close>); \<open>layout_ok\<close> says that the tables describe
  a sound allocation (each logical block has a physical block of its own, different from the
  scratch blocks; the files of a logical block tile its used area), and \<open>names_ok\<close> that file
  identifiers are unique and no file is marked for deletion.
\<close>

section \<open>Configuration and layout\<close>

definition n_lblocks :: "'d its_flash_fs_config_t \<Rightarrow> nat" where
  "n_lblocks c = (if num_blocks (flash_cfg c) = 2 then 1 else num_blocks (flash_cfg c) - 2)"

definition bm_pos :: "nat \<Rightarrow> nat" where
  "bm_pos l = 8 + 12 * l"

definition fm_pos :: "'d its_flash_fs_config_t \<Rightarrow> nat \<Rightarrow> nat" where
  "fm_pos c i = 8 + 12 * n_lblocks c + 32 * i"

definition meta_end :: "'d its_flash_fs_config_t \<Rightarrow> nat" where
  "meta_end c = fm_pos c (max_num_files c)"

text \<open>Field widths (16-bit counters, 32-bit sizes) and what \<open>its_flash_fs_validate_config\<close> checks.\<close>

definition cfg_typed :: "'d its_flash_fs_config_t \<Rightarrow> bool" where
  "cfg_typed c \<longleftrightarrow> num_blocks (flash_cfg c) < 65536 \<and> max_num_files c < 65536
     \<and> max_file_size c < 65536 \<and> block_size (flash_cfg c) < SIZE_MAX_P1"

definition cfg_ok :: "'d its_flash_fs_config_t \<Rightarrow> bool" where
  "cfg_ok c \<longleftrightarrow> cfg_typed c
     \<and> (num_blocks (flash_cfg c) = 2 \<or> 4 \<le> num_blocks (flash_cfg c))
     \<and> meta_end c \<le> block_size (flash_cfg c) \<and> max_file_size c \<le> block_size (flash_cfg c)
     \<and> (num_blocks (flash_cfg c) = 2 \<longrightarrow> max_file_size c \<le> block_size (flash_cfg c) - meta_end c)"

lemma meta_end_bound: "cfg_typed c \<Longrightarrow> meta_end c < 3000000"
  by (auto simp: cfg_typed_def meta_end_def fm_pos_def n_lblocks_def)

lemma validate_config_iff:
  assumes "cfg_typed c"
  shows "its_flash_fs_validate_config c = Inr () \<longleftrightarrow> cfg_ok c"
proof -
  let ?nb = "num_blocks (flash_cfg c)"
  have n: "its_flash_fs_num_active_dblocks c = n_lblocks c" if "2 \<le> ?nb"
    using assms that
    by (simp add: its_flash_fs_num_active_dblocks_def n_lblocks_def wrap_simps cfg_typed_def)
  have size: "its_flash_fs_all_metadata_size c = meta_end c" if "2 \<le> ?nb"
    using assms n[OF that] meta_end_bound[OF assms]
    by (auto simp: its_flash_fs_all_metadata_size_def meta_end_def fm_pos_def its_consts wrap_simps)
  show ?thesis
  proof (cases "?nb < 2 \<or> ?nb = 3")
    case True
    then show ?thesis by (auto simp: its_flash_fs_validate_config_def cfg_ok_def Let_def)
  next
    case False
    then have nb: "2 \<le> ?nb" "?nb = 2 \<or> 4 \<le> ?nb" by linarith+
    show ?thesis
    proof (cases "meta_end c \<le> block_size (flash_cfg c)")
      case True
      then have "sub32 (block_size (flash_cfg c)) (meta_end c) = block_size (flash_cfg c) - meta_end c"
        using assms by (simp add: wrap_simps cfg_typed_def)
      with True nb size show ?thesis
        using assms by (auto simp: its_flash_fs_validate_config_def cfg_ok_def Let_def)
    next
      case False
      with nb size show ?thesis
        by (auto simp: its_flash_fs_validate_config_def cfg_ok_def Let_def)
    qed
  qed
qed

lemma all_metadata_size_eq:
  assumes "cfg_ok c"
  shows "its_flash_fs_all_metadata_size c = meta_end c"
  using assms meta_end_bound[of c]
  by (auto simp: its_flash_fs_all_metadata_size_def its_flash_fs_num_active_dblocks_def n_lblocks_def meta_end_def
      fm_pos_def its_consts wrap_simps cfg_ok_def cfg_typed_def)

lemma cfg_ok_bounds:
  assumes "cfg_ok c"
  shows "0 < n_lblocks c" "meta_end c < 3000000" "meta_end c \<le> block_size (flash_cfg c)"
    "2 \<le> num_blocks (flash_cfg c)" "block_size (flash_cfg c) < SIZE_MAX_P1"
    "8 \<le> meta_end c" "bm_pos (n_lblocks c) = fm_pos c 0" "max_num_files c < 65536"
    "max_file_size c \<le> block_size (flash_cfg c)" "n_lblocks c < 65536"
  using assms meta_end_bound[of c]
  by (auto simp: cfg_ok_def cfg_typed_def n_lblocks_def meta_end_def fm_pos_def bm_pos_def)

lemma num_active_dblocks_eq [simp]: "cfg_ok c \<Longrightarrow> its_num_active_dblocks c = n_lblocks c"
  by (auto simp: its_num_active_dblocks_def its_num_dedicated_dblocks_def its_init_dblock_start_def
      n_lblocks_def wrap_simps cfg_ok_def cfg_typed_def)

lemma block_meta_offset_eq [simp]: "l < 65537 \<Longrightarrow> its_mblock_block_meta_offset l = bm_pos l"
  by (simp add: its_mblock_block_meta_offset_def bm_pos_def its_consts wrap_simps)

lemma file_meta_offset_eq [simp]:
  "cfg_ok c \<Longrightarrow> i < 65537 \<Longrightarrow> its_mblock_file_meta_offset c i = fm_pos c i"
  using cfg_ok_bounds[of c]
  by (simp add: its_mblock_file_meta_offset_def fm_pos_def its_consts wrap_simps)

lemma fm_pos_le: "i < max_num_files c \<Longrightarrow> fm_pos c i + 32 \<le> meta_end c"
  by (simp add: fm_pos_def meta_end_def)

lemma bm_pos_le: "l < n_lblocks c \<Longrightarrow> bm_pos l + 12 \<le> fm_pos c 0"
  by (simp add: fm_pos_def bm_pos_def)

lemma fm_pos_0_le: "fm_pos c 0 \<le> meta_end c"
  by (simp add: fm_pos_def meta_end_def)

lemma fm_pos_mono: "i < j \<Longrightarrow> fm_pos c i + 32 \<le> fm_pos c j"
  by (simp add: fm_pos_def)

lemma bm_pos_mono: "i < j \<Longrightarrow> bm_pos i + 12 \<le> bm_pos j"
  by (simp add: bm_pos_def)

lemma bm_pos_ge: "8 \<le> bm_pos l"
  by (simp add: bm_pos_def)

section \<open>Views of a metadata block\<close>

definition mhdr :: "byte list \<Rightarrow> its_metadata_block_header_t" where
  "mhdr m = header_of_bytes (rd m 0 8)"

definition bmeta :: "byte list \<Rightarrow> nat \<Rightarrow> its_block_meta_t" where
  "bmeta m l = block_meta_of_bytes (rd m (bm_pos l) 12)"

definition fmeta :: "'d its_flash_fs_config_t \<Rightarrow> byte list \<Rightarrow> nat \<Rightarrow> its_file_meta_t" where
  "fmeta c m i = file_meta_of_bytes (rd m (fm_pos c i) 32)"

definition meta_xor :: "'d its_flash_fs_config_t \<Rightarrow> byte list \<Rightarrow> byte" where
  "meta_xor c m = xor_bytes (rd m 8 (meta_end c - 8)) 0"

section \<open>Sound tables\<close>

definition lb_start :: "'d its_flash_fs_config_t \<Rightarrow> nat \<Rightarrow> nat" where
  "lb_start c l = (if l = 0 then meta_end c else 0)"

definition file_end :: "its_file_meta_t \<Rightarrow> nat" where
  "file_end f = data_idx f + max_size f"

definition separated :: "its_file_meta_t \<Rightarrow> its_file_meta_t \<Rightarrow> bool" where
  "separated f g \<longleftrightarrow> file_end f \<le> data_idx g \<or> file_end g \<le> data_idx f"

definition lb_end :: "'d its_flash_fs_config_t \<Rightarrow> (nat \<Rightarrow> its_block_meta_t) \<Rightarrow> nat \<Rightarrow> nat" where
  "lb_end c bm l = block_size (flash_cfg c) - free_size (bm l)"

definition files_in :: "'d its_flash_fs_config_t \<Rightarrow> (nat \<Rightarrow> its_file_meta_t) \<Rightarrow> nat \<Rightarrow> nat set" where
  "files_in c fm l = {i. i < max_num_files c \<and> fid_valid (fid (fm i)) \<and> lblock (fm i) = l}"

definition blocks_ok :: "'d its_flash_fs_config_t \<Rightarrow> nat \<Rightarrow> nat \<Rightarrow> (nat \<Rightarrow> its_block_meta_t) \<Rightarrow> bool" where
  "blocks_ok c act sd bm \<longleftrightarrow>
     (\<forall>l < n_lblocks c. data_start (bm l) = lb_start c l
        \<and> lb_start c l + free_size (bm l) \<le> block_size (flash_cfg c))
     \<and> phy_id (bm 0) = act \<and> act < 2
     \<and> (\<forall>l < n_lblocks c. 0 < l \<longrightarrow> 2 \<le> phy_id (bm l) \<and> phy_id (bm l) < num_blocks (flash_cfg c)
        \<and> phy_id (bm l) \<noteq> sd)
     \<and> inj_on (\<lambda>l. phy_id (bm l)) {1..<n_lblocks c}
     \<and> (2 < num_blocks (flash_cfg c) \<longrightarrow> 2 \<le> sd \<and> sd < num_blocks (flash_cfg c))"

definition file_ok :: "'d its_flash_fs_config_t \<Rightarrow> (nat \<Rightarrow> its_block_meta_t) \<Rightarrow> its_file_meta_t \<Rightarrow> bool" where
  "file_ok c bm f \<longleftrightarrow> lblock f < n_lblocks c
     \<and> (fid_valid (fid f) \<longrightarrow> cur_size f \<le> max_size f \<and> max_size f \<le> max_file_size c
          \<and> lb_start c (lblock f) \<le> data_idx f \<and> file_end f \<le> lb_end c bm (lblock f))"

definition tiled :: "'d its_flash_fs_config_t \<Rightarrow> (nat \<Rightarrow> its_block_meta_t) \<Rightarrow> (nat \<Rightarrow> its_file_meta_t)
    \<Rightarrow> nat \<Rightarrow> bool" where
  "tiled c bm fm l \<longleftrightarrow>
     (\<forall>i \<in> files_in c fm l. \<forall>j \<in> files_in c fm l. i \<noteq> j \<longrightarrow> separated (fm i) (fm j))
     \<and> (\<Union>i \<in> files_in c fm l. {data_idx (fm i)..<file_end (fm i)}) = {lb_start c l..<lb_end c bm l}"

definition layout_ok :: "'d its_flash_fs_config_t \<Rightarrow> nat \<Rightarrow> nat \<Rightarrow> (nat \<Rightarrow> its_block_meta_t)
    \<Rightarrow> (nat \<Rightarrow> its_file_meta_t) \<Rightarrow> bool" where
  "layout_ok c act sd bm fm \<longleftrightarrow> blocks_ok c act sd bm
     \<and> (\<forall>i < max_num_files c. file_ok c bm (fm i))
     \<and> (\<forall>l < n_lblocks c. tiled c bm fm l)"

definition names_ok :: "'d its_flash_fs_config_t \<Rightarrow> (nat \<Rightarrow> its_file_meta_t) \<Rightarrow> bool" where
  "names_ok c fm \<longleftrightarrow>
     (\<forall>i < max_num_files c. flags (fm i) AND ITS_FLASH_FS_FLAG_DELETE = 0)
     \<and> (\<forall>i < max_num_files c. \<forall>j < max_num_files c.
          fid_valid (fid (fm i)) \<longrightarrow> fid (fm i) = fid (fm j) \<longrightarrow> i = j)"

section \<open>The invariant and the abstract file table\<close>

text \<open>The parameters \<open>content\<close> and \<open>dev_ok\<close> are those of the device (locale \<open>flash_device\<close>).\<close>

definition active_meta :: "('d \<Rightarrow> nat \<Rightarrow> byte list) \<Rightarrow> 'd its_flash_fs_ctx_t \<Rightarrow> byte list" where
  "active_meta content s = content (dev s) (active_metablock s)"

definition header_ok :: "'d its_flash_fs_config_t \<Rightarrow> byte list \<Rightarrow> bool" where
  "header_ok c m \<longleftrightarrow> fs_version (mhdr m) = ITS_SUPPORTED_VERSION
     \<and> active_swap_count (mhdr m) \<noteq> erase_val (flash_cfg c)
     \<and> (validate_metadata c \<longrightarrow> metadata_xor (mhdr m) = meta_xor c m)"

definition fs_layout_inv :: "('d \<Rightarrow> nat \<Rightarrow> byte list) \<Rightarrow> ('d \<Rightarrow> bool) \<Rightarrow> 'd its_flash_fs_config_t
    \<Rightarrow> 'd its_flash_fs_ctx_t \<Rightarrow> bool" where
  "fs_layout_inv content dev_ok c s \<longleftrightarrow>
     (let m = active_meta content s in
        cfg_ok c \<and> dev_ok (dev s) \<and> scratch_metablock s = 1 - active_metablock s
        \<and> mhdr m = meta_block_header s \<and> header_ok c m
        \<and> layout_ok c (active_metablock s) (scratch_dblock (meta_block_header s)) (bmeta m) (fmeta c m)
        \<and> rd (content (dev s) (scratch_metablock s)) 0 8 = replicate 8 (erase_val (flash_cfg c)))"

definition fs_inv :: "('d \<Rightarrow> nat \<Rightarrow> byte list) \<Rightarrow> ('d \<Rightarrow> bool) \<Rightarrow> 'd its_flash_fs_config_t
    \<Rightarrow> 'd its_flash_fs_ctx_t \<Rightarrow> bool" where
  "fs_inv content dev_ok c s \<longleftrightarrow> fs_layout_inv content dev_ok c s
     \<and> names_ok c (fmeta c (active_meta content s))"

text \<open>What a client sees of a file: its maximum size, its flags and its data.\<close>

record its_file =
  file_max :: nat
  file_flags :: "32 word"
  file_data :: "byte list"

definition data_of :: "('d \<Rightarrow> nat \<Rightarrow> byte list) \<Rightarrow> 'd \<Rightarrow> (nat \<Rightarrow> its_block_meta_t) \<Rightarrow> its_file_meta_t
    \<Rightarrow> byte list" where
  "data_of content d bm f = rd (content d (phy_id (bm (lblock f)))) (data_idx f) (cur_size f)"

definition file_index :: "'d its_flash_fs_config_t \<Rightarrow> (nat \<Rightarrow> its_file_meta_t) \<Rightarrow> byte list \<Rightarrow> nat option" where
  "file_index c fm f = find (\<lambda>i. fid (fm i) = f) [0..<max_num_files c]"

definition file_view :: "('d \<Rightarrow> nat \<Rightarrow> byte list) \<Rightarrow> 'd \<Rightarrow> (nat \<Rightarrow> its_block_meta_t) \<Rightarrow> its_file_meta_t
    \<Rightarrow> its_file" where
  "file_view content d bm f =
     \<lparr>file_max = max_size f, file_flags = flags f, file_data = data_of content d bm f\<rparr>"

definition files_of :: "('d \<Rightarrow> nat \<Rightarrow> byte list) \<Rightarrow> 'd its_flash_fs_config_t \<Rightarrow> 'd
    \<Rightarrow> (nat \<Rightarrow> its_block_meta_t) \<Rightarrow> (nat \<Rightarrow> its_file_meta_t) \<Rightarrow> byte list \<Rightarrow> its_file option" where
  "files_of content c d bm fm f =
     (if fid_valid f \<and> length f = ITS_FILE_ID_SIZE
      then map_option (\<lambda>i. file_view content d bm (fm i)) (file_index c fm f) else None)"

definition fs_files :: "('d \<Rightarrow> nat \<Rightarrow> byte list) \<Rightarrow> 'd its_flash_fs_config_t \<Rightarrow> 'd its_flash_fs_ctx_t
    \<Rightarrow> byte list \<Rightarrow> its_file option" where
  "fs_files content c s =
     (let m = active_meta content s in files_of content c (dev s) (bmeta m) (fmeta c m))"

lemma names_ok_cong:
  assumes "names_ok c fm" "\<And>i. i < max_num_files c \<Longrightarrow> fm' i = fm i"
  shows "names_ok c fm'"
  unfolding names_ok_def using assms(1)[unfolded names_ok_def] assms(2) by auto

lemma file_index_Some:
  "file_index c fm f = Some i \<Longrightarrow> i < max_num_files c \<and> fid (fm i) = f"
  by (auto simp: file_index_def find_Some_iff)

lemma file_index_None: "file_index c fm f = None \<longleftrightarrow> (\<forall>i < max_num_files c. fid (fm i) \<noteq> f)"
  by (auto simp: file_index_def find_None_iff)

lemma file_index_unique:
  assumes "names_ok c fm" "i < max_num_files c" "fid_valid (fid (fm i))"
  shows "file_index c fm (fid (fm i)) = Some i"
proof (cases "file_index c fm (fid (fm i))")
  case None
  then show ?thesis using assms(2) by (auto simp: file_index_None)
next
  case (Some j)
  then show ?thesis using assms file_index_Some[OF Some] by (auto simp: names_ok_def)
qed

lemma files_of_Some:
  assumes "names_ok c fm"
  shows "files_of content c d bm fm g = Some v \<longleftrightarrow>
    fid_valid g \<and> length g = ITS_FILE_ID_SIZE
    \<and> (\<exists>i < max_num_files c. fid (fm i) = g \<and> v = file_view content d bm (fm i))"
  using file_index_unique[OF assms] file_index_Some[of c fm g]
  by (auto simp: files_of_def)

lemma files_of_upd:
  assumes "names_ok c fm" "names_ok c fm'" "i < max_num_files c"
    and "fid (fm' i) = f" "fid_valid f" "length f = ITS_FILE_ID_SIZE"
    and "fid (fm i) = f \<or> \<not> fid_valid (fid (fm i))"
    and "\<And>j. j < max_num_files c \<Longrightarrow> j \<noteq> i \<Longrightarrow>
      fid (fm' j) = fid (fm j)
        \<and> (fid_valid (fid (fm j)) \<longrightarrow> file_view content d' bm' (fm' j) = file_view content d bm (fm j))
      \<or> fid (fm j) = f \<and> \<not> fid_valid (fid (fm' j))"
  shows "files_of content c d' bm' fm' = (files_of content c d bm fm)(f \<mapsto> file_view content d' bm' (fm' i))"
proof (rule ext, rule option.expand)
  fix g
  let ?F = "files_of content c d bm fm" and ?F' = "files_of content c d' bm' fm'"
  have *: "?F' g = Some v \<longleftrightarrow> (?F(f \<mapsto> file_view content d' bm' (fm' i))) g = Some v" for v
  proof (cases "g = f")
    case True
    have "\<And>j. j < max_num_files c \<Longrightarrow> fid (fm' j) = f \<Longrightarrow> j = i"
      using assms(2-5) by (auto simp: names_ok_def)
    then have "(\<exists>j < max_num_files c. fid (fm' j) = f \<and> v = file_view content d' bm' (fm' j))
        \<longleftrightarrow> v = file_view content d' bm' (fm' i)"
      using assms(3,4) by blast
    then show ?thesis unfolding files_of_Some[OF assms(2)] True using assms(5,6) by (simp add: eq_commute)
  next
    case False
    have "fid (fm' j) = g \<and> v = file_view content d' bm' (fm' j)
        \<longleftrightarrow> fid (fm j) = g \<and> v = file_view content d bm (fm j)"
      if "fid_valid g" "j < max_num_files c" for j
      using False assms(4,7) assms(8)[OF that(2)] that(1) by (cases "j = i") auto
    then show ?thesis using False
      by (auto simp: files_of_Some[OF assms(2)] files_of_Some[OF assms(1)])
  qed
  then show "(?F' g = None) = ((?F(f \<mapsto> file_view content d' bm' (fm' i))) g = None)"
    by (metis not_None_eq)
  show "the (?F' g) = the ((?F(f \<mapsto> file_view content d' bm' (fm' i))) g)"
    if "?F' g \<noteq> None"
    using * that by (metis not_None_eq)
qed

lemma files_of_del:
  assumes "names_ok c fm" "names_ok c fm'" "i < max_num_files c" "fid (fm i) = f" "\<not> fid_valid (fid (fm' i))"
    and "fid_valid f"
    and "\<And>j. j < max_num_files c \<Longrightarrow> j \<noteq> i \<Longrightarrow> fid (fm' j) = fid (fm j)
      \<and> (fid_valid (fid (fm j)) \<longrightarrow> file_view content d' bm' (fm' j) = file_view content d bm (fm j))"
  shows "files_of content c d' bm' fm' = (files_of content c d bm fm)(f := None)"
proof (rule ext, rule option.expand)
  fix g
  let ?F = "files_of content c d bm fm" and ?F' = "files_of content c d' bm' fm'"
  have *: "?F' g = Some v \<longleftrightarrow> (?F(f := None)) g = Some v" for v
  proof (cases "g = f")
    case True
    have "fid (fm' j) \<noteq> f" if "j < max_num_files c" for j
    proof
      assume f: "fid (fm' j) = f"
      with assms(5,6) have "j \<noteq> i" by auto
      moreover from this have "fid (fm j) = fid (fm i)" using f assms(4) assms(7)[OF that] by simp
      ultimately show False using assms(1,3,4,6) that by (auto simp: names_ok_def)
    qed
    then show ?thesis using True by (auto simp: files_of_Some[OF assms(2)])
  next
    case False
    have "fid (fm' j) = g \<and> v = file_view content d' bm' (fm' j)
        \<longleftrightarrow> fid (fm j) = g \<and> v = file_view content d bm (fm j)"
      if "fid_valid g" "j < max_num_files c" for j
      using False assms(4,5) assms(7)[OF that(2)] that(1) by (cases "j = i") auto
    then show ?thesis using False
      by (auto simp: files_of_Some[OF assms(2)] files_of_Some[OF assms(1)])
  qed
  then show "(?F' g = None) = ((?F(f := None)) g = None)" by (metis not_None_eq)
  show "the (?F' g) = the ((?F(f := None)) g)" if "?F' g \<noteq> None"
    using * that by (metis not_None_eq)
qed

end
