(* ===== verification/ITS_FS_Views.thy ===== *)
theory ITS_FS_Views
  imports ITS_FS_Inv
begin

text \<open>
  What programming an entry, or copying a range of entries, does to the views of a metadata
  block, and the checksum loop as one checksum over the metadata area.
\<close>

section \<open>Entries of a metadata block\<close>

definition block_meta_typed :: "its_block_meta_t \<Rightarrow> bool" where
  "block_meta_typed m \<longleftrightarrow> phy_id m < SIZE_MAX_P1 \<and> data_start m < SIZE_MAX_P1 \<and> free_size m < SIZE_MAX_P1"

lemma fmeta_typed:
  "cfg_ok c \<Longrightarrow> length m = block_size (flash_cfg c) \<Longrightarrow> i < max_num_files c \<Longrightarrow>
   file_meta_typed (fmeta c m i)"
  using fm_pos_le[of i c] cfg_ok_bounds(3)[of c]
  by (simp add: fmeta_def file_meta_of_bytes_def file_meta_typed_def its_consts)

lemma bmeta_typed: "block_meta_typed (bmeta m l)"
  by (simp add: bmeta_def block_meta_of_bytes_def block_meta_typed_def)

lemma rd_copy_inside [buf_simps]:
  "p \<le> q \<Longrightarrow> q + k \<le> p + n \<Longrightarrow> p + n \<le> length X \<Longrightarrow> p' + n \<le> length m \<Longrightarrow>
   rd (wr X p (rd m p' n)) q k = rd m (p' + (q - p)) k"
  by (subst rd_wr_inside) (auto simp: rd_rd)

lemma fmeta_wr_fm:
  assumes "cfg_ok c" "length X = block_size (flash_cfg c)" "i < max_num_files c" "j < max_num_files c"
    and "file_meta_typed f"
  shows "fmeta c (wr X (fm_pos c i) (file_meta_bytes f)) j = (if j = i then f else fmeta c X j)"
proof -
  have l: "length (file_meta_bytes f) = 32" using assms(5) by (simp add: file_meta_typed_def its_consts)
  have b: "fm_pos c i + 32 \<le> length X" "fm_pos c j + 32 \<le> length X"
    using assms fm_pos_le[of i c] fm_pos_le[of j c] cfg_ok_bounds(3)[of c] by auto
  show ?thesis
  proof (cases i j rule: linorder_cases)
    case equal
    then show ?thesis using assms l b by (simp add: fmeta_def rd_wr_same file_meta_roundtrip)
  qed (use fm_pos_mono[of i j c] fm_pos_mono[of j i c] l b in \<open>simp_all add: fmeta_def rd_wr_disj\<close>)
qed

lemma bmeta_wr_bm:
  assumes "cfg_ok c" "length X = block_size (flash_cfg c)" "l < n_lblocks c" "k < n_lblocks c"
    and "block_meta_typed b"
  shows "bmeta (wr X (bm_pos l) (block_meta_bytes b)) k = (if k = l then b else bmeta X k)"
proof -
  have b: "bm_pos l + 12 \<le> length X" "bm_pos k + 12 \<le> length X"
    using assms bm_pos_le[of l c] bm_pos_le[of k c] fm_pos_0_le[of c] cfg_ok_bounds(3)[of c] by auto
  show ?thesis
  proof (cases l k rule: linorder_cases)
    case equal
    then show ?thesis using assms b
      by (simp add: bmeta_def rd_wr_same block_meta_roundtrip block_meta_typed_def)
  qed (use bm_pos_mono[of l k] bm_pos_mono[of k l] b in \<open>simp_all add: bmeta_def rd_wr_disj\<close>)
qed

text \<open>A write at or behind the file table keeps the block table, and so on.\<close>

lemma bmeta_wr_behind:
  "cfg_ok c \<Longrightarrow> p + length d \<le> length X \<Longrightarrow> l < n_lblocks c \<Longrightarrow> fm_pos c 0 \<le> p \<Longrightarrow>
   bmeta (wr X p d) l = bmeta X l"
  using bm_pos_le[of l c] by (simp add: bmeta_def rd_wr_disj)

lemma fmeta_wr_before:
  "cfg_ok c \<Longrightarrow> p + length d \<le> fm_pos c 0 \<Longrightarrow> length X = block_size (flash_cfg c) \<Longrightarrow>
   i < max_num_files c \<Longrightarrow> fmeta c (wr X p d) i = fmeta c X i"
  using fm_pos_le[of i c] cfg_ok_bounds(3)[of c]
  by (simp add: fmeta_def rd_wr_disj fm_pos_def)

lemma fmeta_wr_behind:
  "cfg_ok c \<Longrightarrow> p + length d \<le> length X \<Longrightarrow> i < max_num_files c \<Longrightarrow> meta_end c \<le> p \<Longrightarrow>
   fmeta c (wr X p d) i = fmeta c X i"
  using fm_pos_le[of i c] by (simp add: fmeta_def rd_wr_disj)

lemma bmeta_wr_behind':
  "cfg_ok c \<Longrightarrow> p + length d \<le> length X \<Longrightarrow> l < n_lblocks c \<Longrightarrow> meta_end c \<le> p \<Longrightarrow>
   bmeta (wr X p d) l = bmeta X l"
  using fm_pos_0_le[of c] by (simp add: bmeta_wr_behind)

lemma bmeta_wr_header:
  "length d \<le> 8 \<Longrightarrow> bm_pos l + 12 \<le> length X \<Longrightarrow> bmeta (wr X 0 d) l = bmeta X l"
  using bm_pos_ge[of l] by (simp add: bmeta_def rd_wr_disj)

lemma fmeta_wr_copy:
  assumes "cfg_ok c" "length X = block_size (flash_cfg c)" "length m = block_size (flash_cfg c)"
    and "a \<le> b" "b \<le> max_num_files c" "j < max_num_files c"
  shows "fmeta c (wr X (fm_pos c a) (rd m (fm_pos c a) (fm_pos c b - fm_pos c a))) j
    = (if a \<le> j \<and> j < b then fmeta c m j else fmeta c X j)"
proof -
  have ab: "fm_pos c a \<le> fm_pos c b" "fm_pos c b \<le> length X" "fm_pos c j + 32 \<le> length X"
    using assms fm_pos_le[of j c] cfg_ok_bounds(3)[of c] by (auto simp: fm_pos_def meta_end_def)
  consider "j < a" | "a \<le> j" "j < b" | "b \<le> j" by linarith
  then show ?thesis
  proof cases
    case 1
    then show ?thesis using assms ab fm_pos_mono[of j a c] by (simp add: fmeta_def rd_wr_disj)
  next
    case 2
    then have "fm_pos c a \<le> fm_pos c j" "fm_pos c j + 32 \<le> fm_pos c b" by (auto simp: fm_pos_def)
    then show ?thesis using 2 assms ab by (simp add: fmeta_def rd_copy_inside)
  next
    case 3
    then have "fm_pos c b \<le> fm_pos c j" by (auto simp: fm_pos_def)
    then show ?thesis using 3 assms ab by (simp add: fmeta_def rd_wr_disj)
  qed
qed

lemma bmeta_wr_copy:
  assumes "cfg_ok c" "length X = block_size (flash_cfg c)" "length m = block_size (flash_cfg c)"
    and "a \<le> b" "b \<le> n_lblocks c" "j < n_lblocks c"
  shows "bmeta (wr X (bm_pos a) (rd m (bm_pos a) (bm_pos b - bm_pos a))) j
    = (if a \<le> j \<and> j < b then bmeta m j else bmeta X j)"
proof -
  have ab: "bm_pos a \<le> bm_pos b" "bm_pos b \<le> length X" "bm_pos j + 12 \<le> length X"
    using assms bm_pos_le[of j c] cfg_ok_bounds(3)[of c] fm_pos_0_le[of c]
    by (auto simp: bm_pos_def fm_pos_def)
  consider "j < a" | "a \<le> j" "j < b" | "b \<le> j" by linarith
  then show ?thesis
  proof cases
    case 1
    then show ?thesis using assms ab bm_pos_mono[of j a] by (simp add: bmeta_def rd_wr_disj)
  next
    case 2
    then have "bm_pos a \<le> bm_pos j" "bm_pos j + 12 \<le> bm_pos b" by (auto simp: bm_pos_def)
    then show ?thesis using 2 assms ab by (simp add: bmeta_def rd_copy_inside)
  next
    case 3
    then have "bm_pos b \<le> bm_pos j" by (auto simp: bm_pos_def)
    then show ?thesis using 3 assms ab by (simp add: bmeta_def rd_wr_disj)
  qed
qed

lemma meta_xor_wr_header:
  "cfg_ok c \<Longrightarrow> length X = block_size (flash_cfg c) \<Longrightarrow> length d = 8 \<Longrightarrow> meta_xor c (wr X 0 d) = meta_xor c X"
  using cfg_ok_bounds(3,6)[of c] by (simp add: meta_xor_def rd_wr_disj)

lemma mhdr_wr_header:
  "8 \<le> length X \<Longrightarrow> scratch_dblock h < SIZE_MAX_P1 \<Longrightarrow> mhdr (wr X 0 (header_bytes h)) = h"
  by (simp add: mhdr_def rd_wr_same header_roundtrip)

section \<open>Free entries\<close>

text \<open>The entry a new file takes: the first free one when the spare may be used, else the second.\<close>

fun free_index :: "(nat \<Rightarrow> its_file_meta_t) \<Rightarrow> nat list \<Rightarrow> bool \<Rightarrow> nat" where
  "free_index fm [] sp = ITS_METADATA_INVALID_INDEX"
| "free_index fm (i # is) sp =
     (if \<not> fid_valid (fid (fm i)) then if sp then i else free_index fm is True
      else free_index fm is sp)"

lemma free_index_found:
  "free_index fm is sp \<noteq> ITS_METADATA_INVALID_INDEX \<Longrightarrow>
   free_index fm is sp \<in> set is \<and> \<not> fid_valid (fid (fm (free_index fm is sp)))"
  by (induction fm "is" sp rule: free_index.induct) (auto split: if_splits)

lemma free_index_spare:
  "ITS_METADATA_INVALID_INDEX \<notin> set is \<Longrightarrow>
   free_index fm is True = ITS_METADATA_INVALID_INDEX \<longleftrightarrow> (\<forall>i \<in> set is. fid_valid (fid (fm i)))"
  by (induction "is") auto

text \<open>When no spare may be used and a file is created, one free entry is left over.\<close>

lemma free_index_leaves_spare:
  assumes "free_index fm is False \<noteq> ITS_METADATA_INVALID_INDEX" "distinct is"
  shows "\<exists>j \<in> set is. j \<noteq> free_index fm is False \<and> \<not> fid_valid (fid (fm j))"
  using assms
proof (induction "is")
  case (Cons i "is")
  show ?case
  proof (cases "fid_valid (fid (fm i))")
    case True
    with Cons show ?thesis by auto
  next
    case False
    with Cons.prems have "free_index fm is True \<in> set is"
      using free_index_found[of fm "is" True] by simp
    with False Cons.prems show ?thesis by auto
  qed
qed simp

section \<open>The operations on a lawful device\<close>

context flash_fs
begin

abbreviation B :: nat where "B \<equiv> block_size (flash_cfg c)"
abbreviation NB :: nat where "NB \<equiv> num_blocks (flash_cfg c)"

lemma xor_entries_loop_ok:
  assumes "dev_ok (dev s)" "blk < NB" "0 < sz" "k \<le> K" "pos K \<le> B"
    and "\<And>i. i < K \<Longrightarrow> offset_of i = pos i" "\<And>i. pos (Suc i) = pos i + sz"
  shows "xor_entries_loop c blk offset_of sz [k..<K] acc s
    = (Inr (xor_bytes (rd (content (dev s) blk) (pos k) (pos K - pos k)) acc), s)"
  using assms(4)
proof (induction "K - k" arbitrary: k acc)
  case 0
  then show ?case by (simp add: io_simps xor_bytes_def)
next
  case (Suc d)
  have step: "pos k + sz = pos (Suc k)" by (simp add: assms(7))
  have mono: "pos a \<le> pos b" if "a \<le> b" for a b
    using that by (induction rule: dec_induct) (auto simp: assms(7))
  have "Suc k \<le> K" using Suc by simp
  then have le: "pos (Suc k) \<le> pos K" by (rule mono)
  have up: "[k..<K] = k # [Suc k..<K]" using Suc by (simp add: upt_conv_Cons)
  have "dev_read c blk (offset_of k) sz s = (Inr (rd (content (dev s) blk) (pos k) sz), s)"
    using assms(1-3,5) assms(6)[of k] Suc.hyps(2) le step by (intro dev_read_ok[THEN trans]) simp_all
  moreover have "pos K - pos k = sz + (pos K - pos (Suc k))" using step le by simp
  ultimately show ?case
    using Suc.hyps(1)[of "Suc k"] Suc.hyps(2) Suc.prems step
    by (simp add: up bind_io_Inr rd_append xor_bytes_append)
qed

lemma calculate_metadata_xor_ok:
  assumes "cfg_ok c" "dev_ok (dev s)" "blk < 2"
  shows "its_mblock_calculate_metadata_xor c blk s = (Inr (meta_xor c (content (dev s) blk)), s)"
proof -
  note b = cfg_ok_bounds[OF assms(1)]
  let ?m = "content (dev s) blk"
  have 1: "xor_entries_loop c blk its_mblock_block_meta_offset ITS_BLOCK_METADATA_SIZE
      [0..<n_lblocks c] 0 s = (Inr (xor_bytes (rd ?m 8 (12 * n_lblocks c)) 0), s)"
    using xor_entries_loop_ok[of s blk 12 0 "n_lblocks c" bm_pos its_mblock_block_meta_offset 0]
      assms b fm_pos_0_le[of c]
    by (simp add: its_consts) (simp add: bm_pos_def fm_pos_def)
  have 2: "xor_entries_loop c blk (its_mblock_file_meta_offset c) ITS_FILE_METADATA_SIZE
      [0..<max_num_files c] acc s
      = (Inr (xor_bytes (rd ?m (fm_pos c 0) (meta_end c - fm_pos c 0)) acc), s)" for acc
    using xor_entries_loop_ok[of s blk 32 0 "max_num_files c" "fm_pos c" "its_mblock_file_meta_offset c" acc]
      assms b
    by (simp add: its_consts meta_end_def) (simp add: fm_pos_def)
  have 3: "rd ?m 8 (meta_end c - 8)
      = rd ?m 8 (12 * n_lblocks c) @ rd ?m (fm_pos c 0) (meta_end c - fm_pos c 0)"
    using rd_append[of ?m 8 "12 * n_lblocks c" "meta_end c - fm_pos c 0"] fm_pos_0_le[of c]
    by (simp add: fm_pos_def meta_end_def)
  from assms(3) have blk: "blk = 0 \<or> blk = 1" by auto
  show ?thesis
    unfolding its_mblock_calculate_metadata_xor_def meta_xor_def 3 xor_bytes_append
    using blk by (auto simp: 1 2 bind_io_Inr assms(1) its_consts(5,6))
qed


section \<open>Reading the tables\<close>

text \<open>
  \<open>working m s\<close>: an operation is under way, the active metadata block still holds \<open>m\<close>, whose
  tables describe a sound layout. Writes to other blocks keep it.
\<close>

definition working :: "byte list \<Rightarrow> 'd its_flash_fs_ctx_t \<Rightarrow> bool" where
  "working m s \<longleftrightarrow> cfg_ok c \<and> dev_ok (dev s) \<and> active_metablock s < 2
     \<and> scratch_metablock s = 1 - active_metablock s \<and> content (dev s) (active_metablock s) = m
     \<and> (\<exists>sd. layout_ok c (active_metablock s) sd (bmeta m) (fmeta c m))"

lemma workingD:
  assumes "working m s"
  shows "cfg_ok c" "dev_ok (dev s)" "active_metablock s < NB" "scratch_metablock s < NB"
    "scratch_metablock s \<noteq> active_metablock s" "content (dev s) (active_metablock s) = m"
    "length m = B" "active_metablock s < 2" "scratch_metablock s < 2"
    "scratch_metablock s = 1 - active_metablock s"
proof -
  show w: "cfg_ok c" "dev_ok (dev s)" "content (dev s) (active_metablock s) = m"
    "active_metablock s < 2" "scratch_metablock s = 1 - active_metablock s"
    using assms by (simp_all add: working_def)
  then show "active_metablock s < NB" "scratch_metablock s < NB" "scratch_metablock s < 2"
    using cfg_ok_bounds(4)[of c] by simp_all
  then show "length m = B" using w by (auto simp: content_length)
  show "scratch_metablock s \<noteq> active_metablock s" using w by presburger
qed

lemma working_upd:
  "working m s \<Longrightarrow> b \<noteq> active_metablock s \<Longrightarrow> b < NB \<Longrightarrow> length x = B \<Longrightarrow>
   working m (s\<lparr>dev := upd (dev s) b x\<rparr>)"
  using cfg_ok_bounds(4)[of c] by (simp add: working_def content_upd dev_ok_upd)

lemma working_header [simp]: "working m (s\<lparr>meta_block_header := h\<rparr>) = working m s"
  by (simp add: working_def)

lemma validate_file_meta_ok:
  assumes "cfg_ok c" "file_ok c bm f"
  shows "its_mblock_validate_file_meta c f = Inr ()"
proof -
  note b = cfg_ok_bounds[OF assms(1)]
  have "file_end f \<le> B" if "fid_valid (fid f)"
    using assms(2) that by (auto simp: file_ok_def lb_end_def)
  then show ?thesis
    using assms b
    by (auto simp: its_mblock_validate_file_meta_def file_ok_def file_end_def lb_start_def
        check_contained_in_iff its_consts(4) meta_end_def)
qed

lemma validate_block_meta_ok:
  assumes "cfg_ok c" "blocks_ok c act sd bm" "l < n_lblocks c"
  shows "its_mblock_validate_block_meta c (bm l) = Inr ()"
proof -
  note b = cfg_ok_bounds[OF assms(1)]
  have "data_start (bm l) = lb_start c l" "lb_start c l + free_size (bm l) \<le> B"
    using assms by (auto simp: blocks_ok_def)
  moreover have "phy_id (bm l) < NB \<and> (phy_id (bm l) < 2 \<longleftrightarrow> l = 0)"
    using assms b by (cases "l = 0") (auto simp: blocks_ok_def)
  ultimately show ?thesis
    using b assms(1)
    by (auto simp: its_mblock_validate_block_meta_def Let_def check_contained_in_iff its_consts(5,6)
        lb_start_def meta_end_def)
qed

lemma read_file_meta_ok [io_simps]:
  assumes "working m s" "i < max_num_files c"
  shows "its_flash_fs_mblock_read_file_meta c i s = (Inr (fmeta c m i), s)"
proof -
  note w = workingD[OF assms(1)] and b = cfg_ok_bounds[OF workingD(1)[OF assms(1)]]
  have "fm_pos c i + 32 \<le> B" using fm_pos_le[OF assms(2)] b by simp
  then have r: "dev_read c (active_metablock s) (fm_pos c i) 32 s = (Inr (rd m (fm_pos c i) 32), s)"
    using w by (simp add: dev_read_ok)
  obtain sd where "layout_ok c (active_metablock s) sd (bmeta m) (fmeta c m)"
    using assms(1) by (auto simp: working_def)
  then have "its_mblock_validate_file_meta c (fmeta c m i) = Inr ()"
    using assms(2) w(1) by (auto simp: layout_ok_def intro: validate_file_meta_ok)
  then show ?thesis
    using r assms(2) b w(1)
    by (simp add: its_flash_fs_mblock_read_file_meta_def its_consts io_simps fmeta_def Let_def lift_status_def)
qed

lemma read_block_metadata_ok [io_simps]:
  assumes "working m s" "l < n_lblocks c"
  shows "its_flash_fs_mblock_read_block_metadata c l s = (Inr (bmeta m l), s)"
proof -
  note w = workingD[OF assms(1)] and b = cfg_ok_bounds[OF workingD(1)[OF assms(1)]]
  have "bm_pos l + 12 \<le> B" using bm_pos_le[OF assms(2)] fm_pos_0_le[of c] b by simp
  then have r: "dev_read c (active_metablock s) (bm_pos l) 12 s = (Inr (rd m (bm_pos l) 12), s)"
    using w by (simp add: dev_read_ok)
  obtain sd where "layout_ok c (active_metablock s) sd (bmeta m) (fmeta c m)"
    using assms(1) by (auto simp: working_def)
  then have "its_mblock_validate_block_meta c (bmeta m l) = Inr ()"
    using assms(2) w(1) by (auto simp: layout_ok_def intro: validate_block_meta_ok)
  then show ?thesis
    using r assms(2) b w(1)
    by (simp add: its_flash_fs_mblock_read_block_metadata_def its_consts io_simps bmeta_def Let_def
        lift_status_def)
qed

lemma file_idx_meta_loop_ok:
  assumes "working m s" "\<forall>i \<in> set is. i < max_num_files c"
  shows "file_idx_meta_loop c f is s
    = (case find (\<lambda>i. fid (fmeta c m i) = f) is of
         None \<Rightarrow> (Inl PSA_ERROR_DOES_NOT_EXIST, s) | Some i \<Rightarrow> (Inr (i, fmeta c m i), s))"
  using assms(2) by (induction "is") (use assms(1) in \<open>auto simp: io_simps\<close>)

lemma get_file_idx_meta_ok [io_simps]:
  "working m s \<Longrightarrow> its_flash_fs_mblock_get_file_idx_meta c f s
    = (case file_index c (fmeta c m) f of
         None \<Rightarrow> (Inl PSA_ERROR_DOES_NOT_EXIST, s) | Some i \<Rightarrow> (Inr (i, fmeta c m i), s))"
  by (simp add: its_flash_fs_mblock_get_file_idx_meta_def file_idx_meta_loop_ok file_index_def)

lemma file_idx_flag_loop_ok:
  assumes "working m s" "\<forall>i \<in> set is. i < max_num_files c"
  shows "file_idx_flag_loop c flgs is s
    = (case find (\<lambda>i. flags (fmeta c m i) AND flgs \<noteq> 0) is of
         None \<Rightarrow> (Inl PSA_ERROR_DOES_NOT_EXIST, s) | Some i \<Rightarrow> (Inr i, s))"
  using assms(2) by (induction "is") (use assms(1) in \<open>auto simp: io_simps\<close>)

lemma free_file_index_loop_ok:
  assumes "working m s" "\<forall>i \<in> set is. i < max_num_files c"
  shows "free_file_index_loop c is sp s = (Inr (free_index (fmeta c m) is sp), s)"
  using assms(2) by (induction "is" arbitrary: sp) (use assms(1) in \<open>auto simp: io_simps\<close>)

lemma reserve_file_loop_ok:
  assumes "working m s" "\<forall>l \<in> set ls. l < n_lblocks c"
  shows "reserve_file_loop c f sz flgs ls s
    = (case find (\<lambda>l. sz \<le> free_size (bmeta m l)) ls of
         None \<Rightarrow> (Inl PSA_ERROR_INSUFFICIENT_STORAGE, s)
       | Some l \<Rightarrow> (Inr (\<lparr>lblock = l, data_idx = lb_end c (bmeta m) l, cur_size = 0, max_size = sz,
                        flags = flgs, fid = f\<rparr>,
                      (bmeta m l)\<lparr>free_size := free_size (bmeta m l) - sz\<rparr>), s))"
  using assms(2)
proof (induction ls)
  case Nil
  then show ?case by (simp add: io_simps)
next
  case (Cons l ls)
  obtain sd where "layout_ok c (active_metablock s) sd (bmeta m) (fmeta c m)"
    using assms(1) by (auto simp: working_def)
  then have "free_size (bmeta m l) \<le> B" using Cons.prems by (auto simp: layout_ok_def blocks_ok_def)
  then have "sub32 B (free_size (bmeta m l)) = lb_end c (bmeta m) l"
    using cfg_ok_bounds(5)[OF workingD(1)[OF assms(1)]] by (simp add: wrap_simps lb_end_def)
  then show ?case using Cons assms(1) by (simp add: io_simps)
qed

lemma reserve_file_ok:
  assumes "working m s"
  shows "its_flash_fs_mblock_reserve_file c f sp sz flgs s
    = (case (find (\<lambda>l. sz \<le> free_size (bmeta m l)) [0..<n_lblocks c],
             free_index (fmeta c m) [0..<max_num_files c] sp) of
         (Some l, i) \<Rightarrow>
           if i = ITS_METADATA_INVALID_INDEX then (Inl PSA_ERROR_INSUFFICIENT_STORAGE, s)
           else (Inr (i, \<lparr>lblock = l, data_idx = lb_end c (bmeta m) l, cur_size = 0, max_size = sz,
                        flags = flgs, fid = f\<rparr>,
                      (bmeta m l)\<lparr>free_size := free_size (bmeta m l) - sz\<rparr>), s)
       | (None, _) \<Rightarrow> (Inl PSA_ERROR_INSUFFICIENT_STORAGE, s))"
  using assms workingD(1)[OF assms]
  by (auto simp: its_flash_fs_mblock_reserve_file_def its_mblock_reserve_file_def
      its_get_free_file_index_def reserve_file_loop_ok free_file_index_loop_ok io_simps
      split: option.splits)

end

end
