(* ===== verification/ITS_FS_Layout.thy ===== *)
theory ITS_FS_Layout
  imports ITS_FS_Inv
begin

text \<open>
  Sound layouts: how the tables change when a file is rewritten in place, created or deleted,
  and that the allocation stays sound (pure facts about the tables, no device).
\<close>

section \<open>Congruence\<close>

text \<open>A sound layout only depends on the entries in range.\<close>

lemma files_in_cong: "(\<And>i. i < max_num_files c \<Longrightarrow> fm i = fm' i) \<Longrightarrow> files_in c fm l = files_in c fm' l"
  by (rule set_eqI) (simp add: files_in_def cong: conj_cong)

lemma layout_ok_cong:
  assumes "cfg_ok c" "\<And>l. l < n_lblocks c \<Longrightarrow> bm l = bm' l" "\<And>i. i < max_num_files c \<Longrightarrow> fm i = fm' i"
    and "layout_ok c act sd bm fm"
  shows "layout_ok c act sd bm' fm'"
proof -
  have fi: "files_in c fm' l = files_in c fm l" for l using files_in_cong[of c fm fm' l] assms(3) by simp
  have in_range: "i < max_num_files c" if "i \<in> files_in c fm l" for i l
    using that by (simp add: files_in_def)
  have "inj_on (\<lambda>l. phy_id (bm' l)) {1..<n_lblocks c} = inj_on (\<lambda>l. phy_id (bm l)) {1..<n_lblocks c}"
    using assms(2) by (auto simp: inj_on_def)
  then have "blocks_ok c act sd bm'"
    using assms(2,4) cfg_ok_bounds(1)[OF assms(1)] by (simp add: layout_ok_def blocks_ok_def)
  moreover have "file_ok c bm' (fm' i)" if "i < max_num_files c" for i
    using assms that by (auto simp: layout_ok_def file_ok_def lb_end_def)
  moreover have "tiled c bm' fm' l" if "l < n_lblocks c" for l
  proof -
    have "tiled c bm fm l" using assms(4) that by (simp add: layout_ok_def)
    then show ?thesis using assms(2,3) that in_range by (simp add: tiled_def fi lb_end_def)
  qed
  ultimately show ?thesis by (simp add: layout_ok_def)
qed


section \<open>Moving a logical block to the scratch block\<close>

text \<open>
  The block table in the scratch block after \<open>its_flash_fs_mblock_update_scratch_block_meta\<close>: the
  entry \<open>lb\<close> is \<open>b\<close>, the others are copied, and the entry of logical block 0 names the scratch
  block itself.
\<close>

definition new_bmeta :: "nat \<Rightarrow> (nat \<Rightarrow> its_block_meta_t) \<Rightarrow> nat \<Rightarrow> its_block_meta_t \<Rightarrow> nat
    \<Rightarrow> its_block_meta_t" where
  "new_bmeta scratch bm lb b k =
     (let e = (if k = lb then b else bm k) in if k = 0 then e\<lparr>phy_id := scratch\<rparr> else e)"


lemma new_bmeta_free [simp]:
  "free_size (new_bmeta scratch bm lb b k) = free_size (if k = lb then b else bm k)"
  "data_start (new_bmeta scratch bm lb b k) = data_start (if k = lb then b else bm k)"
  by (simp_all add: new_bmeta_def Let_def)

lemma blocks_ok_same:
  assumes "blocks_ok c act sd bm" "scratch < 2" "l < n_lblocks c"
    and "data_start b = lb_start c l" "lb_start c l + free_size b \<le> block_size (flash_cfg c)"
    and "l = 0 \<or> phy_id b = phy_id (bm l)"
  shows "blocks_ok c scratch sd (new_bmeta scratch bm l b)"
proof -
  have p: "phy_id (new_bmeta scratch bm l b k) = (if k = 0 then scratch else phy_id (bm k))" for k
    using assms(6) by (auto simp: new_bmeta_def Let_def)
  have "inj_on (\<lambda>k. phy_id (new_bmeta scratch bm l b k)) {1..<n_lblocks c}"
    using assms(1) by (auto simp: blocks_ok_def p inj_on_def)
  then show ?thesis using assms by (auto simp: blocks_ok_def p)
qed

lemma n_lblocks_gt1: "cfg_ok c \<Longrightarrow> 0 < l \<Longrightarrow> l < n_lblocks c \<Longrightarrow> 2 < num_blocks (flash_cfg c)"
  by (auto simp: n_lblocks_def cfg_ok_def split: if_splits)

lemma blocks_ok_swap:
  assumes "cfg_ok c" "blocks_ok c act sd bm" "scratch < 2" "l < n_lblocks c" "0 < l"
    and "data_start b = lb_start c l" "lb_start c l + free_size b \<le> block_size (flash_cfg c)"
    and "phy_id b = sd"
  shows "blocks_ok c scratch (phy_id (bm l)) (new_bmeta scratch bm l b)"
proof -
  have p: "phy_id (new_bmeta scratch bm l b k) = (if k = 0 then scratch else if k = l then sd else phy_id (bm k))" for k
    using assms(8) by (auto simp: new_bmeta_def Let_def)
  have sd: "2 \<le> sd" "sd < num_blocks (flash_cfg c)"
    using assms(2) n_lblocks_gt1[OF assms(1,5,4)] by (auto simp: blocks_ok_def)
  have inj: "phy_id (bm k) \<noteq> phy_id (bm l)" if "0 < k" "k < n_lblocks c" "k \<noteq> l" for k
    using assms(2,4,5) that by (auto simp: blocks_ok_def inj_on_def)
  have "inj_on (\<lambda>k. phy_id (new_bmeta scratch bm l b k)) {1..<n_lblocks c}"
    using assms(2) by (auto simp: blocks_ok_def p inj_on_def)
  then show ?thesis using assms sd inj by (auto simp: blocks_ok_def p)
qed

section \<open>Files\<close>

text \<open>Only the region of a file matters for its place in the layout.\<close>

lemma tiled_cong:
  assumes "files_in c fm' l = files_in c fm l" "lb_end c bm' l = lb_end c bm l"
    and "\<And>i. i \<in> files_in c fm l \<Longrightarrow> data_idx (fm' i) = data_idx (fm i) \<and> max_size (fm' i) = max_size (fm i)"
  shows "tiled c bm' fm' l = tiled c bm fm l"
  using assms by (simp add: tiled_def separated_def file_end_def)

lemma tiled_separated:
  "tiled c bm fm l \<Longrightarrow> i \<in> files_in c fm l \<Longrightarrow> j \<in> files_in c fm l \<Longrightarrow> i \<noteq> j \<Longrightarrow> separated (fm i) (fm j)"
  by (simp add: tiled_def)

lemma layout_reuse:
  assumes "layout_ok c act sd bm fm" "blocks_ok c act' sd' bm'" "i < max_num_files c"
    and "\<And>l. l < n_lblocks c \<Longrightarrow> free_size (bm' l) = free_size (bm l)"
    and "fid_valid (fid (fm i))" "fid f = fid (fm i)" "lblock f = lblock (fm i)" "data_idx f = data_idx (fm i)"
    and "max_size f = max_size (fm i)" "cur_size f \<le> max_size f"
  shows "layout_ok c act' sd' bm' (fm(i := f))"
proof -
  have e: "lb_end c bm' l = lb_end c bm l" if "l < n_lblocks c" for l
    using assms(4) that by (simp add: lb_end_def)
  have fi: "files_in c (fm(i := f)) l = files_in c fm l" for l
    using assms by (auto simp: files_in_def)
  have "file_ok c bm' ((fm(i := f)) j)" if "j < max_num_files c" for j
    using assms that e by (auto simp: layout_ok_def file_ok_def file_end_def)
  moreover have "tiled c bm' (fm(i := f)) l" if "l < n_lblocks c" for l
    using assms that e fi tiled_cong[of c "fm(i := f)" l fm bm' bm] by (auto simp: layout_ok_def)
  ultimately show ?thesis using assms(2) by (simp add: layout_ok_def)
qed

lemma tiled_append:
  assumes "tiled c bm fm l" "files_in c fm' l = insert i (files_in c fm l)" "i \<notin> files_in c fm l"
    and "\<And>j. j \<in> files_in c fm l \<Longrightarrow> fm' j = fm j \<and> file_end (fm j) \<le> lb_end c bm l"
    and "data_idx (fm' i) = lb_end c bm l" "file_end (fm' i) = lb_end c bm' l" "lb_start c l \<le> lb_end c bm l"
  shows "tiled c bm' fm' l"
proof -
  have "separated (fm' j) (fm' k)" if "j \<in> files_in c fm' l" "k \<in> files_in c fm' l" "j \<noteq> k" for j k
    using that assms unfolding tiled_def by (metis insert_iff separated_def)
  moreover have "lb_end c bm l \<le> lb_end c bm' l"
    using assms(5,6) by (simp add: file_end_def)
  moreover have "(\<Union>j\<in>files_in c fm l. {data_idx (fm' j)..<file_end (fm' j)}) = {lb_start c l..<lb_end c bm l}"
    using assms(1,4) by (simp add: tiled_def)
  ultimately show ?thesis
    using assms(2,5,6,7) by (simp add: tiled_def ivl_disj_un_two(3) Un_commute)
qed

lemma layout_new:
  assumes "layout_ok c act sd bm fm" "blocks_ok c act' sd' bm'" "i < max_num_files c"
    and "\<not> fid_valid (fid (fm i))" "fid_valid (fid f)" "lblock f = l" "l < n_lblocks c"
    and "data_idx f = lb_end c bm l" "cur_size f \<le> max_size f" "max_size f \<le> max_file_size c"
    and "\<And>k. k < n_lblocks c \<Longrightarrow> free_size (bm' k) = (if k = l then free_size (bm l) - max_size f else free_size (bm k))"
    and "max_size f \<le> free_size (bm l)"
  shows "layout_ok c act' sd' bm' (fm(i := f))"
proof -
  have bm: "lb_start c k + free_size (bm k) \<le> block_size (flash_cfg c)" if "k < n_lblocks c" for k
    using assms(1) that by (auto simp: layout_ok_def blocks_ok_def)
  have e: "lb_end c bm' k = (if k = l then lb_end c bm l + max_size f else lb_end c bm k)" if "k < n_lblocks c" for k
    using assms(11,12) that bm[OF assms(7)] by (auto simp: lb_end_def)
  have fi: "files_in c (fm(i := f)) k = (if k = l then insert i (files_in c fm l) else files_in c fm k)" for k
    using assms by (auto simp: files_in_def)
  have old: "file_ok c bm (fm j)" if "j < max_num_files c" for j
    using assms(1) that by (simp add: layout_ok_def)
  have "file_ok c bm' ((fm(i := f)) j)" if j: "j < max_num_files c" for j
  proof (cases "j = i")
    case True
    then show ?thesis using assms bm[OF assms(7)] e[OF assms(7)]
      by (simp add: file_ok_def file_end_def lb_end_def)
  next
    case False
    then show ?thesis using old[OF j] e by (auto simp: file_ok_def)
  qed
  moreover have "tiled c bm' (fm(i := f)) k" if k: "k < n_lblocks c" for k
  proof (cases "k = l")
    case True
    have "tiled c bm fm l" using assms(1,7) by (simp add: layout_ok_def)
    then show ?thesis unfolding True
      by (rule tiled_append[where i = i])
        (use assms(4,8) fi e[OF assms(7)] bm[OF assms(7)] old in
          \<open>auto simp: files_in_def file_ok_def file_end_def lb_end_def\<close>)
  next
    case False
    then have "tiled c bm' (fm(i := f)) k = tiled c bm fm k"
      using e[OF k] fi by (intro tiled_cong) (auto simp: files_in_def assms(4))
    then show ?thesis using assms(1) k by (simp add: layout_ok_def)
  qed
  ultimately show ?thesis using assms(2) by (simp add: layout_ok_def)
qed

section \<open>Deleting a file\<close>

text \<open>
  The files of the block that lie behind the deleted data move down by its size
  (\<open>movers\<close>); the entry itself is zeroed.
\<close>

definition shift_file :: "its_file_meta_t \<Rightarrow> its_file_meta_t \<Rightarrow> its_file_meta_t" where
  "shift_file del f =
     (if lblock f = lblock del \<and> fid_valid (fid f) \<and> data_idx del < data_idx f
      then f\<lparr>data_idx := data_idx f - max_size del\<rparr> else f)"

definition deleted_fm :: "(nat \<Rightarrow> its_file_meta_t) \<Rightarrow> nat \<Rightarrow> nat \<Rightarrow> its_file_meta_t" where
  "deleted_fm fm i k = (if k = i then zero_file_meta else shift_file (fm i) (fm k))"

definition movers :: "'d its_flash_fs_config_t \<Rightarrow> (nat \<Rightarrow> its_file_meta_t) \<Rightarrow> nat \<Rightarrow> nat set" where
  "movers c fm i = {k \<in> files_in c fm (lblock (fm i)). k \<noteq> i \<and> data_idx (fm i) < data_idx (fm k)}"

lemma shift_file_fields [simp]:
  "lblock (shift_file d f) = lblock f" "fid (shift_file d f) = fid f" "max_size (shift_file d f) = max_size f"
  "cur_size (shift_file d f) = cur_size f" "flags (shift_file d f) = flags f"
  by (simp_all add: shift_file_def)

lemma zero_file_meta_invalid [simp]: "\<not> fid_valid (fid zero_file_meta)" "lblock zero_file_meta = 0"
    "flags zero_file_meta = 0"
  by (simp_all add: zero_file_meta_def validate_fid_zero)

lemma disjoint_ivl_sum:
  fixes lo :: "'i \<Rightarrow> nat"
  assumes "finite I" "\<And>i j. i \<in> I \<Longrightarrow> j \<in> I \<Longrightarrow> i \<noteq> j \<Longrightarrow> {lo i..<lo i + len i} \<inter> {lo j..<lo j + len j} = {}"
    and "(\<Union>i\<in>I. {lo i..<lo i + len i}) = {a..<b}"
  shows "(\<Sum>i\<in>I. len i) = b - a"
proof -
  have "card (\<Union>i\<in>I. {lo i..<lo i + len i}) = (\<Sum>i\<in>I. card {lo i..<lo i + len i})"
    using assms(1,2) by (intro card_UN_disjoint) auto
  then show ?thesis using assms(3) by simp
qed

lemma delete_geometry:
  assumes "layout_ok c act sd bm fm" "i < max_num_files c" "fid_valid (fid (fm i))"
  defines "l \<equiv> lblock (fm i)"
  shows "\<And>k. k \<in> movers c fm i \<Longrightarrow> file_end (fm i) \<le> data_idx (fm k)"
    and "\<And>k. k \<in> files_in c fm l \<Longrightarrow> k \<noteq> i \<Longrightarrow> k \<notin> movers c fm i \<Longrightarrow> 0 < max_size (fm i) \<Longrightarrow>
           file_end (fm k) \<le> data_idx (fm i)"
    and "0 < max_size (fm i) \<Longrightarrow>
         (\<Union>k\<in>movers c fm i. {data_idx (fm k)..<file_end (fm k)}) = {file_end (fm i)..<lb_end c bm l}"
    and "0 < max_size (fm i) \<Longrightarrow>
         (\<Union>k\<in>files_in c fm l - {i} - movers c fm i. {data_idx (fm k)..<file_end (fm k)})
           = {lb_start c l..<data_idx (fm i)}"
proof -
  have fo: "file_ok c bm (fm k)" if "k < max_num_files c" for k
    using assms(1) that by (simp add: layout_ok_def)
  have l: "l < n_lblocks c" using fo[OF assms(2)] by (simp add: file_ok_def l_def)
  have ti: "tiled c bm fm l" using assms(1) l by (simp add: layout_ok_def)
  have i: "i \<in> files_in c fm l" using assms by (simp add: files_in_def)
  have sep: "separated (fm i) (fm k)" if "k \<in> files_in c fm l" "k \<noteq> i" for k
    using ti i that by (auto simp: tiled_def)
  show M: "file_end (fm i) \<le> data_idx (fm k)" if "k \<in> movers c fm i" for k
    using that sep[of k] by (auto simp: movers_def separated_def file_end_def l_def)
  show L: "file_end (fm k) \<le> data_idx (fm i)"
    if "k \<in> files_in c fm l" "k \<noteq> i" "k \<notin> movers c fm i" "0 < max_size (fm i)" for k
    using that sep[of k] by (auto simp: movers_def separated_def file_end_def l_def)
  have all: "(\<Union>k\<in>files_in c fm l. {data_idx (fm k)..<file_end (fm k)}) = {lb_start c l..<lb_end c bm l}"
    using ti by (simp add: tiled_def)
  have split: "files_in c fm l = insert i (movers c fm i \<union> (files_in c fm l - {i} - movers c fm i))"
    using i by (auto simp: movers_def l_def)
  have iv: "lb_start c l \<le> data_idx (fm i)" "file_end (fm i) \<le> lb_end c bm l"
    using fo[OF assms(2)] assms(3) by (auto simp: file_ok_def l_def)
  assume pos: "0 < max_size (fm i)"
  have Msub: "(\<Union>k\<in>movers c fm i. {data_idx (fm k)..<file_end (fm k)}) \<subseteq> {file_end (fm i)..}"
    using M by force
  have Lsub: "(\<Union>k\<in>files_in c fm l - {i} - movers c fm i. {data_idx (fm k)..<file_end (fm k)}) \<subseteq> {..<data_idx (fm i)}"
    using L pos by force
  have un: "{data_idx (fm i)..<file_end (fm i)}
      \<union> ((\<Union>k\<in>movers c fm i. {data_idx (fm k)..<file_end (fm k)})
      \<union> (\<Union>k\<in>files_in c fm l - {i} - movers c fm i. {data_idx (fm k)..<file_end (fm k)}))
      = {lb_start c l..<lb_end c bm l}"
    by (subst all[symmetric], subst split) (simp only: UN_insert UN_Un)
  have lt: "data_idx (fm i) < file_end (fm i)" using pos by (simp add: file_end_def)
  have splice: "M = {e..<z} \<and> L = {a..<x}"
    if "{x..<e} \<union> (M \<union> L) = {a..<z}" "M \<subseteq> {e..}" "L \<subseteq> {..<x}" "x < e" "a \<le> x" "e \<le> z"
    for M L and x e a z :: nat
  proof
    have in_iff: "y \<in> {x..<e} \<or> y \<in> M \<or> y \<in> L \<longleftrightarrow> y \<in> {a..<z}" for y using that(1) by blast
    have inM: "y \<in> M \<Longrightarrow> e \<le> y" and inL: "y \<in> L \<Longrightarrow> y < x" for y using that(2,3) by auto
    show "M = {e..<z}"
      using in_iff inM inL that(4-6) by (intro set_eqI) (metis atLeastLessThan_iff leD le_trans less_imp_le)
    show "L = {a..<x}"
      using in_iff inM inL that(4-6) by (intro set_eqI)
        (metis atLeastLessThan_iff leD le_trans less_le_trans less_imp_le)
  qed
  note sp = splice[OF un Msub Lsub lt iv]
  show "(\<Union>k\<in>movers c fm i. {data_idx (fm k)..<file_end (fm k)}) = {file_end (fm i)..<lb_end c bm l}"
    and "(\<Union>k\<in>files_in c fm l - {i} - movers c fm i. {data_idx (fm k)..<file_end (fm k)})
           = {lb_start c l..<data_idx (fm i)}"
    using sp by blast+
qed

lemma finite_movers [simp]: "finite (movers c fm i)"
  by (rule finite_subset[of _ "{..<max_num_files c}"]) (auto simp: movers_def files_in_def)

lemma separated_disjoint: "separated f g \<Longrightarrow> {data_idx f..<file_end f} \<inter> {data_idx g..<file_end g} = {}"
  by (auto simp: separated_def)

lemma delete_bytes:
  assumes "layout_ok c act sd bm fm" "i < max_num_files c" "fid_valid (fid (fm i))" "0 < max_size (fm i)"
  shows "(\<Sum>k\<in>movers c fm i. max_size (fm k)) = lb_end c bm (lblock (fm i)) - file_end (fm i)"
    and "file_end (fm i) < lb_end c bm (lblock (fm i)) \<Longrightarrow> \<exists>k\<in>movers c fm i. data_idx (fm k) = file_end (fm i)"
proof -
  note g = delete_geometry[OF assms(1-3)]
  have "lblock (fm i) < n_lblocks c" using assms by (auto simp: layout_ok_def file_ok_def)
  then have "tiled c bm fm (lblock (fm i))" using assms(1) by (simp add: layout_ok_def)
  then have "{data_idx (fm k)..<file_end (fm k)} \<inter> {data_idx (fm j)..<file_end (fm j)} = {}"
    if "k \<in> movers c fm i" "j \<in> movers c fm i" "k \<noteq> j" for k j
    using that by (intro separated_disjoint) (auto simp: tiled_def movers_def)
  then show "(\<Sum>k\<in>movers c fm i. max_size (fm k)) = lb_end c bm (lblock (fm i)) - file_end (fm i)"
    using g(3)[OF assms(4)]
    by (intro disjoint_ivl_sum[where lo = "\<lambda>k. data_idx (fm k)"]) (auto simp: file_end_def)
  assume "file_end (fm i) < lb_end c bm (lblock (fm i))"
  then have "file_end (fm i) \<in> (\<Union>k\<in>movers c fm i. {data_idx (fm k)..<file_end (fm k)})"
    using g(3)[OF assms(4)] by simp
  then show "\<exists>k\<in>movers c fm i. data_idx (fm k) = file_end (fm i)" using g(1) by fastforce
qed

lemma movers_sum_bound:
  assumes "layout_ok c act sd bm fm" "i < max_num_files c" "fid_valid (fid (fm i))"
  shows "(\<Sum>k\<in>movers c fm i. max_size (fm k)) \<le> block_size (flash_cfg c)"
proof -
  let ?F = "files_in c fm (lblock (fm i))"
  have fin: "finite ?F" by (rule finite_subset[of _ "{..<max_num_files c}"]) (auto simp: files_in_def)
  have "lblock (fm i) < n_lblocks c" using assms by (auto simp: layout_ok_def file_ok_def)
  then have t: "tiled c bm fm (lblock (fm i))" using assms(1) by (simp add: layout_ok_def)
  then have "(\<Sum>k\<in>?F. max_size (fm k)) = lb_end c bm (lblock (fm i)) - lb_start c (lblock (fm i))"
    using separated_disjoint tiled_separated[OF t] fin
    by (intro disjoint_ivl_sum[where lo = "\<lambda>k. data_idx (fm k)"]) (auto simp: tiled_def file_end_def)
  moreover have "(\<Sum>k\<in>movers c fm i. max_size (fm k)) \<le> (\<Sum>k\<in>?F. max_size (fm k))"
    using fin by (intro sum_mono2) (auto simp: movers_def)
  ultimately show ?thesis by (simp add: lb_end_def)
qed

lemma UN_shift_down:
  fixes lo hi :: "'i \<Rightarrow> nat"
  assumes "(\<Union>k\<in>I. {lo k..<hi k}) = {e..<z}" "\<And>k. k \<in> I \<Longrightarrow> d \<le> lo k" "d \<le> e"
  shows "(\<Union>k\<in>I. {lo k - d..<hi k - d}) = {e - d..<z - d}"
proof (rule set_eqI)
  fix x
  have "x \<in> (\<Union>k\<in>I. {lo k - d..<hi k - d}) \<longleftrightarrow> x + d \<in> (\<Union>k\<in>I. {lo k..<hi k})"
    using assms(2) by fastforce
  then show "x \<in> (\<Union>k\<in>I. {lo k - d..<hi k - d}) \<longleftrightarrow> x \<in> {e - d..<z - d}"
    using assms(1,3) by auto
qed

lemma tiled_delete:
  assumes "layout_ok c act sd bm fm" "i < max_num_files c" "fid_valid (fid (fm i))"
    and "lb_end c bm' (lblock (fm i)) = lb_end c bm (lblock (fm i)) - max_size (fm i)"
  shows "tiled c bm' (deleted_fm fm i) (lblock (fm i))"
proof -
  let ?l = "lblock (fm i)" and ?fm = "deleted_fm fm i" and ?d = "max_size (fm i)"
  note g = delete_geometry[OF assms(1-3)]
  have fo: "file_ok c bm (fm i)" using assms by (simp add: layout_ok_def)
  then have l: "?l < n_lblocks c" and r: "lb_start c ?l \<le> data_idx (fm i)" "file_end (fm i) \<le> lb_end c bm ?l"
    using assms(3) by (simp_all add: file_ok_def)
  have ti: "tiled c bm fm ?l" using assms(1) l by (simp add: layout_ok_def)
  have fi: "files_in c ?fm ?l = files_in c fm ?l - {i}"
    by (auto simp: files_in_def deleted_fm_def)
  have mv: "data_idx (?fm k) = data_idx (fm k) - ?d \<and> file_end (?fm k) = file_end (fm k) - ?d
      \<and> data_idx (fm i) + ?d \<le> data_idx (fm k)" if "k \<in> movers c fm i" for k
    using that g(1)[OF that] by (auto simp: movers_def files_in_def deleted_fm_def shift_file_def file_end_def)
  have st: "?fm k = fm k" if "k \<in> files_in c fm ?l" "k \<noteq> i" "k \<notin> movers c fm i" for k
    using that by (auto simp: movers_def files_in_def deleted_fm_def shift_file_def)
  show ?thesis
  proof (cases "?d = 0")
    case True
    have same: "?fm k = fm k" if "k \<noteq> i" for k
      using that True by (simp add: deleted_fm_def shift_file_def)
    have "{data_idx (fm i)..<file_end (fm i)} = {}" using True by (simp add: file_end_def)
    moreover have "i \<in> files_in c fm ?l" using assms by (simp add: files_in_def)
    ultimately have "(\<Union>k\<in>files_in c fm ?l - {i}. {data_idx (fm k)..<file_end (fm k)})
        = (\<Union>k\<in>files_in c fm ?l. {data_idx (fm k)..<file_end (fm k)})"
      by auto
    then show ?thesis using ti True same assms(4) by (simp add: tiled_def fi)
  next
    case False
    then have pos: "0 < ?d" by simp
    have sep: "separated (?fm j) (?fm k)"
      if "j \<in> files_in c fm ?l - {i}" "k \<in> files_in c fm ?l - {i}" "j \<noteq> k" for j k
    proof -
      have old: "separated (fm j) (fm k)" using ti that by (auto simp: tiled_def)
      consider "j \<in> movers c fm i" "k \<in> movers c fm i" | "j \<in> movers c fm i" "k \<notin> movers c fm i"
        | "j \<notin> movers c fm i" "k \<in> movers c fm i" | "j \<notin> movers c fm i" "k \<notin> movers c fm i" by blast
      then show ?thesis
      proof cases
        case 1
        then show ?thesis using old mv[of j] mv[of k] by (auto simp: separated_def)
      next
        case 2
        then show ?thesis using mv[of j] st[of k] g(2)[of k] that pos by (auto simp: separated_def)
      next
        case 3
        then show ?thesis using mv[of k] st[of j] g(2)[of j] that pos by (auto simp: separated_def)
      next
        case 4
        then show ?thesis using old st[of j] st[of k] that by simp
      qed
    qed
    have "(\<Union>k\<in>movers c fm i. {data_idx (fm k) - ?d..<file_end (fm k) - ?d})
        = {file_end (fm i) - ?d..<lb_end c bm ?l - ?d}"
      by (intro UN_shift_down[OF g(3)[OF pos]]) (auto simp: file_end_def dest!: mv)
    then have un_m: "(\<Union>k\<in>movers c fm i. {data_idx (?fm k)..<file_end (?fm k)})
        = {data_idx (fm i)..<lb_end c bm' ?l}"
      using mv assms(4) by (simp add: file_end_def[of "fm i"])
    have un_s: "(\<Union>k\<in>files_in c fm ?l - {i} - movers c fm i. {data_idx (?fm k)..<file_end (?fm k)})
        = {lb_start c ?l..<data_idx (fm i)}"
      using g(4)[OF pos] st by simp
    have split: "files_in c fm ?l - {i} = movers c fm i \<union> (files_in c fm ?l - {i} - movers c fm i)"
      by (auto simp: movers_def)
    have "(\<Union>k\<in>files_in c fm ?l - {i}. {data_idx (?fm k)..<file_end (?fm k)})
        = {data_idx (fm i)..<lb_end c bm' ?l} \<union> {lb_start c ?l..<data_idx (fm i)}"
      by (subst split) (simp only: UN_Un un_m un_s)
    also have "\<dots> = {lb_start c ?l..<lb_end c bm' ?l}"
      using r assms(4) by (auto simp: file_end_def)
    finally show ?thesis using sep by (simp add: tiled_def fi)
  qed
qed

lemma layout_delete:
  assumes "cfg_ok c" "layout_ok c act sd bm fm" "blocks_ok c act' sd' bm'" "i < max_num_files c"
    and "fid_valid (fid (fm i))"
    and "\<And>k. k < n_lblocks c \<Longrightarrow>
      free_size (bm' k) = (if k = lblock (fm i) then free_size (bm k) + max_size (fm i) else free_size (bm k))"
  shows "layout_ok c act' sd' bm' (deleted_fm fm i)"
proof -
  let ?l = "lblock (fm i)" and ?d = "max_size (fm i)"
  note g = delete_geometry[OF assms(2,4,5)]
  have fo: "file_ok c bm (fm k)" if "k < max_num_files c" for k
    using assms(2) that by (simp add: layout_ok_def)
  have l: "?l < n_lblocks c" using fo[OF assms(4)] by (simp add: file_ok_def)
  have bm: "lb_start c k + free_size (bm k) \<le> block_size (flash_cfg c)" if "k < n_lblocks c" for k
    using assms(2) that by (auto simp: layout_ok_def blocks_ok_def)
  have e: "lb_end c bm' k = (if k = ?l then lb_end c bm k - ?d else lb_end c bm k)" if "k < n_lblocks c" for k
    using assms(6)[OF that] by (simp add: lb_end_def)
  have r: "lb_start c ?l \<le> data_idx (fm i)" "file_end (fm i) \<le> lb_end c bm ?l"
    using fo[OF assms(4)] assms(5) by (simp_all add: file_ok_def)
  have "file_ok c bm' (deleted_fm fm i k)" if k: "k < max_num_files c" for k
  proof (cases "k = i")
    case True
    then show ?thesis using cfg_ok_bounds(1)[OF assms(1)] by (simp add: file_ok_def deleted_fm_def)
  next
    case False
    have kb: "lblock (fm k) < n_lblocks c" using fo[OF k] by (simp add: file_ok_def)
    consider "k \<in> movers c fm i" | "k \<notin> movers c fm i" "lblock (fm k) = ?l" "fid_valid (fid (fm k))"
      | "lblock (fm k) \<noteq> ?l \<or> \<not> fid_valid (fid (fm k))" by blast
    then show ?thesis
    proof cases
      case 1
      then show ?thesis using g(1)[OF 1] fo[OF k] False e[OF kb] r
        by (auto simp: movers_def files_in_def deleted_fm_def shift_file_def file_ok_def file_end_def)
    next
      case 2
      then have *: "deleted_fm fm i k = fm k" "k \<in> files_in c fm ?l"
        using False k by (auto simp: deleted_fm_def shift_file_def movers_def files_in_def)
      have "file_end (fm k) \<le> lb_end c bm ?l - ?d"
      proof (cases "?d = 0")
        case True
        then show ?thesis using fo[OF k] 2 by (simp add: file_ok_def)
      next
        case nz: False
        then show ?thesis using g(2)[OF *(2) False 2(1)] r by (simp add: file_end_def)
      qed
      then show ?thesis using fo[OF k] 2 * e[OF kb] by (simp add: file_ok_def)
    next
      case 3
      then show ?thesis using fo[OF k] False e[OF kb]
        by (auto simp: deleted_fm_def shift_file_def file_ok_def)
    qed
  qed
  moreover have "tiled c bm' (deleted_fm fm i) k" if k: "k < n_lblocks c" for k
  proof (cases "k = ?l")
    case True
    then show ?thesis using tiled_delete[OF assms(2,4,5), of bm'] e[OF l] by simp
  next
    case False
    have "tiled c bm' (deleted_fm fm i) k = tiled c bm fm k"
      using e[OF k] False
      by (intro tiled_cong) (auto simp: files_in_def deleted_fm_def shift_file_def)
    then show ?thesis using assms(2) k by (simp add: layout_ok_def)
  qed
  ultimately show ?thesis using assms(3) by (simp add: layout_ok_def)
qed

end
