(* ===== verification/ITS_FS_Commit.thy ===== *)
theory ITS_FS_Commit
  imports ITS_FS_Views ITS_FS_Layout
begin

text \<open>
  The scratch metadata block: what the routines that fill it leave there, and that
  \<open>its_flash_fs_mblock_meta_update_finalize\<close> turns a scratch block with sound tables into the
  active block of a state that satisfies the invariant.
\<close>

section \<open>Filling the scratch metadata block\<close>

definition commit_header :: "'d its_flash_fs_config_t \<Rightarrow> its_metadata_block_header_t \<Rightarrow> byte list
    \<Rightarrow> its_metadata_block_header_t" where
  "commit_header c h X = h\<lparr>active_swap_count := next_swap_count c (active_swap_count h),
     metadata_xor := (if validate_metadata c then meta_xor c X else 0)\<rparr>"

lemma commit_header_fields [simp]:
  "scratch_dblock (commit_header c h X) = scratch_dblock h"
  "fs_version (commit_header c h X) = fs_version h"
  "active_swap_count (commit_header c h X) = next_swap_count c (active_swap_count h)"
  by (simp_all add: commit_header_def)

context flash_fs
begin

definition scr :: "'d its_flash_fs_ctx_t \<Rightarrow> byte list" where
  "scr s = content (dev s) (scratch_metablock s)"

definition put_scr :: "'d its_flash_fs_ctx_t \<Rightarrow> byte list \<Rightarrow> 'd its_flash_fs_ctx_t" where
  "put_scr s X = s\<lparr>dev := upd (dev s) (scratch_metablock s) X\<rparr>"

lemma put_scr_fields [simp]:
  "active_metablock (put_scr s X) = active_metablock s"
  "scratch_metablock (put_scr s X) = scratch_metablock s"
  "meta_block_header (put_scr s X) = meta_block_header s"
  by (simp_all add: put_scr_def)

text \<open>Writes to the scratch metadata block need no sound layout.\<close>

definition writable :: "'d its_flash_fs_ctx_t \<Rightarrow> bool" where
  "writable s \<longleftrightarrow> cfg_ok c \<and> dev_ok (dev s) \<and> scratch_metablock s < 2"

lemma working_writable: "working m s \<Longrightarrow> writable s"
  using workingD[of m s] by (simp add: writable_def)

lemma writableD: "writable s \<Longrightarrow> cfg_ok c \<and> dev_ok (dev s) \<and> scratch_metablock s < NB"
  using cfg_ok_bounds(4)[of c] by (simp add: writable_def)

lemma writable_scr:
  assumes "writable s"
  shows "length (scr s) = B" "length X = B \<Longrightarrow> scr (put_scr s X) = X"
    "length X = B \<Longrightarrow> length Y = B \<Longrightarrow> put_scr (put_scr s X) Y = put_scr s Y"
    "put_scr s (scr s) = s" "length X = B \<Longrightarrow> writable (put_scr s X)"
    "length X = B \<Longrightarrow> b < NB \<Longrightarrow>
      content (dev (put_scr s X)) b = (if b = scratch_metablock s then X else content (dev s) b)"
  using writableD[OF assms] assms
  by (simp_all add: scr_def put_scr_def content_length content_upd upd_upd upd_id dev_ok_upd writable_def)

lemma length_scr [simp]: "working m s \<Longrightarrow> length (scr s) = B"
  by (rule writable_scr(1)[OF working_writable])

lemma scr_put_scr [simp]: "working m s \<Longrightarrow> length X = B \<Longrightarrow> scr (put_scr s X) = X"
  by (rule writable_scr(2)[OF working_writable])

lemma put_put_scr [simp]:
  "working m s \<Longrightarrow> length X = B \<Longrightarrow> length Y = B \<Longrightarrow> put_scr (put_scr s X) Y = put_scr s Y"
  by (rule writable_scr(3)[OF working_writable])

lemma put_scr_scr [simp]: "working m s \<Longrightarrow> put_scr s (scr s) = s"
  by (rule writable_scr(4)[OF working_writable])

lemma working_put_scr [simp]: "working m s \<Longrightarrow> length X = B \<Longrightarrow> working m (put_scr s X)"
  using workingD[of m s] by (simp add: put_scr_def working_upd)

lemma content_put_scr:
  "working m s \<Longrightarrow> length X = B \<Longrightarrow> b < NB \<Longrightarrow>
   content (dev (put_scr s X)) b = (if b = scratch_metablock s then X else content (dev s) b)"
  by (rule writable_scr(6)[OF working_writable])

lemma write_scr:
  assumes "writable s" "off < B" "off + n \<le> B" "n = length d" "0 < n"
  shows "dev_write c (scratch_metablock s) d off n s = (Inr (), put_scr s (wr (scr s) off d))"
  using dev_write_ok[of s "scratch_metablock s" off n d] assms writableD[OF assms(1)] by (simp add: put_scr_def scr_def)

lemma move_active_scr:
  assumes "working m s" "doff + n \<le> B" "soff + n \<le> B"
  shows "its_flash_fs_block_to_block_move c (scratch_metablock s) doff (active_metablock s) soff n s
    = (Inr (), put_scr s (wr (scr s) doff (rd m soff n)))"
  using assms workingD[OF assms(1)] cfg_ok_bounds(5)[OF workingD(1)[OF assms(1)]]
  by (simp add: block_to_block_move_ok put_scr_def scr_def)

lemma update_scratch_file_meta_writable [io_simps]:
  assumes "writable s" "i < max_num_files c" "file_meta_typed f"
  shows "its_flash_fs_mblock_update_scratch_file_meta c i f s
    = (Inr (), put_scr s (wr (scr s) (fm_pos c i) (file_meta_bytes f)))"
proof -
  have w: "cfg_ok c" using writableD[OF assms(1)] by simp
  note b = cfg_ok_bounds[OF w]
  have "fm_pos c i + 32 \<le> B" using fm_pos_le[OF assms(2)] b by simp
  then have "dev_write c (scratch_metablock s) (file_meta_bytes f) (fm_pos c i) 32 s
      = (Inr (), put_scr s (wr (scr s) (fm_pos c i) (file_meta_bytes f)))"
    using assms(3) by (intro write_scr[OF assms(1)]) (simp_all add: file_meta_typed_def its_consts)
  then show ?thesis
    using assms(2) b w
    by (simp add: its_flash_fs_mblock_update_scratch_file_meta_def io_simps its_consts)
qed

lemmas update_scratch_file_meta_ok = update_scratch_file_meta_writable[OF working_writable]

lemma update_scratch_block_meta_writable:
  assumes "writable s" "l < n_lblocks c"
  shows "its_mblock_update_scratch_block_meta c l b s
    = (Inr (), put_scr s (wr (scr s) (bm_pos l) (block_meta_bytes b)))"
proof -
  have w: "cfg_ok c" using writableD[OF assms(1)] by simp
  note b = cfg_ok_bounds[OF w]
  have "bm_pos l + 12 \<le> B" using bm_pos_le[OF assms(2)] fm_pos_0_le[of c] b by simp
  then have "dev_write c (scratch_metablock s) (block_meta_bytes b) (bm_pos l) 12 s
      = (Inr (), put_scr s (wr (scr s) (bm_pos l) (block_meta_bytes b)))"
    by (intro write_scr[OF assms(1)]) simp_all
  then show ?thesis
    using assms(2) b by (simp add: its_mblock_update_scratch_block_meta_def io_simps its_consts)
qed

lemmas update_scratch_block_meta_ok = update_scratch_block_meta_writable[OF working_writable]

lemma cp_file_meta_ok [io_simps]:
  assumes "working m s" "a \<le> b" "b \<le> max_num_files c"
  shows "its_flash_fs_mblock_cp_file_meta c a b s
    = (Inr (), put_scr s (wr (scr s) (fm_pos c a) (rd m (fm_pos c a) (fm_pos c b - fm_pos c a))))"
proof -
  note w = workingD[OF assms(1)] and bd = cfg_ok_bounds[OF workingD(1)[OF assms(1)]]
  have p: "fm_pos c a \<le> fm_pos c b" "fm_pos c b \<le> meta_end c"
    using assms by (simp_all add: fm_pos_def meta_end_def)
  then have "sub32 (fm_pos c b) (fm_pos c a) = fm_pos c b - fm_pos c a"
    using bd by (simp add: wrap_simps)
  then show ?thesis
    using assms p bd w(1)
    by (simp add: its_flash_fs_mblock_cp_file_meta_def io_simps move_active_scr Let_def)
qed

lemma migrate_lb0_ok [io_simps]:
  assumes "working m s"
  shows "its_flash_fs_mblock_migrate_lb0_data_to_scratch c s
    = (Inr (), put_scr s (wr (scr s) (meta_end c)
         (rd m (meta_end c) (lb_end c (bmeta m) 0 - meta_end c))))"
proof -
  note w = workingD[OF assms] and b = cfg_ok_bounds[OF workingD(1)[OF assms]]
  obtain sd where "layout_ok c (active_metablock s) sd (bmeta m) (fmeta c m)"
    using assms by (auto simp: working_def)
  then have l0: "data_start (bmeta m 0) = meta_end c" "meta_end c + free_size (bmeta m 0) \<le> B"
    using b by (auto simp: layout_ok_def blocks_ok_def lb_start_def)
  then have sz: "sub32 (sub32 B (meta_end c)) (free_size (bmeta m 0)) = lb_end c (bmeta m) 0 - meta_end c"
    using b by (simp add: wrap_simps lb_end_def)
  have "meta_end c + (lb_end c (bmeta m) 0 - meta_end c) \<le> B"
    using l0 b by (simp add: lb_end_def)
  then show ?thesis
    using assms l0 sz b
    by (simp add: its_flash_fs_mblock_migrate_lb0_data_to_scratch_def io_simps its_consts(4)
        move_active_scr)
qed

lemma copy_remaining_lb0:
  assumes "working m s"
  shows "its_mblock_copy_remaining_block_meta c 0 s
    = (Inr (), put_scr s (wr (scr s) (bm_pos 1) (rd m (bm_pos 1) (bm_pos (n_lblocks c) - bm_pos 1))))"
proof -
  note w = workingD[OF assms] and b = cfg_ok_bounds[OF workingD(1)[OF assms]]
  have p: "bm_pos 1 \<le> fm_pos c 0" "fm_pos c 0 \<le> B" using b fm_pos_0_le[of c] by (simp_all add: bm_pos_def fm_pos_def)
  then have "sub32 (fm_pos c 0) (bm_pos 1) = bm_pos (n_lblocks c) - bm_pos 1"
    using b by (simp add: wrap_simps)
  then show ?thesis
    using assms p b w(1)
    by (simp add: its_mblock_copy_remaining_block_meta_def io_simps its_consts(4) Let_def wrap_simps
        move_active_scr)
qed

lemma copy_remaining_lb:
  assumes "working m s" "0 < l" "l < n_lblocks c"
  shows "its_mblock_copy_remaining_block_meta c l s
    = (let X0 = wr (scr s) (bm_pos 0) (block_meta_bytes ((bmeta m 0)\<lparr>phy_id := scratch_metablock s\<rparr>));
           X1 = wr X0 (bm_pos 1) (rd m (bm_pos 1) (bm_pos l - bm_pos 1));
           X2 = wr X1 (bm_pos (l + 1)) (rd m (bm_pos (l + 1)) (bm_pos (n_lblocks c) - bm_pos (l + 1)))
       in (Inr (), put_scr s X2))"
proof -
  note w = workingD[OF assms(1)] and b = cfg_ok_bounds[OF workingD(1)[OF assms(1)]]
  define X0 where "X0 = wr (scr s) (bm_pos 0) (block_meta_bytes ((bmeta m 0)\<lparr>phy_id := scratch_metablock s\<rparr>))"
  define X1 where "X1 = wr X0 (bm_pos 1) (rd m (bm_pos 1) (bm_pos l - bm_pos 1))"
  have p: "bm_pos 0 + 12 \<le> B" "bm_pos 1 \<le> bm_pos l" "bm_pos (l + 1) \<le> fm_pos c 0" "fm_pos c 0 \<le> B"
    "bm_pos l \<le> B" "bm_pos l \<le> fm_pos c 0"
    using assms b fm_pos_0_le[of c] by (simp_all add: bm_pos_def fm_pos_def)
  have len: "length X0 = B" "length X1 = B" using p assms w(7) by (simp_all add: X0_def X1_def)
  have s1: "sub32 (bm_pos l) (bm_pos 1) = bm_pos l - bm_pos 1"
    and s2: "sub32 (fm_pos c 0) (bm_pos (l + 1)) = fm_pos c 0 - bm_pos (l + 1)"
    using p b by (simp_all add: wrap_simps)
  have X1_1: "X1 = X0" if "l = Suc 0" using that by (simp add: X1_def)
  have mid: "its_flash_fs_block_to_block_move c (scratch_metablock s) (bm_pos (Suc 0))
       (active_metablock s) (bm_pos (Suc 0)) (sub32 (bm_pos l) (bm_pos (Suc 0))) (put_scr s X0)
      = (Inr (), put_scr s X1)"
    using move_active_scr[OF working_put_scr[OF assms(1) len(1)], of "bm_pos 1" "bm_pos l - bm_pos 1" "bm_pos 1"]
      assms(1) len p s1 w(7) by (simp add: X1_def)
  have last: "its_flash_fs_block_to_block_move c (scratch_metablock s) (bm_pos (l + 1))
       (active_metablock s) (bm_pos (l + 1)) (sub32 (fm_pos c 0) (bm_pos (l + 1))) (put_scr s X1)
      = (Inr (), put_scr s (wr X1 (bm_pos (l + 1)) (rd m (bm_pos (l + 1)) (fm_pos c 0 - bm_pos (l + 1)))))"
    using move_active_scr[OF working_put_scr[OF assms(1) len(2)], of "bm_pos (l + 1)" "fm_pos c 0 - bm_pos (l + 1)" "bm_pos (l + 1)"]
      assms(1) len p s2 w(7) by simp
  have first: "its_mblock_update_scratch_block_meta c 0 ((bmeta m 0)\<lparr>phy_id := scratch_metablock s\<rparr>) s
      = (Inr (), put_scr s X0)"
    using update_scratch_block_meta_ok[OF assms(1) b(1)] by (simp add: X0_def)
  have "its_mblock_copy_remaining_block_meta c l s
      = its_flash_fs_block_to_block_move c (scratch_metablock s) (bm_pos (l + 1))
       (active_metablock s) (bm_pos (l + 1)) (sub32 (fm_pos c 0) (bm_pos (l + 1))) (put_scr s X1)"
    using assms b w(1) first mid X1_1
    by (cases "Suc 0 < l") (simp_all add: its_mblock_copy_remaining_block_meta_def io_simps its_consts(4)
        Let_def wrap_simps bind_io_assoc)
  also note last
  finally show ?thesis using b(7) by (simp add: Let_def X0_def X1_def)
qed


text \<open>\<open>behind X Y\<close>: the two contents agree from the file table on.\<close>

definition behind :: "byte list \<Rightarrow> byte list \<Rightarrow> bool" where
  "behind X Y \<longleftrightarrow> length X = B \<and> length Y = B
     \<and> (\<forall>q k. fm_pos c 0 \<le> q \<longrightarrow> q + k \<le> B \<longrightarrow> rd X q k = rd Y q k)"

lemma behind_wr: "length X = B \<Longrightarrow> behind X Y \<Longrightarrow> p + length d \<le> fm_pos c 0 \<Longrightarrow> fm_pos c 0 \<le> B \<Longrightarrow>
   behind (wr X p d) Y"
  by (simp add: behind_def rd_wr_disj)

lemma behind_refl: "length X = B \<Longrightarrow> behind X X"
  by (simp add: behind_def)

lemma behind_fmeta: "behind X Y \<Longrightarrow> cfg_ok c \<Longrightarrow> i < max_num_files c \<Longrightarrow> fmeta c X i = fmeta c Y i"
  using fm_pos_le[of i c] cfg_ok_bounds(3)[of c]
  by (simp add: behind_def fmeta_def fm_pos_def)

lemma block_table_ok:
  assumes "working m s" "lb < n_lblocks c" "block_meta_typed b"
  shows "\<exists>X. its_flash_fs_mblock_update_scratch_block_meta c lb b s = (Inr (), put_scr s X)
    \<and> behind X (scr s)
    \<and> (\<forall>k < n_lblocks c. bmeta X k = new_bmeta (scratch_metablock s) (bmeta m) lb b k)"
proof -
  note w = workingD[OF assms(1)] and bd = cfg_ok_bounds[OF workingD(1)[OF assms(1)]]
  let ?n = "n_lblocks c" and ?scr = "scratch_metablock s"
  define b' where "b' = (if lb = 0 then b\<lparr>phy_id := ?scr\<rparr> else b)"
  define X0 where "X0 = wr (scr s) (bm_pos lb) (block_meta_bytes b')"
  have p: "bm_pos lb + 12 \<le> fm_pos c 0" "fm_pos c 0 \<le> B" "bm_pos ?n = fm_pos c 0"
    "bm_pos (Suc lb) \<le> fm_pos c 0" "bm_pos 0 + 12 \<le> fm_pos c 0"
    using bm_pos_le[OF assms(2)] bm_pos_le[OF bd(1)] fm_pos_0_le[of c] bd by (auto simp: bm_pos_def)
  have len: "length X0 = B" "behind X0 (scr s)"
    using p assms by (simp_all add: X0_def behind_wr behind_refl)
  have ty: "block_meta_typed b'" "block_meta_typed ((bmeta m 0)\<lparr>phy_id := ?scr\<rparr>)"
    using assms(3) bmeta_typed[of m 0] w by (auto simp: b'_def block_meta_typed_def)
  have X0: "bmeta X0 k = (if k = lb then b' else bmeta (scr s) k)" if "k < ?n" for k
    using bmeta_wr_bm[OF w(1) _ assms(2) that ty(1)] assms(1) by (simp add: X0_def)
  have run: "its_flash_fs_mblock_update_scratch_block_meta c lb b s
      = its_mblock_copy_remaining_block_meta c lb (put_scr s X0)"
    using update_scratch_block_meta_ok[OF assms(1,2), of b']
    by (simp add: its_flash_fs_mblock_update_scratch_block_meta_def io_simps its_consts(4) b'_def X0_def)
  show ?thesis
  proof (cases "lb = 0")
    case True
    define X where "X = wr X0 (bm_pos 1) (rd m (bm_pos 1) (bm_pos ?n - bm_pos 1))"
    have run': "its_flash_fs_mblock_update_scratch_block_meta c lb b s = (Inr (), put_scr s X)"
      using copy_remaining_lb0[OF working_put_scr[OF assms(1) len(1)]] True run assms(1) len p w(7)
      by (simp add: X_def)
    have "bmeta X k = (if 1 \<le> k \<and> k < ?n then bmeta m k else bmeta X0 k)" if "k < ?n" for k
      unfolding X_def using bmeta_wr_copy[OF w(1) len(1) w(7) _ _ that, of 1 ?n] bd(1) by simp
    then have "\<forall>k < ?n. bmeta X k = new_bmeta ?scr (bmeta m) lb b k"
      using True X0 by (auto simp: new_bmeta_def b'_def Let_def)
    moreover have "behind X (scr s)" using len p w(7) True by (simp add: X_def behind_wr)
    ultimately show ?thesis using run' by blast
  next
    case False
    define X1 where "X1 = wr X0 (bm_pos 0) (block_meta_bytes ((bmeta m 0)\<lparr>phy_id := ?scr\<rparr>))"
    define X2 where "X2 = wr X1 (bm_pos 1) (rd m (bm_pos 1) (bm_pos lb - bm_pos 1))"
    define X3 where "X3 = wr X2 (bm_pos (lb + 1)) (rd m (bm_pos (lb + 1)) (bm_pos ?n - bm_pos (lb + 1)))"
    have l1: "bm_pos 1 \<le> bm_pos lb" using False by (simp add: bm_pos_def)
    have len1: "length X1 = B" "length X2 = B" "length X3 = B" "behind X3 (scr s)"
      using len p w(7) l1 by (simp_all add: X1_def X2_def X3_def behind_wr)
    have run': "its_flash_fs_mblock_update_scratch_block_meta c lb b s = (Inr (), put_scr s X3)"
      using copy_remaining_lb[OF working_put_scr[OF assms(1) len(1)] _ assms(2)] False run assms(1) len len1
      by (simp add: Let_def X1_def X2_def X3_def)
    have "bmeta X3 k = new_bmeta ?scr (bmeta m) lb b k" if k: "k < ?n" for k
    proof -
      have "bmeta X3 k = (if lb + 1 \<le> k \<and> k < ?n then bmeta m k else bmeta X2 k)"
        unfolding X3_def using bmeta_wr_copy[OF w(1) len1(2) w(7) _ _ k, of "lb + 1" ?n] assms(2) by simp
      moreover have "bmeta X2 k = (if 1 \<le> k \<and> k < lb then bmeta m k else bmeta X1 k)"
        unfolding X2_def using bmeta_wr_copy[OF w(1) len1(1) w(7) _ _ k, of 1 lb] assms(2) False by simp
      moreover have "bmeta X1 k = (if k = 0 then (bmeta m 0)\<lparr>phy_id := ?scr\<rparr> else bmeta X0 k)"
        unfolding X1_def using bmeta_wr_bm[OF w(1) len(1) bd(1) k ty(2)] .
      ultimately show ?thesis using X0[OF k] False k by (auto simp: new_bmeta_def b'_def Let_def)
    qed
    with run' len1 show ?thesis by blast
  qed
qed


section \<open>Committing\<close>

definition erased :: "byte list" where
  "erased = replicate B (erase_val (flash_cfg c))"

lemma write_scratch_meta_header_ok:
  assumes "writable s"
  defines "h \<equiv> commit_header c (meta_block_header s) (scr s)"
  shows "its_mblock_write_scratch_meta_header c s
    = (Inr (), put_scr (s\<lparr>meta_block_header := h\<rparr>) (wr (scr s) 0 (header_bytes h)))"
proof -
  have w: "cfg_ok c" "dev_ok (dev s)" "scratch_metablock s < 2" using assms(1) by (simp_all add: writable_def)
  note b = cfg_ok_bounds[OF w(1)]
  have x: "its_mblock_calculate_metadata_xor c (scratch_metablock s) (s\<lparr>meta_block_header := g\<rparr>)
      = (Inr (meta_xor c (scr s)), s\<lparr>meta_block_header := g\<rparr>)" for g
    using w by (subst calculate_metadata_xor_ok) (simp_all add: scr_def)
  have wr: "dev_write c (scratch_metablock s) (header_bytes g) 0 8 (s\<lparr>meta_block_header := g\<rparr>)
      = (Inr (), put_scr (s\<lparr>meta_block_header := g\<rparr>) (wr (scr s) 0 (header_bytes g)))" for g
  proof -
    have "writable (s\<lparr>meta_block_header := g\<rparr>)" "0 < B" "0 + 8 \<le> B" "scr (s\<lparr>meta_block_header := g\<rparr>) = scr s"
      using assms(1) b by (simp_all add: scr_def writable_def)
    note * = this
    have "dev_write c (scratch_metablock (s\<lparr>meta_block_header := g\<rparr>)) (header_bytes g) 0 8 (s\<lparr>meta_block_header := g\<rparr>)
      = (Inr (), put_scr (s\<lparr>meta_block_header := g\<rparr>) (wr (scr (s\<lparr>meta_block_header := g\<rparr>)) 0 (header_bytes g)))"
      by (rule write_scr[OF *(1,2,3)]) (simp_all add: length_header_bytes)
    then show ?thesis unfolding *(4) by simp
  qed
  let ?h = "meta_block_header s"
  have sw: "bind_io bump_swap_count (\<lambda>_.
       bind_io (gets_io (\<lambda>s. active_swap_count (meta_block_header s))) (\<lambda>swap_count.
       bind_io (if its_mblock_validate_swap_count c swap_count \<noteq> Inr () then bump_swap_count
                else return_io ()) (\<lambda>_. bind_io (gets_io scratch_metablock) k))) s
      = k (scratch_metablock s) (s\<lparr>meta_block_header := ?h\<lparr>active_swap_count :=
          next_swap_count c (active_swap_count ?h)\<rparr>\<rparr>)" for k :: "nat \<Rightarrow> ('d its_flash_fs_ctx_t, unit) io"
    by (simp add: bind_io_def gets_io_def modify_io_def return_io_def bump_swap_count_def next_swap_count_def)
  have xs: "bind_io (if validate_metadata c
         then bind_io (its_mblock_calculate_metadata_xor c (scratch_metablock s)) set_metadata_xor
         else set_metadata_xor 0) k (s\<lparr>meta_block_header := g\<rparr>)
     = k () (s\<lparr>meta_block_header := g\<lparr>metadata_xor := (if validate_metadata c then meta_xor c (scr s) else 0)\<rparr>\<rparr>)"
     for g and k :: "unit \<Rightarrow> ('d its_flash_fs_ctx_t, unit) io"
    by (simp add: bind_io_def x set_metadata_xor_def modify_io_def)
  show ?thesis
    unfolding its_mblock_write_scratch_meta_header_def sw xs
    using wr[of h] by (simp add: bind_io_gets h_def commit_header_def its_consts)
qed

lemma finalize_ok:
  assumes "working m s" "2 < NB \<Longrightarrow> 2 \<le> scratch_dblock (meta_block_header s)
      \<and> scratch_dblock (meta_block_header s) < NB"
  defines "h \<equiv> commit_header c (meta_block_header s) (scr s)"
  shows "\<exists>d. its_flash_fs_mblock_meta_update_finalize c s
      = (Inr (), s\<lparr>meta_block_header := h, active_metablock := scratch_metablock s,
                  scratch_metablock := active_metablock s, dev := d\<rparr>)
    \<and> dev_ok d
    \<and> (\<forall>b < NB. content d b =
        (if b = scratch_metablock s then wr (scr s) 0 (header_bytes h)
         else if b = active_metablock s \<or> 2 < NB \<and> b = scratch_dblock (meta_block_header s) then erased
         else content (dev s) b))"
proof -
  note w = workingD[OF assms(1)] and bd = cfg_ok_bounds[OF workingD(1)[OF assms(1)]]
  let ?sd = "scratch_dblock (meta_block_header s)"
  define d1 where "d1 = upd (dev s) (scratch_metablock s) (wr (scr s) 0 (header_bytes h))"
  define d2 where "d2 = upd d1 (active_metablock s) erased"
  define d3 where "d3 = (if 2 < NB then upd d2 ?sd erased else d2)"
  have len: "length (wr (scr s) 0 (header_bytes h)) = B" "length erased = B"
    using assms(1) bd by (simp_all add: erased_def)
  have ok: "dev_ok d1" "dev_ok d2" "dev_ok d3" "active_metablock s < NB" "scratch_metablock s < NB"
    using w len assms(2) by (simp_all add: d1_def d2_def d3_def dev_ok_upd)
  define s1 where "s1 = s\<lparr>meta_block_header := h, dev := d1\<rparr>"
  define s2 where "s2 = s\<lparr>meta_block_header := h, active_metablock := scratch_metablock s,
       scratch_metablock := active_metablock s, dev := d1\<rparr>"
  have h: "scratch_dblock h = ?sd" by (simp add: h_def)
  have wr: "its_mblock_write_scratch_meta_header c s = (Inr (), s1)"
    using write_scratch_meta_header_ok[OF working_writable[OF assms(1)]] by (simp add: h_def put_scr_def d1_def s1_def)
  have "dev_flush c (scratch_metablock s) s1 = (Inr (), s1)"
    using ok w by (intro dev_flush_ok) (simp_all add: s1_def)
  moreover have "its_mblock_swap_metablocks s1 = (Inr (), s2)"
    by (simp add: its_mblock_swap_metablocks_def io_simps Let_def s1_def s2_def)
  moreover have "dev_erase c (active_metablock s) s2 = (Inr (), s2\<lparr>dev := d2\<rparr>)"
    using ok w by (subst dev_erase_ok) (simp_all add: s2_def d2_def erased_def)
  moreover have "dev_erase c ?sd (s2\<lparr>dev := d2\<rparr>) = (Inr (), s2\<lparr>dev := d3\<rparr>)" if "2 < NB"
    using ok assms(2) that by (subst dev_erase_ok) (simp_all add: s2_def d3_def erased_def)
  ultimately have run: "its_flash_fs_mblock_meta_update_finalize c s = (Inr (), s2\<lparr>dev := d3\<rparr>)"
    using wr h
    by (cases "2 < NB") (simp_all add: its_flash_fs_mblock_meta_update_finalize_def
        its_mblock_erase_scratch_blocks_def its_flash_fs_mblock_cur_data_scratch_id_def
        io_simps s1_def s2_def d3_def its_consts(4))
  have "content d3 b = (if b = scratch_metablock s then wr (scr s) 0 (header_bytes h)
         else if b = active_metablock s \<or> 2 < NB \<and> b = ?sd then erased else content (dev s) b)"
    if b: "b < NB" for b
  proof -
    have c1: "content d1 b = (if b = scratch_metablock s then wr (scr s) 0 (header_bytes h) else content (dev s) b)"
      using w len b by (simp add: d1_def content_upd)
    have c2: "content d2 b = (if b = active_metablock s then erased else content d1 b)"
      using ok len b by (simp add: d2_def content_upd)
    have "content d3 b = (if 2 < NB \<and> b = ?sd then erased else content d2 b)"
      using ok len b assms(2) by (simp add: d3_def content_upd)
    then show ?thesis using c1 c2 w(5,9) assms(2) by auto
  qed
  then show ?thesis using run ok(3) by (intro exI[of _ d3]) (simp only: s2_def, simp)
qed

lemma commit_layout_inv:
  assumes "working m s" "layout_ok c (scratch_metablock s) (scratch_dblock (meta_block_header s)) bm fm"
    and "\<forall>l < n_lblocks c. bmeta (scr s) l = bm l" "\<forall>i < max_num_files c. fmeta c (scr s) i = fm i"
    and "fs_version (meta_block_header s) = ITS_SUPPORTED_VERSION"
    and "scratch_dblock (meta_block_header s) < SIZE_MAX_P1"
  shows "\<exists>t. its_flash_fs_mblock_meta_update_finalize c s = (Inr (), t)
    \<and> fs_layout_inv content dev_ok c t
    \<and> active_metablock t = scratch_metablock s
    \<and> scratch_dblock (meta_block_header t) = scratch_dblock (meta_block_header s)
    \<and> (\<forall>l < n_lblocks c. bmeta (active_meta content t) l = bm l)
    \<and> (\<forall>i < max_num_files c. fmeta c (active_meta content t) i = fm i)
    \<and> (\<forall>k < n_lblocks c. \<forall>q j. lb_start c k \<le> q \<longrightarrow> q + j \<le> B \<longrightarrow>
         rd (content (dev t) (phy_id (bm k))) q j = rd (content (dev s) (phy_id (bm k))) q j)"
proof -
  note w = workingD[OF assms(1)] and bd = cfg_ok_bounds[OF workingD(1)[OF assms(1)]]
  let ?sd = "scratch_dblock (meta_block_header s)"
  let ?h = "commit_header c (meta_block_header s) (scr s)"
  let ?M = "wr (scr s) 0 (header_bytes ?h)"
  have sd: "2 < NB \<Longrightarrow> 2 \<le> ?sd \<and> ?sd < NB" using assms(2) by (simp add: layout_ok_def blocks_ok_def)
  obtain d where d: "its_flash_fs_mblock_meta_update_finalize c s
      = (Inr (), s\<lparr>meta_block_header := ?h, active_metablock := scratch_metablock s,
                  scratch_metablock := active_metablock s, dev := d\<rparr>)" "dev_ok d"
    "\<forall>b < NB. content d b = (if b = scratch_metablock s then ?M
         else if b = active_metablock s \<or> 2 < NB \<and> b = ?sd then erased else content (dev s) b)"
    using finalize_ok[OF assms(1) sd] by blast
  define t where "t = s\<lparr>meta_block_header := ?h, active_metablock := scratch_metablock s,
                  scratch_metablock := active_metablock s, dev := d\<rparr>"
  have am: "active_meta content t = ?M" using d(3) w(4) by (simp add: active_meta_def t_def)
  have len: "length (scr s) = B" "length ?M = B" using assms(1) bd by simp_all
  have bmM: "bmeta ?M l = bm l" if "l < n_lblocks c" for l
    using bmeta_wr_header[of "header_bytes ?h" l "scr s"] bm_pos_le[OF that] fm_pos_0_le[of c] bd len
      assms(3) that by simp
  have fmM: "fmeta c ?M i = fm i" if "i < max_num_files c" for i
    using fmeta_wr_before[of c 0 "header_bytes ?h" "scr s" i] w(1) len assms(4) that by (simp add: fm_pos_def)
  have hdr: "mhdr ?M = ?h" using bd len assms(6) by (simp add: mhdr_wr_header)
  have "header_ok c ?M"
    using next_swap_count_valid[of c "active_swap_count (meta_block_header s)"] assms(5) w(1) len
    unfolding header_ok_def hdr
    by (auto simp: meta_xor_wr_header its_mblock_validate_swap_count_def commit_header_def
        split: if_splits)
  moreover have "layout_ok c (scratch_metablock s) ?sd (bmeta ?M) (fmeta c ?M)"
    by (rule layout_ok_cong[OF w(1) _ _ assms(2)]) (simp_all add: bmM fmM)
  moreover have "active_metablock s = 1 - scratch_metablock s" using w(8,10) by linarith
  moreover have "content d (active_metablock s) = erased" using d(3) w(3,5) by simp
  then have "rd (content (dev t) (scratch_metablock t)) 0 8 = replicate 8 (erase_val (flash_cfg c))"
    using bd(3,6) by (simp add: t_def erased_def rd_def)
  ultimately have "fs_layout_inv content dev_ok c t"
    using d(2) w(1) hdr by (simp add: fs_layout_inv_def am Let_def) (simp add: t_def)
  moreover have "rd (content (dev t) (phy_id (bm k))) q j = rd (content (dev s) (phy_id (bm k))) q j"
    if k: "k < n_lblocks c" and q: "lb_start c k \<le> q" "q + j \<le> B" for k q j
  proof (cases "k = 0")
    case True
    then have "phy_id (bm k) = scratch_metablock s" using assms(2) by (simp add: layout_ok_def blocks_ok_def)
    moreover have "rd ?M q j = rd (scr s) q j" using q bd len True by (simp add: rd_wr_disj lb_start_def)
    ultimately show ?thesis using d(3) w(4) by (simp add: t_def scr_def)
  next
    case False
    then have "2 \<le> phy_id (bm k)" "phy_id (bm k) < NB" "phy_id (bm k) \<noteq> ?sd"
      using assms(2) k by (auto simp: layout_ok_def blocks_ok_def)
    then show ?thesis using d(3) w(8,9) by (simp add: t_def)
  qed
  ultimately show ?thesis
    using d(1) bmM fmM am by (intro exI[of _ t]) (auto simp: t_def)
qed


lemma files_of_cong:
  assumes "\<And>l. l < n_lblocks c \<Longrightarrow> bm l = bm' l" "\<And>i. i < max_num_files c \<Longrightarrow> fm i = fm' i"
    and "\<And>i. i < max_num_files c \<Longrightarrow> fid_valid (fid (fm i)) \<Longrightarrow>
      lblock (fm i) < n_lblocks c \<and> data_of content d bm (fm i) = data_of content d' bm (fm i)"
  shows "files_of content c d bm fm = files_of content c d' bm' fm'"
proof (rule ext)
  fix f
  have "file_index c fm' f = file_index c fm f"
    unfolding file_index_def using assms(2) by (intro find_cong) auto
  moreover have "file_view content d bm (fm i) = file_view content d' bm' (fm' i)"
    if "file_index c fm f = Some i" "fid_valid f" for i
  proof -
    have i: "i < max_num_files c" "fid_valid (fid (fm i))" using file_index_Some[OF that(1)] that(2) by auto
    with assms(3)[OF i] assms(1)[of "lblock (fm i)"] assms(2)[of i] show ?thesis
      by (simp add: file_view_def data_of_def)
  qed
  ultimately show "files_of content c d bm fm f = files_of content c d' bm' fm' f"
    by (auto simp: files_of_def intro!: option.map_cong)
qed

text \<open>
  The commit: from a scratch block whose tables are sound, a state that satisfies the layout
  invariant, with these tables and the files they describe.
\<close>

lemma commit_ok:
  assumes "working m s" "layout_ok c (scratch_metablock s) (scratch_dblock (meta_block_header s)) bm fm"
    and "\<forall>l < n_lblocks c. bmeta (scr s) l = bm l" "\<forall>i < max_num_files c. fmeta c (scr s) i = fm i"
    and "fs_version (meta_block_header s) = ITS_SUPPORTED_VERSION"
    and "scratch_dblock (meta_block_header s) < SIZE_MAX_P1"
  shows "\<exists>t. its_flash_fs_mblock_meta_update_finalize c s = (Inr (), t)
    \<and> fs_layout_inv content dev_ok c t
    \<and> (\<forall>l < n_lblocks c. bmeta (active_meta content t) l = bm l)
    \<and> (\<forall>i < max_num_files c. fmeta c (active_meta content t) i = fm i)
    \<and> (\<forall>i < max_num_files c. fid_valid (fid (fm i)) \<longrightarrow>
         data_of content (dev t) bm (fm i) = data_of content (dev s) bm (fm i))
    \<and> fs_files content c t = files_of content c (dev s) bm fm"
proof -
  obtain t where t: "its_flash_fs_mblock_meta_update_finalize c s = (Inr (), t)"
    "fs_layout_inv content dev_ok c t" "\<forall>l < n_lblocks c. bmeta (active_meta content t) l = bm l"
    "\<forall>i < max_num_files c. fmeta c (active_meta content t) i = fm i"
    "\<forall>k < n_lblocks c. \<forall>q j. lb_start c k \<le> q \<longrightarrow> q + j \<le> B \<longrightarrow>
         rd (content (dev t) (phy_id (bm k))) q j = rd (content (dev s) (phy_id (bm k))) q j"
    using commit_layout_inv[OF assms] by blast
  have fd: "lblock (fm i) < n_lblocks c \<and> data_of content (dev t) bm (fm i) = data_of content (dev s) bm (fm i)"
    if "i < max_num_files c" "fid_valid (fid (fm i))" for i
  proof -
    have "file_ok c bm (fm i)" using assms(2) that by (simp add: layout_ok_def)
    then have "lblock (fm i) < n_lblocks c" "lb_start c (lblock (fm i)) \<le> data_idx (fm i)"
      "data_idx (fm i) + cur_size (fm i) \<le> B"
      using that(2) by (auto simp: file_ok_def file_end_def lb_end_def)
    then show ?thesis using t(5) by (simp add: data_of_def)
  qed
  then have "fs_files content c t = files_of content c (dev s) bm fm"
    using t(3,4) unfolding fs_files_def Let_def
    by (intro files_of_cong[where bm = bm and fm = fm, symmetric] trans[OF files_of_cong]) (auto simp: data_of_def)
  with t fd show ?thesis by blast
qed

end

end
