(* ===== verification/ITS_FS_Ops.thy ===== *)
theory ITS_FS_Ops
  imports ITS_FS_Commit
begin

text \<open>
  The phases of a file operation on a lawful device: the data written to the scratch data block,
  the tables written to the scratch metadata block, the data of logical block 0 carried along.
\<close>

section \<open>The data of one block\<close>

text \<open>
  The content of the scratch data block after \<open>its_flash_fs_dblock_write_file\<close>: the old block \<open>P\<close>
  up to \<open>pos\<close>, the new data, and the old block from the end \<open>fe\<close> of the file on. The bytes between the
  new data and \<open>fe\<close> are left as the scratch block \<open>Y\<close> had them.
\<close>

definition rewrite_block :: "byte list \<Rightarrow> byte list \<Rightarrow> nat \<Rightarrow> nat \<Rightarrow> byte list \<Rightarrow> nat \<Rightarrow> nat \<Rightarrow> byte list" where
  "rewrite_block P Y ds pos d fe le =
     wr (wr (wr Y ds (rd P ds (pos - ds))) pos d) fe (rd P fe (le - fe))"

lemma rewrite_block:
  assumes "length P = n" "length Y = n" "ds \<le> pos" "pos + length d \<le> fe" "fe \<le> le" "le \<le> n"
  shows "length (rewrite_block P Y ds pos d fe le) = n"
    and "ds \<le> q \<Longrightarrow> q + k \<le> pos \<Longrightarrow> rd (rewrite_block P Y ds pos d fe le) q k = rd P q k"
    and "fe \<le> q \<Longrightarrow> q + k \<le> le \<Longrightarrow> rd (rewrite_block P Y ds pos d fe le) q k = rd P q k"
    and "rd (rewrite_block P Y ds pos d fe le) pos (length d) = d"
    and "q + k \<le> ds \<Longrightarrow> rd (rewrite_block P Y ds pos d fe le) q k = rd Y q k"
    and "pos + length d \<le> q \<Longrightarrow> q + k \<le> fe \<Longrightarrow> rd (rewrite_block P Y ds pos d fe le) q k = rd Y q k"
  using assms by (simp_all add: rewrite_block_def rd_wr_disj rd_copy_inside rd_wr_same)

text \<open>
  The content after \<open>its_flash_fs_dblock_compact_block\<close>: the \<open>n\<close> bytes from \<open>src\<close> on move to \<open>dst\<close>,
  the bytes before \<open>dst\<close> are copied.
\<close>

definition compact_data :: "byte list \<Rightarrow> byte list \<Rightarrow> nat \<Rightarrow> nat \<Rightarrow> nat \<Rightarrow> nat \<Rightarrow> byte list" where
  "compact_data P Y ds src dst n = wr (wr Y dst (rd P src n)) ds (rd P ds (dst - ds))"

lemma compact_data:
  assumes "length P = b" "length Y = b" "ds \<le> dst" "dst \<le> src" "src + n \<le> b"
  shows "length (compact_data P Y ds src dst n) = b"
    and "ds \<le> q \<Longrightarrow> q + k \<le> dst \<Longrightarrow> rd (compact_data P Y ds src dst n) q k = rd P q k"
    and "src \<le> q \<Longrightarrow> q + k \<le> src + n \<Longrightarrow> rd (compact_data P Y ds src dst n) (q - (src - dst)) k = rd P q k"
    and "q + k \<le> ds \<Longrightarrow> rd (compact_data P Y ds src dst n) q k = rd Y q k"
proof -
  show "length (compact_data P Y ds src dst n) = b"
    "ds \<le> q \<Longrightarrow> q + k \<le> dst \<Longrightarrow> rd (compact_data P Y ds src dst n) q k = rd P q k"
    "q + k \<le> ds \<Longrightarrow> rd (compact_data P Y ds src dst n) q k = rd Y q k"
    using assms by (simp_all add: compact_data_def rd_wr_disj rd_copy_inside)
  assume q: "src \<le> q" "q + k \<le> src + n"
  then have "rd (compact_data P Y ds src dst n) (q - (src - dst)) k
      = rd (wr Y dst (rd P src n)) (q - (src - dst)) k"
    unfolding compact_data_def using assms q by (intro rd_wr_disj) auto
  also have "\<dots> = rd P (src + (q - (src - dst) - dst)) k"
    using assms q by (intro rd_copy_inside) auto
  also have "src + (q - (src - dst) - dst) = q" using assms q by simp
  finally show "rd (compact_data P Y ds src dst n) (q - (src - dst)) k = rd P q k" .
qed

context flash_fs
begin

text \<open>The scratch block for a logical block: \<open>its_flash_fs_mblock_cur_data_scratch_id\<close>.\<close>

definition target :: "nat \<Rightarrow> 'd its_flash_fs_ctx_t \<Rightarrow> nat" where
  "target l s = (if l = 0 then scratch_metablock s else scratch_dblock (meta_block_header s))"

definition put_target :: "nat \<Rightarrow> 'd its_flash_fs_ctx_t \<Rightarrow> byte list \<Rightarrow> 'd its_flash_fs_ctx_t" where
  "put_target l s Y = s\<lparr>dev := upd (dev s) (target l s) Y\<rparr>"

lemma cur_data_scratch_id [io_simps]:
  "its_flash_fs_mblock_cur_data_scratch_id l s = (Inr (target l s), s)"
  by (simp add: its_flash_fs_mblock_cur_data_scratch_id_def io_simps target_def its_consts(4))

text \<open>\<open>staged m s\<close>: as \<open>working\<close>, and the scratch data block of the header is the free one.\<close>

definition staged :: "byte list \<Rightarrow> 'd its_flash_fs_ctx_t \<Rightarrow> bool" where
  "staged m s \<longleftrightarrow> working m s
     \<and> layout_ok c (active_metablock s) (scratch_dblock (meta_block_header s)) (bmeta m) (fmeta c m)
     \<and> fs_version (meta_block_header s) = ITS_SUPPORTED_VERSION
     \<and> scratch_dblock (meta_block_header s) < SIZE_MAX_P1"

lemma staged_inv:
  assumes "fs_layout_inv content dev_ok c s"
  shows "staged (active_meta content s) s"
proof -
  have "scratch_dblock (mhdr (active_meta content s)) < SIZE_MAX_P1"
    by (simp add: mhdr_def header_of_bytes_def)
  then show ?thesis
    using assms
    by (auto simp: staged_def working_def fs_layout_inv_def Let_def active_meta_def header_ok_def
        layout_ok_def blocks_ok_def)
qed

lemma staged_layout:
  "staged m s \<Longrightarrow> layout_ok c (active_metablock s) (scratch_dblock (meta_block_header s)) (bmeta m) (fmeta c m)"
  by (simp add: staged_def)

lemma staged_target:
  assumes "staged m s" "l < n_lblocks c"
  shows "target l s < NB" "target l s \<noteq> active_metablock s" "target l s \<noteq> phy_id (bmeta m l)"
    "phy_id (bmeta m l) < NB" "\<And>k. k < n_lblocks c \<Longrightarrow> phy_id (bmeta m k) = target l s \<Longrightarrow> k = l"
proof -
  have w: "working m s" using assms(1) by (simp add: staged_def)
  note wd = workingD[OF w]
  let ?sd = "scratch_dblock (meta_block_header s)"
  have bo: "blocks_ok c (active_metablock s) ?sd (bmeta m)"
    using assms(1) by (simp add: staged_def layout_ok_def)
  have p0: "phy_id (bmeta m 0) = active_metablock s" using bo by (simp add: blocks_ok_def)
  have pk: "2 \<le> phy_id (bmeta m k) \<and> phy_id (bmeta m k) < NB \<and> phy_id (bmeta m k) \<noteq> ?sd"
    if "0 < k" "k < n_lblocks c" for k
    using bo that by (auto simp: blocks_ok_def)
  have sd: "2 \<le> ?sd" "?sd < NB" if "0 < l"
    using bo n_lblocks_gt1[OF wd(1) that assms(2)] by (auto simp: blocks_ok_def)
  show "target l s < NB" "target l s \<noteq> active_metablock s" "target l s \<noteq> phy_id (bmeta m l)"
    "phy_id (bmeta m l) < NB"
    using wd sd p0 pk[OF _ assms(2)] assms(2) by (cases "l = 0"; force simp: target_def)+
  show "k = l" if "k < n_lblocks c" "phy_id (bmeta m k) = target l s" for k
    using that wd(5,8,9) sd p0 pk[of k] by (cases "k = 0"; cases "l = 0") (auto simp: target_def)
qed

lemma put_target_props:
  assumes "staged m s" "l < n_lblocks c" "length Y = B"
  shows "working m (put_target l s Y)" "content (dev (put_target l s Y)) (target l s) = Y"
    "\<And>b. b < NB \<Longrightarrow> b \<noteq> target l s \<Longrightarrow> content (dev (put_target l s Y)) b = content (dev s) b"
    "meta_block_header (put_target l s Y) = meta_block_header s"
    "active_metablock (put_target l s Y) = active_metablock s"
    "scratch_metablock (put_target l s Y) = scratch_metablock s"
  using staged_target[OF assms(1,2)] assms workingD[of m s]
  by (simp_all add: put_target_def working_upd content_upd staged_def)

lemma dblock_write_file_ok:
  assumes "staged m s" "lblock f < n_lblocks c"
    and "phy_id b = phy_id (bmeta m (lblock f))" "data_start b \<le> data_idx f" "free_size b \<le> B"
    and "off + sz \<le> max_size f" "0 < sz" "sz \<le> length data" "file_end f \<le> B - free_size b"
  defines "l \<equiv> lblock f"
  shows "its_flash_fs_dblock_write_file c b f off sz data s
    = (Inr (), put_target l s (rewrite_block (content (dev s) (phy_id b)) (content (dev s) (target l s))
         (data_start b) (data_idx f + off) (take sz data) (file_end f) (B - free_size b)))"
proof -
  have w: "working m s" using assms(1) by (simp add: staged_def)
  note wd = workingD[OF w] and bd = cfg_ok_bounds[OF workingD(1)[OF w]]
  note t = staged_target[OF assms(1,2)]
  let ?T = "target l s" and ?P = "content (dev s) (phy_id b)" and ?Y = "content (dev s) (target l s)"
  let ?pos = "data_idx f + off"
  have a: "?pos + sz \<le> file_end f" "file_end f \<le> B" "data_start b \<le> ?pos"
    using assms by (auto simp: file_end_def)
  have s32: "add32 (data_idx f) off = ?pos" "add32 (data_idx f) (max_size f) = file_end f"
    "sub32 ?pos (data_start b) = ?pos - data_start b"
    "sub32 (sub32 B (free_size b)) (file_end f) = B - free_size b - file_end f"
    using a bd assms by (simp_all add: wrap_simps file_end_def)
  have len: "length ?P = B" "length ?Y = B"
    using t wd assms(3) by (simp_all add: content_length l_def)
  define Y1 where "Y1 = wr ?Y (data_start b) (rd ?P (data_start b) (?pos - data_start b))"
  define Y2 where "Y2 = wr Y1 ?pos (take sz data)"
  define Y3 where "Y3 = wr Y2 (file_end f) (rd ?P (file_end f) (B - free_size b - file_end f))"
  have lY: "length Y1 = B" "length Y2 = B" "length Y3 = B"
    using len a assms(8,9) by (simp_all add: Y1_def Y2_def Y3_def)
  define u where "u = (\<lambda>Y. s\<lparr>dev := upd (dev s) ?T Y\<rparr>)"
  have Tn: "?T < NB" "?T \<noteq> phy_id b" "phy_id b < NB" using t assms(3) by (simp_all add: l_def)
  have u: "dev_ok (dev (u Y))" "content (dev (u Y)) ?T = Y" "content (dev (u Y)) (phy_id b) = ?P"
    "u Y\<lparr>dev := upd (dev (u Y)) ?T Z\<rparr> = u Z" if "length Y = B" "length Z = B" for Y Z
    using that Tn wd by (simp_all add: u_def dev_ok_upd content_upd upd_upd)
  have 1: "its_flash_fs_block_to_block_move c ?T (data_start b) (phy_id b) (data_start b) (?pos - data_start b) s
      = (Inr (), u Y1)"
    using Tn wd bd a by (subst block_to_block_move_ok) (simp_all add: u_def Y1_def)
  have 2: "dev_write c ?T data ?pos sz (u Y1) = (Inr (), u Y2)"
    using Tn a assms(7,8) u[OF lY(1) lY(2)] lY
    by (subst dev_write_ok) (simp_all add: Y2_def[symmetric])
  have 3: "its_flash_fs_block_to_block_move c ?T (file_end f) (phy_id b) (file_end f)
      (B - free_size b - file_end f) (u Y2) = (Inr (), u Y3)"
    using Tn bd a u[OF lY(2) lY(3)] assms(9)
    by (subst block_to_block_move_ok) (simp_all add: Y3_def)
  have 4: "dev_flush c ?T (u Y3) = (Inr (), u Y3)" using Tn u[OF lY(3) lY(3)] by (intro dev_flush_ok) auto
  have "its_flash_fs_dblock_write_file c b f off sz data s = (Inr (), u Y3)"
    unfolding its_flash_fs_dblock_write_file_def
    using 1 2 3 4 by (simp add: io_simps s32 Let_def l_def[symmetric])
  then show ?thesis by (simp add: u_def put_target_def rewrite_block_def Y1_def Y2_def Y3_def)
qed


definition new_scratch :: "nat \<Rightarrow> nat \<Rightarrow> 'd its_flash_fs_ctx_t \<Rightarrow> 'd its_flash_fs_ctx_t" where
  "new_scratch l p s = (if l \<noteq> 0 then s\<lparr>meta_block_header := (meta_block_header s)\<lparr>scratch_dblock := p\<rparr>\<rparr> else s)"

lemma new_scratch_fields [simp]:
  "dev (new_scratch l p s) = dev s" "active_metablock (new_scratch l p s) = active_metablock s"
  "scratch_metablock (new_scratch l p s) = scratch_metablock s"
  "fs_version (meta_block_header (new_scratch l p s)) = fs_version (meta_block_header s)"
  "scratch_dblock (meta_block_header (new_scratch l p s)) = (if l \<noteq> 0 then p else scratch_dblock (meta_block_header s))"
  "working m (new_scratch l p s) = working m s" "scr (new_scratch l p s) = scr s"
  by (simp_all add: new_scratch_def scr_def)

lemma set_data_scratch [io_simps]:
  "its_flash_fs_mblock_set_data_scratch p l s = (Inr (), new_scratch l p s)"
  by (simp add: its_flash_fs_mblock_set_data_scratch_def io_simps new_scratch_def its_consts(4))

lemma file_write_data_ok:
  assumes "staged m s" "lblock f < n_lblocks c" "max_alignment c = 1" "max_size f < SIZE_MAX_P1"
    and "phy_id b = phy_id (bmeta m (lblock f))" "data_start b \<le> data_idx f" "free_size b \<le> B"
    and "off \<le> cur_size f" "off + sz \<le> max_size f" "0 < sz" "sz \<le> length data"
    and "file_end f \<le> B - free_size b"
  defines "l \<equiv> lblock f"
  shows "file_write_data c f b sz off data s
    = (Inr (f\<lparr>cur_size := max (cur_size f) (off + sz)\<rparr>, b\<lparr>phy_id := target l s\<rparr>),
       new_scratch l (phy_id b) (put_target l s
        (rewrite_block (content (dev s) (phy_id b)) (content (dev s) (target l s))
         (data_start b) (data_idx f + off) (take sz data) (file_end f) (B - free_size b))))"
proof -
  have c: "its_utils_check_contained_in (max_size f) off sz = Inr ()"
    using assms(4,9) by (simp add: check_contained_in_iff)
  let ?s = "put_target l s (rewrite_block (content (dev s) (phy_id b)) (content (dev s) (target l s))
         (data_start b) (data_idx f + off) (take sz data) (file_end f) (B - free_size b))"
  have w: "its_flash_fs_file_write_aligned_data c b f off sz data s = (Inr (), ?s)"
    using dblock_write_file_ok[OF assms(1,2,5,6,7,9,10,11,12)] c assms(3,8)
    by (simp add: its_flash_fs_file_write_aligned_data_def l_def)
  have "target l ?s = target l s" by (simp add: target_def put_target_def)
  moreover have "add32 off sz = off + sz" using assms(4,9) by (simp add: wrap_simps)
  moreover have "f\<lparr>cur_size := cur_size f\<rparr> = f" by simp
  ultimately show ?thesis
    using w assms(10)
    by (simp add: file_write_data_def io_simps l_def[symmetric] max_def Let_def)
qed

lemma file_write_data_bad:
  assumes "max_alignment c = 1" "0 < sz" "max_size f < SIZE_MAX_P1" "\<not> (off \<le> cur_size f \<and> off + sz \<le> max_size f)"
  shows "file_write_data c f b sz off data s = (Inl PSA_ERROR_GENERIC_ERROR, s)"
proof -
  have "its_flash_fs_file_write_aligned_data c b f off sz data s = (Inl PSA_ERROR_INVALID_ARGUMENT, s)"
    using assms by (auto simp: its_flash_fs_file_write_aligned_data_def check_contained_in_iff io_simps)
  then show ?thesis using assms(2) by (simp add: file_write_data_def io_simps)
qed

lemma file_write_metadata_ok:
  assumes "working m s" "new < max_num_files c" "old = ITS_METADATA_INVALID_INDEX \<or> old < max_num_files c"
    and "file_meta_typed f" "block_meta_typed b" "lblock f < n_lblocks c"
  shows "\<exists>X. file_write_metadata c old new f b s = (Inr (), put_scr s X) \<and> length X = B
    \<and> (\<forall>k < n_lblocks c. bmeta X k = new_bmeta (scratch_metablock s) (bmeta m) (lblock f) b k)
    \<and> (\<forall>i < max_num_files c. fmeta c X i =
         (if i = new then f else if i = old then fmeta c (scr s) i else fmeta c m i))
    \<and> (\<forall>q k. meta_end c \<le> q \<longrightarrow> q + k \<le> B \<longrightarrow> rd X q k = rd (scr s) q k)"
proof -
  note w = workingD[OF assms(1)] and bd = cfg_ok_bounds[OF workingD(1)[OF assms(1)]]
  let ?N = "max_num_files c"
  have N: "?N \<le> 65535" "new < 65535" using bd assms(2) by simp_all
  obtain X1 where X1: "its_flash_fs_mblock_update_scratch_block_meta c (lblock f) b s = (Inr (), put_scr s X1)"
    "behind X1 (scr s)" "\<forall>k < n_lblocks c. bmeta X1 k = new_bmeta (scratch_metablock s) (bmeta m) (lblock f) b k"
    using block_table_ok[OF assms(1,6,5)] by blast
  have len1: "length X1 = B" using X1(2) by (simp add: behind_def)
  define X2 where "X2 = wr X1 (fm_pos c new) (file_meta_bytes f)"
  have fl: "length (file_meta_bytes f) = 32" using assms(4) by (simp add: file_meta_typed_def its_consts)
  have pos: "fm_pos c a \<le> meta_end c" if "a \<le> ?N" for a using that by (simp add: fm_pos_def meta_end_def)
  have pnew: "fm_pos c new + 32 \<le> meta_end c" by (rule fm_pos_le[OF assms(2)])
  have len2: "length X2 = B" using len1 fl pnew bd by (simp add: X2_def)
  define cp where "cp = (\<lambda>X a b'. wr X (fm_pos c a) (rd m (fm_pos c a) (fm_pos c b' - fm_pos c a)))"
  have cpl: "length (cp X a b') = B" if "length X = B" "a \<le> b'" "b' \<le> ?N" for X a b'
    using that pos[of a] pos[of b'] bd w(7) by (simp add: cp_def fm_pos_def)
  have cpf: "fmeta c (cp X a b') j = (if a \<le> j \<and> j < b' then fmeta c m j else fmeta c X j)"
    if "length X = B" "a \<le> b'" "b' \<le> ?N" "j < ?N" for X a b' j
    unfolding cp_def by (rule fmeta_wr_copy[OF w(1) that(1) w(7) that(2,3,4)])
  have cpb: "bmeta (cp X a b') j = bmeta X j"
    if "length X = B" "a \<le> b'" "b' \<le> ?N" "j < n_lblocks c" for X a b' j
    using that w(1,7) pos[of b'] bd unfolding cp_def
    by (intro bmeta_wr_behind) (auto simp: fm_pos_def)
  have cpd: "rd (cp X a b') q k = rd X q k"
    if "length X = B" "a \<le> b'" "b' \<le> ?N" "meta_end c \<le> q" "q + k \<le> B" for X a b' q k
    using that w(7) pos[of b'] bd unfolding cp_def by (intro rd_wr_disj) (auto simp: fm_pos_def)
  have cpr: "its_flash_fs_mblock_cp_file_meta c a b' (put_scr s X) = (Inr (), put_scr s (cp X a b'))"
    if "length X = B" "a \<le> b'" "b' \<le> ?N" for X a b'
    using cp_file_meta_ok[OF working_put_scr[OF assms(1) that(1)] that(2,3)] assms(1) that cpl[OF that]
    by (simp add: cp_def)
  have run2: "its_flash_fs_mblock_update_scratch_file_meta c new f (put_scr s X1) = (Inr (), put_scr s X2)"
    using update_scratch_file_meta_ok[OF working_put_scr[OF assms(1) len1] assms(2,4)] assms(1) len1 len2
    by (simp add: X2_def)
  have f2: "fmeta c X2 j = (if j = new then f else fmeta c (scr s) j)" if "j < ?N" for j
    using fmeta_wr_fm[OF w(1) len1 assms(2) that assms(4)] behind_fmeta[OF X1(2) w(1) that]
    by (simp add: X2_def)
  have b2: "bmeta X2 k = bmeta X1 k" if "k < n_lblocks c" for k
    using bmeta_wr_behind[OF w(1), of "fm_pos c new" "file_meta_bytes f" X1 k] that len1 fl pnew bd
    by (simp add: X2_def fm_pos_def)
  have d2: "rd X2 q k = rd (scr s) q k" if "meta_end c \<le> q" "q + k \<le> B" for q k
    using that X1(2) pnew fl len1 fm_pos_0_le[of c] by (simp add: X2_def rd_wr_disj behind_def)
  show ?thesis
  proof (cases "old \<noteq> ITS_METADATA_INVALID_INDEX \<and> old \<noteq> new")
    case True
    define i where "i = min new old"
    define j where "j = max new old"
    from True assms(3) have o: "old < ?N" by simp
    have r: "i < ?N" "j < ?N" "i < j" "(new = i \<and> old = j) \<or> (new = j \<and> old = i)"
      using o assms(2) True by (auto simp: i_def j_def)
    have a32: "add32 i 1 = i + 1" "add32 j 1 = j + 1" using r(1,2) N by (intro add32_id; linarith)+
    let ?X = "cp (cp (cp X2 0 i) (i + 1) j) (j + 1) ?N"
    have l3: "length (cp X2 0 i) = B" "length (cp (cp X2 0 i) (i + 1) j) = B" "length ?X = B"
      using len2 r(1-3) by (simp_all add: cpl)
    have "file_write_metadata c old new f b s = (Inr (), put_scr s ?X)"
      unfolding file_write_metadata_def Let_def i_def[symmetric] j_def[symmetric] a32
      using True X1(1) run2 cpr[OF len2, of 0 i] cpr[OF l3(1), of "i + 1" j] cpr[OF l3(2), of "j + 1" ?N] r(1-3)
      by (simp add: io_simps)
    moreover have "fmeta c ?X k = (if k = new then f else if k = old then fmeta c (scr s) k else fmeta c m k)"
      if "k < ?N" for k
      using that r l3 len2 by (auto simp: cpf f2)
    ultimately show ?thesis using r(1-3) l3 len2 X1(3) b2 d2 cpb cpd by (intro exI[of _ ?X]) simp
  next
    case False
    have i: "min new old = new" using False assms(2,3) N by (auto simp: its_consts(3))
    have a32: "add32 new 1 = new + 1" using N by (simp add: wrap_simps)
    let ?X = "cp (cp X2 0 new) (new + 1) ?N"
    have l3: "length (cp X2 0 new) = B" "length ?X = B" using len2 assms(2) by (simp_all add: cpl)
    have "file_write_metadata c old new f b s = (Inr (), put_scr s ?X)"
      unfolding file_write_metadata_def Let_def i a32
      using False X1(1) run2 cpr[OF len2, of 0 new] cpr[OF l3(1), of "new + 1" ?N] assms(2)
      by (auto simp: io_simps)
    moreover have "fmeta c ?X j = (if j = new then f else if j = old then fmeta c (scr s) j else fmeta c m j)"
      if "j < ?N" for j
      using that assms(2) l3 len2 False N by (auto simp: cpf f2 its_consts(3))
    ultimately show ?thesis using assms(2) l3 len2 X1(3) b2 d2 cpb cpd by (intro exI[of _ ?X]) simp
  qed
qed


text \<open>
  The last steps of every operation: carry the data of logical block 0 over unless it was already
  written, and commit.
\<close>

lemma mig_commit_ok:
  assumes w: "working m s" and tab: "\<forall>k < n_lblocks c. bmeta (scr s) k = bm k" "\<forall>i < max_num_files c. fmeta c (scr s) i = fm i"
    and lay: "layout_ok c (scratch_metablock s) (scratch_dblock (meta_block_header s)) bm fm"
    and hd: "fs_version (meta_block_header s) = ITS_SUPPORTED_VERSION"
      "scratch_dblock (meta_block_header s) < SIZE_MAX_P1"
  shows "\<exists>t. bind_io (if mig then on_error PSA_ERROR_GENERIC_ERROR (its_flash_fs_mblock_migrate_lb0_data_to_scratch c)
                else return_io ()) (\<lambda>_. its_flash_fs_mblock_meta_update_finalize c) s = (Inr (), t)
    \<and> fs_layout_inv content dev_ok c t
    \<and> (\<forall>k < n_lblocks c. bmeta (active_meta content t) k = bm k)
    \<and> (\<forall>i < max_num_files c. fmeta c (active_meta content t) i = fm i)
    \<and> (\<forall>i < max_num_files c. fid_valid (fid (fm i)) \<longrightarrow>
         (lblock (fm i) = 0 \<longrightarrow> mig \<longrightarrow> data_idx (fm i) + cur_size (fm i) \<le> lb_end c (bmeta m) 0) \<longrightarrow>
         data_of content (dev t) bm (fm i) =
           rd (if lblock (fm i) = 0 then if mig then m else scr s
               else content (dev s) (phy_id (bm (lblock (fm i))))) (data_idx (fm i)) (cur_size (fm i)))"
proof -
  note wd = workingD[OF w] and bd = cfg_ok_bounds[OF workingD(1)[OF w]]
  let ?X = "scr s" and ?le = "lb_end c (bmeta m) 0"
  have lenX: "length ?X = B" using w by simp
  define X' where "X' = (if mig then wr ?X (meta_end c) (rd m (meta_end c) (?le - meta_end c)) else ?X)"
  have le: "?le \<le> B" by (simp add: lb_end_def)
  have len': "length X' = B" using lenX le bd wd(7) by (simp add: X'_def)
  have tab': "\<forall>k < n_lblocks c. bmeta X' k = bm k" "\<forall>i < max_num_files c. fmeta c X' i = fm i"
    using lenX tab le bd wd(1,7) by (auto simp: X'_def bmeta_wr_behind' fmeta_wr_behind)
  define s2 where "s2 = put_scr s X'"
  have s2: "working m s2" "scr s2 = X'" using w len' by (simp_all add: s2_def)
  have mig: "(if mig then on_error PSA_ERROR_GENERIC_ERROR (its_flash_fs_mblock_migrate_lb0_data_to_scratch c)
                else return_io ()) s = (Inr (), s2)"
    using migrate_lb0_ok[OF w] w by (cases mig) (simp_all add: io_simps s2_def X'_def)
  obtain t where t: "its_flash_fs_mblock_meta_update_finalize c s2 = (Inr (), t)"
    "fs_layout_inv content dev_ok c t" "\<forall>k < n_lblocks c. bmeta (active_meta content t) k = bm k"
    "\<forall>i < max_num_files c. fmeta c (active_meta content t) i = fm i"
    "\<forall>i < max_num_files c. fid_valid (fid (fm i)) \<longrightarrow>
       data_of content (dev t) bm (fm i) = data_of content (dev s2) bm (fm i)"
    using commit_ok[OF s2(1), of bm fm] lay tab' hd s2(2) by (auto simp: s2_def)
  have "data_of content (dev s2) bm (fm i) =
           rd (if lblock (fm i) = 0 then if mig then m else scr s
               else content (dev s) (phy_id (bm (lblock (fm i))))) (data_idx (fm i)) (cur_size (fm i))"
    if i: "i < max_num_files c" "fid_valid (fid (fm i))"
      and r: "lblock (fm i) = 0 \<longrightarrow> mig \<longrightarrow> data_idx (fm i) + cur_size (fm i) \<le> ?le" for i
  proof -
    have fo: "file_ok c bm (fm i)" using lay i(1) by (simp add: layout_ok_def)
    then have fr: "lblock (fm i) < n_lblocks c" "lb_start c (lblock (fm i)) \<le> data_idx (fm i)"
      "data_idx (fm i) + cur_size (fm i) \<le> B"
      using i(2) by (auto simp: file_ok_def file_end_def lb_end_def)
    show ?thesis
    proof (cases "lblock (fm i) = 0")
      case True
      have "phy_id (bm 0) = scratch_metablock s" using lay by (simp add: layout_ok_def blocks_ok_def)
      then have "data_of content (dev s2) bm (fm i) = rd X' (data_idx (fm i)) (cur_size (fm i))"
        using True wd(4) w len' by (simp add: data_of_def s2_def content_put_scr)
      moreover have "rd X' (data_idx (fm i)) (cur_size (fm i))
          = rd (if mig then m else scr s) (data_idx (fm i)) (cur_size (fm i))"
        using True fr r lenX le wd(7) bd by (auto simp: X'_def lb_start_def rd_copy_inside)
      ultimately show ?thesis using True by simp
    next
      case False
      then have "2 \<le> phy_id (bm (lblock (fm i)))" "phy_id (bm (lblock (fm i))) < NB"
        using lay fr(1) by (auto simp: layout_ok_def blocks_ok_def)
      then show ?thesis using False wd(9) w len' by (simp add: data_of_def s2_def content_put_scr)
    qed
  qed
  then show ?thesis using t mig by (intro exI[of _ t]) (simp add: bind_io_Inr)
qed

end

end
