(* ===== verification/ITS_FS_Write.thy ===== *)
theory ITS_FS_Write
  imports ITS_FS_Ops
begin

text \<open>
  \<open>its_flash_fs_file_write\<close> on a lawful device: the body shared by its three cases (rewrite a file,
  create one, replace one by a file of another size), from the data to the commit.
\<close>

context flash_fs
begin

definition write_body :: "nat \<Rightarrow> nat \<Rightarrow> nat \<Rightarrow> nat \<Rightarrow> byte list \<Rightarrow> its_file_meta_t \<Rightarrow> its_block_meta_t
    \<Rightarrow> ('d its_flash_fs_ctx_t, unit) io" where
  "write_body old new sz off data f b =
     bind_io (file_write_data c f b sz off data) (\<lambda>(f', b').
     bind_io (file_write_metadata c old new f' b') (\<lambda>_.
     bind_io (if lblock f' \<noteq> ITS_LOGICAL_DBLOCK0 \<or> sz = 0
              then on_error PSA_ERROR_GENERIC_ERROR (its_flash_fs_mblock_migrate_lb0_data_to_scratch c)
              else return_io ()) (\<lambda>_.
     its_flash_fs_mblock_meta_update_finalize c)))"

text \<open>From the metadata to the commit.\<close>

lemma write_tail_ok:
  assumes w: "working m s" and new: "new < max_num_files c"
    and old: "old = ITS_METADATA_INVALID_INDEX \<or> old < max_num_files c"
    and ty: "file_meta_typed f" "block_meta_typed b" and l: "lblock f < n_lblocks c"
    and bm: "bm = new_bmeta (scratch_metablock s) (bmeta m) (lblock f) b"
    and fm: "\<And>i. fm i = (if i = new then f else if i = old then fmeta c (scr s) i else fmeta c m i)"
    and lay: "layout_ok c (scratch_metablock s) (scratch_dblock (meta_block_header s)) bm fm"
    and hd: "fs_version (meta_block_header s) = ITS_SUPPORTED_VERSION"
      "scratch_dblock (meta_block_header s) < SIZE_MAX_P1"
  shows "\<exists>t. bind_io (file_write_metadata c old new f b) (\<lambda>_.
       bind_io (if mig then on_error PSA_ERROR_GENERIC_ERROR (its_flash_fs_mblock_migrate_lb0_data_to_scratch c)
                else return_io ()) (\<lambda>_. its_flash_fs_mblock_meta_update_finalize c)) s = (Inr (), t)
    \<and> fs_layout_inv content dev_ok c t
    \<and> (\<forall>k < n_lblocks c. bmeta (active_meta content t) k = bm k)
    \<and> (\<forall>i < max_num_files c. fmeta c (active_meta content t) i = fm i)
    \<and> (\<forall>i < max_num_files c. fid_valid (fid (fm i)) \<longrightarrow>
         (lblock (fm i) = 0 \<longrightarrow> mig \<longrightarrow> data_idx (fm i) + cur_size (fm i) \<le> lb_end c (bmeta m) 0) \<longrightarrow>
         data_of content (dev t) bm (fm i) =
           rd (if lblock (fm i) = 0 then if mig then m else scr s
               else content (dev s) (phy_id (bm (lblock (fm i))))) (data_idx (fm i)) (cur_size (fm i)))"
proof -
  obtain X where X: "file_write_metadata c old new f b s = (Inr (), put_scr s X)" "length X = B"
    "\<forall>k < n_lblocks c. bmeta X k = bm k" "\<forall>i < max_num_files c. fmeta c X i = fm i"
    "\<forall>q k. meta_end c \<le> q \<longrightarrow> q + k \<le> B \<longrightarrow> rd X q k = rd (scr s) q k"
    using file_write_metadata_ok[OF w new old ty l] unfolding bm fm by blast
  have u: "working m (put_scr s X)" "scr (put_scr s X) = X" using w X(2) by simp_all
  obtain t where t: "bind_io (if mig then on_error PSA_ERROR_GENERIC_ERROR
        (its_flash_fs_mblock_migrate_lb0_data_to_scratch c) else return_io ())
       (\<lambda>_. its_flash_fs_mblock_meta_update_finalize c) (put_scr s X) = (Inr (), t)"
    "fs_layout_inv content dev_ok c t" "\<forall>k < n_lblocks c. bmeta (active_meta content t) k = bm k"
    "\<forall>i < max_num_files c. fmeta c (active_meta content t) i = fm i"
    "\<forall>i < max_num_files c. fid_valid (fid (fm i)) \<longrightarrow>
         (lblock (fm i) = 0 \<longrightarrow> mig \<longrightarrow> data_idx (fm i) + cur_size (fm i) \<le> lb_end c (bmeta m) 0) \<longrightarrow>
         data_of content (dev t) bm (fm i) =
           rd (if lblock (fm i) = 0 then if mig then m else X
               else content (dev (put_scr s X)) (phy_id (bm (lblock (fm i))))) (data_idx (fm i)) (cur_size (fm i))"
    using mig_commit_ok[OF u(1), of bm fm mig] X(3,4) lay hd u(2) by auto
  have same: "rd (if lblock (fm i) = 0 then if mig then m else X
               else content (dev (put_scr s X)) (phy_id (bm (lblock (fm i))))) (data_idx (fm i)) (cur_size (fm i))
      = rd (if lblock (fm i) = 0 then if mig then m else scr s
               else content (dev s) (phy_id (bm (lblock (fm i))))) (data_idx (fm i)) (cur_size (fm i))"
    if i: "i < max_num_files c" "fid_valid (fid (fm i))" for i
  proof -
    have "file_ok c bm (fm i)" using lay i(1) by (simp add: layout_ok_def)
    then have fr: "lblock (fm i) < n_lblocks c" "lb_start c (lblock (fm i)) \<le> data_idx (fm i)"
      "data_idx (fm i) + cur_size (fm i) \<le> B"
      using i(2) by (auto simp: file_ok_def file_end_def lb_end_def)
    moreover have "2 \<le> phy_id (bm (lblock (fm i))) \<and> phy_id (bm (lblock (fm i))) < NB" if "lblock (fm i) \<noteq> 0"
      using lay fr(1) that by (auto simp: layout_ok_def blocks_ok_def)
    ultimately show ?thesis
      using X(2,5) workingD(9)[OF w] w by (auto simp: content_put_scr lb_start_def)
  qed
  show ?thesis using t X(1) same by (intro exI[of _ t]) (auto simp: bind_io_Inr)
qed

text \<open>
  What the body relies on. \<open>fm1\<close> is the file table before the new entry (with the old file marked
  for deletion in case of a replacement); \<open>f\<close> and \<open>b\<close> are the entry and the block metadata the first
  two parts of \<open>its_flash_fs_file_write\<close> hand over; the last clause is the layout lemma of the case.
\<close>

definition write_ready :: "byte list \<Rightarrow> 'd its_flash_fs_ctx_t \<Rightarrow> nat \<Rightarrow> nat \<Rightarrow> its_file_meta_t
    \<Rightarrow> its_block_meta_t \<Rightarrow> (nat \<Rightarrow> its_file_meta_t) \<Rightarrow> bool" where
  "write_ready m s old new f b fm1 \<longleftrightarrow> staged m s \<and> new < max_num_files c
     \<and> (old = ITS_METADATA_INVALID_INDEX \<or> old < max_num_files c)
     \<and> file_meta_typed f \<and> block_meta_typed b \<and> lblock f < n_lblocks c
     \<and> phy_id b = phy_id (bmeta m (lblock f)) \<and> data_start b = lb_start c (lblock f)
     \<and> lb_start c (lblock f) + free_size b \<le> B
     \<and> fid_valid (fid f) \<and> lb_start c (lblock f) \<le> data_idx f \<and> file_end f \<le> B - free_size b
     \<and> cur_size f \<le> max_size f \<and> data_idx f + cur_size f \<le> lb_end c (bmeta m) (lblock f)
     \<and> (\<forall>i < max_num_files c. i \<noteq> new \<longrightarrow>
          fm1 i = (if i = old then fmeta c (scr s) i else fmeta c m i))
     \<and> (\<forall>i < max_num_files c. i \<noteq> new \<longrightarrow> fid_valid (fid (fm1 i)) \<longrightarrow>
          lblock (fm1 i) < n_lblocks c
          \<and> data_idx (fm1 i) + cur_size (fm1 i) \<le> lb_end c (bmeta m) (lblock (fm1 i)))
     \<and> (\<forall>act sd bm cs. blocks_ok c act sd bm \<longrightarrow>
          (\<forall>k < n_lblocks c. free_size (bm k) = free_size (if k = lblock f then b else bmeta m k)) \<longrightarrow>
          cs \<le> max_size f \<longrightarrow> layout_ok c act sd bm (fm1(new := f\<lparr>cur_size := cs\<rparr>)))"

definition written :: "byte list \<Rightarrow> 'd its_flash_fs_ctx_t \<Rightarrow> nat \<Rightarrow> its_file_meta_t
    \<Rightarrow> (nat \<Rightarrow> its_file_meta_t) \<Rightarrow> byte list \<Rightarrow> 'd its_flash_fs_ctx_t \<Rightarrow> bool" where
  "written m s new f' fm1 d t \<longleftrightarrow> fs_layout_inv content dev_ok c t
     \<and> (\<forall>i < max_num_files c. fmeta c (active_meta content t) i = (fm1(new := f')) i)
     \<and> (\<forall>i < max_num_files c. i \<noteq> new \<longrightarrow> fid_valid (fid (fm1 i)) \<longrightarrow>
          data_of content (dev t) (bmeta (active_meta content t)) (fm1 i)
          = data_of content (dev s) (bmeta m) (fm1 i))
     \<and> data_of content (dev t) (bmeta (active_meta content t)) f' = d"

lemma data_of_cong: "bm (lblock f) = bm' (lblock f) \<Longrightarrow> data_of content d bm f = data_of content d bm' f"
  by (simp add: data_of_def)

text \<open>The common end: the tail run from a state \<open>s1\<close> whose blocks hold the staged data.\<close>

lemma written_from_tail:
  assumes rdy: "write_ready m s old new f b fm1" and w: "working m u" and hd: "fs_version (meta_block_header u) = ITS_SUPPORTED_VERSION"
      "scratch_dblock (meta_block_header u) < SIZE_MAX_P1"
    and sm: "scratch_metablock u = scratch_metablock s"
    and scr1: "\<And>i. i < max_num_files c \<Longrightarrow> fmeta c (scr u) i = fmeta c (scr s) i"
    and f': "f' = f\<lparr>cur_size := cs\<rparr>" "cs \<le> max_size f" and b': "block_meta_typed b'" "free_size b' = free_size b"
    and bm: "bm = new_bmeta (scratch_metablock s) (bmeta m) (lblock f) b'"
    and bo: "blocks_ok c (scratch_metablock s) (scratch_dblock (meta_block_header u)) bm"
    and run: "write_body old new sz off data f b s
      = bind_io (file_write_metadata c old new f' b') (\<lambda>_.
       bind_io (if mig then on_error PSA_ERROR_GENERIC_ERROR (its_flash_fs_mblock_migrate_lb0_data_to_scratch c)
                else return_io ()) (\<lambda>_. its_flash_fs_mblock_meta_update_finalize c)) u"
    and rd0: "\<And>i g. i < max_num_files c \<Longrightarrow> i \<noteq> new \<Longrightarrow> g = fm1 i \<Longrightarrow> fid_valid (fid g) \<Longrightarrow>
       (lblock g = lblock f \<Longrightarrow> separated g f) \<Longrightarrow>
       rd (if lblock g = 0 then if mig then m else scr u else content (dev u) (phy_id (bm (lblock g)))) (data_idx g) (cur_size g)
       = data_of content (dev s) (bmeta m) g"
    and rd1: "rd (if lblock f = 0 then if mig then m else scr u else content (dev u) (phy_id (bm (lblock f)))) (data_idx f) cs = d"
    and mig0: "mig \<Longrightarrow> lblock f = 0 \<Longrightarrow> data_idx f + cs \<le> lb_end c (bmeta m) 0"
  shows "\<exists>t. write_body old new sz off data f b s = (Inr (), t) \<and> written m s new f' fm1 d t"
proof -
  note R = rdy[unfolded write_ready_def]
  have cfg: "cfg_ok c" by (rule workingD(1)[OF w])
  have new: "new < max_num_files c" and old: "old = ITS_METADATA_INVALID_INDEX \<or> old < max_num_files c"
    and fty: "file_meta_typed f" and l: "lblock f < n_lblocks c" and vf: "fid_valid (fid f)" using R by blast+
  have fm1: "fm1 i = (if i = old then fmeta c (scr s) i else fmeta c m i)" if "i < max_num_files c" "i \<noteq> new" for i
    using R that by blast
  have oth: "lblock (fm1 i) < n_lblocks c \<and> data_idx (fm1 i) + cur_size (fm1 i) \<le> lb_end c (bmeta m) (lblock (fm1 i))"
    if "i < max_num_files c" "i \<noteq> new" "fid_valid (fid (fm1 i))" for i
    using R that by blast
  have lay: "layout_ok c (scratch_metablock u) (scratch_dblock (meta_block_header u)) bm (fm1(new := f'))"
    using R bo f' b'(2) unfolding sm bm by simp
  define FM where "FM = (\<lambda>i. if i = new then f' else if i = old then fmeta c (scr u) i else fmeta c m i)"
  have FM_eq: "FM i = (if i = new then f' else if i = old then fmeta c (scr u) i else fmeta c m i)" for i
    by (simp add: FM_def)
  have FM: "FM i = (fm1(new := f')) i" if "i < max_num_files c" for i
    using that fm1 scr1 by (simp add: FM_def)
  have lay2: "layout_ok c (scratch_metablock u) (scratch_dblock (meta_block_header u)) bm FM"
    by (rule layout_ok_cong[OF cfg _ _ lay]) (simp_all add: FM)
  have fty': "file_meta_typed f'" "lblock f' < n_lblocks c" "lblock f' = lblock f"
    using fty l f' by (auto simp: file_meta_typed_def)
  have bm1: "bm = new_bmeta (scratch_metablock u) (bmeta m) (lblock f') b'" using bm sm fty' by simp
  obtain t where t: "write_body old new sz off data f b s = (Inr (), t)" "fs_layout_inv content dev_ok c t"
    "\<forall>k < n_lblocks c. bmeta (active_meta content t) k = bm k"
    "\<forall>i < max_num_files c. fmeta c (active_meta content t) i = FM i"
    "\<forall>i < max_num_files c. fid_valid (fid (FM i)) \<longrightarrow>
         (lblock (FM i) = 0 \<longrightarrow> mig \<longrightarrow> data_idx (FM i) + cur_size (FM i) \<le> lb_end c (bmeta m) 0) \<longrightarrow>
         data_of content (dev t) bm (FM i) =
           rd (if lblock (FM i) = 0 then if mig then m else scr u
               else content (dev u) (phy_id (bm (lblock (FM i))))) (data_idx (FM i)) (cur_size (FM i))"
    using write_tail_ok[OF w new old fty'(1) b'(1) fty'(2) bm1 FM_eq lay2 hd, of mig] run by auto
  have tl: "tiled c bm (fm1(new := f')) (lblock f)" using lay l by (simp add: layout_ok_def)
  have sep: "separated (fm1 i) f" if "i < max_num_files c" "i \<noteq> new" "fid_valid (fid (fm1 i))" "lblock (fm1 i) = lblock f" for i
  proof -
    have "separated ((fm1(new := f')) i) ((fm1(new := f')) new)"
      using that new vf f'(1) by (intro tiled_separated[OF tl]) (simp_all add: files_in_def)
    then show ?thesis using that f'(1) by (simp add: separated_def file_end_def)
  qed
  have "data_of content (dev t) (bmeta (active_meta content t)) (fm1 i) = data_of content (dev s) (bmeta m) (fm1 i)"
    if i: "i < max_num_files c" "i \<noteq> new" "fid_valid (fid (fm1 i))" for i
  proof -
    have "FM i = fm1 i" using FM[OF i(1)] i(2) by simp
    then have "data_of content (dev t) bm (fm1 i) = data_of content (dev s) (bmeta m) (fm1 i)"
      using t(5)[rule_format, OF i(1)] i(3) oth[OF i] rd0[OF i(1,2) refl i(3) sep[OF i]]
      by (cases "lblock (fm1 i) = 0") auto
    then show ?thesis using t(3) oth[OF i] data_of_cong by metis
  qed
  moreover have "data_of content (dev t) (bmeta (active_meta content t)) f' = d"
  proof -
    have "FM new = f'" by (simp add: FM_def)
    then have "data_of content (dev t) bm f' = d"
      using t(5) new vf mig0 rd1 f'(1) fty'(3) by auto
    then show ?thesis using t(3) fty'(2) data_of_cong by metis
  qed
  ultimately show ?thesis using t(1,2,4) FM by (auto simp: written_def)
qed


lemma write_body_zero:
  assumes rdy: "write_ready m s old new f b fm1"
  shows "\<exists>t. write_body old new 0 off data f b s = (Inr (), t)
    \<and> written m s new f fm1 (data_of content (dev s) (bmeta m) f) t"
proof -
  note R = rdy[unfolded write_ready_def]
  have st: "staged m s" using R by blast
  have w: "working m s" and hd: "fs_version (meta_block_header s) = ITS_SUPPORTED_VERSION"
    "scratch_dblock (meta_block_header s) < SIZE_MAX_P1"
    and bo: "blocks_ok c (active_metablock s) (scratch_dblock (meta_block_header s)) (bmeta m)"
    using st by (simp_all add: staged_def layout_ok_def)
  note wd = workingD[OF w]
  define bm where "bm = new_bmeta (scratch_metablock s) (bmeta m) (lblock f) b"
  have bo': "blocks_ok c (scratch_metablock s) (scratch_dblock (meta_block_header s)) bm"
    unfolding bm_def using R wd(9) by (intro blocks_ok_same[OF bo]) auto
  have run: "write_body old new 0 off data f b s
      = bind_io (file_write_metadata c old new f b) (\<lambda>_.
       bind_io (if True then on_error PSA_ERROR_GENERIC_ERROR (its_flash_fs_mblock_migrate_lb0_data_to_scratch c)
                else return_io ()) (\<lambda>_. its_flash_fs_mblock_meta_update_finalize c)) s"
    by (simp add: write_body_def file_write_data_def io_simps)
  have pb: "phy_id (bmeta m 0) = active_metablock s" using bo by (simp add: blocks_ok_def)
  have same: "rd (if lblock g = 0 then if True then m else scr s else content (dev s) (phy_id (bm (lblock g)))) (data_idx g) (cur_size g)
      = data_of content (dev s) (bmeta m) g" for g
    using R pb wd(6) by (auto simp: data_of_def bm_def new_bmeta_def Let_def)
  have e: "f = f\<lparr>cur_size := cur_size f\<rparr>" by simp
  have cm: "cur_size f \<le> max_size f" and bt: "block_meta_typed b"
    and mg: "lblock f = 0 \<Longrightarrow> data_idx f + cur_size f \<le> lb_end c (bmeta m) 0" using R by auto
  show ?thesis
    by (rule written_from_tail[where u = s and cs = "cur_size f" and b' = b and mig = True and bm = bm,
          OF rdy w hd refl refl e cm bt refl bm_def bo' run same same mg])
qed

text \<open>
  The bytes of the file behind the data are not carried over to the new block: they are what the scratch
  block held there.
\<close>

lemma write_body_data:
  assumes rdy: "write_ready m s old new f b fm1" and al: "max_alignment c = 1"
    and sz: "off \<le> cur_size f" "off + sz \<le> max_size f" "sz \<le> length data" "0 < sz"
  shows "\<exists>t tl. length tl = cur_size f - (off + sz) \<and> write_body old new sz off data f b s = (Inr (), t)
    \<and> written m s new (f\<lparr>cur_size := max (cur_size f) (off + sz)\<rparr>) fm1
        (take off (data_of content (dev s) (bmeta m) f) @ take sz data @ tl) t"
proof -
  define cs where "cs = max (cur_size f) (off + sz)"
  note R = rdy[unfolded write_ready_def]
  have csm: "cs \<le> max_size f" using R sz(2) by (simp add: cs_def)
  let ?l = "lblock f"
  have st: "staged m s" and l: "?l < n_lblocks c" using R by blast+
  have w: "working m s" and bo: "blocks_ok c (active_metablock s) (scratch_dblock (meta_block_header s)) (bmeta m)"
    using st by (simp_all add: staged_def layout_ok_def)
  note wd = workingD[OF w] and tg = staged_target[OF st l]
  have pb: "phy_id (bmeta m 0) = active_metablock s" using bo by (simp add: blocks_ok_def)
  have b: "phy_id b = phy_id (bmeta m ?l)" "data_start b = lb_start c ?l" "lb_start c ?l + free_size b \<le> B"
    and f: "fid_valid (fid f)" "lb_start c ?l \<le> data_idx f" "file_end f \<le> B - free_size b" using R by blast+
  let ?P = "content (dev s) (phy_id b)" and ?Y = "content (dev s) (target ?l s)"
  define Rb where "Rb = rewrite_block ?P ?Y (data_start b) (data_idx f + off) (take sz data) (file_end f) (B - free_size b)"
  have len: "length ?P = B" "length ?Y = B" using tg wd b(1) by (simp_all add: content_length)
  have geo: "data_start b \<le> data_idx f + off" "data_idx f + off + length (take sz data) \<le> file_end f"
    "file_end f \<le> B - free_size b" "B - free_size b \<le> B"
    using b f sz by (auto simp: file_end_def)
  note rb = rewrite_block[OF len geo, folded Rb_def]
  define s1 where "s1 = new_scratch ?l (phy_id b) (put_target ?l s Rb)"
  define b' where "b' = b\<lparr>phy_id := target ?l s\<rparr>"
  define bm where "bm = new_bmeta (scratch_metablock s) (bmeta m) ?l b'"
  note pt = put_target_props[OF st l rb(1)]
  have w1: "working m s1" and sm1: "scratch_metablock s1 = scratch_metablock s"
    using pt(1,6) by (simp_all add: s1_def)
  have h1: "fs_version (meta_block_header s1) = ITS_SUPPORTED_VERSION"
    "scratch_dblock (meta_block_header s1)
      = (if ?l \<noteq> 0 then phy_id (bmeta m ?l) else scratch_dblock (meta_block_header s))"
    "scratch_dblock (meta_block_header s1) < SIZE_MAX_P1"
    using st pt(4) b(1) bmeta_typed[of m ?l] by (auto simp: s1_def block_meta_typed_def staged_def)
  have bo': "blocks_ok c (scratch_metablock s) (scratch_dblock (meta_block_header s1)) bm"
    unfolding bm_def h1(2) using b l wd(9) blocks_ok_same[OF bo, of "scratch_metablock s" ?l b']
      blocks_ok_swap[OF wd(1) bo, of "scratch_metablock s" ?l b'] by (auto simp: b'_def target_def)
  have tsc: "scratch_metablock s = target ?l s \<longleftrightarrow> ?l = 0"
    using bo n_lblocks_gt1[OF wd(1) _ l] wd(9) by (auto simp: target_def blocks_ok_def)
  have scr1: "scr s1 = (if ?l = 0 then Rb else scr s)"
    using pt(2) pt(3)[OF wd(4)] pt(6) tsc by (auto simp: scr_def s1_def)
  have fm_scr: "fmeta c (scr s1) i = fmeta c (scr s) i" if "i < max_num_files c" for i
  proof (cases "?l = 0")
    case True
    then show ?thesis unfolding scr1 using rb(5)[of "fm_pos c i" 32] fm_pos_le[OF that] b(2) tsc
      by (simp add: fmeta_def lb_start_def scr_def)
  qed (simp add: scr1)
  have fw: "file_write_data c f b sz off data s = (Inr (f\<lparr>cur_size := cs\<rparr>, b'), s1)"
    using file_write_data_ok[OF st l al _ b(1) _ _ sz(1,2,4,3) f(3)] b f R
    by (simp add: Rb_def s1_def b'_def file_meta_typed_def cs_def)
  have run: "write_body old new sz off data f b s
      = bind_io (file_write_metadata c old new (f\<lparr>cur_size := cs\<rparr>) b') (\<lambda>_.
       bind_io (if ?l \<noteq> 0 then on_error PSA_ERROR_GENERIC_ERROR (its_flash_fs_mblock_migrate_lb0_data_to_scratch c)
                else return_io ()) (\<lambda>_. its_flash_fs_mblock_meta_update_finalize c)) s1"
    using fw sz(4) by (simp add: write_body_def io_simps its_consts(4))
  have blk: "(if k = 0 then if ?l \<noteq> 0 then m else scr s1 else content (dev s1) (phy_id (bm k)))
      = (if k = ?l then Rb else content (dev s) (phy_id (bmeta m k)))" if k: "k < n_lblocks c" for k
  proof (cases "k = ?l")
    case True
    then show ?thesis using pt(2) scr1 by (auto simp: bm_def new_bmeta_def Let_def b'_def s1_def)
  next
    case False
    then have "phy_id (bmeta m k) \<noteq> target ?l s" using tg(5)[OF k] by blast
    then have "content (dev s1) (phy_id (bmeta m k)) = content (dev s) (phy_id (bmeta m k))"
      using pt(3) staged_target(4)[OF st k] by (simp add: s1_def)
    then show ?thesis using False pb wd(6) by (auto simp: bm_def new_bmeta_def Let_def)
  qed
  have lay: "layout_ok c (scratch_metablock s) (scratch_dblock (meta_block_header s1)) bm
      (fm1(new := f\<lparr>cur_size := cs\<rparr>))"
    using R bo' csm by (simp add: bm_def b'_def)
  have rd0: "rd (if lblock g = 0 then if ?l \<noteq> 0 then m else scr s1 else content (dev s1) (phy_id (bm (lblock g)))) (data_idx g) (cur_size g)
       = data_of content (dev s) (bmeta m) g"
    if g: "i < max_num_files c" "i \<noteq> new" "g = fm1 i" "fid_valid (fid g)" "lblock g = ?l \<Longrightarrow> separated g f" for i g
  proof -
    have gl: "lblock g < n_lblocks c" "data_idx g + cur_size g \<le> lb_end c (bmeta m) (lblock g)"
      using R g by blast+
    show ?thesis
    proof (cases "lblock g = ?l")
      case True
      have "file_ok c bm g" using lay g(1-3) by (auto simp: layout_ok_def)
      then have "lb_start c ?l \<le> data_idx g" "cur_size g \<le> max_size g" "file_end g \<le> B - free_size b"
        using g(4) True by (auto simp: file_ok_def lb_end_def bm_def b'_def)
      then have "rd Rb (data_idx g) (cur_size g) = rd ?P (data_idx g) (cur_size g)"
        using g(5)[OF True] rb(2)[of "data_idx g" "cur_size g"] rb(3)[of "data_idx g" "cur_size g"] b(2)
        by (auto simp: separated_def file_end_def)
      then show ?thesis unfolding blk[OF gl(1)] using True b(1) by (simp add: data_of_def)
    next
      case False
      then show ?thesis unfolding blk[OF gl(1)] by (simp add: data_of_def)
    qed
  qed
  define tl where "tl = rd Rb (data_idx f + off + sz) (cs - (off + sz))"
  have fe: "data_idx f + cs \<le> B" using csm f(3) by (simp add: file_end_def)
  have ltl: "length tl = cur_size f - (off + sz)" using fe rb(1) by (simp add: tl_def cs_def)
  have "rd Rb (data_idx f) cs = rd Rb (data_idx f) (off + sz) @ tl"
    using rd_append[of Rb "data_idx f" "off + sz" "cs - (off + sz)"] by (simp add: tl_def cs_def add.assoc)
  moreover have "rd Rb (data_idx f) (off + sz) = take off (rd ?P (data_idx f) (cur_size f)) @ take sz data"
    using rd_append[of Rb "data_idx f" off sz] rb(2)[of "data_idx f" off] rb(4) sz b(2) f(2)
    by (simp add: take_rd)
  ultimately have rd1: "rd (if ?l = 0 then if ?l \<noteq> 0 then m else scr s1 else content (dev s1) (phy_id (bm ?l))) (data_idx f) cs
     = take off (data_of content (dev s) (bmeta m) f) @ take sz data @ tl"
    unfolding blk[OF l] using b(1) by (simp add: data_of_def)
  have ty: "block_meta_typed b'" using R tg(1) wd(1)
    by (auto simp: b'_def block_meta_typed_def cfg_ok_def cfg_typed_def)
  have "\<exists>t. write_body old new sz off data f b s = (Inr (), t) \<and> written m s new (f\<lparr>cur_size := cs\<rparr>) fm1
      (take off (data_of content (dev s) (bmeta m) f) @ take sz data @ tl) t"
    by (rule written_from_tail[where u = s1 and cs = cs and b' = b' and mig = "?l \<noteq> 0" and bm = bm,
          OF rdy w1 h1(1,3) sm1 fm_scr refl csm ty _ bm_def bo' run rd0 rd1])
      (simp_all add: b'_def)
  then show ?thesis using ltl unfolding cs_def by blast
qed

end

end
