(* ===== verification/ITS_FS_Delete.thy ===== *)
theory ITS_FS_Delete
  imports ITS_FS_Ops
begin

text \<open>
  \<open>its_flash_fs_delete_idx\<close> on a lawful device: the loop over the file table, the compaction of the
  data block, and the commit. The loop's accumulators are shown to be exactly the first byte behind
  the deleted file and the number of used bytes behind it.
\<close>

context flash_fs
begin

lemma delete_idx_loop_ok:
  assumes w: "working m s" and lay: "layout_ok c act sd (bmeta m) (fmeta c m)" and i: "i < max_num_files c"
    and v: "fid_valid (fid (fmeta c m i))"
    and X: "length X = B" and k: "k \<le> max_num_files c"
    and nb: "nbr + (\<Sum>j\<in>movers c (fmeta c m) i \<inter> {k..}. max_size (fmeta c m j)) < SIZE_MAX_P1"
  defines "del \<equiv> fmeta c m i"
  shows "\<exists>X'. delete_idx_loop c i (lblock del) (data_idx del) (max_size del) [k..<max_num_files c] src nbr (put_scr s X)
     = (Inr (Min (insert src ((\<lambda>j. data_idx (fmeta c m j)) ` (movers c (fmeta c m) i \<inter> {k..}))),
             nbr + (\<Sum>j\<in>movers c (fmeta c m) i \<inter> {k..}. max_size (fmeta c m j))), put_scr s X')
     \<and> length X' = B
     \<and> (\<forall>j < max_num_files c. fmeta c X' j =
          (if k \<le> j \<and> j \<noteq> i then shift_file del (fmeta c m j) else fmeta c X j))"
  using X k nb
proof (induction "max_num_files c - k" arbitrary: k src nbr X)
  case 0
  then have "movers c (fmeta c m) i \<inter> {k..} = {}" by (auto simp: movers_def files_in_def)
  with 0 show ?case by (intro exI[of _ X]) (auto simp: io_simps)
next
  case (Suc n)
  note wd = workingD[OF w]
  let ?fm = "fmeta c m" and ?M = "movers c (fmeta c m) i" and ?N = "max_num_files c"
  have k: "k < ?N" and up: "[k..<?N] = k # [Suc k..<?N]" using Suc by (simp_all add: upt_conv_Cons)
  have n: "n = ?N - Suc k" using Suc.hyps(2) by simp
  have fin: "finite (?M \<inter> {Suc k..})" by simp
  have Mk: "?M \<inter> {k..} = (if k \<in> ?M then insert k (?M \<inter> {Suc k..}) else ?M \<inter> {Suc k..})"
  proof -
    have "{k..} = insert k {Suc k..}" by auto
    then show ?thesis by auto
  qed
  show ?case
  proof (cases "k = i")
    case True
    have "k \<notin> ?M" using True by (simp add: movers_def)
    with Suc.hyps(1)[OF n, of X nbr src] Suc.prems k True Mk obtain X' where
      X': "delete_idx_loop c i (lblock del) (data_idx del) (max_size del) [Suc k..<?N] src nbr (put_scr s X)
       = (Inr (Min (insert src ((\<lambda>j. data_idx (?fm j)) ` (?M \<inter> {k..}))),
             nbr + (\<Sum>j\<in>?M \<inter> {k..}. max_size (?fm j))), put_scr s X')" "length X' = B"
      "\<forall>j < ?N. fmeta c X' j = (if Suc k \<le> j \<and> j \<noteq> i then shift_file del (?fm j) else fmeta c X j)"
      by auto
    then show ?thesis using True up by (intro exI[of _ X']) auto
  next
    case False
    let ?mv = "lblock (?fm k) = lblock del \<and> fid_valid (fid (?fm k)) \<and> data_idx del < data_idx (?fm k)"
    have mv: "?mv \<longleftrightarrow> k \<in> ?M" using k False by (auto simp: movers_def files_in_def del_def)
    have ge: "max_size del \<le> data_idx (?fm k)" if "k \<in> ?M"
      using delete_geometry(1)[OF lay i v that] by (simp add: file_end_def del_def)
    have ty: "file_meta_typed (?fm k)" by (rule fmeta_typed[OF wd(1,7) k])
    have sh: "(if ?mv then (?fm k)\<lparr>data_idx := sub32 (data_idx (?fm k)) (max_size del)\<rparr> else ?fm k)
        = shift_file del (?fm k)"
      using mv ge ty by (auto simp: shift_file_def sub32_id file_meta_typed_def)
    have ty': "file_meta_typed (shift_file del (?fm k))"
      using ty by (auto simp: shift_file_def file_meta_typed_def)
    define X1 where "X1 = wr X (fm_pos c k) (file_meta_bytes (shift_file del (?fm k)))"
    have "length (file_meta_bytes (shift_file del (?fm k))) = 32"
      using ty' by (simp add: file_meta_typed_def its_consts)
    then have len1: "length X1 = B"
      using Suc.prems(1) fm_pos_le[OF k] cfg_ok_bounds(3)[OF wd(1)] by (simp add: X1_def)
    have wp: "working m (put_scr s X)" using w Suc.prems(1) by simp
    have upd1: "its_flash_fs_mblock_update_scratch_file_meta c k (shift_file del (?fm k)) (put_scr s X)
        = (Inr (), put_scr s X1)"
      using update_scratch_file_meta_ok[OF wp k ty'] w Suc.prems(1) len1 by (simp add: X1_def)
    define src1 where "src1 = (if ?mv \<and> src > data_idx (?fm k) then data_idx (?fm k) else src)"
    define nbr1 where "nbr1 = (if k \<in> ?M then nbr + max_size (?fm k) else nbr)"
    have sum: "nbr1 + (\<Sum>j\<in>?M \<inter> {Suc k..}. max_size (?fm j)) = nbr + (\<Sum>j\<in>?M \<inter> {k..}. max_size (?fm j))"
      using fin by (simp add: Mk nbr1_def)
    then have n32: "(if ?mv then add32 nbr (max_size (?fm k)) else nbr) = nbr1"
      using Suc.prems(3) mv by (auto simp: nbr1_def intro!: add32_id)
    have step: "delete_idx_loop c i (lblock del) (data_idx del) (max_size del) [k..<?N] src nbr (put_scr s X)
        = delete_idx_loop c i (lblock del) (data_idx del) (max_size del) [Suc k..<?N] src1 nbr1 (put_scr s X1)"
      using read_file_meta_ok[OF wp k] upd1 False sh n32 unfolding up
      by (simp add: io_simps Let_def src1_def)
    obtain X' where X': "delete_idx_loop c i (lblock del) (data_idx del) (max_size del) [Suc k..<?N] src1 nbr1 (put_scr s X1)
       = (Inr (Min (insert src1 ((\<lambda>j. data_idx (?fm j)) ` (?M \<inter> {Suc k..}))),
             nbr1 + (\<Sum>j\<in>?M \<inter> {Suc k..}. max_size (?fm j))), put_scr s X')" "length X' = B"
      "\<forall>j < ?N. fmeta c X' j = (if Suc k \<le> j \<and> j \<noteq> i then shift_file del (?fm j) else fmeta c X1 j)"
      using Suc.hyps(1)[OF n, of X1 nbr1 src1] len1 k sum Suc.prems(3) by auto
    have "Min (insert src1 ((\<lambda>j. data_idx (?fm j)) ` (?M \<inter> {Suc k..})))
        = Min (insert src ((\<lambda>j. data_idx (?fm j)) ` (?M \<inter> {k..})))"
    proof -
      let ?A = "(\<lambda>j. data_idx (?fm j)) ` (?M \<inter> {Suc k..})"
      have "src1 = (if k \<in> ?M then min src (data_idx (?fm k)) else src)"
        using mv by (auto simp: src1_def min_def)
      moreover have "Min (insert (min a b) ?A) = Min (insert a (insert b ?A))" for a b
        using fin by (cases "?A = {}") (simp_all add: min.assoc)
      ultimately show ?thesis by (simp add: Mk)
    qed
    moreover have "fmeta c X' j = (if k \<le> j \<and> j \<noteq> i then shift_file del (?fm j) else fmeta c X j)"
      if "j < ?N" for j
      using X'(3) that fmeta_wr_fm[OF wd(1) Suc.prems(1) k that ty'] False
      by (auto simp: X1_def[symmetric] le_eq_less_or_eq)
    ultimately show ?thesis using X'(1,2) step sum by (intro exI[of _ X']) auto
  qed
qed


text \<open>The compaction: data to the scratch block, block table with the freed space.\<close>

lemma compact_block_ok:
  assumes st: "staged m s" and l: "l < n_lblocks c" and dst: "lb_start c l \<le> dst" "dst \<le> src" "src + n \<le> B"
    and fr: "free_size (bmeta m l) + freed \<le> B"
  defines "P \<equiv> content (dev s) (phy_id (bmeta m l))" and "T \<equiv> target l s"
  defines "u \<equiv> new_scratch l (phy_id (bmeta m l))
     (put_target l s (compact_data P (content (dev s) T) (lb_start c l) src dst n))"
  shows "\<exists>X. its_flash_fs_dblock_compact_block c l freed src dst n s = (Inr (), put_scr u X)
    \<and> working m u \<and> behind X (scr u)
    \<and> (\<forall>k < n_lblocks c. bmeta X k = new_bmeta (scratch_metablock s) (bmeta m) l
         ((bmeta m l)\<lparr>free_size := free_size (bmeta m l) + freed, phy_id := T\<rparr>) k)"
proof -
  have w: "working m s" using st by (simp add: staged_def)
  note wd = workingD[OF w] and bd = cfg_ok_bounds[OF workingD(1)[OF w]] and tg = staged_target[OF st l, folded T_def]
  let ?p = "phy_id (bmeta m l)" and ?ds = "lb_start c l" and ?Y = "content (dev s) T"
  have ds: "data_start (bmeta m l) = ?ds"
    using st l by (auto simp: staged_def layout_ok_def blocks_ok_def)
  have a32: "add32 (free_size (bmeta m l)) freed = free_size (bmeta m l) + freed"
    using fr bd by (simp add: wrap_simps)
  have len: "length P = B" "length ?Y = B" using tg wd by (simp_all add: P_def content_length)
  define D1 where "D1 = wr ?Y dst (rd P src n)"
  define D where "D = compact_data P ?Y ?ds src dst n"
  have D: "D = wr D1 ?ds (rd P ?ds (dst - ?ds))" by (simp add: D_def D1_def compact_data_def)
  have lD: "length D1 = B" "length D = B"
    using len dst compact_data(1)[OF len dst] by (simp_all add: D1_def D_def)
  define v where "v = (\<lambda>Y. put_target l s Y)"
  have v: "dev_ok (dev (v Y))" "content (dev (v Y)) T = Y" "content (dev (v Y)) ?p = P"
    "(v Y)\<lparr>dev := upd (dev (v Y)) T Z\<rparr> = v Z" "target l (v Y) = T" if "length Y = B" "length Z = B" for Y Z
    using that tg wd by (simp_all add: v_def put_target_def T_def[symmetric] dev_ok_upd content_upd upd_upd P_def)
      (simp_all add: T_def target_def)
  have m1: "(if n > 0 then on_error PSA_ERROR_GENERIC_ERROR
        (its_flash_fs_block_to_block_move c T dst ?p src n) else return_io ()) s = (Inr (), v D1)"
  proof (cases "n = 0")
    case True
    then show ?thesis using tg wd by (simp add: io_simps v_def put_target_def D1_def T_def[symmetric] upd_id)
  next
    case False
    have "its_flash_fs_block_to_block_move c T dst ?p src n s = (Inr (), v D1)"
      using tg wd bd dst by (subst block_to_block_move_ok) (simp_all add: v_def put_target_def T_def[symmetric] D1_def P_def)
    with False show ?thesis by (simp add: io_simps)
  qed
  have m2: "(if dst > ?ds then on_error PSA_ERROR_GENERIC_ERROR
        (its_flash_fs_block_to_block_move c T ?ds ?p ?ds (dst - ?ds)) else return_io ()) (v D1) = (Inr (), v D)"
  proof (cases "dst > ?ds")
    case True
    have "its_flash_fs_block_to_block_move c T ?ds ?p ?ds (dst - ?ds) (v D1) = (Inr (), v D)"
      using tg bd dst v[OF lD(1,2)] by (subst block_to_block_move_ok) (simp_all add: D)
    with True show ?thesis by (simp add: io_simps)
  next
    case False
    then show ?thesis using dst D by (simp add: io_simps)
  qed
  have u: "u = new_scratch l ?p (v D)" by (simp add: u_def v_def D_def T_def)
  note pt = put_target_props[OF st l lD(2)]
  have wu: "working m u" using pt(1) by (simp add: u v_def)
  have ty: "block_meta_typed ((bmeta m l)\<lparr>free_size := free_size (bmeta m l) + freed, phy_id := T\<rparr>)"
    using bmeta_typed[of m l] fr bd tg(1) wd(1) by (auto simp: block_meta_typed_def cfg_ok_def cfg_typed_def)
  obtain X where X: "its_flash_fs_mblock_update_scratch_block_meta c l
       ((bmeta m l)\<lparr>free_size := free_size (bmeta m l) + freed, phy_id := T\<rparr>) u = (Inr (), put_scr u X)"
    "behind X (scr u)" "\<forall>k < n_lblocks c. bmeta X k = new_bmeta (scratch_metablock u) (bmeta m) l
       ((bmeta m l)\<lparr>free_size := free_size (bmeta m l) + freed, phy_id := T\<rparr>) k"
    using block_table_ok[OF wu l ty] by blast
  have smu: "scratch_metablock u = scratch_metablock s" using pt(6) by (simp add: u v_def)
  have lX: "length X = B" using X(2) by (simp add: behind_def)
  have fl: "dev_flush c T (put_scr u X) = (Inr (), put_scr u X)"
    using workingD(2)[OF working_put_scr[OF wu lX]] tg(1) by (rule dev_flush_ok)
  have "its_flash_fs_dblock_compact_block c l freed src dst n s = (Inr (), put_scr u X)"
  proof -
    have b0: "bind_io (its_flash_fs_mblock_read_block_metadata c l) h s = h (bmeta m l) s"
      "bind_io (its_flash_fs_mblock_cur_data_scratch_id l) h' s = h' T s"
      for h :: "its_block_meta_t \<Rightarrow> ('d its_flash_fs_ctx_t, unit) io" and h' :: "nat \<Rightarrow> ('d its_flash_fs_ctx_t, unit) io"
      using read_block_metadata_ok[OF w l] by (simp_all add: bind_io_def cur_data_scratch_id T_def)
    have b1: "bind_io (if n > 0 then on_error PSA_ERROR_GENERIC_ERROR
        (its_flash_fs_block_to_block_move c T dst ?p src n) else return_io ()) g s = g () (v D1)"
      and b2: "bind_io (if dst > ?ds then on_error PSA_ERROR_GENERIC_ERROR
        (its_flash_fs_block_to_block_move c T ?ds ?p ?ds (dst - ?ds)) else return_io ()) g (v D1) = g () (v D)"
      for g :: "unit \<Rightarrow> ('d its_flash_fs_ctx_t, unit) io"
      using m1 m2 by (simp_all add: bind_io_def)
    have "its_flash_fs_mblock_set_data_scratch ?p l (v D) = (Inr (), u)" by (simp add: set_data_scratch u)
    then show ?thesis
      using X(1) fl unfolding its_flash_fs_dblock_compact_block_def
      by (simp add: b0 a32 ds Let_def b1 b2 cong del: if_weak_cong split del: if_split) (simp add: io_simps)
  qed
  then show ?thesis using wu X(2,3) smu by auto
qed


text \<open>The state after a deletion: the table without the file, every other file with its data.\<close>

definition deleted :: "byte list \<Rightarrow> 'd its_flash_fs_ctx_t \<Rightarrow> nat \<Rightarrow> 'd its_flash_fs_ctx_t \<Rightarrow> bool" where
  "deleted m s i t \<longleftrightarrow> fs_layout_inv content dev_ok c t
     \<and> (\<forall>k < max_num_files c. fmeta c (active_meta content t) k = deleted_fm (fmeta c m) i k)
     \<and> (\<forall>k < max_num_files c. k \<noteq> i \<longrightarrow> fid_valid (fid (fmeta c m k)) \<longrightarrow>
          data_of content (dev t) (bmeta (active_meta content t)) (deleted_fm (fmeta c m) i k)
          = data_of content (dev s) (bmeta m) (fmeta c m k))"

lemma deleted_from_tail:
  assumes w: "working m v" and tab: "\<forall>k < n_lblocks c. bmeta (scr v) k = bm k"
      "\<forall>k < max_num_files c. fmeta c (scr v) k = deleted_fm (fmeta c m) i k"
    and lay: "layout_ok c (scratch_metablock v) (scratch_dblock (meta_block_header v)) bm (deleted_fm (fmeta c m) i)"
    and hd: "fs_version (meta_block_header v) = ITS_SUPPORTED_VERSION" "scratch_dblock (meta_block_header v) < SIZE_MAX_P1"
    and dat: "\<And>k g. k < max_num_files c \<Longrightarrow> k \<noteq> i \<Longrightarrow> fid_valid (fid (fmeta c m k)) \<Longrightarrow>
        g = deleted_fm (fmeta c m) i k \<Longrightarrow>
        (lblock g = 0 \<longrightarrow> mig \<longrightarrow> data_idx g + cur_size g \<le> lb_end c (bmeta m) 0)
        \<and> rd (if lblock g = 0 then if mig then m else scr v else content (dev v) (phy_id (bm (lblock g)))) (data_idx g) (cur_size g)
          = data_of content (dev s) (bmeta m) (fmeta c m k)"
  shows "\<exists>t. bind_io (if mig then on_error PSA_ERROR_GENERIC_ERROR (its_flash_fs_mblock_migrate_lb0_data_to_scratch c)
                else return_io ()) (\<lambda>_. its_flash_fs_mblock_meta_update_finalize c) v = (Inr (), t) \<and> deleted m s i t"
proof -
  let ?fm = "deleted_fm (fmeta c m) i"
  obtain t where t: "bind_io (if mig then on_error PSA_ERROR_GENERIC_ERROR
        (its_flash_fs_mblock_migrate_lb0_data_to_scratch c) else return_io ())
       (\<lambda>_. its_flash_fs_mblock_meta_update_finalize c) v = (Inr (), t)"
    "fs_layout_inv content dev_ok c t" "\<forall>k < n_lblocks c. bmeta (active_meta content t) k = bm k"
    "\<forall>i < max_num_files c. fmeta c (active_meta content t) i = ?fm i"
    "\<forall>i < max_num_files c. fid_valid (fid (?fm i)) \<longrightarrow>
         (lblock (?fm i) = 0 \<longrightarrow> mig \<longrightarrow> data_idx (?fm i) + cur_size (?fm i) \<le> lb_end c (bmeta m) 0) \<longrightarrow>
         data_of content (dev t) bm (?fm i) =
           rd (if lblock (?fm i) = 0 then if mig then m else scr v
               else content (dev v) (phy_id (bm (lblock (?fm i))))) (data_idx (?fm i)) (cur_size (?fm i))"
    using mig_commit_ok[OF w tab lay hd, of mig] by blast
  have "data_of content (dev t) (bmeta (active_meta content t)) (?fm k) = data_of content (dev s) (bmeta m) (fmeta c m k)"
    if k: "k < max_num_files c" "k \<noteq> i" "fid_valid (fid (fmeta c m k))" for k
  proof -
    have v: "fid_valid (fid (?fm k))" using k by (simp add: deleted_fm_def)
    have "file_ok c bm (?fm k)" using lay k(1) by (simp add: layout_ok_def)
    then have "lblock (?fm k) < n_lblocks c" by (simp add: file_ok_def)
    then have "data_of content (dev t) (bmeta (active_meta content t)) (?fm k) = data_of content (dev t) bm (?fm k)"
      using t(3) by (simp add: data_of_def)
    then show ?thesis using t(5)[rule_format, OF k(1) v] dat[OF k refl] by simp
  qed
  then show ?thesis using t(1,2,4) by (auto simp: deleted_def)
qed

lemma delete_idx_zero_tail:
  assumes st: "staged m s" and i: "i < max_num_files c" "fid_valid (fid (fmeta c m i))" "max_size (fmeta c m i) = 0"
    and X: "length X = B" "\<forall>k < max_num_files c. fmeta c X k = deleted_fm (fmeta c m) i k"
  shows "\<exists>t. bind_io (bind_io (its_flash_fs_mblock_read_block_metadata c ITS_LOGICAL_DBLOCK0)
               (\<lambda>block_meta. its_flash_fs_mblock_update_scratch_block_meta c ITS_LOGICAL_DBLOCK0 block_meta)) (\<lambda>_.
       bind_io (if True then on_error PSA_ERROR_GENERIC_ERROR (its_flash_fs_mblock_migrate_lb0_data_to_scratch c)
                else return_io ()) (\<lambda>_. its_flash_fs_mblock_meta_update_finalize c)) (put_scr s X) = (Inr (), t)
    \<and> deleted m s i t"
proof -
  have w: "working m s" and lay: "layout_ok c (active_metablock s) (scratch_dblock (meta_block_header s)) (bmeta m) (fmeta c m)"
    and hd: "fs_version (meta_block_header s) = ITS_SUPPORTED_VERSION" "scratch_dblock (meta_block_header s) < SIZE_MAX_P1"
    using st by (simp_all add: staged_def)
  note wd = workingD[OF w] and bd = cfg_ok_bounds[OF workingD(1)[OF w]]
  let ?fm = "deleted_fm (fmeta c m) i"
  have w1: "working m (put_scr s X)" "scr (put_scr s X) = X" using w X by simp_all
  obtain Z where Z: "its_flash_fs_mblock_update_scratch_block_meta c 0 (bmeta m 0) (put_scr s X)
      = (Inr (), put_scr (put_scr s X) Z)" "behind Z X"
    "\<forall>k < n_lblocks c. bmeta Z k = new_bmeta (scratch_metablock s) (bmeta m) 0 (bmeta m 0) k"
    using block_table_ok[OF w1(1) bd(1) bmeta_typed[of m 0]] w1(2) by auto
  have lZ: "length Z = B" using Z(2) by (simp add: behind_def)
  define bm where "bm = new_bmeta (scratch_metablock s) (bmeta m) 0 (bmeta m 0)"
  have bo: "blocks_ok c (active_metablock s) (scratch_dblock (meta_block_header s)) (bmeta m)"
    using lay by (simp add: layout_ok_def)
  have bo': "blocks_ok c (scratch_metablock s) (scratch_dblock (meta_block_header s)) bm"
    unfolding bm_def using bo wd(9) bd(1) by (intro blocks_ok_same[OF bo]) (auto simp: blocks_ok_def)
  have lay': "layout_ok c (scratch_metablock s) (scratch_dblock (meta_block_header s)) bm ?fm"
    using i by (intro layout_delete[OF wd(1) lay bo']) (auto simp: bm_def)
  have pb: "phy_id (bmeta m 0) = active_metablock s" using bo by (simp add: blocks_ok_def)
  have dat: "(lblock g = 0 \<longrightarrow> True \<longrightarrow> data_idx g + cur_size g \<le> lb_end c (bmeta m) 0)
        \<and> rd (if lblock g = 0 then if True then m else scr (put_scr s Z)
              else content (dev (put_scr s Z)) (phy_id (bm (lblock g)))) (data_idx g) (cur_size g)
          = data_of content (dev s) (bmeta m) (fmeta c m k)"
    if k: "k < max_num_files c" "k \<noteq> i" "fid_valid (fid (fmeta c m k))" "g = ?fm k" for k g
  proof -
    have g: "g = fmeta c m k" using k i(3) by (simp add: deleted_fm_def shift_file_def)
    have fo: "file_ok c (bmeta m) g" using lay k(1) g by (simp add: layout_ok_def)
    then have "lblock g < n_lblocks c" by (simp add: file_ok_def)
    then have "2 \<le> phy_id (bmeta m (lblock g)) \<and> phy_id (bmeta m (lblock g)) < NB" if "lblock g \<noteq> 0"
      using bo that by (auto simp: blocks_ok_def)
    then show ?thesis
      using fo k(3) g pb wd(6,9) w lZ
      by (auto simp: file_ok_def file_end_def data_of_def bm_def new_bmeta_def Let_def content_put_scr)
  qed
  have v: "working m (put_scr s Z)" "scr (put_scr s Z) = Z" using w lZ by simp_all
  obtain t where t: "bind_io (if True then on_error PSA_ERROR_GENERIC_ERROR
        (its_flash_fs_mblock_migrate_lb0_data_to_scratch c) else return_io ())
       (\<lambda>_. its_flash_fs_mblock_meta_update_finalize c) (put_scr s Z) = (Inr (), t)" "deleted m s i t"
    using deleted_from_tail[OF v(1), where bm = bm and i = i and s = s and mig = True] Z(3) X(2) lay' hd dat
      behind_fmeta[OF Z(2) wd(1)] by (auto simp: v(2) bm_def)
  then show ?thesis
    using Z(1) w X(1) lZ read_block_metadata_ok[OF w1(1) bd(1)]
    by (intro exI[of _ t]) (simp add: its_consts(4) bind_io_def)
qed


lemma delete_idx_compact_tail:
  assumes st: "staged m s" and i: "i < max_num_files c" "fid_valid (fid (fmeta c m i))" "0 < max_size (fmeta c m i)"
    and X: "length X = B" "\<forall>k < max_num_files c. fmeta c X k = deleted_fm (fmeta c m) i k"
  defines "del \<equiv> fmeta c m i"
  defines "n \<equiv> lb_end c (bmeta m) (lblock del) - file_end del"
  assumes src: "0 < n \<Longrightarrow> src = file_end del" "data_idx del \<le> src" "src + n \<le> B"
  shows "\<exists>t. bind_io (its_flash_fs_dblock_compact_block c (lblock del) (max_size del) src (data_idx del) n) (\<lambda>_.
       bind_io (if lblock del \<noteq> 0 then on_error PSA_ERROR_GENERIC_ERROR (its_flash_fs_mblock_migrate_lb0_data_to_scratch c)
                else return_io ()) (\<lambda>_. its_flash_fs_mblock_meta_update_finalize c)) (put_scr s X) = (Inr (), t)
    \<and> deleted m s i t"
proof -
  have w: "working m s" and lay: "layout_ok c (active_metablock s) (scratch_dblock (meta_block_header s)) (bmeta m) (fmeta c m)"
    and hd: "fs_version (meta_block_header s) = ITS_SUPPORTED_VERSION" "scratch_dblock (meta_block_header s) < SIZE_MAX_P1"
    using st by (simp_all add: staged_def)
  note wd = workingD[OF w] and bd = cfg_ok_bounds[OF workingD(1)[OF w]]
  let ?fm = "deleted_fm (fmeta c m) i" and ?l = "lblock del" and ?p = "phy_id (bmeta m (lblock del))"
  note geo = delete_geometry[OF lay i(1,2)]
  have bo: "blocks_ok c (active_metablock s) (scratch_dblock (meta_block_header s)) (bmeta m)"
    using lay by (simp add: layout_ok_def)
  have fo: "file_ok c (bmeta m) (fmeta c m k)" if "k < max_num_files c" for k
    using lay that by (simp add: layout_ok_def)
  have l: "?l < n_lblocks c" and dr: "lb_start c ?l \<le> data_idx del" "file_end del \<le> lb_end c (bmeta m) ?l"
    using fo[OF i(1)] i(2) by (simp_all add: file_ok_def del_def)
  define s1 where "s1 = put_scr s X"
  have st1: "staged m s1" using st X(1) by (simp add: staged_def s1_def)
  have w1: "working m s1" using st1 by (simp add: staged_def)
  have s1[simp]: "scratch_metablock s1 = scratch_metablock s" "meta_block_header s1 = meta_block_header s" "scr s1 = X"
    "target ?l s1 = target ?l s"
    using w X(1) by (simp_all add: s1_def target_def)
  have fr: "free_size (bmeta m ?l) + max_size del \<le> B"
    using dr(2) i(3) by (simp add: file_end_def lb_end_def del_def)
  define P where "P = content (dev s1) ?p"
  define D where "D = compact_data P (content (dev s1) (target ?l s)) (lb_start c ?l) src (data_idx del) n"
  define u where "u = new_scratch ?l ?p (put_target ?l s1 D)"
  obtain Z where Z: "its_flash_fs_dblock_compact_block c ?l (max_size del) src (data_idx del) n s1 = (Inr (), put_scr u Z)"
    "working m u" "behind Z (scr u)"
    "\<forall>k < n_lblocks c. bmeta Z k = new_bmeta (scratch_metablock s) (bmeta m) ?l
         ((bmeta m ?l)\<lparr>free_size := free_size (bmeta m ?l) + max_size del, phy_id := target ?l s\<rparr>) k"
    using compact_block_ok[OF st1 l dr(1) src(2,3) fr] by (auto simp: u_def D_def P_def)
  have lZ: "length Z = B" using Z(3) by (simp add: behind_def)
  note tg = staged_target[OF st l]
  have lP: "length P = B" "length (content (dev s1) (target ?l s)) = B"
    using tg workingD(2)[OF w1] by (simp_all add: P_def content_length)
  note cd = compact_data[OF lP dr(1) src(2,3), folded D_def]
  note pt = put_target_props[OF st1 l cd(1)]
  have P: "P = content (dev s) ?p"
    using tg(3,4) wd(9) bo l w X(1)
    by (cases "?l = 0") (auto simp: P_def s1_def content_put_scr blocks_ok_def target_def)
  define b where "b = (bmeta m ?l)\<lparr>free_size := free_size (bmeta m ?l) + max_size del, phy_id := target ?l s\<rparr>"
  define bm where "bm = new_bmeta (scratch_metablock s) (bmeta m) ?l b"
  have tsc: "scratch_metablock s = target ?l s \<longleftrightarrow> ?l = 0"
    using bo n_lblocks_gt1[OF wd(1) _ l] wd(9) by (auto simp: target_def blocks_ok_def)
  have scru: "scr u = (if ?l = 0 then D else X)"
    using pt(2) pt(3)[OF wd(4)] pt(6) tsc s1(3) by (auto simp: u_def scr_def)
  have h: "scratch_dblock (meta_block_header u) = (if ?l \<noteq> 0 then ?p else scratch_dblock (meta_block_header s))"
    "fs_version (meta_block_header u) = ITS_SUPPORTED_VERSION" "scratch_metablock u = scratch_metablock s"
    "scratch_dblock (meta_block_header u) < SIZE_MAX_P1"
    using pt(4,6) hd bmeta_typed[of m ?l] by (auto simp: u_def block_meta_typed_def)
  have dsl: "data_start b = lb_start c ?l" "lb_start c ?l + free_size b \<le> B"
    using bo l dr fr by (auto simp: b_def blocks_ok_def file_end_def lb_end_def)
  have bo': "blocks_ok c (scratch_metablock s) (scratch_dblock (meta_block_header u)) bm"
    unfolding bm_def h(1) using dsl l wd(9) blocks_ok_same[OF bo, of "scratch_metablock s" ?l b]
      blocks_ok_swap[OF wd(1) bo, of "scratch_metablock s" ?l b] by (auto simp: b_def target_def)
  have lay': "layout_ok c (scratch_metablock s) (scratch_dblock (meta_block_header u)) bm ?fm"
    using i by (intro layout_delete[OF wd(1) lay bo']) (auto simp: bm_def b_def del_def)
  have fmZ: "fmeta c Z k = ?fm k" if "k < max_num_files c" for k
  proof -
    have "fmeta c D k = fmeta c X k" if "?l = 0"
      using cd(4)[of "fm_pos c k" 32] fm_pos_le[OF \<open>k < max_num_files c\<close>] tsc s1(3) that
      by (simp add: fmeta_def lb_start_def scr_def)
    then show ?thesis using behind_fmeta[OF Z(3) wd(1) that] X(2) that by (simp add: scru)
  qed
  have v: "working m (put_scr u Z)" "scr (put_scr u Z) = Z" using Z(2) lZ by simp_all
  have blk: "rd (if k = 0 then if ?l \<noteq> 0 then m else Z else content (dev (put_scr u Z)) (phy_id (bm k))) q j
      = rd (if k = ?l then D else content (dev s) (phy_id (bmeta m k))) q j"
    if k: "k < n_lblocks c" and q: "lb_start c k \<le> q" "q + j \<le> B" for k q j
  proof (cases "k = 0")
    case True
    have "rd Z q j = rd (scr u) q j"
      using Z(3) q True fm_pos_0_le[of c] by (simp add: behind_def lb_start_def)
    then show ?thesis using True scru bo wd(6) by (auto simp: blocks_ok_def)
  next
    case False
    have pk: "2 \<le> phy_id (bmeta m k)" "phy_id (bmeta m k) < NB" using False bo k by (auto simp: blocks_ok_def)
    have tl: "target ?l s \<noteq> scratch_metablock s" if "?l \<noteq> 0" using tsc that by auto
    have "content (dev s1) (phy_id (bmeta m k)) = content (dev s) (phy_id (bmeta m k))"
      using pk wd(9) w X(1) by (simp add: s1_def content_put_scr)
    moreover have "content (dev u) (phy_id (bmeta m k)) = content (dev s1) (phy_id (bmeta m k))" if "k \<noteq> ?l"
      using pt(3)[OF pk(2)] tg(5)[OF k] that by (auto simp: u_def)
    moreover have "content (dev u) (target ?l s) = D" using pt(2) by (simp add: u_def)
    ultimately show ?thesis
      using False pk wd(9) tl Z(2) lZ h(3) tg(1)
      by (auto simp: bm_def b_def new_bmeta_def Let_def content_put_scr)
  qed
  have dat: "(lblock g = 0 \<longrightarrow> ?l \<noteq> 0 \<longrightarrow> data_idx g + cur_size g \<le> lb_end c (bmeta m) 0)
        \<and> rd (if lblock g = 0 then if ?l \<noteq> 0 then m else scr (put_scr u Z)
              else content (dev (put_scr u Z)) (phy_id (bm (lblock g)))) (data_idx g) (cur_size g)
          = data_of content (dev s) (bmeta m) (fmeta c m k)"
    if k: "k < max_num_files c" "k \<noteq> i" "fid_valid (fid (fmeta c m k))" "g = ?fm k" for k g
  proof -
    let ?f = "fmeta c m k"
    have lg: "lblock g = lblock ?f" "cur_size g = cur_size ?f" "fid g = fid ?f" using k by (simp_all add: deleted_fm_def)
    have fk: "lblock ?f < n_lblocks c" "cur_size ?f \<le> max_size ?f" "lb_start c (lblock ?f) \<le> data_idx ?f"
      "file_end ?f \<le> lb_end c (bmeta m) (lblock ?f)"
      using fo[OF k(1)] k(3) by (auto simp: file_ok_def)
    have "file_ok c bm g" using lay' k(1,4) by (simp add: layout_ok_def)
    then have rg: "lb_start c (lblock ?f) \<le> data_idx g" "data_idx g + cur_size ?f \<le> B"
      using k(3) lg by (auto simp: file_ok_def file_end_def lb_end_def)
    have e: "rd (if lblock ?f = ?l then D else content (dev s) (phy_id (bmeta m (lblock ?f)))) (data_idx g) (cur_size ?f)
        = data_of content (dev s) (bmeta m) ?f"
    proof (cases "lblock ?f = ?l")
      case False
      then show ?thesis using k(2,4) by (simp add: data_of_def deleted_fm_def shift_file_def del_def)
    next
      case True
      show ?thesis
      proof (cases "k \<in> movers c (fmeta c m) i")
        case mv: True
        then have g: "data_idx g = data_idx ?f - max_size del" "file_end del \<le> data_idx ?f"
          using k geo(1)[OF mv] by (auto simp: movers_def files_in_def deleted_fm_def shift_file_def del_def)
        show ?thesis
        proof (cases "cur_size ?f = 0")
          case z: True
          then show ?thesis by (simp add: data_of_def)
        next
          case nz: False
          then have "0 < n" using g(2) fk True by (simp add: n_def file_end_def)
          then have "src = file_end del" "src - data_idx del = max_size del" "src + n = lb_end c (bmeta m) ?l"
            using src(1) dr(2) by (simp_all add: n_def file_end_def)
          then show ?thesis
            using cd(3)[of "data_idx ?f" "cur_size ?f"] g fk True P by (simp add: data_of_def file_end_def)
        qed
      next
        case nm: False
        then have "g = ?f" "file_end ?f \<le> data_idx del"
          using k True geo(2)[of k] i(3)
          by (auto simp: movers_def files_in_def deleted_fm_def shift_file_def del_def)
        then show ?thesis
          using cd(2)[of "data_idx ?f" "cur_size ?f"] fk True P by (simp add: data_of_def file_end_def)
      qed
    qed
    have mg: "data_idx g + cur_size ?f \<le> lb_end c (bmeta m) 0" if "lblock ?f = 0" "?l \<noteq> 0"
    proof -
      have "g = ?f" using k that by (simp add: deleted_fm_def shift_file_def del_def)
      then show ?thesis using fk that by (simp add: file_end_def)
    qed
    show ?thesis unfolding lg v(2) using mg blk[OF fk(1) rg, unfolded e] by blast
  qed
  obtain t where t: "bind_io (if ?l \<noteq> 0 then on_error PSA_ERROR_GENERIC_ERROR
        (its_flash_fs_mblock_migrate_lb0_data_to_scratch c) else return_io ())
       (\<lambda>_. its_flash_fs_mblock_meta_update_finalize c) (put_scr u Z) = (Inr (), t)" "deleted m s i t"
    using deleted_from_tail[OF v(1), where bm = bm and i = i and s = s and mig = "?l \<noteq> 0"] Z(4) fmZ lay' h dat
    by (auto simp: v(2) bm_def b_def)
  then show ?thesis
    using Z(1) by (intro exI[of _ t]) (simp add: s1_def[symmetric] bind_io_def)
qed


lemma zero_file_meta_typed: "file_meta_typed zero_file_meta"
  by (simp add: zero_file_meta_def file_meta_typed_def)

lemma delete_idx_ok:
  assumes st: "staged m s" and i: "i < max_num_files c" "fid_valid (fid (fmeta c m i))"
  shows "\<exists>t. its_flash_fs_delete_idx c i s = (Inr (), t) \<and> deleted m s i t"
proof -
  have w: "working m s" and lay: "layout_ok c (active_metablock s) (scratch_dblock (meta_block_header s)) (bmeta m) (fmeta c m)"
    using st by (simp_all add: staged_def)
  note wd = workingD[OF w] and bd = cfg_ok_bounds[OF workingD(1)[OF w]]
  let ?fm = "fmeta c m" and ?del = "fmeta c m i" and ?M = "movers c (fmeta c m) i"
  define X0 where "X0 = wr (scr s) (fm_pos c i) (file_meta_bytes zero_file_meta)"
  have lz: "length (file_meta_bytes zero_file_meta) = 32"
    using zero_file_meta_typed by (simp add: file_meta_typed_def its_consts)
  have l0: "length X0 = B" using w lz fm_pos_le[OF i(1)] bd by (simp add: X0_def)
  have up: "its_flash_fs_mblock_update_scratch_file_meta c i zero_file_meta s = (Inr (), put_scr s X0)"
    using update_scratch_file_meta_ok[OF w i(1) zero_file_meta_typed] by (simp add: X0_def)
  define src where "src = Min (insert B ((\<lambda>j. data_idx (?fm j)) ` ?M))"
  define nbr where "nbr = (\<Sum>j\<in>?M. max_size (?fm j))"
  have M: "?M \<inter> {0..} = ?M" by auto
  have nbound: "nbr < SIZE_MAX_P1" using movers_sum_bound[OF lay i] bd(5) by (simp add: nbr_def)
  obtain X where X: "delete_idx_loop c i (lblock ?del) (data_idx ?del) (max_size ?del) [0..<max_num_files c] B 0 (put_scr s X0)
      = (Inr (src, nbr), put_scr s X)" "length X = B"
    "\<forall>j < max_num_files c. fmeta c X j = (if 0 \<le> j \<and> j \<noteq> i then shift_file ?del (?fm j) else fmeta c X0 j)"
    using delete_idx_loop_ok[OF w lay i l0, of 0 0 B] nbound by (auto simp: M src_def nbr_def)
  have fX: "\<forall>k < max_num_files c. fmeta c X k = deleted_fm ?fm i k"
    using X(3) fmeta_wr_fm[OF wd(1) length_scr[OF w] i(1) _ zero_file_meta_typed]
    by (auto simp: deleted_fm_def X0_def)
  have hd: "its_flash_fs_delete_idx c i s =
      bind_io (if max_size ?del = 0
               then bind_io (its_flash_fs_mblock_read_block_metadata c ITS_LOGICAL_DBLOCK0)
                      (\<lambda>block_meta. its_flash_fs_mblock_update_scratch_block_meta c ITS_LOGICAL_DBLOCK0 block_meta)
               else its_flash_fs_dblock_compact_block c (lblock ?del) (max_size ?del) src (data_idx ?del) nbr) (\<lambda>_.
      bind_io (if (max_size ?del \<noteq> 0 \<and> lblock ?del \<noteq> ITS_LOGICAL_DBLOCK0) \<or> max_size ?del = 0
               then on_error PSA_ERROR_GENERIC_ERROR (its_flash_fs_mblock_migrate_lb0_data_to_scratch c)
               else return_io ()) (\<lambda>_. its_flash_fs_mblock_meta_update_finalize c)) (put_scr s X)"
    using read_file_meta_ok[OF w i(1)] up X(1) i(2)
    by (simp add: its_flash_fs_delete_idx_def bind_io_def[of "its_flash_fs_mblock_read_file_meta c i"]
        bind_io_def[of "its_flash_fs_mblock_update_scratch_file_meta c i zero_file_meta"]
        bind_io_def[of "delete_idx_loop c i (lblock ?del) (data_idx ?del) (max_size ?del) [0..<max_num_files c] B 0"]
        Let_def)
  show ?thesis
  proof (cases "max_size ?del = 0")
    case True
    then show ?thesis using delete_idx_zero_tail[OF st i True X(2) fX] hd by simp
  next
    case False
    then have pos: "0 < max_size ?del" by simp
    note db = delete_bytes[OF lay i pos]
    have lb: "file_end ?del \<le> lb_end c (bmeta m) (lblock ?del)" "lb_end c (bmeta m) (lblock ?del) \<le> B"
      using lay i by (auto simp: layout_ok_def file_ok_def lb_end_def)
    have ge: "\<forall>j \<in> ?M. file_end ?del \<le> data_idx (?fm j)" using delete_geometry(1)[OF lay i] by blast
    have s1: "src = file_end ?del" if "0 < nbr"
    proof -
      have "file_end ?del < lb_end c (bmeta m) (lblock ?del)" using db(1) that by (simp add: nbr_def)
      then obtain j where "j \<in> ?M" "data_idx (?fm j) = file_end ?del" using db(2) by blast
      then have "file_end ?del \<in> (\<lambda>j. data_idx (?fm j)) ` ?M" by (metis imageI)
      then show ?thesis unfolding src_def using ge lb by (intro Min_eqI) auto
    qed
    have s2: "data_idx ?del \<le> src" unfolding src_def using ge lb by (auto simp: file_end_def)
    have s3: "src \<le> B" unfolding src_def by (intro Min_le) auto
    have n: "nbr = lb_end c (bmeta m) (lblock ?del) - file_end ?del" using db(1) by (simp add: nbr_def)
    then have s4: "src + nbr \<le> B" using s1 s3 lb by (cases "nbr = 0") auto
    show ?thesis
      using delete_idx_compact_tail[OF st i pos X(2) fX, folded n, OF s1 s2 s4] hd False
      by (simp add: its_consts(4))
  qed
qed

end

end
