(* ===== verification/ITS_FS_Refine.thy ===== *)
theory ITS_FS_Refine
  imports ITS_FS_Write ITS_FS_Delete
begin

text \<open>
  The file operations refine operations on the abstract file table \<open>fs_files\<close>: a read returns the
  bytes of the file, a deletion removes the entry, a write replaces the entry, and an operation that
  fails leaves the table alone.
\<close>

section \<open>Abstract operations\<close>

text \<open>The file a write starts from, when the old file (if any) is \<open>old\<close>.\<close>

definition write_base :: "its_flash_fs_file_info_t \<Rightarrow> its_file option \<Rightarrow> its_file" where
  "write_base finfo old =
     (let fresh = \<lparr>file_max = size_max finfo, file_flags = info_flags finfo, file_data = []\<rparr> in
      case old of
        None \<Rightarrow> fresh
      | Some v \<Rightarrow>
          if info_flags finfo AND ITS_FLASH_FS_FLAG_TRUNCATE = 0 then v
          else if file_max v = size_max finfo then v\<lparr>file_flags := info_flags finfo, file_data := []\<rparr>
          else fresh)"

text \<open>\<open>sz\<close> bytes of \<open>data\<close> at offset \<open>off\<close>, which end the file.\<close>

definition write_at :: "nat \<Rightarrow> nat \<Rightarrow> byte list \<Rightarrow> its_file \<Rightarrow> its_file" where
  "write_at sz off data v =
     (if sz = 0 then v else v\<lparr>file_data := take off (file_data v) @ take sz data\<rparr>)"

text \<open>
  A write that ends before the end of the file: the bytes behind the data are not kept, the file has some
  bytes \<open>rest\<close> there.
\<close>

definition write_over :: "nat \<Rightarrow> nat \<Rightarrow> byte list \<Rightarrow> byte list \<Rightarrow> its_file \<Rightarrow> its_file" where
  "write_over sz off data rest v = (if sz = 0 then v else v\<lparr>file_data := take off (file_data v) @ take sz data @ rest\<rparr>)"

lemma write_over_Nil: "write_over sz off data [] v = write_at sz off data v"
  by (simp add: write_over_def write_at_def)

lemma write_over_0: "write_over 0 off data rest v = write_at 0 off data v"
  by (simp add: write_over_def write_at_def)

text \<open>Does the write need a new entry (a new file, or a replacement by another maximum size)?\<close>

definition needs_entry :: "its_flash_fs_file_info_t \<Rightarrow> its_file option \<Rightarrow> bool" where
  "needs_entry finfo old = (case old of None \<Rightarrow> True
     | Some v \<Rightarrow> info_flags finfo AND ITS_FLASH_FS_FLAG_TRUNCATE \<noteq> 0 \<and> file_max v \<noteq> size_max finfo)"

text \<open>
  Room for a new file: a logical block with enough free space, and a free entry (the last free
  entry is only used for a replacement).
\<close>

definition has_room :: "('d \<Rightarrow> nat \<Rightarrow> byte list) \<Rightarrow> 'd its_flash_fs_config_t \<Rightarrow> 'd its_flash_fs_ctx_t
    \<Rightarrow> nat \<Rightarrow> bool \<Rightarrow> bool" where
  "has_room content c s n spare =
     (let m = active_meta content s in
      (\<exists>l < n_lblocks c. n \<le> free_size (bmeta m l))
      \<and> free_index (fmeta c m) [0..<max_num_files c] spare \<noteq> ITS_METADATA_INVALID_INDEX)"

text \<open>The status of a write, in the order of the checks of the code.\<close>

definition write_status :: "('d \<Rightarrow> nat \<Rightarrow> byte list) \<Rightarrow> 'd its_flash_fs_config_t \<Rightarrow> 'd its_flash_fs_ctx_t
    \<Rightarrow> byte list \<Rightarrow> its_flash_fs_file_info_t \<Rightarrow> nat \<Rightarrow> nat \<Rightarrow> psa_error option" where
  "write_status content c s f finfo sz off =
     (let old = fs_files content c s f; v = write_base finfo old in
      if info_flags finfo AND ITS_FLASH_FS_INTERNAL_FLAGS_MASK \<noteq> 0 then Some PSA_ERROR_INVALID_ARGUMENT
      else if old = None \<and> info_flags finfo AND ITS_FLASH_FS_FLAG_CREATE = 0
      then Some PSA_ERROR_DOES_NOT_EXIST
      else if needs_entry finfo old \<and> size_max finfo > max_file_size c then Some PSA_ERROR_INVALID_ARGUMENT
      else if needs_entry finfo old \<and> \<not> has_room content c s (size_max finfo) (old \<noteq> None)
      then Some PSA_ERROR_INSUFFICIENT_STORAGE
      else if sz \<noteq> 0 \<and> \<not> (off \<le> length (file_data v) \<and> off + sz \<le> file_max v)
      then Some PSA_ERROR_GENERIC_ERROR
      else None)"

section \<open>Names\<close>

text \<open>Deleting an entry leaves unique names when the others have unique names and no mark.\<close>

lemma names_ok_deleted:
  assumes "\<And>j. j < max_num_files c \<Longrightarrow> j \<noteq> i \<Longrightarrow> flags (fm j) AND ITS_FLASH_FS_FLAG_DELETE = 0"
    and "\<And>j k. j < max_num_files c \<Longrightarrow> k < max_num_files c \<Longrightarrow> j \<noteq> i \<Longrightarrow> k \<noteq> i \<Longrightarrow>
      fid_valid (fid (fm j)) \<Longrightarrow> fid (fm j) = fid (fm k) \<Longrightarrow> j = k"
  shows "names_ok c (deleted_fm fm i)"
  using assms by (auto simp: names_ok_def deleted_fm_def)

lemma names_ok_upd:
  assumes "names_ok c fm" "flags f AND ITS_FLASH_FS_FLAG_DELETE = 0"
    and "\<And>j. j < max_num_files c \<Longrightarrow> j \<noteq> i \<Longrightarrow> fid (fm j) \<noteq> fid f"
  shows "names_ok c (fm(i := f))"
  unfolding names_ok_def
proof (intro conjI allI impI)
  fix j assume "j < max_num_files c"
  then show "flags ((fm(i := f)) j) AND ITS_FLASH_FS_FLAG_DELETE = 0"
    using assms(1,2) by (simp add: names_ok_def)
next
  fix j k assume "j < max_num_files c" "k < max_num_files c" "fid_valid (fid ((fm(i := f)) j))"
    "fid ((fm(i := f)) j) = fid ((fm(i := f)) k)"
  then show "j = k"
    using assms(1) assms(3)[of j] assms(3)[of k] by (cases "j = i"; cases "k = i") (auto simp: names_ok_def)
qed

lemma user_flags_no_delete:
  assumes "w AND ITS_FLASH_FS_INTERNAL_FLAGS_MASK = 0"
  shows "w AND ITS_FLASH_FS_FLAG_DELETE = 0"
proof -
  have "ITS_FLASH_FS_FLAG_DELETE = ITS_FLASH_FS_INTERNAL_FLAGS_MASK AND ITS_FLASH_FS_FLAG_DELETE"
    by (simp add: its_fs_flag_consts)
  then have "w AND ITS_FLASH_FS_FLAG_DELETE = (w AND ITS_FLASH_FS_INTERNAL_FLAGS_MASK) AND ITS_FLASH_FS_FLAG_DELETE"
    by (metis and.assoc)
  then show ?thesis using assms by simp
qed

section \<open>Reading\<close>

context flash_fs
begin

lemma inv_working: "fs_layout_inv content dev_ok c s \<Longrightarrow> working (active_meta content s) s"
  using staged_inv by (simp add: staged_def)

lemma lookup:
  "fid_valid f \<Longrightarrow> length f = ITS_FILE_ID_SIZE \<Longrightarrow> m = active_meta content s \<Longrightarrow>
   fs_files content c s f
   = map_option (\<lambda>i. file_view content (dev s) (bmeta m) (fmeta c m i)) (file_index c (fmeta c m) f)"
  by (simp add: fs_files_def files_of_def Let_def)

lemma file_in_layout:
  assumes "layout_ok c act sd bm fm" "i < max_num_files c" "fid_valid (fid (fm i))"
  shows "lblock (fm i) < n_lblocks c" "cur_size (fm i) \<le> max_size (fm i)" "max_size (fm i) \<le> max_file_size c"
    "lb_start c (lblock (fm i)) \<le> data_idx (fm i)" "file_end (fm i) \<le> lb_end c bm (lblock (fm i))"
    "file_end (fm i) \<le> B"
proof -
  have "file_ok c bm (fm i)" using assms by (simp add: layout_ok_def)
  then show "lblock (fm i) < n_lblocks c" "cur_size (fm i) \<le> max_size (fm i)" "max_size (fm i) \<le> max_file_size c"
    "lb_start c (lblock (fm i)) \<le> data_idx (fm i)" "file_end (fm i) \<le> lb_end c bm (lblock (fm i))"
    "file_end (fm i) \<le> B"
    using assms(3) by (auto simp: file_ok_def lb_end_def)
qed

lemma length_data_of:
  assumes "staged m s" "i < max_num_files c" "fid_valid (fid (fmeta c m i))"
  shows "length (data_of content (dev s) (bmeta m) (fmeta c m i)) = cur_size (fmeta c m i)"
proof -
  note fl = file_in_layout[OF staged_layout[OF assms(1)] assms(2,3)]
  have "length (content (dev s) (phy_id (bmeta m (lblock (fmeta c m i))))) = B"
    using staged_target(4)[OF assms(1) fl(1)] workingD(2)[of m s] assms(1) by (simp add: content_length staged_def)
  then show ?thesis using fl by (simp add: data_of_def file_end_def)
qed

lemma file_read_refines:
  assumes inv: "fs_layout_inv content dev_ok c s" and f: "fid_valid f" "length f = ITS_FILE_ID_SIZE"
    and sz: "0 < sz"
  shows "its_flash_fs_file_read c f sz off s =
    (case fs_files content c s f of
       None \<Rightarrow> (Inl PSA_ERROR_DOES_NOT_EXIST, s)
     | Some v \<Rightarrow> if off + sz \<le> length (file_data v) then (Inr (rd (file_data v) off sz), s)
                else (Inl PSA_ERROR_INVALID_ARGUMENT, s))"
proof -
  define m where "m = active_meta content s"
  have st: "staged m s" using staged_inv[OF inv] by (simp add: m_def)
  have w: "working m s" using st by (simp add: staged_def)
  note wd = workingD[OF w] and bd = cfg_ok_bounds[OF workingD(1)[OF w]]
  show ?thesis
  proof (cases "file_index c (fmeta c m) f")
    case None
    then show ?thesis
      using get_file_idx_meta_ok[OF w, of f] lookup[OF f m_def]
      by (simp add: its_flash_fs_file_read_def m_def io_simps)
  next
    case (Some i)
    let ?f = "fmeta c m i"
    have i: "i < max_num_files c" "fid_valid (fid ?f)" using file_index_Some[OF Some] f by auto
    note fl = file_in_layout[OF staged_layout[OF st] i]
    have look: "fs_files content c s f = Some (file_view content (dev s) (bmeta m) ?f)"
      using lookup[OF f m_def] Some by (simp add: m_def)
    have len: "length (data_of content (dev s) (bmeta m) ?f) = cur_size ?f" by (rule length_data_of[OF st i])
    have "cur_size ?f < SIZE_MAX_P1" using fmeta_typed[OF wd(1,7) i(1)] by (simp add: file_meta_typed_def)
    note chk = check_contained_in_iff[OF this, of off sz]
    have idx: "its_flash_fs_mblock_get_file_idx_meta c f s = (Inr (i, ?f), s)"
      using get_file_idx_meta_ok[OF w, of f] Some by simp
    show ?thesis
    proof (cases "off + sz \<le> cur_size ?f")
      case True
      let ?p = "phy_id (bmeta m (lblock ?f))"
      have p: "?p < NB" by (rule staged_target(4)[OF st fl(1)])
      then have p': "?p \<noteq> ITS_BLOCK_INVALID_ID" using wd(1) by (auto simp: ITS_BLOCK_INVALID_ID_def cfg_ok_def cfg_typed_def)
      have r: "data_idx ?f + off < B" "data_idx ?f + off + sz \<le> B" using True fl sz by (auto simp: file_end_def)
      have "add32 (data_idx ?f) off = data_idx ?f + off" using r bd by (simp add: wrap_simps)
      then have "its_flash_fs_dblock_read_file c ?f off sz s = (Inr (rd (content (dev s) ?p) (data_idx ?f + off) sz), s)"
        using read_block_metadata_ok[OF w fl(1)] p p' r wd(2) dev_read_ok[of s ?p "data_idx ?f + off" sz]
        by (simp add: its_flash_fs_dblock_read_file_def its_dblock_lo_to_phy_def io_simps)
      moreover have "rd (content (dev s) ?p) (data_idx ?f + off) sz = rd (data_of content (dev s) (bmeta m) ?f) off sz"
        using True by (simp add: data_of_def rd_rd)
      ultimately show ?thesis
        using idx chk True look len
        by (simp add: its_flash_fs_file_read_def io_simps lift_status_def file_view_def)
    next
      case False
      then have "its_utils_check_contained_in (cur_size ?f) off sz = Inl PSA_ERROR_INVALID_ARGUMENT"
        using chk check_contained_in_error[of "cur_size ?f" off sz] by (cases "its_utils_check_contained_in (cur_size ?f) off sz") auto
      then show ?thesis
        using idx False look len
        by (simp add: its_flash_fs_file_read_def io_simps lift_status_def file_view_def)
    qed
  qed
qed

lemma file_get_info_refines:
  assumes inv: "fs_layout_inv content dev_ok c s" and f: "fid_valid f" "length f = ITS_FILE_ID_SIZE"
  shows "its_flash_fs_file_get_info c f s =
    (case fs_files content c s f of
       None \<Rightarrow> (Inl PSA_ERROR_DOES_NOT_EXIST, s)
     | Some v \<Rightarrow> (Inr \<lparr>size_current = length (file_data v), size_max = file_max v,
                     info_flags = file_flags v AND ITS_FLASH_FS_USER_FLAGS_MASK\<rparr>, s))"
proof -
  define m where "m = active_meta content s"
  have st: "staged m s" using staged_inv[OF inv] by (simp add: m_def)
  have w: "working m s" using st by (simp add: staged_def)
  show ?thesis
    using get_file_idx_meta_ok[OF w, of f] lookup[OF f m_def] length_data_of[OF st] file_index_Some[of c "fmeta c m" f] f
    by (auto simp: its_flash_fs_file_get_info_def m_def[symmetric] io_simps file_view_def split: option.splits)
qed


section \<open>Deleting\<close>

lemma file_delete_refines:
  assumes inv: "fs_inv content dev_ok c s" and f: "fid_valid f" "length f = ITS_FILE_ID_SIZE"
  shows "case fs_files content c s f of
       None \<Rightarrow> its_flash_fs_file_delete c f s = (Inl PSA_ERROR_DOES_NOT_EXIST, s)
     | Some v \<Rightarrow> \<exists>t. its_flash_fs_file_delete c f s = (Inr (), t) \<and> fs_inv content dev_ok c t
                  \<and> fs_files content c t = (fs_files content c s)(f := None)"
proof -
  define m where "m = active_meta content s"
  have st: "staged m s" and nm: "names_ok c (fmeta c m)"
    using inv staged_inv by (auto simp: m_def fs_inv_def)
  have w: "working m s" using st by (simp add: staged_def)
  show ?thesis
  proof (cases "file_index c (fmeta c m) f")
    case None
    then show ?thesis
      using get_file_idx_meta_ok[OF w, of f] lookup[OF f m_def]
      by (simp add: its_flash_fs_file_delete_def io_simps)
  next
    case (Some i)
    have i: "i < max_num_files c" "fid (fmeta c m i) = f" using file_index_Some[OF Some] by auto
    then obtain t where t: "its_flash_fs_delete_idx c i s = (Inr (), t)" "deleted m s i t"
      using delete_idx_ok[OF st i(1)] f(1) by auto
    define mt where "mt = active_meta content t"
    have tab: "\<And>k. k < max_num_files c \<Longrightarrow> fmeta c mt k = deleted_fm (fmeta c m) i k"
      and dat: "\<And>k. k < max_num_files c \<Longrightarrow> k \<noteq> i \<Longrightarrow> fid_valid (fid (fmeta c m k)) \<Longrightarrow>
          data_of content (dev t) (bmeta mt) (deleted_fm (fmeta c m) i k) = data_of content (dev s) (bmeta m) (fmeta c m k)"
      and lt: "fs_layout_inv content dev_ok c t"
      using t(2) by (simp_all add: deleted_def mt_def)
    have nt: "names_ok c (fmeta c mt)"
      by (rule names_ok_cong[OF names_ok_deleted tab]) (use nm in \<open>auto simp: names_ok_def\<close>)
    have "fs_files content c t = (fs_files content c s)(f := None)"
      unfolding fs_files_def Let_def m_def[symmetric] mt_def[symmetric]
      by (rule files_of_del[OF nm nt i]) (use f(1) tab dat i(1) in \<open>auto simp: deleted_fm_def file_view_def\<close>)
    moreover have "its_flash_fs_file_delete c f s = (Inr (), t)"
      using get_file_idx_meta_ok[OF w, of f] Some t(1) by (simp add: its_flash_fs_file_delete_def io_simps)
    ultimately show ?thesis
      using lt nt lookup[OF f m_def] Some by (auto simp: fs_inv_def mt_def)
  qed
qed

section \<open>Writing\<close>

lemma write_unfold:
  assumes "file_write_lookup c f finfo s = (Inr (old, new0, f0), s1)"
    and "file_write_reserve c f finfo old new0 f0 s1 = (Inr (new, f1, b1), s2)"
    and "max_alignment c = 1" "info_flags finfo AND ITS_FLASH_FS_INTERNAL_FLAGS_MASK = 0"
  shows "its_flash_fs_file_write c f (Some finfo) sz off data s
    = bind_io (write_body old new sz off data f1 b1) (\<lambda>_.
      bind_io (if old \<noteq> ITS_METADATA_INVALID_INDEX \<and> old \<noteq> new then its_flash_fs_delete_idx c old
               else return_io ()) (\<lambda>_. return_io finfo)) s2"
  using assms
  by (simp add: its_flash_fs_file_write_def write_body_def Let_def bind_io_Inr bind_io_assoc split_def)

lemma write_reserve_fails:
  assumes "file_write_lookup c f finfo s = (Inr (old, new0, f0), s1)"
    and "file_write_reserve c f finfo old new0 f0 s1 = (Inl e, s2)"
    and "max_alignment c = 1" "info_flags finfo AND ITS_FLASH_FS_INTERNAL_FLAGS_MASK = 0"
  shows "its_flash_fs_file_write c f (Some finfo) sz off data s = (Inl e, s2)"
  using assms by (simp add: its_flash_fs_file_write_def Let_def bind_io_def)

lemma written_files:
  assumes wr: "written m s new f' (fmeta c m) d t" and m: "m = active_meta content s" and inv: "fs_inv content dev_ok c s"
    and new: "new < max_num_files c" "fid_valid (fid f')" "length (fid f') = ITS_FILE_ID_SIZE"
    and nm: "names_ok c ((fmeta c m)(new := f'))"
    and old: "fid (fmeta c m new) = fid f' \<or> \<not> fid_valid (fid (fmeta c m new))"
  shows "fs_inv content dev_ok c t"
    and "fs_files content c t = (fs_files content c s)(fid f' \<mapsto> \<lparr>file_max = max_size f', file_flags = flags f', file_data = d\<rparr>)"
proof -
  define mt where "mt = active_meta content t"
  have tab: "\<And>k. k < max_num_files c \<Longrightarrow> fmeta c mt k = ((fmeta c m)(new := f')) k"
    and dat: "\<And>k. k < max_num_files c \<Longrightarrow> k \<noteq> new \<Longrightarrow> fid_valid (fid (fmeta c m k)) \<Longrightarrow>
        data_of content (dev t) (bmeta mt) (fmeta c m k) = data_of content (dev s) (bmeta m) (fmeta c m k)"
    and d: "data_of content (dev t) (bmeta mt) f' = d" and lt: "fs_layout_inv content dev_ok c t"
    using wr by (simp_all add: written_def mt_def)
  have nt: "names_ok c (fmeta c mt)" by (rule names_ok_cong[OF nm tab])
  then show "fs_inv content dev_ok c t" using lt by (simp add: fs_inv_def mt_def)
  have n0: "names_ok c (fmeta c m)" using inv m by (simp add: fs_inv_def)
  have "files_of content c (dev t) (bmeta mt) (fmeta c mt)
      = (files_of content c (dev s) (bmeta m) (fmeta c m))(fid f' \<mapsto> file_view content (dev t) (bmeta mt) (fmeta c mt new))"
    by (rule files_of_upd[OF n0 nt new(1)]) (use tab dat new old in \<open>auto simp: file_view_def\<close>)
  then show "fs_files content c t = (fs_files content c s)(fid f' \<mapsto> \<lparr>file_max = max_size f', file_flags = flags f', file_data = d\<rparr>)"
    using tab[OF new(1)] d by (simp add: fs_files_def Let_def m mt_def file_view_def)
qed


subsection \<open>The three cases\<close>

lemma ready_reuse:
  assumes st: "staged m s" and i: "i < max_num_files c" "fid_valid (fid (fmeta c m i))"
    and f: "lblock f = lblock (fmeta c m i)" "data_idx f = data_idx (fmeta c m i)" "max_size f = max_size (fmeta c m i)"
      "fid f = fid (fmeta c m i)" "cur_size f \<le> cur_size (fmeta c m i)"
  shows "write_ready m s i i f (bmeta m (lblock f)) (fmeta c m)"
proof -
  have w: "working m s" using st by (simp add: staged_def)
  note wd = workingD[OF w] and lay = staged_layout[OF st]
  note fl = file_in_layout[OF lay i]
  have bl: "data_start (bmeta m (lblock f)) = lb_start c (lblock f)" "lb_start c (lblock f) + free_size (bmeta m (lblock f)) \<le> B"
    using lay fl(1) f(1) by (auto simp: layout_ok_def blocks_ok_def)
  have ty: "file_meta_typed f"
    using fmeta_typed[OF wd(1,7) i(1)] f by (auto simp: file_meta_typed_def)
  have lay': "layout_ok c act sd bm ((fmeta c m)(i := f\<lparr>cur_size := cs\<rparr>))"
    if "blocks_ok c act sd bm" "\<forall>k < n_lblocks c. free_size (bm k) = free_size (if k = lblock f then bmeta m (lblock f) else bmeta m k)"
      "cs \<le> max_size f" for act sd bm cs
    by (rule layout_reuse[OF lay that(1) i(1) _ i(2)]) (use that(2,3) f in auto)
  have oth: "lblock (fmeta c m k) < n_lblocks c
      \<and> data_idx (fmeta c m k) + cur_size (fmeta c m k) \<le> lb_end c (bmeta m) (lblock (fmeta c m k))"
    if "k < max_num_files c" "fid_valid (fid (fmeta c m k))" for k
    using file_in_layout[OF lay that] by (simp add: file_end_def)
  show ?thesis
    unfolding write_ready_def
    using st i ty bmeta_typed[of m "lblock f"] bl fl f lay' oth by (auto simp: file_end_def lb_end_def)
qed

lemma ready_new:
  assumes st: "staged m s" and new: "new < max_num_files c" "\<not> fid_valid (fid (fmeta c m new))"
    and old: "old = ITS_METADATA_INVALID_INDEX \<or> old < max_num_files c \<and> fid_valid (fid (fmeta c m old))
      \<and> fmeta c (scr s) old = (fmeta c m old)\<lparr>flags := x\<rparr>"
    and l: "l < n_lblocks c" "sz \<le> free_size (bmeta m l)" "sz \<le> max_file_size c"
    and f: "fid_valid f" "length f = ITS_FILE_ID_SIZE"
  shows "write_ready m s old new
     \<lparr>lblock = l, data_idx = lb_end c (bmeta m) l, cur_size = 0, max_size = sz, flags = fl, fid = f\<rparr>
     ((bmeta m l)\<lparr>free_size := free_size (bmeta m l) - sz\<rparr>)
     (\<lambda>k. if k = old then fmeta c (scr s) k else fmeta c m k)"
    (is "write_ready m s old new ?f ?b ?fm")
proof -
  have w: "working m s" using st by (simp add: staged_def)
  note wd = workingD[OF w] and lay = staged_layout[OF st] and bd = cfg_ok_bounds[OF workingD(1)[OF w]]
  let ?sd = "scratch_dblock (meta_block_header s)"
  have bo: "blocks_ok c (active_metablock s) ?sd (bmeta m)" using lay by (simp add: layout_ok_def)
  have bl: "data_start (bmeta m l) = lb_start c l" "lb_start c l + free_size (bmeta m l) \<le> B"
    using bo l(1) by (auto simp: blocks_ok_def)
  have lay1: "layout_ok c (active_metablock s) ?sd (bmeta m) ?fm"
  proof (cases "old = ITS_METADATA_INVALID_INDEX")
    case True
    have "k \<noteq> old" if "k < max_num_files c" for k using True that bd(8) by (simp add: its_consts(3))
    then show ?thesis by (intro layout_ok_cong[OF wd(1) _ _ lay]) auto
  next
    case False
    then have o: "old < max_num_files c" "fid_valid (fid (fmeta c m old))" "fmeta c (scr s) old = (fmeta c m old)\<lparr>flags := x\<rparr>"
      using old by auto
    have "layout_ok c (active_metablock s) ?sd (bmeta m) ((fmeta c m)(old := (fmeta c m old)\<lparr>flags := x\<rparr>))"
      using file_in_layout(2)[OF lay o(1,2)] by (intro layout_reuse[OF lay bo o(1) _ o(2)]) auto
    then show ?thesis by (rule layout_ok_cong[OF wd(1), rotated 2]) (auto simp: o(3))
  qed
  have nv: "\<not> fid_valid (fid (?fm new))" using new old bd(8) by (auto simp: its_consts(3))
  have ty: "file_meta_typed ?f" "block_meta_typed ?b"
    using l f bd bmeta_typed[of m l] by (auto simp: file_meta_typed_def block_meta_typed_def lb_end_def its_consts)
  have lay': "layout_ok c act sd bm (?fm(new := ?f\<lparr>cur_size := cs\<rparr>))"
    if "blocks_ok c act sd bm" "\<forall>k < n_lblocks c. free_size (bm k) = free_size (if k = l then ?b else bmeta m k)"
      "cs \<le> sz" for act sd bm cs
    by (rule layout_new[OF lay1 that(1) new(1) nv]) (use that(2,3) l f in auto)
  have oth: "lblock (?fm k) < n_lblocks c \<and> data_idx (?fm k) + cur_size (?fm k) \<le> lb_end c (bmeta m) (lblock (?fm k))"
    if "k < max_num_files c" "fid_valid (fid (?fm k))" for k
    using file_in_layout[OF lay1 that] by (simp add: file_end_def)
  have o2: "old = ITS_METADATA_INVALID_INDEX \<or> old < max_num_files c" using old by auto
  have geo: "lb_start c l \<le> lb_end c (bmeta m) l" "lb_start c l + (free_size (bmeta m l) - sz) \<le> B"
    "lb_end c (bmeta m) l + sz \<le> B - (free_size (bmeta m l) - sz)"
    using bl(2) l(2) unfolding lb_end_def by linarith+
  show ?thesis
    unfolding write_ready_def
    using st new ty bl(1) geo l f lay' oth o2 by (simp add: file_end_def)
qed


lemma write_body_cases:
  assumes rdy: "write_ready m s old new f b fm1" and al: "max_alignment c = 1" and len: "sz \<le> length data"
  defines "D \<equiv> data_of content (dev s) (bmeta m) f"
  shows "if sz \<noteq> 0 \<and> \<not> (off \<le> cur_size f \<and> off + sz \<le> max_size f)
    then write_body old new sz off data f b s = (Inl PSA_ERROR_GENERIC_ERROR, s)
    else \<exists>t tl. length tl = cur_size f - (off + sz) \<and> write_body old new sz off data f b s = (Inr (), t)
           \<and> written m s new (f\<lparr>cur_size := (if sz = 0 then cur_size f else max (cur_size f) (off + sz))\<rparr>) fm1
               (if sz = 0 then D else take off D @ take sz data @ tl) t"
proof (cases "sz = 0")
  case True
  have "\<exists>tl. length (tl :: byte list) = k" for k by (rule exI[of _ "replicate k 0"]) simp
  then show ?thesis using True write_body_zero[OF rdy, of off data] by (auto simp: D_def)
next
  case False
  have ms: "max_size f < SIZE_MAX_P1" using rdy by (simp add: write_ready_def file_meta_typed_def)
  show ?thesis
  proof (cases "off \<le> cur_size f \<and> off + sz \<le> max_size f")
    case True
    then show ?thesis using False write_body_data[OF rdy al _ _ len] by (simp add: D_def)
  next
    case bad: False
    then have "file_write_data c f b sz off data s = (Inl PSA_ERROR_GENERIC_ERROR, s)"
      using file_write_data_bad[OF al _ ms] False by simp
    then show ?thesis using False bad by (simp add: write_body_def io_simps)
  qed
qed

lemma put_scr_same:
  assumes inv: "fs_layout_inv content dev_ok c s" and X: "length X = B" and hd: "rd X 0 8 = rd (scr s) 0 8"
  shows "active_meta content (put_scr s X) = active_meta content s"
    and "fs_layout_inv content dev_ok c (put_scr s X)" "fs_files content c (put_scr s X) = fs_files content c s"
    and "\<And>i. i < max_num_files c \<Longrightarrow> fid_valid (fid (fmeta c (active_meta content s) i)) \<Longrightarrow>
      data_of content (dev (put_scr s X)) (bmeta (active_meta content s)) (fmeta c (active_meta content s) i)
      = data_of content (dev s) (bmeta (active_meta content s)) (fmeta c (active_meta content s) i)"
proof -
  define m where "m = active_meta content s"
  have st: "staged m s" using staged_inv[OF inv] by (simp add: m_def)
  have w: "working m s" using st by (simp add: staged_def)
  note wd = workingD[OF w] and lay = staged_layout[OF st]
  show a: "active_meta content (put_scr s X) = active_meta content s"
    using w X wd(3,5) by (simp add: active_meta_def content_put_scr)
  have "dev_ok (dev (put_scr s X))" using working_put_scr[OF w X] workingD(2) by blast
  moreover have "rd (content (dev (put_scr s X)) (scratch_metablock s)) 0 8 = rd (content (dev s) (scratch_metablock s)) 0 8"
    using hd content_put_scr[OF w X wd(4)] by (simp add: scr_def)
  ultimately show "fs_layout_inv content dev_ok c (put_scr s X)"
    using inv unfolding fs_layout_inv_def Let_def a put_scr_fields by metis
  have d: "data_of content (dev (put_scr s X)) (bmeta m) (fmeta c m i) = data_of content (dev s) (bmeta m) (fmeta c m i)"
    if "i < max_num_files c" "fid_valid (fid (fmeta c m i))" for i
  proof -
    note fl = file_in_layout[OF lay that]
    have "phy_id (bmeta m (lblock (fmeta c m i))) \<noteq> scratch_metablock s"
      using lay fl(1) wd(5,9) by (cases "lblock (fmeta c m i) = 0") (auto simp: layout_ok_def blocks_ok_def)
    then show ?thesis using staged_target(4)[OF st fl(1)] w X by (simp add: data_of_def content_put_scr)
  qed
  then show "\<And>i. i < max_num_files c \<Longrightarrow> fid_valid (fid (fmeta c (active_meta content s) i)) \<Longrightarrow>
      data_of content (dev (put_scr s X)) (bmeta (active_meta content s)) (fmeta c (active_meta content s) i)
      = data_of content (dev s) (bmeta (active_meta content s)) (fmeta c (active_meta content s) i)"
    by (simp add: m_def)
  show "fs_files content c (put_scr s X) = fs_files content c s"
    unfolding fs_files_def Let_def a m_def[symmetric]
    by (rule files_of_cong) (use d file_in_layout(1)[OF lay] in auto)
qed

text \<open>A replacement: commit with both entries, then delete the old one.\<close>

lemma replaced_files:
  assumes inv: "fs_inv content dev_ok c s" and m: "m = active_meta content s"
    and old: "old < max_num_files c" "fid (fmeta c m old) = f" "fid_valid f" "length f = ITS_FILE_ID_SIZE"
    and new: "new < max_num_files c" "new \<noteq> old" "\<not> fid_valid (fid (fmeta c m new))" "fid f' = f"
      "flags f' AND ITS_FLASH_FS_FLAG_DELETE = 0"
    and fm1: "\<And>k. fm1 k = (if k = old then (fmeta c m old)\<lparr>flags := x\<rparr> else fmeta c m k)"
    and wr: "written m u new f' fm1 d t"
    and u: "\<And>k. k < max_num_files c \<Longrightarrow> fid_valid (fid (fmeta c m k)) \<Longrightarrow>
      data_of content (dev u) (bmeta m) (fmeta c m k) = data_of content (dev s) (bmeta m) (fmeta c m k)"
  shows "\<exists>t'. its_flash_fs_delete_idx c old t = (Inr (), t') \<and> fs_inv content dev_ok c t'
    \<and> fs_files content c t' = (fs_files content c s)(f \<mapsto> \<lparr>file_max = max_size f', file_flags = flags f', file_data = d\<rparr>)"
proof -
  have n0: "names_ok c (fmeta c m)" using inv m by (simp add: fs_inv_def)
  define mt where "mt = active_meta content t"
  have tab: "\<And>k. k < max_num_files c \<Longrightarrow> fmeta c mt k = (fm1(new := f')) k"
    and dat: "\<And>k. k < max_num_files c \<Longrightarrow> k \<noteq> new \<Longrightarrow> fid_valid (fid (fm1 k)) \<Longrightarrow>
        data_of content (dev t) (bmeta mt) (fm1 k) = data_of content (dev u) (bmeta m) (fm1 k)"
    and d: "data_of content (dev t) (bmeta mt) f' = d" and lt: "fs_layout_inv content dev_ok c t"
    using wr by (simp_all add: written_def mt_def)
  have st: "staged mt t" using staged_inv[OF lt] by (simp add: mt_def)
  have vo: "fid_valid (fid (fmeta c mt old))" using tab[OF old(1)] old new(2) by (simp add: fm1)
  obtain t' where t': "its_flash_fs_delete_idx c old t = (Inr (), t')" "deleted mt t old t'"
    using delete_idx_ok[OF st old(1) vo] by blast
  define mt' where "mt' = active_meta content t'"
  have tab': "\<And>k. k < max_num_files c \<Longrightarrow> fmeta c mt' k = deleted_fm (fmeta c mt) old k"
    and dat': "\<And>k. k < max_num_files c \<Longrightarrow> k \<noteq> old \<Longrightarrow> fid_valid (fid (fmeta c mt k)) \<Longrightarrow>
        data_of content (dev t') (bmeta mt') (deleted_fm (fmeta c mt) old k) = data_of content (dev t) (bmeta mt) (fmeta c mt k)"
    and lt': "fs_layout_inv content dev_ok c t'"
    using t'(2) by (simp_all add: deleted_def mt'_def)
  have oth: "fmeta c mt k = fmeta c m k" if "k < max_num_files c" "k \<noteq> old" "k \<noteq> new" for k
    using tab[OF that(1)] that by (simp add: fm1)
  have nw: "fmeta c mt new = f'" using tab[OF new(1)] by simp
  have uniq: "fid (fmeta c m k) \<noteq> f" if "k < max_num_files c" "k \<noteq> old" for k
    using n0 old that by (auto simp: names_ok_def)
  have nt: "names_ok c (fmeta c mt')"
  proof (rule names_ok_cong[OF names_ok_deleted tab'])
    show "flags (fmeta c mt j) AND ITS_FLASH_FS_FLAG_DELETE = 0" if "j < max_num_files c" "j \<noteq> old" for j
      using that n0 nw oth new(5) by (cases "j = new") (auto simp: names_ok_def)
    show "j = k" if "j < max_num_files c" "k < max_num_files c" "j \<noteq> old" "k \<noteq> old"
      "fid_valid (fid (fmeta c mt j))" "fid (fmeta c mt j) = fid (fmeta c mt k)" for j k
      using that n0 nw oth uniq new(4) by (cases "j = new"; cases "k = new") (auto simp: names_ok_def)
  qed
  have "files_of content c (dev t') (bmeta mt') (fmeta c mt')
      = (files_of content c (dev s) (bmeta m) (fmeta c m))(f \<mapsto> file_view content (dev t') (bmeta mt') (fmeta c mt' new))"
  proof (rule files_of_upd[OF n0 nt new(1) _ old(3,4)])
    show "fid (fmeta c mt' new) = f" using tab'[OF new(1)] new(2,4) nw by (simp add: deleted_fm_def)
    show "fid (fmeta c m new) = f \<or> \<not> fid_valid (fid (fmeta c m new))" using new(3) by simp
    fix j assume j: "j < max_num_files c" "j \<noteq> new"
    show "fid (fmeta c mt' j) = fid (fmeta c m j)
        \<and> (fid_valid (fid (fmeta c m j)) \<longrightarrow>
           file_view content (dev t') (bmeta mt') (fmeta c mt' j) = file_view content (dev s) (bmeta m) (fmeta c m j))
      \<or> fid (fmeta c m j) = f \<and> \<not> fid_valid (fid (fmeta c mt' j))"
    proof (cases "j = old")
      case True
      then show ?thesis using tab'[OF j(1)] old(2) by (simp add: deleted_fm_def)
    next
      case False
      have e: "fmeta c mt j = fmeta c m j" "fm1 j = fmeta c m j" using oth j False by (simp_all add: fm1)
      have "data_of content (dev t') (bmeta mt') (fmeta c mt' j) = data_of content (dev s) (bmeta m) (fmeta c m j)"
        if v: "fid_valid (fid (fmeta c m j))"
        using dat'[OF j(1) False] dat[OF j] u[OF j(1) v] tab'[OF j(1)] e v by simp
      then show ?thesis using tab'[OF j(1)] False e by (simp add: deleted_fm_def file_view_def)
    qed
  qed
  moreover have "file_view content (dev t') (bmeta mt') (fmeta c mt' new)
      = \<lparr>file_max = max_size f', file_flags = flags f', file_data = d\<rparr>"
    using dat'[OF new(1,2)] tab'[OF new(1)] nw d new(2,4) old(3) by (simp add: file_view_def deleted_fm_def)
  ultimately show ?thesis
    using t'(1) lt' nt by (auto simp: fs_inv_def fs_files_def Let_def mt'_def m)
qed


definition write_outcome :: "('d its_flash_fs_ctx_t \<Rightarrow> (psa_error + its_flash_fs_file_info_t) \<times> 'd its_flash_fs_ctx_t)
    \<Rightarrow> 'd its_flash_fs_ctx_t \<Rightarrow> byte list \<Rightarrow> its_flash_fs_file_info_t \<Rightarrow> psa_error option \<Rightarrow> its_file \<Rightarrow> bool" where
  "write_outcome op s f finfo status v \<longleftrightarrow>
     (\<exists>t. op s = ((case status of Some e \<Rightarrow> Inl e | None \<Rightarrow> Inr finfo), t) \<and> fs_inv content dev_ok c t
        \<and> fs_files content c t =
            (case status of Some e \<Rightarrow> fs_files content c s | None \<Rightarrow> (fs_files content c s)(f \<mapsto> v)))"

lemma write_reuse:
  assumes inv: "fs_inv content dev_ok c s" and al: "max_alignment c = 1" and m: "m = active_meta content s"
    and len: "sz \<le> length data" and fl: "info_flags finfo AND ITS_FLASH_FS_INTERNAL_FLAGS_MASK = 0"
    and i: "file_index c (fmeta c m) f = Some i" "fid_valid f" "length f = ITS_FILE_ID_SIZE"
    and ne: "\<not> needs_entry finfo (fs_files content c s f)"
  defines "v \<equiv> write_base finfo (fs_files content c s f)"
  shows "\<exists>tl. length tl = length (file_data v) - (off + sz) \<and>
    write_outcome (its_flash_fs_file_write c f (Some finfo) sz off data) s f finfo
    (if sz \<noteq> 0 \<and> \<not> (off \<le> length (file_data v) \<and> off + sz \<le> file_max v)
     then Some PSA_ERROR_GENERIC_ERROR else None) (write_over sz off data tl v)"
proof -
  have li: "fs_layout_inv content dev_ok c s" and nm: "names_ok c (fmeta c m)" using inv m by (simp_all add: fs_inv_def)
  have st: "staged m s" using staged_inv[OF li] m by simp
  have w: "working m s" using st by (simp add: staged_def)
  note wd = workingD[OF w]
  let ?g = "fmeta c m i"
  have ii: "i < max_num_files c" "fid ?g = f" "fid_valid (fid ?g)" using file_index_Some[OF i(1)] i(2) by auto
  have i_ne: "i \<noteq> ITS_METADATA_INVALID_INDEX" using ii(1) cfg_ok_bounds(8)[OF wd(1)] by (simp add: its_consts(3))
  have look: "fs_files content c s f = Some (file_view content (dev s) (bmeta m) ?g)"
    using lookup[OF i(2,3) m] i(1) by simp
  let ?tr = "info_flags finfo AND ITS_FLASH_FS_FLAG_TRUNCATE \<noteq> 0"
  define f1 where "f1 = (if ?tr then ?g\<lparr>cur_size := 0, flags := info_flags finfo\<rparr> else ?g)"
  have mx: "max_size ?g = size_max finfo" if ?tr
    using ne look that by (simp add: needs_entry_def file_view_def)
  have lk: "file_write_lookup c f finfo s = (Inr (i, i, f1), s)"
    using get_file_idx_meta_ok[OF w, of f] i(1) mx
    by (simp add: file_write_lookup_def io_simps f1_def)
  have l: "lblock f1 < n_lblocks c" using file_in_layout(1)[OF staged_layout[OF st] ii(1,3)] by (simp add: f1_def)
  have rs: "file_write_reserve c f finfo i i f1 s = (Inr (i, f1, bmeta m (lblock f1)), s)"
    using read_block_metadata_ok[OF w l] i_ne by (simp add: file_write_reserve_def io_simps)
  have rdy: "write_ready m s i i f1 (bmeta m (lblock f1)) (fmeta c m)"
    by (rule ready_reuse[OF st ii(1,3)]) (simp_all add: f1_def)
  define D where "D = data_of content (dev s) (bmeta m) f1"
  have D: "file_data v = D" "length D = cur_size f1" "file_max v = max_size f1" "file_flags v = flags f1"
    using length_data_of[OF st ii(1,3)] look mx
    by (auto simp: v_def write_base_def Let_def file_view_def f1_def D_def data_of_def)
  have run: "its_flash_fs_file_write c f (Some finfo) sz off data s
      = bind_io (write_body i i sz off data f1 (bmeta m (lblock f1))) (\<lambda>_. return_io finfo) s"
    using write_unfold[OF lk rs al fl] by (simp add: bind_io_return)
  note wb = write_body_cases[OF rdy al len, of off]
  show ?thesis
  proof (cases "sz \<noteq> 0 \<and> \<not> (off \<le> cur_size f1 \<and> off + sz \<le> max_size f1)")
    case True
    then have "its_flash_fs_file_write c f (Some finfo) sz off data s = (Inl PSA_ERROR_GENERIC_ERROR, s)"
      using wb run by (simp add: io_simps)
    then show ?thesis using True D inv
      by (intro exI[of _ "replicate (length D - (off + sz)) 0"]) (simp add: write_outcome_def)
  next
    case False
    define f' where "f' = f1\<lparr>cur_size := (if sz = 0 then cur_size f1 else max (cur_size f1) (off + sz))\<rparr>"
    obtain t tl where t: "write_body i i sz off data f1 (bmeta m (lblock f1)) s = (Inr (), t)"
      "written m s i f' (fmeta c m) (if sz = 0 then D else take off D @ take sz data @ tl) t"
      and tl: "length tl = cur_size f1 - (off + sz)"
      using wb False unfolding f'_def D_def by auto
    define d where "d = (if sz = 0 then D else take off D @ take sz data @ tl)"
    have f': "fid f' = f" "flags f' AND ITS_FLASH_FS_FLAG_DELETE = 0"
      using ii nm user_flags_no_delete[OF fl] by (auto simp: f'_def f1_def names_ok_def)
    have nm': "names_ok c ((fmeta c m)(i := f'))"
      by (rule names_ok_upd[OF nm f'(2)]) (use nm ii f'(1) in \<open>auto simp: names_ok_def\<close>)
    have nf: "\<lparr>file_max = max_size f', file_flags = flags f', file_data = d\<rparr> = write_over sz off data tl v"
      using D by (simp add: write_over_def f'_def d_def)
    have wf: "fs_inv content dev_ok c t" "fs_files content c t = (fs_files content c s)(f \<mapsto> write_over sz off data tl v)"
      using written_files[OF t(2)[folded d_def] m inv ii(1) _ _ nm'] f'(1) i(2,3) ii(2) nf by simp_all
    then show ?thesis using t(1) run False D tl by (intro exI[of _ tl]) (auto simp: write_outcome_def io_simps)
  qed
qed

lemma find_room:
  "find (\<lambda>l. n \<le> free_size (bm l)) [0..<N] = None \<longleftrightarrow> \<not> (\<exists>l < N. n \<le> free_size (bm l))"
  "find (\<lambda>l. n \<le> free_size (bm l)) [0..<N] = Some l \<Longrightarrow> l < N \<and> n \<le> free_size (bm l)"
  by (auto simp: find_None_iff find_Some_iff)

lemma write_new:
  assumes inv: "fs_inv content dev_ok c s" and al: "max_alignment c = 1" and m: "m = active_meta content s"
    and len: "sz \<le> length data" and fl: "info_flags finfo AND ITS_FLASH_FS_INTERNAL_FLAGS_MASK = 0"
    and i: "file_index c (fmeta c m) f = None" "fid_valid f" "length f = ITS_FILE_ID_SIZE"
    and cr: "info_flags finfo AND ITS_FLASH_FS_FLAG_CREATE \<noteq> 0"
  defines "v \<equiv> write_base finfo None"
  shows "write_outcome (its_flash_fs_file_write c f (Some finfo) sz off data) s f finfo
    (if size_max finfo > max_file_size c then Some PSA_ERROR_INVALID_ARGUMENT
     else if \<not> has_room content c s (size_max finfo) False then Some PSA_ERROR_INSUFFICIENT_STORAGE
     else if sz \<noteq> 0 \<and> \<not> (off \<le> length (file_data v) \<and> off + sz \<le> file_max v)
     then Some PSA_ERROR_GENERIC_ERROR else None) (write_at sz off data v)"
proof -
  have li: "fs_layout_inv content dev_ok c s" and nm: "names_ok c (fmeta c m)" using inv m by (simp_all add: fs_inv_def)
  have st: "staged m s" using staged_inv[OF li] m by simp
  have w: "working m s" using st by (simp add: staged_def)
  note wd = workingD[OF w]
  have lk: "file_write_lookup c f finfo s = (Inr (ITS_METADATA_INVALID_INDEX, ITS_METADATA_INVALID_INDEX, zero_file_meta), s)"
    using get_file_idx_meta_ok[OF w, of f] i(1) cr by (simp add: file_write_lookup_def io_simps)
  have v: "file_data v = []" "file_max v = size_max finfo" "file_flags v = info_flags finfo"
    by (simp_all add: v_def write_base_def)
  let ?fi = "find (\<lambda>l. size_max finfo \<le> free_size (bmeta m l)) [0..<n_lblocks c]"
  let ?ix = "free_index (fmeta c m) [0..<max_num_files c] False"
  have room: "has_room content c s (size_max finfo) False \<longleftrightarrow> ?fi \<noteq> None \<and> ?ix \<noteq> ITS_METADATA_INVALID_INDEX"
    using m by (simp add: has_room_def Let_def find_room)
  show ?thesis
  proof (cases "size_max finfo > max_file_size c \<or> \<not> has_room content c s (size_max finfo) False")
    case True
    then have "file_write_reserve c f finfo ITS_METADATA_INVALID_INDEX ITS_METADATA_INVALID_INDEX zero_file_meta s
        = (Inl (if size_max finfo > max_file_size c then PSA_ERROR_INVALID_ARGUMENT else PSA_ERROR_INSUFFICIENT_STORAGE), s)"
      using reserve_file_ok[OF w, of f False "size_max finfo" "info_flags finfo"] room
      by (auto simp: file_write_reserve_def io_simps split: option.splits)
    from write_reserve_fails[OF lk this al fl] True inv show ?thesis
      by (auto simp: write_outcome_def)
  next
    case False
    then obtain l where l: "?fi = Some l" and ix: "?ix \<noteq> ITS_METADATA_INVALID_INDEX" and sm: "size_max finfo \<le> max_file_size c"
      using room by auto
    note fr = find_room(2)[OF l]
    have nx: "?ix < max_num_files c" "\<not> fid_valid (fid (fmeta c m ?ix))"
      using free_index_found[OF ix] by auto
    define f1 where "f1 = \<lparr>lblock = l, data_idx = lb_end c (bmeta m) l, cur_size = 0, max_size = size_max finfo,
        flags = info_flags finfo, fid = f\<rparr>"
    define b1 where "b1 = (bmeta m l)\<lparr>free_size := free_size (bmeta m l) - size_max finfo\<rparr>"
    have rs: "file_write_reserve c f finfo ITS_METADATA_INVALID_INDEX ITS_METADATA_INVALID_INDEX zero_file_meta s
        = (Inr (?ix, f1, b1), s)"
      using reserve_file_ok[OF w, of f False "size_max finfo" "info_flags finfo"] l ix sm
      by (simp add: file_write_reserve_def f1_def b1_def)
    define fm1 where "fm1 = (\<lambda>k. if k = ITS_METADATA_INVALID_INDEX then fmeta c (scr s) k else fmeta c m k)"
    have rdy: "write_ready m s ITS_METADATA_INVALID_INDEX ?ix f1 b1 fm1"
      unfolding f1_def b1_def fm1_def using ready_new[OF st nx, of ITS_METADATA_INVALID_INDEX undefined l "size_max finfo" f "info_flags finfo"]
        fr sm i by simp
    have run: "its_flash_fs_file_write c f (Some finfo) sz off data s
        = bind_io (write_body ITS_METADATA_INVALID_INDEX ?ix sz off data f1 b1) (\<lambda>_. return_io finfo) s"
      using write_unfold[OF lk rs al fl] by (simp add: bind_io_return)
    have z: "cur_size f1 = 0" "max_size f1 = size_max finfo" "data_of content (dev s) (bmeta m) f1 = []"
      by (simp_all add: f1_def data_of_def)
    note wb = write_body_cases[OF rdy al len, of off, unfolded z]
    show ?thesis
    proof (cases "sz \<noteq> 0 \<and> \<not> (off \<le> 0 \<and> off + sz \<le> size_max finfo)")
      case bad: True
      then show ?thesis using wb run v inv False by (simp add: io_simps write_outcome_def)
    next
      case ok: False
      define f' where "f' = f1\<lparr>cur_size := (if sz = 0 then 0 else off + sz)\<rparr>"
      define d where "d = (if sz = 0 then [] else take off [] @ take sz data)"
      obtain t where t: "write_body ITS_METADATA_INVALID_INDEX ?ix sz off data f1 b1 s = (Inr (), t)"
        "written m s ?ix f' fm1 d t"
        using wb ok unfolding f'_def d_def by (cases "sz = 0") auto
      have ne: "k \<noteq> ITS_METADATA_INVALID_INDEX" if "k < max_num_files c" for k
        using that cfg_ok_bounds(8)[OF wd(1)] by (simp add: its_consts(3))
      have wr: "written m s ?ix f' (fmeta c m) d t"
        using t(2) ne unfolding written_def by (simp add: fm1_def)
      have f': "fid f' = f" "flags f' AND ITS_FLASH_FS_FLAG_DELETE = 0"
        using user_flags_no_delete[OF fl] by (simp_all add: f'_def f1_def)
      have nm': "names_ok c ((fmeta c m)(?ix := f'))"
        by (rule names_ok_upd[OF nm f'(2)]) (use i(1) f'(1) in \<open>auto simp: file_index_None\<close>)
      have nf: "\<lparr>file_max = max_size f', file_flags = flags f', file_data = d\<rparr> = write_at sz off data v"
        using v by (simp add: write_at_def f'_def d_def f1_def)
      have "fs_inv content dev_ok c t" "fs_files content c t = (fs_files content c s)(f \<mapsto> write_at sz off data v)"
        using written_files[OF wr m inv nx(1) _ _ nm'] f'(1) i(2,3) nx(2) nf by simp_all
      then show ?thesis using t(1) run ok v False sm by (auto simp: write_outcome_def io_simps)
    qed
  qed
qed


lemma write_replace:
  assumes inv: "fs_inv content dev_ok c s" and al: "max_alignment c = 1" and m: "m = active_meta content s"
    and len: "sz \<le> length data" and fl: "info_flags finfo AND ITS_FLASH_FS_INTERNAL_FLAGS_MASK = 0"
    and i: "file_index c (fmeta c m) f = Some i" "fid_valid f" "length f = ITS_FILE_ID_SIZE"
    and ne: "needs_entry finfo (fs_files content c s f)"
  defines "v \<equiv> write_base finfo (fs_files content c s f)"
  shows "write_outcome (its_flash_fs_file_write c f (Some finfo) sz off data) s f finfo
    (if size_max finfo > max_file_size c then Some PSA_ERROR_INVALID_ARGUMENT
     else if \<not> has_room content c s (size_max finfo) True then Some PSA_ERROR_INSUFFICIENT_STORAGE
     else if sz \<noteq> 0 \<and> \<not> (off \<le> length (file_data v) \<and> off + sz \<le> file_max v)
     then Some PSA_ERROR_GENERIC_ERROR else None) (write_at sz off data v)"
proof -
  have li: "fs_layout_inv content dev_ok c s" and nm: "names_ok c (fmeta c m)" using inv m by (simp_all add: fs_inv_def)
  have st: "staged m s" using staged_inv[OF li] m by simp
  have w: "working m s" using st by (simp add: staged_def)
  note wd = workingD[OF w]
  let ?g = "fmeta c m i"
  have ii: "i < max_num_files c" "fid ?g = f" "fid_valid (fid ?g)" using file_index_Some[OF i(1)] i(2) by auto
  have i_ne: "i \<noteq> ITS_METADATA_INVALID_INDEX" using ii(1) cfg_ok_bounds(8)[OF wd(1)] by (simp add: its_consts(3))
  have look: "fs_files content c s f = Some (file_view content (dev s) (bmeta m) ?g)"
    using lookup[OF i(2,3) m] i(1) by simp
  have tr: "info_flags finfo AND ITS_FLASH_FS_FLAG_TRUNCATE \<noteq> 0" "max_size ?g \<noteq> size_max finfo"
    using ne look by (simp_all add: needs_entry_def file_view_def)
  have v: "file_data v = []" "file_max v = size_max finfo" "file_flags v = info_flags finfo"
    using tr look by (simp_all add: v_def write_base_def file_view_def)
  define mk where "mk = ?g\<lparr>flags := flags ?g OR ITS_FLASH_FS_FLAG_DELETE\<rparr>"
  define X where "X = wr (scr s) (fm_pos c i) (file_meta_bytes mk)"
  have ty: "file_meta_typed mk" using fmeta_typed[OF wd(1,7) ii(1)] by (simp add: mk_def file_meta_typed_def)
  have lX: "length X = B"
    using ty fm_pos_le[OF ii(1)] cfg_ok_bounds(3)[OF wd(1)] w by (simp add: X_def file_meta_typed_def its_consts)
  define u where "u = put_scr s X"
  have lk: "file_write_lookup c f finfo s = (Inr (i, ITS_METADATA_INVALID_INDEX, mk), u)"
    using get_file_idx_meta_ok[OF w, of f] i(1) tr update_scratch_file_meta_ok[OF w ii(1) ty]
    by (simp add: file_write_lookup_def io_simps mk_def u_def X_def Let_def)
  have hX: "rd X 0 8 = rd (scr s) 0 8" unfolding X_def
    using lX fm_pos_le[OF ii(1)] cfg_ok_bounds(3)[OF wd(1)] w ty
    by (intro rd_wr_disj) (auto simp: fm_pos_def file_meta_typed_def its_consts)
  note ps = put_scr_same[OF li lX hX, folded m u_def]
  have stu: "staged m u" using staged_inv[OF ps(2)] ps(1) by simp
  have wu: "working m u" using stu by (simp add: staged_def)
  have uinv: "fs_inv content dev_ok c u" using ps(1,2) nm by (simp add: fs_inv_def)
  have su: "fmeta c (scr u) i = mk"
    using fmeta_wr_fm[OF wd(1) length_scr[OF w] ii(1) ii(1) ty] w lX by (simp add: u_def X_def)
  let ?fi = "find (\<lambda>l. size_max finfo \<le> free_size (bmeta m l)) [0..<n_lblocks c]"
  let ?ix = "free_index (fmeta c m) [0..<max_num_files c] True"
  have room: "has_room content c s (size_max finfo) True \<longleftrightarrow> ?fi \<noteq> None \<and> ?ix \<noteq> ITS_METADATA_INVALID_INDEX"
    using m by (simp add: has_room_def Let_def find_room)
  show ?thesis
  proof (cases "size_max finfo > max_file_size c \<or> \<not> has_room content c s (size_max finfo) True")
    case True
    then have "file_write_reserve c f finfo i ITS_METADATA_INVALID_INDEX mk u
        = (Inl (if size_max finfo > max_file_size c then PSA_ERROR_INVALID_ARGUMENT else PSA_ERROR_INSUFFICIENT_STORAGE), u)"
      using reserve_file_ok[OF wu, of f True "size_max finfo" "info_flags finfo"] room i_ne
      by (auto simp: file_write_reserve_def io_simps split: option.splits)
    from write_reserve_fails[OF lk this al fl] True uinv ps(3) show ?thesis
      by (auto simp: write_outcome_def)
  next
    case False
    then obtain l where l: "?fi = Some l" and ix: "?ix \<noteq> ITS_METADATA_INVALID_INDEX" and sm: "size_max finfo \<le> max_file_size c"
      using room by auto
    note fr = find_room(2)[OF l]
    have nx: "?ix < max_num_files c" "\<not> fid_valid (fid (fmeta c m ?ix))"
      using free_index_found[OF ix] by auto
    have nxi: "?ix \<noteq> i" using nx(2) ii(3) by auto
    define f1 where "f1 = \<lparr>lblock = l, data_idx = lb_end c (bmeta m) l, cur_size = 0, max_size = size_max finfo,
        flags = info_flags finfo, fid = f\<rparr>"
    define b1 where "b1 = (bmeta m l)\<lparr>free_size := free_size (bmeta m l) - size_max finfo\<rparr>"
    have rs: "file_write_reserve c f finfo i ITS_METADATA_INVALID_INDEX mk u = (Inr (?ix, f1, b1), u)"
      using reserve_file_ok[OF wu, of f True "size_max finfo" "info_flags finfo"] l ix sm i_ne
      by (simp add: file_write_reserve_def f1_def b1_def)
    define fm1 where "fm1 = (\<lambda>k. if k = i then fmeta c (scr u) k else fmeta c m k)"
    have rdy: "write_ready m u i ?ix f1 b1 fm1"
      unfolding f1_def b1_def fm1_def
      by (rule ready_new[OF stu nx, of i "flags ?g OR ITS_FLASH_FS_FLAG_DELETE"]) (use ii su fr sm i in \<open>simp_all add: mk_def\<close>)
    have run: "its_flash_fs_file_write c f (Some finfo) sz off data s
        = bind_io (write_body i ?ix sz off data f1 b1) (\<lambda>_.
            bind_io (its_flash_fs_delete_idx c i) (\<lambda>_. return_io finfo)) u"
      using write_unfold[OF lk rs al fl] i_ne nxi by simp
    have z: "cur_size f1 = 0" "max_size f1 = size_max finfo" "data_of content (dev u) (bmeta m) f1 = []"
      by (simp_all add: f1_def data_of_def)
    note wb = write_body_cases[OF rdy al len, of off, unfolded z]
    show ?thesis
    proof (cases "sz \<noteq> 0 \<and> \<not> (off \<le> 0 \<and> off + sz \<le> size_max finfo)")
      case bad: True
      then show ?thesis using wb run v uinv ps(3) False by (simp add: io_simps write_outcome_def)
    next
      case ok: False
      define f' where "f' = f1\<lparr>cur_size := (if sz = 0 then 0 else off + sz)\<rparr>"
      define d where "d = (if sz = 0 then [] else take off [] @ take sz data)"
      obtain t where t: "write_body i ?ix sz off data f1 b1 u = (Inr (), t)" "written m u ?ix f' fm1 d t"
        using wb ok unfolding f'_def d_def by (cases "sz = 0") auto
      have f': "fid f' = f" "flags f' AND ITS_FLASH_FS_FLAG_DELETE = 0"
        using user_flags_no_delete[OF fl] by (simp_all add: f'_def f1_def)
      have fmk: "fm1 k = (if k = i then ?g\<lparr>flags := flags ?g OR ITS_FLASH_FS_FLAG_DELETE\<rparr> else fmeta c m k)" for k
        by (simp add: fm1_def su mk_def)
      obtain t' where t': "its_flash_fs_delete_idx c i t = (Inr (), t')" "fs_inv content dev_ok c t'"
        "fs_files content c t' = (fs_files content c s)(f \<mapsto> \<lparr>file_max = max_size f', file_flags = flags f', file_data = d\<rparr>)"
        using replaced_files[OF inv m ii(1,2) i(2,3) nx(1) nxi nx(2) f' fmk t(2) ps(4)] by blast
      have nf: "\<lparr>file_max = max_size f', file_flags = flags f', file_data = d\<rparr> = write_at sz off data v"
        using v by (simp add: write_at_def f'_def d_def f1_def)
      have "its_flash_fs_file_write c f (Some finfo) sz off data s = (Inr finfo, t')"
        using run t(1) t'(1) by (simp add: io_simps)
      then show ?thesis using t'(2,3) nf ok v False sm by (auto simp: write_outcome_def)
    qed
  qed
qed

theorem file_write_refines_over:
  fixes finfo
  assumes inv: "fs_inv content dev_ok c s" and al: "max_alignment c = 1"
    and f: "fid_valid f" "length f = ITS_FILE_ID_SIZE" and len: "sz \<le> length data"
  defines "w \<equiv> write_base finfo (fs_files content c s f)"
  shows "\<exists>tl. length tl = length (file_data w) - (off + sz) \<and>
    write_outcome (its_flash_fs_file_write c f (Some finfo) sz off data) s f finfo
      (write_status content c s f finfo sz off) (write_over sz off data tl w)"
proof (cases "info_flags finfo AND ITS_FLASH_FS_INTERNAL_FLAGS_MASK = 0")
  case False
  then show ?thesis using inv
    by (intro exI[of _ "replicate (length (file_data w) - (off + sz)) 0"])
      (simp add: write_outcome_def write_status_def Let_def its_flash_fs_file_write_def io_simps)
next
  case fl: True
  define m where "m = active_meta content s"
  have li: "fs_layout_inv content dev_ok c s" using inv by (simp add: fs_inv_def)
  have w: "working m s" using inv_working[OF li] by (simp add: m_def)
  show ?thesis
  proof (cases "file_index c (fmeta c m) f")
    case None
    then have old: "fs_files content c s f = None" using lookup[OF f m_def] by simp
    show ?thesis
    proof (cases "info_flags finfo AND ITS_FLASH_FS_FLAG_CREATE = 0")
      case True
      have "file_write_lookup c f finfo s = (Inl PSA_ERROR_DOES_NOT_EXIST, s)"
        using get_file_idx_meta_ok[OF w, of f] None True by (simp add: file_write_lookup_def io_simps)
      then show ?thesis using fl inv old True al
        by (intro exI[of _ "replicate (length (file_data w) - (off + sz)) 0"])
          (simp add: write_outcome_def write_status_def Let_def its_flash_fs_file_write_def io_simps)
    next
      case False
      have "write_status content c s f finfo sz off =
         (if size_max finfo > max_file_size c then Some PSA_ERROR_INVALID_ARGUMENT
          else if \<not> has_room content c s (size_max finfo) False then Some PSA_ERROR_INSUFFICIENT_STORAGE
          else if sz \<noteq> 0 \<and> \<not> (off \<le> length (file_data (write_base finfo None)) \<and> off + sz \<le> file_max (write_base finfo None))
          then Some PSA_ERROR_GENERIC_ERROR else None)"
        using fl old False by (simp add: write_status_def Let_def needs_entry_def)
      moreover have "file_data w = []" using old by (simp add: w_def write_base_def)
      ultimately show ?thesis unfolding w_def old using write_new[OF inv al m_def len fl None f False, of off]
        by (intro exI[of _ "[]"]) (simp add: write_over_Nil w_def old)
    qed
  next
    case (Some i)
    then have old: "fs_files content c s f \<noteq> None" using lookup[OF f m_def] by simp
    show ?thesis
    proof (cases "needs_entry finfo (fs_files content c s f)")
      case True
      let ?v = "write_base finfo (fs_files content c s f)"
      have "write_status content c s f finfo sz off =
         (if size_max finfo > max_file_size c then Some PSA_ERROR_INVALID_ARGUMENT
          else if \<not> has_room content c s (size_max finfo) True then Some PSA_ERROR_INSUFFICIENT_STORAGE
          else if sz \<noteq> 0 \<and> \<not> (off \<le> length (file_data ?v) \<and> off + sz \<le> file_max ?v)
          then Some PSA_ERROR_GENERIC_ERROR else None)"
        using fl old True by (auto simp: write_status_def Let_def)
      moreover have "file_data w = []" using True by (auto simp: w_def write_base_def needs_entry_def Let_def split: option.splits)
      ultimately show ?thesis using write_replace[OF inv al m_def len fl Some f True, of off]
        by (intro exI[of _ "[]"]) (simp add: write_over_Nil w_def)
    next
      case False
      let ?v = "write_base finfo (fs_files content c s f)"
      have "write_status content c s f finfo sz off =
         (if sz \<noteq> 0 \<and> \<not> (off \<le> length (file_data ?v) \<and> off + sz \<le> file_max ?v)
          then Some PSA_ERROR_GENERIC_ERROR else None)"
        using fl old False by (auto simp: write_status_def Let_def)
      then show ?thesis unfolding w_def using write_reuse[OF inv al m_def len fl Some f False] by (simp only:)
    qed
  qed
qed

text \<open>When the data reaches the end of the file, nothing is lost.\<close>

corollary file_write_refines:
  assumes "fs_inv content dev_ok c s" "max_alignment c = 1" "fid_valid f" "length f = ITS_FILE_ID_SIZE" "sz \<le> length data"
    and tail: "sz = 0 \<or> length (file_data (write_base finfo (fs_files content c s f))) \<le> off + sz"
  shows "write_outcome (its_flash_fs_file_write c f (Some finfo) sz off data) s f finfo
    (write_status content c s f finfo sz off) (write_at sz off data (write_base finfo (fs_files content c s f)))"
  using file_write_refines_over[OF assms(1-5), of finfo off] tail by (auto simp: write_over_Nil write_over_0)

end

end
