(* ===== verification/ITS_FS_Mount.thy ===== *)
theory ITS_FS_Mount
  imports ITS_FS_Refine
begin

text \<open>
  Initialisation: \<open>its_flash_fs_mblock_init\<close> picks the latest valid metadata block, so that
  \<open>its_flash_fs_prepare\<close> finds the files again after a reset of the device, and
  \<open>its_flash_fs_wipe_all\<close> yields an empty file system whatever the flash held before.
\<close>

section \<open>Valid headers\<close>

definition header_valid :: "'d its_flash_fs_config_t \<Rightarrow> byte list \<Rightarrow> bool" where
  "header_valid c m =
     (let h = mhdr m; ev = erase_val (flash_cfg c) in
      if fs_version h = ITS_BACKWARD_SUPPORTED_VERSION then metadata_xor h \<noteq> ev
      else fs_version h = ITS_SUPPORTED_VERSION \<and> active_swap_count h \<noteq> ev
           \<and> (validate_metadata c \<longrightarrow> metadata_xor h = meta_xor c m))"

lemma header_ok_valid: "header_ok c m \<Longrightarrow> header_valid c m"
  by (simp add: header_ok_def header_valid_def Let_def its_consts)

text \<open>An erased header is not valid, unless the erase value is one of the two version numbers.\<close>

lemma erased_header_invalid:
  assumes "rd m 0 8 = replicate 8 (erase_val (flash_cfg c))" "erase_val (flash_cfg c) \<notin> {1, 2}"
  shows "\<not> header_valid c m"
proof -
  have "fs_version (mhdr m) = erase_val (flash_cfg c)"
    using assms(1) by (simp add: mhdr_def header_of_bytes_def numeral_eq_Suc)
  then show ?thesis using assms(2) by (auto simp: header_valid_def Let_def its_consts)
qed

section \<open>The empty layout\<close>

text \<open>The block table of a wiped file system.\<close>

definition fresh_bm :: "'d its_flash_fs_config_t \<Rightarrow> nat \<Rightarrow> its_block_meta_t" where
  "fresh_bm c l =
     (if l = 0 then \<lparr>phy_id = 1, data_start = meta_end c, free_size = block_size (flash_cfg c) - meta_end c\<rparr>
      else \<lparr>phy_id = l + 2, data_start = 0, free_size = block_size (flash_cfg c)\<rparr>)"

lemma fresh_layout:
  assumes "cfg_ok c"
  shows "layout_ok c 1 (its_init_scratch_dblock c) (fresh_bm c) (\<lambda>_. zero_file_meta)"
proof -
  note b = cfg_ok_bounds[OF assms]
  have "blocks_ok c 1 (its_init_scratch_dblock c) (fresh_bm c)"
    using assms b
    by (auto simp: blocks_ok_def fresh_bm_def lb_start_def inj_on_def its_init_scratch_dblock_def n_lblocks_def
        cfg_ok_def)
  moreover have "tiled c (fresh_bm c) (\<lambda>_. zero_file_meta) l" if "l < n_lblocks c" for l
    using b(3) by (auto simp: tiled_def files_in_def lb_end_def lb_start_def fresh_bm_def)
  ultimately show ?thesis using b(1) by (auto simp: layout_ok_def file_ok_def)
qed

context flash_fs
begin

lemma validate_header_meta_ok:
  assumes "cfg_ok c" "dev_ok (dev s)" "blk < 2"
  shows "its_mblock_validate_header_meta c (mhdr (content (dev s) blk)) blk s = (r, s') \<Longrightarrow>
    s' = s \<and> (r = Inr () \<longleftrightarrow> header_valid c (content (dev s) blk))"
  using calculate_metadata_xor_ok[OF assms]
  by (auto simp: its_mblock_validate_header_meta_def its_mblock_validate_fs_version_def
      its_mblock_validate_swap_count_def its_mblock_validate_metadata_xor_def lift_status_def
      bind_io_def return_io_def raise_io_def header_valid_def Let_def comp_active_swap_count_def its_consts split: if_splits)

lemma meta_block_header_valid_ok:
  assumes "cfg_ok c" "dev_ok (dev s)" "blk < 2"
  shows "meta_block_header_valid c blk s
    = (Inr (if header_valid c (content (dev s) blk) then Some (mhdr (content (dev s) blk)) else None), s)"
proof -
  note b = cfg_ok_bounds[OF assms(1)]
  have "dev_read c blk 0 ITS_BLOCK_META_HEADER_SIZE s = (Inr (rd (content (dev s) blk) 0 8), s)"
    using assms b by (subst dev_read_ok) (simp_all add: its_consts)
  moreover obtain r s' where v: "its_mblock_validate_header_meta c (mhdr (content (dev s) blk)) blk s = (r, s')"
    by fastforce
  ultimately show ?thesis
    using validate_header_meta_ok[OF assms v]
    by (simp add: meta_block_header_valid_def io_simps mhdr_def)
qed

text \<open>The block that initialisation takes as the active one.\<close>

definition chosen :: "'d \<Rightarrow> nat option" where
  "chosen d =
     (let v = (\<lambda>b. header_valid c (content d b)) in
      if v 0 \<and> v 1 then Some (its_mblock_latest_meta_block c (mhdr (content d 0)) (mhdr (content d 1)))
      else if v 1 then Some 1 else if v 0 then Some 0 else None)"

lemma init_get_active_metablock_ok:
  assumes "cfg_ok c" "dev_ok (dev s)"
  shows "its_init_get_active_metablock c s =
    (case chosen (dev s) of
       None \<Rightarrow> (Inl PSA_ERROR_GENERIC_ERROR, s)
     | Some a \<Rightarrow> (Inr (), s\<lparr>active_metablock := a, scratch_metablock := 1 - a\<rparr>))"
proof -
  have a: "its_mblock_latest_meta_block c h h' \<in> {0, 1}" for h h'
    by (simp add: its_mblock_latest_meta_block_def Let_def its_consts)
  have o: "ITS_OTHER_META_BLOCK b = 1 - b" if "b \<in> {0, 1}" for b
    using that by (auto simp: ITS_OTHER_META_BLOCK_def its_consts)
  show ?thesis
    using meta_block_header_valid_ok[OF assms, of 0] meta_block_header_valid_ok[OF assms, of 1] o[OF a] o
    by (simp add: its_init_get_active_metablock_def io_simps chosen_def Let_def its_consts(5,6))
qed

lemma chosen_active:
  assumes "a < 2" "header_valid c (content d a)"
    and "\<not> header_valid c (content d (1 - a))
      \<or> erase_val (flash_cfg c) \<in> {0, 255} \<and> active_swap_count (mhdr (content d (1 - a))) \<noteq> erase_val (flash_cfg c)
        \<and> active_swap_count (mhdr (content d a)) = next_swap_count c (active_swap_count (mhdr (content d (1 - a))))"
  shows "chosen d = Some a"
proof -
  have "a = 0 \<or> a = 1" using assms(1) by auto
  moreover have "its_mblock_validate_swap_count c x = Inr ()" if "x \<noteq> erase_val (flash_cfg c)" for x
    using that by (simp add: its_mblock_validate_swap_count_def)
  ultimately show ?thesis
    using assms(2,3) latest_meta_block_succ[of c "mhdr (content d (1 - a))" "mhdr (content d a)"]
    by (auto simp: chosen_def Let_def its_consts)
qed

section \<open>Mounting\<close>

text \<open>
  A device that a file system in state \<open>s\<close> left behind: the active block and its scratch block,
  seen with a context that is not initialised.
\<close>

lemma mblock_init_ok:
  assumes cfg: "cfg_ok c" and ok: "dev_ok (dev s)" and a: "a < 2" and m: "m = content (dev s) a"
    and hd: "header_ok c m" and lay: "layout_ok c a (scratch_dblock (mhdr m)) (bmeta m) (fmeta c m)"
    and ch: "chosen (dev s) = Some a"
  shows "\<exists>t. its_flash_fs_mblock_init c s = (Inr (), t) \<and> fs_layout_inv content dev_ok c t
    \<and> active_meta content t = m
    \<and> fs_files content c t = files_of content c (dev s) (bmeta m) (fmeta c m)"
proof -
  note bd = cfg_ok_bounds[OF cfg]
  let ?sd = "scratch_dblock (mhdr m)"
  have sd: "2 \<le> ?sd" "?sd < NB" if "2 < NB" using lay that by (simp_all add: layout_ok_def blocks_ok_def)
  have na: "1 - a \<noteq> a" "1 - a < NB" "1 - a < 2" "a < NB" using a bd(4) by (presburger, auto)
  define s1 where "s1 = s\<lparr>active_metablock := a, scratch_metablock := 1 - a\<rparr>"
  define s2 where "s2 = s1\<lparr>meta_block_header := mhdr m\<rparr>"
  have i1: "its_init_get_active_metablock c s = (Inr (), s1)"
    using init_get_active_metablock_ok[OF cfg ok] ch by (simp add: s1_def)
  have "dev_read c a 0 ITS_BLOCK_META_HEADER_SIZE s1 = (Inr (rd m 0 8), s1)"
    using ok bd na m by (subst dev_read_ok) (simp_all add: its_consts s1_def)
  moreover obtain r s' where v: "its_mblock_validate_header_meta c (mhdr (content (dev s2) a)) a s2 = (r, s')"
    by fastforce
  ultimately have i2: "its_mblock_read_meta_header c s1 = (Inr (), s2)"
    using validate_header_meta_ok[OF cfg _ a v] header_ok_valid[OF hd] ok v m
    by (simp add: its_mblock_read_meta_header_def io_simps s1_def s2_def mhdr_def[symmetric])
  define d1 where "d1 = upd (dev s) (1 - a) erased"
  define d2 where "d2 = (if 2 < NB then upd d1 ?sd erased else d1)"
  have le: "length erased = B" by (simp add: erased_def)
  have d1: "dev_ok d1" "\<And>b. b < NB \<Longrightarrow> content d1 b = (if b = 1 - a then erased else content (dev s) b)"
    using ok na le by (simp_all add: d1_def dev_ok_upd content_upd)
  have d2: "dev_ok d2" "\<And>b. b < NB \<Longrightarrow> content d2 b =
      (if b = 1 - a \<or> 2 < NB \<and> b = ?sd then erased else content (dev s) b)"
    using d1 sd le by (auto simp: d2_def dev_ok_upd content_upd)
  have e1: "dev_erase c (1 - a) s2 = (Inr (), s2\<lparr>dev := d1\<rparr>)"
    using ok na by (subst dev_erase_ok) (simp_all add: s2_def s1_def d1_def erased_def)
  have e2: "dev_erase c ?sd (s2\<lparr>dev := d1\<rparr>) = (Inr (), s2\<lparr>dev := d2\<rparr>)" if "2 < NB"
    using d1(1) sd[OF that] that by (subst dev_erase_ok) (simp_all add: d2_def erased_def)
  have i3: "its_mblock_erase_scratch_blocks c s2 = (Inr (), s2\<lparr>dev := d2\<rparr>)"
    using e1 e2 by (cases "2 < NB") (simp_all add: its_mblock_erase_scratch_blocks_def io_simps s2_def s1_def
        its_flash_fs_mblock_cur_data_scratch_id_def its_consts(4) d2_def)
  define t where "t = s2\<lparr>dev := d2\<rparr>"
  have tf: "active_metablock t = a" "scratch_metablock t = 1 - a" "meta_block_header t = mhdr m" "dev t = d2"
    by (simp_all add: t_def s2_def s1_def)
  have am: "active_meta content t = m"
    using d2(2)[OF na(4)] na sd m a by (auto simp: active_meta_def tf)
  have "its_mblock_upgrade_meta_header c t = (Inr (), t)"
    using hd by (simp add: its_mblock_upgrade_meta_header_def io_simps tf header_ok_def
        its_mblock_validate_fs_version_def its_consts)
  then have run: "its_flash_fs_mblock_init c s = (Inr (), t)"
    using i1 i2 i3 by (simp add: its_flash_fs_mblock_init_def io_simps t_def)
  have "rd (content d2 (1 - a)) 0 8 = replicate 8 (erase_val (flash_cfg c))"
    using d2(2)[OF na(2)] bd(3,6) by (simp add: erased_def rd_def)
  then have inv: "fs_layout_inv content dev_ok c t"
    using cfg d2(1) hd lay am by (simp add: fs_layout_inv_def Let_def tf)
  have "data_of content d2 (bmeta m) (fmeta c m i) = data_of content (dev s) (bmeta m) (fmeta c m i)
      \<and> lblock (fmeta c m i) < n_lblocks c"
    if "i < max_num_files c" "fid_valid (fid (fmeta c m i))" for i
  proof -
    note fl = file_in_layout[OF lay that]
    have "phy_id (bmeta m (lblock (fmeta c m i))) < NB \<and> phy_id (bmeta m (lblock (fmeta c m i))) \<noteq> 1 - a
        \<and> (2 < NB \<longrightarrow> phy_id (bmeta m (lblock (fmeta c m i))) \<noteq> ?sd)"
      using lay fl(1) na a sd by (cases "lblock (fmeta c m i) = 0") (auto simp: layout_ok_def blocks_ok_def)
    then show ?thesis using d2(2) fl(1) by (auto simp: data_of_def)
  qed
  then have "fs_files content c t = files_of content c (dev s) (bmeta m) (fmeta c m)"
    unfolding fs_files_def Let_def am tf(4) by (intro files_of_cong) auto
  then show ?thesis using run inv am by blast
qed

lemma prepare_ok:
  assumes cfg: "cfg_ok c" and ok: "dev_ok (dev s)" and a: "a < 2" and m: "m = content (dev s) a"
    and hd: "header_ok c m" and lay: "layout_ok c a (scratch_dblock (mhdr m)) (bmeta m) (fmeta c m)"
    and ch: "chosen (dev s) = Some a" and nm: "names_ok c (fmeta c m)"
  shows "\<exists>t. its_flash_fs_prepare c s = (Inr (), t) \<and> fs_inv content dev_ok c t
    \<and> fs_files content c t = files_of content c (dev s) (bmeta m) (fmeta c m)"
proof -
  obtain t where t: "its_flash_fs_mblock_init c s = (Inr (), t)" "fs_layout_inv content dev_ok c t"
    "active_meta content t = m" "fs_files content c t = files_of content c (dev s) (bmeta m) (fmeta c m)"
    using mblock_init_ok[OF assms(1-7)] by blast
  have w: "working m t" using inv_working[OF t(2)] t(3) by simp
  have "find (\<lambda>i. flags (fmeta c m i) AND ITS_FLASH_FS_FLAG_DELETE \<noteq> 0) [0..<max_num_files c] = None"
    using nm by (auto simp: find_None_iff names_ok_def)
  then have "its_flash_fs_mblock_get_file_idx_flag c ITS_FLASH_FS_FLAG_DELETE t = (Inl PSA_ERROR_DOES_NOT_EXIST, t)"
    using file_idx_flag_loop_ok[OF w, of "[0..<max_num_files c]" ITS_FLASH_FS_FLAG_DELETE]
    by (simp add: its_flash_fs_mblock_get_file_idx_flag_def)
  then have "its_flash_fs_prepare c s = (Inr (), t)"
    using t(1) by (simp add: its_flash_fs_prepare_def io_simps)
  then show ?thesis using t nm by (auto simp: fs_inv_def)
qed

text \<open>Remounting the device of a file system whose scratch block carries no header.\<close>

lemma remount:
  assumes inv: "fs_inv content dev_ok c s" and ev: "erase_val (flash_cfg c) \<notin> {1, 2}" and d: "dev s' = dev s"
  shows "\<exists>t. its_flash_fs_prepare c s' = (Inr (), t) \<and> fs_inv content dev_ok c t
    \<and> fs_files content c t = fs_files content c s"
proof -
  define m where "m = active_meta content s"
  have li: "fs_layout_inv content dev_ok c s" and nm: "names_ok c (fmeta c m)" using inv by (simp_all add: fs_inv_def m_def)
  let ?a = "active_metablock s"
  have x: "cfg_ok c" "dev_ok (dev s)" "?a < 2" "m = content (dev s') ?a" "header_ok c m"
    "layout_ok c ?a (scratch_dblock (mhdr m)) (bmeta m) (fmeta c m)"
    "rd (content (dev s) (1 - ?a)) 0 8 = replicate 8 (erase_val (flash_cfg c))"
    using li d by (auto simp: fs_layout_inv_def Let_def m_def active_meta_def layout_ok_def blocks_ok_def)
  have "chosen (dev s') = Some ?a"
    using erased_header_invalid[OF x(7) ev] header_ok_valid[OF x(5)] x(4) d
    by (intro chosen_active[OF x(3)]) auto
  then show ?thesis
    using prepare_ok[OF x(1) _ x(3-6) _ nm] x(2) d by (simp add: fs_files_def Let_def m_def)
qed


section \<open>Corrupted tables\<close>

text \<open>One byte of the tables of the active block changes while the device is not mounted.\<close>

lemma corrupted_refused:
  assumes inv: "fs_layout_inv content dev_ok c s" and ev: "erase_val (flash_cfg c) \<notin> {1, 2}"
    and v: "validate_metadata c" and p: "8 \<le> p" "p < meta_end c"
    and x: "x \<noteq> active_meta content s ! p"
    and d: "dev s' = upd (dev s) (active_metablock s) ((active_meta content s)[p := x])"
  shows "its_flash_fs_prepare c s' = (Inl PSA_ERROR_GENERIC_ERROR, s')"
proof -
  define m where "m = active_meta content s"
  let ?a = "active_metablock s" and ?ev = "erase_val (flash_cfg c)"
  have i: "cfg_ok c" "dev_ok (dev s)" "?a < 2" "header_ok c m"
    "rd (content (dev s) (1 - ?a)) 0 8 = replicate 8 ?ev"
    using inv by (auto simp: fs_layout_inv_def Let_def m_def layout_ok_def blocks_ok_def)
  note b = cfg_ok_bounds[OF i(1)]
  have lm: "length m = B" using i(2,3) b(4) by (simp add: m_def active_meta_def content_length)
  have d': "dev_ok (dev s')" "content (dev s') ?a = m[p := x]" "content (dev s') (1 - ?a) = content (dev s) (1 - ?a)"
    using i(2,3) b(4) lm by (auto simp: d m_def[symmetric] dev_ok_upd content_upd less_2_cases_iff)
  have rdu: "rd (m[p := x]) 0 8 = rd m 0 8" "rd (m[p := x]) 8 (meta_end c - 8) = (rd m 8 (meta_end c - 8))[p - 8 := x]"
    using p by (auto simp: rd_def drop_update_swap take_update_swap intro: list_update_beyond)
  have "meta_xor c (m[p := x]) \<noteq> meta_xor c m"
    unfolding meta_xor_def rdu(2) by (rule xor_bytes_update) (use p x b(3) lm in \<open>auto simp: nth_rd m_def\<close>)
  moreover have "mhdr (m[p := x]) = mhdr m" by (simp add: mhdr_def rdu(1))
  ultimately have "\<not> header_valid c (content (dev s') ?a)"
    using i(4) v d'(2) by (simp add: header_valid_def header_ok_def Let_def its_consts)
  moreover have "\<not> header_valid c (content (dev s') (1 - ?a))"
    using erased_header_invalid[OF i(5) ev] d'(3) by simp
  moreover have "?a = 0 \<or> ?a = 1" using i(3) by auto
  ultimately have "chosen (dev s') = None" by (auto simp: chosen_def Let_def)
  then show ?thesis
    using init_get_active_metablock_ok[OF i(1) d'(1)]
    by (simp add: its_flash_fs_prepare_def its_flash_fs_mblock_init_def io_simps)
qed

section \<open>Wiping\<close>

lemma erase_all_loop_ok:
  assumes "dev_ok (dev s)" "\<forall>b \<in> set bs. b < NB"
  shows "\<exists>d. erase_all_loop c bs False s = (Inr False, s\<lparr>dev := d\<rparr>) \<and> dev_ok d
    \<and> (\<forall>b < NB. b \<notin> set bs \<longrightarrow> content d b = content (dev s) b)"
  using assms
proof (induction bs arbitrary: s)
  case Nil
  then show ?case by (intro exI[of _ "dev s"]) (simp add: io_simps)
next
  case (Cons b bs)
  define s1 where "s1 = s\<lparr>dev := upd (dev s) b erased\<rparr>"
  have b: "b < NB" "length erased = B" using Cons.prems by (simp_all add: erased_def)
  have e: "dev_erase c b s = (Inr (), s1)"
    using Cons.prems(1) b by (subst dev_erase_ok) (simp_all add: s1_def erased_def)
  have s1: "dev_ok (dev s1)" "\<And>b'. b' < NB \<Longrightarrow> b' \<noteq> b \<Longrightarrow> content (dev s1) b' = content (dev s) b'"
    using Cons.prems(1) b by (simp_all add: s1_def dev_ok_upd content_upd)
  obtain d where "erase_all_loop c bs False s1 = (Inr False, s1\<lparr>dev := d\<rparr>)" "dev_ok d"
    "\<forall>b' < NB. b' \<notin> set bs \<longrightarrow> content d b' = content (dev s1) b'"
    using Cons.IH[OF s1(1)] Cons.prems(2) by auto
  then show ?case using e s1(2) by (intro exI[of _ d]) (auto simp: io_simps s1_def)
qed

text \<open>Loops that program entries of the scratch block: the views after them.\<close>

lemma block_meta_loop_ok:
  assumes "writable s" "length X = B" "k \<le> n_lblocks c - 1" "\<And>i. block_meta_typed (b i)"
  shows "\<exists>Y. for_io [0..<k] (\<lambda>i. its_mblock_update_scratch_block_meta c (add32 i 1) (b i)) (put_scr s X)
      = (Inr (), put_scr s Y) \<and> length Y = B
    \<and> (\<forall>l < n_lblocks c. bmeta Y l = (if 1 \<le> l \<and> l \<le> k then b (l - 1) else bmeta X l))
    \<and> rd Y 0 8 = rd X 0 8"
proof -
  have cfg: "cfg_ok c" using assms(1) by (simp add: writable_def)
  note bd = cfg_ok_bounds[OF cfg] and ws = writable_scr[OF assms(1)]
  let ?P = "\<lambda>j t. \<exists>Y. t = put_scr s Y \<and> length Y = B
    \<and> (\<forall>l < n_lblocks c. bmeta Y l = (if 1 \<le> l \<and> l \<le> j then b (l - 1) else bmeta X l)) \<and> rd Y 0 8 = rd X 0 8"
  have "\<exists>t. for_io [0..<k] (\<lambda>i. its_mblock_update_scratch_block_meta c (add32 i 1) (b i)) (put_scr s X) = (Inr (), t)
      \<and> ?P (length [0..<k]) t"
  proof (rule for_io_rule)
    show "?P 0 (put_scr s X)" using assms(2) by auto
    fix j t assume j: "j < length [0..<k]" and P: "?P j t"
    then obtain Y where Y: "t = put_scr s Y" "length Y = B" "rd Y 0 8 = rd X 0 8"
      "\<forall>l < n_lblocks c. bmeta Y l = (if 1 \<le> l \<and> l \<le> j then b (l - 1) else bmeta X l)" by blast
    have jn: "Suc j < n_lblocks c" "add32 j 1 = Suc j" using j assms(3) bd(10) by (auto simp: add32_id)
    define Z where "Z = wr Y (bm_pos (Suc j)) (block_meta_bytes (b j))"
    have pz: "bm_pos (Suc j) + 12 \<le> B" using bm_pos_le[OF jn(1)] fm_pos_0_le[of c] bd(3) by simp
    have lZ: "length Z = B" using Y(2) pz by (simp add: Z_def)
    have "its_mblock_update_scratch_block_meta c (Suc j) (b j) t = (Inr (), put_scr s Z)"
      using update_scratch_block_meta_writable[OF ws(5)[OF Y(2)] jn(1)] Y ws lZ by (simp add: Z_def)
    moreover have "bmeta Z l = (if 1 \<le> l \<and> l \<le> Suc j then b (l - 1) else bmeta X l)" if "l < n_lblocks c" for l
      using bmeta_wr_bm[OF cfg Y(2) jn(1) that assms(4)] Y(4) that by (auto simp: Z_def le_Suc_eq)
    moreover have "rd Z 0 8 = rd X 0 8"
      using Y pz bm_pos_ge[of "Suc j"] by (simp add: Z_def rd_wr_disj)
    ultimately show "\<exists>t'. its_mblock_update_scratch_block_meta c (add32 ([0..<k] ! j) 1) (b ([0..<k] ! j)) t = (Inr (), t')
        \<and> ?P (Suc j) t'"
      using j jn(2) lZ by (intro exI[of _ "put_scr s Z"]) auto
  qed
  then show ?thesis by auto
qed

lemma file_meta_loop_ok:
  assumes "writable s" "length X = B" "k \<le> max_num_files c" "file_meta_typed f"
  shows "\<exists>Y. for_io [0..<k] (\<lambda>i. its_flash_fs_mblock_update_scratch_file_meta c i f) (put_scr s X)
      = (Inr (), put_scr s Y) \<and> length Y = B
    \<and> (\<forall>i < max_num_files c. fmeta c Y i = (if i < k then f else fmeta c X i))
    \<and> (\<forall>l < n_lblocks c. bmeta Y l = bmeta X l) \<and> rd Y 0 8 = rd X 0 8"
proof -
  have cfg: "cfg_ok c" using assms(1) by (simp add: writable_def)
  note bd = cfg_ok_bounds[OF cfg] and ws = writable_scr[OF assms(1)]
  have fl: "length (file_meta_bytes f) = 32" using assms(4) by (simp add: file_meta_typed_def its_consts)
  let ?P = "\<lambda>j t. \<exists>Y. t = put_scr s Y \<and> length Y = B
    \<and> (\<forall>i < max_num_files c. fmeta c Y i = (if i < j then f else fmeta c X i))
    \<and> (\<forall>l < n_lblocks c. bmeta Y l = bmeta X l) \<and> rd Y 0 8 = rd X 0 8"
  have "\<exists>t. for_io [0..<k] (\<lambda>i. its_flash_fs_mblock_update_scratch_file_meta c i f) (put_scr s X) = (Inr (), t)
      \<and> ?P (length [0..<k]) t"
  proof (rule for_io_rule)
    show "?P 0 (put_scr s X)" using assms(2) by auto
    fix j t assume j: "j < length [0..<k]" and P: "?P j t"
    then obtain Y where Y: "t = put_scr s Y" "length Y = B" "rd Y 0 8 = rd X 0 8"
      "\<forall>i < max_num_files c. fmeta c Y i = (if i < j then f else fmeta c X i)"
      "\<forall>l < n_lblocks c. bmeta Y l = bmeta X l" by blast
    have jn: "j < max_num_files c" using j assms(3) by auto
    define Z where "Z = wr Y (fm_pos c j) (file_meta_bytes f)"
    have pz: "fm_pos c j + 32 \<le> B" using fm_pos_le[OF jn] bd(3) by simp
    have lZ: "length Z = B" using Y(2) pz fl by (simp add: Z_def)
    have "its_flash_fs_mblock_update_scratch_file_meta c j f t = (Inr (), put_scr s Z)"
      using update_scratch_file_meta_writable[OF ws(5)[OF Y(2)] jn assms(4)] Y ws lZ by (simp add: Z_def)
    moreover have "fmeta c Z i = (if i < Suc j then f else fmeta c X i)" if "i < max_num_files c" for i
      using fmeta_wr_fm[OF cfg Y(2) jn that assms(4)] Y(4) that by (auto simp: Z_def)
    moreover have "bmeta Z l = bmeta X l" if "l < n_lblocks c" for l
      using bmeta_wr_behind[OF cfg, of "fm_pos c j" "file_meta_bytes f" Y l] that pz fl Y(2,5)
      by (simp add: Z_def fm_pos_def)
    moreover have "rd Z 0 8 = rd X 0 8"
      using Y pz fl by (simp add: Z_def rd_wr_disj fm_pos_def)
    ultimately show "\<exists>t'. its_flash_fs_mblock_update_scratch_file_meta c ([0..<k] ! j) f t = (Inr (), t') \<and> ?P (Suc j) t'"
      using j lZ by (intro exI[of _ "put_scr s Z"]) auto
  qed
  then show ?thesis by auto
qed


lemma wipe_all_ok:
  assumes cfg: "cfg_ok c" and ok: "dev_ok (dev s)"
  shows "\<exists>t. its_flash_fs_wipe_all c s = (Inr (), t) \<and> fs_inv content dev_ok c t
    \<and> fs_files content c t = Map.empty"
proof -
  note bd = cfg_ok_bounds[OF cfg]
  have le: "length erased = B" by (simp add: erased_def)
  obtain r s0 where r: "its_init_get_active_metablock c s = (r, s0)" "dev s0 = dev s" "r = Inr () \<Longrightarrow> scratch_metablock s0 < 2"
    using init_get_active_metablock_ok[OF cfg ok] by (cases "chosen (dev s)") auto
  define e1 where "e1 = (if r = Inr () then scratch_metablock s0 else ITS_METADATA_BLOCK0)"
  define e2 where "e2 = ITS_OTHER_META_BLOCK e1"
  have e: "e1 < 2" "e2 < 2" "e1 \<noteq> e2" "e1 < NB" "e2 < NB"
    using r(3) bd(4) by (auto simp: e1_def e2_def ITS_OTHER_META_BLOCK_def its_consts)
  define d2 where "d2 = upd (upd (dev s) e1 erased) e2 erased"
  have d2: "dev_ok d2" "content d2 0 = erased" "content d2 1 = erased"
    using ok e le bd(4) by (auto simp: d2_def dev_ok_upd content_upd less_2_cases_iff)
  have x1: "dev_erase c e1 s0 = (Inr (), s0\<lparr>dev := upd (dev s) e1 erased\<rparr>)"
    using ok e r(2) by (subst dev_erase_ok) (simp_all add: erased_def)
  have x2: "dev_erase c e2 (s0\<lparr>dev := upd (dev s) e1 erased\<rparr>) = (Inr (), s0\<lparr>dev := d2\<rparr>)"
    using ok e le by (subst dev_erase_ok) (simp_all add: d2_def erased_def dev_ok_upd)
  define h where "h = (meta_block_header s0)\<lparr>active_swap_count := (if erase_val (flash_cfg c) = 0 then 1 else 0),
      scratch_dblock := its_init_scratch_dblock c, fs_version := ITS_SUPPORTED_VERSION\<rparr>"
  define s3 where "s3 = s0\<lparr>dev := d2, meta_block_header := h, scratch_metablock := 1, active_metablock := 0\<rparr>"
  have w3: "writable s3" using cfg d2(1) by (simp add: writable_def s3_def)
  have sc3: "scr s3 = erased" using d2(3) by (simp add: scr_def s3_def)
  define b0 where "b0 = \<lparr>phy_id = 1, data_start = meta_end c, free_size = B - meta_end c\<rparr>"
  define X1 where "X1 = wr erased (bm_pos 0) (block_meta_bytes b0)"
  have p0: "bm_pos 0 + 12 \<le> B" using bm_pos_le[OF bd(1)] fm_pos_0_le[of c] bd(3) by simp
  have lX1: "length X1 = B" using le p0 by (simp add: X1_def)
  have tb0: "block_meta_typed b0" using bd by (simp add: b0_def block_meta_typed_def)
  have y1: "its_mblock_update_scratch_block_meta c 0 b0 s3 = (Inr (), put_scr s3 X1)"
    using update_scratch_block_meta_writable[OF w3 bd(1), of b0] sc3 by (simp add: X1_def)
  let ?bs = "map (\<lambda>i. add32 i (its_init_dblock_start c)) [0..<its_num_dedicated_dblocks c]"
  have nd: "its_num_dedicated_dblocks c = n_lblocks c - 1"
    using cfg by (auto simp: its_num_dedicated_dblocks_def its_init_dblock_start_def n_lblocks_def wrap_simps
        cfg_ok_def cfg_typed_def)
  have st: "add32 i (its_init_dblock_start c) = i + 3 \<and> i + 3 < NB" if "i < n_lblocks c - 1" for i
    using that cfg by (auto simp: its_init_dblock_start_def n_lblocks_def cfg_ok_def cfg_typed_def add32_id split: if_splits)
  have "set ?bs = (\<lambda>i. i + 3) ` {..<n_lblocks c - 1}" using st nd by (auto simp: image_def)
  then have bsr: "\<forall>b \<in> set ?bs. b < NB" "0 \<notin> set ?bs" "1 \<notin> set ?bs" using st by auto
  have dk: "dev_ok (dev (put_scr s3 X1))" using writable_scr(5)[OF w3 lX1] by (simp add: writable_def)
  obtain d4 where d4: "erase_all_loop c ?bs False (put_scr s3 X1) = (Inr False, (put_scr s3 X1)\<lparr>dev := d4\<rparr>)" "dev_ok d4"
    "\<forall>b < NB. b \<notin> set ?bs \<longrightarrow> content d4 b = content (dev (put_scr s3 X1)) b"
    using erase_all_loop_ok[OF dk bsr(1)] by blast
  define s4 where "s4 = (put_scr s3 X1)\<lparr>dev := d4\<rparr>"
  have f4: "scratch_metablock s4 = 1" "active_metablock s4 = 0" "meta_block_header s4 = h" "dev s4 = d4"
    by (simp_all add: s4_def s3_def)
  have w4: "writable s4" using cfg d4(2) by (simp add: writable_def f4)
  have c4: "scr s4 = X1" "content d4 0 = erased"
    using d4(3) bsr(2,3) bd(4) writable_scr(6)[OF w3 lX1] d2(2) by (auto simp: scr_def f4) (simp_all add: s3_def)
  have s4X: "put_scr s4 X1 = s4" using writable_scr(4)[OF w4] c4(1) by simp
  obtain X2 where X2: "for_io [0..<n_lblocks c - 1] (\<lambda>i. its_mblock_update_scratch_block_meta c (add32 i 1)
        \<lparr>phy_id = add32 i (its_init_dblock_start c), data_start = 0, free_size = B\<rparr>) s4 = (Inr (), put_scr s4 X2)"
    "length X2 = B" "rd X2 0 8 = rd X1 0 8"
    "\<forall>l < n_lblocks c. bmeta X2 l = (if 1 \<le> l \<and> l \<le> n_lblocks c - 1
       then \<lparr>phy_id = add32 (l - 1) (its_init_dblock_start c), data_start = 0, free_size = B\<rparr> else bmeta X1 l)"
    using block_meta_loop_ok[OF w4 lX1, of "n_lblocks c - 1"
        "\<lambda>i. \<lparr>phy_id = add32 i (its_init_dblock_start c), data_start = 0, free_size = B\<rparr>"] bd(5) s4X
    by (auto simp: block_meta_typed_def)
  obtain X3 where X3: "for_io [0..<max_num_files c] (\<lambda>i. its_flash_fs_mblock_update_scratch_file_meta c i zero_file_meta)
       (put_scr s4 X2) = (Inr (), put_scr s4 X3)" "length X3 = B"
    "\<forall>i < max_num_files c. fmeta c X3 i = zero_file_meta" "\<forall>l < n_lblocks c. bmeta X3 l = bmeta X2 l"
    using file_meta_loop_ok[OF w4 X2(2), of "max_num_files c" zero_file_meta] zero_file_meta_typed by auto
  define s5 where "s5 = put_scr s4 X3"
  define h' where "h' = commit_header c h X3"
  define M where "M = wr X3 0 (header_bytes h')"
  have w5: "writable s5" "scr s5 = X3" using writable_scr[OF w4] X3(2) by (simp_all add: s5_def)
  have f5: "scratch_metablock s5 = 1" "active_metablock s5 = 0" "meta_block_header s5 = h" by (simp_all add: s5_def f4)
  define s6 where "s6 = put_scr (s5\<lparr>meta_block_header := h'\<rparr>) M"
  have hw: "its_mblock_write_scratch_meta_header c s5 = (Inr (), s6)"
    using write_scratch_meta_header_ok[OF w5(1)] w5(2) f5 by (simp add: s6_def M_def h'_def)
  have lM: "length M = B" using X3(2) bd(3,6) by (simp add: M_def)
  have w6: "writable (s5\<lparr>meta_block_header := h'\<rparr>)" using w5(1) by (simp add: writable_def)
  have c6: "dev_ok (dev s6)" "content (dev s6) 1 = M" "content (dev s6) 0 = erased"
    using writable_scr(5,6)[OF w6 lM] writable_scr(6)[OF w4 X3(2)] bd(4) c4(2)
    by (simp_all add: s6_def f5 writable_def) (simp add: s5_def f4)
  have fl: "dev_flush c 1 s6 = (Inr (), s6)" using c6(1) bd(4) by (intro dev_flush_ok) auto
  define t where "t = s6\<lparr>scratch_metablock := 0, active_metablock := 1\<rparr>"
  have f6: "scratch_metablock s6 = 1" "active_metablock s6 = 0" "meta_block_header s6 = h'"
    by (simp_all add: s6_def f5)
  have sw: "its_mblock_swap_metablocks s6 = (Inr (), t)"
    using f6 by (simp add: its_mblock_swap_metablocks_def io_simps Let_def t_def)
  have off: "its_mblock_file_meta_offset c (max_num_files c) = meta_end c" "sub32 B (meta_end c) = B - meta_end c"
    using cfg bd by (simp_all add: meta_end_def wrap_simps)
  have run: "its_flash_fs_wipe_all c s = (Inr (), t)"
  proof -
    have sel: "(if r = Inr () then scratch_metablock s0 else ITS_METADATA_BLOCK0) = e1" by (simp add: e1_def)
    have md: "(s0\<lparr>dev := d2\<rparr>)\<lparr>meta_block_header := (meta_block_header (s0\<lparr>dev := d2\<rparr>))
         \<lparr>active_swap_count := (if erase_val (flash_cfg c) = 0 then 1 else 0),
          scratch_dblock := its_init_scratch_dblock c, fs_version := ITS_SUPPORTED_VERSION\<rparr>,
         scratch_metablock := ITS_METADATA_BLOCK1, active_metablock := ITS_METADATA_BLOCK0\<rparr> = s3"
      by (simp add: s3_def h_def its_consts)
    show ?thesis
      unfolding its_flash_fs_wipe_all_def its_flash_fs_mblock_reset_metablock_def Let_def off
        bind_io_def gets_io_def modify_io_def try_io_def on_error_def
      using r(1) x1 x2 y1 d4(1) X2(1) X3(1) hw fl sw f6 md
      by (simp add: sel e2_def[symmetric] s4_def[symmetric] s5_def[symmetric] nd b0_def its_consts(4,5,6))
  qed
  have am: "active_meta content t = M" using c6(2) by (simp add: active_meta_def t_def)
  have bmM: "bmeta M l = fresh_bm c l" if "l < n_lblocks c" for l
  proof -
    have "bmeta M l = bmeta X3 l"
      using bmeta_wr_header[of "header_bytes h'" l X3] bm_pos_le[OF that] fm_pos_0_le[of c] bd(3) X3(2)
      by (simp add: M_def)
    also have "\<dots> = fresh_bm c l"
    proof (cases "l = 0")
      case True
      then show ?thesis using X3(4) X2(4) bd(1) bmeta_wr_bm[OF cfg le bd(1) bd(1) tb0]
        by (simp add: fresh_bm_def X1_def b0_def)
    next
      case False
      then have "l - 1 < n_lblocks c - 1" "1 \<le> l" "l \<le> n_lblocks c - 1" using that by auto
      then show ?thesis using X3(4) X2(4) that st[of "l - 1"] False by (simp add: fresh_bm_def)
    qed
    finally show ?thesis .
  qed
  have fmM: "fmeta c M i = zero_file_meta" if "i < max_num_files c" for i
    using fmeta_wr_before[of c 0 "header_bytes h'" X3 i] X3(2,3) cfg that by (simp add: M_def fm_pos_def)
  have sdh: "scratch_dblock h = its_init_scratch_dblock c" by (simp add: h_def)
  have hdr: "mhdr M = h'" unfolding M_def
    using X3(2) bd(3,6) by (intro mhdr_wr_header) (simp_all add: h'_def sdh its_init_scratch_dblock_def)
  have "header_ok c M"
    using next_swap_count_valid[of c "active_swap_count h"] X3(2) cfg
    unfolding header_ok_def hdr
    by (auto simp: meta_xor_wr_header M_def its_mblock_validate_swap_count_def h'_def commit_header_def h_def
        split: if_splits)
  moreover have "layout_ok c 1 (its_init_scratch_dblock c) (bmeta M) (fmeta c M)"
    by (rule layout_ok_cong[OF cfg _ _ fresh_layout[OF cfg]]) (simp_all add: bmM fmM)
  moreover have "rd erased 0 8 = replicate 8 (erase_val (flash_cfg c))" using bd(3,6) by (simp add: erased_def rd_def)
  ultimately have li: "fs_layout_inv content dev_ok c t"
    using cfg c6 hdr by (simp add: fs_layout_inv_def am Let_def) (simp add: t_def f6 h'_def sdh)
  moreover have nm: "names_ok c (fmeta c M)" using fmM by (auto simp: names_ok_def)
  moreover have "fs_files content c t = Map.empty"
  proof
    fix f
    have "file_index c (fmeta c M) f = None" if "fid_valid f"
      using fmM that by (auto simp: file_index_None)
    then show "fs_files content c t f = None" by (simp add: fs_files_def files_of_def Let_def am)
  qed
  ultimately show ?thesis using run by (auto simp: fs_inv_def am)
qed

end

end
