(* ===== verification/ITS_Storage.thy ===== *)
theory ITS_Storage
  imports ITS_FS_Mount
begin

text \<open>
  The flash file system over the RAM driver: the locale \<open>flash_fs\<close> interpreted on the model of
  its_flash_ram.c, the properties of the file operations, and runs of operations as an inductive
  relation between the concrete state and the abstract file table.
\<close>

section \<open>The RAM instance\<close>

definition ram_config :: "ram_dev its_flash_fs_config_t \<Rightarrow> ram_dev its_flash_fs_config_t" where
  "ram_config c = c\<lparr>ops := its_flash_fs_ops_ram\<rparr>"

lemma ram_config_fields [simp]: "flash_cfg (ram_config c) = flash_cfg c" "ops (ram_config c) = its_flash_fs_ops_ram"
  by (simp_all add: ram_config_def)

lemma ram_config_id: "ops c = its_flash_fs_ops_ram \<Longrightarrow> ram_config c = c"
  by (simp add: ram_config_def)

interpretation rfs: flash_fs "ram_config c" "ram_content (flash_cfg c)" "ram_upd (flash_cfg c)" "ram_ok (flash_cfg c)" for c
  unfolding flash_fs_def ram_config_fields by (rule ram.flash_device_axioms)

abbreviation ram_fs_inv :: "ram_dev its_flash_fs_config_t \<Rightarrow> ram_dev its_flash_fs_ctx_t \<Rightarrow> bool" where
  "ram_fs_inv c \<equiv> fs_inv (ram_content (flash_cfg c)) (ram_ok (flash_cfg c)) c"

abbreviation ram_files :: "ram_dev its_flash_fs_config_t \<Rightarrow> ram_dev its_flash_fs_ctx_t \<Rightarrow> byte list \<Rightarrow> its_file option" where
  "ram_files c \<equiv> fs_files (ram_content (flash_cfg c)) c"

abbreviation ram_write_status :: "ram_dev its_flash_fs_config_t \<Rightarrow> ram_dev its_flash_fs_ctx_t \<Rightarrow> byte list
    \<Rightarrow> its_flash_fs_file_info_t \<Rightarrow> nat \<Rightarrow> nat \<Rightarrow> psa_error option" where
  "ram_write_status c \<equiv> write_status (ram_content (flash_cfg c)) c"

lemma ram_write:
  assumes "ops c = its_flash_fs_ops_ram" "ram_fs_inv c s" "max_alignment c = 1" "fid_valid f" "length f = ITS_FILE_ID_SIZE"
    "sz \<le> length data" "sz = 0 \<or> length (file_data (write_base finfo (ram_files c s f))) \<le> off + sz"
  shows "\<exists>t. its_flash_fs_file_write c f (Some finfo) sz off data s
      = ((case ram_write_status c s f finfo sz off of Some e \<Rightarrow> Inl e | None \<Rightarrow> Inr finfo), t)
    \<and> ram_fs_inv c t
    \<and> ram_files c t = (case ram_write_status c s f finfo sz off of Some e \<Rightarrow> ram_files c s
        | None \<Rightarrow> (ram_files c s)(f \<mapsto> write_at sz off data (write_base finfo (ram_files c s f))))"
  using rfs.file_write_refines[of c s f sz data finfo off, unfolded rfs.write_outcome_def, unfolded ram_config_id[OF assms(1)]] assms
  by blast

lemma ram_write_over:
  assumes "ops c = its_flash_fs_ops_ram" "ram_fs_inv c s" "max_alignment c = 1" "fid_valid f" "length f = ITS_FILE_ID_SIZE"
    "sz \<le> length data"
  shows "\<exists>t rest. its_flash_fs_file_write c f (Some finfo) sz off data s
      = ((case ram_write_status c s f finfo sz off of Some e \<Rightarrow> Inl e | None \<Rightarrow> Inr finfo), t)
    \<and> ram_fs_inv c t
    \<and> length rest = length (file_data (write_base finfo (ram_files c s f))) - (off + sz)
    \<and> ram_files c t = (case ram_write_status c s f finfo sz off of Some e \<Rightarrow> ram_files c s
        | None \<Rightarrow> (ram_files c s)(f \<mapsto> write_over sz off data rest (write_base finfo (ram_files c s f))))"
  using rfs.file_write_refines_over[of c s f sz data finfo off, unfolded rfs.write_outcome_def, unfolded ram_config_id[OF assms(1)]] assms
  by blast

lemma ram_delete:
  assumes "ops c = its_flash_fs_ops_ram" "ram_fs_inv c s" "fid_valid f" "length f = ITS_FILE_ID_SIZE"
  shows "case ram_files c s f of
       None \<Rightarrow> its_flash_fs_file_delete c f s = (Inl PSA_ERROR_DOES_NOT_EXIST, s)
     | Some v \<Rightarrow> \<exists>t. its_flash_fs_file_delete c f s = (Inr (), t) \<and> ram_fs_inv c t
                  \<and> ram_files c t = (ram_files c s)(f := None)"
  using rfs.file_delete_refines[of c s f] assms unfolding ram_config_id[OF assms(1)] by blast

lemma ram_read:
  assumes "ops c = its_flash_fs_ops_ram" "ram_fs_inv c s" "fid_valid f" "length f = ITS_FILE_ID_SIZE" "0 < sz"
  shows "its_flash_fs_file_read c f sz off s =
    (case ram_files c s f of
       None \<Rightarrow> (Inl PSA_ERROR_DOES_NOT_EXIST, s)
     | Some v \<Rightarrow> if off + sz \<le> length (file_data v) then (Inr (rd (file_data v) off sz), s)
                else (Inl PSA_ERROR_INVALID_ARGUMENT, s))"
  using rfs.file_read_refines[of c s f sz off] assms unfolding ram_config_id[OF assms(1)]
  by (simp add: fs_inv_def)

lemma ram_wipe:
  assumes "ops c = its_flash_fs_ops_ram" "cfg_ok c" "ram_ok (flash_cfg c) (dev s)"
  shows "\<exists>t. its_flash_fs_wipe_all c s = (Inr (), t) \<and> ram_fs_inv c t \<and> ram_files c t = Map.empty"
  using rfs.wipe_all_ok[of c s] assms unfolding ram_config_id[OF assms(1)] by blast

lemma ram_remount:
  assumes "ops c = its_flash_fs_ops_ram" "ram_fs_inv c s" "erase_val (flash_cfg c) \<notin> {1, 2}" "dev s' = dev s"
  shows "\<exists>t. its_flash_fs_prepare c s' = (Inr (), t) \<and> ram_fs_inv c t \<and> ram_files c t = ram_files c s"
  using rfs.remount[of c s s'] assms unfolding ram_config_id[OF assms(1)] by blast

section \<open>Runs\<close>

text \<open>
  The file table a client can rely on. The write of part of a file loses the bytes behind the data, so the
  contents of a file are bytes that are known and, as \<open>None\<close>, bytes that are not.
\<close>

record spec_file =
  sf_max :: nat
  sf_flags :: "32 word"
  sf_data :: "byte option list"

definition spec_base :: "its_flash_fs_file_info_t \<Rightarrow> spec_file option \<Rightarrow> spec_file" where
  "spec_base finfo old =
     (case old of
        Some x \<Rightarrow> if info_flags finfo AND ITS_FLASH_FS_FLAG_TRUNCATE = 0 then x
                  else \<lparr>sf_max = size_max finfo, sf_flags = info_flags finfo, sf_data = []\<rparr>
      | None \<Rightarrow> \<lparr>sf_max = size_max finfo, sf_flags = info_flags finfo, sf_data = []\<rparr>)"

definition spec_write :: "nat \<Rightarrow> nat \<Rightarrow> byte list \<Rightarrow> spec_file \<Rightarrow> spec_file" where
  "spec_write sz off data x = (if sz = 0 then x
     else x\<lparr>sf_data := take off (sf_data x) @ map Some (take sz data) @ replicate (length (sf_data x) - (off + sz)) None\<rparr>)"

definition agrees :: "its_file \<Rightarrow> spec_file \<Rightarrow> bool" where
  "agrees v x \<longleftrightarrow> file_max v = sf_max x \<and> file_flags v = sf_flags x \<and>
     list_all2 (\<lambda>b y. y = None \<or> y = Some b) (file_data v) (sf_data x)"

lemma agrees_length: "agrees v x \<Longrightarrow> length (file_data v) = length (sf_data x)"
  by (auto simp: agrees_def dest: list_all2_lengthD)

lemma agrees_base:
  "rel_option agrees old x \<Longrightarrow> agrees (write_base finfo old) (spec_base finfo x)"
  by (cases old; cases x) (auto simp: write_base_def spec_base_def agrees_def Let_def)

lemma agrees_write:
  assumes "agrees v x" "length rest = length (file_data v) - (off + sz)"
  shows "agrees (write_over sz off data rest v) (spec_write sz off data x)"
proof -
  have "list_all2 (\<lambda>b y. y = None \<or> y = Some b) rest (replicate (length rest) None)"
    by (simp add: list_all2_conv_all_nth)
  moreover have "list_all2 (\<lambda>b y. y = None \<or> y = Some b) (take sz data) (map Some (take sz data))"
    by (simp add: list_all2_conv_all_nth)
  ultimately show ?thesis using assms agrees_length[OF assms(1)]
    by (auto simp: write_over_def spec_write_def agrees_def intro!: list_all2_appendI list_all2_takeI)
qed

text \<open>All bytes are known: the file is the expected one.\<close>

lemma agrees_known: "agrees v \<lparr>sf_max = m, sf_flags = g, sf_data = map Some d\<rparr> \<longleftrightarrow> v = \<lparr>file_max = m, file_flags = g, file_data = d\<rparr>"
  by (cases v) (auto simp: agrees_def list_all2_map2 list_all2_conv_all_nth intro: nth_equalityI)

text \<open>
  A run of the file system: it starts with a wipe, and then remounts (with any context, as after a
  reset), writes and deletes in any order, successful or not. The second component is the file
  table the client expects.
\<close>

inductive its_fs_run :: "ram_dev its_flash_fs_config_t \<Rightarrow> ram_dev its_flash_fs_ctx_t
    \<Rightarrow> (byte list \<Rightarrow> spec_file option) \<Rightarrow> bool" for c where
  wipe_run: "ram_ok (flash_cfg c) (dev s) \<Longrightarrow> its_flash_fs_wipe_all c s = (r, t) \<Longrightarrow> its_fs_run c t Map.empty"
| mount_run: "its_fs_run c s F \<Longrightarrow> dev s' = dev s \<Longrightarrow> its_flash_fs_prepare c s' = (r, t) \<Longrightarrow> its_fs_run c t F"
| write_run: "its_fs_run c s F \<Longrightarrow> fid_valid f \<Longrightarrow> length f = ITS_FILE_ID_SIZE \<Longrightarrow> sz \<le> length data \<Longrightarrow>
    its_flash_fs_file_write c f (Some finfo) sz off data s = (r, t) \<Longrightarrow>
    its_fs_run c t (case r of Inr _ \<Rightarrow> F(f \<mapsto> spec_write sz off data (spec_base finfo (F f))) | Inl _ \<Rightarrow> F)"
| delete_run: "its_fs_run c s F \<Longrightarrow> fid_valid f \<Longrightarrow> length f = ITS_FILE_ID_SIZE \<Longrightarrow>
    its_flash_fs_file_delete c f s = (r, t) \<Longrightarrow>
    its_fs_run c t (case r of Inr _ \<Rightarrow> F(f := None) | Inl _ \<Rightarrow> F)"

lemma its_fs_run_inv:
  assumes "its_fs_run c s F" "ops c = its_flash_fs_ops_ram" "cfg_ok c" "max_alignment c = 1"
    "erase_val (flash_cfg c) \<notin> {1, 2}"
  shows "ram_fs_inv c s \<and> (\<forall>f. rel_option agrees (ram_files c s f) (F f))"
  using assms(1)
proof induction
  case (wipe_run s r t)
  then show ?case using ram_wipe[OF assms(2,3) wipe_run(1)] by auto
next
  case (mount_run s F s' r t)
  then show ?case using ram_remount[OF assms(2) _ assms(5) mount_run(2)] by auto
next
  case (write_run s F f sz data finfo off r t)
  then have inv: "ram_fs_inv c s" and F: "\<And>g. rel_option agrees (ram_files c s g) (F g)" by auto
  let ?v = "write_base finfo (ram_files c s f)"
  obtain rest where t: "r = (case ram_write_status c s f finfo sz off of Some e \<Rightarrow> Inl e | None \<Rightarrow> Inr finfo)" "ram_fs_inv c t"
    "length rest = length (file_data ?v) - (off + sz)"
    "ram_files c t = (case ram_write_status c s f finfo sz off of Some e \<Rightarrow> ram_files c s
        | None \<Rightarrow> (ram_files c s)(f \<mapsto> write_over sz off data rest ?v))"
    using ram_write_over[OF assms(2) inv assms(4) write_run(2-4), of finfo off] write_run(5) by auto
  have "agrees (write_over sz off data rest ?v) (spec_write sz off data (spec_base finfo (F f)))"
    by (rule agrees_write[OF agrees_base[OF F] t(3)])
  then show ?case using t F by (auto split: option.splits)
next
  case (delete_run s F f r t)
  then have "ram_fs_inv c s" and F: "\<And>g. rel_option agrees (ram_files c s g) (F g)" by auto
  then show ?case using ram_delete[OF assms(2) _ delete_run(2,3), of s] delete_run(4) F[of f]
    by (cases "ram_files c s f") auto
qed

end
