(* ===== verification/ITS_Properties.thy ===== *)
theory ITS_Properties
  imports ITS_Storage
begin

text \<open>
  The properties of the flash file system of Internal Trusted Storage, over the RAM driver, each
  with a witness on a small configuration (four blocks of 256 bytes, three files).
\<close>

section \<open>Free space\<close>

text \<open>The files of a logical block tile its used area, so no space is lost or counted twice.\<close>

lemma tiled_sum:
  assumes "layout_ok c act sd bm fm" "l < n_lblocks c"
  shows "(\<Sum>i \<in> files_in c fm l. max_size (fm i)) + free_size (bm l) = block_size (flash_cfg c) - lb_start c l"
proof -
  let ?I = "files_in c fm l" and ?A = "\<lambda>i. {data_idx (fm i)..<file_end (fm i)}"
  have t: "tiled c bm fm l" and b: "lb_start c l + free_size (bm l) \<le> block_size (flash_cfg c)"
    using assms by (auto simp: layout_ok_def blocks_ok_def)
  have fin: "finite ?I" by (rule finite_subset[of _ "{..<max_num_files c}"]) (auto simp: files_in_def)
  have dis: "\<forall>i \<in> ?I. \<forall>j \<in> ?I. i \<noteq> j \<longrightarrow> ?A i \<inter> ?A j = {}"
  proof (intro ballI impI)
    fix i j assume "i \<in> ?I" "j \<in> ?I" "i \<noteq> j"
    then have "separated (fm i) (fm j)" using t by (simp add: tiled_def)
    then show "?A i \<inter> ?A j = {}" by (auto simp: separated_def)
  qed
  have "card (\<Union>i \<in> ?I. ?A i) = (\<Sum>i \<in> ?I. card (?A i))"
    by (rule card_UN_disjoint[OF fin _ dis]) simp
  also have "\<dots> = (\<Sum>i \<in> ?I. max_size (fm i))" by (simp add: file_end_def)
  finally have "(\<Sum>i \<in> ?I. max_size (fm i)) = lb_end c bm l - lb_start c l"
    using t by (simp add: tiled_def)
  then show ?thesis using b by (simp add: lb_end_def)
qed

lemma no_files_free:
  assumes "layout_ok c act sd bm fm" "l < n_lblocks c" "\<And>i. i < max_num_files c \<Longrightarrow> \<not> fid_valid (fid (fm i))"
  shows "free_size (bm l) = block_size (flash_cfg c) - lb_start c l"
proof -
  have "files_in c fm l = {}" using assms(3) by (auto simp: files_in_def)
  then show ?thesis using tiled_sum[OF assms(1,2)] by simp
qed

lemma free_index_first:
  assumes "\<And>i. i < n \<Longrightarrow> \<not> fid_valid (fid (fm i))" "2 \<le> n"
  shows "free_index fm [0..<n] False = 1"
proof -
  have "[0..<n] = 0 # 1 # [2..<n]" using assms(2) by (simp add: upt_conv_Cons numeral_2_eq_2)
  then show ?thesis using assms(1)[of 0] assms(1)[of 1] assms(2) by simp
qed

lemma empty_table:
  assumes "fs_inv content dev_ok c s" "fs_files content c s = Map.empty" "i < max_num_files c"
    and "length (active_meta content s) = block_size (flash_cfg c)"
  shows "\<not> fid_valid (fid (fmeta c (active_meta content s) i))"
proof
  let ?m = "active_meta content s"
  assume v: "fid_valid (fid (fmeta c ?m i))"
  have "length (fid (fmeta c ?m i)) = ITS_FILE_ID_SIZE"
    using fmeta_typed[OF _ assms(4,3)] assms(1)
    by (simp add: file_meta_typed_def fs_inv_def fs_layout_inv_def Let_def)
  then have "fs_files content c s (fid (fmeta c ?m i)) \<noteq> None"
    using v assms(3) by (auto simp: fs_files_def files_of_def Let_def file_index_def find_None_iff)
  then show False using assms(2) by simp
qed

lemma empty_has_room:
  assumes inv: "fs_inv content dev_ok c s" and e: "fs_files content c s = Map.empty"
    and n: "2 \<le> max_num_files c" "k \<le> max_file_size c"
    and len: "length (active_meta content s) = block_size (flash_cfg c)"
  shows "has_room content c s k False"
proof -
  let ?m = "active_meta content s"
  have no: "\<And>i. i < max_num_files c \<Longrightarrow> \<not> fid_valid (fid (fmeta c ?m i))"
    by (rule empty_table[OF inv e _ len])
  have cfg: "cfg_ok c"
    and lay: "layout_ok c (active_metablock s) (scratch_dblock (meta_block_header s)) (bmeta ?m) (fmeta c ?m)"
    using inv by (auto simp: fs_inv_def fs_layout_inv_def Let_def)
  define l where "l = (if num_blocks (flash_cfg c) = 2 then 0 else 1 :: nat)"
  have l: "l < n_lblocks c" "max_file_size c \<le> block_size (flash_cfg c) - lb_start c l"
    using cfg by (auto simp: l_def n_lblocks_def cfg_ok_def lb_start_def)
  have "k \<le> free_size (bmeta ?m l)" using no_files_free[OF lay l(1) no] l(2) n(2) by simp
  then show ?thesis
    using l(1) free_index_first[OF no n(1)]
    by (auto simp: has_room_def Let_def ITS_METADATA_INVALID_INDEX_def)
qed

lemma ram_active_length:
  "ram_fs_inv c s \<Longrightarrow> length (active_meta (ram_content (flash_cfg c)) s) = block_size (flash_cfg c)"
  using ram.content_length[of "flash_cfg c" "dev s" "active_metablock s"] cfg_ok_bounds(4)[of c]
  by (auto simp: fs_inv_def fs_layout_inv_def Let_def active_meta_def layout_ok_def blocks_ok_def)

section \<open>The configuration of the witnesses\<close>

definition wit_cfg :: "ram_dev its_flash_fs_config_t" where
  "wit_cfg = \<lparr>flash_cfg = \<lparr>flash_area_addr = 0, block_size = 256, num_blocks = 4, program_unit = 1, erase_val = 255\<rparr>,
     ops = its_flash_fs_ops_ram, max_file_size = 64, max_num_files = 3, validate_metadata = True, max_alignment = 1\<rparr>"

definition wit_ctx :: "ram_dev its_flash_fs_ctx_t" where
  "wit_ctx = zero_ctx (replicate 1024 255)"

definition wit_empty :: "ram_dev its_flash_fs_ctx_t" where
  "wit_empty = snd (its_flash_fs_wipe_all wit_cfg wit_ctx)"

definition wit_fid :: "byte list" where
  "wit_fid = [7, 0, 0, 0, 1, 0, 0, 0, 0, 0, 0, 0]"

definition wit_info :: its_flash_fs_file_info_t where
  "wit_info = \<lparr>size_current = 0, size_max = 8, info_flags = 0x30001\<rparr>"

definition wit_one :: "ram_dev its_flash_fs_ctx_t" where
  "wit_one = snd (its_flash_fs_file_write wit_cfg wit_fid (Some wit_info) 3 0 [1, 2, 3] wit_empty)"

lemma wit_cfg_facts [simp]:
  "ops wit_cfg = its_flash_fs_ops_ram" "cfg_ok wit_cfg" "max_alignment wit_cfg = 1"
  "erase_val (flash_cfg wit_cfg) = 255" "max_num_files wit_cfg = 3" "max_file_size wit_cfg = 64"
  "block_size (flash_cfg wit_cfg) = 256" "num_blocks (flash_cfg wit_cfg) = 4"
  by (simp_all add: wit_cfg_def cfg_ok_def cfg_typed_def meta_end_def fm_pos_def n_lblocks_def)

lemma wit_fid_facts [simp]: "fid_valid wit_fid" "length wit_fid = ITS_FILE_ID_SIZE"
  by (simp_all add: wit_fid_def its_utils_validate_fid_def ITS_FILE_ID_SIZE_def eval_nat_numeral)

lemma wit_ctx_ok [simp]: "ram_ok (flash_cfg wit_cfg) (dev wit_ctx)"
  by (simp add: ram_ok_def wit_ctx_def zero_ctx_def)

lemma wit_empty_facts [simp]:
  "its_flash_fs_wipe_all wit_cfg wit_ctx = (Inr (), wit_empty)" "ram_fs_inv wit_cfg wit_empty"
  "ram_files wit_cfg wit_empty = Map.empty"
  using ram_wipe[of wit_cfg wit_ctx] by (auto simp: wit_empty_def)

lemma wit_write_status [simp]: "ram_write_status wit_cfg wit_empty wit_fid wit_info 3 0 = None"
  using empty_has_room[OF wit_empty_facts(2,3) _ _ ram_active_length, of 8]
  by (simp add: write_status_def Let_def needs_entry_def write_base_def wit_info_def its_fs_flag_consts)

lemma wit_base [simp]: "write_base wit_info None = \<lparr>file_max = 8, file_flags = 0x30001, file_data = []\<rparr>"
  by (simp add: write_base_def wit_info_def)

lemma wit_write_at [simp]:
  "write_at 3 0 [1, 2, 3] \<lparr>file_max = a, file_flags = b, file_data = []\<rparr> = \<lparr>file_max = a, file_flags = b, file_data = [1, 2, 3]\<rparr>"
  by (simp add: write_at_def)

lemma wit_one_facts [simp]:
  "its_flash_fs_file_write wit_cfg wit_fid (Some wit_info) 3 0 [1, 2, 3] wit_empty = (Inr wit_info, wit_one)"
  "ram_fs_inv wit_cfg wit_one"
  "ram_files wit_cfg wit_one = [wit_fid \<mapsto> \<lparr>file_max = 8, file_flags = 0x30001, file_data = [1, 2, 3]\<rparr>]"
  using ram_write[of wit_cfg wit_empty wit_fid 3 "[1, 2, 3]" wit_info 0]
  by (auto simp: wit_one_def)

section \<open>Runs\<close>

text \<open>
  C1. Runs of the file system refine the abstract file table. From a wiped device, after any
  sequence of writes (of whole files or of any part of them), deletions and remounts, each with any
  outcome, the file system satisfies its invariant and holds exactly the files the sequence of
  successful operations leaves, with their sizes, flags and contents: no operation damages another
  file, and a failed one changes no file. The one thing a write does not keep are the bytes of its own
  file behind the data, when it ends before the end of the file; they are unknown in the table until
  they are written again.
\<close>

theorem its_fs_run_refines:
  assumes "its_fs_run c s F" "ops c = its_flash_fs_ops_ram" "cfg_ok c" "max_alignment c = 1"
    "erase_val (flash_cfg c) \<notin> {1, 2}"
  shows "fs_inv (ram_content (flash_cfg c)) (ram_ok (flash_cfg c)) c s
    \<and> (\<forall>f. rel_option agrees (fs_files (ram_content (flash_cfg c)) c s f) (F f))"
  by (rule its_fs_run_inv[OF assms])

text \<open>A run that writes three bytes to a new file and then one over the first of them.\<close>

definition wit_over :: "ram_dev its_flash_fs_ctx_t" where
  "wit_over = snd (its_flash_fs_file_write wit_cfg wit_fid (Some (wit_info\<lparr>info_flags := 0\<rparr>)) 1 0 [9] wit_one)"

lemma wit_over_base [simp]: "write_base (wit_info\<lparr>info_flags := 0\<rparr>) (Some v) = v"
  by (simp add: write_base_def)

lemma wit_over_status [simp]:
  "ram_write_status wit_cfg wit_one wit_fid (wit_info\<lparr>info_flags := 0\<rparr>) (Suc 0) 0 = None"
  by (simp add: write_status_def Let_def needs_entry_def)

lemma wit_over_written [simp]:
  "its_flash_fs_file_write wit_cfg wit_fid (Some (wit_info\<lparr>info_flags := 0\<rparr>)) 1 0 [9] wit_one
     = (Inr (wit_info\<lparr>info_flags := 0\<rparr>), wit_over)"
  using ram_write_over[of wit_cfg wit_one wit_fid 1 "[9]" "wit_info\<lparr>info_flags := 0\<rparr>" 0]
  by (auto simp: wit_over_def)

lemma wit_run: "its_fs_run wit_cfg wit_one [wit_fid \<mapsto> \<lparr>sf_max = 8, sf_flags = 0x30001, sf_data = [Some 1, Some 2, Some 3]\<rparr>]"
proof -
  have "its_fs_run wit_cfg wit_empty Map.empty" by (rule its_fs_run.wipe_run[OF wit_ctx_ok wit_empty_facts(1)])
  from its_fs_run.write_run[OF this wit_fid_facts _ wit_one_facts(1)] show ?thesis
    by (simp add: spec_write_def spec_base_def) (simp add: wit_info_def)
qed

lemma wit_over_run: "its_fs_run wit_cfg wit_over [wit_fid \<mapsto> \<lparr>sf_max = 8, sf_flags = 0x30001, sf_data = [Some 9, None, None]\<rparr>]"
  using its_fs_run.write_run[OF wit_run wit_fid_facts _ wit_over_written]
  by (simp add: spec_write_def spec_base_def numeral_2_eq_2)

theorem its_fs_run_refines_witness:
  "its_fs_run wit_cfg wit_over [wit_fid \<mapsto> \<lparr>sf_max = 8, sf_flags = 0x30001, sf_data = [Some 9, None, None]\<rparr>]
   \<and> (\<exists>x y. fs_files (ram_content (flash_cfg wit_cfg)) wit_cfg wit_over wit_fid
       = Some \<lparr>file_max = 8, file_flags = 0x30001, file_data = [9, x, y]\<rparr>)"
proof -
  have "rel_option agrees (fs_files (ram_content (flash_cfg wit_cfg)) wit_cfg wit_over wit_fid)
      (Some \<lparr>sf_max = 8, sf_flags = 0x30001, sf_data = [Some 9, None, None]\<rparr>)"
    using its_fs_run_refines[OF wit_over_run] by (auto dest: spec[of _ wit_fid])
  then obtain v where "fs_files (ram_content (flash_cfg wit_cfg)) wit_cfg wit_over wit_fid = Some v"
      "agrees v \<lparr>sf_max = 8, sf_flags = 0x30001, sf_data = [Some 9, None, None]\<rparr>"
    by (auto simp: option_rel_Some2)
  then show ?thesis using wit_over_run by (cases v) (auto simp: agrees_def list_all2_Cons2)
qed

section \<open>File operations\<close>

text \<open>
  C18. its_flash_fs_file_write: the status is exactly the one of the checks of the code, in their
  order (internal flags, missing file without CREATE, too large, no room, offset or size out of
  the file); on success the file gets the old bytes before the offset followed by the new ones
  (from an empty file when it is created or truncated) and keeps its size when the data ends before
  the end of the file, but the bytes behind the data are some bytes \<open>rest\<close>, not the old ones; every
  other file is unchanged. On an error no file changes. The invariant holds afterwards in both cases.
\<close>

theorem its_flash_fs_file_write_refines:
  assumes "ops c = its_flash_fs_ops_ram" "fs_inv (ram_content (flash_cfg c)) (ram_ok (flash_cfg c)) c s"
    "max_alignment c = 1" "fid_valid f" "length f = ITS_FILE_ID_SIZE" "sz \<le> length data"
  shows "\<exists>t rest. its_flash_fs_file_write c f (Some finfo) sz off data s
      = ((case ram_write_status c s f finfo sz off of Some e \<Rightarrow> Inl e | None \<Rightarrow> Inr finfo), t)
    \<and> fs_inv (ram_content (flash_cfg c)) (ram_ok (flash_cfg c)) c t
    \<and> length rest = length (file_data (write_base finfo (ram_files c s f))) - (off + sz)
    \<and> ram_files c t = (case ram_write_status c s f finfo sz off of Some e \<Rightarrow> ram_files c s
        | None \<Rightarrow> (ram_files c s)(f \<mapsto> write_over sz off data rest (write_base finfo (ram_files c s f))))"
  by (rule ram_write_over[OF assms])

theorem its_flash_fs_file_write_refines_witness:
  "\<exists>t. its_flash_fs_file_write wit_cfg wit_fid (Some wit_info) 3 0 [1, 2, 3] wit_empty = (Inr wit_info, t)
     \<and> ram_files wit_cfg t = [wit_fid \<mapsto> \<lparr>file_max = 8, file_flags = 0x30001, file_data = [1, 2, 3]\<rparr>]"
  using its_flash_fs_file_write_refines[of wit_cfg wit_empty wit_fid 3 "[1, 2, 3]" wit_info 0] by (auto simp: write_over_Nil)

text \<open>
  The loss on a small device, at the step of the write that handles the data: a file of three bytes 1, 2, 3 in
  block 2, the erased block 3 as scratch block, and a write of the single byte 9 at offset 0. The new block has
  9, 255, 255 in its place, and the file keeps its size of three bytes.
\<close>

definition loss_cfg :: "ram_dev its_flash_fs_config_t" where
  "loss_cfg = \<lparr>flash_cfg = \<lparr>flash_area_addr = 0, block_size = 4, num_blocks = 4, program_unit = 1, erase_val = 255\<rparr>,
     ops = its_flash_fs_ops_ram, max_file_size = 4, max_num_files = 3, validate_metadata = True, max_alignment = 1\<rparr>"

definition loss_ctx :: "ram_dev its_flash_fs_ctx_t" where
  "loss_ctx = (let s = zero_ctx (replicate 8 0 @ [1, 2, 3, 77] @ replicate 4 255) in
     s\<lparr>meta_block_header := (meta_block_header s)\<lparr>scratch_dblock := 3\<rparr>\<rparr>)"

lemma overwrite_loses_tail:
  "(case file_write_data loss_cfg \<lparr>lblock = 1, data_idx = 0, cur_size = 3, max_size = 3, flags = 0, fid = wit_fid\<rparr>
       \<lparr>phy_id = 2, data_start = 0, free_size = 0\<rparr> 1 0 [9] loss_ctx of
      (Inr (f, b), t) \<Rightarrow> cur_size f = 3 \<and> phy_id b = 3 \<and> drop 12 (dev t) = [9, 255, 255, 77]
    | _ \<Rightarrow> False)"
proof -
  have mv: "its_flash_fs_block_to_block_move loss_cfg 3 0 2 0 0 s = (Inr (), s)" for s
    by (simp add: its_flash_fs_block_to_block_move.simps io_simps)
  have mv3: "its_flash_fs_block_to_block_move loss_cfg 3 3 2 3 1 s = (Inr (), s\<lparr>dev := wr (dev s) 15 [dev s ! 11]\<rparr>)"
    if "length (dev s) = 16" for s
    using that
    by (cases "dev s = []") (simp_all add: its_flash_fs_block_to_block_move.simps bind_io_def return_io_def loss_cfg_def its_consts dev_read_def dev_write_def
        its_flash_fs_ops_ram_def its_flash_ram_read_def its_flash_ram_write_def get_phys_address_ram_def Let_def rd_def wrap_simps
        take_Suc_conv_app_nth)
  have w: "dev_write loss_cfg 3 [9] 0 1 s = (Inr (), s\<lparr>dev := wr (dev s) 12 [9]\<rparr>)" if "length (dev s) = 16" for s
    using that by (cases "dev s = []") (simp_all add: loss_cfg_def dev_write_def its_flash_fs_ops_ram_def its_flash_ram_write_def get_phys_address_ram_def
        Let_def wrap_simps)
  have c: "its_utils_check_contained_in 3 0 1 = Inr ()" by (simp add: check_contained_in_iff)
  have sc: "its_flash_fs_mblock_cur_data_scratch_id 1 s = (Inr (scratch_dblock (meta_block_header s)), s)" for s :: "ram_dev its_flash_fs_ctx_t"
    by (simp add: its_flash_fs_mblock_cur_data_scratch_id_def io_simps its_consts)
  have fl: "dev_flush loss_cfg 3 s = (Inr (), s)" for s
    by (simp add: dev_flush_def loss_cfg_def its_flash_fs_ops_ram_def its_flash_ram_flush_def return_io_def)
  have d: "dev loss_ctx = replicate 8 0 @ [1, 2, 3, 77, 255, 255, 255, 255]" "scratch_dblock (meta_block_header loss_ctx) = 3"
    by (simp_all add: loss_ctx_def zero_ctx_def Let_def numeral_eq_Suc)
  have z: "sub32 0 0 = 0" "add32 0 0 = 0" "add32 0 3 = 3" "sub32 (sub32 4 0) 3 = 1" "add32 0 1 = 1" by (simp_all add: wrap_simps)
  have cf: "block_size (flash_cfg loss_cfg) = 4" "max_alignment loss_cfg = 1" by (simp_all add: loss_cfg_def)
  define f where "f = \<lparr>lblock = 1, data_idx = 0, cur_size = 3, max_size = 3, flags = 0, fid = wit_fid\<rparr>"
  define b where "b = \<lparr>phy_id = 2, data_start = 0, free_size = 0\<rparr>"
  define t where "t = loss_ctx\<lparr>dev := wr (wr (dev loss_ctx) 12 [9]) 15 [77]\<rparr>"
  have n: "wr (dev loss_ctx) 12 [9] ! 11 = 77" "length (wr (dev loss_ctx) 12 [9]) = 16" "length (dev loss_ctx) = 16"
    by (simp_all add: d wr_def numeral_eq_Suc)
  have "its_flash_fs_dblock_write_file loss_cfg b f 0 1 [9] loss_ctx = (Inr (), t)"
    unfolding its_flash_fs_dblock_write_file_def f_def b_def
    by (simp add: bind_io_def sc d(2) z mv w n Let_def mv3 fl its_consts t_def cf del: One_nat_def)
  then have "file_write_data loss_cfg f b 1 0 [9] loss_ctx
      = (Inr (f, b\<lparr>phy_id := 3\<rparr>), t\<lparr>meta_block_header := (meta_block_header t)\<lparr>scratch_dblock := 2\<rparr>\<rparr>)"
    by (simp add: file_write_data_def its_flash_fs_file_write_aligned_data_def bind_io_def return_io_def on_error_def c cf f_def b_def
        z sc d(2) t_def its_flash_fs_mblock_set_data_scratch_def gets_io_def modify_io_def its_consts Let_def del: One_nat_def)
  moreover have "drop 12 (dev t) = [9, 255, 255, 77]" by (simp add: t_def d wr_def numeral_eq_Suc)
  ultimately show ?thesis by (simp add: f_def b_def)
qed

text \<open>
  its_flash_fs_file_delete: deleting a file that does not exist returns DOES_NOT_EXIST and
  changes nothing; deleting an existing one succeeds, removes exactly that file and keeps the
  contents of all others (which the compaction moves).
\<close>

theorem its_flash_fs_file_delete_refines:
  assumes "ops c = its_flash_fs_ops_ram" "fs_inv (ram_content (flash_cfg c)) (ram_ok (flash_cfg c)) c s"
    "fid_valid f" "length f = ITS_FILE_ID_SIZE"
  shows "case ram_files c s f of
       None \<Rightarrow> its_flash_fs_file_delete c f s = (Inl PSA_ERROR_DOES_NOT_EXIST, s)
     | Some v \<Rightarrow> \<exists>t. its_flash_fs_file_delete c f s = (Inr (), t)
          \<and> fs_inv (ram_content (flash_cfg c)) (ram_ok (flash_cfg c)) c t
          \<and> ram_files c t = (ram_files c s)(f := None)"
  by (rule ram_delete[OF assms])

theorem its_flash_fs_file_delete_refines_witness:
  "\<exists>t. its_flash_fs_file_delete wit_cfg wit_fid wit_one = (Inr (), t) \<and> ram_files wit_cfg t = Map.empty"
  using its_flash_fs_file_delete_refines[of wit_cfg wit_one wit_fid] by auto

text \<open>
  its_flash_fs_file_read: a read inside the current size returns exactly those bytes of the
  file, a read that goes past the end is refused with INVALID_ARGUMENT, a missing file with
  DOES_NOT_EXIST; the state does not change.
\<close>

theorem its_flash_fs_file_read_refines:
  assumes "ops c = its_flash_fs_ops_ram" "fs_inv (ram_content (flash_cfg c)) (ram_ok (flash_cfg c)) c s"
    "fid_valid f" "length f = ITS_FILE_ID_SIZE" "0 < sz"
  shows "its_flash_fs_file_read c f sz off s =
    (case ram_files c s f of
       None \<Rightarrow> (Inl PSA_ERROR_DOES_NOT_EXIST, s)
     | Some v \<Rightarrow> if off + sz \<le> length (file_data v) then (Inr (rd (file_data v) off sz), s)
                else (Inl PSA_ERROR_INVALID_ARGUMENT, s))"
  by (rule ram_read[OF assms])

theorem its_flash_fs_file_read_refines_witness:
  "its_flash_fs_file_read wit_cfg wit_fid 2 1 wit_one = (Inr [2, 3], wit_one)
   \<and> its_flash_fs_file_read wit_cfg wit_fid 3 1 wit_one = (Inl PSA_ERROR_INVALID_ARGUMENT, wit_one)"
  using its_flash_fs_file_read_refines[of wit_cfg wit_one wit_fid 2 1]
    its_flash_fs_file_read_refines[of wit_cfg wit_one wit_fid 3 1] by (simp add: rd_def)

text \<open>
  its_flash_fs_file_get_info reports the current size, the maximum size and the user flags of
  the file the table holds, or DOES_NOT_EXIST, and changes nothing.
\<close>

theorem its_flash_fs_file_get_info_refines:
  assumes "ops c = its_flash_fs_ops_ram" "fs_inv (ram_content (flash_cfg c)) (ram_ok (flash_cfg c)) c s"
    "fid_valid f" "length f = ITS_FILE_ID_SIZE"
  shows "its_flash_fs_file_get_info c f s =
    (case ram_files c s f of
       None \<Rightarrow> (Inl PSA_ERROR_DOES_NOT_EXIST, s)
     | Some v \<Rightarrow> (Inr \<lparr>size_current = length (file_data v), size_max = file_max v,
                     info_flags = file_flags v AND ITS_FLASH_FS_USER_FLAGS_MASK\<rparr>, s))"
  using rfs.file_get_info_refines[of c s f] assms unfolding ram_config_id[OF assms(1)]
  by (simp add: fs_inv_def)

theorem its_flash_fs_file_get_info_refines_witness:
  "its_flash_fs_file_get_info wit_cfg wit_fid wit_one
     = (Inr \<lparr>size_current = 3, size_max = 8, info_flags = 1\<rparr>, wit_one)"
  using its_flash_fs_file_get_info_refines[of wit_cfg wit_one wit_fid] by (simp add: its_fs_flag_consts)

text \<open>
  its_flash_fs_wipe_all on any device content, even one that holds no file system, succeeds
  and leaves a sound, empty file system.
\<close>

theorem its_flash_fs_wipe_all_empties:
  assumes "ops c = its_flash_fs_ops_ram" "cfg_ok c" "ram_ok (flash_cfg c) (dev s)"
  shows "\<exists>t. its_flash_fs_wipe_all c s = (Inr (), t)
    \<and> fs_inv (ram_content (flash_cfg c)) (ram_ok (flash_cfg c)) c t \<and> ram_files c t = Map.empty"
  by (rule ram_wipe[OF assms])

theorem its_flash_fs_wipe_all_empties_witness:
  "\<exists>t. its_flash_fs_wipe_all wit_cfg wit_one = (Inr (), t) \<and> ram_files wit_cfg t = Map.empty"
  using its_flash_fs_wipe_all_empties[of wit_cfg wit_one] wit_one_facts(2)
  by (auto simp: fs_inv_def fs_layout_inv_def Let_def)

text \<open>
  Remounting: its_flash_fs_prepare on the device a file system left behind, with any
  context (the RAM state is lost at a reset), succeeds and finds the same files.
\<close>

theorem its_flash_fs_prepare_remounts:
  assumes "ops c = its_flash_fs_ops_ram" "fs_inv (ram_content (flash_cfg c)) (ram_ok (flash_cfg c)) c s"
    "erase_val (flash_cfg c) \<notin> {1, 2}" "dev s' = dev s"
  shows "\<exists>t. its_flash_fs_prepare c s' = (Inr (), t)
    \<and> fs_inv (ram_content (flash_cfg c)) (ram_ok (flash_cfg c)) c t \<and> ram_files c t = ram_files c s"
  by (rule ram_remount[OF assms])

theorem its_flash_fs_prepare_remounts_witness:
  "\<exists>t. its_flash_fs_prepare wit_cfg (zero_ctx (dev wit_one)) = (Inr (), t)
     \<and> ram_files wit_cfg t = [wit_fid \<mapsto> \<lparr>file_max = 8, file_flags = 0x30001, file_data = [1, 2, 3]\<rparr>]"
  using its_flash_fs_prepare_remounts[of wit_cfg wit_one "zero_ctx (dev wit_one)"] by (auto simp: zero_ctx_def)

text \<open>
  A stored file survives a reset: when a create-or-truncate write of the whole data
  succeeds, then after a remount from any context a read of any part of it returns that part.
\<close>

theorem its_file_write_reset_read:
  assumes "ops c = its_flash_fs_ops_ram" "fs_inv (ram_content (flash_cfg c)) (ram_ok (flash_cfg c)) c s"
    and "max_alignment c = 1" "erase_val (flash_cfg c) \<notin> {1, 2}" "fid_valid f" "length f = ITS_FILE_ID_SIZE"
    and trunc: "info_flags finfo AND ITS_FLASH_FS_FLAG_TRUNCATE \<noteq> 0"
    and w: "its_flash_fs_file_write c f (Some finfo) (length data) 0 data s = (Inr finfo, t)"
    and t': "dev t' = dev t" and r: "0 < n" "off + n \<le> length data"
  shows "\<exists>u. its_flash_fs_prepare c t' = (Inr (), u) \<and> its_flash_fs_file_read c f n off u = (Inr (rd data off n), u)"
proof -
  have e: "file_data (write_base finfo (ram_files c s f)) = []"
    using trunc by (auto simp: write_base_def Let_def split: option.splits)
  have wa: "file_data (write_at (length data) 0 data (write_base finfo (ram_files c s f))) = data"
    using r e by (simp add: write_at_def)
  have "ram_fs_inv c t \<and> ram_files c t f = Some (write_at (length data) 0 data (write_base finfo (ram_files c s f)))"
    using ram_write[OF assms(1-3,5,6), of "length data" data finfo 0] e w by (auto split: option.splits)
  then obtain u where u: "its_flash_fs_prepare c t' = (Inr (), u)" "ram_fs_inv c u"
    "ram_files c u f = Some (write_at (length data) 0 data (write_base finfo (ram_files c s f)))"
    using ram_remount[OF assms(1) _ assms(4) t'] by auto
  then show ?thesis using ram_read[OF assms(1) u(2) assms(5,6) r(1), of off] r(2) wa by simp
qed

theorem its_file_write_reset_read_witness:
  "\<exists>u. its_flash_fs_prepare wit_cfg (zero_ctx (dev wit_one)) = (Inr (), u)
     \<and> its_flash_fs_file_read wit_cfg wit_fid 2 1 u = (Inr [2, 3], u)"
  using its_file_write_reset_read[of wit_cfg wit_empty wit_fid wit_info "[1, 2, 3]" wit_one "zero_ctx (dev wit_one)" 2 1]
  by (simp add: zero_ctx_def rd_def numeral_3_eq_3[symmetric]) (simp add: wit_info_def its_fs_flag_consts)

section \<open>Space and metadata\<close>

text \<open>
  No space leaks: in every state of a run, the free size of each logical block and the
  maximum sizes of the files placed in it add up to the size of the block (less the metadata
  tables in logical block 0).
\<close>

theorem its_fs_free_space_accounting:
  assumes "its_fs_run c s F" "ops c = its_flash_fs_ops_ram" "cfg_ok c" "max_alignment c = 1"
    "erase_val (flash_cfg c) \<notin> {1, 2}" "l < n_lblocks c" "m = active_meta (ram_content (flash_cfg c)) s"
  shows "(\<Sum>i \<in> files_in c (fmeta c m) l. max_size (fmeta c m i)) + free_size (bmeta m l)
    = block_size (flash_cfg c) - (if l = 0 then its_mblock_file_meta_offset c (max_num_files c) else 0)"
proof -
  have "layout_ok c (active_metablock s) (scratch_dblock (meta_block_header s)) (bmeta m) (fmeta c m)"
    using its_fs_run_inv[OF assms(1-5)] assms(7) by (auto simp: fs_inv_def fs_layout_inv_def Let_def)
  moreover have "its_mblock_file_meta_offset c (max_num_files c) = meta_end c"
    using assms(3) cfg_ok_bounds(8)[OF assms(3)] by (simp add: meta_end_def)
  ultimately show ?thesis using tiled_sum[OF _ assms(6)] by (simp add: lb_start_def)
qed

theorem its_fs_free_space_accounting_witness:
  "\<exists>m. (\<Sum>i \<in> files_in wit_cfg (fmeta wit_cfg m) 1. max_size (fmeta wit_cfg m i)) + free_size (bmeta m 1) = 256"
  using its_fs_free_space_accounting[OF wit_run _ _ _ _ _ refl, of 1] by (auto simp: n_lblocks_def)

text \<open>
  An empty file system with at least two file entries accepts any file of up to the
  configured maximum size: the write of its data succeeds.
\<close>

theorem its_fs_empty_accepts:
  assumes "ops c = its_flash_fs_ops_ram" "fs_inv (ram_content (flash_cfg c)) (ram_ok (flash_cfg c)) c s"
    "max_alignment c = 1" "ram_files c s = Map.empty" "2 \<le> max_num_files c"
    "fid_valid f" "length f = ITS_FILE_ID_SIZE" "size_max finfo \<le> max_file_size c" "length data \<le> size_max finfo"
    "info_flags finfo AND ITS_FLASH_FS_INTERNAL_FLAGS_MASK = 0" "info_flags finfo AND ITS_FLASH_FS_FLAG_CREATE \<noteq> 0"
  shows "\<exists>t. its_flash_fs_file_write c f (Some finfo) (length data) 0 data s = (Inr finfo, t)
    \<and> ram_files c t = [f \<mapsto> \<lparr>file_max = size_max finfo, file_flags = info_flags finfo, file_data = data\<rparr>]"
proof -
  have "has_room (ram_content (flash_cfg c)) c s (size_max finfo) False"
    by (rule empty_has_room[OF assms(2,4,5,8) ram_active_length[OF assms(2)]])
  then have st: "ram_write_status c s f finfo (length data) 0 = None"
    using assms by (simp add: write_status_def Let_def write_base_def)
  have "write_at (length data) 0 data (write_base finfo None)
      = \<lparr>file_max = size_max finfo, file_flags = info_flags finfo, file_data = data\<rparr>"
    by (simp add: write_at_def write_base_def)
  then show ?thesis
    using ram_write[OF assms(1,2,3,6,7), of "length data" data finfo 0] st assms(4) by (auto simp: write_base_def)
qed

theorem its_fs_empty_accepts_witness:
  "\<exists>t. its_flash_fs_file_write wit_cfg wit_fid (Some wit_info) 3 0 [4, 5, 6] wit_empty = (Inr wit_info, t)
     \<and> ram_files wit_cfg t = [wit_fid \<mapsto> \<lparr>file_max = 8, file_flags = 0x30001, file_data = [4, 5, 6]\<rparr>]"
  using its_fs_empty_accepts[of wit_cfg wit_empty wit_fid wit_info "[4, 5, 6]"]
  by (simp add: wit_info_def its_fs_flag_consts numeral_3_eq_3)

text \<open>
  C30. Corrupted tables are refused: when one byte of the block or file table of the active
  metadata block changes while the file system is not mounted, the checksum no longer matches
  and its_flash_fs_prepare returns an error instead of mounting.
\<close>

theorem its_flash_fs_prepare_detects_corruption:
  assumes "ops c = its_flash_fs_ops_ram" "fs_inv (ram_content (flash_cfg c)) (ram_ok (flash_cfg c)) c s"
    "erase_val (flash_cfg c) \<notin> {1, 2}" "validate_metadata c" "8 \<le> p" "p < its_flash_fs_all_metadata_size c"
    "x \<noteq> active_meta (ram_content (flash_cfg c)) s ! p"
    "dev s' = ram_upd (flash_cfg c) (dev s) (active_metablock s)
       ((active_meta (ram_content (flash_cfg c)) s)[p := x])"
  shows "its_flash_fs_prepare c s' = (Inl PSA_ERROR_GENERIC_ERROR, s')"
proof -
  have li: "fs_layout_inv (ram_content (flash_cfg c)) (ram_ok (flash_cfg c)) c s" and "cfg_ok c"
    using assms(2) by (auto simp: fs_inv_def fs_layout_inv_def Let_def)
  then have "its_flash_fs_all_metadata_size c = meta_end c" by (simp add: all_metadata_size_eq)
  then show ?thesis
    using rfs.corrupted_refused[of c s p x s'] li assms unfolding ram_config_id[OF assms(1)] by simp
qed

theorem its_flash_fs_prepare_detects_corruption_witness:
  "\<exists>x s'. its_flash_fs_prepare wit_cfg s' = (Inl PSA_ERROR_GENERIC_ERROR, s')
     \<and> x \<noteq> active_meta (ram_content (flash_cfg wit_cfg)) wit_one ! 8
     \<and> dev s' = ram_upd (flash_cfg wit_cfg) (dev wit_one) (active_metablock wit_one)
          ((active_meta (ram_content (flash_cfg wit_cfg)) wit_one)[8 := x])"
proof -
  let ?m = "active_meta (ram_content (flash_cfg wit_cfg)) wit_one"
  let ?s = "zero_ctx (ram_upd (flash_cfg wit_cfg) (dev wit_one) (active_metablock wit_one) (?m[8 := ?m ! 8 + 1]))"
  have "its_flash_fs_prepare wit_cfg ?s = (Inl PSA_ERROR_GENERIC_ERROR, ?s)"
    by (rule its_flash_fs_prepare_detects_corruption[of wit_cfg wit_one 8 "?m ! 8 + 1"])
      (simp_all add: zero_ctx_def, simp_all add: wit_cfg_def all_metadata_size_eq meta_end_def fm_pos_def its_consts
        its_flash_fs_all_metadata_size_def its_flash_fs_num_active_dblocks_def wrap_simps)
  then show ?thesis by (intro exI[of _ "?m ! 8 + 1"] exI[of _ ?s]) (simp add: zero_ctx_def)
qed

text \<open>
  its_flash_fs_validate_config accepts a configuration exactly when there are two or at
  least four blocks, the metadata tables fit in one block, and a file of the maximum size fits
  in a block (beside the tables when there are only two blocks). The 32-bit arithmetic of the
  check does not wrap for values of the types of the structure.
\<close>

theorem its_flash_fs_validate_config_iff:
  assumes "cfg_typed c"
  shows "its_flash_fs_validate_config c = Inr () \<longleftrightarrow>
    (let nb = num_blocks (flash_cfg c); bs = block_size (flash_cfg c);
         tables = 8 + 12 * (if nb = 2 then 1 else nb - 2) + 32 * max_num_files c
     in (nb = 2 \<or> 4 \<le> nb) \<and> tables \<le> bs \<and> max_file_size c \<le> bs \<and> (nb = 2 \<longrightarrow> tables + max_file_size c \<le> bs))"
  using validate_config_iff[OF assms] assms
  by (auto simp: cfg_ok_def meta_end_def fm_pos_def n_lblocks_def Let_def)

theorem its_flash_fs_validate_config_iff_witness: "its_flash_fs_validate_config wit_cfg = Inr ()"
  using its_flash_fs_validate_config_iff[of wit_cfg] by (simp add: wit_cfg_def cfg_typed_def)

text \<open>
  Choosing between two valid metadata blocks: when one block's swap count is the successor
  of the other's (skipping the erase value, wrapping at 8 bits), its_mblock_latest_meta_block
  picks the successor, whichever of the two blocks it is in, for both usual erase values.
\<close>

theorem its_mblock_latest_meta_block_newest:
  assumes "erase_val (flash_cfg c) \<in> {0, 255}"
    "its_mblock_validate_swap_count c (active_swap_count h) = Inr ()"
    "active_swap_count h' = next_swap_count c (active_swap_count h)"
  shows "its_mblock_latest_meta_block c h h' = ITS_METADATA_BLOCK1
    \<and> its_mblock_latest_meta_block c h' h = ITS_METADATA_BLOCK0"
  using latest_meta_block_succ[OF assms] by simp

theorem its_mblock_latest_meta_block_newest_witness:
  "its_mblock_latest_meta_block wit_cfg
     \<lparr>scratch_dblock = 2, fs_version = 2, metadata_xor = 0, active_swap_count = 254, header_pad = 0\<rparr>
     \<lparr>scratch_dblock = 2, fs_version = 2, metadata_xor = 0, active_swap_count = 0, header_pad = 0\<rparr> = ITS_METADATA_BLOCK1"
  using its_mblock_latest_meta_block_newest[of wit_cfg
      "\<lparr>scratch_dblock = 2, fs_version = 2, metadata_xor = 0, active_swap_count = 254, header_pad = 0\<rparr>"
      "\<lparr>scratch_dblock = 2, fs_version = 2, metadata_xor = 0, active_swap_count = 0, header_pad = 0\<rparr>"]
  by (simp add: its_mblock_validate_swap_count_def next_swap_count_def)

text \<open>
  its_flash_fs_block_to_block_move, the loop that copies in chunks of
  \<open>ITS_MAX_BLOCK_DATA_COPY\<close> bytes, is one copy of the whole range, for any two different blocks
  and any ranges that fit in a block.
\<close>

theorem its_flash_fs_block_to_block_move_copies:
  assumes "ops c = its_flash_fs_ops_ram" "ram_ok (flash_cfg c) (dev s)"
    "dst < num_blocks (flash_cfg c)" "src < num_blocks (flash_cfg c)" "dst \<noteq> src"
    "block_size (flash_cfg c) < 2 ^ 32" "doff + n \<le> block_size (flash_cfg c)" "soff + n \<le> block_size (flash_cfg c)"
  shows "its_flash_fs_block_to_block_move c dst doff src soff n s
    = (Inr (), s\<lparr>dev := ram_upd (flash_cfg c) (dev s) dst
         (wr (ram_content (flash_cfg c) (dev s) dst) doff (rd (ram_content (flash_cfg c) (dev s) src) soff n))\<rparr>)"
  using rfs.block_to_block_move_ok[of c s dst src doff n soff] assms unfolding ram_config_id[OF assms(1)] by simp

theorem its_flash_fs_block_to_block_move_copies_witness:
  "\<exists>t. its_flash_fs_block_to_block_move wit_cfg 3 0 2 1 255 wit_ctx = (Inr (), t) \<and> length (dev t) = 1024"
  using its_flash_fs_block_to_block_move_copies[of wit_cfg wit_ctx 3 2 0 255 1]
  by (simp add: wit_ctx_def zero_ctx_def ram_ok_def) (simp add: ram_upd_def ram_content_def)

text \<open>
  The structures programmed to flash are recovered from their bytes: header, block entry and
  file entry, for field values of their C types.
\<close>

theorem its_metadata_roundtrip:
  assumes "scratch_dblock h < 2 ^ 32" "phy_id b < 2 ^ 32" "data_start b < 2 ^ 32" "free_size b < 2 ^ 32"
    "file_meta_typed f"
  shows "header_of_bytes (header_bytes h) = h \<and> block_meta_of_bytes (block_meta_bytes b) = b
    \<and> file_meta_of_bytes (file_meta_bytes f) = f"
  using assms header_roundtrip[of h] block_meta_roundtrip[of b] file_meta_roundtrip[of f] by simp

theorem its_metadata_roundtrip_witness:
  "file_meta_of_bytes (file_meta_bytes zero_file_meta) = zero_file_meta"
  using its_metadata_roundtrip[of "meta_block_header wit_ctx" "\<lparr>phy_id = 1, data_start = 128, free_size = 128\<rparr>" zero_file_meta]
  by (simp add: wit_ctx_def zero_ctx_def file_meta_typed_def zero_file_meta_def)

end
