(* ===== verification/SPM_Base.thy ===== *)
theory SPM_Base
  imports TFM_Prelude "HOL-Library.Monad_Syntax"
begin

text \<open>
  The vocabulary of the Secure Partition Manager: 32-bit words for addresses, handles, sizes and
  signals, memory as a function from addresses to bytes, and status values as integers
  (\<open>psa_status_t\<close> is \<open>int32_t\<close>, and replies also carry handles). An SPM routine is a function from
  the state to \<open>('a \<times> state) option\<close>: \<open>None\<close> is \<open>tfm_core_panic\<close>, which does not return.
  \<open>SPM_ASSERT\<close> is empty, as in release builds.
\<close>

type_synonym u32 = "32 word"
type_synonym psa_status_t = int

named_theorems spm_simps \<open>constants of the partition manager\<close>

section \<open>Status values\<close>

definition PSA_SUCCESS :: psa_status_t where [spm_simps]: "PSA_SUCCESS = 0"

text \<open>The numbers of the error codes (interface/include/psa/error.h).\<close>

fun psa_error_code :: "psa_error \<Rightarrow> psa_status_t" where
  "psa_error_code PSA_ERROR_PROGRAMMER_ERROR = -129"
| "psa_error_code PSA_ERROR_CONNECTION_REFUSED = -130"
| "psa_error_code PSA_ERROR_CONNECTION_BUSY = -131"
| "psa_error_code PSA_ERROR_GENERIC_ERROR = -132"
| "psa_error_code PSA_ERROR_NOT_PERMITTED = -133"
| "psa_error_code PSA_ERROR_NOT_SUPPORTED = -134"
| "psa_error_code PSA_ERROR_INVALID_ARGUMENT = -135"
| "psa_error_code PSA_ERROR_INVALID_HANDLE = -136"
| "psa_error_code PSA_ERROR_BAD_STATE = -137"
| "psa_error_code PSA_ERROR_BUFFER_TOO_SMALL = -138"
| "psa_error_code PSA_ERROR_ALREADY_EXISTS = -139"
| "psa_error_code PSA_ERROR_DOES_NOT_EXIST = -140"
| "psa_error_code PSA_ERROR_INSUFFICIENT_MEMORY = -141"
| "psa_error_code PSA_ERROR_INSUFFICIENT_STORAGE = -142"
| "psa_error_code PSA_ERROR_STORAGE_FAILURE = -146"
| "psa_error_code PSA_ERROR_INVALID_SIGNATURE = -149"
| "psa_error_code PSA_ERROR_DATA_CORRUPT = -152"

definition SPM_ERROR_BAD_PARAMETERS :: psa_status_t where [spm_simps]: "SPM_ERROR_BAD_PARAMETERS = -249"
definition SPM_ERROR_VERSION :: psa_status_t where [spm_simps]: "SPM_ERROR_VERSION = -251"
definition SPM_ERROR_GENERIC :: psa_status_t where [spm_simps]: "SPM_ERROR_GENERIC = -253"
definition STATUS_NEED_SCHEDULE :: psa_status_t where [spm_simps]: "STATUS_NEED_SCHEDULE = -254"

section \<open>Memory\<close>

type_synonym memory = "u32 \<Rightarrow> byte"

definition mem_rd :: "memory \<Rightarrow> u32 \<Rightarrow> nat \<Rightarrow> byte list" where
  "mem_rd m a n = map (\<lambda>i. m (a + word_of_nat i)) [0..<n]"

definition mem_wr :: "memory \<Rightarrow> u32 \<Rightarrow> byte list \<Rightarrow> memory" where
  "mem_wr m a bs = (\<lambda>x. if unat (x - a) < length bs then bs ! unat (x - a) else m x)"

text \<open>A little-endian 32-bit word in memory.\<close>

definition mem_rd32 :: "memory \<Rightarrow> u32 \<Rightarrow> u32" where
  "mem_rd32 m a = word_of_nat (de32 (mem_rd m a 4))"

definition mem_wr32 :: "memory \<Rightarrow> u32 \<Rightarrow> u32 \<Rightarrow> memory" where
  "mem_wr32 m a w = mem_wr m a (le32 (unat w))"

lemma length_mem_rd [simp]: "length (mem_rd m a n) = n"
  by (simp add: mem_rd_def)

lemma nth_mem_rd [simp]: "i < n \<Longrightarrow> mem_rd m a n ! i = m (a + word_of_nat i)"
  by (simp add: mem_rd_def)

lemma mem_wr_Nil [simp]: "mem_wr m a [] = m"
  by (simp add: mem_wr_def)

lemma mem_rd_wr_same:
  assumes "length bs \<le> 2 ^ 32"
  shows "mem_rd (mem_wr m a bs) a (length bs) = bs"
proof (rule nth_equalityI)
  fix i assume "i < length (mem_rd (mem_wr m a bs) a (length bs))"
  then have i: "i < length bs" by simp
  then have "unat (word_of_nat i :: u32) = i" using assms by (simp add: unat_of_nat)
  then show "mem_rd (mem_wr m a bs) a (length bs) ! i = bs ! i" using i by (simp add: mem_wr_def)
qed simp

lemma mem_wr_other: "length bs \<le> unat (x - a) \<Longrightarrow> mem_wr m a bs x = m x"
  by (simp add: mem_wr_def)

lemma mem_rd_append: "mem_rd m a (n + k) = mem_rd m a n @ mem_rd m (a + word_of_nat n) k"
proof (rule nth_equalityI)
  fix i assume i: "i < length (mem_rd m a (n + k))"
  show "mem_rd m a (n + k) ! i = (mem_rd m a n @ mem_rd m (a + word_of_nat n) k) ! i"
  proof (cases "i < n")
    case False
    then have "a + word_of_nat i = a + word_of_nat n + word_of_nat (i - n)"
      by (simp add: of_nat_diff)
    then show ?thesis using i False by (simp add: nth_append)
  qed (use i in \<open>simp add: nth_append\<close>)
qed simp

lemma take_mem_rd: "k \<le> n \<Longrightarrow> take k (mem_rd m a n) = mem_rd m a k"
  by (simp add: mem_rd_def take_map)

lemma rd_mem_rd: "off + k \<le> n \<Longrightarrow> rd (mem_rd m a n) off k = mem_rd m (a + word_of_nat off) k"
  by (rule nth_equalityI) (simp_all add: nth_rd add.assoc)

lemma nth_list_update_if: "xs[i := v] ! j = (if i = j \<and> j < length xs then v else xs ! j)"
  by (cases "i < length xs") (auto simp: nth_list_update list_update_beyond)

section \<open>Sums of words\<close>

lemma unat_u32_lt: "unat (w :: u32) < 2 ^ 32"
  using unsigned_less[of w, where ?'a = nat] by simp

lemma unat_of_nat_self: "word_of_nat (unat w) = (w :: u32)"
  by simp

lemma unat_add_lt: "unat (a :: u32) + unat b < 2 ^ 32 \<Longrightarrow> unat (a + b) = unat a + unat b"
  by (simp add: unat_word_ariths)

lemma unat_sub_le: "b \<le> a \<Longrightarrow> unat (a - b :: u32) = unat a - unat b"
  by (simp add: unat_sub)

lemma unat_of_nat_lt: "n < 2 ^ 32 \<Longrightarrow> unat (word_of_nat n :: u32) = n"
  by (simp add: unat_of_nat)

end
