(* ===== verification/SPM_Pool.thy ===== *)
theory SPM_Pool
  imports SPM_Base
begin

text \<open>
  Memory pools (src/secure_fw/spm/core/tfm_pools.c). A pool is the address of its buffer, the list
  of its free chunks (the chain of \<open>next\<close> pointers from the pool head, as addresses of chunk
  headers), the two size fields, and the \<open>magic\<close> word of every chunk header, as a function of the
  header's address: \<open>is_valid_chunk_data_in_pool\<close> computes such an address from a pointer of the
  caller. The locale \<open>allocator\<close> is what the connection code relies on.
\<close>

section \<open>The code\<close>

record tfm_pool_instance_t =
  pool_addr :: u32
  pool_next :: "u32 list"
  chunksz :: u32
  pool_sz :: u32
  chunk_magic :: "u32 \<Rightarrow> u32"

text \<open>Sizes of \<open>struct tfm_pool_chunk_t\<close> and \<open>struct tfm_pool_instance_t\<close> on a 32-bit target.\<close>

definition SIZEOF_POOL_CHUNK :: u32 where "SIZEOF_POOL_CHUNK = 8"
definition SIZEOF_POOL_INSTANCE :: u32 where "SIZEOF_POOL_INSTANCE = 12"
definition POOL_MAGIC_ALLOCATED :: u32 where "POOL_MAGIC_ALLOCATED = 0xF0F0CCAA"

lemmas pool_consts = SIZEOF_POOL_CHUNK_def SIZEOF_POOL_INSTANCE_def POOL_MAGIC_ALLOCATED_def

definition pool_chunks :: "tfm_pool_instance_t \<Rightarrow> u32" where
  "pool_chunks p = pool_addr p + SIZEOF_POOL_INSTANCE"

fun chain_chunks :: "nat \<Rightarrow> u32 \<Rightarrow> u32 \<Rightarrow> u32 list \<Rightarrow> u32 list" where
  "chain_chunks 0 pchunk csz next = next"
| "chain_chunks (Suc n) pchunk csz next =
     chain_chunks n (pchunk + SIZEOF_POOL_CHUNK + csz) csz (pchunk # next)"

definition tfm_pool_init :: "tfm_pool_instance_t \<Rightarrow> u32 \<Rightarrow> u32 \<Rightarrow> u32 \<Rightarrow> psa_status_t \<times> tfm_pool_instance_t" where
  "tfm_pool_init p poolsz csz num =
     (if pool_addr p = 0 \<or> num = 0 then (SPM_ERROR_BAD_PARAMETERS, p)
      else if poolsz \<noteq> (csz + SIZEOF_POOL_CHUNK) * num + SIZEOF_POOL_INSTANCE then (SPM_ERROR_BAD_PARAMETERS, p)
      else (PSA_SUCCESS,
        p\<lparr>pool_next := chain_chunks (unat num) (pool_chunks p) csz [],
          chunksz := csz, pool_sz := poolsz,
          chunk_magic := (\<lambda>a. if a + 4 - pool_addr p < poolsz then 0 else chunk_magic p a)\<rparr>))"

text \<open>The result 0 is \<open>NULL\<close>.\<close>

definition tfm_pool_alloc :: "tfm_pool_instance_t \<Rightarrow> u32 \<times> tfm_pool_instance_t" where
  "tfm_pool_alloc p =
     (case pool_next p of
        [] \<Rightarrow> (0, p)
      | node # rest \<Rightarrow>
          (node + SIZEOF_POOL_CHUNK,
           p\<lparr>pool_next := rest, chunk_magic := (chunk_magic p)(node := POOL_MAGIC_ALLOCATED)\<rparr>))"

definition tfm_pool_free :: "u32 \<Rightarrow> tfm_pool_instance_t \<Rightarrow> tfm_pool_instance_t" where
  "tfm_pool_free ptr p =
     (let pchunk = ptr - SIZEOF_POOL_CHUNK
      in p\<lparr>chunk_magic := (chunk_magic p)(pchunk := 0), pool_next := pchunk # pool_next p\<rparr>)"

definition is_valid_chunk_data_in_pool :: "tfm_pool_instance_t \<Rightarrow> u32 \<Rightarrow> bool" where
  "is_valid_chunk_data_in_pool p data =
     (let chunks_start = pool_chunks p; chunks_offset = data - chunks_start
      in if data < chunks_start \<or> chunks_offset \<ge> pool_sz p then False
         else if chunks_offset mod (chunksz p + SIZEOF_POOL_CHUNK) \<noteq> SIZEOF_POOL_CHUNK then False
         else if chunk_magic p (data - SIZEOF_POOL_CHUNK) \<noteq> POOL_MAGIC_ALLOCATED then False
         else True)"

section \<open>What an allocator promises\<close>

locale allocator =
  fixes alloc :: "'s \<Rightarrow> 'p option \<times> 's"
    and release :: "'p \<Rightarrow> 's \<Rightarrow> 's"
    and live :: "'s \<Rightarrow> 'p set"
    and ok :: "'s \<Rightarrow> bool"
    and capacity :: "'s \<Rightarrow> nat"
  assumes alloc_fresh: "ok s \<Longrightarrow> alloc s = (Some p, s') \<Longrightarrow>
      p \<notin> live s \<and> live s' = insert p (live s) \<and> ok s' \<and> capacity s' = capacity s"
    and alloc_none: "ok s \<Longrightarrow> alloc s = (None, s') \<Longrightarrow> s' = s \<and> card (live s) = capacity s"
    and release_live: "ok s \<Longrightarrow> p \<in> live s \<Longrightarrow>
      live (release p s) = live s - {p} \<and> ok (release p s) \<and> capacity (release p s) = capacity s"
    and live_bound: "ok s \<Longrightarrow> finite (live s) \<and> card (live s) \<le> capacity s"
begin

lemma alloc_succeeds_iff:
  assumes "ok s"
  shows "(\<exists>p s'. alloc s = (Some p, s')) \<longleftrightarrow> card (live s) < capacity s"
proof -
  obtain r s' where a: "alloc s = (r, s')" by fastforce
  show ?thesis
  proof (cases r)
    case None
    then show ?thesis using alloc_none[OF assms] a by auto
  next
    case (Some p)
    then have f: "p \<notin> live s" "live s' = insert p (live s)" "ok s'" "capacity s' = capacity s"
      using alloc_fresh[OF assms] a by auto
    then have "Suc (card (live s)) \<le> capacity s" using live_bound[OF assms] live_bound[OF f(3)] by simp
    then show ?thesis using a Some by auto
  qed
qed

lemma alloc_release:
  assumes "ok s" "alloc s = (Some p, s')"
  shows "live (release p s') = live s" "ok (release p s')"
proof -
  have "p \<notin> live s" "live s' = insert p (live s)" "ok s'" using alloc_fresh[OF assms] by auto
  then show "live (release p s') = live s" "ok (release p s')" using release_live[of s' p] by auto
qed

end

section \<open>Chunk addresses\<close>

definition chunk_size :: "tfm_pool_instance_t \<Rightarrow> nat" where
  "chunk_size p = unat (chunksz p) + 8"

definition chunk_at :: "tfm_pool_instance_t \<Rightarrow> nat \<Rightarrow> u32" where
  "chunk_at p i = word_of_nat (unat (pool_addr p) + 12 + i * chunk_size p)"

definition pool_num :: "tfm_pool_instance_t \<Rightarrow> nat" where
  "pool_num p = (unat (pool_sz p) - 12) div chunk_size p"

text \<open>
  A pool in use: its buffer lies in the address space, the size field counts header and chunks,
  the free chain holds different chunks of the pool, and the allocated ones carry the magic word.
\<close>

definition pool_ok :: "tfm_pool_instance_t \<Rightarrow> bool" where
  "pool_ok p \<longleftrightarrow> 0 < pool_num p \<and> chunksz p \<noteq> 0 \<and> unat (pool_sz p) = 12 + pool_num p * chunk_size p
     \<and> unat (pool_addr p) + unat (pool_sz p) + 16 < 2 ^ 32
     \<and> distinct (pool_next p) \<and> set (pool_next p) \<subseteq> chunk_at p ` {..<pool_num p}
     \<and> (\<forall>i < pool_num p. chunk_magic p (chunk_at p i) = POOL_MAGIC_ALLOCATED \<longleftrightarrow> chunk_at p i \<notin> set (pool_next p))"

text \<open>The data pointers handed out and not returned.\<close>

definition pool_live :: "tfm_pool_instance_t \<Rightarrow> u32 set" where
  "pool_live p = (\<lambda>a. a + SIZEOF_POOL_CHUNK) ` (chunk_at p ` {..<pool_num p} - set (pool_next p))"

lemma chunk_size_pos [simp]: "0 < chunk_size p" "8 \<le> chunk_size p"
  by (simp_all add: chunk_size_def)

lemma unat_chunk_at:
  assumes "pool_ok p" "i \<le> pool_num p"
  shows "unat (chunk_at p i) = unat (pool_addr p) + 12 + i * chunk_size p"
proof -
  have "i * chunk_size p \<le> pool_num p * chunk_size p" using assms(2) by (rule mult_le_mono1)
  moreover have "unat (pool_sz p) = 12 + pool_num p * chunk_size p" "unat (pool_addr p) + unat (pool_sz p) + 16 < 2 ^ 32"
    using assms(1) by (auto simp: pool_ok_def)
  ultimately have "unat (pool_addr p) + 12 + i * chunk_size p < 2 ^ 32" by linarith
  then show ?thesis unfolding chunk_at_def by (rule unat_of_nat_lt)
qed

lemma chunk_at_inj: "pool_ok p \<Longrightarrow> inj_on (chunk_at p) {..<pool_num p}"
  by (rule inj_onI) (metis unat_chunk_at add_left_cancel chunk_size_pos(1) lessThan_iff less_imp_le mult_cancel2 not_less0)

lemma add_chunk_inj: "inj (\<lambda>a :: u32. a + SIZEOF_POOL_CHUNK)"
  by (rule injI) simp

lemma pool_okD:
  assumes "pool_ok p"
  shows "unat (pool_sz p) = 12 + pool_num p * chunk_size p" "unat (pool_addr p) + unat (pool_sz p) + 16 < 2 ^ 32"
    "0 < pool_num p" "distinct (pool_next p)" "set (pool_next p) \<subseteq> chunk_at p ` {..<pool_num p}"
    "unat (chunksz p + SIZEOF_POOL_CHUNK) = chunk_size p"
    "unat (pool_chunks p) = unat (pool_addr p) + 12"
proof -
  show *: "unat (pool_sz p) = 12 + pool_num p * chunk_size p" "unat (pool_addr p) + unat (pool_sz p) + 16 < 2 ^ 32"
    "0 < pool_num p" "distinct (pool_next p)" "set (pool_next p) \<subseteq> chunk_at p ` {..<pool_num p}"
    using assms by (auto simp: pool_ok_def)
  have "1 * chunk_size p \<le> pool_num p * chunk_size p" using *(3) by (intro mult_le_mono1) simp
  then have "chunk_size p < 2 ^ 32" using *(1,2) by linarith
  then show "unat (chunksz p + SIZEOF_POOL_CHUNK) = chunk_size p"
    by (subst unat_add_lt) (simp_all add: chunk_size_def pool_consts)
  show "unat (pool_chunks p) = unat (pool_addr p) + 12"
    unfolding pool_chunks_def using *(2) by (subst unat_add_lt) (simp_all add: pool_consts)
qed

text \<open>The data pointers that pass the address checks: the chunks of the pool and one more behind it.\<close>

lemma valid_address_iff:
  assumes ok: "pool_ok p"
  shows "(pool_chunks p \<le> d \<and> d - pool_chunks p < pool_sz p
       \<and> (d - pool_chunks p) mod (chunksz p + SIZEOF_POOL_CHUNK) = SIZEOF_POOL_CHUNK)
    \<longleftrightarrow> (\<exists>i \<le> pool_num p. d = chunk_at p i + SIZEOF_POOL_CHUNK)" (is "?L \<longleftrightarrow> ?R")
proof
  note o = pool_okD[OF ok]
  let ?c = "chunk_size p" and ?o = "unat (d - pool_chunks p)"
  {
    assume L: ?L
    then have le: "unat (pool_chunks p) \<le> unat d" by (simp add: word_le_nat_alt)
    have uo: "?o = unat d - unat (pool_chunks p)" using L by (simp add: unat_sub)
    have lt: "?o < 12 + pool_num p * ?c" using L o(1) by (simp add: word_less_nat_alt)
    have "unat ((d - pool_chunks p) mod (chunksz p + SIZEOF_POOL_CHUNK)) = 8" using L by (simp add: pool_consts)
    then have m: "?o mod ?c = 8" by (simp add: unat_mod o(6))
    then have "8 < ?c" using mod_less_divisor[of ?c ?o] by (cases "?c = 8") (auto simp: chunk_size_def)
    define i where "i = ?o div ?c"
    have oi: "?o = i * ?c + 8" using m div_mult_mod_eq[of ?o ?c] by (simp add: i_def)
    have "i * ?c < Suc (pool_num p) * ?c" using lt oi \<open>8 < ?c\<close> by simp
    then have i: "i \<le> pool_num p" by (simp only: mult_less_cancel2) simp
    have "unat d = unat (chunk_at p i) + 8" using le uo oi unat_chunk_at[OF ok i] o(7) by linarith
    then have "d = word_of_nat (unat (chunk_at p i) + 8)" by (metis unat_of_nat_self)
    then have "d = chunk_at p i + SIZEOF_POOL_CHUNK" by (simp add: pool_consts)
    then show ?R using i by blast
  next
    assume ?R
    then obtain i where i: "i \<le> pool_num p" "d = chunk_at p i + SIZEOF_POOL_CHUNK" by blast
    have b: "i * ?c \<le> pool_num p * ?c" using i(1) by (rule mult_le_mono1)
    have "unat (pool_addr p) + 12 + i * ?c + 8 < 2 ^ 32" using b o(1,2) by linarith
    then have ud: "unat d = unat (pool_addr p) + 12 + i * ?c + 8"
      unfolding i(2) using unat_chunk_at[OF ok i(1)] by (subst unat_add_lt) (simp_all add: pool_consts)
    then have le: "pool_chunks p \<le> d" using o(7) by (simp add: word_le_nat_alt)
    then have uo: "?o = i * ?c + 8" using ud o(7) by (simp add: unat_sub)
    have "unat (chunksz p) \<noteq> 0" using ok by (simp add: pool_ok_def unat_eq_0)
    then have "8 < ?c" by (simp add: chunk_size_def)
    then have "unat ((d - pool_chunks p) mod (chunksz p + SIZEOF_POOL_CHUNK)) = 8" by (simp add: unat_mod o(6) uo)
    then have "(d - pool_chunks p) mod (chunksz p + SIZEOF_POOL_CHUNK) = SIZEOF_POOL_CHUNK"
      by (simp add: pool_consts word_unat_eq_iff)
    moreover have "?o < unat (pool_sz p)" using uo b o(1) by linarith
    then have "d - pool_chunks p < pool_sz p" by (simp only: word_less_nat_alt)
    ultimately show ?L using le by blast
  }
qed

lemma pool_num_upd [simp]:
  "pool_num (p\<lparr>pool_next := x\<rparr>) = pool_num p" "pool_num (p\<lparr>chunk_magic := y\<rparr>) = pool_num p"
  "chunk_at (p\<lparr>pool_next := x\<rparr>) = chunk_at p" "chunk_at (p\<lparr>chunk_magic := y\<rparr>) = chunk_at p"
  "chunk_size (p\<lparr>pool_next := x\<rparr>) = chunk_size p" "chunk_size (p\<lparr>chunk_magic := y\<rparr>) = chunk_size p"
  by (simp_all add: pool_num_def chunk_at_def chunk_size_def fun_eq_iff)

definition pool_alloc_opt :: "tfm_pool_instance_t \<Rightarrow> u32 option \<times> tfm_pool_instance_t" where
  "pool_alloc_opt p = (case tfm_pool_alloc p of (a, p') \<Rightarrow> (if a = 0 then None else Some a, p'))"

lemma chunk_data_nonzero:
  assumes "pool_ok p" "i < pool_num p"
  shows "chunk_at p i + SIZEOF_POOL_CHUNK \<noteq> 0"
proof -
  have "i * chunk_size p \<le> pool_num p * chunk_size p" using assms(2) by (intro mult_le_mono1) simp
  then have "unat (chunk_at p i) + 8 < 2 ^ 32"
    using unat_chunk_at[OF assms(1), of i] assms(2) pool_okD(1,2)[OF assms(1)] by linarith
  then have "unat (chunk_at p i + SIZEOF_POOL_CHUNK) = unat (chunk_at p i) + 8"
    by (subst unat_add_lt) (simp_all add: pool_consts)
  then show ?thesis by (metis add_is_0 unat_0 zero_neq_numeral)
qed

lemma pool_alloc_Nil: "pool_next p = [] \<Longrightarrow> pool_alloc_opt p = (None, p)"
  by (simp add: pool_alloc_opt_def tfm_pool_alloc_def)

lemma pool_alloc_Cons:
  assumes "pool_ok p" "pool_next p = a # rest"
  shows "pool_alloc_opt p = (Some (a + SIZEOF_POOL_CHUNK),
    p\<lparr>pool_next := rest, chunk_magic := (chunk_magic p)(a := POOL_MAGIC_ALLOCATED)\<rparr>)"
  using assms pool_okD(5)[OF assms(1)] chunk_data_nonzero[OF assms(1)]
  by (auto simp: pool_alloc_opt_def tfm_pool_alloc_def)

lemma card_pool_live:
  assumes "pool_ok p"
  shows "card (pool_live p) = pool_num p - length (pool_next p)" "length (pool_next p) \<le> pool_num p"
proof -
  have c: "card (chunk_at p ` {..<pool_num p}) = pool_num p"
    using card_image[OF chunk_at_inj[OF assms]] by simp
  have l: "card (set (pool_next p)) = length (pool_next p)" using pool_okD(4)[OF assms] by (rule distinct_card)
  show "length (pool_next p) \<le> pool_num p"
    using card_mono[OF _ pool_okD(5)[OF assms]] c l by simp
  have "card (pool_live p) = card (chunk_at p ` {..<pool_num p} - set (pool_next p))"
    unfolding pool_live_def by (rule card_image) (simp add: inj_on_def)
  also have "\<dots> = pool_num p - length (pool_next p)"
    using card_Diff_subset[OF _ pool_okD(5)[OF assms]] c l by simp
  finally show "card (pool_live p) = pool_num p - length (pool_next p)" .
qed

interpretation pool: allocator pool_alloc_opt tfm_pool_free pool_live pool_ok pool_num
proof
  fix p a p' assume ok: "pool_ok p" and al: "pool_alloc_opt p = (Some a, p')"
  obtain b rest where n: "pool_next p = b # rest"
    using al by (cases "pool_next p") (auto simp: pool_alloc_Nil)
  have p': "a = b + SIZEOF_POOL_CHUNK" "p' = p\<lparr>pool_next := rest, chunk_magic := (chunk_magic p)(b := POOL_MAGIC_ALLOCATED)\<rparr>"
    using al pool_alloc_Cons[OF ok n] by auto
  have b: "b \<in> chunk_at p ` {..<pool_num p}" "b \<notin> set rest" using pool_okD(4,5)[OF ok] n by auto
  have "pool_live p' = insert a (pool_live p)" using b n by (auto simp: pool_live_def p')
  moreover have "pool_ok p'"
    using ok n unfolding pool_ok_def p' by auto
  moreover have "a \<notin> pool_live p" using n by (auto simp: pool_live_def p')
  ultimately show "a \<notin> pool_live p \<and> pool_live p' = insert a (pool_live p) \<and> pool_ok p' \<and> pool_num p' = pool_num p"
    by (simp add: p')
next
  fix p p' assume ok: "pool_ok p" and al: "pool_alloc_opt p = (None, p')"
  then have n: "pool_next p = []" by (cases "pool_next p") (auto simp: pool_alloc_Cons)
  then show "p' = p \<and> card (pool_live p) = pool_num p"
    using al card_pool_live[OF ok] by (simp add: pool_alloc_Nil)
next
  fix p a assume ok: "pool_ok p" and a: "a \<in> pool_live p"
  then obtain i where i: "i < pool_num p" "a = chunk_at p i + SIZEOF_POOL_CHUNK" "chunk_at p i \<notin> set (pool_next p)"
    by (auto simp: pool_live_def)
  have f: "tfm_pool_free a p = p\<lparr>chunk_magic := (chunk_magic p)(chunk_at p i := 0), pool_next := chunk_at p i # pool_next p\<rparr>"
    by (simp add: tfm_pool_free_def i(2) Let_def)
  have "pool_live (tfm_pool_free a p) = pool_live p - {a}"
    unfolding pool_live_def f using i(1,3) by (auto simp: i(2))
  moreover have "pool_ok (tfm_pool_free a p)"
    using ok i(1,3) unfolding pool_ok_def f by (auto simp: pool_consts)
  ultimately show "pool_live (tfm_pool_free a p) = pool_live p - {a} \<and> pool_ok (tfm_pool_free a p)
      \<and> pool_num (tfm_pool_free a p) = pool_num p" by (simp add: f)
next
  fix p assume "pool_ok p"
  then show "finite (pool_live p) \<and> card (pool_live p) \<le> pool_num p"
    using card_pool_live[of p] by (simp add: pool_live_def)
qed

text \<open>
  The validity check accepts the allocated chunks, and one address behind the pool when the memory
  there happens to hold the magic word.
\<close>

lemma is_valid_chunk_iff:
  assumes ok: "pool_ok p"
  shows "is_valid_chunk_data_in_pool p d \<longleftrightarrow> d \<in> pool_live p
    \<or> d = chunk_at p (pool_num p) + SIZEOF_POOL_CHUNK \<and> chunk_magic p (chunk_at p (pool_num p)) = POOL_MAGIC_ALLOCATED"
proof -
  have "is_valid_chunk_data_in_pool p d \<longleftrightarrow>
      (\<exists>i \<le> pool_num p. d = chunk_at p i + SIZEOF_POOL_CHUNK) \<and> chunk_magic p (d - SIZEOF_POOL_CHUNK) = POOL_MAGIC_ALLOCATED"
    unfolding is_valid_chunk_data_in_pool_def Let_def using valid_address_iff[OF ok, of d] by (auto simp: not_le not_less)
  also have "\<dots> \<longleftrightarrow> (\<exists>i < pool_num p. d = chunk_at p i + SIZEOF_POOL_CHUNK \<and> chunk_magic p (chunk_at p i) = POOL_MAGIC_ALLOCATED)
    \<or> d = chunk_at p (pool_num p) + SIZEOF_POOL_CHUNK \<and> chunk_magic p (chunk_at p (pool_num p)) = POOL_MAGIC_ALLOCATED"
    by (auto simp: le_less)
  also have "(\<exists>i < pool_num p. d = chunk_at p i + SIZEOF_POOL_CHUNK \<and> chunk_magic p (chunk_at p i) = POOL_MAGIC_ALLOCATED)
    \<longleftrightarrow> d \<in> pool_live p"
    using ok by (auto simp: pool_live_def pool_ok_def)
  finally show ?thesis .
qed

section \<open>Initialisation\<close>

lemma chain_chunks_eq:
  "chain_chunks n (word_of_nat b) csz next
   = rev (map (\<lambda>i. word_of_nat (b + i * (unat csz + 8))) [0..<n]) @ next"
proof (induction n arbitrary: b "next")
  case (Suc n)
  have a: "word_of_nat b + SIZEOF_POOL_CHUNK + csz = word_of_nat (b + (unat csz + 8))"
    by (simp add: pool_consts)
  have "[0..<Suc n] = 0 # map Suc [0..<n]" by (simp add: upt_conv_Cons map_Suc_upt)
  then show ?case
    unfolding chain_chunks.simps a Suc.IH by (simp add: comp_def algebra_simps)
qed simp

lemma pool_init_ok:
  assumes addr: "pool_addr p \<noteq> 0" and num: "num \<noteq> 0" and csz: "csz \<noteq> 0"
    and fits: "unat (pool_addr p) + (12 + unat num * (unat csz + 8)) + 16 < 2 ^ 32"
    and sz: "poolsz = (csz + SIZEOF_POOL_CHUNK) * num + SIZEOF_POOL_INSTANCE"
  shows "\<exists>q. tfm_pool_init p poolsz csz num = (PSA_SUCCESS, q) \<and> pool_ok q \<and> pool_num q = unat num
    \<and> pool_live q = {} \<and> pool_addr q = pool_addr p"
proof -
  let ?c = "unat csz + 8" and ?n = "unat num"
  define q where "q = snd (tfm_pool_init p poolsz csz num)"
  have run: "tfm_pool_init p poolsz csz num = (PSA_SUCCESS, q)"
    using assms by (simp add: q_def tfm_pool_init_def)
  have pw: "poolsz = word_of_nat (12 + ?n * ?c)"
    unfolding sz by (simp add: pool_consts algebra_simps)
  have us: "unat poolsz = 12 + ?n * ?c"
    unfolding pw by (rule unat_of_nat_lt) (use fits in linarith)
  have f: "pool_addr q = pool_addr p" "chunksz q = csz" "pool_sz q = poolsz"
    "pool_next q = chain_chunks ?n (pool_chunks p) csz []"
    "chunk_magic q = (\<lambda>a. if a + 4 - pool_addr p < poolsz then 0 else chunk_magic p a)"
    using assms by (simp_all add: q_def tfm_pool_init_def)
  have cs: "chunk_size q = ?c" by (simp add: chunk_size_def f)
  have pn: "pool_num q = ?n" by (simp add: pool_num_def f us cs)
  have ch: "pool_chunks p = word_of_nat (unat (pool_addr p) + 12)" by (simp add: pool_chunks_def pool_consts)
  have nx: "pool_next q = rev (map (chunk_at q) [0..<?n])"
    unfolding f(4) ch chain_chunks_eq by (simp add: chunk_at_def f cs)
  have ub: "i < ?n \<Longrightarrow> unat (pool_addr p) + 12 + i * ?c + ?c + 28 < 2 ^ 32 + 12" for i
  proof -
    assume "i < ?n"
    then have "Suc i * ?c \<le> ?n * ?c" by (intro mult_le_mono1) simp
    then show ?thesis using fits by (simp only: mult_Suc)
  qed
  have ua: "i < ?n \<Longrightarrow> unat (chunk_at q i) = unat (pool_addr p) + 12 + i * ?c" for i
    unfolding chunk_at_def f cs using ub[of i] by (intro unat_of_nat_lt) linarith
  have inj: "inj_on (chunk_at q) {..<?n}"
  proof (rule inj_onI)
    fix i j assume ij: "i \<in> {..<?n}" "j \<in> {..<?n}" "chunk_at q i = chunk_at q j"
    then have "i < ?n" "j < ?n" by (simp_all only: lessThan_iff)
    then have "i * ?c = j * ?c" using ua[of i] ua[of j] unfolding ij(3) by linarith
    then show "i = j" by (simp only: mult_cancel2) simp
  qed
  have mg: "chunk_magic q (chunk_at q i) \<noteq> POOL_MAGIC_ALLOCATED" if i: "i < ?n" for i
  proof -
    have w: "chunk_at q i + 4 - pool_addr p = word_of_nat (16 + i * ?c)" by (simp add: chunk_at_def f cs)
    have "unat (chunk_at q i + 4 - pool_addr p) = 16 + i * ?c"
      unfolding w by (rule unat_of_nat_lt) (use ub[OF i] in linarith)
    moreover have "Suc i * ?c \<le> ?n * ?c" using i by (intro mult_le_mono1) simp
    ultimately have "chunk_at q i + 4 - pool_addr p < poolsz" by (simp add: word_less_nat_alt us)
    then show ?thesis by (simp add: f pool_consts)
  qed
  have "0 < ?n" using num by (metis gr0I unat_eq_0)
  then have "pool_ok q"
    unfolding pool_ok_def pn cs
    using csz us fits mg inj by (auto simp: f(1-3) nx distinct_map lessThan_atLeast0)
  moreover have "pool_live q = {}" by (auto simp: pool_live_def nx pn)
  ultimately show ?thesis using run pn f(1) by blast
qed

end
