(* ===== verification/SPM_State.thy ===== *)
theory SPM_State
  imports SPM_Pool
begin

text \<open>
  The state of the Secure Partition Manager (src/secure_fw/spm/core/spm.h, load/*.h): connections,
  partitions and services, and the connection pool with its handle encoding
  (spm_connection_pool.c). Pointers to partitions and services are naturals, a \<open>NULL\<close> pointer is
  \<open>None\<close>; connections are addressed by the data pointers of the pool. Lists linked through the
  objects (free services, queued messages) are lists of pointers.
\<close>

section \<open>Constants\<close>

definition PSA_MAX_IOVEC :: nat where "PSA_MAX_IOVEC = 4"
definition PSA_IPC_CONNECT :: int where [spm_simps]: "PSA_IPC_CONNECT = -1"
definition PSA_IPC_DISCONNECT :: int where [spm_simps]: "PSA_IPC_DISCONNECT = -2"
definition PSA_IPC_CALL :: int where [spm_simps]: "PSA_IPC_CALL = 0"
definition PSA_DOORBELL :: u32 where "PSA_DOORBELL = 0x8"
definition ASYNC_MSG_REPLY :: u32 where "ASYNC_MSG_REPLY = 0x4"
definition CLIENT_HANDLE_VALUE_MIN :: u32 where [spm_simps]: "CLIENT_HANDLE_VALUE_MIN = 1"
definition INVALID_PARTITION_ID :: int where [spm_simps]: "INVALID_PARTITION_ID = 0"

definition TFM_HAL_ACCESS_READABLE :: u32 where "TFM_HAL_ACCESS_READABLE = 0x2"
definition TFM_HAL_ACCESS_WRITABLE :: u32 where "TFM_HAL_ACCESS_WRITABLE = 0x4"
definition TFM_HAL_ACCESS_NS :: u32 where "TFM_HAL_ACCESS_NS = 0x20"
definition TFM_HAL_ACCESS_READWRITE :: u32 where
  "TFM_HAL_ACCESS_READWRITE = TFM_HAL_ACCESS_READABLE OR TFM_HAL_ACCESS_WRITABLE"

datatype handle_status = TFM_HANDLE_STATUS_IDLE | TFM_HANDLE_STATUS_ACTIVE | TFM_HANDLE_STATUS_TO_FREE

section \<open>Static handles\<close>

definition IS_STATIC_HANDLE :: "u32 \<Rightarrow> bool" where
  "IS_STATIC_HANDLE handle = (handle AND push_bit 30 1 \<noteq> 0)"

definition GET_INDEX_FROM_STATIC_HANDLE :: "u32 \<Rightarrow> nat" where
  "GET_INDEX_FROM_STATIC_HANDLE handle = unat (handle AND mask 5)"

definition GET_VERSION_FROM_STATIC_HANDLE :: "u32 \<Rightarrow> u32" where
  "GET_VERSION_FROM_STATIC_HANDLE handle = drop_bit 8 handle AND mask 8"

section \<open>Objects\<close>

record psa_msg_t =
  msg_type :: int
  msg_handle :: u32
  client_id :: int
  rhandle :: u32
  in_size :: "u32 list"
  out_size :: "u32 list"

record connection_t =
  conn_status :: handle_status
  p_client :: "nat option"
  conn_service :: "nat option"
  msg :: psa_msg_t
  invec_base :: "u32 list"
  invec_accessed :: "u32 list"
  outvec_base :: "u32 list"
  outvec_written :: "u32 list"
  caller_outvec :: u32
  client_data :: u32
  iovec_status :: u32
  conn_reply_value :: psa_status_t

record partition_t =
  pid :: int
  part_flags :: u32
  deps :: "u32 list"
  boundary :: u32
  signals_allowed :: u32
  signals_waiting :: u32
  signals_asserted :: u32
  p_handles :: "u32 list"
  part_reply_value :: psa_status_t

record service_t =
  sid :: u32
  srv_flags :: u32
  srv_version :: u32
  srv_signal :: u32
  srv_partition :: "nat option"

definition zero_msg :: psa_msg_t where
  "zero_msg = \<lparr>msg_type = 0, msg_handle = 0, client_id = 0, rhandle = 0,
     in_size = replicate PSA_MAX_IOVEC 0, out_size = replicate PSA_MAX_IOVEC 0\<rparr>"

definition IS_NS_AGENT :: "partition_t \<Rightarrow> bool" where
  "IS_NS_AGENT p = (part_flags p AND (push_bit 10 1 OR push_bit 11 1) \<noteq> 0)"

definition IS_NS_AGENT_MAILBOX :: "partition_t \<Rightarrow> bool" where
  "IS_NS_AGENT_MAILBOX p = (part_flags p AND push_bit 10 1 \<noteq> 0)"

definition SERVICE_IS_NS_ACCESSIBLE :: "u32 \<Rightarrow> bool" where
  "SERVICE_IS_NS_ACCESSIBLE flag = (flag AND push_bit 8 1 \<noteq> 0)"

definition SERVICE_IS_STATELESS :: "u32 \<Rightarrow> bool" where
  "SERVICE_IS_STATELESS flag = (flag AND push_bit 9 1 \<noteq> 0)"

definition SERVICE_VERSION_POLICY_STRICT :: "u32 \<Rightarrow> bool" where
  "SERVICE_VERSION_POLICY_STRICT flag = (flag AND push_bit 10 1 \<noteq> 0)"

definition SERVICE_ENABLED_MM_IOVEC :: "u32 \<Rightarrow> bool" where
  "SERVICE_ENABLED_MM_IOVEC flag = (flag AND push_bit 11 1 \<noteq> 0)"

text \<open>
  The state. \<open>current\<close> is \<open>GET_CURRENT_COMPONENT()\<close>; \<open>memory\<close> is the memory of the clients and
  partitions (the manager's own objects are the other fields).
\<close>

record spm_state =
  pool :: tfm_pool_instance_t
  conns :: "u32 \<Rightarrow> connection_t"
  loop_index :: u32
  partitions :: "nat \<Rightarrow> partition_t"
  services :: "nat \<Rightarrow> service_t"
  services_listhead :: "nat list"
  stateless_services_ref_tbl :: "nat option list"
  partition_listhead :: "nat list"
  current :: "nat option"
  ram :: memory

text \<open>
  What the manager takes from the platform: \<open>tfm_hal_memory_check\<close> (is an access of the given
  kind to base and size allowed for the boundary?), the client id of the running non-secure
  client, and the build options.
\<close>

record spm_env =
  memory_check :: "u32 \<Rightarrow> u32 \<Rightarrow> u32 \<Rightarrow> u32 \<Rightarrow> bool"
  nspm_client_id :: int
  has_mm_iovec :: bool   \<comment> \<open>\<open>PSA_FRAMEWORK_HAS_MM_IOVEC\<close>\<close>

type_synonym 'a spm = "spm_state \<Rightarrow> ('a \<times> spm_state) option"

definition upd_conn :: "u32 \<Rightarrow> (connection_t \<Rightarrow> connection_t) \<Rightarrow> spm_state \<Rightarrow> spm_state" where
  "upd_conn c f s = s\<lparr>conns := (conns s)(c := f (conns s c))\<rparr>"

definition upd_part :: "nat \<Rightarrow> (partition_t \<Rightarrow> partition_t) \<Rightarrow> spm_state \<Rightarrow> spm_state" where
  "upd_part i f s = s\<lparr>partitions := (partitions s)(i := f (partitions s i))\<rparr>"

lemma upd_conn_simps [simp]:
  "conns (upd_conn c f s) = (conns s)(c := f (conns s c))" "pool (upd_conn c f s) = pool s"
  "loop_index (upd_conn c f s) = loop_index s" "partitions (upd_conn c f s) = partitions s"
  "services (upd_conn c f s) = services s" "services_listhead (upd_conn c f s) = services_listhead s"
  "stateless_services_ref_tbl (upd_conn c f s) = stateless_services_ref_tbl s"
  "partition_listhead (upd_conn c f s) = partition_listhead s"
  "current (upd_conn c f s) = current s" "ram (upd_conn c f s) = ram s"
  by (simp_all add: upd_conn_def)

lemma upd_part_simps [simp]:
  "partitions (upd_part i g s) = (partitions s)(i := g (partitions s i))" "pool (upd_part i g s) = pool s"
  "loop_index (upd_part i g s) = loop_index s" "conns (upd_part i g s) = conns s"
  "services (upd_part i g s) = services s" "services_listhead (upd_part i g s) = services_listhead s"
  "stateless_services_ref_tbl (upd_part i g s) = stateless_services_ref_tbl s"
  "partition_listhead (upd_part i g s) = partition_listhead s"
  "current (upd_part i g s) = current s" "ram (upd_part i g s) = ram s"
  by (simp_all add: upd_part_def)

section \<open>The connection pool\<close>

definition connection_to_handle :: "u32 \<Rightarrow> spm_state \<Rightarrow> u32 \<times> spm_state" where
  "connection_to_handle p_connection s =
     (let li = (loop_index s + 1) mod 8
      in (push_bit 3 (p_connection - pool_addr (pool s)) + CLIENT_HANDLE_VALUE_MIN + li,
          s\<lparr>loop_index := li\<rparr>))"

definition handle_to_connection :: "u32 \<Rightarrow> spm_state \<Rightarrow> u32" where
  "handle_to_connection handle s =
     (if handle = 0 then 0
      else drop_bit 3 (handle - CLIENT_HANDLE_VALUE_MIN) + pool_addr (pool s))"

definition spm_init_connection_space :: "u32 \<Rightarrow> u32 \<Rightarrow> u32 \<Rightarrow> spm_state \<Rightarrow> spm_state option" where
  "spm_init_connection_space buffer_size sizeof_connection max_num s =
     (case tfm_pool_init (pool s) buffer_size sizeof_connection max_num of
        (status, p) \<Rightarrow> if status \<noteq> PSA_SUCCESS then None else Some (s\<lparr>pool := p\<rparr>))"

definition spm_allocate_connection :: "spm_state \<Rightarrow> u32 \<times> spm_state" where
  "spm_allocate_connection s = (case tfm_pool_alloc (pool s) of (c, p) \<Rightarrow> (c, s\<lparr>pool := p\<rparr>))"

definition spm_validate_connection :: "u32 \<Rightarrow> spm_state \<Rightarrow> psa_status_t" where
  "spm_validate_connection p_connection s =
     (if \<not> is_valid_chunk_data_in_pool (pool s) p_connection then SPM_ERROR_GENERIC else PSA_SUCCESS)"

definition spm_free_connection :: "u32 \<Rightarrow> spm_state \<Rightarrow> spm_state" where
  "spm_free_connection p_connection s = s\<lparr>pool := tfm_pool_free p_connection (pool s)\<rparr>"

section \<open>Handles\<close>

lemma word_mod8: "unat ((w :: u32) mod 8) < 8"
  by (simp add: unat_mod)

lemma and_push_bit_1: "(w :: u32) AND push_bit n 1 \<noteq> 0 \<longleftrightarrow> bit w n"
  by (simp only: bit_iff_and_push_bit_not_eq_0)

lemma not_bit_small: "unat (w :: u32) < 2 ^ n \<Longrightarrow> \<not> bit w n"
proof -
  assume "unat w < 2 ^ n"
  then have "\<not> bit (unat w) n" by (simp add: bit_iff_odd)
  then show ?thesis by (simp add: bit_unsigned_iff)
qed

text \<open>
  The round trip of the encoding: for a connection less than \<open>2 ^ 27 - 1\<close> bytes into the pool the
  handle is a positive dynamic handle, and it decodes to the connection.
\<close>

lemma handle_roundtrip:
  assumes c: "unat (c - pool_addr (pool s)) < 2 ^ 27 - 1" and h: "connection_to_handle c s = (h, t)"
  shows "handle_to_connection h t = c" "h \<noteq> 0" "\<not> IS_STATIC_HANDLE h" "pool t = pool s" "conns t = conns s"
proof -
  define w where "w = c - pool_addr (pool s)"
  define li where "li = (loop_index s + 1) mod (8 :: u32)"
  have t: "t = s\<lparr>loop_index := li\<rparr>" "h = push_bit 3 w + 1 + li"
    using h by (auto simp: connection_to_handle_def Let_def spm_simps w_def li_def)
  show "pool t = pool s" "conns t = conns s" by (simp_all add: t)
  have li: "unat li < 8" unfolding li_def by (rule word_mod8)
  have c': "unat w < 2 ^ 27 - 1" using c by (simp add: w_def)
  have po: "unat (push_bit 3 w) = unat w * 8"
    using c' by (simp add: push_bit_eq_mult unat_word_ariths)
  have o1: "unat (push_bit 3 w + 1) = unat w * 8 + 1"
    using c' po by (subst unat_add_lt) simp_all
  have uh: "unat h = unat w * 8 + 1 + unat li"
    unfolding t(2) using c' o1 li by (subst unat_add_lt) simp_all
  then have "unat h < 2 ^ 30" using c' li by simp
  then show "\<not> IS_STATIC_HANDLE h" unfolding IS_STATIC_HANDLE_def and_push_bit_1 by (rule not_bit_small)
  have nz: "h \<noteq> 0" using uh by (metis add_is_0 one_neq_zero unat_0)
  then show "h \<noteq> 0" .
  have "1 \<le> h" using uh by (simp add: word_le_nat_alt)
  then have "unat (h - 1) = unat w * 8 + unat li" using uh by (simp add: unat_sub_le)
  then have "unat (drop_bit 3 (h - 1)) = unat w"
    using li by (simp add: drop_bit_eq_div unat_div)
  then have "drop_bit 3 (h - 1) = w" by (simp only: word_unat_eq_iff)
  then show "handle_to_connection h t = c" using nz by (simp add: handle_to_connection_def t spm_simps w_def)
qed

end
