(* ===== verification/SPM_IPC.thy ===== *)
theory SPM_IPC
  imports SPM_State
begin

text \<open>
  Clients of the Secure Partition Manager: services and authorisation (spm_ipc.c), requests
  (psa_call_api.c), connections (psa_connection_api.c), versions (psa_version_api.c), the mailbox
  agent (mailbox_agent_api.c), and the messaging and signals of the IPC backend (backend_ipc.c), all
  under src/secure_fw/spm/core. A result \<open>Inl e\<close> is the status \<open>e\<close>; the status of an operation that
  also returns handles or \<open>STATUS_NEED_SCHEDULE\<close> is an integer.
\<close>

section \<open>Services\<close>

text \<open>The search moves the service found to the front of the list.\<close>

definition tfm_spm_get_service_by_sid :: "u32 \<Rightarrow> spm_state \<Rightarrow> nat option \<times> spm_state" where
  "tfm_spm_get_service_by_sid rot_sid s =
     (case find (\<lambda>i. sid (services s i) = rot_sid) (services_listhead s) of
        None \<Rightarrow> (None, s)
      | Some i \<Rightarrow> (Some i, s\<lparr>services_listhead := i # remove1 i (services_listhead s)\<rparr>))"

definition tfm_spm_get_partition_by_id :: "int \<Rightarrow> spm_state \<Rightarrow> nat option" where
  "tfm_spm_get_partition_by_id partition_id s =
     find (\<lambda>i. pid (partitions s i) = partition_id) (partition_listhead s)"

definition tfm_spm_check_client_version :: "service_t \<Rightarrow> u32 \<Rightarrow> psa_status_t" where
  "tfm_spm_check_client_version service version =
     (if \<not> SERVICE_VERSION_POLICY_STRICT (srv_flags service)
      then if version > srv_version service then SPM_ERROR_VERSION else PSA_SUCCESS
      else if version \<noteq> srv_version service then SPM_ERROR_VERSION else PSA_SUCCESS)"

definition tfm_spm_check_authorization :: "u32 \<Rightarrow> service_t \<Rightarrow> bool \<Rightarrow> spm_state \<Rightarrow> psa_status_t option" where
  "tfm_spm_check_authorization rot_sid service ns_caller s =
     (if ns_caller
      then Some (if \<not> SERVICE_IS_NS_ACCESSIBLE (srv_flags service) then SPM_ERROR_GENERIC else PSA_SUCCESS)
      else do {
        cur \<leftarrow> current s;
        Some (if rot_sid \<in> set (deps (partitions s cur)) then PSA_SUCCESS else SPM_ERROR_GENERIC)
      })"

section \<open>The caller\<close>

definition tfm_spm_partition_get_running_partition_id :: "spm_state \<Rightarrow> int" where
  "tfm_spm_partition_get_running_partition_id s =
     (case current s of None \<Rightarrow> INVALID_PARTITION_ID | Some i \<Rightarrow> pid (partitions s i))"

definition tfm_spm_is_ns_caller :: "spm_state \<Rightarrow> bool option" where
  "tfm_spm_is_ns_caller s = (case current s of None \<Rightarrow> None | Some i \<Rightarrow> Some (IS_NS_AGENT (partitions s i)))"

definition tfm_spm_get_client_id :: "spm_env \<Rightarrow> bool \<Rightarrow> spm_state \<Rightarrow> int option" where
  "tfm_spm_get_client_id env ns_caller s =
     (let cid = (if ns_caller then nspm_client_id env else tfm_spm_partition_get_running_partition_id s)
      in if ns_caller \<noteq> (cid < 0) then None else Some cid)"

section \<open>Connections\<close>

definition spm_init_idle_connection :: "spm_env \<Rightarrow> u32 \<Rightarrow> nat \<Rightarrow> int \<Rightarrow> spm_state \<Rightarrow> spm_state" where
  "spm_init_idle_connection env p_connection service cid s =
     (case connection_to_handle p_connection s of (h, s1) \<Rightarrow>
        upd_conn p_connection (\<lambda>c. c\<lparr>
          conn_service := Some service, p_client := current s1,
          msg := zero_msg\<lparr>client_id := cid, msg_handle := h\<rparr>,
          conn_status := TFM_HANDLE_STATUS_IDLE,
          iovec_status := (if has_mm_iovec env then 0 else iovec_status c),
          client_data := 0\<rparr>) s1)"

definition spm_get_idle_connection :: "spm_env \<Rightarrow> u32 \<Rightarrow> int \<Rightarrow> (psa_error + u32) spm" where
  "spm_get_idle_connection env handle cid s = do {
     ns_caller \<leftarrow> tfm_spm_is_ns_caller s;
     if handle = 0 then Some (Inl PSA_ERROR_PROGRAMMER_ERROR, s)
     else if IS_STATIC_HANDLE handle then
       case stateless_services_ref_tbl s ! GET_INDEX_FROM_STATIC_HANDLE handle of
         None \<Rightarrow> Some (Inl PSA_ERROR_PROGRAMMER_ERROR, s)
       | Some i \<Rightarrow> do {
           let service = services s i;
           auth \<leftarrow> tfm_spm_check_authorization (sid service) service ns_caller s;
           if auth \<noteq> PSA_SUCCESS then Some (Inl PSA_ERROR_CONNECTION_REFUSED, s)
           else if tfm_spm_check_client_version service (GET_VERSION_FROM_STATIC_HANDLE handle) \<noteq> PSA_SUCCESS
           then Some (Inl PSA_ERROR_PROGRAMMER_ERROR, s)
           else case spm_allocate_connection s of (connection, s1) \<Rightarrow>
             if connection = 0 then Some (Inl PSA_ERROR_CONNECTION_BUSY, s1)
             else Some (Inr connection, spm_init_idle_connection env connection i cid s1)
         }
     else
       (let connection = handle_to_connection handle s
        in if connection = 0 then Some (Inl PSA_ERROR_PROGRAMMER_ERROR, s)
           else if spm_validate_connection connection s \<noteq> PSA_SUCCESS then Some (Inl PSA_ERROR_PROGRAMMER_ERROR, s)
           else if client_id (msg (conns s connection)) \<noteq> cid then Some (Inl PSA_ERROR_PROGRAMMER_ERROR, s)
           else if conn_status (conns s connection) \<noteq> TFM_HANDLE_STATUS_IDLE then Some (Inl PSA_ERROR_PROGRAMMER_ERROR, s)
           else if conn_service (conns s connection) = None then Some (Inl PSA_ERROR_PROGRAMMER_ERROR, s)
           else Some (Inr connection, s))
   }"

text \<open>The result 0 is \<open>NULL\<close>; a connection without service or partition faults.\<close>

definition spm_msg_handle_to_connection :: "u32 \<Rightarrow> spm_state \<Rightarrow> u32 option" where
  "spm_msg_handle_to_connection handle s =
     (let p_conn_handle = handle_to_connection handle s
      in if spm_validate_connection p_conn_handle s \<noteq> PSA_SUCCESS then Some 0
         else do {
           i \<leftarrow> conn_service (conns s p_conn_handle);
           owner \<leftarrow> srv_partition (services s i);
           if tfm_spm_partition_get_running_partition_id s \<noteq> pid (partitions s owner) then Some 0
           else Some p_conn_handle
         })"

definition spm_handle_programmer_errors :: "psa_status_t \<Rightarrow> spm_state \<Rightarrow> unit option" where
  "spm_handle_programmer_errors status s =
     (if status = psa_error_code PSA_ERROR_PROGRAMMER_ERROR \<or> status = psa_error_code PSA_ERROR_CONNECTION_REFUSED
      then do { ns \<leftarrow> tfm_spm_is_ns_caller s; if ns then Some () else None }
      else Some ())"

section \<open>Signals and messages\<close>

definition backend_assert_signal :: "nat option \<Rightarrow> u32 \<Rightarrow> psa_status_t spm" where
  "backend_assert_signal p_pt signal s = do {
     i \<leftarrow> p_pt;
     let s1 = upd_part i (\<lambda>p. p\<lparr>signals_asserted := signals_asserted p OR signal\<rparr>) s;
     let p = partitions s1 i;
     Some (if signals_asserted p AND signals_waiting p \<noteq> 0 then STATUS_NEED_SCHEDULE else PSA_SUCCESS, s1)
   }"

definition backend_wait_signals :: "nat option \<Rightarrow> u32 \<Rightarrow> u32 spm" where
  "backend_wait_signals p_pt signals s = do {
     i \<leftarrow> p_pt;
     let ret = signals_asserted (partitions s i) AND signals;
     Some (ret, if ret = 0 then upd_part i (\<lambda>p. p\<lparr>signals_waiting := signals\<rparr>) s else s)
   }"

definition tfm_spm_is_rpc_msg :: "connection_t \<Rightarrow> bool" where
  "tfm_spm_is_rpc_msg c = (client_data c \<noteq> 0 \<and> client_id (msg c) < 0)"

definition backend_messaging :: "u32 \<Rightarrow> psa_status_t spm" where
  "backend_messaging p_connection s =
     (case conn_service (conns s p_connection) of
        None \<Rightarrow> Some (psa_error_code PSA_ERROR_PROGRAMMER_ERROR, s)
      | Some i \<Rightarrow> case srv_partition (services s i) of
          None \<Rightarrow> Some (psa_error_code PSA_ERROR_PROGRAMMER_ERROR, s)
        | Some owner \<Rightarrow> do {
            let s1 = upd_part owner (\<lambda>p. p\<lparr>p_handles := p_connection # p_handles p\<rparr>) s;
            (ret, s2) \<leftarrow> backend_assert_signal (Some owner) (srv_signal (services s1 i)) s1;
            (ret, s3) \<leftarrow> (if tfm_spm_is_rpc_msg (conns s2 p_connection) then Some (PSA_SUCCESS, s2)
              else do {
                (signal, s3) \<leftarrow> backend_wait_signals (p_client (conns s2 p_connection)) ASYNC_MSG_REPLY s2;
                Some (if signal = 0 then STATUS_NEED_SCHEDULE else ret, s3)
              });
            Some (ret, upd_conn p_connection (\<lambda>c. c\<lparr>conn_status := TFM_HANDLE_STATUS_ACTIVE\<rparr>) s3)
          })"

section \<open>Requests\<close>

definition PARAM_UNPACK_TYPE :: "u32 \<Rightarrow> int" where
  "PARAM_UNPACK_TYPE ctrl_param = sint (ucast ctrl_param :: 16 word)"

definition PARAM_UNPACK_IN_LEN :: "u32 \<Rightarrow> nat" where
  "PARAM_UNPACK_IN_LEN ctrl_param = unat (drop_bit 24 (ctrl_param AND push_bit 24 7))"

definition PARAM_UNPACK_OUT_LEN :: "u32 \<Rightarrow> nat" where
  "PARAM_UNPACK_OUT_LEN ctrl_param = unat (drop_bit 16 (ctrl_param AND push_bit 16 7))"

definition PARAM_PACK :: "int \<Rightarrow> nat \<Rightarrow> nat \<Rightarrow> u32" where
  "PARAM_PACK typ in_len out_len =
     (word_of_int typ AND 0xFFFF) OR (push_bit 24 (word_of_nat in_len) AND push_bit 24 7)
       OR (push_bit 16 (word_of_nat out_len) AND push_bit 16 7)"

definition PARAM_IS_NS_VEC :: "u32 \<Rightarrow> bool" where
  "PARAM_IS_NS_VEC ctrl_param = (ctrl_param AND push_bit 31 1 \<noteq> 0)"
definition PARAM_IS_NS_INVEC :: "u32 \<Rightarrow> bool" where
  "PARAM_IS_NS_INVEC ctrl_param = (ctrl_param AND push_bit 27 1 \<noteq> 0)"
definition PARAM_IS_NS_OUTVEC :: "u32 \<Rightarrow> bool" where
  "PARAM_IS_NS_OUTVEC ctrl_param = (ctrl_param AND push_bit 19 1 \<noteq> 0)"

definition PARAM_HAS_IOVEC :: "u32 \<Rightarrow> bool" where
  "PARAM_HAS_IOVEC ctrl_param = (ctrl_param \<noteq> word_of_int (PARAM_UNPACK_TYPE ctrl_param))"

text \<open>The vectors (base and length, 8 bytes each) the client has at an address.\<close>

definition read_vecs :: "memory \<Rightarrow> u32 \<Rightarrow> nat \<Rightarrow> (u32 \<times> u32) list" where
  "read_vecs m a n = map (\<lambda>i. (mem_rd32 m (a + word_of_nat (8 * i)), mem_rd32 m (a + word_of_nat (8 * i + 4)))) [0..<n]"

fun invecs_overlap :: "(u32 \<times> u32) list \<Rightarrow> bool" where
  "invecs_overlap [] = False"
| "invecs_overlap ((base_i, len_i) # vecs) =
     (list_ex (\<lambda>(base_j, len_j). \<not> (base_j + len_j \<le> base_i \<or> base_j \<ge> base_i + len_i)) vecs \<or> invecs_overlap vecs)"

fun associate_invecs :: "spm_env \<Rightarrow> u32 \<Rightarrow> u32 \<Rightarrow> nat \<Rightarrow> (u32 \<times> u32) list \<Rightarrow> connection_t \<Rightarrow> bool \<times> connection_t" where
  "associate_invecs env bound access i [] c = (True, c)"
| "associate_invecs env bound access i ((base, len) # vecs) c =
     (if \<not> memory_check env bound base len access then (False, c)
      else associate_invecs env bound access (Suc i) vecs
        (c\<lparr>msg := (msg c)\<lparr>in_size := (in_size (msg c))[i := len]\<rparr>,
           invec_base := (invec_base c)[i := base], invec_accessed := (invec_accessed c)[i := 0]\<rparr>))"

fun associate_outvecs :: "spm_env \<Rightarrow> u32 \<Rightarrow> u32 \<Rightarrow> nat \<Rightarrow> (u32 \<times> u32) list \<Rightarrow> connection_t \<Rightarrow> bool \<times> connection_t" where
  "associate_outvecs env bound access i [] c = (True, c)"
| "associate_outvecs env bound access i ((base, len) # vecs) c =
     (if \<not> memory_check env bound base len access then (False, c)
      else associate_outvecs env bound access (Suc i) vecs
        (c\<lparr>msg := (msg c)\<lparr>out_size := (out_size (msg c))[i := len]\<rparr>,
           outvec_base := (outvec_base c)[i := base], outvec_written := (outvec_written c)[i := 0]\<rparr>))"

definition spm_associate_call_params :: "spm_env \<Rightarrow> u32 \<Rightarrow> u32 \<Rightarrow> u32 \<Rightarrow> u32 \<Rightarrow> (psa_error + unit) spm" where
  "spm_associate_call_params env p_connection ctrl_param inptr outptr s =
     (let ivec_num = PARAM_UNPACK_IN_LEN ctrl_param; ovec_num = PARAM_UNPACK_OUT_LEN ctrl_param;
          typ = PARAM_UNPACK_TYPE ctrl_param
      in if typ < 0 then Some (Inl PSA_ERROR_PROGRAMMER_ERROR, s)
         else
           (let s = upd_conn p_connection (\<lambda>c. c\<lparr>msg := (msg c)\<lparr>msg_type := typ\<rparr>\<rparr>) s
            in if \<not> PARAM_HAS_IOVEC ctrl_param then Some (Inr (), s)
               else if ivec_num + ovec_num > PSA_MAX_IOVEC then Some (Inl PSA_ERROR_PROGRAMMER_ERROR, s)
               else do {
                 cur \<leftarrow> current s;
                 let bound = boundary (partitions s cur);
                 let ns_access = (if PARAM_IS_NS_VEC ctrl_param then TFM_HAL_ACCESS_NS else 0);
                 if \<not> memory_check env bound inptr (word_of_nat (8 * ivec_num)) (TFM_HAL_ACCESS_READABLE OR ns_access)
                 then Some (Inl PSA_ERROR_PROGRAMMER_ERROR, s)
                 else if \<not> memory_check env bound outptr (word_of_nat (8 * ovec_num)) (TFM_HAL_ACCESS_READWRITE OR ns_access)
                 then Some (Inl PSA_ERROR_PROGRAMMER_ERROR, s)
                 else do {
                   let ivecs_local = read_vecs (ram s) inptr ivec_num;
                   let ovecs_local = read_vecs (ram s) outptr ovec_num;
                   if invecs_overlap ivecs_local then Some (Inl PSA_ERROR_PROGRAMMER_ERROR, s)
                   else do {
                     let ns_access = (if PARAM_IS_NS_INVEC ctrl_param then TFM_HAL_ACCESS_NS else ns_access);
                     let c = (conns s p_connection)\<lparr>msg := (msg (conns s p_connection))
                               \<lparr>in_size := replicate PSA_MAX_IOVEC 0, out_size := replicate PSA_MAX_IOVEC 0\<rparr>\<rparr>;
                     let (ok, c) = associate_invecs env bound (TFM_HAL_ACCESS_READABLE OR ns_access) 0 ivecs_local c;
                     if \<not> ok then Some (Inl PSA_ERROR_PROGRAMMER_ERROR, upd_conn p_connection (\<lambda>_. c) s)
                     else do {
                       let ns_access = (if ns_access = TFM_HAL_ACCESS_NS \<and> \<not> PARAM_IS_NS_VEC ctrl_param
                                          \<and> \<not> PARAM_IS_NS_OUTVEC ctrl_param then 0 else ns_access);
                       let (ok, c) = associate_outvecs env bound (TFM_HAL_ACCESS_READWRITE OR ns_access) 0 ovecs_local c;
                       if \<not> ok then Some (Inl PSA_ERROR_PROGRAMMER_ERROR, upd_conn p_connection (\<lambda>_. c) s)
                       else Some (Inr (), upd_conn p_connection (\<lambda>_. c\<lparr>caller_outvec := outptr\<rparr>) s)
                     }
                   }
                 }
               }))"

definition tfm_spm_client_psa_call :: "spm_env \<Rightarrow> u32 \<Rightarrow> u32 \<Rightarrow> u32 \<Rightarrow> u32 \<Rightarrow> psa_status_t spm" where
  "tfm_spm_client_psa_call env handle ctrl_param inptr outptr s = do {
     ns_caller \<leftarrow> tfm_spm_is_ns_caller s;
     cid \<leftarrow> tfm_spm_get_client_id env ns_caller s;
     (r, s1) \<leftarrow> spm_get_idle_connection env handle cid s;
     case r of
       Inl e \<Rightarrow> Some (psa_error_code e, s1)
     | Inr p_connection \<Rightarrow> do {
         (r, s2) \<leftarrow> spm_associate_call_params env p_connection ctrl_param inptr outptr s1;
         case r of
           Inl e \<Rightarrow> Some (psa_error_code e, if IS_STATIC_HANDLE handle then spm_free_connection p_connection s2 else s2)
         | Inr _ \<Rightarrow> backend_messaging p_connection s2
       }
   }"

section \<open>Connection-based services\<close>

definition spm_psa_connect_client_id_associated :: "spm_env \<Rightarrow> u32 \<Rightarrow> u32 \<Rightarrow> int \<Rightarrow> (psa_error + u32) spm" where
  "spm_psa_connect_client_id_associated env rot_sid version cid s =
     (case tfm_spm_get_service_by_sid rot_sid s of (found, s) \<Rightarrow>
        case found of
          None \<Rightarrow> Some (Inl PSA_ERROR_CONNECTION_REFUSED, s)
        | Some i \<Rightarrow> do {
            let service = services s i;
            if SERVICE_IS_STATELESS (srv_flags service) then Some (Inl PSA_ERROR_PROGRAMMER_ERROR, s)
            else do {
              auth \<leftarrow> tfm_spm_check_authorization rot_sid service (cid < 0) s;
              if auth \<noteq> PSA_SUCCESS then Some (Inl PSA_ERROR_CONNECTION_REFUSED, s)
              else if tfm_spm_check_client_version service version \<noteq> PSA_SUCCESS
              then Some (Inl PSA_ERROR_CONNECTION_REFUSED, s)
              else case spm_allocate_connection s of (connection, s) \<Rightarrow>
                if connection = 0 then Some (Inl PSA_ERROR_CONNECTION_BUSY, s)
                else Some (Inr connection,
                  upd_conn connection (\<lambda>c. c\<lparr>msg := (msg c)\<lparr>msg_type := PSA_IPC_CONNECT\<rparr>\<rparr>)
                    (spm_init_idle_connection env connection i cid s))
            }
          })"

definition tfm_spm_client_psa_connect :: "spm_env \<Rightarrow> u32 \<Rightarrow> u32 \<Rightarrow> psa_status_t spm" where
  "tfm_spm_client_psa_connect env rot_sid version s = do {
     ns_caller \<leftarrow> tfm_spm_is_ns_caller s;
     cid \<leftarrow> tfm_spm_get_client_id env ns_caller s;
     (r, s1) \<leftarrow> spm_psa_connect_client_id_associated env rot_sid version cid s;
     case r of Inl e \<Rightarrow> Some (psa_error_code e, s1) | Inr p_connection \<Rightarrow> backend_messaging p_connection s1
   }"

definition spm_psa_close_client_id_associated :: "spm_env \<Rightarrow> u32 \<Rightarrow> int \<Rightarrow> psa_status_t spm" where
  "spm_psa_close_client_id_associated env handle cid s =
     (if handle = 0 then Some (PSA_SUCCESS, s)
      else if IS_STATIC_HANDLE handle then Some (psa_error_code PSA_ERROR_PROGRAMMER_ERROR, s)
      else do {
        (r, s1) \<leftarrow> spm_get_idle_connection env handle cid s;
        case r of
          Inl e \<Rightarrow> Some (psa_error_code e, s1)
        | Inr p_connection \<Rightarrow>
            backend_messaging p_connection
              (upd_conn p_connection (\<lambda>c. c\<lparr>msg := (msg c)\<lparr>msg_type := PSA_IPC_DISCONNECT\<rparr>\<rparr>) s1)
      })"

definition tfm_spm_client_psa_close :: "spm_env \<Rightarrow> u32 \<Rightarrow> psa_status_t spm" where
  "tfm_spm_client_psa_close env handle s = do {
     ns_caller \<leftarrow> tfm_spm_is_ns_caller s;
     cid \<leftarrow> tfm_spm_get_client_id env ns_caller s;
     spm_psa_close_client_id_associated env handle cid s
   }"

definition tfm_spm_partition_psa_set_rhandle :: "u32 \<Rightarrow> u32 \<Rightarrow> psa_status_t spm" where
  "tfm_spm_partition_psa_set_rhandle handle rh s = do {
     c \<leftarrow> spm_msg_handle_to_connection handle s;
     if c = 0 then None
     else do {
       i \<leftarrow> conn_service (conns s c);
       if SERVICE_IS_STATELESS (srv_flags (services s i)) then None
       else Some (PSA_SUCCESS, upd_conn c (\<lambda>c. c\<lparr>msg := (msg c)\<lparr>rhandle := rh\<rparr>\<rparr>) s)
     }
   }"

definition tfm_spm_client_psa_version :: "u32 \<Rightarrow> u32 spm" where
  "tfm_spm_client_psa_version rot_sid s = do {
     ns_caller \<leftarrow> tfm_spm_is_ns_caller s;
     case tfm_spm_get_service_by_sid rot_sid s of (found, s1) \<Rightarrow>
       case found of
         None \<Rightarrow> Some (0, s1)
       | Some i \<Rightarrow> do {
           auth \<leftarrow> tfm_spm_check_authorization rot_sid (services s1 i) ns_caller s1;
           Some (if auth \<noteq> PSA_SUCCESS then 0 else srv_version (services s1 i), s1)
         }
   }"

section \<open>The mailbox agent\<close>

text \<open>
  \<open>params\<close> points to a \<open>struct client_params_t\<close>: the client id and the two vector pointers, 12 bytes
  in memory.
\<close>

definition tfm_spm_agent_psa_call :: "spm_env \<Rightarrow> u32 \<Rightarrow> u32 \<Rightarrow> u32 \<Rightarrow> u32 \<Rightarrow> psa_status_t spm" where
  "tfm_spm_agent_psa_call env handle control params client_data_stateless s = do {
     cur \<leftarrow> current s;
     if \<not> memory_check env (boundary (partitions s cur)) params 12 TFM_HAL_ACCESS_READABLE
     then Some (psa_error_code PSA_ERROR_PROGRAMMER_ERROR, s)
     else do {
       let ns_client_id_stateless = sint (mem_rd32 (ram s) params);
       (r, s1) \<leftarrow> spm_get_idle_connection env handle ns_client_id_stateless s;
       case r of
         Inl e \<Rightarrow> Some (psa_error_code e, s1)
       | Inr p_connection \<Rightarrow> do {
           let p_invecs = mem_rd32 (ram s1) (params + 4);
           let p_outvecs = mem_rd32 (ram s1) (params + 8);
           (r, s2) \<leftarrow> spm_associate_call_params env p_connection control p_invecs p_outvecs s1;
           case r of
             Inl e \<Rightarrow> Some (psa_error_code e, if IS_STATIC_HANDLE handle then spm_free_connection p_connection s2 else s2)
           | Inr _ \<Rightarrow> backend_messaging p_connection
               (upd_conn p_connection (\<lambda>c. c\<lparr>client_data := client_data_stateless\<rparr>) s2)
         }
     }
   }"

definition tfm_spm_agent_psa_connect :: "spm_env \<Rightarrow> u32 \<Rightarrow> u32 \<Rightarrow> int \<Rightarrow> u32 \<Rightarrow> psa_status_t spm" where
  "tfm_spm_agent_psa_connect env rot_sid version ns_client_id data s = do {
     cur \<leftarrow> current s;
     if \<not> IS_NS_AGENT_MAILBOX (partitions s cur) then None
     else if ns_client_id \<ge> 0 then None
     else do {
       (r, s1) \<leftarrow> spm_psa_connect_client_id_associated env rot_sid version ns_client_id s;
       case r of
         Inl e \<Rightarrow> Some (psa_error_code e, s1)
       | Inr p_connection \<Rightarrow> backend_messaging p_connection (upd_conn p_connection (\<lambda>c. c\<lparr>client_data := data\<rparr>) s1)
     }
   }"

definition tfm_spm_agent_psa_close :: "spm_env \<Rightarrow> u32 \<Rightarrow> int \<Rightarrow> psa_status_t spm" where
  "tfm_spm_agent_psa_close env handle ns_client_id s = do {
     cur \<leftarrow> current s;
     if \<not> IS_NS_AGENT_MAILBOX (partitions s cur) \<or> ns_client_id \<ge> 0 then None
     else spm_psa_close_client_id_associated env handle ns_client_id s
   }"

end
