(* ===== verification/SPM_Service.thy ===== *)
theory SPM_Service
  imports SPM_IPC
begin

text \<open>
  The partition side of the Secure Partition Manager, under src/secure_fw/spm/core: reading and
  writing the vectors of a request (psa_read_write_skip_api.c), mapping them (psa_mmiovec_api.c), and
  waiting for, taking and answering messages (psa_api.c, spm_ipc.c, backend_ipc.c).
\<close>

section \<open>State of a mapped vector\<close>

definition INVEC_IDX_BASE :: nat where "INVEC_IDX_BASE = 0"
definition OUTVEC_IDX_BASE :: nat where "OUTVEC_IDX_BASE = 4"

definition IOVEC_IS_MAPPED :: "connection_t \<Rightarrow> nat \<Rightarrow> bool" where
  "IOVEC_IS_MAPPED c i = (drop_bit (i * 4) (iovec_status c) AND push_bit 0 1 \<noteq> 0)"
definition IOVEC_IS_UNMAPPED :: "connection_t \<Rightarrow> nat \<Rightarrow> bool" where
  "IOVEC_IS_UNMAPPED c i = (drop_bit (i * 4) (iovec_status c) AND push_bit 1 1 \<noteq> 0)"
definition IOVEC_IS_ACCESSED :: "connection_t \<Rightarrow> nat \<Rightarrow> bool" where
  "IOVEC_IS_ACCESSED c i = (drop_bit (i * 4) (iovec_status c) AND push_bit 2 1 \<noteq> 0)"
definition SET_IOVEC_MAPPED :: "nat \<Rightarrow> connection_t \<Rightarrow> connection_t" where
  "SET_IOVEC_MAPPED i c = c\<lparr>iovec_status := iovec_status c OR push_bit (i * 4) (push_bit 0 1)\<rparr>"
definition SET_IOVEC_UNMAPPED :: "nat \<Rightarrow> connection_t \<Rightarrow> connection_t" where
  "SET_IOVEC_UNMAPPED i c = c\<lparr>iovec_status := iovec_status c OR push_bit (i * 4) (push_bit 1 1)\<rparr>"
definition SET_IOVEC_ACCESSED :: "nat \<Rightarrow> connection_t \<Rightarrow> connection_t" where
  "SET_IOVEC_ACCESSED i c = c\<lparr>iovec_status := iovec_status c OR push_bit (i * 4) (push_bit 2 1)\<rparr>"

section \<open>Reading and writing\<close>

text \<open>The checks all operations on a message share: a valid handle of a request message.\<close>

definition request_connection :: "u32 \<Rightarrow> spm_state \<Rightarrow> u32 option" where
  "request_connection handle s = do {
     c \<leftarrow> spm_msg_handle_to_connection handle s;
     if c = 0 then None
     else if msg_type (msg (conns s c)) < PSA_IPC_CALL then None
     else Some c
   }"

text \<open>With \<open>PSA_FRAMEWORK_HAS_MM_IOVEC\<close>: a mapped vector is fatal, else it is marked as accessed.\<close>

definition mark_accessed :: "spm_env \<Rightarrow> u32 \<Rightarrow> nat \<Rightarrow> spm_state \<Rightarrow> spm_state option" where
  "mark_accessed env c i s =
     (if \<not> has_mm_iovec env then Some s
      else if IOVEC_IS_MAPPED (conns s c) i then None
      else Some (upd_conn c (SET_IOVEC_ACCESSED i) s))"

definition tfm_spm_partition_psa_read :: "spm_env \<Rightarrow> u32 \<Rightarrow> nat \<Rightarrow> u32 \<Rightarrow> u32 \<Rightarrow> u32 spm" where
  "tfm_spm_partition_psa_read env handle invec_idx buffer num_bytes s = do {
     c \<leftarrow> request_connection handle s;
     if invec_idx \<ge> PSA_MAX_IOVEC then None
     else do {
       s \<leftarrow> mark_accessed env c (invec_idx + INVEC_IDX_BASE) s;
       let conn = conns s c;
       let accessed = invec_accessed conn ! invec_idx;
       let remaining = in_size (msg conn) ! invec_idx - accessed;
       if remaining = 0 then Some (0, s)
       else do {
         cur \<leftarrow> current s;
         if \<not> memory_check env (boundary (partitions s cur)) buffer num_bytes TFM_HAL_ACCESS_READWRITE then None
         else do {
           let bytes = (if num_bytes < remaining then num_bytes else remaining);
           Some (bytes,
             upd_conn c (\<lambda>c. c\<lparr>invec_accessed := (invec_accessed c)[invec_idx := accessed + bytes]\<rparr>)
               (s\<lparr>ram := mem_wr (ram s) buffer (mem_rd (ram s) (invec_base conn ! invec_idx + accessed) (unat bytes))\<rparr>))
         }
       }
     }
   }"

definition tfm_spm_partition_psa_skip :: "spm_env \<Rightarrow> u32 \<Rightarrow> nat \<Rightarrow> u32 \<Rightarrow> u32 spm" where
  "tfm_spm_partition_psa_skip env handle invec_idx num_bytes s = do {
     c \<leftarrow> request_connection handle s;
     if invec_idx \<ge> PSA_MAX_IOVEC then None
     else do {
       s \<leftarrow> mark_accessed env c (invec_idx + INVEC_IDX_BASE) s;
       let conn = conns s c;
       let accessed = invec_accessed conn ! invec_idx;
       let remaining = in_size (msg conn) ! invec_idx - accessed;
       if remaining = 0 then Some (0, s)
       else do {
         let num_bytes = (if num_bytes > remaining then remaining else num_bytes);
         Some (num_bytes, upd_conn c (\<lambda>c. c\<lparr>invec_accessed := (invec_accessed c)[invec_idx := accessed + num_bytes]\<rparr>) s)
       }
     }
   }"

definition tfm_spm_partition_psa_write :: "spm_env \<Rightarrow> u32 \<Rightarrow> nat \<Rightarrow> u32 \<Rightarrow> u32 \<Rightarrow> psa_status_t spm" where
  "tfm_spm_partition_psa_write env handle outvec_idx buffer num_bytes s = do {
     c \<leftarrow> request_connection handle s;
     if outvec_idx \<ge> PSA_MAX_IOVEC then None
     else if num_bytes > out_size (msg (conns s c)) ! outvec_idx - outvec_written (conns s c) ! outvec_idx then None
     else do {
       s \<leftarrow> mark_accessed env c (outvec_idx + OUTVEC_IDX_BASE) s;
       cur \<leftarrow> current s;
       if \<not> memory_check env (boundary (partitions s cur)) buffer num_bytes TFM_HAL_ACCESS_READABLE then None
       else do {
         let conn = conns s c;
         let written = outvec_written conn ! outvec_idx;
         Some (PSA_SUCCESS,
           upd_conn c (\<lambda>c. c\<lparr>outvec_written := (outvec_written c)[outvec_idx := written + num_bytes]\<rparr>)
             (s\<lparr>ram := mem_wr (ram s) (outvec_base conn ! outvec_idx + written) (mem_rd (ram s) buffer (unat num_bytes))\<rparr>))
       }
     }
   }"

section \<open>Mapping\<close>

text \<open>The checks the four mapping operations share.\<close>

definition mappable_connection :: "u32 \<Rightarrow> nat \<Rightarrow> spm_state \<Rightarrow> u32 option" where
  "mappable_connection handle idx s = do {
     c \<leftarrow> spm_msg_handle_to_connection handle s;
     if c = 0 then None
     else do {
       i \<leftarrow> conn_service (conns s c);
       if \<not> SERVICE_ENABLED_MM_IOVEC (srv_flags (services s i)) then None
       else if msg_type (msg (conns s c)) < PSA_IPC_CALL then None
       else if idx \<ge> PSA_MAX_IOVEC then None
       else Some c
     }
   }"

definition owner_boundary :: "u32 \<Rightarrow> spm_state \<Rightarrow> u32 option" where
  "owner_boundary c s = do {
     i \<leftarrow> conn_service (conns s c);
     p \<leftarrow> srv_partition (services s i);
     Some (boundary (partitions s p))
   }"

definition tfm_spm_partition_psa_map_invec :: "spm_env \<Rightarrow> u32 \<Rightarrow> nat \<Rightarrow> u32 spm" where
  "tfm_spm_partition_psa_map_invec env handle invec_idx s = do {
     c \<leftarrow> mappable_connection handle invec_idx s;
     bound \<leftarrow> owner_boundary c s;
     let conn = conns s c;
     if in_size (msg conn) ! invec_idx = 0 then None
     else if IOVEC_IS_MAPPED conn (invec_idx + INVEC_IDX_BASE) then None
     else if IOVEC_IS_ACCESSED conn (invec_idx + INVEC_IDX_BASE) then None
     else if \<not> memory_check env bound (invec_base conn ! invec_idx) (in_size (msg conn) ! invec_idx) TFM_HAL_ACCESS_READABLE
     then None
     else Some (invec_base conn ! invec_idx, upd_conn c (SET_IOVEC_MAPPED (invec_idx + INVEC_IDX_BASE)) s)
   }"

definition tfm_spm_partition_psa_unmap_invec :: "u32 \<Rightarrow> nat \<Rightarrow> unit spm" where
  "tfm_spm_partition_psa_unmap_invec handle invec_idx s = do {
     c \<leftarrow> mappable_connection handle invec_idx s;
     let conn = conns s c;
     if \<not> IOVEC_IS_MAPPED conn (invec_idx + INVEC_IDX_BASE) then None
     else if IOVEC_IS_UNMAPPED conn (invec_idx + INVEC_IDX_BASE) then None
     else Some ((), upd_conn c (SET_IOVEC_UNMAPPED (invec_idx + INVEC_IDX_BASE)) s)
   }"

definition tfm_spm_partition_psa_map_outvec :: "spm_env \<Rightarrow> u32 \<Rightarrow> nat \<Rightarrow> u32 spm" where
  "tfm_spm_partition_psa_map_outvec env handle outvec_idx s = do {
     c \<leftarrow> mappable_connection handle outvec_idx s;
     bound \<leftarrow> owner_boundary c s;
     let conn = conns s c;
     if out_size (msg conn) ! outvec_idx = 0 then None
     else if IOVEC_IS_MAPPED conn (outvec_idx + OUTVEC_IDX_BASE) then None
     else if IOVEC_IS_ACCESSED conn (outvec_idx + OUTVEC_IDX_BASE) then None
     else if \<not> memory_check env bound (outvec_base conn ! outvec_idx) (out_size (msg conn) ! outvec_idx) TFM_HAL_ACCESS_READWRITE
     then None
     else Some (outvec_base conn ! outvec_idx, upd_conn c (SET_IOVEC_MAPPED (outvec_idx + OUTVEC_IDX_BASE)) s)
   }"

definition tfm_spm_partition_psa_unmap_outvec :: "u32 \<Rightarrow> nat \<Rightarrow> u32 \<Rightarrow> unit spm" where
  "tfm_spm_partition_psa_unmap_outvec handle outvec_idx len s = do {
     c \<leftarrow> mappable_connection handle outvec_idx s;
     let conn = conns s c;
     if len > out_size (msg conn) ! outvec_idx then None
     else if \<not> IOVEC_IS_MAPPED conn (outvec_idx + OUTVEC_IDX_BASE) then None
     else if IOVEC_IS_UNMAPPED conn (outvec_idx + OUTVEC_IDX_BASE) then None
     else Some ((), upd_conn c (\<lambda>c. (SET_IOVEC_UNMAPPED (outvec_idx + OUTVEC_IDX_BASE) c)
                      \<lparr>outvec_written := (outvec_written c)[outvec_idx := len]\<rparr>) s)
   }"

section \<open>Messages\<close>

text \<open>
  New messages are put at the head of the list, so the last match is the oldest one. The loop
  counts the matches; the signal is cleared when the message taken was the only one.
\<close>

definition spm_get_handle_by_signal :: "nat \<Rightarrow> u32 \<Rightarrow> spm_state \<Rightarrow> (u32 option \<times> spm_state) option" where
  "spm_get_handle_by_signal p_ptn signal s =
     (let matches = (\<lambda>c. case conn_service (conns s c) of None \<Rightarrow> False
                        | Some i \<Rightarrow> srv_signal (services s i) = signal);
          found = filter matches (p_handles (partitions s p_ptn))
      in if \<exists>c \<in> set (p_handles (partitions s p_ptn)). conn_service (conns s c) = None then None
         else if found = [] then Some (None, s)
         else
           (let s1 = upd_part p_ptn (\<lambda>p. p\<lparr>p_handles := rev (remove1 (last found) (rev (p_handles p)))\<rparr>) s
            in Some (Some (last found),
                 if length found = 1
                 then upd_part p_ptn (\<lambda>p. p\<lparr>signals_asserted := signals_asserted p AND NOT signal\<rparr>) s1
                 else s1)))"

definition IS_ONLY_ONE_BIT_IN_UINT32 :: "u32 \<Rightarrow> bool" where
  "IS_ONLY_ONE_BIT_IN_UINT32 n = (n \<noteq> 0 \<and> n AND (n - 1) = 0)"

definition tfm_spm_partition_psa_wait :: "u32 \<Rightarrow> u32 \<Rightarrow> u32 spm" where
  "tfm_spm_partition_psa_wait signal_mask timeout s = do {
     cur \<leftarrow> current s;
     let p = partitions s cur;
     if signals_allowed p \<noteq> 0 \<and> signals_allowed p AND signal_mask = 0 then None
     else if timeout AND 0x80000000 = 0x80000000 then do {
       (signal, s1) \<leftarrow> backend_wait_signals (Some cur) signal_mask s;
       Some (if signal = 0 then word_of_int STATUS_NEED_SCHEDULE else signal, s1)
     }
     else Some (signals_asserted p AND signal_mask, s)
   }"

text \<open>
  The message delivered is returned as a value; \<open>msgp\<close> is the caller's buffer for it, of which
  the code checks the 48 bytes of \<open>psa_msg_t\<close>.
\<close>

definition tfm_spm_partition_psa_get :: "spm_env \<Rightarrow> u32 \<Rightarrow> u32 \<Rightarrow> (psa_status_t \<times> psa_msg_t option) spm" where
  "tfm_spm_partition_psa_get env signal msgp s =
     (if \<not> IS_ONLY_ONE_BIT_IN_UINT32 signal then None
      else do {
        cur \<leftarrow> current s;
        let p = partitions s cur;
        if \<not> memory_check env (boundary p) msgp 48 TFM_HAL_ACCESS_READWRITE then None
        else if signals_asserted p = 0 then None
        else if signals_asserted p AND signal = 0 then None
        else if signal = ASYNC_MSG_REPLY then
          if p_handles p = [] then None
          else do {
            let handle = last (p_handles p);
            let s1 = upd_part cur (\<lambda>p. p\<lparr>p_handles := butlast (p_handles p),
                       signals_asserted := (if butlast (p_handles p) = [] then signals_asserted p AND NOT ASYNC_MSG_REPLY
                                            else signals_asserted p)\<rparr>) s;
            Some ((conn_reply_value (conns s handle), Some (msg (conns s handle))), s1)
          }
        else do {
          (handle, s1) \<leftarrow> spm_get_handle_by_signal cur signal s;
          case handle of
            None \<Rightarrow> Some ((psa_error_code PSA_ERROR_DOES_NOT_EXIST, None), s1)
          | Some c \<Rightarrow> Some ((PSA_SUCCESS, Some (msg (conns s1 c))), s1)
        }
      })"

section \<open>Replies\<close>

fun update_caller_outvec_len_loop :: "nat list \<Rightarrow> connection_t \<Rightarrow> memory \<Rightarrow> memory" where
  "update_caller_outvec_len_loop [] c m = m"
| "update_caller_outvec_len_loop (i # is) c m =
     (if out_size (msg c) ! i = 0 then update_caller_outvec_len_loop is c m
      else update_caller_outvec_len_loop is c
             (mem_wr32 m (caller_outvec c + word_of_nat (8 * i + 4)) (outvec_written c ! i)))"

definition update_caller_outvec_len :: "u32 \<Rightarrow> spm_state \<Rightarrow> spm_state" where
  "update_caller_outvec_len c s =
     s\<lparr>ram := update_caller_outvec_len_loop [0..<PSA_MAX_IOVEC] (conns s c) (ram s)\<rparr>"

text \<open>Output vectors that are still mapped count as not written.\<close>

fun clear_mapped_loop :: "nat list \<Rightarrow> connection_t \<Rightarrow> connection_t" where
  "clear_mapped_loop [] c = c"
| "clear_mapped_loop (i # is) c =
     clear_mapped_loop is
       (if IOVEC_IS_MAPPED c i \<and> \<not> IOVEC_IS_UNMAPPED c i
        then c\<lparr>outvec_written := (outvec_written c)[i - OUTVEC_IDX_BASE := 0]\<rparr> else c)"

definition backend_replying :: "u32 \<Rightarrow> psa_status_t \<Rightarrow> psa_status_t spm" where
  "backend_replying c status s =
     (let client = p_client (conns s c)
      in if tfm_spm_is_rpc_msg (conns s c) then do {
           cl \<leftarrow> client;
           let s1 = upd_conn c (\<lambda>x. x\<lparr>conn_reply_value := status, msg := (msg x)\<lparr>rhandle := c\<rparr>\<rparr>) s;
           let s2 = upd_part cl (\<lambda>p. p\<lparr>p_handles := c # p_handles p\<rparr>) s1;
           backend_assert_signal client ASYNC_MSG_REPLY s2
         }
         else do {
           cl \<leftarrow> client;
           backend_assert_signal client ASYNC_MSG_REPLY (upd_part cl (\<lambda>p. p\<lparr>part_reply_value := status\<rparr>) s)
         })"

definition set_status :: "u32 \<Rightarrow> handle_status \<Rightarrow> spm_state \<Rightarrow> spm_state" where
  "set_status c st s = upd_conn c (\<lambda>c. c\<lparr>conn_status := st\<rparr>) s"

text \<open>The reply value and the state after the \<open>switch\<close> on the message type.\<close>

definition reply_value :: "spm_env \<Rightarrow> u32 \<Rightarrow> u32 \<Rightarrow> service_t \<Rightarrow> psa_status_t \<Rightarrow> psa_status_t spm" where
  "reply_value env handle c service status s =
     (let typ = msg_type (msg (conns s c)) in
      if typ = PSA_IPC_CONNECT then
        if status = PSA_SUCCESS then Some (sint handle, s)
        else if status = psa_error_code PSA_ERROR_CONNECTION_REFUSED
        then Some (psa_error_code PSA_ERROR_CONNECTION_REFUSED, set_status c TFM_HANDLE_STATUS_TO_FREE s)
        else if status = psa_error_code PSA_ERROR_CONNECTION_BUSY
        then Some (psa_error_code PSA_ERROR_CONNECTION_BUSY, s)
        else None
      else if typ = PSA_IPC_DISCONNECT then Some (PSA_SUCCESS, set_status c TFM_HANDLE_STATUS_TO_FREE s)
      else if typ \<ge> PSA_IPC_CALL then
        (let s1 = (if has_mm_iovec env then upd_conn c (clear_mapped_loop [OUTVEC_IDX_BASE..<2 * PSA_MAX_IOVEC]) s else s);
             s2 = update_caller_outvec_len c s1
         in Some (status, if SERVICE_IS_STATELESS (srv_flags service)
                          then set_status c TFM_HANDLE_STATUS_TO_FREE s2 else s2))
      else None)"

definition tfm_spm_partition_psa_reply :: "spm_env \<Rightarrow> u32 \<Rightarrow> psa_status_t \<Rightarrow> psa_status_t spm" where
  "tfm_spm_partition_psa_reply env handle status s = do {
     c \<leftarrow> spm_msg_handle_to_connection handle s;
     if c = 0 then None
     else do {
       i \<leftarrow> conn_service (conns s c);
       (ret, s1) \<leftarrow> reply_value env handle c (services s i) status s;
       if ret = psa_error_code PSA_ERROR_PROGRAMMER_ERROR \<and> \<not> client_id (msg (conns s1 c)) < 0 then None
       else do {
         (ret, s2) \<leftarrow> backend_replying c ret s1;
         if tfm_spm_is_rpc_msg (conns s2 c) then Some (ret, s2)
         else if conn_status (conns s2 c) = TFM_HANDLE_STATUS_TO_FREE then Some (ret, spm_free_connection c s2)
         else Some (ret, set_status c TFM_HANDLE_STATUS_IDLE s2)
       }
     }
   }"

section \<open>Doorbells\<close>

definition tfm_spm_partition_psa_notify :: "int \<Rightarrow> psa_status_t spm" where
  "tfm_spm_partition_psa_notify partition_id s =
     backend_assert_signal (tfm_spm_get_partition_by_id partition_id s) PSA_DOORBELL s"

definition tfm_spm_partition_psa_clear :: "psa_status_t spm" where
  "tfm_spm_partition_psa_clear s = do {
     cur \<leftarrow> current s;
     if signals_asserted (partitions s cur) AND PSA_DOORBELL = 0 then None
     else Some (PSA_SUCCESS, upd_part cur (\<lambda>p. p\<lparr>signals_asserted := signals_asserted p AND NOT PSA_DOORBELL\<rparr>) s)
   }"

end
