(* ===== verification/SPM_Vectors.thy ===== *)
theory SPM_Vectors
  imports SPM_Service
begin

text \<open>
  The vectors of a request: what \<open>psa_read\<close>, \<open>psa_skip\<close> and \<open>psa_write\<close> do to the bytes a client
  passed. The abstract view of an input vector is the list of bytes not read yet, of an output
  vector the list of bytes written so far.
\<close>

section \<open>Well-formed connections\<close>

definition conn_wf :: "connection_t \<Rightarrow> bool" where
  "conn_wf c \<longleftrightarrow> length (in_size (msg c)) = 4 \<and> length (out_size (msg c)) = 4
     \<and> length (invec_base c) = 4 \<and> length (invec_accessed c) = 4
     \<and> length (outvec_base c) = 4 \<and> length (outvec_written c) = 4"

text \<open>The counters of a vector the client passed stay within it.\<close>

definition iov_ok :: "connection_t \<Rightarrow> bool" where
  "iov_ok c \<longleftrightarrow> (\<forall>i < 4. (in_size (msg c) ! i \<noteq> 0 \<longrightarrow> invec_accessed c ! i \<le> in_size (msg c) ! i)
     \<and> (out_size (msg c) ! i \<noteq> 0 \<longrightarrow> outvec_written c ! i \<le> out_size (msg c) ! i))"

section \<open>Views\<close>

definition invec_data :: "spm_state \<Rightarrow> u32 \<Rightarrow> nat \<Rightarrow> byte list" where
  "invec_data s c i = mem_rd (ram s) (invec_base (conns s c) ! i) (unat (in_size (msg (conns s c)) ! i))"

definition invec_rest :: "spm_state \<Rightarrow> u32 \<Rightarrow> nat \<Rightarrow> byte list" where
  "invec_rest s c i = drop (unat (invec_accessed (conns s c) ! i)) (invec_data s c i)"

definition outvec_done :: "spm_state \<Rightarrow> u32 \<Rightarrow> nat \<Rightarrow> byte list" where
  "outvec_done s c i = mem_rd (ram s) (outvec_base (conns s c) ! i) (unat (outvec_written (conns s c) ! i))"

definition mem_disjoint :: "u32 \<Rightarrow> nat \<Rightarrow> u32 \<Rightarrow> nat \<Rightarrow> bool" where
  "mem_disjoint a n b k \<longleftrightarrow> (\<forall>x. \<not> (unat (x - a) < n \<and> unat (x - b) < k))"

lemma mem_rd_wr_disjoint:
  assumes "mem_disjoint a (length bs) b k" "k \<le> 2 ^ 32"
  shows "mem_rd (mem_wr m a bs) b k = mem_rd m b k"
proof (rule nth_equalityI)
  fix i assume "i < length (mem_rd (mem_wr m a bs) b k)"
  then have i: "i < k" by simp
  then have "unat (b + word_of_nat i - b) < k" using assms(2) by (simp add: unat_of_nat)
  then have "\<not> unat (b + word_of_nat i - a) < length bs" using assms(1) unfolding mem_disjoint_def by blast
  then show "mem_rd (mem_wr m a bs) b k ! i = mem_rd m b k ! i" using i by (simp add: mem_wr_def)
qed simp

lemma mem_disjoint_mono: "mem_disjoint a n b k \<Longrightarrow> n' \<le> n \<Longrightarrow> mem_disjoint a n' b k"
  by (auto simp: mem_disjoint_def)

section \<open>Request messages\<close>

lemma request_connectionD:
  assumes "request_connection h s = Some c"
  shows "c \<noteq> 0" "c = handle_to_connection h s" "is_valid_chunk_data_in_pool (pool s) c"
    "0 \<le> msg_type (msg (conns s c))"
    "\<exists>i p. conn_service (conns s c) = Some i \<and> srv_partition (services s i) = Some p
      \<and> pid (partitions s p) = tfm_spm_partition_get_running_partition_id s"
  using assms
  by (auto simp: request_connection_def spm_msg_handle_to_connection_def Let_def spm_validate_connection_def
      spm_simps bind_eq_Some_conv split: if_splits)

text \<open>The vector has not been mapped (always so without MM-IOVEC).\<close>

definition unmapped :: "spm_env \<Rightarrow> connection_t \<Rightarrow> nat \<Rightarrow> bool" where
  "unmapped env c i \<longleftrightarrow> has_mm_iovec env \<longrightarrow> \<not> IOVEC_IS_MAPPED c i"

lemma mark_accessed_ok:
  assumes "unmapped env (conns s c) i"
  shows "\<exists>st. mark_accessed env c i s = Some (upd_conn c (\<lambda>x. x\<lparr>iovec_status := st\<rparr>) s)"
proof (cases "has_mm_iovec env")
  case True
  then have "mark_accessed env c i s = Some (upd_conn c
      (\<lambda>x. x\<lparr>iovec_status := iovec_status (conns s c) OR push_bit (i * 4) (push_bit 2 1)\<rparr>) s)"
    using assms by (simp add: mark_accessed_def unmapped_def upd_conn_def SET_IOVEC_ACCESSED_def)
  then show ?thesis by blast
next
  case False
  have "upd_conn c (\<lambda>x. x\<lparr>iovec_status := iovec_status (conns s c)\<rparr>) s = s" by (simp add: upd_conn_def)
  then show ?thesis using False by (intro exI[of _ "iovec_status (conns s c)"]) (simp add: mark_accessed_def)
qed

lemma mark_accessed_mapped: "\<not> unmapped env (conns s c) i \<Longrightarrow> mark_accessed env c i s = None"
  by (simp add: mark_accessed_def unmapped_def)

section \<open>Reading\<close>

lemma psa_read_refines:
  assumes rc: "request_connection h s = Some c" and i: "i < 4" and wf: "conn_wf (conns s c)" "iov_ok (conns s c)"
    and um: "unmapped env (conns s c) i" and ne: "invec_rest s c i \<noteq> []"
    and cur: "current s = Some cur" "memory_check env (boundary (partitions s cur)) buffer n TFM_HAL_ACCESS_READWRITE"
    and dj: "mem_disjoint buffer (unat n) (invec_base (conns s c) ! i) (unat (in_size (msg (conns s c)) ! i))"
  obtains r t where "tfm_spm_partition_psa_read env h i buffer n s = Some (r, t)"
    "unat r = min (unat n) (length (invec_rest s c i))"
    "mem_rd (ram t) buffer (unat r) = take (unat n) (invec_rest s c i)"
    "invec_rest t c i = drop (unat n) (invec_rest s c i)"
    "\<And>x. unat r \<le> unat (x - buffer) \<Longrightarrow> ram t x = ram s x"
proof -
  let ?C = "conns s c" and ?sz = "in_size (msg (conns s c)) ! i" and ?ac = "invec_accessed (conns s c) ! i"
    and ?b = "invec_base (conns s c) ! i"
  obtain st where ma: "mark_accessed env c i s = Some (upd_conn c (\<lambda>x. x\<lparr>iovec_status := st\<rparr>) s)"
    using mark_accessed_ok[OF um] by blast
  define rem where "rem = ?sz - ?ac"
  have lens: "length (invec_accessed ?C) = 4" using wf(1) by (simp add: conn_wf_def)
  have "?sz \<noteq> 0" using ne by (auto simp: invec_rest_def invec_data_def)
  then have le: "?ac \<le> ?sz" using wf(2) i by (auto simp: iov_ok_def)
  have ur: "unat rem = unat ?sz - unat ?ac" using le by (simp add: rem_def unat_sub_le)
  have lr: "length (invec_rest s c i) = unat rem" by (simp add: invec_rest_def invec_data_def ur)
  then have rem: "rem \<noteq> 0" using ne by auto
  define r where "r = (if n < rem then n else rem)"
  have r: "unat r = min (unat n) (unat rem)" by (simp add: r_def word_less_nat_alt)
  have ar: "unat (?ac + r) = unat ?ac + unat r"
    using r ur le unat_u32_lt[of ?sz] by (intro unat_add_lt) (auto simp: word_le_nat_alt)
  define D where "D = mem_rd (ram s) (?b + ?ac) (unat r)"
  define t where "t = upd_conn c (\<lambda>x. x\<lparr>invec_accessed := (invec_accessed x)[i := ?ac + r]\<rparr>)
      ((upd_conn c (\<lambda>x. x\<lparr>iovec_status := st\<rparr>) s)\<lparr>ram := mem_wr (ram s) buffer D\<rparr>)"
  have run: "tfm_spm_partition_psa_read env h i buffer n s = Some (r, t)"
    unfolding tfm_spm_partition_psa_read_def rc INVEC_IDX_BASE_def
    using i ma cur rem by (simp add: PSA_MAX_IOVEC_def rem_def r_def D_def t_def Let_def)
  have "rd (invec_data s c i) (unat ?ac) (unat r) = mem_rd (ram s) (?b + word_of_nat (unat ?ac)) (unat r)"
    unfolding invec_data_def using r ur le by (intro rd_mem_rd) (auto simp: word_le_nat_alt)
  then have "D = take (unat r) (invec_rest s c i)" by (simp add: D_def invec_rest_def rd_def)
  also have "\<dots> = take (unat n) (invec_rest s c i)" using r lr by (simp add: min_def)
  finally have D: "D = take (unat n) (invec_rest s c i)" .
  have m1: "mem_rd (ram t) buffer (unat r) = D"
    using mem_rd_wr_same[of D "ram s" buffer] unat_u32_lt[of r] by (simp add: t_def D_def)
  have dt: "invec_data t c i = invec_data s c i"
  proof -
    have "mem_disjoint buffer (length D) ?b (unat ?sz)"
      by (rule mem_disjoint_mono[OF dj]) (simp add: D_def r)
    then have "mem_rd (mem_wr (ram s) buffer D) ?b (unat ?sz) = mem_rd (ram s) ?b (unat ?sz)"
      by (rule mem_rd_wr_disjoint) (use unat_u32_lt[of ?sz] in simp)
    then show ?thesis by (simp add: invec_data_def t_def)
  qed
  have m2: "invec_rest t c i = drop (unat n) (invec_rest s c i)"
  proof -
    have "invec_accessed (conns t c) ! i = ?ac + r" using lens i by (simp add: t_def)
    then have "invec_rest t c i = drop (unat r) (invec_rest s c i)"
      by (simp add: invec_rest_def dt ar) (simp add: add.commute)
    also have "\<dots> = drop (unat n) (invec_rest s c i)" using r lr by (simp add: min_def)
    finally show ?thesis .
  qed
  show thesis
    by (rule that[OF run]) (use r lr m1 m2 D in \<open>auto simp: t_def D_def mem_wr_other\<close>)
qed

lemma psa_read_empty:
  assumes rc: "request_connection h s = Some c" and i: "i < 4"
    and um: "unmapped env (conns s c) i" and e: "invec_accessed (conns s c) ! i = in_size (msg (conns s c)) ! i"
  shows "\<exists>t. tfm_spm_partition_psa_read env h i buffer n s = Some (0, t) \<and> ram t = ram s"
proof -
  obtain st where "mark_accessed env c i s = Some (upd_conn c (\<lambda>x. x\<lparr>iovec_status := st\<rparr>) s)"
    using mark_accessed_ok[OF um] by blast
  then show ?thesis
    unfolding tfm_spm_partition_psa_read_def rc INVEC_IDX_BASE_def
    using i e by (simp add: PSA_MAX_IOVEC_def Let_def)
qed

section \<open>Writing\<close>

text \<open>A write that fits appends; any other write panics.\<close>

lemma psa_write_refines:
  assumes rc: "request_connection h s = Some c" and i: "i < 4" and wf: "conn_wf (conns s c)"
    and um: "unmapped env (conns s c) (i + 4)"
    and cur: "current s = Some cur" "memory_check env (boundary (partitions s cur)) buffer n TFM_HAL_ACCESS_READABLE"
    and le: "outvec_written (conns s c) ! i \<le> out_size (msg (conns s c)) ! i"
    and fit: "unat (outvec_written (conns s c) ! i) + unat n \<le> unat (out_size (msg (conns s c)) ! i)"
  shows "\<exists>t. tfm_spm_partition_psa_write env h i buffer n s = Some (PSA_SUCCESS, t)
    \<and> outvec_done t c i = outvec_done s c i @ mem_rd (ram s) buffer (unat n)
    \<and> (\<forall>x. unat (out_size (msg (conns s c)) ! i) \<le> unat (x - outvec_base (conns s c) ! i) \<longrightarrow> ram t x = ram s x)"
proof -
  let ?sz = "out_size (msg (conns s c)) ! i" and ?wr = "outvec_written (conns s c) ! i" and ?b = "outvec_base (conns s c) ! i"
  obtain st where ma: "mark_accessed env c (i + 4) s = Some (upd_conn c (\<lambda>x. x\<lparr>iovec_status := st\<rparr>) s)"
    using mark_accessed_ok[OF um] by blast
  have lens: "length (outvec_written (conns s c)) = 4" using wf by (simp add: conn_wf_def)
  have nlt: "\<not> n > ?sz - ?wr" using le fit by (simp add: word_less_nat_alt unat_sub_le)
  define D where "D = mem_rd (ram s) buffer (unat n)"
  define t where "t = upd_conn c (\<lambda>x. x\<lparr>outvec_written := (outvec_written x)[i := ?wr + n]\<rparr>)
      ((upd_conn c (\<lambda>x. x\<lparr>iovec_status := st\<rparr>) s)\<lparr>ram := mem_wr (ram s) (?b + ?wr) D\<rparr>)"
  have run: "tfm_spm_partition_psa_write env h i buffer n s = Some (PSA_SUCCESS, t)"
    unfolding tfm_spm_partition_psa_write_def rc OUTVEC_IDX_BASE_def
    using i ma cur nlt by (simp add: PSA_MAX_IOVEC_def D_def t_def Let_def)
  have uw: "unat (?wr + n) = unat ?wr + unat n"
    using fit unat_u32_lt[of ?sz] by (intro unat_add_lt) simp
  have dj: "mem_disjoint (?b + ?wr) (length D) ?b (unat ?wr)"
    unfolding mem_disjoint_def
  proof (intro allI notI)
    fix x assume x: "unat (x - (?b + ?wr)) < length D \<and> unat (x - ?b) < unat ?wr"
    then have "unat (x - (?b + ?wr)) < unat n" by (simp add: D_def)
    then have "unat (x - (?b + ?wr)) + unat ?wr < 2 ^ 32" using fit unat_u32_lt[of ?sz] by simp
    then have "unat ((x - (?b + ?wr)) + ?wr) = unat (x - (?b + ?wr)) + unat ?wr" by (rule unat_add_lt)
    then show False using x by simp
  qed
  have "outvec_done t c i = mem_rd (ram t) ?b (unat ?wr + unat n)"
    using lens i uw by (simp add: outvec_done_def t_def)
  also have "\<dots> = mem_rd (ram t) ?b (unat ?wr) @ mem_rd (ram t) (?b + ?wr) (unat n)"
    by (simp add: mem_rd_append)
  also have "mem_rd (ram t) ?b (unat ?wr) = outvec_done s c i"
    using mem_rd_wr_disjoint[OF dj, of "ram s"] unat_u32_lt[of ?wr] by (simp add: t_def outvec_done_def)
  also have "mem_rd (ram t) (?b + ?wr) (unat n) = D"
    using mem_rd_wr_same[of D "ram s" "?b + ?wr"] unat_u32_lt[of n] by (simp add: t_def D_def)
  finally have dn: "outvec_done t c i = outvec_done s c i @ D" .
  have out: "ram t x = ram s x" if x: "unat ?sz \<le> unat (x - ?b)" for x
  proof -
    have "length D \<le> unat (x - (?b + ?wr))"
    proof (rule ccontr)
      assume "\<not> length D \<le> unat (x - (?b + ?wr))"
      then have a: "unat (x - (?b + ?wr)) < unat n" by (simp add: D_def)
      then have "unat (x - (?b + ?wr)) + unat ?wr < 2 ^ 32" using fit unat_u32_lt[of ?sz] by simp
      then have "unat ((x - (?b + ?wr)) + ?wr) = unat (x - (?b + ?wr)) + unat ?wr" by (rule unat_add_lt)
      then show False using a x fit by simp
    qed
    then show ?thesis by (simp add: t_def mem_wr_other)
  qed
  show ?thesis using run dn out by (auto simp: D_def)
qed

lemma psa_write_overflow_panics:
  assumes "request_connection h s = Some c" "i < 4"
    and "outvec_written (conns s c) ! i \<le> out_size (msg (conns s c)) ! i"
    and "unat (out_size (msg (conns s c)) ! i) < unat (outvec_written (conns s c) ! i) + unat n"
  shows "tfm_spm_partition_psa_write env h i buffer n s = None"
proof -
  have "n > out_size (msg (conns s c)) ! i - outvec_written (conns s c) ! i"
    using assms(3,4) by (simp add: word_less_nat_alt unat_sub_le) (simp add: word_le_nat_alt)
  then show ?thesis using assms(1,2) by (simp add: tfm_spm_partition_psa_write_def PSA_MAX_IOVEC_def)
qed

lemma psa_write_unreadable_panics:
  assumes "request_connection h s = Some c" "i < 4" "unmapped env (conns s c) (i + 4)" "current s = Some cur"
    and "\<not> memory_check env (boundary (partitions s cur)) buffer n TFM_HAL_ACCESS_READABLE"
  shows "tfm_spm_partition_psa_write env h i buffer n s = None"
proof -
  obtain st where "mark_accessed env c (i + 4) s = Some (upd_conn c (\<lambda>x. x\<lparr>iovec_status := st\<rparr>) s)"
    using mark_accessed_ok[OF assms(3)] by blast
  then show ?thesis using assms by (simp add: tfm_spm_partition_psa_write_def PSA_MAX_IOVEC_def OUTVEC_IDX_BASE_def)
qed

end
