(* ===== verification/SPM_Invariant.thy ===== *)
theory SPM_Invariant
  imports SPM_Vectors
begin

text \<open>
  The invariant of the partition manager and the operations that keep it: the pool is sound, the
  counters of every vector stay within it, every connection handed out has a service, and the
  message queues hold live, active connections of their own partition, each once.
\<close>

section \<open>The invariant\<close>

definition queued :: "u32 \<Rightarrow> spm_state \<Rightarrow> bool" where
  "queued c s \<longleftrightarrow> (\<exists>p. c \<in> set (p_handles (partitions s p)))"

definition queue_ok :: "spm_state \<Rightarrow> nat \<Rightarrow> bool" where
  "queue_ok s p \<longleftrightarrow> distinct (p_handles (partitions s p))
     \<and> (\<forall>c \<in> set (p_handles (partitions s p)). c \<in> pool_live (pool s)
          \<and> conn_status (conns s c) = TFM_HANDLE_STATUS_ACTIVE
          \<and> (\<exists>i. conn_service (conns s c) = Some i \<and> srv_partition (services s i) = Some p))"

text \<open>The word behind the pool, which the validity check may read, is not the magic word.\<close>

definition tail_clean :: "tfm_pool_instance_t \<Rightarrow> bool" where
  "tail_clean p \<longleftrightarrow> chunk_magic p (chunk_at p (pool_num p)) \<noteq> POOL_MAGIC_ALLOCATED"

definition conn_ok :: "connection_t \<Rightarrow> bool" where
  "conn_ok c \<longleftrightarrow> conn_wf c \<and> iov_ok c \<and> client_data c = 0"

definition spm_inv :: "spm_state \<Rightarrow> bool" where
  "spm_inv s \<longleftrightarrow> pool_ok (pool s) \<and> tail_clean (pool s) \<and> (\<forall>c. conn_ok (conns s c))
     \<and> (\<forall>i. srv_partition (services s i) \<noteq> None)
     \<and> (\<forall>c \<in> pool_live (pool s). conn_service (conns s c) \<noteq> None) \<and> (\<forall>p. queue_ok s p)"

lemma spm_inv_cong [simp]:
  "spm_inv (s\<lparr>loop_index := x\<rparr>) = spm_inv s" "spm_inv (s\<lparr>ram := m\<rparr>) = spm_inv s"
  "spm_inv (s\<lparr>current := cur\<rparr>) = spm_inv s" "spm_inv (s\<lparr>services_listhead := l\<rparr>) = spm_inv s"
  "queued c (s\<lparr>loop_index := x\<rparr>) = queued c s" "queued c (s\<lparr>ram := m\<rparr>) = queued c s"
  "queued c (upd_conn d f s) = queued c s"
  by (simp_all add: spm_inv_def queue_ok_def queued_def)

lemma inv_upd_conn:
  assumes "spm_inv s" "conn_ok (f (conns s c))" "conn_service (f (conns s c)) = conn_service (conns s c)"
    "conn_status (f (conns s c)) = conn_status (conns s c) \<or> \<not> queued c s"
  shows "spm_inv (upd_conn c f s)"
  using assms unfolding spm_inv_def queue_ok_def queued_def by (auto simp: conn_ok_def)

lemma inv_upd_signals:
  assumes "spm_inv s" "\<And>p. p_handles (f p) = p_handles p"
  shows "spm_inv (upd_part i f s)"
  using assms unfolding spm_inv_def queue_ok_def by auto

lemma queued_live: "spm_inv s \<Longrightarrow> queued c s \<Longrightarrow> c \<in> pool_live (pool s) \<and> conn_status (conns s c) = TFM_HANDLE_STATUS_ACTIVE"
  by (auto simp: spm_inv_def queue_ok_def queued_def)

lemma valid_live: "spm_inv s \<Longrightarrow> is_valid_chunk_data_in_pool (pool s) c \<longleftrightarrow> c \<in> pool_live (pool s)"
  by (auto simp: spm_inv_def tail_clean_def is_valid_chunk_iff)

section \<open>The pool\<close>

lemma tail_clean_alloc:
  assumes "pool_ok p" "tail_clean p" "tfm_pool_alloc p = (c, p')"
  shows "tail_clean p'"
proof (cases "pool_next p")
  case (Cons a rest)
  then obtain i where i: "i < pool_num p" "a = chunk_at p i" using pool_okD(5)[OF assms(1)] by auto
  have "unat (chunk_at p i) \<noteq> unat (chunk_at p (pool_num p))"
    using i(1) unat_chunk_at[OF assms(1), of i] unat_chunk_at[OF assms(1), of "pool_num p"] chunk_size_pos(1)[of p] by auto
  then have "a \<noteq> chunk_at p (pool_num p)" using i(2) by auto
  then show ?thesis using assms(2,3) Cons by (auto simp: tfm_pool_alloc_def tail_clean_def)
qed (use assms in \<open>simp add: tfm_pool_alloc_def\<close>)

lemma tail_clean_free: "tail_clean p \<Longrightarrow> tail_clean (tfm_pool_free c p)"
  by (simp add: tfm_pool_free_def tail_clean_def Let_def pool_consts)

lemma pool_alloc_cases:
  assumes "pool_ok p" "tfm_pool_alloc p = (c, p')"
  shows "c = 0 \<Longrightarrow> p' = p \<and> card (pool_live p) = pool_num p"
    and "c \<noteq> 0 \<Longrightarrow> c \<notin> pool_live p \<and> pool_live p' = insert c (pool_live p) \<and> pool_ok p'"
  using pool.alloc_none[OF assms(1), of p'] pool.alloc_fresh[OF assms(1), of c p'] assms(2)
  by (auto simp: pool_alloc_opt_def)

lemma inv_alloc_none:
  assumes "spm_inv s" "spm_allocate_connection s = (0, t)"
  shows "t = s"
  using assms pool_alloc_cases(1)[of "pool s"] by (auto simp: spm_allocate_connection_def spm_inv_def split: prod.splits)

lemma inv_alloc_init:
  assumes inv: "spm_inv s" and al: "spm_allocate_connection s = (c, t)" "c \<noteq> 0"
    and f: "conn_ok (f (conns s c))" "conn_service (f (conns s c)) \<noteq> None"
  shows "spm_inv (upd_conn c f t)" "\<not> queued c t" "pool_live (pool t) = insert c (pool_live (pool s))"
    "c \<notin> pool_live (pool s)" "conns t = conns s" "pool_addr (pool t) = pool_addr (pool s)"
    "services t = services s" "partitions t = partitions s" "current t = current s" "ram t = ram s"
proof -
  obtain p' where p': "tfm_pool_alloc (pool s) = (c, p')" "t = s\<lparr>pool := p'\<rparr>"
    using al(1) by (auto simp: spm_allocate_connection_def split: prod.splits)
  show "conns t = conns s" "services t = services s" "partitions t = partitions s" "current t = current s" "ram t = ram s"
    by (simp_all add: p'(2))
  show "pool_addr (pool t) = pool_addr (pool s)"
    using p' by (auto simp: tfm_pool_alloc_def split: list.splits)
  have ok: "pool_ok (pool s)" "tail_clean (pool s)" using inv by (simp_all add: spm_inv_def)
  have c: "c \<notin> pool_live (pool s)" "pool_live p' = insert c (pool_live (pool s))" "pool_ok p'"
    using pool_alloc_cases(2)[OF ok(1) p'(1) al(2)] by auto
  then show "pool_live (pool t) = insert c (pool_live (pool s))" "c \<notin> pool_live (pool s)" by (simp_all add: p'(2))
  show "\<not> queued c t" using queued_live[OF inv, of c] c(1) by (auto simp: queued_def p'(2))
  then show "spm_inv (upd_conn c f t)"
    using inv f c tail_clean_alloc[OF ok p'(1)] unfolding spm_inv_def queue_ok_def queued_def
    by (auto simp: p'(2))
qed

lemma inv_free:
  assumes "spm_inv s" "c \<in> pool_live (pool s)" "\<not> queued c s"
  shows "spm_inv (spm_free_connection c s)" "pool_live (pool (spm_free_connection c s)) = pool_live (pool s) - {c}"
  using assms pool.release_live[of "pool s" c] tail_clean_free[of "pool s" c]
  unfolding spm_inv_def queue_ok_def queued_def by (auto simp: spm_free_connection_def)

section \<open>Connections\<close>

lemma conn_ok_fields [simp]:
  "conn_ok (c\<lparr>conn_status := st\<rparr>) = conn_ok c" "conn_ok (c\<lparr>p_client := cl\<rparr>) = conn_ok c"
  "conn_ok (c\<lparr>conn_service := sv\<rparr>) = conn_ok c" "conn_ok (c\<lparr>caller_outvec := a\<rparr>) = conn_ok c"
  "conn_ok (c\<lparr>iovec_status := w\<rparr>) = conn_ok c" "conn_ok (c\<lparr>conn_reply_value := v\<rparr>) = conn_ok c"
  "conn_ok (c\<lparr>msg := (msg c)\<lparr>msg_type := ty\<rparr>\<rparr>) = conn_ok c" "conn_ok (c\<lparr>msg := (msg c)\<lparr>rhandle := r\<rparr>\<rparr>) = conn_ok c"
  by (simp_all add: conn_ok_def conn_wf_def iov_ok_def)

definition init_conn :: "spm_env \<Rightarrow> nat \<Rightarrow> int \<Rightarrow> nat option \<Rightarrow> u32 \<Rightarrow> connection_t \<Rightarrow> connection_t" where
  "init_conn env service cid cur h c = c\<lparr>conn_service := Some service, p_client := cur,
     msg := zero_msg\<lparr>client_id := cid, msg_handle := h\<rparr>, conn_status := TFM_HANDLE_STATUS_IDLE,
     iovec_status := (if has_mm_iovec env then 0 else iovec_status c), client_data := 0\<rparr>"

lemma init_idle_eq:
  "spm_init_idle_connection env c i cid s
   = upd_conn c (init_conn env i cid (current s) (fst (connection_to_handle c s))) (s\<lparr>loop_index := (loop_index s + 1) mod 8\<rparr>)"
  by (simp add: spm_init_idle_connection_def connection_to_handle_def Let_def init_conn_def)

lemma init_conn_ok: "conn_ok c \<Longrightarrow> conn_ok (init_conn env i cid cur h c)"
  by (simp add: conn_ok_def conn_wf_def iov_ok_def init_conn_def zero_msg_def PSA_MAX_IOVEC_def)

lemma init_conn_fields [simp]:
  "conn_service (init_conn env i cid cur h c) = Some i" "conn_status (init_conn env i cid cur h c) = TFM_HANDLE_STATUS_IDLE"
  "client_id (msg (init_conn env i cid cur h c)) = cid" "p_client (init_conn env i cid cur h c) = cur"
  by (simp_all add: init_conn_def)

lemma upd_conn_loop_index [simp]:
  "upd_conn c f (s\<lparr>loop_index := x\<rparr>) = (upd_conn c f s)\<lparr>loop_index := x\<rparr>"
  "upd_conn c f (upd_conn c g s) = upd_conn c (\<lambda>x. f (g x)) s"
  by (simp_all add: upd_conn_def)

text \<open>A connection given to a caller: live, idle, of the caller, in no queue.\<close>

definition granted :: "spm_state \<Rightarrow> u32 \<Rightarrow> int \<Rightarrow> bool" where
  "granted s c cid \<longleftrightarrow> c \<in> pool_live (pool s) \<and> conn_status (conns s c) = TFM_HANDLE_STATUS_IDLE
     \<and> client_id (msg (conns s c)) = cid \<and> \<not> queued c s"

lemma get_idle_connection_ok:
  assumes inv: "spm_inv s" and run: "spm_get_idle_connection env h cid s = Some (r, t)"
  shows "spm_inv t" "current t = current s" "ram t = ram s" "services t = services s" "partitions t = partitions s"
    "case r of Inl e \<Rightarrow> t = s
     | Inr c \<Rightarrow> granted t c cid \<and>
         (if IS_STATIC_HANDLE h then c \<notin> pool_live (pool s) \<and> pool_live (pool t) = insert c (pool_live (pool s))
          else t = s \<and> c = handle_to_connection h s)"
proof -
  have "spm_inv t \<and> current t = current s \<and> ram t = ram s \<and> services t = services s \<and> partitions t = partitions s
    \<and> (case r of Inl e \<Rightarrow> t = s
     | Inr c \<Rightarrow> granted t c cid \<and>
         (if IS_STATIC_HANDLE h then c \<notin> pool_live (pool s) \<and> pool_live (pool t) = insert c (pool_live (pool s))
          else t = s \<and> c = handle_to_connection h s))"
  proof (cases "IS_STATIC_HANDLE h \<and> h \<noteq> 0 \<and> (\<exists>c. r = Inr c)")
    case False
    have nq: "\<not> queued c s" if "conn_status (conns s c) = TFM_HANDLE_STATUS_IDLE" for c
      using queued_live[OF inv, of c] that by auto
    show ?thesis
      using run False inv inv_alloc_none[OF inv] nq
      by (auto simp: spm_get_idle_connection_def bind_eq_Some_conv Let_def spm_validate_connection_def
          valid_live[OF inv] granted_def spm_simps split: if_splits option.splits prod.splits sum.splits)
  next
    case True
    then obtain c where c: "r = Inr c" by blast
    obtain c1 t1 where al: "spm_allocate_connection s = (c1, t1)" by fastforce
    obtain i where i: "stateless_services_ref_tbl s ! GET_INDEX_FROM_STATIC_HANDLE h = Some i"
      using run True unfolding c
      by (cases "stateless_services_ref_tbl s ! GET_INDEX_FROM_STATIC_HANDLE h")
        (auto simp: spm_get_idle_connection_def bind_eq_Some_conv)
    have a: "spm_allocate_connection s = (c, t1)" "c \<noteq> 0" "t = spm_init_idle_connection env c i cid t1"
      using run True al i unfolding c
      by (auto simp: spm_get_idle_connection_def bind_eq_Some_conv Let_def split: if_splits)
    have ok: "conn_ok (conns s c)" using inv by (simp add: spm_inv_def)
    note al = inv_alloc_init[OF inv a(1,2), of "init_conn env i cid (current t1) (fst (connection_to_handle c t1))",
        OF init_conn_ok[OF ok]]
    show ?thesis
      using True al unfolding c a(3) init_idle_eq by (auto simp: granted_def)
  qed
  then show "spm_inv t" "current t = current s" "ram t = ram s" "services t = services s" "partitions t = partitions s"
    "case r of Inl e \<Rightarrow> t = s
     | Inr c \<Rightarrow> granted t c cid \<and>
         (if IS_STATIC_HANDLE h then c \<notin> pool_live (pool s) \<and> pool_live (pool t) = insert c (pool_live (pool s))
          else t = s \<and> c = handle_to_connection h s)"
    by blast+
qed

section \<open>Requests\<close>

text \<open>The fields of a connection that the vectors of a call leave alone.\<close>

definition same_conn :: "connection_t \<Rightarrow> connection_t \<Rightarrow> bool" where
  "same_conn c d \<longleftrightarrow> conn_status c = conn_status d \<and> conn_service c = conn_service d \<and> p_client c = p_client d
     \<and> client_id (msg c) = client_id (msg d) \<and> client_data c = client_data d \<and> msg_type (msg c) = msg_type (msg d)"

lemma associate_invecs_ok:
  "associate_invecs env b acc i vs c = (ok, c') \<Longrightarrow> conn_ok c \<Longrightarrow> conn_ok c' \<and> same_conn c' c"
proof (induction env b acc i vs c rule: associate_invecs.induct)
  case (2 env b acc i base len vs c)
  let ?d = "c\<lparr>msg := (msg c)\<lparr>in_size := (in_size (msg c))[i := len]\<rparr>,
      invec_base := (invec_base c)[i := base], invec_accessed := (invec_accessed c)[i := 0]\<rparr>"
  have "conn_ok ?d" using 2(3) by (auto simp: conn_ok_def conn_wf_def iov_ok_def nth_list_update_if)
  then show ?case using 2 by (auto simp: same_conn_def split: if_splits)
qed (simp add: same_conn_def)

lemma associate_outvecs_ok:
  "associate_outvecs env b acc i vs c = (ok, c') \<Longrightarrow> conn_ok c \<Longrightarrow> conn_ok c' \<and> same_conn c' c"
proof (induction env b acc i vs c rule: associate_outvecs.induct)
  case (2 env b acc i base len vs c)
  let ?d = "c\<lparr>msg := (msg c)\<lparr>out_size := (out_size (msg c))[i := len]\<rparr>,
      outvec_base := (outvec_base c)[i := base], outvec_written := (outvec_written c)[i := 0]\<rparr>"
  have "conn_ok ?d" using 2(3) by (auto simp: conn_ok_def conn_wf_def iov_ok_def nth_list_update_if)
  then show ?case using 2 by (auto simp: same_conn_def split: if_splits)
qed (simp add: same_conn_def)

lemma associate_call_params_ok:
  assumes ok: "conn_ok (conns s c)" and run: "spm_associate_call_params env c ctrl inp outp s = Some (r, t)"
  shows "\<exists>d. t = upd_conn c (\<lambda>_. d) s \<and> conn_ok d \<and> conn_status d = conn_status (conns s c)
    \<and> conn_service d = conn_service (conns s c) \<and> client_id (msg d) = client_id (msg (conns s c))
    \<and> p_client d = p_client (conns s c)"
proof -
  let ?C = "conns s c"
  define G where "G t \<longleftrightarrow> (\<exists>d. t = upd_conn c (\<lambda>_. d) s \<and> conn_ok d \<and> conn_status d = conn_status ?C
    \<and> conn_service d = conn_service ?C \<and> client_id (msg d) = client_id (msg ?C) \<and> p_client d = p_client ?C)" for t
  have same: "G s" unfolding G_def by (intro exI[of _ ?C]) (simp add: ok upd_conn_def)
  have ty: "G (upd_conn c (\<lambda>c. c\<lparr>msg := (msg c)\<lparr>msg_type := ty\<rparr>\<rparr>) s)" for ty
    unfolding G_def by (intro exI[of _ "?C\<lparr>msg := (msg ?C)\<lparr>msg_type := ty\<rparr>\<rparr>"]) (simp add: ok upd_conn_def)
  define C1 where "C1 = (\<lambda>ty. ?C\<lparr>msg := (msg ?C)\<lparr>msg_type := ty, in_size := replicate PSA_MAX_IOVEC 0,
      out_size := replicate PSA_MAX_IOVEC 0\<rparr>\<rparr>)"
  have C1: "conn_ok (C1 ty)" "conn_status (C1 ty) = conn_status ?C" "conn_service (C1 ty) = conn_service ?C"
    "client_id (msg (C1 ty)) = client_id (msg ?C)" "p_client (C1 ty) = p_client ?C" for ty
    using ok by (simp_all add: C1_def conn_ok_def conn_wf_def iov_ok_def PSA_MAX_IOVEC_def)
  have up: "upd_conn c (\<lambda>_. d) (upd_conn c f s) = upd_conn c (\<lambda>_. d) s" for d f by (simp add: upd_conn_def)
  have in1: "G (upd_conn c (\<lambda>_. d) s)" if "associate_invecs env b acc 0 vs (C1 ty) = (ok', d)" for b acc vs ty ok' d
    unfolding G_def using associate_invecs_ok[OF that C1(1)] C1 by (intro exI[of _ d]) (simp add: same_conn_def)
  have out1: "G (upd_conn c (\<lambda>_. d2) s) \<and> G (upd_conn c (\<lambda>_. d2\<lparr>caller_outvec := outp\<rparr>) s)"
    if "associate_invecs env b acc 0 vs (C1 ty) = (ok', d)" "associate_outvecs env b' acc' 0 vs' d = (ok2, d2)"
    for b acc vs ty ok' d b' acc' vs' ok2 d2
  proof -
    have "conn_ok d \<and> same_conn d (C1 ty)" using associate_invecs_ok[OF that(1) C1(1)] .
    then have "conn_ok d2 \<and> same_conn d2 d" "same_conn d (C1 ty)" using associate_outvecs_ok[OF that(2)] by auto
    then show ?thesis
      unfolding G_def using C1 by (intro conjI exI[of _ d2] exI[of _ "d2\<lparr>caller_outvec := outp\<rparr>"]) (simp_all add: same_conn_def)
  qed
  define acc1 where "acc1 = (if PARAM_IS_NS_INVEC ctrl then TFM_HAL_ACCESS_NS else if PARAM_IS_NS_VEC ctrl then TFM_HAL_ACCESS_NS else 0)"
  have "G t"
  proof (cases "PARAM_UNPACK_TYPE ctrl < 0 \<or> \<not> PARAM_HAS_IOVEC ctrl")
    case True
    then show ?thesis using run same ty unfolding spm_associate_call_params_def by (auto simp: Let_def split: if_splits)
  next
    case False
    obtain ok1 d1 where d1: "associate_invecs env (boundary (partitions s (the (current s)))) (TFM_HAL_ACCESS_READABLE OR acc1) 0
        (read_vecs (ram s) inp (PARAM_UNPACK_IN_LEN ctrl)) (C1 (PARAM_UNPACK_TYPE ctrl)) = (ok1, d1)" by fastforce
    obtain ok2 d2 where d2: "associate_outvecs env (boundary (partitions s (the (current s))))
        (TFM_HAL_ACCESS_READWRITE OR (if acc1 = TFM_HAL_ACCESS_NS \<and> \<not> PARAM_IS_NS_VEC ctrl \<and> \<not> PARAM_IS_NS_OUTVEC ctrl then 0 else acc1))
        0 (read_vecs (ram s) outp (PARAM_UNPACK_OUT_LEN ctrl)) d1 = (ok2, d2)" by fastforce
    have "t \<in> {upd_conn c (\<lambda>c. c\<lparr>msg := (msg c)\<lparr>msg_type := PARAM_UNPACK_TYPE ctrl\<rparr>\<rparr>) s,
        upd_conn c (\<lambda>_. d1) s, upd_conn c (\<lambda>_. d2) s, upd_conn c (\<lambda>_. d2\<lparr>caller_outvec := outp\<rparr>) s}"
      using run False d1 d2 unfolding spm_associate_call_params_def
      by (auto simp: Let_def bind_eq_Some_conv C1_def acc1_def[symmetric] split: if_splits)
    then show ?thesis using ty in1[OF d1] out1[OF d1 d2] by auto
  qed
  then show ?thesis by (simp add: G_def)
qed

section \<open>Messaging\<close>

lemma assert_signal_ok:
  assumes "backend_assert_signal p sg s = Some (st, t)"
  shows "\<exists>i f. p = Some i \<and> t = upd_part i f s \<and> (\<forall>q. p_handles (f q) = p_handles q)
    \<and> st \<in> {PSA_SUCCESS, STATUS_NEED_SCHEDULE}"
  using assms
  by (cases p; intro exI[of _ "the p"] exI[of _ "\<lambda>q. q\<lparr>signals_asserted := signals_asserted q OR sg\<rparr>"])
    (auto simp: backend_assert_signal_def Let_def bind_eq_Some_conv)

lemma wait_signals_ok:
  assumes "backend_wait_signals p sg s = Some (st, t)"
  shows "\<exists>i f. p = Some i \<and> t = upd_part i f s \<and> (\<forall>q. p_handles (f q) = p_handles q)"
proof (cases "t = s")
  case True
  then show ?thesis
    using assms by (cases p; intro exI[of _ "the p"] exI[of _ "\<lambda>q. q"]) (auto simp: backend_wait_signals_def upd_part_def)
next
  case False
  then show ?thesis
    using assms by (cases p; intro exI[of _ "the p"] exI[of _ "\<lambda>q. q\<lparr>signals_waiting := sg\<rparr>"])
      (auto simp: backend_wait_signals_def Let_def bind_eq_Some_conv split: if_splits)
qed

text \<open>Changes of signals and of one connection's status around the queue.\<close>

lemma inv_enqueue:
  assumes inv: "spm_inv s" and c: "c \<in> pool_live (pool s)" "\<not> queued c s"
    and srv: "conn_service (conns s c) = Some i" "srv_partition (services s i) = Some p"
    and t: "pool t = pool s" "services t = services s" "conns t = (conns s)(c := (conns s c)\<lparr>conn_status := TFM_HANDLE_STATUS_ACTIVE\<rparr>)"
      "\<And>q. p_handles (partitions t q) = (if q = p then c # p_handles (partitions s p) else p_handles (partitions s q))"
  shows "spm_inv t"
  using inv c srv unfolding spm_inv_def queue_ok_def queued_def t(1,2,3,4) by auto

lemma messaging_ok:
  assumes inv: "spm_inv s" and g: "c \<in> pool_live (pool s)" "\<not> queued c s"
    and run: "backend_messaging c s = Some (st, t)"
  shows "spm_inv t \<and> pool t = pool s \<and> st \<in> {PSA_SUCCESS, STATUS_NEED_SCHEDULE}"
proof -
  obtain i where i: "conn_service (conns s c) = Some i" using inv g(1) by (auto simp: spm_inv_def)
  have "srv_partition (services s i) \<noteq> None" using inv by (simp add: spm_inv_def)
  then obtain p where p: "srv_partition (services s i) = Some p" by blast
  have nr: "\<not> tfm_spm_is_rpc_msg (conns s c)" using inv by (simp add: spm_inv_def conn_ok_def tfm_spm_is_rpc_msg_def)
  let ?s1 = "upd_part p (\<lambda>q. q\<lparr>p_handles := c # p_handles q\<rparr>) s"
  obtain r2 s2 where a1: "backend_assert_signal (Some p) (srv_signal (services s i)) ?s1 = Some (r2, s2)"
    by (simp add: backend_assert_signal_def Let_def)
  obtain f where f: "s2 = upd_part p f ?s1" "\<forall>q. p_handles (f q) = p_handles q" "r2 \<in> {PSA_SUCCESS, STATUS_NEED_SCHEDULE}"
    using assert_signal_ok[OF a1] by auto
  have c2: "conns s2 = conns s" by (simp add: f(1))
  obtain r3 s3 where a2: "backend_wait_signals (p_client (conns s2 c)) ASYNC_MSG_REPLY s2 = Some (r3, s3)"
    using run i p nr a1 by (cases "backend_wait_signals (p_client (conns s2 c)) ASYNC_MSG_REPLY s2")
      (auto simp: backend_messaging_def Let_def c2)
  have a: "st = (if r3 = 0 then STATUS_NEED_SCHEDULE else r2)"
    "t = upd_conn c (\<lambda>c. c\<lparr>conn_status := TFM_HANDLE_STATUS_ACTIVE\<rparr>) s3"
    using run i p nr a1 a2 by (simp_all add: backend_messaging_def Let_def c2)
  obtain j g' where g': "s3 = upd_part j g' s2" "\<forall>q. p_handles (g' q) = p_handles q"
    using wait_signals_ok[OF a2] by auto
  have "spm_inv t"
    by (rule inv_enqueue[OF inv g i p]) (use f(2) g'(2) in \<open>auto simp: a(2) f(1) g'(1)\<close>)
  then show ?thesis using f(3) a(1) by (auto simp: a(2) f(1) g'(1))
qed

section \<open>Client calls\<close>

text \<open>A rejected call leaves no connection behind.\<close>

lemma psa_call_ok:
  assumes inv: "spm_inv s" and run: "tfm_spm_client_psa_call env h ctrl inp outp s = Some (st, t)"
  shows "spm_inv t" "st \<notin> {PSA_SUCCESS, STATUS_NEED_SCHEDULE} \<Longrightarrow> pool_live (pool t) = pool_live (pool s)"
proof -
  obtain cid r s1 where a: "spm_get_idle_connection env h cid s = Some (r, s1)"
    and b: "(case r of Inl e \<Rightarrow> Some (psa_error_code e, s1)
       | Inr p_connection \<Rightarrow> Option.bind (spm_associate_call_params env p_connection ctrl inp outp s1)
          (\<lambda>(r, s2). case r of
             Inl e \<Rightarrow> Some (psa_error_code e, if IS_STATIC_HANDLE h then spm_free_connection p_connection s2 else s2)
           | Inr _ \<Rightarrow> backend_messaging p_connection s2)) = Some (st, t)"
    using run unfolding tfm_spm_client_psa_call_def
    by (auto dest!: bind_eq_Some_conv[THEN iffD1] simp del: sum.case_eq_if cong: sum.case_cong_weak)
  note g = get_idle_connection_ok[OF inv a]
  have "spm_inv t \<and> (st \<notin> {PSA_SUCCESS, STATUS_NEED_SCHEDULE} \<longrightarrow> pool_live (pool t) = pool_live (pool s))"
  proof (cases r)
    case (Inl e)
    then show ?thesis using b g by simp
  next
    case (Inr c)
    have gr: "granted s1 c cid" using g(6) Inr by simp
    have ok: "conn_ok (conns s1 c)" using g(1) by (simp add: spm_inv_def)
    obtain r2 s2 where a2: "spm_associate_call_params env c ctrl inp outp s1 = Some (r2, s2)"
      and b2: "(case r2 of Inl e \<Rightarrow> Some (psa_error_code e, if IS_STATIC_HANDLE h then spm_free_connection c s2 else s2)
           | Inr _ \<Rightarrow> backend_messaging c s2) = Some (st, t)"
      using b Inr by (auto dest!: bind_eq_Some_conv[THEN iffD1] cong: sum.case_cong_weak)
    obtain d where d: "s2 = upd_conn c (\<lambda>_. d) s1" "conn_ok d" "conn_status d = conn_status (conns s1 c)"
      "conn_service d = conn_service (conns s1 c)"
      using associate_call_params_ok[OF ok a2] by auto
    have i2: "spm_inv s2" unfolding d(1) by (rule inv_upd_conn[OF g(1)]) (use d in auto)
    have lq: "c \<in> pool_live (pool s2)" "\<not> queued c s2" using gr by (auto simp: d(1) granted_def)
    show ?thesis
    proof (cases r2)
      case (Inl e)
      then show ?thesis
      proof (cases "IS_STATIC_HANDLE h")
        case True
        have "pool_live (pool s2) = insert c (pool_live (pool s))" "c \<notin> pool_live (pool s)"
          using g(6) True by (simp_all add: \<open>r = Inr c\<close> d(1))
        then show ?thesis using inv_free[OF i2 lq] b2 Inl True by simp
      next
        case False
        then have "s1 = s" using g(6) by (simp add: \<open>r = Inr c\<close>)
        then show ?thesis using b2 Inl False i2 by (auto simp: d(1))
      qed
    next
      case (Inr u)
      then show ?thesis using messaging_ok[OF i2 lq, of st t] b2 by auto
    qed
  qed
  then show "spm_inv t" "st \<notin> {PSA_SUCCESS, STATUS_NEED_SCHEDULE} \<Longrightarrow> pool_live (pool t) = pool_live (pool s)" by auto
qed

end
