(* ===== verification/SPM_Run.thy ===== *)
theory SPM_Run
  imports SPM_Invariant
begin

text \<open>
  Runs of the partition manager: the remaining operations keep the invariant, and with them every
  interleaving of client calls, partition calls, scheduling and memory accesses.
\<close>

section \<open>Connecting and closing\<close>

lemma connect_associated_ok:
  assumes inv: "spm_inv s" and run: "spm_psa_connect_client_id_associated env sd ver cid s = Some (r, t)"
  shows "spm_inv t" "current t = current s"
    "case r of Inl e \<Rightarrow> pool_live (pool t) = pool_live (pool s)
     | Inr c \<Rightarrow> granted t c cid \<and> c \<notin> pool_live (pool s) \<and> pool_live (pool t) = insert c (pool_live (pool s))"
proof -
  obtain found s1 where f: "tfm_spm_get_service_by_sid sd s = (found, s1)" by fastforce
  have s1: "s1 = s \<or> (\<exists>l. s1 = s\<lparr>services_listhead := l\<rparr>)"
    using f by (auto simp: tfm_spm_get_service_by_sid_def split: option.splits)
  have inv1: "spm_inv s1" "pool s1 = pool s" "current s1 = current s" using s1 inv by auto
  have "spm_inv t \<and> current t = current s \<and> (case r of Inl e \<Rightarrow> pool_live (pool t) = pool_live (pool s)
     | Inr c \<Rightarrow> granted t c cid \<and> c \<notin> pool_live (pool s) \<and> pool_live (pool t) = insert c (pool_live (pool s)))"
  proof (cases "\<exists>c. r = Inr c")
    case False
    then show ?thesis
      using run inv1 inv_alloc_none[OF inv1(1)] unfolding spm_psa_connect_client_id_associated_def f
      by (auto simp: bind_eq_Some_conv Let_def split: if_splits option.splits prod.splits sum.splits)
  next
    case True
    then obtain c where c: "r = Inr c" by blast
    obtain c1 t1 where al: "spm_allocate_connection s1 = (c1, t1)" by fastforce
    obtain i where a: "spm_allocate_connection s1 = (c, t1)" "c \<noteq> 0"
      "t = upd_conn c (\<lambda>c. c\<lparr>msg := (msg c)\<lparr>msg_type := PSA_IPC_CONNECT\<rparr>\<rparr>) (spm_init_idle_connection env c i cid t1)"
      using run al unfolding c spm_psa_connect_client_id_associated_def f
      by (cases found) (auto simp: bind_eq_Some_conv Let_def split: if_splits)
    have ok: "conn_ok (conns s1 c)" using inv1(1) by (simp add: spm_inv_def)
    let ?f = "\<lambda>x. (init_conn env i cid (current t1) (fst (connection_to_handle c t1)) x)
      \<lparr>msg := (msg (init_conn env i cid (current t1) (fst (connection_to_handle c t1)) x))\<lparr>msg_type := PSA_IPC_CONNECT\<rparr>\<rparr>"
    note al = inv_alloc_init[OF inv1(1) a(1,2), of ?f]
    show ?thesis
      using al init_conn_ok[OF ok] inv1(2,3) unfolding c a(3) init_idle_eq by (auto simp: granted_def)
  qed
  then show "spm_inv t" "current t = current s"
    "case r of Inl e \<Rightarrow> pool_live (pool t) = pool_live (pool s)
     | Inr c \<Rightarrow> granted t c cid \<and> c \<notin> pool_live (pool s) \<and> pool_live (pool t) = insert c (pool_live (pool s))"
    by blast+
qed

lemma psa_connect_ok:
  assumes inv: "spm_inv s" and run: "tfm_spm_client_psa_connect env sd ver s = Some (st, t)"
  shows "spm_inv t" "st \<notin> {PSA_SUCCESS, STATUS_NEED_SCHEDULE} \<Longrightarrow> pool_live (pool t) = pool_live (pool s)"
proof -
  obtain cid r s1 where a: "spm_psa_connect_client_id_associated env sd ver cid s = Some (r, s1)"
    and b: "(case r of Inl e \<Rightarrow> Some (psa_error_code e, s1) | Inr c \<Rightarrow> backend_messaging c s1) = Some (st, t)"
    using run unfolding tfm_spm_client_psa_connect_def
    by (auto dest!: bind_eq_Some_conv[THEN iffD1] cong: sum.case_cong_weak)
  note g = connect_associated_ok[OF inv a]
  have "spm_inv t \<and> (st \<notin> {PSA_SUCCESS, STATUS_NEED_SCHEDULE} \<longrightarrow> pool_live (pool t) = pool_live (pool s))"
    using b g messaging_ok[OF g(1), of _ st t] by (cases r) (auto simp: granted_def)
  then show "spm_inv t" "st \<notin> {PSA_SUCCESS, STATUS_NEED_SCHEDULE} \<Longrightarrow> pool_live (pool t) = pool_live (pool s)" by auto
qed

lemma psa_close_ok:
  assumes inv: "spm_inv s" and run: "tfm_spm_client_psa_close env h s = Some (st, t)"
  shows "spm_inv t" "pool_live (pool t) = pool_live (pool s)"
proof -
  obtain cid where a: "spm_psa_close_client_id_associated env h cid s = Some (st, t)"
    using run unfolding tfm_spm_client_psa_close_def by (auto dest!: bind_eq_Some_conv[THEN iffD1])
  have "spm_inv t \<and> pool_live (pool t) = pool_live (pool s)"
  proof (cases "h = 0 \<or> IS_STATIC_HANDLE h")
    case True
    then show ?thesis using a inv by (auto simp: spm_psa_close_client_id_associated_def split: if_splits)
  next
    case False
    then obtain r s1 where b: "spm_get_idle_connection env h cid s = Some (r, s1)"
      "(case r of Inl e \<Rightarrow> Some (psa_error_code e, s1) | Inr c \<Rightarrow> backend_messaging c
          (upd_conn c (\<lambda>c. c\<lparr>msg := (msg c)\<lparr>msg_type := PSA_IPC_DISCONNECT\<rparr>\<rparr>) s1)) = Some (st, t)"
      using a unfolding spm_psa_close_client_id_associated_def
      by (auto dest!: bind_eq_Some_conv[THEN iffD1] cong: sum.case_cong_weak)
    note g = get_idle_connection_ok[OF inv b(1)]
    show ?thesis
    proof (cases r)
      case (Inl e)
      then show ?thesis using b(2) g by simp
    next
      case (Inr c)
      let ?s2 = "upd_conn c (\<lambda>c. c\<lparr>msg := (msg c)\<lparr>msg_type := PSA_IPC_DISCONNECT\<rparr>\<rparr>) s1"
      have gr: "granted s1 c cid" "s1 = s" using g(6) Inr False by auto
      have "conn_ok (conns s1 c)" using g(1) by (simp add: spm_inv_def)
      then have "spm_inv ?s2" by (intro inv_upd_conn[OF g(1)]) simp_all
      then show ?thesis using messaging_ok[of ?s2 c st t] b(2) Inr gr by (auto simp: granted_def)
    qed
  qed
  then show "spm_inv t" "pool_live (pool t) = pool_live (pool s)" by auto
qed

section \<open>Vectors\<close>

text \<open>Updates of a connection that keep what the rest of the manager reads of it.\<close>

definition vec_update :: "spm_state \<Rightarrow> spm_state \<Rightarrow> bool" where
  "vec_update s t \<longleftrightarrow> (\<exists>c d m. t = (upd_conn c (\<lambda>_. d) s)\<lparr>ram := m\<rparr> \<and> conn_ok d
     \<and> conn_status d = conn_status (conns s c) \<and> conn_service d = conn_service (conns s c))"

lemma vec_update_inv: "spm_inv s \<Longrightarrow> vec_update s t \<Longrightarrow> spm_inv t \<and> pool t = pool s \<and> current t = current s"
  by (auto simp: vec_update_def intro!: inv_upd_conn)

lemma vec_updateI:
  assumes "conn_ok (f (conns s c))" "conn_status (f (conns s c)) = conn_status (conns s c)"
    "conn_service (f (conns s c)) = conn_service (conns s c)"
  shows "vec_update s ((upd_conn c f s)\<lparr>ram := m\<rparr>)" "vec_update s (upd_conn c f s)"
proof -
  have "upd_conn c f s = upd_conn c (\<lambda>_. f (conns s c)) s" "upd_conn c f s = (upd_conn c f s)\<lparr>ram := ram s\<rparr>"
    by (simp_all add: upd_conn_def)
  then show "vec_update s ((upd_conn c f s)\<lparr>ram := m\<rparr>)" "vec_update s (upd_conn c f s)"
    unfolding vec_update_def using assms by metis+
qed

lemma mark_accessed_conn:
  assumes "mark_accessed env c i s = Some t"
  shows "\<exists>st. t = upd_conn c (\<lambda>x. x\<lparr>iovec_status := st\<rparr>) s"
  using assms mark_accessed_ok[of env s c i] mark_accessed_mapped[of env s c i] by force

lemma conn_ok_accessed:
  assumes ok: "conn_ok c" and n: "b \<le> in_size (msg c) ! i - invec_accessed c ! i"
  shows "conn_ok (c\<lparr>iovec_status := st, invec_accessed := (invec_accessed c)[i := invec_accessed c ! i + b]\<rparr>)"
proof -
  have "invec_accessed c ! i + b \<le> in_size (msg c) ! i" if "i < 4" "in_size (msg c) ! i \<noteq> 0"
  proof -
    have le: "invec_accessed c ! i \<le> in_size (msg c) ! i" using ok that by (auto simp: conn_ok_def iov_ok_def)
    then have "unat b \<le> unat (in_size (msg c) ! i) - unat (invec_accessed c ! i)" using n by (simp add: word_le_nat_alt unat_sub_le)
    moreover from this have "unat (invec_accessed c ! i + b) = unat (invec_accessed c ! i) + unat b"
      using le unat_u32_lt[of "in_size (msg c) ! i"] by (intro unat_add_lt) (auto simp: word_le_nat_alt)
    ultimately show ?thesis using le by (auto simp: word_le_nat_alt)
  qed
  then show ?thesis using ok by (auto simp: conn_ok_def conn_wf_def iov_ok_def nth_list_update_if)
qed

lemma conn_ok_written:
  assumes ok: "conn_ok c" and n: "b \<le> out_size (msg c) ! i - outvec_written c ! i"
  shows "conn_ok (c\<lparr>iovec_status := st, outvec_written := (outvec_written c)[i := outvec_written c ! i + b]\<rparr>)"
proof -
  have "outvec_written c ! i + b \<le> out_size (msg c) ! i" if "i < 4" "out_size (msg c) ! i \<noteq> 0"
  proof -
    have le: "outvec_written c ! i \<le> out_size (msg c) ! i" using ok that by (auto simp: conn_ok_def iov_ok_def)
    then have "unat b \<le> unat (out_size (msg c) ! i) - unat (outvec_written c ! i)" using n by (simp add: word_le_nat_alt unat_sub_le)
    moreover from this have "unat (outvec_written c ! i + b) = unat (outvec_written c ! i) + unat b"
      using le unat_u32_lt[of "out_size (msg c) ! i"] by (intro unat_add_lt) (auto simp: word_le_nat_alt)
    ultimately show ?thesis using le by (auto simp: word_le_nat_alt)
  qed
  then show ?thesis using ok by (auto simp: conn_ok_def conn_wf_def iov_ok_def nth_list_update_if)
qed

text \<open>Reading, skipping, writing and mapping are vector updates.\<close>

lemma psa_read_upd:
  assumes inv: "spm_inv s" and run: "tfm_spm_partition_psa_read env h i b n s = Some (r, t)"
  shows "vec_update s t"
proof -
  obtain c s1 where a: "request_connection h s = Some c" "mark_accessed env c (i + INVEC_IDX_BASE) s = Some s1"
    using run by (auto simp: tfm_spm_partition_psa_read_def bind_eq_Some_conv split: if_splits)
  obtain st where s1: "s1 = upd_conn c (\<lambda>x. x\<lparr>iovec_status := st\<rparr>) s" using mark_accessed_conn[OF a(2)] by blast
  have ok: "conn_ok (conns s c)" using inv by (simp add: spm_inv_def)
  define rem where "rem = in_size (msg (conns s c)) ! i - invec_accessed (conns s c) ! i"
  show ?thesis
  proof (cases "rem = 0")
    case True
    then have "t = s1" using run a s1 by (auto simp: tfm_spm_partition_psa_read_def Let_def rem_def split: if_splits)
    then show ?thesis using ok by (auto simp: s1 intro!: vec_updateI)
  next
    case False
    define k where "k = (if n < rem then n else rem)"
    have k: "k \<le> rem" by (auto simp: k_def)
    have t: "t = (upd_conn c (\<lambda>x. x\<lparr>iovec_status := st, invec_accessed := (invec_accessed x)[i := invec_accessed x ! i + k]\<rparr>) s)\<lparr>ram := ram t\<rparr>"
      using run a s1 False
      by (auto simp: tfm_spm_partition_psa_read_def Let_def rem_def k_def bind_eq_Some_conv upd_conn_def split: if_splits)
    show ?thesis using conn_ok_accessed[OF ok k[unfolded rem_def]] by (subst t) (intro vec_updateI, simp_all)
  qed
qed

lemma psa_skip_upd:
  assumes inv: "spm_inv s" and run: "tfm_spm_partition_psa_skip env h i n s = Some (r, t)"
  shows "vec_update s t"
proof -
  obtain c s1 where a: "request_connection h s = Some c" "mark_accessed env c (i + INVEC_IDX_BASE) s = Some s1"
    using run by (auto simp: tfm_spm_partition_psa_skip_def bind_eq_Some_conv split: if_splits)
  obtain st where s1: "s1 = upd_conn c (\<lambda>x. x\<lparr>iovec_status := st\<rparr>) s" using mark_accessed_conn[OF a(2)] by blast
  have ok: "conn_ok (conns s c)" using inv by (simp add: spm_inv_def)
  define rem where "rem = in_size (msg (conns s c)) ! i - invec_accessed (conns s c) ! i"
  show ?thesis
  proof (cases "rem = 0")
    case True
    then have "t = s1" using run a s1 by (auto simp: tfm_spm_partition_psa_skip_def Let_def rem_def split: if_splits)
    then show ?thesis using ok by (auto simp: s1 intro!: vec_updateI)
  next
    case False
    define k where "k = (if n > rem then rem else n)"
    have k: "k \<le> rem" by (auto simp: k_def)
    have "t = upd_conn c (\<lambda>x. x\<lparr>iovec_status := st, invec_accessed := (invec_accessed x)[i := invec_accessed x ! i + k]\<rparr>) s"
      using run a s1 False
      by (auto simp: tfm_spm_partition_psa_skip_def Let_def rem_def k_def bind_eq_Some_conv upd_conn_def split: if_splits)
    then show ?thesis using conn_ok_accessed[OF ok k[unfolded rem_def]] by (auto intro!: vec_updateI)
  qed
qed

lemma psa_write_upd:
  assumes inv: "spm_inv s" and run: "tfm_spm_partition_psa_write env h i b n s = Some (r, t)"
  shows "vec_update s t"
proof -
  obtain c s1 where a: "request_connection h s = Some c" "mark_accessed env c (i + OUTVEC_IDX_BASE) s = Some s1"
    and k: "n \<le> out_size (msg (conns s c)) ! i - outvec_written (conns s c) ! i"
    using run by (auto simp: tfm_spm_partition_psa_write_def bind_eq_Some_conv not_less split: if_splits)
  obtain st where s1: "s1 = upd_conn c (\<lambda>x. x\<lparr>iovec_status := st\<rparr>) s" using mark_accessed_conn[OF a(2)] by blast
  have ok: "conn_ok (conns s c)" using inv by (simp add: spm_inv_def)
  have t: "t = (upd_conn c (\<lambda>x. x\<lparr>iovec_status := st, outvec_written := (outvec_written x)[i := outvec_written x ! i + n]\<rparr>) s)\<lparr>ram := ram t\<rparr>"
    using run a s1 by (auto simp: tfm_spm_partition_psa_write_def Let_def bind_eq_Some_conv upd_conn_def split: if_splits)
  show ?thesis using conn_ok_written[OF ok k] by (subst t) (intro vec_updateI, simp_all)
qed

lemma conn_ok_mapped [simp]:
  "conn_ok (SET_IOVEC_MAPPED i c) = conn_ok c" "conn_ok (SET_IOVEC_UNMAPPED i c) = conn_ok c"
  "conn_status (SET_IOVEC_MAPPED i c) = conn_status c" "conn_status (SET_IOVEC_UNMAPPED i c) = conn_status c"
  "conn_service (SET_IOVEC_MAPPED i c) = conn_service c" "conn_service (SET_IOVEC_UNMAPPED i c) = conn_service c"
  by (simp_all add: SET_IOVEC_MAPPED_def SET_IOVEC_UNMAPPED_def)

lemma psa_map_upd:
  assumes inv: "spm_inv s"
  shows "tfm_spm_partition_psa_map_invec env h i s = Some (r, t) \<Longrightarrow> vec_update s t"
    "tfm_spm_partition_psa_map_outvec env h i s = Some (r, t) \<Longrightarrow> vec_update s t"
    "tfm_spm_partition_psa_unmap_invec h i s = Some (u, t) \<Longrightarrow> vec_update s t"
proof -
  have ok: "conn_ok (conns s c)" for c using inv by (simp add: spm_inv_def)
  show "tfm_spm_partition_psa_map_invec env h i s = Some (r, t) \<Longrightarrow> vec_update s t"
    using ok by (auto simp: tfm_spm_partition_psa_map_invec_def Let_def bind_eq_Some_conv intro!: vec_updateI split: if_splits)
  show "tfm_spm_partition_psa_map_outvec env h i s = Some (r, t) \<Longrightarrow> vec_update s t"
    using ok by (auto simp: tfm_spm_partition_psa_map_outvec_def Let_def bind_eq_Some_conv intro!: vec_updateI split: if_splits)
  show "tfm_spm_partition_psa_unmap_invec h i s = Some (u, t) \<Longrightarrow> vec_update s t"
    using ok by (auto simp: tfm_spm_partition_psa_unmap_invec_def Let_def bind_eq_Some_conv intro!: vec_updateI split: if_splits)
qed

lemma psa_unmap_outvec_upd:
  assumes inv: "spm_inv s" and run: "tfm_spm_partition_psa_unmap_outvec h i n s = Some (r, t)"
  shows "vec_update s t"
proof -
  obtain c where c: "n \<le> out_size (msg (conns s c)) ! i"
    "t = upd_conn c (\<lambda>c. (SET_IOVEC_UNMAPPED (i + OUTVEC_IDX_BASE) c)\<lparr>outvec_written := (outvec_written c)[i := n]\<rparr>) s"
    using run by (auto simp: tfm_spm_partition_psa_unmap_outvec_def Let_def bind_eq_Some_conv not_less split: if_splits)
  have "conn_ok (conns s c)" using inv by (simp add: spm_inv_def)
  then have "conn_ok ((SET_IOVEC_UNMAPPED (i + OUTVEC_IDX_BASE) (conns s c))\<lparr>outvec_written := (outvec_written (conns s c))[i := n]\<rparr>)"
    using c(1) by (auto simp: conn_ok_def conn_wf_def iov_ok_def nth_list_update_if SET_IOVEC_UNMAPPED_def)
  then show ?thesis unfolding c(2) by (intro vec_updateI) simp_all
qed

lemmas vec_ops_upd = psa_read_upd psa_skip_upd psa_write_upd psa_map_upd psa_unmap_outvec_upd

end
