(* ===== verification/SPM_Messages.thy ===== *)
theory SPM_Messages
  imports SPM_Run
begin

text \<open>
  Delivery of messages: each partition and signal has a first-in-first-out queue, whatever the
  interleaving of requests and deliveries. The contract of the queue is a locale; the partition
  manager's list of handles with \<open>backend_messaging\<close> and \<open>spm_get_handle_by_signal\<close> provides it.
\<close>

section \<open>Queues\<close>

datatype ('k, 'm) queue_op = Post 'm | Take 'k

text \<open>A sequence of operations: the messages taken, with their keys, and the state after it.\<close>

fun queue_run :: "('m \<Rightarrow> 's \<Rightarrow> 's option) \<Rightarrow> ('k \<Rightarrow> 's \<Rightarrow> ('m option \<times> 's) option) \<Rightarrow> ('k, 'm) queue_op list
    \<Rightarrow> 's \<Rightarrow> (('k \<times> 'm) list \<times> 's) option" where
  "queue_run post fetch [] s = Some ([], s)"
| "queue_run post fetch (Post m # ops) s = do { s \<leftarrow> post m s; queue_run post fetch ops s }"
| "queue_run post fetch (Take k # ops) s = do {
     (r, s) \<leftarrow> fetch k s;
     (tr, t) \<leftarrow> queue_run post fetch ops s;
     Some ((case r of None \<Rightarrow> [] | Some m \<Rightarrow> [(k, m)]) @ tr, t)
   }"

definition delivered :: "'k \<Rightarrow> ('k \<times> 'm) list \<Rightarrow> 'm list" where
  "delivered k tr = map snd (filter (\<lambda>(k', _). k' = k) tr)"

fun posted :: "('m \<Rightarrow> 'k) \<Rightarrow> 'k \<Rightarrow> ('k, 'm) queue_op list \<Rightarrow> 'm list" where
  "posted key k [] = []"
| "posted key k (Post m # ops) = (if key m = k then [m] else []) @ posted key k ops"
| "posted key k (Take _ # ops) = posted key k ops"

locale message_queue =
  fixes inv :: "'s \<Rightarrow> bool" and key :: "'s \<Rightarrow> 'm \<Rightarrow> 'k" and pending :: "'s \<Rightarrow> 'k \<Rightarrow> 'm list"
    and post :: "'m \<Rightarrow> 's \<Rightarrow> 's option" and fetch :: "'k \<Rightarrow> 's \<Rightarrow> ('m option \<times> 's) option"
  assumes post_inv: "inv s \<Longrightarrow> post m s = Some t \<Longrightarrow> inv t \<and> key t = key s"
    and post_pending: "inv s \<Longrightarrow> post m s = Some t \<Longrightarrow> pending t k = pending s k @ (if key s m = k then [m] else [])"
    and fetch_inv: "inv s \<Longrightarrow> fetch k s = Some (r, t) \<Longrightarrow> inv t \<and> key t = key s"
    and fetch_total: "inv s \<Longrightarrow> \<exists>r t. fetch k s = Some (r, t)"
    and fetch_pending: "inv s \<Longrightarrow> fetch k s = Some (r, t) \<Longrightarrow>
      pending s k' = (if k' = k then case r of None \<Rightarrow> [] | Some m \<Rightarrow> [m] else []) @ pending t k'"
    and fetch_none: "inv s \<Longrightarrow> fetch k s = Some (None, t) \<Longrightarrow> pending s k = []"
begin

lemma fetch_head: "inv s \<Longrightarrow> pending s k = m # ms \<Longrightarrow> \<exists>t. fetch k s = Some (Some m, t) \<and> pending t k = ms"
  using fetch_total[of s k] fetch_pending[of s k _ _ k] fetch_none[of s k] by (fastforce split: option.splits)

lemma in_order:
  "inv s \<Longrightarrow> queue_run post fetch ops s = Some (tr, t) \<Longrightarrow>
   delivered k tr @ pending t k = pending s k @ posted (key s) k ops"
proof (induction ops arbitrary: s tr)
  case (Cons a ops)
  show ?case
  proof (cases a)
    case (Post m)
    obtain s1 where p: "post m s = Some s1" and r: "queue_run post fetch ops s1 = Some (tr, t)"
      using Cons(3) unfolding Post by (auto simp: bind_eq_Some_conv)
    show ?thesis
      using Cons(1)[OF _ r] post_inv[OF Cons(2) p] post_pending[OF Cons(2) p] unfolding Post by simp
  next
    case (Take k1)
    obtain r s1 tr1 where tk: "fetch k1 s = Some (r, s1)" and rn: "queue_run post fetch ops s1 = Some (tr1, t)"
      and tr: "tr = (case r of None \<Rightarrow> [] | Some m \<Rightarrow> [(k1, m)]) @ tr1"
      using Cons(3) unfolding Take by (auto simp: bind_eq_Some_conv)
    have i: "inv s1" "key s1 = key s" using fetch_inv[OF Cons(2) tk] by auto
    have "delivered k tr = (if k = k1 then case r of None \<Rightarrow> [] | Some m \<Rightarrow> [m] else []) @ delivered k tr1"
      unfolding tr by (auto simp: delivered_def split: option.splits)
    then show ?thesis using Cons(1)[OF i(1) rn] i(2) fetch_pending[OF Cons(2) tk, of k] unfolding Take by simp
  qed
qed (simp add: delivered_def)

end

section \<open>The queues of the partition manager\<close>

definition msg_key :: "spm_state \<Rightarrow> u32 \<Rightarrow> nat option \<times> u32" where
  "msg_key s c = (case conn_service (conns s c) of None \<Rightarrow> (None, 0)
     | Some i \<Rightarrow> (srv_partition (services s i), srv_signal (services s i)))"

definition spm_pending :: "spm_state \<Rightarrow> nat option \<times> u32 \<Rightarrow> u32 list" where
  "spm_pending s k = (case k of (None, _) \<Rightarrow> []
     | (Some p, sg) \<Rightarrow> rev (filter (\<lambda>c. snd (msg_key s c) = sg) (p_handles (partitions s p))))"

text \<open>A message may be sent on a live connection that has none in flight.\<close>

definition spm_post :: "u32 \<Rightarrow> spm_state \<Rightarrow> spm_state option" where
  "spm_post c s = (if c \<in> pool_live (pool s) \<and> \<not> queued c s then map_option snd (backend_messaging c s) else None)"

definition spm_take :: "nat option \<times> u32 \<Rightarrow> spm_state \<Rightarrow> (u32 option \<times> spm_state) option" where
  "spm_take k s = (case k of (None, _) \<Rightarrow> Some (None, s) | (Some p, sg) \<Rightarrow> spm_get_handle_by_signal p sg s)"

lemma messaging_queue:
  assumes inv: "spm_inv s" and c: "c \<in> pool_live (pool s)" and run: "backend_messaging c s = Some (st, t)"
  shows "\<exists>i p. conn_service (conns s c) = Some i \<and> srv_partition (services s i) = Some p
    \<and> services t = services s \<and> conns t = (conns s)(c := (conns s c)\<lparr>conn_status := TFM_HANDLE_STATUS_ACTIVE\<rparr>)
    \<and> (\<forall>q. p_handles (partitions t q) = (if q = p then c # p_handles (partitions s p) else p_handles (partitions s q)))"
proof -
  obtain i where i: "conn_service (conns s c) = Some i" using inv c by (auto simp: spm_inv_def)
  have "srv_partition (services s i) \<noteq> None" using inv by (simp add: spm_inv_def)
  then obtain p where p: "srv_partition (services s i) = Some p" by blast
  have nr: "\<not> tfm_spm_is_rpc_msg (conns s c)" using inv by (simp add: spm_inv_def conn_ok_def tfm_spm_is_rpc_msg_def)
  have nr2: "\<not> tfm_spm_is_rpc_msg ((conns s c)\<lparr>conn_status := x\<rparr>)" for x using nr by (simp add: tfm_spm_is_rpc_msg_def)
  show ?thesis
    using run i p nr unfolding backend_messaging_def backend_assert_signal_def backend_wait_signals_def
    by (cases "p_client (conns s c)") (auto simp: Let_def upd_conn_def upd_part_def split: if_splits)
qed

lemma rev_remove1_rev: "distinct l \<Longrightarrow> rev (remove1 x (rev l)) = filter (\<lambda>y. y \<noteq> x) l"
  by (simp add: distinct_remove1_removeAll removeAll_filter_not_eq rev_filter) (simp add: eq_commute)

lemma filter_last: "distinct l \<Longrightarrow> l \<noteq> [] \<Longrightarrow> filter (\<lambda>y. y \<noteq> last l) l = butlast l"
  by (induction l rule: rev_induct) (auto simp: filter_id_conv)

lemma get_by_signal_eq:
  assumes inv: "spm_inv s"
  shows "spm_get_handle_by_signal p sg s =
    (case spm_pending s (Some p, sg) of [] \<Rightarrow> Some (None, s)
     | c # cs \<Rightarrow> Some (Some c, upd_part p (\<lambda>q. q\<lparr>p_handles := filter (\<lambda>y. y \<noteq> c) (p_handles q),
          signals_asserted := (if cs = [] then signals_asserted q AND NOT sg else signals_asserted q)\<rparr>) s))"
proof -
  let ?l = "p_handles (partitions s p)"
  let ?f = "filter (\<lambda>c. case conn_service (conns s c) of None \<Rightarrow> False | Some i \<Rightarrow> srv_signal (services s i) = sg) ?l"
  have q: "distinct ?l" "\<And>c. c \<in> set ?l \<Longrightarrow> \<exists>i. conn_service (conns s c) = Some i"
    using inv by (auto simp: spm_inv_def queue_ok_def)
  have f: "filter (\<lambda>c. snd (msg_key s c) = sg) ?l = ?f"
    using q(2) by (intro filter_cong) (fastforce simp: msg_key_def split: option.splits)+
  have n: "\<not> (\<exists>c \<in> set ?l. conn_service (conns s c) = None)" using q(2) by fastforce
  show ?thesis
  proof (cases "?f = []")
    case True
    then show ?thesis using n unfolding spm_get_handle_by_signal_def by (simp add: spm_pending_def f Let_def)
  next
    case False
    then obtain c cs where r: "rev ?f = c # cs" by (cases "rev ?f") auto
    then have fr: "?f = rev cs @ [c]" by (metis rev.simps(2) rev_rev_ident)
    have ln: "length ?f = 1 \<longleftrightarrow> cs = []" unfolding fr by simp
    show ?thesis
      using n False unfolding spm_get_handle_by_signal_def Let_def
      by (simp add: spm_pending_def f ln r rev_remove1_rev[OF q(1)] upd_part_def) (simp add: fr)
  qed
qed

lemma pending_take:
  assumes inv: "spm_inv s" and ne: "spm_pending s (Some p, sg) = c # cs"
    and t: "t = upd_part p (\<lambda>q. q\<lparr>p_handles := filter (\<lambda>y. y \<noteq> c) (p_handles q), signals_asserted := x q\<rparr>) s"
  shows "spm_pending t k = (if k = (Some p, sg) then cs else spm_pending s k)"
proof -
  have mk: "msg_key t = msg_key s" by (rule ext) (simp add: msg_key_def t cong: option.case_cong)
  have d: "distinct (p_handles (partitions s p))" using inv by (auto simp: spm_inv_def queue_ok_def)
  obtain q g where k: "k = (q, g)" by fastforce
  have cs: "distinct (c # cs)" "c \<in> set (p_handles (partitions s p))" "snd (msg_key s c) = sg"
  proof -
    have "rev (c # cs) = filter (\<lambda>c. snd (msg_key s c) = sg) (p_handles (partitions s p))"
      using ne by (simp add: spm_pending_def rev_swap)
    then have "set (c # cs) = {c \<in> set (p_handles (partitions s p)). snd (msg_key s c) = sg}" "distinct (rev (c # cs))"
      using d by (metis set_filter set_rev, metis distinct_filter)
    then show "distinct (c # cs)" "c \<in> set (p_handles (partitions s p))" "snd (msg_key s c) = sg" by auto
  qed
  show ?thesis
  proof (cases "q = Some p")
    case False
    then show ?thesis by (auto simp: spm_pending_def k mk[unfolded t] t split: option.splits)
  next
    case True
    have "spm_pending t k = filter (\<lambda>y. y \<noteq> c) (spm_pending s k)"
      by (simp add: spm_pending_def k True mk[unfolded t] t rev_filter conj_commute)
    moreover have "filter (\<lambda>y. y \<noteq> c) (c # cs) = cs" using cs(1) by (auto simp: filter_id_conv)
    moreover have "c \<notin> set (spm_pending s k)" if "g \<noteq> sg" using that cs(3) by (auto simp: spm_pending_def k True)
    then have "filter (\<lambda>y. y \<noteq> c) (spm_pending s k) = spm_pending s k" if "g \<noteq> sg" using that by (auto simp: filter_id_conv)
    ultimately show ?thesis using ne True k by auto
  qed
qed

lemma inv_dequeue:
  assumes inv: "spm_inv s"
  shows "spm_inv (upd_part p (\<lambda>q. q\<lparr>p_handles := filter P (p_handles q), signals_asserted := x q\<rparr>) s)"
  using inv unfolding spm_inv_def queue_ok_def by auto

lemma get_by_signal_cases:
  assumes inv: "spm_inv s" and run: "spm_get_handle_by_signal p sg s = Some (r, t)"
  obtains "r = None" "t = s" "spm_pending s (Some p, sg) = []"
  | c cs where "r = Some c" "spm_pending s (Some p, sg) = c # cs"
    "t = upd_part p (\<lambda>q. q\<lparr>p_handles := filter (\<lambda>y. y \<noteq> c) (p_handles q),
          signals_asserted := (if cs = [] then signals_asserted q AND NOT sg else signals_asserted q)\<rparr>) s"
  using run unfolding get_by_signal_eq[OF inv] by (auto split: list.splits)

interpretation spmq: message_queue spm_inv msg_key spm_pending spm_post spm_take
proof unfold_locales
  fix s t m k r k'
  assume inv: "spm_inv s"
  {
    assume p: "spm_post m s = Some t"
    then obtain st where m: "m \<in> pool_live (pool s)" "\<not> queued m s" "backend_messaging m s = Some (st, t)"
      by (auto simp: spm_post_def split: if_splits)
    obtain i p where q: "conn_service (conns s m) = Some i" "srv_partition (services s i) = Some p" "services t = services s"
      "conns t = (conns s)(m := (conns s m)\<lparr>conn_status := TFM_HANDLE_STATUS_ACTIVE\<rparr>)"
      "\<And>q. p_handles (partitions t q) = (if q = p then m # p_handles (partitions s p) else p_handles (partitions s q))"
      using messaging_queue[OF inv m(1,3)] by auto
    have k: "msg_key t = msg_key s" by (rule ext) (simp add: msg_key_def q(3,4) cong: option.case_cong)
    have mk: "msg_key s m = (Some p, srv_signal (services s i))" using q(1,2) by (simp add: msg_key_def)
    show "spm_inv t \<and> msg_key t = msg_key s" using messaging_ok[OF inv m] k by simp
    show "spm_pending t k = spm_pending s k @ (if msg_key s m = k then [m] else [])"
      by (cases k) (auto simp: spm_pending_def k q(5) mk split: option.splits)
  }
  {
    assume p: "spm_take k s = Some (r, t)"
    obtain q sg where kq: "k = (q, sg)" by fastforce
    have c: "(r = None \<and> t = s \<and> spm_pending s k = []) \<or> (\<exists>c cs p x. r = Some c \<and> q = Some p \<and> spm_pending s k = c # cs
        \<and> t = upd_part p (\<lambda>q. q\<lparr>p_handles := filter (\<lambda>y. y \<noteq> c) (p_handles q), signals_asserted := x q\<rparr>) s)"
    proof (cases q)
      case None
      then show ?thesis using p by (simp add: spm_take_def kq spm_pending_def)
    next
      case (Some p')
      then have "spm_get_handle_by_signal p' sg s = Some (r, t)" using p by (simp add: spm_take_def kq)
      then show ?thesis unfolding kq Some by (cases rule: get_by_signal_cases[OF inv]) auto
    qed
    show "spm_inv t \<and> msg_key t = msg_key s"
      using c inv inv_dequeue[OF inv] by (auto simp: msg_key_def fun_eq_iff cong: option.case_cong)
    show "spm_pending s k' = (if k' = k then case r of None \<Rightarrow> [] | Some m \<Rightarrow> [m] else []) @ spm_pending t k'"
      using c
    proof (elim disjE exE conjE)
      fix c cs p x assume h: "r = Some c" "q = Some p" "spm_pending s k = c # cs"
        and t: "t = upd_part p (\<lambda>q. q\<lparr>p_handles := filter (\<lambda>y. y \<noteq> c) (p_handles q), signals_asserted := x q\<rparr>) s"
      have "spm_pending t k' = (if k' = k then cs else spm_pending s k')"
        using pending_take[OF inv _ t, of sg cs k'] h by (simp add: kq)
      then show ?thesis using h by simp
    qed simp
  }
  show "\<exists>r t. spm_take k s = Some (r, t)"
    by (auto simp: spm_take_def get_by_signal_eq[OF inv] split: option.splits list.splits prod.splits)
  show "spm_take k s = Some (None, t) \<Longrightarrow> spm_pending s k = []"
    by (auto simp: spm_take_def spm_pending_def get_by_signal_eq[OF inv] split: option.splits list.splits prod.splits)
qed

section \<open>Replies\<close>

lemma clear_mapped_ok:
  assumes "conn_ok c"
  shows "conn_ok (clear_mapped_loop is c) \<and> same_conn (clear_mapped_loop is c) c"
  using assms
proof (induction "is" arbitrary: c)
  case (Cons i "is")
  have "conn_ok (c\<lparr>outvec_written := (outvec_written c)[i - OUTVEC_IDX_BASE := 0]\<rparr>)"
    using Cons(2) by (auto simp: conn_ok_def conn_wf_def iov_ok_def nth_list_update_if)
  then show ?case using Cons(1)[of c] Cons(2) Cons(1)[of "c\<lparr>outvec_written := (outvec_written c)[i - OUTVEC_IDX_BASE := 0]\<rparr>"]
    by (auto simp: same_conn_def)
qed (simp add: same_conn_def)

text \<open>What a reply does to its connection before the client is notified.\<close>

definition reply_upd :: "spm_state \<Rightarrow> u32 \<Rightarrow> spm_state \<Rightarrow> bool" where
  "reply_upd s c t \<longleftrightarrow> (\<exists>d m. t = (upd_conn c (\<lambda>_. d) s)\<lparr>ram := m\<rparr> \<and> conn_ok d
     \<and> conn_service d = conn_service (conns s c) \<and> p_client d = p_client (conns s c) \<and> client_id (msg d) = client_id (msg (conns s c)))"

lemma reply_updI:
  assumes "conn_ok (conns t c)" "conn_service (conns t c) = conn_service (conns s c)" "p_client (conns t c) = p_client (conns s c)"
    "client_id (msg (conns t c)) = client_id (msg (conns s c))" "t = (upd_conn c (\<lambda>_. conns t c) s)\<lparr>ram := ram t\<rparr>"
  shows "reply_upd s c t"
  unfolding reply_upd_def using assms by blast

lemma reply_value_ok:
  assumes inv: "spm_inv s" and run: "reply_value env h c srv st s = Some (r, t)"
  shows "reply_upd s c t"
proof -
  have ok: "conn_ok (conns s c)" using inv by (simp add: spm_inv_def)
  note cm = clear_mapped_ok[OF ok, of "[OUTVEC_IDX_BASE..<2 * PSA_MAX_IOVEC]"]
  have "reply_upd s c s" "reply_upd s c (set_status c x s)" for x
    using ok by (auto simp: set_status_def upd_conn_def intro!: reply_updI)
  moreover
  let ?s1 = "if has_mm_iovec env then upd_conn c (clear_mapped_loop [OUTVEC_IDX_BASE..<2 * PSA_MAX_IOVEC]) s else s"
  have "reply_upd s c (update_caller_outvec_len c ?s1)" "reply_upd s c (set_status c x (update_caller_outvec_len c ?s1))" for x
    using ok cm by (auto simp: set_status_def upd_conn_def update_caller_outvec_len_def same_conn_def intro!: reply_updI)
  ultimately show ?thesis using run unfolding reply_value_def by (auto simp: Let_def split: if_splits)
qed

text \<open>A reply changes the connection, the client's memory, the signals of the client and perhaps the pool; it changes no queue.\<close>

lemma psa_reply_cases:
  assumes inv: "spm_inv s" and run: "tfm_spm_partition_psa_reply env h st s = Some (r, t)" and c: "c = handle_to_connection h s"
  obtains d m cl ret s2 where "c \<in> pool_live (pool s)" "conn_ok d" "conn_service d = conn_service (conns s c)"
    "s2 = upd_part cl (\<lambda>p. p\<lparr>part_reply_value := ret, signals_asserted := signals_asserted p OR ASYNC_MSG_REPLY\<rparr>)
       ((upd_conn c (\<lambda>_. d) s)\<lparr>ram := m\<rparr>)"
    "t = spm_free_connection c s2 \<or> t = set_status c TFM_HANDLE_STATUS_IDLE s2"
proof -
  have live: "c \<in> pool_live (pool s)" and mh: "spm_msg_handle_to_connection h s = Some c"
    using run valid_live[OF inv]
    by (auto simp: tfm_spm_partition_psa_reply_def spm_msg_handle_to_connection_def Let_def spm_validate_connection_def
        spm_simps bind_eq_Some_conv c split: if_splits)
  obtain i ret s1 where a: "conn_service (conns s c) = Some i" "reply_value env h c (services s i) st s = Some (ret, s1)"
    using run mh by (auto simp: tfm_spm_partition_psa_reply_def bind_eq_Some_conv split: if_splits)
  obtain d m where d: "s1 = (upd_conn c (\<lambda>_. d) s)\<lparr>ram := m\<rparr>" "conn_ok d" "conn_service d = conn_service (conns s c)"
    using reply_value_ok[OF inv a(2)] by (auto simp: reply_upd_def)
  have nr: "\<not> tfm_spm_is_rpc_msg d" using d(2) by (simp add: conn_ok_def tfm_spm_is_rpc_msg_def)
  obtain cl where cl: "p_client d = Some cl"
    using run mh a nr by (cases "p_client d") (auto simp: tfm_spm_partition_psa_reply_def backend_replying_def Let_def d(1) split: if_splits)
  define s2 where "s2 = upd_part cl (\<lambda>p. p\<lparr>part_reply_value := ret, signals_asserted := signals_asserted p OR ASYNC_MSG_REPLY\<rparr>) s1"
  have "t = spm_free_connection c s2 \<or> t = set_status c TFM_HANDLE_STATUS_IDLE s2"
    using run mh a nr cl
    by (auto simp: tfm_spm_partition_psa_reply_def backend_replying_def backend_assert_signal_def Let_def d(1) s2_def upd_part_def split: if_splits)
  then show thesis using that[OF live d(2,3) _ ] s2_def d(1) by blast
qed

lemma psa_reply_ok:
  assumes inv: "spm_inv s" and nq: "\<not> queued (handle_to_connection h s) s"
    and run: "tfm_spm_partition_psa_reply env h st s = Some (r, t)"
  shows "spm_inv t"
proof -
  define c where "c = handle_to_connection h s"
  obtain d m cl ret s2 where a: "c \<in> pool_live (pool s)" "conn_ok d" "conn_service d = conn_service (conns s c)"
    "s2 = upd_part cl (\<lambda>p. p\<lparr>part_reply_value := ret, signals_asserted := signals_asserted p OR ASYNC_MSG_REPLY\<rparr>)
       ((upd_conn c (\<lambda>_. d) s)\<lparr>ram := m\<rparr>)" "t = spm_free_connection c s2 \<or> t = set_status c TFM_HANDLE_STATUS_IDLE s2"
    by (rule psa_reply_cases[OF inv run c_def])
  have i1: "spm_inv ((upd_conn c (\<lambda>_. d) s)\<lparr>ram := m\<rparr>)" using inv_upd_conn[OF inv, of "\<lambda>_. d" c] a nq by (simp add: c_def)
  have i2: "spm_inv s2" unfolding a(4) by (rule inv_upd_signals[OF i1]) simp
  have q2: "\<not> queued c s2" "c \<in> pool_live (pool s2)" "conns s2 c = d"
    using nq a(1) by (auto simp: a(4) queued_def c_def)
  show ?thesis
    using inv_free[OF i2 q2(2,1)] inv_upd_conn[OF i2, of "\<lambda>c. c\<lparr>conn_status := TFM_HANDLE_STATUS_IDLE\<rparr>" c] q2 a(2,5)
    by (auto simp: set_status_def)
qed

text \<open>
  Nothing in \<open>tfm_spm_partition_psa_reply\<close> checks that the message was delivered before. A reply to a message that is
  still queued leaves its connection in the queue although it is free or idle.
\<close>

lemma psa_reply_queued_breaks:
  assumes inv: "spm_inv s" and q: "queued (handle_to_connection h s) s"
    and run: "tfm_spm_partition_psa_reply env h st s = Some (r, t)"
  shows "\<not> spm_inv t"
proof
  define c where "c = handle_to_connection h s"
  assume it: "spm_inv t"
  obtain d m cl ret s2 where a: "c \<in> pool_live (pool s)" "conn_ok d" "conn_service d = conn_service (conns s c)"
    "s2 = upd_part cl (\<lambda>p. p\<lparr>part_reply_value := ret, signals_asserted := signals_asserted p OR ASYNC_MSG_REPLY\<rparr>)
       ((upd_conn c (\<lambda>_. d) s)\<lparr>ram := m\<rparr>)" "t = spm_free_connection c s2 \<or> t = set_status c TFM_HANDLE_STATUS_IDLE s2"
    by (rule psa_reply_cases[OF inv run c_def])
  have "queued c t" using q a(4,5) by (auto simp: queued_def c_def spm_free_connection_def set_status_def)
  then have "c \<in> pool_live (pool t)" "conn_status (conns t c) = TFM_HANDLE_STATUS_ACTIVE" using queued_live[OF it] by auto
  moreover have "pool_ok (pool s)" using inv by (simp add: spm_inv_def)
  then have "c \<notin> pool_live (tfm_pool_free c (pool s))" using pool.release_live[OF _ a(1)] by auto
  ultimately show False using a(4,5) by (auto simp: spm_free_connection_def set_status_def)
qed

section \<open>Runs\<close>

lemma psa_get_ok:
  assumes inv: "spm_inv s" and run: "tfm_spm_partition_psa_get env sg mp s = Some (r, t)"
  shows "spm_inv t"
proof -
  have b: "butlast l = filter (\<lambda>y. y \<noteq> last l) l" if "distinct l" "l \<noteq> []" for l :: "u32 list"
    using filter_last[OF that] by simp
  obtain cur where cur: "current s = Some cur" using run by (auto simp: tfm_spm_partition_psa_get_def bind_eq_Some_conv split: if_splits)
  have d: "distinct (p_handles (partitions s cur))" using inv by (auto simp: spm_inv_def queue_ok_def)
  show ?thesis
  proof (cases "sg = ASYNC_MSG_REPLY")
    case True
    then have ne: "p_handles (partitions s cur) \<noteq> []"
      and t: "t = upd_part cur (\<lambda>p. p\<lparr>p_handles := butlast (p_handles p), signals_asserted :=
          (if butlast (p_handles p) = [] then signals_asserted p AND NOT ASYNC_MSG_REPLY else signals_asserted p)\<rparr>) s"
      using run cur by (auto simp: tfm_spm_partition_psa_get_def Let_def split: if_splits)
    have "spm_inv (upd_part cur (\<lambda>q. q\<lparr>p_handles := filter (\<lambda>y. y \<noteq> last (p_handles (partitions s cur))) (p_handles q),
        signals_asserted := signals_asserted (partitions t cur)\<rparr>) s)" by (rule inv_dequeue[OF inv])
    also have "upd_part cur (\<lambda>q. q\<lparr>p_handles := filter (\<lambda>y. y \<noteq> last (p_handles (partitions s cur))) (p_handles q),
        signals_asserted := signals_asserted (partitions t cur)\<rparr>) s = t"
      using b[OF d ne] by (simp add: t upd_part_def)
    finally show ?thesis .
  next
    case False
    then obtain r1 where g: "spm_get_handle_by_signal cur sg s = Some (r1, t)"
      using run cur by (auto simp: tfm_spm_partition_psa_get_def Let_def bind_eq_Some_conv split: if_splits option.splits)
    show ?thesis by (cases rule: get_by_signal_cases[OF inv g]) (use inv inv_dequeue[OF inv] in auto)
  qed
qed

text \<open>
  A run: calls of clients and partitions in any order, interleaved with the scheduler choosing the
  running partition and with partitions changing memory. A partition answers only a message that
  has been delivered to it.
\<close>

inductive spm_run :: "spm_env \<Rightarrow> spm_state \<Rightarrow> spm_state \<Rightarrow> bool" for env s where
  spm_start: "spm_run env s s"
| spm_schedule: "spm_run env s t \<Longrightarrow> spm_run env s (t\<lparr>current := cur\<rparr>)"
| spm_memory: "spm_run env s t \<Longrightarrow> spm_run env s (t\<lparr>ram := m\<rparr>)"
| spm_call: "spm_run env s t \<Longrightarrow> tfm_spm_client_psa_call env h ctrl inp outp t = Some (st, u) \<Longrightarrow> spm_run env s u"
| spm_connect: "spm_run env s t \<Longrightarrow> tfm_spm_client_psa_connect env sd ver t = Some (st, u) \<Longrightarrow> spm_run env s u"
| spm_close: "spm_run env s t \<Longrightarrow> tfm_spm_client_psa_close env h t = Some (st, u) \<Longrightarrow> spm_run env s u"
| spm_version: "spm_run env s t \<Longrightarrow> tfm_spm_client_psa_version sd t = Some (w, u) \<Longrightarrow> spm_run env s u"
| spm_wait: "spm_run env s t \<Longrightarrow> tfm_spm_partition_psa_wait msk tmo t = Some (w, u) \<Longrightarrow> spm_run env s u"
| spm_get: "spm_run env s t \<Longrightarrow> tfm_spm_partition_psa_get env sg mp t = Some (rm, u) \<Longrightarrow> spm_run env s u"
| spm_read: "spm_run env s t \<Longrightarrow> tfm_spm_partition_psa_read env h i b n t = Some (w, u) \<Longrightarrow> spm_run env s u"
| spm_skip: "spm_run env s t \<Longrightarrow> tfm_spm_partition_psa_skip env h i n t = Some (w, u) \<Longrightarrow> spm_run env s u"
| spm_write: "spm_run env s t \<Longrightarrow> tfm_spm_partition_psa_write env h i b n t = Some (st, u) \<Longrightarrow> spm_run env s u"
| spm_map_in: "spm_run env s t \<Longrightarrow> tfm_spm_partition_psa_map_invec env h i t = Some (w, u) \<Longrightarrow> spm_run env s u"
| spm_map_out: "spm_run env s t \<Longrightarrow> tfm_spm_partition_psa_map_outvec env h i t = Some (w, u) \<Longrightarrow> spm_run env s u"
| spm_unmap_in: "spm_run env s t \<Longrightarrow> tfm_spm_partition_psa_unmap_invec h i t = Some (un, u) \<Longrightarrow> spm_run env s u"
| spm_unmap_out: "spm_run env s t \<Longrightarrow> tfm_spm_partition_psa_unmap_outvec h i n t = Some (un, u) \<Longrightarrow> spm_run env s u"
| spm_reply: "spm_run env s t \<Longrightarrow> \<not> queued (handle_to_connection h t) t \<Longrightarrow>
    tfm_spm_partition_psa_reply env h st t = Some (r, u) \<Longrightarrow> spm_run env s u"
| spm_rhandle: "spm_run env s t \<Longrightarrow> tfm_spm_partition_psa_set_rhandle h rh t = Some (st, u) \<Longrightarrow> spm_run env s u"
| spm_notify: "spm_run env s t \<Longrightarrow> tfm_spm_partition_psa_notify pd t = Some (st, u) \<Longrightarrow> spm_run env s u"
| spm_clear: "spm_run env s t \<Longrightarrow> tfm_spm_partition_psa_clear t = Some (st, u) \<Longrightarrow> spm_run env s u"

lemma psa_wait_ok: "spm_inv s \<Longrightarrow> tfm_spm_partition_psa_wait msk tmo s = Some (w, t) \<Longrightarrow> spm_inv t"
  by (auto simp: tfm_spm_partition_psa_wait_def backend_wait_signals_def bind_eq_Some_conv Let_def inv_upd_signals split: if_splits)

lemma psa_notify_ok: "spm_inv s \<Longrightarrow> tfm_spm_partition_psa_notify pd s = Some (st, t) \<Longrightarrow> spm_inv t"
  by (auto simp: tfm_spm_partition_psa_notify_def backend_assert_signal_def bind_eq_Some_conv Let_def inv_upd_signals)

lemma psa_clear_ok: "spm_inv s \<Longrightarrow> tfm_spm_partition_psa_clear s = Some (st, t) \<Longrightarrow> spm_inv t"
  by (auto simp: tfm_spm_partition_psa_clear_def bind_eq_Some_conv Let_def inv_upd_signals split: if_splits)

lemma psa_version_ok: "spm_inv s \<Longrightarrow> tfm_spm_client_psa_version sd s = Some (w, t) \<Longrightarrow> spm_inv t"
  by (auto simp: tfm_spm_client_psa_version_def tfm_spm_get_service_by_sid_def bind_eq_Some_conv split: option.splits)

lemma set_rhandle_ok: "spm_inv s \<Longrightarrow> tfm_spm_partition_psa_set_rhandle h rh s = Some (st, t) \<Longrightarrow> spm_inv t"
  by (auto simp: tfm_spm_partition_psa_set_rhandle_def bind_eq_Some_conv intro!: inv_upd_conn split: if_splits)
    (simp add: spm_inv_def)

lemmas spm_ops_inv = psa_call_ok(1) psa_connect_ok(1) psa_close_ok(1) psa_version_ok psa_wait_ok psa_get_ok
  psa_reply_ok set_rhandle_ok psa_notify_ok psa_clear_ok

lemma vec_ops_inv: "spm_inv s \<Longrightarrow> vec_update s t \<Longrightarrow> spm_inv t"
  using vec_update_inv by blast

lemma spm_run_inv: "spm_run env s t \<Longrightarrow> spm_inv s \<Longrightarrow> spm_inv t"
proof (induction rule: spm_run.induct)
  case (spm_schedule t cur)
  then show ?case by simp
next
  case (spm_memory t m)
  then show ?case by simp
qed (blast intro: spm_ops_inv vec_ops_inv vec_ops_upd)+

end
