(* ===== verification/SPM_Thread.thy ===== *)
theory SPM_Thread
  imports SPM_Messages "HOL-Library.Multiset"
begin

text \<open>
  Scheduling: the list of threads (src/secure_fw/spm/core/thread.c), the state query and the
  schedule of the IPC backend (backend_ipc.c). The thread of a partition is embedded in it, so
  threads are named by their partition. The list linked through the threads is a list of names; a
  pointer into it, such as \<open>p_rnbl_head\<close>, is the name of the first thread.
\<close>

section \<open>Threads\<close>

datatype thrd_state = THRD_STATE_CREATING | THRD_STATE_RUNNABLE | THRD_STATE_BLOCK | THRD_STATE_DETACH
  | THRD_STATE_INVALID | THRD_STATE_RET_VAL_AVAIL

record thread_t =
  priority :: "8 word"
  thrd_st :: thrd_state
  ret_code :: u32   \<comment> \<open>the return value in the saved context, \<open>tfm_arch_set_context_ret_code\<close>\<close>

record sched =
  threads :: "nat \<Rightarrow> thread_t"
  p_thrd_head :: "nat list"
  p_rnbl_head :: "nat option"

definition upd_thrd :: "nat \<Rightarrow> (thread_t \<Rightarrow> thread_t) \<Rightarrow> sched \<Rightarrow> sched" where
  "upd_thrd t f q = q\<lparr>threads := (threads q)(t := f (threads q t))\<rparr>"

text \<open>The threads from a pointer into the list on.\<close>

definition from_ptr :: "nat option \<Rightarrow> nat list \<Rightarrow> nat list" where
  "from_ptr p l = (case p of None \<Rightarrow> [] | Some t \<Rightarrow> dropWhile (\<lambda>x. x \<noteq> t) l)"

definition head_ptr :: "nat list \<Rightarrow> nat option" where
  "head_ptr l = (case l of [] \<Rightarrow> None | t # _ \<Rightarrow> Some t)"

definition THRD_INIT :: "nat \<Rightarrow> 8 word \<Rightarrow> sched \<Rightarrow> sched" where
  "THRD_INIT t prio = upd_thrd t (\<lambda>x. x\<lparr>priority := prio, thrd_st := THRD_STATE_CREATING\<rparr>)"

text \<open>The walk behind the head: it stops before the first thread of the same or a higher value.\<close>

fun insert_iter :: "(nat \<Rightarrow> 8 word) \<Rightarrow> nat \<Rightarrow> nat list \<Rightarrow> nat list" where
  "insert_iter pr node [] = [node]"
| "insert_iter pr node (x # xs) = (if pr node > pr x then x # insert_iter pr node xs else node # x # xs)"

definition insert_by_prior :: "(nat \<Rightarrow> 8 word) \<Rightarrow> nat list \<Rightarrow> nat \<Rightarrow> nat list" where
  "insert_by_prior pr head node =
     (case head of [] \<Rightarrow> [node]
      | x # xs \<Rightarrow> if pr node \<le> pr x then node # x # xs else x # insert_iter pr node xs)"

definition thrd_set_state :: "nat \<Rightarrow> thrd_state \<Rightarrow> sched \<Rightarrow> sched" where
  "thrd_set_state t new_state q =
     (let q = upd_thrd t (\<lambda>x. x\<lparr>thrd_st := new_state\<rparr>) q
      in if thrd_st (threads q t) = THRD_STATE_RUNNABLE
            \<and> (case p_rnbl_head q of None \<Rightarrow> True | Some r \<Rightarrow> priority (threads q t) < priority (threads q r))
         then q\<lparr>p_rnbl_head := Some t\<rparr>
         else q\<lparr>p_rnbl_head := head_ptr (p_thrd_head q)\<rparr>)"

definition thrd_start :: "nat \<Rightarrow> sched \<Rightarrow> sched" where
  "thrd_start t q = thrd_set_state t THRD_STATE_RUNNABLE
     (q\<lparr>p_thrd_head := insert_by_prior (\<lambda>x. priority (threads q x)) (p_thrd_head q) t\<rparr>)"

section \<open>The next thread\<close>

definition query_state :: "nat \<Rightarrow> thrd_state \<Rightarrow> spm_state \<Rightarrow> (thrd_state \<times> u32) \<times> spm_state" where
  "query_state t st s =
     (let p = partitions s t; retval_signals = signals_waiting p AND signals_asserted p
      in if retval_signals \<noteq> 0 then
           if retval_signals = ASYNC_MSG_REPLY \<and> signals_allowed p AND ASYNC_MSG_REPLY \<noteq> ASYNC_MSG_REPLY
           then ((THRD_STATE_RET_VAL_AVAIL, word_of_int (part_reply_value p)),
                 upd_part t (\<lambda>p. p\<lparr>signals_asserted := signals_asserted p AND NOT ASYNC_MSG_REPLY, signals_waiting := 0\<rparr>) s)
           else ((THRD_STATE_RET_VAL_AVAIL, retval_signals), upd_part t (\<lambda>p. p\<lparr>signals_waiting := 0\<rparr>) s)
         else if signals_waiting p \<noteq> 0 then ((THRD_STATE_BLOCK, 0), s)
         else ((st, 0), s))"

text \<open>One round of the loop of \<open>thrd_next\<close>: the thread with its new state, and whether it can run.\<close>

fun thrd_next_loop :: "nat list \<Rightarrow> sched \<Rightarrow> spm_state \<Rightarrow> nat option \<times> sched \<times> spm_state" where
  "thrd_next_loop [] q s = (None, q, s)"
| "thrd_next_loop (t # ts) q s =
     (case query_state t (thrd_st (threads q t)) s of ((st, retval), s1) \<Rightarrow>
        let q1 = (if st = THRD_STATE_RET_VAL_AVAIL
                  then upd_thrd t (\<lambda>x. x\<lparr>thrd_st := THRD_STATE_RUNNABLE, ret_code := retval\<rparr>) q
                  else upd_thrd t (\<lambda>x. x\<lparr>thrd_st := st\<rparr>) q)
        in if thrd_st (threads q1 t) = THRD_STATE_RUNNABLE then (Some t, q1, s1) else thrd_next_loop ts q1 s1)"

definition thrd_next :: "sched \<Rightarrow> spm_state \<Rightarrow> nat option \<times> sched \<times> spm_state" where
  "thrd_next q s = thrd_next_loop (from_ptr (p_rnbl_head q) (p_thrd_head q)) q s"

text \<open>
  The switch of the IPC backend, with the contexts to save and to load. The platform says whether
  the stack of the current thread has room for its context, whether the boundary has to change and
  whether it could be activated; failures panic, as does a partition without metadata. Without a
  thread to run the code goes on with a null thread, which faults.
\<close>

record sched_env =
  stack_room :: "nat \<Rightarrow> bool"
  boundary_need_switch :: "u32 \<Rightarrow> u32 \<Rightarrow> bool"
  activate_boundary :: "nat \<Rightarrow> u32 \<Rightarrow> bool"
  has_metadata :: "nat \<Rightarrow> bool"

definition ipc_schedule :: "sched_env \<Rightarrow> sched \<Rightarrow> spm_state \<Rightarrow> ((nat \<times> nat) \<times> sched \<times> spm_state) option" where
  "ipc_schedule se q s =
     (case thrd_next q s of
        (None, _) \<Rightarrow> None
      | (Some nxt, q1, s1) \<Rightarrow> do {
          cur \<leftarrow> current s1;
          if cur \<noteq> nxt \<and> \<not> stack_room se cur then None
          else if cur \<noteq> nxt \<and> boundary_need_switch se (boundary (partitions s1 cur)) (boundary (partitions s1 nxt))
               \<and> \<not> activate_boundary se nxt (boundary (partitions s1 nxt)) then None
          else if \<not> has_metadata se nxt then None
          else Some ((cur, nxt), q1, s1\<lparr>current := Some nxt\<rparr>)
        })"

section \<open>The list of threads\<close>

lemma insert_iter_mset: "mset (insert_iter pr t l) = add_mset t (mset l)"
  by (induction l) auto

lemma insert_by_prior_mset [simp]: "mset (insert_by_prior pr l t) = add_mset t (mset l)"
  by (cases l) (auto simp: insert_by_prior_def insert_iter_mset)

lemma insert_by_prior_set [simp]: "set (insert_by_prior pr l t) = insert t (set l)"
  by (metis insert_by_prior_mset set_mset_add_mset_insert set_mset_mset)

lemma insert_iter_sorted: "sorted_wrt (\<lambda>x y. pr x \<le> pr y) l \<Longrightarrow> sorted_wrt (\<lambda>x y. pr x \<le> pr y) (insert_iter pr t l)"
proof (induction l)
  case (Cons x xs)
  have "set (insert_iter pr t xs) = insert t (set xs)" by (metis insert_iter_mset set_mset_add_mset_insert set_mset_mset)
  then show ?case using Cons by (auto simp: not_less intro: order_trans)
qed simp

lemma insert_by_prior_sorted:
  assumes "sorted_wrt (\<lambda>x y. pr x \<le> pr y) l"
  shows "sorted_wrt (\<lambda>x y. pr x \<le> pr y) (insert_by_prior pr l t)"
proof (cases l)
  case (Cons x xs)
  have "set (insert_iter pr t xs) = insert t (set xs)" by (metis insert_iter_mset set_mset_add_mset_insert set_mset_mset)
  then show ?thesis using assms Cons insert_iter_sorted[of pr xs t] by (auto simp: insert_by_prior_def intro: order_trans)
qed (simp add: insert_by_prior_def)

text \<open>
  The scheduler's invariant: the list is sorted by priority and holds each thread once, the
  runnable head is the head of the list, and threads in the list run or wait.
\<close>

definition thrd_prio :: "sched \<Rightarrow> nat \<Rightarrow> 8 word" where
  "thrd_prio q t = priority (threads q t)"

definition sched_inv :: "sched \<Rightarrow> spm_state \<Rightarrow> bool" where
  "sched_inv q s \<longleftrightarrow> sorted_wrt (\<lambda>x y. thrd_prio q x \<le> thrd_prio q y) (p_thrd_head q) \<and> distinct (p_thrd_head q)
     \<and> p_rnbl_head q = head_ptr (p_thrd_head q)
     \<and> (\<forall>t \<in> set (p_thrd_head q). thrd_st (threads q t) = THRD_STATE_RUNNABLE
          \<or> thrd_st (threads q t) = THRD_STATE_BLOCK \<and> signals_waiting (partitions s t) \<noteq> 0)"

lemma from_head: "from_ptr (head_ptr l) l = l"
  by (cases l) (auto simp: from_ptr_def head_ptr_def)

lemma thrd_start_fields:
  shows "p_thrd_head (thrd_start t q) = insert_by_prior (thrd_prio q) (p_thrd_head q) t"
    "threads (thrd_start t q) = (threads q)(t := (threads q t)\<lparr>thrd_st := THRD_STATE_RUNNABLE\<rparr>)"
  by (auto simp: thrd_start_def thrd_set_state_def upd_thrd_def Let_def thrd_prio_def[abs_def])

lemma thrd_start_inv:
  assumes inv: "sched_inv q s" and new: "t \<notin> set (p_thrd_head q)"
  shows "sched_inv (thrd_start t q) s"
proof -
  let ?l = "p_thrd_head q" and ?q = "thrd_start t q"
  have pr: "thrd_prio ?q = thrd_prio q" by (rule ext) (simp add: thrd_prio_def thrd_start_fields)
  have h: "p_rnbl_head q = head_ptr ?l" using inv by (simp add: sched_inv_def)
  have "p_rnbl_head ?q = head_ptr (p_thrd_head ?q)"
    using h new by (cases ?l) (auto simp: thrd_start_def thrd_set_state_def upd_thrd_def Let_def head_ptr_def
        insert_by_prior_def thrd_prio_def less_imp_le)
  moreover have "distinct (p_thrd_head ?q)"
    using inv new unfolding thrd_start_fields
    by (metis insert_by_prior_mset distinct.simps(2) mset.simps(2) mset_eq_imp_distinct_iff sched_inv_def)
  ultimately show ?thesis
    using inv insert_by_prior_sorted[of "thrd_prio q" ?l t] unfolding sched_inv_def pr by (auto simp: thrd_start_fields)
qed

section \<open>Choosing the next thread\<close>

text \<open>A thread can run when it waits for nothing, or for a signal that is asserted.\<close>

definition ready :: "spm_state \<Rightarrow> nat \<Rightarrow> bool" where
  "ready s t \<longleftrightarrow> signals_waiting (partitions s t) = 0 \<or> signals_waiting (partitions s t) AND signals_asserted (partitions s t) \<noteq> 0"

lemma query_not_ready: "\<not> ready s t \<Longrightarrow> query_state t st s = ((THRD_STATE_BLOCK, 0), s)"
  by (auto simp: query_state_def ready_def Let_def)

lemma query_ready:
  assumes "ready s t" "query_state t st s = ((st', v), u)"
  shows "st' = (if signals_waiting (partitions s t) = 0 then st else THRD_STATE_RET_VAL_AVAIL)"
    "signals_waiting (partitions u t) = 0" "\<And>x. x \<noteq> t \<Longrightarrow> partitions u x = partitions s x"
    "conns u = conns s" "pool u = pool s" "ram u = ram s" "services u = services s" "current u = current s"
  using assms by (auto simp: query_state_def ready_def Let_def split: if_splits)

lemma next_loop_none:
  "\<forall>t \<in> set l. \<not> ready s t \<Longrightarrow> \<exists>q'. thrd_next_loop l q s = (None, q', s)"
  by (induction l arbitrary: q) (simp_all add: query_not_ready Let_def upd_thrd_def)

lemma set_same_state: "(x :: thread_t)\<lparr>thrd_st := thrd_st x\<rparr> = x"
  by (cases x) simp

text \<open>The loop passes the threads that wait in vain and returns the first ready one.\<close>

lemma next_loop_first:
  assumes "\<forall>x \<in> set pre. \<not> ready s x" "ready s t" "t \<notin> set pre"
    "signals_waiting (partitions s t) = 0 \<longrightarrow> thrd_st (threads q t) = THRD_STATE_RUNNABLE"
  shows "thrd_next_loop (pre @ t # post) q s =
    (let q1 = q\<lparr>threads := \<lambda>x. if x \<in> set pre then (threads q x)\<lparr>thrd_st := THRD_STATE_BLOCK\<rparr> else threads q x\<rparr>;
         v = query_state t (thrd_st (threads q t)) s
     in (Some t, upd_thrd t (\<lambda>x. if signals_waiting (partitions s t) = 0 then x
           else x\<lparr>thrd_st := THRD_STATE_RUNNABLE, ret_code := snd (fst v)\<rparr>) q1, snd v))"
  using assms
proof (induction pre arbitrary: q)
  case Nil
  obtain st v u where v: "query_state t (thrd_st (threads q t)) s = ((st, v), u)" by (metis surj_pair)
  have "st = (if signals_waiting (partitions s t) = 0 then thrd_st (threads q t) else THRD_STATE_RET_VAL_AVAIL)"
    by (rule query_ready(1)[OF Nil(2) v])
  moreover have e: "(threads q)(t := (threads q t)\<lparr>thrd_st := THRD_STATE_RUNNABLE\<rparr>) = threads q" if "signals_waiting (partitions s t) = 0"
    using that Nil(4) by (metis fun_upd_triv set_same_state)
  ultimately show ?case using Nil v by (cases "signals_waiting (partitions s t) = 0") (simp_all add: upd_thrd_def Let_def e)
next
  case (Cons p pre)
  let ?q = "upd_thrd p (\<lambda>x. x\<lparr>thrd_st := THRD_STATE_BLOCK\<rparr>) q"
  have "thrd_next_loop ((p # pre) @ t # post) q s = thrd_next_loop (pre @ t # post) ?q s"
    using Cons(2) by (simp add: query_not_ready Let_def upd_thrd_def)
  also have "\<dots> = (let q1 = ?q\<lparr>threads := \<lambda>x. if x \<in> set pre then (threads ?q x)\<lparr>thrd_st := THRD_STATE_BLOCK\<rparr> else threads ?q x\<rparr>;
         v = query_state t (thrd_st (threads ?q t)) s
     in (Some t, upd_thrd t (\<lambda>x. if signals_waiting (partitions s t) = 0 then x
           else x\<lparr>thrd_st := THRD_STATE_RUNNABLE, ret_code := snd (fst v)\<rparr>) q1, snd v))"
    using Cons(2-5) by (intro Cons(1)) (auto simp: upd_thrd_def)
  finally show ?case using Cons(4) by (auto simp: upd_thrd_def Let_def fun_eq_iff)
qed

text \<open>The thread chosen, the threads passed, and the invariant after the choice.\<close>

lemma thrd_next_choice:
  assumes inv: "sched_inv q s"
  shows "(case thrd_next q s of
      (None, q', s') \<Rightarrow> s' = s \<and> (\<forall>t \<in> set (p_thrd_head q). \<not> ready s t)
    | (Some t, q', s') \<Rightarrow> t \<in> set (p_thrd_head q) \<and> ready s t \<and> thrd_st (threads q' t) = THRD_STATE_RUNNABLE
        \<and> (\<forall>u \<in> set (p_thrd_head q). ready s u \<longrightarrow> thrd_prio q t \<le> thrd_prio q u)
        \<and> sched_inv q' s' \<and> s' = snd (query_state t (thrd_st (threads q t)) s)
        \<and> (signals_waiting (partitions s t) \<noteq> 0 \<longrightarrow> ret_code (threads q' t) = snd (fst (query_state t (thrd_st (threads q t)) s))))"
proof -
  let ?l = "p_thrd_head q"
  have e: "thrd_next q s = thrd_next_loop ?l q s" using inv by (simp add: thrd_next_def sched_inv_def from_head)
  show ?thesis
  proof (cases "\<exists>t \<in> set ?l. ready s t")
    case False
    then show ?thesis unfolding e using next_loop_none[of ?l s q] by auto
  next
    case True
    obtain pre t post where l: "?l = pre @ t # post" and r: "ready s t" "\<forall>x \<in> set pre. \<not> ready s x"
      using split_list_first_prop[OF True] by metis
    have st: "signals_waiting (partitions s t) = 0 \<longrightarrow> thrd_st (threads q t) = THRD_STATE_RUNNABLE" "t \<notin> set pre"
      using inv r unfolding sched_inv_def l by auto
    obtain q' s' where n: "thrd_next_loop ?l q s = (Some t, q', s')" and s': "s' = snd (query_state t (thrd_st (threads q t)) s)"
      and q': "q' = upd_thrd t (\<lambda>x. if signals_waiting (partitions s t) = 0 then x
           else x\<lparr>thrd_st := THRD_STATE_RUNNABLE, ret_code := snd (fst (query_state t (thrd_st (threads q t)) s))\<rparr>)
         (q\<lparr>threads := \<lambda>x. if x \<in> set pre then (threads q x)\<lparr>thrd_st := THRD_STATE_BLOCK\<rparr> else threads q x\<rparr>)"
      unfolding l next_loop_first[OF r(2,1) st(2,1)] Let_def by simp
    have f: "thrd_prio q' = thrd_prio q" "p_thrd_head q' = ?l" "p_rnbl_head q' = p_rnbl_head q"
      by (auto simp: q' upd_thrd_def thrd_prio_def fun_eq_iff)
    have best: "thrd_prio q t \<le> thrd_prio q u" if "u \<in> set ?l" "ready s u" for u
      using inv that r(2) unfolding sched_inv_def l by (auto simp: sorted_wrt_append)
    obtain v where v: "query_state t (thrd_st (threads q t)) s = (v, s')" using s' by (metis surjective_pairing)
    have pt: "partitions s' x = partitions s x" if "x \<noteq> t" for x
      using query_ready(3)[OF r(1), of _ "fst v" "snd v" s' x] v that by simp
    have "sched_inv q' s'"
      unfolding sched_inv_def f
    proof (intro conjI ballI)
      fix x assume x: "x \<in> set ?l"
      have old: "thrd_st (threads q x) = THRD_STATE_RUNNABLE \<or> thrd_st (threads q x) = THRD_STATE_BLOCK \<and> signals_waiting (partitions s x) \<noteq> 0"
        using inv x by (simp add: sched_inv_def)
      show "thrd_st (threads q' x) = THRD_STATE_RUNNABLE \<or> thrd_st (threads q' x) = THRD_STATE_BLOCK \<and> signals_waiting (partitions s' x) \<noteq> 0"
      proof (cases "x = t")
        case True
        then show ?thesis using st by (simp add: q' upd_thrd_def)
      next
        case False
        have "signals_waiting (partitions s x) \<noteq> 0" if "x \<in> set pre" using that r(2) by (auto simp: ready_def)
        then show ?thesis using old False by (auto simp: q' upd_thrd_def pt)
      qed
    qed (use inv in \<open>simp_all add: sched_inv_def\<close>)
    then show ?thesis
      unfolding e n using l r st best by (auto simp: q' s' upd_thrd_def)
  qed
qed

section \<open>Signals and the scheduler\<close>

text \<open>A partition that waits for a signal becomes ready when the signal is asserted.\<close>

lemma assert_signal_ready:
  assumes "backend_assert_signal (Some p) sg s = Some (st, t)" "signals_waiting (partitions s p) AND sg \<noteq> 0"
  shows "ready t p" "st = STATUS_NEED_SCHEDULE"
proof -
  have "signals_waiting (partitions s p) AND (signals_asserted (partitions s p) OR sg) \<noteq> 0"
    using assms(2) by (auto simp: bit.conj_disj_distrib or_eq_0_iff)
  then show "ready t p" "st = STATUS_NEED_SCHEDULE"
    using assms(1) by (auto simp: backend_assert_signal_def Let_def ready_def and.commute)
qed

text \<open>The value a client finds in its context after the reply.\<close>

lemma query_state_reply:
  assumes "signals_waiting (partitions s t) = ASYNC_MSG_REPLY" "signals_asserted (partitions s t) AND ASYNC_MSG_REPLY = ASYNC_MSG_REPLY"
    "signals_allowed (partitions s t) AND ASYNC_MSG_REPLY \<noteq> ASYNC_MSG_REPLY"
  shows "fst (query_state t st s) = (THRD_STATE_RET_VAL_AVAIL, word_of_int (part_reply_value (partitions s t)))"
    "signals_asserted (partitions (snd (query_state t st s)) t) AND ASYNC_MSG_REPLY = 0"
proof -
  have a: "ASYNC_MSG_REPLY AND signals_asserted (partitions s t) = ASYNC_MSG_REPLY" "ASYNC_MSG_REPLY \<noteq> 0"
    using assms(2) by (simp_all add: and.commute ASYNC_MSG_REPLY_def)
  show "fst (query_state t st s) = (THRD_STATE_RET_VAL_AVAIL, word_of_int (part_reply_value (partitions s t)))"
    "signals_asserted (partitions (snd (query_state t st s)) t) AND ASYNC_MSG_REPLY = 0"
    using assms a by (simp_all add: query_state_def Let_def and.assoc)
qed

text \<open>After the switch the partition of the chosen thread runs, within its own boundary.\<close>

lemma ipc_schedule_switch:
  assumes inv: "sched_inv q s" and run: "ipc_schedule se q s = Some ((cur, nxt), q', s')"
  shows "current s' = Some nxt" "ready s nxt" "nxt \<in> set (p_thrd_head q)" "sched_inv q' s'"
    "\<And>u. u \<in> set (p_thrd_head q) \<Longrightarrow> ready s u \<Longrightarrow> thrd_prio q nxt \<le> thrd_prio q u"
    "cur \<noteq> nxt \<Longrightarrow> boundary_need_switch se (boundary (partitions s' cur)) (boundary (partitions s' nxt)) \<Longrightarrow>
       activate_boundary se nxt (boundary (partitions s' nxt))"
proof -
  obtain s1 where n: "thrd_next q s = (Some nxt, q', s1)" and s': "s' = s1\<lparr>current := Some nxt\<rparr>"
    using run by (auto simp: ipc_schedule_def bind_eq_Some_conv split: prod.splits option.splits if_splits)
  have c: "nxt \<in> set (p_thrd_head q)" "ready s nxt" "sched_inv q' s1"
    "\<forall>u \<in> set (p_thrd_head q). ready s u \<longrightarrow> thrd_prio q nxt \<le> thrd_prio q u"
    using thrd_next_choice[OF inv] unfolding n by auto
  show "current s' = Some nxt" "ready s nxt" "nxt \<in> set (p_thrd_head q)" "sched_inv q' s'"
    "\<And>u. u \<in> set (p_thrd_head q) \<Longrightarrow> ready s u \<Longrightarrow> thrd_prio q nxt \<le> thrd_prio q u"
    using c by (auto simp: s' sched_inv_def)
  show "activate_boundary se nxt (boundary (partitions s' nxt))"
    if "cur \<noteq> nxt" "boundary_need_switch se (boundary (partitions s' cur)) (boundary (partitions s' nxt))"
    using run that by (auto simp: ipc_schedule_def n s' bind_eq_Some_conv split: if_splits)
qed

end
