(* ===== verification/SPM_Reply.thy ===== *)
theory SPM_Reply
  imports SPM_Thread
begin

text \<open>
  What a client finds after its request: the checks its vectors passed, the lengths written back
  into its output vectors, and the reply in its context.
\<close>

section \<open>Packed parameters\<close>

lemma param_pack_bit:
  "bit (PARAM_PACK ty i n) k \<longleftrightarrow> k < 32 \<and> (k < 16 \<and> bit ty k \<or> 24 \<le> k \<and> k < 27 \<and> bit i (k - 24) \<or> 16 \<le> k \<and> k < 19 \<and> bit n (k - 16))"
proof -
  have e: "(0xFFFF :: u32) = mask 16" "(7 :: u32) = mask 3" by (simp_all add: mask_eq_exp_minus_1)
  show ?thesis
    unfolding PARAM_PACK_def e
    by (auto simp: bit_or_iff bit_and_iff bit_push_bit_iff bit_mask_iff bit_word_of_int_iff bit_of_nat_iff)
qed

lemma param_pack_unpack:
  assumes "- (2 ^ 15) \<le> ty" "ty < 2 ^ 15" "i < 8" "n < 8"
  shows "PARAM_UNPACK_TYPE (PARAM_PACK ty i n) = ty" "PARAM_UNPACK_IN_LEN (PARAM_PACK ty i n) = i" "PARAM_UNPACK_OUT_LEN (PARAM_PACK ty i n) = n"
proof -
  have e: "(7 :: u32) = mask 3" by (simp add: mask_eq_exp_minus_1)
  have small: "k < 3" if "bit (x :: nat) k" "x < 8" for x k
  proof (rule ccontr)
    assume "\<not> k < 3"
    then have "(2 :: nat) ^ 3 \<le> 2 ^ k" by (intro power_increasing) auto
    then have "x < 2 ^ k" using that(2) by simp
    then show False using that(1) by (simp add: bit_iff_odd)
  qed
  have "ucast (PARAM_PACK ty i n) = (word_of_int ty :: 16 word)"
    by (rule bit_word_eqI) (auto simp: bit_ucast_iff param_pack_bit bit_word_of_int_iff)
  then show "PARAM_UNPACK_TYPE (PARAM_PACK ty i n) = ty"
    using assms(1,2) by (simp add: PARAM_UNPACK_TYPE_def sint_sbintrunc' signed_take_bit_int_eq_self)
  have "drop_bit 24 (PARAM_PACK ty i n AND push_bit 24 7) = word_of_nat i"
    unfolding e
    by (intro bit_word_eqI) (auto dest: small[OF _ assms(3)] simp: bit_drop_bit_eq bit_and_iff param_pack_bit bit_push_bit_iff bit_mask_iff bit_of_nat_iff not_le possible_bit_def)
  then show "PARAM_UNPACK_IN_LEN (PARAM_PACK ty i n) = i" using assms(3) by (simp add: PARAM_UNPACK_IN_LEN_def unat_of_nat_lt)
  have "drop_bit 16 (PARAM_PACK ty i n AND push_bit 16 7) = word_of_nat n"
    unfolding e
    by (intro bit_word_eqI) (auto dest: small[OF _ assms(4)] simp: bit_drop_bit_eq bit_and_iff param_pack_bit bit_push_bit_iff bit_mask_iff bit_of_nat_iff not_le possible_bit_def)
  then show "PARAM_UNPACK_OUT_LEN (PARAM_PACK ty i n) = n" using assms(4) by (simp add: PARAM_UNPACK_OUT_LEN_def unat_of_nat_lt)
qed

section \<open>Checks of the vectors\<close>

lemma associate_invecs_checked:
  "associate_invecs env b acc i vs c = (True, c') \<Longrightarrow> (base, len) \<in> set vs \<Longrightarrow> memory_check env b base len acc"
  by (induction env b acc i vs c rule: associate_invecs.induct) (auto split: if_splits)

lemma associate_outvecs_checked:
  "associate_outvecs env b acc i vs c = (True, c') \<Longrightarrow> (base, len) \<in> set vs \<Longrightarrow> memory_check env b base len acc"
  by (induction env b acc i vs c rule: associate_outvecs.induct) (auto split: if_splits)

definition in_access :: "u32 \<Rightarrow> u32" where
  "in_access ctrl = TFM_HAL_ACCESS_READABLE OR (if PARAM_IS_NS_VEC ctrl \<or> PARAM_IS_NS_INVEC ctrl then TFM_HAL_ACCESS_NS else 0)"

definition out_access :: "u32 \<Rightarrow> u32" where
  "out_access ctrl = TFM_HAL_ACCESS_READWRITE OR
     (if PARAM_IS_NS_VEC ctrl \<or> PARAM_IS_NS_INVEC ctrl \<and> PARAM_IS_NS_OUTVEC ctrl then TFM_HAL_ACCESS_NS else 0)"

lemma associate_checked:
  assumes run: "spm_associate_call_params env c ctrl inp outp s = Some (Inr u, t)" and io: "PARAM_HAS_IOVEC ctrl"
    and cur: "current s = Some cur"
  shows "\<forall>(base, len) \<in> set (read_vecs (ram s) inp (PARAM_UNPACK_IN_LEN ctrl)).
      memory_check env (boundary (partitions s cur)) base len (in_access ctrl)"
    "\<forall>(base, len) \<in> set (read_vecs (ram s) outp (PARAM_UNPACK_OUT_LEN ctrl)).
      memory_check env (boundary (partitions s cur)) base len (out_access ctrl)"
proof -
  let ?in = "read_vecs (ram s) inp (PARAM_UNPACK_IN_LEN ctrl)" and ?out = "read_vecs (ram s) outp (PARAM_UNPACK_OUT_LEN ctrl)"
  have nz: "TFM_HAL_ACCESS_NS \<noteq> 0" by (simp add: TFM_HAL_ACCESS_NS_def)
  have "(\<exists>c0 c1. associate_invecs env (boundary (partitions s cur)) (in_access ctrl) 0 ?in c0 = (True, c1))
    \<and> (\<exists>c1 c2. associate_outvecs env (boundary (partitions s cur)) (out_access ctrl) 0 ?out c1 = (True, c2))"
    using run io cur nz unfolding spm_associate_call_params_def in_access_def out_access_def
    by (auto simp: Let_def split: if_splits prod.splits)
  then show "\<forall>(base, len) \<in> set ?in. memory_check env (boundary (partitions s cur)) base len (in_access ctrl)"
    "\<forall>(base, len) \<in> set ?out. memory_check env (boundary (partitions s cur)) base len (out_access ctrl)"
    using associate_invecs_checked associate_outvecs_checked by blast+
qed

section \<open>Lengths of the output vectors\<close>

lemma mem_rd32_wr32 [simp]: "mem_rd32 (mem_wr32 m a w) a = w"
proof -
  have "mem_rd (mem_wr m a (le32 (unat w))) a (length (le32 (unat w))) = le32 (unat w)"
    by (rule mem_rd_wr_same) simp
  then have "mem_rd (mem_wr m a (le32 (unat w))) a 4 = le32 (unat w)" by simp
  then show ?thesis using unat_u32_lt[of w] by (simp add: mem_rd32_def mem_wr32_def)
qed

lemma mem_rd32_wr32_other: "mem_disjoint b 4 a 4 \<Longrightarrow> mem_rd32 (mem_wr32 m b w) a = mem_rd32 m a"
  unfolding mem_rd32_def mem_wr32_def by (subst mem_rd_wr_disjoint) simp_all

lemma len_fields_disjoint:
  assumes "i < 4" "j < 4" "i \<noteq> j"
  shows "mem_disjoint (a + word_of_nat (8 * i + 4)) 4 (a + word_of_nat (8 * j + 4)) 4"
  unfolding mem_disjoint_def
proof (intro allI notI)
  fix x assume h: "unat (x - (a + word_of_nat (8 * i + 4))) < 4 \<and> unat (x - (a + word_of_nat (8 * j + 4))) < 4"
  define d where "d = x - a"
  have e: "x - (a + word_of_nat (8 * k + 4)) = d - word_of_nat (8 * k + 4)" for k by (simp add: d_def)
  have u: "unat d = unat (d - word_of_nat (8 * k + 4)) + (8 * k + 4)"
    if "unat (d - word_of_nat (8 * k + 4)) < 4" "k < 4" for k
  proof -
    have uk: "unat (word_of_nat (8 * k + 4) :: u32) = 8 * k + 4" using that(2) by (intro unat_of_nat_lt) simp
    have "unat ((d - word_of_nat (8 * k + 4)) + word_of_nat (8 * k + 4)) = unat (d - word_of_nat (8 * k + 4)) + (8 * k + 4)"
      using that unat_add_lt[of "d - word_of_nat (8 * k + 4)" "word_of_nat (8 * k + 4)"] unfolding uk by simp
    then show ?thesis by simp
  qed
  show False using h u[of i] u[of j] assms unfolding e by linarith
qed

lemma outvec_len_loop_other:
  "i \<notin> set is \<Longrightarrow> i < 4 \<Longrightarrow> set is \<subseteq> {..<4} \<Longrightarrow>
   mem_rd32 (update_caller_outvec_len_loop is c m) (caller_outvec c + word_of_nat (8 * i + 4))
   = mem_rd32 m (caller_outvec c + word_of_nat (8 * i + 4))"
proof (induction "is" arbitrary: m)
  case (Cons j "is")
  have "mem_rd32 (mem_wr32 m (caller_outvec c + word_of_nat (8 * j + 4)) w) (caller_outvec c + word_of_nat (8 * i + 4))
      = mem_rd32 m (caller_outvec c + word_of_nat (8 * i + 4))" for w
    by (rule mem_rd32_wr32_other[OF len_fields_disjoint]) (use Cons(2-4) in auto)
  then show ?case using Cons by simp
qed simp

lemma outvec_len_loop:
  "i \<in> set is \<Longrightarrow> distinct is \<Longrightarrow> set is \<subseteq> {..<4} \<Longrightarrow> out_size (msg c) ! i \<noteq> 0 \<Longrightarrow>
   mem_rd32 (update_caller_outvec_len_loop is c m) (caller_outvec c + word_of_nat (8 * i + 4)) = outvec_written c ! i"
proof (induction "is" arbitrary: m)
  case (Cons j "is")
  show ?case
  proof (cases "i = j")
    case True
    then show ?thesis using Cons(3-5) outvec_len_loop_other[of i "is"] by (simp del: of_nat_add of_nat_mult)
  next
    case False
    then show ?thesis using Cons by (simp del: of_nat_add of_nat_mult)
  qed
qed simp

section \<open>Replies\<close>

text \<open>The reply to a request: without the memory-mapped vectors the state is the following one.\<close>

lemma psa_reply_request:
  assumes c: "spm_msg_handle_to_connection h s = Some c" "c \<noteq> 0" and i: "conn_service (conns s c) = Some i"
    and ty: "0 \<le> msg_type (msg (conns s c))" and act: "conn_status (conns s c) = TFM_HANDLE_STATUS_ACTIVE"
    and mm: "\<not> has_mm_iovec env" and cd: "client_data (conns s c) = 0"
    and st: "st \<noteq> psa_error_code PSA_ERROR_PROGRAMMER_ERROR" and cl: "p_client (conns s c) = Some cl"
    and w: "signals_waiting (partitions s cl) = ASYNC_MSG_REPLY" "signals_allowed (partitions s cl) AND ASYNC_MSG_REPLY \<noteq> ASYNC_MSG_REPLY"
  obtains t where "tfm_spm_partition_psa_reply env h st s = Some (STATUS_NEED_SCHEDULE, t)"
    "ready t cl" "fst (query_state cl x t) = (THRD_STATE_RET_VAL_AVAIL, word_of_int st)"
    "if SERVICE_IS_STATELESS (srv_flags (services s i)) then pool t = tfm_pool_free c (pool s)
     else pool t = pool s \<and> conn_status (conns t c) = TFM_HANDLE_STATUS_IDLE"
    "\<And>k. k < 4 \<Longrightarrow> out_size (msg (conns s c)) ! k \<noteq> 0 \<Longrightarrow>
        mem_rd32 (ram t) (caller_outvec (conns s c) + word_of_nat (8 * k + 4)) = outvec_written (conns s c) ! k"
proof -
  let ?sl = "SERVICE_IS_STATELESS (srv_flags (services s i))"
  define s1 where "s1 = (let u = update_caller_outvec_len c s in if ?sl then set_status c TFM_HANDLE_STATUS_TO_FREE u else u)"
  define s2 where "s2 = upd_part cl (\<lambda>p. p\<lparr>part_reply_value := st, signals_asserted := signals_asserted p OR ASYNC_MSG_REPLY\<rparr>) s1"
  define t where "t = (if ?sl then spm_free_connection c s2 else set_status c TFM_HANDLE_STATUS_IDLE s2)"
  have rv: "reply_value env h c (services s i) st s = Some (st, s1)"
    using ty mm by (simp add: reply_value_def Let_def s1_def spm_simps)
  have p1: "partitions s1 = partitions s" "pool s1 = pool s" by (auto simp: s1_def Let_def set_status_def update_caller_outvec_len_def)
  have c1: "client_data (conns s1 c) = 0" "p_client (conns s1 c) = Some cl"
    "conn_status (conns s1 c) = (if ?sl then TFM_HANDLE_STATUS_TO_FREE else TFM_HANDLE_STATUS_ACTIVE)"
    using cd cl act by (auto simp: s1_def Let_def set_status_def update_caller_outvec_len_def)
  have r1: "ram s1 = update_caller_outvec_len_loop [0..<PSA_MAX_IOVEC] (conns s c) (ram s)"
    by (simp add: s1_def Let_def set_status_def update_caller_outvec_len_def)
  have sg: "(signals_asserted p OR ASYNC_MSG_REPLY) AND ASYNC_MSG_REPLY \<noteq> 0" for p
    by (simp add: bit.conj_disj_distrib2 ASYNC_MSG_REPLY_def)
  have br: "backend_replying c st s1 = Some (STATUS_NEED_SCHEDULE, s2)"
    using c1 w(1) sg by (simp add: backend_replying_def tfm_spm_is_rpc_msg_def backend_assert_signal_def Let_def s2_def p1 upd_part_def)
  have run: "tfm_spm_partition_psa_reply env h st s = Some (STATUS_NEED_SCHEDULE, t)"
    using c i rv br st c1 by (simp add: tfm_spm_partition_psa_reply_def tfm_spm_is_rpc_msg_def s2_def t_def)
  have pt: "partitions t cl = (partitions s cl)\<lparr>part_reply_value := st, signals_asserted := signals_asserted (partitions s cl) OR ASYNC_MSG_REPLY\<rparr>"
    by (simp add: t_def spm_free_connection_def set_status_def s2_def p1)
  have q: "fst (query_state cl x t) = (THRD_STATE_RET_VAL_AVAIL, word_of_int st)"
    using query_state_reply(1)[of t cl x] w pt by (simp add: bit.conj_disj_distrib2)
  have "ready t cl" using w sg by (simp add: ready_def pt and.commute)
  moreover have "if ?sl then pool t = tfm_pool_free c (pool s) else pool t = pool s \<and> conn_status (conns t c) = TFM_HANDLE_STATUS_IDLE"
    by (simp add: t_def spm_free_connection_def set_status_def s2_def p1)
  moreover have "mem_rd32 (ram t) (caller_outvec (conns s c) + word_of_nat (8 * k + 4)) = outvec_written (conns s c) ! k"
    if "k < 4" "out_size (msg (conns s c)) ! k \<noteq> 0" for k
  proof -
    have "ram t = ram s1" by (simp add: t_def spm_free_connection_def set_status_def s2_def)
    then show ?thesis using outvec_len_loop[of k "[0..<4]" "conns s c" "ram s"] that r1 by (auto simp: PSA_MAX_IOVEC_def lessThan_atLeast0)
  qed
  ultimately show thesis using that[OF run] q by blast
qed

end
