(* ===== verification/SPM_Wit.thy ===== *)
theory SPM_Wit
  imports SPM_Reply
begin

text \<open>
  A small system for the concrete instances of the properties: a client partition, a partition with
  one stateless service, and a pool of two connections. The client calls the service with one input
  vector of three bytes and one output vector of two bytes.
\<close>

definition wit_pool :: tfm_pool_instance_t where
  "wit_pool = snd (tfm_pool_init \<lparr>pool_addr = 0x20000000, pool_next = [], chunksz = 0, pool_sz = 0, chunk_magic = (\<lambda>_. 0)\<rparr>
     228 100 2)"

definition wit_conn :: connection_t where
  "wit_conn = \<lparr>conn_status = TFM_HANDLE_STATUS_IDLE, p_client = None, conn_service = None, msg = zero_msg,
     invec_base = [0, 0, 0, 0], invec_accessed = [0, 0, 0, 0], outvec_base = [0, 0, 0, 0], outvec_written = [0, 0, 0, 0],
     caller_outvec = 0, client_data = 0, iovec_status = 0, conn_reply_value = 0\<rparr>"

definition wit_part :: "nat \<Rightarrow> partition_t" where
  "wit_part i = \<lparr>pid = 256 + int i, part_flags = 0, deps = [0x1000], boundary = 0, signals_allowed = 0x18,
     signals_waiting = 0, signals_asserted = 0, p_handles = [], part_reply_value = 0\<rparr>"

definition wit_service :: "nat \<Rightarrow> service_t" where
  "wit_service i = \<lparr>sid = 0x1000, srv_flags = 0x300, srv_version = 1, srv_signal = 0x10, srv_partition = Some 1\<rparr>"

text \<open>The input vector \<open>(0x1000, 3)\<close> at 0x100 and the output vector \<open>(0x2000, 2)\<close> at 0x200.\<close>

definition wit_ram :: memory where
  "wit_ram x = (if x = 0x101 then 0x10 else if x = 0x104 then 3 else if x = 0x201 then 0x20 else if x = 0x204 then 2
     else if x = 0x1000 then 7 else if x = 0x1001 then 8 else if x = 0x1002 then 9 else 0)"

definition wit_spm :: spm_state where
  "wit_spm = \<lparr>pool = wit_pool, conns = (\<lambda>_. wit_conn), loop_index = 0, partitions = wit_part, services = wit_service,
     services_listhead = [], stateless_services_ref_tbl = [Some 0], partition_listhead = [0, 1], current = Some 0, ram = wit_ram\<rparr>"

definition wit_env :: spm_env where
  "wit_env = \<lparr>memory_check = (\<lambda>_ _ _ _. True), nspm_client_id = -1, has_mm_iovec = False\<rparr>"

definition wit_handle :: u32 where "wit_handle = 0x40000100"

lemma wit_pool_eq:
  "wit_pool = \<lparr>pool_addr = 0x20000000, pool_next = [0x20000078, 0x2000000C], chunksz = 100, pool_sz = 228, chunk_magic = (\<lambda>_. 0)\<rparr>"
proof -
  have "chain_chunks 2 a c n = [a + SIZEOF_POOL_CHUNK + c, a] @ n" for a c n by (simp only: numeral_2_eq_2 chain_chunks.simps append.simps)
  then show ?thesis by (simp add: wit_pool_def tfm_pool_init_def pool_consts pool_chunks_def fun_eq_iff)
qed

lemma wit_pool_ok: "pool_ok wit_pool" and wit_pool_live: "pool_live wit_pool = {}"
proof -
  obtain q where q: "tfm_pool_init \<lparr>pool_addr = 0x20000000, pool_next = [], chunksz = 0, pool_sz = 0, chunk_magic = (\<lambda>_. 0)\<rparr> 228 100 2 = (PSA_SUCCESS, q)"
    "pool_ok q" "pool_live q = {}"
    using pool_init_ok[of "\<lparr>pool_addr = 0x20000000, pool_next = [], chunksz = 0, pool_sz = 0, chunk_magic = (\<lambda>_. 0)\<rparr>" 2 100 228]
    by (auto simp: pool_consts)
  then show "pool_ok wit_pool" "pool_live wit_pool = {}" by (simp_all add: wit_pool_def)
qed

lemma wit_inv: "spm_inv wit_spm"
proof -
  note wit_pool_ok wit_pool_live
  moreover have "tail_clean wit_pool" by (simp add: tail_clean_def wit_pool_eq pool_consts)
  moreover have "conn_ok wit_conn" by (simp add: conn_ok_def conn_wf_def iov_ok_def wit_conn_def zero_msg_def PSA_MAX_IOVEC_def)
  ultimately show ?thesis
    by (simp add: spm_inv_def wit_spm_def wit_service_def queue_ok_def wit_part_def)
qed


section \<open>The call\<close>

lemma wit_sel [simp]:
  "pool wit_spm = wit_pool" "conns wit_spm = (\<lambda>_. wit_conn)" "loop_index wit_spm = 0" "partitions wit_spm = wit_part"
  "services wit_spm = wit_service" "stateless_services_ref_tbl wit_spm = [Some 0]" "current wit_spm = Some 0" "ram wit_spm = wit_ram"
  by (simp_all add: wit_spm_def)

lemma wit_part_sel [simp]:
  "pid (wit_part i) = 256 + int i" "part_flags (wit_part i) = 0" "deps (wit_part i) = [0x1000]" "boundary (wit_part i) = 0"
  "signals_allowed (wit_part i) = 0x18" "signals_waiting (wit_part i) = 0" "signals_asserted (wit_part i) = 0" "p_handles (wit_part i) = []"
  "sid (wit_service j) = 0x1000" "srv_flags (wit_service j) = 0x300" "srv_version (wit_service j) = 1" "srv_signal (wit_service j) = 0x10"
  "srv_partition (wit_service j) = Some 1" "memory_check wit_env a b c d" "\<not> has_mm_iovec wit_env"
  by (simp_all add: wit_part_def wit_service_def wit_env_def)

definition wit_c1 :: connection_t where
  "wit_c1 = wit_conn\<lparr>conn_service := Some 0, p_client := Some 0, msg := zero_msg\<lparr>client_id := 256, msg_handle := 0x402\<rparr>\<rparr>"

definition wit_s1 :: spm_state where
  "wit_s1 = wit_spm\<lparr>pool := wit_pool\<lparr>pool_next := [0x2000000C], chunk_magic := (\<lambda>_. 0)(0x20000078 := POOL_MAGIC_ALLOCATED)\<rparr>,
     loop_index := 1, conns := (\<lambda>_. wit_conn)(0x20000080 := wit_c1)\<rparr>"

lemma wit_alloc: "spm_allocate_connection wit_spm = (0x20000080, wit_spm\<lparr>pool := wit_pool\<lparr>pool_next := [0x2000000C],
    chunk_magic := (\<lambda>_. 0)(0x20000078 := POOL_MAGIC_ALLOCATED)\<rparr>\<rparr>)"
  by (simp add: spm_allocate_connection_def tfm_pool_alloc_def wit_pool_eq pool_consts)

lemma wit_init: "spm_init_idle_connection wit_env 0x20000080 0 256 (wit_spm\<lparr>pool := wit_pool\<lparr>pool_next := [0x2000000C],
    chunk_magic := (\<lambda>_. 0)(0x20000078 := POOL_MAGIC_ALLOCATED)\<rparr>\<rparr>) = wit_s1"
  by (simp add: spm_init_idle_connection_def connection_to_handle_def wit_s1_def wit_c1_def upd_conn_def wit_pool_eq spm_simps wit_conn_def)

lemma wit_handle_eq [simp]:
  "GET_INDEX_FROM_STATIC_HANDLE wit_handle = 0" "GET_VERSION_FROM_STATIC_HANDLE wit_handle = 1" "IS_STATIC_HANDLE wit_handle" "wit_handle \<noteq> 0"
  by (simp_all add: wit_handle_def GET_INDEX_FROM_STATIC_HANDLE_def GET_VERSION_FROM_STATIC_HANDLE_def IS_STATIC_HANDLE_def mask_eq_exp_minus_1)

lemma wit_get_idle: "spm_get_idle_connection wit_env wit_handle 256 wit_spm = Some (Inr 0x20000080, wit_s1)"
  by (simp add: spm_get_idle_connection_def tfm_spm_is_ns_caller_def IS_NS_AGENT_def
      tfm_spm_check_authorization_def spm_simps tfm_spm_check_client_version_def
      SERVICE_VERSION_POLICY_STRICT_def wit_alloc wit_init)

definition wit_ctrl :: u32 where "wit_ctrl = PARAM_PACK 0 1 1"

lemma wit_ctrl_eq [simp]:
  "PARAM_UNPACK_TYPE wit_ctrl = 0" "PARAM_UNPACK_IN_LEN wit_ctrl = Suc 0" "PARAM_UNPACK_OUT_LEN wit_ctrl = Suc 0" "PARAM_HAS_IOVEC wit_ctrl"
  "\<not> PARAM_IS_NS_VEC wit_ctrl" "\<not> PARAM_IS_NS_INVEC wit_ctrl" "\<not> PARAM_IS_NS_OUTVEC wit_ctrl"
  by code_simp+

lemma mem_rd_4: "mem_rd m a 4 = [m a, m (a + 1), m (a + 2), m (a + 3)]"
  by (simp add: mem_rd_def upt_rec)

lemma wit_vecs [simp]: "read_vecs wit_ram 0x100 (Suc 0) = [(0x1000, 3)]" "read_vecs wit_ram 0x200 (Suc 0) = [(0x2000, 2)]"
  by (simp_all add: read_vecs_def mem_rd32_def mem_rd_4 wit_ram_def de32_def)

lemma replicate_4: "replicate 4 x = [x, x, x, x]"
  by (simp add: numeral_eq_Suc)

definition wit_c2 :: connection_t where
  "wit_c2 = wit_c1\<lparr>msg := (msg wit_c1)\<lparr>in_size := [3, 0, 0, 0], out_size := [2, 0, 0, 0]\<rparr>,
     invec_base := [0x1000, 0, 0, 0], outvec_base := [0x2000, 0, 0, 0], caller_outvec := 0x200\<rparr>"

lemma wit_assoc: "spm_associate_call_params wit_env 0x20000080 wit_ctrl 0x100 0x200 wit_s1 = Some (Inr (), upd_conn 0x20000080 (\<lambda>_. wit_c2) wit_s1)"
  by (simp add: spm_associate_call_params_def Let_def wit_s1_def upd_conn_def wit_c2_def wit_c1_def wit_conn_def zero_msg_def PSA_MAX_IOVEC_def replicate_4)

definition wit_called :: spm_state where
  "wit_called = wit_s1\<lparr>conns := (\<lambda>_. wit_conn)(0x20000080 := wit_c2\<lparr>conn_status := TFM_HANDLE_STATUS_ACTIVE\<rparr>),
     partitions := wit_part(1 := (wit_part 1)\<lparr>p_handles := [0x20000080], signals_asserted := 0x10\<rparr>,
       0 := (wit_part 0)\<lparr>signals_waiting := ASYNC_MSG_REPLY\<rparr>)\<rparr>"

lemma wit_messaging: "backend_messaging 0x20000080 (upd_conn 0x20000080 (\<lambda>_. wit_c2) wit_s1) = Some (STATUS_NEED_SCHEDULE, wit_called)"
  by (simp add: backend_messaging_def wit_c2_def wit_c1_def wit_s1_def Let_def backend_assert_signal_def backend_wait_signals_def
      tfm_spm_is_rpc_msg_def wit_conn_def wit_called_def upd_conn_def upd_part_def)

lemma wit_call: "tfm_spm_client_psa_call wit_env wit_handle wit_ctrl 0x100 0x200 wit_spm = Some (STATUS_NEED_SCHEDULE, wit_called)"
  by (simp add: tfm_spm_client_psa_call_def tfm_spm_is_ns_caller_def IS_NS_AGENT_def tfm_spm_get_client_id_def Let_def
      tfm_spm_partition_get_running_partition_id_def wit_get_idle wit_assoc wit_messaging)

lemma wit_called_inv: "spm_inv wit_called"
  by (rule psa_call_ok(1)[OF wit_inv wit_call])

section \<open>The service\<close>

text \<open>The service's partition is scheduled and takes the message.\<close>

definition wit_srv :: spm_state where
  "wit_srv = wit_called\<lparr>current := Some 1\<rparr>"

definition wit_got :: spm_state where
  "wit_got = wit_srv\<lparr>partitions := (partitions wit_srv)(1 := wit_part 1)\<rparr>"

lemma wit_called_sel [simp]:
  "pool wit_called = pool wit_s1" "conns wit_called = (\<lambda>_. wit_conn)(0x20000080 := wit_c2\<lparr>conn_status := TFM_HANDLE_STATUS_ACTIVE\<rparr>)"
  "services wit_called = wit_service" "ram wit_called = wit_ram" "current wit_called = Some 0"
  "partitions wit_called = wit_part(1 := (wit_part 1)\<lparr>p_handles := [0x20000080], signals_asserted := 0x10\<rparr>,
       0 := (wit_part 0)\<lparr>signals_waiting := ASYNC_MSG_REPLY\<rparr>)"
  by (simp_all add: wit_called_def wit_s1_def)

lemma wit_c2_sel [simp]:
  "conn_service wit_c2 = Some 0" "p_client wit_c2 = Some 0" "client_data wit_c2 = 0" "client_id (msg wit_c2) = 256"
  "msg_type (msg wit_c2) = 0" "in_size (msg wit_c2) = [3, 0, 0, 0]" "out_size (msg wit_c2) = [2, 0, 0, 0]"
  "invec_base wit_c2 = [0x1000, 0, 0, 0]" "outvec_base wit_c2 = [0x2000, 0, 0, 0]" "caller_outvec wit_c2 = 0x200"
  "invec_accessed wit_c2 = [0, 0, 0, 0]" "outvec_written wit_c2 = [0, 0, 0, 0]" "conn_service wit_conn = None"
  by (simp_all add: wit_c2_def wit_c1_def wit_conn_def zero_msg_def)

lemma wit_get: "tfm_spm_partition_psa_get wit_env 0x10 0x3000 wit_srv = Some ((PSA_SUCCESS, Some (msg wit_c2)), wit_got)"
  by (simp add: tfm_spm_partition_psa_get_def IS_ONLY_ONE_BIT_IN_UINT32_def Let_def wit_srv_def wit_got_def ASYNC_MSG_REPLY_def
      spm_get_handle_by_signal_def upd_part_def wit_part_def)

lemma wit_srv_run: "spm_run wit_env wit_spm wit_srv"
  unfolding wit_srv_def by (intro spm_schedule spm_call[OF spm_start wit_call])

lemma wit_got_run: "spm_run wit_env wit_spm wit_got"
  by (rule spm_get[OF wit_srv_run wit_get])

lemma wit_got_inv: "spm_inv wit_got"
  by (rule spm_run_inv[OF wit_got_run wit_inv])

definition wit_msg :: u32 where "wit_msg = 0x402"

lemma wit_s1_pool: "pool wit_s1 = wit_pool\<lparr>pool_next := [0x2000000C], chunk_magic := (\<lambda>_. 0)(0x20000078 := POOL_MAGIC_ALLOCATED)\<rparr>"
  by (simp add: wit_s1_def)

lemma wit_got_sel [simp]:
  "pool wit_got = pool wit_s1" "conns wit_got = conns wit_called" "services wit_got = wit_service" "ram wit_got = wit_ram"
  "current wit_got = Some 1" "partitions wit_got = wit_part(0 := (wit_part 0)\<lparr>signals_waiting := ASYNC_MSG_REPLY\<rparr>)"
  by (auto simp: wit_got_def wit_srv_def fun_eq_iff)

lemma wit_to_conn: "handle_to_connection wit_msg wit_got = 0x20000080"
  by (simp add: handle_to_connection_def wit_msg_def wit_s1_pool wit_pool_eq spm_simps)

lemma wit_msg_conn: "spm_msg_handle_to_connection wit_msg wit_got = Some 0x20000080"
  by (simp add: spm_msg_handle_to_connection_def wit_to_conn Let_def spm_validate_connection_def is_valid_chunk_data_in_pool_def
      wit_s1_pool wit_pool_eq pool_chunks_def pool_consts spm_simps tfm_spm_partition_get_running_partition_id_def)

lemma wit_request: "request_connection wit_msg wit_got = Some 0x20000080"
  by (simp add: request_connection_def wit_msg_conn spm_simps)

lemma wit_conn_ok: "conn_wf (conns wit_got 0x20000080)" "iov_ok (conns wit_got 0x20000080)"
  using wit_got_inv unfolding spm_inv_def conn_ok_def by blast+

end
