(* ===== verification/SPM_Properties.thy ===== *)
theory SPM_Properties
  imports SPM_Wit
begin

text \<open>
  The properties of the Secure Partition Manager, each with a witness in a system of two
  partitions, one service and two connections.
\<close>

section \<open>Runs\<close>

text \<open>
  C2. The manager's invariant is kept by every run of calls of secure clients and of partitions, in which a
  partition replies only to messages that were delivered to it: whatever these calls are, in any order and with any
  result, and whatever the scheduler and the memory do in between, the pool is sound, a connection handed out has
  a service, the counters of the vectors stay within them, and each partition's queue holds live, active
  connections of its own services, each at most once. The calls of the mailbox agent are not among the calls of
  these runs. The invariant includes that the word behind the pool is not the mark of an allocated chunk.
\<close>

theorem spm_run_keeps_inv:
  assumes "spm_inv s" "spm_run env s t"
  shows "spm_inv t"
  using spm_run_inv[OF assms(2,1)] .

theorem spm_run_keeps_inv_witness: "spm_inv wit_spm \<and> spm_run wit_env wit_spm wit_got \<and> spm_inv wit_got"
  using wit_inv wit_got_run spm_run_keeps_inv[OF wit_inv wit_got_run] by simp

text \<open>
  The condition on replies is needed, and the code does not check it: in the run of the witnesses the service
  replies to the queued message instead of fetching it. The reply is accepted, and the queue of the service then
  holds a connection that is back in the pool.
\<close>

lemma psa_reply_before_get:
  "\<exists>t. tfm_spm_partition_psa_reply wit_env wit_msg 0 wit_srv = Some (STATUS_NEED_SCHEDULE, t) \<and> spm_inv wit_srv \<and> \<not> spm_inv t"
proof -
  have inv: "spm_inv wit_srv" by (rule spm_run_inv[OF wit_srv_run wit_inv])
  have p: "pool wit_srv = pool wit_got" "conns wit_srv = conns wit_got" "services wit_srv = services wit_got"
    "current wit_srv = current wit_got" by (simp_all add: wit_srv_def)
  have c: "handle_to_connection wit_msg wit_srv = 0x20000080" using wit_to_conn by (simp only: handle_to_connection_def p(1))
  have m: "spm_msg_handle_to_connection wit_msg wit_srv = Some 0x20000080"
    using wit_msg_conn unfolding spm_msg_handle_to_connection_def c wit_to_conn Let_def spm_validate_connection_def p(1,2)
    by (simp add: tfm_spm_partition_get_running_partition_id_def wit_srv_def split: if_splits)
  obtain t where t: "tfm_spm_partition_psa_reply wit_env wit_msg 0 wit_srv = Some (STATUS_NEED_SCHEDULE, t)"
    by (rule psa_reply_request[OF m, of 0 wit_env 0 0 THRD_STATE_BLOCK]) (simp_all add: wit_srv_def ASYNC_MSG_REPLY_def)
  have "queued (handle_to_connection wit_msg wit_srv) wit_srv" unfolding c by (auto simp: queued_def wit_srv_def intro!: exI[of _ 1])
  then show ?thesis using t inv psa_reply_queued_breaks[OF inv _ t] by blast
qed

section \<open>Messages\<close>

text \<open>
  C20. Messages are delivered in order and none is lost or duplicated: for every sequence of requests
  sent (backend_messaging) and messages fetched (spm_get_handle_by_signal), for every partition and
  signal, the messages delivered followed by those still queued are the messages that were queued
  before followed by those sent.
\<close>

theorem spm_messages_in_order:
  assumes "spm_inv s" "queue_run spm_post spm_take ops s = Some (tr, t)"
  shows "delivered (Some p, sg) tr @ spm_pending t (Some p, sg)
    = spm_pending s (Some p, sg) @ posted (msg_key s) (Some p, sg) ops"
  by (rule spmq.in_order[OF assms])

lemma wit_pending: "spm_pending wit_srv (Some 1, 0x10) = [0x20000080]"
  by (simp add: spm_pending_def wit_srv_def msg_key_def)

lemma wit_take: "spm_take (Some 1, 0x10) wit_srv = Some (Some 0x20000080, wit_got)"
  by (simp add: spm_take_def spm_get_handle_by_signal_def wit_srv_def wit_got_def upd_part_def wit_part_def)

lemma wit_srv_inv: "spm_inv wit_srv"
  by (rule spm_run_inv[OF wit_srv_run wit_inv])

theorem spm_messages_in_order_witness:
  "queue_run spm_post spm_take [Take (Some 1, 0x10)] wit_srv = Some ([((Some 1, 0x10), 0x20000080)], wit_got)
   \<and> delivered (Some (1 :: nat), 0x10 :: u32) [((Some 1, 0x10), 0x20000080)] @ spm_pending wit_got (Some 1, 0x10) = [0x20000080]"
proof -
  have r: "queue_run spm_post spm_take [Take (Some 1, 0x10)] wit_srv = Some ([((Some 1, 0x10), 0x20000080)], wit_got)"
    by (simp add: wit_take[simplified])
  show ?thesis using r spm_messages_in_order[OF wit_srv_inv r, of 1 "0x10"] by (simp add: wit_pending[simplified])
qed

text \<open>
  psa_get delivers the oldest message: when the queue of the signal is not empty, the signal is
  asserted and the buffer is accessible, the result is the message of the oldest connection; it leaves
  the queue, and the signal is cleared exactly when it was the last one.
\<close>

theorem psa_get_delivers_oldest:
  assumes inv: "spm_inv s" and cur: "current s = Some p" and pend: "spm_pending s (Some p, sg) = c # cs"
    and sg: "IS_ONLY_ONE_BIT_IN_UINT32 sg" "sg \<noteq> ASYNC_MSG_REPLY" "signals_asserted (partitions s p) AND sg \<noteq> 0"
    and acc: "memory_check env (boundary (partitions s p)) mp 48 TFM_HAL_ACCESS_READWRITE"
  shows "\<exists>t. tfm_spm_partition_psa_get env sg mp s = Some ((PSA_SUCCESS, Some (msg (conns s c))), t)
    \<and> spm_pending t (Some p, sg) = cs
    \<and> signals_asserted (partitions t p) = (if cs = [] then signals_asserted (partitions s p) AND NOT sg else signals_asserted (partitions s p))"
proof -
  let ?t = "upd_part p (\<lambda>q. q\<lparr>p_handles := filter (\<lambda>y. y \<noteq> c) (p_handles q),
          signals_asserted := (if cs = [] then signals_asserted q AND NOT sg else signals_asserted q)\<rparr>) s"
  have "signals_asserted (partitions s p) \<noteq> 0" using sg(3) by auto
  then have "tfm_spm_partition_psa_get env sg mp s = Some ((PSA_SUCCESS, Some (msg (conns s c))), ?t)"
    using cur sg acc pend by (simp add: tfm_spm_partition_psa_get_def Let_def get_by_signal_eq[OF inv])
  then show ?thesis using pending_take[OF inv pend refl, of _ "(Some p, sg)"] by simp
qed

theorem psa_get_delivers_oldest_witness:
  "\<exists>t. tfm_spm_partition_psa_get wit_env 0x10 0x3000 wit_srv = Some ((PSA_SUCCESS, Some (msg wit_c2)), t)
    \<and> spm_pending t (Some 1, 0x10) = [] \<and> signals_asserted (partitions t 1) = 0"
  using psa_get_delivers_oldest[OF wit_srv_inv _ wit_pending, of wit_env "0x3000"]
  by (simp add: wit_srv_def IS_ONLY_ONE_BIT_IN_UINT32_def ASYNC_MSG_REPLY_def)

section \<open>Requests\<close>

text \<open>
  C28. A call that is rejected leaves no connection behind: when psa_call returns any status other than
  success or a pending schedule, the connections in use are the same as before the call, and the
  invariant holds.
\<close>

theorem psa_call_rejected_keeps_pool:
  assumes "spm_inv s" "tfm_spm_client_psa_call env h ctrl inp outp s = Some (st, t)"
    "st \<notin> {PSA_SUCCESS, STATUS_NEED_SCHEDULE}"
  shows "pool_live (pool t) = pool_live (pool s) \<and> spm_inv t"
  using psa_call_ok[OF assms(1,2)] assms(3) by blast

theorem psa_call_rejected_keeps_pool_witness:
  "\<exists>t. tfm_spm_client_psa_call wit_env wit_handle 0x8000 0x100 0x200 wit_spm = Some (-129, t) \<and> pool_live (pool t) = pool_live (pool wit_spm)"
proof -
  have "PARAM_UNPACK_TYPE 0x8000 = -32768" by code_simp
  then obtain t where t: "tfm_spm_client_psa_call wit_env wit_handle 0x8000 0x100 0x200 wit_spm = Some (-129, t)"
    by (simp add: tfm_spm_client_psa_call_def tfm_spm_is_ns_caller_def IS_NS_AGENT_def tfm_spm_get_client_id_def Let_def
      tfm_spm_partition_get_running_partition_id_def wit_get_idle spm_associate_call_params_def)
  show ?thesis using t psa_call_rejected_keeps_pool[OF wit_inv t] by (simp add: spm_simps)
qed

text \<open>
  C31. A client reaches only its own connections: the connection found for a handle is allocated, idle,
  in no queue and belongs to the calling client; for a static handle it is a fresh one, for any
  other handle the state does not change.
\<close>

theorem spm_get_idle_connection_own:
  assumes "spm_inv s" "spm_get_idle_connection env h cid s = Some (Inr c, t)"
  shows "c \<in> pool_live (pool t) \<and> conn_status (conns t c) = TFM_HANDLE_STATUS_IDLE \<and> client_id (msg (conns t c)) = cid
    \<and> \<not> queued c t \<and> (if IS_STATIC_HANDLE h then c \<notin> pool_live (pool s) else t = s)"
  using get_idle_connection_ok(6)[OF assms] by (auto simp: granted_def)

theorem spm_get_idle_connection_own_witness:
  "spm_get_idle_connection wit_env wit_handle 256 wit_spm = Some (Inr 0x20000080, wit_s1)
   \<and> client_id (msg (conns wit_s1 0x20000080)) = 256 \<and> 0x20000080 \<notin> pool_live (pool wit_spm)"
  using wit_get_idle spm_get_idle_connection_own[OF wit_inv wit_get_idle] by simp

text \<open>
  C32. Every vector of an accepted call was checked: each input vector is readable and each output
  vector readable and writable for the caller's boundary; when the control word marks the
  vector array as non-secure, with the non-secure attribute. (The mark for non-secure output vectors
  counts only together with the one for input vectors.)
\<close>

theorem psa_call_vectors_checked:
  assumes "spm_associate_call_params env c ctrl inp outp s = Some (Inr (), t)" "PARAM_HAS_IOVEC ctrl" "current s = Some cur"
  shows "(\<forall>(base, len) \<in> set (read_vecs (ram s) inp (PARAM_UNPACK_IN_LEN ctrl)).
      memory_check env (boundary (partitions s cur)) base len (in_access ctrl))
    \<and> (\<forall>(base, len) \<in> set (read_vecs (ram s) outp (PARAM_UNPACK_OUT_LEN ctrl)).
      memory_check env (boundary (partitions s cur)) base len (out_access ctrl))"
  using associate_checked[OF assms] by blast

theorem psa_call_vectors_checked_witness: "memory_check wit_env 0 0x1000 3 TFM_HAL_ACCESS_READABLE \<and> memory_check wit_env 0 0x2000 2 TFM_HAL_ACCESS_READWRITE"
proof -
  have s1: "current wit_s1 = Some 0" "partitions wit_s1 = wit_part" "ram wit_s1 = wit_ram" by (simp_all add: wit_s1_def)
  show ?thesis
    using psa_call_vectors_checked[OF wit_assoc _ s1(1)] by (simp add: s1 in_access_def out_access_def)
qed

text \<open>
  C34. A call without vectors does not clear the vectors of the request before: on a connection that
  is used again, the sizes in the message the service gets are those of the earlier request.
\<close>

theorem psa_call_without_vectors_keeps_sizes:
  assumes "\<not> PARAM_HAS_IOVEC ctrl" "0 \<le> PARAM_UNPACK_TYPE ctrl"
  shows "\<exists>t. spm_associate_call_params env c ctrl inp outp s = Some (Inr (), t)
    \<and> in_size (msg (conns t c)) = in_size (msg (conns s c)) \<and> out_size (msg (conns t c)) = out_size (msg (conns s c))
    \<and> invec_base (conns t c) = invec_base (conns s c) \<and> outvec_base (conns t c) = outvec_base (conns s c)"
  using assms by (simp add: spm_associate_call_params_def Let_def)

theorem psa_call_without_vectors_keeps_sizes_witness:
  "\<exists>t. spm_associate_call_params wit_env 0x20000080 5 0 0 wit_got = Some (Inr (), t) \<and> in_size (msg (conns t 0x20000080)) = [3, 0, 0, 0]"
proof -
  have "\<not> PARAM_HAS_IOVEC 5" "0 \<le> PARAM_UNPACK_TYPE 5" by code_simp+
  then show ?thesis using psa_call_without_vectors_keeps_sizes[of 5 wit_env "0x20000080" 0 0 wit_got] by auto
qed

text \<open>
  The control word of psa_call: type, number of input and number of output vectors come back
  unchanged for every type of 16 bits and fewer than eight vectors of each kind.
\<close>

theorem param_pack_roundtrip:
  assumes "- (2 ^ 15) \<le> ty" "ty < 2 ^ 15" "i < 8" "n < 8"
  shows "PARAM_UNPACK_TYPE (PARAM_PACK ty i n) = ty \<and> PARAM_UNPACK_IN_LEN (PARAM_PACK ty i n) = i
    \<and> PARAM_UNPACK_OUT_LEN (PARAM_PACK ty i n) = n"
  using param_pack_unpack[OF assms] by blast

theorem param_pack_roundtrip_witness:
  "PARAM_UNPACK_TYPE (PARAM_PACK (- 5) 2 1) = - 5 \<and> PARAM_UNPACK_IN_LEN (PARAM_PACK (- 5) 2 1) = 2 \<and> PARAM_UNPACK_OUT_LEN (PARAM_PACK (- 5) 2 1) = 1"
  using param_pack_roundtrip[of "- 5" 2 1] by simp

section \<open>Vectors\<close>

text \<open>
  C27. psa_read copies the next bytes of the input vector: as many as asked for or as are left, in
  order, into the buffer of the service and nowhere else, and the rest of the vector remains to be
  read. The buffer may not overlap the vector.
\<close>

theorem psa_read_next_bytes:
  assumes "request_connection h s = Some c" "i < 4" "conn_wf (conns s c)" "iov_ok (conns s c)"
    "unmapped env (conns s c) i" "invec_rest s c i \<noteq> []"
    "current s = Some cur" "memory_check env (boundary (partitions s cur)) buffer n TFM_HAL_ACCESS_READWRITE"
    "mem_disjoint buffer (unat n) (invec_base (conns s c) ! i) (unat (in_size (msg (conns s c)) ! i))"
  shows "\<exists>r t. tfm_spm_partition_psa_read env h i buffer n s = Some (r, t)
    \<and> unat r = min (unat n) (length (invec_rest s c i))
    \<and> mem_rd (ram t) buffer (unat r) = take (unat n) (invec_rest s c i)
    \<and> invec_rest t c i = drop (unat n) (invec_rest s c i)
    \<and> (\<forall>x. unat r \<le> unat (x - buffer) \<longrightarrow> ram t x = ram s x)"
  by (rule psa_read_refines[OF assms]) blast

lemma mem_disjoint_sep:
  assumes "unat a + n \<le> unat b" "unat b + k \<le> 2 ^ 32"
  shows "mem_disjoint a n b k"
  unfolding mem_disjoint_def
proof (intro allI notI)
  fix x assume h: "unat (x - a) < n \<and> unat (x - b) < k"
  have 1: "unat x = unat (x - a) + unat a" using h assms unat_add_lt[of "x - a" a] unat_u32_lt[of b] by simp
  have 2: "unat x = unat (x - b) + unat b" using h assms unat_add_lt[of "x - b" b] by simp
  show False using 1 2 h assms by linarith
qed

lemma wit_data: "invec_rest wit_got 0x20000080 0 = [7, 8, 9]"
  by (simp add: invec_rest_def invec_data_def mem_rd_def upt_rec wit_ram_def)

theorem psa_read_next_bytes_witness:
  "\<exists>r t. tfm_spm_partition_psa_read wit_env wit_msg 0 0x500 2 wit_got = Some (r, t)
     \<and> mem_rd (ram t) 0x500 (unat r) = [7, 8] \<and> invec_rest t 0x20000080 0 = [9]"
proof -
  have "mem_disjoint 0x500 (unat (2 :: u32)) (invec_base (conns wit_got 0x20000080) ! 0) (unat (in_size (msg (conns wit_got 0x20000080)) ! 0))"
    by (rule mem_disjoint_sep) simp_all
  then show ?thesis
    using psa_read_next_bytes[OF wit_request _ wit_conn_ok, of 0 wit_env 1 "0x500" 2] wit_data by (auto simp: unmapped_def)
qed

text \<open>
  C26. psa_write appends to the output vector and stays in it. A write of a readable buffer that fits in what is
  left of the vector succeeds, the bytes written so far are extended by the new ones, and no byte outside the
  client's vector changes; every other write panics.
\<close>

theorem psa_write_appends:
  assumes "request_connection h s = Some c" "i < 4" "conn_wf (conns s c)" "unmapped env (conns s c) (i + 4)"
    "current s = Some cur" "outvec_written (conns s c) ! i \<le> out_size (msg (conns s c)) ! i"
  shows "if memory_check env (boundary (partitions s cur)) buffer n TFM_HAL_ACCESS_READABLE
      \<and> unat (outvec_written (conns s c) ! i) + unat n \<le> unat (out_size (msg (conns s c)) ! i)
    then \<exists>t. tfm_spm_partition_psa_write env h i buffer n s = Some (PSA_SUCCESS, t)
      \<and> outvec_done t c i = outvec_done s c i @ mem_rd (ram s) buffer (unat n)
      \<and> (\<forall>x. unat (out_size (msg (conns s c)) ! i) \<le> unat (x - outvec_base (conns s c) ! i) \<longrightarrow> ram t x = ram s x)
    else tfm_spm_partition_psa_write env h i buffer n s = None"
  using psa_write_refines[OF assms(1-5) _ assms(6), of buffer n] psa_write_overflow_panics[OF assms(1,2,6), of n env buffer]
    psa_write_unreadable_panics[OF assms(1,2,4,5), of buffer n] by (auto simp: not_le)

theorem psa_write_appends_witness:
  "(\<exists>t. tfm_spm_partition_psa_write wit_env wit_msg 0 0x1001 2 wit_got = Some (PSA_SUCCESS, t)
     \<and> outvec_done t 0x20000080 0 = [8, 9])
   \<and> tfm_spm_partition_psa_write wit_env wit_msg 0 0x1000 3 wit_got = None"
proof -
  have "outvec_done wit_got 0x20000080 0 = []" "mem_rd wit_ram 0x1001 2 = [8, 9]"
    by (simp_all add: outvec_done_def mem_rd_def upt_rec wit_ram_def)
  then show ?thesis
    using psa_write_appends[OF wit_request _ wit_conn_ok(1), of 0 wit_env 1 "0x1001" 2]
      psa_write_appends[OF wit_request _ wit_conn_ok(1), of 0 wit_env 1 "0x1000" 3] by (auto simp: unmapped_def)
qed

section \<open>Replies\<close>

text \<open>
  C21. The reply reaches the client: after psa_reply to a request, the waiting client is ready, the
  scheduler puts the status into its context as the return value of psa_call, the lengths of its output
  vectors are the numbers of bytes written, and the connection is returned to the pool for a
  stateless service and idle for any other.
\<close>

theorem psa_reply_reaches_client:
  assumes "spm_msg_handle_to_connection h s = Some c" "c \<noteq> 0" "conn_service (conns s c) = Some i"
    "0 \<le> msg_type (msg (conns s c))" "conn_status (conns s c) = TFM_HANDLE_STATUS_ACTIVE"
    "\<not> has_mm_iovec env" "client_data (conns s c) = 0"
    "st \<noteq> psa_error_code PSA_ERROR_PROGRAMMER_ERROR" "p_client (conns s c) = Some cl"
    "signals_waiting (partitions s cl) = ASYNC_MSG_REPLY" "signals_allowed (partitions s cl) AND ASYNC_MSG_REPLY \<noteq> ASYNC_MSG_REPLY"
  shows "\<exists>t. tfm_spm_partition_psa_reply env h st s = Some (STATUS_NEED_SCHEDULE, t) \<and> ready t cl
    \<and> fst (query_state cl x t) = (THRD_STATE_RET_VAL_AVAIL, word_of_int st)
    \<and> (if SERVICE_IS_STATELESS (srv_flags (services s i)) then pool t = tfm_pool_free c (pool s)
       else pool t = pool s \<and> conn_status (conns t c) = TFM_HANDLE_STATUS_IDLE)
    \<and> (\<forall>k < 4. out_size (msg (conns s c)) ! k \<noteq> 0 \<longrightarrow>
        mem_rd32 (ram t) (caller_outvec (conns s c) + word_of_nat (8 * k + 4)) = outvec_written (conns s c) ! k)"
  by (rule psa_reply_request[OF assms, of x]) blast

theorem psa_reply_reaches_client_witness:
  "\<exists>t. tfm_spm_partition_psa_reply wit_env wit_msg 0 wit_got = Some (STATUS_NEED_SCHEDULE, t) \<and> ready t 0
    \<and> fst (query_state 0 THRD_STATE_BLOCK t) = (THRD_STATE_RET_VAL_AVAIL, 0) \<and> mem_rd32 (ram t) 0x204 = 0"
  using psa_reply_reaches_client[OF wit_msg_conn, of 0 wit_env 0 0 THRD_STATE_BLOCK]
  by (fastforce simp: ASYNC_MSG_REPLY_def SERVICE_IS_STATELESS_def)

section \<open>Scheduling\<close>

text \<open>
  The scheduler switches to a ready thread of highest priority: after ipc_schedule the partition
  that runs is one of the list whose thread waits for nothing or for an asserted signal, no ready
  thread has a higher priority, its boundary was activated where that is required, and the scheduler's
  invariant (list sorted by priority, blocked threads wait) holds.
\<close>

theorem ipc_schedule_highest_priority:
  assumes "sched_inv q s" "ipc_schedule se q s = Some ((cur, nxt), q', s')"
  shows "current s' = Some nxt \<and> nxt \<in> set (p_thrd_head q) \<and> ready s nxt
    \<and> (\<forall>u \<in> set (p_thrd_head q). ready s u \<longrightarrow> thrd_prio q nxt \<le> thrd_prio q u)
    \<and> (cur \<noteq> nxt \<and> boundary_need_switch se (boundary (partitions s' cur)) (boundary (partitions s' nxt))
        \<longrightarrow> activate_boundary se nxt (boundary (partitions s' nxt)))
    \<and> sched_inv q' s'"
  using ipc_schedule_switch[OF assms] by blast

definition wit_sched :: sched where
  "wit_sched = thrd_start 1 (thrd_start 0 (THRD_INIT 1 0x10 (THRD_INIT 0 0x20
     \<lparr>threads = (\<lambda>_. \<lparr>priority = 0, thrd_st = THRD_STATE_CREATING, ret_code = 0\<rparr>), p_thrd_head = [], p_rnbl_head = None\<rparr>)))"

lemma wit_sched_eq: "p_thrd_head wit_sched = [1, 0]" "p_rnbl_head wit_sched = Some 1"
  "threads wit_sched 0 = \<lparr>priority = 0x20, thrd_st = THRD_STATE_RUNNABLE, ret_code = 0\<rparr>"
  "threads wit_sched 1 = \<lparr>priority = 0x10, thrd_st = THRD_STATE_RUNNABLE, ret_code = 0\<rparr>"
  by (simp_all add: wit_sched_def thrd_start_def thrd_set_state_def insert_by_prior_def THRD_INIT_def upd_thrd_def Let_def head_ptr_def)

lemma wit_sched_inv: "sched_inv wit_sched s"
  by (simp add: sched_inv_def wit_sched_eq[simplified] head_ptr_def thrd_prio_def)

definition wit_sched_env :: sched_env where
  "wit_sched_env = \<lparr>stack_room = (\<lambda>_. True), boundary_need_switch = (\<lambda>_ _. True), activate_boundary = (\<lambda>_ _. True), has_metadata = (\<lambda>_. True)\<rparr>"

theorem ipc_schedule_highest_priority_witness:
  "\<exists>q' s'. ipc_schedule wit_sched_env wit_sched wit_called = Some ((0, 1), q', s') \<and> current s' = Some 1 \<and> ready wit_called 1"
proof -
  obtain q' s' where n: "ipc_schedule wit_sched_env wit_sched wit_called = Some ((0, 1), q', s')"
    by (simp add: ipc_schedule_def thrd_next_def from_ptr_def wit_sched_eq[simplified] query_state_def Let_def upd_thrd_def wit_sched_env_def)
  then show ?thesis using ipc_schedule_highest_priority[OF wit_sched_inv n] by blast
qed

text \<open>
  C33. Starting threads keeps the list in order: thrd_start of a new thread inserts it by priority, so
  that the scheduler's invariant holds and the list has the old threads and the new one.
\<close>

theorem thrd_start_keeps_order:
  assumes "sched_inv q s" "t \<notin> set (p_thrd_head q)"
  shows "sched_inv (thrd_start t q) s \<and> mset (p_thrd_head (thrd_start t q)) = add_mset t (mset (p_thrd_head q))"
  using thrd_start_inv[OF assms] by (simp add: thrd_start_fields)

theorem thrd_start_keeps_order_witness: "sched_inv (thrd_start 2 wit_sched) wit_spm \<and> mset (p_thrd_head (thrd_start 2 wit_sched)) = {#0, 1, 2#}"
  using thrd_start_keeps_order[OF wit_sched_inv, of 2 wit_spm] by (simp add: wit_sched_eq[simplified])

section \<open>Connection pool\<close>

text \<open>
  C29. The pool hands out every chunk exactly once: allocation succeeds if and only if fewer than all
  chunks are in use, the chunk is then a new one, and freeing it restores the set of chunks in use.
\<close>

theorem tfm_pool_allocates:
  assumes "pool_ok p" "tfm_pool_alloc p = (c, q)"
  shows "(c \<noteq> 0 \<longleftrightarrow> card (pool_live p) < pool_num p)
    \<and> (c \<noteq> 0 \<longrightarrow> c \<notin> pool_live p \<and> pool_live q = insert c (pool_live p) \<and> pool_ok q
         \<and> pool_live (tfm_pool_free c q) = pool_live p \<and> pool_ok (tfm_pool_free c q))"
proof -
  have o: "pool_alloc_opt p = (if c = 0 then None else Some c, q)" using assms(2) by (simp add: pool_alloc_opt_def)
  show ?thesis
    using pool.alloc_succeeds_iff[OF assms(1)] pool_alloc_cases[OF assms] pool.alloc_release[OF assms(1), of c q] o
    by (auto split: if_splits)
qed

theorem tfm_pool_allocates_witness: "tfm_pool_alloc wit_pool = (0x20000080, pool wit_s1) \<and> pool_live (tfm_pool_free 0x20000080 (pool wit_s1)) = pool_live wit_pool"
proof -
  have ok: "pool_ok wit_pool" using wit_inv by (simp add: spm_inv_def)
  have a: "tfm_pool_alloc wit_pool = (0x20000080, pool wit_s1)"
    by (simp add: tfm_pool_alloc_def wit_s1_pool wit_pool_eq pool_consts)
  show ?thesis using a tfm_pool_allocates[OF ok a] by simp
qed

text \<open>
  The validity check of the pool: it accepts exactly the chunks in use, and besides them the
  address one chunk behind the end of the pool when the memory there holds the magic word.
\<close>

theorem is_valid_chunk_data_in_pool_iff:
  assumes "pool_ok p"
  shows "is_valid_chunk_data_in_pool p d \<longleftrightarrow> d \<in> pool_live p
    \<or> d = chunk_at p (pool_num p) + SIZEOF_POOL_CHUNK \<and> chunk_magic p (chunk_at p (pool_num p)) = POOL_MAGIC_ALLOCATED"
  by (rule is_valid_chunk_iff[OF assms])

theorem is_valid_chunk_data_in_pool_iff_witness:
  "\<exists>p. pool_ok p \<and> pool_live p = {} \<and> is_valid_chunk_data_in_pool p 0x200000EC"
proof -
  let ?p = "wit_pool\<lparr>chunk_magic := (\<lambda>_. 0)(0x200000E4 := POOL_MAGIC_ALLOCATED)\<rparr>"
  have w: "pool_ok wit_pool" "pool_live wit_pool = {}" using wit_inv wit_pool_live by (simp_all add: spm_inv_def)
  have n: "pool_num wit_pool = 2" "chunk_at wit_pool 2 = 0x200000E4" "chunk_at wit_pool 0 = 0x2000000C" "chunk_at wit_pool 1 = 0x20000078"
    by (simp_all add: pool_num_def chunk_size_def chunk_at_def wit_pool_eq)
  have nx: "pool_next wit_pool = [0x20000078, 0x2000000C]" "chunk_magic wit_pool = (\<lambda>_. 0)" by (simp_all add: wit_pool_eq)
  have "pool_ok ?p" using w(1) n nx by (auto simp: pool_ok_def less_2_cases_iff)
  moreover have "pool_live ?p = {}" using w(2) by (simp add: pool_live_def)
  moreover have "is_valid_chunk_data_in_pool ?p 0x200000EC"
    using is_valid_chunk_data_in_pool_iff[OF \<open>pool_ok ?p\<close>, of "0x200000EC"] n by (simp add: pool_consts)
  ultimately show ?thesis by blast
qed

text \<open>
  Handles of connections: for a connection less than 2 ^ 27 - 1 bytes into the pool the handle is
  neither null nor a static handle, and it decodes to the connection.
\<close>

theorem connection_handle_roundtrip:
  assumes "unat (c - pool_addr (pool s)) < 2 ^ 27 - 1" "connection_to_handle c s = (h, t)"
  shows "handle_to_connection h t = c \<and> h \<noteq> 0 \<and> \<not> IS_STATIC_HANDLE h"
  using handle_roundtrip[OF assms] by blast

theorem connection_handle_roundtrip_witness:
  "\<exists>h t. connection_to_handle 0x20000080 wit_spm = (h, t) \<and> handle_to_connection h t = 0x20000080"
proof -
  obtain h t where r: "connection_to_handle 0x20000080 wit_spm = (h, t)" by fastforce
  show ?thesis using r connection_handle_roundtrip[OF _ r] by (simp add: wit_pool_eq)
qed

end
