(* ===== verification/ITS_Service.thy ===== *)
theory ITS_Service
  imports ITS_Storage SPM_State
begin

text \<open>
  The Internal Trusted Storage service: tfm_internal_trusted_storage.c and the request manager
  tfm_its_req_mngr.c (src/secure_fw/partitions/internal_trusted_storage), for a build with both the
  ITS and the Protected Storage partition, without encryption and without memory-mapped vectors. The
  static variables of the files are the record \<open>its_state\<close>. The vectors of the request are behind
  two operations, \<open>psa_read\<close> and \<open>psa_write\<close>, of the environment; their contract is a locale, and
  the partition manager provides it. A result \<open>None\<close> means that the call does not return.
\<close>

section \<open>State\<close>

record ('d, 'r) its_state =
  fs_cfg_its :: "'d its_flash_fs_config_t"
  fs_ctx_its :: "'d its_flash_fs_ctx_t"
  fs_cfg_ps :: "'d its_flash_fs_config_t"
  fs_ctx_ps :: "'d its_flash_fs_ctx_t"
  g_fid :: "byte list"
  g_file_info :: its_flash_fs_file_info_t
  asset_data :: "byte list"
  req :: 'r   \<comment> \<open>the request being served\<close>

record hal_fs_info =
  hal_area_addr :: nat
  hal_area_size :: nat
  hal_block_size :: nat

text \<open>
  The environment: \<open>psa_read i n\<close> returns the bytes it stores in the buffer, \<open>psa_write i bytes\<close>
  appends to an output vector. \<open>TFM_SP_PS\<close> is a generated partition id; the two HAL functions
  describe the flash areas.
\<close>

record 'r its_env =
  TFM_SP_PS :: int
  psa_read_req :: "nat \<Rightarrow> nat \<Rightarrow> 'r \<Rightarrow> (byte list \<times> 'r) option"
  psa_write_req :: "nat \<Rightarrow> byte list \<Rightarrow> 'r \<Rightarrow> 'r option"
  tfm_hal_its_fs_info :: "hal_fs_info option"
  tfm_hal_ps_fs_info :: "hal_fs_info option"
  ITS_CREATE_FLASH_LAYOUT :: bool
  PS_CREATE_FLASH_LAYOUT :: bool

definition TFM_ITS_INVALID_UID :: nat where "TFM_ITS_INVALID_UID = 0"
definition TFM_ITS_SET :: int where "TFM_ITS_SET = 1001"
definition TFM_ITS_GET :: int where "TFM_ITS_GET = 1002"
definition TFM_ITS_GET_INFO :: int where "TFM_ITS_GET_INFO = 1003"
definition TFM_ITS_REMOVE :: int where "TFM_ITS_REMOVE = 1004"

definition PSA_STORAGE_FLAG_WRITE_ONCE :: "32 word" where "PSA_STORAGE_FLAG_WRITE_ONCE = 1"
definition PSA_STORAGE_FLAG_NO_CONFIDENTIALITY :: "32 word" where "PSA_STORAGE_FLAG_NO_CONFIDENTIALITY = 2"
definition PSA_STORAGE_FLAG_NO_REPLAY_PROTECTION :: "32 word" where "PSA_STORAGE_FLAG_NO_REPLAY_PROTECTION = 4"

lemmas its_msg_consts = TFM_ITS_SET_def TFM_ITS_GET_def TFM_ITS_GET_INFO_def TFM_ITS_REMOVE_def TFM_ITS_INVALID_UID_def
lemmas storage_flags = PSA_STORAGE_FLAG_WRITE_ONCE_def PSA_STORAGE_FLAG_NO_CONFIDENTIALITY_def PSA_STORAGE_FLAG_NO_REPLAY_PROTECTION_def

record psa_storage_info_t =
  capacity :: nat
  info_size :: nat
  storage_flags :: "32 word"

text \<open>A 64-bit identifier in memory; a client id is a two's complement 32-bit number.\<close>

definition le64 :: "nat \<Rightarrow> byte list" where
  "le64 n = le32 (n mod SIZE_MAX_P1) @ le32 (n div SIZE_MAX_P1)"

definition de64 :: "byte list \<Rightarrow> nat" where
  "de64 bs = de32 (take 4 bs) + SIZE_MAX_P1 * de32 (drop 4 bs)"

section \<open>File systems\<close>

datatype its_fs = FS_ITS | FS_PS

definition get_fs_ctx :: "'r its_env \<Rightarrow> int \<Rightarrow> its_fs" where
  "get_fs_ctx env client = (if client = TFM_SP_PS env then FS_PS else FS_ITS)"

definition fs_cfg :: "its_fs \<Rightarrow> ('d, 'r) its_state \<Rightarrow> 'd its_flash_fs_config_t" where
  "fs_cfg fs s = (case fs of FS_ITS \<Rightarrow> fs_cfg_its s | FS_PS \<Rightarrow> fs_cfg_ps s)"

definition fs_ctx :: "its_fs \<Rightarrow> ('d, 'r) its_state \<Rightarrow> 'd its_flash_fs_ctx_t" where
  "fs_ctx fs s = (case fs of FS_ITS \<Rightarrow> fs_ctx_its s | FS_PS \<Rightarrow> fs_ctx_ps s)"

definition set_ctx :: "its_fs \<Rightarrow> 'd its_flash_fs_ctx_t \<Rightarrow> ('d, 'r) its_state \<Rightarrow> ('d, 'r) its_state" where
  "set_ctx fs c s = (case fs of FS_ITS \<Rightarrow> s\<lparr>fs_ctx_its := c\<rparr> | FS_PS \<Rightarrow> s\<lparr>fs_ctx_ps := c\<rparr>)"

text \<open>An operation of a file system on its context.\<close>

definition fs_io :: "its_fs \<Rightarrow> ('d its_flash_fs_config_t \<Rightarrow> ('d its_flash_fs_ctx_t, 'a) io) \<Rightarrow> (('d, 'r) its_state, 'a) io" where
  "fs_io fs m s = (case m (fs_cfg fs s) (fs_ctx fs s) of (r, c) \<Rightarrow> (r, set_ctx fs c s))"

section \<open>Initialisation\<close>

definition tfm_its_get_fid :: "int \<Rightarrow> nat \<Rightarrow> byte list" where
  "tfm_its_get_fid client uid = le32 (unat (word_of_int client :: 32 word)) @ le64 uid"

definition init_fs_cfg :: "hal_fs_info option \<Rightarrow> ('d its_flash_fs_config_t, unit) io" where
  "init_fs_cfg info c =
     (case info of
        None \<Rightarrow> (Inl PSA_ERROR_PROGRAMMER_ERROR, c)
      | Some i \<Rightarrow>
          let c = c\<lparr>flash_cfg := (flash_cfg c)\<lparr>flash_area_addr := hal_area_addr i, block_size := hal_block_size i\<rparr>\<rparr>
          in if block_size (flash_cfg c) = 0 then (Inl PSA_ERROR_PROGRAMMER_ERROR, c)
             else (Inr (), c\<lparr>flash_cfg := (flash_cfg c)\<lparr>num_blocks := hal_area_size i div block_size (flash_cfg c)\<rparr>\<rparr>))"

definition init_its_fs_cfg :: "'r its_env \<Rightarrow> (('d, 'r) its_state, unit) io" where
  "init_its_fs_cfg env s = (case init_fs_cfg (tfm_hal_its_fs_info env) (fs_cfg_its s) of (r, c) \<Rightarrow> (r, s\<lparr>fs_cfg_its := c\<rparr>))"

definition init_ps_fs_cfg :: "'r its_env \<Rightarrow> (('d, 'r) its_state, unit) io" where
  "init_ps_fs_cfg env s = (case init_fs_cfg (tfm_hal_ps_fs_info env) (fs_cfg_ps s) of (r, c) \<Rightarrow> (r, s\<lparr>fs_cfg_ps := c\<rparr>))"

text \<open>
  Context, mount, and with \<open>create_layout\<close> a wipe and a second mount when the first one fails. The
  flash driver may adjust the configuration (\<open>its_flash_fs_init_ctx\<close>).
\<close>

definition init_fs :: "its_fs \<Rightarrow> bool \<Rightarrow> (('d, 'r) its_state, unit) io" where
  "init_fs fs create_layout =
     bind_io (fs_io fs its_flash_fs_init_ctx) (\<lambda>c.
     bind_io (modify_io (\<lambda>s. case fs of FS_ITS \<Rightarrow> s\<lparr>fs_cfg_its := c\<rparr> | FS_PS \<Rightarrow> s\<lparr>fs_cfg_ps := c\<rparr>)) (\<lambda>_.
     bind_io (try_io (fs_io fs its_flash_fs_prepare)) (\<lambda>status.
     case status of
       Inr _ \<Rightarrow> return_io ()
     | Inl e \<Rightarrow>
         if create_layout
         then bind_io (fs_io fs its_flash_fs_wipe_all) (\<lambda>_. fs_io fs its_flash_fs_prepare)
         else raise_io e)))"

definition tfm_its_init :: "'r its_env \<Rightarrow> (('d, 'r) its_state, unit) io" where
  "tfm_its_init env =
     bind_io (init_its_fs_cfg env) (\<lambda>_.
     bind_io (init_fs FS_ITS (ITS_CREATE_FLASH_LAYOUT env)) (\<lambda>_.
     bind_io (init_ps_fs_cfg env) (\<lambda>_.
     init_fs FS_PS (PS_CREATE_FLASH_LAYOUT env))))"

section \<open>Operations\<close>

definition get_file_info :: "'r its_env \<Rightarrow> nat \<Rightarrow> int \<Rightarrow> (('d, 'r) its_state, unit) io" where
  "get_file_info env uid client =
     (if uid = TFM_ITS_INVALID_UID then raise_io PSA_ERROR_INVALID_ARGUMENT
      else
        bind_io (modify_io (g_fid_update (\<lambda>_. tfm_its_get_fid client uid))) (\<lambda>_.
        bind_io (gets_io g_fid) (\<lambda>f.
        bind_io (fs_io (get_fs_ctx env client) (\<lambda>c. its_flash_fs_file_get_info c f)) (\<lambda>info.
        modify_io (g_file_info_update (\<lambda>_. info))))))"

text \<open>
  The file information is also an output of the write (its maximum size may be aligned); when the
  write fails it is not read again.
\<close>

definition tfm_its_write_data_to_fs :: "'r its_env \<Rightarrow> int \<Rightarrow> byte list \<Rightarrow> nat \<Rightarrow> nat \<Rightarrow> byte list \<Rightarrow> (('d, 'r) its_state, unit) io" where
  "tfm_its_write_data_to_fs env client f data_size offset data =
     bind_io (gets_io g_file_info) (\<lambda>finfo.
     bind_io (fs_io (get_fs_ctx env client) (\<lambda>c. its_flash_fs_file_write c f (Some finfo) data_size offset data)) (\<lambda>finfo.
     modify_io (g_file_info_update (\<lambda>_. finfo))))"

text \<open>The data of a request: its second input vector and its first output vector.\<close>

definition its_req_mngr_read :: "'r its_env \<Rightarrow> nat \<Rightarrow> 'r \<Rightarrow> (byte list \<times> 'r) option" where
  "its_req_mngr_read env num_bytes = psa_read_req env 1 num_bytes"

definition its_req_mngr_write :: "'r its_env \<Rightarrow> byte list \<Rightarrow> 'r \<Rightarrow> 'r option" where
  "its_req_mngr_write env buf = psa_write_req env 0 buf"

lemmas its_req_mngr [simp] = its_req_mngr_read_def its_req_mngr_write_def

text \<open>The loop of \<open>tfm_its_set\<close>: the data goes through \<open>asset_data\<close>, a buffer of fixed size.\<close>

partial_function (option) its_set_loop ::
  "'r its_env \<Rightarrow> int \<Rightarrow> nat \<Rightarrow> nat \<Rightarrow> ('d, 'r) its_state \<Rightarrow> ((psa_error + unit) \<times> ('d, 'r) its_state) option" where
  "its_set_loop env client data_length offset s =
     (let write_size = min data_length (length (asset_data s)) in
      Option.bind (its_req_mngr_read env write_size (req s)) (\<lambda>(bs, r).
        let s1 = s\<lparr>req := r, asset_data := bs @ drop (length bs) (asset_data s)\<rparr> in
        case tfm_its_write_data_to_fs env client (g_fid s1) write_size offset (asset_data s1) s1 of
          (Inl e, s2) \<Rightarrow> Some (Inl e, s2)
        | (Inr _, s2) \<Rightarrow>
            let s3 = s2\<lparr>g_file_info := (g_file_info s2)\<lparr>info_flags :=
                       info_flags (g_file_info s2) AND NOT (ITS_FLASH_FS_FLAG_CREATE OR ITS_FLASH_FS_FLAG_TRUNCATE)\<rparr>\<rparr>;
                data_length' = sub32 data_length write_size
            in if 0 < data_length' then its_set_loop env client data_length' (add32 offset write_size) s3
               else Some (Inr (), s3)))"

definition tfm_its_set :: "'r its_env \<Rightarrow> int \<Rightarrow> nat \<Rightarrow> nat \<Rightarrow> 32 word \<Rightarrow> ('d, 'r) its_state
    \<Rightarrow> ((psa_error + unit) \<times> ('d, 'r) its_state) option" where
  "tfm_its_set env client uid data_length create_flags s =
     (if uid = TFM_ITS_INVALID_UID then Some (Inl PSA_ERROR_INVALID_ARGUMENT, s)
      else if create_flags AND NOT (PSA_STORAGE_FLAG_WRITE_ONCE OR PSA_STORAGE_FLAG_NO_CONFIDENTIALITY
                OR PSA_STORAGE_FLAG_NO_REPLAY_PROTECTION) \<noteq> 0
      then Some (Inl PSA_ERROR_NOT_SUPPORTED, s)
      else case get_file_info env uid client s of
        (Inr _, s1) \<Rightarrow>
          if info_flags (g_file_info s1) AND PSA_STORAGE_FLAG_WRITE_ONCE \<noteq> 0
          then Some (Inl PSA_ERROR_NOT_PERMITTED, s1)
          else its_set_loop env client data_length 0
                 (s1\<lparr>g_file_info := (g_file_info s1)\<lparr>size_max := data_length,
                    info_flags := create_flags OR ITS_FLASH_FS_FLAG_CREATE OR ITS_FLASH_FS_FLAG_TRUNCATE\<rparr>\<rparr>)
      | (Inl e, s1) \<Rightarrow>
          if e \<noteq> PSA_ERROR_DOES_NOT_EXIST then Some (Inl e, s1)
          else its_set_loop env client data_length 0
                 (s1\<lparr>g_file_info := (g_file_info s1)\<lparr>size_max := data_length,
                    info_flags := create_flags OR ITS_FLASH_FS_FLAG_CREATE OR ITS_FLASH_FS_FLAG_TRUNCATE\<rparr>\<rparr>))"

text \<open>The loop of \<open>tfm_its_get_plain\<close>.\<close>

partial_function (option) its_get_loop ::
  "'r its_env \<Rightarrow> int \<Rightarrow> nat \<Rightarrow> nat \<Rightarrow> ('d, 'r) its_state \<Rightarrow> ((psa_error + unit) \<times> ('d, 'r) its_state) option" where
  "its_get_loop env client data_offset data_size s =
     (let read_size = min data_size (length (asset_data s)) in
      case fs_io (get_fs_ctx env client) (\<lambda>c. its_flash_fs_file_read c (g_fid s) read_size data_offset) s of
        (Inl e, s1) \<Rightarrow> Some (Inl e, s1)
      | (Inr bs, s1) \<Rightarrow>
          let s2 = s1\<lparr>asset_data := bs @ drop (length bs) (asset_data s1)\<rparr> in
          Option.bind (its_req_mngr_write env (take read_size (asset_data s2)) (req s2)) (\<lambda>r.
            let s3 = s2\<lparr>req := r\<rparr>; data_size' = sub32 data_size read_size in
            if 0 < data_size' then its_get_loop env client (add32 data_offset read_size) data_size' s3
            else Some (Inr (), s3)))"

definition tfm_its_get_plain :: "'r its_env \<Rightarrow> int \<Rightarrow> nat \<Rightarrow> nat \<Rightarrow> ('d, 'r) its_state
    \<Rightarrow> ((psa_error + nat) \<times> ('d, 'r) its_state) option" where
  "tfm_its_get_plain env client data_offset data_size s =
     Option.bind (its_get_loop env client data_offset data_size s)
       (\<lambda>(r, s1). Some (case r of Inl e \<Rightarrow> Inl e | Inr _ \<Rightarrow> Inr data_size, s1))"

definition tfm_its_get :: "'r its_env \<Rightarrow> int \<Rightarrow> nat \<Rightarrow> nat \<Rightarrow> nat \<Rightarrow> ('d, 'r) its_state
    \<Rightarrow> ((psa_error + nat) \<times> ('d, 'r) its_state) option" where
  "tfm_its_get env client uid data_offset data_size s =
     (if uid = TFM_ITS_INVALID_UID then Some (Inl PSA_ERROR_INVALID_ARGUMENT, s)
      else case get_file_info env uid client s of
        (Inl e, s1) \<Rightarrow> Some (Inl e, s1)
      | (Inr _, s1) \<Rightarrow>
          if data_offset > size_current (g_file_info s1) then Some (Inl PSA_ERROR_INVALID_ARGUMENT, s1)
          else tfm_its_get_plain env client data_offset
                 (min data_size (sub32 (size_current (g_file_info s1)) data_offset)) s1)"

definition tfm_its_get_info :: "'r its_env \<Rightarrow> int \<Rightarrow> nat \<Rightarrow> (('d, 'r) its_state, psa_storage_info_t) io" where
  "tfm_its_get_info env client uid =
     bind_io (get_file_info env uid client) (\<lambda>_.
     gets_io (\<lambda>s. \<lparr>capacity = size_current (g_file_info s), info_size = size_current (g_file_info s),
                   storage_flags = info_flags (g_file_info s)\<rparr>))"

definition tfm_its_remove :: "'r its_env \<Rightarrow> int \<Rightarrow> nat \<Rightarrow> (('d, 'r) its_state, unit) io" where
  "tfm_its_remove env client uid =
     bind_io (get_file_info env uid client) (\<lambda>_.
     bind_io (gets_io g_file_info) (\<lambda>info.
     if info_flags info AND PSA_STORAGE_FLAG_WRITE_ONCE \<noteq> 0 then raise_io PSA_ERROR_NOT_PERMITTED
     else bind_io (gets_io g_fid) (\<lambda>f.
          fs_io (get_fs_ctx env client) (\<lambda>c. its_flash_fs_file_delete c f))))"

section \<open>The request manager\<close>

text \<open>\<open>psa_read\<close> of a fixed-size argument; a short read is a programmer error.\<close>

definition read_arg :: "'r its_env \<Rightarrow> nat \<Rightarrow> nat \<Rightarrow> ('d, 'r) its_state \<Rightarrow> ((psa_error + byte list) \<times> ('d, 'r) its_state) option" where
  "read_arg env i n s =
     Option.bind (psa_read_req env i n (req s)) (\<lambda>(bs, r).
       Some (if length bs \<noteq> n then Inl PSA_ERROR_PROGRAMMER_ERROR else Inr bs, s\<lparr>req := r\<rparr>))"

definition tfm_its_set_req :: "'r its_env \<Rightarrow> psa_msg_t \<Rightarrow> ('d, 'r) its_state \<Rightarrow> ((psa_error + unit) \<times> ('d, 'r) its_state) option" where
  "tfm_its_set_req env m s =
     (if in_size m ! 0 \<noteq> 8 \<or> in_size m ! 2 \<noteq> 4 then Some (Inl PSA_ERROR_PROGRAMMER_ERROR, s)
      else Option.bind (read_arg env 0 8 s) (\<lambda>(r, s).
        case r of Inl e \<Rightarrow> Some (Inl e, s) | Inr uid \<Rightarrow>
        Option.bind (read_arg env 2 4 s) (\<lambda>(r, s).
        case r of Inl e \<Rightarrow> Some (Inl e, s) | Inr create_flags \<Rightarrow>
        tfm_its_set env (client_id m) (de64 uid) (unat (in_size m ! 1)) (word_of_nat (de32 create_flags)) s)))"

definition tfm_its_get_req :: "'r its_env \<Rightarrow> psa_msg_t \<Rightarrow> ('d, 'r) its_state \<Rightarrow> ((psa_error + unit) \<times> ('d, 'r) its_state) option" where
  "tfm_its_get_req env m s =
     (if in_size m ! 0 \<noteq> 8 \<or> in_size m ! 1 \<noteq> 4 then Some (Inl PSA_ERROR_PROGRAMMER_ERROR, s)
      else Option.bind (read_arg env 0 8 s) (\<lambda>(r, s).
        case r of Inl e \<Rightarrow> Some (Inl e, s) | Inr uid \<Rightarrow>
        Option.bind (read_arg env 1 4 s) (\<lambda>(r, s).
        case r of Inl e \<Rightarrow> Some (Inl e, s) | Inr data_offset \<Rightarrow>
        Option.bind (tfm_its_get env (client_id m) (de64 uid) (de32 data_offset) (unat (out_size m ! 0)) s) (\<lambda>(r, s).
        Some (map_sum id (\<lambda>_. ()) r, s)))))"

definition tfm_its_get_info_req :: "'r its_env \<Rightarrow> psa_msg_t \<Rightarrow> ('d, 'r) its_state \<Rightarrow> ((psa_error + unit) \<times> ('d, 'r) its_state) option" where
  "tfm_its_get_info_req env m s =
     (if in_size m ! 0 \<noteq> 8 \<or> out_size m ! 0 \<noteq> 12 then Some (Inl PSA_ERROR_PROGRAMMER_ERROR, s)
      else Option.bind (read_arg env 0 8 s) (\<lambda>(r, s).
        case r of Inl e \<Rightarrow> Some (Inl e, s) | Inr uid \<Rightarrow>
        (case tfm_its_get_info env (client_id m) (de64 uid) s of
           (Inl e, s) \<Rightarrow> Some (Inl e, s)
         | (Inr info, s) \<Rightarrow>
             Option.bind (psa_write_req env 0 (le32 (capacity info) @ le32 (info_size info)
                 @ le32 (unat (psa_storage_info_t.storage_flags info))) (req s)) (\<lambda>r.
             Some (Inr (), s\<lparr>req := r\<rparr>)))))"

definition tfm_its_remove_req :: "'r its_env \<Rightarrow> psa_msg_t \<Rightarrow> ('d, 'r) its_state \<Rightarrow> ((psa_error + unit) \<times> ('d, 'r) its_state) option" where
  "tfm_its_remove_req env m s =
     (if in_size m ! 0 \<noteq> 8 then Some (Inl PSA_ERROR_PROGRAMMER_ERROR, s)
      else Option.bind (read_arg env 0 8 s) (\<lambda>(r, s).
        case r of Inl e \<Rightarrow> Some (Inl e, s) | Inr uid \<Rightarrow>
        Some (tfm_its_remove env (client_id m) (de64 uid) s)))"

definition tfm_its_entry :: "'r its_env \<Rightarrow> (('d, 'r) its_state, unit) io" where
  "tfm_its_entry env = tfm_its_init env"

definition tfm_internal_trusted_storage_service_sfn ::
  "'r its_env \<Rightarrow> psa_msg_t \<Rightarrow> ('d, 'r) its_state \<Rightarrow> ((psa_error + unit) \<times> ('d, 'r) its_state) option" where
  "tfm_internal_trusted_storage_service_sfn env m s =
     (if msg_type m = TFM_ITS_SET then tfm_its_set_req env m s
      else if msg_type m = TFM_ITS_GET then tfm_its_get_req env m s
      else if msg_type m = TFM_ITS_GET_INFO then tfm_its_get_info_req env m s
      else if msg_type m = TFM_ITS_REMOVE then tfm_its_remove_req env m s
      else Some (Inl PSA_ERROR_NOT_SUPPORTED, s))"

end
