(* ===== verification/SPM_Request.thy ===== *)
theory SPM_Request
  imports SPM_Vectors
begin

text \<open>
  The vectors of a request as a service sees them. The contract \<open>request_vectors\<close> is what a secure
  partition relies on when it serves a message: reading consumes the input vectors, writing extends
  the output vectors, and nothing else changes. The partition manager provides it, for a message
  whose vectors and whose buffer in the partition do not overlap.
\<close>

section \<open>The contract\<close>

locale request_vectors =
  fixes read_op :: "nat \<Rightarrow> nat \<Rightarrow> 'r \<Rightarrow> (byte list \<times> 'r) option"
    and write_op :: "nat \<Rightarrow> byte list \<Rightarrow> 'r \<Rightarrow> 'r option"
    and req_ok :: "'r \<Rightarrow> bool"
    and buf_size :: nat                       \<comment> \<open>what the partition can take or give at once\<close>
    and rest :: "'r \<Rightarrow> nat \<Rightarrow> byte list"     \<comment> \<open>input not yet read\<close>
    and written :: "'r \<Rightarrow> nat \<Rightarrow> byte list"  \<comment> \<open>output so far\<close>
    and room :: "'r \<Rightarrow> nat \<Rightarrow> nat"          \<comment> \<open>space left for output\<close>
  assumes read_vec: "req_ok r \<Longrightarrow> i < 4 \<Longrightarrow> n \<le> buf_size \<Longrightarrow>
      \<exists>r'. read_op i n r = Some (take n (rest r i), r') \<and> req_ok r' \<and> rest r' = (rest r)(i := drop n (rest r i))
         \<and> written r' = written r \<and> room r' = room r"
    and write_vec: "req_ok r \<Longrightarrow> i < 4 \<Longrightarrow> length bs \<le> buf_size \<Longrightarrow> length bs \<le> room r i \<Longrightarrow>
      \<exists>r'. write_op i bs r = Some r' \<and> req_ok r' \<and> rest r' = rest r
         \<and> written r' = (written r)(i := written r i @ bs) \<and> room r' = (room r)(i := room r i - length bs)"

text \<open>The sizes in the message are those of the vectors, as the partition manager sets them.\<close>

definition sizes_match :: "psa_msg_t \<Rightarrow> (nat \<Rightarrow> byte list) \<Rightarrow> (nat \<Rightarrow> nat) \<Rightarrow> bool" where
  "sizes_match m v r \<longleftrightarrow> (\<forall>i < 4. unat (in_size m ! i) = length (v i) \<and> unat (out_size m ! i) = r i)"

lemma sizes_matchD:
  assumes "sizes_match m v r" "i < 4"
  shows "length (v i) = unat (in_size m ! i)" "r i = unat (out_size m ! i)"
  using assms by (simp_all add: sizes_match_def)

lemma size_eq: "unat (w :: u32) = n \<Longrightarrow> n < 2 ^ 32 \<Longrightarrow> k < 2 ^ 32 \<Longrightarrow> w = word_of_nat k \<longleftrightarrow> n = k"
  by (auto simp: unat_of_nat_lt)

section \<open>The partition manager as provider\<close>

text \<open>
  A partition reads into a buffer of its own, and puts what it writes there first. \<open>buf\<close> is the
  address of this memory and \<open>cap\<close> its size.
\<close>

record spm_request =
  rq_env :: spm_env
  rq_handle :: u32
  rq_conn :: u32
  rq_buf :: u32
  rq_cap :: nat

definition spm_read_req :: "spm_request \<Rightarrow> nat \<Rightarrow> nat \<Rightarrow> spm_state \<Rightarrow> (byte list \<times> spm_state) option" where
  "spm_read_req q i n s =
     Option.bind (tfm_spm_partition_psa_read (rq_env q) (rq_handle q) i (rq_buf q) (word_of_nat n) s)
       (\<lambda>(r, t). Some (mem_rd (ram t) (rq_buf q) (unat r), t))"

definition spm_write_req :: "spm_request \<Rightarrow> nat \<Rightarrow> byte list \<Rightarrow> spm_state \<Rightarrow> spm_state option" where
  "spm_write_req q i bs s =
     map_option snd (tfm_spm_partition_psa_write (rq_env q) (rq_handle q) i (rq_buf q) (word_of_nat (length bs))
       (s\<lparr>ram := mem_wr (ram s) (rq_buf q) bs\<rparr>))"

text \<open>The areas of the vectors; what is behind index 3 does not count.\<close>

definition inv_disjoint :: "connection_t \<Rightarrow> u32 \<Rightarrow> nat \<Rightarrow> bool" where
  "inv_disjoint c a n \<longleftrightarrow> (\<forall>i < 4. mem_disjoint a n (invec_base c ! i) (unat (in_size (msg c) ! i)))"

definition outv_disjoint :: "connection_t \<Rightarrow> u32 \<Rightarrow> nat \<Rightarrow> bool" where
  "outv_disjoint c a n \<longleftrightarrow> (\<forall>i < 4. mem_disjoint a n (outvec_base c ! i) (unat (out_size (msg c) ! i)))"

definition vecs_apart :: "connection_t \<Rightarrow> bool" where
  "vecs_apart c \<longleftrightarrow> (\<forall>i < 4. inv_disjoint c (outvec_base c ! i) (unat (out_size (msg c) ! i))
     \<and> (\<forall>j < 4. j \<noteq> i \<longrightarrow> mem_disjoint (outvec_base c ! i) (unat (out_size (msg c) ! i)) (outvec_base c ! j) (unat (out_size (msg c) ! j))))"

definition iov_within :: "connection_t \<Rightarrow> bool" where
  "iov_within c \<longleftrightarrow> (\<forall>i < 4. invec_accessed c ! i \<le> in_size (msg c) ! i \<and> outvec_written c ! i \<le> out_size (msg c) ! i)"

definition spm_req_ok :: "spm_request \<Rightarrow> spm_state \<Rightarrow> bool" where
  "spm_req_ok q s \<longleftrightarrow> request_connection (rq_handle q) s = Some (rq_conn q) \<and> \<not> has_mm_iovec (rq_env q) \<and> rq_cap q < 2 ^ 32
     \<and> conn_wf (conns s (rq_conn q)) \<and> iov_within (conns s (rq_conn q)) \<and> vecs_apart (conns s (rq_conn q))
     \<and> inv_disjoint (conns s (rq_conn q)) (rq_buf q) (rq_cap q) \<and> outv_disjoint (conns s (rq_conn q)) (rq_buf q) (rq_cap q)
     \<and> (\<exists>p. current s = Some p \<and> (\<forall>n \<le> rq_cap q.
           memory_check (rq_env q) (boundary (partitions s p)) (rq_buf q) (word_of_nat n) TFM_HAL_ACCESS_READWRITE
         \<and> memory_check (rq_env q) (boundary (partitions s p)) (rq_buf q) (word_of_nat n) TFM_HAL_ACCESS_READABLE))"

definition spm_rest :: "spm_request \<Rightarrow> spm_state \<Rightarrow> nat \<Rightarrow> byte list" where
  "spm_rest q s i = (if i < 4 then invec_rest s (rq_conn q) i else [])"

definition spm_written :: "spm_request \<Rightarrow> spm_state \<Rightarrow> nat \<Rightarrow> byte list" where
  "spm_written q s i = (if i < 4 then outvec_done s (rq_conn q) i else [])"

definition spm_room :: "spm_request \<Rightarrow> spm_state \<Rightarrow> nat \<Rightarrow> nat" where
  "spm_room q s i = (if i < 4 then unat (out_size (msg (conns s (rq_conn q))) ! i) - unat (outvec_written (conns s (rq_conn q)) ! i) else 0)"

lemmas spm_views = spm_rest_def spm_written_def spm_room_def invec_rest_def invec_data_def outvec_done_def

text \<open>What an operation on the vectors changes: counters of the connection, and memory.\<close>

definition counters :: "u32 list \<Rightarrow> u32 list \<Rightarrow> connection_t \<Rightarrow> connection_t" where
  "counters a w c = c\<lparr>invec_accessed := a, outvec_written := w\<rparr>"

lemma counters_simps [simp]:
  "msg (counters a w c) = msg c" "invec_base (counters a w c) = invec_base c" "outvec_base (counters a w c) = outvec_base c"
  "invec_accessed (counters a w c) = a" "outvec_written (counters a w c) = w" "conn_service (counters a w c) = conn_service c"
  by (simp_all add: counters_def)

lemma req_ok_counters:
  assumes ok: "spm_req_ok q s" and l: "length a = 4" "length w = 4"
    and b: "\<And>i. i < 4 \<Longrightarrow> a ! i \<le> in_size (msg (conns s (rq_conn q))) ! i \<and> w ! i \<le> out_size (msg (conns s (rq_conn q))) ! i"
  shows "spm_req_ok q ((upd_conn (rq_conn q) (counters a w) s)\<lparr>ram := m\<rparr>)"
proof -
  let ?t = "(upd_conn (rq_conn q) (counters a w) s)\<lparr>ram := m\<rparr>"
  have e: "msg (conns ?t x) = msg (conns s x)" "conn_service (conns ?t x) = conn_service (conns s x)"
    "handle_to_connection h ?t = handle_to_connection h s" "spm_validate_connection x ?t = spm_validate_connection x s"
    "tfm_spm_partition_get_running_partition_id ?t = tfm_spm_partition_get_running_partition_id s"
    "services ?t = services s" "partitions ?t = partitions s" for x h
    by (simp_all add: handle_to_connection_def spm_validate_connection_def tfm_spm_partition_get_running_partition_id_def split: option.split)
  have "request_connection (rq_handle q) ?t = request_connection (rq_handle q) s"
    unfolding request_connection_def spm_msg_handle_to_connection_def Let_def e ..
  then show ?thesis
    using ok l b by (simp add: spm_req_ok_def conn_wf_def iov_within_def vecs_apart_def inv_disjoint_def outv_disjoint_def)
qed

lemma iov_ok_within: "iov_within c \<Longrightarrow> iov_ok c"
  by (simp add: iov_within_def iov_ok_def)

lemma outv_disjoint_part:
  assumes "outv_disjoint c a n" "iov_within c" "i < 4"
  shows "mem_disjoint a n (outvec_base c ! i) (unat (outvec_written c ! i))"
  using assms unfolding outv_disjoint_def iov_within_def mem_disjoint_def word_le_nat_alt by (meson less_le_trans)

text \<open>Memory outside the vectors does not matter for the views.\<close>

lemma views_frame:
  shows "inv_disjoint (conns s (rq_conn q)) a (length bs) \<Longrightarrow> spm_rest q (s\<lparr>ram := mem_wr (ram s) a bs\<rparr>) = spm_rest q s"
    and "mem_disjoint a (length bs) (outvec_base (conns s (rq_conn q)) ! j) (unat (outvec_written (conns s (rq_conn q)) ! j)) \<Longrightarrow>
      spm_written q (s\<lparr>ram := mem_wr (ram s) a bs\<rparr>) j = spm_written q s j"
    and "spm_room q (s\<lparr>ram := m\<rparr>) = spm_room q s"
proof -
  have k: "unat (x :: u32) \<le> 2 ^ 32" for x using unat_u32_lt[of x] by simp
  show "inv_disjoint (conns s (rq_conn q)) a (length bs) \<Longrightarrow> spm_rest q (s\<lparr>ram := mem_wr (ram s) a bs\<rparr>) = spm_rest q s"
    using mem_rd_wr_disjoint[OF _ k] by (auto simp: fun_eq_iff spm_views inv_disjoint_def)
  show "mem_disjoint a (length bs) (outvec_base (conns s (rq_conn q)) ! j) (unat (outvec_written (conns s (rq_conn q)) ! j)) \<Longrightarrow>
      spm_written q (s\<lparr>ram := mem_wr (ram s) a bs\<rparr>) j = spm_written q s j"
    using mem_rd_wr_disjoint[OF _ k] by (auto simp: spm_views)
  show "spm_room q (s\<lparr>ram := m\<rparr>) = spm_room q s" by (simp add: spm_views fun_eq_iff)
qed

lemma views_frame_all:
  assumes "iov_within (conns s (rq_conn q))"
    and "inv_disjoint (conns s (rq_conn q)) a (length bs)" "outv_disjoint (conns s (rq_conn q)) a (length bs)"
  shows "spm_rest q (s\<lparr>ram := mem_wr (ram s) a bs\<rparr>) = spm_rest q s" "spm_written q (s\<lparr>ram := mem_wr (ram s) a bs\<rparr>) = spm_written q s"
proof -
  show "spm_rest q (s\<lparr>ram := mem_wr (ram s) a bs\<rparr>) = spm_rest q s" by (rule views_frame(1)[OF assms(2)])
  have "spm_written q (s\<lparr>ram := mem_wr (ram s) a bs\<rparr>) j = spm_written q s j" for j
  proof (cases "j < 4")
    case True
    then show ?thesis by (intro views_frame(2) outv_disjoint_part[OF assms(3,1)])
  qed (simp add: spm_written_def)
  then show "spm_written q (s\<lparr>ram := mem_wr (ram s) a bs\<rparr>) = spm_written q s" by auto
qed

lemma spm_read_vec:
  assumes ok: "spm_req_ok q s" and i: "i < 4" and n: "n \<le> rq_cap q"
  shows "\<exists>t. spm_read_req q i n s = Some (take n (spm_rest q s i), t) \<and> spm_req_ok q t
    \<and> spm_rest q t = (spm_rest q s)(i := drop n (spm_rest q s i)) \<and> spm_written q t = spm_written q s \<and> spm_room q t = spm_room q s"
proof -
  define c where "c = rq_conn q"
  let ?C = "conns s c"
  note o = ok[unfolded spm_req_ok_def, folded c_def]
  have lens: "length (invec_accessed ?C) = 4" "length (outvec_written ?C) = 4" using o by (auto simp: conn_wf_def)
  have n32: "unat (word_of_nat n :: u32) = n" using o n by (intro unat_of_nat_lt) simp
  have um: "unmapped (rq_env q) ?C i" using o by (simp add: unmapped_def)
  have le: "invec_accessed ?C ! i \<le> in_size (msg ?C) ! i" using o i by (simp add: iov_within_def)
  obtain p where p: "current s = Some p" "memory_check (rq_env q) (boundary (partitions s p)) (rq_buf q) (word_of_nat n) TFM_HAL_ACCESS_READWRITE"
    using o n by auto
  show ?thesis
  proof (cases "invec_rest s c i = []")
    case True
    then have "unat (in_size (msg ?C) ! i) \<le> unat (invec_accessed ?C ! i)" by (simp add: invec_rest_def invec_data_def)
    then have e: "in_size (msg ?C) ! i - invec_accessed ?C ! i = 0" using le by (metis word_le_nat_alt order_antisym right_minus_eq)
    have "spm_read_req q i n s = Some ([], s)"
      using o i e by (simp add: spm_read_req_def tfm_spm_partition_psa_read_def mark_accessed_def PSA_MAX_IOVEC_def Let_def mem_rd_def)
    moreover have r: "spm_rest q s i = []" using True i by (simp add: spm_rest_def c_def)
    ultimately show ?thesis using ok by (auto simp: fun_eq_iff)
  next
    case False
    have dj: "mem_disjoint (rq_buf q) n (invec_base ?C ! i) (unat (in_size (msg ?C) ! i))"
      using o i n mem_disjoint_mono by (auto simp: inv_disjoint_def)
    obtain r t where t: "tfm_spm_partition_psa_read (rq_env q) (rq_handle q) i (rq_buf q) (word_of_nat n) s = Some (r, t)"
      "unat r = min n (length (invec_rest s c i))" "mem_rd (ram t) (rq_buf q) (unat r) = take n (invec_rest s c i)"
      "invec_rest t c i = drop n (invec_rest s c i)"
      using psa_read_refines[of "rq_handle q" s c i "rq_env q" p "rq_buf q" "word_of_nat n"] o i um False p dj n32 iov_ok_within by metis
    have nz: "in_size (msg ?C) ! i \<noteq> invec_accessed ?C ! i" using False by (auto simp: invec_rest_def invec_data_def)
    define a where "a = (invec_accessed ?C)[i := invec_accessed ?C ! i + r]"
    define D where "D = take n (invec_rest s c i)"
    have te: "t = (upd_conn c (counters a (outvec_written ?C)) s)\<lparr>ram := mem_wr (ram s) (rq_buf q) D\<rparr>"
    proof -
      define X where "X = mem_rd (ram s) (invec_base ?C ! i + invec_accessed ?C ! i) (unat r)"
      have x: "t = (upd_conn c (counters a (outvec_written ?C)) s)\<lparr>ram := mem_wr (ram s) (rq_buf q) X\<rparr>"
        using t(1,2) o i p nz
        by (auto simp: tfm_spm_partition_psa_read_def mark_accessed_def Let_def bind_eq_Some_conv upd_conn_def counters_def a_def X_def
            PSA_MAX_IOVEC_def split: if_splits)
      have "mem_rd (ram t) (rq_buf q) (length X) = X" 
        using mem_rd_wr_same[of X "ram s" "rq_buf q"] unat_u32_lt[of r] by (simp add: x X_def)
      then have "X = D" using t(3) by (simp add: D_def X_def)
      then show ?thesis using x by simp
    qed
    have lr: "unat r + unat (invec_accessed ?C ! i) \<le> unat (in_size (msg ?C) ! i)"
      using t(2) le by (auto simp: invec_rest_def invec_data_def word_le_nat_alt)
    then have ai: "invec_accessed ?C ! i + r \<le> in_size (msg ?C) ! i"
      using unat_add_lt[of "invec_accessed ?C ! i" r] unat_u32_lt[of "in_size (msg ?C) ! i"] by (simp add: word_le_nat_alt add.commute)
    have cnt: "a ! j \<le> in_size (msg ?C) ! j \<and> outvec_written ?C ! j \<le> out_size (msg ?C) ! j" if "j < 4" for j
      using o that ai by (auto simp: a_def iov_within_def nth_list_update_if)
    define u where "u = upd_conn c (counters a (outvec_written ?C)) s"
    have okt: "spm_req_ok q t" unfolding te c_def by (rule req_ok_counters[OF ok]) (use lens cnt in \<open>auto simp: a_def c_def\<close>)
    have dD: "length D \<le> n" by (simp add: D_def)
    have tu: "t = u\<lparr>ram := mem_wr (ram u) (rq_buf q) D\<rparr>" by (simp add: te u_def)
    have "iov_within (conns u c)" using cnt by (simp add: u_def iov_within_def)
    moreover have "inv_disjoint (conns u c) (rq_buf q) (length D)" "outv_disjoint (conns u c) (rq_buf q) (length D)"
      using o dD n by (auto simp: u_def inv_disjoint_def outv_disjoint_def elim!: mem_disjoint_mono)
    ultimately have vt: "spm_rest q t = spm_rest q u" "spm_written q t = spm_written q u"
      using views_frame_all[of u q "rq_buf q" D] unfolding tu c_def by auto
    have "spm_rest q u j = spm_rest q s j" if "j \<noteq> i" for j using that by (simp add: spm_views u_def c_def a_def)
    moreover have "spm_rest q t i = drop n (spm_rest q s i)" using t(4) i by (simp add: spm_rest_def c_def)
    ultimately have "spm_rest q t = (spm_rest q s)(i := drop n (spm_rest q s i))" using vt(1) by (auto simp: fun_eq_iff)
    moreover have "spm_written q u = spm_written q s" "spm_room q t = spm_room q s"
      by (auto simp: fun_eq_iff spm_views u_def te c_def)
    moreover have "spm_read_req q i n s = Some (take n (spm_rest q s i), t)"
      using t(1,3) i by (simp add: spm_read_req_def spm_rest_def c_def)
    ultimately show ?thesis using okt vt(2) by auto
  qed
qed

text \<open>The buffer of the partition is not part of the request.\<close>

lemma req_ok_ram: "spm_req_ok q s \<Longrightarrow> spm_req_ok q (s\<lparr>ram := m\<rparr>)"
proof -
  assume ok: "spm_req_ok q s"
  have "upd_conn (rq_conn q) (counters (invec_accessed (conns s (rq_conn q))) (outvec_written (conns s (rq_conn q)))) s = s"
    by (simp add: upd_conn_def counters_def)
  then show ?thesis
    using req_ok_counters[OF ok, of "invec_accessed (conns s (rq_conn q))" "outvec_written (conns s (rq_conn q))" m] ok
    by (simp add: spm_req_ok_def conn_wf_def iov_within_def)
qed

lemma tail_disjoint:
  assumes "mem_disjoint b n a k" "unat w + l \<le> n" "n < 2 ^ 32"
  shows "mem_disjoint (b + w) l a k"
  unfolding mem_disjoint_def
proof (intro allI notI)
  fix x assume x: "unat (x - (b + w)) < l \<and> unat (x - a) < k"
  then have "unat (x - (b + w)) + unat w < 2 ^ 32" using assms(2,3) by simp
  then have "unat ((x - (b + w)) + w) = unat (x - (b + w)) + unat w" by (rule unat_add_lt)
  then have "unat (x - b) < n" using x assms(2) by (simp add: algebra_simps)
  then show False using x assms(1) by (auto simp: mem_disjoint_def)
qed

lemma spm_write_vec:
  assumes ok: "spm_req_ok q s" and i: "i < 4" and n: "length bs \<le> rq_cap q" and fit: "length bs \<le> spm_room q s i"
  shows "\<exists>t. spm_write_req q i bs s = Some t \<and> spm_req_ok q t \<and> spm_rest q t = spm_rest q s
    \<and> spm_written q t = (spm_written q s)(i := spm_written q s i @ bs) \<and> spm_room q t = (spm_room q s)(i := spm_room q s i - length bs)"
proof -
  define c where "c = rq_conn q"
  define s1 where "s1 = s\<lparr>ram := mem_wr (ram s) (rq_buf q) bs\<rparr>"
  have ok1: "spm_req_ok q s1" unfolding s1_def by (rule req_ok_ram[OF ok])
  note o = ok1[unfolded spm_req_ok_def, folded c_def]
  let ?C = "conns s1 c" and ?sz = "out_size (msg (conns s1 c)) ! i" and ?wr = "outvec_written (conns s1 c) ! i"
    and ?b = "outvec_base (conns s1 c) ! i"
  have lens: "length (invec_accessed ?C) = 4" "length (outvec_written ?C) = 4" using o by (auto simp: conn_wf_def)
  have n32: "unat (word_of_nat (length bs) :: u32) = length bs" using o n by (intro unat_of_nat_lt) simp
  have f: "unat ?wr + length bs \<le> unat ?sz" "?wr \<le> ?sz" 
    using fit o i by (auto simp: spm_room_def s1_def iov_within_def word_le_nat_alt c_def)
  have d0: "inv_disjoint (conns s c) (rq_buf q) (length bs)" "outv_disjoint (conns s c) (rq_buf q) (length bs)"
    using o n by (auto simp: s1_def inv_disjoint_def outv_disjoint_def elim!: mem_disjoint_mono)
  have v1: "spm_rest q s1 = spm_rest q s" "spm_written q s1 = spm_written q s" "spm_room q s1 = spm_room q s"
    using views_frame_all[of s q "rq_buf q" bs] d0 o unfolding s1_def by (auto simp: views_frame(3) c_def)
  obtain p where p: "current s1 = Some p" "memory_check (rq_env q) (boundary (partitions s1 p)) (rq_buf q) (word_of_nat (length bs)) TFM_HAL_ACCESS_READABLE"
    using o n by auto
  have rb: "mem_rd (ram s1) (rq_buf q) (length bs) = bs" using mem_rd_wr_same[of bs "ram s" "rq_buf q"] o n by (simp add: s1_def)
  obtain t where t: "tfm_spm_partition_psa_write (rq_env q) (rq_handle q) i (rq_buf q) (word_of_nat (length bs)) s1 = Some (PSA_SUCCESS, t)"
    "outvec_done t c i = outvec_done s1 c i @ bs"
    using psa_write_refines[of "rq_handle q" s1 c i "rq_env q" p "rq_buf q" "word_of_nat (length bs)"] o i p f n32 rb
    by (auto simp: unmapped_def)
  define w where "w = (outvec_written ?C)[i := ?wr + word_of_nat (length bs)]"
  define u where "u = upd_conn c (counters (invec_accessed ?C) w) s1"
  have te: "t = u\<lparr>ram := mem_wr (ram u) (?b + ?wr) bs\<rparr>"
    using t(1) o i p rb n32
    by (auto simp: tfm_spm_partition_psa_write_def mark_accessed_def Let_def bind_eq_Some_conv upd_conn_def counters_def w_def u_def
        PSA_MAX_IOVEC_def split: if_splits)
  have uw: "unat (?wr + word_of_nat (length bs)) = unat ?wr + length bs"
    using f(1) unat_u32_lt[of ?sz] n32 by (subst unat_add_lt) simp_all
  have cnt: "invec_accessed ?C ! j \<le> in_size (msg ?C) ! j \<and> w ! j \<le> out_size (msg ?C) ! j" if "j < 4" for j
    using o that f(1) uw by (auto simp: w_def iov_within_def nth_list_update_if word_le_nat_alt)
  have okt: "spm_req_ok q t"
    unfolding te u_def c_def by (rule req_ok_counters[OF ok1]) (use lens cnt in \<open>auto simp: w_def c_def\<close>)
  have "inv_disjoint (conns u c) (?b + ?wr) (length bs)"
    using o i f(1) unat_u32_lt[of ?sz] by (auto simp: u_def inv_disjoint_def vecs_apart_def intro!: tail_disjoint)
  then have "spm_rest q t = spm_rest q u" using views_frame(1)[of u q "?b + ?wr" bs] by (simp add: te c_def)
  moreover have "spm_rest q u = spm_rest q s1" by (simp add: u_def spm_views fun_eq_iff c_def)
  ultimately have r: "spm_rest q t = spm_rest q s" using v1(1) by simp
  have "spm_written q t j = spm_written q s j" if "j \<noteq> i" for j
  proof (cases "j < 4")
    case True
    have "mem_disjoint ?b (unat ?sz) (outvec_base ?C ! j) (unat (out_size (msg ?C) ! j))" using o i True that by (auto simp: vecs_apart_def)
    then have "mem_disjoint (?b + ?wr) (length bs) (outvec_base ?C ! j) (unat (out_size (msg ?C) ! j))"
      using f(1) unat_u32_lt[of ?sz] by (rule tail_disjoint)
    then have "mem_disjoint (?b + ?wr) (length bs) (outvec_base (conns u c) ! j) (unat (outvec_written (conns u c) ! j))"
      using cnt[OF True] by (auto simp: u_def mem_disjoint_def word_le_nat_alt dest: less_le_trans)
    then have "spm_written q t j = spm_written q u j" unfolding te c_def by (rule views_frame(2))
    also have "\<dots> = spm_written q s1 j" using that by (simp add: u_def w_def spm_views c_def)
    finally show ?thesis by (simp add: v1(2))
  qed (simp add: spm_written_def)
  moreover have "spm_written q t i = spm_written q s i @ bs" unfolding v1(2)[symmetric] using t(2) i by (simp add: spm_written_def c_def)
  ultimately have wr: "spm_written q t = (spm_written q s)(i := spm_written q s i @ bs)" by (auto simp: fun_eq_iff)
  have rm: "spm_room q t = (spm_room q s)(i := spm_room q s i - length bs)"
    unfolding v1(3)[symmetric] using uw i lens by (auto simp: te u_def w_def spm_room_def c_def fun_eq_iff)
  show ?thesis using t(1) okt r wr rm by (auto simp: spm_write_req_def s1_def)
qed

interpretation srq: request_vectors "spm_read_req q" "spm_write_req q" "spm_req_ok q" "rq_cap q" "spm_rest q" "spm_written q" "spm_room q" for q
  by unfold_locales (use spm_read_vec spm_write_vec in blast)+

end
