(* ===== verification/ITS_Service_Props.thy ===== *)
theory ITS_Service_Props
  imports ITS_Service SPM_Request
begin

text \<open>
  Internal Trusted Storage as a store of assets: the service's operations against a table from
  clients and identifiers to data and flags. The vectors of a request are used through the contract
  \<open>request_vectors\<close>; the file systems are those over the RAM driver.
\<close>

section \<open>File identifiers\<close>

lemma length_le64 [simp]: "length (le64 n) = 8"
  by (simp add: le64_def)

lemma de64_le64 [simp]: "n < 2 ^ 64 \<Longrightarrow> de64 (le64 n) = n"
proof -
  assume n: "n < 2 ^ 64"
  then have "n div SIZE_MAX_P1 < SIZE_MAX_P1" by (simp add: div_less_iff_less_mult)
  then show ?thesis by (simp add: de64_def le64_def)
qed

definition client_ok :: "int \<Rightarrow> bool" where
  "client_ok client \<longleftrightarrow> - (2 ^ 31) \<le> client \<and> client < 2 ^ 31"

lemma fid_length [simp]: "length (tfm_its_get_fid client uid) = ITS_FILE_ID_SIZE"
  by (simp add: tfm_its_get_fid_def ITS_FILE_ID_SIZE_def)

lemma word_of_int_inj:
  assumes "client_ok a" "client_ok b" "(word_of_int a :: 32 word) = word_of_int b"
  shows "a = b"
proof -
  have "sint (word_of_int x :: 32 word) = x" if "client_ok x" for x
    using that by (simp add: client_ok_def sint_sbintrunc' signed_take_bit_int_eq_self)
  then show ?thesis using assms by metis
qed

lemma fid_inj:
  assumes "client_ok a" "client_ok b" "u < 2 ^ 64" "v < 2 ^ 64" "tfm_its_get_fid a u = tfm_its_get_fid b v"
  shows "a = b \<and> u = v"
proof -
  have e: "le32 (unat (word_of_int a :: 32 word)) = le32 (unat (word_of_int b :: 32 word))" "le64 u = le64 v"
    using assms(5) by (simp_all add: tfm_its_get_fid_def append_eq_append_conv)
  have lt: "unat (w :: 32 word) < SIZE_MAX_P1" for w using unat_u32_lt[of w] by simp
  have "unat (word_of_int a :: 32 word) = unat (word_of_int b :: 32 word)" by (metis e(1) de32_le32 lt)
  then have "a = b" using word_of_int_inj[OF assms(1,2)] by (simp add: word_unat_eq_iff)
  moreover have "u = v" by (metis e(2) de64_le64 assms(3,4))
  ultimately show ?thesis ..
qed

lemma le32_zero: "n < SIZE_MAX_P1 \<Longrightarrow> \<forall>x \<in> set (le32 n). x = 0 \<Longrightarrow> n = 0"
proof -
  assume n: "n < SIZE_MAX_P1" and z: "\<forall>x \<in> set (le32 n). x = 0"
  have "le32 n = le32 0" by (rule nth_equalityI) (use z in \<open>auto simp: le32_def\<close>)
  then have "de32 (le32 n) = de32 (le32 0)" by simp
  then show "n = 0" using n by simp
qed

lemma fid_valid_uid:
  assumes "uid \<noteq> 0" "uid < 2 ^ 64"
  shows "fid_valid (tfm_its_get_fid client uid)"
proof -
  have "\<exists>x \<in> set (le64 uid). x \<noteq> 0"
  proof (rule ccontr)
    assume "\<not> ?thesis"
    then have "\<forall>x \<in> set (le32 (uid mod SIZE_MAX_P1)). x = 0" "\<forall>x \<in> set (le32 (uid div SIZE_MAX_P1)). x = 0"
      by (auto simp: le64_def)
    moreover have "uid div SIZE_MAX_P1 < SIZE_MAX_P1" using assms(2) by (simp add: div_less_iff_less_mult)
    ultimately have "uid mod SIZE_MAX_P1 = 0" "uid div SIZE_MAX_P1 = 0" by (simp_all add: le32_zero)
    then show False using assms(1) by (metis div_mult_mod_eq add_0 mult_0)
  qed
  then show ?thesis
    unfolding its_utils_validate_fid_def using validate_fid_loop_iff[OF fid_length[of client uid]]
    by (auto simp: tfm_its_get_fid_def)
qed

section \<open>Sizes\<close>

context flash_fs
begin

lemma file_length_bound:
  assumes inv: "fs_layout_inv content dev_ok c s" and f: "fid_valid f" "length f = ITS_FILE_ID_SIZE"
    and v: "fs_files content c s f = Some v"
  shows "length (file_data v) < SIZE_MAX_P1"
proof -
  define m where "m = active_meta content s"
  have st: "staged m s" using staged_inv[OF inv] by (simp add: m_def)
  note wd = workingD[of m s]
  have w: "working m s" using st by (simp add: staged_def)
  obtain i where i: "file_index c (fmeta c m) f = Some i" "v = file_view content (dev s) (bmeta m) (fmeta c m i)"
    using v lookup[OF f m_def] by auto
  have j: "i < max_num_files c" "fid_valid (fid (fmeta c m i))" using file_index_Some[OF i(1)] f by auto
  have "length (data_of content (dev s) (bmeta m) (fmeta c m i)) = cur_size (fmeta c m i)" by (rule length_data_of[OF st j])
  moreover have "cur_size (fmeta c m i) < SIZE_MAX_P1"
    using fmeta_typed[OF workingD(1,7)[OF w] j(1)] by (simp add: file_meta_typed_def)
  ultimately show ?thesis by (simp add: i(2) file_view_def)
qed

end

context flash_fs
begin

lemma file_read_zero:
  assumes inv: "fs_layout_inv content dev_ok c s" and f: "fid_valid f" "length f = ITS_FILE_ID_SIZE"
    and v: "fs_files content c s f = Some v" and o: "off \<le> length (file_data v)"
  shows "\<exists>b a. its_flash_fs_file_read c f 0 off s = on_error PSA_ERROR_GENERIC_ERROR (dev_read c b a 0) s"
proof -
  define m where "m = active_meta content s"
  have st: "staged m s" using staged_inv[OF inv] by (simp add: m_def)
  have w: "working m s" using st by (simp add: staged_def)
  note wd = workingD[OF w]
  obtain i where i: "file_index c (fmeta c m) f = Some i" "v = file_view content (dev s) (bmeta m) (fmeta c m i)"
    using v lookup[OF f m_def] by auto
  let ?f = "fmeta c m i" and ?p = "phy_id (bmeta m (lblock (fmeta c m i)))"
  have j: "i < max_num_files c" "fid_valid (fid ?f)" using file_index_Some[OF i(1)] f by auto
  note fl = file_in_layout[OF staged_layout[OF st] j]
  have "cur_size ?f < SIZE_MAX_P1" using fmeta_typed[OF wd(1,7) j(1)] by (simp add: file_meta_typed_def)
  note chk = check_contained_in_iff[OF this, of off 0]
  have "off \<le> cur_size ?f" using o length_data_of[OF st j] by (simp add: i(2) file_view_def)
  moreover have "its_flash_fs_mblock_get_file_idx_meta c f s = (Inr (i, ?f), s)" using get_file_idx_meta_ok[OF w, of f] i by simp
  moreover have "?p < NB" by (rule staged_target(4)[OF st fl(1)])
  then have "?p \<noteq> ITS_BLOCK_INVALID_ID" using wd(1) by (auto simp: ITS_BLOCK_INVALID_ID_def cfg_ok_def cfg_typed_def)
  ultimately have "its_flash_fs_file_read c f 0 off s
      = on_error PSA_ERROR_GENERIC_ERROR (dev_read c ?p (add32 (data_idx ?f) off) 0) s"
    using chk read_block_metadata_ok[OF w fl(1)]
    by (simp add: its_flash_fs_file_read_def its_flash_fs_dblock_read_file_def its_dblock_lo_to_phy_def bind_io_def on_error_def try_io_def lift_status_def return_io_def)
  then show ?thesis by blast
qed

end

lemma ram_read_zero:
  assumes "ops c = its_flash_fs_ops_ram" "ram_fs_inv c s" "fid_valid f" "length f = ITS_FILE_ID_SIZE"
    and "ram_files c s f = Some v" "off \<le> length (file_data v)"
  shows "its_flash_fs_file_read c f 0 off s \<in> {(Inr [], s), (Inl PSA_ERROR_GENERIC_ERROR, s)}"
proof -
  obtain b a where "its_flash_fs_file_read c f 0 off s = on_error PSA_ERROR_GENERIC_ERROR (dev_read c b a 0) s"
    using rfs.file_read_zero[of c s f v off] assms unfolding ram_config_id[OF assms(1)] by (auto simp: fs_inv_def)
  then show ?thesis
    using assms(1) by (simp add: dev_read_def on_error_def its_flash_fs_ops_ram_def its_flash_ram_read_def Let_def rd_def)
qed

lemma ram_length_bound:
  assumes "ops c = its_flash_fs_ops_ram" "ram_fs_inv c s" "fid_valid f" "length f = ITS_FILE_ID_SIZE" "ram_files c s f = Some v"
  shows "length (file_data v) < SIZE_MAX_P1"
  using rfs.file_length_bound[of c s f v] assms unfolding ram_config_id[OF assms(1)] by (simp add: fs_inv_def)

section \<open>Assets\<close>

text \<open>Both file systems are sound, over the RAM driver with byte alignment, and the buffer is not empty.\<close>

definition its_fs_ok :: "(ram_dev, 'r) its_state \<Rightarrow> bool" where
  "its_fs_ok s \<longleftrightarrow> (\<forall>fs. ops (fs_cfg fs s) = its_flash_fs_ops_ram \<and> max_alignment (fs_cfg fs s) = 1
       \<and> ram_fs_inv (fs_cfg fs s) (fs_ctx fs s))
     \<and> 0 < length (asset_data s) \<and> length (asset_data s) < SIZE_MAX_P1"

definition its_files :: "'r its_env \<Rightarrow> int \<Rightarrow> (ram_dev, 'r) its_state \<Rightarrow> byte list \<Rightarrow> its_file option" where
  "its_files env client s = ram_files (fs_cfg (get_fs_ctx env client) s) (fs_ctx (get_fs_ctx env client) s)"

text \<open>The store: data and user flags of each client's assets.\<close>

definition its_store :: "'r its_env \<Rightarrow> (ram_dev, 'r) its_state \<Rightarrow> int \<Rightarrow> nat \<Rightarrow> (byte list \<times> 32 word) option" where
  "its_store env s client uid = map_option (\<lambda>v. (file_data v, file_flags v AND ITS_FLASH_FS_USER_FLAGS_MASK))
     (its_files env client s (tfm_its_get_fid client uid))"

lemma set_ctx_simps [simp]:
  "fs_cfg x (set_ctx fs c s) = fs_cfg x s" "fs_ctx x (set_ctx fs c s) = (if x = fs then c else fs_ctx x s)"
  "req (set_ctx fs c s) = req s" "asset_data (set_ctx fs c s) = asset_data s" "g_fid (set_ctx fs c s) = g_fid s"
  "g_file_info (set_ctx fs c s) = g_file_info s" "set_ctx fs (fs_ctx fs s) s = s"
  by (cases fs; cases x; simp add: fs_cfg_def fs_ctx_def set_ctx_def)+

lemma fs_upd_simps [simp]:
  "fs_cfg x (s\<lparr>g_fid := f\<rparr>) = fs_cfg x s" "fs_cfg x (s\<lparr>g_file_info := i\<rparr>) = fs_cfg x s"
  "fs_cfg x (s\<lparr>asset_data := a\<rparr>) = fs_cfg x s" "fs_cfg x (s\<lparr>req := r\<rparr>) = fs_cfg x s"
  "fs_ctx x (s\<lparr>g_fid := f\<rparr>) = fs_ctx x s" "fs_ctx x (s\<lparr>g_file_info := i\<rparr>) = fs_ctx x s"
  "fs_ctx x (s\<lparr>asset_data := a\<rparr>) = fs_ctx x s" "fs_ctx x (s\<lparr>req := r\<rparr>) = fs_ctx x s"
  by (simp_all add: fs_cfg_def fs_ctx_def split: its_fs.split)

text \<open>What an operation on one file system leaves alone.\<close>

definition its_frame :: "its_fs \<Rightarrow> (ram_dev, 'r) its_state \<Rightarrow> (ram_dev, 'r) its_state \<Rightarrow> bool" where
  "its_frame fs s t \<longleftrightarrow> (\<forall>x. fs_cfg x t = fs_cfg x s) \<and> (\<forall>x. x \<noteq> fs \<longrightarrow> fs_ctx x t = fs_ctx x s)
     \<and> length (asset_data t) = length (asset_data s)"

lemma its_frame_trans: "its_frame fs s t \<Longrightarrow> its_frame fs t u \<Longrightarrow> its_frame fs s u"
  by (auto simp: its_frame_def)

lemma its_frame_refl [simp]: "its_frame fs s s"
  by (simp add: its_frame_def)

lemma its_fs_okD:
  "its_fs_ok s \<Longrightarrow> ops (fs_cfg fs s) = its_flash_fs_ops_ram \<and> max_alignment (fs_cfg fs s) = 1 \<and> ram_fs_inv (fs_cfg fs s) (fs_ctx fs s)"
  by (auto simp: its_fs_ok_def)

lemma its_fs_ok_frame:
  assumes "its_fs_ok s" "its_frame fs s t" "ram_fs_inv (fs_cfg fs s) (fs_ctx fs t)"
  shows "its_fs_ok t"
  using assms unfolding its_fs_ok_def its_frame_def by metis

text \<open>Reading the file information.\<close>

lemma ram_get_info:
  assumes "ops c = its_flash_fs_ops_ram" "ram_fs_inv c s" "fid_valid f" "length f = ITS_FILE_ID_SIZE"
  shows "its_flash_fs_file_get_info c f s =
    (case ram_files c s f of
       None \<Rightarrow> (Inl PSA_ERROR_DOES_NOT_EXIST, s)
     | Some v \<Rightarrow> (Inr \<lparr>size_current = length (file_data v), size_max = file_max v,
                     info_flags = file_flags v AND ITS_FLASH_FS_USER_FLAGS_MASK\<rparr>, s))"
  using rfs.file_get_info_refines[of c s f] assms unfolding ram_config_id[OF assms(1)]
  by (simp add: fs_inv_def)

lemma get_file_info_eq:
  assumes ok: "its_fs_ok s" and uid: "uid \<noteq> 0" "uid < 2 ^ 64"
  shows "get_file_info env uid client s =
    (case its_files env client s (tfm_its_get_fid client uid) of
       None \<Rightarrow> (Inl PSA_ERROR_DOES_NOT_EXIST, s\<lparr>g_fid := tfm_its_get_fid client uid\<rparr>)
     | Some v \<Rightarrow> (Inr (), s\<lparr>g_fid := tfm_its_get_fid client uid,
         g_file_info := \<lparr>size_current = length (file_data v), size_max = file_max v,
           info_flags = file_flags v AND ITS_FLASH_FS_USER_FLAGS_MASK\<rparr>\<rparr>))"
proof -
  let ?fs = "get_fs_ctx env client" and ?f = "tfm_its_get_fid client uid"
  have "its_flash_fs_file_get_info (fs_cfg ?fs s) ?f (fs_ctx ?fs s) =
    (case its_files env client s ?f of
       None \<Rightarrow> (Inl PSA_ERROR_DOES_NOT_EXIST, fs_ctx ?fs s)
     | Some v \<Rightarrow> (Inr \<lparr>size_current = length (file_data v), size_max = file_max v,
                     info_flags = file_flags v AND ITS_FLASH_FS_USER_FLAGS_MASK\<rparr>, fs_ctx ?fs s))"
    unfolding its_files_def using its_fs_okD[OF ok, of ?fs] fid_valid_uid[OF uid] by (intro ram_get_info) auto
  then show ?thesis
    using uid set_ctx_simps(7)[of ?fs "s\<lparr>g_fid := ?f\<rparr>"]
    by (cases "its_files env client s ?f")
      (auto simp: get_file_info_def its_msg_consts io_simps fs_io_def bind_io_def modify_io_def gets_io_def)
qed

section \<open>Writing\<close>

lemma write_data_eq:
  assumes ok: "its_fs_ok s" and f: "fid_valid f" "length f = ITS_FILE_ID_SIZE" and sz: "sz \<le> length data"
    and base: "sz = 0 \<or> length (file_data (write_base (g_file_info s) (its_files env client s f))) \<le> off + sz"
  defines "fs \<equiv> get_fs_ctx env client"
  defines "e \<equiv> ram_write_status (fs_cfg fs s) (fs_ctx fs s) f (g_file_info s) sz off"
  shows "\<exists>t. tfm_its_write_data_to_fs env client f sz off data s = ((case e of Some x \<Rightarrow> Inl x | None \<Rightarrow> Inr ()), t)
    \<and> its_fs_ok t \<and> its_frame fs s t \<and> req t = req s \<and> g_fid t = g_fid s \<and> g_file_info t = g_file_info s
    \<and> its_files env client t = (case e of Some _ \<Rightarrow> its_files env client s
       | None \<Rightarrow> (its_files env client s)(f \<mapsto> write_at sz off data (write_base (g_file_info s) (its_files env client s f))))"
proof -
  note okD = its_fs_okD[OF ok, of fs]
  obtain c where c: "its_flash_fs_file_write (fs_cfg fs s) f (Some (g_file_info s)) sz off data (fs_ctx fs s)
      = ((case e of Some e \<Rightarrow> Inl e | None \<Rightarrow> Inr (g_file_info s)), c)" "ram_fs_inv (fs_cfg fs s) c"
    "ram_files (fs_cfg fs s) c = (case e of Some e \<Rightarrow> its_files env client s
        | None \<Rightarrow> (its_files env client s)(f \<mapsto> write_at sz off data (write_base (g_file_info s) (its_files env client s f))))"
    using ram_write[OF conjunct1[OF okD] _ _ f sz, of "fs_ctx fs s" "g_file_info s" off] okD base
    unfolding its_files_def fs_def[symmetric] e_def by blast
  have fr: "its_frame fs s (set_ctx fs c s)" by (simp add: its_frame_def)
  have same: "(set_ctx fs c s)\<lparr>g_file_info := g_file_info s\<rparr> = set_ctx fs c s"
    using set_ctx_simps(6)[of fs c s] by (metis its_state.surjective its_state.update_convs(6))
  have run: "tfm_its_write_data_to_fs env client f sz off data s = ((case e of Some x \<Rightarrow> Inl x | None \<Rightarrow> Inr ()), set_ctx fs c s)"
    using c(1) same
    by (cases e) (simp_all add: tfm_its_write_data_to_fs_def io_simps fs_io_def bind_io_def gets_io_def modify_io_def fs_def[symmetric])
  show ?thesis
    by (intro exI[of _ "set_ctx fs c s"] conjI)
      (use run its_fs_ok_frame[OF ok fr] c fr in \<open>simp_all add: its_files_def fs_def[symmetric]\<close>)
qed

text \<open>The flags of the file system that a set request may not bring in.\<close>

lemma fs_flag_disjoint:
  assumes "cf AND NOT (PSA_STORAGE_FLAG_WRITE_ONCE OR PSA_STORAGE_FLAG_NO_CONFIDENTIALITY OR PSA_STORAGE_FLAG_NO_REPLAY_PROTECTION) = 0"
  shows "(cf OR ITS_FLASH_FS_FLAG_CREATE OR ITS_FLASH_FS_FLAG_TRUNCATE) AND ITS_FLASH_FS_INTERNAL_FLAGS_MASK = 0"
    "(cf OR ITS_FLASH_FS_FLAG_CREATE OR ITS_FLASH_FS_FLAG_TRUNCATE) AND ITS_FLASH_FS_FLAG_TRUNCATE \<noteq> 0"
    "(cf OR ITS_FLASH_FS_FLAG_CREATE OR ITS_FLASH_FS_FLAG_TRUNCATE) AND ITS_FLASH_FS_FLAG_CREATE \<noteq> 0"
    "(cf OR ITS_FLASH_FS_FLAG_CREATE OR ITS_FLASH_FS_FLAG_TRUNCATE) AND NOT (ITS_FLASH_FS_FLAG_CREATE OR ITS_FLASH_FS_FLAG_TRUNCATE) = cf"
    "(cf OR ITS_FLASH_FS_FLAG_CREATE OR ITS_FLASH_FS_FLAG_TRUNCATE) AND ITS_FLASH_FS_USER_FLAGS_MASK = cf"
    "cf AND ITS_FLASH_FS_FLAG_TRUNCATE = 0" "cf AND ITS_FLASH_FS_INTERNAL_FLAGS_MASK = 0"
proof -
  have "cf = cf AND (PSA_STORAGE_FLAG_WRITE_ONCE OR PSA_STORAGE_FLAG_NO_CONFIDENTIALITY OR PSA_STORAGE_FLAG_NO_REPLAY_PROTECTION)"
    using assms by (metis (no_types, lifting) bit.conj_cancel_right bit.conj_disj_distrib bit.disj_cancel_right and.right_neutral or.right_neutral)
  then have cf: "cf = cf AND 7" by (simp add: storage_flags)
  have z: "cf AND m = cf AND (7 AND m)" for m by (metis cf and.assoc)
  show "cf AND ITS_FLASH_FS_FLAG_TRUNCATE = 0" "cf AND ITS_FLASH_FS_INTERNAL_FLAGS_MASK = 0"
    by (subst z, simp add: its_fs_flag_consts)+
  show "(cf OR ITS_FLASH_FS_FLAG_CREATE OR ITS_FLASH_FS_FLAG_TRUNCATE) AND ITS_FLASH_FS_INTERNAL_FLAGS_MASK = 0"
    by (simp add: bit.conj_disj_distrib2 z[of ITS_FLASH_FS_INTERNAL_FLAGS_MASK]) (simp add: its_fs_flag_consts)
  show "(cf OR ITS_FLASH_FS_FLAG_CREATE OR ITS_FLASH_FS_FLAG_TRUNCATE) AND ITS_FLASH_FS_FLAG_TRUNCATE \<noteq> 0"
    by (simp add: bit.conj_disj_distrib2 z[of ITS_FLASH_FS_FLAG_TRUNCATE]) (simp add: its_fs_flag_consts)
  show "(cf OR ITS_FLASH_FS_FLAG_CREATE OR ITS_FLASH_FS_FLAG_TRUNCATE) AND ITS_FLASH_FS_FLAG_CREATE \<noteq> 0"
    by (simp add: bit.conj_disj_distrib2 z[of ITS_FLASH_FS_FLAG_CREATE]) (simp add: its_fs_flag_consts)
  have n: "cf AND NOT (ITS_FLASH_FS_FLAG_CREATE OR ITS_FLASH_FS_FLAG_TRUNCATE) = cf" "cf AND ITS_FLASH_FS_USER_FLAGS_MASK = cf"
  proof -
    have "7 AND NOT (ITS_FLASH_FS_FLAG_CREATE OR ITS_FLASH_FS_FLAG_TRUNCATE) = 7" "7 AND ITS_FLASH_FS_USER_FLAGS_MASK = 7"
      by (simp_all add: its_fs_flag_consts)
    then show "cf AND NOT (ITS_FLASH_FS_FLAG_CREATE OR ITS_FLASH_FS_FLAG_TRUNCATE) = cf" "cf AND ITS_FLASH_FS_USER_FLAGS_MASK = cf"
      using z cf by metis+
  qed
  show "(cf OR ITS_FLASH_FS_FLAG_CREATE OR ITS_FLASH_FS_FLAG_TRUNCATE) AND NOT (ITS_FLASH_FS_FLAG_CREATE OR ITS_FLASH_FS_FLAG_TRUNCATE) = cf"
    unfolding bit.conj_disj_distrib2 n by (simp add: its_fs_flag_consts)
  show "(cf OR ITS_FLASH_FS_FLAG_CREATE OR ITS_FLASH_FS_FLAG_TRUNCATE) AND ITS_FLASH_FS_USER_FLAGS_MASK = cf"
    unfolding bit.conj_disj_distrib2 n by (simp add: its_fs_flag_consts)
qed

text \<open>
  Why a set request may fail in the file system: a file of another size needs a new entry, which must
  be within the maximum file size and find room.
\<close>

definition its_set_error :: "'r its_env \<Rightarrow> (ram_dev, 'r) its_state \<Rightarrow> int \<Rightarrow> nat \<Rightarrow> nat \<Rightarrow> psa_error option" where
  "its_set_error env s client uid n =
     (let fs = get_fs_ctx env client; old = its_files env client s (tfm_its_get_fid client uid) in
      if (case old of None \<Rightarrow> True | Some v \<Rightarrow> file_max v \<noteq> n) then
        if n > max_file_size (fs_cfg fs s) then Some PSA_ERROR_INVALID_ARGUMENT
        else if \<not> has_room (ram_content (flash_cfg (fs_cfg fs s))) (fs_cfg fs s) (fs_ctx fs s) n (old \<noteq> None)
        then Some PSA_ERROR_INSUFFICIENT_STORAGE
        else None
      else None)"

locale its_requests = request_vectors "psa_read_req env" "psa_write_req env" req_ok buf_size rest written room
  for env :: "'r its_env" and req_ok :: "'r \<Rightarrow> bool" and buf_size :: nat and rest :: "'r \<Rightarrow> nat \<Rightarrow> byte list"
    and written :: "'r \<Rightarrow> nat \<Rightarrow> byte list" and room :: "'r \<Rightarrow> nat \<Rightarrow> nat"
begin

text \<open>One chunk of the request into the buffer.\<close>

lemma read_chunk:
  assumes "req_ok (req s)" "its_fs_ok s" "n \<le> length (rest (req s) 1)" "length (asset_data s) \<le> buf_size"
  defines "w \<equiv> min n (length (asset_data s))"
  obtains r where "psa_read_req env 1 w (req s) = Some (take w (rest (req s) 1), r)" "req_ok r"
    "rest r = (rest (req s))(1 := drop w (rest (req s) 1))" "written r = written (req s)" "room r = room (req s)"
    "length (take w (rest (req s) 1) @ drop (length (take w (rest (req s) 1))) (asset_data s)) = length (asset_data s)"
    "take w (take w (rest (req s) 1) @ drop (length (take w (rest (req s) 1))) (asset_data s)) = take w (rest (req s) 1)"
proof -
  have "w \<le> buf_size" using assms(4) by (simp add: w_def)
  then obtain r where r: "psa_read_req env 1 w (req s) = Some (take w (rest (req s) 1), r)" "req_ok r"
    "rest r = (rest (req s))(1 := drop w (rest (req s) 1))" "written r = written (req s)" "room r = room (req s)"
    using read_vec[OF assms(1), of 1 w] by auto
  have "length (take w (rest (req s) 1)) = w" "w \<le> length (asset_data s)" using assms(3) by (auto simp: w_def)
  then show thesis by (intro that[OF r]) simp_all
qed

text \<open>One iteration of the loop: the chunk is written, or the loop ends with the error.\<close>

lemma set_loop_step:
  fixes client :: int
  assumes ok: "its_fs_ok s" "req_ok (req s)" and f: "fid_valid (g_fid s)" "length (g_fid s) = ITS_FILE_ID_SIZE"
    and n: "n \<le> length (rest (req s) 1)" "off + n < SIZE_MAX_P1" and bz: "length (asset_data s) \<le> buf_size"
  defines "fs \<equiv> get_fs_ctx env client" and "w \<equiv> min n (length (asset_data s))"
  defines "e \<equiv> ram_write_status (fs_cfg fs s) (fs_ctx fs s) (g_fid s) (g_file_info s) w off"
  defines "v \<equiv> write_base (g_file_info s) (its_files env client s (g_fid s))"
  assumes b: "w = 0 \<or> length (file_data v) \<le> off + w"
  shows "\<exists>t. its_set_loop env client n off s = (case e of Some x \<Rightarrow> Some (Inl x, t)
        | None \<Rightarrow> if 0 < n - w then its_set_loop env client (n - w) (off + w) t else Some (Inr (), t))
    \<and> its_fs_ok t \<and> req_ok (req t) \<and> its_frame fs s t \<and> written (req t) = written (req s)
    \<and> rest (req t) 1 = drop w (rest (req s) 1) \<and> g_fid t = g_fid s
    \<and> (e = None \<longrightarrow> info_flags (g_file_info t) = info_flags (g_file_info s) AND NOT (ITS_FLASH_FS_FLAG_CREATE OR ITS_FLASH_FS_FLAG_TRUNCATE))
    \<and> its_files env client t = (case e of Some _ \<Rightarrow> its_files env client s
        | None \<Rightarrow> (its_files env client s)(g_fid s \<mapsto> write_at w off (rest (req s) 1) v))"
proof -
  let ?rest = "rest (req s) 1"
  have nb: "n < SIZE_MAX_P1" using n(2) by simp
  obtain r where r: "psa_read_req env 1 w (req s) = Some (take w ?rest, r)" "req_ok r"
    "rest r = (rest (req s))(1 := drop w ?rest)" "written r = written (req s)"
    "length (take w ?rest @ drop (length (take w ?rest)) (asset_data s)) = length (asset_data s)"
    "take w (take w ?rest @ drop (length (take w ?rest)) (asset_data s)) = take w ?rest"
    using read_chunk[OF ok(2,1) n(1) bz] unfolding w_def by metis
  define a where "a = take w ?rest @ drop (length (take w ?rest)) (asset_data s)"
  define s1 where "s1 = s\<lparr>req := r, asset_data := a\<rparr>"
  have fr1: "its_frame fs s s1" using r(5) by (simp add: its_frame_def s1_def a_def)
  have ok1: "its_fs_ok s1"
    by (rule its_fs_ok_frame[OF ok(1) fr1]) (use its_fs_okD[OF ok(1)] in \<open>simp add: s1_def\<close>)
  have f1: "its_files env client s1 = its_files env client s" "g_fid s1 = g_fid s" "g_file_info s1 = g_file_info s"
    "fs_cfg fs s1 = fs_cfg fs s" "fs_ctx fs s1 = fs_ctx fs s" "asset_data s1 = a" "req s1 = r"
    by (simp_all add: its_files_def s1_def)
  have la: "w \<le> length a" using r(5) by (simp add: a_def w_def)
  have wa: "write_at w off a v = write_at w off ?rest v" using r(6) by (simp add: write_at_def a_def)
  obtain s2 where s2: "tfm_its_write_data_to_fs env client (g_fid s) w off a s1 = ((case e of Some x \<Rightarrow> Inl x | None \<Rightarrow> Inr ()), s2)"
    "its_fs_ok s2" "its_frame fs s1 s2" "req s2 = r" "g_fid s2 = g_fid s" "g_file_info s2 = g_file_info s"
    "its_files env client s2 = (case e of Some _ \<Rightarrow> its_files env client s | None \<Rightarrow> (its_files env client s)(g_fid s \<mapsto> write_at w off ?rest v))"
    using write_data_eq[OF ok1 f la, of env client off] b unfolding fs_def[symmetric] f1 e_def[symmetric] v_def[symmetric] wa by auto
  define s3 where "s3 = s2\<lparr>g_file_info := (g_file_info s2)\<lparr>info_flags :=
      info_flags (g_file_info s2) AND NOT (ITS_FLASH_FS_FLAG_CREATE OR ITS_FLASH_FS_FLAG_TRUNCATE)\<rparr>\<rparr>"
  have ar: "sub32 n w = n - w" "add32 off w = off + w" using n nb by (simp_all add: wrap_simps w_def)
  have unf: "its_set_loop env client n off s = (case e of Some x \<Rightarrow> Some (Inl x, s2)
      | None \<Rightarrow> if 0 < n - w then its_set_loop env client (n - w) (off + w) s3 else Some (Inr (), s3))"
    by (subst its_set_loop.simps, cases e)
      (use s2(1) r(1) in \<open>simp_all add: Let_def w_def[symmetric] s3_def ar s1_def a_def\<close>)
  have fr2: "its_frame fs s s2" by (rule its_frame_trans[OF fr1 s2(3)])
  have s3: "its_fs_ok s3" "its_frame fs s s3" "req s3 = r" "g_fid s3 = g_fid s" "its_files env client s3 = its_files env client s2"
    using s2 fr2 by (auto simp: s3_def its_fs_ok_def its_frame_def its_files_def)
  show ?thesis
  proof (cases e)
    case None
    then show ?thesis using unf s3 r(2-4) s2(6,7) by (intro exI[of _ s3]) (simp add: s3_def)
  next
    case (Some x)
    then show ?thesis using unf r(2-4) s2 fr2 by (intro exI[of _ s2]) simp
  qed
qed

text \<open>The iterations after the first one always succeed.\<close>

lemma set_loop_rest:
  assumes "its_fs_ok s" "req_ok (req s)" "fid_valid (g_fid s)" "length (g_fid s) = ITS_FILE_ID_SIZE"
    "its_files env client s (g_fid s) = Some v" "info_flags (g_file_info s) AND ITS_FLASH_FS_FLAG_TRUNCATE = 0"
    "info_flags (g_file_info s) AND ITS_FLASH_FS_INTERNAL_FLAGS_MASK = 0"
    "off = length (file_data v)" "off + n \<le> file_max v" "file_max v < SIZE_MAX_P1" "0 < n" "n \<le> length (rest (req s) 1)"
    "length (asset_data s) \<le> buf_size"
  shows "\<exists>t. its_set_loop env client n off s = Some (Inr (), t) \<and> its_fs_ok t \<and> req_ok (req t)
    \<and> its_frame (get_fs_ctx env client) s t \<and> written (req t) = written (req s)
    \<and> its_files env client t = (its_files env client s)(g_fid s \<mapsto> v\<lparr>file_data := file_data v @ take n (rest (req s) 1)\<rparr>)"
  using assms
proof (induction n arbitrary: s off v rule: less_induct)
  case (less n)
  let ?fs = "get_fs_ctx env client" and ?rest = "rest (req s) 1"
  define w where "w = min n (length (asset_data s))"
  have w: "0 < w" "w \<le> n" using less.prems(1,11) by (auto simp: w_def its_fs_ok_def)
  have base: "write_base (g_file_info s) (its_files env client s (g_fid s)) = v" using less.prems(5,6) by (simp add: write_base_def)
  have st: "ram_write_status (fs_cfg ?fs s) (fs_ctx ?fs s) (g_fid s) (g_file_info s) w off = None"
    using less.prems(5-9) w base by (simp add: write_status_def needs_entry_def its_files_def[symmetric] Let_def)
  let ?v = "v\<lparr>file_data := file_data v @ take w ?rest\<rparr>"
  have wa: "write_at w off ?rest v = ?v" using w(1) less.prems(8) by (simp add: write_at_def)
  have nb: "off + n < SIZE_MAX_P1" using less.prems(9,10) by linarith
  obtain t where t: "its_set_loop env client n off s = (if 0 < n - w then its_set_loop env client (n - w) (off + w) t else Some (Inr (), t))"
    "its_fs_ok t" "req_ok (req t)" "its_frame ?fs s t" "written (req t) = written (req s)"
    "rest (req t) 1 = drop w ?rest" "g_fid t = g_fid s"
    "info_flags (g_file_info t) = info_flags (g_file_info s) AND NOT (ITS_FLASH_FS_FLAG_CREATE OR ITS_FLASH_FS_FLAG_TRUNCATE)"
    "its_files env client t = (its_files env client s)(g_fid s \<mapsto> ?v)"
    using set_loop_step[OF less.prems(1-4,12) nb less.prems(13), of client] less.prems(8)
    unfolding w_def[symmetric] st base wa option.case by auto
  show ?case
  proof (cases "0 < n - w")
    case False
    then have "n = w" using w(2) by simp
    then show ?thesis using t False by auto
  next
    case True
    have zero: "x AND m = 0 \<Longrightarrow> (x AND y) AND m = 0" for x y m :: "32 word"
    proof -
      assume "x AND m = 0"
      moreover have "(x AND y) AND m = (x AND m) AND y" by (simp only: and.assoc and.commute[of y m])
      ultimately show "(x AND y) AND m = 0" by simp
    qed
    have "\<exists>u. its_set_loop env client (n - w) (off + w) t = Some (Inr (), u) \<and> its_fs_ok u \<and> req_ok (req u)
      \<and> its_frame ?fs t u \<and> written (req u) = written (req t)
      \<and> its_files env client u = (its_files env client t)(g_fid t \<mapsto> ?v\<lparr>file_data := file_data ?v @ take (n - w) (rest (req t) 1)\<rparr>)"
      using less.prems True w t by (intro less.IH) (auto simp: zero its_frame_def)
    moreover have "take w ?rest @ take (n - w) (drop w ?rest) = take n ?rest" using w(2) by (metis take_add le_add_diff_inverse)
    ultimately show ?thesis
      using t True its_frame_trans[OF t(4)] by (auto simp: fun_eq_iff)
  qed
qed

text \<open>The whole loop: the outcome of the first write is the outcome of the request.\<close>

lemma set_loop:
  assumes ok: "its_fs_ok s" "req_ok (req s)" and uid: "uid \<noteq> 0" "uid < 2 ^ 64" and n: "n < SIZE_MAX_P1" "n \<le> length (rest (req s) 1)" and bz: "length (asset_data s) \<le> buf_size"
    and cf: "cf AND NOT (PSA_STORAGE_FLAG_WRITE_ONCE OR PSA_STORAGE_FLAG_NO_CONFIDENTIALITY OR PSA_STORAGE_FLAG_NO_REPLAY_PROTECTION) = 0"
    and s: "g_fid s = tfm_its_get_fid client uid" "size_max (g_file_info s) = n"
      "info_flags (g_file_info s) = cf OR ITS_FLASH_FS_FLAG_CREATE OR ITS_FLASH_FS_FLAG_TRUNCATE"
  shows "\<exists>t. its_set_loop env client n 0 s = Some ((case its_set_error env s client uid n of Some e \<Rightarrow> Inl e | None \<Rightarrow> Inr ()), t)
    \<and> its_fs_ok t \<and> req_ok (req t) \<and> its_frame (get_fs_ctx env client) s t \<and> written (req t) = written (req s)
    \<and> its_files env client t = (case its_set_error env s client uid n of Some _ \<Rightarrow> its_files env client s
        | None \<Rightarrow> (its_files env client s)(tfm_its_get_fid client uid \<mapsto>
            \<lparr>file_max = n, file_flags = cf OR ITS_FLASH_FS_FLAG_CREATE OR ITS_FLASH_FS_FLAG_TRUNCATE, file_data = take n (rest (req s) 1)\<rparr>))"
proof -
  let ?fs = "get_fs_ctx env client" and ?rest = "rest (req s) 1" and ?f = "tfm_its_get_fid client uid"
    and ?fl = "cf OR ITS_FLASH_FS_FLAG_CREATE OR ITS_FLASH_FS_FLAG_TRUNCATE"
  note fl = fs_flag_disjoint[OF cf]
  define w where "w = min n (length (asset_data s))"
  have f: "fid_valid (g_fid s)" "length (g_fid s) = ITS_FILE_ID_SIZE" using fid_valid_uid[OF uid] s(1) by simp_all
  let ?v = "\<lparr>file_max = n, file_flags = ?fl, file_data = []\<rparr>"
  have base: "write_base (g_file_info s) (its_files env client s (g_fid s)) = ?v"
    using s(2,3) fl(2) by (auto simp: write_base_def Let_def split: option.split)
  have st: "ram_write_status (fs_cfg ?fs s) (fs_ctx ?fs s) (g_fid s) (g_file_info s) w 0 = its_set_error env s client uid n"
    unfolding write_status_def Let_def its_files_def[symmetric] base
    using s fl(1,2,3) by (auto simp: its_set_error_def needs_entry_def w_def its_files_def[symmetric] Let_def split: option.split)
  have nb: "0 + n < SIZE_MAX_P1" using n by simp
  let ?E = "its_set_error env s client uid n"
  obtain t where t: "its_set_loop env client n 0 s = (case ?E of Some x \<Rightarrow> Some (Inl x, t)
        | None \<Rightarrow> if 0 < n - w then its_set_loop env client (n - w) (0 + w) t else Some (Inr (), t))"
    "its_fs_ok t" "req_ok (req t)" "its_frame ?fs s t" "written (req t) = written (req s)" "rest (req t) 1 = drop w ?rest" "g_fid t = g_fid s"
    "?E = None \<longrightarrow> info_flags (g_file_info t) = ?fl AND NOT (ITS_FLASH_FS_FLAG_CREATE OR ITS_FLASH_FS_FLAG_TRUNCATE)"
    "its_files env client t = (case ?E of Some _ \<Rightarrow> its_files env client s | None \<Rightarrow> (its_files env client s)(g_fid s \<mapsto> write_at w 0 ?rest ?v))"
    using set_loop_step[OF ok f n(2) nb bz, of client] unfolding w_def[symmetric] st base s(3) by auto
  have wa: "write_at w 0 ?rest ?v = ?v\<lparr>file_data := take w ?rest\<rparr>" by (simp add: write_at_def)
  show ?thesis
  proof (cases "?E = None \<and> 0 < n - w")
    case False
    then show ?thesis using t wa s(1) by (cases ?E) (auto simp: w_def)
  next
    case True
    have lw: "length (take w ?rest) = w" using n(2) by (auto simp: w_def)
    have "\<exists>u. its_set_loop env client (n - w) w t = Some (Inr (), u) \<and> its_fs_ok u \<and> req_ok (req u)
      \<and> its_frame ?fs t u \<and> written (req u) = written (req t)
      \<and> its_files env client u = (its_files env client t)(g_fid t \<mapsto> (?v\<lparr>file_data := take w ?rest\<rparr>)
           \<lparr>file_data := file_data (?v\<lparr>file_data := take w ?rest\<rparr>) @ take (n - w) (rest (req t) 1)\<rparr>)"
      using True t wa n f lw fl(4,6,7) bz by (intro set_loop_rest) (auto simp: w_def its_frame_def)
    moreover have "take w ?rest @ take (n - w) (drop w ?rest) = take n ?rest" by (metis take_add le_add_diff_inverse min.cobounded1 w_def)
    ultimately show ?thesis
      using t True its_frame_trans[OF t(4)] s(1) wa by (auto simp: fun_eq_iff)
  qed
qed

text \<open>The get loop: the bytes of the file go to the output vector, chunk by chunk.\<close>

lemma get_loop:
  assumes "its_fs_ok s" "req_ok (req s)" "fid_valid (g_fid s)" "length (g_fid s) = ITS_FILE_ID_SIZE"
    "its_files env client s (g_fid s) = Some v" "0 < n" "off + n \<le> length (file_data v)" "n \<le> room (req s) 0"
    "length (asset_data s) \<le> buf_size"
  shows "\<exists>t. its_get_loop env client off n s = Some (Inr (), t) \<and> its_fs_ok t \<and> req_ok (req t)
    \<and> (\<forall>x. fs_cfg x t = fs_cfg x s \<and> fs_ctx x t = fs_ctx x s) \<and> length (asset_data t) = length (asset_data s) \<and> rest (req t) = rest (req s)
    \<and> written (req t) = (written (req s))(0 := written (req s) 0 @ rd (file_data v) off n)"
  using assms
proof (induction n arbitrary: s off rule: less_induct)
  case (less n)
  let ?fs = "get_fs_ctx env client"
  define w where "w = min n (length (asset_data s))"
  have w: "0 < w" "w \<le> n" "w \<le> length (asset_data s)" using less.prems(1,6) by (auto simp: w_def its_fs_ok_def)
  note okD = its_fs_okD[OF less.prems(1), of ?fs]
  have lb: "length (file_data v) < SIZE_MAX_P1"
    using ram_length_bound[of "fs_cfg ?fs s" "fs_ctx ?fs s" "g_fid s" v] okD less.prems(3-5) by (simp add: its_files_def)
  define bs where "bs = rd (file_data v) off w"
  have lbs: "length bs = w" using w less.prems(7) by (simp add: bs_def)
  have rdr: "its_flash_fs_file_read (fs_cfg ?fs s) (g_fid s) w off (fs_ctx ?fs s) = (Inr bs, fs_ctx ?fs s)"
    using ram_read[of "fs_cfg ?fs s" "fs_ctx ?fs s" "g_fid s" w off] okD less.prems(3-5,7) w by (simp add: its_files_def bs_def)
  have io: "fs_io ?fs (\<lambda>c. its_flash_fs_file_read c (g_fid s) w off) s = (Inr bs, s)" using rdr by (simp add: fs_io_def)
  define a where "a = bs @ drop (length bs) (asset_data s)"
  have a: "length a = length (asset_data s)" "take w a = bs" using w lbs by (simp_all add: a_def)
  obtain r where r: "psa_write_req env 0 bs (req s) = Some r" "req_ok r" "rest r = rest (req s)"
    "written r = (written (req s))(0 := written (req s) 0 @ bs)" "room r = (room (req s))(0 := room (req s) 0 - w)"
    using write_vec[OF less.prems(2), of 0 bs] less.prems(8,9) w(2,3) lbs by auto
  define t where "t = s\<lparr>asset_data := a, req := r\<rparr>"
  have ar: "sub32 n w = n - w" "add32 off w = off + w" using w less.prems(7) lb by (simp_all add: wrap_simps)
  have unf: "its_get_loop env client off n s = (if 0 < n - w then its_get_loop env client (off + w) (n - w) t else Some (Inr (), t))"
    by (subst its_get_loop.simps) (use io r(1) a ar lbs in \<open>simp add: Let_def w_def[symmetric] a_def t_def\<close>)
  have t: "its_fs_ok t" "req_ok (req t)" "\<forall>x. fs_cfg x t = fs_cfg x s \<and> fs_ctx x t = fs_ctx x s" "g_fid t = g_fid s" "req t = r"
    "length (asset_data t) = length (asset_data s)"
    "its_files env client t = its_files env client s"
    using less.prems(1) a(1) r(2) by (auto simp: t_def its_fs_ok_def its_files_def)
  show ?case
  proof (cases "0 < n - w")
    case False
    then have "n = w" using w(2) by simp
    then show ?thesis using unf t r False by (auto simp: bs_def)
  next
    case True
    have "\<exists>u. its_get_loop env client (off + w) (n - w) t = Some (Inr (), u) \<and> its_fs_ok u \<and> req_ok (req u)
      \<and> (\<forall>x. fs_cfg x u = fs_cfg x t \<and> fs_ctx x u = fs_ctx x t) \<and> length (asset_data u) = length (asset_data t) \<and> rest (req u) = rest (req t)
      \<and> written (req u) = (written (req t))(0 := written (req t) 0 @ rd (file_data v) (off + w) (n - w))"
      using less.prems True w t r by (intro less.IH) auto
    moreover have "bs @ rd (file_data v) (off + w) (n - w) = rd (file_data v) off n"
      unfolding rd_def bs_def using w(2) by (metis take_add le_add_diff_inverse drop_drop add.commute)
    ultimately show ?thesis using unf True t r by (auto simp: fun_eq_iff)
  qed
qed

text \<open>
  The loop runs once for a request of no bytes. The driver may refuse the read of no bytes at the
  end of its memory, which the client sees as a generic error.
\<close>

lemma get_loop_zero:
  assumes ok: "its_fs_ok s" "req_ok (req s)" and f: "fid_valid (g_fid s)" "length (g_fid s) = ITS_FILE_ID_SIZE"
    and v: "its_files env client s (g_fid s) = Some v" "off \<le> length (file_data v)"
  shows "\<exists>r t. its_get_loop env client off 0 s = Some (r, t) \<and> r \<in> {Inr (), Inl PSA_ERROR_GENERIC_ERROR} \<and> its_fs_ok t \<and> req_ok (req t)
    \<and> (\<forall>x. fs_cfg x t = fs_cfg x s \<and> fs_ctx x t = fs_ctx x s) \<and> length (asset_data t) = length (asset_data s) \<and> rest (req t) = rest (req s)
    \<and> written (req t) = written (req s)"
proof -
  let ?fs = "get_fs_ctx env client"
  have "its_flash_fs_file_read (fs_cfg ?fs s) (g_fid s) 0 off (fs_ctx ?fs s) \<in> {(Inr [], fs_ctx ?fs s), (Inl PSA_ERROR_GENERIC_ERROR, fs_ctx ?fs s)}"
    using ram_read_zero[of "fs_cfg ?fs s" "fs_ctx ?fs s" "g_fid s" v off] its_fs_okD[OF ok(1), of ?fs] f v by (simp add: its_files_def)
  then consider "fs_io ?fs (\<lambda>c. its_flash_fs_file_read c (g_fid s) 0 off) s = (Inr [], s)"
    | "fs_io ?fs (\<lambda>c. its_flash_fs_file_read c (g_fid s) 0 off) s = (Inl PSA_ERROR_GENERIC_ERROR, s)" by (auto simp: fs_io_def)
  then show ?thesis
  proof cases
    case 1
    obtain r where r: "psa_write_req env 0 [] (req s) = Some r" "req_ok r" "rest r = rest (req s)" "written r = written (req s)"
      using write_vec[OF ok(2), of 0 "[]"] by auto
    have "its_get_loop env client off 0 s = Some (Inr (), s\<lparr>req := r\<rparr>)"
      by (subst its_get_loop.simps) (use 1 r in \<open>simp add: Let_def wrap_simps\<close>)
    then show ?thesis using r ok by (intro exI[of _ "Inr ()"] exI[of _ "s\<lparr>req := r\<rparr>"]) (auto simp: its_fs_ok_def)
  next
    case 2
    have "its_get_loop env client off 0 s = Some (Inl PSA_ERROR_GENERIC_ERROR, s)"
      by (subst its_get_loop.simps) (use 2 in \<open>simp add: Let_def\<close>)
    then show ?thesis using ok by auto
  qed
qed

end

section \<open>The store\<close>

text \<open>The keys of the store: what fits into a client id and a 64-bit identifier.\<close>

definition its_key :: "int \<Rightarrow> nat \<Rightarrow> bool" where
  "its_key client uid \<longleftrightarrow> client_ok client \<and> uid < 2 ^ 64"

lemma store_update:
  assumes fr: "its_frame (get_fs_ctx env client) s t" and k: "its_key client uid" "its_key client' uid'"
    and f: "its_files env client t = (its_files env client s)(tfm_its_get_fid client uid := x)"
  shows "its_store env t client' uid' = (if client' = client \<and> uid' = uid
     then map_option (\<lambda>v. (file_data v, file_flags v AND ITS_FLASH_FS_USER_FLAGS_MASK)) x else its_store env s client' uid')"
proof (cases "get_fs_ctx env client' = get_fs_ctx env client")
  case True
  then have "its_files env client' t = its_files env client t" "its_files env client' s = its_files env client s"
    by (simp_all add: its_files_def)
  moreover have "tfm_its_get_fid client' uid' = tfm_its_get_fid client uid \<longleftrightarrow> client' = client \<and> uid' = uid"
    using fid_inj[of client' client uid' uid] k by (auto simp: its_key_def)
  ultimately show ?thesis using f by (auto simp: its_store_def)
next
  case False
  then have "its_files env client' t = its_files env client' s" using fr by (auto simp: its_frame_def its_files_def)
  then show ?thesis using False by (auto simp: its_store_def)
qed

text \<open>The status of a set request.\<close>

definition its_set_status :: "'r its_env \<Rightarrow> (ram_dev, 'r) its_state \<Rightarrow> int \<Rightarrow> nat \<Rightarrow> nat \<Rightarrow> 32 word \<Rightarrow> psa_error option" where
  "its_set_status env s client uid n cf =
     (if uid = 0 then Some PSA_ERROR_INVALID_ARGUMENT
      else if cf AND NOT (PSA_STORAGE_FLAG_WRITE_ONCE OR PSA_STORAGE_FLAG_NO_CONFIDENTIALITY OR PSA_STORAGE_FLAG_NO_REPLAY_PROTECTION) \<noteq> 0
      then Some PSA_ERROR_NOT_SUPPORTED
      else case its_store env s client uid of
        Some (d, fl) \<Rightarrow> if fl AND PSA_STORAGE_FLAG_WRITE_ONCE \<noteq> 0 then Some PSA_ERROR_NOT_PERMITTED
                         else its_set_error env s client uid n
      | None \<Rightarrow> its_set_error env s client uid n)"

text \<open>The status as the result of an operation.\<close>

definition status_result :: "psa_error option \<Rightarrow> psa_error + unit" where
  "status_result e = (case e of Some x \<Rightarrow> Inl x | None \<Rightarrow> Inr ())"

lemma status_result_simps [simp]: "status_result None = Inr ()" "status_result (Some x) = Inl x"
  by (simp_all add: status_result_def)

lemma its_set_error_cong:
  assumes "fs_cfg (get_fs_ctx env client) t = fs_cfg (get_fs_ctx env client) s" "fs_ctx (get_fs_ctx env client) t = fs_ctx (get_fs_ctx env client) s"
  shows "its_set_error env t client uid n = its_set_error env s client uid n"
  using assms by (simp add: its_set_error_def its_files_def Let_def)

context its_requests
begin

lemma tfm_its_set_ok:
  fixes cf :: "32 word"
  assumes ok: "its_fs_ok s" "req_ok (req s)" and k: "its_key client uid" and n: "n < SIZE_MAX_P1" "n \<le> length (rest (req s) 1)"
    and bz: "length (asset_data s) \<le> buf_size"
  defines "e \<equiv> its_set_status env s client uid n cf"
  shows "\<exists>t. tfm_its_set env client uid n cf s = Some (status_result e, t) \<and> its_fs_ok t \<and> req_ok (req t)
    \<and> its_frame (get_fs_ctx env client) s t \<and> written (req t) = written (req s)
    \<and> (\<forall>client' uid'. its_key client' uid' \<longrightarrow> its_store env t client' uid'
        = (if e = None \<and> client' = client \<and> uid' = uid then Some (take n (rest (req s) 1), cf) else its_store env s client' uid'))"
proof (cases "uid = 0 \<or> cf AND NOT (PSA_STORAGE_FLAG_WRITE_ONCE OR PSA_STORAGE_FLAG_NO_CONFIDENTIALITY OR PSA_STORAGE_FLAG_NO_REPLAY_PROTECTION) \<noteq> 0")
  case True
  then show ?thesis using ok by (intro exI[of _ s]) (auto simp: tfm_its_set_def e_def its_set_status_def its_msg_consts)
next
  case False
  then have u: "uid \<noteq> 0" "uid < 2 ^ 64"
    and cf: "cf AND NOT (PSA_STORAGE_FLAG_WRITE_ONCE OR PSA_STORAGE_FLAG_NO_CONFIDENTIALITY OR PSA_STORAGE_FLAG_NO_REPLAY_PROTECTION) = 0"
    using k by (auto simp: its_key_def)
  let ?fs = "get_fs_ctx env client" and ?f = "tfm_its_get_fid client uid"
  note gi = get_file_info_eq[OF ok(1) u, of env client]
  define info where "info = (case its_files env client s ?f of None \<Rightarrow> g_file_info s
     | Some v \<Rightarrow> \<lparr>size_current = length (file_data v), size_max = file_max v, info_flags = file_flags v AND ITS_FLASH_FS_USER_FLAGS_MASK\<rparr>)"
  define s1 where "s1 = s\<lparr>g_fid := ?f, g_file_info := info\<rparr>"
  define s2 where "s2 = s1\<lparr>g_file_info := (g_file_info s1)\<lparr>size_max := n,
      info_flags := cf OR ITS_FLASH_FS_FLAG_CREATE OR ITS_FLASH_FS_FLAG_TRUNCATE\<rparr>\<rparr>"
  have "s\<lparr>g_fid := ?f, g_file_info := g_file_info s\<rparr> = s\<lparr>g_fid := ?f\<rparr>" by simp
  then have gs: "get_file_info env uid client s = ((case its_files env client s ?f of None \<Rightarrow> Inl PSA_ERROR_DOES_NOT_EXIST | Some v \<Rightarrow> Inr ()), s1)"
    unfolding gi s1_def info_def by (auto split: option.split)
  have same: "fs_cfg x s1 = fs_cfg x s" "fs_ctx x s1 = fs_ctx x s" "fs_cfg x s2 = fs_cfg x s" "fs_ctx x s2 = fs_ctx x s" for x
    by (simp_all add: s1_def s2_def)
  have ok1: "its_fs_ok s1" "its_fs_ok s2" using ok(1) by (simp_all add: its_fs_ok_def s1_def s2_def)
  have st1: "its_store env s1 = its_store env s" "its_files env client s2 = its_files env client s"
    by (simp_all add: its_store_def its_files_def same fun_eq_iff)
  show ?thesis
  proof (cases "e = Some PSA_ERROR_NOT_PERMITTED \<and> (\<exists>v. its_files env client s ?f = Some v \<and> (file_flags v AND ITS_FLASH_FS_USER_FLAGS_MASK) AND PSA_STORAGE_FLAG_WRITE_ONCE \<noteq> 0)")
    case True
    then have "tfm_its_set env client uid n cf s = Some (Inl PSA_ERROR_NOT_PERMITTED, s1)"
      using u cf by (auto simp: tfm_its_set_def its_msg_consts gs s1_def info_def)
    then show ?thesis using True ok1 st1 ok(2) by (intro exI[of _ s1]) (auto simp: s1_def its_frame_def)
  next
    case False
    have wo: "(file_flags v AND ITS_FLASH_FS_USER_FLAGS_MASK) AND PSA_STORAGE_FLAG_WRITE_ONCE = 0" if "its_files env client s ?f = Some v" for v
    proof (rule ccontr)
      assume nz: "\<not> ?thesis"
      then have "e = Some PSA_ERROR_NOT_PERMITTED"
        unfolding e_def its_set_status_def its_store_def that using u(1) cf by simp
      then show False using False that nz by blast
    qed
    have c: "its_set_error env s2 client uid n = its_set_error env s client uid n" by (rule its_set_error_cong) (simp_all add: same)
    have e: "e = its_set_error env s2 client uid n"
      unfolding e_def its_set_status_def its_store_def c
      by (cases "its_files env client s ?f") (use u(1) cf wo in simp_all)
    have "tfm_its_set env client uid n cf s = its_set_loop env client n 0 s2"
    proof (cases "its_files env client s ?f")
      case None
      then show ?thesis using u cf by (simp add: tfm_its_set_def its_msg_consts gs s2_def)
    next
      case (Some v)
      have "info_flags (g_file_info s1) AND PSA_STORAGE_FLAG_WRITE_ONCE = 0" using wo[OF Some] Some by (simp add: s1_def info_def)
      then show ?thesis using u cf Some by (simp add: tfm_its_set_def its_msg_consts gs s2_def)
    qed
    moreover obtain t where t: "its_set_loop env client n 0 s2 = Some (status_result e, t)" "its_fs_ok t" "req_ok (req t)"
      "its_frame ?fs s2 t" "written (req t) = written (req s2)"
      "its_files env client t = (case e of Some _ \<Rightarrow> its_files env client s
        | None \<Rightarrow> (its_files env client s)(?f \<mapsto> \<lparr>file_max = n, file_flags = cf OR ITS_FLASH_FS_FLAG_CREATE OR ITS_FLASH_FS_FLAG_TRUNCATE,
             file_data = take n (rest (req s2) 1)\<rparr>))"
      using set_loop[OF ok1(2) _ u n(1) _ _ cf, of client] ok(2) n(2) bz unfolding e[symmetric] st1 status_result_def
      by (auto simp: s2_def s1_def)
    moreover have fr: "its_frame ?fs s t" using t(4) by (simp add: its_frame_def same s2_def s1_def)
    have "its_store env t client' uid' = (if e = None \<and> client' = client \<and> uid' = uid then Some (take n (rest (req s) 1), cf)
        else its_store env s client' uid')" if k': "its_key client' uid'" for client' uid'
    proof (cases e)
      case None
      have "its_files env client t = (its_files env client s)(?f := Some \<lparr>file_max = n,
          file_flags = cf OR ITS_FLASH_FS_FLAG_CREATE OR ITS_FLASH_FS_FLAG_TRUNCATE, file_data = take n (rest (req s) 1)\<rparr>)"
        using t(6) None by (simp add: s2_def s1_def)
      from store_update[OF fr k k' this] show ?thesis using None fs_flag_disjoint(5)[OF cf] by simp
    next
      case (Some x)
      have "its_files env client t = (its_files env client s)(?f := its_files env client s ?f)" using t(6) Some by simp
      from store_update[OF fr k k' this] show ?thesis using Some by (auto simp: its_store_def)
    qed
    ultimately show ?thesis using fr by (intro exI[of _ t]) (auto simp: s2_def s1_def)
  qed
qed

end

text \<open>Reading: what a get request returns.\<close>

definition its_get_result :: "'r its_env \<Rightarrow> (ram_dev, 'r) its_state \<Rightarrow> int \<Rightarrow> nat \<Rightarrow> nat \<Rightarrow> nat \<Rightarrow> psa_error + byte list" where
  "its_get_result env s client uid off n =
     (if uid = 0 then Inl PSA_ERROR_INVALID_ARGUMENT
      else case its_store env s client uid of
        None \<Rightarrow> Inl PSA_ERROR_DOES_NOT_EXIST
      | Some (d, _) \<Rightarrow> if off > length d then Inl PSA_ERROR_INVALID_ARGUMENT else Inr (rd d off (min n (length d - off))))"

text \<open>States with the same file systems have the same store.\<close>

lemma store_same:
  assumes "\<forall>x. fs_cfg x t = fs_cfg x s \<and> fs_ctx x t = fs_ctx x s"
  shows "its_store env t = its_store env s"
  using assms by (simp add: its_store_def its_files_def fun_eq_iff)

context its_requests
begin

lemma tfm_its_get_ok:
  assumes ok: "its_fs_ok s" "req_ok (req s)" and k: "its_key client uid" and n: "n \<le> room (req s) 0"
    and bz: "length (asset_data s) \<le> buf_size"
  shows "\<exists>r t. tfm_its_get env client uid off n s = Some (r, t)
    \<and> (r = map_sum id length (its_get_result env s client uid off n)
        \<or> its_get_result env s client uid off n = Inr [] \<and> r = Inl PSA_ERROR_GENERIC_ERROR)
    \<and> its_fs_ok t \<and> req_ok (req t) \<and> length (asset_data t) = length (asset_data s) \<and> its_store env t = its_store env s
    \<and> written (req t) = (case its_get_result env s client uid off n of
        Inl _ \<Rightarrow> written (req s) | Inr bs \<Rightarrow> (written (req s))(0 := written (req s) 0 @ bs))"
proof (cases "uid = 0")
  case True
  then show ?thesis using ok by (intro exI[of _ "Inl PSA_ERROR_INVALID_ARGUMENT"] exI[of _ s]) (auto simp: tfm_its_get_def its_get_result_def its_msg_consts)
next
  case False
  then have u: "uid \<noteq> 0" "uid < 2 ^ 64" using k by (auto simp: its_key_def)
  let ?f = "tfm_its_get_fid client uid"
  note gi = get_file_info_eq[OF ok(1) u, of env client]
  show ?thesis
  proof (cases "its_files env client s ?f")
    case None
    let ?t = "s\<lparr>g_fid := ?f\<rparr>"
    have r: "its_get_result env s client uid off n = Inl PSA_ERROR_DOES_NOT_EXIST" using None u by (simp add: its_get_result_def its_store_def)
    have g: "tfm_its_get env client uid off n s = Some (Inl PSA_ERROR_DOES_NOT_EXIST, ?t)"
      using u gi None by (simp add: tfm_its_get_def its_msg_consts)
    show ?thesis unfolding r by (intro exI[of _ "Inl PSA_ERROR_DOES_NOT_EXIST"] exI[of _ ?t]) (use g ok in \<open>auto simp: its_fs_ok_def intro!: store_same\<close>)
  next
    case (Some v)
    define s1 where "s1 = s\<lparr>g_fid := ?f, g_file_info := \<lparr>size_current = length (file_data v), size_max = file_max v,
           info_flags = file_flags v AND ITS_FLASH_FS_USER_FLAGS_MASK\<rparr>\<rparr>"
    have g: "get_file_info env uid client s = (Inr (), s1)" using gi Some by (simp add: s1_def)
    have same: "\<forall>x. fs_cfg x s1 = fs_cfg x s \<and> fs_ctx x s1 = fs_ctx x s" "length (asset_data s1) = length (asset_data s)"
      "req s1 = req s" "g_fid s1 = ?f" "size_current (g_file_info s1) = length (file_data v)" by (simp_all add: s1_def)
    have ok1: "its_fs_ok s1" using ok(1) same by (simp add: its_fs_ok_def s1_def)
    have r: "its_get_result env s client uid off n = (if off > length (file_data v) then Inl PSA_ERROR_INVALID_ARGUMENT
        else Inr (rd (file_data v) off (min n (length (file_data v) - off))))"
      using Some u by (simp add: its_get_result_def its_store_def)
    show ?thesis
    proof (cases "off > length (file_data v)")
      case True
      then have "tfm_its_get env client uid off n s = Some (Inl PSA_ERROR_INVALID_ARGUMENT, s1)"
        using u g same by (simp add: tfm_its_get_def its_msg_consts)
      then show ?thesis using True ok1 ok(2) same store_same[OF same(1)] unfolding r
        by (intro exI[of _ "Inl PSA_ERROR_INVALID_ARGUMENT"] exI[of _ s1]) simp
    next
      case False
      define m where "m = min n (length (file_data v) - off)"
      have lb: "length (file_data v) < SIZE_MAX_P1"
        using ram_length_bound[of "fs_cfg (get_fs_ctx env client) s" "fs_ctx (get_fs_ctx env client) s" ?f v]
          its_fs_okD[OF ok(1)] fid_valid_uid[OF u] Some by (simp add: its_files_def)
      have "sub32 (length (file_data v)) off = length (file_data v) - off" using False lb by (simp add: wrap_simps)
      then have run: "tfm_its_get env client uid off n s = tfm_its_get_plain env client off m s1"
        using u g same False by (simp add: tfm_its_get_def its_msg_consts m_def)
      let ?bs = "rd (file_data v) off m"
      have lm: "length ?bs = m" using False by (simp add: m_def)
      have e: "its_get_result env s client uid off n = Inr ?bs" using False by (simp add: r m_def)
      have "\<exists>r t. its_get_loop env client off m s1 = Some (r, t) \<and> (r = Inr () \<or> ?bs = [] \<and> r = Inl PSA_ERROR_GENERIC_ERROR)
        \<and> its_fs_ok t \<and> req_ok (req t) \<and> (\<forall>x. fs_cfg x t = fs_cfg x s1 \<and> fs_ctx x t = fs_ctx x s1)
        \<and> length (asset_data t) = length (asset_data s1) \<and> written (req t) = (written (req s1))(0 := written (req s1) 0 @ ?bs)"
      proof (cases "m = 0")
        case True
        have "its_files env client s1 (g_fid s1) = Some v" "off \<le> length (file_data v)" using Some same False by (auto simp: its_files_def)
        from get_loop_zero[OF ok1 _ _ _ this] ok(2) same(3,4) fid_valid_uid[OF u] True show ?thesis by (auto simp: rd_def)
      next
        case nz: False
        have "\<exists>t. its_get_loop env client off m s1 = Some (Inr (), t) \<and> its_fs_ok t \<and> req_ok (req t)
          \<and> (\<forall>x. fs_cfg x t = fs_cfg x s1 \<and> fs_ctx x t = fs_ctx x s1) \<and> length (asset_data t) = length (asset_data s1)
          \<and> rest (req t) = rest (req s1) \<and> written (req t) = (written (req s1))(0 := written (req s1) 0 @ ?bs)"
          using ok1 ok(2) same fid_valid_uid[OF u] Some nz False n bz by (intro get_loop) (auto simp: m_def its_files_def)
        then show ?thesis by auto
      qed
      then obtain r t where t: "its_get_loop env client off m s1 = Some (r, t)" "r = Inr () \<or> ?bs = [] \<and> r = Inl PSA_ERROR_GENERIC_ERROR"
        "its_fs_ok t" "req_ok (req t)" "\<forall>x. fs_cfg x t = fs_cfg x s \<and> fs_ctx x t = fs_ctx x s"
        "length (asset_data t) = length (asset_data s)" "written (req t) = (written (req s))(0 := written (req s) 0 @ ?bs)"
        using same by auto
      have "tfm_its_get env client uid off n s = Some (case r of Inl e \<Rightarrow> Inl e | Inr _ \<Rightarrow> Inr m, t)"
        unfolding run tfm_its_get_plain_def t(1) by simp
      then show ?thesis unfolding e using t(2-7) store_same[OF t(5)] lm by auto
    qed
  qed
qed

end

end
