(* ===== verification/ITS_Requests.thy ===== *)
theory ITS_Requests
  imports ITS_Service_Props
begin

text \<open>
  The requests of the Internal Trusted Storage service: removal, information, and the four request
  handlers on the arguments a client passes in its vectors. The handlers are proved against the
  contract \<open>its_requests\<close>, which is then interpreted on the operations of the partition manager.
\<close>

section \<open>Removing and asking\<close>

definition its_remove_status :: "'r its_env \<Rightarrow> (ram_dev, 'r) its_state \<Rightarrow> int \<Rightarrow> nat \<Rightarrow> psa_error option" where
  "its_remove_status env s client uid =
     (if uid = 0 then Some PSA_ERROR_INVALID_ARGUMENT
      else case its_store env s client uid of
        None \<Rightarrow> Some PSA_ERROR_DOES_NOT_EXIST
      | Some (_, fl) \<Rightarrow> if fl AND PSA_STORAGE_FLAG_WRITE_ONCE \<noteq> 0 then Some PSA_ERROR_NOT_PERMITTED else None)"

definition its_info_result :: "'r its_env \<Rightarrow> (ram_dev, 'r) its_state \<Rightarrow> int \<Rightarrow> nat \<Rightarrow> psa_error + psa_storage_info_t" where
  "its_info_result env s client uid =
     (if uid = 0 then Inl PSA_ERROR_INVALID_ARGUMENT
      else case its_store env s client uid of
        None \<Rightarrow> Inl PSA_ERROR_DOES_NOT_EXIST
      | Some (d, fl) \<Rightarrow> Inr \<lparr>capacity = length d, info_size = length d, storage_flags = fl\<rparr>)"

lemma tfm_its_get_info_ok:
  assumes ok: "its_fs_ok s" and k: "its_key client uid"
  shows "\<exists>t. tfm_its_get_info env client uid s = (its_info_result env s client uid, t) \<and> its_fs_ok t \<and> req t = req s
    \<and> length (asset_data t) = length (asset_data s) \<and> its_store env t = its_store env s"
proof (cases "uid = 0")
  case True
  then show ?thesis using ok
    by (auto simp: tfm_its_get_info_def get_file_info_def its_info_result_def its_msg_consts io_simps bind_io_def raise_io_def)
next
  case False
  then have u: "uid \<noteq> 0" "uid < 2 ^ 64" using k by (auto simp: its_key_def)
  note gi = get_file_info_eq[OF ok u, of env client]
  obtain r t where g: "get_file_info env uid client s = (r, t)" by fastforce
  have t: "its_fs_ok t" "req t = req s" "length (asset_data t) = length (asset_data s)" "its_store env t = its_store env s"
    using g gi ok by (auto simp: its_fs_ok_def split: option.splits intro!: store_same)
  have "tfm_its_get_info env client uid s = (its_info_result env s client uid, t)"
    using g gi u
    by (auto simp: tfm_its_get_info_def its_info_result_def its_store_def bind_io_def gets_io_def split: option.splits)
  then show ?thesis using t by blast
qed

lemma tfm_its_remove_ok:
  fixes env :: "'r its_env" and s :: "(ram_dev, 'r) its_state"
  assumes ok: "its_fs_ok s" and k: "its_key client uid"
  defines "e \<equiv> its_remove_status env s client uid"
  shows "\<exists>t. tfm_its_remove env client uid s = (status_result e, t) \<and> its_fs_ok t \<and> req t = req s
    \<and> length (asset_data t) = length (asset_data s)
    \<and> (\<forall>client' uid'. its_key client' uid' \<longrightarrow> its_store env t client' uid'
        = (if e = None \<and> client' = client \<and> uid' = uid then None else its_store env s client' uid'))"
proof (cases "uid = 0")
  case True
  then show ?thesis using ok
    by (auto simp: tfm_its_remove_def get_file_info_def e_def its_remove_status_def its_msg_consts bind_io_def raise_io_def)
next
  case False
  then have u: "uid \<noteq> 0" "uid < 2 ^ 64" using k by (auto simp: its_key_def)
  let ?fs = "get_fs_ctx env client" and ?f = "tfm_its_get_fid client uid"
  note gi = get_file_info_eq[OF ok u, of env client]
  show ?thesis
  proof (cases "its_files env client s ?f")
    case None
    let ?t = "s\<lparr>g_fid := ?f\<rparr>"
    have e: "e = Some PSA_ERROR_DOES_NOT_EXIST" using None u by (simp add: e_def its_remove_status_def its_store_def)
    have "tfm_its_remove env client uid s = (Inl PSA_ERROR_DOES_NOT_EXIST, ?t)"
      using gi None by (simp add: tfm_its_remove_def bind_io_def)
    moreover have "its_store env ?t = its_store env s" by (rule store_same) simp
    ultimately show ?thesis using e ok by (intro exI[of _ ?t]) (simp add: its_fs_ok_def)
  next
    case (Some v)
    define s1 where "s1 = s\<lparr>g_fid := ?f, g_file_info := \<lparr>size_current = length (file_data v), size_max = file_max v,
           info_flags = file_flags v AND ITS_FLASH_FS_USER_FLAGS_MASK\<rparr>\<rparr>"
    have g: "get_file_info env uid client s = (Inr (), s1)" using gi Some by (simp add: s1_def)
    have same: "\<forall>x. fs_cfg x s1 = fs_cfg x s \<and> fs_ctx x s1 = fs_ctx x s" "length (asset_data s1) = length (asset_data s)"
      "req s1 = req s" "g_fid s1 = ?f" "info_flags (g_file_info s1) = file_flags v AND ITS_FLASH_FS_USER_FLAGS_MASK" by (simp_all add: s1_def)
    have ok1: "its_fs_ok s1" using ok same by (simp add: its_fs_ok_def s1_def)
    have e: "e = (if (file_flags v AND ITS_FLASH_FS_USER_FLAGS_MASK) AND PSA_STORAGE_FLAG_WRITE_ONCE \<noteq> 0 then Some PSA_ERROR_NOT_PERMITTED else None)"
      using Some u by (simp add: e_def its_remove_status_def its_store_def)
    show ?thesis
    proof (cases "(file_flags v AND ITS_FLASH_FS_USER_FLAGS_MASK) AND PSA_STORAGE_FLAG_WRITE_ONCE = 0")
      case False
      have "tfm_its_remove env client uid s = (Inl PSA_ERROR_NOT_PERMITTED, s1)"
        using g same(5) False by (simp add: tfm_its_remove_def bind_io_def gets_io_def raise_io_def)
      then show ?thesis using e False ok1 same store_same[OF same(1)] by (intro exI[of _ s1]) simp
    next
      case True
      obtain c where c: "its_flash_fs_file_delete (fs_cfg ?fs s) ?f (fs_ctx ?fs s) = (Inr (), c)" "ram_fs_inv (fs_cfg ?fs s) c"
        "ram_files (fs_cfg ?fs s) c = (its_files env client s)(?f := None)"
        using ram_delete[of "fs_cfg ?fs s" "fs_ctx ?fs s" ?f] its_fs_okD[OF ok, of ?fs] fid_valid_uid[OF u] Some by (auto simp: its_files_def)
      define t where "t = set_ctx ?fs c s1"
      have run: "tfm_its_remove env client uid s = (Inr (), t)"
        using g same True c(1) by (simp add: tfm_its_remove_def bind_io_def gets_io_def fs_io_def t_def)
      have fr: "its_frame ?fs s t" by (simp add: its_frame_def t_def s1_def)
      have "its_fs_ok t" by (rule its_fs_ok_frame[OF ok fr]) (use c(2) in \<open>simp add: t_def\<close>)
      moreover have "its_files env client t = (its_files env client s)(?f := None)"
        using c(3) same by (simp add: its_files_def t_def)
      then have "its_store env t client' uid' = (if client' = client \<and> uid' = uid then None else its_store env s client' uid')"
        if "its_key client' uid'" for client' uid' using store_update[OF fr k that] by simp
      ultimately show ?thesis using run e True by (intro exI[of _ t]) (simp add: t_def s1_def)
    qed
  qed
qed

section \<open>Requests\<close>

lemma de64_key: "client_ok client \<Longrightarrow> its_key client (de64 bs)"
proof -
  have b: "de32 (take 4 bs) < 2 ^ 32" "de32 (drop 4 bs) < 2 ^ 32" using de32_bound[of "take 4 bs"] de32_bound[of "drop 4 bs"] by auto
  have l: "a < 2 ^ 32 \<Longrightarrow> b < 2 ^ 32 \<Longrightarrow> a + 2 ^ 32 * b < 2 ^ 64" for a b :: nat by simp
  show "client_ok client \<Longrightarrow> its_key client (de64 bs)" using l[OF b] by (simp add: its_key_def de64_def)
qed

text \<open>A state in which the service can take the message.\<close>

definition its_ready :: "('r \<Rightarrow> bool) \<Rightarrow> nat \<Rightarrow> (ram_dev, 'r) its_state \<Rightarrow> bool" where
  "its_ready rok n s \<longleftrightarrow> its_fs_ok s \<and> rok (req s) \<and> length (asset_data s) \<le> n \<and> 12 \<le> n"

text \<open>An asset that may not be changed any more.\<close>

definition write_once :: "(byte list \<times> 32 word) option \<Rightarrow> bool" where
  "write_once a = (case a of Some (d, fl) \<Rightarrow> fl AND PSA_STORAGE_FLAG_WRITE_ONCE \<noteq> 0 | None \<Rightarrow> False)"

context its_requests
begin

lemma read_arg_ok:
  assumes "req_ok (req s)" "i < 4" "k \<le> buf_size" "length (rest (req s) i) = k"
  shows "\<exists>r. read_arg env i k s = Some (Inr (rest (req s) i), s\<lparr>req := r\<rparr>) \<and> req_ok r
    \<and> rest r = (rest (req s))(i := []) \<and> written r = written (req s) \<and> room r = room (req s)"
  using read_vec[OF assms(1-3)] assms(4) by (auto simp: read_arg_def)

lemma set_req_ok:
  fixes s :: "(ram_dev, 'r) its_state"
  assumes rdy: "its_ready req_ok buf_size s" and sm: "sizes_match m (rest (req s)) (room (req s))"
    and m: "msg_type m = TFM_ITS_SET" "client_ok (client_id m)" "length (rest (req s) 0) = 8" "length (rest (req s) 2) = 4"
  defines "v \<equiv> rest (req s)"
  defines "uid \<equiv> de64 (v 0)" and "cf \<equiv> (word_of_nat (de32 (v 2)) :: u32)"
  defines "e \<equiv> its_set_status env s (client_id m) uid (length (v 1)) cf"
  shows "\<exists>t. tfm_internal_trusted_storage_service_sfn env m s = Some (status_result e, t) \<and> its_ready req_ok buf_size t
    \<and> written (req t) = written (req s)
    \<and> (\<forall>client' uid'. its_key client' uid' \<longrightarrow> its_store env t client' uid'
        = (if e = None \<and> client' = client_id m \<and> uid' = uid then Some (v 1, cf) else its_store env s client' uid'))"
proof -
  have r: "its_fs_ok s" "req_ok (req s)" "length (asset_data s) \<le> buf_size" "12 \<le> buf_size" using rdy by (auto simp: its_ready_def)
  have z: "in_size m ! 0 = 8" "in_size m ! 2 = 4" "unat (in_size m ! 1) = length (v 1)"
    using sm m(3,4) size_eq[of "in_size m ! 0" 8 8] size_eq[of "in_size m ! 2" 4 4] by (auto simp: sizes_match_def v_def)
  obtain r1 where r1: "read_arg env 0 8 s = Some (Inr (v 0), s\<lparr>req := r1\<rparr>)" "req_ok r1" "rest r1 = v(0 := [])" "written r1 = written (req s)"
    using read_arg_ok[OF r(2), of 0 8] m(3) r(4) by (auto simp: v_def)
  obtain r2 where r2: "read_arg env 2 4 (s\<lparr>req := r1\<rparr>) = Some (Inr (v 2), s\<lparr>req := r2\<rparr>)" "req_ok r2" "rest r2 = v(0 := [], 2 := [])"
    "written r2 = written (req s)"
    using read_arg_ok[of "s\<lparr>req := r1\<rparr>" 2 4] r1 m(4) r(4) by (auto simp: v_def)
  let ?s = "s\<lparr>req := r2\<rparr>"
  have st: "its_store env ?s = its_store env s" by (rule store_same) simp
  have "its_set_error env ?s (client_id m) uid (length (v 1)) = its_set_error env s (client_id m) uid (length (v 1))"
    by (rule its_set_error_cong) simp_all
  then have e: "its_set_status env ?s (client_id m) uid (length (v 1)) cf = e" unfolding e_def its_set_status_def st by (simp only:)
  have k: "its_key (client_id m) uid" using de64_key[OF m(2)] by (simp add: uid_def)
  have n: "length (v 1) < SIZE_MAX_P1" using z(3) unat_u32_lt[of "in_size m ! 1"] by simp
  have "its_fs_ok ?s" "req_ok (req ?s)" "length (v 1) \<le> length (rest (req ?s) 1)" "length (asset_data ?s) \<le> buf_size"
    using r r2 by (auto simp: its_fs_ok_def)
  from tfm_its_set_ok[OF this(1,2) k n this(3,4), of cf, unfolded e st]
  obtain t where t: "tfm_its_set env (client_id m) uid (length (v 1)) cf ?s = Some (status_result e, t)" "its_fs_ok t" "req_ok (req t)"
    "its_frame (get_fs_ctx env (client_id m)) ?s t" "written (req t) = written (req s)"
    "\<forall>client' uid'. its_key client' uid' \<longrightarrow> its_store env t client' uid'
        = (if e = None \<and> client' = client_id m \<and> uid' = uid then Some (v 1, cf) else its_store env s client' uid')"
    using r2 by auto
  have "tfm_internal_trusted_storage_service_sfn env m s = Some (status_result e, t)"
    using m(1) z r1(1) r2(1) t(1)
    by (simp add: tfm_internal_trusted_storage_service_sfn_def its_msg_consts tfm_its_set_req_def uid_def cf_def)
  moreover have "its_ready req_ok buf_size t" using t(2-4) r(3,4) by (simp add: its_ready_def its_frame_def)
  ultimately show ?thesis using t(5,6) by blast
qed

lemma remove_req_ok:
  fixes s :: "(ram_dev, 'r) its_state"
  assumes rdy: "its_ready req_ok buf_size s" and sm: "sizes_match m (rest (req s)) (room (req s))"
    and m: "msg_type m = TFM_ITS_REMOVE" "client_ok (client_id m)" "length (rest (req s) 0) = 8"
  defines "uid \<equiv> de64 (rest (req s) 0)"
  defines "e \<equiv> its_remove_status env s (client_id m) uid"
  shows "\<exists>t. tfm_internal_trusted_storage_service_sfn env m s = Some (status_result e, t) \<and> its_ready req_ok buf_size t
    \<and> written (req t) = written (req s)
    \<and> (\<forall>client' uid'. its_key client' uid' \<longrightarrow> its_store env t client' uid'
        = (if e = None \<and> client' = client_id m \<and> uid' = uid then None else its_store env s client' uid'))"
proof -
  have r: "its_fs_ok s" "req_ok (req s)" "length (asset_data s) \<le> buf_size" "12 \<le> buf_size" using rdy by (auto simp: its_ready_def)
  have z: "in_size m ! 0 = 8" using sm m(3) size_eq[of "in_size m ! 0" 8 8] by (auto simp: sizes_match_def)
  obtain r1 where r1: "read_arg env 0 8 s = Some (Inr (rest (req s) 0), s\<lparr>req := r1\<rparr>)" "req_ok r1" "written r1 = written (req s)"
    using read_arg_ok[OF r(2), of 0 8] m(3) r(4) by auto
  let ?s = "s\<lparr>req := r1\<rparr>"
  have st: "its_store env ?s = its_store env s" by (rule store_same) simp
  have e: "its_remove_status env ?s (client_id m) uid = e" by (simp add: e_def its_remove_status_def st)
  have k: "its_key (client_id m) uid" using de64_key[OF m(2)] by (simp add: uid_def)
  have "its_fs_ok ?s" using r by (simp add: its_fs_ok_def)
  from tfm_its_remove_ok[OF this k, of env, unfolded e st]
  obtain t where t: "tfm_its_remove env (client_id m) uid ?s = (status_result e, t)" "its_fs_ok t" "req t = r1"
    "length (asset_data t) = length (asset_data s)"
    "\<forall>client' uid'. its_key client' uid' \<longrightarrow> its_store env t client' uid'
        = (if e = None \<and> client' = client_id m \<and> uid' = uid then None else its_store env s client' uid')" by auto
  have "tfm_internal_trusted_storage_service_sfn env m s = Some (status_result e, t)"
    using m(1) z r1(1) t(1)
    by (simp add: tfm_internal_trusted_storage_service_sfn_def its_msg_consts tfm_its_remove_req_def uid_def)
  then show ?thesis using t r1 r(3,4) by (auto simp: its_ready_def)
qed

lemma get_req_ok:
  fixes s :: "(ram_dev, 'r) its_state"
  assumes rdy: "its_ready req_ok buf_size s" and sm: "sizes_match m (rest (req s)) (room (req s))"
    and m: "msg_type m = TFM_ITS_GET" "client_ok (client_id m)" "length (rest (req s) 0) = 8" "length (rest (req s) 1) = 4"
  defines "res \<equiv> its_get_result env s (client_id m) (de64 (rest (req s) 0)) (de32 (rest (req s) 1)) (room (req s) 0)"
  shows "\<exists>r t. tfm_internal_trusted_storage_service_sfn env m s = Some (r, t)
    \<and> (r = map_sum id (\<lambda>_. ()) res \<or> res = Inr [] \<and> r = Inl PSA_ERROR_GENERIC_ERROR)
    \<and> its_ready req_ok buf_size t \<and> its_store env t = its_store env s
    \<and> written (req t) = (case res of Inl _ \<Rightarrow> written (req s) | Inr bs \<Rightarrow> (written (req s))(0 := written (req s) 0 @ bs))"
proof -
  have r: "its_fs_ok s" "req_ok (req s)" "length (asset_data s) \<le> buf_size" "12 \<le> buf_size" using rdy by (auto simp: its_ready_def)
  define v where "v = rest (req s)"
  have z: "in_size m ! 0 = 8" "in_size m ! 1 = 4" "unat (out_size m ! 0) = room (req s) 0"
    using sm m(3,4) size_eq[of "in_size m ! 0" 8 8] size_eq[of "in_size m ! 1" 4 4] by (auto simp: sizes_match_def)
  obtain r1 where r1: "read_arg env 0 8 s = Some (Inr (v 0), s\<lparr>req := r1\<rparr>)" "req_ok r1" "rest r1 = v(0 := [])" "written r1 = written (req s)"
    "room r1 = room (req s)"
    using read_arg_ok[OF r(2), of 0 8] m(3) r(4) by (auto simp: v_def)
  obtain r2 where r2: "read_arg env 1 4 (s\<lparr>req := r1\<rparr>) = Some (Inr (v 1), s\<lparr>req := r2\<rparr>)" "req_ok r2" "written r2 = written (req s)"
    "room r2 = room (req s)"
    using read_arg_ok[of "s\<lparr>req := r1\<rparr>" 1 4] r1 m(4) r(4) by (auto simp: v_def)
  let ?s = "s\<lparr>req := r2\<rparr>" and ?uid = "de64 (v 0)" and ?off = "de32 (v 1)"
  have st: "its_store env ?s = its_store env s" by (rule store_same) simp
  have e: "its_get_result env ?s (client_id m) ?uid ?off (room (req s) 0) = res" by (simp add: res_def its_get_result_def st v_def)
  have k: "its_key (client_id m) ?uid" using de64_key[OF m(2)] by simp
  have wr: "written (req ?s) = written (req s)" using r2(3) by simp
  have "its_fs_ok ?s" "req_ok (req ?s)" "room (req s) 0 \<le> room (req ?s) 0" "length (asset_data ?s) \<le> buf_size"
    using r r2 by (auto simp: its_fs_ok_def)
  from tfm_its_get_ok[OF this(1,2) k this(3,4), of ?off, unfolded e st wr]
  obtain x t where t: "tfm_its_get env (client_id m) ?uid ?off (room (req s) 0) ?s = Some (x, t)"
    "x = map_sum id length res \<or> res = Inr [] \<and> x = Inl PSA_ERROR_GENERIC_ERROR" "its_fs_ok t" "req_ok (req t)"
    "length (asset_data t) = length (asset_data s)" "its_store env t = its_store env s"
    "written (req t) = (case res of Inl _ \<Rightarrow> written (req s) | Inr bs \<Rightarrow> (written (req s))(0 := written (req s) 0 @ bs))"
    by auto
  have "tfm_internal_trusted_storage_service_sfn env m s = Some (map_sum id (\<lambda>_. ()) x, t)"
    using m(1) z r1(1) r2(1) t(1)
    by (simp add: tfm_internal_trusted_storage_service_sfn_def its_msg_consts tfm_its_get_req_def)
  moreover have "map_sum id (\<lambda>_. ()) x = map_sum id (\<lambda>_. ()) res \<or> res = Inr [] \<and> map_sum id (\<lambda>_. ()) x = Inl PSA_ERROR_GENERIC_ERROR"
    using t(2) by (cases res) auto
  moreover have "its_ready req_ok buf_size t" using t(3-5) r(3,4) by (simp add: its_ready_def)
  ultimately show ?thesis using t(6,7) by blast
qed

lemma get_info_req_ok:
  fixes s :: "(ram_dev, 'r) its_state"
  assumes rdy: "its_ready req_ok buf_size s" and sm: "sizes_match m (rest (req s)) (room (req s))"
    and m: "msg_type m = TFM_ITS_GET_INFO" "client_ok (client_id m)" "length (rest (req s) 0) = 8" "room (req s) 0 = 12"
  defines "res \<equiv> its_info_result env s (client_id m) (de64 (rest (req s) 0))"
  shows "\<exists>t. tfm_internal_trusted_storage_service_sfn env m s = Some (map_sum id (\<lambda>_. ()) res, t)
    \<and> its_ready req_ok buf_size t \<and> its_store env t = its_store env s
    \<and> written (req t) = (case res of Inl _ \<Rightarrow> written (req s) | Inr i \<Rightarrow> (written (req s))(0 := written (req s) 0
         @ le32 (capacity i) @ le32 (info_size i) @ le32 (unat (psa_storage_info_t.storage_flags i))))"
proof -
  have r: "its_fs_ok s" "req_ok (req s)" "length (asset_data s) \<le> buf_size" "12 \<le> buf_size" using rdy by (auto simp: its_ready_def)
  have z: "in_size m ! 0 = 8" "out_size m ! 0 = 12"
    using sm m(3,4) size_eq[of "in_size m ! 0" 8 8] size_eq[of "out_size m ! 0" 12 12] by (auto simp: sizes_match_def)
  obtain r1 where r1: "read_arg env 0 8 s = Some (Inr (rest (req s) 0), s\<lparr>req := r1\<rparr>)" "req_ok r1" "written r1 = written (req s)"
    "room r1 = room (req s)" using read_arg_ok[OF r(2), of 0 8] m(3) r(4) by auto
  let ?s = "s\<lparr>req := r1\<rparr>" and ?uid = "de64 (rest (req s) 0)"
  have st: "its_store env ?s = its_store env s" by (rule store_same) simp
  have e: "its_info_result env ?s (client_id m) ?uid = res" by (simp add: res_def its_info_result_def st)
  have k: "its_key (client_id m) ?uid" using de64_key[OF m(2)] by simp
  have "its_fs_ok ?s" using r by (simp add: its_fs_ok_def)
  from tfm_its_get_info_ok[OF this k, of env, unfolded e st]
  obtain t where t: "tfm_its_get_info env (client_id m) ?uid ?s = (res, t)" "its_fs_ok t" "req t = r1"
    "length (asset_data t) = length (asset_data s)" "its_store env t = its_store env s" by auto
  show ?thesis
  proof (cases res)
    case (Inl x)
    then have "tfm_internal_trusted_storage_service_sfn env m s = Some (Inl x, t)"
      using m(1) z r1(1) t(1)
      by (simp add: tfm_internal_trusted_storage_service_sfn_def its_msg_consts tfm_its_get_info_req_def)
    then show ?thesis using Inl t r1 r(3,4) by (auto simp: its_ready_def)
  next
    case (Inr i)
    define bs where "bs = le32 (capacity i) @ le32 (info_size i) @ le32 (unat (psa_storage_info_t.storage_flags i))"
    have "length bs = 12" by (simp add: bs_def)
    then obtain r2 where r2: "psa_write_req env 0 bs r1 = Some r2" "req_ok r2" "written r2 = (written (req s))(0 := written (req s) 0 @ bs)"
      using write_vec[OF r1(2), of 0 bs] r1(3,4) m(4) r(4) by auto
    have "tfm_internal_trusted_storage_service_sfn env m s = Some (Inr (), t\<lparr>req := r2\<rparr>)"
      using m(1) z r1(1) t(1,3) r2(1) Inr
      by (simp add: tfm_internal_trusted_storage_service_sfn_def its_msg_consts tfm_its_get_info_req_def bs_def)
    moreover have "its_store env (t\<lparr>req := r2\<rparr>) = its_store env s" unfolding t(5)[symmetric] by (rule store_same) simp
    moreover have "its_ready req_ok buf_size (t\<lparr>req := r2\<rparr>)" using t(2,4) r2(2) r(3,4) by (simp add: its_ready_def its_fs_ok_def)
    ultimately show ?thesis using r2(3) unfolding Inr by (intro exI[of _ "t\<lparr>req := r2\<rparr>"]) (simp add: bs_def)
  qed
qed

text \<open>A message that is not one of the four requests, with arguments of the right sizes, changes nothing.\<close>

lemma refused_msg:
  fixes s :: "(ram_dev, 'r) its_state"
  shows "msg_type m = TFM_ITS_SET \<and> in_size m ! 0 = 8 \<and> in_size m ! 2 = 4
    \<or> msg_type m = TFM_ITS_GET \<and> in_size m ! 0 = 8 \<and> in_size m ! 1 = 4
    \<or> msg_type m = TFM_ITS_GET_INFO \<and> in_size m ! 0 = 8 \<and> out_size m ! 0 = 12
    \<or> msg_type m = TFM_ITS_REMOVE \<and> in_size m ! 0 = 8
    \<or> (\<exists>e. tfm_internal_trusted_storage_service_sfn env m s = Some (Inl e, s))"
proof -
  have "in_size m ! 0 \<noteq> 8 \<or> in_size m ! 2 \<noteq> 4 \<Longrightarrow> tfm_its_set_req env m s = Some (Inl PSA_ERROR_PROGRAMMER_ERROR, s)"
    "in_size m ! 0 \<noteq> 8 \<or> in_size m ! 1 \<noteq> 4 \<Longrightarrow> tfm_its_get_req env m s = Some (Inl PSA_ERROR_PROGRAMMER_ERROR, s)"
    "in_size m ! 0 \<noteq> 8 \<or> out_size m ! 0 \<noteq> 12 \<Longrightarrow> tfm_its_get_info_req env m s = Some (Inl PSA_ERROR_PROGRAMMER_ERROR, s)"
    "in_size m ! 0 \<noteq> 8 \<Longrightarrow> tfm_its_remove_req env m s = Some (Inl PSA_ERROR_PROGRAMMER_ERROR, s)"
    unfolding tfm_its_set_req_def tfm_its_get_req_def tfm_its_get_info_req_def tfm_its_remove_req_def by (simp_all only: if_True simp_thms)
  then show ?thesis unfolding tfm_internal_trusted_storage_service_sfn_def by (metis (full_types))
qed

text \<open>
  Whatever the message, the service answers it and is ready for the next one. No request changes an
  asset of another client, and none changes an asset that was created to be written once.
\<close>

lemma sfn_ok:
  fixes s :: "(ram_dev, 'r) its_state"
  assumes rdy: "its_ready req_ok buf_size s" and sm: "sizes_match m (rest (req s)) (room (req s))" and c: "client_ok (client_id m)"
  shows "\<exists>r t. tfm_internal_trusted_storage_service_sfn env m s = Some (r, t) \<and> its_ready req_ok buf_size t
    \<and> (\<forall>client uid. its_key client uid \<longrightarrow> client \<noteq> client_id m \<or> write_once (its_store env s client uid) \<longrightarrow>
          its_store env t client uid = its_store env s client uid)"
proof -
  let ?v = "rest (req s)"
  have z: "in_size m ! 0 = 8 \<longleftrightarrow> length (?v 0) = 8" "in_size m ! 1 = 4 \<longleftrightarrow> length (?v 1) = 4" "in_size m ! 2 = 4 \<longleftrightarrow> length (?v 2) = 4"
    "out_size m ! 0 = 12 \<longleftrightarrow> room (req s) 0 = 12"
    using sm size_eq[of "in_size m ! 0" _ 8] size_eq[of "in_size m ! 1" _ 4] size_eq[of "in_size m ! 2" _ 4] size_eq[of "out_size m ! 0" _ 12]
      unat_u32_lt[of "in_size m ! 0"] unat_u32_lt[of "in_size m ! 1"] unat_u32_lt[of "in_size m ! 2"] unat_u32_lt[of "out_size m ! 0"]
    by (auto simp: sizes_match_def)
  consider (set) "msg_type m = TFM_ITS_SET" "length (?v 0) = 8" "length (?v 2) = 4"
    | (get) "msg_type m = TFM_ITS_GET" "length (?v 0) = 8" "length (?v 1) = 4"
    | (info) "msg_type m = TFM_ITS_GET_INFO" "length (?v 0) = 8" "room (req s) 0 = 12"
    | (remove) "msg_type m = TFM_ITS_REMOVE" "length (?v 0) = 8"
    | (refused) e where "tfm_internal_trusted_storage_service_sfn env m s = Some (Inl e, s)"
    using refused_msg[of m s] unfolding z[symmetric] by blast
  then show ?thesis
  proof cases
    case set
    let ?e = "its_set_status env s (client_id m) (de64 (?v 0)) (length (?v 1)) (word_of_nat (de32 (?v 2)))"
    have w: "?e \<noteq> None" if "write_once (its_store env s (client_id m) (de64 (?v 0)))"
      using that by (auto simp: its_set_status_def write_once_def split: option.splits)
    show ?thesis using set_req_ok[OF rdy sm set(1) c set(2,3)] w by fastforce
  next
    case get
    then show ?thesis using get_req_ok[OF rdy sm get(1) c get(2,3)] by fastforce
  next
    case info
    then show ?thesis using get_info_req_ok[OF rdy sm info(1) c info(2,3)] by fastforce
  next
    case remove
    let ?e = "its_remove_status env s (client_id m) (de64 (?v 0))"
    have w: "?e \<noteq> None" if "write_once (its_store env s (client_id m) (de64 (?v 0)))"
      using that by (auto simp: its_remove_status_def write_once_def split: option.splits)
    show ?thesis using remove_req_ok[OF rdy sm remove(1) c remove(2)] w by fastforce
  next
    case refused
    then show ?thesis using rdy by auto
  qed
qed

end

section \<open>The service on the partition manager\<close>

definition spm_its_env :: "spm_state its_env \<Rightarrow> spm_request \<Rightarrow> spm_state its_env" where
  "spm_its_env env q = env\<lparr>psa_read_req := spm_read_req q, psa_write_req := spm_write_req q\<rparr>"

lemma spm_its_env_sel [simp]:
  "psa_read_req (spm_its_env env q) = spm_read_req q" "psa_write_req (spm_its_env env q) = spm_write_req q"
  "TFM_SP_PS (spm_its_env env q) = TFM_SP_PS env" "its_store (spm_its_env env q) = its_store env"
  by (simp_all add: spm_its_env_def its_store_def its_files_def get_fs_ctx_def fun_eq_iff)

interpretation isp: its_requests "spm_its_env env q" "spm_req_ok q" "rq_cap q" "spm_rest q" "spm_written q" "spm_room q" for env q
  by (simp add: its_requests_def srq.request_vectors_axioms)

text \<open>
  A run of the service: one request after the other. Between two requests the partition manager may
  do anything, as long as the new message has well-formed vectors.
\<close>

abbreviation its_request_ok :: "spm_request \<Rightarrow> psa_msg_t \<Rightarrow> (ram_dev, spm_state) its_state \<Rightarrow> bool" where
  "its_request_ok q m s \<equiv> its_ready (spm_req_ok q) (rq_cap q) s \<and> sizes_match m (spm_rest q (req s)) (spm_room q (req s))
     \<and> client_ok (client_id m)"

inductive its_service_run :: "spm_state its_env \<Rightarrow> (ram_dev, spm_state) its_state \<Rightarrow> (ram_dev, spm_state) its_state \<Rightarrow> bool"
  for env s where
  its_boot: "its_service_run env s s"
| its_message: "its_service_run env s t \<Longrightarrow> its_request_ok q m (t\<lparr>req := r\<rparr>) \<Longrightarrow>
    tfm_internal_trusted_storage_service_sfn (spm_its_env env q) m (t\<lparr>req := r\<rparr>) = Some (x, u) \<Longrightarrow> its_service_run env s u"

lemma its_service_run_once:
  assumes run: "its_service_run env s t" and k: "its_key client uid" and w: "write_once (its_store env s client uid)"
  shows "its_store env t client uid = its_store env s client uid"
  using run
proof induction
  case (its_message t q m r x u)
  have st: "its_store env (t\<lparr>req := r\<rparr>) = its_store env t" by (rule store_same) simp
  have "its_store env u client uid = its_store env t client uid"
    using isp.sfn_ok[of q "t\<lparr>req := r\<rparr>" m env] its_message(2,3) k w unfolding spm_its_env_sel st its_message(4)[symmetric]
    by fastforce
  then show ?case using its_message(4) by simp
qed simp

end
