(* ===== verification/SPM_Request_Wit.thy ===== *)
theory SPM_Request_Wit
  imports SPM_Request SPM_Wit
begin

text \<open>
  A request for the witnesses of the services: the partition manager of \<open>SPM_Wit\<close>, serving a message
  whose vectors are at fixed addresses.
\<close>

definition wit_q :: spm_request where
  "wit_q = \<lparr>rq_env = wit_env, rq_handle = wit_msg, rq_conn = 0x20000080, rq_buf = 0x8000, rq_cap = 16\<rparr>"

definition wit_vec_conn :: "u32 list \<Rightarrow> u32 list \<Rightarrow> connection_t" where
  "wit_vec_conn ins outs = wit_c2\<lparr>msg := (msg wit_c2)\<lparr>in_size := ins, out_size := outs\<rparr>,
     invec_base := [0x1000, 0x1100, 0x1200, 0x1300], outvec_base := [0x2000, 0x2100, 0x2200, 0x2300]\<rparr>"

definition wit_rq :: "u32 list \<Rightarrow> u32 list \<Rightarrow> memory \<Rightarrow> spm_state" where
  "wit_rq ins outs m = wit_got\<lparr>conns := (conns wit_got)(0x20000080 := wit_vec_conn ins outs), ram := m\<rparr>"

lemma wit_vec_conn_sel [simp]:
  "in_size (msg (wit_vec_conn ins outs)) = ins" "out_size (msg (wit_vec_conn ins outs)) = outs" "msg_type (msg (wit_vec_conn ins outs)) = 0"
  "invec_base (wit_vec_conn ins outs) = [0x1000, 0x1100, 0x1200, 0x1300]" "outvec_base (wit_vec_conn ins outs) = [0x2000, 0x2100, 0x2200, 0x2300]"
  "invec_accessed (wit_vec_conn ins outs) = [0, 0, 0, 0]" "outvec_written (wit_vec_conn ins outs) = [0, 0, 0, 0]"
  "conn_service (wit_vec_conn ins outs) = Some 0"
  by (simp_all add: wit_vec_conn_def)

lemma mem_disjoint_apart:
  assumes "unat a + n \<le> unat b" "unat b + k \<le> 2 ^ 32"
  shows "mem_disjoint a n b k" "mem_disjoint b k a n"
proof -
  have "\<not> (unat (x - a) < n \<and> unat (x - b) < k)" for x
  proof
    assume x: "unat (x - a) < n \<and> unat (x - b) < k"
    have "unat ((x - a) + a) = unat (x - a) + unat a" by (rule unat_add_lt) (use x assms in linarith)
    moreover have "unat ((x - b) + b) = unat (x - b) + unat b" by (rule unat_add_lt) (use x assms in linarith)
    ultimately show False using x assms by simp
  qed
  then show "mem_disjoint a n b k" "mem_disjoint b k a n" by (auto simp: mem_disjoint_def)
qed

lemma less_4: "(\<forall>i < (4::nat). P i) \<longleftrightarrow> P 0 \<and> P 1 \<and> P 2 \<and> P 3"
  by (auto simp: numeral_eq_Suc less_Suc_eq)

lemma wit_rq_ok:
  assumes "unat a0 \<le> 16" "unat a1 \<le> 16" "unat a2 \<le> 16" "unat b0 \<le> 16"
  shows "spm_req_ok wit_q (wit_rq [a0, a1, a2, 0] [b0, 0, 0, 0] m)"
proof -
  let ?C = "wit_vec_conn [a0, a1, a2, 0] [b0, 0, 0, 0]" and ?s = "wit_rq [a0, a1, a2, 0] [b0, 0, 0, 0] m"
  have e: "mem_disjoint a 0 b k" "mem_disjoint a k b 0" for a b k by (simp_all add: mem_disjoint_def)
  have u: "conn_wf ?C" "iov_within ?C" by (simp_all add: conn_wf_def iov_within_def less_4)
  have d: "inv_disjoint ?C 0x2000 (unat b0)" "inv_disjoint ?C 0x8000 16" "outv_disjoint ?C 0x8000 16"
    using assms by (auto simp: inv_disjoint_def outv_disjoint_def less_4 e intro!: mem_disjoint_apart(2))
  have v: "vecs_apart ?C" unfolding vecs_apart_def less_4 using d(1) by (simp add: e inv_disjoint_def)
  have c: "conns ?s 0x20000080 = ?C" "current ?s = Some 1" by (simp_all add: wit_rq_def)
  have "request_connection wit_msg ?s = Some 0x20000080"
    using wit_request
    by (simp add: request_connection_def spm_msg_handle_to_connection_def Let_def wit_rq_def handle_to_connection_def
        spm_validate_connection_def tfm_spm_partition_get_running_partition_id_def spm_simps split: if_splits)
  then show ?thesis using u d(2,3) v unfolding spm_req_ok_def by (simp add: wit_q_def c)
qed

lemma wit_rq_views:
  assumes "i < 4"
  shows "spm_rest wit_q (wit_rq ins outs m) i = mem_rd m ([0x1000, 0x1100, 0x1200, 0x1300] ! i) (unat (ins ! i))"
    "spm_room wit_q (wit_rq ins outs m) i = unat (outs ! i)" "spm_written wit_q (wit_rq ins outs m) i = []"
  using assms by (auto simp: spm_views wit_q_def wit_rq_def less_4[of "\<lambda>i. [0, 0, 0, 0] ! i = (0 :: u32)", simplified] mem_rd_def)

lemma mem_rd_8: "mem_rd m a 8 = [m a, m (a + 1), m (a + 2), m (a + 3), m (a + 4), m (a + 5), m (a + 6), m (a + 7)]"
  by (simp add: mem_rd_def upt_rec)

lemma mem_rd_3: "mem_rd m a 3 = [m a, m (a + 1), m (a + 2)]"
  by (simp add: mem_rd_def upt_rec)

end
