(* ===== verification/ITS_Service_Properties.thy ===== *)
theory ITS_Service_Properties
  imports ITS_Requests ITS_Properties SPM_Request_Wit
begin

text \<open>
  The properties of the Internal Trusted Storage service, from the vectors a client passes to the
  files in flash: the request handlers of tfm_its_req_mngr.c on top of the partition manager's
  \<open>psa_read\<close> and \<open>psa_write\<close>, over the flash file system and the RAM driver.
\<close>

section \<open>The system of the witnesses\<close>

text \<open>
  The requests of \<open>SPM_Request_Wit\<close>; the file
  system of ITS holds one write-once asset of client 7, that of Protected Storage is empty.
\<close>

definition wit_its_env :: "spm_state its_env" where
  "wit_its_env = \<lparr>TFM_SP_PS = 260, psa_read_req = (\<lambda>_ _ _. None), psa_write_req = (\<lambda>_ _ _. None), tfm_hal_its_fs_info = None,
     tfm_hal_ps_fs_info = None, ITS_CREATE_FLASH_LAYOUT = True, PS_CREATE_FLASH_LAYOUT = True\<rparr>"

definition wit_its :: "spm_state \<Rightarrow> (ram_dev, spm_state) its_state" where
  "wit_its r = \<lparr>fs_cfg_its = wit_cfg, fs_ctx_its = wit_one, fs_cfg_ps = wit_cfg, fs_ctx_ps = wit_empty,
     g_fid = [], g_file_info = wit_info, asset_data = [0, 0], req = r\<rparr>"

definition wit_its_msg :: "int \<Rightarrow> int \<Rightarrow> u32 list \<Rightarrow> u32 list \<Rightarrow> psa_msg_t" where
  "wit_its_msg ty client ins outs = zero_msg\<lparr>msg_type := ty, client_id := client, in_size := ins, out_size := outs\<rparr>"

lemma wit_its_ok: "its_fs_ok (wit_its r)"
  by (auto simp: its_fs_ok_def wit_its_def fs_cfg_def fs_ctx_def split: its_fs.split)

lemma wit_fid_eq: "tfm_its_get_fid 7 1 = wit_fid"
  by (simp add: tfm_its_get_fid_def le64_def le32_def wit_fid_def)

lemma wit_store: "its_store wit_its_env (wit_its r) 7 1 = Some ([1, 2, 3], PSA_STORAGE_FLAG_WRITE_ONCE)"
  "its_store wit_its_env (wit_its r) 260 uid = None"
  by (simp_all add: its_store_def its_files_def wit_its_def get_fs_ctx_def wit_its_env_def fs_cfg_def fs_ctx_def wit_fid_eq[simplified]
      its_fs_flag_consts PSA_STORAGE_FLAG_WRITE_ONCE_def)

text \<open>Two messages: Protected Storage (client 260) stores three bytes as asset 2, client 7 asks for asset 1.\<close>

definition wit_set_ram :: memory where
  "wit_set_ram x = (if x = 0x1000 then 2 else if x = 0x1100 then 7 else if x = 0x1101 then 8 else if x = 0x1102 then 9 else 0)"

definition wit_set :: spm_state where "wit_set = wit_rq [8, 3, 4, 0] [0, 0, 0, 0] wit_set_ram"

definition wit_get_ram :: "byte \<Rightarrow> memory" where
  "wit_get_ram uid x = (if x = 0x1000 then uid else if x = 0x1100 then 1 else 0)"

definition wit_get_rq :: "byte \<Rightarrow> spm_state" where "wit_get_rq uid = wit_rq [8, 4, 0, 0] [2, 0, 0, 0] (wit_get_ram uid)"

lemma wit_sizes: "sizes_match (wit_its_msg ty client ins outs) (spm_rest wit_q (wit_rq ins outs m)) (spm_room wit_q (wit_rq ins outs m))"
  by (simp add: sizes_match_def wit_rq_views wit_its_msg_def)

lemma wit_ready:
  assumes "unat a0 \<le> 16" "unat a1 \<le> 16" "unat a2 \<le> 16" "unat b0 \<le> 16"
  shows "its_ready (spm_req_ok wit_q) (rq_cap wit_q) (wit_its (wit_rq [a0, a1, a2, 0] [b0, 0, 0, 0] m))"
  using wit_rq_ok[OF assms] wit_its_ok by (simp add: its_ready_def wit_its_def wit_q_def)

lemma wit_set_vecs [simp]: "spm_rest wit_q wit_set 0 = [2, 0, 0, 0, 0, 0, 0, 0]" "spm_rest wit_q wit_set (Suc 0) = [7, 8, 9]"
  "spm_rest wit_q wit_set 2 = [0, 0, 0, 0]"
  by (simp_all add: wit_set_def wit_rq_views mem_rd_8 mem_rd_3 mem_rd_4 wit_set_ram_def)

lemma wit_get_vecs [simp]: "spm_rest wit_q (wit_get_rq uid) 0 = [uid, 0, 0, 0, 0, 0, 0, 0]" "spm_rest wit_q (wit_get_rq uid) (Suc 0) = [1, 0, 0, 0]"
  "spm_room wit_q (wit_get_rq uid) 0 = 2" "spm_written wit_q (wit_get_rq uid) 0 = []"
  by (simp_all add: wit_get_rq_def wit_rq_views mem_rd_8 mem_rd_4 wit_get_ram_def)

lemma wit_set_length: "length [7, 8, 9 :: byte] = 3" "word_of_nat 0 = (0 :: u32)"
  by simp_all

lemma wit_its_req [simp]: "req (wit_its r) = r" "client_id (wit_its_msg ty client ins outs) = client" "msg_type (wit_its_msg ty client ins outs) = ty"
  by (simp_all add: wit_its_def wit_its_msg_def)

lemma wit_args [simp]: "de64 [2, 0, 0, 0, 0, 0, 0, 0] = 2" "de64 [1, 0, 0, 0, 0, 0, 0, 0] = Suc 0" "de32 [1, 0, 0, 0] = Suc 0" "de32 [0, 0, 0, 0] = 0"
  by (simp_all add: de64_def de32_def)

lemma wit_set_status: "its_set_status (spm_its_env wit_its_env q) (wit_its r) 260 2 3 0 = None"
proof -
  have "has_room (ram_content (flash_cfg wit_cfg)) wit_cfg wit_empty 3 False"
    using empty_has_room[OF wit_empty_facts(2,3) _ _ ram_active_length, of 3] by simp
  then have "its_set_error (spm_its_env wit_its_env q) (wit_its r) 260 2 3 = None"
    by (simp add: its_set_error_def its_files_def get_fs_ctx_def wit_its_def fs_cfg_def fs_ctx_def) (simp add: wit_its_env_def)
  then show ?thesis unfolding its_set_status_def spm_its_env_sel wit_store by simp
qed

lemmas wit_unfold = wit_its_req wit_set_vecs wit_get_vecs wit_set_vecs(2)[folded One_nat_def] wit_get_vecs(2)[folded One_nat_def] wit_args wit_set_length

section \<open>Properties\<close>

text \<open>
  C4. A set request stores the asset, and only that. The service answers with the status the flags,
  the present asset and the free space determine; on success the asset of this client and identifier
  is the data of the second vector with the flags of the third one, on an error nothing changes, and
  in both cases every other asset (of this client or another one) is what it was.
\<close>

theorem its_set_request:
  assumes "its_ready (spm_req_ok q) (rq_cap q) s" "sizes_match m (spm_rest q (req s)) (spm_room q (req s))"
    "msg_type m = TFM_ITS_SET" "client_ok (client_id m)" "length (spm_rest q (req s) 0) = 8" "length (spm_rest q (req s) 2) = 4"
  shows "\<exists>e t. e = its_set_status (spm_its_env env q) s (client_id m) (de64 (spm_rest q (req s) 0)) (length (spm_rest q (req s) 1))
        (word_of_nat (de32 (spm_rest q (req s) 2)))
    \<and> tfm_internal_trusted_storage_service_sfn (spm_its_env env q) m s = Some (status_result e, t)
    \<and> its_ready (spm_req_ok q) (rq_cap q) t
    \<and> (\<forall>client uid. its_key client uid \<longrightarrow> its_store env t client uid
        = (if e = None \<and> client = client_id m \<and> uid = de64 (spm_rest q (req s) 0)
           then Some (spm_rest q (req s) 1, word_of_nat (de32 (spm_rest q (req s) 2))) else its_store env s client uid))"
  using isp.set_req_ok[OF assms, of env] unfolding spm_its_env_sel by blast

theorem its_set_request_witness:
  "\<exists>t. tfm_internal_trusted_storage_service_sfn (spm_its_env wit_its_env wit_q) (wit_its_msg TFM_ITS_SET 260 [8, 3, 4, 0] [0, 0, 0, 0]) (wit_its wit_set)
      = Some (Inr (), t) \<and> its_store wit_its_env t 260 2 = Some ([7, 8, 9], 0)"
proof -
  have r: "its_ready (spm_req_ok wit_q) (rq_cap wit_q) (wit_its wit_set)" unfolding wit_set_def by (rule wit_ready) simp_all
  have k: "its_key 260 2" "client_ok 260" by (simp_all add: its_key_def client_ok_def)
  show ?thesis
    using its_set_request[of wit_q "wit_its wit_set" "wit_its_msg TFM_ITS_SET 260 [8, 3, 4, 0] [0, 0, 0, 0]" wit_its_env] r k
      wit_sizes[of TFM_ITS_SET 260 "[8, 3, 4, 0]" "[0, 0, 0, 0]" wit_set_ram, folded wit_set_def]
    unfolding wit_unfold wit_set_status by fastforce
qed

text \<open>
  A get request returns the bytes of the asset from the offset on, as many as the output vector
  has room for or the asset has, and changes no asset; an unknown identifier or an offset beyond the
  end is refused and nothing is written. (A request that asks for no bytes may also get a generic
  error from the driver.)
\<close>

theorem its_get_request:
  assumes "its_ready (spm_req_ok q) (rq_cap q) s" "sizes_match m (spm_rest q (req s)) (spm_room q (req s))"
    "msg_type m = TFM_ITS_GET" "client_ok (client_id m)" "length (spm_rest q (req s) 0) = 8" "length (spm_rest q (req s) 1) = 4"
    "res = its_get_result env s (client_id m) (de64 (spm_rest q (req s) 0)) (de32 (spm_rest q (req s) 1)) (spm_room q (req s) 0)"
  shows "\<exists>r t. tfm_internal_trusted_storage_service_sfn (spm_its_env env q) m s = Some (r, t)
    \<and> (r = map_sum id (\<lambda>_. ()) res \<or> res = Inr [] \<and> r = Inl PSA_ERROR_GENERIC_ERROR)
    \<and> its_ready (spm_req_ok q) (rq_cap q) t \<and> its_store env t = its_store env s
    \<and> spm_written q (req t) = (case res of Inl _ \<Rightarrow> spm_written q (req s)
         | Inr bs \<Rightarrow> (spm_written q (req s))(0 := spm_written q (req s) 0 @ bs))"
proof -
  have "res = its_get_result (spm_its_env env q) s (client_id m) (de64 (spm_rest q (req s) 0)) (de32 (spm_rest q (req s) 1)) (spm_room q (req s) 0)"
    by (simp add: assms(7) its_get_result_def)
  then show ?thesis using isp.get_req_ok[OF assms(1-6), of env] by simp
qed

theorem its_get_request_witness:
  "\<exists>t. tfm_internal_trusted_storage_service_sfn (spm_its_env wit_its_env wit_q) (wit_its_msg TFM_ITS_GET 7 [8, 4, 0, 0] [2, 0, 0, 0])
      (wit_its (wit_get_rq 1)) = Some (Inr (), t) \<and> spm_written wit_q (req t) 0 = [2, 3]"
proof -
  have r: "its_ready (spm_req_ok wit_q) (rq_cap wit_q) (wit_its (wit_get_rq 1))" unfolding wit_get_rq_def by (rule wit_ready) simp_all
  have e: "its_get_result wit_its_env (wit_its (wit_get_rq 1)) 7 1 1 2 = Inr [2, 3]" by (simp add: its_get_result_def wit_store[simplified] rd_def)
  show ?thesis
    using its_get_request[of wit_q "wit_its (wit_get_rq 1)" "wit_its_msg TFM_ITS_GET 7 [8, 4, 0, 0] [2, 0, 0, 0]" "Inr [2, 3]" wit_its_env] r e
      wit_sizes[of TFM_ITS_GET 7 "[8, 4, 0, 0]" "[2, 0, 0, 0]" "wit_get_ram 1", folded wit_get_rq_def]
    unfolding wit_unfold One_nat_def by (auto simp: client_ok_def)
qed

text \<open>
  A remove request deletes the asset unless it was created write-once; every other asset stays.
\<close>

theorem its_remove_request:
  assumes "its_ready (spm_req_ok q) (rq_cap q) s" "sizes_match m (spm_rest q (req s)) (spm_room q (req s))"
    "msg_type m = TFM_ITS_REMOVE" "client_ok (client_id m)" "length (spm_rest q (req s) 0) = 8"
    "e = its_remove_status env s (client_id m) (de64 (spm_rest q (req s) 0))"
  shows "\<exists>t. tfm_internal_trusted_storage_service_sfn (spm_its_env env q) m s = Some (status_result e, t)
    \<and> its_ready (spm_req_ok q) (rq_cap q) t
    \<and> (\<forall>client uid. its_key client uid \<longrightarrow> its_store env t client uid
        = (if e = None \<and> client = client_id m \<and> uid = de64 (spm_rest q (req s) 0) then None else its_store env s client uid))"
proof -
  have e: "e = its_remove_status (spm_its_env env q) s (client_id m) (de64 (spm_rest q (req s) 0))"
    by (simp add: assms(6) its_remove_status_def)
  show ?thesis using isp.remove_req_ok[OF assms(1-5), of env] unfolding spm_its_env_sel e[symmetric] by blast
qed

theorem its_remove_request_witness:
  "\<exists>t. tfm_internal_trusted_storage_service_sfn (spm_its_env wit_its_env wit_q) (wit_its_msg TFM_ITS_REMOVE 7 [8, 4, 0, 0] [2, 0, 0, 0])
      (wit_its (wit_get_rq 1)) = Some (Inl PSA_ERROR_NOT_PERMITTED, t) \<and> its_store wit_its_env t 7 1 = Some ([1, 2, 3], PSA_STORAGE_FLAG_WRITE_ONCE)"
proof -
  have r: "its_ready (spm_req_ok wit_q) (rq_cap wit_q) (wit_its (wit_get_rq 1))" unfolding wit_get_rq_def by (rule wit_ready) simp_all
  have k: "its_key 7 (Suc 0)" "client_ok 7" by (simp_all add: its_key_def client_ok_def)
  have e: "its_remove_status wit_its_env (wit_its (wit_get_rq 1)) 7 1 = Some PSA_ERROR_NOT_PERMITTED"
    by (simp add: its_remove_status_def wit_store[simplified] PSA_STORAGE_FLAG_WRITE_ONCE_def)
  show ?thesis
    using its_remove_request[of wit_q "wit_its (wit_get_rq 1)" "wit_its_msg TFM_ITS_REMOVE 7 [8, 4, 0, 0] [2, 0, 0, 0]"
        "Some PSA_ERROR_NOT_PERMITTED" wit_its_env] r e k wit_store(1)[of "wit_get_rq 1"]
      wit_sizes[of TFM_ITS_REMOVE 7 "[8, 4, 0, 0]" "[2, 0, 0, 0]" "wit_get_ram 1", folded wit_get_rq_def]
    unfolding wit_unfold One_nat_def by fastforce
qed

text \<open>
  C16. Every message is answered: whatever its type, sizes and contents, the service returns (the
  loops that move the data in chunks end, and no vector operation panics), it is ready for the next
  message, and the assets of all other clients are unchanged.
\<close>

theorem its_service_answers:
  assumes "its_ready (spm_req_ok q) (rq_cap q) s" "sizes_match m (spm_rest q (req s)) (spm_room q (req s))" "client_ok (client_id m)"
  shows "\<exists>r t. tfm_internal_trusted_storage_service_sfn (spm_its_env env q) m s = Some (r, t) \<and> its_ready (spm_req_ok q) (rq_cap q) t
    \<and> (\<forall>client uid. its_key client uid \<and> client \<noteq> client_id m \<longrightarrow> its_store env t client uid = its_store env s client uid)"
  using isp.sfn_ok[OF assms, of env] unfolding spm_its_env_sel by blast

theorem its_service_answers_witness:
  "\<exists>r t. tfm_internal_trusted_storage_service_sfn (spm_its_env wit_its_env wit_q) (wit_its_msg TFM_ITS_SET 260 [8, 3, 4, 0] [0, 0, 0, 0]) (wit_its wit_set)
      = Some (r, t) \<and> its_store wit_its_env t 7 1 = Some ([1, 2, 3], PSA_STORAGE_FLAG_WRITE_ONCE)"
proof -
  have r: "its_ready (spm_req_ok wit_q) (rq_cap wit_q) (wit_its wit_set)" unfolding wit_set_def by (rule wit_ready) simp_all
  have k: "its_key 7 1" "client_ok 260" by (simp_all add: its_key_def client_ok_def)
  show ?thesis
    using its_service_answers[of wit_q "wit_its wit_set" "wit_its_msg TFM_ITS_SET 260 [8, 3, 4, 0] [0, 0, 0, 0]" wit_its_env] r k
      wit_sizes[of TFM_ITS_SET 260 "[8, 3, 4, 0]" "[0, 0, 0, 0]" wit_set_ram, folded wit_set_def] wit_store(1)[of wit_set]
    by fastforce
qed

text \<open>
  C6. A write-once asset is there for ever: no sequence of requests, of its owner or of other
  clients, changes or removes it.
\<close>

theorem its_write_once_forever:
  assumes "its_service_run env s t" "its_key client uid" "its_store env s client uid = Some (d, fl)"
    "fl AND PSA_STORAGE_FLAG_WRITE_ONCE \<noteq> 0"
  shows "its_store env t client uid = Some (d, fl)"
  using its_service_run_once[OF assms(1,2)] assms(3,4) by (simp add: write_once_def)

theorem its_write_once_forever_witness:
  "\<exists>u. its_service_run wit_its_env (wit_its (wit_get_rq 1)) u \<and> its_store wit_its_env u 7 1 = Some ([1, 2, 3], PSA_STORAGE_FLAG_WRITE_ONCE)
     \<and> (\<exists>x. tfm_internal_trusted_storage_service_sfn (spm_its_env wit_its_env wit_q) (wit_its_msg TFM_ITS_REMOVE 7 [8, 4, 0, 0] [2, 0, 0, 0])
            (wit_its (wit_get_rq 1)) = Some (x, u))"
proof -
  let ?m = "wit_its_msg TFM_ITS_REMOVE 7 [8, 4, 0, 0] [2, 0, 0, 0]" and ?s = "wit_its (wit_get_rq 1)"
  have s: "?s\<lparr>req := wit_get_rq 1\<rparr> = ?s" by (simp add: wit_its_def)
  have r: "its_request_ok wit_q ?m ?s"
    using wit_ready[of 8 4 0 2 "wit_get_ram 1", folded wit_get_rq_def] wit_sizes[of TFM_ITS_REMOVE 7 "[8, 4, 0, 0]" "[2, 0, 0, 0]" "wit_get_ram 1", folded wit_get_rq_def]
    by (simp add: client_ok_def)
  then obtain x u where u: "tfm_internal_trusted_storage_service_sfn (spm_its_env wit_its_env wit_q) ?m ?s = Some (x, u)"
    using isp.sfn_ok[of wit_q ?s ?m wit_its_env] by blast
  have run: "its_service_run wit_its_env ?s u" 
    using r u by (intro its_message[OF its_boot, where q = wit_q and r = "wit_get_rq 1" and m = ?m]) (simp_all add: s)
  then show ?thesis
    using its_write_once_forever[OF run _ wit_store(1)] u by (auto simp: its_key_def client_ok_def PSA_STORAGE_FLAG_WRITE_ONCE_def)
qed

text \<open>
  C5. What is set is what is got: after a successful set request, a get request of the same client
  for the same identifier returns the bytes of the data from the offset on, whatever the partition
  manager did in between.
\<close>

theorem its_set_get:
  assumes set: "its_ready (spm_req_ok q) (rq_cap q) s" "sizes_match m (spm_rest q (req s)) (spm_room q (req s))"
    "msg_type m = TFM_ITS_SET" "client_ok (client_id m)" "length (spm_rest q (req s) 0) = 8" "length (spm_rest q (req s) 2) = 4"
    "tfm_internal_trusted_storage_service_sfn (spm_its_env env q) m s = Some (Inr (), t)"
    and get: "its_ready (spm_req_ok q') (rq_cap q') (t\<lparr>req := r\<rparr>)" "sizes_match m' (spm_rest q' r) (spm_room q' r)"
    "msg_type m' = TFM_ITS_GET" "client_id m' = client_id m" "spm_rest q' r 0 = spm_rest q (req s) 0" "length (spm_rest q' r 1) = 4"
    and off: "de32 (spm_rest q' r 1) < length (spm_rest q (req s) 1)" "0 < spm_room q' r 0"
  shows "\<exists>u. tfm_internal_trusted_storage_service_sfn (spm_its_env env q') m' (t\<lparr>req := r\<rparr>) = Some (Inr (), u)
    \<and> spm_written q' (req u) 0 = spm_written q' r 0 @ take (spm_room q' r 0) (drop (de32 (spm_rest q' r 1)) (spm_rest q (req s) 1))"
proof -
  let ?uid = "de64 (spm_rest q (req s) 0)" and ?data = "spm_rest q (req s) 1" and ?off = "de32 (spm_rest q' r 1)"
  define e where "e = its_set_status (spm_its_env env q) s (client_id m) ?uid (length ?data) (word_of_nat (de32 (spm_rest q (req s) 2)))"
  have k: "its_key (client_id m) ?uid" by (rule de64_key[OF set(4)])
  obtain x where x: "its_store env t (client_id m) ?uid = Some (?data, x)" and u: "?uid \<noteq> 0"
    using isp.set_req_ok[OF set(1-6), of env] set(7) k unfolding spm_its_env_sel e_def[symmetric]
    by (cases e) (auto simp: e_def its_set_status_def split: if_splits)
  have st: "its_store env (t\<lparr>req := r\<rparr>) = its_store env t" by (rule store_same) simp
  have res: "its_get_result (spm_its_env env q') (t\<lparr>req := r\<rparr>) (client_id m) ?uid ?off (spm_room q' r 0)
      = Inr (take (spm_room q' r 0) (drop ?off ?data))"
    using x u off(1) by (simp add: its_get_result_def st rd_def min_def)
  have ne: "take (spm_room q' r 0) (drop ?off ?data) \<noteq> []" using off by simp
  have sel: "req (t\<lparr>req := r\<rparr>) = r" by simp
  note g = isp.get_req_ok[OF get(1) _ get(3), of env, unfolded sel get(4,5) res, OF get(2) set(4,5) get(6)]
  show ?thesis using g ne by auto
qed

theorem its_set_get_witness:
  "\<exists>t u. tfm_internal_trusted_storage_service_sfn (spm_its_env wit_its_env wit_q) (wit_its_msg TFM_ITS_SET 260 [8, 3, 4, 0] [0, 0, 0, 0]) (wit_its wit_set)
        = Some (Inr (), t)
     \<and> tfm_internal_trusted_storage_service_sfn (spm_its_env wit_its_env wit_q) (wit_its_msg TFM_ITS_GET 260 [8, 4, 0, 0] [2, 0, 0, 0])
        (t\<lparr>req := wit_get_rq 2\<rparr>) = Some (Inr (), u) \<and> spm_written wit_q (req u) 0 = [8, 9]"
proof -
  let ?m = "wit_its_msg TFM_ITS_SET 260 [8, 3, 4, 0] [0, 0, 0, 0]" and ?m' = "wit_its_msg TFM_ITS_GET 260 [8, 4, 0, 0] [2, 0, 0, 0]"
  have r: "its_ready (spm_req_ok wit_q) (rq_cap wit_q) (wit_its wit_set)" unfolding wit_set_def by (rule wit_ready) simp_all
  have c: "client_ok 260" by (simp add: client_ok_def)
  note sz = wit_sizes[of TFM_ITS_SET 260 "[8, 3, 4, 0]" "[0, 0, 0, 0]" wit_set_ram, folded wit_set_def]
    and sz' = wit_sizes[of TFM_ITS_GET 260 "[8, 4, 0, 0]" "[2, 0, 0, 0]" "wit_get_ram 2", folded wit_get_rq_def]
  obtain t where t: "tfm_internal_trusted_storage_service_sfn (spm_its_env wit_its_env wit_q) ?m (wit_its wit_set) = Some (Inr (), t)"
    "its_ready (spm_req_ok wit_q) (rq_cap wit_q) t"
    using isp.set_req_ok[of wit_q "wit_its wit_set" ?m wit_its_env] r c sz unfolding wit_unfold wit_set_status by auto
  have "spm_req_ok wit_q (wit_get_rq 2)" unfolding wit_get_rq_def by (rule wit_rq_ok) simp_all
  then have r': "its_ready (spm_req_ok wit_q) (rq_cap wit_q) (t\<lparr>req := wit_get_rq 2\<rparr>)" using t(2) by (simp add: its_ready_def its_fs_ok_def)
  show ?thesis
    using its_set_get[of wit_q "wit_its wit_set" ?m wit_its_env t wit_q "wit_get_rq 2" ?m'] r r' c sz sz' t(1) by auto
qed

end
