(* ===== verification/CMSIS_Flash.thy ===== *)
theory CMSIS_Flash
  imports TFM_Prelude
begin

text \<open>
  The CMSIS flash driver interface (platform/ext/driver/Driver_Flash.h) as the firmware uses it, and
  the contract of a driver for memory in which programming replaces what is there (RRAM, or flash
  whose driver erases the row it programs). The interface is a record of functions on the device's
  state \<open>'d\<close>. Addresses, counts and sizes are 32-bit unsigned values, a count is in items of the data
  width.
\<close>

lemma dvd_next: "w dvd a \<Longrightarrow> w dvd n \<Longrightarrow> a < n \<Longrightarrow> a + w \<le> (n :: nat)"
  using dvd_imp_le[of w "n - a"] by (simp add: dvd_diff_nat)

lemma align_down: "0 < w \<Longrightarrow> x div w * w = x - x mod w \<and> x mod w \<le> x \<and> x mod w < (w :: nat)"
  by (simp add: minus_mod_eq_div_mult)

lemma minus_mod_self [simp]: "x - x mod w = x \<longleftrightarrow> x mod w = (0 :: nat)"
  using mod_less_eq_dividend[of x w] by linarith

text \<open>The number of steps of \<open>z\<close> that start below a multiple of \<open>z\<close>.\<close>

lemma steps_multiple: "0 < z \<Longrightarrow> (n * z + z - 1) div z = (n :: nat)"
proof -
  assume z: "0 < z"
  have "n * z + z - 1 = (z - 1) + n * z" using z by simp
  then show ?thesis using z div_mult_self1[of z "z - 1" n] by simp
qed

section \<open>The interface\<close>

definition ARM_DRIVER_OK :: int where "ARM_DRIVER_OK = 0"
definition ARM_DRIVER_ERROR :: int where "ARM_DRIVER_ERROR = -1"
definition ARM_DRIVER_ERROR_BUSY :: int where "ARM_DRIVER_ERROR_BUSY = -2"
definition ARM_DRIVER_ERROR_TIMEOUT :: int where "ARM_DRIVER_ERROR_TIMEOUT = -3"
definition ARM_DRIVER_ERROR_UNSUPPORTED :: int where "ARM_DRIVER_ERROR_UNSUPPORTED = -4"
definition ARM_DRIVER_ERROR_PARAMETER :: int where "ARM_DRIVER_ERROR_PARAMETER = -5"
definition ARM_DRIVER_ERROR_SPECIFIC :: int where "ARM_DRIVER_ERROR_SPECIFIC = -6"

lemmas arm_status = ARM_DRIVER_OK_def ARM_DRIVER_ERROR_def ARM_DRIVER_ERROR_BUSY_def ARM_DRIVER_ERROR_TIMEOUT_def
  ARM_DRIVER_ERROR_UNSUPPORTED_def ARM_DRIVER_ERROR_PARAMETER_def ARM_DRIVER_ERROR_SPECIFIC_def

record ARM_FLASH_INFO =
  fi_sector_info :: "(nat \<times> nat) list option"
  fi_sector_count :: nat
  fi_sector_size :: nat
  fi_page_size :: nat
  fi_program_unit :: nat
  fi_erased_value :: byte

text \<open>
  \<open>ReadData\<close> returns the number of items or an error, with the bytes it stores through its pointer;
  \<open>ProgramData\<close> takes the bytes from its pointer on. \<open>drv_data_width\<close> is the field of the
  capabilities, an index into \<open>data_width_byte\<close>. A null information pointer is \<open>None\<close>.
\<close>

record 'd ARM_DRIVER_FLASH =
  drv_Initialize :: "'d \<Rightarrow> int \<times> 'd"
  drv_data_width :: nat
  drv_ReadData :: "nat \<Rightarrow> nat \<Rightarrow> 'd \<Rightarrow> (int \<times> byte list) \<times> 'd"
  drv_ProgramData :: "nat \<Rightarrow> byte list \<Rightarrow> nat \<Rightarrow> 'd \<Rightarrow> int \<times> 'd"
  drv_EraseSector :: "nat \<Rightarrow> 'd \<Rightarrow> int \<times> 'd"
  drv_EraseChip :: "'d \<Rightarrow> int \<times> 'd"
  drv_GetInfo :: "ARM_FLASH_INFO option"

definition data_width_byte :: "nat list" where
  "data_width_byte = [1, 2, 4]"

definition drv_item :: "'d ARM_DRIVER_FLASH \<Rightarrow> nat" where
  "drv_item drv = data_width_byte ! drv_data_width drv"

text \<open>The conversion of an unsigned value to \<open>int32_t\<close>.\<close>

definition int32 :: "nat \<Rightarrow> int" where
  "int32 n = (if n < 2 ^ 31 then int n else int n - 2 ^ 32)"

section \<open>The contract\<close>

locale cmsis_flash =
  fixes drv :: "'d ARM_DRIVER_FLASH"
    and info :: ARM_FLASH_INFO
    and fsize :: nat
    and img :: "'d \<Rightarrow> byte list"
    and put :: "'d \<Rightarrow> byte list \<Rightarrow> 'd"
    and ok :: "'d \<Rightarrow> bool"
  assumes data_width: "drv_data_width drv < 3"
    and get_info: "drv_GetInfo drv = Some info"
    and img_length: "ok d \<Longrightarrow> length (img d) = fsize"
    and sizes: "ok d \<Longrightarrow> fsize < 2 ^ 31 \<and> drv_item drv dvd fsize"
    and ok_put: "ok d \<Longrightarrow> length x = fsize \<Longrightarrow> ok (put d x)"
    and img_put: "ok d \<Longrightarrow> length x = fsize \<Longrightarrow> img (put d x) = x"
    and put_img: "ok d \<Longrightarrow> put d (img d) = d"
    and put_put: "ok d \<Longrightarrow> length x = fsize \<Longrightarrow> length y = fsize \<Longrightarrow> put (put d x) y = put d y"
    and read_data: "ok d \<Longrightarrow> 0 < cnt \<Longrightarrow> drv_item drv dvd addr \<Longrightarrow> addr + cnt * drv_item drv \<le> fsize \<Longrightarrow>
      drv_ReadData drv addr cnt d = ((int cnt, rd (img d) addr (cnt * drv_item drv)), d)"
    and program_data: "ok d \<Longrightarrow> 0 < cnt \<Longrightarrow> drv_item drv dvd addr \<Longrightarrow> addr + cnt * drv_item drv \<le> fsize \<Longrightarrow>
      fi_program_unit info dvd cnt * drv_item drv \<Longrightarrow> cnt * drv_item drv \<le> length data \<Longrightarrow>
      drv_ProgramData drv addr data cnt d = (int cnt, put d (wr (img d) addr (take (cnt * drv_item drv) data)))"
    and erase_sector: "ok d \<Longrightarrow> fi_sector_size info dvd addr \<Longrightarrow> addr + fi_sector_size info \<le> fsize \<Longrightarrow>
      drv_EraseSector drv addr d
      = (ARM_DRIVER_OK, put d (wr (img d) addr (replicate (fi_sector_size info) (fi_erased_value info))))"
begin

lemma item_cases: "drv_item drv = 1 \<or> drv_item drv = 2 \<or> drv_item drv = 4"
  using data_width by (auto simp: drv_item_def data_width_byte_def numeral_eq_Suc less_Suc_eq)

lemma item_pos [simp]: "0 < drv_item drv"
  using item_cases by auto

text \<open>
  An unaligned read in parts: \<open>h\<close> bytes of the first item are before the range, \<open>n1\<close> bytes of the range
  are in that item, \<open>n2\<close> bytes are whole items, the rest is in the last item.
\<close>

definition part_head :: "nat \<Rightarrow> nat" where "part_head addr = addr mod drv_item drv"
definition part_first :: "nat \<Rightarrow> nat \<Rightarrow> nat" where
  "part_first addr sz = (if part_head addr = 0 then 0 else min (drv_item drv - part_head addr) sz)"
definition part_items :: "nat \<Rightarrow> nat \<Rightarrow> nat" where
  "part_items addr sz = (sz - part_first addr sz) div drv_item drv"

lemma read_parts:
  assumes ok: "ok d" and r: "addr + sz \<le> fsize"
  defines "w \<equiv> drv_item drv" and "h \<equiv> part_head addr" and "n1 \<equiv> part_first addr sz"
  defines "n2 \<equiv> part_items addr sz * w"
  shows "h \<noteq> 0 \<Longrightarrow> drv_ReadData drv (addr - h) 1 d = ((1, rd (img d) (addr - h) w), d)"
    and "h \<noteq> 0 \<Longrightarrow> rd (rd (img d) (addr - h) w) h n1 = rd (img d) addr n1"
    and "part_items addr sz \<noteq> 0 \<Longrightarrow> drv_ReadData drv (addr + n1) (part_items addr sz) d = ((int (part_items addr sz), rd (img d) (addr + n1) n2), d)"
    and "sz - n1 - n2 \<noteq> 0 \<Longrightarrow> drv_ReadData drv (addr + n1 + n2) 1 d = ((1, rd (img d) (addr + n1 + n2) w), d)"
    and "take (sz - n1 - n2) (rd (img d) (addr + n1 + n2) w) = rd (img d) (addr + n1 + n2) (sz - n1 - n2)"
    and "rd (img d) addr n1 @ rd (img d) (addr + n1) n2 @ rd (img d) (addr + n1 + n2) (sz - n1 - n2) = rd (img d) addr sz"
    and "length (rd (img d) addr n1) = n1" "length (rd (img d) (addr + n1) n2) = n2" "n1 + n2 \<le> sz"
proof -
  have w: "0 < w" "w dvd fsize" using sizes[OF ok] by (auto simp: w_def)
  have h: "h < w" "h \<le> addr" "w dvd addr - h" using w(1) by (auto simp: h_def part_head_def w_def[symmetric] minus_mod_eq_mult_div)
  have n: "n1 \<le> sz" "n2 \<le> sz - n1" "sz - n1 - n2 < w"
    using w(1) by (auto simp: n1_def n2_def part_first_def part_items_def w_def[symmetric] minus_div_mult_eq_mod)
  then show le: "n1 + n2 \<le> sz" by simp
  have dv: "w dvd addr + n1" if "n1 < sz"
  proof (cases "h = 0")
    case False
    then have "addr + n1 = addr - h + w" using that h by (auto simp: n1_def part_first_def h_def[symmetric] w_def[symmetric])
    then show ?thesis using h(3) by simp
  qed (use h(3) in \<open>simp add: n1_def part_first_def h_def[symmetric]\<close>)
  show "drv_ReadData drv (addr - h) 1 d = ((1, rd (img d) (addr - h) w), d)" if "h \<noteq> 0"
    using read_data[OF ok, of 1 "addr - h"] dvd_next[OF h(3) w(2)] h r that by (simp add: w_def)
  show "rd (rd (img d) (addr - h) w) h n1 = rd (img d) addr n1" if "h \<noteq> 0"
    using h that by (subst rd_rd) (auto simp: n1_def part_first_def h_def[symmetric] w_def[symmetric])
  show "drv_ReadData drv (addr + n1) (part_items addr sz) d = ((int (part_items addr sz), rd (img d) (addr + n1) n2), d)"
    if "part_items addr sz \<noteq> 0"
  proof -
    have "n1 < sz" using that by (auto simp: part_items_def n1_def[symmetric] intro: ccontr)
    then show ?thesis using read_data[OF ok, of "part_items addr sz" "addr + n1"] that dv le r by (simp add: n2_def w_def)
  qed
  show "drv_ReadData drv (addr + n1 + n2) 1 d = ((1, rd (img d) (addr + n1 + n2) w), d)" if "sz - n1 - n2 \<noteq> 0"
  proof -
    have "w dvd addr + n1 + n2" using dv that by (auto simp: n2_def)
    then show ?thesis using read_data[OF ok, of 1 "addr + n1 + n2"] dvd_next[of w "addr + n1 + n2" fsize] w that r by (simp add: w_def)
  qed
  show "take (sz - n1 - n2) (rd (img d) (addr + n1 + n2) w) = rd (img d) (addr + n1 + n2) (sz - n1 - n2)" using n by (simp add: take_rd)
  show "rd (img d) addr n1 @ rd (img d) (addr + n1) n2 @ rd (img d) (addr + n1 + n2) (sz - n1 - n2) = rd (img d) addr sz"
    using le rd_append[of "img d" addr n1 "n2 + (sz - n1 - n2)"] rd_append[of "img d" "addr + n1" n2 "sz - n1 - n2"] by simp
  show "length (rd (img d) addr n1) = n1" "length (rd (img d) (addr + n1) n2) = n2" using le r by (simp_all add: img_length[OF ok])
qed

end

end
