(* ===== verification/IFX_Flash.thy ===== *)
theory IFX_Flash
  imports CMSIS_Flash
begin

text \<open>
  The flash drivers of the Infineon platform (platform/ext/target/infineon/common/drivers/flash): the
  checks shared by all drivers (ifx_driver_private.c), the driver for flash with rows
  (flash/ifx_driver_flash.c) and the driver for RRAM (rram/ifx_driver_rram.c, without the read-back of
  the fault injection profile). The memory is a function from addresses to bytes; the functions of the
  peripheral driver library that change it are parameters, with their documented behaviour as the
  predicates \<open>cy_flash_ok\<close> and \<open>cy_rram_ok\<close>.
\<close>

type_synonym flash_mem = "nat \<Rightarrow> byte"

definition mem_get :: "flash_mem \<Rightarrow> nat \<Rightarrow> nat \<Rightarrow> byte list" where
  "mem_get m a n = map (\<lambda>i. m (a + i)) [0..<n]"

definition mem_set :: "flash_mem \<Rightarrow> nat \<Rightarrow> byte list \<Rightarrow> flash_mem" where
  "mem_set m a bs = (\<lambda>x. if a \<le> x \<and> x < a + length bs then bs ! (x - a) else m x)"

lemma mem_get_length [simp]: "length (mem_get m a n) = n"
  by (simp add: mem_get_def)

lemma mem_get_set [simp]: "n = length x \<Longrightarrow> mem_get (mem_set m a x) a n = x"
  by (rule nth_equalityI) (simp_all add: mem_get_def mem_set_def)

lemma mem_set_Nil [simp]: "mem_set m a [] = m"
  by (auto simp: mem_set_def fun_eq_iff)

lemma mem_set_get [simp]: "mem_set m a (mem_get m a n) = m"
  by (auto simp: mem_get_def mem_set_def fun_eq_iff)

lemma mem_set_set: "length y = length x \<Longrightarrow> mem_set (mem_set m a x) a y = mem_set m a y"
  by (auto simp: mem_set_def fun_eq_iff)

lemma rd_mem_get: "off + k \<le> n \<Longrightarrow> rd (mem_get m a n) off k = mem_get m (a + off) k"
  by (rule nth_equalityI) (simp_all add: nth_rd, simp add: mem_get_def add.assoc)

lemma mem_set_wr: "off + length x \<le> n \<Longrightarrow> mem_set m a (wr (mem_get m a n) off x) = mem_set m (a + off) x"
proof (rule ext)
  fix y assume "off + length x \<le> n"
  then show "mem_set m a (wr (mem_get m a n) off x) y = mem_set m (a + off) x y"
    by (cases "a \<le> y \<and> y < a + n") (auto simp: mem_set_def nth_wr, auto simp: mem_get_def add.commute)
qed

section \<open>Shared checks\<close>

record ifx_driver_obj_t =
  start_address :: nat
  flash_info :: ARM_FLASH_INFO

definition ifx_flash_driver_validate_region :: "ARM_FLASH_INFO \<Rightarrow> nat \<Rightarrow> nat \<Rightarrow> int" where
  "ifx_flash_driver_validate_region fi address sz =
     (let region_size = mul32 (fi_sector_size fi) (fi_sector_count fi)
      in if sz > region_size \<or> sz = 0 then ARM_DRIVER_ERROR_PARAMETER
         else if address \<ge> region_size then ARM_DRIVER_ERROR_PARAMETER
         else if address > region_size - sz then ARM_DRIVER_ERROR_PARAMETER
         else ARM_DRIVER_OK)"

definition ifx_flash_driver_initialize :: "ARM_FLASH_INFO \<Rightarrow> nat \<Rightarrow> nat \<Rightarrow> int" where
  "ifx_flash_driver_initialize fi start mem_block_size =
     (if start mod mem_block_size \<noteq> 0 then ARM_DRIVER_ERROR_PARAMETER
      else if fi_sector_info fi \<noteq> None then ARM_DRIVER_ERROR_PARAMETER
      else if fi_sector_count fi = 0 then ARM_DRIVER_ERROR_PARAMETER
      else if fi_sector_size fi = 0 \<or> fi_sector_size fi mod mem_block_size \<noteq> 0 then ARM_DRIVER_ERROR_PARAMETER
      else if fi_page_size fi = 0 \<or> fi_page_size fi mod mem_block_size \<noteq> 0 then ARM_DRIVER_ERROR_PARAMETER
      else if fi_program_unit fi = 0 then ARM_DRIVER_ERROR_PARAMETER
      else ARM_DRIVER_OK)"

section \<open>Flash with rows\<close>

datatype cy_en_flashdrv_status_t = CY_FLASH_DRV_SUCCESS | CY_FLASH_DRV_IPC_BUSY | CY_FLASH_DRV_INVALID_INPUT_PARAMETERS
  | CY_FLASH_DRV_ERR_UNC | CY_FLASH_DRV_OTHER

definition ifx_flashdrv_to_regular_status :: "cy_en_flashdrv_status_t \<Rightarrow> int" where
  "ifx_flashdrv_to_regular_status st =
     (case st of CY_FLASH_DRV_SUCCESS \<Rightarrow> ARM_DRIVER_OK | CY_FLASH_DRV_IPC_BUSY \<Rightarrow> ARM_DRIVER_ERROR_BUSY
      | CY_FLASH_DRV_INVALID_INPUT_PARAMETERS \<Rightarrow> ARM_DRIVER_ERROR_PARAMETER | _ \<Rightarrow> ARM_DRIVER_ERROR)"

text \<open>The peripheral driver library.\<close>

record cy_flash =
  CY_FLASH_SIZEOF_ROW :: nat
  Cy_Flash_ProgramRow :: "nat \<Rightarrow> byte list \<Rightarrow> flash_mem \<Rightarrow> cy_en_flashdrv_status_t \<times> flash_mem"
  Cy_Flash_EraseRow :: "nat \<Rightarrow> flash_mem \<Rightarrow> cy_en_flashdrv_status_t \<times> flash_mem"

definition IFX_DRIVER_FLASH_PROGRAM_UNIT :: nat where "IFX_DRIVER_FLASH_PROGRAM_UNIT = 1"
definition IFX_DRIVER_FLASH_ERASE_VALUE :: byte where "IFX_DRIVER_FLASH_ERASE_VALUE = 0xFF"

definition ifx_driver_flash_initialize :: "ifx_driver_obj_t \<Rightarrow> cy_flash \<Rightarrow> flash_mem \<Rightarrow> int \<times> flash_mem" where
  "ifx_driver_flash_initialize obj cy m = (ifx_flash_driver_initialize (flash_info obj) (start_address obj) (CY_FLASH_SIZEOF_ROW cy), m)"

definition ifx_driver_flash_read_data :: "ifx_driver_obj_t \<Rightarrow> nat \<Rightarrow> nat \<Rightarrow> flash_mem \<Rightarrow> (int \<times> byte list) \<times> flash_mem" where
  "ifx_driver_flash_read_data obj addr cnt m =
     (let sz = mul32 cnt IFX_DRIVER_FLASH_PROGRAM_UNIT; result = ifx_flash_driver_validate_region (flash_info obj) addr sz
      in if result \<noteq> ARM_DRIVER_OK then ((result, []), m)
         else ((int32 cnt, mem_get m (add32 (start_address obj) addr) sz), m))"

text \<open>
  The loop of \<open>ifx_driver_flash_program_data\<close>: one row at a time, the bytes of the row that are not
  programmed keep their values. \<open>fuel\<close> bounds the iterations: each one programs at least a byte.
\<close>

fun ifx_flash_program_rows :: "nat \<Rightarrow> cy_flash \<Rightarrow> nat \<Rightarrow> byte list \<Rightarrow> nat \<Rightarrow> flash_mem \<Rightarrow> cy_en_flashdrv_status_t \<Rightarrow> (cy_en_flashdrv_status_t \<times> flash_mem) option" where
  "ifx_flash_program_rows 0 cy address data sz m st = (if sz = 0 then Some (st, m) else None)"
| "ifx_flash_program_rows (Suc fuel) cy address data sz m st =
     (if sz = 0 then Some (st, m)
      else
        let offset = address mod CY_FLASH_SIZEOF_ROW cy;
            chunk_size = (if add32 offset sz > CY_FLASH_SIZEOF_ROW cy then CY_FLASH_SIZEOF_ROW cy - offset else sz);
            row_address = address div CY_FLASH_SIZEOF_ROW cy * CY_FLASH_SIZEOF_ROW cy;
            prog_buf = wr (mem_get m row_address (CY_FLASH_SIZEOF_ROW cy)) offset (take chunk_size data)
        in case Cy_Flash_ProgramRow cy row_address prog_buf m of
             (st, m) \<Rightarrow> if st \<noteq> CY_FLASH_DRV_SUCCESS then Some (st, m)
                        else ifx_flash_program_rows fuel cy (add32 address chunk_size) (drop chunk_size data) (sz - chunk_size) m st)"

definition ifx_driver_flash_program_data :: "ifx_driver_obj_t \<Rightarrow> cy_flash \<Rightarrow> nat \<Rightarrow> byte list \<Rightarrow> nat \<Rightarrow> flash_mem \<Rightarrow> int \<times> flash_mem" where
  "ifx_driver_flash_program_data obj cy addr data cnt m =
     (let sz = mul32 cnt IFX_DRIVER_FLASH_PROGRAM_UNIT; result = ifx_flash_driver_validate_region (flash_info obj) addr sz
      in if result \<noteq> ARM_DRIVER_OK then (result, m)
         else if sz mod fi_program_unit (flash_info obj) \<noteq> 0 then (ARM_DRIVER_ERROR_PARAMETER, m)
         else case ifx_flash_program_rows sz cy (add32 (start_address obj) addr) data sz m CY_FLASH_DRV_ERR_UNC of
           None \<Rightarrow> (ARM_DRIVER_ERROR, m)
         | Some (st, m) \<Rightarrow> (if st = CY_FLASH_DRV_SUCCESS then int32 cnt else ifx_flashdrv_to_regular_status st, m))"

definition ifx_driver_flash_erase_sector :: "ifx_driver_obj_t \<Rightarrow> cy_flash \<Rightarrow> nat \<Rightarrow> flash_mem \<Rightarrow> int \<times> flash_mem" where
  "ifx_driver_flash_erase_sector obj cy addr m =
     (let result = ifx_flash_driver_validate_region (flash_info obj) addr (fi_sector_size (flash_info obj))
      in if result \<noteq> ARM_DRIVER_OK then (result, m)
         else if addr mod fi_sector_size (flash_info obj) \<noteq> 0 then (ARM_DRIVER_ERROR_PARAMETER, m)
         else case Cy_Flash_EraseRow cy (add32 (start_address obj) addr) m of
           (st, m) \<Rightarrow> (ifx_flashdrv_to_regular_status st, m))"

fun ifx_flash_erase_rows :: "ifx_driver_obj_t \<Rightarrow> cy_flash \<Rightarrow> nat \<Rightarrow> nat \<Rightarrow> flash_mem \<Rightarrow> cy_en_flashdrv_status_t \<Rightarrow> cy_en_flashdrv_status_t \<times> flash_mem" where
  "ifx_flash_erase_rows obj cy 0 address m st = (st, m)"
| "ifx_flash_erase_rows obj cy (Suc i) address m st =
     (case Cy_Flash_EraseRow cy address m of
        (st, m) \<Rightarrow> if st \<noteq> CY_FLASH_DRV_SUCCESS then (st, m)
                   else ifx_flash_erase_rows obj cy i (add32 address (fi_sector_size (flash_info obj))) m st)"

definition ifx_driver_flash_erase_chip :: "ifx_driver_obj_t \<Rightarrow> cy_flash \<Rightarrow> flash_mem \<Rightarrow> int \<times> flash_mem" where
  "ifx_driver_flash_erase_chip obj cy m =
     (case ifx_flash_erase_rows obj cy (fi_sector_count (flash_info obj)) (start_address obj) m CY_FLASH_DRV_ERR_UNC of
        (st, m) \<Rightarrow> (ifx_flashdrv_to_regular_status st, m))"

definition ifx_cmsis_driver_flash :: "ifx_driver_obj_t \<Rightarrow> cy_flash \<Rightarrow> flash_mem ARM_DRIVER_FLASH" where
  "ifx_cmsis_driver_flash obj cy =
     \<lparr>drv_Initialize = ifx_driver_flash_initialize obj cy, drv_data_width = 0, drv_ReadData = ifx_driver_flash_read_data obj,
      drv_ProgramData = ifx_driver_flash_program_data obj cy, drv_EraseSector = ifx_driver_flash_erase_sector obj cy,
      drv_EraseChip = ifx_driver_flash_erase_chip obj cy, drv_GetInfo = Some (flash_info obj)\<rparr>"

text \<open>
  The documented behaviour of the library: programming a row (which erases it first) replaces its
  contents, erasing a row fills it with the erase value.
\<close>

definition cy_flash_ok :: "cy_flash \<Rightarrow> bool" where
  "cy_flash_ok cy \<longleftrightarrow> 0 < CY_FLASH_SIZEOF_ROW cy
     \<and> (\<forall>a bs m. CY_FLASH_SIZEOF_ROW cy dvd a \<longrightarrow> length bs = CY_FLASH_SIZEOF_ROW cy \<longrightarrow>
          Cy_Flash_ProgramRow cy a bs m = (CY_FLASH_DRV_SUCCESS, mem_set m a bs))
     \<and> (\<forall>a m. CY_FLASH_SIZEOF_ROW cy dvd a \<longrightarrow>
          Cy_Flash_EraseRow cy a m = (CY_FLASH_DRV_SUCCESS, mem_set m a (replicate (CY_FLASH_SIZEOF_ROW cy) IFX_DRIVER_FLASH_ERASE_VALUE)))"

lemma program_rows_ok:
  assumes cy: "cy_flash_ok cy" and "sz \<le> length data" "sz \<le> fuel" "address + sz \<le> SIZE_MAX_P1 - CY_FLASH_SIZEOF_ROW cy"
    and "sz = 0 \<longrightarrow> st = CY_FLASH_DRV_SUCCESS"
  shows "ifx_flash_program_rows fuel cy address data sz m st = Some (CY_FLASH_DRV_SUCCESS, mem_set m address (take sz data))"
  using assms(2-)
proof (induction fuel arbitrary: address data sz m st)
  case 0
  then show ?case by simp
next
  case (Suc fuel)
  let ?R = "CY_FLASH_SIZEOF_ROW cy"
  have R: "0 < ?R" using cy by (simp add: cy_flash_ok_def)
  show ?case
  proof (cases "sz = 0")
    case True
    then show ?thesis using Suc.prems by simp
  next
    case False
    define off where "off = address mod ?R"
    define k where "k = (if add32 off sz > ?R then ?R - off else sz)"
    define row where "row = address div ?R * ?R"
    have off: "off < ?R" "row + off = address" using R by (simp_all add: off_def row_def)
    have a32: "add32 off sz = off + sz" using Suc.prems(3) off by (intro add32_id) linarith
    have k: "0 < k" "k \<le> sz" "off + k \<le> ?R" using False off by (auto simp: k_def a32)
    define buf where "buf = wr (mem_get m row ?R) off (take k data)"
    have lt: "length (take k data) = k" using k Suc.prems(1) by simp
    have buf: "length buf = ?R" using lt k by (simp add: buf_def)
    have "mem_set m row buf = mem_set m address (take k data)" using mem_set_wr[of off "take k data" ?R m row] lt k off by (simp add: buf_def)
    then have pr: "Cy_Flash_ProgramRow cy row buf m = (CY_FLASH_DRV_SUCCESS, mem_set m address (take k data))"
      using cy buf by (simp add: cy_flash_ok_def row_def)
    have ad: "add32 address k = address + k" using Suc.prems(3) k R by (intro add32_id) linarith
    have ih: "ifx_flash_program_rows fuel cy (address + k) (drop k data) (sz - k) (mem_set m address (take k data)) CY_FLASH_DRV_SUCCESS
        = Some (CY_FLASH_DRV_SUCCESS, mem_set (mem_set m address (take k data)) (address + k) (take (sz - k) (drop k data)))"
      using Suc.prems k by (intro Suc.IH) auto
    have tk: "take sz data = take k data @ take (sz - k) (drop k data)" using k by (metis le_add_diff_inverse take_add)
    have "mem_set (mem_set m address (take k data)) (address + k) (take (sz - k) (drop k data)) = mem_set m address (take sz data)"
      using Suc.prems(1) k lt unfolding tk by (auto simp: mem_set_def fun_eq_iff nth_append)
    then show ?thesis using False ih pr ad by (simp add: Let_def off_def[symmetric] k_def[symmetric] row_def[symmetric] buf_def[symmetric])
  qed
qed

text \<open>What an instance of the driver needs: a region of sectors that are rows, below \<open>2 ^ 31\<close>.\<close>

definition ifx_size :: "ifx_driver_obj_t \<Rightarrow> nat" where
  "ifx_size obj = fi_sector_size (flash_info obj) * fi_sector_count (flash_info obj)"

definition ifx_flash_ok :: "ifx_driver_obj_t \<Rightarrow> cy_flash \<Rightarrow> flash_mem \<Rightarrow> bool" where
  "ifx_flash_ok obj cy m \<longleftrightarrow> cy_flash_ok cy \<and> fi_sector_size (flash_info obj) = CY_FLASH_SIZEOF_ROW cy
     \<and> CY_FLASH_SIZEOF_ROW cy dvd start_address obj \<and> fi_program_unit (flash_info obj) = IFX_DRIVER_FLASH_PROGRAM_UNIT
     \<and> fi_erased_value (flash_info obj) = IFX_DRIVER_FLASH_ERASE_VALUE
     \<and> ifx_size obj < 2 ^ 31 \<and> start_address obj + ifx_size obj \<le> SIZE_MAX_P1 - CY_FLASH_SIZEOF_ROW cy"

definition ifx_img :: "ifx_driver_obj_t \<Rightarrow> flash_mem \<Rightarrow> byte list" where
  "ifx_img obj m = mem_get m (start_address obj) (ifx_size obj)"

definition ifx_put :: "ifx_driver_obj_t \<Rightarrow> flash_mem \<Rightarrow> byte list \<Rightarrow> flash_mem" where
  "ifx_put obj m x = mem_set m (start_address obj) x"

lemma validate_ok:
  assumes "ifx_size obj < SIZE_MAX_P1" "addr + n \<le> ifx_size obj" "0 < n"
  shows "ifx_flash_driver_validate_region (flash_info obj) addr n = ARM_DRIVER_OK"
  using assms by (auto simp: ifx_flash_driver_validate_region_def ifx_size_def wrap_simps Let_def)

interpretation iff: cmsis_flash "ifx_cmsis_driver_flash obj cy" "flash_info obj" "ifx_size obj" "ifx_img obj" "ifx_put obj" "ifx_flash_ok obj cy" for obj cy
proof unfold_locales
  let ?D = "ifx_cmsis_driver_flash obj cy"
  show "drv_data_width ?D < 3" "drv_GetInfo ?D = Some (flash_info obj)" by (simp_all add: ifx_cmsis_driver_flash_def)
  have item: "drv_item ?D = 1" by (simp add: drv_item_def data_width_byte_def ifx_cmsis_driver_flash_def)
  fix m x y assume ok: "ifx_flash_ok obj cy m"
  show "ifx_size obj < 2 ^ 31 \<and> drv_item ?D dvd ifx_size obj" using ok by (simp add: item ifx_flash_ok_def)
  show "length (ifx_img obj m) = ifx_size obj" "ifx_put obj m (ifx_img obj m) = m" by (simp_all add: ifx_img_def ifx_put_def)
  show "ifx_flash_ok obj cy (ifx_put obj m x)" using ok by (simp add: ifx_flash_ok_def)
  show "length x = ifx_size obj \<Longrightarrow> ifx_img obj (ifx_put obj m x) = x" by (simp add: ifx_img_def ifx_put_def)
  show "length x = ifx_size obj \<Longrightarrow> length y = ifx_size obj \<Longrightarrow> ifx_put obj (ifx_put obj m x) y = ifx_put obj m y"
    by (simp add: ifx_put_def mem_set_set)
next
  let ?D = "ifx_cmsis_driver_flash obj cy"
  have item: "drv_item ?D = 1" by (simp add: drv_item_def data_width_byte_def ifx_cmsis_driver_flash_def)
  fix m cnt addr assume ok: "ifx_flash_ok obj cy m" and r: "0 < cnt" "addr + cnt * drv_item ?D \<le> ifx_size obj"
  then have b: "cnt < 2 ^ 31" "addr + cnt \<le> ifx_size obj" "add32 (start_address obj) addr = start_address obj + addr"
    "mul32 cnt IFX_DRIVER_FLASH_PROGRAM_UNIT = cnt" "ifx_flash_driver_validate_region (flash_info obj) addr cnt = ARM_DRIVER_OK"
    by (auto simp: ifx_flash_ok_def item IFX_DRIVER_FLASH_PROGRAM_UNIT_def wrap_simps intro!: validate_ok)
  show "drv_ReadData ?D addr cnt m = ((int cnt, rd (ifx_img obj m) addr (cnt * drv_item ?D)), m)"
    using b by (simp add: ifx_cmsis_driver_flash_def ifx_driver_flash_read_data_def Let_def int32_def item[unfolded ifx_cmsis_driver_flash_def] ifx_img_def rd_mem_get)
  fix data :: "byte list" assume l: "cnt * drv_item ?D \<le> length data"
  have "ifx_flash_program_rows cnt cy (start_address obj + addr) data cnt m CY_FLASH_DRV_ERR_UNC
      = Some (CY_FLASH_DRV_SUCCESS, mem_set m (start_address obj + addr) (take cnt data))"
    using ok b r l by (intro program_rows_ok) (auto simp: ifx_flash_ok_def item)
  moreover have "ifx_put obj m (wr (ifx_img obj m) addr (take cnt data)) = mem_set m (start_address obj + addr) (take cnt data)"
    using b by (simp add: ifx_put_def ifx_img_def mem_set_wr)
  ultimately show "drv_ProgramData ?D addr data cnt m = (int cnt, ifx_put obj m (wr (ifx_img obj m) addr (take (cnt * drv_item ?D) data)))"
    using b ok by (simp add: ifx_cmsis_driver_flash_def ifx_driver_flash_program_data_def Let_def int32_def item[unfolded ifx_cmsis_driver_flash_def]
        ifx_flash_ok_def IFX_DRIVER_FLASH_PROGRAM_UNIT_def)
next
  let ?D = "ifx_cmsis_driver_flash obj cy" and ?Z = "fi_sector_size (flash_info obj)" and ?E = "fi_erased_value (flash_info obj)"
  fix m addr assume ok: "ifx_flash_ok obj cy m" and a: "?Z dvd addr" "addr + ?Z \<le> ifx_size obj"
  have z: "0 < ?Z" using ok by (simp add: ifx_flash_ok_def cy_flash_ok_def)
  have v: "ifx_flash_driver_validate_region (flash_info obj) addr ?Z = ARM_DRIVER_OK"
    using ok a z by (intro validate_ok) (simp_all add: ifx_flash_ok_def)
  have ad: "add32 (start_address obj) addr = start_address obj + addr" using ok a z by (intro add32_id) (auto simp: ifx_flash_ok_def)
  have "Cy_Flash_EraseRow cy (start_address obj + addr) m = (CY_FLASH_DRV_SUCCESS, mem_set m (start_address obj + addr) (replicate ?Z ?E))"
    using ok a by (simp add: ifx_flash_ok_def cy_flash_ok_def)
  moreover have "ifx_put obj m (wr (ifx_img obj m) addr (replicate ?Z ?E)) = mem_set m (start_address obj + addr) (replicate ?Z ?E)"
    using a by (simp add: ifx_put_def ifx_img_def mem_set_wr)
  ultimately show "drv_EraseSector ?D addr m = (ARM_DRIVER_OK, ifx_put obj m (wr (ifx_img obj m) addr (replicate ?Z ?E)))"
    using v ad a by (simp add: ifx_cmsis_driver_flash_def ifx_driver_flash_erase_sector_def Let_def ifx_flashdrv_to_regular_status_def dvd_eq_mod_eq_0)
qed

end
