(* ===== verification/IFX_RRAM.thy ===== *)
theory IFX_RRAM
  imports IFX_Flash
begin

text \<open>
  The RRAM driver of the Infineon platform (drivers/flash/rram/ifx_driver_rram.c) without the read-back
  of the fault injection profile. RRAM has no erase operation: erasing writes a pattern.
\<close>

datatype cy_en_rram_status_t = CY_RRAM_SUCCESS | CY_RRAM_ACQUIRE_PC_LOCK_FAIL | CY_RRAM_OPERATION_TIME_OUT_ERROR | CY_RRAM_BAD_PARAM | CY_RRAM_OTHER

definition ifx_rramdrv_to_regular_status :: "cy_en_rram_status_t \<Rightarrow> int" where
  "ifx_rramdrv_to_regular_status st =
     (case st of CY_RRAM_SUCCESS \<Rightarrow> ARM_DRIVER_OK | CY_RRAM_ACQUIRE_PC_LOCK_FAIL \<Rightarrow> ARM_DRIVER_ERROR_BUSY
      | CY_RRAM_OPERATION_TIME_OUT_ERROR \<Rightarrow> ARM_DRIVER_ERROR_TIMEOUT | CY_RRAM_BAD_PARAM \<Rightarrow> ARM_DRIVER_ERROR_PARAMETER
      | _ \<Rightarrow> ARM_DRIVER_ERROR)"

text \<open>The peripheral driver library, on the state \<open>'h\<close> of the hardware.\<close>

record 'h cy_rram =
  CY_RRAM_BLOCK_SIZE_BYTES :: nat
  Cy_RRAM_NvmReadByteArray :: "nat \<Rightarrow> nat \<Rightarrow> 'h \<Rightarrow> (cy_en_rram_status_t \<times> byte list) \<times> 'h"
  Cy_RRAM_NvmWriteByteArray :: "nat \<Rightarrow> byte list \<Rightarrow> 'h \<Rightarrow> cy_en_rram_status_t \<times> 'h"

definition IFX_DRIVER_RRAM_ERASE_VALUE :: byte where "IFX_DRIVER_RRAM_ERASE_VALUE = 0"
definition IFX_DRIVER_RRAM_PROGRAM_UNIT :: nat where "IFX_DRIVER_RRAM_PROGRAM_UNIT = 4"
definition IFX_DRIVER_RRAM_PC_LOCK_RETRIES :: nat where "IFX_DRIVER_RRAM_PC_LOCK_RETRIES = 100"

definition ifx_driver_rram_initialize :: "ifx_driver_obj_t \<Rightarrow> 'h cy_rram \<Rightarrow> 'h \<Rightarrow> int \<times> 'h" where
  "ifx_driver_rram_initialize obj cy h =
     (ifx_flash_driver_initialize (flash_info obj) (start_address obj) (CY_RRAM_BLOCK_SIZE_BYTES cy), h)"

definition ifx_driver_rram_read_data :: "ifx_driver_obj_t \<Rightarrow> 'h cy_rram \<Rightarrow> nat \<Rightarrow> nat \<Rightarrow> 'h \<Rightarrow> (int \<times> byte list) \<times> 'h" where
  "ifx_driver_rram_read_data obj cy addr cnt h =
     (let sz = mul32 cnt IFX_DRIVER_RRAM_PROGRAM_UNIT; result = ifx_flash_driver_validate_region (flash_info obj) addr sz
      in if result \<noteq> ARM_DRIVER_OK then ((result, []), h)
         else case Cy_RRAM_NvmReadByteArray cy (add32 (start_address obj) addr) sz h of
           ((st, bs), h) \<Rightarrow> if st \<noteq> CY_RRAM_SUCCESS then ((ifx_rramdrv_to_regular_status st, bs), h) else ((int32 cnt, bs), h))"

text \<open>The attempts of \<open>ifx_driver_rram_write\<close>: \<open>retries\<close> more after this one.\<close>

fun ifx_rram_attempts :: "'h cy_rram \<Rightarrow> nat \<Rightarrow> nat \<Rightarrow> byte list \<Rightarrow> 'h \<Rightarrow> cy_en_rram_status_t \<times> 'h" where
  "ifx_rram_attempts cy retries address data h =
     (case Cy_RRAM_NvmWriteByteArray cy address data h of
        (st, h) \<Rightarrow> if st \<noteq> CY_RRAM_ACQUIRE_PC_LOCK_FAIL then (st, h)
                   else case retries of 0 \<Rightarrow> (st, h) | Suc r \<Rightarrow> ifx_rram_attempts cy r address data h)"

definition ifx_driver_rram_write :: "'h cy_rram \<Rightarrow> nat \<Rightarrow> byte list \<Rightarrow> 'h \<Rightarrow> int \<times> 'h" where
  "ifx_driver_rram_write cy address data h =
     (case ifx_rram_attempts cy (IFX_DRIVER_RRAM_PC_LOCK_RETRIES - 1) address data h of
        (st, h) \<Rightarrow> if st \<noteq> CY_RRAM_SUCCESS then (ifx_rramdrv_to_regular_status st, h) else (ARM_DRIVER_OK, h))"

definition ifx_driver_rram_program_data :: "ifx_driver_obj_t \<Rightarrow> 'h cy_rram \<Rightarrow> nat \<Rightarrow> byte list \<Rightarrow> nat \<Rightarrow> 'h \<Rightarrow> int \<times> 'h" where
  "ifx_driver_rram_program_data obj cy addr data cnt h =
     (let sz = mul32 cnt IFX_DRIVER_RRAM_PROGRAM_UNIT; result = ifx_flash_driver_validate_region (flash_info obj) addr sz
      in if result \<noteq> ARM_DRIVER_OK then (result, h)
         else case ifx_driver_rram_write cy (add32 (start_address obj) addr) (take sz data) h of
           (result, h) \<Rightarrow> (if result = ARM_DRIVER_OK then int32 cnt else result, h))"

text \<open>
  The loop of \<open>ifx_driver_rram_erase_sector\<close> (\<open>offset\<close> from 0 in steps of a block), by its iterations:
  \<open>n\<close> is the number of blocks still to write.
\<close>

fun ifx_rram_erase_blocks :: "'h cy_rram \<Rightarrow> byte list \<Rightarrow> nat \<Rightarrow> nat \<Rightarrow> int \<Rightarrow> 'h \<Rightarrow> int \<times> 'h" where
  "ifx_rram_erase_blocks cy pat 0 address result h = (result, h)"
| "ifx_rram_erase_blocks cy pat (Suc n) address result h =
     (case ifx_driver_rram_write cy address pat h of
        (result, h) \<Rightarrow> if result \<noteq> ARM_DRIVER_OK then (result, h) else ifx_rram_erase_blocks cy pat n (add32 address (length pat)) result h)"

definition ifx_driver_rram_erase_sector :: "ifx_driver_obj_t \<Rightarrow> 'h cy_rram \<Rightarrow> nat \<Rightarrow> 'h \<Rightarrow> int \<times> 'h" where
  "ifx_driver_rram_erase_sector obj cy addr h =
     (let z = fi_sector_size (flash_info obj); result = ifx_flash_driver_validate_region (flash_info obj) addr z;
          erase_pattern = replicate (CY_RRAM_BLOCK_SIZE_BYTES cy) (fi_erased_value (flash_info obj))
      in if result \<noteq> ARM_DRIVER_OK then (result, h)
         else if z = 0 \<or> addr mod z \<noteq> 0 then (ARM_DRIVER_ERROR_PARAMETER, h)
         else ifx_rram_erase_blocks cy erase_pattern ((z + length erase_pattern - 1) div length erase_pattern)
                (add32 (start_address obj) addr) result h)"

fun ifx_rram_erase_sectors :: "ifx_driver_obj_t \<Rightarrow> 'h cy_rram \<Rightarrow> nat \<Rightarrow> nat \<Rightarrow> 'h \<Rightarrow> int \<times> 'h" where
  "ifx_rram_erase_sectors obj cy 0 address h = (ARM_DRIVER_OK, h)"
| "ifx_rram_erase_sectors obj cy (Suc n) address h =
     (case ifx_driver_rram_erase_sector obj cy address h of
        (result, h) \<Rightarrow> if result \<noteq> ARM_DRIVER_OK then (result, h)
                       else ifx_rram_erase_sectors obj cy n (add32 address (fi_sector_size (flash_info obj))) h)"

definition ifx_driver_rram_erase_chip :: "ifx_driver_obj_t \<Rightarrow> 'h cy_rram \<Rightarrow> 'h \<Rightarrow> int \<times> 'h" where
  "ifx_driver_rram_erase_chip obj cy h = ifx_rram_erase_sectors obj cy (fi_sector_count (flash_info obj)) 0 h"

definition ifx_driver_rram :: "ifx_driver_obj_t \<Rightarrow> 'h cy_rram \<Rightarrow> 'h ARM_DRIVER_FLASH" where
  "ifx_driver_rram obj cy =
     \<lparr>drv_Initialize = ifx_driver_rram_initialize obj cy, drv_data_width = 2, drv_ReadData = ifx_driver_rram_read_data obj cy,
      drv_ProgramData = ifx_driver_rram_program_data obj cy, drv_EraseSector = ifx_driver_rram_erase_sector obj cy,
      drv_EraseChip = ifx_driver_rram_erase_chip obj cy, drv_GetInfo = Some (flash_info obj)\<rparr>"

section \<open>Retries\<close>

text \<open>
  A write succeeds when the lock is free for one of the hundred attempts: \<open>n\<close> failed attempts take the
  hardware from \<open>h\<close> to a state in which the write succeeds.
\<close>

inductive lock_failures :: "'h cy_rram \<Rightarrow> nat \<Rightarrow> byte list \<Rightarrow> nat \<Rightarrow> 'h \<Rightarrow> 'h \<Rightarrow> bool" for cy a bs where
  lock_none: "lock_failures cy a bs 0 h h"
| lock_fail: "Cy_RRAM_NvmWriteByteArray cy a bs h = (CY_RRAM_ACQUIRE_PC_LOCK_FAIL, h1) \<Longrightarrow> lock_failures cy a bs n h1 h2 \<Longrightarrow> lock_failures cy a bs (Suc n) h h2"

declare ifx_rram_attempts.simps [simp del]

lemma attempts_ok:
  assumes "lock_failures cy a bs n h h1" "n \<le> r" "Cy_RRAM_NvmWriteByteArray cy a bs h1 = (st, h2)" "st \<noteq> CY_RRAM_ACQUIRE_PC_LOCK_FAIL"
  shows "ifx_rram_attempts cy r a bs h = (st, h2)"
  using assms
proof (induction arbitrary: r rule: lock_failures.induct)
  case (lock_none h)
  then show ?case by (simp add: ifx_rram_attempts.simps[of cy r])
next
  case (lock_fail h h1' n h2')
  then obtain r' where r: "r = Suc r'" "n \<le> r'" by (cases r) auto
  have "ifx_rram_attempts cy (Suc r') a bs h = ifx_rram_attempts cy r' a bs h1'"
    using lock_fail(1) by (simp add: ifx_rram_attempts.simps[of cy "Suc r'"])
  then show ?case using lock_fail r by simp
qed

lemma rram_write_retries:
  assumes "lock_failures cy a bs n h h1" "n < IFX_DRIVER_RRAM_PC_LOCK_RETRIES" "Cy_RRAM_NvmWriteByteArray cy a bs h1 = (CY_RRAM_SUCCESS, h2)"
  shows "ifx_driver_rram_write cy a bs h = (ARM_DRIVER_OK, h2)"
  using attempts_ok[OF assms(1) _ assms(3), of "IFX_DRIVER_RRAM_PC_LOCK_RETRIES - 1"] assms(2) by (simp add: ifx_driver_rram_write_def)

lemma rram_write_status:
  assumes "ifx_driver_rram_write cy a bs h = (r, h1)"
  shows "r = ARM_DRIVER_OK \<or> r < 0"
  using assms by (auto simp: ifx_driver_rram_write_def ifx_rramdrv_to_regular_status_def arm_status split: prod.splits if_splits cy_en_rram_status_t.splits)

section \<open>The contract\<close>

definition cy_rram_ok :: "flash_mem cy_rram \<Rightarrow> bool" where
  "cy_rram_ok cy \<longleftrightarrow> 0 < CY_RRAM_BLOCK_SIZE_BYTES cy
     \<and> (\<forall>a n m. Cy_RRAM_NvmReadByteArray cy a n m = ((CY_RRAM_SUCCESS, mem_get m a n), m))
     \<and> (\<forall>a bs m. Cy_RRAM_NvmWriteByteArray cy a bs m = (CY_RRAM_SUCCESS, mem_set m a bs))"

lemma rram_write_ok: "cy_rram_ok cy \<Longrightarrow> ifx_driver_rram_write cy a bs m = (ARM_DRIVER_OK, mem_set m a bs)"
  by (intro rram_write_retries[OF lock_none]) (simp_all add: cy_rram_ok_def IFX_DRIVER_RRAM_PC_LOCK_RETRIES_def)

lemma mem_set_append: "mem_set (mem_set m a x) (a + length x) y = mem_set m a (x @ y)"
  by (auto simp: mem_set_def fun_eq_iff nth_append)

lemma erase_blocks_ok:
  assumes "cy_rram_ok cy" "a + n * length pat < SIZE_MAX_P1"
  shows "ifx_rram_erase_blocks cy pat n a ARM_DRIVER_OK m = (ARM_DRIVER_OK, mem_set m a (concat (replicate n pat)))"
  using assms(2)
proof (induction n arbitrary: a m)
  case (Suc n)
  have "add32 a (length pat) = a + length pat" using Suc.prems by (intro add32_id) simp
  then show ?case using Suc.prems Suc.IH[of "a + length pat" "mem_set m a pat"] by (simp add: rram_write_ok[OF assms(1)] mem_set_append)
qed simp

lemma concat_replicate: "concat (replicate n (replicate k x)) = replicate (n * k) x"
  by (induction n) (simp_all add: replicate_add)

definition ifx_rram_ok :: "ifx_driver_obj_t \<Rightarrow> flash_mem cy_rram \<Rightarrow> flash_mem \<Rightarrow> bool" where
  "ifx_rram_ok obj cy m \<longleftrightarrow> cy_rram_ok cy \<and> CY_RRAM_BLOCK_SIZE_BYTES cy dvd fi_sector_size (flash_info obj)
     \<and> IFX_DRIVER_RRAM_PROGRAM_UNIT dvd fi_sector_size (flash_info obj) \<and> 0 < fi_sector_size (flash_info obj)
     \<and> ifx_size obj < 2 ^ 31 \<and> start_address obj + ifx_size obj < SIZE_MAX_P1"

interpretation ifr: cmsis_flash "ifx_driver_rram obj cy" "flash_info obj" "ifx_size obj" "ifx_img obj" "ifx_put obj" "ifx_rram_ok obj cy" for obj cy
proof unfold_locales
  let ?D = "ifx_driver_rram obj cy"
  show "drv_data_width ?D < 3" "drv_GetInfo ?D = Some (flash_info obj)" by (simp_all add: ifx_driver_rram_def)
  have item: "drv_item ?D = 4" by (simp add: drv_item_def data_width_byte_def ifx_driver_rram_def)
  fix m x y assume ok: "ifx_rram_ok obj cy m"
  show "ifx_size obj < 2 ^ 31 \<and> drv_item ?D dvd ifx_size obj"
    using ok by (auto simp: item ifx_rram_ok_def IFX_DRIVER_RRAM_PROGRAM_UNIT_def ifx_size_def)
  show "length (ifx_img obj m) = ifx_size obj" "ifx_put obj m (ifx_img obj m) = m" by (simp_all add: ifx_img_def ifx_put_def)
  show "ifx_rram_ok obj cy (ifx_put obj m x)" using ok by (simp add: ifx_rram_ok_def)
  show "length x = ifx_size obj \<Longrightarrow> ifx_img obj (ifx_put obj m x) = x" by (simp add: ifx_img_def ifx_put_def)
  show "length x = ifx_size obj \<Longrightarrow> length y = ifx_size obj \<Longrightarrow> ifx_put obj (ifx_put obj m x) y = ifx_put obj m y"
    by (simp add: ifx_put_def mem_set_set)
next
  let ?D = "ifx_driver_rram obj cy"
  have item: "drv_item ?D = 4" by (simp add: drv_item_def data_width_byte_def ifx_driver_rram_def)
  fix m cnt addr assume ok: "ifx_rram_ok obj cy m" and r: "0 < cnt" "addr + cnt * drv_item ?D \<le> ifx_size obj"
  then have b: "cnt < 2 ^ 31" "addr + cnt * 4 \<le> ifx_size obj" "add32 (start_address obj) addr = start_address obj + addr"
    "mul32 cnt IFX_DRIVER_RRAM_PROGRAM_UNIT = cnt * 4" "ifx_flash_driver_validate_region (flash_info obj) addr (cnt * 4) = ARM_DRIVER_OK"
    by (auto simp: ifx_rram_ok_def item IFX_DRIVER_RRAM_PROGRAM_UNIT_def wrap_simps intro!: validate_ok)
  show "drv_ReadData ?D addr cnt m = ((int cnt, rd (ifx_img obj m) addr (cnt * drv_item ?D)), m)"
    using b ok by (simp add: ifx_driver_rram_def ifx_driver_rram_read_data_def Let_def int32_def item[unfolded ifx_driver_rram_def] ifx_img_def rd_mem_get
        ifx_rram_ok_def cy_rram_ok_def)
  fix data :: "byte list" assume l: "cnt * drv_item ?D \<le> length data"
  have "ifx_put obj m (wr (ifx_img obj m) addr (take (cnt * 4) data)) = mem_set m (start_address obj + addr) (take (cnt * 4) data)"
    using b by (simp add: ifx_put_def ifx_img_def mem_set_wr)
  then show "drv_ProgramData ?D addr data cnt m = (int cnt, ifx_put obj m (wr (ifx_img obj m) addr (take (cnt * drv_item ?D) data)))"
    using b ok rram_write_ok[of cy] by (simp add: ifx_driver_rram_def ifx_driver_rram_program_data_def Let_def int32_def item[unfolded ifx_driver_rram_def] ifx_rram_ok_def)
next
  let ?D = "ifx_driver_rram obj cy" and ?Z = "fi_sector_size (flash_info obj)" and ?E = "fi_erased_value (flash_info obj)"
  let ?B = "CY_RRAM_BLOCK_SIZE_BYTES cy"
  fix m addr assume ok: "ifx_rram_ok obj cy m" and a: "?Z dvd addr" "addr + ?Z \<le> ifx_size obj"
  have z: "0 < ?Z" "0 < ?B" "?B dvd ?Z" using ok by (simp_all add: ifx_rram_ok_def cy_rram_ok_def)
  then obtain n where n: "?Z = n * ?B" by (metis dvdE mult.commute)
  have nd: "(?Z + ?B - 1) div ?B = n" using steps_multiple[OF z(2), of n] by (simp add: n)
  have v: "ifx_flash_driver_validate_region (flash_info obj) addr ?Z = ARM_DRIVER_OK"
    using ok a z by (intro validate_ok) (simp_all add: ifx_rram_ok_def)
  have ad: "add32 (start_address obj) addr = start_address obj + addr" using ok a z by (intro add32_id) (auto simp: ifx_rram_ok_def)
  have "ifx_rram_erase_blocks cy (replicate ?B ?E) n (start_address obj + addr) ARM_DRIVER_OK m
      = (ARM_DRIVER_OK, mem_set m (start_address obj + addr) (replicate ?Z ?E))"
    using erase_blocks_ok[of cy "start_address obj + addr" n "replicate ?B ?E" m] ok a by (simp add: concat_replicate n[symmetric] ifx_rram_ok_def)
  moreover have "ifx_put obj m (wr (ifx_img obj m) addr (replicate ?Z ?E)) = mem_set m (start_address obj + addr) (replicate ?Z ?E)"
    using a by (simp add: ifx_put_def ifx_img_def mem_set_wr)
  ultimately show "drv_EraseSector ?D addr m = (ARM_DRIVER_OK, ifx_put obj m (wr (ifx_img obj m) addr (replicate ?Z ?E)))"
    using v ad a z nd by (simp add: ifx_driver_rram_def ifx_driver_rram_erase_sector_def Let_def dvd_eq_mod_eq_0)
qed

end
