(* ===== verification/ITS_Flash_Nor.thy ===== *)
theory ITS_Flash_Nor
  imports ITS_Flash IFX_RRAM
begin

text \<open>
  The drivers of Internal Trusted Storage for real flash: its_flash_nor.c and its_flash_nand.c, on a
  CMSIS flash driver. On a driver with byte-wide items whose programming replaces what is there, as
  the one of the Infineon platform, the NOR driver satisfies the contract \<open>flash_device\<close> of the file
  system. The state is that of the CMSIS driver (for NAND with the two write buffers).
\<close>

section \<open>NOR\<close>

definition get_phys_address :: "its_flash_config_t \<Rightarrow> nat \<Rightarrow> nat \<Rightarrow> nat" where
  "get_phys_address cfg block_id offset = add32 (add32 (flash_area_addr cfg) (mul32 block_id (block_size cfg))) offset"

definition its_flash_nor_init :: "'d ARM_DRIVER_FLASH \<Rightarrow> its_flash_config_t \<Rightarrow> ('d, its_flash_config_t) io" where
  "its_flash_nor_init drv cfg = (\<lambda>d.
     case drv_Initialize drv d of
       (err, d) \<Rightarrow>
         if err \<noteq> ARM_DRIVER_OK then (Inl PSA_ERROR_STORAGE_FAILURE, d)
         else case drv_GetInfo drv of
           None \<Rightarrow> (Inl PSA_ERROR_STORAGE_FAILURE, d)
         | Some fi \<Rightarrow>
             if program_unit cfg \<noteq> fi_program_unit fi then (Inl PSA_ERROR_STORAGE_FAILURE, d)
             else if block_size cfg = 0 \<or> fi_sector_size fi = 0 \<or> block_size cfg mod fi_sector_size fi \<noteq> 0
             then (Inl PSA_ERROR_STORAGE_FAILURE, d)
             else (Inr (cfg\<lparr>erase_val := fi_erased_value fi\<rparr>), d))"

text \<open>A call of \<open>ReadData\<close>; a negative result is a storage failure.\<close>

definition cmsis_read :: "'d ARM_DRIVER_FLASH \<Rightarrow> nat \<Rightarrow> nat \<Rightarrow> ('d, byte list) io" where
  "cmsis_read drv addr cnt = (\<lambda>d.
     case drv_ReadData drv addr cnt d of ((ret, bs), d) \<Rightarrow> if ret < 0 then (Inl PSA_ERROR_STORAGE_FAILURE, d) else (Inr bs, d))"

text \<open>
  The parts of an unaligned read: what is before the first aligned item, whole items, and the rest.
  Each part returns what it copies to the buffer.
\<close>

definition flash_read_unaligned :: "'d ARM_DRIVER_FLASH \<Rightarrow> nat \<Rightarrow> nat \<Rightarrow> ('d, byte list) io" where
  "flash_read_unaligned drv addr sz =
     (let w = data_width_byte ! drv_data_width drv; aligned_addr = addr div w * w
      in bind_io (if aligned_addr \<noteq> addr
                  then bind_io (cmsis_read drv aligned_addr 1) (\<lambda>temp.
                    let read_length = (if add32 (addr - aligned_addr) sz \<ge> w then w - (addr - aligned_addr) else sz)
                    in return_io (rd temp (addr - aligned_addr) read_length))
                  else return_io []) (\<lambda>b1.
         let remaining_len = sz - length b1; item_number = remaining_len div w
         in bind_io (if item_number \<noteq> 0
                     then cmsis_read drv (add32 addr (length b1)) item_number
                     else return_io []) (\<lambda>b2.
              let read_length = length b1 + length b2; remaining_len = remaining_len - length b2
              in bind_io (if remaining_len \<noteq> 0
                          then bind_io (cmsis_read drv (add32 addr read_length) 1) (\<lambda>temp. return_io (take remaining_len temp))
                          else return_io []) (\<lambda>b3.
                   return_io (b1 @ b2 @ b3)))))"

definition its_flash_nor_read :: "'d ARM_DRIVER_FLASH \<Rightarrow> its_flash_config_t \<Rightarrow> nat \<Rightarrow> nat \<Rightarrow> nat \<Rightarrow> ('d, byte list) io" where
  "its_flash_nor_read drv cfg block_id offset sz =
     (if sz = 0 then return_io [] else flash_read_unaligned drv (get_phys_address cfg block_id offset) sz)"

definition its_flash_nor_write :: "'d ARM_DRIVER_FLASH \<Rightarrow> its_flash_config_t \<Rightarrow> nat \<Rightarrow> byte list \<Rightarrow> nat \<Rightarrow> nat \<Rightarrow> ('d, unit) io" where
  "its_flash_nor_write drv cfg block_id buff offset sz = (\<lambda>d.
     case drv_ProgramData drv (get_phys_address cfg block_id offset) buff (sz div data_width_byte ! drv_data_width drv) d of
       (err, d) \<Rightarrow> if err < 0 then (Inl PSA_ERROR_STORAGE_FAILURE, d) else (Inr (), d))"

definition its_flash_nor_flush :: "its_flash_config_t \<Rightarrow> nat \<Rightarrow> ('d, unit) io" where
  "its_flash_nor_flush cfg block_id = return_io ()"

text \<open>The sectors of a block: \<open>offset\<close> is 0, \<open>z\<close>, 2 \<open>z\<close> and so on, below the block size.\<close>

definition sector_offsets :: "nat \<Rightarrow> nat \<Rightarrow> nat list" where
  "sector_offsets n z = map (\<lambda>i. i * z) [0..<(n + z - 1) div z]"

definition erase_one :: "'d ARM_DRIVER_FLASH \<Rightarrow> its_flash_config_t \<Rightarrow> nat \<Rightarrow> nat \<Rightarrow> ('d, unit) io" where
  "erase_one drv cfg block_id offset = (\<lambda>d.
     case drv_EraseSector drv (get_phys_address cfg block_id offset) d of
       (err, d) \<Rightarrow> if err \<noteq> ARM_DRIVER_OK then (Inl PSA_ERROR_STORAGE_FAILURE, d) else (Inr (), d))"

definition its_flash_nor_erase :: "'d ARM_DRIVER_FLASH \<Rightarrow> its_flash_config_t \<Rightarrow> nat \<Rightarrow> ('d, unit) io" where
  "its_flash_nor_erase drv cfg block_id =
     (let sector_size = (case drv_GetInfo drv of Some fi \<Rightarrow> fi_sector_size fi | None \<Rightarrow> 0)
      in if sector_size = 0 then raise_io PSA_ERROR_STORAGE_FAILURE
         else for_io (sector_offsets (block_size cfg) sector_size) (erase_one drv cfg block_id))"

definition its_flash_ops_nor :: "'d ARM_DRIVER_FLASH \<Rightarrow> 'd its_flash_ops_t" where
  "its_flash_ops_nor drv =
     \<lparr>ops_init = its_flash_nor_init drv, ops_read = its_flash_nor_read drv, ops_write = its_flash_nor_write drv,
      ops_flush = its_flash_nor_flush, ops_erase = its_flash_nor_erase drv\<rparr>"

section \<open>The NOR driver on a CMSIS driver\<close>

lemma sector_offsets_multiple: "0 < z \<Longrightarrow> sector_offsets (k * z) z = map (\<lambda>i. i * z) [0..<k]"
  using steps_multiple[of z k] by (simp add: sector_offsets_def)

context cmsis_flash
begin

lemma read_unaligned_ok:
  assumes ok: "ok d" and r: "addr + sz \<le> fsize"
  shows "flash_read_unaligned drv addr sz d = (Inr (rd (img d) addr sz), d)"
proof -
  define w h n1 n2 where "w = drv_item drv" and "h = part_head addr" and "n1 = part_first addr sz" and "n2 = part_items addr sz * w"
  note p = read_parts[OF ok r, folded w_def h_def n1_def, folded n2_def]
  have w: "0 < w" "data_width_byte ! drv_data_width drv = w" "fsize < 2 ^ 31" using sizes[OF ok] item_pos unfolding w_def by (simp_all add: drv_item_def)
  have al: "addr div w * w = addr - h" "addr - (addr - h) = h" "addr - h \<noteq> addr \<longleftrightarrow> h \<noteq> 0" "h < w"
    using align_down[OF w(1), of addr] by (auto simp: h_def part_head_def w_def[symmetric])
  have it: "(sz - n1) div w = part_items addr sz" by (simp add: part_items_def n1_def w_def)
  have rl: "(if add32 h sz \<ge> w then w - h else sz) = n1" if "h \<noteq> 0"
  proof -
    have "h \<le> addr" by (simp add: h_def part_head_def)
    then have "add32 h sz = h + sz" using r w(3) by (intro add32_id) simp
    then show ?thesis using that al(4) by (auto simp: n1_def part_first_def h_def[symmetric] w_def[symmetric])
  qed
  have a32: "add32 addr n1 = addr + n1" "add32 addr (n1 + n2) = addr + n1 + n2" using r w(3) p(9) by (simp_all add: wrap_simps add.assoc)
  define m1 where "m1 = (if h \<noteq> 0 then bind_io (cmsis_read drv (addr - h) 1) (\<lambda>temp.
        let read_length = (if add32 h sz \<ge> w then w - h else sz) in return_io (rd temp h read_length)) else return_io [])"
  have p1: "m1 d = (Inr (rd (img d) addr n1), d)"
    using p(1,2) rl by (cases "h = 0") (simp_all add: m1_def cmsis_read_def bind_io_def io_simps n1_def part_first_def h_def[symmetric])
  define m2 where "m2 = (if part_items addr sz \<noteq> 0 then cmsis_read drv (addr + n1) (part_items addr sz) else return_io [])"
  have p2: "m2 d = (Inr (rd (img d) (addr + n1) n2), d)"
    using p(3) by (cases "part_items addr sz = 0") (simp_all add: m2_def cmsis_read_def io_simps n2_def)
  define m3 where "m3 = (if sz - n1 - n2 \<noteq> 0 then bind_io (cmsis_read drv (addr + n1 + n2) 1) (\<lambda>temp. return_io (take (sz - n1 - n2) temp)) else return_io [])"
  have p3: "m3 d = (Inr (rd (img d) (addr + n1 + n2) (sz - n1 - n2)), d)"
    using p(4,5) by (cases "sz - n1 - n2 = 0") (simp_all add: m3_def cmsis_read_def bind_io_def io_simps)
  show ?thesis
    unfolding flash_read_unaligned_def w(2) Let_def al(1) al(2,3) m1_def[unfolded Let_def, symmetric] bind_io_Inr[of m1 d _ d, OF p1]
      p(7) it a32 m2_def[symmetric] bind_io_Inr[of m2 d _ d, OF p2] p(8) a32 m3_def[symmetric] bind_io_Inr[of m3 d _ d, OF p3] p(6) by (rule return_io_simp)
qed

end

section \<open>The NOR driver as a device\<close>

definition nor_pos :: "its_flash_config_t \<Rightarrow> nat \<Rightarrow> nat" where
  "nor_pos cfg b = flash_area_addr cfg + b * block_size cfg"

definition nor_content :: "('d \<Rightarrow> byte list) \<Rightarrow> its_flash_config_t \<Rightarrow> 'd \<Rightarrow> nat \<Rightarrow> byte list" where
  "nor_content img cfg d b = rd (img d) (nor_pos cfg b) (block_size cfg)"

definition nor_upd :: "('d \<Rightarrow> byte list) \<Rightarrow> ('d \<Rightarrow> byte list \<Rightarrow> 'd) \<Rightarrow> its_flash_config_t \<Rightarrow> 'd \<Rightarrow> nat \<Rightarrow> byte list \<Rightarrow> 'd" where
  "nor_upd img put cfg d b x = put d (wr (img d) (nor_pos cfg b) x)"

text \<open>The blocks are sectors of the flash, the data width and the program unit are a byte.\<close>

definition nor_ok :: "'d ARM_DRIVER_FLASH \<Rightarrow> ARM_FLASH_INFO \<Rightarrow> nat \<Rightarrow> ('d \<Rightarrow> bool) \<Rightarrow> its_flash_config_t \<Rightarrow> 'd \<Rightarrow> bool" where
  "nor_ok drv info fsize ok cfg d \<longleftrightarrow> ok d \<and> drv_item drv = 1 \<and> fi_program_unit info = 1 \<and> 0 < fi_sector_size info \<and> 0 < block_size cfg
     \<and> fi_sector_size info dvd flash_area_addr cfg \<and> fi_sector_size info dvd block_size cfg \<and> erase_val cfg = fi_erased_value info
     \<and> flash_area_addr cfg + num_blocks cfg * block_size cfg \<le> fsize"

lemma nor_block:
  assumes "flash_area_addr cfg + num_blocks cfg * block_size cfg \<le> n" "b < num_blocks cfg"
  shows "nor_pos cfg b + block_size cfg \<le> n"
  using assms block_in_range[of b "num_blocks cfg" 0 "block_size cfg" "block_size cfg"] by (simp add: nor_pos_def)

lemma nor_disjoint:
  assumes "b \<noteq> b'"
  shows "nor_pos cfg b + block_size cfg \<le> nor_pos cfg b' \<or> nor_pos cfg b' + block_size cfg \<le> nor_pos cfg b"
  using assms block_in_range[of b b' 0 "block_size cfg" "block_size cfg"] block_in_range[of b' b 0 "block_size cfg" "block_size cfg"]
  by (cases "b < b'") (simp_all add: nor_pos_def)

lemma nor_address:
  assumes "flash_area_addr cfg + num_blocks cfg * block_size cfg \<le> n" "n < 2 ^ 31" "b < num_blocks cfg" "off < block_size cfg"
  shows "get_phys_address cfg b off = nor_pos cfg b + off"
proof -
  have "nor_pos cfg b + block_size cfg \<le> n" using nor_block[OF assms(1,3)] .
  then have "b * block_size cfg < SIZE_MAX_P1" "flash_area_addr cfg + b * block_size cfg < SIZE_MAX_P1"
    "flash_area_addr cfg + b * block_size cfg + off < SIZE_MAX_P1" using assms by (auto simp: nor_pos_def)
  then show ?thesis by (simp add: get_phys_address_def nor_pos_def wrap_simps)
qed

context cmsis_flash
begin

lemma nor_erase_ok:
  assumes ok: "nor_ok drv info fsize ok cfg d" and b: "b < num_blocks cfg"
  shows "its_flash_nor_erase drv cfg b d = (Inr (), nor_upd img put cfg d b (replicate (block_size cfg) (erase_val cfg)))"
proof -
  let ?z = "fi_sector_size info" and ?p = "nor_pos cfg b"
  note o = ok[unfolded nor_ok_def]
  have okd: "ok d" and z: "0 < ?z" using o by auto
  have fs: "fsize < 2 ^ 31" using sizes[OF okd] by simp
  obtain k where k: "block_size cfg = k * ?z" using o by (auto elim!: dvdE simp: mult.commute)
  have p: "?p + k * ?z \<le> fsize" using nor_block[of cfg fsize b] o b k by simp
  have zp: "?z dvd ?p" using o by (auto simp: nor_pos_def k)
  have step: "erase_one drv cfg b (i * ?z) e = (Inr (), put e (wr (img e) (?p + i * ?z) (replicate ?z (fi_erased_value info))))"
    if "i < k" "ok e" for i e
  proof -
    have iz: "i * ?z + ?z \<le> k * ?z" using that(1) by (metis Suc_leI add.commute mult_Suc mult_le_mono1)
    have "get_phys_address cfg b (i * ?z) = ?p + i * ?z" using o fs b that z by (intro nor_address[of cfg fsize]) (simp_all add: k)
    moreover have "?z dvd ?p + i * ?z" "?p + i * ?z + ?z \<le> fsize" using zp p iz by auto
    ultimately show ?thesis using erase_sector[OF that(2)] by (simp add: erase_one_def)
  qed
  have "\<exists>t. for_io (map (\<lambda>i. i * ?z) [0..<k]) (erase_one drv cfg b) d = (Inr (), t)
      \<and> (ok t \<and> t = put d (wr (img d) ?p (replicate (length (map (\<lambda>i. i * ?z) [0..<k]) * ?z) (fi_erased_value info))))"
  proof (rule for_io_rule)
    show "ok d \<and> d = put d (wr (img d) ?p (replicate (0 * ?z) (fi_erased_value info)))" using okd by (simp add: put_img)
    fix i e assume i: "i < length (map (\<lambda>i. i * ?z) [0..<k])"
      and e: "ok e \<and> e = put d (wr (img d) ?p (replicate (i * ?z) (fi_erased_value info)))"
    define x where "x = wr (img d) ?p (replicate (i * ?z) (fi_erased_value info))"
    have iz: "i * ?z + ?z \<le> k * ?z" using i by (metis Suc_leI add.commute length_map length_upt diff_zero mult_Suc mult_le_mono1)
    have x: "length x = fsize" "img e = x" "e = put d x" using e p iz okd by (auto simp: x_def img_length img_put)
    have y: "wr x (?p + i * ?z) (replicate ?z (fi_erased_value info)) = wr (img d) ?p (replicate (Suc i * ?z) (fi_erased_value info))"
      using wr_wr_append[of ?p "replicate (i * ?z) (fi_erased_value info)" "replicate ?z (fi_erased_value info)" "img d"] p iz
      by (simp add: x_def img_length[OF okd] replicate_add[symmetric] add.commute)
    have ly: "length (wr (img d) ?p (replicate (Suc i * ?z) (fi_erased_value info))) = fsize" using p iz by (simp add: img_length[OF okd])
    show "\<exists>s'. erase_one drv cfg b (map (\<lambda>i. i * ?z) [0..<k] ! i) e = (Inr (), s')
        \<and> (ok s' \<and> s' = put d (wr (img d) ?p (replicate (Suc i * ?z) (fi_erased_value info))))"
    proof -
      have "erase_one drv cfg b (i * ?z) e = (Inr (), put e (wr x (?p + i * ?z) (replicate ?z (fi_erased_value info))))"
        unfolding x(2)[symmetric] by (rule step) (use i conjunct1[OF e] in simp_all)
      moreover have "put e (wr x (?p + i * ?z) (replicate ?z (fi_erased_value info))) = put d (wr (img d) ?p (replicate (Suc i * ?z) (fi_erased_value info)))"
        unfolding y using put_put[OF okd x(1) ly] x(3) by simp
      ultimately show ?thesis using i ok_put[OF okd ly] by simp
    qed
  qed
  then show ?thesis using z o
    by (simp add: its_flash_nor_erase_def get_info sector_offsets_multiple k nor_upd_def)
qed

end

sublocale cmsis_flash \<subseteq> nor: flash_device cfg "its_flash_ops_nor drv" "nor_content img cfg" "nor_upd img put cfg" "nor_ok drv info fsize ok cfg" for cfg
proof unfold_locales
  fix d b assume o: "nor_ok drv info fsize ok cfg d" and b: "b < num_blocks cfg"
  have okd: "ok d" and p: "nor_pos cfg b + block_size cfg \<le> fsize" using o b nor_block[of cfg fsize b] by (auto simp: nor_ok_def)
  note l = img_length[OF okd]
  show "length (nor_content img cfg d b) = block_size cfg" using p by (simp add: nor_content_def l)
  show "nor_upd img put cfg d b (nor_content img cfg d b) = d" using p by (simp add: nor_upd_def nor_content_def wr_rd_id l put_img okd)
  show "ops_erase (its_flash_ops_nor drv) cfg b d = (Inr (), nor_upd img put cfg d b (replicate (block_size cfg) (erase_val cfg)))"
    using nor_erase_ok[OF o b] by (simp add: its_flash_ops_nor_def)
  show "ops_flush (its_flash_ops_nor drv) cfg b d = (Inr (), d)" by (simp add: its_flash_ops_nor_def its_flash_nor_flush_def io_simps)
  fix x :: "byte list" assume x: "length x = block_size cfg"
  show "nor_ok drv info fsize ok cfg (nor_upd img put cfg d b x)" using o okd x p by (simp add: nor_ok_def nor_upd_def ok_put l)
  show "nor_upd img put cfg (nor_upd img put cfg d b x) b y = nor_upd img put cfg d b y" if "length y = block_size cfg" for y
    using okd x p that by (simp add: nor_upd_def img_put put_put l wr_wr_same)
  fix b' assume b': "b' < num_blocks cfg"
  have p': "nor_pos cfg b' + block_size cfg \<le> fsize" using o b' nor_block[of cfg fsize b'] by (auto simp: nor_ok_def)
  show "nor_content img cfg (nor_upd img put cfg d b x) b' = (if b' = b then x else nor_content img cfg d b')"
    using okd x p p' nor_disjoint[of b b' cfg]
    by (auto simp: nor_content_def nor_upd_def img_put l rd_wr_same rd_wr_disj)
next
  fix d b off n assume o: "nor_ok drv info fsize ok cfg d" and b: "b < num_blocks cfg" "off < block_size cfg" "off + n \<le> block_size cfg"
  have okd: "ok d" and p: "nor_pos cfg b + block_size cfg \<le> fsize" using o b nor_block[of cfg fsize b] by (auto simp: nor_ok_def)
  have a: "get_phys_address cfg b off = nor_pos cfg b + off"
    using o b sizes[OF okd] by (intro nor_address[of cfg fsize]) (auto simp: nor_ok_def)
  show "ops_read (its_flash_ops_nor drv) cfg b off n d = (Inr (rd (nor_content img cfg d b) off n), d)"
    using read_unaligned_ok[OF okd, of "nor_pos cfg b + off" n] p b a
    by (cases "n = 0") (auto simp: its_flash_ops_nor_def its_flash_nor_read_def io_simps nor_content_def rd_rd)
  fix buff :: "byte list" assume n: "0 < n" "n \<le> length buff"
  have w: "data_width_byte ! drv_data_width drv = 1" "drv_item drv = 1" using o by (simp_all add: nor_ok_def drv_item_def)
  have "drv_ProgramData drv (nor_pos cfg b + off) buff n d = (int n, put d (wr (img d) (nor_pos cfg b + off) (take n buff)))"
    using program_data[OF okd n(1), of "nor_pos cfg b + off" buff] p b n o by (simp add: w nor_ok_def)
  moreover have "wr (img d) (nor_pos cfg b + off) (take n buff) = wr (img d) (nor_pos cfg b) (wr (nor_content img cfg d b) off (take n buff))"
    using p b n unfolding nor_content_def by (intro wr_wr_nested) (simp_all add: img_length[OF okd])
  ultimately show "ops_write (its_flash_ops_nor drv) cfg b buff off n d = (Inr (), nor_upd img put cfg d b (wr (nor_content img cfg d b) off (take n buff)))"
    by (simp add: its_flash_ops_nor_def its_flash_nor_write_def a w nor_upd_def)
qed

end
