(* ===== verification/ITS_Flash_Nand.thy ===== *)
theory ITS_Flash_Nand
  imports ITS_Flash_Nor
begin

text \<open>
  The NAND driver of Internal Trusted Storage (its_flash_nand.c): writes go to one of two buffers of a
  block each, and reach the flash when the block is flushed.
\<close>

record 'd its_flash_nand_dev_t =
  nand_flash :: 'd              \<comment> \<open>the state of the CMSIS driver\<close>
  nand_sector_size :: nat
  buf_block_id_0 :: nat
  buf_block_id_1 :: nat
  write_buf_0 :: "byte list"    \<comment> \<open>both of \<open>buf_size\<close> bytes\<close>
  write_buf_1 :: "byte list"

definition on_flash :: "('d, 'a) io \<Rightarrow> ('d its_flash_nand_dev_t, 'a) io" where
  "on_flash f = (\<lambda>n. case f (nand_flash n) of (r, d) \<Rightarrow> (r, n\<lparr>nand_flash := d\<rparr>))"

definition its_flash_nand_init :: "'d ARM_DRIVER_FLASH \<Rightarrow> its_flash_config_t \<Rightarrow> ('d its_flash_nand_dev_t, its_flash_config_t) io" where
  "its_flash_nand_init drv cfg = (\<lambda>n.
     if length (write_buf_0 n) < block_size cfg then (Inl PSA_ERROR_PROGRAMMER_ERROR, n)
     else case drv_Initialize drv (nand_flash n) of
       (err, d) \<Rightarrow>
         let n = n\<lparr>nand_flash := d\<rparr> in
         if err \<noteq> ARM_DRIVER_OK then (Inl PSA_ERROR_STORAGE_FAILURE, n)
         else case drv_GetInfo drv of
           None \<Rightarrow> (Inl PSA_ERROR_STORAGE_FAILURE, n)
         | Some fi \<Rightarrow>
             if block_size cfg = 0 \<or> fi_sector_size fi = 0 \<or> block_size cfg mod fi_sector_size fi \<noteq> 0
             then (Inl PSA_ERROR_PROGRAMMER_ERROR, n)
             else (Inr (cfg\<lparr>erase_val := fi_erased_value fi\<rparr>), n\<lparr>nand_sector_size := fi_sector_size fi\<rparr>))"

text \<open>The read of the flash itself has the statements of \<open>flash_read_unaligned\<close>.\<close>

definition its_flash_nand_read :: "'d ARM_DRIVER_FLASH \<Rightarrow> its_flash_config_t \<Rightarrow> nat \<Rightarrow> nat \<Rightarrow> nat \<Rightarrow> ('d its_flash_nand_dev_t, byte list) io" where
  "its_flash_nand_read drv cfg block_id offset sz = (\<lambda>n.
     if block_id = ITS_BLOCK_INVALID_ID then (Inl PSA_ERROR_PROGRAMMER_ERROR, n)
     else if block_id = buf_block_id_0 n then (Inr (rd (write_buf_0 n) offset sz), n)
     else if block_id = buf_block_id_1 n then (Inr (rd (write_buf_1 n) offset sz), n)
     else on_flash (flash_read_unaligned drv (get_phys_address cfg block_id offset) sz) n)"

definition its_flash_nand_write :: "its_flash_config_t \<Rightarrow> nat \<Rightarrow> byte list \<Rightarrow> nat \<Rightarrow> nat \<Rightarrow> ('d its_flash_nand_dev_t, unit) io" where
  "its_flash_nand_write cfg block_id buff offset sz = (\<lambda>n.
     if block_id = ITS_BLOCK_INVALID_ID then (Inl PSA_ERROR_PROGRAMMER_ERROR, n)
     else if block_id = buf_block_id_0 n then (Inr (), n\<lparr>write_buf_0 := wr (write_buf_0 n) offset (take sz buff)\<rparr>)
     else if block_id = buf_block_id_1 n then (Inr (), n\<lparr>write_buf_1 := wr (write_buf_1 n) offset (take sz buff)\<rparr>)
     else if buf_block_id_0 n = ITS_BLOCK_INVALID_ID
     then (Inr (), n\<lparr>buf_block_id_0 := block_id, write_buf_0 := wr (write_buf_0 n) offset (take sz buff)\<rparr>)
     else if buf_block_id_1 n = ITS_BLOCK_INVALID_ID
     then (Inr (), n\<lparr>buf_block_id_1 := block_id, write_buf_1 := wr (write_buf_1 n) offset (take sz buff)\<rparr>)
     else (Inl PSA_ERROR_PROGRAMMER_ERROR, n))"

definition nand_program :: "'d ARM_DRIVER_FLASH \<Rightarrow> its_flash_config_t \<Rightarrow> nat \<Rightarrow> byte list \<Rightarrow> ('d, unit) io" where
  "nand_program drv cfg block_id buf = (\<lambda>d.
     case drv_ProgramData drv (get_phys_address cfg block_id 0) buf (block_size cfg div data_width_byte ! drv_data_width drv) d of
       (err, d) \<Rightarrow> if err < 0 then (Inl PSA_ERROR_STORAGE_FAILURE, d) else (Inr (), d))"

definition its_flash_nand_flush :: "'d ARM_DRIVER_FLASH \<Rightarrow> its_flash_config_t \<Rightarrow> nat \<Rightarrow> ('d its_flash_nand_dev_t, unit) io" where
  "its_flash_nand_flush drv cfg block_id = (\<lambda>n.
     if block_id = buf_block_id_0 n then
       bind_io (on_flash (nand_program drv cfg (buf_block_id_0 n) (write_buf_0 n))) (\<lambda>_.
       modify_io (\<lambda>n. n\<lparr>write_buf_0 := replicate (length (write_buf_0 n)) 0, buf_block_id_0 := ITS_BLOCK_INVALID_ID\<rparr>)) n
     else if block_id = buf_block_id_1 n then
       bind_io (on_flash (nand_program drv cfg (buf_block_id_1 n) (write_buf_1 n))) (\<lambda>_.
       modify_io (\<lambda>n. n\<lparr>write_buf_1 := replicate (length (write_buf_1 n)) 0, buf_block_id_1 := ITS_BLOCK_INVALID_ID\<rparr>)) n
     else (Inl PSA_ERROR_GENERIC_ERROR, n))"

definition its_flash_nand_erase :: "'d ARM_DRIVER_FLASH \<Rightarrow> its_flash_config_t \<Rightarrow> nat \<Rightarrow> ('d its_flash_nand_dev_t, unit) io" where
  "its_flash_nand_erase drv cfg block_id = (\<lambda>n.
     on_flash (for_io (sector_offsets (block_size cfg) (nand_sector_size n)) (erase_one drv cfg block_id)) n)"

definition its_flash_ops_nand :: "'d ARM_DRIVER_FLASH \<Rightarrow> 'd its_flash_nand_dev_t its_flash_ops_t" where
  "its_flash_ops_nand drv =
     \<lparr>ops_init = its_flash_nand_init drv, ops_read = its_flash_nand_read drv, ops_write = its_flash_nand_write,
      ops_flush = its_flash_nand_flush drv, ops_erase = its_flash_nand_erase drv\<rparr>"

section \<open>What a client sees\<close>

text \<open>The contents of a block: that of its buffer, when it has one, else that of the flash.\<close>

definition nand_view :: "('d \<Rightarrow> byte list) \<Rightarrow> its_flash_config_t \<Rightarrow> 'd its_flash_nand_dev_t \<Rightarrow> nat \<Rightarrow> byte list" where
  "nand_view img cfg n b =
     (if b = buf_block_id_0 n then take (block_size cfg) (write_buf_0 n)
      else if b = buf_block_id_1 n then take (block_size cfg) (write_buf_1 n)
      else nor_content img cfg (nand_flash n) b)"

definition nand_dirty :: "'d its_flash_nand_dev_t \<Rightarrow> nat \<Rightarrow> bool" where
  "nand_dirty n b \<longleftrightarrow> b = buf_block_id_0 n \<or> b = buf_block_id_1 n"

text \<open>
  A sound state: the flash is, its blocks are whole items, their numbers are not the invalid one, the
  buffers have room for a block and do not hold the same one.
\<close>

definition nand_ok :: "'d ARM_DRIVER_FLASH \<Rightarrow> ARM_FLASH_INFO \<Rightarrow> nat \<Rightarrow> ('d \<Rightarrow> bool) \<Rightarrow> its_flash_config_t \<Rightarrow> 'd its_flash_nand_dev_t \<Rightarrow> bool" where
  "nand_ok drv info fsize ok cfg n \<longleftrightarrow> ok (nand_flash n) \<and> 0 < block_size cfg \<and> drv_item drv dvd block_size cfg
     \<and> drv_item drv dvd flash_area_addr cfg \<and> fi_program_unit info dvd block_size cfg \<and> num_blocks cfg \<le> ITS_BLOCK_INVALID_ID
     \<and> flash_area_addr cfg + num_blocks cfg * block_size cfg \<le> fsize
     \<and> block_size cfg \<le> length (write_buf_0 n) \<and> block_size cfg \<le> length (write_buf_1 n)
     \<and> (buf_block_id_0 n = buf_block_id_1 n \<longrightarrow> buf_block_id_0 n = ITS_BLOCK_INVALID_ID)"

lemma take_wr:
  assumes "off + length d \<le> n" "n \<le> length b"
  shows "take n (wr b off d) = wr (take n b) off d"
  by (rule nth_equalityI) (use assms in \<open>auto simp: nth_wr\<close>)

context cmsis_flash
begin

lemma nand_read_ok:
  assumes o: "nand_ok drv info fsize ok cfg n" and b: "b < num_blocks cfg" "off < block_size cfg" "off + k \<le> block_size cfg" "0 < k"
  shows "its_flash_nand_read drv cfg b off k n = (Inr (rd (nand_view img cfg n b) off k), n)"
proof -
  have okd: "ok (nand_flash n)" and p: "nor_pos cfg b + block_size cfg \<le> fsize" and nb: "b \<noteq> ITS_BLOCK_INVALID_ID"
    using o b nor_block[of cfg fsize b] by (auto simp: nand_ok_def)
  have a: "get_phys_address cfg b off = nor_pos cfg b + off"
    using o b sizes[OF okd] by (intro nor_address[of cfg fsize]) (auto simp: nand_ok_def)
  have t: "rd (take (block_size cfg) w) off k = rd w off k" for w :: "byte list" using b by (simp add: rd_def drop_take min_def)
  show ?thesis
    using read_unaligned_ok[OF okd, of "nor_pos cfg b + off" k] p b nb a
    by (auto simp: its_flash_nand_read_def nand_view_def on_flash_def nor_content_def rd_rd t)
qed

text \<open>A write changes the view of its block, of which only what is written is known when it was not buffered.\<close>

lemma nand_write_ok:
  assumes o: "nand_ok drv info fsize ok cfg n" and b: "b < num_blocks cfg" "off + k \<le> block_size cfg" "k \<le> length bs"
    and room: "nand_dirty n b \<or> nand_dirty n ITS_BLOCK_INVALID_ID"
  shows "\<exists>n'. its_flash_nand_write cfg b bs off k n = (Inr (), n') \<and> nand_ok drv info fsize ok cfg n' \<and> nand_dirty n' b
    \<and> nand_flash n' = nand_flash n \<and> rd (nand_view img cfg n' b) off k = take k bs
    \<and> (nand_dirty n b \<longrightarrow> nand_view img cfg n' b = wr (nand_view img cfg n b) off (take k bs))
    \<and> (\<forall>b' < num_blocks cfg. b' \<noteq> b \<longrightarrow> nand_view img cfg n' b' = nand_view img cfg n b')"
proof -
  have nb: "b' \<noteq> ITS_BLOCK_INVALID_ID" if "b' < num_blocks cfg" for b' using o that by (auto simp: nand_ok_def)
  have w: "rd (wr (take (block_size cfg) x) off (take k bs)) off k = take k bs"
    "take (block_size cfg) (wr x off (take k bs)) = wr (take (block_size cfg) x) off (take k bs)"
    if "block_size cfg \<le> length x" for x :: "byte list"
    using that b take_wr[of off "take k bs" "block_size cfg" x] by (simp_all add: rd_wr_same)
  have x: "b' = ITS_BLOCK_INVALID_ID \<Longrightarrow> \<not> b' < num_blocks cfg" for b' using nb by blast
  have l: "block_size cfg \<le> length (write_buf_0 n)" "block_size cfg \<le> length (write_buf_1 n)" using o by (auto simp: nand_ok_def)
  show ?thesis using o room b nb[OF b(1)] x l
    by (auto simp: its_flash_nand_write_def nand_dirty_def nand_view_def nand_ok_def w)
qed

text \<open>A flush moves a buffered block to the flash and changes no view.\<close>

lemma nand_program_ok:
  assumes o: "nand_ok drv info fsize ok cfg n" and b: "b < num_blocks cfg" and l: "block_size cfg \<le> length buf"
  shows "nand_program drv cfg b buf (nand_flash n) = (Inr (), nor_upd img put cfg (nand_flash n) b (take (block_size cfg) buf))"
proof -
  let ?w = "drv_item drv" and ?B = "block_size cfg"
  have okd: "ok (nand_flash n)" and p: "nor_pos cfg b + ?B \<le> fsize" and bz: "0 < ?B" "?w dvd ?B" "?w dvd flash_area_addr cfg"
    using o b nor_block[of cfg fsize b] by (auto simp: nand_ok_def)
  have a: "get_phys_address cfg b 0 = nor_pos cfg b"
    using o b bz sizes[OF okd] nor_address[of cfg fsize b 0] by (auto simp: nand_ok_def)
  have d: "?B div ?w * ?w = ?B" "0 < ?B div ?w" "?w dvd nor_pos cfg b" using bz by (auto simp: nor_pos_def dvd_div_eq_0_iff)
  show ?thesis
    using program_data[OF okd d(2,3), of buf] d p l o
    by (simp add: nand_program_def a drv_item_def[symmetric] nor_upd_def nand_ok_def)
qed

lemma nand_flush_ok:
  assumes o: "nand_ok drv info fsize ok cfg n" and b: "b < num_blocks cfg" "nand_dirty n b"
  shows "\<exists>n'. its_flash_nand_flush drv cfg b n = (Inr (), n') \<and> nand_ok drv info fsize ok cfg n' \<and> \<not> nand_dirty n' b
    \<and> nand_dirty n' ITS_BLOCK_INVALID_ID \<and> nor_content img cfg (nand_flash n') b = nand_view img cfg n b
    \<and> (\<forall>b' < num_blocks cfg. nand_view img cfg n' b' = nand_view img cfg n b')"
proof -
  have nb: "b' \<noteq> ITS_BLOCK_INVALID_ID" if "b' < num_blocks cfg" for b' using o that by (auto simp: nand_ok_def)
  have okd: "ok (nand_flash n)" and p: "\<And>b. b < num_blocks cfg \<Longrightarrow> nor_pos cfg b + block_size cfg \<le> fsize"
    using o nor_block[of cfg fsize] by (auto simp: nand_ok_def)
  have u: "ok (nor_upd img put cfg (nand_flash n) b x)"
    "\<And>b'. b' < num_blocks cfg \<Longrightarrow> nor_content img cfg (nor_upd img put cfg (nand_flash n) b x) b' = (if b' = b then x else nor_content img cfg (nand_flash n) b')"
    if "length x = block_size cfg" for x :: "byte list"
  proof -
    show "ok (nor_upd img put cfg (nand_flash n) b x)" using that okd p[OF b(1)] img_length[OF okd] by (simp add: nor_upd_def ok_put)
    show "nor_content img cfg (nor_upd img put cfg (nand_flash n) b x) b' = (if b' = b then x else nor_content img cfg (nand_flash n) b')"
      if b': "b' < num_blocks cfg" for b'
      using \<open>length x = block_size cfg\<close> okd p[OF b(1)] p[OF b'] nor_disjoint[of b b' cfg] img_length[OF okd]
      by (auto simp: nor_content_def nor_upd_def img_put rd_wr_same rd_wr_disj)
  qed
  have l: "block_size cfg \<le> length (write_buf_0 n)" "block_size cfg \<le> length (write_buf_1 n)" using o by (auto simp: nand_ok_def)
  show ?thesis
  proof (cases "b = buf_block_id_0 n")
    case True
    have nd: "buf_block_id_1 n \<noteq> b" using o True nb[OF b(1)] by (auto simp: nand_ok_def)
    show ?thesis
      using nand_program_ok[OF o b(1) l(1)] True o nd nb[OF b(1)] nb u[of "take (block_size cfg) (write_buf_0 n)"] l b(1)
      by (simp add: its_flash_nand_flush_def on_flash_def io_simps nand_ok_def nand_dirty_def nand_view_def bind_io_def modify_io_def)
  next
    case False
    then have e: "b = buf_block_id_1 n" using b(2) by (simp add: nand_dirty_def)
    show ?thesis
      using nand_program_ok[OF o b(1) l(2)] False e o nb[OF b(1)] nb u[of "take (block_size cfg) (write_buf_1 n)"] l b(1)
      by (auto simp: its_flash_nand_flush_def on_flash_def io_simps nand_ok_def nand_dirty_def nand_view_def bind_io_def modify_io_def)
  qed
qed

end

end
