(* ===== verification/ITS_Flash_Properties.thy ===== *)
theory ITS_Flash_Properties
  imports ITS_Properties ITS_Flash_Nand IFX_RRAM
begin

text \<open>
  Internal Trusted Storage on the flash drivers: the file system over the NOR driver and the Infineon
  flash driver, and the buffers of the NAND driver.
\<close>

section \<open>The file system on NOR flash\<close>

text \<open>The contract of the device is the one of the RAM driver, so the file system is the same.\<close>

definition nor_config :: "ifx_driver_obj_t \<Rightarrow> cy_flash \<Rightarrow> flash_mem its_flash_fs_config_t \<Rightarrow> flash_mem its_flash_fs_config_t" where
  "nor_config obj cy c = c\<lparr>ops := its_flash_ops_nor (ifx_cmsis_driver_flash obj cy)\<rparr>"

lemma nor_config_fields [simp]: "flash_cfg (nor_config obj cy c) = flash_cfg c" "ops (nor_config obj cy c) = its_flash_ops_nor (ifx_cmsis_driver_flash obj cy)"
  by (simp_all add: nor_config_def)

lemma nor_config_id: "ops c = its_flash_ops_nor (ifx_cmsis_driver_flash obj cy) \<Longrightarrow> nor_config obj cy c = c"
  by (simp add: nor_config_def)

context flash_fs
begin

lemma active_length: "fs_inv content dev_ok c s \<Longrightarrow> length (active_meta content s) = block_size (flash_cfg c)"
  using content_length[of "dev s" "active_metablock s"] cfg_ok_bounds(4)[of c]
  by (auto simp: fs_inv_def fs_layout_inv_def Let_def active_meta_def layout_ok_def blocks_ok_def)

lemma store_reset_read:
  assumes cfg: "cfg_ok c" "max_alignment c = 1" "erase_val (flash_cfg c) \<notin> {1, 2}" "2 \<le> max_num_files c" and ok: "dev_ok (dev s)"
    and f: "fid_valid f" "length f = ITS_FILE_ID_SIZE"
    and i: "info_flags finfo AND ITS_FLASH_FS_INTERNAL_FLAGS_MASK = 0" "info_flags finfo AND ITS_FLASH_FS_FLAG_CREATE \<noteq> 0" "size_max finfo \<le> max_file_size c"
    and d: "length data \<le> size_max finfo"
  shows "\<exists>t u. its_flash_fs_wipe_all c s = (Inr (), t) \<and> its_flash_fs_file_write c f (Some finfo) (length data) 0 data t = (Inr finfo, u)
    \<and> (\<forall>u'. dev u' = dev u \<longrightarrow> (\<exists>v. its_flash_fs_prepare c u' = (Inr (), v)
         \<and> (\<forall>off n. 0 < n \<longrightarrow> off + n \<le> length data \<longrightarrow> its_flash_fs_file_read c f n off v = (Inr (rd data off n), v))))"
proof -
  obtain t where t: "its_flash_fs_wipe_all c s = (Inr (), t)" "fs_inv content dev_ok c t" "fs_files content c t = Map.empty"
    using wipe_all_ok[OF cfg(1) ok] by blast
  have st: "write_status content c t f finfo (length data) 0 = None"
    using empty_has_room[OF t(2,3) cfg(4) i(3) active_length[OF t(2)]] i d t(3)
    by (simp add: write_status_def Let_def write_base_def)
  have wb: "file_data (write_base finfo None) = []" by (simp add: write_base_def)
  obtain u where u: "its_flash_fs_file_write c f (Some finfo) (length data) 0 data t = (Inr finfo, u)" "fs_inv content dev_ok c u"
    "fs_files content c u f = Some (write_at (length data) 0 data (write_base finfo None))"
    using file_write_refines[of t f "length data" data finfo 0] t(2,3) cfg(2) f wb st by (auto simp: write_outcome_def)
  have fd: "file_data (write_at (length data) 0 data (write_base finfo None)) = data" using wb by (simp add: write_at_def)
  have "\<exists>v. its_flash_fs_prepare c u' = (Inr (), v)
      \<and> (\<forall>off n. 0 < n \<longrightarrow> off + n \<le> length data \<longrightarrow> its_flash_fs_file_read c f n off v = (Inr (rd data off n), v))"
    if d': "dev u' = dev u" for u'
  proof -
    obtain v where v: "its_flash_fs_prepare c u' = (Inr (), v)" "fs_inv content dev_ok c v" "fs_files content c v = fs_files content c u"
      using remount[OF u(2) cfg(3) d'] by blast
    then show ?thesis using file_read_refines[of v f] f u(3) fd by (auto simp: fs_inv_def)
  qed
  then show ?thesis using t(1) u(1) by blast
qed

end

interpretation nfs: flash_fs "nor_config obj cy c" "nor_content (ifx_img obj) (flash_cfg c)" "nor_upd (ifx_img obj) (ifx_put obj) (flash_cfg c)"
    "nor_ok (ifx_cmsis_driver_flash obj cy) (flash_info obj) (ifx_size obj) (ifx_flash_ok obj cy) (flash_cfg c)" for obj cy c
  unfolding flash_fs_def nor_config_fields by (rule iff.nor.flash_device_axioms)

text \<open>
  C19. On NOR flash behind the Infineon driver, whatever the flash held: after a wipe, a file created with
  data of at most its maximum size is stored, and after a reset (a mount from any context) every part of it
  is read back.
\<close>
theorem its_nor_store_reset_read:
  assumes "ops c = its_flash_ops_nor (ifx_cmsis_driver_flash obj cy)"
    and "cfg_ok c" "max_alignment c = 1" "erase_val (flash_cfg c) \<notin> {1, 2}" "2 \<le> max_num_files c"
    and "nor_ok (ifx_cmsis_driver_flash obj cy) (flash_info obj) (ifx_size obj) (ifx_flash_ok obj cy) (flash_cfg c) (dev s)"
    and "fid_valid f" "length f = ITS_FILE_ID_SIZE" "info_flags finfo AND ITS_FLASH_FS_INTERNAL_FLAGS_MASK = 0"
    and "info_flags finfo AND ITS_FLASH_FS_FLAG_CREATE \<noteq> 0" "size_max finfo \<le> max_file_size c" "length data \<le> size_max finfo"
  shows "\<exists>t u. its_flash_fs_wipe_all c s = (Inr (), t) \<and> its_flash_fs_file_write c f (Some finfo) (length data) 0 data t = (Inr finfo, u)
    \<and> (\<forall>u'. dev u' = dev u \<longrightarrow> (\<exists>v. its_flash_fs_prepare c u' = (Inr (), v)
         \<and> (\<forall>off n. 0 < n \<longrightarrow> off + n \<le> length data \<longrightarrow> its_flash_fs_file_read c f n off v = (Inr (rd data off n), v))))"
  using nfs.store_reset_read[of obj cy c s f finfo data] assms unfolding nor_config_id[OF assms(1)] by blast

definition nor_cy :: cy_flash where
  "nor_cy = \<lparr>CY_FLASH_SIZEOF_ROW = 256, Cy_Flash_ProgramRow = (\<lambda>a bs m. (CY_FLASH_DRV_SUCCESS, mem_set m a bs)),
     Cy_Flash_EraseRow = (\<lambda>a m. (CY_FLASH_DRV_SUCCESS, mem_set m a (replicate 256 IFX_DRIVER_FLASH_ERASE_VALUE)))\<rparr>"

definition nor_obj :: ifx_driver_obj_t where
  "nor_obj = \<lparr>start_address = 0x1000, flash_info = \<lparr>fi_sector_info = None, fi_sector_count = 8, fi_sector_size = 256, fi_page_size = 256, fi_program_unit = 1, fi_erased_value = 0xFF\<rparr>\<rparr>"

definition nor_cfg :: "flash_mem its_flash_fs_config_t" where
  "nor_cfg = \<lparr>flash_cfg = \<lparr>flash_area_addr = 0, block_size = 256, num_blocks = 4, program_unit = 1, erase_val = 255\<rparr>,
     ops = its_flash_ops_nor (ifx_cmsis_driver_flash nor_obj nor_cy), max_file_size = 64, max_num_files = 3, validate_metadata = True, max_alignment = 1\<rparr>"

definition nor_ctx :: "flash_mem its_flash_fs_ctx_t" where
  "nor_ctx = zero_ctx (\<lambda>_. 7)"

lemma nor_flash_ok: "ifx_flash_ok nor_obj nor_cy m" "fi_sector_size (flash_info nor_obj) = 256" "ifx_size nor_obj = 2048" "fi_program_unit (flash_info nor_obj) = 1"
  "fi_erased_value (flash_info nor_obj) = 255" "drv_item (ifx_cmsis_driver_flash nor_obj nor_cy) = 1"
  by (simp_all add: ifx_flash_ok_def cy_flash_ok_def nor_obj_def nor_cy_def ifx_size_def IFX_DRIVER_FLASH_PROGRAM_UNIT_def IFX_DRIVER_FLASH_ERASE_VALUE_def
      drv_item_def data_width_byte_def ifx_cmsis_driver_flash_def)

theorem its_nor_store_reset_read_witness:
  "\<exists>t u. its_flash_fs_wipe_all nor_cfg nor_ctx = (Inr (), t)
    \<and> its_flash_fs_file_write nor_cfg wit_fid (Some wit_info) (length [1, 2, 3 :: byte]) 0 [1, 2, 3] t = (Inr wit_info, u)
    \<and> (\<forall>u'. dev u' = dev u \<longrightarrow> (\<exists>v. its_flash_fs_prepare nor_cfg u' = (Inr (), v)
         \<and> (\<forall>off n. 0 < n \<longrightarrow> off + n \<le> length [1, 2, 3 :: byte] \<longrightarrow> its_flash_fs_file_read nor_cfg wit_fid n off v = (Inr (rd [1, 2, 3] off n), v))))"
proof (rule its_nor_store_reset_read)
  show "ops nor_cfg = its_flash_ops_nor (ifx_cmsis_driver_flash nor_obj nor_cy)" by (simp add: nor_cfg_def)
  show "nor_ok (ifx_cmsis_driver_flash nor_obj nor_cy) (flash_info nor_obj) (ifx_size nor_obj) (ifx_flash_ok nor_obj nor_cy) (flash_cfg nor_cfg) (dev nor_ctx)"
    unfolding nor_ok_def nor_flash_ok by (simp add: nor_cfg_def nor_flash_ok)
  show "cfg_ok nor_cfg" "max_alignment nor_cfg = 1" "2 \<le> max_num_files nor_cfg" "erase_val (flash_cfg nor_cfg) \<notin> {1, 2}"
    by (simp_all add: nor_cfg_def cfg_ok_def cfg_typed_def meta_end_def fm_pos_def n_lblocks_def)
qed (simp_all add: nor_cfg_def wit_info_def its_fs_flag_consts)

section \<open>The buffers of the NAND driver\<close>

text \<open>
  Writes through the NAND driver are seen at once and kept by a flush: when the block is buffered or a
  buffer is free, the write succeeds, a read returns what was written, and after the flush the flash itself
  holds it and a buffer is free again; the contents of every other block stay as they are throughout.
\<close>
theorem its_nand_write_flush_read:
  assumes "nand_ok (ifx_cmsis_driver_flash obj cy) (flash_info obj) (ifx_size obj) (ifx_flash_ok obj cy) cfg n"
    and "b < num_blocks cfg" "off + k \<le> block_size cfg" "0 < k" "k \<le> length bs" "nand_dirty n b \<or> nand_dirty n ITS_BLOCK_INVALID_ID"
    and "drv = ifx_cmsis_driver_flash obj cy"
  shows "\<exists>n1 n2. its_flash_nand_write cfg b bs off k n = (Inr (), n1) \<and> its_flash_nand_read drv cfg b off k n1 = (Inr (take k bs), n1)
    \<and> its_flash_nand_flush drv cfg b n1 = (Inr (), n2) \<and> its_flash_nand_read drv cfg b off k n2 = (Inr (take k bs), n2)
    \<and> rd (nor_content (ifx_img obj) cfg (nand_flash n2) b) off k = take k bs \<and> nand_dirty n2 ITS_BLOCK_INVALID_ID
    \<and> (\<forall>b' < num_blocks cfg. b' \<noteq> b \<longrightarrow> nand_view (ifx_img obj) cfg n2 b' = nand_view (ifx_img obj) cfg n b')"
proof -
  obtain n1 where n1: "its_flash_nand_write cfg b bs off k n = (Inr (), n1)"
    "nand_ok drv (flash_info obj) (ifx_size obj) (ifx_flash_ok obj cy) cfg n1" "nand_dirty n1 b" "rd (nand_view (ifx_img obj) cfg n1 b) off k = take k bs"
    "\<forall>b' < num_blocks cfg. b' \<noteq> b \<longrightarrow> nand_view (ifx_img obj) cfg n1 b' = nand_view (ifx_img obj) cfg n b'"
    using iff.nand_write_ok[OF assms(1,2,3,5,6)] assms(7) by blast
  obtain n2 where n2: "its_flash_nand_flush drv cfg b n1 = (Inr (), n2)" "nand_ok drv (flash_info obj) (ifx_size obj) (ifx_flash_ok obj cy) cfg n2"
    "nand_dirty n2 ITS_BLOCK_INVALID_ID" "nor_content (ifx_img obj) cfg (nand_flash n2) b = nand_view (ifx_img obj) cfg n1 b"
    "\<forall>b' < num_blocks cfg. nand_view (ifx_img obj) cfg n2 b' = nand_view (ifx_img obj) cfg n1 b'"
    using iff.nand_flush_ok[OF n1(2)[unfolded assms(7)] assms(2) n1(3)] assms(7) by blast
  have r: "its_flash_nand_read drv cfg b off k m = (Inr (rd (nand_view (ifx_img obj) cfg m b) off k), m)"
    if "nand_ok drv (flash_info obj) (ifx_size obj) (ifx_flash_ok obj cy) cfg m" for m
    using iff.nand_read_ok[of obj cy cfg m b off k] that assms by simp
  have "nand_view (ifx_img obj) cfg n2 b = nand_view (ifx_img obj) cfg n1 b" using n2(5) assms(2) by blast
  then show ?thesis using n1 n2 r[OF n1(2)] r[OF n2(2)] assms(2) by (intro exI[of _ n1] exI[of _ n2]) auto
qed

definition nand_dev :: "flash_mem its_flash_nand_dev_t" where
  "nand_dev = \<lparr>nand_flash = (\<lambda>_. 255), nand_sector_size = 256, buf_block_id_0 = 2, buf_block_id_1 = ITS_BLOCK_INVALID_ID,
     write_buf_0 = replicate 256 0, write_buf_1 = replicate 256 0\<rparr>"

theorem its_nand_write_flush_read_witness:
  "\<exists>n1 n2. its_flash_nand_write (flash_cfg nor_cfg) 1 [1, 2, 3] 8 3 nand_dev = (Inr (), n1)
    \<and> its_flash_nand_flush (ifx_cmsis_driver_flash nor_obj nor_cy) (flash_cfg nor_cfg) 1 n1 = (Inr (), n2)
    \<and> rd (nor_content (ifx_img nor_obj) (flash_cfg nor_cfg) (nand_flash n2) 1) 8 3 = [1, 2, 3]"
proof -
  have "nand_ok (ifx_cmsis_driver_flash nor_obj nor_cy) (flash_info nor_obj) (ifx_size nor_obj) (ifx_flash_ok nor_obj nor_cy) (flash_cfg nor_cfg) nand_dev"
    unfolding nand_ok_def nor_flash_ok by (simp add: nor_cfg_def nor_flash_ok nand_dev_def ITS_BLOCK_INVALID_ID_def)
  moreover have "1 < num_blocks (flash_cfg nor_cfg)" "8 + 3 \<le> block_size (flash_cfg nor_cfg)" "nand_dirty nand_dev ITS_BLOCK_INVALID_ID"
    by (simp_all add: nor_cfg_def nand_dirty_def nand_dev_def)
  ultimately show ?thesis
    using its_nand_write_flush_read[of nor_obj nor_cy "flash_cfg nor_cfg" nand_dev 1 8 3 "[1, 2, 3]"] by (auto simp: numeral_3_eq_3[symmetric])
qed

end
