(* ===== verification/FWU_Service.thy ===== *)
theory FWU_Service
  imports SPM_State
begin

text \<open>
  The Firmware Update service: the request manager tfm_fwu_req_mngr.c
  (src/secure_fw/partitions/firmware_update), with the types of psa/update.h, without memory-mapped
  vectors. The boot loader is behind the interface tfm_bootloader_fwu_abstraction.h: its operations
  are fields of the environment, on a state of their own. A result \<open>None\<close> means that the call does
  not return.
\<close>

section \<open>Data\<close>

datatype psa_fwu_state = PSA_FWU_READY | PSA_FWU_WRITING | PSA_FWU_CANDIDATE | PSA_FWU_STAGED | PSA_FWU_FAILED
  | PSA_FWU_TRIAL | PSA_FWU_REJECTED | PSA_FWU_UPDATED

definition PSA_SUCCESS_REBOOT :: psa_status_t where [spm_simps]: "PSA_SUCCESS_REBOOT = 1"
definition PSA_SUCCESS_RESTART :: psa_status_t where [spm_simps]: "PSA_SUCCESS_RESTART = 2"
definition PSA_ERROR_DEPENDENCY_NEEDED :: psa_status_t where [spm_simps]: "PSA_ERROR_DEPENDENCY_NEEDED = -156"

record psa_fwu_image_version_t =
  ver_major :: byte
  ver_minor :: byte
  ver_patch :: nat
  ver_build :: nat

record psa_fwu_component_info_t =
  info_state :: psa_fwu_state
  info_error :: psa_status_t
  info_version :: psa_fwu_image_version_t
  info_max_size :: nat
  info_flags :: u32
  info_location :: nat
  info_digest :: "byte list"

record tfm_fwu_ctx_t =
  fwu_error :: psa_status_t
  component_state :: psa_fwu_state
  in_use :: bool

record ('b, 'r) fwu_state =
  fwu_ctx :: "tfm_fwu_ctx_t list"
  boot :: 'b       \<comment> \<open>the state of the boot loader interface\<close>
  fwu_req :: 'r    \<comment> \<open>the request being served\<close>

text \<open>
  The environment: the boot loader, the vectors of the request, the constants of the build and the
  initial contents of local variables that the code does not initialise. An output parameter of the
  boot loader is an argument and a result; the installation, which walks through the image, may not
  return. \<open>fwu_info_bytes\<close> is the representation of the information
  structure in memory.
\<close>

record ('b, 'r) fwu_env =
  bl_get_image_info :: "nat \<Rightarrow> bool \<Rightarrow> bool \<Rightarrow> psa_fwu_component_info_t \<Rightarrow> 'b \<Rightarrow> (psa_status_t \<times> psa_fwu_component_info_t) \<times> 'b"
  bl_staging_area_init :: "nat \<Rightarrow> byte list \<Rightarrow> nat \<Rightarrow> 'b \<Rightarrow> psa_status_t \<times> 'b"
  bl_load_image :: "nat \<Rightarrow> nat \<Rightarrow> byte list \<Rightarrow> 'b \<Rightarrow> psa_status_t \<times> 'b"
  bl_install_image :: "nat list \<Rightarrow> 'b \<Rightarrow> (psa_status_t \<times> 'b) option"
  bl_mark_image_accepted :: "nat list \<Rightarrow> 'b \<Rightarrow> psa_status_t \<times> 'b"
  bl_reject_staged_image :: "nat \<Rightarrow> 'b \<Rightarrow> psa_status_t \<times> 'b"
  bl_reject_trial_image :: "nat \<Rightarrow> 'b \<Rightarrow> psa_status_t \<times> 'b"
  bl_clean_component :: "nat \<Rightarrow> 'b \<Rightarrow> psa_status_t \<times> 'b"
  bl_init :: "'b \<Rightarrow> psa_status_t \<times> 'b"
  bl_system_reset :: "'b \<Rightarrow> 'b"
  fwu_psa_read :: "nat \<Rightarrow> nat \<Rightarrow> 'r \<Rightarrow> (byte list \<times> 'r) option"
  fwu_psa_write :: "nat \<Rightarrow> byte list \<Rightarrow> 'r \<Rightarrow> 'r option"
  FWU_COMPONENT_NUMBER :: nat
  TFM_CONFIG_FWU_MAX_MANIFEST_SIZE :: u32
  PSA_FWU_MAX_WRITE_SIZE :: u32
  TFM_FWU_BUF_SIZE :: nat
  FWU_SUPPORT_TRIAL_STATE :: bool
  sizeof_fwu_info :: u32
  fwu_info_bytes :: "psa_fwu_component_info_t \<Rightarrow> byte list"
  stack_info :: psa_fwu_component_info_t
  stack_bytes :: "byte list"

type_synonym ('b, 'r, 'a) fwu = "('b, 'r) fwu_state \<Rightarrow> ('a \<times> ('b, 'r) fwu_state) option"

definition TFM_FWU_START :: int where "TFM_FWU_START = 1001"
definition TFM_FWU_WRITE :: int where "TFM_FWU_WRITE = 1002"
definition TFM_FWU_FINISH :: int where "TFM_FWU_FINISH = 1003"
definition TFM_FWU_CANCEL :: int where "TFM_FWU_CANCEL = 1004"
definition TFM_FWU_INSTALL :: int where "TFM_FWU_INSTALL = 1005"
definition TFM_FWU_CLEAN :: int where "TFM_FWU_CLEAN = 1006"
definition TFM_FWU_REJECT :: int where "TFM_FWU_REJECT = 1007"
definition TFM_FWU_ACCEPT :: int where "TFM_FWU_ACCEPT = 1009"
definition TFM_FWU_QUERY :: int where "TFM_FWU_QUERY = 1010"
definition TFM_FWU_REQUEST_REBOOT :: int where "TFM_FWU_REQUEST_REBOOT = 1008"

lemmas fwu_types = TFM_FWU_START_def TFM_FWU_WRITE_def TFM_FWU_FINISH_def TFM_FWU_CANCEL_def TFM_FWU_INSTALL_def TFM_FWU_CLEAN_def
  TFM_FWU_REJECT_def TFM_FWU_ACCEPT_def TFM_FWU_QUERY_def TFM_FWU_REQUEST_REBOOT_def

section \<open>Helpers\<close>

definition comp_ctx :: "('b, 'r) fwu_state \<Rightarrow> nat \<Rightarrow> tfm_fwu_ctx_t" where
  "comp_ctx s c = fwu_ctx s ! c"

definition set_comp :: "nat \<Rightarrow> (tfm_fwu_ctx_t \<Rightarrow> tfm_fwu_ctx_t) \<Rightarrow> ('b, 'r) fwu_state \<Rightarrow> ('b, 'r) fwu_state" where
  "set_comp c f s = s\<lparr>fwu_ctx := (fwu_ctx s)[c := f (fwu_ctx s ! c)]\<rparr>"

text \<open>A call of the boot loader, and the query of a component's state.\<close>

definition bl_call :: "('b \<Rightarrow> 'a \<times> 'b) \<Rightarrow> ('b, 'r) fwu_state \<Rightarrow> 'a \<times> ('b, 'r) fwu_state" where
  "bl_call f s = (case f (boot s) of (r, b) \<Rightarrow> (r, s\<lparr>boot := b\<rparr>))"

text \<open>\<open>psa_read\<close> into a local variable of \<open>n\<close> bytes; what is not read keeps its old contents.\<close>

definition read_local :: "('b, 'r) fwu_env \<Rightarrow> nat \<Rightarrow> nat \<Rightarrow> ('b, 'r, byte list) fwu" where
  "read_local env i n s =
     Option.bind (fwu_psa_read env i n (fwu_req s)) (\<lambda>(bs, r).
       Some (take n (bs @ drop (length bs) (stack_bytes env)), s\<lparr>fwu_req := r\<rparr>))"

definition read_component :: "('b, 'r) fwu_env \<Rightarrow> ('b, 'r, nat) fwu" where
  "read_component env s = Option.bind (read_local env 0 1 s) (\<lambda>(bs, s). Some (unat (bs ! 0), s))"

definition status_of :: "byte list \<Rightarrow> psa_status_t" where
  "status_of bs = (if de32 bs < 2 ^ 31 then int (de32 bs) else int (de32 bs) - 2 ^ 32)"

section \<open>Requests\<close>

definition tfm_fwu_start :: "('b, 'r) fwu_env \<Rightarrow> psa_msg_t \<Rightarrow> ('b, 'r, psa_status_t) fwu" where
  "tfm_fwu_start env m s =
     (if in_size m ! 0 \<noteq> 1 then Some (psa_error_code PSA_ERROR_PROGRAMMER_ERROR, s)
      else if in_size m ! 1 > TFM_CONFIG_FWU_MAX_MANIFEST_SIZE env then Some (psa_error_code PSA_ERROR_NOT_SUPPORTED, s)
      else do {
        (component, s) \<leftarrow> read_component env s;
        if component \<ge> FWU_COMPONENT_NUMBER env then Some (psa_error_code PSA_ERROR_DOES_NOT_EXIST, s)
        else do {
          let manifest_size = unat (in_size m ! 1);
          (manifest, s) \<leftarrow> (if manifest_size > 0 then read_local env 1 manifest_size s else Some ([], s));
          if in_use (comp_ctx s component) then
            (if component_state (comp_ctx s component) \<noteq> PSA_FWU_READY then Some (psa_error_code PSA_ERROR_BAD_STATE, s)
             else Some (PSA_SUCCESS, s))
          else case bl_call (bl_get_image_info env component True False (stack_info env)) s of
            ((status, info), s) \<Rightarrow>
              if status \<noteq> PSA_SUCCESS then Some (status, s)
              else if info_state info \<noteq> PSA_FWU_READY then Some (psa_error_code PSA_ERROR_BAD_STATE, s)
              else case bl_call (bl_staging_area_init env component manifest manifest_size) s of
                (status, s) \<Rightarrow>
                  if status \<noteq> PSA_SUCCESS then Some (status, s)
                  else Some (PSA_SUCCESS, set_comp component (\<lambda>c. c\<lparr>in_use := True, component_state := PSA_FWU_WRITING\<rparr>) s)
        }
      })"

text \<open>The loop of \<open>tfm_fwu_write\<close>: the image goes through \<open>block\<close>, a buffer of fixed size.\<close>

partial_function (option) fwu_write_loop :: "('b, 'r) fwu_env \<Rightarrow> nat \<Rightarrow> nat \<Rightarrow> nat \<Rightarrow> psa_status_t \<Rightarrow> ('b, 'r, psa_status_t) fwu" where
  "fwu_write_loop env component image_offset block_size status s =
     (if block_size > 0 then
        let write_size = (if TFM_FWU_BUF_SIZE env \<le> block_size then TFM_FWU_BUF_SIZE env else block_size) in
        Option.bind (fwu_psa_read env 2 write_size (fwu_req s)) (\<lambda>(bs, r).
          let s = s\<lparr>fwu_req := r\<rparr> in
          if length bs \<noteq> write_size then Some (psa_error_code PSA_ERROR_PROGRAMMER_ERROR, s)
          else case bl_call (bl_load_image env component image_offset bs) s of
            (status, s) \<Rightarrow>
              if status \<noteq> PSA_SUCCESS then Some (status, s)
              else fwu_write_loop env component (add32 image_offset write_size) (sub32 block_size write_size) status s)
      else Some (status, s))"

definition tfm_fwu_write :: "('b, 'r) fwu_env \<Rightarrow> psa_msg_t \<Rightarrow> ('b, 'r, psa_status_t) fwu" where
  "tfm_fwu_write env m s =
     (if in_size m ! 2 > PSA_FWU_MAX_WRITE_SIZE env then Some (psa_error_code PSA_ERROR_INVALID_ARGUMENT, s)
      else if in_size m ! 0 \<noteq> 1 \<or> in_size m ! 1 \<noteq> 4 then Some (psa_error_code PSA_ERROR_PROGRAMMER_ERROR, s)
      else do {
        (component, s) \<leftarrow> read_component env s;
        if component \<ge> FWU_COMPONENT_NUMBER env then Some (psa_error_code PSA_ERROR_DOES_NOT_EXIST, s)
        else do {
          (image_offset, s) \<leftarrow> read_local env 1 4 s;
          if \<not> in_use (comp_ctx s component) \<or> component_state (comp_ctx s component) \<noteq> PSA_FWU_WRITING
          then Some (psa_error_code PSA_ERROR_BAD_STATE, s)
          else fwu_write_loop env component (de32 image_offset) (unat (in_size m ! 2)) PSA_SUCCESS s
        }
      })"

definition tfm_fwu_finish :: "('b, 'r) fwu_env \<Rightarrow> psa_msg_t \<Rightarrow> ('b, 'r, psa_status_t) fwu" where
  "tfm_fwu_finish env m s =
     (if in_size m ! 0 \<noteq> 1 then Some (psa_error_code PSA_ERROR_PROGRAMMER_ERROR, s)
      else do {
        (component, s) \<leftarrow> read_component env s;
        if component \<ge> FWU_COMPONENT_NUMBER env then Some (psa_error_code PSA_ERROR_DOES_NOT_EXIST, s)
        else if \<not> in_use (comp_ctx s component) \<or> component_state (comp_ctx s component) \<noteq> PSA_FWU_WRITING
        then Some (psa_error_code PSA_ERROR_BAD_STATE, s)
        else Some (PSA_SUCCESS, set_comp component (\<lambda>c. c\<lparr>component_state := PSA_FWU_CANDIDATE\<rparr>) s)
      })"

text \<open>The scan of \<open>tfm_fwu_install\<close>: an error, or the candidates.\<close>

fun fwu_install_scan :: "('b, 'r) fwu_env \<Rightarrow> nat list \<Rightarrow> nat list \<Rightarrow> ('b, 'r) fwu_state \<Rightarrow> (psa_status_t + nat list) \<times> ('b, 'r) fwu_state" where
  "fwu_install_scan env [] candidates s = (Inr candidates, s)"
| "fwu_install_scan env (component # comps) candidates s =
     (if in_use (comp_ctx s component) then
        if component_state (comp_ctx s component) = PSA_FWU_STAGED \<or> component_state (comp_ctx s component) = PSA_FWU_REJECTED
        then (Inl (psa_error_code PSA_ERROR_BAD_STATE), s)
        else if component_state (comp_ctx s component) = PSA_FWU_CANDIDATE
        then fwu_install_scan env comps (candidates @ [component]) s
        else fwu_install_scan env comps candidates s
      else case bl_call (bl_get_image_info env component True False (stack_info env)) s of
        ((status, info), s) \<Rightarrow>
          if status \<noteq> PSA_SUCCESS then (Inl status, s)
          else if info_state info = PSA_FWU_TRIAL then (Inl (psa_error_code PSA_ERROR_BAD_STATE), s)
          else fwu_install_scan env comps candidates s)"

text \<open>The state of a candidate after the installation.\<close>

definition fwu_installed :: "('b, 'r) fwu_env \<Rightarrow> psa_status_t \<Rightarrow> tfm_fwu_ctx_t \<Rightarrow> tfm_fwu_ctx_t" where
  "fwu_installed env status c =
     (if status = PSA_SUCCESS
      then c\<lparr>component_state := (if FWU_SUPPORT_TRIAL_STATE env then PSA_FWU_TRIAL else PSA_FWU_UPDATED)\<rparr>
      else if status \<noteq> PSA_SUCCESS_REBOOT \<and> status \<noteq> PSA_SUCCESS_RESTART
      then c\<lparr>component_state := PSA_FWU_FAILED, fwu_error := status\<rparr>
      else c\<lparr>component_state := PSA_FWU_STAGED\<rparr>)"

definition tfm_fwu_install :: "('b, 'r) fwu_env \<Rightarrow> ('b, 'r, psa_status_t) fwu" where
  "tfm_fwu_install env s =
     (case fwu_install_scan env [0..<FWU_COMPONENT_NUMBER env] [] s of
        (Inl status, s) \<Rightarrow> Some (status, s)
      | (Inr candidates, s) \<Rightarrow>
          if candidates = [] then Some (psa_error_code PSA_ERROR_BAD_STATE, s)
          else Option.bind (bl_install_image env candidates (boot s)) (\<lambda>(status, b).
            let s = s\<lparr>boot := b\<rparr> in
            if status = PSA_ERROR_DEPENDENCY_NEEDED then Some (status, s)
            else Some (status, foldl (\<lambda>s c. set_comp c (fwu_installed env status) s) s candidates)))"

definition tfm_fwu_query :: "('b, 'r) fwu_env \<Rightarrow> psa_msg_t \<Rightarrow> ('b, 'r, psa_status_t) fwu" where
  "tfm_fwu_query env m s =
     (if in_size m ! 0 \<noteq> 1 \<or> out_size m ! 0 \<noteq> sizeof_fwu_info env then Some (psa_error_code PSA_ERROR_PROGRAMMER_ERROR, s)
      else do {
        (component, s) \<leftarrow> read_component env s;
        if component \<ge> FWU_COMPONENT_NUMBER env then Some (psa_error_code PSA_ERROR_DOES_NOT_EXIST, s)
        else do {
          let ctx = comp_ctx s component;
          let query_state = (\<not> in_use ctx);
          let query_impl_info = (in_use ctx \<and> component_state ctx = PSA_FWU_CANDIDATE);
          let info = (if in_use ctx then (stack_info env)\<lparr>info_state := component_state ctx\<rparr> else stack_info env);
          let info = (if in_use ctx \<and> (component_state ctx = PSA_FWU_REJECTED \<or> component_state ctx = PSA_FWU_FAILED)
                      then info\<lparr>info_error := fwu_error ctx\<rparr> else info);
          (case bl_call (bl_get_image_info env component query_state query_impl_info info) s of
             ((result, info), s) \<Rightarrow>
               if result = PSA_SUCCESS
               then Option.bind (fwu_psa_write env 0 (fwu_info_bytes env info) (fwu_req s)) (\<lambda>r. Some (result, s\<lparr>fwu_req := r\<rparr>))
               else Some (result, s))
        }
      })"

definition tfm_fwu_request_reboot :: "('b, 'r) fwu_env \<Rightarrow> ('b, 'r, psa_status_t) fwu" where
  "tfm_fwu_request_reboot env s = Some (PSA_SUCCESS, s\<lparr>boot := bl_system_reset env (boot s)\<rparr>)"

text \<open>The scan of \<open>tfm_fwu_accept\<close>: components found in trial get a context.\<close>

fun fwu_accept_scan :: "('b, 'r) fwu_env \<Rightarrow> nat list \<Rightarrow> nat list \<Rightarrow> ('b, 'r) fwu_state \<Rightarrow> (psa_status_t + nat list) \<times> ('b, 'r) fwu_state" where
  "fwu_accept_scan env [] trials s = (Inr trials, s)"
| "fwu_accept_scan env (component # comps) trials s =
     (if in_use (comp_ctx s component) then
        fwu_accept_scan env comps (if component_state (comp_ctx s component) = PSA_FWU_TRIAL then trials @ [component] else trials) s
      else case bl_call (bl_get_image_info env component True False (stack_info env)) s of
        ((status, info), s) \<Rightarrow>
          if status \<noteq> PSA_SUCCESS then (Inl status, s)
          else if info_state info = PSA_FWU_TRIAL
          then fwu_accept_scan env comps (trials @ [component])
                 (set_comp component (\<lambda>c. c\<lparr>in_use := True, component_state := PSA_FWU_TRIAL\<rparr>) s)
          else fwu_accept_scan env comps trials s)"

definition tfm_fwu_accept :: "('b, 'r) fwu_env \<Rightarrow> ('b, 'r, psa_status_t) fwu" where
  "tfm_fwu_accept env s =
     (if \<not> FWU_SUPPORT_TRIAL_STATE env then Some (psa_error_code PSA_ERROR_NOT_SUPPORTED, s)
      else case fwu_accept_scan env [0..<FWU_COMPONENT_NUMBER env] [] s of
        (Inl status, s) \<Rightarrow> Some (status, s)
      | (Inr trials, s) \<Rightarrow>
          if trials = [] then Some (psa_error_code PSA_ERROR_BAD_STATE, s)
          else case bl_call (bl_mark_image_accepted env trials) s of
            (status, s) \<Rightarrow>
              if status \<noteq> PSA_SUCCESS then Some (status, s)
              else Some (status, foldl (\<lambda>s c. set_comp c (\<lambda>x. x\<lparr>component_state := PSA_FWU_UPDATED\<rparr>) s) s trials))"

text \<open>
  The loop of \<open>tfm_fwu_reject\<close>: the status so far, whether a component was found, and the state; \<open>Inl\<close>
  is an early return.
\<close>

definition fwu_reject_trial :: "('b, 'r) fwu_env \<Rightarrow> psa_status_t \<Rightarrow> nat \<Rightarrow> ('b, 'r) fwu_state \<Rightarrow> (psa_status_t + psa_status_t) \<times> ('b, 'r) fwu_state" where
  "fwu_reject_trial env err component s =
     (case bl_call (bl_reject_trial_image env component) s of
        (status, s) \<Rightarrow>
          if status = PSA_SUCCESS_REBOOT \<or> status = PSA_SUCCESS_RESTART
          then (Inr status, set_comp component (\<lambda>c. c\<lparr>component_state := PSA_FWU_REJECTED, fwu_error := err\<rparr>) s)
          else if status = PSA_SUCCESS
          then (Inr status, set_comp component (\<lambda>c. c\<lparr>component_state := PSA_FWU_FAILED, fwu_error := err\<rparr>) s)
          else (Inl status, s))"

fun fwu_reject_loop :: "('b, 'r) fwu_env \<Rightarrow> psa_status_t \<Rightarrow> nat list \<Rightarrow> psa_status_t \<Rightarrow> bool \<Rightarrow> ('b, 'r) fwu_state
    \<Rightarrow> (psa_status_t + psa_status_t \<times> bool) \<times> ('b, 'r) fwu_state" where
  "fwu_reject_loop env err [] status found s = (Inr (status, found), s)"
| "fwu_reject_loop env err (component # comps) status found s =
     (if in_use (comp_ctx s component) then
        if component_state (comp_ctx s component) = PSA_FWU_STAGED then
          case bl_call (bl_reject_staged_image env component)
                 (set_comp component (\<lambda>c. c\<lparr>component_state := PSA_FWU_FAILED, fwu_error := err\<rparr>) s) of
            (status, s) \<Rightarrow>
              if status \<noteq> PSA_SUCCESS then (Inl status, s) else fwu_reject_loop env err comps status True s
        else if component_state (comp_ctx s component) = PSA_FWU_TRIAL then
          case fwu_reject_trial env err component s of
            (Inl status, s) \<Rightarrow> (Inl status, s)
          | (Inr status, s) \<Rightarrow> fwu_reject_loop env err comps status True s
        else fwu_reject_loop env err comps status found s
      else case bl_call (bl_get_image_info env component True False (stack_info env)) s of
        ((status, info), s) \<Rightarrow>
          if status \<noteq> PSA_SUCCESS then (Inl status, s)
          else if info_state info = PSA_FWU_TRIAL then
            case fwu_reject_trial env err component
                   (set_comp component (\<lambda>c. c\<lparr>in_use := True, component_state := PSA_FWU_TRIAL\<rparr>) s) of
              (Inl status, s) \<Rightarrow> (Inl status, s)
            | (Inr status, s) \<Rightarrow> fwu_reject_loop env err comps status True s
          else fwu_reject_loop env err comps status found s)"

definition tfm_fwu_reject :: "('b, 'r) fwu_env \<Rightarrow> psa_msg_t \<Rightarrow> ('b, 'r, psa_status_t) fwu" where
  "tfm_fwu_reject env m s =
     (if in_size m ! 0 \<noteq> 4 then Some (psa_error_code PSA_ERROR_PROGRAMMER_ERROR, s)
      else Option.bind (fwu_psa_read env 0 4 (fwu_req s)) (\<lambda>(bs, r).
        let s = s\<lparr>fwu_req := r\<rparr> in
        if length bs \<noteq> 4 then Some (psa_error_code PSA_ERROR_PROGRAMMER_ERROR, s)
        else case fwu_reject_loop env (status_of bs) [0..<FWU_COMPONENT_NUMBER env] PSA_SUCCESS False s of
          (Inl status, s) \<Rightarrow> Some (status, s)
        | (Inr (status, found), s) \<Rightarrow>
            if \<not> found then Some (psa_error_code PSA_ERROR_BAD_STATE, s) else Some (status, s)))"

definition tfm_fwu_cancel :: "('b, 'r) fwu_env \<Rightarrow> psa_msg_t \<Rightarrow> ('b, 'r, psa_status_t) fwu" where
  "tfm_fwu_cancel env m s =
     (if in_size m ! 0 \<noteq> 1 then Some (psa_error_code PSA_ERROR_PROGRAMMER_ERROR, s)
      else do {
        (component, s) \<leftarrow> read_component env s;
        if component \<ge> FWU_COMPONENT_NUMBER env then Some (psa_error_code PSA_ERROR_DOES_NOT_EXIST, s)
        else if in_use (comp_ctx s component) then
          (if component_state (comp_ctx s component) = PSA_FWU_WRITING \<or> component_state (comp_ctx s component) = PSA_FWU_CANDIDATE
           then Some (PSA_SUCCESS, set_comp component (\<lambda>c. c\<lparr>component_state := PSA_FWU_FAILED, fwu_error := PSA_SUCCESS\<rparr>) s)
           else Some (psa_error_code PSA_ERROR_BAD_STATE, s))
        else Some (psa_error_code PSA_ERROR_BAD_STATE, s)
      })"

definition tfm_fwu_clean :: "('b, 'r) fwu_env \<Rightarrow> psa_msg_t \<Rightarrow> ('b, 'r, psa_status_t) fwu" where
  "tfm_fwu_clean env m s =
     (if in_size m ! 0 \<noteq> 1 then Some (psa_error_code PSA_ERROR_PROGRAMMER_ERROR, s)
      else do {
        (component, s) \<leftarrow> read_component env s;
        if component \<ge> FWU_COMPONENT_NUMBER env then Some (psa_error_code PSA_ERROR_DOES_NOT_EXIST, s)
        else if in_use (comp_ctx s component) then
          (if component_state (comp_ctx s component) = PSA_FWU_FAILED \<or> component_state (comp_ctx s component) = PSA_FWU_UPDATED
           then case bl_call (bl_clean_component env component) s of
             (status, s) \<Rightarrow>
               if status \<noteq> PSA_SUCCESS then Some (status, s)
               else Some (PSA_SUCCESS, set_comp component (\<lambda>c. c\<lparr>component_state := PSA_FWU_READY, in_use := False\<rparr>) s)
           else Some (psa_error_code PSA_ERROR_BAD_STATE, s))
        else Some (psa_error_code PSA_ERROR_BAD_STATE, s)
      })"

definition tfm_firmware_update_service_sfn :: "('b, 'r) fwu_env \<Rightarrow> psa_msg_t \<Rightarrow> ('b, 'r, psa_status_t) fwu" where
  "tfm_firmware_update_service_sfn env m s =
     (if msg_type m = TFM_FWU_START then tfm_fwu_start env m s
      else if msg_type m = TFM_FWU_WRITE then tfm_fwu_write env m s
      else if msg_type m = TFM_FWU_FINISH then tfm_fwu_finish env m s
      else if msg_type m = TFM_FWU_INSTALL then tfm_fwu_install env s
      else if msg_type m = TFM_FWU_CANCEL then tfm_fwu_cancel env m s
      else if msg_type m = TFM_FWU_CLEAN then tfm_fwu_clean env m s
      else if msg_type m = TFM_FWU_QUERY then tfm_fwu_query env m s
      else if msg_type m = TFM_FWU_REQUEST_REBOOT then tfm_fwu_request_reboot env s
      else if msg_type m = TFM_FWU_ACCEPT then tfm_fwu_accept env s
      else if msg_type m = TFM_FWU_REJECT then tfm_fwu_reject env m s
      else Some (psa_error_code PSA_ERROR_NOT_SUPPORTED, s))"

definition tfm_fwu_entry :: "('b, 'r) fwu_env \<Rightarrow> ('b, 'r, psa_status_t) fwu" where
  "tfm_fwu_entry env s =
     (case bl_call (bl_init env) s of
        (status, s) \<Rightarrow> if status \<noteq> 0 then Some (psa_error_code PSA_ERROR_GENERIC_ERROR, s) else Some (PSA_SUCCESS, s))"

end
