(* ===== verification/BL2_Flash_Map.thy ===== *)
theory BL2_Flash_Map
  imports ITS_Utils IFX_RRAM
begin

text \<open>
  The flash map of the boot loader and of the Firmware Update partition (bl2/src/flash_map.c): areas of
  a flash device, read, programmed and erased at any offset over a CMSIS driver, without DMA. The
  helper \<open>boot_u32_safe_add\<close> of MCUboot is a parameter.
\<close>

section \<open>Definitions\<close>

record 'd flash_area =
  fa_id :: nat
  fa_driver :: "'d ARM_DRIVER_FLASH"
  fa_off :: nat
  fa_size :: nat

record 'd flash_map_env =
  flash_map :: "'d flash_area list"
  flash_driver :: "'d ARM_DRIVER_FLASH list"
  FLASH_PROGRAM_UNIT :: nat
  boot_u32_safe_add :: "nat \<Rightarrow> nat \<Rightarrow> nat option"

definition FLOOR_ALIGN :: "nat \<Rightarrow> nat \<Rightarrow> nat" where
  "FLOOR_ALIGN v a = unat ((word_of_nat v :: 32 word) AND NOT (word_of_nat a - 1))"

definition CEILING_ALIGN :: "nat \<Rightarrow> nat \<Rightarrow> nat" where
  "CEILING_ALIGN v a = unat (((word_of_nat v :: 32 word) + (word_of_nat a - 1)) AND NOT (word_of_nat a - 1))"

definition is_range_valid :: "'d flash_map_env \<Rightarrow> 'd flash_area \<Rightarrow> nat \<Rightarrow> nat \<Rightarrow> bool" where
  "is_range_valid env area off len =
     (case boot_u32_safe_add env off len of None \<Rightarrow> False | Some n \<Rightarrow> \<not> fa_size area < n)"

fun flash_driver_inits :: "'d ARM_DRIVER_FLASH list \<Rightarrow> 'd \<Rightarrow> int \<times> 'd" where
  "flash_driver_inits [] d = (0, d)"
| "flash_driver_inits (drv # drvs) d =
     (case drv_Initialize drv d of (err, d) \<Rightarrow> if err \<noteq> ARM_DRIVER_OK then (-1, d) else flash_driver_inits drvs d)"

definition flash_area_driver_init :: "'d flash_map_env \<Rightarrow> 'd \<Rightarrow> int \<times> 'd" where
  "flash_area_driver_init env d = flash_driver_inits (flash_driver env) d"

definition flash_area_open :: "'d flash_map_env \<Rightarrow> nat \<Rightarrow> 'd flash_area option" where
  "flash_area_open env fid = find (\<lambda>a. fid = fa_id a) (flash_map env)"

text \<open>
  \<open>flash_area_read\<close> returns the status and the bytes stored through \<open>dst\<close>: the part before the first
  aligned item, the whole items, and the last part.
\<close>

definition flash_area_read :: "'d flash_map_env \<Rightarrow> 'd flash_area \<Rightarrow> nat \<Rightarrow> nat \<Rightarrow> 'd \<Rightarrow> (int \<times> byte list) \<times> 'd" where
  "flash_area_read env area off len d =
     (if \<not> is_range_valid env area off len then ((-1, []), d)
      else
        let drv = fa_driver area; data_width = data_width_byte ! drv_data_width drv; aligned_off = FLOOR_ALIGN off data_width in
        case (if aligned_off \<noteq> off then
                case drv_ReadData drv (add32 (fa_off area) aligned_off) 1 d of
                  ((ret, temp), d) \<Rightarrow>
                    if ret < 0 then ((ret, []), d)
                    else let read_length = (if add32 (off - aligned_off) len \<ge> data_width then data_width - (off - aligned_off) else len)
                         in ((0, rd temp (off - aligned_off) read_length), d)
              else ((0, []), d)) of
          ((ret, b1), d) \<Rightarrow>
            if ret < 0 then ((ret, b1), d)
            else
              let i = length b1; remaining_len = len - i; item_number = remaining_len div data_width in
              case (if item_number \<noteq> 0 then drv_ReadData drv (add32 (add32 (fa_off area) off) i) item_number d else ((0, []), d)) of
                ((ret, b2), d) \<Rightarrow>
                  if ret < 0 then ((ret, b1), d)
                  else
                    let remaining_len = remaining_len - item_number * data_width in
                    if remaining_len \<noteq> 0 then
                      case drv_ReadData drv (add32 (add32 (add32 (fa_off area) off) i) (mul32 item_number data_width)) 1 d of
                        ((ret, temp), d) \<Rightarrow>
                          if ret < 0 then ((ret, b1 @ b2), d) else ((0, b1 @ b2 @ take remaining_len temp), d)
                    else ((0, b1 @ b2), d))"

text \<open>One call of \<open>ProgramData\<close>: failure is a negative result.\<close>

definition area_program :: "'d flash_area \<Rightarrow> nat \<Rightarrow> byte list \<Rightarrow> nat \<Rightarrow> 'd \<Rightarrow> bool \<times> 'd" where
  "area_program area addr data cnt d = (case drv_ProgramData (fa_driver area) addr data cnt d of (r, d) \<Rightarrow> (\<not> r < 0, d))"

text \<open>
  The first, unaligned unit of a write: the bytes before the offset are those read from the flash, then
  the data, then (when the data ends in this unit) what is behind it. Returns the number of data bytes
  programmed, or \<open>None\<close> for the error.
\<close>

definition write_first_unit :: "'d flash_map_env \<Rightarrow> 'd flash_area \<Rightarrow> nat \<Rightarrow> byte list \<Rightarrow> nat \<Rightarrow> nat \<Rightarrow> byte list \<Rightarrow> byte list \<Rightarrow> 'd
    \<Rightarrow> nat option \<times> 'd" where
  "write_first_unit env area data_width src len aligned_off add_padding len_padding d =
     (let u = FLASH_PROGRAM_UNIT env; n = min (u - length add_padding) len; buf = add_padding @ take n src
      in if n = len \<and> min (u - length buf) (length len_padding) \<noteq> length len_padding then (None, d)
         else
           let buf = (if n = len then buf @ len_padding else buf)
           in if length buf \<noteq> u then (None, d)
              else case area_program area (add32 (fa_off area) aligned_off) buf (u div data_width) d of
                (ok, d) \<Rightarrow> (if ok then Some n else None, d))"

text \<open>The last unit: the remaining data and what is behind it.\<close>

definition write_last_unit :: "'d flash_map_env \<Rightarrow> 'd flash_area \<Rightarrow> nat \<Rightarrow> byte list \<Rightarrow> nat \<Rightarrow> nat \<Rightarrow> nat \<Rightarrow> nat \<Rightarrow> nat \<Rightarrow> byte list \<Rightarrow> 'd
    \<Rightarrow> int \<times> 'd" where
  "write_last_unit env area data_width src len off add_padding_size aligned_len last_unit_start_off len_padding d =
     (let u = FLASH_PROGRAM_UNIT env; n = min u (len - last_unit_start_off); buf = rd src last_unit_start_off n
      in if last_unit_start_off + n \<noteq> len then (-1, d)
         else
           let k = min (u - n) (length len_padding); buf = buf @ take k len_padding; write_size = add32 (add32 add_padding_size last_unit_start_off) u
           in if n + k \<noteq> u \<or> k \<noteq> length len_padding \<or> aligned_len \<noteq> write_size then (-1, d)
              else case area_program area (add32 (add32 (fa_off area) off) last_unit_start_off) buf (u div data_width) d of
                (ok, d) \<Rightarrow> (if ok then 0 else -1, d))"

definition flash_area_write :: "'d flash_map_env \<Rightarrow> 'd flash_area \<Rightarrow> nat \<Rightarrow> byte list \<Rightarrow> nat \<Rightarrow> 'd \<Rightarrow> int \<times> 'd" where
  "flash_area_write env area off src len d =
     (let u = FLASH_PROGRAM_UNIT env; aligned_off = FLOOR_ALIGN off u; add_padding_size = sub32 off aligned_off in
      if \<not> is_range_valid env area off len then (-1, d)
      else
        let data_width = data_width_byte ! drv_data_width (fa_driver area) in
        case (if u \<noteq> 0 then flash_area_read env area aligned_off add_padding_size d else ((0, []), d)) of
          ((r, add_padding), d) \<Rightarrow>
            if r \<noteq> 0 then (-1, d)
            else
              let aligned_len = CEILING_ALIGN (add32 len add_padding_size) u; len_padding_size = sub32 (sub32 aligned_len len) add_padding_size in
              if \<not> is_range_valid env area aligned_off aligned_len then (-1, d)
              else case flash_area_read env area (add32 off len) len_padding_size d of
                ((r, len_padding), d) \<Rightarrow>
                  if r \<noteq> 0 then (-1, d)
                  else case (if add_padding_size \<noteq> 0 then write_first_unit env area data_width src len aligned_off add_padding len_padding d else (Some 0, d)) of
                    (None, d) \<Rightarrow> (-1, d)
                  | (Some src_written_idx, d) \<Rightarrow>
                      if src_written_idx < len then
                        let write_size = FLOOR_ALIGN (len - src_written_idx) u in
                        case (if write_size > 0
                              then area_program area (add32 (add32 (fa_off area) off) src_written_idx) src (write_size div data_width) d
                              else (True, d)) of
                          (ok, d) \<Rightarrow>
                            if \<not> ok then (-1, d)
                            else if len_padding_size \<noteq> 0 then
                              write_last_unit env area data_width src len off add_padding_size aligned_len (src_written_idx + write_size) len_padding d
                            else (0, d)
                      else (0, d))"

text \<open>
  The loop of \<open>flash_area_erase\<close> by its iterations: one for each sector that starts in the range. The
  drivers have a positive sector size (their initialisation refuses zero).
\<close>

fun area_erase_sectors :: "'d flash_area \<Rightarrow> nat \<Rightarrow> nat \<Rightarrow> nat \<Rightarrow> 'd \<Rightarrow> int \<times> 'd" where
  "area_erase_sectors area z off 0 d = (0, d)"
| "area_erase_sectors area z off (Suc n) d =
     (case drv_EraseSector (fa_driver area) (add32 (fa_off area) off) d of
        (rc, d) \<Rightarrow> if rc \<noteq> 0 then (rc, d) else area_erase_sectors area z (add32 off z) n d)"

definition flash_area_erase :: "'d flash_map_env \<Rightarrow> 'd flash_area \<Rightarrow> nat \<Rightarrow> nat \<Rightarrow> 'd \<Rightarrow> int \<times> 'd" where
  "flash_area_erase env area off len d =
     (if \<not> is_range_valid env area off len then (-1, d)
      else case drv_GetInfo (fa_driver area) of
        None \<Rightarrow> (-1, d)
      | Some fi \<Rightarrow>
          if fi_sector_info fi = None
          then area_erase_sectors area (fi_sector_size fi) off ((len + fi_sector_size fi - 1) div fi_sector_size fi) d
          else (0, d))"

definition flash_area_align :: "'d flash_area \<Rightarrow> nat" where
  "flash_area_align area = (case drv_GetInfo (fa_driver area) of Some fi \<Rightarrow> fi_program_unit fi | None \<Rightarrow> 0)"

text \<open>flash_map_extended.c, for a driver that has its information.\<close>

definition flash_area_erased_val :: "'d flash_area \<Rightarrow> byte" where
  "flash_area_erased_val area = (case drv_GetInfo (fa_driver area) of Some fi \<Rightarrow> fi_erased_value fi | None \<Rightarrow> 0)"

definition flash_area_read_is_empty :: "'d flash_map_env \<Rightarrow> 'd flash_area \<Rightarrow> nat \<Rightarrow> nat \<Rightarrow> 'd \<Rightarrow> (int \<times> byte list) \<times> 'd" where
  "flash_area_read_is_empty env area off len d =
     (case flash_area_read env area off len d of
        ((rc, bs), d) \<Rightarrow>
          if rc \<noteq> 0 then ((-1, bs), d)
          else if list_all (\<lambda>b. b = flash_area_erased_val area) bs then ((1, bs), d) else ((0, bs), d))"

section \<open>Alignment\<close>

lemma FLOOR_ALIGN_eq:
  assumes "k < 32" "v < SIZE_MAX_P1"
  shows "FLOOR_ALIGN v (2 ^ k) = v div 2 ^ k * 2 ^ k"
proof -
  have y: "v < 2 ^ 32" using assms(2) by simp
  have "FLOOR_ALIGN v (2 ^ k) = unat (push_bit k (drop_bit k (word_of_nat v :: 32 word)))"
    by (simp only: FLOOR_ALIGN_def word_pow2_minus_1 and_not_mask_eq_push_drop)
  also have "\<dots> = take_bit 32 (push_bit k (drop_bit k v))"
    using assms by (simp add: unsigned_push_bit_eq unsigned_drop_bit_eq unat_of_nat take_bit_nat_eq_self)
  also have "push_bit k (drop_bit k v) = v div 2 ^ k * 2 ^ k" by (simp add: push_bit_eq_mult drop_bit_eq_div)
  also have "take_bit 32 \<dots> = \<dots>" using y by (intro take_bit_nat_eq_self) (meson div_times_less_eq_dividend le_less_trans)
  finally show ?thesis .
qed

lemma CEILING_ALIGN_eq: "k < 32 \<Longrightarrow> v + 2 ^ k \<le> SIZE_MAX_P1 \<Longrightarrow> CEILING_ALIGN v (2 ^ k) = (v + (2 ^ k - 1)) div 2 ^ k * 2 ^ k"
  using ITS_UTILS_ALIGN_eq[of k v] by (simp add: ITS_UTILS_ALIGN_def CEILING_ALIGN_def Let_def)

section \<open>The flash map on a CMSIS driver\<close>

text \<open>
  What is documented of the helper: the sum, when it is below \<open>2 ^ 32\<close>. An area lies in the device and
  starts and ends at a multiple of the program unit, which is a power of two that the driver can
  program.
\<close>

definition safe_add_ok :: "'d flash_map_env \<Rightarrow> bool" where
  "safe_add_ok env \<longleftrightarrow> (\<forall>a b. boot_u32_safe_add env a b = (if a + b < SIZE_MAX_P1 then Some (a + b) else None))"

definition area_ok :: "'d flash_map_env \<Rightarrow> 'd ARM_DRIVER_FLASH \<Rightarrow> ARM_FLASH_INFO \<Rightarrow> nat \<Rightarrow> 'd flash_area \<Rightarrow> bool" where
  "area_ok env drv info fsize area \<longleftrightarrow> safe_add_ok env \<and> fa_driver area = drv \<and> fa_off area + fa_size area \<le> fsize
     \<and> (\<exists>k < 31. FLASH_PROGRAM_UNIT env = 2 ^ k) \<and> FLASH_PROGRAM_UNIT env dvd fa_off area \<and> FLASH_PROGRAM_UNIT env dvd fa_size area
     \<and> drv_item drv dvd FLASH_PROGRAM_UNIT env \<and> fi_program_unit info dvd FLASH_PROGRAM_UNIT env"

text \<open>
  The parts of a write of \<open>len\<close> bytes at \<open>off\<close>: \<open>w_pad\<close> bytes of the first unit are before the data, \<open>w_first\<close>
  data bytes are in it, \<open>w_units\<close> are in whole units, \<open>w_rest\<close> in the last one, of which \<open>w_tail\<close> bytes are
  behind the data.
\<close>

definition w_pad :: "nat \<Rightarrow> nat \<Rightarrow> nat" where "w_pad u off = off mod u"
definition w_first :: "nat \<Rightarrow> nat \<Rightarrow> nat \<Rightarrow> nat" where "w_first u off len = (if w_pad u off = 0 then 0 else min (u - w_pad u off) len)"
definition w_units :: "nat \<Rightarrow> nat \<Rightarrow> nat \<Rightarrow> nat" where "w_units u off len = (len - w_first u off len) div u * u"
definition w_rest :: "nat \<Rightarrow> nat \<Rightarrow> nat \<Rightarrow> nat" where "w_rest u off len = (len - w_first u off len) mod u"
definition w_all :: "nat \<Rightarrow> nat \<Rightarrow> nat \<Rightarrow> nat" where "w_all u off len = (len + w_pad u off + (u - 1)) div u * u"
definition w_tail :: "nat \<Rightarrow> nat \<Rightarrow> nat \<Rightarrow> nat" where "w_tail u off len = w_all u off len - len - w_pad u off"

text \<open>The bytes that reach the flash.\<close>

definition area_written :: "nat \<Rightarrow> nat \<Rightarrow> byte list \<Rightarrow> nat \<Rightarrow> byte list" where
  "area_written u off src len = take (w_first u off len) src @ take (w_units u off len) src
     @ rd src (w_first u off len + w_units u off len) (w_rest u off len)"

lemma dvd_between:
  assumes "u dvd x" "0 < x" "x < 2 * u"
  shows "x = (u :: nat)"
proof -
  obtain k where "x = u * k" using assms(1) by (elim dvdE)
  moreover have "k = 1" using assms(2,3) \<open>x = u * k\<close> by (cases "k \<le> 1") (auto simp: not_le dest: mult_le_mono2[of 2 k u])
  ultimately show ?thesis by simp
qed

lemma write_parts:
  assumes u: "0 < u" and "off + len \<le> m"
  defines "pad \<equiv> w_pad u off" and "n0 \<equiv> w_first u off len" and "ws \<equiv> w_units u off len" and "rest \<equiv> w_rest u off len"
  defines "al \<equiv> w_all u off len" and "te \<equiv> w_tail u off len"
  shows "pad < u" "pad \<le> off" "n0 + ws + rest = len" "rest < u" "u dvd ws" "len + pad + te = al" "te < u" "u dvd al" "u dvd off - pad"
    and "pad \<noteq> 0 \<Longrightarrow> n0 = len \<Longrightarrow> pad + len + te = u" "pad \<noteq> 0 \<Longrightarrow> n0 \<noteq> len \<Longrightarrow> pad + n0 = u" "pad = 0 \<Longrightarrow> n0 = 0"
    and "n0 < len \<Longrightarrow> te = 0 \<Longrightarrow> rest = 0" "n0 < len \<Longrightarrow> te \<noteq> 0 \<Longrightarrow> rest + te = u" "n0 < len \<Longrightarrow> u dvd off + n0" "n0 = len \<Longrightarrow> ws = 0 \<and> rest = 0"
    and "n0 = (if pad = 0 then 0 else min (u - pad) len)"
proof -
  show p: "pad < u" "pad \<le> off" "u dvd off - pad" using u by (simp_all add: pad_def w_pad_def minus_mod_eq_mult_div)
  show n0: "n0 = (if pad = 0 then 0 else min (u - pad) len)" "pad = 0 \<Longrightarrow> n0 = 0" by (simp_all add: n0_def pad_def w_first_def)
  then have n: "n0 \<le> len" by simp
  show r: "rest < u" "u dvd ws" using u by (simp_all add: rest_def ws_def w_rest_def w_units_def)
  show s: "n0 + ws + rest = len" using n by (simp add: rest_def ws_def n0_def[symmetric] w_rest_def w_units_def)
  show "n0 = len \<Longrightarrow> ws = 0 \<and> rest = 0" using s by simp
  define x where "x = len + pad + (u - 1)"
  have "al = x div u * u" by (simp add: al_def w_all_def pad_def x_def)
  then have x: "al = x - x mod u" "x mod u < u" "x mod u \<le> x" using align_down[OF u, of x] by simp_all
  have "len + pad \<le> x - x mod u" "x - x mod u < len + pad + u" using u x(2,3) unfolding x_def by linarith+
  then have le: "len + pad \<le> al" "al < len + pad + u" using x(1) by simp_all
  show al: "u dvd al" by (simp add: al_def w_all_def)
  show te: "len + pad + te = al" "te < u" using le by (auto simp: te_def w_tail_def al_def[symmetric] pad_def[symmetric])
  show "pad + n0 = u" if "pad \<noteq> 0" "n0 \<noteq> len" using that n0(1) p(1) by auto
  show "pad + len + te = u" if "pad \<noteq> 0" "n0 = len"
  proof -
    have "0 < al" "al < 2 * u" using that n0(1) p(1) le by (auto simp: min_def split: if_splits)
    then have "al = u" by (rule dvd_between[OF al])
    then show ?thesis using te by simp
  qed
  have dp: "u dvd pad + n0" if "n0 < len" using that n0 p by (cases "pad = 0") (auto simp: min_def split: if_splits)
  show "u dvd off + n0" if "n0 < len"
  proof -
    have "off + n0 = (off - pad) + (pad + n0)" using p(2) by simp
    then show ?thesis using dp[OF that] p(3) by (metis dvd_add)
  qed
  have rt: "u dvd rest + te" if "n0 < len"
  proof -
    have "al = (pad + n0) + ws + (rest + te)" using s te(1) by simp
    then show ?thesis using dp[OF that] r(2) al by (metis dvd_add_right_iff)
  qed
  show "rest = 0" if "n0 < len" "te = 0" using rt[OF that(1)] that(2) r(1) dvd_imp_le[of u rest] by fastforce
  show "rest + te = u" if "n0 < len" "te \<noteq> 0"
  proof -
    have "0 < rest + te" "rest + te < 2 * u" using that r(1) te(2) by auto
    then show ?thesis by (rule dvd_between[OF rt[OF that(1)]])
  qed
qed

text \<open>Where the data is what reaches the flash: a whole number of units before it, or no whole unit behind the first one.\<close>

lemma area_written_length:
  assumes "0 < u" "len \<le> length src"
  shows "length (area_written u off src len) = len"
proof -
  have "w_first u off len \<le> len" by (simp add: w_first_def)
  moreover have "w_units u off len + w_rest u off len = len - w_first u off len" by (simp add: w_units_def w_rest_def)
  ultimately show ?thesis using assms(2) by (simp add: area_written_def)
qed

lemma area_written_same:
  assumes "0 < u" "len \<le> length src" "off mod u = 0 \<or> w_units u off len = 0"
  shows "area_written u off src len = take len src"
proof -
  note w = write_parts[OF assms(1) le_refl[of "off + len"]]
  have "w_first u off len = 0 \<or> w_units u off len = 0" using assms(3) w(12) by (auto simp: w_pad_def)
  then show ?thesis using w(3) rd_append[of src 0 "w_units u off len" "w_rest u off len"] rd_append[of src 0 "w_first u off len" "w_rest u off len"]
    by (auto simp: area_written_def rd_def)
qed

lemma wr_pad:
  assumes "p + k + length x + m \<le> length b"
  shows "wr b p (rd b p k @ x @ rd b (p + k + length x) m) = wr b (p + k) x"
proof -
  have l: "length (rd b p k) = k" "length (rd b (p + k + length x) m) = m" using assms by simp_all
  have "wr b (p + k) x ! i = wr b p (rd b p k @ x @ rd b (p + k + length x) m) ! i" if "i < length b" for i
    using that assms l by (auto simp: nth_wr nth_append nth_rd)
  then show ?thesis using assms by (intro nth_equalityI) (simp_all add: l)
qed

context cmsis_flash
begin

lemma item_power: "\<exists>k < 32. data_width_byte ! drv_data_width drv = 2 ^ k \<and> drv_item drv = 2 ^ k"
proof -
  have "drv_item drv = 2 ^ 0 \<or> drv_item drv = 2 ^ 1 \<or> drv_item drv = 2 ^ 2" using item_cases by simp
  then have "\<exists>k < 32. drv_item drv = 2 ^ k" by (elim disjE) (rule exI, rule conjI[rotated], assumption, simp)+
  then show ?thesis by (simp add: drv_item_def)
qed

lemma area_read_ok:
  assumes ok: "ok d" and ar: "area_ok env drv info fsize area" and r: "off + len \<le> fa_size area"
  shows "flash_area_read env area off len d = ((0, rd (img d) (fa_off area + off) len), d)"
proof -
  let ?a = "fa_off area + off"
  have fs: "fsize < 2 ^ 31" using sizes[OF ok] by simp
  note ao = ar[unfolded area_ok_def]
  have r': "?a + len \<le> fsize" using ao r by auto
  define w h n1 n2 where "w = drv_item drv" and "h = part_head ?a" and "n1 = part_first ?a len" and "n2 = part_items ?a len * w"
  note p = read_parts[OF ok r', folded w_def h_def n1_def, folded n2_def]
  obtain k where k: "k < 32" "data_width_byte ! drv_data_width drv = w" "w = 2 ^ k" using item_power by (auto simp: w_def)
  have w: "0 < w" "w dvd fa_off area" using k(3) ao dvd_trans by (auto simp: w_def)
  have hoff: "h = off mod w" using w(2) by (auto simp: h_def part_head_def w_def[symmetric] elim!: dvdE)
  have al: "FLOOR_ALIGN off w = off - h" "off - (off - h) = h" "off - h \<noteq> off \<longleftrightarrow> h \<noteq> 0" "h < w" "h \<le> off"
    using FLOOR_ALIGN_eq[OF k(1), of off] r' fs align_down[OF w(1), of off] unfolding k(3)[symmetric] hoff by auto
  have rl: "(if add32 h len \<ge> w then w - h else len) = n1" if "h \<noteq> 0"
  proof -
    have "add32 h len = h + len" using r' fs al(5) by (intro add32_id) simp
    then show ?thesis using that al(4) by (auto simp: n1_def part_first_def h_def[symmetric] w_def[symmetric])
  qed
  have a32: "add32 (fa_off area) (off - h) = ?a - h" "add32 (fa_off area) off = ?a" "add32 ?a n1 = ?a + n1"
    "mul32 (part_items ?a len) w = n2" "add32 (?a + n1) n2 = ?a + n1 + n2"
    using r' fs p(9) al(5) by (simp_all add: wrap_simps n2_def[symmetric])
  have it: "(len - n1) div w = part_items ?a len" by (simp add: part_items_def n1_def w_def)
  have v: "is_range_valid env area off len" using ao r r' fs by (simp add: is_range_valid_def safe_add_ok_def)
  define f1 where "f1 = (if h \<noteq> 0 then case drv_ReadData drv (?a - h) 1 d of ((ret, temp), d) \<Rightarrow>
      if ret < 0 then ((ret, []), d) else ((0, rd temp h (if add32 h len \<ge> w then w - h else len)), d) else ((0, []), d))"
  have f1: "f1 = ((0, rd (img d) ?a n1), d)"
    using p(1,2) rl by (cases "h = 0") (simp_all add: f1_def n1_def part_first_def h_def[symmetric])
  define f2 where "f2 = (if part_items ?a len \<noteq> 0 then drv_ReadData drv (?a + n1) (part_items ?a len) d else ((0, []), d))"
  have f2: "\<exists>r \<ge> 0. f2 = ((r, rd (img d) (?a + n1) n2), d)"
    using p(3) by (cases "part_items ?a len = 0") (simp_all add: f2_def n2_def)
  have dr: "fa_driver area = drv" using ao by simp
  have tail: "(if len - n1 - n2 \<noteq> 0 then case drv_ReadData drv (?a + n1 + n2) 1 d of ((ret, temp), e) \<Rightarrow>
        if ret < 0 then ((ret, rd (img d) ?a n1 @ rd (img d) (?a + n1) n2), e)
        else ((0, rd (img d) ?a n1 @ rd (img d) (?a + n1) n2 @ take (len - n1 - n2) temp), e)
      else ((0, rd (img d) ?a n1 @ rd (img d) (?a + n1) n2), d)) = ((0, rd (img d) ?a len), d)"
    using p(4,5,6) by (cases "len - n1 - n2 = 0") simp_all
  have "flash_area_read env area off len d = (case f2 of ((ret, b2), e) \<Rightarrow> if ret < 0 then ((ret, rd (img d) ?a n1), e)
      else if len - n1 - n2 \<noteq> 0 then case drv_ReadData drv (?a + n1 + n2) 1 e of ((ret, temp), e) \<Rightarrow>
        if ret < 0 then ((ret, rd (img d) ?a n1 @ b2), e) else ((0, rd (img d) ?a n1 @ b2 @ take (len - n1 - n2) temp), e)
      else ((0, rd (img d) ?a n1 @ b2), e))"
    unfolding flash_area_read_def Let_def dr k(2) al(1) al(2,3) a32(1,2) f1_def[symmetric] f1 prod.case
      p(7) it a32(3,4,5) n2_def[symmetric] f2_def[symmetric]
    using v by simp
  then show ?thesis using f2 tail by auto
qed

lemma area_program_ok:
  assumes "ok d" "area_ok env drv info fsize area" "FLASH_PROGRAM_UNIT env dvd n" "0 < n" "n \<le> length bs"
    and "drv_item drv dvd addr" "addr + n \<le> fsize"
  shows "area_program area addr bs (n div data_width_byte ! drv_data_width drv) d = (True, put d (wr (img d) addr (take n bs)))"
proof -
  let ?w = "drv_item drv"
  have "?w dvd n" "fi_program_unit info dvd n" using assms(2,3) dvd_trans by (auto simp: area_ok_def)
  then have "n div ?w * ?w = n" "0 < n div ?w" using assms(4) item_pos by (auto simp: dvd_div_eq_0_iff)
  then show ?thesis
    using program_data[OF assms(1), of "n div ?w" addr bs] assms \<open>fi_program_unit info dvd n\<close>
    by (simp add: area_program_def area_ok_def drv_item_def)
qed

lemma area_arith:
  assumes ok: "ok d" and ar: "area_ok env drv info fsize area" and r: "off + len \<le> fa_size area"
  defines "u \<equiv> FLASH_PROGRAM_UNIT env" and "A \<equiv> fa_off area"
  defines "pad \<equiv> w_pad u off" and "n0 \<equiv> w_first u off len" and "ws \<equiv> w_units u off len" and "al \<equiv> w_all u off len" and "te \<equiv> w_tail u off len"
  shows "0 < u" "off + len + te \<le> fa_size area" "A + off + len + te \<le> fsize" "fsize < 2 ^ 31" "u dvd A" "u \<le> 2 ^ 30"
    and "FLOOR_ALIGN off u = off - pad" "CEILING_ALIGN (len + pad) u = al" "FLOOR_ALIGN (len - n0) u = ws"
proof -
  note ao = ar[unfolded area_ok_def, folded u_def]
  obtain k where k: "k < 31" "u = 2 ^ k" using ao by blast
  show u0: "0 < u" "u dvd A" "u \<le> 2 ^ 30" "fsize < 2 ^ 31" using k ao sizes[OF ok] power_increasing[of k 30 "2 :: nat"] by (auto simp: A_def)
  note w = write_parts[OF u0(1) r, folded pad_def n0_def ws_def al_def te_def]
  show in1: "off + len + te \<le> fa_size area"
  proof (cases "te = 0")
    case False
    have "off + len + te = (off - pad) + al" using w(2,6) by simp
    then have "u dvd off + len + te" "u dvd fa_size area" using w(8,9) ao by simp_all
    then have "u dvd off + len + te - fa_size area" by (rule dvd_diff_nat)
    then show ?thesis using r w(7) dvd_imp_le[of u "off + len + te - fa_size area"] by linarith
  qed (use r in simp)
  then show in2: "A + off + len + te \<le> fsize" using ao by (simp add: A_def)
  show "FLOOR_ALIGN off u = off - pad" "FLOOR_ALIGN (len - n0) u = ws"
    using FLOOR_ALIGN_eq[of k off] FLOOR_ALIGN_eq[of k "len - n0"] k in2 u0(4) align_down[OF u0(1), of off]
    by (simp_all add: pad_def w_pad_def ws_def w_units_def n0_def)
  show "CEILING_ALIGN (len + pad) u = al"
    using CEILING_ALIGN_eq[of k "len + pad"] k in2 u0(3,4) w(1) by (simp add: al_def w_all_def pad_def)
qed

lemma first_unit_ok:
  assumes ok: "ok d" and ar: "area_ok env drv info fsize area" and r: "off + len \<le> fa_size area" and l: "len \<le> length src"
  defines "u \<equiv> FLASH_PROGRAM_UNIT env" and "a \<equiv> fa_off area + off"
  defines "pad \<equiv> w_pad u off" and "n0 \<equiv> w_first u off len" and "te \<equiv> w_tail u off len"
  assumes p: "pad \<noteq> 0"
  shows "write_first_unit env area (data_width_byte ! drv_data_width drv) src len (off - pad) (rd (img d) (a - pad) pad) (rd (img d) (a + len) te) d
    = (Some n0, put d (wr (img d) a (take n0 src)))"
proof -
  note f = area_arith[OF ok ar r, folded u_def, folded pad_def n0_def te_def]
  note w = write_parts[OF f(1) r, folded pad_def n0_def te_def]
  have lI: "length (img d) = fsize" by (rule img_length[OF ok])
  have lp: "length (rd (img d) (a - pad) pad) = pad" "length (rd (img d) (a + len) te) = te" using f(3) w(2) by (auto simp: lI a_def)
  define m where "m = (if n0 = len then te else 0)"
  define buf where "buf = rd (img d) (a - pad) pad @ take n0 src @ rd (img d) (a + n0) m"
  have buf: "length buf = u" using w(10,11)[OF p] w(3) l lp(1) f(3) by (auto simp: buf_def m_def lI a_def)
  have bf: "(if n0 = len then (rd (img d) (a - pad) pad @ take n0 src) @ rd (img d) (a + len) te else rd (img d) (a - pad) pad @ take n0 src) = buf"
    by (auto simp: buf_def m_def)
  have "n0 \<le> len" using w(3) by simp
  then have wp: "wr (img d) (a - pad) buf = wr (img d) a (take n0 src)"
    using wr_pad[of "a - pad" pad "take n0 src" m "img d"] f(3) w(2) l by (simp add: buf_def lI a_def m_def)
  have "drv_item drv dvd a - pad" "a - pad + u \<le> fsize"
  proof -
    have "a - pad = fa_off area + (off - pad)" using w(2) by (simp add: a_def)
    then have "u dvd a - pad" using f(5) w(9) by simp
    moreover have "drv_item drv dvd u" using ar by (simp add: area_ok_def u_def)
    ultimately show "drv_item drv dvd a - pad" by (rule dvd_trans[rotated])
    have "u dvd fa_size area" "fa_off area + fa_size area \<le> fsize" using ar by (auto simp: area_ok_def u_def)
    moreover have "off - pad < fa_size area" using r p w(2) by simp
    ultimately show "a - pad + u \<le> fsize" using dvd_next[OF w(9), of "fa_size area"] w(2) by (simp add: a_def)
  qed
  then have pr: "area_program area (a - pad) buf (u div data_width_byte ! drv_data_width drv) d = (True, put d (wr (img d) a (take n0 src)))"
    using area_program_ok[OF ok ar, of u buf "a - pad"] buf f(1) wp by (simp add: u_def)
  have ad: "add32 (fa_off area) (off - pad) = a - pad" using f(3,4) w(2) by (simp add: wrap_simps a_def)
  have mn: "min (u - pad) len = n0" using w(17) p by simp
  have lb: "length (rd (img d) (a - pad) pad @ take n0 src) = pad + n0" using lp(1) l \<open>n0 \<le> len\<close> by simp
  have g: "\<not> (n0 = len \<and> min (u - (pad + n0)) te \<noteq> te)" using w(10)[OF p] by auto
  show ?thesis
    unfolding write_first_unit_def Let_def u_def[symmetric] lp mn lb bf buf ad pr prod.case using g by simp
qed

lemma last_unit_ok:
  assumes ok: "ok d" and ar: "area_ok env drv info fsize area" and r: "off + len \<le> fa_size area" and l: "len \<le> length src"
  defines "u \<equiv> FLASH_PROGRAM_UNIT env" and "a \<equiv> fa_off area + off"
  defines "n0 \<equiv> w_first u off len" and "ws \<equiv> w_units u off len" and "te \<equiv> w_tail u off len"
  assumes lt: "n0 < len" and t: "te \<noteq> 0"
  shows "write_last_unit env area (data_width_byte ! drv_data_width drv) src len off (w_pad u off) (w_all u off len) (n0 + ws) (rd (img d) (a + len) te) d
    = (0, put d (wr (img d) (a + n0 + ws) (rd src (n0 + ws) (w_rest u off len))))"
proof -
  define pad rest where "pad = w_pad u off" and "rest = w_rest u off len"
  note f = area_arith[OF ok ar r, folded u_def, folded pad_def n0_def te_def ws_def]
  note w = write_parts[OF f(1) r, folded pad_def n0_def te_def ws_def rest_def]
  have lI: "length (img d) = fsize" by (rule img_length[OF ok])
  have rt: "rest + te = u" using w(14)[OF lt t] .
  have lt2: "length (rd (img d) (a + len) te) = te" using f(3) by (simp add: lI a_def)
  define buf where "buf = rd src (n0 + ws) rest @ rd (img d) (a + len) te"
  have lr: "length (rd src (n0 + ws) rest) = rest" using w(3) l by simp
  have buf: "length buf = u" using rt lt2 lr by (simp add: buf_def)
  have len: "a + n0 + ws + rest = a + len" using w(3) by simp
  have wp: "wr (img d) (a + n0 + ws) buf = wr (img d) (a + n0 + ws) (rd src (n0 + ws) rest)"
    using wr_pad[of "a + n0 + ws" 0 "rd src (n0 + ws) rest" te "img d"] f(3)[folded a_def] unfolding lr by (simp add: buf_def lI len)
  have "a + n0 + ws = fa_off area + ((off + n0) + ws)" by (simp add: a_def)
  then have "u dvd a + n0 + ws" using dvd_add[OF f(5) dvd_add[OF w(15)[OF lt] w(5)]] by argo
  moreover have "drv_item drv dvd u" using ar by (simp add: area_ok_def u_def)
  ultimately have dv: "drv_item drv dvd a + n0 + ws" by (rule dvd_trans[rotated])
  have in1: "a + n0 + ws + u \<le> fsize" using f(3) w(3) rt by (simp add: a_def)
  have pr: "area_program area (a + n0 + ws) buf (u div data_width_byte ! drv_data_width drv) d = (True, put d (wr (img d) (a + n0 + ws) (rd src (n0 + ws) rest)))"
    using area_program_ok[OF ok ar, of u buf "a + n0 + ws"] dv in1 buf f(1) wp by (simp add: u_def)
  have a32: "add32 (fa_off area) off = a" "add32 a (n0 + ws) = a + n0 + ws" "add32 (add32 pad (n0 + ws)) u = pad + (n0 + ws) + u"
    using f(3,4) w(2,3) in1 by (simp_all add: a_def wrap_simps)
  have mn: "min u (len - (n0 + ws)) = rest" "n0 + ws + rest = len" "min (u - rest) te = te" "w_all u off len = pad + (n0 + ws) + u"
    using w(3,4,6) rt pad_def by auto
  show ?thesis
    unfolding write_last_unit_def Let_def u_def[symmetric] pad_def[symmetric] mn(1,4) lt2 mn(3) a32 rest_def[symmetric]
    using mn(2) rt pr lt2 by (simp add: buf_def)
qed

lemma area_write_ok:
  assumes ok: "ok d" and ar: "area_ok env drv info fsize area" and r: "off + len \<le> fa_size area" and l: "len \<le> length src"
  shows "flash_area_write env area off src len d
    = (0, put d (wr (img d) (fa_off area + off) (area_written (FLASH_PROGRAM_UNIT env) off src len)))"
proof -
  define u a where "u = FLASH_PROGRAM_UNIT env" and "a = fa_off area + off"
  define pad n0 ws rest al te where "pad = w_pad u off" and "n0 = w_first u off len" and "ws = w_units u off len"
    and "rest = w_rest u off len" and "al = w_all u off len" and "te = w_tail u off len"
  note defs = pad_def n0_def ws_def rest_def al_def te_def
  note f = area_arith[OF ok ar r, folded u_def, folded defs]
  note w = write_parts[OF f(1) r, folded defs]
  let ?I = "img d" and ?dw = "data_width_byte ! drv_data_width drv"
  have lI: "length ?I = fsize" by (rule img_length[OF ok])
  have dr: "fa_driver area = drv" and safe: "safe_add_ok env" using ar by (auto simp: area_ok_def)
  have le: "n0 \<le> len" "n0 + ws \<le> len" using w(3) by auto
  have u32: "sub32 off (off - pad) = pad" "add32 len pad = len + pad" "sub32 (sub32 al len) pad = te" "add32 off len = off + len"
    "add32 (fa_off area) off = a" "add32 a n0 = a + n0"
    using f(3,4,6) w(1,2,6,7) le by (simp_all add: wrap_simps a_def)
  have valid: "is_range_valid env area off len" "is_range_valid env area (off - pad) al"
    using safe r f(2,3,4) w(2,6) by (auto simp: is_range_valid_def safe_add_ok_def)
  have r1: "flash_area_read env area (off - pad) pad d = ((0, rd ?I (a - pad) pad), d)"
    using area_read_ok[OF ok ar, of "off - pad" pad] r w(2) by (simp add: a_def)
  have r2: "flash_area_read env area (off + len) te d = ((0, rd ?I (a + len) te), d)"
    using area_read_ok[OF ok ar, of "off + len" te] f(2) by (simp add: a_def add.assoc)
  define I1 where "I1 = wr ?I a (take n0 src)"
  have l1: "length I1 = fsize" using f(3) le by (simp add: I1_def lI a_def)
  have first: "(if pad \<noteq> 0 then write_first_unit env area ?dw src len (off - pad) (rd ?I (a - pad) pad) (rd ?I (a + len) te) d else (Some 0, d))
      = (Some n0, put d I1)"
  proof (cases "pad = 0")
    case True
    then show ?thesis using w(12) by (simp add: I1_def put_img[OF ok])
  next
    case False
    then show ?thesis using first_unit_ok[OF ok ar r l, folded u_def a_def, folded defs] by (simp add: I1_def)
  qed
  define I2 where "I2 = wr I1 (a + n0) (take ws src)"
  have l2: "length I2 = fsize" using f(3) le l by (simp add: I2_def l1 a_def)
  have I2: "I2 = wr ?I a (take n0 src @ take ws src)"
    using wr_wr_append[of a "take n0 src" "take ws src" ?I] f(3) le l by (simp add: I2_def I1_def lI a_def min_absorb2)
  have mid: "(if ws > 0 then area_program area (a + n0) src (ws div ?dw) (put d I1) else (True, put d I1)) = (True, put d I2)" if "n0 < len"
  proof (cases "ws = 0")
    case False
    have "u dvd a + n0" using f(5) w(15)[OF that] by (simp add: a_def add.assoc)
    then have "drv_item drv dvd a + n0" using ar dvd_trans by (auto simp: area_ok_def u_def)
    then show ?thesis
      using area_program_ok[OF ok_put[OF ok l1] ar, of ws src "a + n0"] False w(5) le l f(3) img_put[OF ok l1] put_put[OF ok l1 l2]
      by (simp add: u_def a_def I2_def)
  qed (simp add: I2_def)
  have keep: "rd (img (put d I2)) (a + len) te = rd ?I (a + len) te"
    unfolding img_put[OF ok l2] unfolding I2 by (rule rd_wr_disj) (use f(3) le l in \<open>auto simp: lI a_def\<close>)
  have last: "(if te \<noteq> 0 then write_last_unit env area ?dw src len off pad al (n0 + ws) (rd ?I (a + len) te) (put d I2) else (0, put d I2))
      = (0, put d (wr ?I a (area_written u off src len)))" if "n0 < len"
  proof -
    let ?x = "rd src (n0 + ws) rest"
    have fin: "wr I2 (a + n0 + ws) ?x = wr ?I a (area_written u off src len)"
      using wr_wr_append[of a "take n0 src @ take ws src" ?x ?I] f(3) w(3) le l
      by (simp add: I2 area_written_def lI a_def min_absorb2 defs[symmetric] add.assoc)
    have l3: "length (wr ?I a (area_written u off src len)) = fsize" unfolding fin[symmetric] using l2 f(3) w(3) l by (simp add: a_def)
    show ?thesis
    proof (cases "te = 0")
      case True
      then show ?thesis using w(13)[OF that] fin by simp
    next
      case False
      then show ?thesis
        using last_unit_ok[OF ok_put[OF ok l2] ar r l, folded u_def a_def, folded defs] that fin put_put[OF ok l2 l3]
        by (simp add: keep[unfolded img_put[OF ok l2]] img_put[OF ok l2])
    qed
  qed
  have whole: "I1 = wr ?I a (area_written u off src len)" if "n0 = len" using w(16)[OF that] that by (simp add: I1_def area_written_def defs[symmetric])
  have nz: "u \<noteq> 0" "(0 :: int) = 0 \<longleftrightarrow> True" using f(1) by simp_all
  note red = valid nz r1 r2 first prod.case option.case simp_thms if_True if_False
  show ?thesis
  proof (cases "n0 < len")
    case True
    then show ?thesis
      unfolding flash_area_write_def Let_def dr u_def[symmetric] a_def[symmetric] f(7) u32(1,2) f(8) u32(3,4)
      by (simp only: red u32(5,6) f(9) mid[OF True] last[OF True])
  next
    case False
    then have "n0 = len" using le by simp
    then show ?thesis
      unfolding flash_area_write_def Let_def dr u_def[symmetric] a_def[symmetric] f(7) u32(1,2) f(8) u32(3,4)
      by (simp only: red whole less_irrefl)
  qed
qed

lemma area_erase_sectors_ok:
  assumes "ok d" "fa_driver area = drv" "fi_sector_size info dvd fa_off area + off" "fa_off area + off + n * fi_sector_size info \<le> fsize"
  shows "area_erase_sectors area (fi_sector_size info) off n d
    = (0, put d (wr (img d) (fa_off area + off) (replicate (n * fi_sector_size info) (fi_erased_value info))))"
  using assms
proof (induction n arbitrary: off d)
  case 0
  then show ?case by (simp add: put_img)
next
  case (Suc n)
  let ?z = "fi_sector_size info" and ?e = "fi_erased_value info" and ?a = "fa_off area + off"
  define x where "x = wr (img d) ?a (replicate ?z ?e)"
  have fs: "fsize < 2 ^ 31" using sizes[OF Suc.prems(1)] by simp
  have x: "length x = fsize" using Suc.prems by (simp add: x_def img_length)
  have a32: "add32 (fa_off area) off = ?a" "add32 off ?z = off + ?z" using Suc.prems(4) fs by (simp_all add: wrap_simps)
  have "drv_EraseSector drv ?a d = (0, put d x)" using erase_sector[OF Suc.prems(1,3)] Suc.prems(4) by (simp add: x_def arm_status)
  then have "area_erase_sectors area ?z off (Suc n) d = area_erase_sectors area ?z (off + ?z) n (put d x)"
    using Suc.prems(2) a32 by simp
  also have "\<dots> = (0, put (put d x) (wr (img (put d x)) (fa_off area + (off + ?z)) (replicate (n * ?z) ?e)))"
    using Suc.prems x by (intro Suc.IH) (simp_all add: ok_put add.assoc[symmetric])
  also have "put (put d x) (wr (img (put d x)) (fa_off area + (off + ?z)) (replicate (n * ?z) ?e)) = put d (wr x (?a + ?z) (replicate (n * ?z) ?e))"
    using Suc.prems x by (simp add: img_put put_put add.assoc)
  also have "wr x (?a + ?z) (replicate (n * ?z) ?e) = wr (img d) ?a (replicate (?z + n * ?z) ?e)"
    using Suc.prems wr_wr_append[of ?a "replicate ?z ?e" "replicate (n * ?z) ?e" "img d"]
    by (simp add: x_def img_length replicate_add)
  finally show ?case by simp
qed

lemma area_erase_ok:
  assumes ok: "ok d" and ar: "area_ok env drv info fsize area" and z: "0 < fi_sector_size info" "fi_sector_info info = None"
    and r: "fi_sector_size info dvd fa_off area + off" "fi_sector_size info dvd len" "off + len \<le> fa_size area"
  shows "flash_area_erase env area off len d = (0, put d (wr (img d) (fa_off area + off) (replicate len (fi_erased_value info))))"
proof -
  obtain n where n: "len = n * fi_sector_size info" using r(2) by (metis dvdE mult.commute)
  have cnt: "(len + fi_sector_size info - 1) div fi_sector_size info = n"
    using steps_multiple[OF z(1), of n] by (simp add: n)
  have dr: "fa_driver area = drv" and le: "fa_off area + off + len \<le> fsize" using ar r(3) by (auto simp: area_ok_def)
  have "is_range_valid env area off len" using ar r(3) le sizes[OF ok] by (simp add: area_ok_def is_range_valid_def safe_add_ok_def)
  then show ?thesis
    using area_erase_sectors_ok[OF ok dr r(1), of n] le z(2) cnt by (simp add: flash_area_erase_def dr get_info n)
qed

end

end
