(* ===== verification/FWU_Mcuboot.thy ===== *)
theory FWU_Mcuboot
  imports FWU_Service BL2_Flash_Map
begin

text \<open>
  The boot loader interface of Firmware Update for MCUboot
  (firmware_update/bootloader/mcuboot/tfm_mcuboot_fwu.c) on the flash map. MCUboot's own functions,
  the layout of its structures, the hash operations of the Crypto service and the boot data call are
  parameters.
\<close>

section \<open>Data\<close>

record image_version =
  iv_major :: nat
  iv_minor :: nat
  iv_revision :: nat
  iv_build_num :: nat

record 'd tfm_fwu_mcuboot_ctx_t =
  fap :: "'d flash_area option"
  loaded_size :: nat

text \<open>\<open>boot_shared_data\<close> is the memory from the start of that variable on.\<close>

record 'd mcuboot_state =
  mcuboot_ctx :: "'d tfm_fwu_mcuboot_ctx_t list"
  boot_shared_data :: "nat \<Rightarrow> byte"
  mflash :: 'd

record ('d, 'it, 'op) mcuboot_env =
  mb_map :: "'d flash_map_env"
  FLASH_AREA_IMAGE_PRIMARY :: "nat \<Rightarrow> nat"
  FLASH_AREA_IMAGE_SECONDARY :: "nat \<Rightarrow> nat"
  MCUBOOT_IMAGE_NUMBER :: nat
  MCUBOOT_DIRECT_XIP :: bool
  MCUBOOT_DIRECT_XIP_REVERT :: bool
  MCUBOOT_SWAP_USING_SCRATCH :: bool
  MCUBOOT_SWAP_USING_MOVE :: bool
  MCUBOOT_RAM_LOAD :: bool
  MCUBOOT_OVERWRITE_ONLY :: bool
  sizeof_image_header :: nat
  sizeof_image_version :: nat
  sizeof_image_dependency :: nat
  IMAGE_MAGIC :: nat
  ih_magic :: "byte list \<Rightarrow> nat"
  ih_ver :: "byte list \<Rightarrow> image_version"
  version_of :: "byte list \<Rightarrow> image_version"
  dep_image_id :: "byte list \<Rightarrow> nat"
  dep_image_min_version :: "byte list \<Rightarrow> image_version"
  bootutil_tlv_iter_begin :: "byte list \<Rightarrow> 'd flash_area \<Rightarrow> 'd \<Rightarrow> int \<times> 'it"
  bootutil_tlv_iter_next :: "'it \<Rightarrow> 'd \<Rightarrow> int \<times> nat \<times> nat \<times> 'it"
  boot_set_pending_multi :: "nat \<Rightarrow> bool \<Rightarrow> 'd \<Rightarrow> int \<times> 'd"
  boot_set_confirmed_multi :: "nat \<Rightarrow> 'd \<Rightarrow> int \<times> 'd"
  boot_read_image_ok :: "'d flash_area \<Rightarrow> 'd \<Rightarrow> int \<times> nat"
  BOOT_FLAG_SET :: nat
  BOOT_MAGIC_SZ :: nat
  BOOT_MAX_ALIGN :: nat
  BOOT_MAGIC_ALIGN_SIZE :: nat
  BOOT_TMPBUF_SZ :: nat
  ALIGN_UP :: "nat \<Rightarrow> nat \<Rightarrow> nat"
  ALIGN_DOWN :: "nat \<Rightarrow> nat \<Rightarrow> nat"
  psa_hash_setup :: "psa_status_t \<times> 'op"
  psa_hash_update :: "'op \<Rightarrow> byte list \<Rightarrow> psa_status_t \<times> 'op"
  psa_hash_finish :: "'op \<Rightarrow> psa_status_t \<times> byte list"
  tfm_core_get_boot_data :: "(nat \<Rightarrow> byte) \<Rightarrow> psa_status_t \<times> (nat \<Rightarrow> byte)"

definition PSA_FWU_FLAG_VOLATILE_STAGING :: u32 where "PSA_FWU_FLAG_VOLATILE_STAGING = 1"
definition SHARED_DATA_TLV_INFO_MAGIC :: nat where "SHARED_DATA_TLV_INFO_MAGIC = 0x2016"
definition SHARED_DATA_ENTRY_HEADER_SIZE :: nat where "SHARED_DATA_ENTRY_HEADER_SIZE = 4"
definition SW_VERSION :: nat where "SW_VERSION = 0"
definition GET_FWU_MODULE :: "nat \<Rightarrow> nat" where "GET_FWU_MODULE ty = (ty mod 4096) div 64"
definition GET_FWU_CLAIM :: "nat \<Rightarrow> nat" where "GET_FWU_CLAIM ty = ty mod 64"

section \<open>Versions\<close>

definition de16_at :: "(nat \<Rightarrow> byte) \<Rightarrow> nat \<Rightarrow> nat" where
  "de16_at m p = unat (m p) + 256 * unat (m (p + 1))"

text \<open>The walk through the entries of the shared data, from \<open>pos\<close> up to \<open>tlv_end\<close>; \<open>None\<close> is \<open>PSA_ERROR_DATA_CORRUPT\<close>.\<close>

function active_version_loop :: "('d, 'it, 'op) mcuboot_env \<Rightarrow> (nat \<Rightarrow> byte) \<Rightarrow> nat \<Rightarrow> nat \<Rightarrow> nat \<Rightarrow> image_version option" where
  "active_version_loop mb m component tlv_end pos =
     (if pos < tlv_end then
        let tlv_type = de16_at m pos; tlv_len = de16_at m (pos + 2) in
        if GET_FWU_CLAIM tlv_type = SW_VERSION \<and> GET_FWU_MODULE tlv_type = component then
          if tlv_len \<noteq> sizeof_image_version mb then None
          else Some (version_of mb (map (\<lambda>i. m (pos + SHARED_DATA_ENTRY_HEADER_SIZE + i)) [0..<tlv_len]))
        else active_version_loop mb m component tlv_end (pos + SHARED_DATA_ENTRY_HEADER_SIZE + tlv_len)
      else None)"
  by pat_completeness auto
termination by (relation "measure (\<lambda>(mb, m, c, e, p). e - p)") (auto simp: SHARED_DATA_ENTRY_HEADER_SIZE_def)

declare active_version_loop.simps [simp del]

definition get_active_image_version :: "('d, 'it, 'op) mcuboot_env \<Rightarrow> nat \<Rightarrow> 'd mcuboot_state \<Rightarrow> image_version option" where
  "get_active_image_version mb component b =
     (if de16_at (boot_shared_data b) 0 \<noteq> SHARED_DATA_TLV_INFO_MAGIC then None
      else active_version_loop mb (boot_shared_data b) component (de16_at (boot_shared_data b) 2) 4)"

definition is_version_greater_or_equal :: "image_version \<Rightarrow> image_version \<Rightarrow> bool" where
  "is_version_greater_or_equal v w =
     (if iv_major v > iv_major w then True
      else if iv_major v < iv_major w then False
      else if iv_minor v > iv_minor w then True
      else if iv_minor v < iv_minor w then False
      else if iv_revision v \<ge> iv_revision w then True
      else False)"

section \<open>Loading\<close>

type_synonym 'd mb_op = "'d mcuboot_state \<Rightarrow> psa_status_t \<times> 'd mcuboot_state"

definition on_mflash :: "('d \<Rightarrow> 'a \<times> 'd) \<Rightarrow> 'd mcuboot_state \<Rightarrow> 'a \<times> 'd mcuboot_state" where
  "on_mflash f b = (case f (mflash b) of (r, d) \<Rightarrow> (r, b\<lparr>mflash := d\<rparr>))"

definition mb_fap :: "'d mcuboot_state \<Rightarrow> nat \<Rightarrow> 'd flash_area option" where
  "mb_fap b component = fap (mcuboot_ctx b ! component)"

definition set_mb :: "nat \<Rightarrow> ('d tfm_fwu_mcuboot_ctx_t \<Rightarrow> 'd tfm_fwu_mcuboot_ctx_t) \<Rightarrow> 'd mcuboot_state \<Rightarrow> 'd mcuboot_state" where
  "set_mb component f b = b\<lparr>mcuboot_ctx := (mcuboot_ctx b)[component := f (mcuboot_ctx b ! component)]\<rparr>"

definition fwu_bootloader_init :: "('d, 'it, 'op) mcuboot_env \<Rightarrow> 'd mb_op" where
  "fwu_bootloader_init mb b =
     (case tfm_core_get_boot_data mb (boot_shared_data b) of
        (st, m) \<Rightarrow>
          let b = b\<lparr>boot_shared_data := m\<rparr> in
          if st \<noteq> PSA_SUCCESS then (psa_error_code PSA_ERROR_STORAGE_FAILURE, b)
          else case on_mflash (flash_area_driver_init (mb_map mb)) b of
            (r, b) \<Rightarrow> if r \<noteq> 0 then (psa_error_code PSA_ERROR_STORAGE_FAILURE, b) else (PSA_SUCCESS, b))"

definition fwu_bootloader_staging_area_init :: "('d, 'it, 'op) mcuboot_env \<Rightarrow> nat \<Rightarrow> byte list \<Rightarrow> nat \<Rightarrow> 'd mb_op" where
  "fwu_bootloader_staging_area_init mb component manifest manifest_size b =
     (if manifest_size \<noteq> 0 \<or> component \<ge> MCUBOOT_IMAGE_NUMBER mb then (psa_error_code PSA_ERROR_INVALID_ARGUMENT, b)
      else case flash_area_open (mb_map mb) (FLASH_AREA_IMAGE_SECONDARY mb component) of
        None \<Rightarrow> (psa_error_code PSA_ERROR_STORAGE_FAILURE, b)
      | Some area \<Rightarrow>
          case on_mflash (flash_area_erase (mb_map mb) area 0 (fa_size area)) b of
            (r, b) \<Rightarrow>
              if r \<noteq> 0 then (psa_error_code PSA_ERROR_GENERIC_ERROR, b)
              else (PSA_SUCCESS, set_mb component (\<lambda>c. c\<lparr>fap := Some area, loaded_size := 0\<rparr>) b))"

definition fwu_bootloader_load_image :: "('d, 'it, 'op) mcuboot_env \<Rightarrow> nat \<Rightarrow> nat \<Rightarrow> byte list \<Rightarrow> 'd mb_op" where
  "fwu_bootloader_load_image mb component block_offset block b =
     (if component \<ge> MCUBOOT_IMAGE_NUMBER mb then (psa_error_code PSA_ERROR_INVALID_ARGUMENT, b)
      else case mb_fap b component of
        None \<Rightarrow> (psa_error_code PSA_ERROR_BAD_STATE, b)
      | Some area \<Rightarrow>
          case on_mflash (flash_area_write (mb_map mb) area block_offset block (length block)) b of
            (r, b) \<Rightarrow>
              if r \<noteq> 0 then (psa_error_code PSA_ERROR_STORAGE_FAILURE, b)
              else (PSA_SUCCESS, set_mb component (\<lambda>c. c\<lparr>loaded_size := add32 (loaded_size c) (length block)\<rparr>) b))"

section \<open>Rejecting\<close>

definition boot_magic_off :: "('d, 'it, 'op) mcuboot_env \<Rightarrow> 'd flash_area \<Rightarrow> nat" where
  "boot_magic_off mb area = sub32 (fa_size area) (BOOT_MAGIC_SZ mb)"

definition boot_image_ok_off :: "('d, 'it, 'op) mcuboot_env \<Rightarrow> 'd flash_area \<Rightarrow> nat" where
  "boot_image_ok_off mb area = ALIGN_DOWN mb (sub32 (boot_magic_off mb area) (BOOT_MAX_ALIGN mb)) (BOOT_MAX_ALIGN mb)"

definition erase_image_ok :: "('d, 'it, 'op) mcuboot_env \<Rightarrow> 'd flash_area \<Rightarrow> 'd mb_op" where
  "erase_image_ok mb area b =
     (let align = ALIGN_UP mb (BOOT_MAX_ALIGN mb) (flash_area_align area) in
      if align > BOOT_MAX_ALIGN mb then (psa_error_code PSA_ERROR_STORAGE_FAILURE, b)
      else case on_mflash (flash_area_write (mb_map mb) area (boot_image_ok_off mb area) (replicate align (flash_area_erased_val area)) align) b of
        (r, b) \<Rightarrow> if r \<noteq> 0 then (psa_error_code PSA_ERROR_STORAGE_FAILURE, b) else (PSA_SUCCESS, b))"

definition erase_boot_magic :: "('d, 'it, 'op) mcuboot_env \<Rightarrow> 'd flash_area \<Rightarrow> 'd mb_op" where
  "erase_boot_magic mb area b =
     (case on_mflash (flash_area_write (mb_map mb) area (ALIGN_DOWN mb (boot_magic_off mb area) (BOOT_MAX_ALIGN mb))
             (replicate (BOOT_MAGIC_ALIGN_SIZE mb) (flash_area_erased_val area)) (BOOT_MAGIC_ALIGN_SIZE mb)) b of
        (r, b) \<Rightarrow> if r \<noteq> 0 then (psa_error_code PSA_ERROR_STORAGE_FAILURE, b) else (PSA_SUCCESS, b))"

definition fwu_bootloader_reject_staged_image :: "('d, 'it, 'op) mcuboot_env \<Rightarrow> nat \<Rightarrow> 'd mb_op" where
  "fwu_bootloader_reject_staged_image mb component b =
     (if component \<ge> MCUBOOT_IMAGE_NUMBER mb then (psa_error_code PSA_ERROR_INVALID_ARGUMENT, b)
      else case mb_fap b component of
        Some area \<Rightarrow> erase_boot_magic mb area b
      | None \<Rightarrow> (psa_error_code PSA_ERROR_DOES_NOT_EXIST, b))"

definition fwu_bootloader_reject_trial_image :: "('d, 'it, 'op) mcuboot_env \<Rightarrow> nat \<Rightarrow> 'd mb_op" where
  "fwu_bootloader_reject_trial_image mb component b =
     (if component \<ge> MCUBOOT_IMAGE_NUMBER mb then (psa_error_code PSA_ERROR_INVALID_ARGUMENT, b) else (PSA_SUCCESS_REBOOT, b))"

section \<open>Installing\<close>

text \<open>
  One dependency, whose bytes the iterator found at \<open>off\<close>: \<open>None\<close> when it is met, by the running image or
  by a candidate, else the status to return.
\<close>

definition mb_check_dependency :: "('d, 'it, 'op) mcuboot_env \<Rightarrow> nat list \<Rightarrow> 'd flash_area \<Rightarrow> nat \<Rightarrow> nat \<Rightarrow> 'd mcuboot_state
    \<Rightarrow> psa_status_t option \<times> 'd mcuboot_state" where
  "mb_check_dependency mb candidates area off len b =
     (case on_mflash (flash_area_read (mb_map mb) area off len) b of
        ((r, dep), b) \<Rightarrow>
          if r \<noteq> 0 then (Some (psa_error_code PSA_ERROR_STORAGE_FAILURE), b)
          else if dep_image_id mb dep > MCUBOOT_IMAGE_NUMBER mb then (Some (psa_error_code PSA_ERROR_DATA_CORRUPT), b)
          else case get_active_image_version mb (dep_image_id mb dep) b of
            None \<Rightarrow> (Some (psa_error_code PSA_ERROR_STORAGE_FAILURE), b)
          | Some image_ver \<Rightarrow>
              if is_version_greater_or_equal image_ver (dep_image_min_version mb dep) then (None, b)
              else if dep_image_id mb dep \<in> set candidates then
                (case mb_fap b (dep_image_id mb dep) of
                   None \<Rightarrow> (Some PSA_ERROR_DEPENDENCY_NEEDED, b)
                 | Some secondary \<Rightarrow>
                     case on_mflash (flash_area_read (mb_map mb) secondary 0 (sizeof_image_header mb)) b of
                       ((r, hdr), b) \<Rightarrow>
                         if r \<noteq> 0 then (Some (psa_error_code PSA_ERROR_STORAGE_FAILURE), b)
                         else if ih_magic mb hdr = IMAGE_MAGIC mb \<and> is_version_greater_or_equal (ih_ver mb hdr) (dep_image_min_version mb dep)
                         then (None, b)
                         else (Some PSA_ERROR_DEPENDENCY_NEEDED, b))
              else (Some PSA_ERROR_DEPENDENCY_NEEDED, b))"

text \<open>
  The dependencies of one image. The result is \<open>None\<close> when the loop does not end, or when a dependency
  entry is longer than the local variable it is read into (\<open>len\<close> is not compared with its size), which
  is undefined behaviour.
\<close>

partial_function (option) mb_dependencies :: "('d, 'it, 'op) mcuboot_env \<Rightarrow> nat list \<Rightarrow> 'd flash_area \<Rightarrow> 'it \<Rightarrow> 'd mcuboot_state
    \<Rightarrow> (psa_status_t option \<times> 'd mcuboot_state) option" where
  "mb_dependencies mb candidates area it b =
     (case bootutil_tlv_iter_next mb it (mflash b) of
        (rc, off, len, it) \<Rightarrow>
          if rc < 0 then Some (Some (psa_error_code PSA_ERROR_STORAGE_FAILURE), b)
          else if rc > 0 then Some (None, b)
          else if len > sizeof_image_dependency mb then None
          else case mb_check_dependency mb candidates area off len b of
            (Some st, b) \<Rightarrow> Some (Some st, b)
          | (None, b) \<Rightarrow> mb_dependencies mb candidates area it b)"

fun mb_check_candidates :: "('d, 'it, 'op) mcuboot_env \<Rightarrow> nat list \<Rightarrow> nat list \<Rightarrow> 'd mcuboot_state \<Rightarrow> (psa_status_t option \<times> 'd mcuboot_state) option" where
  "mb_check_candidates mb candidates [] b = Some (None, b)"
| "mb_check_candidates mb candidates (component # cs) b =
     (if component \<ge> MCUBOOT_IMAGE_NUMBER mb then Some (Some (psa_error_code PSA_ERROR_INVALID_ARGUMENT), b)
      else case mb_fap b component of
        None \<Rightarrow> Some (Some (psa_error_code PSA_ERROR_INVALID_ARGUMENT), b)
      | Some area \<Rightarrow>
          case on_mflash (flash_area_read (mb_map mb) area 0 (sizeof_image_header mb)) b of
            ((r, hdr), b) \<Rightarrow>
              if r \<noteq> 0 then Some (Some (psa_error_code PSA_ERROR_STORAGE_FAILURE), b)
              else if ih_magic mb hdr \<noteq> IMAGE_MAGIC mb then Some (Some (psa_error_code PSA_ERROR_DATA_CORRUPT), b)
              else case bootutil_tlv_iter_begin mb hdr area (mflash b) of
                (rc, it) \<Rightarrow>
                  if rc \<noteq> 0 then Some (Some (psa_error_code PSA_ERROR_STORAGE_FAILURE), b)
                  else Option.bind (mb_dependencies mb candidates area it b) (\<lambda>(r, b).
                    case r of Some st \<Rightarrow> Some (Some st, b) | None \<Rightarrow> mb_check_candidates mb candidates cs b))"

fun mb_reject_first :: "('d, 'it, 'op) mcuboot_env \<Rightarrow> nat list \<Rightarrow> 'd mcuboot_state \<Rightarrow> 'd mcuboot_state" where
  "mb_reject_first mb [] b = b"
| "mb_reject_first mb (c # cs) b =
     (case fwu_bootloader_reject_staged_image mb c b of (st, b) \<Rightarrow> if st \<noteq> PSA_SUCCESS then b else mb_reject_first mb cs b)"

fun mb_set_pending :: "('d, 'it, 'op) mcuboot_env \<Rightarrow> nat list \<Rightarrow> nat list \<Rightarrow> 'd mb_op" where
  "mb_set_pending mb installed [] b = (PSA_SUCCESS_REBOOT, b)"
| "mb_set_pending mb installed (c # cs) b =
     (case on_mflash (boot_set_pending_multi mb c False) b of
        (r, b) \<Rightarrow>
          if r \<noteq> 0 then (psa_error_code PSA_ERROR_STORAGE_FAILURE, mb_reject_first mb installed b)
          else mb_set_pending mb (installed @ [c]) cs b)"

definition fwu_bootloader_install_image :: "('d, 'it, 'op) mcuboot_env \<Rightarrow> nat list \<Rightarrow> 'd mcuboot_state \<Rightarrow> (psa_status_t \<times> 'd mcuboot_state) option" where
  "fwu_bootloader_install_image mb candidates b =
     Option.bind (if MCUBOOT_IMAGE_NUMBER mb > 1 then mb_check_candidates mb candidates candidates b else Some (None, b)) (\<lambda>(r, b).
       case r of Some st \<Rightarrow> Some (st, b) | None \<Rightarrow> Some (mb_set_pending mb [] candidates b))"

section \<open>Accepting\<close>

definition mb_revert :: "('d, 'it, 'op) mcuboot_env \<Rightarrow> bool" where
  "mb_revert mb = (MCUBOOT_DIRECT_XIP mb \<and> MCUBOOT_DIRECT_XIP_REVERT mb \<or> MCUBOOT_SWAP_USING_SCRATCH mb \<or> MCUBOOT_SWAP_USING_MOVE mb)"

fun mb_open_trials :: "('d, 'it, 'op) mcuboot_env \<Rightarrow> nat list \<Rightarrow> 'd mb_op" where
  "mb_open_trials mb [] b = (PSA_SUCCESS, b)"
| "mb_open_trials mb (c # cs) b =
     (if c \<ge> MCUBOOT_IMAGE_NUMBER mb then (psa_error_code PSA_ERROR_INVALID_ARGUMENT, b)
      else case flash_area_open (mb_map mb) (FLASH_AREA_IMAGE_SECONDARY mb c) of
        None \<Rightarrow> (psa_error_code PSA_ERROR_STORAGE_FAILURE, b)
      | Some area \<Rightarrow> mb_open_trials mb cs (set_mb c (\<lambda>x. x\<lparr>fap := Some area\<rparr>) b))"

text \<open>
  After a failure the code erases the flag of the image that failed (not of the images confirmed
  before), once for each of those, up to the first error.
\<close>

fun mb_erase_oks :: "('d, 'it, 'op) mcuboot_env \<Rightarrow> nat \<Rightarrow> nat \<Rightarrow> 'd mcuboot_state \<Rightarrow> 'd mcuboot_state" where
  "mb_erase_oks mb c 0 b = b"
| "mb_erase_oks mb c (Suc n) b =
     (case mb_fap b c of
        None \<Rightarrow> b
      | Some area \<Rightarrow> case erase_image_ok mb area b of (st, b) \<Rightarrow> if st \<noteq> 0 then b else mb_erase_oks mb c n b)"

fun mb_confirm :: "('d, 'it, 'op) mcuboot_env \<Rightarrow> nat \<Rightarrow> nat list \<Rightarrow> 'd mb_op" where
  "mb_confirm mb i [] b = (PSA_SUCCESS, b)"
| "mb_confirm mb i (c # cs) b =
     (case on_mflash (boot_set_confirmed_multi mb c) b of
        (r, b) \<Rightarrow>
          if r \<noteq> 0 then (psa_error_code PSA_ERROR_STORAGE_FAILURE, mb_erase_oks mb c i b)
          else mb_confirm mb (Suc i) cs b)"

definition fwu_bootloader_mark_image_accepted :: "('d, 'it, 'op) mcuboot_env \<Rightarrow> nat list \<Rightarrow> 'd mb_op" where
  "fwu_bootloader_mark_image_accepted mb trials b =
     (if mb_revert mb then
        case mb_open_trials mb trials b of
          (st, b) \<Rightarrow> if st \<noteq> PSA_SUCCESS then (st, b) else mb_confirm mb 0 trials b
      else (PSA_SUCCESS, b))"

section \<open>Information and cleaning\<close>

text \<open>The blocks of the loop of \<open>util_img_hash\<close>: offset and size.\<close>

definition hash_blocks :: "nat \<Rightarrow> nat \<Rightarrow> (nat \<times> nat) list" where
  "hash_blocks n k = map (\<lambda>i. (i * k, min k (n - i * k))) [0..<(n + k - 1) div k]"

fun mb_hash_blocks :: "('d, 'it, 'op) mcuboot_env \<Rightarrow> 'd flash_area \<Rightarrow> (nat \<times> nat) list \<Rightarrow> 'op \<Rightarrow> 'd mcuboot_state
    \<Rightarrow> (psa_status_t + 'op) \<times> 'd mcuboot_state" where
  "mb_hash_blocks mb area [] h b = (Inr h, b)"
| "mb_hash_blocks mb area ((off, n) # xs) h b =
     (case on_mflash (flash_area_read (mb_map mb) area off n) b of
        ((r, bs), b) \<Rightarrow>
          if r \<noteq> 0 then (Inl (psa_error_code PSA_ERROR_STORAGE_FAILURE), b)
          else case psa_hash_update mb h bs of
            (st, h) \<Rightarrow> if st \<noteq> PSA_SUCCESS then (Inl st, b) else mb_hash_blocks mb area xs h b)"

definition util_img_hash :: "('d, 'it, 'op) mcuboot_env \<Rightarrow> 'd flash_area \<Rightarrow> nat \<Rightarrow> 'd mcuboot_state \<Rightarrow> (psa_status_t \<times> byte list) \<times> 'd mcuboot_state" where
  "util_img_hash mb area data_size b =
     (case psa_hash_setup mb of
        (st, h) \<Rightarrow>
          if st \<noteq> PSA_SUCCESS then ((st, []), b)
          else case mb_hash_blocks mb area (hash_blocks data_size (BOOT_TMPBUF_SZ mb)) h b of
            (Inl st, b) \<Rightarrow> ((st, []), b)
          | (Inr h, b) \<Rightarrow> (psa_hash_finish mb h, b))"

text \<open>The digest replaces the first bytes of the digest in the information.\<close>

definition get_second_image_digest :: "('d, 'it, 'op) mcuboot_env \<Rightarrow> nat \<Rightarrow> psa_fwu_component_info_t \<Rightarrow> 'd mcuboot_state
    \<Rightarrow> (psa_status_t \<times> psa_fwu_component_info_t) \<times> 'd mcuboot_state" where
  "get_second_image_digest mb component info b =
     (if component \<ge> MCUBOOT_IMAGE_NUMBER mb \<or> mb_fap b component = None then ((psa_error_code PSA_ERROR_INVALID_ARGUMENT, info), b)
      else case flash_area_open (mb_map mb) (FLASH_AREA_IMAGE_SECONDARY mb component) of
        None \<Rightarrow> ((psa_error_code PSA_ERROR_STORAGE_FAILURE, info), b)
      | Some area \<Rightarrow>
          case util_img_hash mb area (loaded_size (mcuboot_ctx b ! component)) b of
            ((st, hash), b) \<Rightarrow>
              if st = PSA_SUCCESS then ((PSA_SUCCESS, info\<lparr>info_digest := hash @ drop (length hash) (info_digest info)\<rparr>), b)
              else ((psa_error_code PSA_ERROR_STORAGE_FAILURE, info), b))"

definition fwu_bootloader_get_image_info :: "('d, 'it, 'op) mcuboot_env \<Rightarrow> nat \<Rightarrow> bool \<Rightarrow> bool \<Rightarrow> psa_fwu_component_info_t \<Rightarrow> 'd mcuboot_state
    \<Rightarrow> (psa_status_t \<times> psa_fwu_component_info_t) \<times> 'd mcuboot_state" where
  "fwu_bootloader_get_image_info mb component query_state query_impl_info info b =
     (if component \<ge> MCUBOOT_IMAGE_NUMBER mb then ((psa_error_code PSA_ERROR_INVALID_ARGUMENT, info), b)
      else case flash_area_open (mb_map mb) (FLASH_AREA_IMAGE_PRIMARY mb component) of
        None \<Rightarrow> ((psa_error_code PSA_ERROR_STORAGE_FAILURE, info), b)
      | Some area \<Rightarrow>
          let info = info\<lparr>info_max_size := fa_size area, info_location := fa_id area, info_flags := PSA_FWU_FLAG_VOLATILE_STAGING\<rparr>;
              swap = (\<not> MCUBOOT_DIRECT_XIP mb \<and> \<not> MCUBOOT_RAM_LOAD mb \<and> \<not> MCUBOOT_OVERWRITE_ONLY mb)
          in if query_state \<and> swap \<and> fst (boot_read_image_ok mb area (mflash b)) \<noteq> 0
             then ((psa_error_code PSA_ERROR_STORAGE_FAILURE, info), b)
             else
               let info = (if query_state
                           then info\<lparr>info_state := (if swap \<and> snd (boot_read_image_ok mb area (mflash b)) \<noteq> BOOT_FLAG_SET mb then PSA_FWU_TRIAL
                                                      else PSA_FWU_READY)\<rparr>
                           else info)
               in case get_active_image_version mb component b of
                    None \<Rightarrow> ((psa_error_code PSA_ERROR_STORAGE_FAILURE, info), b)
                  | Some v \<Rightarrow>
                      let info = info\<lparr>info_version := \<lparr>ver_major = word_of_nat (iv_major v), ver_minor = word_of_nat (iv_minor v),
                                                        ver_patch = iv_revision v, ver_build = iv_build_num v\<rparr>\<rparr>
                      in if query_impl_info then get_second_image_digest mb component info b else ((PSA_SUCCESS, info), b))"

definition fwu_bootloader_clean_component :: "('d, 'it, 'op) mcuboot_env \<Rightarrow> nat \<Rightarrow> 'd mb_op" where
  "fwu_bootloader_clean_component mb component b =
     (if component \<ge> MCUBOOT_IMAGE_NUMBER mb then (psa_error_code PSA_ERROR_INVALID_ARGUMENT, b)
      else case mb_fap b component of
        None \<Rightarrow> (psa_error_code PSA_ERROR_DOES_NOT_EXIST, b)
      | Some area \<Rightarrow>
          case on_mflash (flash_area_erase (mb_map mb) area 0 (fa_size area)) b of
            (r, b) \<Rightarrow>
              if r \<noteq> 0 then (psa_error_code PSA_ERROR_STORAGE_FAILURE, b)
              else (PSA_SUCCESS, set_mb component (\<lambda>c. c\<lparr>fap := None\<rparr>) b))"

text \<open>The result of the erase does not matter for an abort.\<close>

definition fwu_bootloader_abort :: "('d, 'it, 'op) mcuboot_env \<Rightarrow> nat \<Rightarrow> 'd mb_op" where
  "fwu_bootloader_abort mb component b =
     (if component \<ge> MCUBOOT_IMAGE_NUMBER mb then (psa_error_code PSA_ERROR_INVALID_ARGUMENT, b)
      else case mb_fap b component of
        None \<Rightarrow> (psa_error_code PSA_ERROR_INVALID_ARGUMENT, b)
      | Some area \<Rightarrow>
          (PSA_SUCCESS, set_mb component (\<lambda>c. c\<lparr>fap := None, loaded_size := 0\<rparr>) (snd (on_mflash (flash_area_erase (mb_map mb) area 0 (fa_size area)) b))))"

section \<open>The interface of the service\<close>

definition mcuboot_fwu_env :: "('d, 'it, 'op) mcuboot_env \<Rightarrow> ('d mcuboot_state, 'r) fwu_env \<Rightarrow> ('d mcuboot_state, 'r) fwu_env" where
  "mcuboot_fwu_env mb env =
     env\<lparr>bl_get_image_info := fwu_bootloader_get_image_info mb, bl_staging_area_init := fwu_bootloader_staging_area_init mb,
         bl_load_image := fwu_bootloader_load_image mb, bl_install_image := fwu_bootloader_install_image mb,
         bl_mark_image_accepted := fwu_bootloader_mark_image_accepted mb, bl_reject_staged_image := fwu_bootloader_reject_staged_image mb,
         bl_reject_trial_image := fwu_bootloader_reject_trial_image mb, bl_clean_component := fwu_bootloader_clean_component mb,
         bl_init := fwu_bootloader_init mb, FWU_COMPONENT_NUMBER := MCUBOOT_IMAGE_NUMBER mb\<rparr>"

end
