(* ===== verification/FWU_Machine.thy ===== *)
theory FWU_Machine
  imports FWU_Service SPM_Request
begin

text \<open>
  The state machine of Firmware Update. The component states of the PSA Firmware Update API and the
  transitions each request may take, with the status it returns, are an inductive relation; every
  request of the service, whatever its message and whatever the boot loader does, takes only these
  transitions.
\<close>

section \<open>The specification\<close>

text \<open>What the service knows of a component: nothing, when it is not being updated, or its state.\<close>

definition fwu_view :: "('b, 'r) fwu_state \<Rightarrow> nat \<Rightarrow> psa_fwu_state option" where
  "fwu_view s c = (if in_use (comp_ctx s c) then Some (component_state (comp_ctx s c)) else None)"

definition fwu_reboot :: "psa_status_t \<Rightarrow> bool" where
  "fwu_reboot st = (st = PSA_SUCCESS_REBOOT \<or> st = PSA_SUCCESS_RESTART)"

inductive fwu_step :: "int \<Rightarrow> psa_status_t \<Rightarrow> psa_fwu_state option \<Rightarrow> psa_fwu_state option \<Rightarrow> bool" where
  fwu_stay: "fwu_step ty st x x"
| fwu_start: "fwu_step TFM_FWU_START PSA_SUCCESS None (Some PSA_FWU_WRITING)"
| fwu_finish: "fwu_step TFM_FWU_FINISH PSA_SUCCESS (Some PSA_FWU_WRITING) (Some PSA_FWU_CANDIDATE)"
| fwu_cancel: "x = PSA_FWU_WRITING \<or> x = PSA_FWU_CANDIDATE \<Longrightarrow> fwu_step TFM_FWU_CANCEL PSA_SUCCESS (Some x) (Some PSA_FWU_FAILED)"
| fwu_installed_now: "y = PSA_FWU_TRIAL \<or> y = PSA_FWU_UPDATED \<Longrightarrow> fwu_step TFM_FWU_INSTALL PSA_SUCCESS (Some PSA_FWU_CANDIDATE) (Some y)"
| fwu_staged: "fwu_reboot st \<Longrightarrow> fwu_step TFM_FWU_INSTALL st (Some PSA_FWU_CANDIDATE) (Some PSA_FWU_STAGED)"
| fwu_not_installed: "st \<noteq> PSA_SUCCESS \<Longrightarrow> \<not> fwu_reboot st \<Longrightarrow> st \<noteq> PSA_ERROR_DEPENDENCY_NEEDED \<Longrightarrow>
    fwu_step TFM_FWU_INSTALL st (Some PSA_FWU_CANDIDATE) (Some PSA_FWU_FAILED)"
| fwu_accepted: "x = None \<or> x = Some PSA_FWU_TRIAL \<Longrightarrow> fwu_step TFM_FWU_ACCEPT PSA_SUCCESS x (Some PSA_FWU_UPDATED)"
| fwu_not_accepted: "st \<noteq> PSA_SUCCESS \<Longrightarrow> fwu_step TFM_FWU_ACCEPT st None (Some PSA_FWU_TRIAL)"
| fwu_reject_staged: "fwu_step TFM_FWU_REJECT st (Some PSA_FWU_STAGED) (Some PSA_FWU_FAILED)"
| fwu_rejected: "x = None \<or> x = Some PSA_FWU_TRIAL \<Longrightarrow> y = PSA_FWU_REJECTED \<or> y = PSA_FWU_FAILED \<Longrightarrow> fwu_step TFM_FWU_REJECT st x (Some y)"
| fwu_not_rejected: "st \<noteq> PSA_SUCCESS \<Longrightarrow> \<not> fwu_reboot st \<Longrightarrow> fwu_step TFM_FWU_REJECT st None (Some PSA_FWU_TRIAL)"
| fwu_clean: "x = PSA_FWU_FAILED \<or> x = PSA_FWU_UPDATED \<Longrightarrow> fwu_step TFM_FWU_CLEAN PSA_SUCCESS (Some x) None"

section \<open>Helpers\<close>

lemma set_comp_sel [simp]:
  "length (fwu_ctx (set_comp c f s)) = length (fwu_ctx s)" "boot (set_comp c f s) = boot s" "fwu_req (set_comp c f s) = fwu_req s"
  "c < length (fwu_ctx s) \<Longrightarrow> comp_ctx (set_comp c f s) d = (if d = c then f (comp_ctx s c) else comp_ctx s d)"
  by (simp_all add: set_comp_def comp_ctx_def nth_list_update)

lemma bl_call_ctx:
  assumes "bl_call f s = (r, t)"
  shows "fwu_ctx t = fwu_ctx s" "fwu_req t = fwu_req s"
  using assms by (auto simp: bl_call_def split: prod.splits)

lemma read_local_ctx: "read_local env i n s = Some (x, t) \<Longrightarrow> fwu_ctx t = fwu_ctx s \<and> boot t = boot s"
  by (auto simp: read_local_def bind_eq_Some_conv)

lemma read_component_ctx: "read_component env s = Some (x, t) \<Longrightarrow> fwu_ctx t = fwu_ctx s \<and> boot t = boot s"
  by (auto simp: read_component_def bind_eq_Some_conv dest: read_local_ctx)

lemma comp_ctx_cong: "fwu_ctx t = fwu_ctx s \<Longrightarrow> comp_ctx t = comp_ctx s"
  by (simp add: comp_ctx_def fun_eq_iff)

lemma view_cong: "fwu_ctx t = fwu_ctx s \<Longrightarrow> fwu_view t = fwu_view s"
  by (simp add: fwu_view_def comp_ctx_def fun_eq_iff)

text \<open>What a request may do to the contexts.\<close>

definition fwu_moves :: "('b, 'r) fwu_env \<Rightarrow> int \<Rightarrow> psa_status_t \<Rightarrow> ('b, 'r) fwu_state \<Rightarrow> ('b, 'r) fwu_state \<Rightarrow> bool" where
  "fwu_moves env ty st s t \<longleftrightarrow> length (fwu_ctx t) = length (fwu_ctx s)
     \<and> (\<forall>c < FWU_COMPONENT_NUMBER env. fwu_step ty st (fwu_view s c) (fwu_view t c))"

lemma fwu_moves_same: "fwu_ctx t = fwu_ctx s \<Longrightarrow> fwu_moves env ty st s t"
  using view_cong[of t s] by (simp add: fwu_moves_def fwu_stay)

lemma fwu_moves_one:
  assumes "c < length (fwu_ctx s)" "fwu_ctx s = fwu_ctx s'"
    and "fwu_step ty st (fwu_view s c) (let x = f (comp_ctx s c) in if in_use x then Some (component_state x) else None)"
  shows "fwu_moves env ty st s' (set_comp c f s)"
proof -
  have v: "fwu_view (set_comp c f s) d = (if d = c then let x = f (comp_ctx s c) in if in_use x then Some (component_state x) else None else fwu_view s d)" for d
    using assms(1) by (simp add: fwu_view_def Let_def)
  have "fwu_step ty st (fwu_view s d) (fwu_view (set_comp c f s) d)" for d
    using assms(3) unfolding v by (cases "d = c") (simp_all add: fwu_stay)
  then show ?thesis using assms(2) view_cong[OF assms(2)] by (simp add: fwu_moves_def)
qed

section \<open>Single components\<close>

lemmas fwu_ctx_dest = bl_call_ctx(1) read_local_ctx read_component_ctx

text \<open>Where an operation changes one context, and where it changes none.\<close>

lemma move_one:
  assumes "\<not> FWU_COMPONENT_NUMBER env \<le> c" "fwu_ctx s2 = fwu_ctx s" "length (fwu_ctx s) = FWU_COMPONENT_NUMBER env"
    and "fwu_step ty st (fwu_view s c) (let x = f (comp_ctx s c) in if in_use x then Some (component_state x) else None)"
  shows "fwu_moves env ty st s (set_comp c f s2)"
  using assms by (intro fwu_moves_one) (simp_all add: view_cong[OF assms(2)] comp_ctx_cong[OF assms(2)])

lemma start_moves:
  assumes run: "tfm_fwu_start env m s = Some (st, t)" and len: "length (fwu_ctx s) = FWU_COMPONENT_NUMBER env"
  shows "fwu_moves env TFM_FWU_START st s t"
proof -
  have *: "fwu_moves env TFM_FWU_START PSA_SUCCESS s (set_comp c (\<lambda>c. c\<lparr>in_use := True, component_state := PSA_FWU_WRITING\<rparr>) s2)"
    if "\<not> FWU_COMPONENT_NUMBER env \<le> c" "fwu_ctx s2 = fwu_ctx s" "\<not> in_use (fwu_ctx s ! c)" for c s2
    using that len by (intro move_one) (simp_all add: fwu_view_def comp_ctx_def fwu_start)
  show ?thesis using run unfolding tfm_fwu_start_def
    by (auto simp: bind_eq_Some_conv Let_def comp_ctx_def dest!: fwu_ctx_dest split: if_splits prod.splits intro: fwu_moves_same *)
qed

lemma finish_moves:
  assumes run: "tfm_fwu_finish env m s = Some (st, t)" and len: "length (fwu_ctx s) = FWU_COMPONENT_NUMBER env"
  shows "fwu_moves env TFM_FWU_FINISH st s t"
proof -
  have *: "fwu_moves env TFM_FWU_FINISH PSA_SUCCESS s (set_comp c (\<lambda>c. c\<lparr>component_state := PSA_FWU_CANDIDATE\<rparr>) s2)"
    if "\<not> FWU_COMPONENT_NUMBER env \<le> c" "fwu_ctx s2 = fwu_ctx s" "in_use (fwu_ctx s ! c)" "component_state (fwu_ctx s ! c) = PSA_FWU_WRITING" for c s2
    using that len by (intro move_one) (simp_all add: fwu_view_def comp_ctx_def fwu_finish)
  show ?thesis using run unfolding tfm_fwu_finish_def
    by (auto simp: bind_eq_Some_conv comp_ctx_def dest!: fwu_ctx_dest split: if_splits intro: fwu_moves_same *)
qed

lemma cancel_moves:
  assumes run: "tfm_fwu_cancel env m s = Some (st, t)" and len: "length (fwu_ctx s) = FWU_COMPONENT_NUMBER env"
  shows "fwu_moves env TFM_FWU_CANCEL st s t"
proof -
  have *: "fwu_moves env TFM_FWU_CANCEL PSA_SUCCESS s (set_comp c (\<lambda>c. c\<lparr>component_state := PSA_FWU_FAILED, fwu_error := PSA_SUCCESS\<rparr>) s2)"
    if "\<not> FWU_COMPONENT_NUMBER env \<le> c" "fwu_ctx s2 = fwu_ctx s" "in_use (fwu_ctx s ! c)"
      "component_state (fwu_ctx s ! c) = PSA_FWU_WRITING \<or> component_state (fwu_ctx s ! c) = PSA_FWU_CANDIDATE" for c s2
    using that len by (intro move_one) (simp_all add: fwu_view_def comp_ctx_def fwu_cancel)
  show ?thesis using run unfolding tfm_fwu_cancel_def
    by (auto simp: bind_eq_Some_conv comp_ctx_def dest!: fwu_ctx_dest split: if_splits intro: fwu_moves_same *)
qed

lemma clean_moves:
  assumes run: "tfm_fwu_clean env m s = Some (st, t)" and len: "length (fwu_ctx s) = FWU_COMPONENT_NUMBER env"
  shows "fwu_moves env TFM_FWU_CLEAN st s t"
proof -
  have *: "fwu_moves env TFM_FWU_CLEAN PSA_SUCCESS s (set_comp c (\<lambda>c. c\<lparr>component_state := PSA_FWU_READY, in_use := False\<rparr>) s2)"
    if "\<not> FWU_COMPONENT_NUMBER env \<le> c" "fwu_ctx s2 = fwu_ctx s" "in_use (fwu_ctx s ! c)"
      "component_state (fwu_ctx s ! c) = PSA_FWU_FAILED \<or> component_state (fwu_ctx s ! c) = PSA_FWU_UPDATED" for c s2
    using that len by (intro move_one) (simp_all add: fwu_view_def comp_ctx_def fwu_clean)
  show ?thesis using run unfolding tfm_fwu_clean_def
    by (auto simp: bind_eq_Some_conv comp_ctx_def dest!: fwu_ctx_dest split: if_splits prod.splits intro: fwu_moves_same *)
qed

lemma query_moves:
  assumes "tfm_fwu_query env m s = Some (st, t)"
  shows "fwu_ctx t = fwu_ctx s"
  using assms unfolding tfm_fwu_query_def
  by (auto simp: bind_eq_Some_conv Let_def dest!: fwu_ctx_dest split: if_splits prod.splits)

section \<open>All components\<close>

lemma foldl_set_comp:
  assumes "distinct cs" "\<forall>c \<in> set cs. c < length (fwu_ctx s)"
  shows "length (fwu_ctx (foldl (\<lambda>s c. set_comp c f s) s cs)) = length (fwu_ctx s)"
    "comp_ctx (foldl (\<lambda>s c. set_comp c f s) s cs) d = (if d \<in> set cs then f (comp_ctx s d) else comp_ctx s d)"
  using assms by (induction cs arbitrary: s) auto

lemma install_scan:
  assumes "fwu_install_scan env cs acc s = (r, t)"
  shows "fwu_ctx t = fwu_ctx s \<and> (\<forall>l. r = Inr l \<longrightarrow> l = acc @ filter (\<lambda>c. fwu_view s c = Some PSA_FWU_CANDIDATE) cs)"
  using assms
proof (induction cs arbitrary: acc s)
  case (Cons c cs)
  show ?case
  proof (cases "in_use (comp_ctx s c)")
    case True
    then have v: "fwu_view s c = Some (component_state (comp_ctx s c))" by (simp add: fwu_view_def)
    show ?thesis using Cons.prems Cons.IH[of acc s] Cons.IH[of "acc @ [c]" s] True by (auto simp: v split: if_splits)
  next
    case False
    obtain st info s1 where b: "bl_call (bl_get_image_info env c True False (stack_info env)) s = ((st, info), s1)" by (metis surj_pair)
    have v: "fwu_view s1 = fwu_view s" "fwu_ctx s1 = fwu_ctx s" using bl_call_ctx(1)[OF b] view_cong by auto
    have n: "fwu_view s c = None" using False by (simp add: fwu_view_def)
    show ?thesis using Cons.prems Cons.IH[of acc s1] False b v n by (auto split: if_splits)
  qed
qed auto

lemma install_moves:
  assumes run: "tfm_fwu_install env s = Some (st, t)" and len: "length (fwu_ctx s) = FWU_COMPONENT_NUMBER env"
  shows "fwu_moves env TFM_FWU_INSTALL st s t"
proof -
  obtain r s1 where sc: "fwu_install_scan env [0..<FWU_COMPONENT_NUMBER env] [] s = (r, s1)" by (metis surj_pair)
  note scan = install_scan[OF sc]
  show ?thesis
  proof (cases r)
    case (Inl e)
    then show ?thesis using run sc scan by (auto simp: tfm_fwu_install_def intro: fwu_moves_same)
  next
    case (Inr cs)
    have cs: "cs = filter (\<lambda>c. fwu_view s c = Some PSA_FWU_CANDIDATE) [0..<FWU_COMPONENT_NUMBER env]" using scan Inr by simp
    show ?thesis
    proof (cases "cs = []")
      case True
      then show ?thesis using run sc Inr scan by (auto simp: tfm_fwu_install_def intro: fwu_moves_same)
    next
      case ne: False
      then obtain st' b' where b: "bl_install_image env cs (boot s1) = Some (st', b')"
        using run sc Inr by (auto simp: tfm_fwu_install_def bind_eq_Some_conv)
      define s2 where "s2 = s1\<lparr>boot := b'\<rparr>"
      have c2: "fwu_ctx s2 = fwu_ctx s" using scan by (simp add: s2_def)
      show ?thesis
      proof (cases "st' = PSA_ERROR_DEPENDENCY_NEEDED")
        case True
        then show ?thesis using run sc Inr b c2 ne by (auto simp: tfm_fwu_install_def s2_def intro: fwu_moves_same)
      next
      case False
      then have t: "t = foldl (\<lambda>s c. set_comp c (fwu_installed env st) s) s2 cs" "st = st'"
        using run sc Inr b ne by (auto simp: tfm_fwu_install_def s2_def)
      have d: "distinct cs" "\<forall>c \<in> set cs. c < length (fwu_ctx s2)" using cs len c2 by auto
      note f = foldl_set_comp[OF d, of "fwu_installed env st"]
      have "fwu_step TFM_FWU_INSTALL st (fwu_view s c) (fwu_view t c)" for c
      proof (cases "c \<in> set cs")
        case True
        then have v: "fwu_view s c = Some PSA_FWU_CANDIDATE" using cs by simp
        have tc: "comp_ctx t c = fwu_installed env st (comp_ctx s c)" using f(2)[of c] True t(1) comp_ctx_cong[OF c2] by simp
        have iu: "in_use (comp_ctx s c)" using v by (auto simp: fwu_view_def split: if_splits)
        show ?thesis
          using False t(2) iu by (auto simp: v fwu_view_def[of t] tc fwu_installed_def fwu_reboot_def intro: fwu_step.intros)
      next
        case False
        then have "comp_ctx t c = comp_ctx s c" using f(2)[of c] t(1) comp_ctx_cong[OF c2] by simp
        then show ?thesis by (simp add: fwu_view_def fwu_stay)
      qed
      then show ?thesis using f(1) t(1) c2 by (simp add: fwu_moves_def)
      qed
    qed
  qed
qed

text \<open>The scan of an accept request gives a context to the components in trial.\<close>

lemma accept_scan:
  assumes "fwu_accept_scan env cs acc s = (r, t)" "\<forall>c \<in> set cs. c < length (fwu_ctx s)" "distinct cs"
  shows "length (fwu_ctx t) = length (fwu_ctx s)
    \<and> (\<forall>c. fwu_view t c = fwu_view s c \<or> c \<in> set cs \<and> fwu_view s c = None \<and> fwu_view t c = Some PSA_FWU_TRIAL)
    \<and> (\<forall>l. r = Inr l \<longrightarrow> l = acc @ filter (\<lambda>c. fwu_view t c = Some PSA_FWU_TRIAL) cs)"
  using assms
proof (induction cs arbitrary: acc s)
  case (Cons c cs)
  show ?case
  proof (cases "in_use (comp_ctx s c)")
    case True
    define acc' where "acc' = (if component_state (comp_ctx s c) = PSA_FWU_TRIAL then acc @ [c] else acc)"
    have run: "fwu_accept_scan env cs acc' s = (r, t)" using Cons.prems(1) True by (simp add: acc'_def)
    have ih: "length (fwu_ctx t) = length (fwu_ctx s)"
      "\<forall>c. fwu_view t c = fwu_view s c \<or> c \<in> set cs \<and> fwu_view s c = None \<and> fwu_view t c = Some PSA_FWU_TRIAL"
      "\<forall>l. r = Inr l \<longrightarrow> l = acc' @ filter (\<lambda>c. fwu_view t c = Some PSA_FWU_TRIAL) cs"
      using Cons.IH[OF run] Cons.prems(2,3) by auto
    have "c \<notin> set cs" using Cons.prems(3) by simp
    then have "fwu_view t c = Some (component_state (comp_ctx s c))" using spec[OF ih(2), of c] True by (simp add: fwu_view_def[of s c])
    then show ?thesis using ih by (auto simp: acc'_def)
  next
    case False
    obtain st info s1 where b: "bl_call (bl_get_image_info env c True False (stack_info env)) s = ((st, info), s1)" by (metis surj_pair)
    have v: "fwu_view s1 = fwu_view s" "fwu_ctx s1 = fwu_ctx s" using bl_call_ctx(1)[OF b] view_cong by auto
    have n: "fwu_view s c = None" "c \<notin> set cs" using False Cons.prems(3) by (simp_all add: fwu_view_def)
    consider (err) "st \<noteq> PSA_SUCCESS" | (trial) "st = PSA_SUCCESS" "info_state info = PSA_FWU_TRIAL"
      | (other) "st = PSA_SUCCESS" "info_state info \<noteq> PSA_FWU_TRIAL" by blast
    then show ?thesis
    proof cases
      case err
      then have "r = Inl st" "t = s1" using Cons.prems(1) False b by auto
      then show ?thesis using v by auto
    next
      case trial
      define s2 where "s2 = set_comp c (\<lambda>c. c\<lparr>in_use := True, component_state := PSA_FWU_TRIAL\<rparr>) s1"
      have run: "fwu_accept_scan env cs (acc @ [c]) s2 = (r, t)" using Cons.prems(1) False b trial by (simp add: s2_def)
      have v2: "length (fwu_ctx s2) = length (fwu_ctx s)" "\<forall>d. fwu_view s2 d = (if d = c then Some PSA_FWU_TRIAL else fwu_view s d)"
        using Cons.prems(2) v comp_ctx_cong[OF v(2)] by (auto simp: s2_def fwu_view_def)
      have ih: "length (fwu_ctx t) = length (fwu_ctx s2)"
        "\<forall>c. fwu_view t c = fwu_view s2 c \<or> c \<in> set cs \<and> fwu_view s2 c = None \<and> fwu_view t c = Some PSA_FWU_TRIAL"
        "\<forall>l. r = Inr l \<longrightarrow> l = (acc @ [c]) @ filter (\<lambda>c. fwu_view t c = Some PSA_FWU_TRIAL) cs"
        using Cons.IH[OF run] Cons.prems(2,3) v2(1) by auto
      have "fwu_view t c = Some PSA_FWU_TRIAL" using spec[OF ih(2), of c] v2(2) n(2) by auto
      then show ?thesis using ih v2 n(1) by (auto split: if_splits)
    next
      case other
      then have run: "fwu_accept_scan env cs acc s1 = (r, t)" using Cons.prems(1) False b by simp
      have ih: "length (fwu_ctx t) = length (fwu_ctx s1)"
        "\<forall>c. fwu_view t c = fwu_view s1 c \<or> c \<in> set cs \<and> fwu_view s1 c = None \<and> fwu_view t c = Some PSA_FWU_TRIAL"
        "\<forall>l. r = Inr l \<longrightarrow> l = acc @ filter (\<lambda>c. fwu_view t c = Some PSA_FWU_TRIAL) cs"
        using Cons.IH[OF run] Cons.prems(2,3) v(2) by auto
      have "fwu_view t c = None" using spec[OF ih(2), of c] n v(1) by auto
      then show ?thesis using ih v by auto
    qed
  qed
qed auto

lemma accept_scan_error: "fwu_accept_scan env cs acc s = (Inl e, t) \<Longrightarrow> e \<noteq> PSA_SUCCESS"
  by (induction cs arbitrary: acc s) (auto split: if_splits prod.splits)

lemma accept_moves:
  assumes run: "tfm_fwu_accept env s = Some (st, t)" and len: "length (fwu_ctx s) = FWU_COMPONENT_NUMBER env"
  shows "fwu_moves env TFM_FWU_ACCEPT st s t"
proof (cases "FWU_SUPPORT_TRIAL_STATE env")
  case False
  then show ?thesis using run by (simp add: tfm_fwu_accept_def fwu_moves_same)
next
  case True
  obtain r s1 where sc: "fwu_accept_scan env [0..<FWU_COMPONENT_NUMBER env] [] s = (r, s1)" by (metis surj_pair)
  have scan: "length (fwu_ctx s1) = length (fwu_ctx s)"
    "\<forall>c. fwu_view s1 c = fwu_view s c \<or> fwu_view s c = None \<and> fwu_view s1 c = Some PSA_FWU_TRIAL"
    "\<forall>l. r = Inr l \<longrightarrow> l = filter (\<lambda>c. fwu_view s1 c = Some PSA_FWU_TRIAL) [0..<FWU_COMPONENT_NUMBER env]"
    using accept_scan[OF sc] len by auto
  have err: "fwu_moves env TFM_FWU_ACCEPT e s s2" if "e \<noteq> PSA_SUCCESS" "fwu_ctx s2 = fwu_ctx s1" for e s2
    using scan(1,2) that view_cong[OF that(2)] by (auto simp: fwu_moves_def intro: fwu_step.intros) (metis fwu_stay fwu_not_accepted)
  show ?thesis
  proof (cases r)
    case (Inl e)
    have "e \<noteq> PSA_SUCCESS" using sc Inl accept_scan_error by blast
    then show ?thesis using run sc Inl err[of e s1] True by (simp add: tfm_fwu_accept_def)
  next
    case (Inr cs)
    obtain st' s2 where b: "bl_call (bl_mark_image_accepted env cs) s1 = (st', s2)" by (metis surj_pair)
    note c2 = bl_call_ctx(1)[OF b]
    show ?thesis
    proof (cases "cs = [] \<or> st' \<noteq> PSA_SUCCESS")
      case bad: True
      then show ?thesis using run sc Inr b True c2 err[of _ s1] err[of st' s2]
        by (auto simp: tfm_fwu_accept_def PSA_SUCCESS_def split: if_splits)
    next
      case False
      then have t: "st = PSA_SUCCESS" "t = foldl (\<lambda>s c. set_comp c (\<lambda>x. x\<lparr>component_state := PSA_FWU_UPDATED\<rparr>) s) s2 cs"
        using run sc Inr b True by (auto simp: tfm_fwu_accept_def)
      have cs: "cs = filter (\<lambda>c. fwu_view s1 c = Some PSA_FWU_TRIAL) [0..<FWU_COMPONENT_NUMBER env]" using scan(3) Inr by simp
      have d: "distinct cs" "\<forall>c \<in> set cs. c < length (fwu_ctx s2)" using cs len c2 scan(1) by auto
      note f = foldl_set_comp[OF d, of "\<lambda>x. x\<lparr>component_state := PSA_FWU_UPDATED\<rparr>", folded t(2)]
      have "fwu_step TFM_FWU_ACCEPT st (fwu_view s c) (fwu_view t c)" if c: "c < FWU_COMPONENT_NUMBER env" for c
      proof (cases "c \<in> set cs")
        case True
        then have v: "fwu_view s1 c = Some PSA_FWU_TRIAL" using cs by simp
        then have "in_use (comp_ctx s1 c)" by (auto simp: fwu_view_def split: if_splits)
        then have "fwu_view t c = Some PSA_FWU_UPDATED" using True comp_ctx_cong[OF c2] by (simp add: fwu_view_def f(2))
        moreover have "fwu_view s c = None \<or> fwu_view s c = Some PSA_FWU_TRIAL" using spec[OF scan(2), of c] v by auto
        ultimately show ?thesis using t(1) by (simp add: fwu_accepted)
      next
        case False
        then have "fwu_view s1 c \<noteq> Some PSA_FWU_TRIAL" using cs c by auto
        then have "fwu_view s1 c = fwu_view s c" using spec[OF scan(2), of c] by auto
        moreover have "fwu_view t c = fwu_view s1 c" using False comp_ctx_cong[OF c2] by (simp add: fwu_view_def f(2))
        ultimately show ?thesis by (simp add: fwu_stay)
      qed
      then show ?thesis using f(1) c2 scan(1) by (simp add: fwu_moves_def)
    qed
  qed
qed

text \<open>The loop of a reject request.\<close>

lemma reject_trial_view:
  assumes "fwu_reject_trial env err c s = (r, t)" "c < length (fwu_ctx s)" "in_use (comp_ctx s c)"
  shows "length (fwu_ctx t) = length (fwu_ctx s) \<and> (\<forall>d. d \<noteq> c \<longrightarrow> fwu_view t d = fwu_view s d)
    \<and> (case r of Inr st \<Rightarrow> fwu_view t c = Some PSA_FWU_REJECTED \<or> fwu_view t c = Some PSA_FWU_FAILED
        | Inl st \<Rightarrow> st \<noteq> PSA_SUCCESS \<and> \<not> fwu_reboot st \<and> fwu_view t c = fwu_view s c)"
proof -
  obtain st s1 where b: "bl_call (bl_reject_trial_image env c) s = (st, s1)" by (metis surj_pair)
  note c1 = bl_call_ctx(1)[OF b] comp_ctx_cong[OF bl_call_ctx(1)[OF b]]
  show ?thesis using assms b c1 by (auto simp: fwu_reject_trial_def fwu_view_def fwu_reboot_def split: if_splits)
qed

lemma reject_loop:
  assumes "fwu_reject_loop env err cs st0 fd s = (r, t)" "\<forall>c \<in> set cs. c < length (fwu_ctx s)" "distinct cs"
  shows "length (fwu_ctx t) = length (fwu_ctx s) \<and> (\<forall>c. c \<notin> set cs \<longrightarrow> fwu_view t c = fwu_view s c)
    \<and> (\<forall>c. fwu_step TFM_FWU_REJECT (case r of Inl st \<Rightarrow> st | Inr _ \<Rightarrow> st1) (fwu_view s c) (fwu_view t c))"
  using assms
proof (induction cs arbitrary: st0 fd s)
  case Nil
  then show ?case by (auto simp: fwu_stay)
next
  case (Cons c cs)
  let ?st = "case r of Inl st \<Rightarrow> st | Inr _ \<Rightarrow> st1"
  have nc: "c \<notin> set cs" "c < length (fwu_ctx s)" using Cons.prems(2,3) by auto
  text \<open>One iteration that leaves the others alone, then the rest.\<close>
  have rest: ?case
    if run: "fwu_reject_loop env err cs st' fd' u = (r, t)" and u: "length (fwu_ctx u) = length (fwu_ctx s)"
      "\<forall>d. d \<noteq> c \<longrightarrow> fwu_view u d = fwu_view s d" "fwu_step TFM_FWU_REJECT ?st (fwu_view s c) (fwu_view u c)" for st' fd' u
  proof -
    have ih: "length (fwu_ctx t) = length (fwu_ctx u)" "\<forall>c. c \<notin> set cs \<longrightarrow> fwu_view t c = fwu_view u c"
      "\<forall>c. fwu_step TFM_FWU_REJECT ?st (fwu_view u c) (fwu_view t c)"
      using Cons.IH[OF run] Cons.prems(2,3) u(1) by auto
    have "fwu_step TFM_FWU_REJECT ?st (fwu_view s d) (fwu_view t d)" for d
      using ih(2,3) u(2,3) nc(1) by (cases "d = c") metis+
    then show ?thesis using ih u by auto
  qed
  show ?case
  proof (cases "in_use (comp_ctx s c)")
    case True
    then have v: "fwu_view s c = Some (component_state (comp_ctx s c))" by (simp add: fwu_view_def)
    consider (staged) "component_state (comp_ctx s c) = PSA_FWU_STAGED" | (trial) "component_state (comp_ctx s c) = PSA_FWU_TRIAL"
      | (other) "component_state (comp_ctx s c) \<noteq> PSA_FWU_STAGED" "component_state (comp_ctx s c) \<noteq> PSA_FWU_TRIAL" by blast
    then show ?thesis
    proof cases
      case staged
      define s1 where "s1 = set_comp c (\<lambda>c. c\<lparr>component_state := PSA_FWU_FAILED, fwu_error := err\<rparr>) s"
      obtain st s2 where b: "bl_call (bl_reject_staged_image env c) s1 = (st, s2)" by (metis surj_pair)
      have u: "length (fwu_ctx s2) = length (fwu_ctx s)" "\<forall>d. d \<noteq> c \<longrightarrow> fwu_view s2 d = fwu_view s d"
        "\<And>x. fwu_step TFM_FWU_REJECT x (fwu_view s c) (fwu_view s2 c)"
        using bl_call_ctx(1)[OF b] comp_ctx_cong[OF bl_call_ctx(1)[OF b]] nc(2) True v staged
        by (auto simp: s1_def fwu_view_def intro: fwu_reject_staged)
      show ?thesis
      proof (cases "st = PSA_SUCCESS")
        case ok: True
        then show ?thesis using Cons.prems(1) True staged b u by (intro rest[of st True s2]) (simp_all add: s1_def)
      next
        case False
        then have rt: "r = Inl st" "t = s2" using Cons.prems(1) True staged b by (simp_all add: s1_def)
        have "fwu_step TFM_FWU_REJECT st (fwu_view s d) (fwu_view s2 d)" for d using u(2,3) by (cases "d = c") (auto simp: fwu_stay)
        then show ?thesis using rt u by auto
      qed
    next
      case trial
      obtain r1 s1 where b: "fwu_reject_trial env err c s = (r1, s1)" by (metis surj_pair)
      note rt = reject_trial_view[OF b nc(2) True]
      show ?thesis
      proof (cases r1)
        case (Inr st)
        have "fwu_step TFM_FWU_REJECT x (fwu_view s c) (fwu_view s1 c)" for x
          using rt Inr v trial by (auto intro: fwu_rejected)
        then show ?thesis using Cons.prems(1) True trial b Inr rt by (intro rest[of st True s1]) simp_all
      next
        case (Inl st)
        then have "r = Inl st" "t = s1" using Cons.prems(1) True trial b by simp_all
        moreover have "fwu_view s1 d = fwu_view s d" for d using rt Inl by (cases "d = c") auto
        ultimately show ?thesis using rt by (simp add: fwu_stay)
      qed
    next
      case other
      then show ?thesis using Cons.prems(1) True by (intro rest[of st0 fd s]) (simp_all add: fwu_stay)
    qed
  next
    case False
    then have n: "fwu_view s c = None" by (simp add: fwu_view_def)
    obtain st info s1 where b: "bl_call (bl_get_image_info env c True False (stack_info env)) s = ((st, info), s1)" by (metis surj_pair)
    have v: "fwu_view s1 = fwu_view s" "fwu_ctx s1 = fwu_ctx s" using bl_call_ctx(1)[OF b] view_cong by auto
    consider (err) "st \<noteq> PSA_SUCCESS" | (trial) "st = PSA_SUCCESS" "info_state info = PSA_FWU_TRIAL"
      | (other) "st = PSA_SUCCESS" "info_state info \<noteq> PSA_FWU_TRIAL" by blast
    then show ?thesis
    proof cases
      case err
      then have "r = Inl st" "t = s1" using Cons.prems(1) False b by auto
      then show ?thesis using v by (simp add: fwu_stay)
    next
      case trial
      define s2 where "s2 = set_comp c (\<lambda>c. c\<lparr>in_use := True, component_state := PSA_FWU_TRIAL\<rparr>) s1"
      obtain r1 s3 where b2: "fwu_reject_trial env err c s2 = (r1, s3)" by (metis surj_pair)
      have v2: "length (fwu_ctx s2) = length (fwu_ctx s)" "\<forall>d. d \<noteq> c \<longrightarrow> fwu_view s2 d = fwu_view s d" "fwu_view s2 c = Some PSA_FWU_TRIAL"
        "in_use (comp_ctx s2 c)" using nc(2) v comp_ctx_cong[OF v(2)] by (auto simp: s2_def fwu_view_def)
      note rt = reject_trial_view[OF b2 _ v2(4)]
      show ?thesis
      proof (cases r1)
        case (Inr st')
        have "fwu_step TFM_FWU_REJECT x (fwu_view s c) (fwu_view s3 c)" for x using rt Inr n v2(1) nc(2) by (auto intro: fwu_rejected)
        then show ?thesis using Cons.prems(1) False trial b b2 Inr rt v2 nc(2) by (intro rest[of st' True s3]) (simp_all add: s2_def)
      next
        case (Inl st')
        then have "r = Inl st'" "t = s3" using Cons.prems(1) False trial b b2 by (simp_all add: s2_def)
        moreover have "fwu_step TFM_FWU_REJECT st' (fwu_view s d) (fwu_view s3 d)" for d
          using rt Inl v2 n nc(2) by (cases "d = c") (auto simp: fwu_stay intro: fwu_not_rejected)
        ultimately show ?thesis using rt v2 nc(2) by auto
      qed
    next
      case other
      then show ?thesis using Cons.prems(1) False b v by (intro rest[of PSA_SUCCESS fd s1]) (simp_all add: fwu_stay)
    qed
  qed
qed

lemma reject_moves:
  assumes run: "tfm_fwu_reject env m s = Some (st, t)" and len: "length (fwu_ctx s) = FWU_COMPONENT_NUMBER env"
  shows "fwu_moves env TFM_FWU_REJECT st s t"
proof (cases "in_size m ! 0 = 4")
  case False
  then show ?thesis using run by (simp add: tfm_fwu_reject_def fwu_moves_same)
next
  case True
  then obtain bs r where r: "fwu_psa_read env 0 4 (fwu_req s) = Some (bs, r)"
    using run by (auto simp: tfm_fwu_reject_def bind_eq_Some_conv)
  let ?s = "s\<lparr>fwu_req := r\<rparr>"
  have vs: "fwu_view ?s = fwu_view s" by (rule view_cong) simp
  show ?thesis
  proof (cases "length bs = 4")
    case False
    then show ?thesis using run True r by (auto simp: tfm_fwu_reject_def intro: fwu_moves_same)
  next
    case l: True
    obtain x u where x: "fwu_reject_loop env (status_of bs) [0..<FWU_COMPONENT_NUMBER env] PSA_SUCCESS False ?s = (x, u)" by (metis surj_pair)
    have t: "t = u" "\<And>e. x = Inl e \<Longrightarrow> st = e"
      using run True r l x by (auto simp: tfm_fwu_reject_def split: sum.splits if_splits prod.splits)
    have "length (fwu_ctx u) = length (fwu_ctx s)" "\<forall>c. fwu_step TFM_FWU_REJECT (case x of Inl st \<Rightarrow> st | Inr _ \<Rightarrow> st) (fwu_view s c) (fwu_view u c)"
      using reject_loop[OF x, of st] len vs by auto
    moreover have "(case x of Inl st \<Rightarrow> st | Inr _ \<Rightarrow> st) = st" using t(2) by (cases x) auto
    ultimately show ?thesis using t(1) by (simp add: fwu_moves_def)
  qed
qed

section \<open>The service\<close>

text \<open>
  Writing changes no context. The loop is a recursion on the length that is left; whenever it
  returns, induction on that length applies.
\<close>

lemma write_loop_ctx:
  assumes "fwu_write_loop env c off n st s = Some y"
  shows "fwu_ctx (snd y) = fwu_ctx s"
  using assms
proof (induct rule: fwu_write_loop.raw_induct[rotated, consumes 1, case_names 1])
  case (1 rec env c off n st s y)
  show ?case
  proof (cases "n > 0")
    case True
    define k where "k = (if TFM_FWU_BUF_SIZE env \<le> n then TFM_FWU_BUF_SIZE env else n)"
    obtain bs r where r: "fwu_psa_read env 2 k (fwu_req s) = Some (bs, r)"
      using 1(2) True by (auto simp: Let_def k_def bind_eq_Some_conv)
    obtain st' s' where b: "bl_call (bl_load_image env c off bs) (s\<lparr>fwu_req := r\<rparr>) = (st', s')" by (metis surj_pair)
    have c: "fwu_ctx s' = fwu_ctx s" using bl_call_ctx(1)[OF b] by simp
    have "fwu_ctx (snd y) = fwu_ctx s'" if "rec env c (add32 off k) (sub32 n k) st' s' = Some y" using 1(1)[OF that] by simp
    then show ?thesis using 1(2) True r c by (cases y) (auto simp: Let_def b k_def[symmetric] split: if_splits)
  next
    case False
    then show ?thesis using 1(2) by auto
  qed
qed

lemma write_moves:
  assumes "tfm_fwu_write env m s = Some (st, t)"
  shows "fwu_ctx t = fwu_ctx s"
  using assms unfolding tfm_fwu_write_def
  by (auto simp: bind_eq_Some_conv dest!: fwu_ctx_dest write_loop_ctx split: if_splits)

lemma sfn_moves:
  assumes run: "tfm_firmware_update_service_sfn env m s = Some (st, t)" and len: "length (fwu_ctx s) = FWU_COMPONENT_NUMBER env"
  shows "fwu_moves env (msg_type m) st s t"
proof -
  have same: "fwu_moves env ty st s t"
    if "tfm_fwu_write env m s = Some (st, t) \<or> tfm_fwu_query env m s = Some (st, t) \<or> tfm_fwu_request_reboot env s = Some (st, t)" for ty
    using that write_moves query_moves by (intro fwu_moves_same) (fastforce simp: tfm_fwu_request_reboot_def)
  show ?thesis
    using run same start_moves[OF _ len] finish_moves[OF _ len] install_moves[OF _ len] cancel_moves[OF _ len] clean_moves[OF _ len]
      accept_moves[OF _ len] reject_moves[OF _ len] fwu_moves_same[of s s]
    by (simp add: tfm_firmware_update_service_sfn_def split: if_splits)
qed

text \<open>
  A run of the service: messages in any order, each with any vectors; between two messages the boot
  loader may change (a reset of another core, for instance).
\<close>

inductive fwu_run :: "('b, 'r) fwu_env \<Rightarrow> ('b, 'r) fwu_state \<Rightarrow> ('b, 'r) fwu_state \<Rightarrow> bool" for env s where
  fwu_boot: "fwu_run env s s"
| fwu_message: "fwu_run env s t \<Longrightarrow> tfm_firmware_update_service_sfn env m (t\<lparr>boot := b, fwu_req := q\<rparr>) = Some (st, u) \<Longrightarrow> fwu_run env s u"

text \<open>The states a component goes through.\<close>

definition fwu_edge :: "psa_fwu_state option \<Rightarrow> psa_fwu_state option \<Rightarrow> bool" where
  "fwu_edge x y \<longleftrightarrow> (\<exists>ty st. fwu_step ty st x y)"

lemma fwu_edge_iff:
  "fwu_edge x y \<longleftrightarrow> x = y \<or> (x, y) \<in> {(None, Some PSA_FWU_WRITING), (Some PSA_FWU_WRITING, Some PSA_FWU_CANDIDATE),
     (Some PSA_FWU_WRITING, Some PSA_FWU_FAILED), (Some PSA_FWU_CANDIDATE, Some PSA_FWU_FAILED), (Some PSA_FWU_CANDIDATE, Some PSA_FWU_STAGED),
     (Some PSA_FWU_CANDIDATE, Some PSA_FWU_TRIAL), (Some PSA_FWU_CANDIDATE, Some PSA_FWU_UPDATED), (Some PSA_FWU_STAGED, Some PSA_FWU_FAILED),
     (Some PSA_FWU_TRIAL, Some PSA_FWU_UPDATED), (Some PSA_FWU_TRIAL, Some PSA_FWU_REJECTED), (Some PSA_FWU_TRIAL, Some PSA_FWU_FAILED),
     (None, Some PSA_FWU_TRIAL), (None, Some PSA_FWU_UPDATED), (None, Some PSA_FWU_REJECTED), (None, Some PSA_FWU_FAILED),
     (Some PSA_FWU_FAILED, None), (Some PSA_FWU_UPDATED, None)}" (is "_ \<longleftrightarrow> x = y \<or> (x, y) \<in> ?E")
proof
  assume "fwu_edge x y"
  then obtain ty st where "fwu_step ty st x y" by (auto simp: fwu_edge_def)
  then show "x = y \<or> (x, y) \<in> ?E" by cases auto
next
  have r: "fwu_reboot PSA_SUCCESS_REBOOT" "PSA_ERROR_DEPENDENCY_NEEDED \<noteq> -1" "\<not> fwu_reboot (-1)" "-1 \<noteq> PSA_SUCCESS"
    by (simp_all add: fwu_reboot_def spm_simps)
  assume "x = y \<or> (x, y) \<in> ?E"
  then show "fwu_edge x y" unfolding fwu_edge_def using r
    by (elim disjE insertE) (auto intro: fwu_step.intros)
qed

end
