(* ===== verification/FWU_Requests.thy ===== *)
theory FWU_Requests
  imports FWU_Machine
begin

text \<open>
  The requests of Firmware Update on the vectors of a message. With the contract \<open>request_vectors\<close>
  every message is answered, and a write request hands the block of the client to the boot loader,
  cut into consecutive pieces no longer than the buffer of the service.
\<close>

section \<open>The pieces of a block\<close>

fun fwu_chunks :: "nat \<Rightarrow> byte list \<Rightarrow> byte list list" where
  "fwu_chunks k bs = (if bs = [] \<or> k = 0 then [] else take k bs # fwu_chunks k (drop k bs))"

declare fwu_chunks.simps [simp del]

lemma fwu_chunks_concat: "0 < k \<Longrightarrow> concat (fwu_chunks k bs) = bs"
  by (induction k bs rule: fwu_chunks.induct) (subst fwu_chunks.simps, simp)

lemma fwu_chunks_length: "x \<in> set (fwu_chunks k bs) \<Longrightarrow> 0 < length x \<and> length x \<le> k"
  by (induction k bs rule: fwu_chunks.induct) (subst (asm) (2) fwu_chunks.simps, auto split: if_splits)

text \<open>Loading the pieces one after the other, up to the first error.\<close>

fun bl_load_pieces :: "('b, 'r) fwu_env \<Rightarrow> nat \<Rightarrow> nat \<Rightarrow> byte list list \<Rightarrow> 'b \<Rightarrow> psa_status_t \<times> 'b" where
  "bl_load_pieces env component off [] b = (PSA_SUCCESS, b)"
| "bl_load_pieces env component off (x # xs) b =
     (case bl_load_image env component off x b of
        (st, b') \<Rightarrow> if st \<noteq> PSA_SUCCESS then (st, b') else bl_load_pieces env component (add32 off (length x)) xs b')"

section \<open>Requests\<close>

locale fwu_requests = request_vectors "fwu_psa_read env" "fwu_psa_write env" req_ok buf_size rest written room
  for env :: "('b, 'r) fwu_env" and req_ok :: "'r \<Rightarrow> bool" and buf_size :: nat and rest :: "'r \<Rightarrow> nat \<Rightarrow> byte list"
    and written :: "'r \<Rightarrow> nat \<Rightarrow> byte list" and room :: "'r \<Rightarrow> nat \<Rightarrow> nat"
begin

lemma read_local_ok:
  assumes "req_ok (fwu_req s)" "i < 4" "n \<le> buf_size" "n \<le> length (rest (fwu_req s) i)"
  shows "\<exists>r. read_local env i n s = Some (take n (rest (fwu_req s) i), s\<lparr>fwu_req := r\<rparr>) \<and> req_ok r
    \<and> rest r = (rest (fwu_req s))(i := drop n (rest (fwu_req s) i)) \<and> written r = written (fwu_req s) \<and> room r = room (fwu_req s)"
  using read_vec[OF assms(1-3)] assms(4) by (auto simp: read_local_def)

lemma read_component_ok:
  assumes "req_ok (fwu_req s)" "length (rest (fwu_req s) 0) = 1" "1 \<le> buf_size"
  shows "\<exists>r. read_component env s = Some (unat (rest (fwu_req s) 0 ! 0), s\<lparr>fwu_req := r\<rparr>) \<and> req_ok r
    \<and> rest r = (rest (fwu_req s))(0 := []) \<and> written r = written (fwu_req s) \<and> room r = room (fwu_req s)"
  using read_local_ok[of s 0 1] assms by (auto simp: read_component_def)

lemma write_loop_ok:
  assumes "req_ok (fwu_req s)" "n = length (rest (fwu_req s) 2)" "n < SIZE_MAX_P1" "0 < TFM_FWU_BUF_SIZE env" "TFM_FWU_BUF_SIZE env \<le> buf_size"
  shows "\<exists>r. fwu_write_loop env c off n PSA_SUCCESS s
      = (let (st, b) = bl_load_pieces env c off (fwu_chunks (TFM_FWU_BUF_SIZE env) (rest (fwu_req s) 2)) (boot s) in Some (st, s\<lparr>boot := b, fwu_req := r\<rparr>))
    \<and> req_ok r"
  using assms
proof (induction n arbitrary: off s rule: less_induct)
  case (less n)
  let ?k = "TFM_FWU_BUF_SIZE env" and ?v = "rest (fwu_req s) 2"
  show ?case
  proof (cases "n = 0")
    case True
    then show ?thesis using less.prems by (auto simp: fwu_write_loop.simps[of env c off 0] fwu_chunks.simps intro!: exI[of _ "fwu_req s"])
  next
    case False
    define w where "w = (if ?k \<le> n then ?k else n)"
    have w: "0 < w" "w \<le> n" "w \<le> buf_size" using False less.prems by (auto simp: w_def)
    obtain r where r: "fwu_psa_read env 2 w (fwu_req s) = Some (take w ?v, r)" "req_ok r" "rest r = (rest (fwu_req s))(2 := drop w ?v)"
      using read_vec[OF less.prems(1) _ w(3), of 2] by auto
    have tk: "take w ?v = take ?k ?v" "drop w ?v = drop ?k ?v" "length (take w ?v) = w" using less.prems(2) w by (auto simp: w_def)
    have ch: "fwu_chunks ?k ?v = take w ?v # fwu_chunks ?k (drop w ?v)"
      using False less.prems(2,4) tk by (subst fwu_chunks.simps) auto
    obtain st b where b: "bl_load_image env c off (take w ?v) (boot s) = (st, b)" by fastforce
    define s1 where "s1 = s\<lparr>fwu_req := r, boot := b\<rparr>"
    have bc: "bl_call (bl_load_image env c off (take w ?v)) (s\<lparr>fwu_req := r\<rparr>) = (st, s1)" using b by (simp add: bl_call_def s1_def)
    have lp: "fwu_write_loop env c off n PSA_SUCCESS s = (if st \<noteq> PSA_SUCCESS then Some (st, s1) else fwu_write_loop env c (add32 off w) (n - w) PSA_SUCCESS s1)"
      using False r(1) tk(3) bc w(2) less.prems(3)
      by (subst fwu_write_loop.simps) (auto simp: Let_def w_def[symmetric] wrap_simps)
    show ?thesis
    proof (cases "st = PSA_SUCCESS")
      case True
      have "\<exists>r'. fwu_write_loop env c (add32 off w) (n - w) PSA_SUCCESS s1
          = (let (st, b) = bl_load_pieces env c (add32 off w) (fwu_chunks ?k (rest (fwu_req s1) 2)) (boot s1) in Some (st, s1\<lparr>boot := b, fwu_req := r'\<rparr>)) \<and> req_ok r'"
        by (rule less.IH) (use w r less.prems in \<open>auto simp: s1_def\<close>)
      then show ?thesis using True lp ch b r(3) tk(3) by (auto simp: s1_def Let_def split: prod.splits)
    next
      case False
      then show ?thesis using lp ch b r(2) by (auto simp: s1_def intro!: exI[of _ r])
    qed
  qed
qed

text \<open>A write request, from the message to the boot loader.\<close>

lemma write_ok:
  assumes ok: "req_ok (fwu_req s)" "sizes_match m (rest (fwu_req s)) (room (fwu_req s))" "0 < TFM_FWU_BUF_SIZE env" "TFM_FWU_BUF_SIZE env \<le> buf_size" "4 \<le> buf_size"
  defines "v \<equiv> rest (fwu_req s)"
  defines "c \<equiv> unat (v 0 ! 0)"
  assumes m: "in_size m ! 2 \<le> PSA_FWU_MAX_WRITE_SIZE env" "length (v 0) = 1" "length (v 1) = 4"
    and c: "c < FWU_COMPONENT_NUMBER env" "fwu_view s c = Some PSA_FWU_WRITING"
  shows "\<exists>r. tfm_fwu_write env m s
      = (let (st, b) = bl_load_pieces env c (de32 (v 1)) (fwu_chunks (TFM_FWU_BUF_SIZE env) (v 2)) (boot s) in Some (st, s\<lparr>boot := b, fwu_req := r\<rparr>))
    \<and> req_ok r"
proof -
  have sz: "in_size m ! 0 = 1" "in_size m ! 1 = 4" "unat (in_size m ! 2) = length (v 2)" "length (v 2) < SIZE_MAX_P1"
    using ok(2) m(2,3) size_eq[of "in_size m ! 0" 1 1] size_eq[of "in_size m ! 1" 4 4] unat_u32_lt[of "in_size m ! 2"]
    by (auto simp: sizes_match_def v_def)
  obtain r where r: "read_component env s = Some (c, s\<lparr>fwu_req := r\<rparr>)" "req_ok r" "rest r = v(0 := [])"
    using read_component_ok[of s] ok m by (auto simp: v_def c_def)
  obtain r2 where r2: "read_local env 1 4 (s\<lparr>fwu_req := r\<rparr>) = Some (v 1, s\<lparr>fwu_req := r2\<rparr>)" "req_ok r2" "rest r2 = v(0 := [], 1 := [])"
    using read_local_ok[of "s\<lparr>fwu_req := r\<rparr>" 1 4] r ok m by auto
  have vw: "in_use (comp_ctx (s\<lparr>fwu_req := r2\<rparr>) c)" "component_state (comp_ctx (s\<lparr>fwu_req := r2\<rparr>) c) = PSA_FWU_WRITING"
    using c(2) by (auto simp: fwu_view_def comp_ctx_def split: if_splits)
  have "tfm_fwu_write env m s = fwu_write_loop env c (de32 (v 1)) (length (v 2)) PSA_SUCCESS (s\<lparr>fwu_req := r2\<rparr>)"
    unfolding tfm_fwu_write_def using leD[OF m(1)] sz r(1) r2(1) c(1) vw by simp
  then show ?thesis
    using write_loop_ok[of "s\<lparr>fwu_req := r2\<rparr>" "length (v 2)" c "de32 (v 1)"] r2 sz(4) ok(3,4) by (auto simp: Let_def split: prod.splits)
qed

text \<open>Every message is answered, whatever its type, sizes and contents.\<close>

definition fwu_ready :: "('b, 'r) fwu_state \<Rightarrow> psa_msg_t \<Rightarrow> bool" where
  "fwu_ready s m \<longleftrightarrow> req_ok (fwu_req s) \<and> sizes_match m (rest (fwu_req s)) (room (fwu_req s))
     \<and> 0 < TFM_FWU_BUF_SIZE env \<and> TFM_FWU_BUF_SIZE env \<le> buf_size \<and> 4 \<le> buf_size \<and> unat (TFM_CONFIG_FWU_MAX_MANIFEST_SIZE env) \<le> buf_size
     \<and> unat (sizeof_fwu_info env) \<le> buf_size \<and> (\<forall>i. length (fwu_info_bytes env i) = unat (sizeof_fwu_info env))
     \<and> (\<forall>cs b. bl_install_image env cs b \<noteq> None)"

lemma component_answer:
  assumes rdy: "fwu_ready s m" and z: "in_size m ! 0 = 1"
  shows "\<exists>r. read_component env s = Some (unat (rest (fwu_req s) 0 ! 0), s\<lparr>fwu_req := r\<rparr>) \<and> req_ok r
    \<and> rest r = (rest (fwu_req s))(0 := []) \<and> written r = written (fwu_req s) \<and> room r = room (fwu_req s)"
proof -
  have "length (rest (fwu_req s) 0) = 1" using rdy z sizes_matchD(1)[of m "rest (fwu_req s)" "room (fwu_req s)" 0] by (simp add: fwu_ready_def)
  then show ?thesis using rdy by (intro read_component_ok) (auto simp: fwu_ready_def)
qed

lemma start_answer:
  assumes rdy: "fwu_ready s m"
  shows "\<exists>st t. tfm_fwu_start env m s = Some (st, t) \<and> req_ok (fwu_req t)"
proof (cases "in_size m ! 0 = 1 \<and> \<not> in_size m ! 1 > TFM_CONFIG_FWU_MAX_MANIFEST_SIZE env")
  case False
  then show ?thesis using rdy by (auto simp: tfm_fwu_start_def fwu_ready_def)
next
  case True
  let ?n = "unat (in_size m ! 1)" and ?c = "unat (rest (fwu_req s) 0 ! 0)"
  obtain r where r: "read_component env s = Some (?c, s\<lparr>fwu_req := r\<rparr>)" "req_ok r" "rest r = (rest (fwu_req s))(0 := [])"
    using component_answer[OF rdy] True by blast
  have n: "?n \<le> buf_size" "?n = length (rest r 1)" using rdy True r(3) by (auto simp: fwu_ready_def sizes_match_def word_le_nat_alt not_less)
  obtain mf r2 where r2: "(if 0 < ?n then read_local env 1 ?n (s\<lparr>fwu_req := r\<rparr>) else Some ([], s\<lparr>fwu_req := r\<rparr>)) = Some (mf, s\<lparr>fwu_req := r2\<rparr>)" "req_ok r2"
    using read_local_ok[of "s\<lparr>fwu_req := r\<rparr>" 1 ?n] n r by (cases "0 < ?n") auto
  show ?thesis
    unfolding tfm_fwu_start_def Let_def using True r(1,2) r2
    by (auto simp: bl_call_def split: prod.splits)
qed

lemma write_answer:
  assumes rdy: "fwu_ready s m"
  shows "\<exists>st t. tfm_fwu_write env m s = Some (st, t) \<and> req_ok (fwu_req t)"
proof (cases "\<not> in_size m ! 2 > PSA_FWU_MAX_WRITE_SIZE env \<and> in_size m ! 0 = 1 \<and> in_size m ! 1 = 4")
  case False
  then show ?thesis using rdy by (auto simp: tfm_fwu_write_def fwu_ready_def)
next
  case True
  let ?c = "unat (rest (fwu_req s) 0 ! 0)"
  have l: "length (rest (fwu_req s) 0) = 1" "length (rest (fwu_req s) 1) = 4"
    using rdy True sizes_matchD(1)[of m "rest (fwu_req s)" _ 0] sizes_matchD(1)[of m "rest (fwu_req s)" _ 1] by (auto simp: fwu_ready_def)
  show ?thesis
  proof (cases "?c < FWU_COMPONENT_NUMBER env \<and> fwu_view s ?c = Some PSA_FWU_WRITING")
    case w: True
    obtain st b where b: "bl_load_pieces env ?c (de32 (rest (fwu_req s) 1)) (fwu_chunks (TFM_FWU_BUF_SIZE env) (rest (fwu_req s) 2)) (boot s) = (st, b)"
      by fastforce
    then show ?thesis using write_ok[of s m] rdy l True w by (auto simp: fwu_ready_def Let_def not_less b)
  next
    case False
    obtain r where r: "read_component env s = Some (?c, s\<lparr>fwu_req := r\<rparr>)" "req_ok r" "rest r = (rest (fwu_req s))(0 := [])"
      using component_answer[OF rdy] True by blast
    obtain x r2 where r2: "read_local env 1 4 (s\<lparr>fwu_req := r\<rparr>) = Some (x, s\<lparr>fwu_req := r2\<rparr>)" "req_ok r2"
      using read_local_ok[of "s\<lparr>fwu_req := r\<rparr>" 1 4] r l rdy by (auto simp: fwu_ready_def)
    have "\<not> in_use (comp_ctx (s\<lparr>fwu_req := r2\<rparr>) ?c) \<or> component_state (comp_ctx (s\<lparr>fwu_req := r2\<rparr>) ?c) \<noteq> PSA_FWU_WRITING"
      if "?c < FWU_COMPONENT_NUMBER env" using False that by (auto simp: fwu_view_def comp_ctx_def)
    then show ?thesis unfolding tfm_fwu_write_def using True r r2 by (auto simp: comp_ctx_def)
  qed
qed

lemma component_requests_answer:
  assumes rdy: "fwu_ready s m" and f: "f \<in> {tfm_fwu_finish, tfm_fwu_cancel, tfm_fwu_clean}"
  shows "\<exists>st t. f env m s = Some (st, t) \<and> req_ok (fwu_req t)"
proof (cases "in_size m ! 0 = 1")
  case False
  then show ?thesis using rdy f by (auto simp: tfm_fwu_finish_def tfm_fwu_cancel_def tfm_fwu_clean_def fwu_ready_def)
next
  case True
  obtain r where r: "read_component env s = Some (unat (rest (fwu_req s) 0 ! 0), s\<lparr>fwu_req := r\<rparr>)" "req_ok r"
    using component_answer[OF rdy True] by blast
  show ?thesis using f True r
    by (auto simp: tfm_fwu_finish_def tfm_fwu_cancel_def tfm_fwu_clean_def bl_call_def split: prod.splits)
qed

lemma query_answer:
  assumes rdy: "fwu_ready s m"
  shows "\<exists>st t. tfm_fwu_query env m s = Some (st, t) \<and> req_ok (fwu_req t)"
proof (cases "in_size m ! 0 = 1 \<and> out_size m ! 0 = sizeof_fwu_info env")
  case False
  then show ?thesis using rdy by (auto simp: tfm_fwu_query_def fwu_ready_def)
next
  case True
  let ?c = "unat (rest (fwu_req s) 0 ! 0)"
  obtain r where r: "read_component env s = Some (?c, s\<lparr>fwu_req := r\<rparr>)" "req_ok r" "room r = room (fwu_req s)"
    using component_answer[OF rdy] True by blast
  have "unat (sizeof_fwu_info env) \<le> room r 0" using rdy True r(3) sizes_matchD(2)[of m "rest (fwu_req s)" "room r" 0] by (simp add: fwu_ready_def)
  then have "\<exists>r'. fwu_psa_write env 0 (fwu_info_bytes env i) r = Some r' \<and> req_ok r'" for i
    using write_vec[OF r(2), of 0 "fwu_info_bytes env i"] rdy by (auto simp: fwu_ready_def)
  then have *: "\<exists>st t. (case bl_call g (s\<lparr>fwu_req := r\<rparr>) of ((result, info), s) \<Rightarrow>
      if result = PSA_SUCCESS then Option.bind (fwu_psa_write env 0 (fwu_info_bytes env info) (fwu_req s)) (\<lambda>r. Some (result, s\<lparr>fwu_req := r\<rparr>))
      else Some (result, s)) = Some (st, t) \<and> req_ok (fwu_req t)" for g :: "'b \<Rightarrow> (psa_status_t \<times> psa_fwu_component_info_t) \<times> 'b"
    using r(2) by (cases "g (boot s)") (auto simp: bl_call_def, metis bind.bind_lunit fwu_state.select_convs(3) fwu_state.surjective fwu_state.update_convs(3))
  show ?thesis
  proof (cases "?c < FWU_COMPONENT_NUMBER env")
    case False
    then show ?thesis unfolding tfm_fwu_query_def using True r(1,2) by simp
  next
    case c: True
    show ?thesis unfolding tfm_fwu_query_def Let_def using True r(1) c * by simp
  qed
qed

lemma scans_req:
  "fwu_req (snd (fwu_install_scan env cs acc s)) = fwu_req s" "fwu_req (snd (fwu_accept_scan env cs acc s)) = fwu_req s"
  "fwu_req (snd (fwu_reject_loop env e cs st fd s)) = fwu_req s"
proof -
  have t: "fwu_req (snd (fwu_reject_trial env e c s)) = fwu_req s" for c s by (auto simp: fwu_reject_trial_def bl_call_def split: prod.split)
  show "fwu_req (snd (fwu_install_scan env cs acc s)) = fwu_req s"
    by (induction cs arbitrary: acc s) (auto simp: bl_call_def split: prod.split)
  show "fwu_req (snd (fwu_accept_scan env cs acc s)) = fwu_req s"
    by (induction cs arbitrary: acc s) (auto simp: bl_call_def split: prod.split)
  have u: "fwu_req x = fwu_req s'" if "fwu_reject_trial env e c s' = (r, x)" for r c s' x using t[of c s'] that by simp
  show "fwu_req (snd (fwu_reject_loop env e cs st fd s)) = fwu_req s"
    by (induction cs arbitrary: st fd s) (auto simp: bl_call_def dest!: u split: prod.split sum.split)
qed

lemma foldl_set_comp_req: "fwu_req (foldl (\<lambda>s c. set_comp c f s) s cs) = fwu_req s"
  by (induction cs arbitrary: s) auto

lemma reject_answer:
  assumes rdy: "fwu_ready s m"
  shows "\<exists>st t. tfm_fwu_reject env m s = Some (st, t) \<and> req_ok (fwu_req t)"
proof -
  have q: "fwu_req x = fwu_req u" if "fwu_reject_loop env e cs st fd u = (r, x)" for e cs st fd u r x
    using scans_req(3)[of e cs st fd u] that by simp
  have "\<exists>r. fwu_psa_read env 0 4 (fwu_req s) = Some (take 4 (rest (fwu_req s) 0), r) \<and> req_ok r"
    using read_vec[of "fwu_req s" 0 4] rdy by (auto simp: fwu_ready_def)
  then show ?thesis using rdy
    by (auto simp: tfm_fwu_reject_def fwu_ready_def Let_def dest!: q split: prod.splits sum.splits)
qed

lemma sfn_answer:
  assumes rdy: "fwu_ready s m"
  shows "\<exists>st t. tfm_firmware_update_service_sfn env m s = Some (st, t) \<and> req_ok (fwu_req t)"
proof -
  have k: "req_ok (fwu_req s)" using rdy by (simp add: fwu_ready_def)
  have q: "fwu_req x = fwu_req u" if "fwu_install_scan env cs acc u = (r, x) \<or> fwu_accept_scan env cs acc u = (r, x)" for cs acc u r x
    using scans_req(1,2)[of cs acc u] that by auto
  have i: "\<exists>st t. tfm_fwu_install env s = Some (st, t) \<and> req_ok (fwu_req t)"
  proof -
    obtain r s1 where sc: "fwu_install_scan env [0..<FWU_COMPONENT_NUMBER env] [] s = (r, s1)" by fastforce
    have k1: "req_ok (fwu_req s1)" using q[of "[0..<FWU_COMPONENT_NUMBER env]" "[]" s r s1] sc k by simp
    show ?thesis
    proof (cases r)
      case (Inr cs)
      have "bl_install_image env cs (boot s1) \<noteq> None" using rdy unfolding fwu_ready_def by blast
      then obtain st b where "bl_install_image env cs (boot s1) = Some (st, b)" by force
      then show ?thesis using k1 sc Inr by (auto simp: tfm_fwu_install_def foldl_set_comp_req Let_def)
    qed (use k1 sc in \<open>auto simp: tfm_fwu_install_def\<close>)
  qed
  have a: "\<exists>st t. tfm_fwu_accept env s = Some (st, t) \<and> req_ok (fwu_req t)"
    using k q by (fastforce simp: tfm_fwu_accept_def bl_call_def foldl_set_comp_req split: prod.splits sum.splits)
  show ?thesis
    using start_answer[OF rdy] write_answer[OF rdy] component_requests_answer[OF rdy] query_answer[OF rdy] reject_answer[OF rdy] i a k
    by (simp add: tfm_firmware_update_service_sfn_def tfm_fwu_request_reboot_def)
qed

end

section \<open>The service on the partition manager\<close>

definition spm_fwu_env :: "('b, spm_state) fwu_env \<Rightarrow> spm_request \<Rightarrow> ('b, spm_state) fwu_env" where
  "spm_fwu_env env q = env\<lparr>fwu_psa_read := spm_read_req q, fwu_psa_write := spm_write_req q\<rparr>"

lemma spm_fwu_env_sel [simp]:
  "fwu_psa_read (spm_fwu_env env q) = spm_read_req q" "fwu_psa_write (spm_fwu_env env q) = spm_write_req q"
  "TFM_FWU_BUF_SIZE (spm_fwu_env env q) = TFM_FWU_BUF_SIZE env" "FWU_COMPONENT_NUMBER (spm_fwu_env env q) = FWU_COMPONENT_NUMBER env"
  "PSA_FWU_MAX_WRITE_SIZE (spm_fwu_env env q) = PSA_FWU_MAX_WRITE_SIZE env" "bl_load_image (spm_fwu_env env q) = bl_load_image env"
  "sizeof_fwu_info (spm_fwu_env env q) = sizeof_fwu_info env" "fwu_info_bytes (spm_fwu_env env q) = fwu_info_bytes env"
  "TFM_CONFIG_FWU_MAX_MANIFEST_SIZE (spm_fwu_env env q) = TFM_CONFIG_FWU_MAX_MANIFEST_SIZE env"
  by (simp_all add: spm_fwu_env_def)

lemma spm_load_pieces [simp]: "bl_load_pieces (spm_fwu_env env q) = bl_load_pieces env"
proof (intro ext)
  show "bl_load_pieces (spm_fwu_env env q) c off xs b = bl_load_pieces env c off xs b" for c off xs b
    by (induction xs arbitrary: off b) (auto split: prod.split)
qed

interpretation fsp: fwu_requests "spm_fwu_env env q" "spm_req_ok q" "rq_cap q" "spm_rest q" "spm_written q" "spm_room q" for env q
  by (simp add: fwu_requests_def srq.request_vectors_axioms)

end
