(* ===== verification/FWU_Image.thy ===== *)
theory FWU_Image
  imports FWU_Mcuboot FWU_Requests
begin

text \<open>
  The image of an update in flash: from the blocks of the client through the service and the MCUboot
  interface to the flash map and its CMSIS driver.
\<close>

section \<open>The staging area\<close>

lemma set_mb_sel [simp]:
  "mflash (set_mb c f b) = mflash b" "boot_shared_data (set_mb c f b) = boot_shared_data b"
  "c < length (mcuboot_ctx b) \<Longrightarrow> mcuboot_ctx (set_mb c f b) ! d = (if d = c then f (mcuboot_ctx b ! c) else mcuboot_ctx b ! d)"
  "length (mcuboot_ctx (set_mb c f b)) = length (mcuboot_ctx b)"
  by (simp_all add: set_mb_def nth_list_update)

lemma mcuboot_fwu_env_sel [simp]:
  "bl_load_image (mcuboot_fwu_env mb env) = fwu_bootloader_load_image mb"
  "bl_staging_area_init (mcuboot_fwu_env mb env) = fwu_bootloader_staging_area_init mb"
  "bl_install_image (mcuboot_fwu_env mb env) = fwu_bootloader_install_image mb"
  "FWU_COMPONENT_NUMBER (mcuboot_fwu_env mb env) = MCUBOOT_IMAGE_NUMBER mb"
  "TFM_FWU_BUF_SIZE (mcuboot_fwu_env mb env) = TFM_FWU_BUF_SIZE env" "PSA_FWU_MAX_WRITE_SIZE (mcuboot_fwu_env mb env) = PSA_FWU_MAX_WRITE_SIZE env"
  "TFM_CONFIG_FWU_MAX_MANIFEST_SIZE (mcuboot_fwu_env mb env) = TFM_CONFIG_FWU_MAX_MANIFEST_SIZE env"
  "sizeof_fwu_info (mcuboot_fwu_env mb env) = sizeof_fwu_info env" "fwu_info_bytes (mcuboot_fwu_env mb env) = fwu_info_bytes env"
  by (simp_all add: mcuboot_fwu_env_def)

section \<open>The installation returns\<close>

text \<open>
  What the installation of several images relies on: the iterator of MCUboot over the dependency entries of an image
  ends, and no entry is longer than the structure into which the code reads it. The code compares neither.
\<close>

definition dependencies_end :: "('d, 'it, 'op) mcuboot_env \<Rightarrow> bool" where
  "dependencies_end mb \<longleftrightarrow> (\<exists>left :: 'it \<Rightarrow> nat. \<forall>it d off len it'.
     bootutil_tlv_iter_next mb it d = (0, off, len, it') \<longrightarrow> len \<le> sizeof_image_dependency mb \<and> left it' < left it)"

lemma mb_dependencies_total:
  assumes "\<And>it d off len it'. bootutil_tlv_iter_next mb it d = (0, off, len, it') \<Longrightarrow> len \<le> sizeof_image_dependency mb \<and> left it' < (left it :: nat)"
  shows "mb_dependencies mb cs area it b \<noteq> None"
proof (induction "left it" arbitrary: it b rule: less_induct)
  case less
  obtain rc off len it' where n: "bootutil_tlv_iter_next mb it (mflash b) = (rc, off, len, it')" by (metis prod_cases4)
  then show ?case
    using less assms[of it "mflash b" off len it']
    by (subst mb_dependencies.simps) (auto simp: n not_less split: prod.splits option.splits)
qed

lemma mb_check_candidates_total: "dependencies_end mb \<Longrightarrow> mb_check_candidates mb cs xs b \<noteq> None"
proof (induction xs arbitrary: b)
  case (Cons x xs)
  then obtain left where L: "\<And>it d off len it'. bootutil_tlv_iter_next mb it d = (0, off, len, it') \<Longrightarrow> len \<le> sizeof_image_dependency mb \<and> left it' < (left it :: nat)"
    unfolding dependencies_end_def by blast
  have d: "mb_dependencies mb cs area it b \<noteq> None" for area it b by (rule mb_dependencies_total[where left = left]) (rule L)
  have "Option.bind (mb_dependencies mb cs area it b) (\<lambda>(r, b). case r of Some st \<Rightarrow> Some (Some st, b) | None \<Rightarrow> mb_check_candidates mb cs xs b) \<noteq> None" for area it b
    using d[of area it b] Cons by (auto split: option.splits)
  then show ?case by (auto split: option.splits prod.splits)
qed simp

lemma install_returns: "MCUBOOT_IMAGE_NUMBER mb \<le> 1 \<or> dependencies_end mb \<Longrightarrow> fwu_bootloader_install_image mb cs b \<noteq> None"
  using mb_check_candidates_total[of mb cs cs b] by (auto simp: fwu_bootloader_install_image_def split: option.splits)

section \<open>Blocks\<close>

text \<open>A block in a component whose staging area is open: what load requires.\<close>

definition staging :: "('d, 'it, 'op) mcuboot_env \<Rightarrow> 'd ARM_DRIVER_FLASH \<Rightarrow> ARM_FLASH_INFO \<Rightarrow> nat \<Rightarrow> nat \<Rightarrow> 'd flash_area \<Rightarrow> 'd mcuboot_state \<Rightarrow> bool" where
  "staging mb drv info fsize c area b \<longleftrightarrow> c < MCUBOOT_IMAGE_NUMBER mb \<and> length (mcuboot_ctx b) = MCUBOOT_IMAGE_NUMBER mb
     \<and> mb_fap b c = Some area \<and> area_ok (mb_map mb) drv info fsize area"

context cmsis_flash
begin

lemma mb_load_ok:
  assumes ok: "ok (mflash b)" and st: "staging mb drv info fsize c area b" and r: "off + length bs \<le> fa_size area"
    and al: "FLASH_PROGRAM_UNIT (mb_map mb) dvd off"
  shows "\<exists>b'. fwu_bootloader_load_image mb c off bs b = (PSA_SUCCESS, b') \<and> staging mb drv info fsize c area b'
    \<and> mflash b' = put (mflash b) (wr (img (mflash b)) (fa_off area + off) bs) \<and> boot_shared_data b' = boot_shared_data b"
proof -
  have ar: "area_ok (mb_map mb) drv info fsize area" using st by (simp add: staging_def)
  have u: "0 < FLASH_PROGRAM_UNIT (mb_map mb)" using ar by (auto simp: area_ok_def)
  have "flash_area_write (mb_map mb) area off bs (length bs) (mflash b) = (0, put (mflash b) (wr (img (mflash b)) (fa_off area + off) bs))"
    using area_write_ok[OF ok ar r] area_written_same[OF u, of "length bs" bs off] al by (simp add: dvd_eq_mod_eq_0)
  then show ?thesis using st by (auto simp: fwu_bootloader_load_image_def staging_def on_mflash_def mb_fap_def)
qed

lemma mb_load_pieces_ok:
  assumes "ok (mflash b)" "staging mb drv info fsize c area b" "off + length bs \<le> fa_size area"
    and "FLASH_PROGRAM_UNIT (mb_map mb) dvd off" "FLASH_PROGRAM_UNIT (mb_map mb) dvd k" "0 < k"
  shows "\<exists>b'. bl_load_pieces (mcuboot_fwu_env mb env) c off (fwu_chunks k bs) b = (PSA_SUCCESS, b') \<and> staging mb drv info fsize c area b'
    \<and> mflash b' = put (mflash b) (wr (img (mflash b)) (fa_off area + off) bs)"
  using assms
proof (induction k bs arbitrary: off b rule: fwu_chunks.induct)
  case (1 k bs)
  let ?d = "mflash b" and ?a = "fa_off area + off"
  show ?case
  proof (cases "bs = []")
    case True
    then show ?thesis using 1(2,3) by (simp add: fwu_chunks.simps put_img)
  next
    case False
    have ch: "fwu_chunks k bs = take k bs # fwu_chunks k (drop k bs)" using False 1(7) by (subst fwu_chunks.simps) simp
    have fs: "fa_off area + fa_size area \<le> fsize" "fsize < 2 ^ 31" using 1(3) sizes[OF 1(2)] by (auto simp: staging_def area_ok_def)
    have r1: "off + length (take k bs) \<le> fa_size area" using 1(4) by simp
    obtain b1 where b1: "fwu_bootloader_load_image mb c off (take k bs) b = (PSA_SUCCESS, b1)" "staging mb drv info fsize c area b1"
      "mflash b1 = put ?d (wr (img ?d) ?a (take k bs))"
      using mb_load_ok[OF 1(2,3) r1 1(5)] by blast
    have l: "length (wr (img ?d) ?a (take k bs)) = fsize" using 1(4) fs by (simp add: img_length[OF 1(2)])
    have o32: "add32 off (length (take k bs)) = off + length (take k bs)" using 1(4) fs by (intro add32_id) simp
    have al: "FLASH_PROGRAM_UNIT (mb_map mb) dvd off + k" using 1(5,6) by simp
    show ?thesis
    proof (cases "length bs \<le> k")
      case True
      then show ?thesis using ch b1 o32 by (simp add: fwu_chunks.simps[of k "[]"])
    next
      case lt: False
      then have lk: "length (take k bs) = k" by simp
      have "\<exists>b'. bl_load_pieces (mcuboot_fwu_env mb env) c (off + k) (fwu_chunks k (drop k bs)) b1 = (PSA_SUCCESS, b')
          \<and> staging mb drv info fsize c area b' \<and> mflash b' = put (mflash b1) (wr (img (mflash b1)) (fa_off area + (off + k)) (drop k bs))"
        using False 1(2,4,6,7) b1(2) al lt l by (intro 1(1)) (auto simp: b1(3) ok_put)
      then obtain b' where b': "bl_load_pieces (mcuboot_fwu_env mb env) c (off + k) (fwu_chunks k (drop k bs)) b1 = (PSA_SUCCESS, b')"
        "staging mb drv info fsize c area b'" "mflash b' = put (mflash b1) (wr (img (mflash b1)) (fa_off area + (off + k)) (drop k bs))" by blast
      have w: "wr (wr (img ?d) ?a (take k bs)) (?a + k) (drop k bs) = wr (img ?d) ?a bs"
        using wr_wr_append[of ?a "take k bs" "drop k bs" "img ?d"] 1(4) fs lk by (simp add: img_length[OF 1(2)])
      have l2: "length (wr (img ?d) ?a bs) = fsize" using 1(4) fs by (simp add: img_length[OF 1(2)])
      have "mflash b' = put ?d (wr (img ?d) ?a bs)"
        unfolding b'(3) b1(3) img_put[OF 1(2) l] using put_put[OF 1(2) l l2] w by (simp add: add.assoc)
      then show ?thesis using ch b1(1) b'(1,2) o32 lk by simp
    qed
  qed
qed

lemma mb_staging_ok:
  assumes ok: "ok (mflash b)" and c: "c < MCUBOOT_IMAGE_NUMBER mb" "length (mcuboot_ctx b) = MCUBOOT_IMAGE_NUMBER mb"
    and op: "flash_area_open (mb_map mb) (FLASH_AREA_IMAGE_SECONDARY mb c) = Some area" and ar: "area_ok (mb_map mb) drv info fsize area"
    and z: "0 < fi_sector_size info" "fi_sector_info info = None" "fi_sector_size info dvd fa_off area" "fi_sector_size info dvd fa_size area"
  shows "\<exists>b'. fwu_bootloader_staging_area_init mb c mf 0 b = (PSA_SUCCESS, b') \<and> staging mb drv info fsize c area b'
    \<and> mflash b' = put (mflash b) (wr (img (mflash b)) (fa_off area) (replicate (fa_size area) (fi_erased_value info)))"
  using area_erase_ok[OF ok ar z(1,2), of 0 "fa_size area"] c op ar z
  by (auto simp: fwu_bootloader_staging_area_init_def on_mflash_def staging_def mb_fap_def)

end

end
