(* ===== verification/FWU_Properties.thy ===== *)
theory FWU_Properties
  imports FWU_Image SPM_Request_Wit
begin

text \<open>
  The properties of the Firmware Update service, of its boot loader interface and of the flash map,
  with concrete instances.
\<close>

section \<open>Instances\<close>

text \<open>Flash with rows of four bytes, four of them at address 0x1000.\<close>

definition wit_cy :: cy_flash where
  "wit_cy = \<lparr>CY_FLASH_SIZEOF_ROW = 4, Cy_Flash_ProgramRow = (\<lambda>a bs m. (CY_FLASH_DRV_SUCCESS, mem_set m a bs)),
     Cy_Flash_EraseRow = (\<lambda>a m. (CY_FLASH_DRV_SUCCESS, mem_set m a (replicate 4 IFX_DRIVER_FLASH_ERASE_VALUE)))\<rparr>"

definition wit_flash_info :: ARM_FLASH_INFO where
  "wit_flash_info = \<lparr>fi_sector_info = None, fi_sector_count = 4, fi_sector_size = 4, fi_page_size = 4, fi_program_unit = 1, fi_erased_value = 0xFF\<rparr>"

definition wit_obj :: ifx_driver_obj_t where
  "wit_obj = \<lparr>start_address = 0x1000, flash_info = wit_flash_info\<rparr>"

definition wit_mem :: flash_mem where "wit_mem = (\<lambda>_. 0xFF)"

definition wit_area :: "flash_mem flash_area" where
  "wit_area = \<lparr>fa_id = 1, fa_driver = ifx_cmsis_driver_flash wit_obj wit_cy, fa_off = 0, fa_size = 16\<rparr>"

definition wit_map :: "nat \<Rightarrow> flash_mem flash_map_env" where
  "wit_map u = \<lparr>flash_map = [wit_area], flash_driver = [ifx_cmsis_driver_flash wit_obj wit_cy], FLASH_PROGRAM_UNIT = u,
     boot_u32_safe_add = (\<lambda>a b. if a + b < SIZE_MAX_P1 then Some (a + b) else None)\<rparr>"

lemma wit_flash_ok: "ifx_flash_ok wit_obj wit_cy m"
  by (simp add: ifx_flash_ok_def cy_flash_ok_def wit_obj_def wit_cy_def wit_flash_info_def ifx_size_def IFX_DRIVER_FLASH_PROGRAM_UNIT_def IFX_DRIVER_FLASH_ERASE_VALUE_def)

lemma wit_area_ok: "k \<le> 2 \<Longrightarrow> area_ok (wit_map (2 ^ k)) (ifx_cmsis_driver_flash wit_obj wit_cy) (flash_info wit_obj) (ifx_size wit_obj) wit_area"
  using le_imp_power_dvd[of k 4 "2 :: nat"]
  by (auto simp: area_ok_def safe_add_ok_def wit_map_def wit_area_def ifx_size_def wit_obj_def wit_flash_info_def drv_item_def data_width_byte_def
      ifx_cmsis_driver_flash_def intro!: exI[of _ k])

section \<open>The service\<close>

lemma fwu_run_ctx:
  assumes "fwu_run env s t" "length (fwu_ctx s) = FWU_COMPONENT_NUMBER env" "\<forall>c < FWU_COMPONENT_NUMBER env. fwu_view s c = None"
  shows "length (fwu_ctx t) = FWU_COMPONENT_NUMBER env \<and> (\<forall>c < FWU_COMPONENT_NUMBER env. fwu_view t c \<noteq> Some PSA_FWU_READY)"
  using assms
proof (induction rule: fwu_run.induct)
  case (fwu_message t m q b st u)
  let ?t = "t\<lparr>boot := b, fwu_req := q\<rparr>"
  have v: "fwu_view ?t = fwu_view t" by (rule view_cong) simp
  have "fwu_moves env (msg_type m) st ?t u" using fwu_message by (intro sfn_moves) auto
  moreover have "fwu_step ty st x y \<Longrightarrow> x \<noteq> Some PSA_FWU_READY \<Longrightarrow> y \<noteq> Some PSA_FWU_READY" for ty st x y by (auto elim: fwu_step.cases)
  ultimately show ?case using fwu_message v unfolding fwu_moves_def by (metis fwu_state.select_convs(1) fwu_state.surjective fwu_state.update_convs(2,3))
qed auto

text \<open>
  C8. Whatever messages the Firmware Update service has handled since the start, with whatever vectors and
  whatever the boot loader did, the next message moves every component only along the transitions of the
  PSA Firmware Update state machine that its type and the returned status allow; no component in use is
  ever READY.
\<close>
theorem fwu_message_follows_machine:
  assumes "length (fwu_ctx s0) = FWU_COMPONENT_NUMBER env" "\<forall>c < FWU_COMPONENT_NUMBER env. fwu_view s0 c = None"
    and "fwu_run env s0 s" "tfm_firmware_update_service_sfn env m (s\<lparr>boot := b, fwu_req := q\<rparr>) = Some (st, t)" "c < FWU_COMPONENT_NUMBER env"
  shows "fwu_step (msg_type m) st (fwu_view s c) (fwu_view t c) \<and> fwu_view t c \<noteq> Some PSA_FWU_READY"
proof -
  have l: "length (fwu_ctx (s\<lparr>boot := b, fwu_req := q\<rparr>)) = FWU_COMPONENT_NUMBER env" using fwu_run_ctx[OF assms(3,1,2)] by simp
  have v: "fwu_view (s\<lparr>boot := b, fwu_req := q\<rparr>) = fwu_view s" by (rule view_cong) simp
  have "fwu_run env s0 t" using fwu_message[OF assms(3,4)] .
  then show ?thesis using fwu_run_ctx[OF _ assms(1,2)] sfn_moves[OF assms(4) l] assms(5) v by (auto simp: fwu_moves_def)
qed

definition wit_fwu_info :: psa_fwu_component_info_t where
  "wit_fwu_info = \<lparr>info_state = PSA_FWU_READY, info_error = 0, info_version = \<lparr>ver_major = 1, ver_minor = 0, ver_patch = 0, ver_build = 0\<rparr>,
     info_max_size = 16, info_flags = 0, info_location = 1, info_digest = []\<rparr>"

definition wit_fwu_env :: "('b, 'r) fwu_env" where
  "wit_fwu_env = \<lparr>bl_get_image_info = (\<lambda>c q i info b. ((PSA_SUCCESS, wit_fwu_info), b)), bl_staging_area_init = (\<lambda>c mf n b. (PSA_SUCCESS, b)),
     bl_load_image = (\<lambda>c off bs b. (PSA_SUCCESS, b)), bl_install_image = (\<lambda>cs b. Some (PSA_SUCCESS_REBOOT, b)),
     bl_mark_image_accepted = (\<lambda>cs b. (PSA_SUCCESS, b)), bl_reject_staged_image = (\<lambda>c b. (PSA_SUCCESS, b)),
     bl_reject_trial_image = (\<lambda>c b. (PSA_SUCCESS, b)), bl_clean_component = (\<lambda>c b. (PSA_SUCCESS, b)), bl_init = (\<lambda>b. (PSA_SUCCESS, b)),
     bl_system_reset = (\<lambda>b. b), fwu_psa_read = (\<lambda>i n r. Some (replicate n 0, r)), fwu_psa_write = (\<lambda>i bs r. Some r),
     FWU_COMPONENT_NUMBER = 1, TFM_CONFIG_FWU_MAX_MANIFEST_SIZE = 0, PSA_FWU_MAX_WRITE_SIZE = 16, TFM_FWU_BUF_SIZE = 2,
     FWU_SUPPORT_TRIAL_STATE = True, sizeof_fwu_info = 4, fwu_info_bytes = (\<lambda>i. [0, 0, 0, 0]), stack_info = wit_fwu_info, stack_bytes = []\<rparr>"

definition wit_fwu_state :: "'b \<Rightarrow> 'r \<Rightarrow> tfm_fwu_ctx_t list \<Rightarrow> ('b, 'r) fwu_state" where
  "wit_fwu_state b r cs = \<lparr>fwu_ctx = cs, boot = b, fwu_req = r\<rparr>"

definition wit_idle :: tfm_fwu_ctx_t where
  "wit_idle = \<lparr>fwu_error = 0, component_state = PSA_FWU_READY, in_use = False\<rparr>"

definition wit_fwu_msg :: "int \<Rightarrow> u32 list \<Rightarrow> u32 list \<Rightarrow> psa_msg_t" where
  "wit_fwu_msg ty ins outs = \<lparr>msg_type = ty, msg_handle = wit_handle, client_id = 256, rhandle = 0, in_size = ins, out_size = outs\<rparr>"

lemma wit_fwu_start:
  "tfm_firmware_update_service_sfn wit_fwu_env (wit_fwu_msg TFM_FWU_START [1, 0, 0, 0] [0, 0, 0, 0]) (wit_fwu_state () () [wit_idle])
     = Some (PSA_SUCCESS, wit_fwu_state () () [\<lparr>fwu_error = 0, component_state = PSA_FWU_WRITING, in_use = True\<rparr>])"
  by (simp add: tfm_firmware_update_service_sfn_def fwu_types tfm_fwu_start_def wit_fwu_msg_def read_component_def read_local_def wit_fwu_env_def
      wit_fwu_state_def wit_idle_def comp_ctx_def bl_call_def set_comp_def wit_fwu_info_def)

theorem fwu_message_follows_machine_witness:
  "fwu_step TFM_FWU_START PSA_SUCCESS None (Some PSA_FWU_WRITING)"
proof -
  let ?s = "wit_fwu_state () () [wit_idle]"
  have s: "length (fwu_ctx ?s) = FWU_COMPONENT_NUMBER (wit_fwu_env :: (unit, unit) fwu_env)" "\<forall>c < FWU_COMPONENT_NUMBER (wit_fwu_env :: (unit, unit) fwu_env). fwu_view ?s c = None"
    by (simp_all add: wit_fwu_state_def wit_fwu_env_def fwu_view_def comp_ctx_def wit_idle_def)
  have r: "tfm_firmware_update_service_sfn wit_fwu_env (wit_fwu_msg TFM_FWU_START [1, 0, 0, 0] [0, 0, 0, 0]) (?s\<lparr>boot := (), fwu_req := ()\<rparr>)
     = Some (PSA_SUCCESS, wit_fwu_state () () [\<lparr>fwu_error = 0, component_state = PSA_FWU_WRITING, in_use = True\<rparr>])"
    using wit_fwu_start by (simp add: wit_fwu_state_def)
  show ?thesis
    using fwu_message_follows_machine[OF s fwu_boot r, of 0]
    by (simp add: wit_fwu_msg_def wit_fwu_env_def fwu_view_def comp_ctx_def wit_fwu_state_def wit_idle_def)
qed

lemma wit_q_cap [simp]: "rq_cap wit_q = 16"
  by (simp add: wit_q_def)

lemma wit_rq_sizes:
  assumes "m = wit_fwu_msg ty ins outs"
  shows "sizes_match m (spm_rest wit_q (wit_rq ins outs r)) (spm_room wit_q (wit_rq ins outs r))"
  using assms by (simp add: sizes_match_def wit_fwu_msg_def wit_rq_views mem_rd_def)

section \<open>The image\<close>

text \<open>
  C17. A write request of the client programs its block: for a component in WRITING whose staging area is
  open, a block inside the area at an offset that is a multiple of the program unit is in the flash, at
  that offset of the area, after the request, and every other byte is as before. The block goes through
  a buffer of the service, over the vectors of the partition manager, the MCUboot interface, the flash
  map and the Infineon flash driver.
\<close>
theorem fwu_write_programs_image:
  fixes env :: "(flash_mem mcuboot_state, spm_state) fwu_env" and mb :: "(flash_mem, 'it, 'op) mcuboot_env"
  assumes "spm_req_ok q (fwu_req s)" "sizes_match m (spm_rest q (fwu_req s)) (spm_room q (fwu_req s))"
    and "0 < TFM_FWU_BUF_SIZE env" "TFM_FWU_BUF_SIZE env \<le> rq_cap q" "4 \<le> rq_cap q" "FLASH_PROGRAM_UNIT (mb_map mb) dvd TFM_FWU_BUF_SIZE env"
    and "msg_type m = TFM_FWU_WRITE" "in_size m ! 2 \<le> PSA_FWU_MAX_WRITE_SIZE env" "length (spm_rest q (fwu_req s) 0) = 1" "length (spm_rest q (fwu_req s) 1) = 4"
    and "c = unat (spm_rest q (fwu_req s) 0 ! 0)" "off = de32 (spm_rest q (fwu_req s) 1)" "block = spm_rest q (fwu_req s) 2"
    and "fwu_view s c = Some PSA_FWU_WRITING" "ifx_flash_ok obj cy (mflash (boot s))"
    and "staging mb (ifx_cmsis_driver_flash obj cy) (flash_info obj) (ifx_size obj) c area (boot s)"
    and "off + length block \<le> fa_size area" "FLASH_PROGRAM_UNIT (mb_map mb) dvd off"
  shows "\<exists>t. tfm_firmware_update_service_sfn (spm_fwu_env (mcuboot_fwu_env mb env) q) m s = Some (PSA_SUCCESS, t) \<and> fwu_ctx t = fwu_ctx s
    \<and> mflash (boot t) = mem_set (mflash (boot s)) (start_address obj + fa_off area + off) block"
proof -
  let ?env = "mcuboot_fwu_env mb env" and ?d = "mflash (boot s)"
  have st: "c < MCUBOOT_IMAGE_NUMBER mb" "fa_off area + fa_size area \<le> ifx_size obj" using assms(16) by (auto simp: staging_def area_ok_def)
  obtain b where b: "bl_load_pieces ?env c off (fwu_chunks (TFM_FWU_BUF_SIZE env) block) (boot s) = (PSA_SUCCESS, b)"
    "mflash b = ifx_put obj ?d (wr (ifx_img obj ?d) (fa_off area + off) block)"
    using iff.mb_load_pieces_ok[OF assms(15,16,17,18,6,3)] by blast
  have "\<exists>r. tfm_fwu_write (spm_fwu_env ?env q) m s = Some (PSA_SUCCESS, s\<lparr>boot := b, fwu_req := r\<rparr>)"
    using fsp.write_ok[of q s m ?env] b(1) assms st(1) by (auto simp: Let_def)
  then show ?thesis
    using b(2) st(2) assms(7,17) by (auto simp: tfm_firmware_update_service_sfn_def fwu_types ifx_put_def ifx_img_def mem_set_wr add.assoc)
qed

text \<open>A boot loader that finds one dependency entry of twelve bytes in each image.\<close>

definition wit_mb :: "(flash_mem, nat, unit) mcuboot_env" where
  "wit_mb = \<lparr>mb_map = wit_map 1, FLASH_AREA_IMAGE_PRIMARY = (\<lambda>_. 0), FLASH_AREA_IMAGE_SECONDARY = (\<lambda>_. 1), MCUBOOT_IMAGE_NUMBER = 1,
     MCUBOOT_DIRECT_XIP = False, MCUBOOT_DIRECT_XIP_REVERT = False, MCUBOOT_SWAP_USING_SCRATCH = False, MCUBOOT_SWAP_USING_MOVE = False,
     MCUBOOT_RAM_LOAD = False, MCUBOOT_OVERWRITE_ONLY = True, sizeof_image_header = 32, sizeof_image_version = 8, sizeof_image_dependency = 12,
     IMAGE_MAGIC = 0x96f3b83d, ih_magic = de32, ih_ver = (\<lambda>_. \<lparr>iv_major = 0, iv_minor = 0, iv_revision = 0, iv_build_num = 0\<rparr>),
     version_of = (\<lambda>_. \<lparr>iv_major = 0, iv_minor = 0, iv_revision = 0, iv_build_num = 0\<rparr>), dep_image_id = (\<lambda>_. 0),
     dep_image_min_version = (\<lambda>_. \<lparr>iv_major = 0, iv_minor = 0, iv_revision = 0, iv_build_num = 0\<rparr>),
     bootutil_tlv_iter_begin = (\<lambda>_ _ _. (0, 1)), bootutil_tlv_iter_next = (\<lambda>it _. if it = 0 then (1, 0, 0, 0) else (0, 4, 12, it - 1)),
     boot_set_pending_multi = (\<lambda>_ _ d. (0, d)), boot_set_confirmed_multi = (\<lambda>_ d. (0, d)), boot_read_image_ok = (\<lambda>_ _. (0, 1)),
     BOOT_FLAG_SET = 1, BOOT_MAGIC_SZ = 16, BOOT_MAX_ALIGN = 8, BOOT_MAGIC_ALIGN_SIZE = 16, BOOT_TMPBUF_SZ = 256,
     ALIGN_UP = (\<lambda>n a. (n + a - 1) div a * a), ALIGN_DOWN = (\<lambda>n a. n div a * a), psa_hash_setup = (PSA_SUCCESS, ()),
     psa_hash_update = (\<lambda>_ _. (PSA_SUCCESS, ())), psa_hash_finish = (\<lambda>_. (PSA_SUCCESS, [])), tfm_core_get_boot_data = (\<lambda>m. (PSA_SUCCESS, m))\<rparr>"

definition wit_mb_state :: "flash_mem mcuboot_state" where
  "wit_mb_state = \<lparr>mcuboot_ctx = [\<lparr>fap = Some wit_area, loaded_size = 0\<rparr>], boot_shared_data = (\<lambda>_. 0), mflash = wit_mem\<rparr>"

definition wit_image_ram :: memory where
  "wit_image_ram = (\<lambda>_. 0)(0x1100 := 8, 0x1200 := 7, 0x1201 := 8, 0x1202 := 9)"

definition wit_writing :: "(flash_mem mcuboot_state, spm_state) fwu_state" where
  "wit_writing = wit_fwu_state wit_mb_state (wit_rq [1, 4, 3, 0] [0, 0, 0, 0] wit_image_ram) [\<lparr>fwu_error = 0, component_state = PSA_FWU_WRITING, in_use = True\<rparr>]"

lemma wit_writing_views:
  "spm_rest wit_q (fwu_req wit_writing) 0 = [0]" "spm_rest wit_q (fwu_req wit_writing) 1 = [8, 0, 0, 0]" "spm_rest wit_q (fwu_req wit_writing) 2 = [7, 8, 9]"
  by (simp_all add: wit_writing_def wit_fwu_state_def wit_rq_views wit_image_ram_def mem_rd_def upt_rec)

theorem fwu_write_programs_image_witness:
  "\<exists>t. tfm_firmware_update_service_sfn (spm_fwu_env (mcuboot_fwu_env wit_mb wit_fwu_env) wit_q) (wit_fwu_msg TFM_FWU_WRITE [1, 4, 3, 0] [0, 0, 0, 0]) wit_writing
       = Some (PSA_SUCCESS, t) \<and> fwu_ctx t = fwu_ctx wit_writing \<and> mflash (boot t) = mem_set wit_mem 0x1008 [7, 8, 9]"
proof -
  have bt: "boot wit_writing = wit_mb_state" "mflash wit_mb_state = wit_mem" "fa_off wit_area = 0" "fa_size wit_area = 16" "start_address wit_obj = 0x1000"
    by (simp_all add: wit_writing_def wit_fwu_state_def wit_mb_state_def wit_area_def wit_obj_def)
  have rq: "spm_req_ok wit_q (fwu_req wit_writing)" "sizes_match (wit_fwu_msg ty [1, 4, 3, 0] [0, 0, 0, 0]) (spm_rest wit_q (fwu_req wit_writing)) (spm_room wit_q (fwu_req wit_writing))" for ty
    using wit_rq_ok[of 1 4 3 0 wit_image_ram] wit_rq_sizes[of _ ty "[1, 4, 3, 0]" "[0, 0, 0, 0]" wit_image_ram] by (simp_all add: wit_writing_def wit_fwu_state_def)
  have st: "staging wit_mb (ifx_cmsis_driver_flash wit_obj wit_cy) (flash_info wit_obj) (ifx_size wit_obj) 0 wit_area (boot wit_writing)"
    using wit_area_ok[of 0] unfolding bt by (simp add: staging_def wit_mb_def wit_mb_state_def mb_fap_def)
  have u: "FLASH_PROGRAM_UNIT (mb_map wit_mb) = 1" by (simp add: wit_mb_def wit_map_def)
  have "de32 [8, 0, 0, 0] = 8" by (simp add: de32_def)
  then show ?thesis
    using fwu_write_programs_image[OF rq(1) rq(2), of "wit_fwu_env" wit_mb TFM_FWU_WRITE 0 8 "[7, 8, 9]" wit_obj wit_cy wit_area]
      wit_flash_ok st u wit_writing_views bt
    by (simp add: wit_fwu_msg_def wit_fwu_env_def, simp add: wit_writing_def wit_fwu_state_def fwu_view_def comp_ctx_def)
qed

section \<open>Answers\<close>




section \<open>The flash map\<close>

text \<open>
  C36. What a write through the flash map leaves in the flash, for every offset and length inside an area and
  every program unit: the range holds the bytes \<open>area_written\<close>, all others are kept. These are the bytes of
  the caller when the offset is a multiple of the program unit or when no whole unit follows the first one;
  otherwise the whole units are programmed from the start of the caller's buffer.
\<close>
theorem flash_area_write_image:
  assumes "ifx_flash_ok obj cy m" "area_ok env (ifx_cmsis_driver_flash obj cy) (flash_info obj) (ifx_size obj) area"
    and "off + len \<le> fa_size area" "len \<le> length src" "u = FLASH_PROGRAM_UNIT env"
  shows "flash_area_write env area off src len m = (0, mem_set m (start_address obj + fa_off area + off) (area_written u off src len))
    \<and> (off mod u = 0 \<or> w_units u off len = 0 \<longrightarrow> area_written u off src len = take len src)"
proof -
  have u: "0 < u" using assms(2,5) by (auto simp: area_ok_def)
  have l: "length (area_written u off src len) = len" using area_written_length[OF u assms(4)] .
  then show ?thesis using iff.area_write_ok[OF assms(1-4)] area_written_same[OF u assms(4)] assms(2,3,5)
    by (simp add: ifx_put_def ifx_img_def mem_set_wr area_ok_def add.assoc)
qed

theorem flash_area_write_image_witness:
  "flash_area_write (wit_map 4) wit_area 2 [1, 2, 3, 4, 5, 6, 7, 8] 8 wit_mem = (0, mem_set wit_mem 0x1002 [1, 2, 1, 2, 3, 4, 7, 8])
   \<and> flash_area_write (wit_map 4) wit_area 4 [1, 2, 3, 4, 5, 6, 7, 8] 8 wit_mem = (0, mem_set wit_mem 0x1004 [1, 2, 3, 4, 5, 6, 7, 8])"
proof -
  have bt: "fa_off wit_area = 0" "fa_size wit_area = 16" "start_address wit_obj = 0x1000" "FLASH_PROGRAM_UNIT (wit_map 4) = 4"
    by (simp_all add: wit_area_def wit_obj_def wit_map_def)
  have ar: "area_ok (wit_map 4) (ifx_cmsis_driver_flash wit_obj wit_cy) (flash_info wit_obj) (ifx_size wit_obj) wit_area" using wit_area_ok[of 2] by simp
  have w: "area_written 4 2 [1, 2, 3, 4, 5, 6, 7, 8] 8 = [1, 2, 1, 2, 3, 4, 7, 8]"
    by (simp add: area_written_def w_first_def w_pad_def w_units_def w_rest_def rd_def)
  show ?thesis
    using flash_area_write_image[OF wit_flash_ok[of wit_mem] ar, of 2 8 "[1, 2, 3, 4, 5, 6, 7, 8]" 4]
      flash_area_write_image[OF wit_flash_ok[of wit_mem] ar, of 4 8 "[1, 2, 3, 4, 5, 6, 7, 8]" 4]
    by (simp add: bt w)
qed

section \<open>Deviations\<close>

text \<open>
  The erase of a sector of several rows, which the initialisation of the driver accepts, erases its first
  row only.
\<close>
lemma ifx_erase_sector_first_row:
  assumes "cy_flash_ok cy" "CY_FLASH_SIZEOF_ROW cy dvd start_address obj" "CY_FLASH_SIZEOF_ROW cy dvd fi_sector_size (flash_info obj)"
    and "fi_sector_size (flash_info obj) dvd addr" "addr + fi_sector_size (flash_info obj) \<le> ifx_size obj" "0 < fi_sector_size (flash_info obj)"
    and "start_address obj + ifx_size obj \<le> SIZE_MAX_P1" "ifx_size obj < SIZE_MAX_P1"
  shows "ifx_driver_flash_erase_sector obj cy addr m
    = (ARM_DRIVER_OK, mem_set m (start_address obj + addr) (replicate (CY_FLASH_SIZEOF_ROW cy) IFX_DRIVER_FLASH_ERASE_VALUE))"
proof -
  have "ifx_flash_driver_validate_region (flash_info obj) addr (fi_sector_size (flash_info obj)) = ARM_DRIVER_OK"
    using assms by (intro validate_ok) simp_all
  moreover have "add32 (start_address obj) addr = start_address obj + addr" using assms by (intro add32_id) linarith
  moreover have "CY_FLASH_SIZEOF_ROW cy dvd start_address obj + addr" using assms(2-4) dvd_trans by (metis dvd_add)
  ultimately show ?thesis using assms(1,4) by (simp add: ifx_driver_flash_erase_sector_def cy_flash_ok_def ifx_flashdrv_to_regular_status_def dvd_eq_mod_eq_0)
qed

text \<open>
  Rejecting two components in trial, the first of which needs a reboot: the request reports plain success,
  although the first component is REJECTED and waits for the reboot.
\<close>
lemma fwu_reject_loses_reboot:
  "\<exists>t. tfm_fwu_reject (wit_fwu_env\<lparr>FWU_COMPONENT_NUMBER := 2, bl_reject_trial_image := (\<lambda>c b. (if c = 0 then PSA_SUCCESS_REBOOT else PSA_SUCCESS, b))\<rparr>)
      (wit_fwu_msg TFM_FWU_REJECT [4, 0, 0, 0] [0, 0, 0, 0])
      (wit_fwu_state () () (replicate 2 \<lparr>fwu_error = 0, component_state = PSA_FWU_TRIAL, in_use = True\<rparr>)) = Some (PSA_SUCCESS, t)
    \<and> fwu_view t 0 = Some PSA_FWU_REJECTED \<and> fwu_view t 1 = Some PSA_FWU_FAILED"
  by (simp add: tfm_fwu_reject_def wit_fwu_env_def wit_fwu_msg_def wit_fwu_state_def upt_rec fwu_reject_trial_def bl_call_def comp_ctx_def set_comp_def
      fwu_view_def spm_simps numeral_2_eq_2)

end
