(* ===== verification/PS_Crypto.thy ===== *)
theory PS_Crypto
  imports ITS_Service
begin

text \<open>
  Protected Storage (src/secure_fw/partitions/protected_storage), the lower half: the crypto interface
  (crypto/ps_crypto_interface.c), encrypted objects (ps_encrypted_object.c), the counters
  (nv_counters/ps_nv_counters.c) and the data they share, for the default build: encryption and rollback
  protection, no limit on the use of a key. The PSA Crypto calls are parameters; the calls of Internal
  Trusted Storage and of the platform's counters are fields of the environment too, and their
  contracts are locales. A result \<open>None\<close> means that the call does not return, or undefined behaviour.
\<close>

section \<open>State and errors\<close>

type_synonym ('s, 'a) pio = "'s \<Rightarrow> ((psa_error + 'a) \<times> 's) option"

definition ret_p :: "'a \<Rightarrow> ('s, 'a) pio" where "ret_p x = (\<lambda>s. Some (Inr x, s))"
definition raise_p :: "psa_error \<Rightarrow> ('s, 'a) pio" where "raise_p e = (\<lambda>s. Some (Inl e, s))"
definition modify_p :: "('s \<Rightarrow> 's) \<Rightarrow> ('s, unit) pio" where "modify_p f = (\<lambda>s. Some (Inr (), f s))"
definition gets_p :: "('s \<Rightarrow> 'a) \<Rightarrow> ('s, 'a) pio" where "gets_p f = (\<lambda>s. Some (Inr (f s), s))"

definition bind_p :: "('s, 'a) pio \<Rightarrow> ('a \<Rightarrow> ('s, 'b) pio) \<Rightarrow> ('s, 'b) pio" where
  "bind_p m f = (\<lambda>s. case m s of None \<Rightarrow> None | Some (Inl e, t) \<Rightarrow> Some (Inl e, t) | Some (Inr x, t) \<Rightarrow> f x t)"

text \<open>The status as a value; every error as \<open>e\<close>.\<close>

definition try_p :: "('s, 'a) pio \<Rightarrow> ('s, psa_error + 'a) pio" where
  "try_p m = (\<lambda>s. case m s of None \<Rightarrow> None | Some (r, t) \<Rightarrow> Some (Inr r, t))"

definition on_error_p :: "psa_error \<Rightarrow> ('s, 'a) pio \<Rightarrow> ('s, 'a) pio" where
  "on_error_p e m = (\<lambda>s. case m s of None \<Rightarrow> None | Some (Inl _, t) \<Rightarrow> Some (Inl e, t) | Some (Inr x, t) \<Rightarrow> Some (Inr x, t))"

lemma bind_p_Inr: "m s = Some (Inr x, t) \<Longrightarrow> bind_p m f s = f x t" by (simp add: bind_p_def)
lemma bind_p_Inl: "m s = Some (Inl e, t) \<Longrightarrow> bind_p m f s = Some (Inl e, t)" by (simp add: bind_p_def)
lemma bind_p_modify [simp]: "bind_p (modify_p g) f s = f () (g s)" by (simp add: bind_p_def modify_p_def)
lemma bind_p_gets [simp]: "bind_p (gets_p g) f s = f (g s) s" by (simp add: bind_p_def gets_p_def)
lemma bind_p_ret [simp]: "bind_p (ret_p x) f = f x" by (simp add: bind_p_def ret_p_def fun_eq_iff)
lemma ret_p_apply [simp]: "ret_p x s = Some (Inr x, s)" by (simp add: ret_p_def)
lemma raise_p_apply [simp]: "raise_p e s = Some (Inl e, s)" by (simp add: raise_p_def)
lemma modify_p_apply [simp]: "modify_p g s = Some (Inr (), g s)" by (simp add: modify_p_def)
lemma bind_p_try: "m s = Some (r, t) \<Longrightarrow> bind_p (try_p m) f s = f r t" by (simp add: bind_p_def try_p_def)

lemma bind_p_success: "bind_p m f s = Some (Inr y, u) \<longleftrightarrow> (\<exists>x t. m s = Some (Inr x, t) \<and> f x t = Some (Inr y, u))"
  by (auto simp: bind_p_def split: option.splits prod.splits sum.splits)

section \<open>Data\<close>

definition PS_TAG_LEN_BYTES :: nat where "PS_TAG_LEN_BYTES = 16"
definition PS_IV_LEN_BYTES :: nat where "PS_IV_LEN_BYTES = 12"

text \<open>A 32-bit signed number in memory.\<close>

definition lei32 :: "int \<Rightarrow> byte list" where "lei32 i = le32 (unat (word_of_int i :: 32 word))"
definition dei32 :: "byte list \<Rightarrow> int" where "dei32 bs = sint (word_of_nat (de32 bs) :: 32 word)"

record ps_crypto_t =
  cr_tag :: "byte list"
  cr_uid :: nat
  cr_client_id :: int
  cr_iv :: "byte list"

record ps_object_info_t =
  oi_current_size :: nat
  oi_max_size :: nat
  oi_create_flags :: "32 word"

record ps_object_t =
  ob_crypto :: ps_crypto_t
  ob_info :: ps_object_info_t
  ob_data :: "byte list"

text \<open>An entry and the object table, with the padding the compiler adds.\<close>

record ps_obj_table_entry_t =
  te_tag :: "byte list"
  te_uid :: nat
  te_client_id :: int
  te_pad :: "byte list"

record ps_obj_table_t =
  tb_crypto :: ps_crypto_t
  tb_version :: byte
  tb_pad :: "byte list"
  tb_obj_db :: "ps_obj_table_entry_t list"

text \<open>
  The static variables of the partition. The tag pointer of \<open>g_obj_tbl_info\<close> is the tag of
  \<open>g_ps_object\<close> (set by \<open>ps_system_prepare\<close>), so only its file id is a variable of its own. \<open>ps_its\<close>,
  \<open>ps_nv\<close>, \<open>ps_keys\<close> and \<open>ps_req\<close> are the states behind the interfaces.
\<close>

record ('i, 'n, 'k, 'r) ps_state =
  obj_table :: ps_obj_table_t
  active_table :: nat
  scratch_table :: nat
  g_ps_object :: ps_object_t
  g_obj_fid :: nat
  ps_crypto_iv_buf :: "byte list"
  ps_its :: 'i
  ps_nv :: 'n
  ps_keys :: 'k
  ps_req :: 'r

text \<open>
  The environment. \<open>psa_its_get\<close> also returns the bytes it stored through the pointer, whatever the
  status; a crypto operation returns the bytes of its output.
\<close>

record ('i, 'n, 'k, 'o, 'r) ps_env =
  psa_its_set :: "nat \<Rightarrow> byte list \<Rightarrow> 32 word \<Rightarrow> 'i \<Rightarrow> ((psa_error + unit) \<times> 'i) option"
  psa_its_get :: "nat \<Rightarrow> nat \<Rightarrow> nat \<Rightarrow> 'i \<Rightarrow> (((psa_error + unit) \<times> byte list) \<times> 'i) option"
  psa_its_remove :: "nat \<Rightarrow> 'i \<Rightarrow> ((psa_error + unit) \<times> 'i) option"
  tfm_platform_nv_counter_read :: "nat \<Rightarrow> 'n \<Rightarrow> nat option \<times> 'n"
  tfm_platform_nv_counter_increment :: "nat \<Rightarrow> 'n \<Rightarrow> bool \<times> 'n"
  psa_key_derivation_setup :: "'k \<Rightarrow> (psa_error + unit) \<times> 'o \<times> 'k"
  psa_key_derivation_input_key :: "'o \<Rightarrow> 'k \<Rightarrow> (psa_error + unit) \<times> 'o \<times> 'k"
  psa_key_derivation_input_bytes :: "byte list \<Rightarrow> 'o \<Rightarrow> 'k \<Rightarrow> (psa_error + unit) \<times> 'o \<times> 'k"
  psa_key_derivation_output_key :: "'o \<Rightarrow> 'k \<Rightarrow> (psa_error + nat) \<times> 'o \<times> 'k"
  psa_key_derivation_abort :: "'o \<Rightarrow> 'k \<Rightarrow> (psa_error + unit) \<times> 'o \<times> 'k"
  psa_destroy_key :: "nat \<Rightarrow> 'k \<Rightarrow> (psa_error + unit) \<times> 'k"
  psa_aead_encrypt :: "nat \<Rightarrow> byte list \<Rightarrow> byte list \<Rightarrow> byte list \<Rightarrow> nat \<Rightarrow> 'k \<Rightarrow> ((psa_error + unit) \<times> byte list) \<times> 'k"
  psa_aead_decrypt :: "nat \<Rightarrow> byte list \<Rightarrow> byte list \<Rightarrow> byte list \<Rightarrow> nat \<Rightarrow> 'k \<Rightarrow> ((psa_error + unit) \<times> byte list) \<times> 'k"
  ps_psa_read :: "nat \<Rightarrow> nat \<Rightarrow> 'r \<Rightarrow> (byte list \<times> 'r) option"
  ps_psa_write :: "nat \<Rightarrow> byte list \<Rightarrow> 'r \<Rightarrow> 'r option"
  PS_MAX_ASSET_SIZE :: nat
  PS_NUM_ASSETS :: nat
  PS_PARTITION_ID :: int       \<comment> \<open>\<open>TFM_SP_PS\<close>\<close>
  PS_CREATE_LAYOUT :: bool

type_synonym ('i, 'n, 'k, 'r, 'a) ps = "(('i, 'n, 'k, 'r) ps_state, 'a) pio"

text \<open>Calls of the interfaces on their part of the state.\<close>

definition its_p :: "('i \<Rightarrow> ((psa_error + 'a) \<times> 'i) option) \<Rightarrow> ('i, 'n, 'k, 'r, 'a) ps" where
  "its_p f = (\<lambda>s. case f (ps_its s) of None \<Rightarrow> None | Some (r, i) \<Rightarrow> Some (r, s\<lparr>ps_its := i\<rparr>))"

definition key_p :: "('k \<Rightarrow> (psa_error + 'a) \<times> 'k) \<Rightarrow> ('i, 'n, 'k, 'r, 'a) ps" where
  "key_p f = (\<lambda>s. case f (ps_keys s) of (r, k) \<Rightarrow> Some (r, s\<lparr>ps_keys := k\<rparr>))"

section \<open>Counters\<close>

definition TFM_PS_NV_COUNTER_1 :: nat where "TFM_PS_NV_COUNTER_1 = 0"
definition TFM_PS_NV_COUNTER_2 :: nat where "TFM_PS_NV_COUNTER_2 = 1"
definition TFM_PS_NV_COUNTER_3 :: nat where "TFM_PS_NV_COUNTER_3 = 2"

definition ps_read_nv_counter :: "('i, 'n, 'k, 'o, 'r) ps_env \<Rightarrow> nat \<Rightarrow> ('i, 'n, 'k, 'r, nat) ps" where
  "ps_read_nv_counter env counter_id = (\<lambda>s.
     case tfm_platform_nv_counter_read env counter_id (ps_nv s) of
       (v, n) \<Rightarrow> Some (case v of None \<Rightarrow> Inl PSA_ERROR_GENERIC_ERROR | Some x \<Rightarrow> Inr x, s\<lparr>ps_nv := n\<rparr>))"

definition ps_increment_nv_counter :: "('i, 'n, 'k, 'o, 'r) ps_env \<Rightarrow> nat \<Rightarrow> ('i, 'n, 'k, 'r, unit) ps" where
  "ps_increment_nv_counter env counter_id = (\<lambda>s.
     case tfm_platform_nv_counter_increment env counter_id (ps_nv s) of
       (ok, n) \<Rightarrow> Some (if ok then Inr () else Inl PSA_ERROR_GENERIC_ERROR, s\<lparr>ps_nv := n\<rparr>))"

section \<open>The crypto interface\<close>

definition fill_key_label :: "ps_crypto_t \<Rightarrow> byte list" where
  "fill_key_label c = lei32 (cr_client_id c) @ le64 (cr_uid c)"

text \<open>The key derivation: after a failure the operation is aborted, and the key destroyed when there is one.\<close>

definition ps_crypto_setkey :: "('i, 'n, 'k, 'o, 'r) ps_env \<Rightarrow> byte list \<Rightarrow> 'k \<Rightarrow> (psa_error + nat) \<times> 'k" where
  "ps_crypto_setkey env key_label k =
     (let release = (\<lambda>op k. (Inl PSA_ERROR_GENERIC_ERROR, snd (snd (psa_key_derivation_abort env op k))))
      in if key_label = [] then (Inl PSA_ERROR_INVALID_ARGUMENT, k)
         else case psa_key_derivation_setup env k of
           (Inl e, _, k) \<Rightarrow> (Inl e, k)
         | (Inr _, op, k) \<Rightarrow>
             case psa_key_derivation_input_key env op k of
               (Inl _, op, k) \<Rightarrow> release op k
             | (Inr _, op, k) \<Rightarrow>
                 case psa_key_derivation_input_bytes env key_label op k of
                   (Inl _, op, k) \<Rightarrow> release op k
                 | (Inr _, op, k) \<Rightarrow>
                     case psa_key_derivation_output_key env op k of
                       (Inl _, op, k) \<Rightarrow> release op k
                     | (Inr key, op, k) \<Rightarrow>
                         case psa_key_derivation_abort env op k of
                           (Inl _, op, k) \<Rightarrow> release op (snd (psa_destroy_key env key k))
                         | (Inr _, op, k) \<Rightarrow> (Inr key, k))"

definition ps_crypto_set_iv :: "ps_crypto_t \<Rightarrow> ('i, 'n, 'k, 'r) ps_state \<Rightarrow> ('i, 'n, 'k, 'r) ps_state" where
  "ps_crypto_set_iv c s = s\<lparr>ps_crypto_iv_buf := cr_iv c\<rparr>"

text \<open>The next initialisation vector: a 96-bit number in two parts; the largest one is not passed.\<close>

definition ps_crypto_get_iv :: "('i, 'n, 'k, 'r, byte list) ps" where
  "ps_crypto_get_iv = (\<lambda>s.
     let iv_l = (de64 (take 8 (ps_crypto_iv_buf s)) + 1) mod 2 ^ 64;
         iv_h = (if iv_l = 0 then add32 (de32 (drop 8 (ps_crypto_iv_buf s))) 1 else de32 (drop 8 (ps_crypto_iv_buf s)))
     in if iv_l = 0 \<and> iv_h = 0 then Some (Inl PSA_ERROR_GENERIC_ERROR, s)
        else let iv = le64 iv_l @ le32 iv_h in Some (Inr iv, s\<lparr>ps_crypto_iv_buf := iv\<rparr>))"

text \<open>
  Encryption in place: the state of the buffer and of the crypto data after the call. The tag is at the
  end of the output.
\<close>

definition ps_crypto_encrypt_and_tag :: "('i, 'n, 'k, 'o, 'r) ps_env \<Rightarrow> ps_crypto_t \<Rightarrow> byte list \<Rightarrow> byte list \<Rightarrow> nat \<Rightarrow> nat \<Rightarrow> 'k
    \<Rightarrow> ((psa_error + nat) \<times> ps_crypto_t \<times> byte list) \<times> 'k" where
  "ps_crypto_encrypt_and_tag env c add buf in_len out_max k =
     (case ps_crypto_setkey env (fill_key_label c) k of
        (Inl e, k) \<Rightarrow> ((Inl e, c, buf), k)
      | (Inr key, k) \<Rightarrow>
          case psa_aead_encrypt env key (cr_iv c) add (take in_len buf) out_max k of
            ((r, out), k) \<Rightarrow>
              let buf = wr buf 0 out in
              case r of
                Inl _ \<Rightarrow> ((Inl PSA_ERROR_GENERIC_ERROR, c, buf), snd (psa_destroy_key env key k))
              | Inr _ \<Rightarrow>
                  let out_len = length out - PS_TAG_LEN_BYTES; c = c\<lparr>cr_tag := rd buf out_len PS_TAG_LEN_BYTES\<rparr>
                  in case psa_destroy_key env key k of
                       (Inl _, k) \<Rightarrow> ((Inl PSA_ERROR_GENERIC_ERROR, c, buf), k)
                     | (Inr _, k) \<Rightarrow> ((Inr out_len, c, buf), k))"

definition ps_crypto_auth_and_decrypt :: "('i, 'n, 'k, 'o, 'r) ps_env \<Rightarrow> ps_crypto_t \<Rightarrow> byte list \<Rightarrow> byte list \<Rightarrow> nat \<Rightarrow> nat \<Rightarrow> 'k
    \<Rightarrow> ((psa_error + nat) \<times> byte list) \<times> 'k" where
  "ps_crypto_auth_and_decrypt env c add buf in_len out_max k =
     (let buf = wr buf in_len (cr_tag c); in_len = in_len + PS_TAG_LEN_BYTES
      in case ps_crypto_setkey env (fill_key_label c) k of
           (Inl e, k) \<Rightarrow> ((Inl e, buf), k)
         | (Inr key, k) \<Rightarrow>
             case psa_aead_decrypt env key (cr_iv c) add (take in_len buf) out_max k of
               ((r, out), k) \<Rightarrow>
                 let buf = wr buf 0 out in
                 case r of
                   Inl _ \<Rightarrow> ((Inl PSA_ERROR_INVALID_SIGNATURE, buf), snd (psa_destroy_key env key k))
                 | Inr _ \<Rightarrow>
                     case psa_destroy_key env key k of
                       (Inl _, k) \<Rightarrow> ((Inl PSA_ERROR_GENERIC_ERROR, buf), k)
                     | (Inr _, k) \<Rightarrow> ((Inr (length out), buf), k))"

definition ps_crypto_generate_auth_tag :: "('i, 'n, 'k, 'o, 'r) ps_env \<Rightarrow> ps_crypto_t \<Rightarrow> byte list \<Rightarrow> 'k
    \<Rightarrow> ((psa_error + unit) \<times> ps_crypto_t) \<times> 'k" where
  "ps_crypto_generate_auth_tag env c add k =
     (case ps_crypto_setkey env (fill_key_label c) k of
        (Inl e, k) \<Rightarrow> ((Inl e, c), k)
      | (Inr key, k) \<Rightarrow>
          case psa_aead_encrypt env key (cr_iv c) add [] PS_TAG_LEN_BYTES k of
            ((r, out), k) \<Rightarrow>
              let c = c\<lparr>cr_tag := wr (cr_tag c) 0 out\<rparr> in
              if r \<noteq> Inr () \<or> length out \<noteq> PS_TAG_LEN_BYTES then ((Inl PSA_ERROR_GENERIC_ERROR, c), snd (psa_destroy_key env key k))
              else case psa_destroy_key env key k of
                     (Inl _, k) \<Rightarrow> ((Inl PSA_ERROR_GENERIC_ERROR, c), k)
                   | (Inr _, k) \<Rightarrow> ((Inr (), c), k))"

definition ps_crypto_authenticate :: "('i, 'n, 'k, 'o, 'r) ps_env \<Rightarrow> ps_crypto_t \<Rightarrow> byte list \<Rightarrow> 'k \<Rightarrow> (psa_error + unit) \<times> 'k" where
  "ps_crypto_authenticate env c add k =
     (case ps_crypto_setkey env (fill_key_label c) k of
        (Inl e, k) \<Rightarrow> (Inl e, k)
      | (Inr key, k) \<Rightarrow>
          case psa_aead_decrypt env key (cr_iv c) add (cr_tag c) 0 k of
            ((r, out), k) \<Rightarrow>
              if r \<noteq> Inr () \<or> length out \<noteq> 0 then (Inl PSA_ERROR_INVALID_SIGNATURE, snd (psa_destroy_key env key k))
              else case psa_destroy_key env key k of
                     (Inl _, k) \<Rightarrow> (Inl PSA_ERROR_GENERIC_ERROR, k)
                   | (Inr _, k) \<Rightarrow> (Inr (), k))"

section \<open>Encrypted objects\<close>

definition STORED_HEADER_DATA_SIZE :: nat where "STORED_HEADER_DATA_SIZE = 12"

definition PS_ENCRYPT_SIZE :: "nat \<Rightarrow> nat" where "PS_ENCRYPT_SIZE n = n + 12"

text \<open>The memory of an object from its information on.\<close>

definition info_bytes :: "ps_object_info_t \<Rightarrow> byte list" where
  "info_bytes i = le32 (oi_current_size i) @ le32 (oi_max_size i) @ le32 (unat (oi_create_flags i))"

definition bytes_info :: "byte list \<Rightarrow> ps_object_info_t" where
  "bytes_info bs = \<lparr>oi_current_size = de32 (take 4 bs), oi_max_size = de32 (rd bs 4 4), oi_create_flags = word_of_nat (de32 (rd bs 8 4))\<rparr>"

definition obj_body :: "ps_object_t \<Rightarrow> byte list" where
  "obj_body ob = info_bytes (ob_info ob) @ ob_data ob"

definition set_body :: "byte list \<Rightarrow> ps_object_t \<Rightarrow> ps_object_t" where
  "set_body bs ob = ob\<lparr>ob_info := bytes_info bs, ob_data := drop 12 bs\<rparr>"

definition ps_object_auth_decrypt :: "('i, 'n, 'k, 'o, 'r) ps_env \<Rightarrow> nat \<Rightarrow> nat \<Rightarrow> ('i, 'n, 'k, 'r, unit) ps" where
  "ps_object_auth_decrypt env fd obj_size = (\<lambda>s.
     let ob = g_ps_object s in
     case ps_crypto_auth_and_decrypt env (ob_crypto ob) (le32 fd) (obj_body ob) obj_size (length (obj_body ob)) (ps_keys s) of
       ((r, buf), k) \<Rightarrow>
         Some (if r = Inr obj_size then Inr () else Inl PSA_ERROR_GENERIC_ERROR, s\<lparr>g_ps_object := set_body buf ob, ps_keys := k\<rparr>))"

definition ps_object_auth_encrypt :: "('i, 'n, 'k, 'o, 'r) ps_env \<Rightarrow> nat \<Rightarrow> nat \<Rightarrow> ('i, 'n, 'k, 'r, unit) ps" where
  "ps_object_auth_encrypt env fd obj_size =
     bind_p ps_crypto_get_iv (\<lambda>iv s.
       let ob = (g_ps_object s)\<lparr>ob_crypto := (ob_crypto (g_ps_object s))\<lparr>cr_iv := iv\<rparr>\<rparr> in
       case ps_crypto_encrypt_and_tag env (ob_crypto ob) (le32 fd) (obj_body ob) obj_size
              (PS_ENCRYPT_SIZE (PS_MAX_ASSET_SIZE env) + PS_TAG_LEN_BYTES) (ps_keys s) of
         ((r, c, buf), k) \<Rightarrow>
           Some (if r = Inr obj_size then Inr () else Inl PSA_ERROR_GENERIC_ERROR,
                 s\<lparr>g_ps_object := (set_body buf ob)\<lparr>ob_crypto := c\<rparr>, ps_keys := k\<rparr>))"

text \<open>
  The stored file is the initialisation vector and the encrypted object; it is read over the vector, the
  information and the data of \<open>g_ps_object\<close>. A file shorter than the vector makes the size of the
  encrypted part wrap around.
\<close>

definition ps_encrypted_object_read :: "('i, 'n, 'k, 'o, 'r) ps_env \<Rightarrow> nat \<Rightarrow> ('i, 'n, 'k, 'r, unit) ps" where
  "ps_encrypted_object_read env fd = (\<lambda>s.
     case psa_its_get env fd 0 (PS_ENCRYPT_SIZE (PS_MAX_ASSET_SIZE env) + STORED_HEADER_DATA_SIZE) (ps_its s) of
       None \<Rightarrow> None
     | Some ((r, bs), i) \<Rightarrow>
         let ob = g_ps_object s; c = ob_crypto ob;
             s = s\<lparr>ps_its := i, g_ps_object := set_body (wr (obj_body ob) 0 (drop PS_IV_LEN_BYTES bs))
                   (ob\<lparr>ob_crypto := c\<lparr>cr_iv := take PS_IV_LEN_BYTES bs @ drop (length bs) (cr_iv c)\<rparr>\<rparr>)\<rparr>
         in case r of
              Inl e \<Rightarrow> Some (Inl e, s)
            | Inr _ \<Rightarrow> if length bs < STORED_HEADER_DATA_SIZE then None
                       else ps_object_auth_decrypt env fd (length bs - STORED_HEADER_DATA_SIZE) s)"

definition ps_encrypted_object_write :: "('i, 'n, 'k, 'o, 'r) ps_env \<Rightarrow> nat \<Rightarrow> ('i, 'n, 'k, 'r, unit) ps" where
  "ps_encrypted_object_write env fd =
     bind_p (gets_p (\<lambda>s. PS_ENCRYPT_SIZE (oi_current_size (ob_info (g_ps_object s))))) (\<lambda>wrt_size.
     bind_p (ps_object_auth_encrypt env fd wrt_size) (\<lambda>_.
     bind_p (gets_p g_ps_object) (\<lambda>ob.
     its_p (psa_its_set env fd (take (wrt_size + STORED_HEADER_DATA_SIZE) (cr_iv (ob_crypto ob) @ obj_body ob)) 0))))"

end
