(* ===== verification/PS_Object_Table.thy ===== *)
theory PS_Object_Table
  imports PS_Crypto
begin

text \<open>
  The object table of Protected Storage (ps_object_table.c), for the build of \<open>PS_Crypto\<close>. The table is
  saved to one of two files in turn, authenticated together with a counter that each save increments.
\<close>

section \<open>The table in memory and on flash\<close>

definition PS_OBJECT_SYSTEM_VERSION :: byte where "PS_OBJECT_SYSTEM_VERSION = 1"
definition PS_OBJ_TABLE_UID :: nat where "PS_OBJ_TABLE_UID = 0x4ee143e1df40bd00"
definition PS_OBJ_TABLE_IDX_0 :: nat where "PS_OBJ_TABLE_IDX_0 = 0"
definition PS_OBJ_TABLE_IDX_1 :: nat where "PS_OBJ_TABLE_IDX_1 = 1"
definition PS_INVALID_NVC_VALUE :: nat where "PS_INVALID_NVC_VALUE = 0"
definition TFM_PS_INVALID_UID :: nat where "TFM_PS_INVALID_UID = 0"

definition PS_OBJ_TABLE_ENTRIES :: "('i, 'n, 'k, 'o, 'r) ps_env \<Rightarrow> nat" where
  "PS_OBJ_TABLE_ENTRIES env = PS_NUM_ASSETS env + 1"

definition PS_TABLE_FS_ID :: "nat \<Rightarrow> nat" where "PS_TABLE_FS_ID idx = idx + 1"
definition PS_OBJECT_FS_ID :: "nat \<Rightarrow> nat" where "PS_OBJECT_FS_ID idx = (idx + 1) + PS_TABLE_FS_ID PS_OBJ_TABLE_IDX_1"
definition PS_OBJECT_FS_ID_TO_IDX :: "nat \<Rightarrow> nat" where "PS_OBJECT_FS_ID_TO_IDX fd = (fd - 1) - PS_TABLE_FS_ID PS_OBJ_TABLE_IDX_1"

text \<open>The layout: 40 bytes of crypto data, the version and seven bytes of padding, entries of 32 bytes.\<close>

definition crypto_bytes :: "ps_crypto_t \<Rightarrow> byte list" where
  "crypto_bytes c = cr_tag c @ le64 (cr_uid c) @ lei32 (cr_client_id c) @ cr_iv c"

definition bytes_crypto :: "byte list \<Rightarrow> ps_crypto_t" where
  "bytes_crypto bs = \<lparr>cr_tag = take 16 bs, cr_uid = de64 (rd bs 16 8), cr_client_id = dei32 (rd bs 24 4), cr_iv = rd bs 28 12\<rparr>"

definition entry_bytes :: "ps_obj_table_entry_t \<Rightarrow> byte list" where
  "entry_bytes e = te_tag e @ le64 (te_uid e) @ lei32 (te_client_id e) @ te_pad e"

definition bytes_entry :: "byte list \<Rightarrow> ps_obj_table_entry_t" where
  "bytes_entry bs = \<lparr>te_tag = take 16 bs, te_uid = de64 (rd bs 16 8), te_client_id = dei32 (rd bs 24 4), te_pad = rd bs 28 4\<rparr>"

definition table_data :: "ps_obj_table_t \<Rightarrow> byte list" where
  "table_data t = tb_version t # tb_pad t @ concat (map entry_bytes (tb_obj_db t))"

definition table_bytes :: "ps_obj_table_t \<Rightarrow> byte list" where
  "table_bytes t = crypto_bytes (tb_crypto t) @ table_data t"

definition PS_OBJ_TABLE_SIZE :: "('i, 'n, 'k, 'o, 'r) ps_env \<Rightarrow> nat" where
  "PS_OBJ_TABLE_SIZE env = 48 + 32 * PS_OBJ_TABLE_ENTRIES env"

definition bytes_table :: "('i, 'n, 'k, 'o, 'r) ps_env \<Rightarrow> byte list \<Rightarrow> ps_obj_table_t" where
  "bytes_table env bs = \<lparr>tb_crypto = bytes_crypto (take 40 bs), tb_version = bs ! 40, tb_pad = rd bs 41 7,
     tb_obj_db = map (\<lambda>i. bytes_entry (rd bs (48 + 32 * i) 32)) [0..<PS_OBJ_TABLE_ENTRIES env]\<rparr>"

definition zero_entry :: ps_obj_table_entry_t where
  "zero_entry = \<lparr>te_tag = replicate 16 0, te_uid = 0, te_client_id = 0, te_pad = replicate 4 0\<rparr>"

definition zero_crypto :: ps_crypto_t where
  "zero_crypto = \<lparr>cr_tag = replicate 16 0, cr_uid = 0, cr_client_id = 0, cr_iv = replicate 12 0\<rparr>"

definition zero_table :: "('i, 'n, 'k, 'o, 'r) ps_env \<Rightarrow> ps_obj_table_t" where
  "zero_table env = \<lparr>tb_crypto = zero_crypto, tb_version = 0, tb_pad = replicate 7 0, tb_obj_db = replicate (PS_OBJ_TABLE_ENTRIES env) zero_entry\<rparr>"

section \<open>Saving\<close>

fun nvc_increments :: "('i, 'n, 'k, 'o, 'r) ps_env \<Rightarrow> nat \<Rightarrow> nat \<Rightarrow> ('i, 'n, 'k, 'r, unit) ps" where
  "nvc_increments env counter_id 0 = ret_p ()"
| "nvc_increments env counter_id (Suc n) = bind_p (ps_increment_nv_counter env counter_id) (\<lambda>_. nvc_increments env counter_id n)"

definition ps_object_table_align_nv_counters :: "('i, 'n, 'k, 'o, 'r) ps_env \<Rightarrow> nat \<Rightarrow> ('i, 'n, 'k, 'r, unit) ps" where
  "ps_object_table_align_nv_counters env nvc_1 =
     bind_p (ps_read_nv_counter env TFM_PS_NV_COUNTER_2) (\<lambda>v.
     bind_p (nvc_increments env TFM_PS_NV_COUNTER_2 (nvc_1 - v)) (\<lambda>_.
     bind_p (ps_read_nv_counter env TFM_PS_NV_COUNTER_3) (\<lambda>v.
     nvc_increments env TFM_PS_NV_COUNTER_3 (nvc_1 - v))))"

definition assoc_data :: "ps_obj_table_t \<Rightarrow> nat \<Rightarrow> byte list" where
  "assoc_data t nv_counter = table_data t @ le32 nv_counter"

definition ps_object_table_nvc_generate_auth_tag :: "('i, 'n, 'k, 'o, 'r) ps_env \<Rightarrow> nat \<Rightarrow> ('i, 'n, 'k, 'r, unit) ps" where
  "ps_object_table_nvc_generate_auth_tag env nvc_1 =
     bind_p ps_crypto_get_iv (\<lambda>iv s.
       let t = obj_table s in
       case ps_crypto_generate_auth_tag env ((tb_crypto t)\<lparr>cr_iv := iv\<rparr>) (assoc_data t nvc_1) (ps_keys s) of
         ((r, c), k) \<Rightarrow> Some (r, s\<lparr>obj_table := t\<lparr>tb_crypto := c\<rparr>, ps_keys := k\<rparr>))"

definition ps_object_table_fs_write_table :: "('i, 'n, 'k, 'o, 'r) ps_env \<Rightarrow> ('i, 'n, 'k, 'r, unit) ps" where
  "ps_object_table_fs_write_table env =
     bind_p (gets_p (\<lambda>s. (PS_TABLE_FS_ID (scratch_table s), table_bytes (obj_table s)))) (\<lambda>(obj_table_id, bs).
     bind_p (its_p (psa_its_set env obj_table_id bs 0)) (\<lambda>_.
     modify_p (\<lambda>s. s\<lparr>scratch_table := active_table s, active_table := scratch_table s\<rparr>)))"

definition ps_object_table_save_table :: "('i, 'n, 'k, 'o, 'r) ps_env \<Rightarrow> ('i, 'n, 'k, 'r, unit) ps" where
  "ps_object_table_save_table env =
     bind_p (ps_increment_nv_counter env TFM_PS_NV_COUNTER_1) (\<lambda>_.
     bind_p (ps_read_nv_counter env TFM_PS_NV_COUNTER_1) (\<lambda>nvc_1.
     bind_p (ps_object_table_nvc_generate_auth_tag env nvc_1) (\<lambda>_.
     bind_p (ps_object_table_fs_write_table env) (\<lambda>_.
     ps_object_table_align_nv_counters env nvc_1))))"

section \<open>Loading\<close>

datatype ps_obj_table_state = PS_OBJ_TABLE_VALID | PS_OBJ_TABLE_INVALID | PS_OBJ_TABLE_NVC_1_VALID | PS_OBJ_TABLE_NVC_3_VALID

text \<open>\<open>p_table\<close> 0 is the table of the context, \<open>p_table\<close> 1 is in the data of \<open>g_ps_object\<close>.\<close>

record ps_obj_table_init_ctx_t =
  table_1 :: ps_obj_table_t
  table_state_0 :: ps_obj_table_state
  table_state_1 :: ps_obj_table_state
  init_nvc_1 :: nat
  init_nvc_3 :: nat

definition set_table_1 :: "ps_obj_table_t \<Rightarrow> ('i, 'n, 'k, 'r) ps_state \<Rightarrow> ('i, 'n, 'k, 'r) ps_state" where
  "set_table_1 t s = s\<lparr>g_ps_object := (g_ps_object s)\<lparr>ob_data := wr (ob_data (g_ps_object s)) 0 (table_bytes t)\<rparr>\<rparr>"

definition ps_object_table_fs_read_table :: "('i, 'n, 'k, 'o, 'r) ps_env \<Rightarrow> ('i, 'n, 'k, 'r, ps_obj_table_init_ctx_t) ps" where
  "ps_object_table_fs_read_table env = (\<lambda>s.
     let n = PS_OBJ_TABLE_SIZE env in
     case psa_its_get env (PS_TABLE_FS_ID PS_OBJ_TABLE_IDX_0) 0 n (ps_its s) of
       None \<Rightarrow> None
     | Some ((r0, b0), i) \<Rightarrow>
         case psa_its_get env (PS_TABLE_FS_ID PS_OBJ_TABLE_IDX_1) 0 n i of
           None \<Rightarrow> None
         | Some ((r1, b1), i) \<Rightarrow>
             let t0 = bytes_table env (wr (table_bytes (obj_table s)) 0 b0);
                 t1 = bytes_table env (wr (take n (ob_data (g_ps_object s))) 0 b1)
             in Some (Inr \<lparr>table_1 = t1, table_state_0 = (if r0 = Inr () then PS_OBJ_TABLE_VALID else PS_OBJ_TABLE_INVALID),
                           table_state_1 = (if r1 = Inr () then PS_OBJ_TABLE_VALID else PS_OBJ_TABLE_INVALID), init_nvc_1 = 0, init_nvc_3 = 0\<rparr>,
                      set_table_1 t1 (s\<lparr>ps_its := i, obj_table := t0\<rparr>)))"

definition ps_object_table_authenticate :: "('i, 'n, 'k, 'o, 'r) ps_env \<Rightarrow> ps_obj_table_t \<Rightarrow> ps_obj_table_init_ctx_t \<Rightarrow> 'k \<Rightarrow> ps_obj_table_state \<times> 'k" where
  "ps_object_table_authenticate env t ctx k =
     (case ps_crypto_authenticate env (tb_crypto t) (assoc_data t (init_nvc_1 ctx)) k of
        (Inr _, k) \<Rightarrow> (PS_OBJ_TABLE_NVC_1_VALID, k)
      | (Inl _, k) \<Rightarrow>
          if init_nvc_3 ctx = PS_INVALID_NVC_VALUE then (PS_OBJ_TABLE_INVALID, k)
          else case ps_crypto_authenticate env (tb_crypto t) (assoc_data t (init_nvc_3 ctx)) k of
            (Inr _, k) \<Rightarrow> (PS_OBJ_TABLE_NVC_3_VALID, k)
          | (Inl _, k) \<Rightarrow> (PS_OBJ_TABLE_INVALID, k))"

definition auth_table :: "('i, 'n, 'k, 'o, 'r) ps_env \<Rightarrow> ps_obj_table_t \<Rightarrow> ps_obj_table_state \<Rightarrow> ps_obj_table_init_ctx_t
    \<Rightarrow> ('i, 'n, 'k, 'r, ps_obj_table_state) ps" where
  "auth_table env t st ctx = (\<lambda>s.
     if st \<noteq> PS_OBJ_TABLE_INVALID then
       case ps_object_table_authenticate env t ctx (ps_keys s) of (st, k) \<Rightarrow> Some (Inr st, s\<lparr>ps_keys := k\<rparr>)
     else Some (Inr st, s))"

definition ps_object_table_nvc_authenticate :: "('i, 'n, 'k, 'o, 'r) ps_env \<Rightarrow> ps_obj_table_init_ctx_t \<Rightarrow> ('i, 'n, 'k, 'r, ps_obj_table_init_ctx_t) ps" where
  "ps_object_table_nvc_authenticate env ctx =
     bind_p (ps_read_nv_counter env TFM_PS_NV_COUNTER_1) (\<lambda>nvc_1.
     bind_p (ps_read_nv_counter env TFM_PS_NV_COUNTER_2) (\<lambda>nvc_2.
     bind_p (ps_read_nv_counter env TFM_PS_NV_COUNTER_3) (\<lambda>nvc_3.
     let ctx = ctx\<lparr>init_nvc_1 := nvc_1, init_nvc_3 := (if nvc_3 \<noteq> nvc_2 then PS_INVALID_NVC_VALUE else nvc_3)\<rparr> in
     bind_p (gets_p obj_table) (\<lambda>t0.
     bind_p (auth_table env t0 (table_state_0 ctx) ctx) (\<lambda>st0.
     bind_p (auth_table env (table_1 ctx) (table_state_1 ctx) ctx) (\<lambda>st1.
     ret_p (ctx\<lparr>table_state_0 := st0, table_state_1 := st1\<rparr>)))))))"

definition ps_object_table_validate_version :: "ps_obj_table_t \<Rightarrow> ps_obj_table_init_ctx_t \<Rightarrow> ps_obj_table_init_ctx_t" where
  "ps_object_table_validate_version t0 ctx =
     (let ctx = (if PS_OBJECT_SYSTEM_VERSION \<noteq> tb_version t0 then ctx\<lparr>table_state_0 := PS_OBJ_TABLE_INVALID\<rparr> else ctx)
      in if PS_OBJECT_SYSTEM_VERSION \<noteq> tb_version (table_1 ctx) then ctx\<lparr>table_state_1 := PS_OBJ_TABLE_INVALID\<rparr> else ctx)"

definition ps_set_active_object_table :: "ps_obj_table_init_ctx_t \<Rightarrow> ('i, 'n, 'k, 'r, unit) ps" where
  "ps_set_active_object_table ctx = (\<lambda>s.
     let use_0 = s\<lparr>active_table := PS_OBJ_TABLE_IDX_0, scratch_table := PS_OBJ_TABLE_IDX_1\<rparr>;
         use_1 = s\<lparr>active_table := PS_OBJ_TABLE_IDX_1, scratch_table := PS_OBJ_TABLE_IDX_0, obj_table := table_1 ctx\<rparr>
     in if table_state_0 ctx = PS_OBJ_TABLE_INVALID \<and> table_state_1 ctx = PS_OBJ_TABLE_INVALID then Some (Inl PSA_ERROR_GENERIC_ERROR, s)
        else if table_state_0 ctx = PS_OBJ_TABLE_INVALID then Some (Inr (), use_1)
        else if table_state_1 ctx = PS_OBJ_TABLE_INVALID then Some (Inr (), use_0)
        else if table_state_1 ctx = PS_OBJ_TABLE_NVC_1_VALID then Some (Inr (), use_1)
        else Some (Inr (), use_0))"

definition table_label :: "('i, 'n, 'k, 'o, 'r) ps_env \<Rightarrow> ps_obj_table_t \<Rightarrow> ps_obj_table_t" where
  "table_label env t = t\<lparr>tb_crypto := (tb_crypto t)\<lparr>cr_client_id := PS_PARTITION_ID env, cr_uid := PS_OBJ_TABLE_UID\<rparr>\<rparr>"

text \<open>Removing a file that need not be there.\<close>

definition remove_stale :: "('i, 'n, 'k, 'o, 'r) ps_env \<Rightarrow> nat \<Rightarrow> ('i, 'n, 'k, 'r, unit) ps" where
  "remove_stale env fd =
     bind_p (try_p (its_p (psa_its_remove env fd))) (\<lambda>r.
       case r of Inl e \<Rightarrow> if e \<noteq> PSA_ERROR_DOES_NOT_EXIST then raise_p e else ret_p () | Inr _ \<Rightarrow> ret_p ())"

definition ps_object_table_init :: "('i, 'n, 'k, 'o, 'r) ps_env \<Rightarrow> ('i, 'n, 'k, 'r, unit) ps" where
  "ps_object_table_init env =
     bind_p (ps_object_table_fs_read_table env) (\<lambda>ctx.
     let ctx = ctx\<lparr>table_1 := table_label env (table_1 ctx)\<rparr> in
     bind_p (modify_p (\<lambda>s. set_table_1 (table_1 ctx) (s\<lparr>obj_table := table_label env (obj_table s)\<rparr>))) (\<lambda>_.
     bind_p (ps_object_table_nvc_authenticate env ctx) (\<lambda>ctx.
     bind_p (gets_p obj_table) (\<lambda>t0.
     let ctx = ps_object_table_validate_version t0 ctx in
     bind_p (ps_set_active_object_table ctx) (\<lambda>_.
     bind_p (gets_p scratch_table) (\<lambda>scratch.
     bind_p (remove_stale env (PS_TABLE_FS_ID scratch)) (\<lambda>_.
     bind_p (ps_object_table_align_nv_counters env (init_nvc_1 ctx)) (\<lambda>_.
     modify_p (\<lambda>s. ps_crypto_set_iv (tb_crypto (obj_table s)) s)))))))))"

definition ps_object_table_create :: "('i, 'n, 'k, 'o, 'r) ps_env \<Rightarrow> ('i, 'n, 'k, 'r, unit) ps" where
  "ps_object_table_create env =
     bind_p (modify_p (\<lambda>s. s\<lparr>obj_table := (table_label env (zero_table env))\<lparr>tb_version := PS_OBJECT_SYSTEM_VERSION\<rparr>,
       active_table := PS_OBJ_TABLE_IDX_1, scratch_table := PS_OBJ_TABLE_IDX_0\<rparr>)) (\<lambda>_.
     ps_object_table_save_table env)"

section \<open>Entries\<close>

definition ps_get_object_entry_idx :: "ps_obj_table_t \<Rightarrow> nat \<Rightarrow> int \<Rightarrow> nat option" where
  "ps_get_object_entry_idx t uid client =
     find (\<lambda>i. te_uid (tb_obj_db t ! i) = uid \<and> te_client_id (tb_obj_db t ! i) = client) [0..<length (tb_obj_db t)]"

text \<open>The scan for \<open>idx_num\<close> free entries, of which the last one found is taken.\<close>

fun free_idx_scan :: "ps_obj_table_entry_t list \<Rightarrow> nat list \<Rightarrow> nat \<Rightarrow> nat \<Rightarrow> nat \<times> nat" where
  "free_idx_scan db [] idx_num last_free = (idx_num, last_free)"
| "free_idx_scan db (i # is) idx_num last_free =
     (if idx_num > 0 then
        if te_uid (db ! i) = TFM_PS_INVALID_UID then free_idx_scan db is (idx_num - 1) i else free_idx_scan db is idx_num last_free
      else (idx_num, last_free))"

definition ps_table_free_idx :: "ps_obj_table_t \<Rightarrow> nat \<Rightarrow> psa_error + nat" where
  "ps_table_free_idx t idx_num =
     (if idx_num = 0 then Inl PSA_ERROR_INVALID_ARGUMENT
      else case free_idx_scan (tb_obj_db t) [0..<length (tb_obj_db t)] idx_num 0 of
        (n, last_free) \<Rightarrow> if n \<noteq> 0 then Inl PSA_ERROR_INSUFFICIENT_STORAGE else Inr last_free)"

definition set_entry :: "nat \<Rightarrow> ps_obj_table_entry_t \<Rightarrow> ('i, 'n, 'k, 'r) ps_state \<Rightarrow> ('i, 'n, 'k, 'r) ps_state" where
  "set_entry idx e s = s\<lparr>obj_table := (obj_table s)\<lparr>tb_obj_db := (tb_obj_db (obj_table s))[idx := e]\<rparr>\<rparr>"

definition ps_table_delete_entry :: "nat \<Rightarrow> ('i, 'n, 'k, 'r) ps_state \<Rightarrow> ('i, 'n, 'k, 'r) ps_state" where
  "ps_table_delete_entry idx = set_entry idx zero_entry"

definition ps_object_table_obj_exist :: "nat \<Rightarrow> int \<Rightarrow> ('i, 'n, 'k, 'r, unit) ps" where
  "ps_object_table_obj_exist uid client = (\<lambda>s.
     case ps_get_object_entry_idx (obj_table s) uid client of None \<Rightarrow> Some (Inl PSA_ERROR_DOES_NOT_EXIST, s) | Some _ \<Rightarrow> Some (Inr (), s))"

definition ps_object_table_get_free_fid :: "('i, 'n, 'k, 'o, 'r) ps_env \<Rightarrow> nat \<Rightarrow> ('i, 'n, 'k, 'r, nat) ps" where
  "ps_object_table_get_free_fid env fid_num =
     bind_p (\<lambda>s. Some (ps_table_free_idx (obj_table s) fid_num, s)) (\<lambda>idx.
     bind_p (remove_stale env (PS_OBJECT_FS_ID idx)) (\<lambda>_.
     ret_p (PS_OBJECT_FS_ID idx)))"

text \<open>
  The new entry takes the file id of \<open>g_obj_tbl_info\<close> and the tag it points to. When the save fails the
  old entry is put back, and then the new one is deleted.
\<close>

definition ps_object_table_set_obj_tbl_info :: "('i, 'n, 'k, 'o, 'r) ps_env \<Rightarrow> nat \<Rightarrow> int \<Rightarrow> ('i, 'n, 'k, 'r, unit) ps" where
  "ps_object_table_set_obj_tbl_info env uid client = (\<lambda>s.
     let backup_idx = ps_get_object_entry_idx (obj_table s) uid client;
         backup_entry = (case backup_idx of None \<Rightarrow> zero_entry | Some b \<Rightarrow> tb_obj_db (obj_table s) ! b);
         s = (case backup_idx of None \<Rightarrow> s | Some b \<Rightarrow> ps_table_delete_entry b s);
         idx = PS_OBJECT_FS_ID_TO_IDX (g_obj_fid s);
         s = set_entry idx ((tb_obj_db (obj_table s) ! idx)\<lparr>te_uid := uid, te_client_id := client, te_tag := cr_tag (ob_crypto (g_ps_object s))\<rparr>) s
     in bind_p (try_p (ps_object_table_save_table env)) (\<lambda>err.
          case err of
            Inr _ \<Rightarrow> ret_p ()
          | Inl e \<Rightarrow>
              bind_p (modify_p (\<lambda>s. if te_uid backup_entry \<noteq> TFM_PS_INVALID_UID then set_entry (the backup_idx) backup_entry s else s)) (\<lambda>_.
              bind_p (modify_p (ps_table_delete_entry idx)) (\<lambda>_. raise_p e))) s)"

definition ps_object_table_get_obj_tbl_info :: "nat \<Rightarrow> int \<Rightarrow> ('i, 'n, 'k, 'r, unit) ps" where
  "ps_object_table_get_obj_tbl_info uid client = (\<lambda>s.
     case ps_get_object_entry_idx (obj_table s) uid client of
       None \<Rightarrow> Some (Inl PSA_ERROR_DOES_NOT_EXIST, s)
     | Some idx \<Rightarrow>
         let ob = g_ps_object s in
         Some (Inr (), s\<lparr>g_obj_fid := PS_OBJECT_FS_ID idx,
           g_ps_object := ob\<lparr>ob_crypto := (ob_crypto ob)\<lparr>cr_tag := te_tag (tb_obj_db (obj_table s) ! idx)\<rparr>\<rparr>\<rparr>))"

definition ps_object_table_delete_object :: "('i, 'n, 'k, 'o, 'r) ps_env \<Rightarrow> nat \<Rightarrow> int \<Rightarrow> ('i, 'n, 'k, 'r, unit) ps" where
  "ps_object_table_delete_object env uid client = (\<lambda>s.
     case ps_get_object_entry_idx (obj_table s) uid client of
       None \<Rightarrow> Some (Inl PSA_ERROR_DOES_NOT_EXIST, s)
     | Some b \<Rightarrow>
         let backup_entry = tb_obj_db (obj_table s) ! b
         in bind_p (try_p (ps_object_table_save_table env)) (\<lambda>err.
              case err of Inr _ \<Rightarrow> ret_p () | Inl e \<Rightarrow> bind_p (modify_p (set_entry b backup_entry)) (\<lambda>_. raise_p e)) (ps_table_delete_entry b s))"

definition ps_object_table_delete_old_table :: "('i, 'n, 'k, 'o, 'r) ps_env \<Rightarrow> ('i, 'n, 'k, 'r, unit) ps" where
  "ps_object_table_delete_old_table env =
     bind_p (gets_p (\<lambda>s. PS_TABLE_FS_ID (scratch_table s))) (\<lambda>table_id. its_p (psa_its_remove env table_id))"

end
