(* ===== verification/PS_Service.thy ===== *)
theory PS_Service
  imports PS_Object_Table
begin

text \<open>
  The object system of Protected Storage (ps_object_system.c), the service (tfm_protected_storage.c) and
  its request manager (tfm_ps_req_mngr.c), for the build of \<open>PS_Crypto\<close>. The service handles one message at
  a time, so the static pointer to it is the request in the state.
\<close>

definition PS_INVALID_FID :: nat where "PS_INVALID_FID = 0"

definition zero_object :: "('i, 'n, 'k, 'o, 'r) ps_env \<Rightarrow> ps_object_t" where
  "zero_object env = \<lparr>ob_crypto = zero_crypto, ob_info = \<lparr>oi_current_size = 0, oi_max_size = 0, oi_create_flags = 0\<rparr>,
     ob_data = replicate (PS_MAX_ASSET_SIZE env + PS_TAG_LEN_BYTES) 0\<rparr>"

definition clear_object :: "('i, 'n, 'k, 'o, 'r) ps_env \<Rightarrow> ('i, 'n, 'k, 'r) ps_state \<Rightarrow> ('i, 'n, 'k, 'r) ps_state" where
  "clear_object env s = s\<lparr>g_ps_object := zero_object env\<rparr>"

definition upd_info :: "(ps_object_info_t \<Rightarrow> ps_object_info_t) \<Rightarrow> ('i, 'n, 'k, 'r) ps_state \<Rightarrow> ('i, 'n, 'k, 'r) ps_state" where
  "upd_info f s = s\<lparr>g_ps_object := (g_ps_object s)\<lparr>ob_info := f (ob_info (g_ps_object s))\<rparr>\<rparr>"

definition ps_init_empty_object :: "('i, 'n, 'k, 'o, 'r) ps_env \<Rightarrow> nat \<Rightarrow> int \<Rightarrow> 32 word \<Rightarrow> nat \<Rightarrow> ps_object_t" where
  "ps_init_empty_object env uid client create_flags sz =
     (zero_object env)\<lparr>ob_crypto := zero_crypto\<lparr>cr_uid := uid, cr_client_id := client\<rparr>,
       ob_info := \<lparr>oi_current_size = 0, oi_max_size = sz, oi_create_flags = create_flags\<rparr>\<rparr>"

definition ps_req_mngr_read_asset_data :: "('i, 'n, 'k, 'o, 'r) ps_env \<Rightarrow> nat \<Rightarrow> nat \<Rightarrow> ('i, 'n, 'k, 'r, unit) ps" where
  "ps_req_mngr_read_asset_data env offset sz = (\<lambda>s.
     case ps_psa_read env 1 sz (ps_req s) of
       None \<Rightarrow> None
     | Some (bs, r) \<Rightarrow>
         Some (if length bs \<noteq> sz then Inl PSA_ERROR_PROGRAMMER_ERROR else Inr (),
               s\<lparr>ps_req := r, g_ps_object := (g_ps_object s)\<lparr>ob_data := wr (ob_data (g_ps_object s)) offset bs\<rparr>\<rparr>))"

definition ps_req_mngr_write_asset_data :: "('i, 'n, 'k, 'o, 'r) ps_env \<Rightarrow> byte list \<Rightarrow> ('i, 'n, 'k, 'r, unit) ps" where
  "ps_req_mngr_write_asset_data env bs = (\<lambda>s. case ps_psa_write env 0 bs (ps_req s) of None \<Rightarrow> None | Some r \<Rightarrow> Some (Inr (), s\<lparr>ps_req := r\<rparr>))"

definition ps_utils_check_contained_in :: "nat \<Rightarrow> nat \<Rightarrow> nat \<Rightarrow> bool" where
  "ps_utils_check_contained_in superset_size subset_offset subset_size =
     (if subset_offset > superset_size then False else if subset_size > superset_size - subset_offset then False else True)"

definition ps_update_table :: "('i, 'n, 'k, 'o, 'r) ps_env \<Rightarrow> nat \<Rightarrow> int \<Rightarrow> ('i, 'n, 'k, 'r, unit) ps" where
  "ps_update_table env uid client =
     bind_p (try_p (ps_object_table_set_obj_tbl_info env uid client)) (\<lambda>err.
       case err of
         Inr _ \<Rightarrow> ps_object_table_delete_old_table env
       | Inl e \<Rightarrow>
           bind_p (gets_p g_obj_fid) (\<lambda>fd.
           bind_p (try_p (its_p (psa_its_remove env fd))) (\<lambda>_. raise_p e)))"

definition ps_store_object :: "('i, 'n, 'k, 'o, 'r) ps_env \<Rightarrow> ('i, 'n, 'k, 'r, unit) ps" where
  "ps_store_object env = bind_p (gets_p g_obj_fid) (\<lambda>fd. ps_encrypted_object_write env fd)"

definition ps_system_prepare :: "('i, 'n, 'k, 'o, 'r) ps_env \<Rightarrow> ('i, 'n, 'k, 'r, unit) ps" where
  "ps_system_prepare env = ps_object_table_init env"

text \<open>The object of a client, read into \<open>g_ps_object\<close> by the key of that client.\<close>

definition read_object_of :: "('i, 'n, 'k, 'o, 'r) ps_env \<Rightarrow> nat \<Rightarrow> int \<Rightarrow> ('i, 'n, 'k, 'r, unit) ps" where
  "read_object_of env uid client =
     bind_p (modify_p (\<lambda>s. s\<lparr>g_ps_object := (g_ps_object s)\<lparr>ob_crypto := (ob_crypto (g_ps_object s))\<lparr>cr_uid := uid, cr_client_id := client\<rparr>\<rparr>\<rparr>)) (\<lambda>_.
     bind_p (gets_p g_obj_fid) (\<lambda>fd. ps_encrypted_object_read env fd))"

text \<open>The last step of every operation: the object is cleared, whatever the status.\<close>

definition finish_object :: "('i, 'n, 'k, 'o, 'r) ps_env \<Rightarrow> ('i, 'n, 'k, 'r, 'a) ps \<Rightarrow> ('i, 'n, 'k, 'r, 'a) ps" where
  "finish_object env m = (\<lambda>s. case m s of None \<Rightarrow> None | Some (r, t) \<Rightarrow> Some (r, clear_object env t))"

definition ps_object_read :: "('i, 'n, 'k, 'o, 'r) ps_env \<Rightarrow> nat \<Rightarrow> int \<Rightarrow> nat \<Rightarrow> nat \<Rightarrow> ('i, 'n, 'k, 'r, nat) ps" where
  "ps_object_read env uid client offset sz =
     bind_p (ps_object_table_get_obj_tbl_info uid client) (\<lambda>_.
     finish_object env (
       bind_p (read_object_of env uid client) (\<lambda>_.
       bind_p (gets_p g_ps_object) (\<lambda>ob.
       if offset > oi_current_size (ob_info ob) then raise_p PSA_ERROR_INVALID_ARGUMENT
       else
         let sz = min sz (oi_current_size (ob_info ob) - offset) in
         bind_p (ps_req_mngr_write_asset_data env (rd (ob_data ob) offset sz)) (\<lambda>_. ret_p sz)))))"

text \<open>
  The last part of a change: the table takes the new object, or, after an error, the entry of the object
  that was there is written again (its result is ignored); then the file of the old object is removed.
\<close>

definition conclude_change :: "('i, 'n, 'k, 'o, 'r) ps_env \<Rightarrow> nat \<Rightarrow> int \<Rightarrow> bool \<Rightarrow> psa_error + nat \<Rightarrow> ('i, 'n, 'k, 'r, unit) ps" where
  "conclude_change env uid client object_exists r =
     (case r of
        Inr old_fid \<Rightarrow>
          bind_p (ps_update_table env uid client) (\<lambda>_.
          if old_fid \<noteq> PS_INVALID_FID then its_p (psa_its_remove env old_fid) else ret_p ())
      | Inl e \<Rightarrow>
          if object_exists then bind_p (try_p (ps_update_table env uid client)) (\<lambda>_. raise_p e) else raise_p e)"

text \<open>The object is stored under a new file id; when that fails and there is an old one, it comes back.\<close>

definition store_changed :: "('i, 'n, 'k, 'o, 'r) ps_env \<Rightarrow> nat \<Rightarrow> ('i, 'n, 'k, 'r, unit) ps" where
  "store_changed env old_fid =
     bind_p (try_p (ps_store_object env)) (\<lambda>err.
       case err of
         Inr _ \<Rightarrow> ret_p ()
       | Inl e \<Rightarrow> bind_p (modify_p (\<lambda>s. if old_fid \<noteq> PS_INVALID_FID then s\<lparr>g_obj_fid := old_fid\<rparr> else s)) (\<lambda>_. raise_p e))"

text \<open>The change of \<open>ps_object_create\<close> up to the table; the result is the old file id.\<close>

definition create_change :: "('i, 'n, 'k, 'o, 'r) ps_env \<Rightarrow> nat \<Rightarrow> int \<Rightarrow> 32 word \<Rightarrow> nat \<Rightarrow> bool \<Rightarrow> ('i, 'n, 'k, 'r, nat) ps" where
  "create_change env uid client create_flags sz object_exists =
     bind_p (if object_exists then
               bind_p (read_object_of env uid client) (\<lambda>_.
               bind_p (gets_p g_ps_object) (\<lambda>ob.
               if oi_create_flags (ob_info ob) AND PSA_STORAGE_FLAG_WRITE_ONCE \<noteq> 0 then raise_p PSA_ERROR_NOT_PERMITTED
               else bind_p (modify_p (upd_info (\<lambda>i. i\<lparr>oi_create_flags := create_flags, oi_max_size := sz\<rparr>))) (\<lambda>_. gets_p g_obj_fid)))
             else bind_p (modify_p (\<lambda>s. s\<lparr>g_ps_object := ps_init_empty_object env uid client create_flags sz\<rparr>)) (\<lambda>_. ret_p PS_INVALID_FID)) (\<lambda>old_fid.
     bind_p (ps_req_mngr_read_asset_data env 0 sz) (\<lambda>_.
     bind_p (ps_object_table_get_free_fid env (if object_exists then 1 else 2)) (\<lambda>fd.
     bind_p (modify_p (\<lambda>s. upd_info (\<lambda>i. i\<lparr>oi_current_size := sz\<rparr>) (s\<lparr>g_obj_fid := fd\<rparr>))) (\<lambda>_.
     bind_p (store_changed env old_fid) (\<lambda>_. ret_p old_fid)))))"

definition ps_object_create :: "('i, 'n, 'k, 'o, 'r) ps_env \<Rightarrow> nat \<Rightarrow> int \<Rightarrow> 32 word \<Rightarrow> nat \<Rightarrow> ('i, 'n, 'k, 'r, unit) ps" where
  "ps_object_create env uid client create_flags sz =
     (if sz > PS_MAX_ASSET_SIZE env then raise_p PSA_ERROR_INVALID_ARGUMENT
      else bind_p (try_p (ps_object_table_get_obj_tbl_info uid client)) (\<lambda>err.
        if err \<noteq> Inr () \<and> err \<noteq> Inl PSA_ERROR_DOES_NOT_EXIST then (\<lambda>s. Some (err, s))
        else finish_object env (
          bind_p (try_p (create_change env uid client create_flags sz (err = Inr ()))) (\<lambda>r.
          conclude_change env uid client (err = Inr ()) r))))"

text \<open>The change of \<open>ps_object_write\<close>.\<close>

definition write_change :: "('i, 'n, 'k, 'o, 'r) ps_env \<Rightarrow> nat \<Rightarrow> int \<Rightarrow> nat \<Rightarrow> nat \<Rightarrow> ('i, 'n, 'k, 'r, nat) ps" where
  "write_change env uid client offset sz =
     bind_p (read_object_of env uid client) (\<lambda>_.
     bind_p (gets_p g_ps_object) (\<lambda>ob.
     if oi_create_flags (ob_info ob) AND PSA_STORAGE_FLAG_WRITE_ONCE \<noteq> 0 then raise_p PSA_ERROR_NOT_PERMITTED
     else if offset > oi_current_size (ob_info ob) then raise_p PSA_ERROR_INVALID_ARGUMENT
     else if \<not> ps_utils_check_contained_in (oi_max_size (ob_info ob)) offset sz then raise_p PSA_ERROR_INVALID_ARGUMENT
     else
       bind_p (ps_req_mngr_read_asset_data env offset sz) (\<lambda>_.
       bind_p (gets_p g_obj_fid) (\<lambda>old_fid.
       bind_p (ps_object_table_get_free_fid env 1) (\<lambda>fd.
       bind_p (modify_p (\<lambda>s. upd_info (\<lambda>i. if add32 offset sz > oi_current_size i then i\<lparr>oi_current_size := add32 offset sz\<rparr> else i) (s\<lparr>g_obj_fid := fd\<rparr>))) (\<lambda>_.
       bind_p (store_changed env old_fid) (\<lambda>_. ret_p old_fid)))))))"

definition ps_object_write :: "('i, 'n, 'k, 'o, 'r) ps_env \<Rightarrow> nat \<Rightarrow> int \<Rightarrow> nat \<Rightarrow> nat \<Rightarrow> ('i, 'n, 'k, 'r, unit) ps" where
  "ps_object_write env uid client offset sz =
     bind_p (ps_object_table_get_obj_tbl_info uid client) (\<lambda>_.
     finish_object env (
       bind_p (try_p (write_change env uid client offset sz)) (\<lambda>r. conclude_change env uid client True r)))"

definition ps_object_get_info :: "('i, 'n, 'k, 'o, 'r) ps_env \<Rightarrow> nat \<Rightarrow> int \<Rightarrow> ('i, 'n, 'k, 'r, nat \<times> 32 word) ps" where
  "ps_object_get_info env uid client =
     bind_p (ps_object_table_get_obj_tbl_info uid client) (\<lambda>_.
     finish_object env (
       bind_p (read_object_of env uid client) (\<lambda>_.
       gets_p (\<lambda>s. (oi_current_size (ob_info (g_ps_object s)), oi_create_flags (ob_info (g_ps_object s)))))))"

definition ps_object_delete :: "('i, 'n, 'k, 'o, 'r) ps_env \<Rightarrow> nat \<Rightarrow> int \<Rightarrow> ('i, 'n, 'k, 'r, unit) ps" where
  "ps_object_delete env uid client =
     bind_p (ps_object_table_get_obj_tbl_info uid client) (\<lambda>_.
     finish_object env (
       bind_p (read_object_of env uid client) (\<lambda>_.
       bind_p (gets_p g_ps_object) (\<lambda>ob.
       if oi_create_flags (ob_info ob) AND PSA_STORAGE_FLAG_WRITE_ONCE \<noteq> 0 then raise_p PSA_ERROR_NOT_PERMITTED
       else
         bind_p (ps_object_table_delete_object env uid client) (\<lambda>_.
         bind_p (ps_object_table_delete_old_table env) (\<lambda>_.
         bind_p (gets_p g_obj_fid) (\<lambda>fd. its_p (psa_its_remove env fd))))))))"

definition ps_system_wipe_all :: "('i, 'n, 'k, 'o, 'r) ps_env \<Rightarrow> ('i, 'n, 'k, 'r, unit) ps" where
  "ps_system_wipe_all env = ps_object_table_create env"

section \<open>The service\<close>

definition tfm_ps_init :: "('i, 'n, 'k, 'o, 'r) ps_env \<Rightarrow> ('i, 'n, 'k, 'r, unit) ps" where
  "tfm_ps_init env =
     bind_p (try_p (ps_system_prepare env)) (\<lambda>err.
       case err of
         Inr _ \<Rightarrow> ret_p ()
       | Inl e \<Rightarrow>
           if PS_CREATE_LAYOUT env then bind_p (ps_system_wipe_all env) (\<lambda>_. ps_system_prepare env) else raise_p e)"

definition tfm_ps_set :: "('i, 'n, 'k, 'o, 'r) ps_env \<Rightarrow> int \<Rightarrow> nat \<Rightarrow> nat \<Rightarrow> 32 word \<Rightarrow> ('i, 'n, 'k, 'r, unit) ps" where
  "tfm_ps_set env client uid data_length create_flags =
     (if uid = TFM_PS_INVALID_UID then raise_p PSA_ERROR_INVALID_ARGUMENT
      else if create_flags AND NOT (PSA_STORAGE_FLAG_WRITE_ONCE OR PSA_STORAGE_FLAG_NO_CONFIDENTIALITY
                OR PSA_STORAGE_FLAG_NO_REPLAY_PROTECTION) \<noteq> 0
      then raise_p PSA_ERROR_NOT_SUPPORTED
      else ps_object_create env uid client create_flags data_length)"

definition tfm_ps_get :: "('i, 'n, 'k, 'o, 'r) ps_env \<Rightarrow> int \<Rightarrow> nat \<Rightarrow> nat \<Rightarrow> nat \<Rightarrow> ('i, 'n, 'k, 'r, nat) ps" where
  "tfm_ps_get env client uid data_offset data_size =
     (if uid = TFM_PS_INVALID_UID then raise_p PSA_ERROR_INVALID_ARGUMENT
      else ps_object_read env uid client data_offset data_size)"

definition tfm_ps_get_info :: "('i, 'n, 'k, 'o, 'r) ps_env \<Rightarrow> int \<Rightarrow> nat \<Rightarrow> ('i, 'n, 'k, 'r, nat \<times> 32 word) ps" where
  "tfm_ps_get_info env client uid =
     (if uid = TFM_PS_INVALID_UID then raise_p PSA_ERROR_INVALID_ARGUMENT else ps_object_get_info env uid client)"

definition tfm_ps_remove :: "('i, 'n, 'k, 'o, 'r) ps_env \<Rightarrow> int \<Rightarrow> nat \<Rightarrow> ('i, 'n, 'k, 'r, unit) ps" where
  "tfm_ps_remove env client uid =
     (if uid = TFM_PS_INVALID_UID then raise_p PSA_ERROR_INVALID_ARGUMENT
      else bind_p (try_p (ps_object_delete env uid client)) (\<lambda>err.
        case err of
          Inl e \<Rightarrow> raise_p (if e = PSA_ERROR_INVALID_SIGNATURE then PSA_ERROR_GENERIC_ERROR else e)
        | Inr _ \<Rightarrow> ret_p ()))"

definition tfm_ps_get_support :: "32 word" where "tfm_ps_get_support = 0"

section \<open>Requests\<close>

definition TFM_PS_SET :: int where "TFM_PS_SET = 1001"
definition TFM_PS_GET :: int where "TFM_PS_GET = 1002"
definition TFM_PS_GET_INFO :: int where "TFM_PS_GET_INFO = 1003"
definition TFM_PS_REMOVE :: int where "TFM_PS_REMOVE = 1004"
definition TFM_PS_GET_SUPPORT :: int where "TFM_PS_GET_SUPPORT = 1005"

lemmas ps_msg_consts = TFM_PS_SET_def TFM_PS_GET_def TFM_PS_GET_INFO_def TFM_PS_REMOVE_def TFM_PS_GET_SUPPORT_def

text \<open>\<open>psa_read\<close> of an argument; a short read is a programmer error.\<close>

definition ps_read_arg :: "('i, 'n, 'k, 'o, 'r) ps_env \<Rightarrow> nat \<Rightarrow> nat \<Rightarrow> ('i, 'n, 'k, 'r, byte list) ps" where
  "ps_read_arg env i n = (\<lambda>s.
     case ps_psa_read env i n (ps_req s) of
       None \<Rightarrow> None
     | Some (bs, r) \<Rightarrow> Some (if length bs \<noteq> n then Inl PSA_ERROR_PROGRAMMER_ERROR else Inr bs, s\<lparr>ps_req := r\<rparr>))"

definition ps_write_result :: "('i, 'n, 'k, 'o, 'r) ps_env \<Rightarrow> byte list \<Rightarrow> ('i, 'n, 'k, 'r, unit) ps" where
  "ps_write_result env bs = (\<lambda>s. case ps_psa_write env 0 bs (ps_req s) of None \<Rightarrow> None | Some r \<Rightarrow> Some (Inr (), s\<lparr>ps_req := r\<rparr>))"

definition tfm_ps_set_req :: "('i, 'n, 'k, 'o, 'r) ps_env \<Rightarrow> psa_msg_t \<Rightarrow> ('i, 'n, 'k, 'r, unit) ps" where
  "tfm_ps_set_req env m =
     (if in_size m ! 0 \<noteq> 8 \<or> in_size m ! 2 \<noteq> 4 then raise_p PSA_ERROR_PROGRAMMER_ERROR
      else bind_p (ps_read_arg env 0 8) (\<lambda>uid.
           bind_p (ps_read_arg env 2 4) (\<lambda>create_flags.
           tfm_ps_set env (client_id m) (de64 uid) (unat (in_size m ! 1)) (word_of_nat (de32 create_flags)))))"

definition tfm_ps_get_req :: "('i, 'n, 'k, 'o, 'r) ps_env \<Rightarrow> psa_msg_t \<Rightarrow> ('i, 'n, 'k, 'r, unit) ps" where
  "tfm_ps_get_req env m =
     (if in_size m ! 0 \<noteq> 8 \<or> in_size m ! 1 \<noteq> 4 then raise_p PSA_ERROR_PROGRAMMER_ERROR
      else bind_p (ps_read_arg env 0 8) (\<lambda>uid.
           bind_p (ps_read_arg env 1 4) (\<lambda>data_offset.
           bind_p (tfm_ps_get env (client_id m) (de64 uid) (de32 data_offset) (unat (out_size m ! 0))) (\<lambda>_. ret_p ()))))"

text \<open>The information structure: capacity is not set by the service, size and flags are.\<close>

definition tfm_ps_get_info_req :: "('i, 'n, 'k, 'o, 'r) ps_env \<Rightarrow> byte list \<Rightarrow> psa_msg_t \<Rightarrow> ('i, 'n, 'k, 'r, unit) ps" where
  "tfm_ps_get_info_req env stack m =
     (if in_size m ! 0 \<noteq> 8 \<or> out_size m ! 0 \<noteq> 12 then raise_p PSA_ERROR_PROGRAMMER_ERROR
      else bind_p (ps_read_arg env 0 8) (\<lambda>uid.
           bind_p (tfm_ps_get_info env (client_id m) (de64 uid)) (\<lambda>(sz, fl).
           ps_write_result env (take 4 stack @ le32 sz @ le32 (unat fl)))))"

definition tfm_ps_remove_req :: "('i, 'n, 'k, 'o, 'r) ps_env \<Rightarrow> psa_msg_t \<Rightarrow> ('i, 'n, 'k, 'r, unit) ps" where
  "tfm_ps_remove_req env m =
     (if in_size m ! 0 \<noteq> 8 then raise_p PSA_ERROR_PROGRAMMER_ERROR
      else bind_p (ps_read_arg env 0 8) (\<lambda>uid. tfm_ps_remove env (client_id m) (de64 uid)))"

definition tfm_ps_get_support_req :: "('i, 'n, 'k, 'o, 'r) ps_env \<Rightarrow> psa_msg_t \<Rightarrow> ('i, 'n, 'k, 'r, unit) ps" where
  "tfm_ps_get_support_req env m =
     (if out_size m ! 0 \<noteq> 4 then raise_p PSA_ERROR_PROGRAMMER_ERROR else ps_write_result env (le32 (unat tfm_ps_get_support)))"

definition tfm_protected_storage_service_sfn :: "('i, 'n, 'k, 'o, 'r) ps_env \<Rightarrow> byte list \<Rightarrow> psa_msg_t \<Rightarrow> ('i, 'n, 'k, 'r, unit) ps" where
  "tfm_protected_storage_service_sfn env stack m =
     (if msg_type m = TFM_PS_SET then tfm_ps_set_req env m
      else if msg_type m = TFM_PS_GET then tfm_ps_get_req env m
      else if msg_type m = TFM_PS_GET_INFO then tfm_ps_get_info_req env stack m
      else if msg_type m = TFM_PS_REMOVE then tfm_ps_remove_req env m
      else if msg_type m = TFM_PS_GET_SUPPORT then tfm_ps_get_support_req env m
      else raise_p PSA_ERROR_PROGRAMMER_ERROR)"

definition tfm_ps_entry :: "('i, 'n, 'k, 'o, 'r) ps_env \<Rightarrow> ('i, 'n, 'k, 'r, unit) ps" where
  "tfm_ps_entry env = tfm_ps_init env"

end
