(* ===== verification/PS_Contracts.thy ===== *)
theory PS_Contracts
  imports PS_Service SPM_Request
begin

text \<open>
  What Protected Storage relies on, as locales: the client calls of Internal Trusted Storage, the
  counters of the platform, the vectors of the request, and the PSA Crypto calls (key derivation and
  authenticated encryption). The last ones are documented behaviour of code outside the repository.
\<close>

section \<open>Interfaces\<close>

definition file_uid :: "nat \<Rightarrow> bool" where "file_uid uid \<longleftrightarrow> 0 < uid \<and> uid < SIZE_MAX_P1"

locale its_client =
  fixes set_op :: "nat \<Rightarrow> byte list \<Rightarrow> 32 word \<Rightarrow> 'i \<Rightarrow> ((psa_error + unit) \<times> 'i) option"
    and get_op :: "nat \<Rightarrow> nat \<Rightarrow> nat \<Rightarrow> 'i \<Rightarrow> (((psa_error + unit) \<times> byte list) \<times> 'i) option"
    and remove_op :: "nat \<Rightarrow> 'i \<Rightarrow> ((psa_error + unit) \<times> 'i) option"
    and its_ok :: "'i \<Rightarrow> bool"
    and files :: "'i \<Rightarrow> nat \<Rightarrow> byte list option"
  assumes set_file: "its_ok i \<Longrightarrow> file_uid uid \<Longrightarrow> length bs < SIZE_MAX_P1 \<Longrightarrow>
      \<exists>r i'. set_op uid bs 0 i = Some (r, i') \<and> its_ok i' \<and> files i' = (case r of Inr _ \<Rightarrow> (files i)(uid \<mapsto> bs) | Inl _ \<Rightarrow> files i)"
    and get_file: "its_ok i \<Longrightarrow> file_uid uid \<Longrightarrow> 0 < n \<Longrightarrow> n < SIZE_MAX_P1 \<Longrightarrow>
      \<exists>r i'. get_op uid 0 n i = Some ((r, case files i uid of None \<Rightarrow> [] | Some bs \<Rightarrow> take n bs), i') \<and> its_ok i' \<and> files i' = files i
         \<and> (files i uid = None \<longrightarrow> r = Inl PSA_ERROR_DOES_NOT_EXIST) \<and> (\<forall>bs. files i uid = Some bs \<and> bs \<noteq> [] \<longrightarrow> r = Inr ())"
    and remove_file: "its_ok i \<Longrightarrow> file_uid uid \<Longrightarrow>
      \<exists>i'. remove_op uid i = Some (if files i uid = None then Inl PSA_ERROR_DOES_NOT_EXIST else Inr (), i')
         \<and> its_ok i' \<and> files i' = (files i)(uid := None)"

locale nv_counters =
  fixes read_op :: "nat \<Rightarrow> 'n \<Rightarrow> nat option \<times> 'n"
    and inc_op :: "nat \<Rightarrow> 'n \<Rightarrow> bool \<times> 'n"
    and nv_ok :: "'n \<Rightarrow> bool"
    and counter :: "'n \<Rightarrow> nat \<Rightarrow> nat"
  assumes read_nv: "nv_ok n \<Longrightarrow> c < 3 \<Longrightarrow> \<exists>n'. read_op c n = (Some (counter n c), n') \<and> nv_ok n' \<and> counter n' = counter n"
    and inc_nv: "nv_ok n \<Longrightarrow> c < 3 \<Longrightarrow> \<exists>n'. inc_op c n = (counter n c < SIZE_MAX_P1 - 1, n') \<and> nv_ok n'
         \<and> counter n' = (if counter n c < SIZE_MAX_P1 - 1 then (counter n)(c := counter n c + 1) else counter n)"
    and nv_bound: "nv_ok n \<Longrightarrow> c < 3 \<Longrightarrow> counter n c < SIZE_MAX_P1"

text \<open>
  \<open>enc\<close> and \<open>dec\<close> are the cipher for the key that is derived from a label; its output is as long as the
  input and the tag. \<open>derived\<close> is the label an operation has been given, \<open>key_label\<close> that of a key.
\<close>

locale aead_keys =
  fixes env :: "('i, 'n, 'k, 'o, 'r) ps_env"
    and keys_ok :: "'k \<Rightarrow> bool"
    and derived :: "'o \<Rightarrow> byte list"
    and key_label :: "'k \<Rightarrow> nat \<Rightarrow> byte list option"
    and enc :: "byte list \<Rightarrow> byte list \<Rightarrow> byte list \<Rightarrow> byte list \<Rightarrow> byte list"
    and dec :: "byte list \<Rightarrow> byte list \<Rightarrow> byte list \<Rightarrow> byte list \<Rightarrow> byte list option"
  assumes kd_setup: "keys_ok k \<Longrightarrow> \<exists>op k'. psa_key_derivation_setup env k = (Inr (), op, k') \<and> keys_ok k' \<and> derived op = []"
    and kd_key: "keys_ok k \<Longrightarrow> \<exists>op' k'. psa_key_derivation_input_key env op k = (Inr (), op', k') \<and> keys_ok k' \<and> derived op' = derived op"
    and kd_bytes: "keys_ok k \<Longrightarrow> \<exists>op' k'. psa_key_derivation_input_bytes env bs op k = (Inr (), op', k') \<and> keys_ok k' \<and> derived op' = derived op @ bs"
    and kd_output: "keys_ok k \<Longrightarrow> \<exists>key op' k'. psa_key_derivation_output_key env op k = (Inr key, op', k') \<and> keys_ok k' \<and> key_label k' key = Some (derived op)"
    and kd_abort: "keys_ok k \<Longrightarrow> \<exists>op' k'. psa_key_derivation_abort env op k = (Inr (), op', k') \<and> keys_ok k' \<and> key_label k' = key_label k"
    and destroy: "keys_ok k \<Longrightarrow> key_label k key \<noteq> None \<Longrightarrow> \<exists>k'. psa_destroy_key env key k = (Inr (), k') \<and> keys_ok k'"
    and encrypt: "keys_ok k \<Longrightarrow> key_label k key = Some l \<Longrightarrow> length pt + PS_TAG_LEN_BYTES \<le> n \<Longrightarrow>
      \<exists>k'. psa_aead_encrypt env key iv add pt n k = ((Inr (), enc l iv add pt), k') \<and> keys_ok k' \<and> key_label k' = key_label k"
    and decrypt: "keys_ok k \<Longrightarrow> key_label k key = Some l \<Longrightarrow> length ct \<le> n + PS_TAG_LEN_BYTES \<Longrightarrow>
      \<exists>k'. psa_aead_decrypt env key iv add ct n k = ((case dec l iv add ct of None \<Rightarrow> (Inl PSA_ERROR_INVALID_SIGNATURE, []) | Some pt \<Rightarrow> (Inr (), pt)), k')
         \<and> keys_ok k' \<and> key_label k' = key_label k"
    and dec_enc: "dec l iv add (enc l iv add pt) = Some pt"
    and enc_len: "length (enc l iv add pt) = length pt + PS_TAG_LEN_BYTES"
    and dec_len: "dec l iv add ct = Some pt \<Longrightarrow> length ct = length pt + PS_TAG_LEN_BYTES"

section \<open>The crypto interface\<close>

context aead_keys
begin

lemma setkey_ok:
  assumes "keys_ok k" "l \<noteq> []"
  shows "\<exists>key k'. ps_crypto_setkey env l k = (Inr key, k') \<and> keys_ok k' \<and> key_label k' key = Some l"
proof -
  obtain op1 k1 where 1: "psa_key_derivation_setup env k = (Inr (), op1, k1)" "keys_ok k1" "derived op1 = []" using kd_setup[OF assms(1)] by blast
  obtain op2 k2 where 2: "psa_key_derivation_input_key env op1 k1 = (Inr (), op2, k2)" "keys_ok k2" "derived op2 = []" using kd_key[OF 1(2), of op1] 1(3) by auto
  obtain op3 k3 where 3: "psa_key_derivation_input_bytes env l op2 k2 = (Inr (), op3, k3)" "keys_ok k3" "derived op3 = l" using kd_bytes[OF 2(2), of l op2] 2(3) by auto
  obtain key op4 k4 where 4: "psa_key_derivation_output_key env op3 k3 = (Inr key, op4, k4)" "keys_ok k4" "key_label k4 key = Some l" using kd_output[OF 3(2), of op3] 3(3) by auto
  obtain op5 k5 where 5: "psa_key_derivation_abort env op4 k4 = (Inr (), op5, k5)" "keys_ok k5" "key_label k5 = key_label k4" using kd_abort[OF 4(2), of op4] by blast
  show ?thesis using 1 2 3 4 5 assms(2) by (simp add: ps_crypto_setkey_def)
qed

lemma label_nonempty [simp]: "fill_key_label c \<noteq> []"
  by (simp add: fill_key_label_def lei32_def le32_def)

lemma generate_tag_ok:
  assumes "keys_ok k" "length (cr_tag c) = PS_TAG_LEN_BYTES"
  shows "\<exists>k'. ps_crypto_generate_auth_tag env c add k = ((Inr (), c\<lparr>cr_tag := enc (fill_key_label c) (cr_iv c) add []\<rparr>), k') \<and> keys_ok k'"
proof -
  obtain key k1 where 1: "ps_crypto_setkey env (fill_key_label c) k = (Inr key, k1)" "keys_ok k1" "key_label k1 key = Some (fill_key_label c)"
    using setkey_ok[OF assms(1) label_nonempty] by blast
  obtain k2 where 2: "psa_aead_encrypt env key (cr_iv c) add [] PS_TAG_LEN_BYTES k1 = ((Inr (), enc (fill_key_label c) (cr_iv c) add []), k2)"
    "keys_ok k2" "key_label k2 = key_label k1" using encrypt[OF 1(2,3), of "[]" PS_TAG_LEN_BYTES "cr_iv c" add] by auto
  obtain k3 where 3: "psa_destroy_key env key k2 = (Inr (), k3)" "keys_ok k3" using destroy[OF 2(2), of key] 2(3) 1(3) by auto
  show ?thesis using 1 2 3 assms(2) enc_len[of _ _ _ "[]"] by (simp add: ps_crypto_generate_auth_tag_def wr_def)
qed

lemma authenticate_ok:
  assumes "keys_ok k" "length (cr_tag c) = PS_TAG_LEN_BYTES"
  shows "\<exists>k'. ps_crypto_authenticate env c add k
      = (if dec (fill_key_label c) (cr_iv c) add (cr_tag c) = Some [] then Inr () else Inl PSA_ERROR_INVALID_SIGNATURE, k') \<and> keys_ok k'"
proof -
  obtain key k1 where 1: "ps_crypto_setkey env (fill_key_label c) k = (Inr key, k1)" "keys_ok k1" "key_label k1 key = Some (fill_key_label c)"
    using setkey_ok[OF assms(1) label_nonempty] by blast
  obtain k2 where 2: "psa_aead_decrypt env key (cr_iv c) add (cr_tag c) 0 k1 = ((case dec (fill_key_label c) (cr_iv c) add (cr_tag c) of
       None \<Rightarrow> (Inl PSA_ERROR_INVALID_SIGNATURE, []) | Some pt \<Rightarrow> (Inr (), pt)), k2)"
    "keys_ok k2" "key_label k2 = key_label k1" using decrypt[OF 1(2,3), of "cr_tag c" 0 "cr_iv c" add] assms(2) by auto
  obtain k3 where 3: "psa_destroy_key env key k2 = (Inr (), k3)" "keys_ok k3" using destroy[OF 2(2), of key] 2(3) 1(3) by auto
  show ?thesis using 1 2 3 by (auto simp: ps_crypto_authenticate_def split: option.splits)
qed

lemma encrypt_and_tag_ok:
  assumes "keys_ok k" "n + PS_TAG_LEN_BYTES \<le> out_max" "n + PS_TAG_LEN_BYTES \<le> length buf"
    and e_def: "e = enc (fill_key_label c) (cr_iv c) add (take n buf)"
  shows "\<exists>k'. ps_crypto_encrypt_and_tag env c add buf n out_max k = ((Inr n, c\<lparr>cr_tag := drop n e\<rparr>, wr buf 0 e), k') \<and> keys_ok k'"
proof -
  have n: "length (take n buf) = n" using assms(3) by simp
  have l: "length e = n + PS_TAG_LEN_BYTES" using enc_len n by (simp add: e_def)
  obtain key k1 where 1: "ps_crypto_setkey env (fill_key_label c) k = (Inr key, k1)" "keys_ok k1" "key_label k1 key = Some (fill_key_label c)"
    using setkey_ok[OF assms(1) label_nonempty] by blast
  obtain k2 where 2: "psa_aead_encrypt env key (cr_iv c) add (take n buf) out_max k1 = ((Inr (), e), k2)"
    "keys_ok k2" "key_label k2 = key_label k1" using encrypt[OF 1(2,3), of "take n buf" out_max "cr_iv c" add] assms(2) n by (auto simp: e_def)
  obtain k3 where 3: "psa_destroy_key env key k2 = (Inr (), k3)" "keys_ok k3" using destroy[OF 2(2), of key] 2(3) 1(3) by auto
  have t: "rd (wr buf 0 e) n PS_TAG_LEN_BYTES = drop n e" using l by (simp add: rd_def wr_def)
  show ?thesis using 1 2 3 l t by (simp add: ps_crypto_encrypt_and_tag_def Let_def)
qed

lemma auth_and_decrypt_ok:
  assumes "keys_ok k" "n \<le> out_max" "n + PS_TAG_LEN_BYTES \<le> length buf" "length (cr_tag c) = PS_TAG_LEN_BYTES"
    and buf'_def: "buf' = wr buf n (cr_tag c)"
  shows "\<exists>k'. ps_crypto_auth_and_decrypt env c add buf n out_max k =
      ((case dec (fill_key_label c) (cr_iv c) add (take n buf @ cr_tag c) of
          None \<Rightarrow> (Inl PSA_ERROR_INVALID_SIGNATURE, buf') | Some pt \<Rightarrow> (Inr n, wr buf' 0 pt)), k') \<and> keys_ok k'"
proof -
  have b: "take (n + PS_TAG_LEN_BYTES) buf' = take n buf @ cr_tag c" using assms by (simp add: buf'_def wr_def)
  obtain key k1 where 1: "ps_crypto_setkey env (fill_key_label c) k = (Inr key, k1)" "keys_ok k1" "key_label k1 key = Some (fill_key_label c)"
    using setkey_ok[OF assms(1) label_nonempty] by blast
  obtain k2 where 2: "psa_aead_decrypt env key (cr_iv c) add (take n buf @ cr_tag c) out_max k1 = ((case dec (fill_key_label c) (cr_iv c) add (take n buf @ cr_tag c) of
       None \<Rightarrow> (Inl PSA_ERROR_INVALID_SIGNATURE, []) | Some pt \<Rightarrow> (Inr (), pt)), k2)"
    "keys_ok k2" "key_label k2 = key_label k1" using decrypt[OF 1(2,3), of "take n buf @ cr_tag c" out_max "cr_iv c" add] assms by auto
  obtain k3 where 3: "psa_destroy_key env key k2 = (Inr (), k3)" "keys_ok k3" using destroy[OF 2(2), of key] 2(3) 1(3) by auto
  have l: "length pt = n" if "dec (fill_key_label c) (cr_iv c) add (take n buf @ cr_tag c) = Some pt" for pt
    using dec_len[OF that] assms by simp
  have w: "wr buf' 0 [] = buf'" by (simp add: wr_def)
  show ?thesis using 1 2 3 b l w
    by (auto simp: ps_crypto_auth_and_decrypt_def Let_def buf'_def[symmetric] split: option.splits)
qed

end

end
