(* ===== verification/PS_Layout.thy ===== *)
theory PS_Layout
  imports PS_Contracts ITS_Requests
begin

text \<open>
  The layout of the data of Protected Storage in memory: reading back what was laid out, for numbers,
  the information of an object, and the object table.
\<close>

section \<open>Numbers\<close>

lemma le32_de32:
  assumes "length bs = 4"
  shows "le32 (de32 bs) = bs"
proof -
  obtain a b c d where bs: "bs = [a, b, c, d]" using assms by (auto simp: length_Suc_conv numeral_eq_Suc)
  have l: "unat a < 256" "unat b < 256" "unat c < 256" "unat d < 256" by simp_all
  let ?n = "unat a + 256 * unat b + 65536 * unat c + 16777216 * unat d"
  have n: "?n = unat a + 256 * (unat b + 256 * (unat c + 256 * unat d))" by simp
  have 0: "?n mod 256 = unat a" unfolding n mod_mult_self2 using l(1) by (rule mod_less)
  have d1: "?n div 256 = unat b + 256 * (unat c + 256 * unat d)" unfolding n using l(1) by (simp only: div_mult_self2)
  have "?n div (256 * 256) = unat c + 256 * unat d" unfolding div_mult2_eq d1 using l(2) by (simp only: div_mult_self2)
  then have d2: "?n div 65536 = unat c + 256 * unat d" by simp
  have "?n div (65536 * 256) = unat d" unfolding div_mult2_eq d2 using l(3) by (simp only: div_mult_self2)
  then have d3: "?n div 16777216 = unat d" by simp
  have w: "word_of_nat k = (x :: byte)" if "k mod 256 = unat x" for k x
    using that by (simp add: word_unat_eq_iff unat_byte_of_nat)
  have e: "de32 bs = ?n" by (simp add: bs de32_def)
  have "?n div 256 mod 256 = unat b" unfolding d1 mod_mult_self2 using l(2) by (rule mod_less)
  moreover have "?n div 65536 mod 256 = unat c" unfolding d2 mod_mult_self2 using l(3) by (rule mod_less)
  moreover have "?n div 16777216 mod 256 = unat d" unfolding d3 using l(4) by (rule mod_less)
  ultimately have "word_of_nat ?n = a" "word_of_nat (?n div 256) = b" "word_of_nat (?n div 65536) = c" "word_of_nat (?n div 16777216) = d"
    using w 0 by blast+
  then show ?thesis unfolding le32_def e by (simp only: bs)
qed

lemma length_lei32 [simp]: "length (lei32 n) = 4" by (simp add: lei32_def)

lemma dei32_lei32 [simp]:
  assumes "client_ok c"
  shows "dei32 (lei32 c) = c"
proof -
  have "unat (word_of_int c :: 32 word) < SIZE_MAX_P1" using unat_u32_lt[of "word_of_int c"] by simp
  then show ?thesis using assms
    by (simp add: dei32_def lei32_def client_ok_def sint_sbintrunc' signed_take_bit_int_eq_self)
qed

lemma le64_de64:
  assumes "length bs = 8"
  shows "le64 (de64 bs) = bs"
proof -
  have "de32 (take 4 bs) < SIZE_MAX_P1" by simp
  then have "(de32 (take 4 bs) + SIZE_MAX_P1 * de32 (drop 4 bs)) mod SIZE_MAX_P1 = de32 (take 4 bs)"
    "(de32 (take 4 bs) + SIZE_MAX_P1 * de32 (drop 4 bs)) div SIZE_MAX_P1 = de32 (drop 4 bs)" by simp_all
  then show ?thesis using assms by (simp add: le64_def de64_def le32_de32)
qed

section \<open>Objects\<close>

lemma length_info_bytes [simp]: "length (info_bytes i) = 12" by (simp add: info_bytes_def)

lemma info_bytes_back:
  assumes "12 \<le> length bs"
  shows "info_bytes (bytes_info bs) = take 12 bs"
proof -
  have "unat (word_of_nat (de32 (rd bs 8 4)) :: 32 word) = de32 (rd bs 8 4)"
    using de32_bound[of "rd bs 8 4"] by (simp add: unat_of_nat_lt)
  moreover have "take 12 bs = take 4 bs @ rd bs 4 4 @ rd bs 8 4"
    using take_add[of 4 8 bs] take_add[of 4 4 "drop 4 bs"] by (simp add: rd_def)
  ultimately show ?thesis using assms by (simp add: info_bytes_def bytes_info_def le32_de32)
qed

text \<open>The information of an object as the code writes it: sizes of 32 bits.\<close>

definition info_wf :: "ps_object_info_t \<Rightarrow> bool" where
  "info_wf i \<longleftrightarrow> oi_current_size i < SIZE_MAX_P1 \<and> oi_max_size i < SIZE_MAX_P1"

lemma bytes_info_back [simp]:
  assumes "info_wf i"
  shows "bytes_info (info_bytes i @ bs) = i"
proof -
  have "unat (oi_create_flags i) < SIZE_MAX_P1" using unat_u32_lt[of "oi_create_flags i"] by simp
  then show ?thesis using assms
    by (simp add: bytes_info_def info_bytes_def rd_def info_wf_def)
qed

lemma obj_body_set [simp]: "12 \<le> length bs \<Longrightarrow> obj_body (set_body bs ob) = bs"
  by (simp add: obj_body_def set_body_def info_bytes_back)

lemma set_body_fields [simp]:
  "ob_crypto (set_body bs ob) = ob_crypto ob" "ob_info (set_body bs ob) = bytes_info bs" "ob_data (set_body bs ob) = drop 12 bs"
  by (simp_all add: set_body_def)

lemma length_obj_body [simp]: "length (obj_body ob) = 12 + length (ob_data ob)" by (simp add: obj_body_def)

section \<open>The table\<close>

definition crypto_wf :: "ps_crypto_t \<Rightarrow> bool" where
  "crypto_wf c \<longleftrightarrow> length (cr_tag c) = 16 \<and> length (cr_iv c) = 12 \<and> cr_uid c < 2 ^ 64 \<and> client_ok (cr_client_id c)"

definition entry_wf :: "ps_obj_table_entry_t \<Rightarrow> bool" where
  "entry_wf e \<longleftrightarrow> length (te_tag e) = 16 \<and> length (te_pad e) = 4 \<and> te_uid e < 2 ^ 64 \<and> client_ok (te_client_id e)"

definition table_wf :: "('i, 'n, 'k, 'o, 'r) ps_env \<Rightarrow> ps_obj_table_t \<Rightarrow> bool" where
  "table_wf env t \<longleftrightarrow> crypto_wf (tb_crypto t) \<and> length (tb_pad t) = 7 \<and> length (tb_obj_db t) = PS_OBJ_TABLE_ENTRIES env
     \<and> (\<forall>e \<in> set (tb_obj_db t). entry_wf e)"

lemma crypto_back: "crypto_wf c \<Longrightarrow> bytes_crypto (crypto_bytes c) = c"
  by (simp add: crypto_wf_def bytes_crypto_def crypto_bytes_def rd_def)

lemma length_crypto_bytes: "crypto_wf c \<Longrightarrow> length (crypto_bytes c) = 40"
  by (simp add: crypto_wf_def crypto_bytes_def)

lemma entry_back: "entry_wf e \<Longrightarrow> bytes_entry (entry_bytes e) = e"
  by (simp add: entry_wf_def bytes_entry_def entry_bytes_def rd_def)

lemma length_entry_bytes: "entry_wf e \<Longrightarrow> length (entry_bytes e) = 32"
  by (simp add: entry_wf_def entry_bytes_def)

lemma rd_concat:
  assumes "\<forall>x \<in> set xs. length (f x) = n" "i < length xs"
  shows "rd (concat (map f xs)) (n * i) n = f (xs ! i)"
  using assms
proof (induction xs arbitrary: i)
  case (Cons x xs)
  then show ?case by (cases i) (simp_all add: rd_def)
qed simp

lemma length_concat_const: "\<forall>x \<in> set xs. length (f x) = n \<Longrightarrow> length (concat (map f xs)) = n * length xs"
  by (induction xs) simp_all

lemma length_table_bytes: "table_wf env t \<Longrightarrow> length (table_bytes t) = PS_OBJ_TABLE_SIZE env"
  using length_concat_const[of "tb_obj_db t" entry_bytes 32]
  by (simp add: table_wf_def table_bytes_def table_data_def length_crypto_bytes length_entry_bytes PS_OBJ_TABLE_SIZE_def)

lemma table_back:
  assumes "table_wf env t"
  shows "bytes_table env (table_bytes t) = t"
proof -
  let ?c = "crypto_bytes (tb_crypto t)" and ?es = "concat (map entry_bytes (tb_obj_db t))"
  have w: "crypto_wf (tb_crypto t)" "length (tb_pad t) = 7" "length (tb_obj_db t) = PS_OBJ_TABLE_ENTRIES env"
    "\<forall>e \<in> set (tb_obj_db t). entry_wf e" using assms by (auto simp: table_wf_def)
  have c: "length ?c = 40" using w(1) by (rule length_crypto_bytes)
  have e: "rd (table_bytes t) (48 + 32 * i) 32 = entry_bytes (tb_obj_db t ! i)" if "i < length (tb_obj_db t)" for i
    using rd_concat[of "tb_obj_db t" entry_bytes 32 i] that w(2,4) c
    by (simp add: table_bytes_def table_data_def rd_def length_entry_bytes drop_Cons')
  have "map (\<lambda>i. bytes_entry (rd (table_bytes t) (48 + 32 * i) 32)) [0..<length (tb_obj_db t)] = tb_obj_db t"
    by (rule nth_equalityI) (use w(4) in \<open>auto simp: e entry_back\<close>)
  moreover have "take 40 (table_bytes t) = ?c" "table_bytes t ! 40 = tb_version t" "rd (table_bytes t) 41 7 = tb_pad t"
    using c w(2) by (simp_all add: table_bytes_def table_data_def rd_def nth_append)
  ultimately show ?thesis using w(1,3) by (simp add: bytes_table_def crypto_back)
qed

text \<open>Whatever is read from flash is a well-formed table.\<close>

lemma dei32_client: "client_ok (dei32 bs)"
  using sint_ge[of "word_of_nat (de32 bs) :: 32 word"] sint_lt[of "word_of_nat (de32 bs) :: 32 word"] by (simp add: dei32_def client_ok_def)

lemma de64_bound: "de64 bs < 2 ^ 64"
  using de64_key[of 0 bs] by (simp add: its_key_def client_ok_def)

lemma table_wf_bytes:
  assumes "length bs = PS_OBJ_TABLE_SIZE env"
  shows "table_wf env (bytes_table env bs)"
proof -
  have l: "48 + 32 * i + 32 \<le> length bs" if "i < PS_OBJ_TABLE_ENTRIES env" for i using that assms by (simp add: PS_OBJ_TABLE_SIZE_def)
  have "entry_wf (bytes_entry (rd bs (48 + 32 * i) 32))" if "i < PS_OBJ_TABLE_ENTRIES env" for i
    using l[OF that] by (simp add: entry_wf_def bytes_entry_def dei32_client de64_bound[simplified])
  moreover have "48 \<le> length bs" using assms by (simp add: PS_OBJ_TABLE_SIZE_def)
  ultimately show ?thesis
    by (auto simp: table_wf_def bytes_table_def crypto_wf_def bytes_crypto_def dei32_client de64_bound[simplified])
qed

lemma table_wf_zero [simp]: "table_wf env (zero_table env)"
  by (simp add: table_wf_def zero_table_def crypto_wf_def zero_crypto_def entry_wf_def zero_entry_def client_ok_def)

end
