(* ===== verification/PS_Storage.thy ===== *)
theory PS_Storage
  imports PS_Layout
begin

text \<open>
  The objects of Protected Storage: what is stored for a client, as a function of the table, the files
  and the cipher, the states the service can be in, and the operations that read.
\<close>

section \<open>Contents\<close>

text \<open>The plain text of the object of entry \<open>i\<close>.\<close>

definition obj_plain :: "(byte list \<Rightarrow> byte list \<Rightarrow> byte list \<Rightarrow> byte list \<Rightarrow> byte list option) \<Rightarrow> (nat \<Rightarrow> byte list option)
    \<Rightarrow> ps_obj_table_t \<Rightarrow> nat \<Rightarrow> byte list option" where
  "obj_plain dec fs t i =
     (case fs (PS_OBJECT_FS_ID i) of
        None \<Rightarrow> None
      | Some f \<Rightarrow> let e = tb_obj_db t ! i in
          dec (lei32 (te_client_id e) @ le64 (te_uid e)) (take 12 f) (le32 (PS_OBJECT_FS_ID i)) (drop 12 f @ te_tag e))"

definition plain_ok :: "('i, 'n, 'k, 'o, 'r) ps_env \<Rightarrow> byte list \<Rightarrow> bool" where
  "plain_ok env pt \<longleftrightarrow> 12 \<le> length pt \<and> oi_current_size (bytes_info pt) = length pt - 12
     \<and> oi_current_size (bytes_info pt) \<le> oi_max_size (bytes_info pt) \<and> oi_max_size (bytes_info pt) \<le> PS_MAX_ASSET_SIZE env"

text \<open>What a client has stored under an identifier: data and flags.\<close>

definition ps_store :: "(byte list \<Rightarrow> byte list \<Rightarrow> byte list \<Rightarrow> byte list \<Rightarrow> byte list option) \<Rightarrow> (nat \<Rightarrow> byte list option)
    \<Rightarrow> ps_obj_table_t \<Rightarrow> int \<Rightarrow> nat \<Rightarrow> (byte list \<times> 32 word) option" where
  "ps_store dec fs t client uid =
     (case ps_get_object_entry_idx t uid client of
        None \<Rightarrow> None
      | Some i \<Rightarrow> map_option (\<lambda>pt. (drop 12 pt, oi_create_flags (bytes_info pt))) (obj_plain dec fs t i))"

section \<open>States\<close>

definition ob_ok :: "('i, 'n, 'k, 'o, 'r) ps_env \<Rightarrow> ps_object_t \<Rightarrow> bool" where
  "ob_ok env ob \<longleftrightarrow> length (ob_data ob) = PS_MAX_ASSET_SIZE env + 16 \<and> length (cr_tag (ob_crypto ob)) = 16 \<and> length (cr_iv (ob_crypto ob)) = 12"

definition ps_ram_ok :: "('i, 'n, 'k, 'o, 'r) ps_env \<Rightarrow> ('i, 'n, 'k, 'r) ps_state \<Rightarrow> bool" where
  "ps_ram_ok env s \<longleftrightarrow> table_wf env (obj_table s) \<and> ob_ok env (g_ps_object s) \<and> length (ps_crypto_iv_buf s) = 12
     \<and> active_table s < 2 \<and> scratch_table s < 2"

lemma zero_object_ok [simp]: "ob_ok env (zero_object env)"
  by (simp add: ob_ok_def zero_object_def zero_crypto_def PS_TAG_LEN_BYTES_def)

text \<open>
  The table on flash is that in memory, authenticated with the first counter; the three counters agree;
  there is one table file; no two entries have the same owner and identifier; every object can be
  decrypted.
\<close>

definition table_valid :: "('i, 'n, 'k, 'o, 'r) ps_env \<Rightarrow> (byte list \<Rightarrow> byte list \<Rightarrow> byte list \<Rightarrow> byte list \<Rightarrow> byte list option)
    \<Rightarrow> ps_obj_table_t \<Rightarrow> nat \<Rightarrow> bool" where
  "table_valid env dec t c \<longleftrightarrow> tb_version t = PS_OBJECT_SYSTEM_VERSION \<and> table_label env t = t
     \<and> dec (fill_key_label (tb_crypto t)) (cr_iv (tb_crypto t)) (assoc_data t c) (cr_tag (tb_crypto t)) = Some []"

lemma label_iff: "table_label env t = t \<longleftrightarrow> cr_client_id (tb_crypto t) = PS_PARTITION_ID env \<and> cr_uid (tb_crypto t) = PS_OBJ_TABLE_UID"
  by (cases t; cases "tb_crypto t") (auto simp: table_label_def)

definition entries_ok :: "ps_obj_table_t \<Rightarrow> bool" where
  "entries_ok t \<longleftrightarrow> (\<forall>i < length (tb_obj_db t). \<forall>j < length (tb_obj_db t). te_uid (tb_obj_db t ! i) \<noteq> 0
     \<and> te_uid (tb_obj_db t ! i) = te_uid (tb_obj_db t ! j) \<and> te_client_id (tb_obj_db t ! i) = te_client_id (tb_obj_db t ! j) \<longrightarrow> i = j)"

definition objects_ok :: "('i, 'n, 'k, 'o, 'r) ps_env \<Rightarrow> (byte list \<Rightarrow> byte list \<Rightarrow> byte list \<Rightarrow> byte list \<Rightarrow> byte list option)
    \<Rightarrow> (nat \<Rightarrow> byte list option) \<Rightarrow> ps_obj_table_t \<Rightarrow> bool" where
  "objects_ok env dec fs t \<longleftrightarrow> (\<forall>i < length (tb_obj_db t). te_uid (tb_obj_db t ! i) \<noteq> 0 \<longrightarrow>
     (\<exists>pt. obj_plain dec fs t i = Some pt \<and> plain_ok env pt))"

definition ps_inv :: "('i, 'n, 'k, 'o, 'r) ps_env \<Rightarrow> (byte list \<Rightarrow> byte list \<Rightarrow> byte list \<Rightarrow> byte list \<Rightarrow> byte list option)
    \<Rightarrow> (nat \<Rightarrow> byte list option) \<Rightarrow> (nat \<Rightarrow> nat) \<Rightarrow> ('i, 'n, 'k, 'r) ps_state \<Rightarrow> bool" where
  "ps_inv env dec fs cnt s \<longleftrightarrow> ps_ram_ok env s \<and> scratch_table s = 1 - active_table s
     \<and> fs (PS_TABLE_FS_ID (active_table s)) = Some (table_bytes (obj_table s)) \<and> fs (PS_TABLE_FS_ID (scratch_table s)) = None
     \<and> table_valid env dec (obj_table s) (cnt 0) \<and> cnt 1 = cnt 0 \<and> cnt 2 = cnt 0
     \<and> entries_ok (obj_table s) \<and> objects_ok env dec fs (obj_table s)"

lemma entry_idx_Some:
  assumes "ps_get_object_entry_idx t uid client = Some i"
  shows "i < length (tb_obj_db t)" "te_uid (tb_obj_db t ! i) = uid" "te_client_id (tb_obj_db t ! i) = client"
  using assms by (auto simp: ps_get_object_entry_idx_def find_Some_iff)

lemma entry_idx_None: "ps_get_object_entry_idx t uid client = None \<longleftrightarrow>
    (\<forall>i < length (tb_obj_db t). \<not> (te_uid (tb_obj_db t ! i) = uid \<and> te_client_id (tb_obj_db t ! i) = client))"
  by (auto simp: ps_get_object_entry_idx_def find_None_iff)

lemma entry_idx_eqI:
  assumes "entries_ok t" "uid \<noteq> 0" "i < length (tb_obj_db t)" "te_uid (tb_obj_db t ! i) = uid" "te_client_id (tb_obj_db t ! i) = client"
  shows "ps_get_object_entry_idx t uid client = Some i"
proof (cases "ps_get_object_entry_idx t uid client")
  case None
  then show ?thesis using assms by (auto simp: entry_idx_None)
next
  case (Some j)
  then show ?thesis using assms entry_idx_Some[OF Some] by (auto simp: entries_ok_def)
qed

lemma bytes_info_take: "12 \<le> n \<Longrightarrow> bytes_info (take n bs) = bytes_info bs"
  by (simp add: bytes_info_def rd_def drop_take min_def)

text \<open>A step that leaves table, vector and counters alone.\<close>

definition ps_same :: "('i, 'n, 'k, 'r) ps_state \<Rightarrow> ('i, 'n, 'k, 'r) ps_state \<Rightarrow> bool" where
  "ps_same s t \<longleftrightarrow> obj_table t = obj_table s \<and> active_table t = active_table s \<and> scratch_table t = scratch_table s
     \<and> ps_crypto_iv_buf t = ps_crypto_iv_buf s \<and> ps_nv t = ps_nv s"

text \<open>The answers of the operations that read.\<close>

definition ps_get_result :: "(byte list \<times> 32 word) option \<Rightarrow> nat \<Rightarrow> nat \<Rightarrow> nat \<Rightarrow> psa_error + byte list" where
  "ps_get_result v uid off sz =
     (if uid = 0 then Inl PSA_ERROR_INVALID_ARGUMENT
      else case v of
        None \<Rightarrow> Inl PSA_ERROR_DOES_NOT_EXIST
      | Some (d, fl) \<Rightarrow> if off > length d then Inl PSA_ERROR_INVALID_ARGUMENT else Inr (rd d off (min sz (length d - off))))"

definition ps_info_result :: "(byte list \<times> 32 word) option \<Rightarrow> nat \<Rightarrow> psa_error + nat \<times> 32 word" where
  "ps_info_result v uid =
     (if uid = 0 then Inl PSA_ERROR_INVALID_ARGUMENT
      else case v of None \<Rightarrow> Inl PSA_ERROR_DOES_NOT_EXIST | Some (d, fl) \<Rightarrow> Inr (length d, fl))"

section \<open>The contracts together\<close>

definition ps_ifs_ok :: "('i \<Rightarrow> bool) \<Rightarrow> ('n \<Rightarrow> bool) \<Rightarrow> ('k \<Rightarrow> bool) \<Rightarrow> ('r \<Rightarrow> bool) \<Rightarrow> ('i, 'n, 'k, 'r) ps_state \<Rightarrow> bool" where
  "ps_ifs_ok its_ok nv_ok keys_ok req_ok s \<longleftrightarrow> its_ok (ps_its s) \<and> nv_ok (ps_nv s) \<and> keys_ok (ps_keys s) \<and> req_ok (ps_req s)"

locale ps_storage = aead_keys env keys_ok derived key_label enc dec
    + its: its_client "psa_its_set env" "psa_its_get env" "psa_its_remove env" its_ok files
    + nv: nv_counters "tfm_platform_nv_counter_read env" "tfm_platform_nv_counter_increment env" nv_ok counter
    + rv: request_vectors "ps_psa_read env" "ps_psa_write env" req_ok buf_size rest written room
  for env :: "('i, 'n, 'k, 'o, 'r) ps_env" and keys_ok derived key_label enc dec its_ok files nv_ok counter req_ok buf_size rest written room
    + assumes table_fits: "PS_OBJ_TABLE_SIZE env \<le> PS_MAX_ASSET_SIZE env"
    and asset_fits: "PS_MAX_ASSET_SIZE env + 28 \<le> buf_size" "buf_size < SIZE_MAX_P1 - 44"
    and partition_id: "client_ok (PS_PARTITION_ID env)"
begin

abbreviation ifs_ok :: "('i, 'n, 'k, 'r) ps_state \<Rightarrow> bool" where "ifs_ok \<equiv> ps_ifs_ok its_ok nv_ok keys_ok req_ok"

abbreviation fs :: "('i, 'n, 'k, 'r) ps_state \<Rightarrow> nat \<Rightarrow> byte list option" where "fs s \<equiv> files (ps_its s)"

lemma object_uid: "i < PS_OBJ_TABLE_ENTRIES env \<Longrightarrow> file_uid (PS_OBJECT_FS_ID i)"
  using table_fits asset_fits
  by (simp add: file_uid_def PS_OBJECT_FS_ID_def PS_TABLE_FS_ID_def PS_OBJ_TABLE_IDX_1_def PS_OBJ_TABLE_SIZE_def)

lemma table_uid: "i < 2 \<Longrightarrow> file_uid (PS_TABLE_FS_ID i)"
  by (simp add: file_uid_def PS_TABLE_FS_ID_def)

lemma encrypted_read:
  assumes ok: "ifs_ok s" "ob_ok env (g_ps_object s)" and fd: "file_uid fd" "\<forall>f. fs s fd = Some f \<longrightarrow> 12 \<le> length f"
  defines "c \<equiv> ob_crypto (g_ps_object s)" and "n \<equiv> PS_MAX_ASSET_SIZE env + 24"
  shows "\<exists>r ob i k. ps_encrypted_object_read env fd s = Some (r, s\<lparr>g_ps_object := ob, ps_its := i, ps_keys := k\<rparr>)
    \<and> its_ok i \<and> files i = fs s \<and> keys_ok k \<and> ob_ok env ob \<and> ob_info ob = bytes_info (obj_body ob) \<and> cr_tag (ob_crypto ob) = cr_tag c \<and> cr_uid (ob_crypto ob) = cr_uid c
    \<and> cr_client_id (ob_crypto ob) = cr_client_id c
    \<and> (\<forall>f pt. fs s fd = Some f \<and> dec (fill_key_label c) (take 12 f) (le32 fd) (drop 12 (take n f) @ cr_tag c) = Some pt \<longrightarrow>
          r = Inr () \<and> take (length pt) (obj_body ob) = pt)
    \<and> (r = Inr () \<longrightarrow> (\<exists>f pt. fs s fd = Some f \<and> dec (fill_key_label c) (take 12 f) (le32 fd) (drop 12 (take n f) @ cr_tag c) = Some pt))"
proof -
  let ?ob = "g_ps_object s"
  have c: "length (cr_tag c) = 16" "length (cr_iv c) = 12" and b: "length (obj_body ?ob) = PS_MAX_ASSET_SIZE env + 28" "length (ob_data ?ob) = PS_MAX_ASSET_SIZE env + 16"
    using ok(2) by (auto simp: ob_ok_def c_def)
  have n: "0 < n" "n < SIZE_MAX_P1" "PS_ENCRYPT_SIZE (PS_MAX_ASSET_SIZE env) + STORED_HEADER_DATA_SIZE = n"
    using asset_fits by (auto simp: n_def PS_ENCRYPT_SIZE_def STORED_HEADER_DATA_SIZE_def)
  have io: "its_ok (ps_its s)" "keys_ok (ps_keys s)" using ok(1) by (auto simp: ps_ifs_ok_def)
  show ?thesis
  proof (cases "fs s fd")
    case None
    then obtain r i where g: "psa_its_get env fd 0 n (ps_its s) = Some ((r, []), i)" "its_ok i" "files i = fs s" "r = Inl PSA_ERROR_DOES_NOT_EXIST"
      using its.get_file[OF io(1) fd(1) n(1,2)] by auto
    have eq: "s\<lparr>ps_its := i, g_ps_object := ob\<rparr> = s\<lparr>g_ps_object := ob, ps_its := i, ps_keys := ps_keys s\<rparr>" for ob by simp
    have "ps_encrypted_object_read env fd s = Some (r, s\<lparr>g_ps_object := set_body (obj_body ?ob) ?ob, ps_its := i, ps_keys := ps_keys s\<rparr>)"
      using g(1,4) c(2) by (simp add: ps_encrypted_object_read_def n(3) Let_def c_def)
    moreover have "ob_ok env (set_body (obj_body ?ob) ?ob)" using ok(2) by (simp add: ob_ok_def)
    ultimately show ?thesis using g None io(2)
      by (intro exI[of _ r] exI[of _ "set_body (obj_body ?ob) ?ob"] exI[of _ i] exI[of _ "ps_keys s"]) (simp add: c_def)
  next
    case (Some f)
    define g where "g = take n f"
    have f: "12 \<le> length f" "f \<noteq> []" using fd(2) Some by auto
    have gl: "12 \<le> length g" "length g \<le> n" "take 12 g = take 12 f" using f n(1) by (auto simp: g_def n_def)
    obtain i where i: "psa_its_get env fd 0 n (ps_its s) = Some ((Inr (), g), i)" "its_ok i" "files i = fs s"
      using its.get_file[OF io(1) fd(1) n(1,2)] Some f(2) by (auto simp: g_def)
    define ob1 where "ob1 = set_body (wr (obj_body ?ob) 0 (drop 12 g)) (?ob\<lparr>ob_crypto := c\<lparr>cr_iv := take 12 g\<rparr>\<rparr>)"
    define m where "m = length g - 12"
    have m: "m + 16 \<le> PS_MAX_ASSET_SIZE env + 28" "m \<le> PS_MAX_ASSET_SIZE env + 28" "length (drop 12 g) = m" using gl by (auto simp: m_def n_def)
    have w: "length (wr (obj_body ?ob) 0 (drop 12 g)) = PS_MAX_ASSET_SIZE env + 28" using m b by simp
    have ob1: "ob_ok env ob1" "obj_body ob1 = wr (obj_body ?ob) 0 (drop 12 g)" "ob_crypto ob1 = c\<lparr>cr_iv := take 12 f\<rparr>"
      using ok(2) w gl f by (auto simp: ob_ok_def ob1_def c_def)
    have tk: "take m (obj_body ob1) = drop 12 g" using m b by (simp add: ob1(2) wr_def)
    let ?b = "wr (obj_body ob1) m (cr_tag c)"
    have lb: "length (obj_body ob1) = PS_MAX_ASSET_SIZE env + 28" using w ob1(2) by simp
    have lab: "fill_key_label (ob_crypto ob1) = fill_key_label c" by (simp add: ob1(3) fill_key_label_def)
    have tag1: "cr_tag (ob_crypto ob1) = cr_tag c" "cr_iv (ob_crypto ob1) = take 12 f" by (simp_all add: ob1(3))
    have ct: "length (cr_tag (ob_crypto ob1)) = PS_TAG_LEN_BYTES" using c by (simp add: ob1(3) PS_TAG_LEN_BYTES_def)
    have mb: "m \<le> length (obj_body ob1)" "m + PS_TAG_LEN_BYTES \<le> length (obj_body ob1)" using m lb by (simp_all add: PS_TAG_LEN_BYTES_def)
    let ?d = "dec (fill_key_label c) (take 12 f) (le32 fd) (drop 12 g @ cr_tag c)"
    obtain k where k: "ps_crypto_auth_and_decrypt env (ob_crypto ob1) (le32 fd) (obj_body ob1) m (length (obj_body ob1)) (ps_keys s) =
        ((case ?d of None \<Rightarrow> (Inl PSA_ERROR_INVALID_SIGNATURE, ?b) | Some pt \<Rightarrow> (Inr m, wr ?b 0 pt)), k)" "keys_ok k"
      using auth_and_decrypt_ok[OF io(2) mb ct refl, of "le32 fd"] unfolding tk lab tag1 by blast
    define res where "res = (case ?d of None \<Rightarrow> (Inl PSA_ERROR_GENERIC_ERROR, ?b) | Some pt \<Rightarrow> (Inr (), wr ?b 0 pt))"
    have "ps_encrypted_object_read env fd s = ps_object_auth_decrypt env fd m (s\<lparr>ps_its := i, g_ps_object := ob1\<rparr>)"
      unfolding ps_encrypted_object_read_def n(3) using i(1) gl by (simp add: Let_def c_def m_def ob1_def STORED_HEADER_DATA_SIZE_def PS_IV_LEN_BYTES_def c(2)[unfolded c_def] del: take_take)
    also have "\<dots> = Some (fst res, s\<lparr>g_ps_object := set_body (snd res) ob1, ps_its := i, ps_keys := k\<rparr>)"
      using k(1) by (auto simp: ps_object_auth_decrypt_def res_def Let_def split: option.splits)
    finally have run: "ps_encrypted_object_read env fd s = Some (fst res, s\<lparr>g_ps_object := set_body (snd res) ob1, ps_its := i, ps_keys := k\<rparr>)" .
    have lbb: "length ?b = PS_MAX_ASSET_SIZE env + 28" using lb c(1) m(1) by (simp only: length_wr)
    have lp: "length pt = m" if "?d = Some pt" for pt
      using dec_len[OF that] c(1) m(3) by (simp only: PS_TAG_LEN_BYTES_def length_append)
    have lr: "length (wr ?b 0 pt) = PS_MAX_ASSET_SIZE env + 28" "length pt = m" if "?d = Some pt" for pt
      using lp[OF that] lbb m(2) by simp_all
    have l: "length (snd res) = PS_MAX_ASSET_SIZE env + 28" 
      by (cases ?d) (simp_all only: res_def option.case snd_conv lbb lr)
    have "ob_ok env (set_body (snd res) ob1)" using ob1(1) l by (simp add: ob_ok_def)
    moreover have "fst res = Inr () \<and> take (length pt) (obj_body (set_body (snd res) ob1)) = pt" if "?d = Some pt" for pt
      using that lr[OF that] lbb by (simp add: res_def wr_def)
    moreover have "fst res = Inr () \<longrightarrow> (\<exists>pt. ?d = Some pt)" by (auto simp: res_def split: option.splits)
    moreover have "12 \<le> length (snd res)" using l by simp
    ultimately show ?thesis using run i k(2) Some
      by (intro exI[of _ "fst res"] exI[of _ "set_body (snd res) ob1"] exI[of _ i] exI[of _ k]) (auto simp: ob1(3) g_def[symmetric])
  qed
qed

text \<open>An object of the table, read through its entry.\<close>

lemma plain_length: "obj_plain dec (fs s) t i = Some pt \<Longrightarrow> plain_ok env pt \<Longrightarrow> length (te_tag (tb_obj_db t ! i)) = 16 \<Longrightarrow>
    \<exists>f. fs s (PS_OBJECT_FS_ID i) = Some f \<and> 12 \<le> length f \<and> length f = length pt + 12 \<and> length f \<le> PS_MAX_ASSET_SIZE env + 24"
  using dec_len[of _ _ _ _ pt] by (fastforce simp: obj_plain_def plain_ok_def PS_TAG_LEN_BYTES_def Let_def split: option.splits)

lemma get_tbl_info:
  assumes "ps_get_object_entry_idx (obj_table s) uid client = Some i"
  shows "ps_object_table_get_obj_tbl_info uid client s = Some (Inr (), s\<lparr>g_obj_fid := PS_OBJECT_FS_ID i,
      g_ps_object := (g_ps_object s)\<lparr>ob_crypto := (ob_crypto (g_ps_object s))\<lparr>cr_tag := te_tag (tb_obj_db (obj_table s) ! i)\<rparr>\<rparr>\<rparr>)"
  using assms by (simp add: ps_object_table_get_obj_tbl_info_def Let_def)

lemma read_existing:
  assumes ok: "ifs_ok s" "ps_ram_ok env s" "objects_ok env dec (fs s) (obj_table s)"
    and i: "ps_get_object_entry_idx (obj_table s) uid client = Some i" "uid \<noteq> 0"
  obtains ob it k pt s1 where
    "ps_object_table_get_obj_tbl_info uid client s = Some (Inr (), s1)"
    "read_object_of env uid client s1 = Some (Inr (), s\<lparr>g_obj_fid := PS_OBJECT_FS_ID i, g_ps_object := ob, ps_its := it, ps_keys := k\<rparr>)"
    "its_ok it" "files it = fs s" "keys_ok k" "ob_ok env ob" "cr_uid (ob_crypto ob) = uid" "cr_client_id (ob_crypto ob) = client"
    "obj_plain dec (fs s) (obj_table s) i = Some pt" "plain_ok env pt" "ob_info ob = bytes_info pt" "take (length pt - 12) (ob_data ob) = drop 12 pt"
proof -
  let ?e = "tb_obj_db (obj_table s) ! i" and ?fd = "PS_OBJECT_FS_ID i" and ?ob = "g_ps_object s"
  note e = entry_idx_Some[OF i(1)]
  obtain pt where pt: "obj_plain dec (fs s) (obj_table s) i = Some pt" "plain_ok env pt"
    using ok(3) e i(2) by (auto simp: objects_ok_def)
  have t: "table_wf env (obj_table s)" using ok(2) by (simp add: ps_ram_ok_def)
  then have wf: "length (te_tag ?e) = 16" and n: "i < PS_OBJ_TABLE_ENTRIES env" using e(1) nth_mem[OF e(1)] by (auto simp: table_wf_def entry_wf_def)
  obtain f where f: "fs s ?fd = Some f" "12 \<le> length f" "length f \<le> PS_MAX_ASSET_SIZE env + 24" using plain_length[OF pt wf] by blast
  define s2 where "s2 = s\<lparr>g_obj_fid := ?fd, g_ps_object := ?ob\<lparr>ob_crypto := (ob_crypto ?ob)\<lparr>cr_tag := te_tag ?e, cr_uid := uid, cr_client_id := client\<rparr>\<rparr>\<rparr>"
  let ?c = "ob_crypto (g_ps_object s2)"
  have s2: "ifs_ok s2" "ob_ok env (g_ps_object s2)" "fs s2 = fs s" "cr_tag ?c = te_tag ?e" "fill_key_label ?c = lei32 client @ le64 uid"
    using ok(1,2) wf by (auto simp: s2_def ps_ifs_ok_def ps_ram_ok_def ob_ok_def fill_key_label_def)
  have short: "\<forall>f. fs s2 ?fd = Some f \<longrightarrow> 12 \<le> length f" using f s2(3) by simp
  have dec: "dec (fill_key_label ?c) (take 12 f) (le32 ?fd) (drop 12 (take (PS_MAX_ASSET_SIZE env + 24) f) @ cr_tag ?c) = Some pt"
    using pt(1) f s2(4,5) e by (simp add: obj_plain_def Let_def)
  obtain ob it k where r: "ps_encrypted_object_read env ?fd s2 = Some (Inr (), s2\<lparr>g_ps_object := ob, ps_its := it, ps_keys := k\<rparr>)"
    "its_ok it" "files it = fs s" "keys_ok k" "ob_ok env ob" "ob_info ob = bytes_info (obj_body ob)" "cr_uid (ob_crypto ob) = uid" "cr_client_id (ob_crypto ob) = client"
    "take (length pt) (obj_body ob) = pt"
    using encrypted_read[OF s2(1,2) object_uid[OF n] short] dec f(1) unfolding s2(3) by (auto simp: s2_def)
  have p: "12 \<le> length pt" using pt(2) by (simp add: plain_ok_def)
  have "take (length pt) (obj_body ob) = info_bytes (ob_info ob) @ take (length pt - 12) (ob_data ob)" using p by (simp add: obj_body_def)
  then have d: "take (length pt - 12) (ob_data ob) = drop 12 pt" using r(9) by (metis append_eq_conv_conj length_info_bytes)
  have "bytes_info (obj_body ob) = bytes_info pt" using bytes_info_take[OF p, of "obj_body ob"] r(9) by simp
  moreover have "read_object_of env uid client (s\<lparr>g_obj_fid := ?fd, g_ps_object := ?ob\<lparr>ob_crypto := (ob_crypto ?ob)\<lparr>cr_tag := te_tag ?e\<rparr>\<rparr>\<rparr>)
      = Some (Inr (), s\<lparr>g_obj_fid := ?fd, g_ps_object := ob, ps_its := it, ps_keys := k\<rparr>)"
    using r(1) by (simp add: read_object_of_def s2_def)
  ultimately show ?thesis using that[OF get_tbl_info[OF i(1)] _ r(2-5,7,8) pt _ d] r(6) by simp
qed

section \<open>Reading\<close>

lemma tfm_ps_get_ok:
  assumes ok: "ifs_ok s" "ps_ram_ok env s" "objects_ok env dec (fs s) (obj_table s)" and rm: "sz \<le> room (ps_req s) 0"
    and res_def: "res = ps_get_result (ps_store dec (fs s) (obj_table s) client uid) uid off sz"
  shows "\<exists>t. tfm_ps_get env client uid off sz s = Some (map_sum id length res, t) \<and> ifs_ok t \<and> ps_same s t \<and> ob_ok env (g_ps_object t) \<and> fs t = fs s
    \<and> written (ps_req t) = (case res of Inl _ \<Rightarrow> written (ps_req s) | Inr bs \<Rightarrow> (written (ps_req s))(0 := written (ps_req s) 0 @ bs))"
proof (cases "uid = 0 \<or> ps_get_object_entry_idx (obj_table s) uid client = None")
  case True
  then show ?thesis using ok
    by (cases "uid = 0") (auto simp: tfm_ps_get_def res_def ps_get_result_def TFM_PS_INVALID_UID_def ps_object_read_def ps_store_def
          ps_object_table_get_obj_tbl_info_def bind_p_def ps_same_def ps_ram_ok_def)
next
  case False
  then obtain i where u: "uid \<noteq> 0" and i: "ps_get_object_entry_idx (obj_table s) uid client = Some i" by auto
  obtain ob it k pt s1 where r: "ps_object_table_get_obj_tbl_info uid client s = Some (Inr (), s1)"
    "read_object_of env uid client s1 = Some (Inr (), s\<lparr>g_obj_fid := PS_OBJECT_FS_ID i, g_ps_object := ob, ps_its := it, ps_keys := k\<rparr>)"
    "its_ok it" "files it = fs s" "keys_ok k" "ob_ok env ob" "obj_plain dec (fs s) (obj_table s) i = Some pt" "plain_ok env pt"
    "ob_info ob = bytes_info pt" "take (length pt - 12) (ob_data ob) = drop 12 pt"
    using read_existing[OF ok i u] by metis
  let ?s2 = "s\<lparr>g_obj_fid := PS_OBJECT_FS_ID i, g_ps_object := ob, ps_its := it, ps_keys := k\<rparr>" and ?d = "drop 12 pt"
  have st: "ps_store dec (fs s) (obj_table s) client uid = Some (?d, oi_create_flags (bytes_info pt))" by (simp add: ps_store_def i r(7))
  have cur: "oi_current_size (ob_info ob) = length ?d" "length ?d \<le> PS_MAX_ASSET_SIZE env" using r(8,9) by (auto simp: plain_ok_def)
  have run: "tfm_ps_get env client uid off sz s = finish_object env (\<lambda>s.
      (if off > length ?d then raise_p PSA_ERROR_INVALID_ARGUMENT
       else let sz = min sz (length ?d - off) in bind_p (ps_req_mngr_write_asset_data env (rd (ob_data ob) off sz)) (\<lambda>_. ret_p sz)) ?s2) s1"
    using u r(1,2) cur(1) by (simp add: tfm_ps_get_def TFM_PS_INVALID_UID_def ps_object_read_def bind_p_Inr finish_object_def)
  show ?thesis
  proof (cases "off > length ?d")
    case True
    then have "tfm_ps_get env client uid off sz s = Some (Inl PSA_ERROR_INVALID_ARGUMENT, clear_object env ?s2)"
      by (simp add: run finish_object_def)
    moreover have "res = Inl PSA_ERROR_INVALID_ARGUMENT" using u st True by (simp add: res_def ps_get_result_def)
    ultimately show ?thesis using ok(1) r by (auto simp: clear_object_def ps_ifs_ok_def ps_same_def)
  next
    case False
    define z where "z = min sz (length ?d - off)"
    have rd: "rd (ob_data ob) off z = rd ?d off z"
      using r(10) False by (simp add: rd_def z_def flip: r(10)) (simp add: drop_take min_def)
    have z: "length (rd ?d off z) = z" "z \<le> buf_size" "z \<le> room (ps_req s) 0" using cur(2) asset_fits rm by (auto simp: z_def)
    obtain q where q: "ps_psa_write env 0 (rd ?d off z) (ps_req s) = Some q" "req_ok q" "written q = (written (ps_req s))(0 := written (ps_req s) 0 @ rd ?d off z)"
      using rv.write_vec[of "ps_req s" 0 "rd ?d off z"] z ok(1) by (auto simp: ps_ifs_ok_def)
    have "tfm_ps_get env client uid off sz s = Some (Inr z, clear_object env (?s2\<lparr>ps_req := q\<rparr>))"
      unfolding run Let_def z_def[symmetric] rd using False q(1) by (simp add: finish_object_def ps_req_mngr_write_asset_data_def bind_p_def)
    moreover have "res = Inr (rd ?d off z)" using u st False by (simp add: res_def ps_get_result_def z_def)
    ultimately show ?thesis using ok(1) r q z(1) by (auto simp: clear_object_def ps_ifs_ok_def ps_same_def)
  qed
qed

lemma tfm_ps_get_info_ok:
  assumes ok: "ifs_ok s" "ps_ram_ok env s" "objects_ok env dec (fs s) (obj_table s)"
  shows "\<exists>t. tfm_ps_get_info env client uid s = Some (ps_info_result (ps_store dec (fs s) (obj_table s) client uid) uid, t)
    \<and> ifs_ok t \<and> ps_same s t \<and> ob_ok env (g_ps_object t) \<and> fs t = fs s \<and> ps_req t = ps_req s"
proof (cases "uid = 0 \<or> ps_get_object_entry_idx (obj_table s) uid client = None")
  case True
  then show ?thesis using ok
    by (cases "uid = 0") (auto simp: tfm_ps_get_info_def ps_info_result_def TFM_PS_INVALID_UID_def ps_object_get_info_def ps_store_def
          ps_object_table_get_obj_tbl_info_def bind_p_def ps_same_def ps_ram_ok_def)
next
  case False
  then obtain i where u: "uid \<noteq> 0" and i: "ps_get_object_entry_idx (obj_table s) uid client = Some i" by auto
  obtain ob it k pt s1 where r: "ps_object_table_get_obj_tbl_info uid client s = Some (Inr (), s1)"
    "read_object_of env uid client s1 = Some (Inr (), s\<lparr>g_obj_fid := PS_OBJECT_FS_ID i, g_ps_object := ob, ps_its := it, ps_keys := k\<rparr>)"
    "its_ok it" "files it = fs s" "keys_ok k" "obj_plain dec (fs s) (obj_table s) i = Some pt" "plain_ok env pt" "ob_info ob = bytes_info pt"
    using read_existing[OF ok i u] by metis
  have "tfm_ps_get_info env client uid s = Some (Inr (length pt - 12, oi_create_flags (bytes_info pt)),
      clear_object env (s\<lparr>g_obj_fid := PS_OBJECT_FS_ID i, g_ps_object := ob, ps_its := it, ps_keys := k\<rparr>))"
    using u r by (simp add: tfm_ps_get_info_def TFM_PS_INVALID_UID_def ps_object_get_info_def bind_p_Inr finish_object_def gets_p_def plain_ok_def)
  then show ?thesis using u i r ok(1) by (auto simp: ps_info_result_def ps_store_def clear_object_def ps_ifs_ok_def ps_same_def)
qed

end

end
