(* ===== verification/PS_Change.thy ===== *)
theory PS_Change
  imports PS_Storage
begin

text \<open>
  Protected Storage, changes: saving the table, storing an object, and \<open>tfm_ps_set\<close> as an update of what
  is stored.
\<close>

section \<open>Saving the table\<close>

lemma table_data_crypto [simp]: "table_data (t\<lparr>tb_crypto := c\<rparr>) = table_data t" "assoc_data (t\<lparr>tb_crypto := c\<rparr>) n = assoc_data t n"
  by (simp_all add: table_data_def assoc_data_def)

lemma fill_label_iv [simp]: "fill_key_label (c\<lparr>cr_iv := x\<rparr>) = fill_key_label c" "fill_key_label (c\<lparr>cr_tag := y\<rparr>) = fill_key_label c"
  by (simp_all add: fill_key_label_def)

lemma bind_its_p: "f (ps_its s) = Some (r, i) \<Longrightarrow> bind_p (its_p f) g s
    = (case r of Inl e \<Rightarrow> Some (Inl e, s\<lparr>ps_its := i\<rparr>) | Inr x \<Rightarrow> g x (s\<lparr>ps_its := i\<rparr>))"
  by (simp add: bind_p_def its_p_def split: sum.split)

text \<open>The table with a new vector and tag.\<close>

definition resealed :: "ps_obj_table_t \<Rightarrow> ps_obj_table_t \<Rightarrow> bool" where
  "resealed t u \<longleftrightarrow> (\<exists>iv tag. u = t\<lparr>tb_crypto := (tb_crypto t)\<lparr>cr_iv := iv, cr_tag := tag\<rparr>\<rparr>)"

lemma resealedD:
  assumes "resealed t u"
  shows "tb_obj_db u = tb_obj_db t" "tb_version u = tb_version t" "table_label env t = t \<Longrightarrow> table_label env u = u"
proof -
  obtain iv tag where u: "u = t\<lparr>tb_crypto := (tb_crypto t)\<lparr>cr_iv := iv, cr_tag := tag\<rparr>\<rparr>" using assms by (auto simp: resealed_def)
  show "tb_obj_db u = tb_obj_db t" "tb_version u = tb_version t" by (simp_all add: u)
  show "table_label env t = t \<Longrightarrow> table_label env u = u" by (simp add: u label_iff)
qed

text \<open>
  The first steps of \<open>ps_object_table_save_table\<close>, up to a point where the power may fail: before the
  first counter is incremented, after that, after the table is written, after the second counter has
  followed, and the whole.
\<close>

definition save_prefix :: "('i, 'n, 'k, 'o, 'r) ps_env \<Rightarrow> nat \<Rightarrow> ('i, 'n, 'k, 'r, unit) ps" where
  "save_prefix env k =
     (if k = 0 then ret_p ()
      else if k = 1 then ps_increment_nv_counter env TFM_PS_NV_COUNTER_1
      else
        bind_p (ps_increment_nv_counter env TFM_PS_NV_COUNTER_1) (\<lambda>_.
        bind_p (ps_read_nv_counter env TFM_PS_NV_COUNTER_1) (\<lambda>nvc_1.
        bind_p (ps_object_table_nvc_generate_auth_tag env nvc_1) (\<lambda>_.
        bind_p (ps_object_table_fs_write_table env) (\<lambda>_.
        if k = 2 then ret_p ()
        else if k = 3 then bind_p (ps_read_nv_counter env TFM_PS_NV_COUNTER_2) (\<lambda>v. nvc_increments env TFM_PS_NV_COUNTER_2 (nvc_1 - v))
        else ps_object_table_align_nv_counters env nvc_1)))))"

lemma save_prefix_all: "3 < k \<Longrightarrow> save_prefix env k = ps_object_table_save_table env"
  by (simp add: save_prefix_def ps_object_table_save_table_def)

context ps_storage
begin

abbreviation cnt :: "('i, 'n, 'k, 'r) ps_state \<Rightarrow> nat \<Rightarrow> nat" where "cnt s \<equiv> counter (ps_nv s)"

lemma increments_ok:
  assumes "nv_ok (ps_nv s)" "c < 3"
  shows "\<exists>r n. nvc_increments env c m s = Some (r, s\<lparr>ps_nv := n\<rparr>) \<and> nv_ok n \<and> (\<forall>d. d \<noteq> c \<longrightarrow> counter n d = cnt s d)
    \<and> cnt s c \<le> counter n c \<and> counter n c \<le> cnt s c + m
    \<and> (r = Inr () \<longrightarrow> counter n c = cnt s c + m) \<and> (r \<noteq> Inr () \<longrightarrow> SIZE_MAX_P1 - 1 < cnt s c + m)"
  using assms(1)
proof (induction m arbitrary: s)
  case 0
  then show ?case by (intro exI[of _ "Inr ()"] exI[of _ "ps_nv s"]) simp
next
  case (Suc m)
  obtain n where n: "tfm_platform_nv_counter_increment env c (ps_nv s) = (cnt s c < SIZE_MAX_P1 - 1, n)" "nv_ok n"
    "counter n = (if cnt s c < SIZE_MAX_P1 - 1 then (cnt s)(c := cnt s c + 1) else cnt s)"
    using nv.inc_nv[OF Suc.prems assms(2)] by auto
  show ?case
  proof (cases "cnt s c < SIZE_MAX_P1 - 1")
    case True
    obtain r n' where r: "nvc_increments env c m (s\<lparr>ps_nv := n\<rparr>) = Some (r, s\<lparr>ps_nv := n'\<rparr>)" "nv_ok n'" "\<forall>d. d \<noteq> c \<longrightarrow> counter n' d = counter n d"
      "counter n c \<le> counter n' c" "counter n' c \<le> counter n c + m" "r = Inr () \<longrightarrow> counter n' c = counter n c + m"
      "r \<noteq> Inr () \<longrightarrow> SIZE_MAX_P1 - 1 < counter n c + m"
      using Suc.IH[of "s\<lparr>ps_nv := n\<rparr>"] n(2) by auto
    have "nvc_increments env c (Suc m) s = Some (r, s\<lparr>ps_nv := n'\<rparr>)" using n(1) True r(1) by (simp add: ps_increment_nv_counter_def bind_p_def)
    then show ?thesis using r n(3) True by (intro exI[of _ r] exI[of _ n']) auto
  next
    case False
    then have "nvc_increments env c (Suc m) s = Some (Inl PSA_ERROR_GENERIC_ERROR, s\<lparr>ps_nv := n\<rparr>)"
      using n(1) by (simp add: ps_increment_nv_counter_def bind_p_def)
    then show ?thesis using n False by (intro exI[of _ "Inl PSA_ERROR_GENERIC_ERROR"] exI[of _ n]) auto
  qed
qed

lemma increments_fit:
  assumes "nv_ok (ps_nv s)" "c < 3" "cnt s c + m < SIZE_MAX_P1"
  shows "\<exists>n. nvc_increments env c m s = Some (Inr (), s\<lparr>ps_nv := n\<rparr>) \<and> nv_ok n \<and> counter n = (cnt s)(c := cnt s c + m)"
proof -
  obtain r n where r: "nvc_increments env c m s = Some (r, s\<lparr>ps_nv := n\<rparr>)" "nv_ok n" "\<forall>d. d \<noteq> c \<longrightarrow> counter n d = cnt s d"
    "r = Inr () \<longrightarrow> counter n c = cnt s c + m" "r \<noteq> Inr () \<longrightarrow> SIZE_MAX_P1 - 1 < cnt s c + m"
    using increments_ok[OF assms(1,2), of m] by blast
  have "r = Inr ()" using r(5) assms(3) by auto
  then show ?thesis using r by (auto simp: fun_eq_iff)
qed

lemma read_nv_ok:
  assumes "nv_ok (ps_nv s)" "c < 3"
  shows "\<exists>n. ps_read_nv_counter env c s = Some (Inr (cnt s c), s\<lparr>ps_nv := n\<rparr>) \<and> nv_ok n \<and> counter n = cnt s"
  using nv.read_nv[OF assms] by (auto simp: ps_read_nv_counter_def)

lemma align_ok:
  assumes "nv_ok (ps_nv s)" "v < SIZE_MAX_P1"
  shows "\<exists>n. ps_object_table_align_nv_counters env v s = Some (Inr (), s\<lparr>ps_nv := n\<rparr>) \<and> nv_ok n
    \<and> counter n 0 = cnt s 0 \<and> counter n 1 = max v (cnt s 1) \<and> counter n 2 = max v (cnt s 2)"
proof -
  obtain n1 where n1: "ps_read_nv_counter env TFM_PS_NV_COUNTER_2 s = Some (Inr (cnt s 1), s\<lparr>ps_nv := n1\<rparr>)" "nv_ok n1" "counter n1 = cnt s"
    using read_nv_ok[OF assms(1), of 1] by (auto simp: TFM_PS_NV_COUNTER_2_def)
  have b: "cnt s 1 + (v - cnt s 1) < SIZE_MAX_P1" "cnt s 2 + (v - cnt s 2) < SIZE_MAX_P1"
    using assms(2) nv.nv_bound[OF assms(1), of 1] nv.nv_bound[OF assms(1), of 2] by auto
  obtain n2 where n2: "nvc_increments env TFM_PS_NV_COUNTER_2 (v - cnt s 1) (s\<lparr>ps_nv := n1\<rparr>) = Some (Inr (), s\<lparr>ps_nv := n2\<rparr>)" "nv_ok n2"
    "counter n2 = (cnt s)(1 := cnt s 1 + (v - cnt s 1))"
    using increments_fit[of "s\<lparr>ps_nv := n1\<rparr>" 1 "v - cnt s 1"] n1 b(1) by (auto simp: TFM_PS_NV_COUNTER_2_def)
  obtain n3 where n3: "ps_read_nv_counter env TFM_PS_NV_COUNTER_3 (s\<lparr>ps_nv := n2\<rparr>) = Some (Inr (cnt s 2), s\<lparr>ps_nv := n3\<rparr>)" "nv_ok n3" "counter n3 = counter n2"
    using read_nv_ok[of "s\<lparr>ps_nv := n2\<rparr>" 2] n2 by (auto simp: TFM_PS_NV_COUNTER_3_def)
  obtain n4 where n4: "nvc_increments env TFM_PS_NV_COUNTER_3 (v - cnt s 2) (s\<lparr>ps_nv := n3\<rparr>) = Some (Inr (), s\<lparr>ps_nv := n4\<rparr>)" "nv_ok n4"
    "counter n4 = (counter n2)(2 := cnt s 2 + (v - cnt s 2))"
    using increments_fit[of "s\<lparr>ps_nv := n3\<rparr>" 2 "v - cnt s 2"] n3 n2(3) b(2) by (auto simp: TFM_PS_NV_COUNTER_3_def)
  show ?thesis
    using n1(1) n2 n3(1,3) n4 by (intro exI[of _ n4]) (auto simp: ps_object_table_align_nv_counters_def bind_p_Inr)
qed

lemma get_iv_ok:
  assumes "length (ps_crypto_iv_buf s) = 12"
  shows "\<exists>b. ps_crypto_get_iv s = Some (Inr b, s\<lparr>ps_crypto_iv_buf := b\<rparr>) \<and> length b = 12
    \<or> ps_crypto_get_iv s = Some (Inl PSA_ERROR_GENERIC_ERROR, s)"
  by (auto simp: ps_crypto_get_iv_def Let_def)

lemma generate_ok:
  assumes "ifs_ok s" "ps_ram_ok env s"
  shows "\<exists>r t k b. ps_object_table_nvc_generate_auth_tag env v s = Some (r, s\<lparr>obj_table := t, ps_keys := k, ps_crypto_iv_buf := b\<rparr>)
    \<and> keys_ok k \<and> length b = 12 \<and> table_wf env t \<and> resealed (obj_table s) t
    \<and> (r = Inr () \<longrightarrow> dec (fill_key_label (tb_crypto t)) (cr_iv (tb_crypto t)) (assoc_data t v) (cr_tag (tb_crypto t)) = Some [])"
proof -
  have w: "table_wf env (obj_table s)" "length (ps_crypto_iv_buf s) = 12" "keys_ok (ps_keys s)" using assms by (auto simp: ps_ram_ok_def ps_ifs_ok_def)
  consider b where "ps_crypto_get_iv s = Some (Inr b, s\<lparr>ps_crypto_iv_buf := b\<rparr>)" "length b = 12"
    | "ps_crypto_get_iv s = Some (Inl PSA_ERROR_GENERIC_ERROR, s)" using get_iv_ok[OF w(2)] by blast
  then show ?thesis
  proof cases
    case 1
    let ?c = "(tb_crypto (obj_table s))\<lparr>cr_iv := b\<rparr>"
    have l: "length (cr_tag ?c) = PS_TAG_LEN_BYTES" using w(1) by (simp add: table_wf_def crypto_wf_def PS_TAG_LEN_BYTES_def)
    obtain k where k: "ps_crypto_generate_auth_tag env ?c (assoc_data (obj_table s) v) (ps_keys s)
        = ((Inr (), ?c\<lparr>cr_tag := enc (fill_key_label ?c) (cr_iv ?c) (assoc_data (obj_table s) v) []\<rparr>), k)" "keys_ok k"
      using generate_tag_ok[OF w(3) l] by blast
    let ?t = "(obj_table s)\<lparr>tb_crypto := ?c\<lparr>cr_tag := enc (fill_key_label ?c) (cr_iv ?c) (assoc_data (obj_table s) v) []\<rparr>\<rparr>"
    have "ps_object_table_nvc_generate_auth_tag env v s = Some (Inr (), s\<lparr>obj_table := ?t, ps_keys := k, ps_crypto_iv_buf := b\<rparr>)"
      using 1(1) k(1) by (simp add: ps_object_table_nvc_generate_auth_tag_def bind_p_Inr Let_def)
    moreover have "table_wf env ?t" using w(1) 1(2) enc_len[of _ _ _ "[]"] by (simp add: table_wf_def crypto_wf_def PS_TAG_LEN_BYTES_def)
    moreover have "resealed (obj_table s) ?t" unfolding resealed_def by (intro exI[of _ b] exI) simp
    ultimately show ?thesis using k(2) 1(2) by (intro exI[of _ "Inr ()"] exI[of _ ?t] exI[of _ k] exI[of _ b]) (simp add: dec_enc)
  next
    case 2
    have "resealed (obj_table s) (obj_table s)" unfolding resealed_def
      by (intro exI[of _ "cr_iv (tb_crypto (obj_table s))"] exI[of _ "cr_tag (tb_crypto (obj_table s))"]) simp
    moreover have "ps_object_table_nvc_generate_auth_tag env v s = Some (Inl PSA_ERROR_GENERIC_ERROR, s)"
      using 2 by (simp add: ps_object_table_nvc_generate_auth_tag_def bind_p_Inl)
    ultimately show ?thesis using w
      by (intro exI[of _ "Inl PSA_ERROR_GENERIC_ERROR"] exI[of _ "obj_table s"] exI[of _ "ps_keys s"] exI[of _ "ps_crypto_iv_buf s"]) simp
  qed
qed

text \<open>
  A save goes to the file that is not active, under the incremented counter. A save that fails leaves the
  files alone.
\<close>

definition table_written :: "('i, 'n, 'k, 'r) ps_state \<Rightarrow> ('i, 'n, 'k, 'r) ps_state \<Rightarrow> bool" where
  "table_written s t \<longleftrightarrow> active_table t = scratch_table s \<and> scratch_table t = active_table s
     \<and> fs t = (fs s)(PS_TABLE_FS_ID (scratch_table s) \<mapsto> table_bytes (obj_table t))
     \<and> dec (fill_key_label (tb_crypto (obj_table t))) (cr_iv (tb_crypto (obj_table t))) (assoc_data (obj_table t) (cnt s 0 + 1)) (cr_tag (tb_crypto (obj_table t))) = Some []
     \<and> cnt t 0 = cnt s 0 + 1"

definition not_saved :: "('i, 'n, 'k, 'r) ps_state \<Rightarrow> ('i, 'n, 'k, 'r) ps_state \<Rightarrow> bool" where
  "not_saved s t \<longleftrightarrow> fs t = fs s \<and> active_table t = active_table s \<and> scratch_table t = scratch_table s"

definition save_frame :: "('i, 'n, 'k, 'r) ps_state \<Rightarrow> ('i, 'n, 'k, 'r) ps_state \<Rightarrow> bool" where
  "save_frame s t \<longleftrightarrow> ifs_ok t \<and> ps_ram_ok env t \<and> g_ps_object t = g_ps_object s \<and> g_obj_fid t = g_obj_fid s \<and> ps_req t = ps_req s \<and> resealed (obj_table s) (obj_table t)"

lemma resealed_refl: "resealed t t"
  unfolding resealed_def by (intro exI[of _ "cr_iv (tb_crypto t)"] exI[of _ "cr_tag (tb_crypto t)"]) simp

lemma write_table_ok:
  assumes ok: "ifs_ok s" "ps_ram_ok env s"
  shows "\<exists>r i. psa_its_set env (PS_TABLE_FS_ID (scratch_table s)) (table_bytes (obj_table s)) 0 (ps_its s) = Some (r, i) \<and> its_ok i
    \<and> ps_object_table_fs_write_table env s = (case r of Inl e \<Rightarrow> Some (Inl e, s\<lparr>ps_its := i\<rparr>)
          | Inr _ \<Rightarrow> Some (Inr (), s\<lparr>ps_its := i, scratch_table := active_table s, active_table := scratch_table s\<rparr>))
    \<and> files i = (case r of Inr _ \<Rightarrow> (fs s)(PS_TABLE_FS_ID (scratch_table s) \<mapsto> table_bytes (obj_table s)) | Inl _ \<Rightarrow> fs s)"
proof -
  have w: "table_wf env (obj_table s)" "scratch_table s < 2" "its_ok (ps_its s)" using ok by (auto simp: ps_ram_ok_def ps_ifs_ok_def)
  have "length (table_bytes (obj_table s)) < SIZE_MAX_P1" using length_table_bytes[OF w(1)] table_fits asset_fits by simp
  from its.set_file[OF w(3) table_uid[OF w(2)] this] obtain r i where
    r: "psa_its_set env (PS_TABLE_FS_ID (scratch_table s)) (table_bytes (obj_table s)) 0 (ps_its s) = Some (r, i)" "its_ok i"
    "files i = (case r of Inr _ \<Rightarrow> (fs s)(PS_TABLE_FS_ID (scratch_table s) \<mapsto> table_bytes (obj_table s)) | Inl _ \<Rightarrow> fs s)" by blast
  have "ps_object_table_fs_write_table env s = (case r of Inl e \<Rightarrow> Some (Inl e, s\<lparr>ps_its := i\<rparr>)
          | Inr _ \<Rightarrow> Some (Inr (), s\<lparr>ps_its := i, scratch_table := active_table s, active_table := scratch_table s\<rparr>))"
    using r(1) by (auto simp: ps_object_table_fs_write_table_def bind_its_p split: sum.split)
  then show ?thesis using r by blast
qed

text \<open>The save up to the written table; what follows sees a state \<open>t\<close> as described.\<close>

lemma save_written:
  assumes ok: "ifs_ok s" "ps_ram_ok env s" and k: "1 < k"
  shows "(\<exists>e t. save_prefix env k s = Some (Inl e, t) \<and> save_frame s t \<and> not_saved s t)
    \<or> (\<exists>t. save_frame s t \<and> table_written s t \<and> (\<forall>d. d \<noteq> 0 \<longrightarrow> cnt t d = cnt s d) \<and> cnt s 0 + 1 < SIZE_MAX_P1
        \<and> save_prefix env k s = (if k = 2 then ret_p ()
            else if k = 3 then bind_p (ps_read_nv_counter env TFM_PS_NV_COUNTER_2) (\<lambda>v. nvc_increments env TFM_PS_NV_COUNTER_2 (cnt s 0 + 1 - v))
            else ps_object_table_align_nv_counters env (cnt s 0 + 1)) t)"
proof -
  have nv: "nv_ok (ps_nv s)" using ok(1) by (simp add: ps_ifs_ok_def)
  have id: "TFM_PS_NV_COUNTER_1 = 0" by (simp add: TFM_PS_NV_COUNTER_1_def)
  obtain n where n: "tfm_platform_nv_counter_increment env 0 (ps_nv s) = (cnt s 0 < SIZE_MAX_P1 - 1, n)" "nv_ok n"
    "counter n = (if cnt s 0 < SIZE_MAX_P1 - 1 then (cnt s)(0 := cnt s 0 + 1) else cnt s)"
    using nv.inc_nv[OF nv, of 0] by auto
  define tail where "tail = (\<lambda>nvc_1. if k = 2 then ret_p ()
        else if k = 3 then bind_p (ps_read_nv_counter env TFM_PS_NV_COUNTER_2) (\<lambda>v. nvc_increments env TFM_PS_NV_COUNTER_2 (nvc_1 - v))
        else ps_object_table_align_nv_counters env nvc_1)"
  have e0: "save_prefix env k s = bind_p (ps_increment_nv_counter env TFM_PS_NV_COUNTER_1) (\<lambda>_. bind_p (ps_read_nv_counter env TFM_PS_NV_COUNTER_1) (\<lambda>nvc_1.
        bind_p (ps_object_table_nvc_generate_auth_tag env nvc_1) (\<lambda>_. bind_p (ps_object_table_fs_write_table env) (\<lambda>_. tail nvc_1)))) s"
    using k by (simp add: save_prefix_def tail_def)
  show ?thesis
  proof (cases "cnt s 0 < SIZE_MAX_P1 - 1")
    case False
    then have "save_prefix env k s = Some (Inl PSA_ERROR_GENERIC_ERROR, s\<lparr>ps_nv := n\<rparr>)" using n(1) by (simp add: e0 id ps_increment_nv_counter_def bind_p_def)
    moreover have "save_frame s (s\<lparr>ps_nv := n\<rparr>)" "not_saved s (s\<lparr>ps_nv := n\<rparr>)"
      using ok n(2) by (simp_all add: save_frame_def not_saved_def resealed_refl ps_ifs_ok_def ps_ram_ok_def)
    ultimately show ?thesis by blast
  next
    case True
    obtain n1 where n1: "ps_read_nv_counter env 0 (s\<lparr>ps_nv := n\<rparr>) = Some (Inr (cnt s 0 + 1), s\<lparr>ps_nv := n1\<rparr>)" "nv_ok n1" "counter n1 = counter n"
      using read_nv_ok[of "s\<lparr>ps_nv := n\<rparr>" 0] n True by auto
    let ?s1 = "s\<lparr>ps_nv := n1\<rparr>" and ?v = "cnt s 0 + 1"
    have s1: "ifs_ok ?s1" "ps_ram_ok env ?s1" using ok n1(2) by (auto simp: ps_ifs_ok_def ps_ram_ok_def)
    have e1: "save_prefix env k s = bind_p (ps_object_table_nvc_generate_auth_tag env ?v) (\<lambda>_. bind_p (ps_object_table_fs_write_table env) (\<lambda>_. tail ?v)) ?s1"
      using n(1) True n1(1) by (simp add: e0 id ps_increment_nv_counter_def bind_p_def)
    obtain r2 t2 k2 b2 where g: "ps_object_table_nvc_generate_auth_tag env ?v ?s1 = Some (r2, s\<lparr>ps_nv := n1, obj_table := t2, ps_keys := k2, ps_crypto_iv_buf := b2\<rparr>)"
      "keys_ok k2" "length b2 = 12" "table_wf env t2" "resealed (obj_table s) t2"
      "r2 = Inr () \<longrightarrow> dec (fill_key_label (tb_crypto t2)) (cr_iv (tb_crypto t2)) (assoc_data t2 ?v) (cr_tag (tb_crypto t2)) = Some []"
      using generate_ok[OF s1, of ?v] by auto
    define s2 where "s2 = s\<lparr>ps_nv := n1, obj_table := t2, ps_keys := k2, ps_crypto_iv_buf := b2\<rparr>"
    have s2: "save_frame s s2" "not_saved s s2" "ifs_ok s2" "ps_ram_ok env s2" "cnt s2 = (cnt s)(0 := ?v)"
      using ok n1(2,3) n(3) True g by (auto simp: s2_def save_frame_def not_saved_def ps_ifs_ok_def ps_ram_ok_def)
    show ?thesis
    proof (cases r2)
      case (Inl e)
      then have "save_prefix env k s = Some (Inl e, s2)" using g(1) by (simp add: e1 bind_p_Inl s2_def)
      then show ?thesis using s2 by blast
    next
      case (Inr x)
      then have e2: "save_prefix env k s = bind_p (ps_object_table_fs_write_table env) (\<lambda>_. tail ?v) s2" using g(1) by (simp add: e1 bind_p_Inr s2_def)
      obtain r3 :: "psa_error + unit" and i3 where w: "its_ok i3" "ps_object_table_fs_write_table env s2 = (case r3 of Inl e \<Rightarrow> Some (Inl e, s2\<lparr>ps_its := i3\<rparr>)
          | Inr _ \<Rightarrow> Some (Inr (), s2\<lparr>ps_its := i3, scratch_table := active_table s2, active_table := scratch_table s2\<rparr>))"
        "files i3 = (case r3 of Inr _ \<Rightarrow> (fs s2)(PS_TABLE_FS_ID (scratch_table s2) \<mapsto> table_bytes (obj_table s2)) | Inl _ \<Rightarrow> fs s2)"
        using write_table_ok[OF s2(3,4)] by blast
      show ?thesis
      proof (cases r3)
        case (Inl e)
        then have "save_prefix env k s = Some (Inl e, s2\<lparr>ps_its := i3\<rparr>)" using w(2) by (simp add: e2 bind_p_Inl)
        moreover have "save_frame s (s2\<lparr>ps_its := i3\<rparr>)" "not_saved s (s2\<lparr>ps_its := i3\<rparr>)"
          using s2 w(1,3) Inl by (auto simp: save_frame_def not_saved_def ps_ifs_ok_def ps_ram_ok_def)
        ultimately show ?thesis by blast
      next
        case r3: (Inr y)
        let ?t = "s2\<lparr>ps_its := i3, scratch_table := active_table s2, active_table := scratch_table s2\<rparr>"
        have "save_prefix env k s = tail ?v ?t" using w(2) r3 by (simp add: e2 bind_p_Inr)
        moreover have "save_frame s ?t" using s2 w(1) by (auto simp: save_frame_def ps_ifs_ok_def ps_ram_ok_def)
        moreover have "table_written s ?t" using w(3) r3 g(6) Inr s2(5) by (simp add: table_written_def s2_def)
        moreover have "\<forall>d. d \<noteq> 0 \<longrightarrow> cnt ?t d = cnt s d" "cnt s 0 + 1 < SIZE_MAX_P1" using s2(5) True by simp_all
        ultimately show ?thesis unfolding tail_def by blast
      qed
    qed
  qed
qed

definition saved :: "('i, 'n, 'k, 'r) ps_state \<Rightarrow> ('i, 'n, 'k, 'r) ps_state \<Rightarrow> bool" where
  "saved s t \<longleftrightarrow> table_written s t \<and> cnt t 1 = max (cnt t 0) (cnt s 1) \<and> cnt t 2 = max (cnt t 0) (cnt s 2)"

lemma save_table_ok:
  assumes ok: "ifs_ok s" "ps_ram_ok env s"
  shows "\<exists>r t. ps_object_table_save_table env s = Some (r, t) \<and> save_frame s t \<and> (case r of Inr _ \<Rightarrow> saved s t | Inl _ \<Rightarrow> not_saved s t)"
proof -
  note w = save_written[OF ok, of 4, unfolded save_prefix_all[of 4, simplified]]
  show ?thesis
  proof (cases "\<exists>e t. ps_object_table_save_table env s = Some (Inl e, t) \<and> save_frame s t \<and> not_saved s t")
    case True
    then obtain e t where "ps_object_table_save_table env s = Some (Inl e, t)" "save_frame s t" "not_saved s t" by blast
    then show ?thesis by (intro exI[of _ "Inl e"] exI[of _ t]) simp
  next
    case False
    then obtain t where t: "save_frame s t" "table_written s t" "\<forall>d. d \<noteq> 0 \<longrightarrow> cnt t d = cnt s d" "cnt s 0 + 1 < SIZE_MAX_P1"
      "ps_object_table_save_table env s = ps_object_table_align_nv_counters env (cnt s 0 + 1) t" using w by auto
    have nv: "nv_ok (ps_nv t)" using t(1) by (simp add: save_frame_def ps_ifs_ok_def)
    obtain n where n: "ps_object_table_align_nv_counters env (cnt s 0 + 1) t = Some (Inr (), t\<lparr>ps_nv := n\<rparr>)" "nv_ok n"
      "counter n 0 = cnt t 0" "counter n 1 = max (cnt s 0 + 1) (cnt t 1)" "counter n 2 = max (cnt s 0 + 1) (cnt t 2)" using align_ok[OF nv t(4)] by blast
    have "save_frame s (t\<lparr>ps_nv := n\<rparr>)" using t(1) n(2) by (auto simp: save_frame_def ps_ifs_ok_def ps_ram_ok_def)
    moreover have "saved s (t\<lparr>ps_nv := n\<rparr>)" using t(2,3) n(3-5) by (auto simp: saved_def table_written_def)
    ultimately show ?thesis using t(5) n(1) by (intro exI[of _ "Inr ()"] exI[of _ "t\<lparr>ps_nv := n\<rparr>"]) simp
  qed
qed

section \<open>Storing an object\<close>

lemma encrypted_write:
  assumes ok: "ifs_ok s" "ps_ram_ok env s" and fd: "file_uid fd" and m: "oi_current_size (ob_info (g_ps_object s)) \<le> PS_MAX_ASSET_SIZE env"
  shows "\<exists>r ob i k b. ps_encrypted_object_write env fd s = Some (r, s\<lparr>g_ps_object := ob, ps_its := i, ps_keys := k, ps_crypto_iv_buf := b\<rparr>)
    \<and> its_ok i \<and> keys_ok k \<and> length b = 12 \<and> ob_ok env ob \<and> (r \<noteq> Inr () \<longrightarrow> files i = fs s)
    \<and> (r = Inr () \<longrightarrow> (\<exists>f. files i = (fs s)(fd \<mapsto> f) \<and> 12 \<le> length f
          \<and> dec (fill_key_label (ob_crypto (g_ps_object s))) (take 12 f) (le32 fd) (drop 12 f @ cr_tag (ob_crypto ob))
              = Some (take (12 + oi_current_size (ob_info (g_ps_object s))) (obj_body (g_ps_object s)))))"
proof -
  let ?ob = "g_ps_object s"
  define n where "n = 12 + oi_current_size (ob_info ?ob)"
  have w: "ob_ok env ?ob" "length (ps_crypto_iv_buf s) = 12" "keys_ok (ps_keys s)" "its_ok (ps_its s)" using ok by (auto simp: ps_ram_ok_def ps_ifs_ok_def)
  have sz: "PS_ENCRYPT_SIZE (oi_current_size (ob_info ?ob)) = n" by (simp add: PS_ENCRYPT_SIZE_def n_def)
  have e0: "ps_encrypted_object_write env fd s = bind_p (ps_object_auth_encrypt env fd n) (\<lambda>_. bind_p (gets_p g_ps_object) (\<lambda>ob.
     its_p (psa_its_set env fd (take (n + STORED_HEADER_DATA_SIZE) (cr_iv (ob_crypto ob) @ obj_body ob)) 0))) s"
    by (simp add: ps_encrypted_object_write_def sz)
  consider b where "ps_crypto_get_iv s = Some (Inr b, s\<lparr>ps_crypto_iv_buf := b\<rparr>)" "length b = 12"
    | "ps_crypto_get_iv s = Some (Inl PSA_ERROR_GENERIC_ERROR, s)" using get_iv_ok[OF w(2)] by blast
  then show ?thesis
  proof cases
    case 2
    then have "ps_encrypted_object_write env fd s = Some (Inl PSA_ERROR_GENERIC_ERROR, s)"
      by (simp add: e0 ps_object_auth_encrypt_def bind_p_def)
    then show ?thesis using w by (intro exI[of _ "Inl PSA_ERROR_GENERIC_ERROR"] exI[of _ ?ob] exI[of _ "ps_its s"] exI[of _ "ps_keys s"] exI[of _ "ps_crypto_iv_buf s"]) simp
  next
    case 1
    let ?c = "(ob_crypto ?ob)\<lparr>cr_iv := b\<rparr>" and ?body = "obj_body ?ob"
    let ?ob1 = "?ob\<lparr>ob_crypto := ?c\<rparr>"
    have body: "obj_body ?ob1 = ?body" by (simp add: obj_body_def)
    have len: "length ?body = PS_MAX_ASSET_SIZE env + 28" "n \<le> PS_MAX_ASSET_SIZE env + 12" using w(1) m by (auto simp: ob_ok_def n_def)
    define e where "e = enc (fill_key_label ?c) (cr_iv ?c) (le32 fd) (take n ?body)"
    have le: "length e = n + 16" using enc_len[of _ _ _ "take n ?body"] len by (simp add: e_def PS_TAG_LEN_BYTES_def)
    have mb: "n + PS_TAG_LEN_BYTES \<le> PS_ENCRYPT_SIZE (PS_MAX_ASSET_SIZE env) + PS_TAG_LEN_BYTES" "n + PS_TAG_LEN_BYTES \<le> length ?body"
      using len by (simp_all add: PS_ENCRYPT_SIZE_def PS_TAG_LEN_BYTES_def)
    obtain k where k: "ps_crypto_encrypt_and_tag env ?c (le32 fd) ?body n (PS_ENCRYPT_SIZE (PS_MAX_ASSET_SIZE env) + PS_TAG_LEN_BYTES) (ps_keys s)
        = ((Inr n, ?c\<lparr>cr_tag := drop n e\<rparr>, wr ?body 0 e), k)" "keys_ok k"
      using encrypt_and_tag_ok[OF w(3) mb e_def] by auto
    define ob2 where "ob2 = (set_body (wr ?body 0 e) ?ob1)\<lparr>ob_crypto := ?c\<lparr>cr_tag := drop n e\<rparr>\<rparr>"
    have lw: "length (wr ?body 0 e) = PS_MAX_ASSET_SIZE env + 28" using le len by simp
    have ob2: "ob_ok env ob2" using lw 1(2) le by (simp add: ob_ok_def ob2_def)
    have "obj_body ob2 = obj_body (set_body (wr ?body 0 e) ?ob1)" by (simp add: ob2_def obj_body_def)
    then have b2: "obj_body ob2 = wr ?body 0 e" using lw by simp
    let ?s2 = "s\<lparr>ps_crypto_iv_buf := b, g_ps_object := ob2, ps_keys := k\<rparr>"
    have enc: "ps_object_auth_encrypt env fd n s = Some (Inr (), ?s2)"
      using 1(1) k(1) by (simp add: ps_object_auth_encrypt_def bind_p_Inr Let_def body ob2_def)
    define f where "f = b @ take n e"
    have "take (n + 12) (b @ wr ?body 0 e) = f" using 1(2) le by (simp add: f_def wr_def)
    then have f: "take (n + STORED_HEADER_DATA_SIZE) (cr_iv (ob_crypto ob2) @ obj_body ob2) = f" unfolding b2 by (simp add: STORED_HEADER_DATA_SIZE_def ob2_def)
    have lf: "length f < SIZE_MAX_P1" "12 \<le> length f" using 1(2) le len asset_fits by (simp_all add: f_def)
    obtain r i where r: "psa_its_set env fd f 0 (ps_its s) = Some (r, i)" "its_ok i" "files i = (case r of Inr _ \<Rightarrow> (fs s)(fd \<mapsto> f) | Inl _ \<Rightarrow> fs s)"
      using its.set_file[OF w(4) fd lf(1)] by blast
    have run: "ps_encrypted_object_write env fd s = Some (r, s\<lparr>g_ps_object := ob2, ps_its := i, ps_keys := k, ps_crypto_iv_buf := b\<rparr>)"
      using r(1) by (simp add: e0 bind_p_Inr[of "ps_object_auth_encrypt env fd n", OF enc] f its_p_def del: take_append)
    have d: "dec (fill_key_label (ob_crypto ?ob)) (take 12 f) (le32 fd) (drop 12 f @ cr_tag (ob_crypto ob2)) = Some (take n ?body)"
      using dec_enc[of "fill_key_label ?c" b "le32 fd" "take n ?body"] 1(2) by (simp add: f_def ob2_def e_def)
    show ?thesis unfolding n_def[symmetric] using run r(2,3) k(2) 1(2) ob2 d lf(2)
      by (intro exI[of _ r] exI[of _ ob2] exI[of _ i] exI[of _ k] exI[of _ b]) (cases r, auto)
  qed
qed

section \<open>Free entries\<close>

lemma remove_stale_ok:
  assumes "its_ok (ps_its s)" "file_uid fd"
  shows "\<exists>i. remove_stale env fd s = Some (Inr (), s\<lparr>ps_its := i\<rparr>) \<and> its_ok i \<and> files i = (fs s)(fd := None)"
  using its.remove_file[OF assms] by (auto simp: remove_stale_def bind_p_def try_p_def its_p_def split: if_splits)

end

lemma free_idx_scan_ok:
  "free_idx_scan db is m l = (0, k) \<Longrightarrow> 0 < m \<Longrightarrow> k \<in> set is \<and> te_uid (db ! k) = 0"
proof (induction db "is" m l rule: free_idx_scan.induct)
  case (2 db i "is" m l)
  show ?case
  proof (cases "te_uid (db ! i) = TFM_PS_INVALID_UID")
    case True
    then have r: "free_idx_scan db is (m - 1) i = (0, k)" using 2(3,4) by simp
    show ?thesis
    proof (cases "m = 1")
      case True
      then have "k = i" using r by (cases "is") simp_all
      then show ?thesis using \<open>te_uid (db ! i) = TFM_PS_INVALID_UID\<close> by (simp add: TFM_PS_INVALID_UID_def)
    next
      case False
      then show ?thesis using 2(1)[OF 2(4) True r] 2(4) by auto
    qed
  next
    case False
    then show ?thesis using 2 by auto
  qed
qed simp

lemma ps_table_free_idx_ok:
  assumes "ps_table_free_idx t m = Inr k"
  shows "k < length (tb_obj_db t)" "te_uid (tb_obj_db t ! k) = 0"
  using assms free_idx_scan_ok[of "tb_obj_db t" "[0..<length (tb_obj_db t)]" m 0 k]
  by (auto simp: ps_table_free_idx_def split: if_splits prod.splits)

context ps_storage
begin

lemma get_free_fid_ok:
  assumes "ifs_ok s" "ps_ram_ok env s"
  shows "(\<exists>e. ps_object_table_get_free_fid env m s = Some (Inl e, s)) \<or>
    (\<exists>k i. ps_table_free_idx (obj_table s) m = Inr k \<and> ps_object_table_get_free_fid env m s = Some (Inr (PS_OBJECT_FS_ID k), s\<lparr>ps_its := i\<rparr>)
       \<and> its_ok i \<and> files i = (fs s)(PS_OBJECT_FS_ID k := None))"
proof (cases "ps_table_free_idx (obj_table s) m")
  case (Inl e)
  then show ?thesis by (simp add: ps_object_table_get_free_fid_def bind_p_def)
next
  case (Inr k)
  have "k < PS_OBJ_TABLE_ENTRIES env" using ps_table_free_idx_ok[OF Inr] assms(2) by (simp add: ps_ram_ok_def table_wf_def)
  then obtain i where "remove_stale env (PS_OBJECT_FS_ID k) s = Some (Inr (), s\<lparr>ps_its := i\<rparr>)" "its_ok i" "files i = (fs s)(PS_OBJECT_FS_ID k := None)"
    using remove_stale_ok[of s "PS_OBJECT_FS_ID k"] object_uid assms(1) by (auto simp: ps_ifs_ok_def)
  then show ?thesis using Inr by (intro disjI2 exI[of _ k] exI[of _ i]) (simp add: ps_object_table_get_free_fid_def bind_p_def)
qed

end

end
