(* ===== verification/PS_Set.thy ===== *)
theory PS_Set
  imports PS_Change
begin

text \<open>
  Protected Storage, \<open>tfm_ps_set\<close>: the new entry of the table, and the whole operation as an update of
  what is stored.
\<close>

section \<open>Entries\<close>

definition put_entry :: "nat \<Rightarrow> int \<Rightarrow> nat \<Rightarrow> byte list \<Rightarrow> ps_obj_table_t \<Rightarrow> ps_obj_table_t" where
  "put_entry uid client idx tag t =
     (let db = (case ps_get_object_entry_idx t uid client of None \<Rightarrow> tb_obj_db t | Some b \<Rightarrow> (tb_obj_db t)[b := zero_entry])
      in t\<lparr>tb_obj_db := db[idx := (db ! idx)\<lparr>te_uid := uid, te_client_id := client, te_tag := tag\<rparr>]\<rparr>)"

text \<open>The errors of a set request that does not come to store anything.\<close>

definition ps_set_refusal :: "('i, 'n, 'k, 'o, 'r) ps_env \<Rightarrow> (byte list \<times> 32 word) option \<Rightarrow> nat \<Rightarrow> nat \<Rightarrow> 32 word \<Rightarrow> psa_error option" where
  "ps_set_refusal env v uid sz cf =
     (if uid = 0 then Some PSA_ERROR_INVALID_ARGUMENT
      else if cf AND NOT (PSA_STORAGE_FLAG_WRITE_ONCE OR PSA_STORAGE_FLAG_NO_CONFIDENTIALITY OR PSA_STORAGE_FLAG_NO_REPLAY_PROTECTION) \<noteq> 0
      then Some PSA_ERROR_NOT_SUPPORTED
      else if sz > PS_MAX_ASSET_SIZE env then Some PSA_ERROR_INVALID_ARGUMENT
      else if write_once v then Some PSA_ERROR_NOT_PERMITTED else None)"

lemma zero_entry_simps [simp]: "te_uid zero_entry = 0" "entry_wf zero_entry"
  by (simp_all add: zero_entry_def entry_wf_def client_ok_def)

lemma put_entry_nth:
  assumes "idx < length (tb_obj_db t)" "j < length (tb_obj_db t)"
  shows "tb_obj_db (put_entry uid client idx tag t) ! j =
    (if j = idx then (if ps_get_object_entry_idx t uid client = Some idx then zero_entry else tb_obj_db t ! idx)\<lparr>te_uid := uid, te_client_id := client, te_tag := tag\<rparr>
     else if ps_get_object_entry_idx t uid client = Some j then zero_entry else tb_obj_db t ! j)"
  using assms by (auto simp: put_entry_def Let_def nth_list_update split: option.split)

lemma put_entry_length [simp]: "length (tb_obj_db (put_entry uid client idx tag t)) = length (tb_obj_db t)"
  by (simp add: put_entry_def Let_def split: option.split)

lemma put_entry_fields [simp]: "tb_crypto (put_entry uid client idx tag t) = tb_crypto t" "tb_version (put_entry uid client idx tag t) = tb_version t"
  "tb_pad (put_entry uid client idx tag t) = tb_pad t"
  by (simp_all add: put_entry_def Let_def)

lemma put_entry_wf:
  assumes "table_wf env t" "idx < length (tb_obj_db t)" "length tag = 16" "uid < 2 ^ 64" "client_ok client"
  shows "table_wf env (put_entry uid client idx tag t)"
proof -
  have e: "entry_wf (tb_obj_db t ! j)" if "j < length (tb_obj_db t)" for j using that assms(1) by (simp add: table_wf_def)
  have "entry_wf (tb_obj_db (put_entry uid client idx tag t) ! j)" if "j < length (tb_obj_db t)" for j
    using e[OF that] assms that by (auto simp: put_entry_nth entry_wf_def zero_entry_def client_ok_def)
  then show ?thesis using assms(1) by (auto simp: table_wf_def in_set_conv_nth)
qed

lemma put_entry_ok:
  assumes ok: "entries_ok t" and i: "idx < length (tb_obj_db t)" and z: "te_uid (tb_obj_db t ! idx) = 0" and u: "uid \<noteq> 0"
  shows "entries_ok (put_entry uid client idx tag t)"
proof -
  let ?n = "tb_obj_db (put_entry uid client idx tag t)" and ?o = "tb_obj_db t"
  let ?k = "\<lambda>e. (te_uid e, te_client_id e)"
  have key: "?k (?n ! j) = (if j = idx then (uid, client) else if ps_get_object_entry_idx t uid client = Some j then ?k zero_entry else ?k (?o ! j))"
    if "j < length ?o" for j using that i by (simp add: put_entry_nth)
  have other: "?k (?o ! j) \<noteq> (uid, client)" if "j < length ?o" "ps_get_object_entry_idx t uid client \<noteq> Some j" for j
    using that entry_idx_eqI[OF ok u that(1)] by auto
  have "l = j" if l: "l < length ?o" "j < length ?o" "te_uid (?n ! l) \<noteq> 0" "?k (?n ! l) = ?k (?n ! j)" for l j
    using l(3,4) ok l(1,2) other[OF l(1)] other[OF l(2)] u unfolding entries_ok_def key[OF l(1)] key[OF l(2)]
    by (auto simp: put_entry_nth i split: if_splits)
  then show ?thesis by (auto simp: entries_ok_def)
qed

lemma put_entry_lookup:
  assumes ok: "entries_ok t" and i: "idx < length (tb_obj_db t)" and z: "te_uid (tb_obj_db t ! idx) = 0" and u: "uid \<noteq> 0" "uid' \<noteq> 0"
  shows "ps_get_object_entry_idx (put_entry uid client idx tag t) uid' client' =
    (if uid' = uid \<and> client' = client then Some idx else ps_get_object_entry_idx t uid' client')"
proof -
  let ?p = "put_entry uid client idx tag t"
  note ok' = put_entry_ok[OF ok i z u(1), of client tag]
  show ?thesis
  proof (cases "uid' = uid \<and> client' = client")
    case True
    moreover have "ps_get_object_entry_idx ?p uid client = Some idx"
      using i by (intro entry_idx_eqI[OF ok' u(1)]) (simp_all add: put_entry_nth)
    ultimately show ?thesis by simp
  next
    case False
    show ?thesis
    proof (cases "ps_get_object_entry_idx t uid' client'")
      case None
      then have "ps_get_object_entry_idx ?p uid' client' = None"
        using False u i by (auto simp: entry_idx_None put_entry_nth zero_entry_def)
      then show ?thesis using False None by (simp only: if_False)
    next
      case (Some j)
      note j = entry_idx_Some[OF Some]
      have "j \<noteq> idx" "ps_get_object_entry_idx t uid client \<noteq> Some j" using j z u(2) False entry_idx_Some[of t uid client j] by auto
      then have "ps_get_object_entry_idx ?p uid' client' = Some j"
        using j i by (intro entry_idx_eqI[OF ok' u(2)]) (auto simp: put_entry_nth)
      then show ?thesis using False Some by (simp only: if_False)
    qed
  qed
qed

text \<open>The plain text of a new object.\<close>

definition new_plain :: "nat \<Rightarrow> 32 word \<Rightarrow> byte list \<Rightarrow> byte list" where
  "new_plain sz cf bs = info_bytes \<lparr>oi_current_size = sz, oi_max_size = sz, oi_create_flags = cf\<rparr> @ bs"

section \<open>The table takes an object\<close>

lemma obj_fid_idx [simp]: "PS_OBJECT_FS_ID_TO_IDX (PS_OBJECT_FS_ID i) = i"
  by (simp add: PS_OBJECT_FS_ID_TO_IDX_def PS_OBJECT_FS_ID_def PS_TABLE_FS_ID_def PS_OBJ_TABLE_IDX_1_def)

lemma obj_fid_inj [simp]: "PS_OBJECT_FS_ID i = PS_OBJECT_FS_ID j \<longleftrightarrow> i = j" "PS_OBJECT_FS_ID i \<noteq> 0"
  "a < 2 \<Longrightarrow> PS_OBJECT_FS_ID i \<noteq> PS_TABLE_FS_ID a" "a < 2 \<Longrightarrow> PS_TABLE_FS_ID a \<noteq> PS_OBJECT_FS_ID i"
  by (auto simp: PS_OBJECT_FS_ID_def PS_TABLE_FS_ID_def PS_OBJ_TABLE_IDX_1_def)

lemma delete_put: "set_entry idx ((tb_obj_db (obj_table u) ! idx)\<lparr>te_uid := uid, te_client_id := client, te_tag := tag\<rparr>) u
    = s\<lparr>obj_table := put_entry uid client idx tag (obj_table s)\<rparr>"
  if "u = (case ps_get_object_entry_idx (obj_table s) uid client of None \<Rightarrow> s | Some b \<Rightarrow> ps_table_delete_entry b s)"
  unfolding that by (simp add: set_entry_def ps_table_delete_entry_def put_entry_def Let_def split: option.split)

text \<open>After an error the entries of the old and of the new object are written again.\<close>

definition undo_entry :: "nat \<Rightarrow> int \<Rightarrow> nat \<Rightarrow> ps_obj_table_t \<Rightarrow> ps_obj_table_t \<Rightarrow> ps_obj_table_t" where
  "undo_entry uid client idx t u =
     (let db = (case ps_get_object_entry_idx t uid client of
                  None \<Rightarrow> tb_obj_db u | Some b \<Rightarrow> if te_uid (tb_obj_db t ! b) \<noteq> 0 then (tb_obj_db u)[b := tb_obj_db t ! b] else tb_obj_db u)
      in u\<lparr>tb_obj_db := db[idx := zero_entry]\<rparr>)"

lemma undo_entry_wf:
  assumes "table_wf env t" "table_wf env u"
  shows "table_wf env (undo_entry uid client idx t u)"
proof -
  have "entry_wf (tb_obj_db t ! b)" if "ps_get_object_entry_idx t uid client = Some b" for b
    using entry_idx_Some(1)[OF that] assms(1) by (simp add: table_wf_def)
  then show ?thesis using assms(2)
    by (auto simp: table_wf_def undo_entry_def Let_def split: option.split dest!: set_update_subset_insert[THEN subsetD] split: if_splits)
qed

context ps_storage
begin

lemma set_tbl_info_eq:
  assumes "g_obj_fid s = PS_OBJECT_FS_ID idx"
  shows "ps_object_table_set_obj_tbl_info env uid client s =
    (case ps_object_table_save_table env (s\<lparr>obj_table := put_entry uid client idx (cr_tag (ob_crypto (g_ps_object s))) (obj_table s)\<rparr>) of
       None \<Rightarrow> None
     | Some (Inr _, t) \<Rightarrow> Some (Inr (), t)
     | Some (Inl e, t) \<Rightarrow> Some (Inl e, t\<lparr>obj_table := undo_entry uid client idx (obj_table s) (obj_table t)\<rparr>))"
proof -
  define u where "u = (case ps_get_object_entry_idx (obj_table s) uid client of None \<Rightarrow> s | Some b \<Rightarrow> ps_table_delete_entry b s)"
  have g: "g_obj_fid u = PS_OBJECT_FS_ID idx" "g_ps_object u = g_ps_object s"
    using assms by (auto simp: u_def ps_table_delete_entry_def set_entry_def split: option.split)
  show ?thesis
    unfolding ps_object_table_set_obj_tbl_info_def Let_def u_def[symmetric] g obj_fid_idx delete_put[OF u_def]
    by (auto simp: bind_p_def try_p_def undo_entry_def Let_def modify_p_def set_entry_def ps_table_delete_entry_def TFM_PS_INVALID_UID_def split: option.split sum.split)
qed

lemma update_table_ok:
  assumes ok: "ifs_ok s" "ps_ram_ok env s" and idx: "g_obj_fid s = PS_OBJECT_FS_ID idx" "idx < length (tb_obj_db (obj_table s))"
    and k: "uid < 2 ^ 64" "client_ok client" and act: "fs s (PS_TABLE_FS_ID (active_table s)) \<noteq> None" "scratch_table s = 1 - active_table s"
  shows "\<exists>r t. ps_update_table env uid client s = Some (r, t) \<and> ifs_ok t \<and> ps_ram_ok env t \<and> g_ps_object t = g_ps_object s \<and> ps_req t = ps_req s \<and> g_obj_fid t = g_obj_fid s
    \<and> (r = Inr () \<longrightarrow> (\<exists>u. saved (s\<lparr>obj_table := put_entry uid client idx (cr_tag (ob_crypto (g_ps_object s))) (obj_table s)\<rparr>) u
          \<and> resealed (put_entry uid client idx (cr_tag (ob_crypto (g_ps_object s))) (obj_table s)) (obj_table t)
          \<and> fs t = (fs u)(PS_TABLE_FS_ID (active_table s) := None) \<and> obj_table t = obj_table u \<and> cnt t = cnt u
          \<and> active_table t = active_table u \<and> scratch_table t = scratch_table u))
    \<and> (\<forall>v. v \<noteq> g_obj_fid s \<and> v \<notin> {PS_TABLE_FS_ID 0, PS_TABLE_FS_ID 1} \<longrightarrow> fs t v = fs s v)
    \<and> (\<forall>e. r = Inl e \<and> ps_get_object_entry_idx (obj_table s) uid client = Some idx \<longrightarrow> tb_obj_db (obj_table t) = (tb_obj_db (obj_table s))[idx := zero_entry])"
proof -
  let ?s1 = "s\<lparr>obj_table := put_entry uid client idx (cr_tag (ob_crypto (g_ps_object s))) (obj_table s)\<rparr>"
  have io: "its_ok (ps_its s)" using ok(1) by (auto simp: ps_ifs_ok_def)
  have ram: "table_wf env (obj_table s)" "length (cr_tag (ob_crypto (g_ps_object s))) = 16" "active_table s < 2" "scratch_table s < 2"
    using ok(2) by (auto simp: ps_ram_ok_def ob_ok_def)
  have s1: "ifs_ok ?s1" "ps_ram_ok env ?s1" using ok put_entry_wf[OF ram(1) idx(2) ram(2) k] by (auto simp: ps_ifs_ok_def ps_ram_ok_def)
  have fid: "file_uid (g_obj_fid s)" using idx ram(1) object_uid[of idx] by (simp add: table_wf_def)
  have two: "PS_TABLE_FS_ID (scratch_table s) \<in> {PS_TABLE_FS_ID 0, PS_TABLE_FS_ID 1}" "PS_TABLE_FS_ID (active_table s) \<in> {PS_TABLE_FS_ID 0, PS_TABLE_FS_ID 1}"
    using ram(3,4) by (auto simp: less_2_cases_iff)
  obtain r u where u0: "ps_object_table_save_table env ?s1 = Some (r, u)" "save_frame ?s1 u" "case r of Inr _ \<Rightarrow> saved ?s1 u | Inl _ \<Rightarrow> not_saved ?s1 u"
    using save_table_ok[OF s1] by blast
  have u: "ps_object_table_save_table env ?s1 = Some (r, u)" "ifs_ok u" "ps_ram_ok env u" "g_ps_object u = g_ps_object s" "g_obj_fid u = g_obj_fid s"
    "ps_req u = ps_req s" "resealed (obj_table ?s1) (obj_table u)" "r = Inr () \<longrightarrow> saved ?s1 u"
    "r \<noteq> Inr () \<longrightarrow> fs u = fs s \<and> active_table u = active_table s \<and> scratch_table u = scratch_table s"
    using u0 by (auto simp: save_frame_def not_saved_def split: sum.splits)
  have iu: "its_ok (ps_its u)" using u(2) by (simp add: ps_ifs_ok_def)
  show ?thesis
  proof (cases r)
    case (Inr x)
    then have sv: "saved ?s1 u" using u(8) by simp
    then have d: "scratch_table u = active_table s" "fs u = (fs s)(PS_TABLE_FS_ID (scratch_table s) \<mapsto> table_bytes (obj_table u))" by (auto simp: saved_def table_written_def)
    have ex: "fs u (PS_TABLE_FS_ID (active_table s)) \<noteq> None" using act d(2) by simp
    obtain i where i: "psa_its_remove env (PS_TABLE_FS_ID (active_table s)) (ps_its u) = Some (Inr (), i)" "its_ok i" "files i = (fs u)(PS_TABLE_FS_ID (active_table s) := None)"
      using its.remove_file[OF iu table_uid[OF ram(3)]] ex by auto
    have "ps_update_table env uid client s = Some (Inr (), u\<lparr>ps_its := i\<rparr>)"
      using u(1) Inr i(1) d(1) by (simp add: ps_update_table_def set_tbl_info_eq[OF idx(1)] bind_p_def try_p_def ps_object_table_delete_old_table_def gets_p_def its_p_def)
    moreover have "fs (u\<lparr>ps_its := i\<rparr>) v = fs s v" if "v \<notin> {PS_TABLE_FS_ID 0, PS_TABLE_FS_ID 1}" for v using that two i(3) d(2) by auto
    ultimately show ?thesis using u sv i by (intro exI[of _ "Inr ()"] exI[of _ "u\<lparr>ps_its := i\<rparr>"]) (auto simp: ps_ifs_ok_def ps_ram_ok_def)
  next
    case (Inl e)
    let ?t = "u\<lparr>obj_table := undo_entry uid client idx (obj_table s) (obj_table u)\<rparr>"
    obtain q i where i: "psa_its_remove env (g_obj_fid s) (ps_its u) = Some (q, i)" "its_ok i" "files i = (fs u)(g_obj_fid s := None)"
      using its.remove_file[OF iu fid] by auto
    have "ps_update_table env uid client s = Some (Inl e, ?t\<lparr>ps_its := i\<rparr>)"
      using u(1,5) Inl i(1) by (simp add: ps_update_table_def set_tbl_info_eq[OF idx(1)] bind_p_def try_p_def gets_p_def its_p_def)
    moreover have "table_wf env (undo_entry uid client idx (obj_table s) (obj_table u))" using ram(1) u(3) undo_entry_wf by (auto simp: ps_ram_ok_def)
    moreover have "tb_obj_db (obj_table ?t) = (tb_obj_db (obj_table s))[idx := zero_entry]" if "ps_get_object_entry_idx (obj_table s) uid client = Some idx"
      using that resealedD(1)[OF u(7)] by (simp add: undo_entry_def put_entry_def Let_def)
    ultimately show ?thesis using u i Inl by (intro exI[of _ "Inl e"] exI[of _ "?t\<lparr>ps_its := i\<rparr>"]) (auto simp: ps_ifs_ok_def ps_ram_ok_def)
  qed
qed

section \<open>The new object\<close>

text \<open>The end of the change: the data is taken from the request, and the object stored under a free file id.\<close>

definition store_new :: "nat \<Rightarrow> nat \<Rightarrow> nat \<Rightarrow> ('i, 'n, 'k, 'r, nat) ps" where
  "store_new old_fid sz m =
     bind_p (ps_req_mngr_read_asset_data env 0 sz) (\<lambda>_.
     bind_p (ps_object_table_get_free_fid env m) (\<lambda>fd.
     bind_p (modify_p (\<lambda>s. upd_info (\<lambda>i. i\<lparr>oi_current_size := sz\<rparr>) (s\<lparr>g_obj_fid := fd\<rparr>))) (\<lambda>_.
     bind_p (store_changed env old_fid) (\<lambda>_. ret_p old_fid))))"

definition stored :: "nat \<Rightarrow> int \<Rightarrow> 32 word \<Rightarrow> byte list \<Rightarrow> ('i, 'n, 'k, 'r) ps_state \<Rightarrow> ('i, 'n, 'k, 'r) ps_state \<Rightarrow> bool" where
  "stored uid client cf bs s t \<longleftrightarrow> (\<exists>k f. k < length (tb_obj_db (obj_table s)) \<and> te_uid (tb_obj_db (obj_table s) ! k) = 0 \<and> g_obj_fid t = PS_OBJECT_FS_ID k
     \<and> fs t = (fs s)(PS_OBJECT_FS_ID k \<mapsto> f)
     \<and> dec (lei32 client @ le64 uid) (take 12 f) (le32 (PS_OBJECT_FS_ID k)) (drop 12 f @ cr_tag (ob_crypto (g_ps_object t))) = Some (new_plain (length bs) cf bs))"

definition obj_fid_ok :: "('i, 'n, 'k, 'r) ps_state \<Rightarrow> nat \<Rightarrow> bool" where
  "obj_fid_ok s fd \<longleftrightarrow> (\<exists>k < length (tb_obj_db (obj_table s)). fd = PS_OBJECT_FS_ID k)"

text \<open>What every part of a change keeps.\<close>

definition kept :: "('i, 'n, 'k, 'r) ps_state \<Rightarrow> ('i, 'n, 'k, 'r) ps_state \<Rightarrow> bool" where
  "kept s t \<longleftrightarrow> ifs_ok t \<and> ps_ram_ok env t \<and> obj_table t = obj_table s \<and> active_table t = active_table s \<and> scratch_table t = scratch_table s
     \<and> ps_nv t = ps_nv s \<and> written (ps_req t) = written (ps_req s) \<and> fs t (PS_TABLE_FS_ID 0) = fs s (PS_TABLE_FS_ID 0) \<and> fs t (PS_TABLE_FS_ID 1) = fs s (PS_TABLE_FS_ID 1)"

lemma keptI: "ifs_ok t \<Longrightarrow> ps_ram_ok env t \<Longrightarrow> obj_table t = obj_table s \<Longrightarrow> active_table t = active_table s \<Longrightarrow> scratch_table t = scratch_table s \<Longrightarrow>
    ps_nv t = ps_nv s \<Longrightarrow> written (ps_req t) = written (ps_req s) \<Longrightarrow> fs t = fs s \<or> (\<exists>k v. fs t = (fs s)(PS_OBJECT_FS_ID k := v)) \<Longrightarrow> kept s t"
  by (auto simp: kept_def)

lemma read_asset_ok:
  assumes "ifs_ok s" "ps_ram_ok env s" "sz \<le> PS_MAX_ASSET_SIZE env"
  defines "bs \<equiv> take sz (rest (ps_req s) 1)"
  shows "\<exists>q. ps_req_mngr_read_asset_data env 0 sz s = Some (if length bs \<noteq> sz then Inl PSA_ERROR_PROGRAMMER_ERROR else Inr (),
      s\<lparr>ps_req := q, g_ps_object := (g_ps_object s)\<lparr>ob_data := wr (ob_data (g_ps_object s)) 0 bs\<rparr>\<rparr>) \<and> req_ok q \<and> written q = written (ps_req s)
    \<and> ob_ok env ((g_ps_object s)\<lparr>ob_data := wr (ob_data (g_ps_object s)) 0 bs\<rparr>)"
proof -
  have "length bs \<le> sz" by (simp add: bs_def)
  then have "ob_ok env ((g_ps_object s)\<lparr>ob_data := wr (ob_data (g_ps_object s)) 0 bs\<rparr>)"
    using assms(2,3) by (simp add: ob_ok_def ps_ram_ok_def)
  then show ?thesis using rv.read_vec[of "ps_req s" 1 sz] assms(1,3) asset_fits
    by (auto simp: ps_req_mngr_read_asset_data_def bs_def ps_ifs_ok_def)
qed

lemma store_new_ok:
  assumes ok: "ifs_ok s" "ps_ram_ok env s" and sz: "sz \<le> PS_MAX_ASSET_SIZE env" and ob: "oi_max_size (ob_info (g_ps_object s)) = sz"
    "cr_uid (ob_crypto (g_ps_object s)) = uid" "cr_client_id (ob_crypto (g_ps_object s)) = client" and old: "old = 0 \<or> obj_fid_ok s old"
  shows "\<exists>r t. store_new old sz m s = Some (r, t) \<and> kept s t \<and> (g_obj_fid t = g_obj_fid s \<or> obj_fid_ok s (g_obj_fid t))
    \<and> (\<forall>x. r = Inr x \<longrightarrow> x = old \<and> sz \<le> length (rest (ps_req s) 1)
         \<and> stored uid client (oi_create_flags (ob_info (g_ps_object s))) (take sz (rest (ps_req s) 1)) s t)"
proof -
  define bs where "bs = take sz (rest (ps_req s) 1)"
  let ?ob = "(g_ps_object s)\<lparr>ob_data := wr (ob_data (g_ps_object s)) 0 bs\<rparr>"
  obtain q where q: "ps_req_mngr_read_asset_data env 0 sz s = Some (if length bs \<noteq> sz then Inl PSA_ERROR_PROGRAMMER_ERROR else Inr (), s\<lparr>ps_req := q, g_ps_object := ?ob\<rparr>)"
    "req_ok q" "written q = written (ps_req s)" "ob_ok env ?ob"
    using read_asset_ok[OF ok sz] by (auto simp: bs_def)
  let ?s1 = "s\<lparr>ps_req := q, g_ps_object := ?ob\<rparr>"
  have s1: "ifs_ok ?s1" "ps_ram_ok env ?s1" using ok q by (auto simp: ps_ifs_ok_def ps_ram_ok_def)
  show ?thesis
  proof (cases "length bs = sz")
    case False
    then have "store_new old sz m s = Some (Inl PSA_ERROR_PROGRAMMER_ERROR, ?s1)" using q(1) by (simp add: store_new_def bind_p_Inl)
    then show ?thesis using s1 q(3) by (intro exI[of _ "Inl PSA_ERROR_PROGRAMMER_ERROR"] exI[of _ ?s1]) (auto intro!: keptI)
  next
    case len: True
    have e1: "store_new old sz m s = bind_p (ps_object_table_get_free_fid env m) (\<lambda>fd.
       bind_p (modify_p (\<lambda>s. upd_info (\<lambda>i. i\<lparr>oi_current_size := sz\<rparr>) (s\<lparr>g_obj_fid := fd\<rparr>))) (\<lambda>_.
       bind_p (store_changed env old) (\<lambda>_. ret_p old))) ?s1" using q(1) len by (simp add: store_new_def bind_p_Inr)
    consider e where "ps_object_table_get_free_fid env m ?s1 = Some (Inl e, ?s1)"
      | k i where "ps_table_free_idx (obj_table s) m = Inr k" "ps_object_table_get_free_fid env m ?s1 = Some (Inr (PS_OBJECT_FS_ID k), ?s1\<lparr>ps_its := i\<rparr>)"
        "its_ok i" "files i = (fs s)(PS_OBJECT_FS_ID k := None)" using get_free_fid_ok[OF s1, of m] by auto
    then show ?thesis
    proof cases
      case 1
      then have "store_new old sz m s = Some (Inl e, ?s1)" by (simp add: e1 bind_p_Inl)
      then show ?thesis using s1 q(3) by (intro exI[of _ "Inl e"] exI[of _ ?s1]) (auto intro!: keptI)
    next
      case 2
      note k = ps_table_free_idx_ok[OF 2(1)]
      define ob2 where "ob2 = ?ob\<lparr>ob_info := (ob_info (g_ps_object s))\<lparr>oi_current_size := sz\<rparr>\<rparr>"
      let ?s2 = "s\<lparr>ps_req := q, ps_its := i, g_obj_fid := PS_OBJECT_FS_ID k, g_ps_object := ob2\<rparr>"
      have e2: "store_new old sz m s = bind_p (store_changed env old) (\<lambda>_. ret_p old) ?s2"
        using 2(2) by (simp add: e1 bind_p_Inr upd_info_def ob2_def)
      have ob2: "ob_ok env ob2" "oi_current_size (ob_info ob2) = sz" "ob_crypto ob2 = ob_crypto (g_ps_object s)" using q(4) by (auto simp: ob2_def ob_ok_def)
      have s2: "ifs_ok ?s2" "ps_ram_ok env ?s2" using s1 2(3) ob2(1) by (auto simp: ps_ifs_ok_def ps_ram_ok_def)
      have kn: "k < PS_OBJ_TABLE_ENTRIES env" using k(1) ok(2) by (simp add: ps_ram_ok_def table_wf_def)
      have fl: "fill_key_label (ob_crypto ob2) = lei32 client @ le64 uid" using ob by (simp add: ob2(3) fill_key_label_def)
      have "take (12 + sz) (obj_body ob2) = info_bytes (ob_info ob2) @ bs" using len by (simp add: obj_body_def ob2_def wr_def)
      moreover have "ob_info ob2 = \<lparr>oi_current_size = sz, oi_max_size = sz, oi_create_flags = oi_create_flags (ob_info (g_ps_object s))\<rparr>" using ob(1) by (simp add: ob2_def)
      ultimately have body: "take (12 + sz) (obj_body ob2) = new_plain sz (oi_create_flags (ob_info (g_ps_object s))) bs" by (simp add: new_plain_def)
      have g2: "g_ps_object ?s2 = ob2" "ps_its ?s2 = i" by simp_all
      obtain r ob3 i3 k3 b3 where w: "ps_encrypted_object_write env (PS_OBJECT_FS_ID k) ?s2 = Some (r, ?s2\<lparr>g_ps_object := ob3, ps_its := i3, ps_keys := k3, ps_crypto_iv_buf := b3\<rparr>)"
        "its_ok i3" "keys_ok k3" "length b3 = 12" "ob_ok env ob3" "r \<noteq> Inr () \<longrightarrow> files i3 = files i"
        "r = Inr () \<longrightarrow> (\<exists>f. files i3 = (files i)(PS_OBJECT_FS_ID k \<mapsto> f) \<and> 12 \<le> length f
            \<and> dec (lei32 client @ le64 uid) (take 12 f) (le32 (PS_OBJECT_FS_ID k)) (drop 12 f @ cr_tag (ob_crypto ob3)) = Some (new_plain sz (oi_create_flags (ob_info (g_ps_object s))) bs))"
        using encrypted_write[OF s2 object_uid[OF kn], unfolded g2 ob2(2) fl body, OF sz] by blast
      let ?s3 = "?s2\<lparr>g_ps_object := ob3, ps_its := i3, ps_keys := k3, ps_crypto_iv_buf := b3\<rparr>"
      have s3: "ifs_ok ?s3" "ps_ram_ok env ?s3" using s2 w by (auto simp: ps_ifs_ok_def ps_ram_ok_def)
      show ?thesis
      proof (cases r)
        case (Inl e)
        let ?t = "if old \<noteq> 0 then ?s3\<lparr>g_obj_fid := old\<rparr> else ?s3"
        have "store_new old sz m s = Some (Inl e, ?t)"
          using w(1) Inl by (simp add: e2 store_changed_def ps_store_object_def bind_p_def try_p_def gets_p_def PS_INVALID_FID_def)
        moreover have "kept s ?t" using s3 Inl w(6) 2(4) q(3) by (intro keptI) (auto simp: ps_ifs_ok_def ps_ram_ok_def)
        moreover have "obj_fid_ok s (g_obj_fid ?t)" using old k(1) by (auto simp: obj_fid_ok_def)
        ultimately show ?thesis by (intro exI[of _ "Inl e"] exI[of _ ?t]) simp
      next
        case (Inr x)
        then obtain f where f: "files i3 = (files i)(PS_OBJECT_FS_ID k \<mapsto> f)"
          "dec (lei32 client @ le64 uid) (take 12 f) (le32 (PS_OBJECT_FS_ID k)) (drop 12 f @ cr_tag (ob_crypto ob3)) = Some (new_plain sz (oi_create_flags (ob_info (g_ps_object s))) bs)"
          using w(7) by auto
        have "store_new old sz m s = Some (Inr old, ?s3)"
          using w(1) Inr by (simp add: e2 store_changed_def ps_store_object_def bind_p_def try_p_def gets_p_def)
        moreover have ff: "fs ?s3 = (fs s)(PS_OBJECT_FS_ID k \<mapsto> f)" using f(1) 2(4) by simp
        moreover have "kept s ?s3" using s3 ff q(3) by (intro keptI) auto
        moreover have "stored uid client (oi_create_flags (ob_info (g_ps_object s))) bs s ?s3"
          unfolding stored_def using k ff f(2) len by (intro exI[of _ k] exI[of _ f]) simp
        moreover have "obj_fid_ok s (g_obj_fid ?s3)" using k(1) by (auto simp: obj_fid_ok_def)
        moreover have "sz \<le> length (rest (ps_req s) 1)" using len by (simp add: bs_def)
        ultimately show ?thesis unfolding bs_def[symmetric] by (intro exI[of _ "Inr old"] exI[of _ ?s3]) simp
      qed
    qed
  qed
qed

section \<open>The operation\<close>

lemma create_change_eq: "create_change env uid client cf sz ex =
    bind_p (if ex then
              bind_p (read_object_of env uid client) (\<lambda>_.
              bind_p (gets_p g_ps_object) (\<lambda>ob.
              if oi_create_flags (ob_info ob) AND PSA_STORAGE_FLAG_WRITE_ONCE \<noteq> 0 then raise_p PSA_ERROR_NOT_PERMITTED
              else bind_p (modify_p (upd_info (\<lambda>i. i\<lparr>oi_create_flags := cf, oi_max_size := sz\<rparr>))) (\<lambda>_. gets_p g_obj_fid)))
            else bind_p (modify_p (\<lambda>s. s\<lparr>g_ps_object := ps_init_empty_object env uid client cf sz\<rparr>)) (\<lambda>_. ret_p PS_INVALID_FID))
      (\<lambda>old. store_new old sz (if ex then 1 else 2))"
  by (simp add: create_change_def store_new_def)

lemma kept_trans: "kept s t \<Longrightarrow> kept t u \<Longrightarrow> kept s u"
  by (simp add: kept_def)

lemma stored_cong: "obj_table s' = obj_table s \<Longrightarrow> fs s' = fs s \<Longrightarrow> stored uid client cf bs s' t = stored uid client cf bs s t"
  by (simp add: stored_def)

lemma init_object_ok [simp]: "ob_ok env (ps_init_empty_object env uid client cf sz)"
  by (simp add: ob_ok_def ps_init_empty_object_def zero_object_def zero_crypto_def PS_TAG_LEN_BYTES_def)

lemma get_tbl_info_status:
  assumes "ps_object_table_get_obj_tbl_info uid client s = Some (r, t)"
  shows "r = Inr () \<or> r = Inl PSA_ERROR_DOES_NOT_EXIST"
  using assms by (auto simp: ps_object_table_get_obj_tbl_info_def Let_def split: option.splits)

lemma create_change_ok:
  assumes ok: "ifs_ok s" "ps_ram_ok env s" "objects_ok env dec (fs s) (obj_table s)" and u: "uid \<noteq> 0" and sz: "sz \<le> PS_MAX_ASSET_SIZE env"
    and b_def: "b = ps_get_object_entry_idx (obj_table s) uid client"
  shows "\<exists>r0 s1 r t. ps_object_table_get_obj_tbl_info uid client s = Some (r0, s1) \<and> (r0 = Inr () \<longleftrightarrow> b \<noteq> None)
    \<and> create_change env uid client cf sz (r0 = Inr ()) s1 = Some (r, t) \<and> kept s t \<and> (b \<noteq> None \<longrightarrow> obj_fid_ok s (g_obj_fid t))
    \<and> (\<forall>x. r = Inr x \<longrightarrow> x = (case b of None \<Rightarrow> 0 | Some j \<Rightarrow> PS_OBJECT_FS_ID j) \<and> sz \<le> length (rest (ps_req s) 1)
         \<and> stored uid client cf (take sz (rest (ps_req s) 1)) s t \<and> \<not> write_once (ps_store dec (fs s) (obj_table s) client uid))
    \<and> (write_once (ps_store dec (fs s) (obj_table s) client uid) \<longrightarrow> r = Inl PSA_ERROR_NOT_PERMITTED \<and> (\<exists>j. b = Some j \<and> g_obj_fid t = PS_OBJECT_FS_ID j \<and> fs t = fs s))"
proof (cases b)
  case None
  let ?s1 = "s\<lparr>g_ps_object := ps_init_empty_object env uid client cf sz\<rparr>"
  have g: "ps_object_table_get_obj_tbl_info uid client s = Some (Inl PSA_ERROR_DOES_NOT_EXIST, s)"
    using None by (simp add: ps_object_table_get_obj_tbl_info_def b_def)
  have s1: "ifs_ok ?s1" "ps_ram_ok env ?s1" using ok by (auto simp: ps_ifs_ok_def ps_ram_ok_def)
  obtain r t where r: "store_new 0 sz 2 ?s1 = Some (r, t)" "kept ?s1 t"
    "\<forall>x. r = Inr x \<longrightarrow> x = 0 \<and> sz \<le> length (rest (ps_req s) 1) \<and> stored uid client cf (take sz (rest (ps_req s) 1)) ?s1 t"
    using store_new_ok[OF s1 sz, of uid client 0 2] by (auto simp: ps_init_empty_object_def zero_crypto_def)
  have "kept s ?s1" using s1 by (intro keptI) auto
  moreover have "create_change env uid client cf sz False s = Some (r, t)" using r(1) by (simp add: create_change_eq PS_INVALID_FID_def bind_p_def modify_p_def ret_p_def)
  moreover have "stored uid client cf bs ?s1 t = stored uid client cf bs s t" for bs by (rule stored_cong) simp_all
  moreover have "kept s t" using kept_trans[OF calculation(1) r(2)] .
  moreover have "\<not> write_once (ps_store dec (fs s) (obj_table s) client uid)" using None by (simp add: write_once_def ps_store_def b_def)
  ultimately show ?thesis using g r(3) None
    by (intro exI[of _ "Inl PSA_ERROR_DOES_NOT_EXIST"] exI[of _ s] exI[of _ r] exI[of _ t]) simp
next
  case (Some j)
  then have j: "ps_get_object_entry_idx (obj_table s) uid client = Some j" by (simp add: b_def)
  obtain ob it k pt s1 where r: "ps_object_table_get_obj_tbl_info uid client s = Some (Inr (), s1)"
    "read_object_of env uid client s1 = Some (Inr (), s\<lparr>g_obj_fid := PS_OBJECT_FS_ID j, g_ps_object := ob, ps_its := it, ps_keys := k\<rparr>)"
    "its_ok it" "files it = fs s" "keys_ok k" "ob_ok env ob" "cr_uid (ob_crypto ob) = uid" "cr_client_id (ob_crypto ob) = client"
    "obj_plain dec (fs s) (obj_table s) j = Some pt" "ob_info ob = bytes_info pt"
    using read_existing[OF ok j u] by metis
  let ?s2 = "s\<lparr>g_obj_fid := PS_OBJECT_FS_ID j, g_ps_object := ob, ps_its := it, ps_keys := k\<rparr>"
  have s2: "ifs_ok ?s2" "ps_ram_ok env ?s2" using ok r by (auto simp: ps_ifs_ok_def ps_ram_ok_def)
  have fj: "obj_fid_ok s (PS_OBJECT_FS_ID j)" using entry_idx_Some(1)[OF j] by (auto simp: obj_fid_ok_def)
  have st: "ps_store dec (fs s) (obj_table s) client uid = Some (drop 12 pt, oi_create_flags (bytes_info pt))" by (simp add: ps_store_def j r(9))
  show ?thesis
  proof (cases "oi_create_flags (ob_info ob) AND PSA_STORAGE_FLAG_WRITE_ONCE = 0")
    case False
    then have "create_change env uid client cf sz True s1 = Some (Inl PSA_ERROR_NOT_PERMITTED, ?s2)"
      using r(2) by (simp add: create_change_eq bind_p_def gets_p_def)
    moreover have "kept s ?s2" using s2 r(4) by (intro keptI) auto
    ultimately show ?thesis using r(1,4) fj Some by (intro exI[of _ "Inr ()"] exI[of _ s1] exI[of _ "Inl PSA_ERROR_NOT_PERMITTED"] exI[of _ ?s2]) simp
  next
    case True
    let ?ob = "ob\<lparr>ob_info := (ob_info ob)\<lparr>oi_create_flags := cf, oi_max_size := sz\<rparr>\<rparr>"
    let ?s3 = "s\<lparr>g_obj_fid := PS_OBJECT_FS_ID j, ps_its := it, ps_keys := k, g_ps_object := ?ob\<rparr>"
    have s3: "ifs_ok ?s3" "ps_ram_ok env ?s3" using s2 by (auto simp: ps_ifs_ok_def ps_ram_ok_def ob_ok_def)
    have oldj: "PS_OBJECT_FS_ID j = 0 \<or> obj_fid_ok ?s3 (PS_OBJECT_FS_ID j)" using fj by (simp add: obj_fid_ok_def)
    obtain q t where q: "store_new (PS_OBJECT_FS_ID j) sz 1 ?s3 = Some (q, t)" "kept ?s3 t" "g_obj_fid t = PS_OBJECT_FS_ID j \<or> obj_fid_ok ?s3 (g_obj_fid t)"
      "\<forall>x. q = Inr x \<longrightarrow> x = PS_OBJECT_FS_ID j \<and> sz \<le> length (rest (ps_req s) 1) \<and> stored uid client cf (take sz (rest (ps_req s) 1)) ?s3 t"
      using store_new_ok[OF s3 sz _ _ _ oldj, of uid client 1] r(7,8) by auto
    have "kept s ?s3" using s3 r(4) by (intro keptI) auto
    moreover have "create_change env uid client cf sz True s1 = Some (q, t)"
      using q(1) r(2) True by (simp add: create_change_eq bind_p_def gets_p_def upd_info_def modify_p_def)
    moreover have "stored uid client cf bs ?s3 t = stored uid client cf bs s t" for bs using r(4) by (intro stored_cong) simp_all
    moreover have "obj_fid_ok s (g_obj_fid t)" using q(3) fj by (auto simp: obj_fid_ok_def)
    moreover have "\<not> write_once (ps_store dec (fs s) (obj_table s) client uid)" using st True r(10) by (simp add: write_once_def)
    moreover have "kept s t" using kept_trans[OF calculation(1) q(2)] .
    ultimately show ?thesis using r(1) q(4) Some
      by (intro exI[of _ "Inr ()"] exI[of _ s1] exI[of _ q] exI[of _ t]) simp
  qed
qed

end

lemma same_db:
  assumes "tb_obj_db u = tb_obj_db t"
  shows "ps_get_object_entry_idx u = ps_get_object_entry_idx t" "entries_ok u = entries_ok t" "obj_plain dec F u = obj_plain dec F t"
    "ps_store dec F u = ps_store dec F t" "objects_ok env dec F u = objects_ok env dec F t"
  by (rule ext)+ (simp_all only: ps_get_object_entry_idx_def entries_ok_def obj_plain_def ps_store_def objects_ok_def assms fun_eq_iff simp_thms)

lemma new_plain_info:
  assumes "length bs < SIZE_MAX_P1"
  shows "bytes_info (new_plain (length bs) cf bs) = \<lparr>oi_current_size = length bs, oi_max_size = length bs, oi_create_flags = cf\<rparr>" "drop 12 (new_plain (length bs) cf bs) = bs"
    "length (new_plain (length bs) cf bs) = length bs + 12"
  using assms by (simp_all add: new_plain_def info_wf_def)

text \<open>The contents after an entry has been put for a new file.\<close>

lemma put_store:
  assumes ok: "entries_ok t" "objects_ok env dec F t" and k: "k < length (tb_obj_db t)" "te_uid (tb_obj_db t ! k) = 0" and u: "uid \<noteq> 0"
    and f: "F' (PS_OBJECT_FS_ID k) = Some f" "dec (lei32 client @ le64 uid) (take 12 f) (le32 (PS_OBJECT_FS_ID k)) (drop 12 f @ tag) = Some (new_plain (length bs) cf bs)"
    and other: "\<forall>i. i \<noteq> k \<and> ps_get_object_entry_idx t uid client \<noteq> Some i \<longrightarrow> F' (PS_OBJECT_FS_ID i) = F (PS_OBJECT_FS_ID i)"
    and len: "length bs \<le> PS_MAX_ASSET_SIZE env" "PS_MAX_ASSET_SIZE env < SIZE_MAX_P1"
  defines "p \<equiv> put_entry uid client k tag t"
  shows "objects_ok env dec F' p" "entries_ok p"
    "\<forall>client' uid'. uid' \<noteq> 0 \<longrightarrow> ps_store dec F' p client' uid' = (if client' = client \<and> uid' = uid then Some (bs, cf) else ps_store dec F t client' uid')"
proof -
  have l: "length bs < SIZE_MAX_P1" using len by simp
  note np = new_plain_info[OF l, of cf]
  have bk: "ps_get_object_entry_idx t uid client \<noteq> Some k" using entry_idx_Some(2)[of t uid client k] k(2) u by auto
  have new: "obj_plain dec F' p k = Some (new_plain (length bs) cf bs)"
    using f k(1) bk by (simp add: obj_plain_def p_def put_entry_nth)
  have old: "obj_plain dec F' p i = obj_plain dec F t i" if "i < length (tb_obj_db t)" "i \<noteq> k" "ps_get_object_entry_idx t uid client \<noteq> Some i" for i
    using that other k(1) by (simp add: obj_plain_def p_def put_entry_nth Let_def split: option.split)
  have pok: "plain_ok env (new_plain (length bs) cf bs)" using np len by (simp add: plain_ok_def)
  show "objects_ok env dec F' p" unfolding objects_ok_def
  proof (intro allI impI)
    fix i assume i: "i < length (tb_obj_db p)" "te_uid (tb_obj_db p ! i) \<noteq> 0"
    show "\<exists>pt. obj_plain dec F' p i = Some pt \<and> plain_ok env pt"
    proof (cases "i = k")
      case True
      then show ?thesis using new pok by simp
    next
      case False
      then have b: "ps_get_object_entry_idx t uid client \<noteq> Some i" "te_uid (tb_obj_db t ! i) \<noteq> 0" using i k(1) by (auto simp: p_def put_entry_nth split: if_splits)
      then show ?thesis using old[of i] i(1) False ok(2) by (simp add: p_def objects_ok_def)
    qed
  qed
  show "entries_ok p" unfolding p_def by (rule put_entry_ok[OF ok(1) k u])
  show "\<forall>client' uid'. uid' \<noteq> 0 \<longrightarrow> ps_store dec F' p client' uid' = (if client' = client \<and> uid' = uid then Some (bs, cf) else ps_store dec F t client' uid')"
  proof (intro allI impI)
    fix client' uid' assume u': "uid' \<noteq> (0 :: nat)"
    note lk = put_entry_lookup[OF ok(1) k u u', of client tag client', folded p_def]
    show "ps_store dec F' p client' uid' = (if client' = client \<and> uid' = uid then Some (bs, cf) else ps_store dec F t client' uid')"
    proof (cases "client' = client \<and> uid' = uid")
      case True
      then show ?thesis using lk new np by (simp add: ps_store_def)
    next
      case False
      have "obj_plain dec F' p i = obj_plain dec F t i" if i: "ps_get_object_entry_idx t uid' client' = Some i" for i
        using entry_idx_Some[OF i] entry_idx_Some[of t uid client i] k(2) u' False by (intro old) auto
      then show ?thesis using lk False by (auto simp: ps_store_def split: option.split)
    qed
  qed
qed

context ps_storage
begin

text \<open>
  \<open>tfm_ps_set\<close> returns; when it reports success, the client's asset is the data and flags of the request,
  every other asset is as before, and the storage is consistent.
\<close>

lemma create_ok:
  assumes ok: "ifs_ok s" and inv: "ps_inv env dec (fs s) (cnt s) s" and u: "uid \<noteq> 0" "uid < 2 ^ 64" and cl: "client_ok client"
  shows "\<exists>r t. ps_object_create env uid client cf sz s = Some (r, t) \<and> ifs_ok t \<and> ps_ram_ok env t \<and> written (ps_req t) = written (ps_req s)
    \<and> (sz > PS_MAX_ASSET_SIZE env \<longrightarrow> r = Inl PSA_ERROR_INVALID_ARGUMENT \<and> t = s)
    \<and> (sz \<le> PS_MAX_ASSET_SIZE env \<and> write_once (ps_store dec (fs s) (obj_table s) client uid) \<longrightarrow> r = Inl PSA_ERROR_NOT_PERMITTED)
    \<and> (r = Inr () \<longrightarrow> sz \<le> length (rest (ps_req s) 1) \<and> ps_inv env dec (fs t) (cnt t) t \<and> \<not> write_once (ps_store dec (fs s) (obj_table s) client uid)
        \<and> (\<forall>client' uid'. uid' \<noteq> 0 \<longrightarrow> ps_store dec (fs t) (obj_table t) client' uid'
            = (if client' = client \<and> uid' = uid then Some (take sz (rest (ps_req s) 1), cf) else ps_store dec (fs s) (obj_table s) client' uid')))"
proof (cases "sz > PS_MAX_ASSET_SIZE env")
  case True
  then show ?thesis using ok inv by (auto simp: ps_object_create_def ps_inv_def)
next
  case False
  then have sz: "sz \<le> PS_MAX_ASSET_SIZE env" by simp
  have ram: "ps_ram_ok env s" "objects_ok env dec (fs s) (obj_table s)" "entries_ok (obj_table s)" "scratch_table s = 1 - active_table s" "active_table s < 2"
    "fs s (PS_TABLE_FS_ID (active_table s)) = Some (table_bytes (obj_table s))" "table_valid env dec (obj_table s) (cnt s 0)" "cnt s 1 = cnt s 0" "cnt s 2 = cnt s 0"
    using inv by (auto simp: ps_inv_def ps_ram_ok_def)
  define b where "b = ps_get_object_entry_idx (obj_table s) uid client"
  obtain r0 s1 r t where r: "ps_object_table_get_obj_tbl_info uid client s = Some (r0, s1)" "r0 = Inr () \<longleftrightarrow> b \<noteq> None"
    "create_change env uid client cf sz (r0 = Inr ()) s1 = Some (r, t)" "kept s t" "b \<noteq> None \<longrightarrow> obj_fid_ok s (g_obj_fid t)"
    "\<forall>x. r = Inr x \<longrightarrow> x = (case b of None \<Rightarrow> 0 | Some j \<Rightarrow> PS_OBJECT_FS_ID j) \<and> sz \<le> length (rest (ps_req s) 1)
         \<and> stored uid client cf (take sz (rest (ps_req s) 1)) s t \<and> \<not> write_once (ps_store dec (fs s) (obj_table s) client uid)"
    "write_once (ps_store dec (fs s) (obj_table s) client uid) \<longrightarrow> r = Inl PSA_ERROR_NOT_PERMITTED"
    using create_change_ok[OF ok ram(1,2) u(1) sz b_def, of cf] by blast
  have t: "ifs_ok t" "ps_ram_ok env t" "obj_table t = obj_table s" "active_table t = active_table s" "scratch_table t = scratch_table s" "cnt t = cnt s"
    "written (ps_req t) = written (ps_req s)" "fs t (PS_TABLE_FS_ID (active_table s)) \<noteq> None"
    using r(4) ram(5,6) by (auto simp: kept_def less_2_cases_iff)
  have run: "ps_object_create env uid client cf sz s = finish_object env (\<lambda>_. conclude_change env uid client (b \<noteq> None) r t) s1"
    using r(1-3) sz get_tbl_info_status[OF r(1)]
    by (auto simp: ps_object_create_def bind_p_try[of "ps_object_table_get_obj_tbl_info uid client"] finish_object_def bind_p_try)
  have tok: "fs t (PS_TABLE_FS_ID (active_table t)) \<noteq> None" "scratch_table t = 1 - active_table t" using t ram(4) by auto
  have up: "\<exists>q v. ps_update_table env uid client t = Some (q, v) \<and> ifs_ok v \<and> ps_ram_ok env v \<and> ps_req v = ps_req t
      \<and> (q = Inr () \<longrightarrow> (\<exists>w. saved (t\<lparr>obj_table := put_entry uid client j (cr_tag (ob_crypto (g_ps_object t))) (obj_table t)\<rparr>) w
          \<and> resealed (put_entry uid client j (cr_tag (ob_crypto (g_ps_object t))) (obj_table t)) (obj_table v)
          \<and> fs v = (fs w)(PS_TABLE_FS_ID (active_table s) := None) \<and> obj_table v = obj_table w \<and> cnt v = cnt w
          \<and> active_table v = active_table w \<and> scratch_table v = scratch_table w))"
    if j: "g_obj_fid t = PS_OBJECT_FS_ID j" "j < length (tb_obj_db (obj_table s))" for j
    using update_table_ok[OF t(1,2) j(1) _ u(2) cl tok] j(2) unfolding t(3,4) by blast
  show ?thesis
  proof (cases r)
    case (Inl e)
    show ?thesis
    proof (cases b)
      case None
      then have "ps_object_create env uid client cf sz s = Some (Inl e, clear_object env t)" using Inl by (simp add: run conclude_change_def finish_object_def)
      then show ?thesis using t(1,2,7) sz r(7) Inl by (auto simp: clear_object_def ps_ifs_ok_def ps_ram_ok_def)
    next
      case (Some x)
      then obtain j where j: "g_obj_fid t = PS_OBJECT_FS_ID j" "j < length (tb_obj_db (obj_table s))" using r(5) by (auto simp: obj_fid_ok_def)
      obtain q v where v: "ps_update_table env uid client t = Some (q, v)" "ifs_ok v" "ps_ram_ok env v" "ps_req v = ps_req t" using up[OF j] by blast
      have "ps_object_create env uid client cf sz s = Some (Inl e, clear_object env v)"
        using Inl v(1) Some by (simp add: run conclude_change_def finish_object_def bind_p_try)
      then show ?thesis using v t(7) sz r(7) Inl by (auto simp: clear_object_def ps_ifs_ok_def ps_ram_ok_def)
    qed
  next
    case (Inr old)
    define bs where "bs = take sz (rest (ps_req s) 1)"
    have o: "old = (case b of None \<Rightarrow> 0 | Some j \<Rightarrow> PS_OBJECT_FS_ID j)" and n: "sz \<le> length (rest (ps_req s) 1)" and sto: "stored uid client cf bs s t"
      and wo: "\<not> write_once (ps_store dec (fs s) (obj_table s) client uid)" using r(6) Inr by (auto simp: bs_def)
    obtain k f where k: "k < length (tb_obj_db (obj_table s))" "te_uid (tb_obj_db (obj_table s) ! k) = 0" "g_obj_fid t = PS_OBJECT_FS_ID k" "fs t = (fs s)(PS_OBJECT_FS_ID k \<mapsto> f)"
      "dec (lei32 client @ le64 uid) (take 12 f) (le32 (PS_OBJECT_FS_ID k)) (drop 12 f @ cr_tag (ob_crypto (g_ps_object t))) = Some (new_plain (length bs) cf bs)"
      using sto by (auto simp: stored_def)
    let ?p = "put_entry uid client k (cr_tag (ob_crypto (g_ps_object t))) (obj_table s)"
    obtain q v where v: "ps_update_table env uid client t = Some (q, v)" "ifs_ok v" "ps_ram_ok env v" "ps_req v = ps_req t"
      "q = Inr () \<longrightarrow> (\<exists>w. saved (t\<lparr>obj_table := ?p\<rparr>) w \<and> resealed ?p (obj_table v)
          \<and> fs v = (fs w)(PS_TABLE_FS_ID (active_table s) := None) \<and> obj_table v = obj_table w \<and> cnt v = cnt w
          \<and> active_table v = active_table w \<and> scratch_table v = scratch_table w)" using up[OF k(3,1)] unfolding t(3) by blast
    show ?thesis
    proof (cases q)
      case (Inl e)
      then have "ps_object_create env uid client cf sz s = Some (Inl e, clear_object env v)"
        using v(1) \<open>r = Inr old\<close> by (simp add: run conclude_change_def finish_object_def bind_p_Inl)
      then show ?thesis using v t(7) sz wo by (auto simp: clear_object_def ps_ifs_ok_def ps_ram_ok_def)
    next
      case q: (Inr x)
      then obtain w where w: "saved (t\<lparr>obj_table := ?p\<rparr>) w" "resealed ?p (obj_table v)" "fs v = (fs w)(PS_TABLE_FS_ID (active_table s) := None)"
        "obj_table v = obj_table w" "cnt v = cnt w" "active_table v = active_table w" "scratch_table v = scratch_table w" using v(5) by auto
      have sv: "active_table v = scratch_table s" "scratch_table v = active_table s" "cnt v 0 = cnt s 0 + 1" "cnt v 1 = cnt v 0" "cnt v 2 = cnt v 0"
        "fs w = (fs t)(PS_TABLE_FS_ID (scratch_table s) \<mapsto> table_bytes (obj_table v))"
        "dec (fill_key_label (tb_crypto (obj_table v))) (cr_iv (tb_crypto (obj_table v))) (assoc_data (obj_table v) (cnt v 0)) (cr_tag (tb_crypto (obj_table v))) = Some []"
        using w(1) w(4-7) t ram(8,9) by (auto simp: saved_def table_written_def)
      have fv: "fs v = (fs s)(PS_OBJECT_FS_ID k \<mapsto> f, PS_TABLE_FS_ID (scratch_table s) \<mapsto> table_bytes (obj_table v), PS_TABLE_FS_ID (active_table s) := None)"
        using w(3) sv(6) k(4) by simp
      obtain y where y: "conclude_change env uid client (b \<noteq> None) (Inr old) t = Some (Inr (), y)" "ifs_ok y" "ps_ram_ok env y" "written (ps_req y) = written (ps_req s)"
        "obj_table y = obj_table v" "active_table y = active_table v" "scratch_table y = scratch_table v" "cnt y = cnt v"
        "fs y = (case b of None \<Rightarrow> fs v | Some j \<Rightarrow> (fs v)(PS_OBJECT_FS_ID j := None))"
      proof (cases b)
        case None
        then have "conclude_change env uid client (b \<noteq> None) (Inr old) t = Some (Inr (), v)"
          using v(1) q o by (simp add: conclude_change_def bind_p_Inr PS_INVALID_FID_def)
        then show ?thesis using that[of v] v t(7) None by simp
      next
        case (Some j)
        note ej = entry_idx_Some[OF Some[unfolded b_def]]
        obtain pt where pt: "obj_plain dec (fs s) (obj_table s) j = Some pt" using ram(2) ej u(1) by (auto simp: objects_ok_def)
        then have ex: "fs v (PS_OBJECT_FS_ID j) \<noteq> None"
          using ram(4,5) by (auto simp: fv obj_plain_def less_2_cases_iff split: option.splits)
        have fu: "file_uid old" using object_uid[of j] ej(1) ram(1) Some o by (simp add: ps_ram_ok_def table_wf_def)
        obtain i where i: "psa_its_remove env old (ps_its v) = Some (Inr (), i)" "its_ok i" "files i = (fs v)(old := None)"
          using its.remove_file[OF _ fu, of "ps_its v"] v(2) ex o Some by (auto simp: ps_ifs_ok_def)
        have "conclude_change env uid client (b \<noteq> None) (Inr old) t = Some (Inr (), v\<lparr>ps_its := i\<rparr>)"
          using v(1) q o Some i(1) by (simp add: conclude_change_def bind_p_Inr PS_INVALID_FID_def its_p_def)
        then show ?thesis using that[of "v\<lparr>ps_its := i\<rparr>"] v t(7) i Some o by (auto simp: ps_ifs_ok_def ps_ram_ok_def)
      qed
      let ?z = "clear_object env y"
      have zr: "ps_object_create env uid client cf sz s = Some (Inr (), ?z)" using y(1) \<open>r = Inr old\<close> by (simp add: run finish_object_def)
      have zf: "fs ?z = fs y" "obj_table ?z = obj_table v" "cnt ?z = cnt v" "active_table ?z = scratch_table s" "scratch_table ?z = active_table s"
        using y sv by (auto simp: clear_object_def)
      have bk: "b \<noteq> Some k" using entry_idx_Some(2)[of "obj_table s" uid client k] k(2) u(1) by (auto simp: b_def)
      have F: "fs y (PS_OBJECT_FS_ID k) = Some f" "\<forall>i. i \<noteq> k \<and> ps_get_object_entry_idx (obj_table s) uid client \<noteq> Some i \<longrightarrow> fs y (PS_OBJECT_FS_ID i) = fs s (PS_OBJECT_FS_ID i)"
        "fs y (PS_TABLE_FS_ID (scratch_table s)) = Some (table_bytes (obj_table v))" "fs y (PS_TABLE_FS_ID (active_table s)) = None"
        using y(9) bk ram(4,5) by (auto simp: fv b_def[symmetric] less_2_cases_iff PS_TABLE_FS_ID_def PS_OBJECT_FS_ID_def PS_OBJ_TABLE_IDX_1_def split: option.splits)
      have len: "length bs \<le> PS_MAX_ASSET_SIZE env" "PS_MAX_ASSET_SIZE env < SIZE_MAX_P1" using sz asset_fits by (auto simp: bs_def)
      note ps = put_store[OF ram(3,2) k(1,2) u(1) F(1) k(5) F(2) len]
      note db = same_db[OF resealedD(1)[OF w(2)]]
      have lab: "table_label env ?p = ?p" using ram(7) by (simp add: table_valid_def label_iff)
      have "table_valid env dec (obj_table v) (cnt v 0)"
        using sv(7) resealedD[OF w(2)] lab ram(7) by (simp add: table_valid_def)
      moreover have "ps_ram_ok env ?z" "ifs_ok ?z" using y(2,3) by (auto simp: clear_object_def ps_ifs_ok_def ps_ram_ok_def)
      moreover have "active_table s = 1 - scratch_table s" using ram(4,5) by auto
      ultimately have "ps_inv env dec (fs ?z) (cnt ?z) ?z" unfolding ps_inv_def zf using F(3,4) sv(4,5) ps(1,2) by (simp add: db)
      moreover have "\<forall>client' uid'. uid' \<noteq> 0 \<longrightarrow> ps_store dec (fs ?z) (obj_table ?z) client' uid'
            = (if client' = client \<and> uid' = uid then Some (bs, cf) else ps_store dec (fs s) (obj_table s) client' uid')" unfolding zf db using ps(3) .
      moreover have "written (ps_req ?z) = written (ps_req s)" using y(4) by (simp add: clear_object_def)
      ultimately show ?thesis unfolding bs_def[symmetric] using zr n wo sz \<open>ifs_ok ?z\<close> \<open>ps_ram_ok env ?z\<close> by (intro exI[of _ "Inr ()"] exI[of _ ?z]) simp
    qed
  qed
qed

end

end
