(* ===== verification/PS_Remove.thy ===== *)
theory PS_Remove
  imports PS_Set
begin

text \<open>Protected Storage, \<open>tfm_ps_remove\<close> as an update of what is stored.\<close>

definition del_entry :: "nat \<Rightarrow> ps_obj_table_t \<Rightarrow> ps_obj_table_t" where
  "del_entry b t = t\<lparr>tb_obj_db := (tb_obj_db t)[b := zero_entry]\<rparr>"

lemma del_entry_wf: "table_wf env t \<Longrightarrow> table_wf env (del_entry b t)"
  by (auto simp: table_wf_def del_entry_def dest: set_update_subset_insert[THEN subsetD])

lemma del_entry_fields [simp]: "tb_crypto (del_entry b t) = tb_crypto t" "tb_version (del_entry b t) = tb_version t"
  "length (tb_obj_db (del_entry b t)) = length (tb_obj_db t)"
  by (simp_all add: del_entry_def)

lemma del_entry_nth: "j < length (tb_obj_db t) \<Longrightarrow> tb_obj_db (del_entry b t) ! j = (if j = b then zero_entry else tb_obj_db t ! j)"
  by (simp add: del_entry_def nth_list_update)

lemma del_store:
  assumes ok: "entries_ok t" "objects_ok env dec F t" and b: "ps_get_object_entry_idx t uid client = Some b" and u: "uid \<noteq> 0"
    and other: "\<forall>i. i \<noteq> b \<longrightarrow> F' (PS_OBJECT_FS_ID i) = F (PS_OBJECT_FS_ID i)"
  shows "entries_ok (del_entry b t)" "objects_ok env dec F' (del_entry b t)"
    "\<forall>client' uid'. uid' \<noteq> 0 \<longrightarrow> ps_store dec F' (del_entry b t) client' uid' = (if client' = client \<and> uid' = uid then None else ps_store dec F t client' uid')"
proof -
  let ?d = "del_entry b t"
  note e = entry_idx_Some[OF b]
  have pl: "obj_plain dec F' ?d i = obj_plain dec F t i" if "i < length (tb_obj_db t)" "i \<noteq> b" for i
    using that other by (simp add: obj_plain_def del_entry_nth Let_def split: option.split)
  have ne: "i \<noteq> b" if "i < length (tb_obj_db t)" "te_uid (tb_obj_db ?d ! i) \<noteq> 0" for i using that by (auto simp: del_entry_nth)
  show ok': "entries_ok ?d" unfolding entries_ok_def del_entry_fields
  proof (intro allI impI)
    fix i j assume a: "i < length (tb_obj_db t)" "j < length (tb_obj_db t)" "te_uid (tb_obj_db ?d ! i) \<noteq> 0 \<and> te_uid (tb_obj_db ?d ! i) = te_uid (tb_obj_db ?d ! j)
      \<and> te_client_id (tb_obj_db ?d ! i) = te_client_id (tb_obj_db ?d ! j)"
    then have "i \<noteq> b" "j \<noteq> b" using ne by auto
    then show "i = j" using a ok(1) by (simp add: del_entry_nth entries_ok_def)
  qed
  show "objects_ok env dec F' ?d" unfolding objects_ok_def del_entry_fields
  proof (intro allI impI)
    fix i assume a: "i < length (tb_obj_db t)" "te_uid (tb_obj_db ?d ! i) \<noteq> 0"
    then have "i \<noteq> b" "te_uid (tb_obj_db t ! i) \<noteq> 0" by (auto simp: del_entry_nth split: if_splits)
    then show "\<exists>pt. obj_plain dec F' ?d i = Some pt \<and> plain_ok env pt" using a(1) ok(2) pl by (simp add: objects_ok_def)
  qed
  show "\<forall>client' uid'. uid' \<noteq> 0 \<longrightarrow> ps_store dec F' ?d client' uid' = (if client' = client \<and> uid' = uid then None else ps_store dec F t client' uid')"
  proof (intro allI impI)
    fix client' uid' assume u': "uid' \<noteq> (0 :: nat)"
    have "ps_get_object_entry_idx ?d uid' client' = (if client' = client \<and> uid' = uid then None else ps_get_object_entry_idx t uid' client')"
    proof (cases "ps_get_object_entry_idx ?d uid' client'")
      case None
      then have n: "\<forall>i < length (tb_obj_db t). i \<noteq> b \<longrightarrow> \<not> (te_uid (tb_obj_db t ! i) = uid' \<and> te_client_id (tb_obj_db t ! i) = client')"
        by (auto simp: entry_idx_None del_entry_nth)
      have "ps_get_object_entry_idx t uid' client' = None" if "\<not> (client' = client \<and> uid' = uid)"
        using n that e unfolding entry_idx_None by blast
      then show ?thesis using None by simp
    next
      case (Some i)
      note i = entry_idx_Some[OF Some]
      then have ib: "i \<noteq> b" "i < length (tb_obj_db t)" using u' ne by auto
      then have k: "te_uid (tb_obj_db t ! i) = uid'" "te_client_id (tb_obj_db t ! i) = client'" using i by (simp_all add: del_entry_nth)
      then have "ps_get_object_entry_idx t uid' client' = Some i" using entry_idx_eqI[OF ok(1) u' ib(2)] by simp
      then show ?thesis using Some b ib(1) by auto
    qed
    moreover have "obj_plain dec F' ?d i = obj_plain dec F t i" if "ps_get_object_entry_idx t uid' client' = Some i" "\<not> (client' = client \<and> uid' = uid)" for i
      using entry_idx_Some[OF that(1)] that(2) e by (intro pl) auto
    ultimately show "ps_store dec F' ?d client' uid' = (if client' = client \<and> uid' = uid then None else ps_store dec F t client' uid')"
      by (auto simp: ps_store_def split: option.split)
  qed
qed

text \<open>The status of a removal that does not come to change the table.\<close>

definition ps_remove_refusal :: "(byte list \<times> 32 word) option \<Rightarrow> nat \<Rightarrow> psa_error option" where
  "ps_remove_refusal v uid =
     (if uid = 0 then Some PSA_ERROR_INVALID_ARGUMENT
      else case v of None \<Rightarrow> Some PSA_ERROR_DOES_NOT_EXIST | Some _ \<Rightarrow> if write_once v then Some PSA_ERROR_NOT_PERMITTED else None)"

context ps_storage
begin

lemma delete_object_ok:
  assumes ok: "ifs_ok s" "ps_ram_ok env s" and b: "ps_get_object_entry_idx (obj_table s) uid client = Some b"
  shows "\<exists>r t. ps_object_table_delete_object env uid client s = Some (r, t) \<and> ifs_ok t \<and> ps_ram_ok env t \<and> ps_req t = ps_req s \<and> g_obj_fid t = g_obj_fid s
    \<and> (case r of Inr _ \<Rightarrow> saved (s\<lparr>obj_table := del_entry b (obj_table s)\<rparr>) t \<and> resealed (del_entry b (obj_table s)) (obj_table t)
               | Inl _ \<Rightarrow> fs t = fs s \<and> tb_obj_db (obj_table t) = tb_obj_db (obj_table s))"
proof -
  note e = entry_idx_Some[OF b]
  let ?s1 = "s\<lparr>obj_table := del_entry b (obj_table s)\<rparr>"
  have s1: "ifs_ok ?s1" "ps_ram_ok env ?s1" using ok del_entry_wf by (auto simp: ps_ifs_ok_def ps_ram_ok_def)
  have d: "ps_table_delete_entry b s = ?s1" by (simp add: ps_table_delete_entry_def set_entry_def del_entry_def)
  have wfb: "entry_wf (tb_obj_db (obj_table s) ! b)" using e(1) ok(2) by (simp add: ps_ram_ok_def table_wf_def)
  obtain r u where u: "ps_object_table_save_table env ?s1 = Some (r, u)" "save_frame ?s1 u" "case r of Inr _ \<Rightarrow> saved ?s1 u | Inl _ \<Rightarrow> not_saved ?s1 u"
    using save_table_ok[OF s1] by blast
  have run: "ps_object_table_delete_object env uid client s = (case r of Inr _ \<Rightarrow> Some (Inr (), u) | Inl x \<Rightarrow> Some (Inl x, set_entry b (tb_obj_db (obj_table s) ! b) u))"
    using u(1) b by (simp add: ps_object_table_delete_object_def Let_def d bind_p_try split: sum.split)
  show ?thesis
  proof (cases r)
    case (Inr x)
    then show ?thesis using run u(2,3) by (intro exI[of _ "Inr ()"] exI[of _ u]) (simp add: save_frame_def)
  next
    case (Inl x)
    let ?t = "set_entry b (tb_obj_db (obj_table s) ! b) u"
    have db: "tb_obj_db (obj_table u) = (tb_obj_db (obj_table s))[b := zero_entry]" using u(2) resealedD(1)[of "del_entry b (obj_table s)"] by (simp add: save_frame_def del_entry_def)
    then have "tb_obj_db (obj_table ?t) = tb_obj_db (obj_table s)" by (simp add: set_entry_def)
    moreover have "fs ?t = fs s" using u(3) Inl by (simp add: set_entry_def not_saved_def)
    moreover have "table_wf env (obj_table ?t)" using u(2) wfb by (auto simp: save_frame_def ps_ram_ok_def table_wf_def set_entry_def dest: set_update_subset_insert[THEN subsetD])
    then have "ifs_ok ?t" "ps_ram_ok env ?t" "ps_req ?t = ps_req s" "g_obj_fid ?t = g_obj_fid s"
      using u(2) by (auto simp: save_frame_def ps_ifs_ok_def ps_ram_ok_def set_entry_def)
    ultimately show ?thesis using run Inl by (intro exI[of _ "Inl x"] exI[of _ ?t]) simp
  qed
qed

lemma remove_ok:
  assumes ok: "ifs_ok s" and inv: "ps_inv env dec (fs s) (cnt s) s"
  shows "\<exists>r t. tfm_ps_remove env client uid s = Some (r, t) \<and> ifs_ok t \<and> ps_ram_ok env t \<and> ps_req t = ps_req s
    \<and> (case ps_remove_refusal (ps_store dec (fs s) (obj_table s) client uid) uid of
         Some e \<Rightarrow> r = Inl e \<and> ps_inv env dec (fs t) (cnt t) t \<and> fs t = fs s \<and> obj_table t = obj_table s
       | None \<Rightarrow> (case r of
           Inr _ \<Rightarrow> ps_inv env dec (fs t) (cnt t) t \<and> (\<forall>client' uid'. uid' \<noteq> 0 \<longrightarrow> ps_store dec (fs t) (obj_table t) client' uid'
                     = (if client' = client \<and> uid' = uid then None else ps_store dec (fs s) (obj_table s) client' uid'))
         | Inl _ \<Rightarrow> ps_store dec (fs t) (obj_table t) = ps_store dec (fs s) (obj_table s)))"
proof (cases "uid = 0 \<or> ps_get_object_entry_idx (obj_table s) uid client = None")
  case True
  then show ?thesis using ok inv
    by (cases "uid = 0") (auto simp: tfm_ps_remove_def TFM_PS_INVALID_UID_def ps_remove_refusal_def ps_store_def ps_object_delete_def
        ps_object_table_get_obj_tbl_info_def bind_p_def try_p_def ps_inv_def)
next
  case False
  then obtain b where u: "uid \<noteq> 0" and b: "ps_get_object_entry_idx (obj_table s) uid client = Some b" by auto
  have i: "ps_ram_ok env s" "objects_ok env dec (fs s) (obj_table s)" "entries_ok (obj_table s)" "active_table s < 2" "scratch_table s = 1 - active_table s"
    "fs s (PS_TABLE_FS_ID (active_table s)) = Some (table_bytes (obj_table s))" "table_valid env dec (obj_table s) (cnt s 0)" "cnt s 1 = cnt s 0" "cnt s 2 = cnt s 0"
    using inv by (auto simp: ps_inv_def ps_ram_ok_def)
  obtain ob it k pt s1 where r: "ps_object_table_get_obj_tbl_info uid client s = Some (Inr (), s1)"
    "read_object_of env uid client s1 = Some (Inr (), s\<lparr>g_obj_fid := PS_OBJECT_FS_ID b, g_ps_object := ob, ps_its := it, ps_keys := k\<rparr>)"
    "its_ok it" "files it = fs s" "keys_ok k" "ob_ok env ob" "obj_plain dec (fs s) (obj_table s) b = Some pt" "ob_info ob = bytes_info pt"
    using read_existing[OF ok i(1,2) b u] by metis
  define s2 where "s2 = s\<lparr>g_obj_fid := PS_OBJECT_FS_ID b, g_ps_object := ob, ps_its := it, ps_keys := k\<rparr>"
  have s2: "ifs_ok s2" "ps_ram_ok env s2" "obj_table s2 = obj_table s" "fs s2 = fs s" "cnt s2 = cnt s" "ps_req s2 = ps_req s" "g_obj_fid s2 = PS_OBJECT_FS_ID b"
    "active_table s2 = active_table s" "scratch_table s2 = scratch_table s" using ok i(1) r by (auto simp: s2_def ps_ifs_ok_def ps_ram_ok_def)
  have st: "ps_store dec (fs s) (obj_table s) client uid = Some (drop 12 pt, oi_create_flags (bytes_info pt))" by (simp add: ps_store_def b r(7))
  show ?thesis
  proof (cases "oi_create_flags (bytes_info pt) AND PSA_STORAGE_FLAG_WRITE_ONCE = 0")
    case wo: False
    then have "tfm_ps_remove env client uid s = Some (Inl PSA_ERROR_NOT_PERMITTED, clear_object env s2)"
      using r(1,2,8) u by (simp add: tfm_ps_remove_def TFM_PS_INVALID_UID_def ps_object_delete_def bind_p_def try_p_def finish_object_def s2_def gets_p_def)
    moreover have "ps_remove_refusal (ps_store dec (fs s) (obj_table s) client uid) uid = Some PSA_ERROR_NOT_PERMITTED"
      using st wo u by (simp add: ps_remove_refusal_def write_once_def)
    moreover have "ps_inv env dec (fs (clear_object env s2)) (cnt (clear_object env s2)) (clear_object env s2)"
      using inv s2 by (auto simp: ps_inv_def clear_object_def ps_ram_ok_def)
    ultimately show ?thesis using s2 by (auto simp: clear_object_def ps_ifs_ok_def ps_ram_ok_def)
  next
    case wo: True
    have nr: "ps_remove_refusal (ps_store dec (fs s) (obj_table s) client uid) uid = None" using st wo u by (simp add: ps_remove_refusal_def write_once_def)
    obtain q v where v: "ps_object_table_delete_object env uid client s2 = Some (q, v)" "ifs_ok v" "ps_ram_ok env v" "ps_req v = ps_req s" "g_obj_fid v = PS_OBJECT_FS_ID b"
      "case q of Inr _ \<Rightarrow> saved (s2\<lparr>obj_table := del_entry b (obj_table s)\<rparr>) v \<and> resealed (del_entry b (obj_table s)) (obj_table v)
               | Inl _ \<Rightarrow> fs v = fs s \<and> tb_obj_db (obj_table v) = tb_obj_db (obj_table s)"
      using delete_object_ok[OF s2(1,2), of uid client b, unfolded s2(3,4,6,7), OF b] by blast
    have run: "ps_object_delete env uid client s = finish_object env (\<lambda>_. bind_p (ps_object_table_delete_object env uid client) (\<lambda>_.
         bind_p (ps_object_table_delete_old_table env) (\<lambda>_. bind_p (gets_p g_obj_fid) (\<lambda>fd. its_p (psa_its_remove env fd)))) s2) s1"
      using r(1,2,8) wo by (simp add: ps_object_delete_def bind_p_Inr finish_object_def s2_def)
    show ?thesis
    proof (cases q)
      case (Inl e)
      then have "tfm_ps_remove env client uid s = Some (Inl (if e = PSA_ERROR_INVALID_SIGNATURE then PSA_ERROR_GENERIC_ERROR else e), clear_object env v)"
        using v(1) u by (simp add: tfm_ps_remove_def TFM_PS_INVALID_UID_def run finish_object_def bind_p_Inl bind_p_def try_p_def)
      moreover have "ps_store dec (fs v) (obj_table v) = ps_store dec (fs s) (obj_table s)"
        using v(6) Inl same_db(4)[of "obj_table v" "obj_table s" dec "fs s"] by simp
      ultimately show ?thesis using v nr by (auto simp: clear_object_def ps_ifs_ok_def ps_ram_ok_def)
    next
      case (Inr x)
      then have sv: "saved (s2\<lparr>obj_table := del_entry b (obj_table s)\<rparr>) v" "resealed (del_entry b (obj_table s)) (obj_table v)" using v(6) by auto
      have d: "active_table v = scratch_table s" "scratch_table v = active_table s" "cnt v 0 = cnt s 0 + 1" "cnt v 1 = cnt v 0" "cnt v 2 = cnt v 0"
        "fs v = (fs s)(PS_TABLE_FS_ID (scratch_table s) \<mapsto> table_bytes (obj_table v))"
        "dec (fill_key_label (tb_crypto (obj_table v))) (cr_iv (tb_crypto (obj_table v))) (assoc_data (obj_table v) (cnt v 0)) (cr_tag (tb_crypto (obj_table v))) = Some []"
        using sv(1) s2 i(8,9) by (auto simp: saved_def table_written_def)
      have b2: "b < PS_OBJ_TABLE_ENTRIES env" using entry_idx_Some(1)[OF b] i(1) by (simp add: ps_ram_ok_def table_wf_def)
      obtain i1 where i1: "psa_its_remove env (PS_TABLE_FS_ID (active_table s)) (ps_its v) = Some (Inr (), i1)" "its_ok i1" "files i1 = (fs v)(PS_TABLE_FS_ID (active_table s) := None)"
        using its.remove_file[OF _ table_uid[OF i(4)], of "ps_its v"] v(2) i(4-6) d(6) by (auto simp: ps_ifs_ok_def)
      have ex: "files i1 (PS_OBJECT_FS_ID b) \<noteq> None" using r(7) i(4,5) by (auto simp: i1(3) d(6) obj_plain_def less_2_cases_iff split: option.splits)
      obtain i2 where i2: "psa_its_remove env (PS_OBJECT_FS_ID b) i1 = Some (Inr (), i2)" "its_ok i2" "files i2 = (files i1)(PS_OBJECT_FS_ID b := None)"
        using its.remove_file[OF i1(2) object_uid[OF b2]] ex by auto
      let ?t = "clear_object env (v\<lparr>ps_its := i2\<rparr>)"
      have run2: "tfm_ps_remove env client uid s = Some (Inr (), ?t)"
        using v(1,5) u Inr i1(1) i2(1) d(2)
        by (simp add: tfm_ps_remove_def TFM_PS_INVALID_UID_def run finish_object_def bind_p_Inr bind_p_def try_p_def ps_object_table_delete_old_table_def gets_p_def its_p_def)
      have f: "fs ?t = (fs s)(PS_TABLE_FS_ID (scratch_table s) \<mapsto> table_bytes (obj_table v), PS_TABLE_FS_ID (active_table s) := None, PS_OBJECT_FS_ID b := None)"
        using i1(3) i2(3) d(6) by (simp add: clear_object_def)
      have oth: "\<forall>j. j \<noteq> b \<longrightarrow> fs ?t (PS_OBJECT_FS_ID j) = fs s (PS_OBJECT_FS_ID j)" using i(4,5) by (auto simp: f less_2_cases_iff)
      have tb: "fs ?t (PS_TABLE_FS_ID (scratch_table s)) = Some (table_bytes (obj_table v))" "fs ?t (PS_TABLE_FS_ID (active_table s)) = None"
        unfolding f using i(4,5) by (auto simp: less_2_cases_iff PS_TABLE_FS_ID_def PS_OBJECT_FS_ID_def PS_OBJ_TABLE_IDX_1_def)
      note ds = del_store[OF i(3,2) b u oth] and db = same_db[OF resealedD(1)[OF sv(2)]]
      have "table_label env (del_entry b (obj_table s)) = del_entry b (obj_table s)" using i(7) by (simp add: table_valid_def label_iff)
      then have tv: "table_valid env dec (obj_table v) (cnt v 0)" using d(7) resealedD[OF sv(2)] i(7) by (simp add: table_valid_def)
      have t: "obj_table ?t = obj_table v" "active_table ?t = scratch_table s" "scratch_table ?t = active_table s" "cnt ?t = cnt v" "ifs_ok ?t" "ps_ram_ok env ?t" "ps_req ?t = ps_req s"
        using v d i2(2) by (auto simp: clear_object_def ps_ifs_ok_def ps_ram_ok_def)
      have as: "active_table s = 1 - scratch_table s" using i(4,5) by auto
      have "ps_inv env dec (fs ?t) (cnt ?t) ?t" unfolding ps_inv_def t(1-4) using t(6) as tb tv d(4,5) ds(1,2) by (simp add: db)
      moreover have "\<forall>client' uid'. uid' \<noteq> 0 \<longrightarrow> ps_store dec (fs ?t) (obj_table ?t) client' uid'
          = (if client' = client \<and> uid' = uid then None else ps_store dec (fs s) (obj_table s) client' uid')" unfolding t(1) db using ds(3) .
      ultimately show ?thesis using run2 nr t(5-7) by (intro exI[of _ "Inr ()"] exI[of _ ?t]) simp
    qed
  qed
qed

text \<open>
  A set request for a write-once asset is refused, but the entry of the asset is written again, and when the
  table cannot be saved the entry is deleted together with the file: the asset is lost.
\<close>

lemma refused_set_loses:
  assumes ok: "ifs_ok s" and inv: "ps_inv env dec (fs s) (cnt s) s" and u: "uid \<noteq> 0" "uid < 2 ^ 64" and cl: "client_ok client"
    and sz: "sz \<le> PS_MAX_ASSET_SIZE env" and wo: "write_once (ps_store dec (fs s) (obj_table s) client uid)" and full: "cnt s 0 = SIZE_MAX_P1 - 1"
  shows "\<exists>t. ps_object_create env uid client cf sz s = Some (Inl PSA_ERROR_NOT_PERMITTED, t) \<and> ifs_ok t
    \<and> (\<forall>client' uid'. uid' \<noteq> 0 \<longrightarrow> ps_store dec (fs t) (obj_table t) client' uid'
          = (if client' = client \<and> uid' = uid then None else ps_store dec (fs s) (obj_table s) client' uid'))"
proof -
  have i: "ps_ram_ok env s" "objects_ok env dec (fs s) (obj_table s)" "entries_ok (obj_table s)" "active_table s < 2" "scratch_table s = 1 - active_table s"
    "fs s (PS_TABLE_FS_ID (active_table s)) = Some (table_bytes (obj_table s))"
    using inv by (auto simp: ps_inv_def ps_ram_ok_def)
  obtain r0 s1 r t where c: "ps_object_table_get_obj_tbl_info uid client s = Some (r0, s1)" "r0 = Inr () \<longleftrightarrow> ps_get_object_entry_idx (obj_table s) uid client \<noteq> None"
    "create_change env uid client cf sz (r0 = Inr ()) s1 = Some (r, t)" "kept s t"
    "write_once (ps_store dec (fs s) (obj_table s) client uid) \<longrightarrow> r = Inl PSA_ERROR_NOT_PERMITTED
       \<and> (\<exists>j. ps_get_object_entry_idx (obj_table s) uid client = Some j \<and> g_obj_fid t = PS_OBJECT_FS_ID j \<and> fs t = fs s)"
    using create_change_ok[OF ok i(1,2) u(1) sz refl, of client cf] by blast
  obtain j where j: "ps_get_object_entry_idx (obj_table s) uid client = Some j" "g_obj_fid t = PS_OBJECT_FS_ID j" "fs t = fs s" and r: "r = Inl PSA_ERROR_NOT_PERMITTED"
    using c(5) wo by blast
  have t: "ifs_ok t" "ps_ram_ok env t" "obj_table t = obj_table s" "active_table t = active_table s" "scratch_table t = scratch_table s" "ps_nv t = ps_nv s"
    using c(4) by (simp_all add: kept_def)
  have jl: "j < length (tb_obj_db (obj_table t))" using entry_idx_Some(1)[OF j(1)] t(3) by simp
  have act: "fs t (PS_TABLE_FS_ID (active_table t)) \<noteq> None" "scratch_table t = 1 - active_table t" using i(5,6) j(3) t(4,5) by simp_all
  obtain q v where v: "ps_update_table env uid client t = Some (q, v)" "ifs_ok v" "ps_ram_ok env v"
    "q = Inr () \<longrightarrow> (\<exists>u'. saved (t\<lparr>obj_table := put_entry uid client j (cr_tag (ob_crypto (g_ps_object t))) (obj_table t)\<rparr>) u' \<and> cnt v = cnt u')"
    "\<forall>x. x \<noteq> g_obj_fid t \<and> x \<notin> {PS_TABLE_FS_ID 0, PS_TABLE_FS_ID 1} \<longrightarrow> fs v x = fs t x"
    "\<forall>e. q = Inl e \<and> ps_get_object_entry_idx (obj_table t) uid client = Some j \<longrightarrow> tb_obj_db (obj_table v) = (tb_obj_db (obj_table t))[j := zero_entry]"
    using update_table_ok[OF t(1,2) j(2) jl u(2) cl act] by blast
  have "cnt v 0 < SIZE_MAX_P1" using nv.nv_bound[of "ps_nv v" 0] v(2) by (simp add: ps_ifs_ok_def)
  then obtain e where q: "q = Inl e" using v(4) full t(6) by (cases q) (auto simp: saved_def table_written_def)
  have run: "ps_object_create env uid client cf sz s = Some (Inl PSA_ERROR_NOT_PERMITTED, clear_object env v)"
    using c(1-3) sz j(1) r v(1) by (simp add: ps_object_create_def bind_p_try[of "ps_object_table_get_obj_tbl_info uid client"] finish_object_def bind_p_try conclude_change_def)
  have "\<forall>k. k \<noteq> j \<longrightarrow> fs v (PS_OBJECT_FS_ID k) = fs s (PS_OBJECT_FS_ID k)" using v(5) j(2,3) by simp
  note d = del_store(3)[OF i(3,2) j(1) u(1) this]
  have "tb_obj_db (obj_table v) = tb_obj_db (del_entry j (obj_table s))" using v(6) q j(1) t(3) by (simp add: del_entry_def)
  note db = same_db[OF this]
  have "ps_store dec (fs v) (obj_table v) = ps_store dec (fs v) (del_entry j (obj_table s))" by (simp add: ps_store_def db fun_eq_iff)
  then show ?thesis using run d v(2,3) by (intro exI[of _ "clear_object env v"]) (simp add: clear_object_def ps_ifs_ok_def)
qed

end

end
