(* ===== verification/PS_Boot.thy ===== *)
theory PS_Boot
  imports PS_Set
begin

text \<open>
  Protected Storage at start: which of the two table files becomes the active one, and what the storage
  holds after a reset.
\<close>

section \<open>The choice of a table\<close>

text \<open>
  What the start makes of a table that could be read: it is authenticated with the first counter, or
  with the third one when that agrees with the second and is not zero.
\<close>

definition table_verdict :: "(byte list \<Rightarrow> byte list \<Rightarrow> byte list \<Rightarrow> byte list \<Rightarrow> byte list option) \<Rightarrow> (nat \<Rightarrow> nat) \<Rightarrow> bool \<Rightarrow> ps_obj_table_t \<Rightarrow> ps_obj_table_state" where
  "table_verdict dec c ok t =
     (let auth = (\<lambda>n. dec (fill_key_label (tb_crypto t)) (cr_iv (tb_crypto t)) (assoc_data t n) (cr_tag (tb_crypto t)) = Some []) in
      if \<not> ok \<or> tb_version t \<noteq> PS_OBJECT_SYSTEM_VERSION then PS_OBJ_TABLE_INVALID
      else if auth (c 0) then PS_OBJ_TABLE_NVC_1_VALID
      else if c 2 = c 1 \<and> c 2 \<noteq> 0 \<and> auth (c 2) then PS_OBJ_TABLE_NVC_3_VALID
      else PS_OBJ_TABLE_INVALID)"

definition chosen_table :: "ps_obj_table_state \<Rightarrow> ps_obj_table_state \<Rightarrow> nat option" where
  "chosen_table v0 v1 =
     (if v0 = PS_OBJ_TABLE_INVALID \<and> v1 = PS_OBJ_TABLE_INVALID then None
      else if v0 = PS_OBJ_TABLE_INVALID then Some 1
      else if v1 = PS_OBJ_TABLE_INVALID then Some 0
      else if v1 = PS_OBJ_TABLE_NVC_1_VALID then Some 1 else Some 0)"

lemma table_label_wf [simp]: "table_wf env t \<Longrightarrow> client_ok (PS_PARTITION_ID env) \<Longrightarrow> table_wf env (table_label env t)"
  by (simp add: table_wf_def table_label_def crypto_wf_def PS_OBJ_TABLE_UID_def)

lemma table_label_version [simp]: "tb_version (table_label env t) = tb_version t" "tb_obj_db (table_label env t) = tb_obj_db t"
  by (simp_all add: table_label_def)

context ps_storage
begin

lemma authenticate_table:
  assumes "keys_ok (ps_keys s)" "table_wf env t"
  shows "\<exists>k. auth_table env t st ctx s = Some (Inr (
      if st = PS_OBJ_TABLE_INVALID then PS_OBJ_TABLE_INVALID
      else if dec (fill_key_label (tb_crypto t)) (cr_iv (tb_crypto t)) (assoc_data t (init_nvc_1 ctx)) (cr_tag (tb_crypto t)) = Some [] then PS_OBJ_TABLE_NVC_1_VALID
      else if init_nvc_3 ctx \<noteq> 0 \<and> dec (fill_key_label (tb_crypto t)) (cr_iv (tb_crypto t)) (assoc_data t (init_nvc_3 ctx)) (cr_tag (tb_crypto t)) = Some []
      then PS_OBJ_TABLE_NVC_3_VALID else PS_OBJ_TABLE_INVALID), s\<lparr>ps_keys := k\<rparr>) \<and> keys_ok k"
proof -
  have l: "length (cr_tag (tb_crypto t)) = PS_TAG_LEN_BYTES" using assms(2) by (simp add: table_wf_def crypto_wf_def PS_TAG_LEN_BYTES_def)
  let ?A = "\<lambda>n. dec (fill_key_label (tb_crypto t)) (cr_iv (tb_crypto t)) (assoc_data t n) (cr_tag (tb_crypto t)) = Some []"
  obtain k1 where k1: "ps_crypto_authenticate env (tb_crypto t) (assoc_data t (init_nvc_1 ctx)) (ps_keys s) = (if ?A (init_nvc_1 ctx) then Inr () else Inl PSA_ERROR_INVALID_SIGNATURE, k1)" "keys_ok k1"
    using authenticate_ok[OF assms(1) l] by blast
  obtain k2 where k2: "ps_crypto_authenticate env (tb_crypto t) (assoc_data t (init_nvc_3 ctx)) k1 = (if ?A (init_nvc_3 ctx) then Inr () else Inl PSA_ERROR_INVALID_SIGNATURE, k2)" "keys_ok k2"
    using authenticate_ok[OF k1(2) l] by blast
  consider "st = PS_OBJ_TABLE_INVALID" | "st \<noteq> PS_OBJ_TABLE_INVALID" "?A (init_nvc_1 ctx) \<or> init_nvc_3 ctx = 0" | "st \<noteq> PS_OBJ_TABLE_INVALID" "\<not> ?A (init_nvc_1 ctx)" "init_nvc_3 ctx \<noteq> 0" by blast
  then show ?thesis
  proof cases
    case 1
    then show ?thesis using assms(1) by (intro exI[of _ "ps_keys s"]) (simp add: auth_table_def)
  next
    case 2
    then show ?thesis using k1 by (intro exI[of _ k1]) (auto simp: auth_table_def ps_object_table_authenticate_def PS_INVALID_NVC_VALUE_def)
  next
    case 3
    then show ?thesis using k1 k2 by (intro exI[of _ k2]) (auto simp: auth_table_def ps_object_table_authenticate_def PS_INVALID_NVC_VALUE_def)
  qed
qed

text \<open>Reading the counters and authenticating both tables.\<close>

lemma nvc_authenticate_ok:
  assumes ok: "ifs_ok s" "table_wf env (obj_table s)" "table_wf env (table_1 ctx)"
    and st: "table_state_0 ctx \<in> {PS_OBJ_TABLE_VALID, PS_OBJ_TABLE_INVALID}" "table_state_1 ctx \<in> {PS_OBJ_TABLE_VALID, PS_OBJ_TABLE_INVALID}"
  shows "\<exists>ctx' n k. ps_object_table_nvc_authenticate env ctx s = Some (Inr ctx', s\<lparr>ps_nv := n, ps_keys := k\<rparr>) \<and> nv_ok n \<and> counter n = cnt s \<and> keys_ok k
    \<and> table_1 ctx' = table_1 ctx \<and> init_nvc_1 ctx' = cnt s 0
    \<and> table_state_0 (ps_object_table_validate_version (obj_table s) ctx') = table_verdict dec (cnt s) (table_state_0 ctx = PS_OBJ_TABLE_VALID) (obj_table s)
    \<and> table_state_1 (ps_object_table_validate_version (obj_table s) ctx') = table_verdict dec (cnt s) (table_state_1 ctx = PS_OBJ_TABLE_VALID) (table_1 ctx)"
proof -
  have io: "nv_ok (ps_nv s)" "keys_ok (ps_keys s)" using ok(1) by (auto simp: ps_ifs_ok_def)
  obtain n1 where n1: "ps_read_nv_counter env TFM_PS_NV_COUNTER_1 s = Some (Inr (cnt s 0), s\<lparr>ps_nv := n1\<rparr>)" "nv_ok n1" "counter n1 = cnt s"
    using read_nv_ok[OF io(1), of 0] by (auto simp: TFM_PS_NV_COUNTER_1_def)
  obtain n2 where n2: "ps_read_nv_counter env TFM_PS_NV_COUNTER_2 (s\<lparr>ps_nv := n1\<rparr>) = Some (Inr (cnt s 1), s\<lparr>ps_nv := n2\<rparr>)" "nv_ok n2" "counter n2 = cnt s"
    using read_nv_ok[of "s\<lparr>ps_nv := n1\<rparr>" 1] n1 by (auto simp: TFM_PS_NV_COUNTER_2_def)
  obtain n3 where n3: "ps_read_nv_counter env TFM_PS_NV_COUNTER_3 (s\<lparr>ps_nv := n2\<rparr>) = Some (Inr (cnt s 2), s\<lparr>ps_nv := n3\<rparr>)" "nv_ok n3" "counter n3 = cnt s"
    using read_nv_ok[of "s\<lparr>ps_nv := n2\<rparr>" 2] n2 by (auto simp: TFM_PS_NV_COUNTER_3_def)
  let ?c = "ctx\<lparr>init_nvc_1 := cnt s 0, init_nvc_3 := (if cnt s 2 \<noteq> cnt s 1 then PS_INVALID_NVC_VALUE else cnt s 2)\<rparr>"
  obtain st0 k1 where a0: "auth_table env (obj_table s) (table_state_0 ctx) ?c (s\<lparr>ps_nv := n3\<rparr>) = Some (Inr st0, s\<lparr>ps_nv := n3, ps_keys := k1\<rparr>)" "keys_ok k1"
    "(if tb_version (obj_table s) \<noteq> PS_OBJECT_SYSTEM_VERSION then PS_OBJ_TABLE_INVALID else st0) = table_verdict dec (cnt s) (table_state_0 ctx = PS_OBJ_TABLE_VALID) (obj_table s)"
    using authenticate_table[of "s\<lparr>ps_nv := n3\<rparr>" "obj_table s" "table_state_0 ctx" ?c] io(2) ok(2) st(1)
    by (fastforce simp: table_verdict_def Let_def PS_INVALID_NVC_VALUE_def)
  obtain st1 k2 where a1: "auth_table env (table_1 ctx) (table_state_1 ctx) ?c (s\<lparr>ps_nv := n3, ps_keys := k1\<rparr>) = Some (Inr st1, s\<lparr>ps_nv := n3, ps_keys := k2\<rparr>)" "keys_ok k2"
    "(if tb_version (table_1 ctx) \<noteq> PS_OBJECT_SYSTEM_VERSION then PS_OBJ_TABLE_INVALID else st1) = table_verdict dec (cnt s) (table_state_1 ctx = PS_OBJ_TABLE_VALID) (table_1 ctx)"
    using authenticate_table[of "s\<lparr>ps_nv := n3, ps_keys := k1\<rparr>" "table_1 ctx" "table_state_1 ctx" ?c] a0(2) ok(3) st(2)
    by (fastforce simp: table_verdict_def Let_def PS_INVALID_NVC_VALUE_def)
  let ?r = "?c\<lparr>table_state_0 := st0, table_state_1 := st1\<rparr>"
  have "ps_object_table_nvc_authenticate env ctx s = Some (Inr ?r, s\<lparr>ps_nv := n3, ps_keys := k2\<rparr>)"
    using n1(1) n2(1) n3(1) a0(1) a1(1) by (simp add: ps_object_table_nvc_authenticate_def bind_p_Inr Let_def)
  moreover have "table_state_0 (ps_object_table_validate_version (obj_table s) ?r) = table_verdict dec (cnt s) (table_state_0 ctx = PS_OBJ_TABLE_VALID) (obj_table s)"
    "table_state_1 (ps_object_table_validate_version (obj_table s) ?r) = table_verdict dec (cnt s) (table_state_1 ctx = PS_OBJ_TABLE_VALID) (table_1 ctx)"
    unfolding a0(3)[symmetric] a1(3)[symmetric] by (auto simp: ps_object_table_validate_version_def Let_def)
  ultimately show ?thesis using n3 a1(2) by (intro exI[of _ ?r] exI[of _ n3] exI[of _ k2]) simp
qed

section \<open>The start\<close>

text \<open>The tables as they are read, over what the buffers held before.\<close>

definition read_table :: "nat \<Rightarrow> byte list \<Rightarrow> ('i, 'n, 'k, 'r) ps_state \<Rightarrow> ps_obj_table_t" where
  "read_table i buf s = table_label env (bytes_table env (wr buf 0 (case fs s (PS_TABLE_FS_ID i) of None \<Rightarrow> [] | Some f \<Rightarrow> take (PS_OBJ_TABLE_SIZE env) f)))"

lemma read_table_wf: "length buf = PS_OBJ_TABLE_SIZE env \<Longrightarrow> table_wf env (read_table i buf s)"
  unfolding read_table_def by (intro table_label_wf table_wf_bytes) (auto simp: partition_id split: option.split)

lemma set_table_1_ok:
  assumes "table_wf env t" "ob_ok env (g_ps_object s)"
  shows "\<exists>ob. set_table_1 t s = s\<lparr>g_ps_object := ob\<rparr> \<and> ob_ok env ob"
  using assms length_table_bytes[OF assms(1)] table_fits
  by (intro exI[of _ "(g_ps_object s)\<lparr>ob_data := wr (ob_data (g_ps_object s)) 0 (table_bytes t)\<rparr>"]) (simp add: set_table_1_def ob_ok_def)

lemma fs_read_ok:
  assumes ok: "ifs_ok s" "ps_ram_ok env s"
  shows "\<exists>ok0 ok1 t0 t1 ob i. ps_object_table_fs_read_table env s = Some (Inr \<lparr>table_1 = t1,
      table_state_0 = (if ok0 then PS_OBJ_TABLE_VALID else PS_OBJ_TABLE_INVALID), table_state_1 = (if ok1 then PS_OBJ_TABLE_VALID else PS_OBJ_TABLE_INVALID),
      init_nvc_1 = 0, init_nvc_3 = 0\<rparr>, s\<lparr>ps_its := i, obj_table := t0, g_ps_object := ob\<rparr>)
    \<and> table_label env t0 = read_table 0 (table_bytes (obj_table s)) s
    \<and> table_label env t1 = read_table 1 (take (PS_OBJ_TABLE_SIZE env) (ob_data (g_ps_object s))) s
    \<and> its_ok i \<and> files i = fs s \<and> ob_ok env ob
    \<and> (fs s (PS_TABLE_FS_ID 0) = None \<longrightarrow> \<not> ok0) \<and> (\<forall>f. fs s (PS_TABLE_FS_ID 0) = Some f \<and> f \<noteq> [] \<longrightarrow> ok0)
    \<and> (fs s (PS_TABLE_FS_ID 1) = None \<longrightarrow> \<not> ok1) \<and> (\<forall>f. fs s (PS_TABLE_FS_ID 1) = Some f \<and> f \<noteq> [] \<longrightarrow> ok1)"
proof -
  let ?n = "PS_OBJ_TABLE_SIZE env"
  have io: "its_ok (ps_its s)" using ok(1) by (simp add: ps_ifs_ok_def)
  have n: "0 < ?n" "?n < SIZE_MAX_P1" using table_fits asset_fits by (auto simp: PS_OBJ_TABLE_SIZE_def)
  define b where "b = (\<lambda>i. case fs s (PS_TABLE_FS_ID i) of None \<Rightarrow> [] | Some f \<Rightarrow> take ?n f)"
  obtain r0 i0 where g0: "psa_its_get env (PS_TABLE_FS_ID 0) 0 ?n (ps_its s) = Some ((r0, b 0), i0)" "its_ok i0" "files i0 = fs s"
    "fs s (PS_TABLE_FS_ID 0) = None \<longrightarrow> r0 \<noteq> Inr ()" "\<forall>f. fs s (PS_TABLE_FS_ID 0) = Some f \<and> f \<noteq> [] \<longrightarrow> r0 = Inr ()"
    using its.get_file[OF io table_uid[of 0] n] by (force simp: b_def)
  obtain r1 i1 where g1: "psa_its_get env (PS_TABLE_FS_ID 1) 0 ?n i0 = Some ((r1, b 1), i1)" "its_ok i1" "files i1 = fs s"
    "fs s (PS_TABLE_FS_ID 1) = None \<longrightarrow> r1 \<noteq> Inr ()" "\<forall>f. fs s (PS_TABLE_FS_ID 1) = Some f \<and> f \<noteq> [] \<longrightarrow> r1 = Inr ()"
    using its.get_file[OF g0(2) table_uid[of 1] n] g0(3) by (force simp: b_def)
  define t0 t1 where "t0 = bytes_table env (wr (table_bytes (obj_table s)) 0 (b 0))" and "t1 = bytes_table env (wr (take ?n (ob_data (g_ps_object s))) 0 (b 1))"
  have lb: "length (take ?n (ob_data (g_ps_object s))) = ?n" using ok(2) table_fits by (auto simp: ps_ram_ok_def ob_ok_def)
  have l1: "length (b 1) \<le> ?n" by (simp add: b_def split: option.split)
  have "table_wf env t1" unfolding t1_def by (intro table_wf_bytes) (use lb l1 in simp)
  then obtain ob where ob: "set_table_1 t1 (s\<lparr>ps_its := i1, obj_table := t0\<rparr>) = s\<lparr>ps_its := i1, obj_table := t0, g_ps_object := ob\<rparr>" "ob_ok env ob"
    using set_table_1_ok[of t1 "s\<lparr>ps_its := i1, obj_table := t0\<rparr>"] ok(2) by (auto simp: ps_ram_ok_def)
  have "ps_object_table_fs_read_table env s = Some (Inr \<lparr>table_1 = t1,
      table_state_0 = (if r0 = Inr () then PS_OBJ_TABLE_VALID else PS_OBJ_TABLE_INVALID), table_state_1 = (if r1 = Inr () then PS_OBJ_TABLE_VALID else PS_OBJ_TABLE_INVALID),
      init_nvc_1 = 0, init_nvc_3 = 0\<rparr>, s\<lparr>ps_its := i1, obj_table := t0, g_ps_object := ob\<rparr>)"
    unfolding ps_object_table_fs_read_table_def Let_def PS_OBJ_TABLE_IDX_0_def PS_OBJ_TABLE_IDX_1_def g0(1) option.case prod.case g1(1) t0_def[symmetric] t1_def[symmetric] ob(1) by simp
  moreover have "table_label env t0 = read_table 0 (table_bytes (obj_table s)) s" "table_label env t1 = read_table 1 (take ?n (ob_data (g_ps_object s))) s"
    by (simp_all add: read_table_def t0_def t1_def b_def)
  ultimately show ?thesis using g0(4,5) g1(2-5) ob(2)
    by (intro exI[of _ "r0 = Inr ()"] exI[of _ "r1 = Inr ()"] exI[of _ t0] exI[of _ t1] exI[of _ ob] exI[of _ i1]) simp
qed

text \<open>
  The start as a whole: a table is chosen by the verdicts, the other file is removed, and the counters
  are made equal. When no table is valid nothing is changed on flash.
\<close>

lemma init_ok:
  assumes ok: "ifs_ok s" "ps_ram_ok env s" and b: "b = take (PS_OBJ_TABLE_SIZE env) (ob_data (g_ps_object s))"
  shows "\<exists>ok0 ok1 r t. ps_object_table_init env s = Some (r, t) \<and> ifs_ok t \<and> ps_ram_ok env t \<and> ps_req t = ps_req s \<and> cnt t 0 = cnt s 0
    \<and> (fs s (PS_TABLE_FS_ID 0) = None \<longrightarrow> \<not> ok0) \<and> (\<forall>f. fs s (PS_TABLE_FS_ID 0) = Some f \<and> f \<noteq> [] \<longrightarrow> ok0)
    \<and> (fs s (PS_TABLE_FS_ID 1) = None \<longrightarrow> \<not> ok1) \<and> (\<forall>f. fs s (PS_TABLE_FS_ID 1) = Some f \<and> f \<noteq> [] \<longrightarrow> ok1)
    \<and> (case chosen_table (table_verdict dec (cnt s) ok0 (read_table 0 (table_bytes (obj_table s)) s)) (table_verdict dec (cnt s) ok1 (read_table 1 b s)) of
         None \<Rightarrow> r = Inl PSA_ERROR_GENERIC_ERROR \<and> fs t = fs s \<and> cnt t = cnt s
       | Some a \<Rightarrow> r = Inr () \<and> active_table t = a \<and> scratch_table t = 1 - a \<and> obj_table t = read_table a (if a = 0 then table_bytes (obj_table s) else b) s
           \<and> fs t = (fs s)(PS_TABLE_FS_ID (1 - a) := None) \<and> cnt t 1 = max (cnt s 0) (cnt s 1) \<and> cnt t 2 = max (cnt s 0) (cnt s 2))"
proof -
  have tw: "table_wf env (obj_table s)" using ok(2) by (simp add: ps_ram_ok_def)
  have lb: "length b = PS_OBJ_TABLE_SIZE env" using ok(2) table_fits by (auto simp: b ps_ram_ok_def ob_ok_def)
  obtain ok0 ok1 t0 t1 ob i where rd: "ps_object_table_fs_read_table env s = Some (Inr \<lparr>table_1 = t1,
      table_state_0 = (if ok0 then PS_OBJ_TABLE_VALID else PS_OBJ_TABLE_INVALID), table_state_1 = (if ok1 then PS_OBJ_TABLE_VALID else PS_OBJ_TABLE_INVALID),
      init_nvc_1 = 0, init_nvc_3 = 0\<rparr>, s\<lparr>ps_its := i, obj_table := t0, g_ps_object := ob\<rparr>)"
    "table_label env t0 = read_table 0 (table_bytes (obj_table s)) s" "table_label env t1 = read_table 1 b s" "its_ok i" "files i = fs s" "ob_ok env ob"
    "fs s (PS_TABLE_FS_ID 0) = None \<longrightarrow> \<not> ok0" "\<forall>f. fs s (PS_TABLE_FS_ID 0) = Some f \<and> f \<noteq> [] \<longrightarrow> ok0"
    "fs s (PS_TABLE_FS_ID 1) = None \<longrightarrow> \<not> ok1" "\<forall>f. fs s (PS_TABLE_FS_ID 1) = Some f \<and> f \<noteq> [] \<longrightarrow> ok1"
    using fs_read_ok[OF ok] unfolding b[symmetric] by (elim exE conjE) (rule that)
  let ?T0 = "read_table 0 (table_bytes (obj_table s)) s" and ?T1 = "read_table 1 b s"
  have wf: "table_wf env ?T0" "table_wf env ?T1" using read_table_wf length_table_bytes[OF tw] lb by auto
  obtain ob' where ob': "set_table_1 ?T1 (s\<lparr>ps_its := i, g_ps_object := ob, obj_table := ?T0\<rparr>) = s\<lparr>ps_its := i, obj_table := ?T0, g_ps_object := ob'\<rparr>" "ob_ok env ob'"
    using set_table_1_ok[OF wf(2), of "s\<lparr>ps_its := i, g_ps_object := ob, obj_table := ?T0\<rparr>"] rd(6) by auto
  define ctx where "ctx = \<lparr>table_1 = ?T1, table_state_0 = (if ok0 then PS_OBJ_TABLE_VALID else PS_OBJ_TABLE_INVALID),
      table_state_1 = (if ok1 then PS_OBJ_TABLE_VALID else PS_OBJ_TABLE_INVALID), init_nvc_1 = 0, init_nvc_3 = 0\<rparr>"
  define s1 where "s1 = s\<lparr>ps_its := i, obj_table := ?T0, g_ps_object := ob'\<rparr>"
  have s1: "ifs_ok s1" "ps_ram_ok env s1" "obj_table s1 = ?T0" "cnt s1 = cnt s" "fs s1 = fs s" using ok rd(4,5) wf(1) ob'(2) by (auto simp: s1_def ps_ifs_ok_def ps_ram_ok_def)
  have cx: "table_1 ctx = ?T1" "(table_state_0 ctx = PS_OBJ_TABLE_VALID) = ok0" "(table_state_1 ctx = PS_OBJ_TABLE_VALID) = ok1"
    "table_state_0 ctx \<in> {PS_OBJ_TABLE_VALID, PS_OBJ_TABLE_INVALID}" "table_state_1 ctx \<in> {PS_OBJ_TABLE_VALID, PS_OBJ_TABLE_INVALID}"
    by (simp_all add: ctx_def)
  obtain ctx' n k where a: "ps_object_table_nvc_authenticate env ctx s1 = Some (Inr ctx', s1\<lparr>ps_nv := n, ps_keys := k\<rparr>)" "nv_ok n" "counter n = cnt s" "keys_ok k"
    "table_1 ctx' = ?T1" "init_nvc_1 ctx' = cnt s 0"
    "table_state_0 (ps_object_table_validate_version ?T0 ctx') = table_verdict dec (cnt s) ok0 ?T0"
    "table_state_1 (ps_object_table_validate_version ?T0 ctx') = table_verdict dec (cnt s) ok1 ?T1"
    using nvc_authenticate_ok[OF s1(1), of ctx, unfolded s1(3,4) cx(1,2,3), OF wf cx(4,5)] by blast
  define v where "v = ps_object_table_validate_version ?T0 ctx'"
  have v: "table_1 v = ?T1" "init_nvc_1 v = cnt s 0" "table_state_0 v = table_verdict dec (cnt s) ok0 ?T0" "table_state_1 v = table_verdict dec (cnt s) ok1 ?T1"
    using a(5-8) by (auto simp: v_def ps_object_table_validate_version_def Let_def)
  let ?s2 = "s1\<lparr>ps_nv := n, ps_keys := k\<rparr>"
  have s2: "ifs_ok ?s2" "ps_ram_ok env ?s2" using s1 a by (auto simp: ps_ifs_ok_def ps_ram_ok_def)
  have run: "ps_object_table_init env s = bind_p (ps_set_active_object_table v) (\<lambda>_. bind_p (gets_p scratch_table) (\<lambda>scratch.
     bind_p (remove_stale env (PS_TABLE_FS_ID scratch)) (\<lambda>_. bind_p (ps_object_table_align_nv_counters env (init_nvc_1 v)) (\<lambda>_.
     modify_p (\<lambda>s. ps_crypto_set_iv (tb_crypto (obj_table s)) s))))) ?s2"
    using rd(1) a(1) ob'(1)
    by (simp add: ps_object_table_init_def bind_p_Inr Let_def rd(2,3) ctx_def s1_def v_def a(5))
  show ?thesis
  proof (cases "chosen_table (table_verdict dec (cnt s) ok0 ?T0) (table_verdict dec (cnt s) ok1 ?T1)")
    case None
    then have "ps_set_active_object_table v ?s2 = Some (Inl PSA_ERROR_GENERIC_ERROR, ?s2)"
      by (auto simp: ps_set_active_object_table_def v chosen_table_def split: if_splits)
    then have "ps_object_table_init env s = Some (Inl PSA_ERROR_GENERIC_ERROR, ?s2)" by (simp add: run bind_p_Inl)
    then show ?thesis using None rd(7-10) s2 s1 a(3)
      by (intro exI[of _ ok0] exI[of _ ok1] exI[of _ "Inl PSA_ERROR_GENERIC_ERROR"] exI[of _ ?s2]) (simp add: s1_def)
  next
    case (Some c)
    define s3 where "s3 = ?s2\<lparr>active_table := c, scratch_table := 1 - c, obj_table := (if c = 0 then ?T0 else ?T1)\<rparr>"
    have c: "c < 2" "1 - c < 2" using Some by (auto simp: chosen_table_def split: if_splits)
    have "ps_set_active_object_table v ?s2 = Some (Inr (), s3)"
      using Some s1(3) by (auto simp: ps_set_active_object_table_def v chosen_table_def s3_def s1_def PS_OBJ_TABLE_IDX_0_def PS_OBJ_TABLE_IDX_1_def split: if_splits)
    moreover have s3: "its_ok (ps_its s3)" "nv_ok (ps_nv s3)" "scratch_table s3 = 1 - c" "fs s3 = fs s" "cnt s3 = cnt s" using rd(4,5) a(2,3) by (auto simp: s3_def s1_def)
    obtain i4 where i4: "remove_stale env (PS_TABLE_FS_ID (1 - c)) s3 = Some (Inr (), s3\<lparr>ps_its := i4\<rparr>)" "its_ok i4" "files i4 = (fs s)(PS_TABLE_FS_ID (1 - c) := None)"
      using remove_stale_ok[OF s3(1) table_uid[OF c(2)]] s3(4) by auto
    have bd: "cnt s 0 < SIZE_MAX_P1" using nv.nv_bound[of "ps_nv s" 0] ok(1) by (simp add: ps_ifs_ok_def)
    obtain n5 where n5: "ps_object_table_align_nv_counters env (cnt s 0) (s3\<lparr>ps_its := i4\<rparr>) = Some (Inr (), s3\<lparr>ps_its := i4, ps_nv := n5\<rparr>)" "nv_ok n5"
      "counter n5 0 = cnt s 0" "counter n5 1 = max (cnt s 0) (cnt s 1)" "counter n5 2 = max (cnt s 0) (cnt s 2)"
      using align_ok[of "s3\<lparr>ps_its := i4\<rparr>", OF _ bd] s3(2,5) by auto
    define t where "t = ps_crypto_set_iv (tb_crypto (obj_table s3)) (s3\<lparr>ps_its := i4, ps_nv := n5\<rparr>)"
    ultimately have "ps_object_table_init env s = Some (Inr (), t)"
      using s3(3) i4(1) n5(1) by (simp add: run bind_p_Inr v(2) t_def)
    moreover have "table_wf env (obj_table s3)" using wf by (simp add: s3_def)
    then have "ps_ram_ok env t" "ifs_ok t" using s2 i4(2) n5(2) c by (auto simp: t_def s3_def ps_crypto_set_iv_def ps_ram_ok_def ps_ifs_ok_def table_wf_def crypto_wf_def)
    moreover have "active_table t = c" "scratch_table t = 1 - c" "obj_table t = read_table c (if c = 0 then table_bytes (obj_table s) else b) s"
      "fs t = (fs s)(PS_TABLE_FS_ID (1 - c) := None)" "cnt t = counter n5" "ps_req t = ps_req s"
      using i4(3) c(1) by (auto simp: t_def s3_def s1_def ps_crypto_set_iv_def less_2_cases_iff)
    ultimately show ?thesis using Some rd(7-10) n5(3-5) by (intro exI[of _ ok0] exI[of _ ok1] exI[of _ "Inr ()"] exI[of _ t]) simp
  qed
qed


section \<open>Resets\<close>

lemma read_table_back:
  assumes "fs s (PS_TABLE_FS_ID a) = Some (table_bytes t)" "table_wf env t" "table_label env t = t" "length buf = PS_OBJ_TABLE_SIZE env"
  shows "read_table a buf s = t"
proof -
  have "take (PS_OBJ_TABLE_SIZE env) (table_bytes t) = table_bytes t" "wr buf 0 (table_bytes t) = table_bytes t"
    using length_table_bytes[OF assms(2)] assms(4) by (simp_all add: wr_def)
  then show ?thesis using assms by (simp add: read_table_def table_back)
qed

lemma table_bytes_nonempty [simp]: "table_bytes t \<noteq> []" by (simp add: table_bytes_def table_data_def)

text \<open>The flash holds one table, or the old and the new one.\<close>

lemma init_one_table:
  assumes ok: "ifs_ok s" "ps_ram_ok env s" and a: "a < 2"
    and F: "fs s (PS_TABLE_FS_ID a) = Some (table_bytes t)" "fs s (PS_TABLE_FS_ID (1 - a)) = None" and t: "table_wf env t" "table_label env t = t"
  shows "\<exists>r u. ps_object_table_init env s = Some (r, u) \<and> ifs_ok u \<and> ps_ram_ok env u \<and> ps_req u = ps_req s \<and> cnt u 0 = cnt s 0
    \<and> (if table_verdict dec (cnt s) True t = PS_OBJ_TABLE_INVALID then r = Inl PSA_ERROR_GENERIC_ERROR \<and> fs u = fs s \<and> cnt u = cnt s
        else r = Inr () \<and> active_table u = a \<and> scratch_table u = 1 - a \<and> obj_table u = t \<and> fs u = fs s
           \<and> cnt u 1 = max (cnt s 0) (cnt s 1) \<and> cnt u 2 = max (cnt s 0) (cnt s 2))"
proof -
  define b where "b = take (PS_OBJ_TABLE_SIZE env) (ob_data (g_ps_object s))"
  have lb: "length b = PS_OBJ_TABLE_SIZE env" "length (table_bytes (obj_table s)) = PS_OBJ_TABLE_SIZE env"
    using ok(2) table_fits length_table_bytes by (auto simp: b_def ps_ram_ok_def ob_ok_def)
  have rt: "read_table a (if a = 0 then table_bytes (obj_table s) else b) s = t" using read_table_back[OF F(1) t] lb by simp
  have inv: "table_verdict dec c False x = PS_OBJ_TABLE_INVALID" for c x by (simp add: table_verdict_def Let_def)
  have none: "(fs s)(PS_TABLE_FS_ID (1 - a) := None) = fs s" using F(2) by auto
  obtain ok0 ok1 r u where i: "ps_object_table_init env s = Some (r, u)" "ifs_ok u" "ps_ram_ok env u" "ps_req u = ps_req s" "cnt u 0 = cnt s 0"
    "fs s (PS_TABLE_FS_ID 0) = None \<longrightarrow> \<not> ok0" "\<forall>f. fs s (PS_TABLE_FS_ID 0) = Some f \<and> f \<noteq> [] \<longrightarrow> ok0"
    "fs s (PS_TABLE_FS_ID 1) = None \<longrightarrow> \<not> ok1" "\<forall>f. fs s (PS_TABLE_FS_ID 1) = Some f \<and> f \<noteq> [] \<longrightarrow> ok1"
    "case chosen_table (table_verdict dec (cnt s) ok0 (read_table 0 (table_bytes (obj_table s)) s)) (table_verdict dec (cnt s) ok1 (read_table 1 b s)) of
         None \<Rightarrow> r = Inl PSA_ERROR_GENERIC_ERROR \<and> fs u = fs s \<and> cnt u = cnt s
       | Some a \<Rightarrow> r = Inr () \<and> active_table u = a \<and> scratch_table u = 1 - a \<and> obj_table u = read_table a (if a = 0 then table_bytes (obj_table s) else b) s
           \<and> fs u = (fs s)(PS_TABLE_FS_ID (1 - a) := None) \<and> cnt u 1 = max (cnt s 0) (cnt s 1) \<and> cnt u 2 = max (cnt s 0) (cnt s 2)"
    using init_ok[OF ok b_def] by (elim exE conjE) (rule that)
  have "chosen_table (table_verdict dec (cnt s) ok0 (read_table 0 (table_bytes (obj_table s)) s)) (table_verdict dec (cnt s) ok1 (read_table 1 b s))
      = (if table_verdict dec (cnt s) True t = PS_OBJ_TABLE_INVALID then None else Some a)"
  proof (cases "a = 0")
    case True
    then have "ok0" "\<not> ok1" using i(7,8) F by auto
    then show ?thesis using rt True inv by (simp add: chosen_table_def)
  next
    case False
    then have "a = 1" using a by auto
    then have "\<not> ok0" "ok1" "a = 1" using i(6,9) F by auto
    then show ?thesis using rt inv by (simp add: chosen_table_def)
  qed
  then show ?thesis using i(1-5,10) rt none by (intro exI[of _ r] exI[of _ u]) (auto split: if_splits)
qed

lemma reset_ok:
  assumes ok: "ifs_ok s" and inv: "ps_inv env dec (fs s) (cnt s) s" and r: "ifs_ok s'" "ps_ram_ok env s'" "fs s' = fs s" "cnt s' = cnt s"
  shows "\<exists>t. tfm_ps_init env s' = Some (Inr (), t) \<and> ifs_ok t \<and> ps_inv env dec (fs t) (cnt t) t \<and> fs t = fs s \<and> obj_table t = obj_table s"
proof -
  let ?t = "obj_table s" and ?a = "active_table s"
  have i: "table_wf env ?t" "table_label env ?t = ?t" "?a < 2" "fs s' (PS_TABLE_FS_ID ?a) = Some (table_bytes ?t)" "fs s' (PS_TABLE_FS_ID (1 - ?a)) = None"
    "cnt s 1 = cnt s 0" "cnt s 2 = cnt s 0" "table_valid env dec ?t (cnt s 0)"
    using inv r(3) by (auto simp: ps_inv_def ps_ram_ok_def table_valid_def)
  have "table_verdict dec (cnt s') True ?t = PS_OBJ_TABLE_NVC_1_VALID" using i(8) r(4) by (simp add: table_verdict_def table_valid_def Let_def)
  then obtain u where u: "ps_object_table_init env s' = Some (Inr (), u)" "ifs_ok u" "ps_ram_ok env u" "active_table u = ?a" "scratch_table u = 1 - ?a" "obj_table u = ?t"
    "fs u = fs s" "cnt u 0 = cnt s 0" "cnt u 1 = cnt s 0" "cnt u 2 = cnt s 0"
    using init_one_table[OF r(1,2) i(3,4,5,1,2)] r(3,4) i(6,7) by auto
  have "tfm_ps_init env s' = Some (Inr (), u)" using u(1) by (simp add: tfm_ps_init_def ps_system_prepare_def bind_p_try)
  moreover have "ps_inv env dec (fs u) (cnt u) u" using inv u by (auto simp: ps_inv_def)
  ultimately show ?thesis using u by (intro exI[of _ u]) simp
qed

text \<open>
  The start accepts only a table that is authenticated together with the first counter, or with the
  third one when it agrees with the second.
\<close>

lemma init_authentic:
  assumes ok: "ifs_ok s" "ps_ram_ok env s" and i: "ps_object_table_init env s = Some (Inr (), t)"
  shows "table_valid env dec (obj_table t) (cnt s 0) \<or> cnt s 2 = cnt s 1 \<and> cnt s 2 \<noteq> 0 \<and> table_valid env dec (obj_table t) (cnt s 2)"
proof -
  define b where "b = take (PS_OBJ_TABLE_SIZE env) (ob_data (g_ps_object s))"
  obtain ok0 ok1 where c: "case chosen_table (table_verdict dec (cnt s) ok0 (read_table 0 (table_bytes (obj_table s)) s)) (table_verdict dec (cnt s) ok1 (read_table 1 b s)) of
         None \<Rightarrow> False | Some a \<Rightarrow> obj_table t = read_table a (if a = 0 then table_bytes (obj_table s) else b) s"
    using init_ok[OF ok b_def] i by (elim exE conjE) (rule that, auto split: option.splits)
  have lab: "table_label env (read_table a x s) = read_table a x s" for a x by (simp add: read_table_def table_label_def)
  have v: "table_verdict dec c ok x \<noteq> PS_OBJ_TABLE_INVALID \<Longrightarrow> table_label env x = x \<Longrightarrow>
      table_valid env dec x (c 0) \<or> c 2 = c 1 \<and> c 2 \<noteq> 0 \<and> table_valid env dec x (c 2)" for c ok x
    by (auto simp: table_verdict_def table_valid_def Let_def split: if_splits)
  have v1: "table_verdict dec (cnt s) ok1 (read_table 1 b s) \<noteq> PS_OBJ_TABLE_INVALID \<or> table_verdict dec (cnt s) ok1 (read_table 1 b s) = PS_OBJ_TABLE_NVC_1_VALID
      \<Longrightarrow> table_valid env dec (read_table 1 b s) (cnt s 0) \<or> cnt s 2 = cnt s 1 \<and> cnt s 2 \<noteq> 0 \<and> table_valid env dec (read_table 1 b s) (cnt s 2)"
    by (rule v[where ok = ok1]) (auto intro: lab)
  show ?thesis using c v[of "cnt s" ok0, OF _ lab, of 0 "table_bytes (obj_table s)"] v1 by (auto simp: chosen_table_def split: if_splits option.splits)
qed

section \<open>Interrupted saves\<close>

text \<open>
  A save that was cut off after the first counter was incremented: the start still accepts the old table,
  by the third counter. But it makes the counters equal without saving the table again, so the next start
  finds no valid table.
\<close>

lemma interrupted_save:
  assumes ok: "ifs_ok s" "ps_ram_ok env s" and a: "a < 2"
    and F: "fs s (PS_TABLE_FS_ID a) = Some (table_bytes t)" "fs s (PS_TABLE_FS_ID (1 - a)) = None" and t: "table_wf env t" "table_valid env dec t c"
    and c: "c \<noteq> 0" "cnt s 0 = c + 1" "cnt s 1 = c" "cnt s 2 = c" and old: "\<not> table_valid env dec t (c + 1)"
  shows "\<exists>u. ps_object_table_init env s = Some (Inr (), u) \<and> obj_table u = t \<and> fs u = fs s \<and> ifs_ok u \<and> ps_ram_ok env u
    \<and> (\<forall>s'. ifs_ok s' \<and> ps_ram_ok env s' \<and> fs s' = fs u \<and> cnt s' = cnt u \<longrightarrow> (\<exists>v. ps_object_table_init env s' = Some (Inl PSA_ERROR_GENERIC_ERROR, v)))"
proof -
  have l: "table_label env t = t" using t(2) by (simp add: table_valid_def)
  have v: "table_verdict dec (cnt s) True t = PS_OBJ_TABLE_NVC_3_VALID" using t(2) old c by (simp add: table_verdict_def table_valid_def Let_def)
  then obtain u where u: "ps_object_table_init env s = Some (Inr (), u)" "obj_table u = t" "fs u = fs s" "cnt u 0 = c + 1" "cnt u 1 = c + 1" "cnt u 2 = c + 1"
    "ifs_ok u" "ps_ram_ok env u"
    using init_one_table[OF ok a F t(1) l] c by auto
  have "\<exists>v. ps_object_table_init env s' = Some (Inl PSA_ERROR_GENERIC_ERROR, v)" if s': "ifs_ok s'" "ps_ram_ok env s'" "fs s' = fs u" "cnt s' = cnt u" for s'
  proof -
    have "table_verdict dec (cnt s') True t = PS_OBJ_TABLE_INVALID"
      using t(2) old u(4-6) unfolding s'(4) by (simp add: table_verdict_def table_valid_def Let_def)
    then show ?thesis using init_one_table[OF s'(1,2) a _ _ t(1) l] F unfolding s'(3) u(3) by auto
  qed
  then show ?thesis using u by blast
qed

lemma init_two_tables:
  assumes ok: "ifs_ok s" "ps_ram_ok env s" and a: "a < 2"
    and F: "fs s (PS_TABLE_FS_ID a) = Some (table_bytes t)" "fs s (PS_TABLE_FS_ID (1 - a)) = Some (table_bytes t')" and t: "table_wf env t" "table_wf env t'" "table_label env t' = t'"
    and v: "table_valid env dec t (cnt s 0)" "\<not> table_valid env dec t' (cnt s 0)"
  shows "\<exists>u. ps_object_table_init env s = Some (Inr (), u) \<and> obj_table u = t \<and> active_table u = a \<and> ifs_ok u \<and> ps_ram_ok env u"
proof -
  define b where "b = take (PS_OBJ_TABLE_SIZE env) (ob_data (g_ps_object s))"
  have lb: "length b = PS_OBJ_TABLE_SIZE env" "length (table_bytes (obj_table s)) = PS_OBJ_TABLE_SIZE env"
    using ok(2) table_fits length_table_bytes by (auto simp: b_def ps_ram_ok_def ob_ok_def)
  have lt: "table_label env t = t" using v(1) by (simp add: table_valid_def)
  have rt: "read_table a x s = t" "read_table (1 - a) x s = t'" if "length x = PS_OBJ_TABLE_SIZE env" for x
    using read_table_back[OF F(1) t(1) lt that] read_table_back[OF F(2) t(2,3) that] by simp_all
  obtain ok0 ok1 r u where i: "ps_object_table_init env s = Some (r, u)" "ifs_ok u" "ps_ram_ok env u"
    "\<forall>f. fs s (PS_TABLE_FS_ID 0) = Some f \<and> f \<noteq> [] \<longrightarrow> ok0" "\<forall>f. fs s (PS_TABLE_FS_ID 1) = Some f \<and> f \<noteq> [] \<longrightarrow> ok1"
    "case chosen_table (table_verdict dec (cnt s) ok0 (read_table 0 (table_bytes (obj_table s)) s)) (table_verdict dec (cnt s) ok1 (read_table 1 b s)) of
         None \<Rightarrow> r = Inl PSA_ERROR_GENERIC_ERROR \<and> fs u = fs s \<and> cnt u = cnt s
       | Some a \<Rightarrow> r = Inr () \<and> active_table u = a \<and> scratch_table u = 1 - a \<and> obj_table u = read_table a (if a = 0 then table_bytes (obj_table s) else b) s
           \<and> fs u = (fs s)(PS_TABLE_FS_ID (1 - a) := None) \<and> cnt u 1 = max (cnt s 0) (cnt s 1) \<and> cnt u 2 = max (cnt s 0) (cnt s 2)"
    using init_ok[OF ok b_def] by (elim exE conjE) (rule that)
  have oks: "ok0" "ok1" using i(4,5) F a by (auto simp: less_2_cases_iff)
  have vt: "table_verdict dec (cnt s) True t = PS_OBJ_TABLE_NVC_1_VALID" using v(1) by (simp add: table_verdict_def table_valid_def Let_def)
  have vt': "table_verdict dec (cnt s) True t' \<noteq> PS_OBJ_TABLE_NVC_1_VALID" using v(2) t(3) by (auto simp: table_verdict_def table_valid_def Let_def)
  have "chosen_table (table_verdict dec (cnt s) ok0 (read_table 0 (table_bytes (obj_table s)) s)) (table_verdict dec (cnt s) ok1 (read_table 1 b s)) = Some a"
  proof (cases "a = 0")
    case True
    then show ?thesis using rt[OF lb(1)] rt[OF lb(2)] oks vt vt' by (simp add: chosen_table_def)
  next
    case False
    then have "a = 1" using a by simp
    then show ?thesis using rt[OF lb(1)] rt[OF lb(2)] oks vt vt' by (simp add: chosen_table_def)
  qed
  then show ?thesis using i(1-3,6) rt lb by (intro exI[of _ u]) auto
qed

text \<open>
  The power fails during a save: the next start finds the old table when the new one was not written
  yet, and the new one otherwise.
\<close>

lemma save_cut:
  assumes ok: "ifs_ok s" and inv: "ps_inv env dec (fs s) (cnt s) s" and c: "cnt s 0 \<noteq> 0" and old: "\<not> table_valid env dec (obj_table s) (cnt s 0 + 1)"
    and new: "table_wf env T" "table_label env T = T" "tb_version T = PS_OBJECT_SYSTEM_VERSION"
    and cut: "save_prefix env k (s\<lparr>obj_table := T\<rparr>) = Some (Inr (), t)"
    and r: "ifs_ok s'" "ps_ram_ok env s'" "fs s' = fs t" "cnt s' = cnt t"
  shows "\<exists>u. ps_object_table_init env s' = Some (Inr (), u) \<and> ifs_ok u \<and> ps_ram_ok env u
    \<and> (if k \<le> 1 then obj_table u = obj_table s else obj_table u = obj_table t \<and> resealed T (obj_table t))"
proof -
  let ?a = "active_table s" and ?s1 = "s\<lparr>obj_table := T\<rparr>"
  have i: "table_wf env (obj_table s)" "?a < 2" "scratch_table s = 1 - ?a" "fs s (PS_TABLE_FS_ID ?a) = Some (table_bytes (obj_table s))" "fs s (PS_TABLE_FS_ID (1 - ?a)) = None"
    "table_valid env dec (obj_table s) (cnt s 0)" "cnt s 1 = cnt s 0" "cnt s 2 = cnt s 0" "table_label env (obj_table s) = obj_table s"
    using inv by (auto simp: ps_inv_def ps_ram_ok_def table_valid_def)
  have s1: "ifs_ok ?s1" "ps_ram_ok env ?s1" using ok inv new(1) by (auto simp: ps_inv_def ps_ifs_ok_def ps_ram_ok_def)
  show ?thesis
  proof (cases "k \<le> 1")
    case True
    obtain n where n: "tfm_platform_nv_counter_increment env 0 (ps_nv s) = (cnt s 0 < SIZE_MAX_P1 - 1, n)"
      "counter n = (if cnt s 0 < SIZE_MAX_P1 - 1 then (cnt s)(0 := cnt s 0 + 1) else cnt s)"
      using nv.inc_nv[of "ps_nv s" 0] ok by (auto simp: ps_ifs_ok_def)
    have "fs t = fs s \<and> (cnt t = cnt s \<or> cnt t = (cnt s)(0 := cnt s 0 + 1))"
      using cut True n by (auto simp: save_prefix_def ps_increment_nv_counter_def TFM_PS_NV_COUNTER_1_def split: if_splits)
    then have t: "fs s' = fs s" "cnt s' = cnt s \<or> cnt s' = (cnt s)(0 := cnt s 0 + 1)" using r by auto
    have "table_verdict dec (cnt s') True (obj_table s) \<noteq> PS_OBJ_TABLE_INVALID"
      using t(2) i(6-8) c by (auto simp: table_verdict_def table_valid_def Let_def)
    then show ?thesis using init_one_table[OF r(1,2) i(2) _ _ i(1,9)] i(4,5) True unfolding t(1) by auto
  next
    case False
    then obtain v where v: "save_frame ?s1 v" "table_written ?s1 v"
      "Some (Inr (), t) = (if k = 2 then ret_p ()
            else if k = 3 then bind_p (ps_read_nv_counter env TFM_PS_NV_COUNTER_2) (\<lambda>w. nvc_increments env TFM_PS_NV_COUNTER_2 (cnt ?s1 0 + 1 - w))
            else ps_object_table_align_nv_counters env (cnt ?s1 0 + 1)) v" "cnt s 0 + 1 < SIZE_MAX_P1"
      using save_written[OF s1, of k] unfolding cut by auto
    have nv: "nv_ok (ps_nv v)" using v(1) by (simp add: save_frame_def ps_ifs_ok_def)
    have tv: "fs t = fs v \<and> obj_table t = obj_table v \<and> cnt t 0 = cnt v 0"
    proof (cases "k = 2 \<or> k = 3")
      case True
      obtain n1 where n1: "ps_read_nv_counter env TFM_PS_NV_COUNTER_2 v = Some (Inr (cnt v 1), v\<lparr>ps_nv := n1\<rparr>)" "nv_ok n1" "counter n1 = cnt v"
        using read_nv_ok[OF nv, of 1] by (auto simp: TFM_PS_NV_COUNTER_2_def)
      obtain q n2 where n2: "nvc_increments env TFM_PS_NV_COUNTER_2 (cnt s 0 + 1 - cnt v 1) (v\<lparr>ps_nv := n1\<rparr>) = Some (q, v\<lparr>ps_nv := n2\<rparr>)" "\<forall>d. d \<noteq> 1 \<longrightarrow> counter n2 d = cnt v d"
        using increments_ok[of "v\<lparr>ps_nv := n1\<rparr>" 1 "cnt s 0 + 1 - cnt v 1"] n1 by (auto simp: TFM_PS_NV_COUNTER_2_def)
      show ?thesis using True v(3) n1(1) n2 by (auto simp: bind_p_Inr split: if_splits)
    next
      case 4: False
      then show ?thesis using v(3) align_ok[OF nv v(4)] False by auto
    qed
    have w: "fs v = (fs s)(PS_TABLE_FS_ID (1 - ?a) \<mapsto> table_bytes (obj_table v))" "cnt v 0 = cnt s 0 + 1" "table_wf env (obj_table v)" "resealed T (obj_table v)"
      "dec (fill_key_label (tb_crypto (obj_table v))) (cr_iv (tb_crypto (obj_table v))) (assoc_data (obj_table v) (cnt s 0 + 1)) (cr_tag (tb_crypto (obj_table v))) = Some []"
      using v(1,2) i(3) by (auto simp: table_written_def save_frame_def ps_ram_ok_def)
    have tvld: "table_valid env dec (obj_table v) (cnt s' 0)" using w(2,5) tv r(4) resealedD[OF w(4)] new by (simp add: table_valid_def)
    have F: "fs s' (PS_TABLE_FS_ID (1 - ?a)) = Some (table_bytes (obj_table v))" "fs s' (PS_TABLE_FS_ID (1 - (1 - ?a))) = Some (table_bytes (obj_table s))"
      using w(1) tv r(3) i(2,4) by (auto simp: less_2_cases_iff PS_TABLE_FS_ID_def)
    have o: "\<not> table_valid env dec (obj_table s) (cnt s' 0)" using old w(2) tv r(4) by simp
    have "1 - ?a < 2" by simp
    from init_two_tables[OF r(1,2) this F w(3) i(1,9) tvld o] show ?thesis using False tv w(4) by auto
  qed
qed

end

end
