(* ===== verification/PS_Requests.thy ===== *)
theory PS_Requests
  imports PS_Remove PS_Boot
begin

text \<open>
  The requests of Protected Storage: the messages of its clients, with the arguments in the vectors, as
  operations on what is stored.
\<close>

lemma ps_inv_req [simp]: "ps_inv env dec F c (s\<lparr>ps_req := q\<rparr>) = ps_inv env dec F c s" "ps_ram_ok env (s\<lparr>ps_req := q\<rparr>) = ps_ram_ok env s"
  by (simp_all add: ps_inv_def ps_ram_ok_def)

lemma ps_inv_same:
  assumes "ps_inv env dec F c s" "ps_same s t" "ob_ok env (g_ps_object t)"
  shows "ps_inv env dec F c t"
  using assms by (auto simp: ps_inv_def ps_ram_ok_def ps_same_def)

context ps_storage
begin

lemma ifs_ok_req: "ifs_ok s \<Longrightarrow> req_ok q \<Longrightarrow> ifs_ok (s\<lparr>ps_req := q\<rparr>)" by (simp add: ps_ifs_ok_def)

lemma buf_size_ge: "28 \<le> buf_size" using asset_fits by simp

lemma ps_read_arg_ok:
  assumes "ifs_ok s" "i < 4" "n \<le> 12" "length (rest (ps_req s) i) = n"
  shows "\<exists>q. ps_read_arg env i n s = Some (Inr (rest (ps_req s) i), s\<lparr>ps_req := q\<rparr>) \<and> req_ok q
    \<and> rest q = (rest (ps_req s))(i := []) \<and> written q = written (ps_req s) \<and> room q = room (ps_req s)"
  using rv.read_vec[of "ps_req s" i n] assms buf_size_ge by (auto simp: ps_read_arg_def ps_ifs_ok_def)

text \<open>The contents of the storage in a state.\<close>

abbreviation stored_asset :: "('i, 'n, 'k, 'r) ps_state \<Rightarrow> int \<Rightarrow> nat \<Rightarrow> (byte list \<times> 32 word) option" where
  "stored_asset s \<equiv> ps_store dec (fs s) (obj_table s)"

abbreviation consistent :: "('i, 'n, 'k, 'r) ps_state \<Rightarrow> bool" where
  "consistent s \<equiv> ifs_ok s \<and> ps_inv env dec (fs s) (cnt s) s"

lemma tfm_ps_set_ok:
  assumes "consistent s" and k: "client_ok client" "uid < 2 ^ 64"
  shows "\<exists>r t. tfm_ps_set env client uid sz cf s = Some (r, t) \<and> ifs_ok t \<and> ps_ram_ok env t \<and> written (ps_req t) = written (ps_req s)
    \<and> (\<forall>e. ps_set_refusal env (stored_asset s client uid) uid sz cf = Some e \<longrightarrow> r = Inl e)
    \<and> (r = Inr () \<longrightarrow> uid \<noteq> 0 \<and> sz \<le> length (rest (ps_req s) 1) \<and> consistent t \<and> \<not> write_once (stored_asset s client uid)
        \<and> (\<forall>client' uid'. uid' \<noteq> 0 \<longrightarrow> stored_asset t client' uid'
            = (if client' = client \<and> uid' = uid then Some (take sz (rest (ps_req s) 1), cf) else stored_asset s client' uid')))"
proof -
  define bad where "bad \<longleftrightarrow> cf AND NOT (PSA_STORAGE_FLAG_WRITE_ONCE OR PSA_STORAGE_FLAG_NO_CONFIDENTIALITY OR PSA_STORAGE_FLAG_NO_REPLAY_PROTECTION) \<noteq> 0"
  have run: "tfm_ps_set env client uid sz cf s = (if uid = 0 then Some (Inl PSA_ERROR_INVALID_ARGUMENT, s)
      else if bad then Some (Inl PSA_ERROR_NOT_SUPPORTED, s) else ps_object_create env uid client cf sz s)"
    unfolding tfm_ps_set_def TFM_PS_INVALID_UID_def bad_def[symmetric] by simp
  have f: "ps_set_refusal env (stored_asset s client uid) uid sz cf = (if uid = 0 then Some PSA_ERROR_INVALID_ARGUMENT else if bad then Some PSA_ERROR_NOT_SUPPORTED
      else if sz > PS_MAX_ASSET_SIZE env then Some PSA_ERROR_INVALID_ARGUMENT else if write_once (stored_asset s client uid) then Some PSA_ERROR_NOT_PERMITTED else None)"
    unfolding ps_set_refusal_def bad_def ..
  have c: "ifs_ok s" "ps_inv env dec (fs s) (cnt s) s" "ps_ram_ok env s" using assms(1) by (auto simp: ps_inv_def)
  show ?thesis
  proof (cases "uid = 0 \<or> bad")
    case True
    then show ?thesis using c run by (cases "uid = 0") (auto simp: f ps_set_refusal_def[of _ _ 0])
  next
    case False
    then have u: "uid \<noteq> 0" and r: "tfm_ps_set env client uid sz cf s = ps_object_create env uid client cf sz s" using run by auto
    from create_ok[OF c(1,2) u k(2,1), of cf sz] obtain q t where t: "ps_object_create env uid client cf sz s = Some (q, t)" "ifs_ok t" "ps_ram_ok env t"
      "written (ps_req t) = written (ps_req s)" "sz > PS_MAX_ASSET_SIZE env \<longrightarrow> q = Inl PSA_ERROR_INVALID_ARGUMENT \<and> t = s"
      "sz \<le> PS_MAX_ASSET_SIZE env \<and> write_once (stored_asset s client uid) \<longrightarrow> q = Inl PSA_ERROR_NOT_PERMITTED"
      "q = Inr () \<longrightarrow> sz \<le> length (rest (ps_req s) 1) \<and> consistent t \<and> \<not> write_once (stored_asset s client uid)
        \<and> (\<forall>client' uid'. uid' \<noteq> 0 \<longrightarrow> stored_asset t client' uid'
            = (if client' = client \<and> uid' = uid then Some (take sz (rest (ps_req s) 1), cf) else stored_asset s client' uid'))" by blast
    have "q = Inl e" if "ps_set_refusal env (stored_asset s client uid) uid sz cf = Some e" for e
      using that t(5,6) False unfolding f by (auto split: if_splits)
    then show ?thesis unfolding r using t u by blast
  qed
qed

lemma ps_set_req_ok:
  assumes c: "consistent s" and sm: "sizes_match m (rest (ps_req s)) (room (ps_req s))" and cl: "client_ok (client_id m)"
    and m: "msg_type m = TFM_PS_SET" "length (rest (ps_req s) 0) = 8" "length (rest (ps_req s) 2) = 4"
  defines "v \<equiv> rest (ps_req s)"
  shows "\<exists>r t. tfm_protected_storage_service_sfn env stack m s = Some (r, t) \<and> ifs_ok t \<and> written (ps_req t) = written (ps_req s)
    \<and> (\<forall>e. ps_set_refusal env (stored_asset s (client_id m) (de64 (v 0))) (de64 (v 0)) (length (v 1)) (word_of_nat (de32 (v 2))) = Some e \<longrightarrow> r = Inl e)
    \<and> (r = Inr () \<longrightarrow> de64 (v 0) \<noteq> 0 \<and> consistent t \<and> \<not> write_once (stored_asset s (client_id m) (de64 (v 0)))
        \<and> (\<forall>client uid. uid \<noteq> 0 \<longrightarrow> stored_asset t client uid
            = (if client = client_id m \<and> uid = de64 (v 0) then Some (v 1, word_of_nat (de32 (v 2))) else stored_asset s client uid)))"
proof -
  have z: "in_size m ! 0 = 8" "in_size m ! 2 = 4" "unat (in_size m ! 1) = length (v 1)"
    using sm m(2,3) size_eq[of "in_size m ! 0" 8 8] size_eq[of "in_size m ! 2" 4 4] by (auto simp: sizes_match_def v_def)
  obtain q1 where q1: "ps_read_arg env 0 8 s = Some (Inr (v 0), s\<lparr>ps_req := q1\<rparr>)" "req_ok q1" "rest q1 = v(0 := [])" "written q1 = written (ps_req s)"
    using ps_read_arg_ok[of s 0 8] c m(2) by (auto simp: v_def)
  obtain q2 where q2: "ps_read_arg env 2 4 (s\<lparr>ps_req := q1\<rparr>) = Some (Inr (v 2), s\<lparr>ps_req := q2\<rparr>)" "req_ok q2" "rest q2 = v(0 := [], 2 := [])" "written q2 = written (ps_req s)"
    using ps_read_arg_ok[of "s\<lparr>ps_req := q1\<rparr>" 2 4] ifs_ok_req[OF _ q1(2)] c m(3) q1 by (auto simp: v_def)
  have run: "tfm_protected_storage_service_sfn env stack m s = tfm_ps_set env (client_id m) (de64 (v 0)) (length (v 1)) (word_of_nat (de32 (v 2))) (s\<lparr>ps_req := q2\<rparr>)"
    using m(1) z q1(1) q2(1) by (simp add: tfm_protected_storage_service_sfn_def ps_msg_consts tfm_ps_set_req_def bind_p_Inr)
  have c2: "consistent (s\<lparr>ps_req := q2\<rparr>)" using c ifs_ok_req[OF _ q2(2)] by simp
  from tfm_ps_set_ok[OF c2 cl de64_bound, of "v 0" "length (v 1)" "word_of_nat (de32 (v 2))"] show ?thesis
    unfolding run using q2(3,4) by auto
qed

lemma ps_get_req_ok:
  assumes c: "consistent s" and sm: "sizes_match m (rest (ps_req s)) (room (ps_req s))"
    and m: "msg_type m = TFM_PS_GET" "length (rest (ps_req s) 0) = 8" "length (rest (ps_req s) 1) = 4"
    and res: "res = ps_get_result (stored_asset s (client_id m) (de64 (rest (ps_req s) 0))) (de64 (rest (ps_req s) 0)) (de32 (rest (ps_req s) 1)) (room (ps_req s) 0)"
  shows "\<exists>t. tfm_protected_storage_service_sfn env stack m s = Some (map_sum id (\<lambda>_. ()) res, t) \<and> consistent t \<and> stored_asset t = stored_asset s
    \<and> written (ps_req t) = (case res of Inl _ \<Rightarrow> written (ps_req s) | Inr bs \<Rightarrow> (written (ps_req s))(0 := written (ps_req s) 0 @ bs))"
proof -
  define v where "v = rest (ps_req s)"
  have z: "in_size m ! 0 = 8" "in_size m ! 1 = 4" "unat (out_size m ! 0) = room (ps_req s) 0"
    using sm m(2,3) size_eq[of "in_size m ! 0" 8 8] size_eq[of "in_size m ! 1" 4 4] by (auto simp: sizes_match_def)
  obtain q1 where q1: "ps_read_arg env 0 8 s = Some (Inr (v 0), s\<lparr>ps_req := q1\<rparr>)" "req_ok q1" "rest q1 = v(0 := [])" "written q1 = written (ps_req s)" "room q1 = room (ps_req s)"
    using ps_read_arg_ok[of s 0 8] c m(2) by (auto simp: v_def)
  obtain q2 where q2: "ps_read_arg env 1 4 (s\<lparr>ps_req := q1\<rparr>) = Some (Inr (v 1), s\<lparr>ps_req := q2\<rparr>)" "req_ok q2" "written q2 = written (ps_req s)" "room q2 = room (ps_req s)"
    using ps_read_arg_ok[of "s\<lparr>ps_req := q1\<rparr>" 1 4] ifs_ok_req[OF _ q1(2)] c m(3) q1 by (auto simp: v_def)
  let ?s = "s\<lparr>ps_req := q2\<rparr>"
  have run: "tfm_protected_storage_service_sfn env stack m s = bind_p (tfm_ps_get env (client_id m) (de64 (v 0)) (de32 (v 1)) (room (ps_req s) 0)) (\<lambda>_. ret_p ()) ?s"
    using m(1) z q1(1) q2(1) by (simp add: tfm_protected_storage_service_sfn_def ps_msg_consts tfm_ps_get_req_def bind_p_Inr)
  have "ifs_ok ?s" "ps_ram_ok env ?s" "objects_ok env dec (fs ?s) (obj_table ?s)" "room (ps_req s) 0 \<le> room (ps_req ?s) 0"
    "res = ps_get_result (ps_store dec (fs ?s) (obj_table ?s) (client_id m) (de64 (v 0))) (de64 (v 0)) (de32 (v 1)) (room (ps_req s) 0)"
    using c ifs_ok_req[OF _ q2(2)] q2(4) res by (auto simp: ps_inv_def v_def)
  note g = tfm_ps_get_ok[OF this]
  have w: "written (ps_req ?s) = written (ps_req s)" "fs ?s = fs s" using q2(3) by simp_all
  obtain t where t: "tfm_ps_get env (client_id m) (de64 (v 0)) (de32 (v 1)) (room (ps_req s) 0) ?s = Some (map_sum id length res, t)"
    "ifs_ok t" "ps_same ?s t" "ob_ok env (g_ps_object t)" "fs t = fs s"
    "written (ps_req t) = (case res of Inl _ \<Rightarrow> written (ps_req s) | Inr bs \<Rightarrow> (written (ps_req s))(0 := written (ps_req s) 0 @ bs))"
    using g unfolding w by blast
  have "tfm_protected_storage_service_sfn env stack m s = Some (map_sum id (\<lambda>_. ()) res, t)"
    unfolding run using t(1) by (cases res) (simp_all add: bind_p_def)
  moreover have "ps_inv env dec (fs t) (cnt t) t" "stored_asset t = stored_asset s"
    using ps_inv_same[of env dec "fs s" "cnt s" ?s t] c t(3-5) by (auto simp: ps_same_def)
  ultimately show ?thesis using t(2,6) by blast
qed

lemma ps_remove_req_ok:
  assumes c: "consistent s" and sm: "sizes_match m (rest (ps_req s)) (room (ps_req s))" and m: "msg_type m = TFM_PS_REMOVE" "length (rest (ps_req s) 0) = 8"
  defines "uid \<equiv> de64 (rest (ps_req s) 0)"
  shows "\<exists>r t. tfm_protected_storage_service_sfn env stack m s = Some (r, t) \<and> ifs_ok t \<and> written (ps_req t) = written (ps_req s)
    \<and> (case ps_remove_refusal (stored_asset s (client_id m) uid) uid of
         Some e \<Rightarrow> r = Inl e \<and> consistent t \<and> stored_asset t = stored_asset s
       | None \<Rightarrow> (case r of
           Inr _ \<Rightarrow> consistent t \<and> (\<forall>client uid'. uid' \<noteq> 0 \<longrightarrow> stored_asset t client uid' = (if client = client_id m \<and> uid' = uid then None else stored_asset s client uid'))
         | Inl _ \<Rightarrow> stored_asset t = stored_asset s))"
proof -
  have z: "in_size m ! 0 = 8" using sm m(2) size_eq[of "in_size m ! 0" 8 8] by (auto simp: sizes_match_def)
  obtain q1 where q1: "ps_read_arg env 0 8 s = Some (Inr (rest (ps_req s) 0), s\<lparr>ps_req := q1\<rparr>)" "req_ok q1" "written q1 = written (ps_req s)"
    using ps_read_arg_ok[of s 0 8] c m(2) by auto
  have run: "tfm_protected_storage_service_sfn env stack m s = tfm_ps_remove env (client_id m) uid (s\<lparr>ps_req := q1\<rparr>)"
    using m(1) z q1(1) by (simp add: tfm_protected_storage_service_sfn_def ps_msg_consts tfm_ps_remove_req_def bind_p_Inr uid_def)
  have c1: "ifs_ok (s\<lparr>ps_req := q1\<rparr>)" "ps_inv env dec (fs (s\<lparr>ps_req := q1\<rparr>)) (cnt (s\<lparr>ps_req := q1\<rparr>)) (s\<lparr>ps_req := q1\<rparr>)" using c ifs_ok_req[OF _ q1(2)] by auto
  have sel: "fs (s\<lparr>ps_req := q1\<rparr>) = fs s" "obj_table (s\<lparr>ps_req := q1\<rparr>) = obj_table s" "ps_req (s\<lparr>ps_req := q1\<rparr>) = q1" by simp_all
  obtain r t where t: "tfm_ps_remove env (client_id m) uid (s\<lparr>ps_req := q1\<rparr>) = Some (r, t)" "ifs_ok t" "ps_req t = q1"
    "case ps_remove_refusal (stored_asset s (client_id m) uid) uid of
         Some e \<Rightarrow> r = Inl e \<and> ps_inv env dec (fs t) (cnt t) t \<and> fs t = fs s \<and> obj_table t = obj_table s
       | None \<Rightarrow> (case r of
           Inr _ \<Rightarrow> ps_inv env dec (fs t) (cnt t) t \<and> (\<forall>client' uid'. uid' \<noteq> 0 \<longrightarrow> stored_asset t client' uid'
                     = (if client' = client_id m \<and> uid' = uid then None else stored_asset s client' uid'))
         | Inl _ \<Rightarrow> stored_asset t = stored_asset s)"
    using remove_ok[OF c1, of "client_id m" uid] unfolding sel by blast
  show ?thesis using t q1(3) unfolding run by (intro exI[of _ r] exI[of _ t]) (auto split: option.splits sum.splits)
qed

end

end
