(* ===== verification/ITS_Client.thy ===== *)
theory ITS_Client
  imports PS_Contracts ITS_Requests
begin

text \<open>
  The client side of Internal Trusted Storage (src/interface/src/tfm_its_api.c): a call gives the service a
  message with the client's vectors. Here the vectors are lists of bytes, as the contract of the request
  describes them; the partition manager provides the same contract. The calls of one client then
  satisfy the contract \<open>its_client\<close> that Protected Storage relies on.
\<close>

section \<open>A call\<close>

record its_call =
  call_in :: "nat \<Rightarrow> byte list"
  call_out :: "nat \<Rightarrow> byte list"
  call_room :: "nat \<Rightarrow> nat"

definition call_read :: "nat \<Rightarrow> nat \<Rightarrow> its_call \<Rightarrow> (byte list \<times> its_call) option" where
  "call_read i n c = Some (take n (call_in c i), c\<lparr>call_in := (call_in c)(i := drop n (call_in c i))\<rparr>)"

definition call_write :: "nat \<Rightarrow> byte list \<Rightarrow> its_call \<Rightarrow> its_call option" where
  "call_write i bs c = (if length bs \<le> call_room c i
     then Some (c\<lparr>call_out := (call_out c)(i := call_out c i @ bs), call_room := (call_room c)(i := call_room c i - length bs)\<rparr>) else None)"

interpretation cv: request_vectors call_read call_write "\<lambda>_. True" SIZE_MAX_P1 call_in call_out call_room
  by unfold_locales (simp_all add: call_read_def call_write_def)

definition call_its_env :: "its_call its_env \<Rightarrow> its_call its_env" where
  "call_its_env env = env\<lparr>psa_read_req := call_read, psa_write_req := call_write\<rparr>"

lemma call_its_env_sel [simp]: "psa_read_req (call_its_env env) = call_read" "psa_write_req (call_its_env env) = call_write"
  "its_store (call_its_env env) = its_store env"
  by (simp_all add: call_its_env_def its_store_def its_files_def get_fs_ctx_def fun_eq_iff)

interpretation itc: its_requests "call_its_env env" "\<lambda>_. True" SIZE_MAX_P1 call_in call_out call_room for env
  by (simp add: its_requests_def cv.request_vectors_axioms)

definition call_vec :: "byte list list \<Rightarrow> nat \<Rightarrow> byte list" where "call_vec bss i = (if i < length bss then bss ! i else [])"
definition call_len :: "nat list \<Rightarrow> nat \<Rightarrow> nat" where "call_len ns i = (if i < length ns then ns ! i else 0)"

definition call_msg :: "int \<Rightarrow> int \<Rightarrow> byte list list \<Rightarrow> nat list \<Rightarrow> psa_msg_t" where
  "call_msg client ty ins outs = \<lparr>msg_type = ty, msg_handle = 0, client_id = client, rhandle = 0,
     in_size = map (\<lambda>i. word_of_nat (length (call_vec ins i))) [0..<4], out_size = map (\<lambda>i. word_of_nat (call_len outs i)) [0..<4]\<rparr>"

definition psa_call_its :: "its_call its_env \<Rightarrow> int \<Rightarrow> int \<Rightarrow> byte list list \<Rightarrow> nat list \<Rightarrow> (ram_dev, its_call) its_state
    \<Rightarrow> ((psa_error + unit) \<times> (ram_dev, its_call) its_state) option" where
  "psa_call_its env client ty ins outs s =
     tfm_internal_trusted_storage_service_sfn (call_its_env env) (call_msg client ty ins outs)
       (s\<lparr>req := \<lparr>call_in = call_vec ins, call_out = (\<lambda>_. []), call_room = call_len outs\<rparr>\<rparr>)"

section \<open>The client calls\<close>

definition psa_its_set_call :: "its_call its_env \<Rightarrow> int \<Rightarrow> nat \<Rightarrow> byte list \<Rightarrow> 32 word \<Rightarrow> (ram_dev, its_call) its_state
    \<Rightarrow> ((psa_error + unit) \<times> (ram_dev, its_call) its_state) option" where
  "psa_its_set_call env client uid data create_flags = psa_call_its env client TFM_ITS_SET [le64 uid, data, le32 (unat create_flags)] []"

definition psa_its_get_call :: "its_call its_env \<Rightarrow> int \<Rightarrow> nat \<Rightarrow> nat \<Rightarrow> nat \<Rightarrow> (ram_dev, its_call) its_state
    \<Rightarrow> (((psa_error + unit) \<times> byte list) \<times> (ram_dev, its_call) its_state) option" where
  "psa_its_get_call env client uid data_offset data_size s =
     (case psa_call_its env client TFM_ITS_GET [le64 uid, le32 data_offset] [data_size] s of
        None \<Rightarrow> None | Some (r, t) \<Rightarrow> Some ((r, call_out (req t) 0), t))"

definition psa_its_get_info_call :: "its_call its_env \<Rightarrow> int \<Rightarrow> nat \<Rightarrow> (ram_dev, its_call) its_state
    \<Rightarrow> (((psa_error + unit) \<times> byte list) \<times> (ram_dev, its_call) its_state) option" where
  "psa_its_get_info_call env client uid s =
     (case psa_call_its env client TFM_ITS_GET_INFO [le64 uid] [12] s of
        None \<Rightarrow> None | Some (r, t) \<Rightarrow> Some ((r, call_out (req t) 0), t))"

definition psa_its_remove_call :: "its_call its_env \<Rightarrow> int \<Rightarrow> nat \<Rightarrow> (ram_dev, its_call) its_state
    \<Rightarrow> ((psa_error + unit) \<times> (ram_dev, its_call) its_state) option" where
  "psa_its_remove_call env client uid = psa_call_its env client TFM_ITS_REMOVE [le64 uid] []"

section \<open>The contract\<close>

text \<open>The service is ready, and no file of the client is write-once.\<close>

definition client_its_ok :: "its_call its_env \<Rightarrow> int \<Rightarrow> (ram_dev, its_call) its_state \<Rightarrow> bool" where
  "client_its_ok env client s \<longleftrightarrow> client_ok client \<and> its_ready (\<lambda>_. True) SIZE_MAX_P1 s
     \<and> (\<forall>uid d fl. file_uid uid \<and> its_store env s client uid = Some (d, fl) \<longrightarrow> fl = 0)"

definition client_files :: "its_call its_env \<Rightarrow> int \<Rightarrow> (ram_dev, its_call) its_state \<Rightarrow> nat \<Rightarrow> byte list option" where
  "client_files env client s uid = (if file_uid uid then map_option fst (its_store env s client uid) else None)"

lemma file_uid_key: "client_ok client \<Longrightarrow> file_uid uid \<Longrightarrow> its_key client uid"
  by (simp add: file_uid_def its_key_def)

lemma call_sizes:
  assumes "\<forall>bs \<in> set ins. length bs < SIZE_MAX_P1" "\<forall>n \<in> set outs. n < SIZE_MAX_P1"
  shows "sizes_match (call_msg client ty ins outs) (call_vec ins) (call_len outs)"
  using assms by (auto simp: sizes_match_def call_msg_def call_vec_def call_len_def unat_of_nat_lt)

lemma call_msg_sel [simp]: "msg_type (call_msg client ty ins outs) = ty" "client_id (call_msg client ty ins outs) = client"
  by (simp_all add: call_msg_def)

lemma store_req: "its_store env (s\<lparr>req := q\<rparr>) = its_store env s" by (rule store_same) simp

lemma ready_req: "its_ready (\<lambda>_. True) n s \<Longrightarrow> its_ready (\<lambda>_. True) n (s\<lparr>req := q\<rparr>)"
  by (simp add: its_ready_def its_fs_ok_def)

lemma set_call_run:
  assumes ok: "client_its_ok env client i" and u: "file_uid uid" and l: "length bs < SIZE_MAX_P1"
    and e_def: "e = its_set_status env i client uid (length bs) 0"
  shows "\<exists>t. psa_its_set_call env client uid bs 0 i = Some (status_result e, t) \<and> its_ready (\<lambda>_. True) SIZE_MAX_P1 t
    \<and> (\<forall>u'. file_uid u' \<longrightarrow> its_store env t client u' = (if e = None \<and> u' = uid then Some (bs, 0) else its_store env i client u'))"
proof -
  let ?ins = "[le64 uid, bs, le32 (unat (0 :: 32 word))]"
  let ?m = "call_msg client TFM_ITS_SET ?ins []"
  define s where "s = i\<lparr>req := \<lparr>call_in = call_vec ?ins, call_out = (\<lambda>_. []), call_room = call_len []\<rparr>\<rparr>"
  have c: "client_ok client" "its_ready (\<lambda>_. True) SIZE_MAX_P1 s" using ok ready_req by (auto simp: client_its_ok_def s_def)
  have v: "call_vec ?ins 0 = le64 uid" "call_vec ?ins 1 = bs" "call_vec ?ins 2 = le32 (unat (0 :: 32 word))" by (simp_all add: call_vec_def)
  have rs: "call_in (req s) = call_vec ?ins" "call_room (req s) = call_len []" "its_store env s = its_store env i" by (simp_all add: s_def store_req)
  have sm: "sizes_match ?m (call_in (req s)) (call_room (req s))" unfolding rs using call_sizes[of ?ins "[]" client TFM_ITS_SET] l by simp
  have w: "de64 (le64 uid) = uid" "(word_of_nat (de32 (le32 (unat (0 :: 32 word)))) :: 32 word) = 0" using u by (simp_all add: file_uid_def)
  have "its_set_error (call_its_env env) s client uid (length bs) = its_set_error env s client uid (length bs)"
    by (simp add: its_set_error_def its_files_def get_fs_ctx_def call_its_env_def)
  also have "\<dots> = its_set_error env i client uid (length bs)" by (rule its_set_error_cong) (simp_all add: s_def)
  finally have se: "its_set_error (call_its_env env) s client uid (length bs) = its_set_error env i client uid (length bs)" .
  have e: "its_set_status (call_its_env env) s client uid (length bs) 0 = e"
    unfolding e_def its_set_status_def call_its_env_sel rs se ..
  obtain t where t: "tfm_internal_trusted_storage_service_sfn (call_its_env env) ?m s = Some (status_result e, t)" "its_ready (\<lambda>_. True) SIZE_MAX_P1 t"
    "\<forall>client' uid'. its_key client' uid' \<longrightarrow> its_store env t client' uid' = (if e = None \<and> client' = client \<and> uid' = uid then Some (bs, 0) else its_store env i client' uid')"
    using itc.set_req_ok[OF c(2) sm, of env, unfolded rs call_msg_sel v w e call_its_env_sel, OF refl c(1) length_le64 length_le32] by blast
  have "\<forall>u'. file_uid u' \<longrightarrow> its_store env t client u' = (if e = None \<and> u' = uid then Some (bs, 0) else its_store env i client u')"
    using t(3) file_uid_key[OF c(1)] by simp
  then show ?thesis using t(1,2) by (auto simp: psa_its_set_call_def psa_call_its_def s_def)
qed

lemma set_call_ok:
  assumes ok: "client_its_ok env client i" and u: "file_uid uid" and l: "length bs < SIZE_MAX_P1"
  shows "\<exists>r i'. psa_its_set_call env client uid bs 0 i = Some (r, i') \<and> client_its_ok env client i'
    \<and> client_files env client i' = (case r of Inr _ \<Rightarrow> (client_files env client i)(uid \<mapsto> bs) | Inl _ \<Rightarrow> client_files env client i)"
proof -
  define e where "e = its_set_status env i client uid (length bs) 0"
  obtain t where t: "psa_its_set_call env client uid bs 0 i = Some (status_result e, t)" "its_ready (\<lambda>_. True) SIZE_MAX_P1 t"
    and st: "\<And>u'. file_uid u' \<Longrightarrow> its_store env t client u' = (if e = None \<and> u' = uid then Some (bs, 0) else its_store env i client u')"
    using set_call_run[OF assms e_def] by blast
  have "client_its_ok env client t" using ok t(2) st by (auto simp: client_its_ok_def split: if_splits)
  moreover have "client_files env client t = (case status_result e of Inr _ \<Rightarrow> (client_files env client i)(uid \<mapsto> bs) | Inl _ \<Rightarrow> client_files env client i)"
    using st u by (cases e) (auto simp: client_files_def fun_eq_iff)
  ultimately show ?thesis using t(1) by blast
qed

lemma remove_call_ok:
  assumes ok: "client_its_ok env client i" and u: "file_uid uid"
  shows "\<exists>i'. psa_its_remove_call env client uid i = Some (if client_files env client i uid = None then Inl PSA_ERROR_DOES_NOT_EXIST else Inr (), i')
    \<and> client_its_ok env client i' \<and> client_files env client i' = (client_files env client i)(uid := None)"
proof -
  let ?ins = "[le64 uid]"
  let ?m = "call_msg client TFM_ITS_REMOVE ?ins []"
  define s where "s = i\<lparr>req := \<lparr>call_in = call_vec ?ins, call_out = (\<lambda>_. []), call_room = call_len []\<rparr>\<rparr>"
  have c: "client_ok client" "its_ready (\<lambda>_. True) SIZE_MAX_P1 s" using ok ready_req by (auto simp: client_its_ok_def s_def)
  have v: "call_vec ?ins 0 = le64 uid" by (simp add: call_vec_def)
  have rs: "call_in (req s) = call_vec ?ins" "call_room (req s) = call_len []" "its_store env s = its_store env i" by (simp_all add: s_def store_req)
  have sm: "sizes_match ?m (call_in (req s)) (call_room (req s))" unfolding rs using call_sizes[of ?ins "[]" client TFM_ITS_REMOVE] by simp
  have w: "de64 (le64 uid) = uid" and u0: "uid \<noteq> 0" using u by (simp_all add: file_uid_def)
  define e where "e = its_remove_status env i client uid"
  have fl: "fl = 0" if "its_store env i client uid = Some (d, fl)" for d fl using ok u that by (auto simp: client_its_ok_def)
  have e: "e = (if client_files env client i uid = None then Some PSA_ERROR_DOES_NOT_EXIST else None)"
    using u u0 by (auto simp: e_def its_remove_status_def client_files_def PSA_STORAGE_FLAG_WRITE_ONCE_def split: option.split dest: fl)
  have es: "its_remove_status (call_its_env env) s client uid = e" by (simp add: e_def its_remove_status_def rs)
  obtain t where t: "tfm_internal_trusted_storage_service_sfn (call_its_env env) ?m s = Some (status_result e, t)" "its_ready (\<lambda>_. True) SIZE_MAX_P1 t"
    "\<forall>client' uid'. its_key client' uid' \<longrightarrow> its_store env t client' uid' = (if e = None \<and> client' = client \<and> uid' = uid then None else its_store env i client' uid')"
    using itc.remove_req_ok[OF c(2) sm, of env, unfolded rs call_msg_sel v w es call_its_env_sel, OF refl c(1) length_le64] unfolding es by blast
  have st: "its_store env t client u' = (if e = None \<and> u' = uid then None else its_store env i client u')" if "file_uid u'" for u'
    using t(3) file_uid_key[OF c(1) that] by simp
  have "psa_its_remove_call env client uid i = Some (status_result e, t)" using t(1) by (simp add: psa_its_remove_call_def psa_call_its_def s_def)
  moreover have "client_its_ok env client t" using ok c(1) t(2) st by (auto simp: client_its_ok_def split: if_splits)
  moreover have "client_files env client t = (client_files env client i)(uid := None)"
    using st u e by (auto simp: client_files_def fun_eq_iff)
  ultimately show ?thesis using e by (intro exI[of _ t]) simp
qed

lemma get_call_ok:
  assumes ok: "client_its_ok env client i" and u: "file_uid uid" and n: "0 < n" "n < SIZE_MAX_P1"
  shows "\<exists>r i'. psa_its_get_call env client uid 0 n i = Some ((r, case client_files env client i uid of None \<Rightarrow> [] | Some bs \<Rightarrow> take n bs), i')
    \<and> client_its_ok env client i' \<and> client_files env client i' = client_files env client i
    \<and> (client_files env client i uid = None \<longrightarrow> r = Inl PSA_ERROR_DOES_NOT_EXIST) \<and> (\<forall>bs. client_files env client i uid = Some bs \<and> bs \<noteq> [] \<longrightarrow> r = Inr ())"
proof -
  let ?ins = "[le64 uid, le32 0]"
  let ?m = "call_msg client TFM_ITS_GET ?ins [n]"
  define s where "s = i\<lparr>req := \<lparr>call_in = call_vec ?ins, call_out = (\<lambda>_. []), call_room = call_len [n]\<rparr>\<rparr>"
  have c: "client_ok client" "its_ready (\<lambda>_. True) SIZE_MAX_P1 s" using ok ready_req by (auto simp: client_its_ok_def s_def)
  have v: "call_vec ?ins 0 = le64 uid" "call_vec ?ins 1 = le32 0" "call_len [n] 0 = n" by (simp_all add: call_vec_def call_len_def)
  have rs: "call_in (req s) = call_vec ?ins" "call_room (req s) = call_len [n]" "its_store env s = its_store env i" "call_out (req s) = (\<lambda>_. [])" by (simp_all add: s_def store_req)
  have sm: "sizes_match ?m (call_in (req s)) (call_room (req s))" unfolding rs using call_sizes[of ?ins "[n]" client TFM_ITS_GET] n by simp
  have w: "de64 (le64 uid) = uid" "de32 (le32 0) = 0" and u0: "uid \<noteq> 0" using u by (simp_all add: file_uid_def)
  define res where "res = its_get_result (call_its_env env) s client uid 0 n"
  have res: "res = (case client_files env client i uid of None \<Rightarrow> Inl PSA_ERROR_DOES_NOT_EXIST | Some bs \<Rightarrow> Inr (take n bs))"
    using u u0 by (auto simp: res_def its_get_result_def client_files_def rs rd_def min_def split: option.split)
  obtain r t where t: "tfm_internal_trusted_storage_service_sfn (call_its_env env) ?m s = Some (r, t)" "its_ready (\<lambda>_. True) SIZE_MAX_P1 t"
    "r = map_sum id (\<lambda>_. ()) res \<or> res = Inr [] \<and> r = Inl PSA_ERROR_GENERIC_ERROR" "its_store env t = its_store env i"
    "call_out (req t) = (case res of Inl _ \<Rightarrow> (\<lambda>_. []) | Inr bs \<Rightarrow> (\<lambda>_. [])(0 := [] @ bs))"
    using itc.get_req_ok[OF c(2) sm, of env, unfolded rs call_msg_sel v w call_its_env_sel, OF refl c(1) length_le64 length_le32, folded res_def] by blast
  have out: "call_out (req t) 0 = (case client_files env client i uid of None \<Rightarrow> [] | Some bs \<Rightarrow> take n bs)"
    using t(5) res by (auto split: option.splits)
  have "psa_its_get_call env client uid 0 n i = Some ((r, call_out (req t) 0), t)" using t(1) by (simp add: psa_its_get_call_def psa_call_its_def s_def)
  moreover have "client_its_ok env client t" "client_files env client t = client_files env client i"
    using ok t(2,4) by (auto simp: client_its_ok_def client_files_def)
  moreover have "client_files env client i uid = None \<longrightarrow> r = Inl PSA_ERROR_DOES_NOT_EXIST" "\<forall>bs. client_files env client i uid = Some bs \<and> bs \<noteq> [] \<longrightarrow> r = Inr ()"
    using t(3) res n(1) by auto
  ultimately show ?thesis unfolding out by (intro exI[of _ r] exI[of _ t] conjI)
qed

interpretation itscl: its_client "psa_its_set_call env client" "psa_its_get_call env client" "psa_its_remove_call env client" "client_its_ok env client" "client_files env client"
  for env client
  using set_call_ok get_call_ok remove_call_ok by unfold_locales blast+

end
