(* ===== verification/Power_Cut.thy ===== *)
theory Power_Cut
  imports CMSIS_Flash
begin

text \<open>
  Power failures. Code that takes a CMSIS flash driver is run with a driver whose power fails: a given number
  of operations that change the memory complete, the next one is interrupted, and no later one has an
  effect. The memory at the end of such a run is what the code finds when it starts again.
\<close>

text \<open>
  The state of the device with the power: \<open>Some n\<close> when \<open>n\<close> more operations complete, \<open>None\<close> when the power is
  off. \<open>torn addr data\<close> is what the interrupted operation leaves, with \<open>[]\<close> as the data of an erasure.
\<close>

type_synonym 'd powered = "nat option \<times> 'd"

definition cut_op :: "('d \<Rightarrow> int \<times> 'd) \<Rightarrow> ('d \<Rightarrow> 'd) \<Rightarrow> 'd powered \<Rightarrow> int \<times> 'd powered" where
  "cut_op run torn s =
     (case s of
        (None, d) \<Rightarrow> (ARM_DRIVER_ERROR, (None, d))
      | (Some n, d) \<Rightarrow> if n = 0 then (ARM_DRIVER_ERROR, (None, torn d)) else (case run d of (r, d') \<Rightarrow> (r, (Some (n - 1), d'))))"

definition cut_drv :: "(nat \<Rightarrow> byte list \<Rightarrow> 'd \<Rightarrow> 'd) \<Rightarrow> 'd ARM_DRIVER_FLASH \<Rightarrow> 'd powered ARM_DRIVER_FLASH" where
  "cut_drv torn drv =
     \<lparr>drv_Initialize = (\<lambda>(p, d). case drv_Initialize drv d of (r, d') \<Rightarrow> (r, (p, d'))),
      drv_data_width = drv_data_width drv,
      drv_ReadData = (\<lambda>addr cnt (p, d). case drv_ReadData drv addr cnt d of (r, d') \<Rightarrow> (r, (p, d'))),
      drv_ProgramData = (\<lambda>addr data cnt. cut_op (drv_ProgramData drv addr data cnt) (torn addr data)),
      drv_EraseSector = (\<lambda>addr. cut_op (drv_EraseSector drv addr) (torn addr [])),
      drv_EraseChip = cut_op (drv_EraseChip drv) (torn 0 []),
      drv_GetInfo = drv_GetInfo drv\<rparr>"

lemma cut_op_simps [simp]:
  "cut_op run torn (None, d) = (ARM_DRIVER_ERROR, (None, d))"
  "cut_op run torn (Some 0, d) = (ARM_DRIVER_ERROR, (None, torn d))"
  "0 < n \<Longrightarrow> cut_op run torn (Some n, d) = map_prod id (Pair (Some (n - 1))) (run d)"
  by (simp_all add: cut_op_def split: prod.splits)

lemma cut_drv_sel [simp]:
  "drv_ReadData (cut_drv torn drv) addr cnt (p, d) = map_prod id (Pair p) (drv_ReadData drv addr cnt d)"
  "drv_ProgramData (cut_drv torn drv) addr data cnt = cut_op (drv_ProgramData drv addr data cnt) (torn addr data)"
  "drv_EraseSector (cut_drv torn drv) addr = cut_op (drv_EraseSector drv addr) (torn addr [])"
  by (simp_all add: cut_drv_def split: prod.splits)

text \<open>What a run with the failing driver leaves in the memory.\<close>

definition left_by :: "('a \<times> 'd powered) \<Rightarrow> 'd" where
  "left_by r = snd (snd r)"

lemma left_by_simps [simp]: "left_by (x, (p, d)) = d" "left_by (map_prod f (Pair p) y) = snd y"
  by (simp_all add: left_by_def)

end
