(* ===== verification/NV_Counters.thy ===== *)
theory NV_Counters
  imports Power_Cut
begin

text \<open>
  The interface of the platform's monotonic counters (platform/include/tfm_plat_nv_counters.h) and its
  contract. The counters in RRAM and in flash provide it, the platform partition relies on it.
\<close>

section \<open>The interface\<close>

text \<open>The errors of \<open>enum tfm_plat_err_t\<close>; \<open>TFM_PLAT_ERR_SUCCESS\<close> is \<open>Inr\<close>.\<close>

datatype tfm_plat_err_t = TFM_PLAT_ERR_SYSTEM_ERR | TFM_PLAT_ERR_MAX_VALUE | TFM_PLAT_ERR_INVALID_INPUT
  | TFM_PLAT_ERR_UNSUPPORTED | TFM_PLAT_ERR_NOT_PERMITTED

type_synonym 'a plat_result = "tfm_plat_err_t + 'a"

section \<open>The contract\<close>

text \<open>The operations of a client, and a reset, which initialises the counters again.\<close>

datatype nv_op = NV_Read nat | NV_Set nat nat | NV_Increment nat | NV_Reset

fun nv_op_ok :: "nat \<Rightarrow> nv_op \<Rightarrow> bool" where
  "nv_op_ok count (NV_Read c) = (c < count)"
| "nv_op_ok count (NV_Set c v) = (c < count \<and> v < SIZE_MAX_P1)"
| "nv_op_ok count (NV_Increment c) = (c < count)"
| "nv_op_ok count NV_Reset = True"

locale plat_nv_counters =
  fixes init_op :: "'d \<Rightarrow> unit plat_result \<times> 'd"
    and read_op :: "nat \<Rightarrow> nat \<Rightarrow> 'd \<Rightarrow> nat plat_result \<times> 'd"
    and set_op :: "nat \<Rightarrow> nat \<Rightarrow> 'd \<Rightarrow> unit plat_result \<times> 'd"
    and inc_op :: "nat \<Rightarrow> 'd \<Rightarrow> unit plat_result \<times> 'd"
    and count :: nat
    and ok :: "'d \<Rightarrow> bool"
    and val :: "'d \<Rightarrow> nat \<Rightarrow> nat"
  assumes init_again: "ok d \<Longrightarrow> \<exists>d'. init_op d = (Inr (), d') \<and> ok d' \<and> val d' = val d"
    and read_val: "ok d \<Longrightarrow> c < count \<Longrightarrow> read_op c 4 d = (Inr (val d c), d)"
    and read_size: "ok d \<Longrightarrow> c < count \<Longrightarrow> sz \<noteq> 4 \<Longrightarrow> \<exists>e. read_op c sz d = (Inl e, d)"
    and set_val: "ok d \<Longrightarrow> c < count \<Longrightarrow> v < SIZE_MAX_P1 \<Longrightarrow>
      \<exists>d'. set_op c v d = (if v < val d c then Inl TFM_PLAT_ERR_INVALID_INPUT else Inr (), d') \<and> ok d'
         \<and> val d' = (if v < val d c then val d else (val d)(c := v))"
    and inc_val: "ok d \<Longrightarrow> c < count \<Longrightarrow>
      \<exists>d'. inc_op c d = (if val d c = SIZE_MAX_P1 - 1 then Inl TFM_PLAT_ERR_MAX_VALUE else Inr (), d') \<and> ok d'
         \<and> val d' = (if val d c = SIZE_MAX_P1 - 1 then val d else (val d)(c := val d c + 1))"
    and val_bound: "ok d \<Longrightarrow> val d c < SIZE_MAX_P1"
begin

fun nv_run :: "nv_op \<Rightarrow> 'd \<Rightarrow> 'd" where
  "nv_run (NV_Read c) d = snd (read_op c 4 d)"
| "nv_run (NV_Set c v) d = snd (set_op c v d)"
| "nv_run (NV_Increment c) d = snd (inc_op c d)"
| "nv_run NV_Reset d = snd (init_op d)"

lemma nv_run_step:
  assumes "ok d" "nv_op_ok count a"
  shows "ok (nv_run a d) \<and> val d c \<le> val (nv_run a d) c"
proof (cases a)
  case (NV_Set i v)
  then show ?thesis using set_val[OF assms(1), of i v] assms(2) by auto
next
  case (NV_Increment i)
  then show ?thesis using inc_val[OF assms(1), of i] assms(2) by auto
next
  case NV_Reset
  then show ?thesis using init_again[OF assms(1)] by auto
qed (use read_val[OF assms(1)] assms in auto)

text \<open>No sequence of operations makes a counter smaller.\<close>

lemma nv_run_monotone:
  "ok d \<Longrightarrow> list_all (nv_op_ok count) as \<Longrightarrow> ok (fold nv_run as d) \<and> val d c \<le> val (fold nv_run as d) c"
proof (induction as arbitrary: d)
  case (Cons a as)
  then have "ok (nv_run a d) \<and> val d c \<le> val (nv_run a d) c" using nv_run_step[of d a c] by simp
  moreover from this have "ok (fold nv_run as (nv_run a d)) \<and> val (nv_run a d) c \<le> val (fold nv_run as (nv_run a d)) c"
    using Cons.prems by (intro Cons.IH) simp_all
  ultimately show ?case by simp
qed simp

end

end
