(* ===== verification/IFX_CRC32.thy ===== *)
theory IFX_CRC32
  imports TFM_Prelude
begin

text \<open>
  The 32-bit checksum of the Infineon platform (common/utils/se/ifx_se_crc32.c): the register is updated
  with a byte (variant a) or a 16-bit word (variant b) at a time without a table. Both are the polynomial
  division that \<open>crc_bits\<close> performs bit by bit, so a word is the same as its two bytes, the high one
  first. For a message as long as the register the checksum determines the message.
\<close>

unbundle bit_operations_syntax

section \<open>The code\<close>

definition IFX_CRC32_CRC_WIDTH :: nat where "IFX_CRC32_CRC_WIDTH = 32"
definition IFX_CRC32_BYTE_WIDTH :: nat where "IFX_CRC32_BYTE_WIDTH = 8"
definition IFX_CRC32_WORD_WIDTH :: nat where "IFX_CRC32_WORD_WIDTH = 16"

lemmas crc_widths = IFX_CRC32_CRC_WIDTH_def IFX_CRC32_BYTE_WIDTH_def IFX_CRC32_WORD_WIDTH_def

definition ifx_se_crc32d6a_update :: "32 word \<Rightarrow> byte \<Rightarrow> 32 word" where
  "ifx_se_crc32d6a_update P Q =
     (let A = drop_bit (IFX_CRC32_CRC_WIDTH - IFX_CRC32_BYTE_WIDTH) P XOR ucast Q;
          B = push_bit 18 A XOR push_bit 17 A XOR push_bit 15 A XOR push_bit 14 A XOR A
      in B XOR push_bit IFX_CRC32_BYTE_WIDTH P)"

definition ifx_se_crc32d6a :: "byte list \<Rightarrow> 32 word \<Rightarrow> 32 word" where
  "ifx_se_crc32d6a Q init = foldl ifx_se_crc32d6a_update init Q"

definition crc32d6b_T :: "32 word list" where
  "crc32d6b_T = [0x00000000, 0x8006C001, 0x000B4003, 0x800D8002]"

definition ifx_se_crc32d6b_update :: "32 word \<Rightarrow> 16 word \<Rightarrow> 32 word" where
  "ifx_se_crc32d6b_update P Q =
     (let A = drop_bit (IFX_CRC32_CRC_WIDTH - IFX_CRC32_WORD_WIDTH) P XOR ucast Q;
          A1 = drop_bit 14 A; A2 = A AND 0x3FFF;
          B = (crc32d6b_T ! unat A1) XOR push_bit 18 A2 XOR push_bit 17 A2 XOR push_bit 15 A XOR push_bit 14 A XOR A
      in B XOR push_bit IFX_CRC32_WORD_WIDTH P)"

definition ifx_se_crc32d6b :: "16 word list \<Rightarrow> 32 word \<Rightarrow> 32 word" where
  "ifx_se_crc32d6b Q init = foldl ifx_se_crc32d6b_update init Q"

section \<open>Polynomial division\<close>

definition crc_poly :: "32 word" where "crc_poly = 0x0006C001"

definition crc_bit :: "32 word \<Rightarrow> 32 word" where
  "crc_bit P = push_bit 1 P XOR (if bit P 31 then crc_poly else 0)"

subsection \<open>Linear maps on words\<close>

definition xor_linear :: "('a::len word \<Rightarrow> 'b::len word) \<Rightarrow> bool" where
  "xor_linear F \<longleftrightarrow> F 0 = 0 \<and> (\<forall>X Y. F (X XOR Y) = F X XOR F Y)"

lemma take_bit_step: "take_bit (Suc k) (X :: 'a::len word) = take_bit k X XOR (if bit X k then push_bit k 1 else 0)"
  by (rule bit_word_eqI) (auto simp: bit_take_bit_iff bit_xor_iff bit_push_bit_iff bit_1_iff bit_exp_iff less_Suc_eq)

text \<open>Linear maps that agree on the words with one bit are the same.\<close>

lemma xor_linear_eqI:
  assumes "xor_linear F" "xor_linear G" "list_all (\<lambda>X. F X = G X) (map (\<lambda>i. push_bit i 1) [0..<LENGTH('a)])"
  shows "F (X :: 'a::len word) = G X"
proof -
  have "k \<le> LENGTH('a) \<Longrightarrow> F (take_bit k X) = G (take_bit k X)" for k
    using assms by (induction k) (auto simp: xor_linear_def take_bit_step list_all_iff)
  from this[of "LENGTH('a)"] show ?thesis by simp
qed

lemma xor_linear_xor [intro]: "xor_linear F \<Longrightarrow> xor_linear G \<Longrightarrow> xor_linear (\<lambda>X. F X XOR G X)"
  by (auto simp: xor_linear_def ac_simps)

lemma xor_linear_comp [intro]: "xor_linear F \<Longrightarrow> xor_linear G \<Longrightarrow> xor_linear (\<lambda>X. F (G X))"
  by (simp add: xor_linear_def)

lemma xor_linear_push [intro]: "xor_linear (push_bit n)"
  and xor_linear_drop [intro]: "xor_linear (drop_bit n)"
  and xor_linear_mask [intro]: "xor_linear (\<lambda>X. X AND m)"
  and xor_linear_if [intro]: "xor_linear (\<lambda>X. if bit X n then m else 0)"
  by (auto simp: xor_linear_def push_bit_xor drop_bit_xor bit_xor_iff bit_and_iff intro!: bit_word_eqI)

lemma xor_linear_pow [intro]: "xor_linear F \<Longrightarrow> xor_linear ((F :: 'a::len word \<Rightarrow> 'a word) ^^ n)"
  by (induction n) (auto simp: xor_linear_def)

lemma xor_linear_inj:
  assumes "xor_linear F" "\<And>X. F X = 0 \<Longrightarrow> X = 0" "F X = F Y"
  shows "X = Y"
proof -
  have "F (X XOR Y) = 0" using assms(1,3) by (simp add: xor_linear_def)
  from assms(2)[OF this] have "(X XOR Y) XOR Y = Y" by simp
  then show ?thesis by (simp only: xor.assoc xor_self_eq xor.right_neutral)
qed

lemma basis_32: "map (\<lambda>i. push_bit i (1 :: 32 word)) [0..<LENGTH(32)] =
   [1, 2, 4, 8, 16, 32, 64, 128, 256, 512, 1024, 2048, 4096, 8192, 16384, 32768, 65536, 131072, 262144, 524288, 1048576, 2097152, 4194304, 8388608,
    16777216, 33554432, 67108864, 134217728, 268435456, 536870912, 1073741824, 2147483648]"
  by (simp add: upt_rec)

subsection \<open>Eight bits at a time\<close>

definition crc_byte :: "32 word \<Rightarrow> 32 word" where
  "crc_byte X = (let A = drop_bit 24 X in push_bit 18 A XOR push_bit 17 A XOR push_bit 15 A XOR push_bit 14 A XOR A XOR push_bit 8 X)"

lemma xor_linear_crc_bit: "xor_linear crc_bit"
  unfolding crc_bit_def[abs_def] by (intro xor_linear_xor xor_linear_push xor_linear_if)

lemma xor_linear_crc_byte: "xor_linear crc_byte"
  unfolding crc_byte_def[abs_def] Let_def by (intro xor_linear_xor xor_linear_push xor_linear_comp[of "push_bit n" for n] xor_linear_drop)

lemma crc_bit_num: "crc_bit 1 = 2"
  "crc_bit (numeral w) = (if bit (numeral w :: 32 word) 31 then numeral (num.Bit0 w) XOR 0x0006C001 else numeral (num.Bit0 w))"
proof -
  have "push_bit 1 (numeral w :: 32 word) = numeral (num.Bit0 w)" unfolding push_bit_eq_mult numeral_Bit0[of w] by (simp only: power_one_right mult_2_right)
  then show "crc_bit (numeral w) = (if bit (numeral w :: 32 word) 31 then numeral (num.Bit0 w) XOR 0x0006C001 else numeral (num.Bit0 w))"
    unfolding crc_bit_def crc_poly_def by (cases "bit (numeral w :: 32 word) 31") (simp_all only: if_True if_False xor.right_neutral)
qed (simp add: crc_bit_def)

lemma crc_bit_8: "(crc_bit ^^ 8) X = crc_bit (crc_bit (crc_bit (crc_bit (crc_bit (crc_bit (crc_bit (crc_bit X)))))))"
  by (simp add: eval_nat_numeral)

lemma crc_byte_bits: "crc_byte X = (crc_bit ^^ 8) X"
proof (rule xor_linear_eqI[OF xor_linear_crc_byte xor_linear_pow[OF xor_linear_crc_bit]])
  show "list_all (\<lambda>X. crc_byte X = (crc_bit ^^ 8) X) (map (\<lambda>i. push_bit i 1) [0..<LENGTH(32)])"
    unfolding basis_32 by (simp add: crc_bit_8 crc_byte_def Let_def crc_bit_num)
qed

lemma update_a: "ifx_se_crc32d6a_update P Q = crc_byte (P XOR push_bit 24 (ucast Q))"
proof -
  have "drop_bit 24 (P XOR push_bit 24 (ucast Q)) = drop_bit 24 P XOR (ucast Q :: 32 word)"
    by (rule bit_word_eqI) (auto simp: bit_drop_bit_eq bit_xor_iff bit_push_bit_iff bit_ucast_iff dest: bit_imp_le_length)
  moreover have "push_bit 8 (P XOR push_bit 24 (ucast Q)) = push_bit 8 P"
    by (rule bit_word_eqI) (auto simp: bit_xor_iff bit_push_bit_iff dest: bit_imp_le_length)
  ultimately show ?thesis by (simp add: ifx_se_crc32d6a_update_def crc_byte_def crc_widths Let_def ac_simps)
qed

subsection \<open>Sixteen bits at a time\<close>

definition crc_word :: "32 word \<Rightarrow> 32 word" where
  "crc_word X = (let A = drop_bit 16 X; A2 = A AND 0x3FFF
      in (if bit A 14 then 0x8006C001 else 0) XOR (if bit A 15 then 0x000B4003 else 0)
         XOR push_bit 18 A2 XOR push_bit 17 A2 XOR push_bit 15 A XOR push_bit 14 A XOR A XOR push_bit 16 X)"

lemma xor_linear_crc_word: "xor_linear crc_word"
proof -
  have m: "xor_linear (\<lambda>X :: 32 word. drop_bit 16 X AND 0x3FFF)" by (rule xor_linear_comp[OF xor_linear_mask xor_linear_drop])
  have "xor_linear (\<lambda>X :: 32 word. if bit (drop_bit 16 X) n then m else 0)" for n and m :: "32 word" by (rule xor_linear_comp[OF xor_linear_if xor_linear_drop])
  with m show ?thesis unfolding crc_word_def[abs_def] Let_def
    by (intro xor_linear_xor xor_linear_comp[OF xor_linear_push m] xor_linear_comp[OF xor_linear_push xor_linear_drop] xor_linear_push xor_linear_drop) simp_all
qed

lemma crc_word_bytes: "crc_word X = crc_byte (crc_byte X)"
proof (rule xor_linear_eqI[OF xor_linear_crc_word xor_linear_comp[OF xor_linear_crc_byte xor_linear_crc_byte]])
  show "list_all (\<lambda>X. crc_word X = crc_byte (crc_byte X)) (map (\<lambda>i. push_bit i 1) [0..<LENGTH(32)])"
    unfolding basis_32 by (simp add: crc_byte_def crc_word_def Let_def)
qed

lemma table_entry:
  assumes "take_bit 16 (A :: 32 word) = A"
  shows "crc32d6b_T ! unat (drop_bit 14 A) = (if bit A 14 then 0x8006C001 else 0) XOR (if bit A 15 then 0x000B4003 else 0)"
proof -
  have hi: "n < 16" if "bit A n" for n using that by (subst (asm) assms[symmetric]) (simp add: bit_take_bit_iff)
  have "drop_bit 14 A = (if bit A 14 then 1 else 0) OR (if bit A 15 then push_bit 1 1 else (0 :: 32 word))"
  proof (rule bit_word_eqI)
    fix n :: nat
    consider "n = 0" | "n = 1" | "2 \<le> n" by linarith
    then show "bit (drop_bit 14 A) n = bit ((if bit A 14 then 1 else 0) OR (if bit A 15 then push_bit 1 1 else (0 :: 32 word))) n"
      by cases (auto simp: bit_drop_bit_eq bit_or_iff bit_1_iff bit_exp_iff[of 1, simplified] dest: hi)
  qed
  then show ?thesis by (cases "bit A 14"; cases "bit A 15") (simp_all add: crc32d6b_T_def)
qed

lemma update_b: "ifx_se_crc32d6b_update P Q = crc_word (P XOR push_bit 16 (ucast Q))"
proof -
  let ?A = "drop_bit 16 P XOR (ucast Q :: 32 word)"
  have "drop_bit 16 (P XOR push_bit 16 (ucast Q)) = ?A"
    by (rule bit_word_eqI) (auto simp: bit_drop_bit_eq bit_xor_iff bit_push_bit_iff bit_ucast_iff dest: bit_imp_le_length)
  moreover have "push_bit 16 (P XOR push_bit 16 (ucast Q)) = push_bit 16 P"
    by (rule bit_word_eqI) (auto simp: bit_xor_iff bit_push_bit_iff dest: bit_imp_le_length)
  moreover have t: "take_bit 16 ?A = ?A"
    by (rule bit_word_eqI) (auto simp: bit_take_bit_iff bit_drop_bit_eq bit_xor_iff bit_ucast_iff dest: bit_imp_le_length)
  ultimately show ?thesis using table_entry[OF t] by (simp add: ifx_se_crc32d6b_update_def crc_word_def crc_widths Let_def ac_simps)
qed

section \<open>Messages\<close>

definition crc_bytes_of :: "16 word \<Rightarrow> byte list" where
  "crc_bytes_of w = [ucast (drop_bit 8 w), ucast w]"

lemma shift_in: "crc_byte (push_bit 16 (ucast (q :: byte))) = push_bit 24 (ucast q)"
  "crc_byte (push_bit 8 (ucast q)) = push_bit 16 (ucast q)" "crc_byte (ucast q) = push_bit 8 (ucast q)"
proof -
  have 1: "drop_bit 24 (push_bit 16 (ucast q)) = (0 :: 32 word)" by (rule bit_word_eqI) (auto simp: bit_drop_bit_eq bit_push_bit_iff bit_ucast_iff dest: bit_imp_le_length)
  have 2: "drop_bit 24 (push_bit 8 (ucast q)) = (0 :: 32 word)" by (rule bit_word_eqI) (auto simp: bit_drop_bit_eq bit_push_bit_iff bit_ucast_iff dest: bit_imp_le_length)
  have 3: "drop_bit 24 (ucast q) = (0 :: 32 word)" by (rule bit_word_eqI) (auto simp: bit_drop_bit_eq bit_ucast_iff dest: bit_imp_le_length)
  show "crc_byte (push_bit 16 (ucast q)) = push_bit 24 (ucast q)" "crc_byte (push_bit 8 (ucast q)) = push_bit 16 (ucast q)"
    "crc_byte (ucast q) = push_bit 8 (ucast q)" unfolding crc_byte_def Let_def 1 2 3 by (simp_all only: push_bit_of_0 xor.left_neutral push_bit_push_bit) simp_all
qed

lemma crc_byte_xor: "crc_byte (X XOR Y) = crc_byte X XOR crc_byte Y"
  using xor_linear_crc_byte by (simp add: xor_linear_def)

lemma update_b_bytes: "ifx_se_crc32d6b_update P w = foldl ifx_se_crc32d6a_update P (crc_bytes_of w)"
proof -
  have w: "push_bit 16 (ucast w) = push_bit 24 (ucast (ucast (drop_bit 8 w) :: byte)) XOR (push_bit 16 (ucast (ucast w :: byte)) :: 32 word)"
    by (rule bit_word_eqI) (auto simp: bit_xor_iff bit_push_bit_iff bit_ucast_iff bit_drop_bit_eq dest: bit_imp_le_length)
  show ?thesis
    by (simp add: crc_bytes_of_def update_a update_b crc_word_bytes w crc_byte_xor shift_in(1)[symmetric] xor.assoc)
qed

lemma crc_four: "ifx_se_crc32d6a [a, b, c, d] I =
   crc_byte (crc_byte (crc_byte (crc_byte (I XOR push_bit 24 (ucast a) XOR push_bit 16 (ucast b) XOR push_bit 8 (ucast c) XOR ucast d))))"
  by (simp add: ifx_se_crc32d6a_def update_a crc_byte_xor shift_in xor.assoc)

lemma bit_crc_byte_low: "n < 8 \<Longrightarrow> bit (crc_byte X) n = bit X (24 + n)"
  by (auto simp: crc_byte_def Let_def bit_xor_iff bit_push_bit_iff bit_drop_bit_eq)

lemma crc_byte_inj:
  assumes "crc_byte X = crc_byte Y"
  shows "X = Y"
proof (rule xor_linear_inj[OF xor_linear_crc_byte _ assms])
  fix X assume z: "crc_byte X = 0"
  have hi: "\<not> bit X n" if "24 \<le> n" for n
  proof
    assume "bit X n"
    moreover from this have "n < 32" by (auto dest: bit_imp_le_length)
    moreover from this have "n - 24 < 8" using that by linarith
    ultimately show False using bit_crc_byte_low[of "n - 24" X] z that by simp
  qed
  then have "drop_bit 24 X = 0" by (intro bit_word_eqI) (simp add: bit_drop_bit_eq)
  then have p: "push_bit 8 X = 0" using z by (simp add: crc_byte_def)
  show "X = 0"
  proof (rule bit_word_eqI)
    fix n :: nat assume "n < LENGTH(32)"
    show "bit X n = bit 0 n"
    proof (cases "24 \<le> n")
      case False
      then have "bit X n = bit (push_bit 8 X) (n + 8)" by (simp only: bit_push_bit_iff) simp
      then show ?thesis using p by simp
    qed (simp add: hi)
  qed
qed

lemma byte_eqI: "(\<And>n. n < 8 \<Longrightarrow> bit b n = bit c n) \<Longrightarrow> b = (c :: byte)"
  by (rule bit_word_eqI) simp

lemma crc_four_inj:
  assumes "ifx_se_crc32d6a bs I = ifx_se_crc32d6a cs I" "length bs = 4" "length cs = 4"
  shows "bs = cs"
proof -
  obtain b0 b1 b2 b3 c0 c1 c2 c3 where l: "bs = [b0, b1, b2, b3]" "cs = [c0, c1, c2, c3]"
    using assms(2,3) by (auto simp: length_Suc_conv numeral_eq_Suc)
  let ?w = "\<lambda>a b c d. push_bit 24 (ucast (a :: byte)) XOR push_bit 16 (ucast (b :: byte)) XOR push_bit 8 (ucast (c :: byte)) XOR (ucast (d :: byte) :: 32 word)"
  have "I XOR ?w b0 b1 b2 b3 = I XOR ?w c0 c1 c2 c3"
    using assms(1) unfolding l crc_four by (auto dest!: crc_byte_inj simp: xor.assoc)
  then have w: "bit (?w b0 b1 b2 b3) n = bit (?w c0 c1 c2 c3) n" for n by (metis (no_types, lifting) bit_xor_iff)
  have x: "bit (?w a b c d) (24 + n) = bit a n" "bit (?w a b c d) (16 + n) = bit b n" "bit (?w a b c d) (8 + n) = bit c n" "bit (?w a b c d) n = bit d n"
    if "n < 8" for a b c d n using that by (auto simp: bit_xor_iff bit_push_bit_iff bit_ucast_iff dest: bit_imp_le_length)
  have "b0 = c0" using w x(1) by (intro byte_eqI) metis
  moreover have "b1 = c1" using w x(2) by (intro byte_eqI) metis
  moreover have "b2 = c2" using w x(3) by (intro byte_eqI) metis
  moreover have "b3 = c3" using w x(4) by (intro byte_eqI) metis
  ultimately show ?thesis by (simp add: l)
qed

end
