(* ===== verification/NV_Counters_RRAM.thy ===== *)
theory NV_Counters_RRAM
  imports NV_Counters IFX_RRAM IFX_CRC32
begin

text \<open>
  The monotonic counters of the Infineon platform in RRAM
  (platform/ext/target/infineon/common/spe/services/platform/nv_counters_rram.c), over a CMSIS flash driver. A
  counter and its backup are each a value with a checksum over the value and the address; the backup is
  written first. After a power failure at any program unit of an update, the initialisation restores
  the counter to its old or its new value.
\<close>

section \<open>The code\<close>

text \<open>The constants of the build: the number of counters, the sector, the area and the program unit.\<close>

record nvc_env =
  PLAT_NV_COUNTER_MAX :: nat
  NV_COUNTERS_SECTOR_SIZE :: nat
  NV_COUNTERS_AREA_SIZE :: nat
  NV_COUNTERS_PROGRAM_UNIT :: nat

definition IFX_ALIGN_UP_TO :: "nat \<Rightarrow> nat \<Rightarrow> nat" where
  "IFX_ALIGN_UP_TO x align = (if x mod align = 0 then x else (x div align + 1) * align)"

record ifx_rram_counter_t =
  rc_value :: nat
  rc_checksum :: nat

definition counter_size :: nat where "counter_size = 8"

definition bytes_counter :: "byte list \<Rightarrow> ifx_rram_counter_t" where
  "bytes_counter bs = \<lparr>rc_value = de32 (take 4 bs), rc_checksum = de32 (rd bs 4 4)\<rparr>"

definition counter_bytes :: "ifx_rram_counter_t \<Rightarrow> byte list" where
  "counter_bytes c = le32 (rc_value c) @ le32 (rc_checksum c)"

definition IFX_NVM_INIT_DONE_FLAG :: nat where "IFX_NVM_INIT_DONE_FLAG = 0xAA5533CC"

definition NV_COUNTERS_BACKUP_AREA_OFFSET :: "nvc_env \<Rightarrow> nat" where
  "NV_COUNTERS_BACKUP_AREA_OFFSET env = PLAT_NV_COUNTER_MAX env * counter_size"

definition NVM_INIT_DONE_FLAG_OFFSET :: "nvc_env \<Rightarrow> nat" where
  "NVM_INIT_DONE_FLAG_OFFSET env =
     IFX_ALIGN_UP_TO (NV_COUNTERS_BACKUP_AREA_OFFSET env + PLAT_NV_COUNTER_MAX env * counter_size) (NV_COUNTERS_SECTOR_SIZE env)"

definition NV_COUNTERS_EXPECTED_AREA_SIZE :: "nvc_env \<Rightarrow> nat" where
  "NV_COUNTERS_EXPECTED_AREA_SIZE env =
     IFX_ALIGN_UP_TO (counter_size * (2 * PLAT_NV_COUNTER_MAX env)) (NV_COUNTERS_SECTOR_SIZE env) + NV_COUNTERS_SECTOR_SIZE env"

text \<open>The address of \<open>rram_nv_counters_backup[counter_idx]\<close> or \<open>rram_nv_counters[counter_idx]\<close>.\<close>

definition counter_addr :: "nvc_env \<Rightarrow> nat \<Rightarrow> bool \<Rightarrow> nat" where
  "counter_addr env counter_idx is_backup = (if is_backup then NV_COUNTERS_BACKUP_AREA_OFFSET env else 0) + counter_idx * counter_size"

definition counter_checksum :: "nat \<Rightarrow> nat \<Rightarrow> nat" where
  "counter_checksum v address = unat (ifx_se_crc32d6a (le32 v) (word_of_nat address))"

definition ifx_rram_counter_is_checksum_valid :: "ifx_rram_counter_t \<Rightarrow> nat \<Rightarrow> bool" where
  "ifx_rram_counter_is_checksum_valid c address \<longleftrightarrow> counter_checksum (rc_value c) address = rc_checksum c"

definition ifx_rram_read_nv_counter_or_backup :: "nvc_env \<Rightarrow> 'd ARM_DRIVER_FLASH \<Rightarrow> nat \<Rightarrow> bool \<Rightarrow> 'd \<Rightarrow> nat plat_result \<times> 'd" where
  "ifx_rram_read_nv_counter_or_backup env drv counter_idx is_backup d =
     (let cnt = counter_size div NV_COUNTERS_PROGRAM_UNIT env; addr = counter_addr env counter_idx is_backup
      in if counter_idx \<ge> PLAT_NV_COUNTER_MAX env then (Inl TFM_PLAT_ERR_INVALID_INPUT, d)
         else case drv_ReadData drv addr cnt d of
           ((ret, bs), d) \<Rightarrow>
             if ret < 0 \<or> ret \<noteq> int cnt then (Inl TFM_PLAT_ERR_SYSTEM_ERR, d)
             else if \<not> ifx_rram_counter_is_checksum_valid (bytes_counter bs) addr then (Inl TFM_PLAT_ERR_MAX_VALUE, d)
             else (Inr (rc_value (bytes_counter bs)), d))"

definition ifx_rram_program_nv_counter_or_backup :: "nvc_env \<Rightarrow> 'd ARM_DRIVER_FLASH \<Rightarrow> nat \<Rightarrow> nat \<Rightarrow> bool \<Rightarrow> 'd \<Rightarrow> unit plat_result \<times> 'd" where
  "ifx_rram_program_nv_counter_or_backup env drv counter_idx v is_backup d =
     (let cnt = counter_size div NV_COUNTERS_PROGRAM_UNIT env; addr = counter_addr env counter_idx is_backup;
          c = \<lparr>rc_value = v, rc_checksum = counter_checksum v addr\<rparr>
      in case drv_ProgramData drv addr (counter_bytes c) cnt d of
           (ret, d) \<Rightarrow>
             if ret < 0 \<or> ret \<noteq> int cnt then (Inl TFM_PLAT_ERR_SYSTEM_ERR, d)
             else case ifx_rram_read_nv_counter_or_backup env drv counter_idx is_backup d of
               (Inl e, d) \<Rightarrow> (Inl e, d)
             | (Inr new_value, d) \<Rightarrow> if new_value \<noteq> v then (Inl TFM_PLAT_ERR_SYSTEM_ERR, d) else (Inr (), d))"

definition ifx_rram_restore_counter_from_backup :: "nvc_env \<Rightarrow> 'd ARM_DRIVER_FLASH \<Rightarrow> nat \<Rightarrow> 'd \<Rightarrow> unit plat_result \<times> 'd" where
  "ifx_rram_restore_counter_from_backup env drv counter_idx d =
     (case ifx_rram_read_nv_counter_or_backup env drv counter_idx True d of
        (Inl e, d) \<Rightarrow> (Inl e, d)
      | (Inr backup_val, d) \<Rightarrow> ifx_rram_program_nv_counter_or_backup env drv counter_idx backup_val False d)"

definition unexpected :: "'a plat_result \<Rightarrow> bool" where
  "unexpected st = (case st of Inr _ \<Rightarrow> False | Inl e \<Rightarrow> e \<noteq> TFM_PLAT_ERR_MAX_VALUE)"

text \<open>One iteration of the loop of \<open>ifx_rram_recover_rram_nv_counters\<close>.\<close>

definition ifx_rram_recover_counter :: "nvc_env \<Rightarrow> 'd ARM_DRIVER_FLASH \<Rightarrow> nat \<Rightarrow> 'd \<Rightarrow> unit plat_result \<times> 'd" where
  "ifx_rram_recover_counter env drv counter_idx d =
     (case ifx_rram_read_nv_counter_or_backup env drv counter_idx True d of
        (status_backup, d) \<Rightarrow>
          if unexpected status_backup then (map_sum id (\<lambda>_. ()) status_backup, d)
          else case ifx_rram_read_nv_counter_or_backup env drv counter_idx False d of
            (status_counter, d) \<Rightarrow>
              if unexpected status_counter then (map_sum id (\<lambda>_. ()) status_counter, d)
              else case (status_backup, status_counter) of
                (Inl _, Inl _) \<Rightarrow> (Inl TFM_PLAT_ERR_SYSTEM_ERR, d)
              | (Inl _, Inr _) \<Rightarrow> (Inr (), d)
              | (Inr _, Inl _) \<Rightarrow> ifx_rram_restore_counter_from_backup env drv counter_idx d
              | (Inr backup_val, Inr counter_val) \<Rightarrow>
                  if backup_val > counter_val then ifx_rram_restore_counter_from_backup env drv counter_idx d else (Inr (), d))"

fun plat_loop :: "(nat \<Rightarrow> 'd \<Rightarrow> unit plat_result \<times> 'd) \<Rightarrow> nat list \<Rightarrow> 'd \<Rightarrow> unit plat_result \<times> 'd" where
  "plat_loop body [] d = (Inr (), d)"
| "plat_loop body (i # is) d = (case body i d of (Inl e, d) \<Rightarrow> (Inl e, d) | (Inr _, d) \<Rightarrow> plat_loop body is d)"

definition ifx_rram_recover_rram_nv_counters :: "nvc_env \<Rightarrow> 'd ARM_DRIVER_FLASH \<Rightarrow> 'd \<Rightarrow> unit plat_result \<times> 'd" where
  "ifx_rram_recover_rram_nv_counters env drv d = plat_loop (ifx_rram_recover_counter env drv) [0..<PLAT_NV_COUNTER_MAX env] d"

definition ifx_rram_clear_counter :: "nvc_env \<Rightarrow> 'd ARM_DRIVER_FLASH \<Rightarrow> nat \<Rightarrow> 'd \<Rightarrow> unit plat_result \<times> 'd" where
  "ifx_rram_clear_counter env drv counter_idx d =
     (case ifx_rram_program_nv_counter_or_backup env drv counter_idx 0 True d of
        (Inl e, d) \<Rightarrow> (Inl e, d) | (Inr _, d) \<Rightarrow> ifx_rram_program_nv_counter_or_backup env drv counter_idx 0 False d)"

definition ifx_rram_clear_counters_and_backups :: "nvc_env \<Rightarrow> 'd ARM_DRIVER_FLASH \<Rightarrow> 'd \<Rightarrow> unit plat_result \<times> 'd" where
  "ifx_rram_clear_counters_and_backups env drv d = plat_loop (ifx_rram_clear_counter env drv) [0..<PLAT_NV_COUNTER_MAX env] d"

definition tfm_plat_init_nv_counter_rram :: "nvc_env \<Rightarrow> 'd ARM_DRIVER_FLASH \<Rightarrow> 'd \<Rightarrow> unit plat_result \<times> 'd" where
  "tfm_plat_init_nv_counter_rram env drv d =
     (let cnt = counter_size div NV_COUNTERS_PROGRAM_UNIT env; addr = NVM_INIT_DONE_FLAG_OFFSET env
      in if NV_COUNTERS_EXPECTED_AREA_SIZE env > NV_COUNTERS_AREA_SIZE env then (Inl TFM_PLAT_ERR_SYSTEM_ERR, d)
         else case drv_Initialize drv d of
           (ret, d) \<Rightarrow>
             if ret \<noteq> ARM_DRIVER_OK then (Inl TFM_PLAT_ERR_SYSTEM_ERR, d)
             else case drv_ReadData drv addr cnt d of
               ((ret, bs), d) \<Rightarrow>
                 if ret < 0 \<or> ret \<noteq> int cnt then (Inl TFM_PLAT_ERR_SYSTEM_ERR, d)
                 else if rc_value (bytes_counter bs) \<noteq> IFX_NVM_INIT_DONE_FLAG then
                   (case ifx_rram_clear_counters_and_backups env drv d of
                      (Inl e, d) \<Rightarrow> (Inl e, d)
                    | (Inr _, d) \<Rightarrow>
                        (case drv_ProgramData drv addr (counter_bytes ((bytes_counter bs)\<lparr>rc_value := IFX_NVM_INIT_DONE_FLAG\<rparr>)) cnt d of
                           (ret, d) \<Rightarrow> if ret < 0 \<or> ret \<noteq> int cnt then (Inl TFM_PLAT_ERR_SYSTEM_ERR, d)
                                       else ifx_rram_recover_rram_nv_counters env drv d))
                 else ifx_rram_recover_rram_nv_counters env drv d)"

definition tfm_plat_read_nv_counter_rram :: "nvc_env \<Rightarrow> 'd ARM_DRIVER_FLASH \<Rightarrow> nat \<Rightarrow> nat \<Rightarrow> 'd \<Rightarrow> nat plat_result \<times> 'd" where
  "tfm_plat_read_nv_counter_rram env drv counter_id sz d =
     (if sz \<noteq> 4 then (Inl TFM_PLAT_ERR_INVALID_INPUT, d) else ifx_rram_read_nv_counter_or_backup env drv counter_id False d)"

definition tfm_plat_set_nv_counter_rram :: "nvc_env \<Rightarrow> 'd ARM_DRIVER_FLASH \<Rightarrow> nat \<Rightarrow> nat \<Rightarrow> 'd \<Rightarrow> unit plat_result \<times> 'd" where
  "tfm_plat_set_nv_counter_rram env drv counter_id v d =
     (case ifx_rram_read_nv_counter_or_backup env drv counter_id False d of
        (Inl e, d) \<Rightarrow> (Inl e, d)
      | (Inr old_value, d) \<Rightarrow>
          if v < old_value then (Inl TFM_PLAT_ERR_INVALID_INPUT, d)
          else if v = old_value then (Inr (), d)
          else if old_value = SIZE_MAX_P1 - 1 then (Inl TFM_PLAT_ERR_MAX_VALUE, d)
          else case ifx_rram_program_nv_counter_or_backup env drv counter_id v True d of
            (Inl e, d) \<Rightarrow> (Inl e, d)
          | (Inr _, d) \<Rightarrow> ifx_rram_program_nv_counter_or_backup env drv counter_id v False d)"

definition tfm_plat_increment_nv_counter_rram :: "nvc_env \<Rightarrow> 'd ARM_DRIVER_FLASH \<Rightarrow> nat \<Rightarrow> 'd \<Rightarrow> unit plat_result \<times> 'd" where
  "tfm_plat_increment_nv_counter_rram env drv counter_id d =
     (case tfm_plat_read_nv_counter_rram env drv counter_id 4 d of
        (Inl e, d) \<Rightarrow> (Inl e, d)
      | (Inr security_cnt, d) \<Rightarrow>
          if security_cnt = SIZE_MAX_P1 - 1 then (Inl TFM_PLAT_ERR_MAX_VALUE, d)
          else tfm_plat_set_nv_counter_rram env drv counter_id (add32 security_cnt 1) d)"

section \<open>Counters in the memory\<close>

definition slot :: "byte list \<Rightarrow> nat \<Rightarrow> nat option" where
  "slot b a = (let c = bytes_counter (rd b a counter_size) in if ifx_rram_counter_is_checksum_valid c a then Some (rc_value c) else None)"

definition new_counter :: "nat \<Rightarrow> nat \<Rightarrow> byte list" where
  "new_counter v a = counter_bytes \<lparr>rc_value = v, rc_checksum = counter_checksum v a\<rparr>"

lemma rc_value_bytes: "rc_value (bytes_counter bs) = de32 (take 4 bs)" by (simp add: bytes_counter_def)

lemma length_new_counter [simp]: "length (new_counter v a) = 8" by (simp add: new_counter_def counter_bytes_def)

lemma checksum_bound [simp]: "counter_checksum v a < SIZE_MAX_P1"
  unfolding counter_checksum_def using unsigned_less[of "ifx_se_crc32d6a (le32 v) (word_of_nat a)"] by simp

lemma slot_new: "v < SIZE_MAX_P1 \<Longrightarrow> a + 8 \<le> length b \<Longrightarrow> slot (wr b a (new_counter v a)) a = Some v"
  by (simp add: slot_def counter_size_def rd_wr_same)
    (simp add: new_counter_def bytes_counter_def counter_bytes_def ifx_rram_counter_is_checksum_valid_def rd_def)

lemma slot_other: "a + length x \<le> length b \<Longrightarrow> a' + 8 \<le> length b \<Longrightarrow> a' + 8 \<le> a \<or> a + length x \<le> a' \<Longrightarrow> slot (wr b a x) a' = slot b a'"
  by (simp add: slot_def counter_size_def rd_wr_disj)

lemma slot_bound: "slot b a = Some v \<Longrightarrow> v < SIZE_MAX_P1"
  by (auto simp: slot_def Let_def bytes_counter_def split: if_splits)

text \<open>
  The first \<open>j\<close> bytes of a new counter are written: because the checksum determines the value, the slot is as
  before, or invalid, or new, unless the write stops within a word of a slot that was invalid.
\<close>

lemma torn_slot:
  assumes b: "a + 8 \<le> length b" and w: "w < SIZE_MAX_P1" and j: "slot b a \<noteq> None \<or> 4 dvd j" "j \<le> 8"
  shows "slot (wr b a (take j (new_counter w a))) a \<in> {slot b a, None, Some w}"
proof -
  define x where "x = rd b a 8"
  define y where "y = take j (new_counter w a) @ drop j x"
  have lx: "length x = 8" using b by (simp add: x_def)
  have ly: "length y = 8" using lx j by (simp add: y_def)
  have "rd (wr b a (take j (new_counter w a))) a 8 = y"
    using b j lx by (simp add: rd_def wr_def y_def x_def drop_take add.commute)
  then have s: "slot (wr b a (take j (new_counter w a))) a = (if counter_checksum (de32 (take 4 y)) a = de32 (rd y 4 4) then Some (de32 (take 4 y)) else None)"
    by (simp add: slot_def counter_size_def ifx_rram_counter_is_checksum_valid_def bytes_counter_def)
  have s0: "slot b a = (if counter_checksum (de32 (take 4 x)) a = de32 (rd x 4 4) then Some (de32 (take 4 x)) else None)"
    by (simp add: slot_def counter_size_def ifx_rram_counter_is_checksum_valid_def bytes_counter_def x_def)
  show ?thesis
  proof (cases "4 \<le> j")
    case True
    then have "take 4 y = le32 w" using lx j by (simp add: y_def new_counter_def counter_bytes_def)
    then show ?thesis using w by (simp add: s)
  next
    case False
    then have r: "rd y 4 4 = rd x 4 4" using lx by (simp add: y_def rd_def drop_append)
    show ?thesis
    proof (cases "j = 0")
      case True
      then show ?thesis by (simp add: y_def s s0)
    next
      case j0: False
      then have "slot b a \<noteq> None" using j False by (auto dest: dvd_imp_le)
      then have o: "counter_checksum (de32 (take 4 x)) a = de32 (rd x 4 4)" by (auto simp: s0 split: if_splits)
      have "de32 (take 4 y) = de32 (take 4 x)" if "counter_checksum (de32 (take 4 y)) a = de32 (rd y 4 4)"
      proof -
        have "unat (ifx_se_crc32d6a (le32 (de32 (take 4 y))) (word_of_nat a)) = unat (ifx_se_crc32d6a (le32 (de32 (take 4 x))) (word_of_nat a))"
          using that o by (simp add: r counter_checksum_def)
        then have "ifx_se_crc32d6a (le32 (de32 (take 4 y))) (word_of_nat a) = ifx_se_crc32d6a (le32 (de32 (take 4 x))) (word_of_nat a)"
          by (rule unsigned_word_eqI)
        then have "le32 (de32 (take 4 y)) = le32 (de32 (take 4 x))" by (rule crc_four_inj) simp_all
        then show ?thesis by (metis de32_le32 de32_bound)
      qed
      then show ?thesis using o by (auto simp: s s0)
    qed
  qed
qed

section \<open>The counters over a flash driver\<close>

definition rram_geom :: "nvc_env \<Rightarrow> nat \<Rightarrow> nat \<Rightarrow> nat \<Rightarrow> bool" where
  "rram_geom env item pu fsize \<longleftrightarrow> NV_COUNTERS_PROGRAM_UNIT env = item \<and> item dvd 8 \<and> pu dvd 8
     \<and> 8 \<le> NV_COUNTERS_SECTOR_SIZE env \<and> item dvd NV_COUNTERS_SECTOR_SIZE env
     \<and> NV_COUNTERS_EXPECTED_AREA_SIZE env \<le> NV_COUNTERS_AREA_SIZE env \<and> NV_COUNTERS_AREA_SIZE env \<le> fsize"

lemma flag_offset:
  assumes "rram_geom env item pu fsize"
  shows "PLAT_NV_COUNTER_MAX env * 16 \<le> NVM_INIT_DONE_FLAG_OFFSET env" "NVM_INIT_DONE_FLAG_OFFSET env + 8 \<le> fsize"
    "item dvd NVM_INIT_DONE_FLAG_OFFSET env"
proof -
  let ?s = "NV_COUNTERS_SECTOR_SIZE env" and ?x = "PLAT_NV_COUNTER_MAX env * 16"
  have e: "NVM_INIT_DONE_FLAG_OFFSET env = IFX_ALIGN_UP_TO ?x ?s" "NV_COUNTERS_EXPECTED_AREA_SIZE env = IFX_ALIGN_UP_TO ?x ?s + ?s"
    by (simp_all add: NVM_INIT_DONE_FLAG_OFFSET_def NV_COUNTERS_BACKUP_AREA_OFFSET_def NV_COUNTERS_EXPECTED_AREA_SIZE_def counter_size_def ac_simps)
  have "?x < (?x div ?s + 1) * ?s" if "0 < ?s" using dividend_less_div_times[OF that, of ?x] by simp
  then show "?x \<le> NVM_INIT_DONE_FLAG_OFFSET env" using assms by (auto simp: e IFX_ALIGN_UP_TO_def rram_geom_def)
  show "NVM_INIT_DONE_FLAG_OFFSET env + 8 \<le> fsize" using assms unfolding e rram_geom_def by linarith
  have "item dvd ?x" using assms dvd_mult[of item 8 "PLAT_NV_COUNTER_MAX env * 2"] by (simp add: rram_geom_def mult.commute)
  then show "item dvd NVM_INIT_DONE_FLAG_OFFSET env" using assms by (simp add: e IFX_ALIGN_UP_TO_def rram_geom_def)
qed

context cmsis_flash
begin

definition rram_setup :: "nvc_env \<Rightarrow> bool" where
  "rram_setup env \<longleftrightarrow> rram_geom env (drv_item drv) (fi_program_unit info) fsize \<and> (\<forall>d. ok d \<longrightarrow> drv_Initialize drv d = (ARM_DRIVER_OK, d))"

definition cell :: "nvc_env \<Rightarrow> 'd \<Rightarrow> bool \<Rightarrow> nat \<Rightarrow> nat option" where
  "cell env d b i = (if i < PLAT_NV_COUNTER_MAX env then slot (img d) (counter_addr env i b) else None)"

definition flag_word :: "nvc_env \<Rightarrow> 'd \<Rightarrow> nat" where
  "flag_word env d = de32 (take 4 (rd (img d) (NVM_INIT_DONE_FLAG_OFFSET env) 8))"

lemma setup_items:
  assumes "rram_setup env"
  shows "counter_size div NV_COUNTERS_PROGRAM_UNIT env * drv_item drv = 8" "0 < counter_size div NV_COUNTERS_PROGRAM_UNIT env"
  using assms item_cases by (auto simp: rram_setup_def rram_geom_def counter_size_def)

lemma counter_addr_fits:
  assumes "rram_setup env" "i < PLAT_NV_COUNTER_MAX env"
  shows "counter_addr env i b + 8 \<le> NVM_INIT_DONE_FLAG_OFFSET env" "drv_item drv dvd counter_addr env i b" "counter_addr env i b + 8 \<le> fsize"
proof -
  have g: "rram_geom env (drv_item drv) (fi_program_unit info) fsize" using assms(1) by (simp add: rram_setup_def)
  have "counter_addr env i b + 8 \<le> PLAT_NV_COUNTER_MAX env * 16" using assms(2) by (simp add: counter_addr_def NV_COUNTERS_BACKUP_AREA_OFFSET_def counter_size_def)
  then show "counter_addr env i b + 8 \<le> NVM_INIT_DONE_FLAG_OFFSET env" "counter_addr env i b + 8 \<le> fsize"
    using flag_offset[OF g] by linarith+
  have "8 dvd counter_addr env i b" by (simp add: counter_addr_def NV_COUNTERS_BACKUP_AREA_OFFSET_def counter_size_def)
  then show "drv_item drv dvd counter_addr env i b" using g by (auto simp: rram_geom_def intro: dvd_trans)
qed

lemma counter_addr_apart:
  assumes "i < PLAT_NV_COUNTER_MAX env" "i' < PLAT_NV_COUNTER_MAX env" "(b, i) \<noteq> (b', i')"
  shows "counter_addr env i b + 8 \<le> counter_addr env i' b' \<or> counter_addr env i' b' + 8 \<le> counter_addr env i b"
  using assms by (cases b; cases b') (auto simp: counter_addr_def NV_COUNTERS_BACKUP_AREA_OFFSET_def counter_size_def linorder_neq_iff)

lemma rram_read:
  assumes "rram_setup env" "ok d" "i < PLAT_NV_COUNTER_MAX env"
  shows "ifx_rram_read_nv_counter_or_backup env drv i b d = (case cell env d b i of None \<Rightarrow> Inl TFM_PLAT_ERR_MAX_VALUE | Some v \<Rightarrow> Inr v, d)"
  using read_data[OF assms(2) setup_items(2)[OF assms(1)] counter_addr_fits(2)[OF assms(1,3)]] counter_addr_fits(3)[OF assms(1,3)] assms(3)
  by (simp add: setup_items(1)[OF assms(1)] ifx_rram_read_nv_counter_or_backup_def Let_def cell_def slot_def) (simp add: counter_size_def)

lemma put_cells:
  assumes s: "rram_setup env" and o: "ok d" and i: "i < PLAT_NV_COUNTER_MAX env" and x: "length x \<le> 8"
    and d'_def: "d' = put d (wr (img d) (counter_addr env i b) x)"
  shows "ok d'" "flag_word env d' = flag_word env d" "(b', i') \<noteq> (b, i) \<Longrightarrow> cell env d' b' i' = cell env d b' i'"
    "cell env d' b i = slot (wr (img d) (counter_addr env i b) x) (counter_addr env i b)"
proof -
  let ?a = "counter_addr env i b"
  note f = counter_addr_fits[OF s i, of b] and l = img_length[OF o]
  have g: "rram_geom env (drv_item drv) (fi_program_unit info) fsize" using s by (simp add: rram_setup_def)
  have w: "length (wr (img d) ?a x) = fsize" using f x l by simp
  show "ok d'" using ok_put[OF o w] by (simp add: d'_def)
  have im: "img d' = wr (img d) ?a x" using img_put[OF o w] by (simp add: d'_def)
  show "flag_word env d' = flag_word env d" using f x l flag_offset(2)[OF g] by (simp add: flag_word_def im rd_wr_disj)
  show "cell env d' b i = slot (wr (img d) ?a x) ?a" using i by (simp add: cell_def im)
  show "cell env d' b' i' = cell env d b' i'" if ne: "(b', i') \<noteq> (b, i)"
  proof (cases "i' < PLAT_NV_COUNTER_MAX env")
    case True
    have "slot (wr (img d) ?a x) (counter_addr env i' b') = slot (img d) (counter_addr env i' b')"
      using counter_addr_apart[OF True i ne] f counter_addr_fits(3)[OF s True, of b'] l x by (intro slot_other) auto
    then show ?thesis by (simp add: cell_def im)
  qed (simp add: cell_def)
qed

lemma rram_program_puts:
  assumes s: "rram_setup env" and o: "ok d" and i: "i < PLAT_NV_COUNTER_MAX env" and v: "v < SIZE_MAX_P1"
    and d'_def: "d' = put d (wr (img d) (counter_addr env i b) (new_counter v (counter_addr env i b)))"
  shows "ifx_rram_program_nv_counter_or_backup env drv i v b d = (Inr (), d')" "ok d'" "flag_word env d' = flag_word env d"
    "cell env d' = (\<lambda>b' i'. if (b', i') = (b, i) then Some v else cell env d b' i')"
proof -
  let ?a = "counter_addr env i b"
  note f = counter_addr_fits[OF s i, of b] and l = img_length[OF o] and p = put_cells[OF s o i _ d'_def]
  show c: "cell env d' = (\<lambda>b' i'. if (b', i') = (b, i) then Some v else cell env d b' i')"
    using p(3,4) slot_new[OF v, of ?a "img d"] f l by (auto simp: fun_eq_iff)
  have "fi_program_unit info dvd 8" using s by (simp add: rram_setup_def rram_geom_def)
  then have pr: "drv_ProgramData drv ?a (new_counter v ?a) (counter_size div NV_COUNTERS_PROGRAM_UNIT env) d
      = (int (counter_size div NV_COUNTERS_PROGRAM_UNIT env), d')"
    using program_data[OF o setup_items(2)[OF s] f(2), of "new_counter v ?a"] f(3) by (simp add: setup_items(1)[OF s] d'_def)
  show o': "ok d'" "flag_word env d' = flag_word env d" using p(1,2) by simp_all
  show "ifx_rram_program_nv_counter_or_backup env drv i v b d = (Inr (), d')"
    using pr rram_read[OF s o'(1) i, of b] by (simp add: ifx_rram_program_nv_counter_or_backup_def Let_def new_counter_def[symmetric] c)
qed

lemma rram_program:
  assumes "rram_setup env" "ok d" "i < PLAT_NV_COUNTER_MAX env" "v < SIZE_MAX_P1"
  shows "\<exists>d'. ifx_rram_program_nv_counter_or_backup env drv i v b d = (Inr (), d') \<and> ok d' \<and> flag_word env d' = flag_word env d
    \<and> cell env d' = (\<lambda>b' i'. if (b', i') = (b, i) then Some v else cell env d b' i')"
  using rram_program_puts[OF assms refl, of b] by blast

text \<open>What the initialisation makes of a counter and its backup: the larger valid value.\<close>

definition recovered :: "nvc_env \<Rightarrow> 'd \<Rightarrow> nat \<Rightarrow> nat option" where
  "recovered env d i = (case (cell env d True i, cell env d False i) of
     (Some b, Some c) \<Rightarrow> Some (max b c) | (Some b, None) \<Rightarrow> Some b | (None, c) \<Rightarrow> c)"

lemma rram_recover_counter:
  assumes s: "rram_setup env" and o: "ok d" and i: "i < PLAT_NV_COUNTER_MAX env" and r: "recovered env d i = Some v"
  shows "\<exists>d'. ifx_rram_recover_counter env drv i d = (Inr (), d') \<and> ok d' \<and> flag_word env d' = flag_word env d
    \<and> cell env d' = (\<lambda>b' i'. if (b', i') = (False, i) then Some v else cell env d b' i')"
proof -
  note rd = rram_read[OF s o i]
  have pr: "\<exists>d'. ifx_rram_restore_counter_from_backup env drv i d = (Inr (), d') \<and> ok d' \<and> flag_word env d' = flag_word env d
    \<and> cell env d' = (\<lambda>b' i'. if (b', i') = (False, i) then Some w else cell env d b' i')" if w: "cell env d True i = Some w" for w
  proof -
    have "w < SIZE_MAX_P1" using w by (auto simp: cell_def split: if_splits dest: slot_bound)
    then show ?thesis using rram_program[OF s o i, of w False] rd[of True] w by (simp add: ifx_rram_restore_counter_from_backup_def)
  qed
  have same: "cell env d = (\<lambda>b' i'. if (b', i') = (False, i) then Some v else cell env d b' i')" if "cell env d False i = Some v" using that by (auto simp: fun_eq_iff)
  show ?thesis
  proof (cases "cell env d True i")
    case None
    then have c: "cell env d False i = Some v" using r by (simp add: recovered_def)
    then have "ifx_rram_recover_counter env drv i d = (Inr (), d)" using None rd by (simp add: ifx_rram_recover_counter_def unexpected_def)
    then show ?thesis using o same[OF c] by blast
  next
    case (Some b)
    show ?thesis
    proof (cases "cell env d False i")
      case None
      then have vb: "v = b" and e: "ifx_rram_recover_counter env drv i d = ifx_rram_restore_counter_from_backup env drv i d"
        using Some r rd by (simp_all add: recovered_def ifx_rram_recover_counter_def unexpected_def)
      show ?thesis unfolding e vb by (rule pr[OF Some])
    next
      case c: (Some c)
      then have v: "v = max b c" and e: "ifx_rram_recover_counter env drv i d = (if c < b then ifx_rram_restore_counter_from_backup env drv i d else (Inr (), d))"
        using Some r rd by (simp_all add: recovered_def ifx_rram_recover_counter_def unexpected_def)
      show ?thesis
      proof (cases "c < b")
        case True
        then have "ifx_rram_recover_counter env drv i d = ifx_rram_restore_counter_from_backup env drv i d" and vb: "v = b" using e v by simp_all
        then show ?thesis unfolding vb using pr[OF Some] by metis
      next
        case False
        then have "cell env d False i = Some v" using c v by simp
        then show ?thesis using e False o same by auto
      qed
    qed
  qed
qed

lemma rram_recover_loop:
  assumes s: "rram_setup env" and o: "ok d" and i: "set is \<subseteq> {..<PLAT_NV_COUNTER_MAX env}"
    and r: "\<forall>i < PLAT_NV_COUNTER_MAX env. recovered env d i \<noteq> None"
  shows "\<exists>d'. plat_loop (ifx_rram_recover_counter env drv) is d = (Inr (), d') \<and> ok d' \<and> flag_word env d' = flag_word env d
    \<and> cell env d' = (\<lambda>b' i'. if \<not> b' \<and> i' \<in> set is then recovered env d i' else cell env d b' i')"
  using o i r
proof (induction "is" arbitrary: d)
  case (Cons i "is")
  have i: "i < PLAT_NV_COUNTER_MAX env" using Cons.prems by simp
  then obtain v where v: "recovered env d i = Some v" using Cons.prems by auto
  obtain d1 where d1: "ifx_rram_recover_counter env drv i d = (Inr (), d1)" "ok d1" "flag_word env d1 = flag_word env d"
    "cell env d1 = (\<lambda>b' i'. if (b', i') = (False, i) then Some v else cell env d b' i')"
    using rram_recover_counter[OF s Cons.prems(1) i v] by blast
  have rc: "recovered env d1 = recovered env d" using v by (auto simp: recovered_def d1(4) fun_eq_iff split: option.splits)
  obtain d2 where d2: "plat_loop (ifx_rram_recover_counter env drv) is d1 = (Inr (), d2)" "ok d2" "flag_word env d2 = flag_word env d1"
    "cell env d2 = (\<lambda>b' i'. if \<not> b' \<and> i' \<in> set is then recovered env d1 i' else cell env d1 b' i')"
    using Cons.IH[OF d1(2)] Cons.prems rc by auto
  have "cell env d2 = (\<lambda>b' i'. if \<not> b' \<and> i' \<in> set (i # is) then recovered env d i' else cell env d b' i')"
    using v by (auto simp: d2(4) d1(4) rc fun_eq_iff)
  then show ?case using d1 d2 by simp
qed (simp add: fun_eq_iff)

lemma rram_clear_loop:
  assumes s: "rram_setup env" and o: "ok d" and i: "set is \<subseteq> {..<PLAT_NV_COUNTER_MAX env}"
  shows "\<exists>d'. plat_loop (ifx_rram_clear_counter env drv) is d = (Inr (), d') \<and> ok d' \<and> flag_word env d' = flag_word env d
    \<and> cell env d' = (\<lambda>b' i'. if i' \<in> set is then Some 0 else cell env d b' i')"
  using o i
proof (induction "is" arbitrary: d)
  case (Cons i "is")
  have i: "i < PLAT_NV_COUNTER_MAX env" using Cons.prems by simp
  obtain d1 where d1: "ifx_rram_program_nv_counter_or_backup env drv i 0 True d = (Inr (), d1)" "ok d1" "flag_word env d1 = flag_word env d"
    "cell env d1 = (\<lambda>b' i'. if (b', i') = (True, i) then Some 0 else cell env d b' i')"
    using rram_program[OF s Cons.prems(1) i, of 0 True] by auto
  obtain d2 where d2: "ifx_rram_program_nv_counter_or_backup env drv i 0 False d1 = (Inr (), d2)" "ok d2" "flag_word env d2 = flag_word env d1"
    "cell env d2 = (\<lambda>b' i'. if (b', i') = (False, i) then Some 0 else cell env d1 b' i')"
    using rram_program[OF s d1(2) i, of 0 False] by auto
  obtain d3 where d3: "plat_loop (ifx_rram_clear_counter env drv) is d2 = (Inr (), d3)" "ok d3" "flag_word env d3 = flag_word env d2"
    "cell env d3 = (\<lambda>b' i'. if i' \<in> set is then Some 0 else cell env d2 b' i')"
    using Cons.IH[OF d2(2)] Cons.prems by auto
  have "cell env d3 = (\<lambda>b' i'. if i' \<in> set (i # is) then Some 0 else cell env d b' i')" by (auto simp: d3(4) d2(4) d1(4) fun_eq_iff)
  moreover have "ifx_rram_clear_counter env drv i d = (Inr (), d2)" using d1(1) d2(1) by (simp add: ifx_rram_clear_counter_def)
  ultimately show ?case using d1(3) d2(3) d3 by simp
qed (simp add: fun_eq_iff)

text \<open>
  Between operations every counter is valid and no backup is ahead of it. \<open>rram_recoverable\<close> is what
  suffices for the initialisation: of each counter and its backup one is valid.
\<close>

definition rram_ok :: "nvc_env \<Rightarrow> 'd \<Rightarrow> bool" where
  "rram_ok env d \<longleftrightarrow> rram_setup env \<and> ok d \<and> flag_word env d = IFX_NVM_INIT_DONE_FLAG
     \<and> (\<forall>i < PLAT_NV_COUNTER_MAX env. \<exists>v. cell env d False i = Some v \<and> (\<forall>b. cell env d True i = Some b \<longrightarrow> b \<le> v))"

definition rram_val :: "nvc_env \<Rightarrow> 'd \<Rightarrow> nat \<Rightarrow> nat" where
  "rram_val env d i = (case cell env d False i of None \<Rightarrow> 0 | Some v \<Rightarrow> v)"

lemma rram_okD:
  assumes "rram_ok env d"
  shows "rram_setup env" "ok d" "flag_word env d = IFX_NVM_INIT_DONE_FLAG" "i < PLAT_NV_COUNTER_MAX env \<Longrightarrow> cell env d False i = Some (rram_val env d i)"
    "i < PLAT_NV_COUNTER_MAX env \<Longrightarrow> cell env d True i = Some b \<Longrightarrow> b \<le> rram_val env d i"
  using assms by (auto simp: rram_ok_def rram_val_def)

lemma rram_val_bound: "rram_val env d i < SIZE_MAX_P1"
  by (auto simp: rram_val_def cell_def split: option.split dest: slot_bound)

lemma cell_out: "\<not> i < PLAT_NV_COUNTER_MAX env \<Longrightarrow> cell env d b i = None" by (simp add: cell_def)

lemma rram_init_recovers:
  assumes s: "rram_setup env" and o: "ok d" and f: "flag_word env d = IFX_NVM_INIT_DONE_FLAG"
    and r: "\<forall>i < PLAT_NV_COUNTER_MAX env. recovered env d i \<noteq> None"
  shows "\<exists>d'. tfm_plat_init_nv_counter_rram env drv d = (Inr (), d') \<and> rram_ok env d'
    \<and> rram_val env d' = (\<lambda>i. case recovered env d i of None \<Rightarrow> 0 | Some v \<Rightarrow> v)"
proof -
  have g: "rram_geom env (drv_item drv) (fi_program_unit info) fsize" and ini: "drv_Initialize drv d = (ARM_DRIVER_OK, d)" using s o by (simp_all add: rram_setup_def)
  obtain d' where d': "ifx_rram_recover_rram_nv_counters env drv d = (Inr (), d')" "ok d'" "flag_word env d' = flag_word env d"
    "cell env d' = (\<lambda>b' i'. if \<not> b' \<and> i' \<in> set [0..<PLAT_NV_COUNTER_MAX env] then recovered env d i' else cell env d b' i')"
    using rram_recover_loop[OF s o _ r, of "[0..<PLAT_NV_COUNTER_MAX env]"] unfolding ifx_rram_recover_rram_nv_counters_def by (auto simp: subset_iff)
  have rd: "drv_ReadData drv (NVM_INIT_DONE_FLAG_OFFSET env) (counter_size div NV_COUNTERS_PROGRAM_UNIT env) d
     = ((int (counter_size div NV_COUNTERS_PROGRAM_UNIT env), rd (img d) (NVM_INIT_DONE_FLAG_OFFSET env) 8), d)"
    using read_data[OF o setup_items(2)[OF s] flag_offset(3)[OF g]] flag_offset(2)[OF g] by (simp add: setup_items(1)[OF s])
  have fl: "rc_value (bytes_counter (rd (img d) (NVM_INIT_DONE_FLAG_OFFSET env) 8)) = IFX_NVM_INIT_DONE_FLAG" using f by (simp add: bytes_counter_def flag_word_def)
  have "tfm_plat_init_nv_counter_rram env drv d = (Inr (), d')"
    using g ini rd fl d'(1) by (simp add: tfm_plat_init_nv_counter_rram_def rram_geom_def Let_def)
  moreover have "\<exists>v. cell env d' False i = Some v \<and> (\<forall>b. cell env d' True i = Some b \<longrightarrow> b \<le> v)" if "i < PLAT_NV_COUNTER_MAX env" for i
  proof -
    obtain v where v: "recovered env d i = Some v" using r \<open>i < PLAT_NV_COUNTER_MAX env\<close> by blast
    then have "b \<le> v" if "cell env d True i = Some b" for b using that by (auto simp: recovered_def split: option.splits)
    then show ?thesis using that v by (simp add: d'(4))
  qed
  moreover have "rram_val env d' i = (case recovered env d i of None \<Rightarrow> 0 | Some v \<Rightarrow> v)" for i
    by (cases "i < PLAT_NV_COUNTER_MAX env") (simp_all add: rram_val_def d'(4) cell_out recovered_def)
  ultimately show ?thesis using d'(2,3) s f by (intro exI[of _ d']) (simp add: rram_ok_def fun_eq_iff)
qed

lemma rram_ok_recovered:
  assumes "rram_ok env d"
  shows "recovered env d i = (if i < PLAT_NV_COUNTER_MAX env then Some (rram_val env d i) else None)"
  using rram_okD(4,5)[OF assms, of i] by (auto simp: recovered_def cell_out max_def split: option.splits)

lemma rram_init_again:
  assumes "rram_ok env d"
  shows "\<exists>d'. tfm_plat_init_nv_counter_rram env drv d = (Inr (), d') \<and> rram_ok env d' \<and> rram_val env d' = rram_val env d"
proof -
  have "(\<lambda>i. case recovered env d i of None \<Rightarrow> 0 | Some v \<Rightarrow> v) = rram_val env d"
    by (auto simp: rram_ok_recovered[OF assms] rram_val_def cell_out fun_eq_iff)
  then show ?thesis using rram_init_recovers[OF rram_okD(1-3)[OF assms]] by (simp add: rram_ok_recovered[OF assms])
qed

lemma rram_read_val:
  assumes "rram_ok env d" "i < PLAT_NV_COUNTER_MAX env"
  shows "tfm_plat_read_nv_counter_rram env drv i 4 d = (Inr (rram_val env d i), d)"
  using rram_read[OF rram_okD(1,2)[OF assms(1)] assms(2), of False] rram_okD(4)[OF assms] by (simp add: tfm_plat_read_nv_counter_rram_def)

lemma rram_read_size: "sz \<noteq> 4 \<Longrightarrow> \<exists>e. tfm_plat_read_nv_counter_rram env drv i sz d = (Inl e, d)"
  by (simp add: tfm_plat_read_nv_counter_rram_def)

lemma rram_set_val:
  assumes k: "rram_ok env d" and i: "i < PLAT_NV_COUNTER_MAX env" and v: "v < SIZE_MAX_P1"
  shows "\<exists>d'. tfm_plat_set_nv_counter_rram env drv i v d = (if v < rram_val env d i then Inl TFM_PLAT_ERR_INVALID_INPUT else Inr (), d') \<and> rram_ok env d'
    \<and> rram_val env d' = (if v < rram_val env d i then rram_val env d else (rram_val env d)(i := v))"
proof -
  note D = rram_okD[OF k]
  have rd: "ifx_rram_read_nv_counter_or_backup env drv i False d = (Inr (rram_val env d i), d)" using rram_read[OF D(1,2) i, of False] D(4)[OF i] by simp
  show ?thesis
  proof (cases "v \<le> rram_val env d i")
    case True
    then have "tfm_plat_set_nv_counter_rram env drv i v d = (if v < rram_val env d i then Inl TFM_PLAT_ERR_INVALID_INPUT else Inr (), d)"
      "rram_val env d = (if v < rram_val env d i then rram_val env d else (rram_val env d)(i := v))"
      using rd by (auto simp: tfm_plat_set_nv_counter_rram_def)
    then show ?thesis using k by metis
  next
    case False
    obtain d1 where d1: "ifx_rram_program_nv_counter_or_backup env drv i v True d = (Inr (), d1)" "ok d1" "flag_word env d1 = flag_word env d"
      "cell env d1 = (\<lambda>b' i'. if (b', i') = (True, i) then Some v else cell env d b' i')"
      using rram_program[OF D(1,2) i v, of True] by auto
    obtain d2 where d2: "ifx_rram_program_nv_counter_or_backup env drv i v False d1 = (Inr (), d2)" "ok d2" "flag_word env d2 = flag_word env d1"
      "cell env d2 = (\<lambda>b' i'. if (b', i') = (False, i) then Some v else cell env d1 b' i')"
      using rram_program[OF D(1) d1(2) i v, of False] by auto
    have "tfm_plat_set_nv_counter_rram env drv i v d = (Inr (), d2)" using rd False d1(1) d2(1) v by (simp add: tfm_plat_set_nv_counter_rram_def)
    moreover have "rram_ok env d2" using D d1 d2 by (auto simp: rram_ok_def)
    moreover have "rram_val env d2 = (rram_val env d)(i := v)" by (auto simp: rram_val_def d2(4) d1(4) fun_eq_iff)
    ultimately show ?thesis using False by simp
  qed
qed

lemma rram_inc_val:
  assumes k: "rram_ok env d" and i: "i < PLAT_NV_COUNTER_MAX env"
  shows "\<exists>d'. tfm_plat_increment_nv_counter_rram env drv i d = (if rram_val env d i = SIZE_MAX_P1 - 1 then Inl TFM_PLAT_ERR_MAX_VALUE else Inr (), d') \<and> rram_ok env d'
    \<and> rram_val env d' = (if rram_val env d i = SIZE_MAX_P1 - 1 then rram_val env d else (rram_val env d)(i := rram_val env d i + 1))"
proof (cases "rram_val env d i = SIZE_MAX_P1 - 1")
  case False
  then have "rram_val env d i + 1 < SIZE_MAX_P1" using rram_val_bound[of env d i] by linarith
  then show ?thesis using rram_set_val[OF k i, of "rram_val env d i + 1"] False rram_read_val[OF k i] by (simp add: tfm_plat_increment_nv_counter_rram_def add32_id)
qed (use k rram_read_val[OF k i] in \<open>simp add: tfm_plat_increment_nv_counter_rram_def\<close>)

text \<open>The first initialisation: the flag is not there yet.\<close>

lemma rram_init_first:
  assumes s: "rram_setup env" and o: "ok d" and f: "flag_word env d \<noteq> IFX_NVM_INIT_DONE_FLAG"
  shows "\<exists>d'. tfm_plat_init_nv_counter_rram env drv d = (Inr (), d') \<and> rram_ok env d' \<and> rram_val env d' = (\<lambda>_. 0)"
proof -
  let ?f = "NVM_INIT_DONE_FLAG_OFFSET env" and ?n = "counter_size div NV_COUNTERS_PROGRAM_UNIT env"
  have g: "rram_geom env (drv_item drv) (fi_program_unit info) fsize" and ini: "drv_Initialize drv d = (ARM_DRIVER_OK, d)" using s o by (simp_all add: rram_setup_def)
  obtain d1 where d1: "ifx_rram_clear_counters_and_backups env drv d = (Inr (), d1)" "ok d1" "flag_word env d1 = flag_word env d"
    "cell env d1 = (\<lambda>b' i'. if i' \<in> set [0..<PLAT_NV_COUNTER_MAX env] then Some 0 else cell env d b' i')"
    using rram_clear_loop[OF s o, of "[0..<PLAT_NV_COUNTER_MAX env]"] unfolding ifx_rram_clear_counters_and_backups_def by (auto simp: subset_iff)
  have rd: "drv_ReadData drv ?f ?n d = ((int ?n, rd (img d) ?f 8), d)"
    using read_data[OF o setup_items(2)[OF s] flag_offset(3)[OF g]] flag_offset(2)[OF g] by (simp add: setup_items(1)[OF s])
  define x where "x = counter_bytes ((bytes_counter (rd (img d) ?f 8))\<lparr>rc_value := IFX_NVM_INIT_DONE_FLAG\<rparr>)"
  have x: "length x = 8" "take 4 x = le32 IFX_NVM_INIT_DONE_FLAG" by (simp_all add: x_def counter_bytes_def)
  define d2 where "d2 = put d1 (wr (img d1) ?f x)"
  have w: "length (wr (img d1) ?f x) = fsize" using flag_offset(2)[OF g] img_length[OF d1(2)] x by simp
  have im: "img d2 = wr (img d1) ?f x" "ok d2" using img_put[OF d1(2) w] ok_put[OF d1(2) w] by (simp_all add: d2_def)
  have pr: "drv_ProgramData drv ?f x ?n d1 = (int ?n, d2)"
    using program_data[OF d1(2) setup_items(2)[OF s] flag_offset(3)[OF g], of x] flag_offset(2)[OF g] x g
    by (simp add: setup_items(1)[OF s] rram_geom_def d2_def)
  have fl: "flag_word env d2 = IFX_NVM_INIT_DONE_FLAG"
    using x flag_offset(2)[OF g] img_length[OF d1(2)] by (simp add: flag_word_def im rd_wr_same IFX_NVM_INIT_DONE_FLAG_def)
  have c: "cell env d2 = cell env d1"
  proof (intro ext)
    fix b i show "cell env d2 b i = cell env d1 b i"
      using counter_addr_fits(1)[OF s, of i b] x flag_offset(2)[OF g] img_length[OF d1(2)] by (cases "i < PLAT_NV_COUNTER_MAX env") (simp_all add: cell_def im slot_other)
  qed
  have r: "recovered env d2 i = (if i < PLAT_NV_COUNTER_MAX env then Some 0 else None)" for i by (simp add: recovered_def c d1(4) cell_out)
  obtain d3 where d3: "ifx_rram_recover_rram_nv_counters env drv d2 = (Inr (), d3)" "ok d3" "flag_word env d3 = flag_word env d2"
    "cell env d3 = (\<lambda>b' i'. if \<not> b' \<and> i' \<in> set [0..<PLAT_NV_COUNTER_MAX env] then recovered env d2 i' else cell env d2 b' i')"
    using rram_recover_loop[OF s im(2), of "[0..<PLAT_NV_COUNTER_MAX env]"] r unfolding ifx_rram_recover_rram_nv_counters_def by (auto simp: subset_iff)
  have "tfm_plat_init_nv_counter_rram env drv d = (Inr (), d3)"
    using g ini rd f d1(1) pr d3(1) by (simp add: tfm_plat_init_nv_counter_rram_def rram_geom_def Let_def x_def[symmetric] flag_word_def rc_value_bytes)
  moreover have "rram_ok env d3" using s d3(2,3) fl by (auto simp: rram_ok_def d3(4) c d1(4) r)
  moreover have "rram_val env d3 = (\<lambda>_. 0)" by (auto simp: rram_val_def d3(4) c d1(4) r cell_out fun_eq_iff)
  ultimately show ?thesis by blast
qed

section \<open>Power failures\<close>

text \<open>
  The device with \<open>j\<close> bytes of a new backup of counter \<open>i\<close> written, or with the backup and \<open>j\<close> bytes of the counter
  written. These are the states in which an update with a failing driver stops (\<open>rram_cut_state\<close> below).
\<close>

definition set_cut :: "nvc_env \<Rightarrow> nat \<Rightarrow> nat \<Rightarrow> bool \<Rightarrow> nat \<Rightarrow> 'd \<Rightarrow> 'd" where
  "set_cut env i w in_backup j d =
     (let ab = counter_addr env i True; ac = counter_addr env i False; b = wr (img d) ab (new_counter w ab)
      in if in_backup then put d (wr (img d) ab (take j (new_counter w ab))) else put d (wr b ac (take j (new_counter w ac))))"

lemma rram_set_cut:
  assumes k: "rram_ok env d" and i: "i < PLAT_NV_COUNTER_MAX env" and w: "w < SIZE_MAX_P1" "rram_val env d i < w"
    and j: "j \<le> 8" "cell env d True i \<noteq> None \<or> 4 dvd j \<or> \<not> in_backup"
  shows "\<exists>d'. tfm_plat_init_nv_counter_rram env drv (set_cut env i w in_backup j d) = (Inr (), d') \<and> rram_ok env d'
    \<and> (rram_val env d' = (rram_val env d)(i := w) \<or> in_backup \<and> rram_val env d' = rram_val env d)"
proof -
  note D = rram_okD[OF k]
  let ?ab = "counter_addr env i True" and ?ac = "counter_addr env i False"
  note fits = counter_addr_fits(3)[OF D(1) i] and len = img_length[OF D(2)]
  define c where "c = set_cut env i w in_backup j d"
  have c: "ok c \<and> flag_word env c = flag_word env d \<and> (\<forall>b' i'. i' \<noteq> i \<longrightarrow> cell env c b' i' = cell env d b' i')
    \<and> (recovered env c i = Some w \<or> in_backup \<and> recovered env c i = Some (rram_val env d i))"
  proof (cases in_backup)
    case True
    then have cd: "c = put d (wr (img d) ?ab (take j (new_counter w ?ab)))" by (simp add: c_def set_cut_def Let_def)
    note p = put_cells[OF D(1,2) i _ cd]
    have "slot (img d) ?ab \<noteq> None \<or> 4 dvd j" using j True i by (auto simp: cell_def)
    then have "cell env c True i \<in> {cell env d True i, None, Some w}" using torn_slot[of ?ab "img d" w j] fits len w j(1) p(4) i by (simp add: cell_def)
    moreover have "cell env c False i = Some (rram_val env d i)" using p(3)[of False i] j(1) D(4)[OF i] by simp
    ultimately have "recovered env c i = Some w \<or> recovered env c i = Some (rram_val env d i)"
      using D(5)[OF i] w(2) by (auto simp: recovered_def split: option.splits)
    then show ?thesis using True p(1-3) j(1) by auto
  next
    case False
    define d1 where "d1 = put d (wr (img d) ?ab (new_counter w ?ab))"
    note p1 = put_cells[OF D(1,2) i _ d1_def]
    have o1: "ok d1" using p1(1) by simp
    have wl: "length (wr (img d) ?ab (new_counter w ?ab)) = fsize" using fits len by simp
    have im: "img d1 = wr (img d) ?ab (new_counter w ?ab)" using img_put[OF D(2) wl] by (simp add: d1_def)
    have "length (wr (img d1) ?ac (take j (new_counter w ?ac))) = fsize" using fits[of False] img_length[OF o1] j(1) by simp
    then have cd: "c = put d1 (wr (img d1) ?ac (take j (new_counter w ?ac)))"
      using put_put[OF D(2) wl, of "wr (img d1) ?ac (take j (new_counter w ?ac))"] False by (simp add: c_def set_cut_def im Let_def) (simp add: d1_def)
    note p = put_cells[OF D(1) o1 i _ cd]
    have b1: "cell env d1 True i = Some w" using p1(4) slot_new[OF w(1), of ?ab "img d"] fits[of True] len by simp
    have v1: "cell env d1 False i = Some (rram_val env d i)" using p1(3)[of False i] D(4)[OF i] by simp
    have "cell env c False i \<in> {cell env d1 False i, None, Some w}"
      using torn_slot[of ?ac "img d1" w j] fits[of False] img_length[OF o1] w(1) j(1) p(4) v1 i by (simp add: cell_def)
    moreover have "cell env c True i = Some w" using p(3)[of True i] j(1) b1 by simp
    ultimately have "recovered env c i = Some w" using v1 w(2) by (auto simp: recovered_def)
    then show ?thesis using p(1-3) p1(1-3) j(1) by auto
  qed
  have r: "recovered env c i' = recovered env d i'" if "i' \<noteq> i" for i' using c that by (simp add: recovered_def)
  have all: "\<forall>i' < PLAT_NV_COUNTER_MAX env. recovered env c i' \<noteq> None"
  proof (intro allI impI)
    fix i' assume "i' < PLAT_NV_COUNTER_MAX env"
    then show "recovered env c i' \<noteq> None" using c r[of i'] rram_ok_recovered[OF k, of i'] by (cases "i' = i") auto
  qed
  have f: "flag_word env c = IFX_NVM_INIT_DONE_FLAG" using c D(3) by simp
  obtain d' where d': "tfm_plat_init_nv_counter_rram env drv c = (Inr (), d')" "rram_ok env d'"
    "rram_val env d' = (\<lambda>i. case recovered env c i of None \<Rightarrow> 0 | Some v \<Rightarrow> v)"
    using rram_init_recovers[OF D(1) _ f all] c by blast
  have "rram_val env d' i' = rram_val env d i'" if "i' \<noteq> i" for i'
    using r[OF that] rram_ok_recovered[OF k, of i'] by (simp add: d'(3) rram_val_def cell_out)
  then have e: "rram_val env d' = (rram_val env d)(i := rram_val env d' i)" by (auto simp: fun_eq_iff)
  have "rram_val env d' i = w \<or> in_backup \<and> rram_val env d' i = rram_val env d i" using c by (auto simp: d'(3))
  then have "rram_val env d' = (rram_val env d)(i := w) \<or> in_backup \<and> rram_val env d' = rram_val env d" by (metis e fun_upd_triv)
  then show ?thesis using d'(1,2) by (auto simp: c_def)
qed

text \<open>The update with a driver whose power fails in the \<open>n\<close>-th programming, after \<open>j\<close> bytes of it.\<close>

definition torn_write :: "nat \<Rightarrow> nat \<Rightarrow> byte list \<Rightarrow> 'd \<Rightarrow> 'd" where
  "torn_write j addr data d = put d (wr (img d) addr (take j data))"

lemma cut_read:
  "ifx_rram_read_nv_counter_or_backup env (cut_drv torn drv) i b (p, d)
   = map_prod id (Pair p) (ifx_rram_read_nv_counter_or_backup env drv i b d)"
  by (auto simp: ifx_rram_read_nv_counter_or_backup_def Let_def split: prod.splits)

lemma cut_program:
  assumes "0 < n"
  shows "ifx_rram_program_nv_counter_or_backup env (cut_drv torn drv) i v b (Some n, d)
   = map_prod id (Pair (Some (n - 1))) (ifx_rram_program_nv_counter_or_backup env drv i v b d)"
  using assms by (auto simp: ifx_rram_program_nv_counter_or_backup_def Let_def cut_read split: prod.splits sum.splits)

lemma cut_program_torn:
  "ifx_rram_program_nv_counter_or_backup env (cut_drv torn drv) i v b (Some 0, d)
   = (Inl TFM_PLAT_ERR_SYSTEM_ERR, (None, torn (counter_addr env i b) (new_counter v (counter_addr env i b)) d))"
  by (simp add: ifx_rram_program_nv_counter_or_backup_def Let_def new_counter_def arm_status)

lemma rram_cut_state:
  assumes k: "rram_ok env d" and i: "i < PLAT_NV_COUNTER_MAX env" and w: "w < SIZE_MAX_P1" "rram_val env d i < w"
  shows "left_by (tfm_plat_set_nv_counter_rram env (cut_drv (torn_write j) drv) i w (Some n, d))
    = set_cut env i w (n = 0) (if n < 2 then j else 8) d"
proof -
  note D = rram_okD[OF k]
  let ?ab = "counter_addr env i True" and ?ac = "counter_addr env i False"
  note fits = counter_addr_fits(3)[OF D(1) i] and len = img_length[OF D(2)]
  define d1 where "d1 = put d (wr (img d) ?ab (new_counter w ?ab))"
  have wl: "length (wr (img d) ?ab (new_counter w ?ab)) = fsize" using fits len by simp
  have o1: "ok d1" and im: "img d1 = wr (img d) ?ab (new_counter w ?ab)"
    using ok_put[OF D(2) wl] img_put[OF D(2) wl] by (simp_all add: d1_def)
  have pp: "put d1 x = put d x" if "length x = fsize" for x using put_put[OF D(2) wl that] by (simp add: d1_def)
  have lc: "length (wr (img d1) ?ac (take m (new_counter w ?ac))) = fsize" for m
    using fits[of False] img_length[OF o1] by simp
  have rd: "ifx_rram_read_nv_counter_or_backup env drv i False d = (Inr (rram_val env d i), d)"
    using rram_read[OF D(1,2) i, of False] D(4)[OF i] by simp
  note pr = rram_program_puts(1)[OF D(1,2) i w(1) d1_def] rram_program_puts(1)[OF D(1) o1 i w(1) refl, of False]
  consider "n = 0" | "n = 1" | "2 \<le> n" by linarith
  then show ?thesis
  proof cases
    case 1
    then show ?thesis using w rd
      by (simp add: tfm_plat_set_nv_counter_rram_def cut_read cut_program_torn set_cut_def torn_write_def Let_def)
  next
    case 2
    then show ?thesis using w rd pr pp[OF lc[of j]]
      by (simp add: tfm_plat_set_nv_counter_rram_def cut_read cut_program cut_program_torn set_cut_def torn_write_def Let_def im)
  next
    case 3
    then show ?thesis using w rd pr pp[OF lc[of 8]]
      by (simp add: tfm_plat_set_nv_counter_rram_def cut_read cut_program set_cut_def Let_def im)
  qed
qed

lemma rram_set_power_failure:
  assumes k: "rram_ok env d" and i: "i < PLAT_NV_COUNTER_MAX env" and w: "w < SIZE_MAX_P1"
    and j: "cell env d True i \<noteq> None \<or> 4 dvd j"
  shows "\<exists>d'. tfm_plat_init_nv_counter_rram env drv
        (left_by (tfm_plat_set_nv_counter_rram env (cut_drv (torn_write j) drv) i w (Some n, d))) = (Inr (), d')
    \<and> rram_ok env d' \<and> (rram_val env d' = (rram_val env d)(i := max (rram_val env d i) w) \<or> n = 0 \<and> rram_val env d' = rram_val env d)"
proof (cases "rram_val env d i < w")
  case True
  define j' where "j' = (if n < 2 then min j 8 else 8)"
  have "set_cut env i w (n = 0) (if n < 2 then j else 8) d = set_cut env i w (n = 0) j' d"
    by (auto simp: set_cut_def j'_def Let_def min_def)
  then have st: "left_by (tfm_plat_set_nv_counter_rram env (cut_drv (torn_write j) drv) i w (Some n, d)) = set_cut env i w (n = 0) j' d"
    using rram_cut_state[OF k i w True, of j n] by simp
  have "j' \<le> 8" "cell env d True i \<noteq> None \<or> 4 dvd j' \<or> n \<noteq> 0" using j by (auto simp: j'_def min_def)
  from rram_set_cut[OF k i w True this] show ?thesis unfolding st using True by (simp add: max_def)
next
  case False
  note D = rram_okD[OF k]
  have "ifx_rram_read_nv_counter_or_backup env drv i False d = (Inr (rram_val env d i), d)"
    using rram_read[OF D(1,2) i, of False] D(4)[OF i] by simp
  then have "left_by (tfm_plat_set_nv_counter_rram env (cut_drv (torn_write j) drv) i w (Some n, d)) = d"
    using False by (simp add: tfm_plat_set_nv_counter_rram_def cut_read)
  moreover have "(rram_val env d)(i := max (rram_val env d i) w) = rram_val env d" using False by (simp add: max_def)
  ultimately show ?thesis using rram_init_again[OF k] by auto
qed


end

section \<open>The counters in RRAM\<close>

text \<open>The driver object of the counters (drivers/nv_counters_rram_driver.c) initialises on its own data.\<close>

definition nv_counters_rram_obj :: "nvc_env \<Rightarrow> nat \<Rightarrow> ifx_driver_obj_t" where
  "nv_counters_rram_obj env start = \<lparr>start_address = start,
     flash_info = \<lparr>fi_sector_info = None, fi_sector_count = NV_COUNTERS_AREA_SIZE env div NV_COUNTERS_SECTOR_SIZE env,
       fi_sector_size = NV_COUNTERS_SECTOR_SIZE env, fi_page_size = NV_COUNTERS_SECTOR_SIZE env,
       fi_program_unit = NV_COUNTERS_PROGRAM_UNIT env, fi_erased_value = IFX_DRIVER_RRAM_ERASE_VALUE\<rparr>\<rparr>"

interpretation nvr: plat_nv_counters "tfm_plat_init_nv_counter_rram env (ifx_driver_rram obj cy)" "tfm_plat_read_nv_counter_rram env (ifx_driver_rram obj cy)"
  "tfm_plat_set_nv_counter_rram env (ifx_driver_rram obj cy)" "tfm_plat_increment_nv_counter_rram env (ifx_driver_rram obj cy)" "PLAT_NV_COUNTER_MAX env"
  "ifr.rram_ok obj cy env" "ifr.rram_val obj env" for env obj cy
  using ifr.rram_init_again ifr.rram_read_val ifr.rram_read_size ifr.rram_set_val ifr.rram_inc_val ifr.rram_val_bound by unfold_locales blast+

end
