(* ===== verification/NV_Counters_Flash.thy ===== *)
theory NV_Counters_Flash
  imports NV_Counters IFX_Flash IFX_CRC32
begin

text \<open>
  The monotonic counters of the Infineon platform in flash
  (platform/ext/target/infineon/common/spe/services/platform/nv_counters_flash.c): all counters are in one sector
  with a watermark and a checksum, a second sector is the backup, which is written first. After a power
  failure in an update the initialisation leaves the old or the new values, provided that the checksum
  tells an incomplete sector from a complete one.
\<close>

section \<open>The code\<close>

definition IFX_NUM_NV_COUNTERS :: "nat \<Rightarrow> nat" where
  "IFX_NUM_NV_COUNTERS sector = (sector - 4 - 4) div 4"

definition IFX_NV_COUNTERS_INITIALIZED :: nat where "IFX_NV_COUNTERS_INITIALIZED = 0xC0DE0042"

record ifx_nv_counters_t =
  nc_checksum :: nat
  nc_init_value :: nat
  nc_counters :: "nat list"

definition nc_size :: "nat \<Rightarrow> nat" where "nc_size sector = 8 + 4 * IFX_NUM_NV_COUNTERS sector"

definition bytes_nc :: "nat \<Rightarrow> byte list \<Rightarrow> ifx_nv_counters_t" where
  "bytes_nc sector bs = \<lparr>nc_checksum = de32 (rd bs 0 4), nc_init_value = de32 (rd bs 4 4),
     nc_counters = map (\<lambda>i. de32 (rd bs (8 + 4 * i) 4)) [0..<IFX_NUM_NV_COUNTERS sector]\<rparr>"

definition nc_bytes :: "ifx_nv_counters_t \<Rightarrow> byte list" where
  "nc_bytes c = le32 (nc_checksum c) @ le32 (nc_init_value c) @ concat (map le32 (nc_counters c))"

definition nc_crc :: "nat list \<Rightarrow> nat" where
  "nc_crc cs = unat (ifx_se_crc32d6a (concat (map le32 cs)) 0)"

definition ifx_flash_counters_valid :: "ifx_nv_counters_t \<Rightarrow> bool" where
  "ifx_flash_counters_valid c \<longleftrightarrow> nc_init_value c = IFX_NV_COUNTERS_INITIALIZED \<and> nc_crc (nc_counters c) = nc_checksum c"

definition ifx_flash_counter_set_checksum :: "ifx_nv_counters_t \<Rightarrow> ifx_nv_counters_t" where
  "ifx_flash_counter_set_checksum c = c\<lparr>nc_checksum := nc_crc (nc_counters c)\<rparr>"

definition tfm_plat_init_nv_counter_flash :: "nat \<Rightarrow> 'd ARM_DRIVER_FLASH \<Rightarrow> 'd \<Rightarrow> unit plat_result \<times> 'd" where
  "tfm_plat_init_nv_counter_flash sector drv d =
     (let n = nc_size sector in
      case drv_Initialize drv d of (ret, d) \<Rightarrow>
        if ret \<noteq> ARM_DRIVER_OK then (Inl TFM_PLAT_ERR_SYSTEM_ERR, d)
        else case drv_ReadData drv 0 n d of ((ret, bs), d) \<Rightarrow>
          if ret < 0 \<or> ret \<noteq> int n then (Inl TFM_PLAT_ERR_SYSTEM_ERR, d)
          else if ifx_flash_counters_valid (bytes_nc sector bs) then (Inr (), d)
          else case drv_ReadData drv sector n d of ((ret, bs), d) \<Rightarrow>
            if ret < 0 \<or> ret \<noteq> int n then (Inl TFM_PLAT_ERR_SYSTEM_ERR, d)
            else case drv_EraseSector drv 0 d of (ret, d) \<Rightarrow>
              if ret \<noteq> ARM_DRIVER_OK then (Inl TFM_PLAT_ERR_SYSTEM_ERR, d)
              else
                (let c = bytes_nc sector bs; fresh = nc_init_value c \<noteq> IFX_NV_COUNTERS_INITIALIZED;
                     c' = (if fresh then ifx_flash_counter_set_checksum (c\<lparr>nc_init_value := IFX_NV_COUNTERS_INITIALIZED,
                             nc_counters := map (\<lambda>_. 0) (nc_counters c)\<rparr>) else c)
                 in if \<not> fresh \<and> \<not> ifx_flash_counters_valid c then (Inl TFM_PLAT_ERR_SYSTEM_ERR, d)
                    else case drv_ProgramData drv 0 (nc_bytes c') n d of (ret, d) \<Rightarrow>
                      if ret < 0 \<or> ret \<noteq> int n then (Inl TFM_PLAT_ERR_SYSTEM_ERR, d) else (Inr (), d)))"

definition tfm_plat_read_nv_counter_flash :: "nat \<Rightarrow> 'd ARM_DRIVER_FLASH \<Rightarrow> nat \<Rightarrow> nat \<Rightarrow> 'd \<Rightarrow> nat plat_result \<times> 'd" where
  "tfm_plat_read_nv_counter_flash sector drv counter_id sz d =
     (if counter_id \<ge> IFX_NUM_NV_COUNTERS sector then (Inl TFM_PLAT_ERR_INVALID_INPUT, d)
      else if sz \<noteq> 4 then (Inl TFM_PLAT_ERR_SYSTEM_ERR, d)
      else case drv_ReadData drv (8 + counter_id * 4) 4 d of ((ret, bs), d) \<Rightarrow>
        if ret < 0 \<or> ret \<noteq> 4 then (Inl TFM_PLAT_ERR_SYSTEM_ERR, d) else (Inr (de32 bs), d))"

definition tfm_plat_set_nv_counter_flash :: "nat \<Rightarrow> 'd ARM_DRIVER_FLASH \<Rightarrow> nat \<Rightarrow> nat \<Rightarrow> 'd \<Rightarrow> unit plat_result \<times> 'd" where
  "tfm_plat_set_nv_counter_flash sector drv counter_id v d =
     (let n = nc_size sector in
      if counter_id \<ge> IFX_NUM_NV_COUNTERS sector then (Inl TFM_PLAT_ERR_INVALID_INPUT, d)
      else case drv_ReadData drv 0 n d of ((ret, bs), d) \<Rightarrow>
        if ret < 0 \<or> ret \<noteq> int n then (Inl TFM_PLAT_ERR_SYSTEM_ERR, d)
        else let c = bytes_nc sector bs in
          if v = nc_counters c ! counter_id then (Inr (), d)
          else if v < nc_counters c ! counter_id then (Inl TFM_PLAT_ERR_INVALID_INPUT, d)
          else case drv_EraseSector drv sector d of (ret, d) \<Rightarrow>
            if ret \<noteq> ARM_DRIVER_OK then (Inl TFM_PLAT_ERR_SYSTEM_ERR, d)
            else let c = ifx_flash_counter_set_checksum (c\<lparr>nc_counters := (nc_counters c)[counter_id := v]\<rparr>) in
              case drv_ProgramData drv sector (nc_bytes c) n d of (ret, d) \<Rightarrow>
                if ret < 0 \<or> ret \<noteq> int n then (Inl TFM_PLAT_ERR_SYSTEM_ERR, d)
                else case drv_EraseSector drv 0 d of (ret, d) \<Rightarrow>
                  if ret \<noteq> ARM_DRIVER_OK then (Inl TFM_PLAT_ERR_SYSTEM_ERR, d)
                  else case drv_ProgramData drv 0 (nc_bytes c) n d of (ret, d) \<Rightarrow>
                    if ret < 0 \<or> ret \<noteq> int n then (Inl TFM_PLAT_ERR_SYSTEM_ERR, d) else (Inr (), d))"

definition tfm_plat_increment_nv_counter_flash :: "nat \<Rightarrow> 'd ARM_DRIVER_FLASH \<Rightarrow> nat \<Rightarrow> 'd \<Rightarrow> unit plat_result \<times> 'd" where
  "tfm_plat_increment_nv_counter_flash sector drv counter_id d =
     (case tfm_plat_read_nv_counter_flash sector drv counter_id 4 d of
        (Inl e, d) \<Rightarrow> (Inl e, d)
      | (Inr security_cnt, d) \<Rightarrow>
          if security_cnt = SIZE_MAX_P1 - 1 then (Inl TFM_PLAT_ERR_MAX_VALUE, d)
          else tfm_plat_set_nv_counter_flash sector drv counter_id (add32 security_cnt 1) d)"

section \<open>The structure as bytes\<close>

lemma length_le32s: "length (concat (map le32 xs)) = 4 * length xs" by (induction xs) simp_all

lemma rd_le32s: "i < length xs \<Longrightarrow> rd (concat (map le32 xs)) (4 * i) 4 = le32 (xs ! i)"
proof (induction xs arbitrary: i)
  case (Cons x xs)
  then show ?case by (cases i) (simp_all add: rd_def drop_append)
qed simp

definition nc_wf :: "nat \<Rightarrow> ifx_nv_counters_t \<Rightarrow> bool" where
  "nc_wf sector c \<longleftrightarrow> nc_checksum c < SIZE_MAX_P1 \<and> nc_init_value c < SIZE_MAX_P1 \<and> length (nc_counters c) = IFX_NUM_NV_COUNTERS sector
     \<and> (\<forall>v \<in> set (nc_counters c). v < SIZE_MAX_P1)"

lemma length_nc_bytes: "nc_wf sector c \<Longrightarrow> length (nc_bytes c) = nc_size sector"
  by (simp add: nc_wf_def nc_bytes_def nc_size_def length_le32s)

lemma nc_back:
  assumes "nc_wf sector c"
  shows "bytes_nc sector (nc_bytes c) = c"
proof -
  have "rd (nc_bytes c) (8 + 4 * i) 4 = rd (concat (map le32 (nc_counters c))) (4 * i) 4" for i by (simp add: nc_bytes_def rd_def)
  then have "map (\<lambda>i. de32 (rd (nc_bytes c) (8 + 4 * i) 4)) [0..<IFX_NUM_NV_COUNTERS sector] = nc_counters c"
    using assms by (intro nth_equalityI) (auto simp: nc_wf_def rd_le32s)
  moreover have "rd (nc_bytes c) 0 4 = le32 (nc_checksum c)" "rd (nc_bytes c) 4 4 = le32 (nc_init_value c)" by (simp_all add: nc_bytes_def rd_def)
  ultimately show ?thesis using assms by (simp add: bytes_nc_def nc_wf_def)
qed

lemma nc_crc_bound [simp]: "nc_crc cs < SIZE_MAX_P1"
  unfolding nc_crc_def using unsigned_less[of "ifx_se_crc32d6a (concat (map le32 cs)) 0"] by simp

lemma bytes_nc_wf: "nc_wf sector (bytes_nc sector bs)" by (auto simp: nc_wf_def bytes_nc_def)

text \<open>The structure that an update writes.\<close>

definition nc_set :: "nat \<Rightarrow> nat \<Rightarrow> ifx_nv_counters_t \<Rightarrow> ifx_nv_counters_t" where
  "nc_set i v c = ifx_flash_counter_set_checksum (c\<lparr>nc_counters := (nc_counters c)[i := v]\<rparr>)"

lemma nc_set_wf: "nc_wf sector c \<Longrightarrow> v < SIZE_MAX_P1 \<Longrightarrow> nc_wf sector (nc_set i v c)"
  by (auto simp: nc_wf_def nc_set_def ifx_flash_counter_set_checksum_def dest: set_update_subset_insert[THEN subsetD])

lemma nc_set_valid: "ifx_flash_counters_valid c \<Longrightarrow> ifx_flash_counters_valid (nc_set i v c)"
  by (simp add: ifx_flash_counters_valid_def nc_set_def ifx_flash_counter_set_checksum_def)

section \<open>The counters over a flash driver\<close>

context cmsis_flash
begin

definition flash_setup :: "nat \<Rightarrow> bool" where
  "flash_setup sector \<longleftrightarrow> drv_item drv = 1 \<and> fi_sector_size info = sector \<and> 4 dvd sector \<and> 8 \<le> sector \<and> 2 * sector \<le> fsize
     \<and> fi_program_unit info dvd sector \<and> (\<forall>d. ok d \<longrightarrow> drv_Initialize drv d = (ARM_DRIVER_OK, d))"

definition nc_at :: "nat \<Rightarrow> 'd \<Rightarrow> nat \<Rightarrow> ifx_nv_counters_t" where
  "nc_at sector d a = bytes_nc sector (rd (img d) a sector)"

lemma setup_size: "flash_setup sector \<Longrightarrow> nc_size sector = sector"
  by (auto simp: flash_setup_def nc_size_def IFX_NUM_NV_COUNTERS_def elim!: dvdE)

lemma sector_read:
  assumes "flash_setup sector" "ok d" "a = 0 \<or> a = sector"
  shows "drv_ReadData drv a (nc_size sector) d = ((int (nc_size sector), rd (img d) a sector), d)"
  using read_data[OF assms(2), of sector a] assms(1,3) by (auto simp: setup_size flash_setup_def)

lemma sector_torn:
  assumes s: "flash_setup sector" and o: "ok d" and a: "a = 0 \<or> a = sector" and x: "length x = sector" and d'_def: "d' = put d (wr (img d) a x)"
  shows "ok d'" "nc_at sector d' a = bytes_nc sector x" "a' = 0 \<or> a' = sector \<Longrightarrow> a' \<noteq> a \<Longrightarrow> nc_at sector d' a' = nc_at sector d a'"
proof -
  have l: "length (img d) = fsize" "2 * sector \<le> fsize" "0 < sector" using s img_length[OF o] by (auto simp: flash_setup_def)
  then have w: "length (wr (img d) a x) = fsize" using a x by auto
  show "ok d'" using ok_put[OF o w] by (simp add: d'_def)
  have im: "img d' = wr (img d) a x" using img_put[OF o w] by (simp add: d'_def)
  show "nc_at sector d' a = bytes_nc sector x" using a x l by (auto simp: nc_at_def im rd_wr_same)
  show "nc_at sector d' a' = nc_at sector d a'" if "a' = 0 \<or> a' = sector" "a' \<noteq> a" using a x l that by (auto simp: nc_at_def im rd_wr_disj)
qed

lemma sector_written:
  assumes s: "flash_setup sector" and o: "ok d" and a: "a = 0 \<or> a = sector" and c: "nc_wf sector c" and d'_def: "d' = put d (wr (img d) a (nc_bytes c))"
  shows "\<exists>d1. drv_EraseSector drv a d = (ARM_DRIVER_OK, d1) \<and> drv_ProgramData drv a (nc_bytes c) (nc_size sector) d1 = (int (nc_size sector), d')"
proof -
  have l: "length (img d) = fsize" "2 * sector \<le> fsize" "0 < sector" "fi_sector_size info = sector" "drv_item drv = 1" "fi_program_unit info dvd sector"
    using s img_length[OF o] by (auto simp: flash_setup_def)
  let ?e = "replicate sector (fi_erased_value info)"
  have n: "length (nc_bytes c) = sector" using length_nc_bytes[OF c] setup_size[OF s] by simp
  define d1 where "d1 = put d (wr (img d) a ?e)"
  have w: "length (wr (img d) a ?e) = fsize" "length (wr (img d) a (nc_bytes c)) = fsize" using a n l by auto
  have d1: "ok d1" "img d1 = wr (img d) a ?e" using ok_put[OF o w(1)] img_put[OF o w(1)] by (simp_all add: d1_def)
  have er: "drv_EraseSector drv a d = (ARM_DRIVER_OK, d1)" using erase_sector[OF o, of a] a l by (auto simp: d1_def)
  have "drv_ProgramData drv a (nc_bytes c) sector d1 = (int sector, put d1 (wr (img d1) a (nc_bytes c)))"
    using program_data[OF d1(1), of sector a "nc_bytes c"] a l n by auto
  moreover have "put d1 (wr (img d1) a (nc_bytes c)) = d'"
    using put_put[OF o w] a l n by (auto simp: d1_def[symmetric] d1(2) d'_def wr_wr_same)
  ultimately show ?thesis using er by (simp add: setup_size[OF s])
qed

definition flash_ok :: "nat \<Rightarrow> 'd \<Rightarrow> bool" where
  "flash_ok sector d \<longleftrightarrow> flash_setup sector \<and> ok d \<and> ifx_flash_counters_valid (nc_at sector d 0)"

definition flash_val :: "nat \<Rightarrow> 'd \<Rightarrow> nat \<Rightarrow> nat" where
  "flash_val sector d i = (if i < IFX_NUM_NV_COUNTERS sector then nc_counters (nc_at sector d 0) ! i else 0)"

lemma flash_okD: "flash_ok sector d \<Longrightarrow> flash_setup sector \<and> ok d \<and> ifx_flash_counters_valid (nc_at sector d 0)" by (simp add: flash_ok_def)

lemma flash_init_again:
  assumes "flash_ok sector d"
  shows "tfm_plat_init_nv_counter_flash sector drv d = (Inr (), d)"
  using flash_okD[OF assms] sector_read[of sector d 0] by (auto simp: tfm_plat_init_nv_counter_flash_def flash_setup_def nc_at_def)

lemma nc_at_wf [simp]: "nc_wf sector (nc_at sector d a)" by (simp add: nc_at_def bytes_nc_wf)

lemma flash_val_bound: "flash_val sector d i < SIZE_MAX_P1"
  using nc_at_wf[of sector d 0] by (auto simp: flash_val_def nc_wf_def)

lemma flash_val_nth: "i < IFX_NUM_NV_COUNTERS sector \<Longrightarrow> nc_counters (nc_at sector d 0) ! i = flash_val sector d i" by (simp add: flash_val_def)

lemma flash_val_set:
  assumes "nc_at sector d' 0 = nc_set i v (nc_at sector d 0)" "i < IFX_NUM_NV_COUNTERS sector"
  shows "flash_val sector d' = (flash_val sector d)(i := v)"
  using assms nc_at_wf[of sector d 0] by (auto simp: flash_val_def nc_set_def ifx_flash_counter_set_checksum_def nc_wf_def nth_list_update fun_eq_iff)

lemma flash_read_val:
  assumes k: "flash_ok sector d" and i: "i < IFX_NUM_NV_COUNTERS sector"
  shows "tfm_plat_read_nv_counter_flash sector drv i 4 d = (Inr (flash_val sector d i), d)"
proof -
  have l: "2 * sector \<le> fsize" "drv_item drv = 1" "8 + 4 * i + 4 \<le> sector" using k i by (auto simp: flash_ok_def flash_setup_def IFX_NUM_NV_COUNTERS_def)
  then have "drv_ReadData drv (8 + i * 4) 4 d = ((4, rd (img d) (8 + i * 4) 4), d)" using read_data[of d 4 "8 + i * 4"] k by (simp add: flash_ok_def)
  moreover have "rd (rd (img d) 0 sector) (8 + 4 * i) 4 = rd (img d) (8 + i * 4) 4" using l by (subst rd_rd) (simp_all add: mult.commute)
  ultimately show ?thesis using i by (simp add: tfm_plat_read_nv_counter_flash_def flash_val_def nc_at_def bytes_nc_def)
qed

lemma flash_read_size: "sz \<noteq> 4 \<Longrightarrow> \<exists>e. tfm_plat_read_nv_counter_flash sector drv i sz d = (Inl e, d)"
  by (simp add: tfm_plat_read_nv_counter_flash_def)

lemma flash_set_val:
  assumes k: "flash_ok sector d" and i: "i < IFX_NUM_NV_COUNTERS sector" and v: "v < SIZE_MAX_P1"
  shows "\<exists>d'. tfm_plat_set_nv_counter_flash sector drv i v d = (if v < flash_val sector d i then Inl TFM_PLAT_ERR_INVALID_INPUT else Inr (), d') \<and> flash_ok sector d'
    \<and> flash_val sector d' = (if v < flash_val sector d i then flash_val sector d else (flash_val sector d)(i := v))"
proof -
  have s: "flash_setup sector" and o: "ok d" and va: "ifx_flash_counters_valid (nc_at sector d 0)" using k by (simp_all add: flash_ok_def)
  note rd = sector_read[OF s o, of 0, folded nc_at_def]
  show ?thesis
  proof (cases "v \<le> flash_val sector d i")
    case True
    then have "tfm_plat_set_nv_counter_flash sector drv i v d = (if v < flash_val sector d i then Inl TFM_PLAT_ERR_INVALID_INPUT else Inr (), d)"
      "flash_val sector d = (if v < flash_val sector d i then flash_val sector d else (flash_val sector d)(i := v))"
      using rd i by (auto simp: tfm_plat_set_nv_counter_flash_def nc_at_def[symmetric] flash_val_nth)
    then show ?thesis using k by metis
  next
    case False
    define c where "c = nc_set i v (nc_at sector d 0)"
    have c: "nc_wf sector c" using nc_set_wf[OF nc_at_wf v] by (simp add: c_def)
    then have n: "length (nc_bytes c) = sector" using length_nc_bytes setup_size[OF s] by simp
    define d1 where "d1 = put d (wr (img d) sector (nc_bytes c))"
    define d2 where "d2 = put d1 (wr (img d1) 0 (nc_bytes c))"
    have o1: "ok d1" using sector_torn(1)[OF s o _ n d1_def] by simp
    obtain e1 where e1: "drv_EraseSector drv sector d = (ARM_DRIVER_OK, e1)" "drv_ProgramData drv sector (nc_bytes c) (nc_size sector) e1 = (int (nc_size sector), d1)"
      using sector_written[OF s o _ c d1_def] by auto
    obtain e2 where e2: "drv_EraseSector drv 0 d1 = (ARM_DRIVER_OK, e2)" "drv_ProgramData drv 0 (nc_bytes c) (nc_size sector) e2 = (int (nc_size sector), d2)"
      using sector_written[OF s o1 _ c d2_def] by auto
    have "tfm_plat_set_nv_counter_flash sector drv i v d = (Inr (), d2)"
      using rd i False e1 e2 by (simp add: tfm_plat_set_nv_counter_flash_def nc_at_def[symmetric] flash_val_nth nc_set_def[symmetric] c_def[symmetric] Let_def)
    moreover have a2: "ok d2" "nc_at sector d2 0 = c" using sector_torn(1,2)[OF s o1 _ n d2_def] nc_back[OF c] by simp_all
    moreover have "ifx_flash_counters_valid c" using nc_set_valid[OF va] by (simp add: c_def)
    moreover have "flash_val sector d2 = (flash_val sector d)(i := v)" using flash_val_set[OF a2(2)[unfolded c_def] i] .
    ultimately show ?thesis using s False by (simp add: flash_ok_def)
  qed
qed

lemma flash_inc_val:
  assumes k: "flash_ok sector d" and i: "i < IFX_NUM_NV_COUNTERS sector"
  shows "\<exists>d'. tfm_plat_increment_nv_counter_flash sector drv i d = (if flash_val sector d i = SIZE_MAX_P1 - 1 then Inl TFM_PLAT_ERR_MAX_VALUE else Inr (), d') \<and> flash_ok sector d'
    \<and> flash_val sector d' = (if flash_val sector d i = SIZE_MAX_P1 - 1 then flash_val sector d else (flash_val sector d)(i := flash_val sector d i + 1))"
proof (cases "flash_val sector d i = SIZE_MAX_P1 - 1")
  case False
  then have "flash_val sector d i + 1 < SIZE_MAX_P1" using flash_val_bound[of sector d i] by linarith
  then show ?thesis using flash_set_val[OF k i, of "flash_val sector d i + 1"] False flash_read_val[OF k i] by (simp add: tfm_plat_increment_nv_counter_flash_def add32_id)
qed (use k flash_read_val[OF k i] in \<open>simp add: tfm_plat_increment_nv_counter_flash_def\<close>)

section \<open>Power failures\<close>

text \<open>Main sector invalid, backup valid: the initialisation copies the backup.\<close>

lemma flash_init_restores:
  assumes s: "flash_setup sector" and o: "ok d" and m: "\<not> ifx_flash_counters_valid (nc_at sector d 0)" and b: "ifx_flash_counters_valid (nc_at sector d sector)"
  shows "\<exists>d'. tfm_plat_init_nv_counter_flash sector drv d = (Inr (), d') \<and> flash_ok sector d' \<and> nc_at sector d' 0 = nc_at sector d sector"
proof -
  define c where "c = nc_at sector d sector"
  have c: "nc_wf sector c" "nc_init_value c = IFX_NV_COUNTERS_INITIALIZED" "ifx_flash_counters_valid c" using b by (simp_all add: c_def ifx_flash_counters_valid_def)
  have n: "length (nc_bytes c) = sector" using length_nc_bytes[OF c(1)] setup_size[OF s] by simp
  define d' where "d' = put d (wr (img d) 0 (nc_bytes c))"
  obtain e where e: "drv_EraseSector drv 0 d = (ARM_DRIVER_OK, e)" "drv_ProgramData drv 0 (nc_bytes c) (nc_size sector) e = (int (nc_size sector), d')"
    using sector_written[OF s o _ c(1) d'_def] by auto
  have "drv_Initialize drv d = (ARM_DRIVER_OK, d)" using s o by (simp add: flash_setup_def)
  then have "tfm_plat_init_nv_counter_flash sector drv d = (Inr (), d')"
    using e m c sector_read[OF s o, of 0] sector_read[OF s o, of sector]
    by (simp add: tfm_plat_init_nv_counter_flash_def nc_at_def[symmetric] Let_def c_def[symmetric])
  moreover have "ok d'" "nc_at sector d' 0 = c" using sector_torn(1,2)[OF s o _ n d'_def] nc_back[OF c(1)] by simp_all
  ultimately show ?thesis using s c(3) by (auto simp: flash_ok_def c_def)
qed

text \<open>
  The update with a driver whose power fails in one of its four operations (the erasures and programmings of the
  backup and of the main sector). The interrupted operation leaves any bytes \<open>x\<close> in its sector.
\<close>

definition torn_sector :: "byte list \<Rightarrow> nat \<Rightarrow> byte list \<Rightarrow> 'd \<Rightarrow> 'd" where
  "torn_sector x addr data d = put d (wr (img d) addr x)"

definition new_backup :: "nat \<Rightarrow> nat \<Rightarrow> nat \<Rightarrow> 'd \<Rightarrow> 'd" where
  "new_backup sector i v d = put d (wr (img d) sector (nc_bytes (nc_set i v (nc_at sector d 0))))"

lemma put_twice:
  assumes s: "flash_setup sector" and o: "ok d" and a: "a = 0 \<or> a = sector" and x: "length x = sector" "length y = sector"
  shows "torn_sector y a data (torn_sector x a data' d) = torn_sector y a data'' d"
proof -
  have f: "a + sector \<le> length (img d)" using s a img_length[OF o] by (auto simp: flash_setup_def)
  then have w: "length (wr (img d) a x) = fsize" "length (wr (img d) a y) = fsize" using x img_length[OF o] by simp_all
  have "wr (wr (img d) a x) a y = wr (img d) a y" using f x by (simp add: wr_wr_same)
  then show ?thesis by (simp only: torn_sector_def img_put[OF o w(1)] put_put[OF o w(1) w(2)])
qed

lemma flash_cut_state:
  assumes k: "flash_ok sector d" and i: "i < IFX_NUM_NV_COUNTERS sector" and v: "v < SIZE_MAX_P1" "flash_val sector d i < v"
    and x: "length x = sector"
  shows "left_by (tfm_plat_set_nv_counter_flash sector (cut_drv (torn_sector x) drv) i v (Some n, d))
    = (if n < 2 then torn_sector x sector [] d
       else torn_sector (if n < 4 then x else nc_bytes (nc_set i v (nc_at sector d 0))) 0 [] (new_backup sector i v d))"
proof -
  have s: "flash_setup sector" and o: "ok d" using k by (simp_all add: flash_ok_def)
  note rd = sector_read[OF s o, of 0, folded nc_at_def]
  define c where "c = nc_set i v (nc_at sector d 0)"
  have c: "nc_wf sector c" using nc_set_wf[OF nc_at_wf v(1)] by (simp add: c_def)
  then have n: "length (nc_bytes c) = sector" using length_nc_bytes setup_size[OF s] by simp
  let ?e = "replicate sector (fi_erased_value info)"
  define d1 where "d1 = new_backup sector i v d"
  have d1: "d1 = put d (wr (img d) sector (nc_bytes c))" by (simp add: d1_def new_backup_def c_def)
  have o1: "ok d1" using sector_torn(1)[OF s o _ n d1] by simp
  have er: "drv_EraseSector drv a u = (ARM_DRIVER_OK, torn_sector ?e a [] u)" if "ok u" "a = 0 \<or> a = sector" for a u
    using erase_sector[OF that(1), of a] s that(2) by (auto simp: torn_sector_def flash_setup_def)
  obtain e1 where e1: "drv_EraseSector drv sector d = (ARM_DRIVER_OK, e1)" "drv_ProgramData drv sector (nc_bytes c) (nc_size sector) e1 = (int (nc_size sector), d1)"
    using sector_written[OF s o _ c d1] by auto
  define d2 where "d2 = put d1 (wr (img d1) 0 (nc_bytes c))"
  obtain e2 where e2: "drv_EraseSector drv 0 d1 = (ARM_DRIVER_OK, e2)" "drv_ProgramData drv 0 (nc_bytes c) (nc_size sector) e2 = (int (nc_size sector), d2)"
    using sector_written[OF s o1 _ c d2_def] by auto
  have e1': "e1 = torn_sector ?e sector [] d" and e2': "e2 = torn_sector ?e 0 [] d1" using er[OF o, of sector] er[OF o1, of 0] e1(1) e2(1) by auto
  have d2': "d2 = torn_sector (nc_bytes c) 0 [] d1" by (simp add: d2_def torn_sector_def)
  have t: "torn_sector x sector (nc_bytes c) e1 = torn_sector x sector [] d" "torn_sector x 0 (nc_bytes c) e2 = torn_sector x 0 [] d1"
    unfolding e1' e2' using put_twice[OF s o, of sector ?e x] put_twice[OF s o1, of 0 ?e x] x by auto
  note st = rd i v(2) e1 e2 t arm_status tfm_plat_set_nv_counter_flash_def nc_at_def[symmetric] flash_val_nth nc_set_def[symmetric] c_def[symmetric] d1_def[symmetric] Let_def
  consider "n = 0" | "n = 1" | "n = 2" | "n = 3" | "4 \<le> n" by linarith
  then show ?thesis
    by cases (use st d2' in \<open>simp_all add: tfm_plat_set_nv_counter_flash_def nc_at_def[symmetric] flash_val_nth nc_set_def[symmetric]
        c_def[symmetric] d1_def[symmetric] Let_def arm_status\<close>)
qed

text \<open>
  The checksum must tell the bytes of an interrupted operation on the main sector from a complete sector,
  unless they are the old or the new ones.
\<close>

lemma flash_set_power_failure:
  assumes k: "flash_ok sector d" and i: "i < IFX_NUM_NV_COUNTERS sector" and v: "v < SIZE_MAX_P1" and x: "length x = sector"
    and t: "ifx_flash_counters_valid (bytes_nc sector x) \<Longrightarrow> x = rd (img d) 0 sector \<or> x = nc_bytes (nc_set i v (nc_at sector d 0))"
  shows "\<exists>d'. tfm_plat_init_nv_counter_flash sector drv
        (left_by (tfm_plat_set_nv_counter_flash sector (cut_drv (torn_sector x) drv) i v (Some n, d))) = (Inr (), d')
    \<and> flash_ok sector d'
    \<and> flash_val sector d' = (if n < 2 \<or> n < 4 \<and> x = rd (img d) 0 sector then flash_val sector d
        else (flash_val sector d)(i := max (flash_val sector d i) v))"
proof (cases "flash_val sector d i < v")
  case True
  have s: "flash_setup sector" and o: "ok d" and va: "ifx_flash_counters_valid (nc_at sector d 0)" and z: "0 \<noteq> sector"
    using k by (auto simp: flash_ok_def flash_setup_def)
  note cut = flash_cut_state[OF k i v True x, of n]
  show ?thesis
  proof (cases "n < 2")
    case n: True
    have "ok (torn_sector x sector [] d)" "nc_at sector (torn_sector x sector [] d) 0 = nc_at sector d 0"
      using sector_torn(1)[OF s o _ x torn_sector_def] sector_torn(3)[OF s o _ x torn_sector_def, of sector 0] z by simp_all
    then have "flash_ok sector (torn_sector x sector [] d)" "flash_val sector (torn_sector x sector [] d) = flash_val sector d"
      using s va by (simp_all add: flash_ok_def flash_val_def fun_eq_iff)
    then show ?thesis using n cut flash_init_again by auto
  next
    case n: False
    define c where "c = nc_set i v (nc_at sector d 0)"
    define y where "y = (if n < 4 then x else nc_bytes c)"
    have c: "nc_wf sector c" "ifx_flash_counters_valid c" using nc_set_wf[OF nc_at_wf v] nc_set_valid[OF va] by (simp_all add: c_def)
    then have ln: "length (nc_bytes c) = sector" using length_nc_bytes setup_size[OF s] by simp
    define d1 where "d1 = put d (wr (img d) sector (nc_bytes c))"
    have d1: "ok d1" "nc_at sector d1 sector = c" using sector_torn(1,2)[OF s o _ ln d1_def] nc_back[OF c(1)] by simp_all
    have y: "length y = sector" using x ln by (simp add: y_def)
    define d2 where "d2 = put d1 (wr (img d1) 0 y)"
    have d2: "ok d2" "nc_at sector d2 0 = bytes_nc sector y" "nc_at sector d2 sector = c"
      using sector_torn(1,2)[OF s d1(1) _ y d2_def] sector_torn(3)[OF s d1(1) _ y d2_def, of sector] z d1(2) by simp_all
    have st: "left_by (tfm_plat_set_nv_counter_flash sector (cut_drv (torn_sector x) drv) i v (Some n, d)) = d2"
      using cut n by (simp add: torn_sector_def new_backup_def d2_def d1_def y_def c_def)
    define m where "m = (if y = rd (img d) 0 sector then nc_at sector d 0 else c)"
    have "\<exists>d'. tfm_plat_init_nv_counter_flash sector drv d2 = (Inr (), d') \<and> flash_ok sector d' \<and> nc_at sector d' 0 = m"
    proof (cases "ifx_flash_counters_valid (bytes_nc sector y)")
      case True
      then have "y = rd (img d) 0 sector \<or> y = nc_bytes c" using t by (auto simp: y_def c_def)
      then have "nc_at sector d2 0 = m" using d2(2) nc_back[OF c(1)] by (auto simp: m_def nc_at_def)
      then show ?thesis using True s d2(1,2) flash_init_again[of sector d2] by (auto simp: flash_ok_def)
    next
      case False
      then have "y \<noteq> rd (img d) 0 sector" using va by (auto simp: nc_at_def)
      then show ?thesis using flash_init_restores[OF s d2(1)] d2(2,3) False c(2) by (auto simp: m_def)
    qed
    then obtain d' where d': "tfm_plat_init_nv_counter_flash sector drv d2 = (Inr (), d')" "flash_ok sector d'" "nc_at sector d' 0 = m" by blast
    have "nc_bytes c \<noteq> rd (img d) 0 sector"
    proof
      assume "nc_bytes c = rd (img d) 0 sector"
      then have "c = nc_at sector d 0" using nc_back[OF c(1)] by (simp add: nc_at_def)
      then have "nc_counters (nc_at sector d 0) ! i = v" using i nc_at_wf[of sector d 0]
        by (metis c_def flash_val_nth flash_val_set fun_upd_same)
      then show False using True i by (simp add: flash_val_nth)
    qed
    then have "y = rd (img d) 0 sector \<longleftrightarrow> n < 4 \<and> x = rd (img d) 0 sector" by (auto simp: y_def)
    moreover have "flash_val sector d' = flash_val sector d" if "m = nc_at sector d 0" using d'(3) that by (simp add: flash_val_def fun_eq_iff)
    moreover have "flash_val sector d' = (flash_val sector d)(i := v)" if "m = c" using flash_val_set[OF d'(3)[unfolded that c_def] i] .
    ultimately show ?thesis unfolding st using d'(1,2) n True by (auto simp: m_def max_def)
  qed
next
  case False
  have s: "flash_setup sector" and o: "ok d" using k by (simp_all add: flash_ok_def)
  have "left_by (tfm_plat_set_nv_counter_flash sector (cut_drv (torn_sector x) drv) i v (Some n, d)) = d"
    using sector_read[OF s o, of 0, folded nc_at_def] i False
    by (simp add: tfm_plat_set_nv_counter_flash_def nc_at_def[symmetric] flash_val_nth Let_def)
  moreover have "(flash_val sector d)(i := max (flash_val sector d i) v) = flash_val sector d" using False by (simp add: max_def)
  ultimately show ?thesis using flash_init_again[OF k] k by simp
qed

end

section \<open>The counters in flash\<close>

interpretation nvf: plat_nv_counters "tfm_plat_init_nv_counter_flash sector (ifx_cmsis_driver_flash obj cy)" "tfm_plat_read_nv_counter_flash sector (ifx_cmsis_driver_flash obj cy)"
  "tfm_plat_set_nv_counter_flash sector (ifx_cmsis_driver_flash obj cy)" "tfm_plat_increment_nv_counter_flash sector (ifx_cmsis_driver_flash obj cy)" "IFX_NUM_NV_COUNTERS sector"
  "iff.flash_ok obj cy sector" "iff.flash_val obj sector" for sector obj cy
  using iff.flash_init_again iff.flash_read_val iff.flash_read_size iff.flash_set_val iff.flash_inc_val iff.flash_val_bound by unfold_locales blast+

end
