(* ===== verification/Platform_Service.thy ===== *)
theory Platform_Service
  imports ITS_Client NV_Counters_RRAM NV_Counters_Flash
begin

text \<open>
  The platform partition (secure_fw/partitions/platform/platform_sp.c), its client API
  (interface/src/tfm_platform_api.c) and the platform's part of it on Infineon devices
  (common/spe/services/platform/tfm_platform_system.c). The partition gives the counters of Protected Storage
  to that partition only and the non-secure counters to non-secure clients only. Over any counters that
  meet the contract \<open>plat_nv_counters\<close> its calls meet the contract that Protected Storage relies on.
\<close>

section \<open>The partition\<close>

datatype tfm_platform_err_t = TFM_PLATFORM_ERR_SUCCESS | TFM_PLATFORM_ERR_SYSTEM_ERROR | TFM_PLATFORM_ERR_INVALID_PARAM
  | TFM_PLATFORM_ERR_NOT_SUPPORTED

text \<open>A status of the service: a PSA error (negative) or a code of \<open>enum tfm_platform_err_t\<close>.\<close>

type_synonym platform_status = "psa_error + tfm_platform_err_t"

definition TFM_PLATFORM_API_ID_NV_READ :: int where "TFM_PLATFORM_API_ID_NV_READ = 1010"
definition TFM_PLATFORM_API_ID_NV_INCREMENT :: int where "TFM_PLATFORM_API_ID_NV_INCREMENT = 1011"
definition TFM_PLATFORM_API_ID_SYSTEM_RESET :: int where "TFM_PLATFORM_API_ID_SYSTEM_RESET = 1012"
definition TFM_PLATFORM_API_ID_IOCTL :: int where "TFM_PLATFORM_API_ID_IOCTL = 1013"

lemmas platform_ids = TFM_PLATFORM_API_ID_NV_READ_def TFM_PLATFORM_API_ID_NV_INCREMENT_def
  TFM_PLATFORM_API_ID_SYSTEM_RESET_def TFM_PLATFORM_API_ID_IOCTL_def

definition IFX_PLATFORM_IOCTL_LOG_MSG :: int where "IFX_PLATFORM_IOCTL_LOG_MSG = 0"
definition IFX_PLATFORM_IOCTL_PDL_RPC :: int where "IFX_PLATFORM_IOCTL_PDL_RPC = 1"
definition IFX_PLATFORM_IOCTL_APP_MIN :: int where "IFX_PLATFORM_IOCTL_APP_MIN = 0x40000000"

definition NV_COUNTER_ID_SIZE :: nat where "NV_COUNTER_ID_SIZE = 4"
definition NV_COUNTER_SIZE :: nat where "NV_COUNTER_SIZE = 4"

text \<open>
  The counters, the hardware \<open>'h\<close> behind the supervisor calls (log output, reset, the secure services of the
  peripheral library and an application's own requests, the last two when the build has them), the
  operations on the vectors of the request, and the constants of the build.
\<close>

record ('n, 'h, 'r) platform_env =
  plat_init :: "'n \<Rightarrow> unit plat_result \<times> 'n"
  plat_read :: "nat \<Rightarrow> nat \<Rightarrow> 'n \<Rightarrow> nat plat_result \<times> 'n"
  plat_increment :: "nat \<Rightarrow> 'n \<Rightarrow> unit plat_result \<times> 'n"
  ifx_call_platform_uart_log :: "byte list \<Rightarrow> 'h \<Rightarrow> tfm_platform_err_t \<times> 'h"
  ifx_call_platform_system_reset :: "'h \<Rightarrow> 'h"
  Cy_SecureServices :: "(byte list option \<Rightarrow> nat option \<Rightarrow> 'h \<Rightarrow> byte list \<times> 'h) option"
  ifx_platform_hal_ioctl :: "(int \<Rightarrow> byte list option \<Rightarrow> nat option \<Rightarrow> 'h \<Rightarrow> (tfm_platform_err_t \<times> byte list) \<times> 'h) option"
  plat_psa_read :: "nat \<Rightarrow> nat \<Rightarrow> 'r \<Rightarrow> (byte list \<times> 'r) option"
  plat_psa_write :: "nat \<Rightarrow> byte list \<Rightarrow> 'r \<Rightarrow> 'r option"
  PS_CLIENT_ID :: int          \<comment> \<open>\<open>TFM_SP_PS\<close>\<close>
  PLAT_NV_COUNTER_NS_0 :: nat
  INPUT_BUFFER_SIZE :: nat
  OUTPUT_BUFFER_SIZE :: nat

record ('n, 'h, 'r) platform_state =
  pl_nv :: 'n
  pl_hw :: 'h
  pl_req :: 'r

definition nv_counter_permissions_check :: "('n, 'h, 'r) platform_env \<Rightarrow> int \<Rightarrow> nat \<Rightarrow> tfm_platform_err_t" where
  "nv_counter_permissions_check env client nv_counter_no =
     (if nv_counter_no = 0 \<or> nv_counter_no = 1 \<or> nv_counter_no = 2 then
        (if client = PS_CLIENT_ID env then TFM_PLATFORM_ERR_SUCCESS else TFM_PLATFORM_ERR_NOT_SUPPORTED)
      else if nv_counter_no = PLAT_NV_COUNTER_NS_0 env \<or> nv_counter_no = PLAT_NV_COUNTER_NS_0 env + 1
              \<or> nv_counter_no = PLAT_NV_COUNTER_NS_0 env + 2 then
        (if client < 0 then TFM_PLATFORM_ERR_SUCCESS else TFM_PLATFORM_ERR_NOT_SUPPORTED)
      else TFM_PLATFORM_ERR_NOT_SUPPORTED)"

text \<open>The loops that count the vectors in use: \<open>n\<close> is the value of \<open>in_len\<close> or \<open>out_len\<close>.\<close>

fun vec_count :: "u32 list \<Rightarrow> nat \<Rightarrow> nat" where
  "vec_count sizes 0 = 0"
| "vec_count sizes (Suc n) = (if sizes ! n = 0 then vec_count sizes n else Suc n)"

definition platform_sp_nv_read_psa_api :: "('n, 'h, 'r) platform_env \<Rightarrow> psa_msg_t \<Rightarrow> ('n, 'h, 'r) platform_state
    \<Rightarrow> (platform_status \<times> ('n, 'h, 'r) platform_state) option" where
  "platform_sp_nv_read_psa_api env m s =
     (let in_len = vec_count (in_size m) 4; out_len = vec_count (out_size m) 4; insz = unat (in_size m ! 0); outsz = unat (out_size m ! 0)
      in if insz \<noteq> NV_COUNTER_ID_SIZE \<or> outsz > NV_COUNTER_SIZE \<or> in_len \<noteq> 1 \<or> out_len \<noteq> 1 then Some (Inr TFM_PLATFORM_ERR_SYSTEM_ERROR, s)
         else case plat_psa_read env 0 insz (pl_req s) of None \<Rightarrow> None
         | Some (bs, r) \<Rightarrow>
             let s = s\<lparr>pl_req := r\<rparr>; counter_id = de32 bs;
                 counter_id = (if client_id m < 0 then add32 counter_id (PLAT_NV_COUNTER_NS_0 env) else counter_id)
             in if length bs \<noteq> NV_COUNTER_ID_SIZE then Some (Inr TFM_PLATFORM_ERR_SYSTEM_ERROR, s)
                else if nv_counter_permissions_check env (client_id m) counter_id \<noteq> TFM_PLATFORM_ERR_SUCCESS
                  then Some (Inr TFM_PLATFORM_ERR_SYSTEM_ERROR, s)
                else case plat_read env counter_id outsz (pl_nv s) of
                  (Inl e, n) \<Rightarrow> Some (Inr TFM_PLATFORM_ERR_SYSTEM_ERROR, s\<lparr>pl_nv := n\<rparr>)
                | (Inr v, n) \<Rightarrow>
                    (case plat_psa_write env 0 (take outsz (le32 v)) (pl_req s) of None \<Rightarrow> None
                     | Some r \<Rightarrow> Some (Inr TFM_PLATFORM_ERR_SUCCESS, s\<lparr>pl_nv := n, pl_req := r\<rparr>)))"

definition platform_sp_nv_increment_psa_api :: "('n, 'h, 'r) platform_env \<Rightarrow> psa_msg_t \<Rightarrow> ('n, 'h, 'r) platform_state
    \<Rightarrow> (platform_status \<times> ('n, 'h, 'r) platform_state) option" where
  "platform_sp_nv_increment_psa_api env m s =
     (let in_len = vec_count (in_size m) 4; out_len = vec_count (out_size m) 4; insz = unat (in_size m ! 0)
      in if insz \<noteq> NV_COUNTER_ID_SIZE \<or> in_len \<noteq> 1 \<or> out_len \<noteq> 0 then Some (Inr TFM_PLATFORM_ERR_SYSTEM_ERROR, s)
         else case plat_psa_read env 0 insz (pl_req s) of None \<Rightarrow> None
         | Some (bs, r) \<Rightarrow>
             let s = s\<lparr>pl_req := r\<rparr>; counter_id = de32 bs;
                 counter_id = (if client_id m < 0 then add32 counter_id (PLAT_NV_COUNTER_NS_0 env) else counter_id)
             in if length bs \<noteq> NV_COUNTER_ID_SIZE then Some (Inr TFM_PLATFORM_ERR_SYSTEM_ERROR, s)
                else if nv_counter_permissions_check env (client_id m) counter_id \<noteq> TFM_PLATFORM_ERR_SUCCESS
                  then Some (Inr TFM_PLATFORM_ERR_SYSTEM_ERROR, s)
                else case plat_increment env counter_id (pl_nv s) of
                  (Inl e, n) \<Rightarrow> Some (Inr TFM_PLATFORM_ERR_SYSTEM_ERROR, s\<lparr>pl_nv := n\<rparr>)
                | (Inr _, n) \<Rightarrow> Some (Inr TFM_PLATFORM_ERR_SUCCESS, s\<lparr>pl_nv := n\<rparr>))"

text \<open>
  \<open>input\<close> and the size of the output buffer are \<open>None\<close> for a null pointer. The log request reads
  \<open>in_vec[0]\<close> without a check: with a null pointer the access faults (\<open>None\<close>). The output buffer
  holds zeros until the request writes it.
\<close>

definition tfm_platform_hal_ioctl :: "('n, 'h, 'r) platform_env \<Rightarrow> int \<Rightarrow> byte list option \<Rightarrow> nat option \<Rightarrow> 'h
    \<Rightarrow> ((tfm_platform_err_t \<times> byte list) \<times> 'h) option" where
  "tfm_platform_hal_ioctl env request input outsz h =
     (let blank = (case outsz of None \<Rightarrow> [] | Some n \<Rightarrow> replicate n 0) in
      if request = IFX_PLATFORM_IOCTL_LOG_MSG then
        (case input of None \<Rightarrow> None | Some bs \<Rightarrow> (case ifx_call_platform_uart_log env bs h of (st, h) \<Rightarrow> Some ((st, blank), h)))
      else if request = IFX_PLATFORM_IOCTL_PDL_RPC \<and> Cy_SecureServices env \<noteq> None then
        (case the (Cy_SecureServices env) input outsz h of (out, h) \<Rightarrow> Some ((TFM_PLATFORM_ERR_SUCCESS, out), h))
      else if ifx_platform_hal_ioctl env \<noteq> None \<and> request \<ge> IFX_PLATFORM_IOCTL_APP_MIN \<and> request \<le> IFX_PLATFORM_IOCTL_APP_MIN then
        Some (the (ifx_platform_hal_ioctl env) request input outsz h)
      else Some ((TFM_PLATFORM_ERR_NOT_SUPPORTED, blank), h))"

definition platform_sp_ioctl_psa_api :: "('n, 'h, 'r) platform_env \<Rightarrow> psa_msg_t \<Rightarrow> ('n, 'h, 'r) platform_state
    \<Rightarrow> (platform_status \<times> ('n, 'h, 'r) platform_state) option" where
  "platform_sp_ioctl_psa_api env m s =
     (let in_len = vec_count (in_size m) 4; out_len = vec_count (out_size m) 4; input_size = unat (in_size m ! 1); outsz = unat (out_size m ! 0)
      in if in_len < 1 \<or> in_len > 2 \<or> out_len > 1 then Some (Inr TFM_PLATFORM_ERR_SYSTEM_ERROR, s)
         else case plat_psa_read env 0 4 (pl_req s) of None \<Rightarrow> None
         | Some (bs, r) \<Rightarrow>
             let s = s\<lparr>pl_req := r\<rparr>; request = sint (word_of_nat (de32 bs) :: 32 word)
             in if length bs \<noteq> 4 then Some (Inl PSA_ERROR_PROGRAMMER_ERROR, s)
                else if in_len > 1 \<and> input_size > INPUT_BUFFER_SIZE env then Some (Inl PSA_ERROR_BUFFER_TOO_SMALL, s)
                else case (if in_len > 1 then map_option (\<lambda>(d, r). (Some d, r)) (plat_psa_read env 1 input_size (pl_req s)) else Some (None, pl_req s)) of
                  None \<Rightarrow> None
                | Some (input, r) \<Rightarrow>
                    let s = s\<lparr>pl_req := r\<rparr>
                    in if input \<noteq> None \<and> length (the input) \<noteq> input_size then Some (Inl PSA_ERROR_PROGRAMMER_ERROR, s)
                       else if out_len > 0 \<and> outsz > OUTPUT_BUFFER_SIZE env then Some (Inl PSA_ERROR_PROGRAMMER_ERROR, s)
                       else case tfm_platform_hal_ioctl env request input (if out_len > 0 then Some outsz else None) (pl_hw s) of
                         None \<Rightarrow> None
                       | Some ((ret, out), h) \<Rightarrow>
                           if out_len > 0 then (case plat_psa_write env 0 out (pl_req s) of None \<Rightarrow> None
                             | Some r \<Rightarrow> Some (Inr ret, s\<lparr>pl_hw := h, pl_req := r\<rparr>))
                           else Some (Inr ret, s\<lparr>pl_hw := h\<rparr>))"

definition platform_sp_system_reset :: "('n, 'h, 'r) platform_env \<Rightarrow> ('n, 'h, 'r) platform_state \<Rightarrow> tfm_platform_err_t \<times> ('n, 'h, 'r) platform_state" where
  "platform_sp_system_reset env s = (TFM_PLATFORM_ERR_SUCCESS, s\<lparr>pl_hw := ifx_call_platform_system_reset env (pl_hw s)\<rparr>)"

definition tfm_platform_service_sfn :: "('n, 'h, 'r) platform_env \<Rightarrow> psa_msg_t \<Rightarrow> ('n, 'h, 'r) platform_state
    \<Rightarrow> (platform_status \<times> ('n, 'h, 'r) platform_state) option" where
  "tfm_platform_service_sfn env m s =
     (if msg_type m = TFM_PLATFORM_API_ID_NV_READ then platform_sp_nv_read_psa_api env m s
      else if msg_type m = TFM_PLATFORM_API_ID_NV_INCREMENT then platform_sp_nv_increment_psa_api env m s
      else if msg_type m = TFM_PLATFORM_API_ID_SYSTEM_RESET then (case platform_sp_system_reset env s of (e, s) \<Rightarrow> Some (Inr e, s))
      else if msg_type m = TFM_PLATFORM_API_ID_IOCTL then platform_sp_ioctl_psa_api env m s
      else Some (Inl PSA_ERROR_NOT_SUPPORTED, s))"

text \<open>Whether the partition starts: otherwise \<open>PSA_ERROR_HARDWARE_FAILURE\<close>.\<close>

definition platform_sp_init :: "('n, 'h, 'r) platform_env \<Rightarrow> ('n, 'h, 'r) platform_state \<Rightarrow> bool \<times> ('n, 'h, 'r) platform_state" where
  "platform_sp_init env s = (case plat_init env (pl_nv s) of (r, n) \<Rightarrow> (case r of Inl _ \<Rightarrow> False | Inr _ \<Rightarrow> True, s\<lparr>pl_nv := n\<rparr>))"

section \<open>The client API\<close>

definition platform_client_status :: "platform_status \<Rightarrow> tfm_platform_err_t" where
  "platform_client_status st = (case st of Inl _ \<Rightarrow> TFM_PLATFORM_ERR_SYSTEM_ERROR | Inr e \<Rightarrow> e)"

definition psa_call_platform :: "('n, 'h, its_call) platform_env \<Rightarrow> int \<Rightarrow> int \<Rightarrow> byte list list \<Rightarrow> nat list \<Rightarrow> ('n, 'h, its_call) platform_state
    \<Rightarrow> (platform_status \<times> ('n, 'h, its_call) platform_state) option" where
  "psa_call_platform env client ty ins outs s =
     tfm_platform_service_sfn (env\<lparr>plat_psa_read := call_read, plat_psa_write := call_write\<rparr>) (call_msg client ty ins outs)
       (s\<lparr>pl_req := \<lparr>call_in = call_vec ins, call_out = (\<lambda>_. []), call_room = call_len outs\<rparr>\<rparr>)"

definition tfm_platform_system_reset :: "('n, 'h, its_call) platform_env \<Rightarrow> int \<Rightarrow> ('n, 'h, its_call) platform_state
    \<Rightarrow> (tfm_platform_err_t \<times> ('n, 'h, its_call) platform_state) option" where
  "tfm_platform_system_reset env client s =
     map_option (map_prod platform_client_status id) (psa_call_platform env client TFM_PLATFORM_API_ID_SYSTEM_RESET [] [] s)"

definition tfm_platform_ioctl :: "('n, 'h, its_call) platform_env \<Rightarrow> int \<Rightarrow> 32 word \<Rightarrow> byte list option \<Rightarrow> nat option \<Rightarrow> ('n, 'h, its_call) platform_state
    \<Rightarrow> ((tfm_platform_err_t \<times> byte list) \<times> ('n, 'h, its_call) platform_state) option" where
  "tfm_platform_ioctl env client request input outsz s =
     map_option (\<lambda>(st, t). ((platform_client_status st, call_out (pl_req t) 0), t))
       (psa_call_platform env client TFM_PLATFORM_API_ID_IOCTL
          (le32 (unat request) # (case input of None \<Rightarrow> [] | Some d \<Rightarrow> [d])) (case outsz of None \<Rightarrow> [] | Some n \<Rightarrow> [n]) s)"

definition tfm_platform_nv_counter_increment_call :: "('n, 'h, its_call) platform_env \<Rightarrow> int \<Rightarrow> nat \<Rightarrow> ('n, 'h, its_call) platform_state
    \<Rightarrow> (tfm_platform_err_t \<times> ('n, 'h, its_call) platform_state) option" where
  "tfm_platform_nv_counter_increment_call env client counter_id s =
     map_option (map_prod platform_client_status id) (psa_call_platform env client TFM_PLATFORM_API_ID_NV_INCREMENT [le32 counter_id] [] s)"

definition tfm_platform_nv_counter_read_call :: "('n, 'h, its_call) platform_env \<Rightarrow> int \<Rightarrow> nat \<Rightarrow> nat \<Rightarrow> ('n, 'h, its_call) platform_state
    \<Rightarrow> ((tfm_platform_err_t \<times> byte list) \<times> ('n, 'h, its_call) platform_state) option" where
  "tfm_platform_nv_counter_read_call env client counter_id sz s =
     map_option (\<lambda>(st, t). ((platform_client_status st, call_out (pl_req t) 0), t))
       (psa_call_platform env client TFM_PLATFORM_API_ID_NV_READ [le32 counter_id] [sz] s)"

section \<open>Access to the counters\<close>

text \<open>The counter that a request of a client names, if the client may use it.\<close>

definition counter_of :: "('n, 'h, 'r) platform_env \<Rightarrow> int \<Rightarrow> nat \<Rightarrow> nat option" where
  "counter_of env client n =
     (let c = (if client < 0 then add32 n (PLAT_NV_COUNTER_NS_0 env) else n)
      in if nv_counter_permissions_check env client c = TFM_PLATFORM_ERR_SUCCESS then Some c else None)"

lemma counter_of_Some:
  assumes "counter_of env client n = Some c" "3 \<le> PLAT_NV_COUNTER_NS_0 env"
  shows "c < 3 \<and> client = PS_CLIENT_ID env \<or> PLAT_NV_COUNTER_NS_0 env \<le> c \<and> c < PLAT_NV_COUNTER_NS_0 env + 3 \<and> client < 0"
  using assms by (auto simp: counter_of_def nv_counter_permissions_check_def Let_def split: if_splits)

lemma vec_count_4: "vec_count sizes 4 =
    (if sizes ! 3 \<noteq> 0 then 4 else if sizes ! 2 \<noteq> 0 then 3 else if sizes ! 1 \<noteq> 0 then 2 else if sizes ! 0 \<noteq> 0 then 1 else 0)"
  by (simp add: numeral_eq_Suc)

lemma call_msg_nth:
  assumes "i < 4"
  shows "in_size (call_msg client ty ins outs) ! i = word_of_nat (length (call_vec ins i))" "out_size (call_msg client ty ins outs) ! i = word_of_nat (call_len outs i)"
  using assms by (simp_all add: call_msg_def)

locale platform_counters = plat_nv_counters "plat_init env" "plat_read env" set_op "plat_increment env" count ok val
  for env :: "('n, 'h, 'r) platform_env" and set_op count ok val
begin

text \<open>
  The effect of a message on the counters: an increment that succeeds adds one to the counter that the message
  names, which the client may use, and every other message and outcome leaves all of them as they are.
\<close>

definition counters_after :: "psa_msg_t \<Rightarrow> ('n, 'h, 'r) platform_state \<Rightarrow> platform_status \<Rightarrow> ('n, 'h, 'r) platform_state \<Rightarrow> bool" where
  "counters_after m s st t \<longleftrightarrow> ok (pl_nv t) \<and>
     (if msg_type m = TFM_PLATFORM_API_ID_NV_INCREMENT \<and> st = Inr TFM_PLATFORM_ERR_SUCCESS
      then \<exists>bs r k. plat_psa_read env 0 4 (pl_req s) = Some (bs, r) \<and> counter_of env (client_id m) (de32 bs) = Some k
         \<and> val (pl_nv t) = (val (pl_nv s))(k := val (pl_nv s) k + 1)
      else val (pl_nv t) = val (pl_nv s))"

lemma permitted:
  assumes "nv_counter_permissions_check env client k = TFM_PLATFORM_ERR_SUCCESS"
    and "3 \<le> PLAT_NV_COUNTER_NS_0 env" "PLAT_NV_COUNTER_NS_0 env + 3 \<le> count"
  shows "k < count"
  using assms by (auto simp: nv_counter_permissions_check_def split: if_splits)

lemma service_read:
  assumes ok: "ok (pl_nv s)" and ns: "3 \<le> PLAT_NV_COUNTER_NS_0 env" "PLAT_NV_COUNTER_NS_0 env + 3 \<le> count"
    and c: "platform_sp_nv_read_psa_api env m s = Some (st, t)"
  shows "pl_nv t = pl_nv s"
proof -
  have keep: "n' = pl_nv s" if "plat_read env k n (pl_nv s) = (r, n')" "nv_counter_permissions_check env client k = TFM_PLATFORM_ERR_SUCCESS" for client k n r n'
    using read_val[OF ok permitted[OF that(2) ns]] read_size[OF ok permitted[OF that(2) ns], of n] that(1) by (cases "n = 4") auto
  show ?thesis using c by (auto simp: platform_sp_nv_read_psa_api_def Let_def split: if_splits option.splits prod.splits sum.splits dest: keep)
qed

lemma service_increment:
  assumes ok: "ok (pl_nv s)" and ns: "3 \<le> PLAT_NV_COUNTER_NS_0 env" "PLAT_NV_COUNTER_NS_0 env + 3 \<le> count"
    and ty: "msg_type m = TFM_PLATFORM_API_ID_NV_INCREMENT" and c: "platform_sp_nv_increment_psa_api env m s = Some (st, t)"
  shows "counters_after m s st t"
proof -
  have inc: "ok n \<and> val n = (case r of Inl _ \<Rightarrow> val (pl_nv s) | Inr _ \<Rightarrow> (val (pl_nv s))(k := val (pl_nv s) k + 1))"
    if "plat_increment env k (pl_nv s) = (r, n)" "nv_counter_permissions_check env client k = TFM_PLATFORM_ERR_SUCCESS" for client k r n
    using inc_val[OF ok permitted[OF that(2) ns]] that(1) by (auto split: if_splits)
  show ?thesis
  proof (cases "st = Inr TFM_PLATFORM_ERR_SUCCESS")
    case True
    obtain bs r k where k: "plat_psa_read env 0 4 (pl_req s) = Some (bs, r)" "counter_of env (client_id m) (de32 bs) = Some k"
        "plat_increment env k (pl_nv s) = (Inr (), pl_nv t)" "nv_counter_permissions_check env (client_id m) k = TFM_PLATFORM_ERR_SUCCESS"
      using c True
      by (cases "client_id m < 0") (auto simp: platform_sp_nv_increment_psa_api_def counter_of_def NV_COUNTER_ID_SIZE_def Let_def
          split: if_splits option.splits prod.splits sum.splits)
    then show ?thesis using True ty inc[OF k(3,4)] by (auto simp: counters_after_def)
  next
    case False
    then show ?thesis using c ok
      by (auto simp: counters_after_def platform_sp_nv_increment_psa_api_def Let_def
          split: if_splits option.splits prod.splits sum.splits dest: inc)
  qed
qed

lemma service_ioctl: "platform_sp_ioctl_psa_api env m s = Some (st, t) \<Longrightarrow> pl_nv t = pl_nv s"
  by (auto simp: platform_sp_ioctl_psa_api_def Let_def split: if_splits option.splits prod.splits)

lemma service_counters:
  assumes ok: "ok (pl_nv s)" and ns: "3 \<le> PLAT_NV_COUNTER_NS_0 env" "PLAT_NV_COUNTER_NS_0 env + 3 \<le> count"
    and c: "tfm_platform_service_sfn env m s = Some (st, t)"
  shows "counters_after m s st t"
proof (cases "msg_type m = TFM_PLATFORM_API_ID_NV_INCREMENT")
  case True
  then show ?thesis using service_increment[OF ok ns True] c by (simp add: tfm_platform_service_sfn_def platform_ids)
next
  case False
  then have "pl_nv t = pl_nv s" using c service_read[OF ok ns] service_ioctl
    by (auto simp: tfm_platform_service_sfn_def platform_sp_system_reset_def split: if_splits)
  then show ?thesis using ok False by (simp add: counters_after_def)
qed

end

section \<open>The counters of Protected Storage\<close>

text \<open>The calls of Protected Storage: the value it reads, and whether an increment succeeds.\<close>

definition ps_counter_read :: "('n, 'h, its_call) platform_env \<Rightarrow> nat \<Rightarrow> ('n, 'h, its_call) platform_state \<Rightarrow> nat option \<times> ('n, 'h, its_call) platform_state" where
  "ps_counter_read env c s =
     (case tfm_platform_nv_counter_read_call env (PS_CLIENT_ID env) c 4 s of
        None \<Rightarrow> (None, s) | Some ((e, bs), t) \<Rightarrow> (if e = TFM_PLATFORM_ERR_SUCCESS then Some (de32 bs) else None, t))"

definition ps_counter_increment :: "('n, 'h, its_call) platform_env \<Rightarrow> nat \<Rightarrow> ('n, 'h, its_call) platform_state \<Rightarrow> bool \<times> ('n, 'h, its_call) platform_state" where
  "ps_counter_increment env c s =
     (case tfm_platform_nv_counter_increment_call env (PS_CLIENT_ID env) c s of
        None \<Rightarrow> (False, s) | Some (e, t) \<Rightarrow> (e = TFM_PLATFORM_ERR_SUCCESS, t))"

locale platform_calls = platform_counters env set_op count ok val
  for env :: "('n, 'h, its_call) platform_env" and set_op count ok val
begin

lemma ps_read_call:
  assumes ok: "ok (pl_nv s)" and c: "c < 3" "3 \<le> count" and p: "client = PS_CLIENT_ID env" "0 \<le> client"
  shows "\<exists>t. tfm_platform_nv_counter_read_call env client c 4 s = Some ((TFM_PLATFORM_ERR_SUCCESS, le32 (val (pl_nv s) c)), t) \<and> pl_nv t = pl_nv s"
proof -
  have vc: "vec_count (in_size (call_msg client ty [le32 c] [4])) 4 = 1" "vec_count (out_size (call_msg client ty [le32 c] [4])) 4 = 1" for ty
    by (simp_all add: vec_count_4 call_msg_nth call_vec_def call_len_def)
  have sz: "unat (in_size (call_msg client ty [le32 c] [4]) ! 0) = 4" "unat (out_size (call_msg client ty [le32 c] [4]) ! 0) = 4" for ty
    by (simp_all add: vec_count_4 call_msg_nth call_vec_def call_len_def)
  have pc: "nv_counter_permissions_check env' client c = TFM_PLATFORM_ERR_SUCCESS" if "PS_CLIENT_ID env' = client" for env' :: "('n, 'h, its_call) platform_env"
    using c that by (auto simp: nv_counter_permissions_check_def)
  have d: "de32 (le32 c) = c" using c by simp
  show ?thesis
    using read_val[OF ok, of c] c p vc sz pc d
    by (simp add: tfm_platform_nv_counter_read_call_def psa_call_platform_def tfm_platform_service_sfn_def platform_ids platform_sp_nv_read_psa_api_def
        NV_COUNTER_ID_SIZE_def NV_COUNTER_SIZE_def call_read_def call_write_def call_vec_def call_len_def platform_client_status_def)
qed

lemma ps_increment_call:
  assumes ok: "ok (pl_nv s)" and c: "c < 3" "3 \<le> count" and p: "client = PS_CLIENT_ID env" "0 \<le> client"
  shows "\<exists>t. tfm_platform_nv_counter_increment_call env client c s
      = Some (if val (pl_nv s) c = SIZE_MAX_P1 - 1 then TFM_PLATFORM_ERR_SYSTEM_ERROR else TFM_PLATFORM_ERR_SUCCESS, t)
    \<and> ok (pl_nv t) \<and> val (pl_nv t) = (if val (pl_nv s) c = SIZE_MAX_P1 - 1 then val (pl_nv s) else (val (pl_nv s))(c := val (pl_nv s) c + 1))"
proof -
  have vc: "vec_count (in_size (call_msg client ty [le32 c] [])) 4 = 1" "vec_count (out_size (call_msg client ty [le32 c] [])) 4 = 0" for ty
    by (simp_all add: vec_count_4 call_msg_nth call_vec_def call_len_def)
  have sz: "unat (in_size (call_msg client ty [le32 c] []) ! 0) = 4" for ty
    by (simp add: call_msg_nth call_vec_def)
  have pc: "nv_counter_permissions_check env' client c = TFM_PLATFORM_ERR_SUCCESS" if "PS_CLIENT_ID env' = client" for env' :: "('n, 'h, its_call) platform_env"
    using c that by (auto simp: nv_counter_permissions_check_def)
  have d: "de32 (le32 c) = c" using c by simp
  have "c < count" using c by simp
  from inc_val[OF ok this] obtain n where n: "plat_increment env c (pl_nv s) = (if val (pl_nv s) c = SIZE_MAX_P1 - 1 then Inl TFM_PLAT_ERR_MAX_VALUE else Inr (), n)"
    "ok n" "val n = (if val (pl_nv s) c = SIZE_MAX_P1 - 1 then val (pl_nv s) else (val (pl_nv s))(c := val (pl_nv s) c + 1))" by blast
  show ?thesis
    using n p vc sz pc d
    by (simp add: tfm_platform_nv_counter_increment_call_def psa_call_platform_def tfm_platform_service_sfn_def platform_ids platform_sp_nv_increment_psa_api_def
        NV_COUNTER_ID_SIZE_def call_read_def call_vec_def platform_client_status_def)
qed

definition platform_ok :: "('n, 'h, its_call) platform_state \<Rightarrow> bool" where
  "platform_ok s \<longleftrightarrow> ok (pl_nv s) \<and> 3 \<le> count \<and> 0 \<le> PS_CLIENT_ID env"

end

sublocale platform_calls \<subseteq> psnv: nv_counters "ps_counter_read env" "ps_counter_increment env" platform_ok "\<lambda>s. val (pl_nv s)"
proof unfold_locales
  fix s c assume k: "platform_ok s" and c: "c < (3 :: nat)"
  then have d: "de32 (le32 (val (pl_nv s) c)) = val (pl_nv s) c" "val (pl_nv s) c < SIZE_MAX_P1" using val_bound by (simp_all add: platform_ok_def)
  show "val (pl_nv s) c < SIZE_MAX_P1" using d by simp
  obtain t where "tfm_platform_nv_counter_read_call env (PS_CLIENT_ID env) c 4 s = Some ((TFM_PLATFORM_ERR_SUCCESS, le32 (val (pl_nv s) c)), t)" "pl_nv t = pl_nv s"
    using ps_read_call[of s c "PS_CLIENT_ID env"] k c by (auto simp: platform_ok_def)
  then show "\<exists>t. ps_counter_read env c s = (Some (val (pl_nv s) c), t) \<and> platform_ok t \<and> val (pl_nv t) = val (pl_nv s)"
    using k d by (simp add: ps_counter_read_def platform_ok_def)
  obtain t where t: "tfm_platform_nv_counter_increment_call env (PS_CLIENT_ID env) c s
      = Some (if val (pl_nv s) c = SIZE_MAX_P1 - 1 then TFM_PLATFORM_ERR_SYSTEM_ERROR else TFM_PLATFORM_ERR_SUCCESS, t)" "ok (pl_nv t)"
    "val (pl_nv t) = (if val (pl_nv s) c = SIZE_MAX_P1 - 1 then val (pl_nv s) else (val (pl_nv s))(c := val (pl_nv s) c + 1))"
    using ps_increment_call[of s c "PS_CLIENT_ID env"] k c by (auto simp: platform_ok_def)
  have lt: "val (pl_nv s) c < SIZE_MAX_P1 - 1 \<longleftrightarrow> val (pl_nv s) c \<noteq> SIZE_MAX_P1 - 1" using d(2) by linarith
  show "\<exists>t. ps_counter_increment env c s = (val (pl_nv s) c < SIZE_MAX_P1 - 1, t) \<and> platform_ok t
      \<and> val (pl_nv t) = (if val (pl_nv s) c < SIZE_MAX_P1 - 1 then (val (pl_nv s))(c := val (pl_nv s) c + 1) else val (pl_nv s))"
    unfolding lt using t k by (intro exI[of _ t]) (simp add: ps_counter_increment_def platform_ok_def)
qed

section \<open>The platforms\<close>

definition rram_platform :: "nvc_env \<Rightarrow> ifx_driver_obj_t \<Rightarrow> flash_mem cy_rram \<Rightarrow> (flash_mem, 'h, 'r) platform_env \<Rightarrow> (flash_mem, 'h, 'r) platform_env" where
  "rram_platform env obj cy base = base\<lparr>plat_init := tfm_plat_init_nv_counter_rram env (ifx_driver_rram obj cy),
     plat_read := tfm_plat_read_nv_counter_rram env (ifx_driver_rram obj cy), plat_increment := tfm_plat_increment_nv_counter_rram env (ifx_driver_rram obj cy)\<rparr>"

definition flash_platform :: "nat \<Rightarrow> ifx_driver_obj_t \<Rightarrow> cy_flash \<Rightarrow> (flash_mem, 'h, 'r) platform_env \<Rightarrow> (flash_mem, 'h, 'r) platform_env" where
  "flash_platform sector obj cy base = base\<lparr>plat_init := tfm_plat_init_nv_counter_flash sector (ifx_cmsis_driver_flash obj cy),
     plat_read := tfm_plat_read_nv_counter_flash sector (ifx_cmsis_driver_flash obj cy), plat_increment := tfm_plat_increment_nv_counter_flash sector (ifx_cmsis_driver_flash obj cy)\<rparr>"

interpretation plr: platform_calls "rram_platform env obj cy base" "tfm_plat_set_nv_counter_rram env (ifx_driver_rram obj cy)" "PLAT_NV_COUNTER_MAX env"
  "ifr.rram_ok obj cy env" "ifr.rram_val obj env" for env obj cy and base :: "(flash_mem, 'h, its_call) platform_env"
  unfolding platform_calls_def platform_counters_def using nvr.plat_nv_counters_axioms by (simp add: rram_platform_def)

interpretation plf: platform_calls "flash_platform sector obj cy base" "tfm_plat_set_nv_counter_flash sector (ifx_cmsis_driver_flash obj cy)" "IFX_NUM_NV_COUNTERS sector"
  "iff.flash_ok obj cy sector" "iff.flash_val obj sector" for sector obj cy and base :: "(flash_mem, 'h, its_call) platform_env"
  unfolding platform_calls_def platform_counters_def using nvf.plat_nv_counters_axioms by (simp add: flash_platform_def)

interpretation ptr: platform_counters "rram_platform env obj cy base" "tfm_plat_set_nv_counter_rram env (ifx_driver_rram obj cy)" "PLAT_NV_COUNTER_MAX env"
  "ifr.rram_ok obj cy env" "ifr.rram_val obj env" for env obj cy and base :: "(flash_mem, 'h, 'r) platform_env"
  unfolding platform_counters_def using nvr.plat_nv_counters_axioms by (simp add: rram_platform_def)

end
