(* ===== verification/PS_Platform.thy ===== *)
theory PS_Platform
  imports PS_Requests Platform_Service
begin

text \<open>
  Protected Storage on the other components of the firmware: its files are those of the Internal Trusted
  Storage service for the partition's client identity, its counters those of the platform partition over
  the counters in flash. Only the PSA Crypto calls remain a parameter.
\<close>

type_synonym pp_its_state = "(ram_dev, its_call) its_state"
type_synonym 'h pp_nv_state = "(flash_mem, 'h, its_call) platform_state"
type_synonym ('k, 'h) pp_state = "(pp_its_state, 'h pp_nv_state, 'k, its_call) ps_state"

text \<open>
  The system: the environments of the services, the sector and the driver of the counters, the PSA Crypto
  calls and constants of Protected Storage (\<open>pp_base\<close>), and what the Crypto calls compute.
\<close>

record ('k, 'o, 'h) ps_platform =
  pp_its :: "its_call its_env"
  pp_plat :: "(flash_mem, 'h, its_call) platform_env"
  pp_sector :: nat
  pp_obj :: ifx_driver_obj_t
  pp_cy :: cy_flash
  pp_base :: "(pp_its_state, 'h pp_nv_state, 'k, 'o, its_call) ps_env"
  pp_keys_ok :: "'k \<Rightarrow> bool"
  pp_derived :: "'o \<Rightarrow> byte list"
  pp_key_label :: "'k \<Rightarrow> nat \<Rightarrow> byte list option"
  pp_enc :: "byte list \<Rightarrow> byte list \<Rightarrow> byte list \<Rightarrow> byte list \<Rightarrow> byte list"
  pp_dec :: "byte list \<Rightarrow> byte list \<Rightarrow> byte list \<Rightarrow> byte list \<Rightarrow> byte list option"

definition pp_id :: "('k, 'o, 'h) ps_platform \<Rightarrow> int" where "pp_id P = PS_PARTITION_ID (pp_base P)"

definition pp_counters :: "('k, 'o, 'h) ps_platform \<Rightarrow> (flash_mem, 'h, its_call) platform_env" where
  "pp_counters P = flash_platform (pp_sector P) (pp_obj P) (pp_cy P) (pp_plat P)"

definition pp_env :: "('k, 'o, 'h) ps_platform \<Rightarrow> (pp_its_state, 'h pp_nv_state, 'k, 'o, its_call) ps_env" where
  "pp_env P = (pp_base P)\<lparr>psa_its_set := psa_its_set_call (pp_its P) (pp_id P), psa_its_get := psa_its_get_call (pp_its P) (pp_id P),
     psa_its_remove := psa_its_remove_call (pp_its P) (pp_id P), tfm_platform_nv_counter_read := ps_counter_read (pp_counters P),
     tfm_platform_nv_counter_increment := ps_counter_increment (pp_counters P), ps_psa_read := call_read, ps_psa_write := call_write\<rparr>"

text \<open>What is assumed: the contract of the Crypto calls, and sizes that fit.\<close>

definition pp_ok :: "('k, 'o, 'h) ps_platform \<Rightarrow> bool" where
  "pp_ok P \<longleftrightarrow> aead_keys (pp_env P) (pp_keys_ok P) (pp_derived P) (pp_key_label P) (pp_enc P) (pp_dec P)
     \<and> PS_OBJ_TABLE_SIZE (pp_env P) \<le> PS_MAX_ASSET_SIZE (pp_env P) \<and> PS_MAX_ASSET_SIZE (pp_env P) + 28 < SIZE_MAX_P1 - 44 \<and> client_ok (pp_id P)"

definition pp_its_ok :: "('k, 'o, 'h) ps_platform \<Rightarrow> pp_its_state \<Rightarrow> bool" where "pp_its_ok P = client_its_ok (pp_its P) (pp_id P)"
definition pp_files :: "('k, 'o, 'h) ps_platform \<Rightarrow> pp_its_state \<Rightarrow> nat \<Rightarrow> byte list option" where "pp_files P = client_files (pp_its P) (pp_id P)"
definition pp_nv_ok :: "('k, 'o, 'h) ps_platform \<Rightarrow> 'h pp_nv_state \<Rightarrow> bool" where
  "pp_nv_ok P = plf.platform_ok (pp_sector P) (pp_obj P) (pp_cy P) (pp_plat P)"
definition pp_count :: "('k, 'o, 'h) ps_platform \<Rightarrow> 'h pp_nv_state \<Rightarrow> nat \<Rightarrow> nat" where
  "pp_count P s = iff.flash_val (pp_obj P) (pp_sector P) (pl_nv s)"

text \<open>The services behind the interfaces are ready; the storage is consistent; what it holds.\<close>

definition pp_ready :: "('k, 'o, 'h) ps_platform \<Rightarrow> ('k, 'h) pp_state \<Rightarrow> bool" where
  "pp_ready P s \<longleftrightarrow> ps_ifs_ok (pp_its_ok P) (pp_nv_ok P) (pp_keys_ok P) (\<lambda>_. True) s"

definition pp_consistent :: "('k, 'o, 'h) ps_platform \<Rightarrow> ('k, 'h) pp_state \<Rightarrow> bool" where
  "pp_consistent P s \<longleftrightarrow> pp_ready P s \<and> ps_inv (pp_env P) (pp_dec P) (pp_files P (ps_its s)) (pp_count P (ps_nv s)) s"

definition pp_assets :: "('k, 'o, 'h) ps_platform \<Rightarrow> ('k, 'h) pp_state \<Rightarrow> int \<Rightarrow> nat \<Rightarrow> (byte list \<times> 32 word) option" where
  "pp_assets P s = ps_store (pp_dec P) (pp_files P (ps_its s)) (obj_table s)"

lemma call_vectors: "request_vectors call_read call_write (\<lambda>_. True) n call_in call_out call_room"
  by unfold_locales (simp_all add: call_read_def call_write_def)

text \<open>The components meet the contracts of the storage.\<close>

lemma pp_storage:
  assumes "pp_ok P"
  shows "ps_storage (pp_env P) (pp_keys_ok P) (pp_derived P) (pp_key_label P) (pp_enc P) (pp_dec P) (pp_its_ok P) (pp_files P) (pp_nv_ok P) (pp_count P)
    (\<lambda>_. True) (PS_MAX_ASSET_SIZE (pp_env P) + 28) call_in call_out call_room"
proof -
  have "its_client (psa_its_set (pp_env P)) (psa_its_get (pp_env P)) (psa_its_remove (pp_env P)) (pp_its_ok P) (pp_files P)"
    unfolding pp_env_def pp_its_ok_def pp_files_def using itscl.its_client_axioms by simp
  moreover have "nv_counters (tfm_platform_nv_counter_read (pp_env P)) (tfm_platform_nv_counter_increment (pp_env P)) (pp_nv_ok P) (pp_count P)"
    unfolding pp_env_def pp_nv_ok_def pp_count_def[abs_def] pp_counters_def using plf.psnv.nv_counters_axioms by simp
  moreover have "request_vectors (ps_psa_read (pp_env P)) (ps_psa_write (pp_env P)) (\<lambda>_. True) n call_in call_out call_room" for n
    unfolding pp_env_def using call_vectors by simp
  moreover have "client_ok (PS_PARTITION_ID (pp_env P))" using assms by (simp add: pp_ok_def pp_env_def pp_id_def)
  ultimately show ?thesis using assms by (simp add: pp_ok_def ps_storage_def ps_storage_axioms_def)
qed

end
