(* ===== verification/PS_Wit.thy ===== *)
theory PS_Wit
  imports PS_Platform ITS_Flash_Properties
begin

text \<open>
  A system for Protected Storage in which everything but the cipher is the firmware's own: a freshly wiped file
  system of Internal Trusted Storage, counters in two sectors of flash, two entries in the table. The
  stand-in for the PSA Crypto calls tags a message with the end of its additional data.
\<close>

section \<open>The cipher\<close>

definition pw_tag :: "byte list \<Rightarrow> byte list" where "pw_tag add = take 16 (rev add @ replicate 16 0)"
definition pw_enc :: "byte list \<Rightarrow> byte list \<Rightarrow> byte list \<Rightarrow> byte list \<Rightarrow> byte list" where "pw_enc l iv add pt = pt @ pw_tag add"
definition pw_dec :: "byte list \<Rightarrow> byte list \<Rightarrow> byte list \<Rightarrow> byte list \<Rightarrow> byte list option" where
  "pw_dec l iv add ct = (if 16 \<le> length ct \<and> drop (length ct - 16) ct = pw_tag add then Some (take (length ct - 16) ct) else None)"

lemma length_pw_tag [simp]: "length (pw_tag add) = 16" by (simp add: pw_tag_def)

text \<open>Keys by their labels; an operation collects the label.\<close>

type_synonym pw_keys = "nat \<Rightarrow> byte list option"

definition pw_base :: "(pp_its_state, unit pp_nv_state, pw_keys, byte list, its_call) ps_env" where
  "pw_base = \<lparr>psa_its_set = (\<lambda>_ _ _ _. None), psa_its_get = (\<lambda>_ _ _ _. None), psa_its_remove = (\<lambda>_ _. None),
     tfm_platform_nv_counter_read = (\<lambda>_ n. (None, n)), tfm_platform_nv_counter_increment = (\<lambda>_ n. (False, n)),
     psa_key_derivation_setup = (\<lambda>k. (Inr (), [], k)), psa_key_derivation_input_key = (\<lambda>op k. (Inr (), op, k)),
     psa_key_derivation_input_bytes = (\<lambda>bs op k. (Inr (), op @ bs, k)), psa_key_derivation_output_key = (\<lambda>op k. (Inr 1, op, k(1 \<mapsto> op))),
     psa_key_derivation_abort = (\<lambda>op k. (Inr (), [], k)), psa_destroy_key = (\<lambda>key k. (Inr (), k(key := None))),
     psa_aead_encrypt = (\<lambda>key iv add pt n k. (case k key of None \<Rightarrow> (Inl PSA_ERROR_INVALID_HANDLE, []) | Some l \<Rightarrow> (Inr (), pw_enc l iv add pt), k)),
     psa_aead_decrypt = (\<lambda>key iv add ct n k. (case k key of None \<Rightarrow> (Inl PSA_ERROR_INVALID_HANDLE, [])
        | Some l \<Rightarrow> (case pw_dec l iv add ct of None \<Rightarrow> (Inl PSA_ERROR_INVALID_SIGNATURE, []) | Some pt \<Rightarrow> (Inr (), pt)), k)),
     ps_psa_read = (\<lambda>_ _ _. None), ps_psa_write = (\<lambda>_ _ _. None),
     PS_MAX_ASSET_SIZE = 128, PS_NUM_ASSETS = 1, PS_PARTITION_ID = 260, PS_CREATE_LAYOUT = True\<rparr>"

section \<open>The services\<close>

definition pw_its_env :: "its_call its_env" where
  "pw_its_env = \<lparr>TFM_SP_PS = 260, psa_read_req = call_read, psa_write_req = call_write, tfm_hal_its_fs_info = None,
     tfm_hal_ps_fs_info = None, ITS_CREATE_FLASH_LAYOUT = True, PS_CREATE_FLASH_LAYOUT = True\<rparr>"

definition pw_plat :: "(flash_mem, unit, its_call) platform_env" where
  "pw_plat = \<lparr>plat_init = (\<lambda>n. (Inl TFM_PLAT_ERR_UNSUPPORTED, n)), plat_read = (\<lambda>_ _ n. (Inl TFM_PLAT_ERR_UNSUPPORTED, n)),
     plat_increment = (\<lambda>_ n. (Inl TFM_PLAT_ERR_UNSUPPORTED, n)), ifx_call_platform_uart_log = (\<lambda>_ h. (TFM_PLATFORM_ERR_SUCCESS, h)),
     ifx_call_platform_system_reset = id, Cy_SecureServices = None, ifx_platform_hal_ioctl = None, plat_psa_read = call_read, plat_psa_write = call_write,
     PS_CLIENT_ID = 260, PLAT_NV_COUNTER_NS_0 = 3, INPUT_BUFFER_SIZE = 64, OUTPUT_BUFFER_SIZE = 64\<rparr>"

definition pw :: "(pw_keys, byte list, unit) ps_platform" where
  "pw = \<lparr>pp_its = pw_its_env, pp_plat = pw_plat, pp_sector = 256, pp_obj = nor_obj, pp_cy = nor_cy, pp_base = pw_base,
     pp_keys_ok = (\<lambda>_. True), pp_derived = id, pp_key_label = id, pp_enc = pw_enc, pp_dec = pw_dec\<rparr>"

lemma pw_sel [simp]: "pp_its pw = pw_its_env" "pp_plat pw = pw_plat" "pp_sector pw = 256" "pp_obj pw = nor_obj" "pp_cy pw = nor_cy" "pp_base pw = pw_base"
  "pp_keys_ok pw = (\<lambda>_. True)" "pp_derived pw = id" "pp_key_label pw = id" "pp_enc pw = pw_enc" "pp_dec pw = pw_dec" "pp_id pw = 260"
  by (simp_all add: pw_def pp_id_def pw_base_def)

lemma pw_crypto: "aead_keys (pp_env pw) (\<lambda>_. True) id id pw_enc pw_dec"
  by unfold_locales (auto simp: pp_env_def pw_base_def pw_enc_def pw_dec_def PS_TAG_LEN_BYTES_def split: option.split if_splits)

lemma pw_sizes [simp]: "PS_MAX_ASSET_SIZE (pp_env pw) = 128" "PS_OBJ_TABLE_ENTRIES (pp_env pw) = 2" "PS_PARTITION_ID (pp_env pw) = 260"
  by (simp_all add: pp_env_def pw_base_def PS_OBJ_TABLE_ENTRIES_def)

lemma pw_ok [simp]: "pp_ok pw"
  using pw_crypto by (simp add: pp_ok_def PS_OBJ_TABLE_SIZE_def client_ok_def)

interpretation wak: aead_keys "pp_env pw" "\<lambda>_. True" id id pw_enc pw_dec
  by (rule pw_crypto)

interpretation wps: ps_storage "pp_env pw" "\<lambda>_. True" id id pw_enc pw_dec "pp_its_ok pw" "pp_files pw" "pp_nv_ok pw" "pp_count pw"
  "\<lambda>_. True" "PS_MAX_ASSET_SIZE (pp_env pw) + 28" call_in call_out call_room
  using pp_storage[OF pw_ok] unfolding pw_sel .

section \<open>Files\<close>

definition pw_cfg :: "ram_dev its_flash_fs_config_t" where
  "pw_cfg = \<lparr>flash_cfg = \<lparr>flash_area_addr = 0, block_size = 512, num_blocks = 6, program_unit = 1, erase_val = 255\<rparr>,
     ops = its_flash_fs_ops_ram, max_file_size = 256, max_num_files = 5, validate_metadata = True, max_alignment = 1\<rparr>"

definition pw_fs :: "ram_dev its_flash_fs_ctx_t" where
  "pw_fs = snd (its_flash_fs_wipe_all pw_cfg (zero_ctx (replicate 3072 255)))"

definition pw_its :: pp_its_state where
  "pw_its = \<lparr>fs_cfg_its = pw_cfg, fs_ctx_its = pw_fs, fs_cfg_ps = pw_cfg, fs_ctx_ps = pw_fs, g_fid = [], g_file_info = wit_info,
     asset_data = replicate 64 0, req = \<lparr>call_in = \<lambda>_. [], call_out = \<lambda>_. [], call_room = \<lambda>_. 0\<rparr>\<rparr>"

lemma pw_fs_facts: "ops pw_cfg = its_flash_fs_ops_ram" "max_alignment pw_cfg = 1" "max_file_size pw_cfg = 256" "max_num_files pw_cfg = 5"
  "ram_fs_inv pw_cfg pw_fs" "ram_files pw_cfg pw_fs = Map.empty"
proof -
  show f: "ops pw_cfg = its_flash_fs_ops_ram" "max_alignment pw_cfg = 1" "max_file_size pw_cfg = 256" "max_num_files pw_cfg = 5" by (simp_all add: pw_cfg_def)
  have "cfg_ok pw_cfg" "ram_ok (flash_cfg pw_cfg) (dev (zero_ctx (replicate 3072 255)))"
    by (simp_all add: pw_cfg_def cfg_ok_def cfg_typed_def meta_end_def fm_pos_def n_lblocks_def ram_ok_def zero_ctx_def)
  then show "ram_fs_inv pw_cfg pw_fs" "ram_files pw_cfg pw_fs = Map.empty"
    using ram_wipe[OF f(1), of "zero_ctx (replicate 3072 255)"] by (auto simp: pw_fs_def)
qed

lemma pw_its_start: "pp_its_ok pw pw_its" "its_store pw_its_env pw_its 260 = Map.empty"
proof -
  show st: "its_store pw_its_env pw_its 260 = Map.empty"
    using pw_fs_facts(6) by (simp add: its_store_def its_files_def get_fs_ctx_def pw_its_env_def pw_its_def fs_cfg_def fs_ctx_def fun_eq_iff)
  have "its_fs_ok pw_its" using pw_fs_facts by (auto simp: its_fs_ok_def pw_its_def fs_cfg_def fs_ctx_def split: its_fs.split)
  then show "pp_its_ok pw pw_its" using st by (simp add: pp_its_ok_def client_its_ok_def client_ok_def its_ready_def pw_its_def)
qed

text \<open>One file can be stored.\<close>

lemma pw_one_file:
  assumes "file_uid uid" "length bs \<le> 256"
  shows "\<exists>i. pp_its_ok pw i \<and> pp_files pw i = [uid \<mapsto> bs]"
proof -
  have ok: "client_its_ok pw_its_env 260 pw_its" using pw_its_start(1) by (simp add: pp_its_ok_def)
  have "has_room (ram_content (flash_cfg pw_cfg)) pw_cfg pw_fs (length bs) False"
    using empty_has_room[OF pw_fs_facts(5,6) _ _ ram_active_length[OF pw_fs_facts(5)], of "length bs"] assms pw_fs_facts(3,4) by simp
  then have "its_set_error pw_its_env pw_its 260 uid (length bs) = None"
    using assms pw_fs_facts(3,6) by (simp add: its_set_error_def its_files_def get_fs_ctx_def pw_its_def fs_cfg_def fs_ctx_def pw_its_env_def)
  then have e: "its_set_status pw_its_env pw_its 260 uid (length bs) 0 = None"
    using assms(1) pw_its_start(2) by (simp add: its_set_status_def file_uid_def)
  obtain i where i: "psa_its_set_call pw_its_env 260 uid bs 0 pw_its = Some (Inr (), i)"
    using set_call_run[OF ok assms(1), of bs, OF _ e[symmetric]] assms(2) by auto
  have "pp_files pw pw_its = Map.empty" using pw_its_start(2) by (simp add: pp_files_def client_files_def fun_eq_iff)
  then show ?thesis using set_call_ok[OF ok assms(1), of bs] assms(2) i by (auto simp: pp_its_ok_def pp_files_def)
qed

section \<open>Counters\<close>

text \<open>Any values of the counters are possible.\<close>

lemma pw_counters:
  assumes "\<forall>c < 3. f c < SIZE_MAX_P1"
  shows "\<exists>n. pp_nv_ok pw n \<and> (\<forall>c < 3. pp_count pw n c = f c)"
proof -
  let ?D = "ifx_cmsis_driver_flash nor_obj nor_cy"
  define c where "c = ifx_flash_counter_set_checksum \<lparr>nc_checksum = 0, nc_init_value = IFX_NV_COUNTERS_INITIALIZED,
    nc_counters = map (\<lambda>i. if i < 3 then f i else 0) [0..<62]\<rparr>"
  have c: "nc_wf 256 c" "ifx_flash_counters_valid c" "nc_counters c = map (\<lambda>i. if i < 3 then f i else 0) [0..<62]"
    using assms by (auto simp: c_def nc_wf_def ifx_flash_counter_set_checksum_def ifx_flash_counters_valid_def IFX_NUM_NV_COUNTERS_def IFX_NV_COUNTERS_INITIALIZED_def)
  have s: "iff.flash_setup nor_obj nor_cy 256"
    unfolding iff.flash_setup_def unfolding nor_flash_ok
    by (simp add: ifx_cmsis_driver_flash_def ifx_driver_flash_initialize_def ifx_flash_driver_initialize_def nor_obj_def nor_cy_def)
  define m where "m = ifx_put nor_obj (\<lambda>_. 0) (wr (ifx_img nor_obj (\<lambda>_. 0)) 0 (nc_bytes c))"
  have n: "length (nc_bytes c) = 256" using length_nc_bytes[OF c(1)] by (simp add: nc_size_def IFX_NUM_NV_COUNTERS_def)
  note t = iff.sector_torn[OF s nor_flash_ok(1) _ n m_def]
  have at: "ifx_flash_ok nor_obj nor_cy m" "iff.nc_at nor_obj 256 m 0 = c" using t(1,2) nc_back[OF c(1)] by simp_all
  define n where "n = \<lparr>pl_nv = m, pl_hw = (), pl_req = \<lparr>call_in = \<lambda>_. [], call_out = \<lambda>_. [], call_room = \<lambda>_. 0\<rparr>\<rparr>"
  have "pp_nv_ok pw n" unfolding pp_nv_ok_def plf.platform_ok_def iff.flash_ok_def using s at c(2)
    by (simp add: n_def IFX_NUM_NV_COUNTERS_def flash_platform_def pw_plat_def)
  moreover have "\<forall>c < 3. pp_count pw n c = f c" using at(2) c(3)
    by (simp add: pp_count_def iff.flash_val_def n_def IFX_NUM_NV_COUNTERS_def)
  ultimately show ?thesis by blast
qed

section \<open>The table\<close>

definition pw_plain_table :: ps_obj_table_t where
  "pw_plain_table = (table_label (pp_env pw) (zero_table (pp_env pw)))\<lparr>tb_version := PS_OBJECT_SYSTEM_VERSION\<rparr>"

definition pw_table :: "nat \<Rightarrow> ps_obj_table_t" where
  "pw_table c = pw_plain_table\<lparr>tb_crypto := (tb_crypto pw_plain_table)\<lparr>cr_tag := pw_tag (assoc_data pw_plain_table c)\<rparr>\<rparr>"

lemma pw_plain_table_wf: "table_wf (pp_env pw) pw_plain_table" "tb_version pw_plain_table = PS_OBJECT_SYSTEM_VERSION" "table_label (pp_env pw) pw_plain_table = pw_plain_table"
  by (auto simp: pw_plain_table_def table_label_def zero_table_def zero_crypto_def zero_entry_def table_wf_def crypto_wf_def entry_wf_def client_ok_def PS_OBJ_TABLE_UID_def)

lemma pw_table_facts: "table_wf (pp_env pw) (pw_table c)" "table_valid (pp_env pw) pw_dec (pw_table c) c" "entries_ok (pw_table c)"
  "length (table_bytes (pw_table c)) = 112" "ps_store pw_dec f (pw_table c) client uid = None \<or> uid = 0" "objects_ok (pp_env pw) pw_dec f (pw_table c)"
proof -
  show wf: "table_wf (pp_env pw) (pw_table c)" using pw_plain_table_wf(1) by (simp add: table_wf_def crypto_wf_def pw_table_def)
  have "table_label (pp_env pw) (pw_table c) = pw_table c" using pw_plain_table_wf(3) by (simp add: pw_table_def label_iff)
  then show "table_valid (pp_env pw) pw_dec (pw_table c) c" using pw_plain_table_wf(2) by (simp add: table_valid_def pw_table_def pw_dec_def)
  have db: "tb_obj_db (pw_table c) = [zero_entry, zero_entry]" by (simp add: pw_table_def pw_plain_table_def table_label_def zero_table_def eval_nat_numeral)
  have z: "te_uid (tb_obj_db (pw_table c) ! i) = 0" if "i < 2" for i using that unfolding db by (auto simp: less_Suc_eq numeral_2_eq_2 zero_entry_def)
  show "entries_ok (pw_table c)" "objects_ok (pp_env pw) pw_dec f (pw_table c)" using z by (simp_all add: entries_ok_def objects_ok_def db)
  show "length (table_bytes (pw_table c)) = 112" using length_table_bytes[OF wf] by (simp add: PS_OBJ_TABLE_SIZE_def)
  show "ps_store pw_dec f (pw_table c) client uid = None \<or> uid = 0"
    by (auto simp: ps_store_def ps_get_object_entry_idx_def db zero_entry_def split: option.splits dest!: find_Some_iff[THEN iffD1])
qed

lemma pw_table_next: "\<not> table_valid (pp_env pw) pw_dec (pw_table 1) (1 + 1)"
proof -
  have a: "assoc_data (pw_table 1) c = table_data pw_plain_table @ le32 c" for c by (simp add: assoc_data_def pw_table_def table_data_def)
  have "pw_tag (x @ le32 1) \<noteq> pw_tag (x @ le32 (1 + 1))" for x by (simp add: pw_tag_def le32_def)
  then show ?thesis by (simp add: table_valid_def pw_dec_def pw_table_def a[unfolded pw_table_def] assoc_data_def)
qed

section \<open>States\<close>

definition pw_state :: "ps_obj_table_t \<Rightarrow> pp_its_state \<Rightarrow> unit pp_nv_state \<Rightarrow> its_call \<Rightarrow> (pw_keys, unit) pp_state" where
  "pw_state t i n r = \<lparr>obj_table = t, active_table = 0, scratch_table = 1, g_ps_object = zero_object (pp_env pw), g_obj_fid = 0,
     ps_crypto_iv_buf = replicate 12 0, ps_its = i, ps_nv = n, ps_keys = Map.empty, ps_req = r\<rparr>"

text \<open>The table for counter value \<open>c\<close> in its file, and the counters at any values.\<close>

lemma pw_services:
  assumes "\<forall>k < 3. f k < SIZE_MAX_P1"
  shows "\<exists>i n. pp_its_ok pw i \<and> pp_files pw i = [PS_TABLE_FS_ID 0 \<mapsto> table_bytes (pw_table c)] \<and> pp_nv_ok pw n \<and> (\<forall>k < 3. pp_count pw n k = f k)"
  using pw_one_file[of "PS_TABLE_FS_ID 0" "table_bytes (pw_table c)"] pw_counters[OF assms] pw_table_facts(4)[of c]
  by (auto simp: file_uid_def PS_TABLE_FS_ID_def)

lemma pw_ready: "pp_its_ok pw i \<Longrightarrow> pp_nv_ok pw n \<Longrightarrow> pp_ready pw (pw_state t i n r)"
  by (simp add: pp_ready_def ps_ifs_ok_def pw_state_def)

lemma pw_ram_ok: "table_wf (pp_env pw) t \<Longrightarrow> ps_ram_ok (pp_env pw) (pw_state t i n r)"
  by (simp add: ps_ram_ok_def pw_state_def)

lemma pw_consistent: "\<exists>s. pp_consistent pw s \<and> ps_req s = r \<and> pp_count pw (ps_nv s) 0 = 1 \<and> obj_table s = pw_table 1 \<and> (\<forall>client uid. uid \<noteq> 0 \<longrightarrow> pp_assets pw s client uid = None)"
proof -
  obtain i n where i: "pp_its_ok pw i" "pp_files pw i = [PS_TABLE_FS_ID 0 \<mapsto> table_bytes (pw_table 1)]" "pp_nv_ok pw n" "\<forall>k < 3. pp_count pw n k = 1"
    using pw_services[of "\<lambda>_. 1" 1] by auto
  define s where "s = pw_state (pw_table 1) i n r"
  have "pp_consistent pw s"
    using i pw_ready[OF i(1,3), of "pw_table 1" r] pw_ram_ok[OF pw_table_facts(1)] pw_table_facts(2,3,6)
    by (simp add: pp_consistent_def ps_inv_def s_def) (simp add: pw_state_def PS_TABLE_FS_ID_def)
  moreover have "\<forall>client uid. uid \<noteq> 0 \<longrightarrow> pp_assets pw s client uid = None" using pw_table_facts(5) by (auto simp: pp_assets_def s_def pw_state_def)
  ultimately show ?thesis using i(4) by (intro exI[of _ s]) (simp add: s_def pw_state_def)
qed

end
