(* ===== verification/PS_Properties.thy ===== *)
theory PS_Properties
  imports PS_Wit
begin

text \<open>
  The properties of Protected Storage on the platform (\<open>PS_Platform\<close>): its requests, resets, what it accepts
  when it starts, and power failures while it saves its table; those of the platform partition and of the
  counters; and those of the checksum. The instances are those of \<open>PS_Wit\<close>.
\<close>

lemmas pp_unfold = pp_ready_def pp_consistent_def pp_assets_def

definition pw_call :: "byte list list \<Rightarrow> nat list \<Rightarrow> its_call" where
  "pw_call ins outs = \<lparr>call_in = call_vec ins, call_out = (\<lambda>_. []), call_room = call_len outs\<rparr>"

lemma pw_call_sizes: "\<forall>bs \<in> set ins. length bs < SIZE_MAX_P1 \<Longrightarrow> \<forall>n \<in> set outs. n < SIZE_MAX_P1 \<Longrightarrow>
   sizes_match (call_msg client ty ins outs) (call_in (pw_call ins outs)) (call_room (pw_call ins outs))"
  using call_sizes by (simp add: pw_call_def)

text \<open>The power failed after the first counter was incremented from 1 to 2.\<close>

lemma pw_interrupted: "\<exists>s. pp_ready pw s \<and> ps_ram_ok (pp_env pw) s \<and> pp_files pw (ps_its s) (PS_TABLE_FS_ID 0) = Some (table_bytes (pw_table 1))
   \<and> pp_files pw (ps_its s) (PS_TABLE_FS_ID (1 - 0)) = None \<and> pp_count pw (ps_nv s) 0 = 1 + 1 \<and> pp_count pw (ps_nv s) 1 = 1 \<and> pp_count pw (ps_nv s) 2 = 1"
proof -
  have "\<forall>k < 3. (if k = 0 then 2 else 1) < SIZE_MAX_P1" by simp
  from pw_services[OF this, of 1] obtain i n where i: "pp_its_ok pw i" "pp_files pw i = [PS_TABLE_FS_ID 0 \<mapsto> table_bytes (pw_table 1)]" "pp_nv_ok pw n"
    "\<forall>k < 3. pp_count pw n k = (if k = 0 then 2 else 1)" by blast
  show ?thesis using pw_ready[OF i(1,3)] pw_ram_ok[OF pw_table_facts(1)] i(2,4)
    by (intro exI[of _ "pw_state (pw_table 1) i n (pw_call [] [])"]) (simp, simp add: pw_state_def PS_TABLE_FS_ID_def)
qed

section \<open>Requests\<close>

text \<open>
  C3. A set request to Protected Storage is answered: with the error for an identifier of zero, unknown flags,
  too much data or a write-once asset in these cases; and when the answer is success then the asset of the
  client under the identifier is the data with the flags of the request, it was not write-once before,
  every other asset is as it was, and the storage is consistent: table, objects and counters match.
\<close>
theorem ps_set_request:
  assumes "pp_ok P" "pp_consistent P s" "sizes_match m (call_in (ps_req s)) (call_room (ps_req s))" "client_ok (client_id m)"
    and "msg_type m = TFM_PS_SET" "length (call_in (ps_req s) 0) = 8" "length (call_in (ps_req s) 2) = 4"
  shows "\<exists>r t. tfm_protected_storage_service_sfn (pp_env P) stack m s = Some (r, t) \<and> pp_ready P t
    \<and> (\<forall>e. ps_set_refusal (pp_env P) (pp_assets P s (client_id m) (de64 (call_in (ps_req s) 0))) (de64 (call_in (ps_req s) 0)) (length (call_in (ps_req s) 1))
           (word_of_nat (de32 (call_in (ps_req s) 2))) = Some e \<longrightarrow> r = Inl e)
    \<and> (r = Inr () \<longrightarrow> pp_consistent P t \<and> \<not> write_once (pp_assets P s (client_id m) (de64 (call_in (ps_req s) 0)))
        \<and> (\<forall>client uid. uid \<noteq> 0 \<longrightarrow> pp_assets P t client uid
            = (if client = client_id m \<and> uid = de64 (call_in (ps_req s) 0) then Some (call_in (ps_req s) 1, word_of_nat (de32 (call_in (ps_req s) 2)))
               else pp_assets P s client uid)))"
  using ps_storage.ps_set_req_ok[OF pp_storage[OF assms(1)] assms(2)[unfolded pp_consistent_def pp_ready_def] assms(3-7), of stack]
  unfolding pp_unfold by blast

theorem ps_set_request_witness:
  "\<exists>s r t. pp_consistent pw s \<and> tfm_protected_storage_service_sfn (pp_env pw) [] (call_msg 3 TFM_PS_SET [le64 5, [1, 2, 3], le32 0] []) s = Some (r, t)
     \<and> (r = Inr () \<longrightarrow> pp_assets pw t 3 5 = Some ([1, 2, 3], 0))"
proof -
  let ?ins = "[le64 5, [1, 2, 3], le32 0]" and ?m = "call_msg 3 TFM_PS_SET [le64 5, [1, 2, 3], le32 0] []"
  obtain s where s: "pp_consistent pw s" "ps_req s = pw_call ?ins []" using pw_consistent[of "pw_call ?ins []"] by blast
  have v: "call_in (pw_call ?ins []) 0 = le64 5" "call_in (pw_call ?ins []) 1 = [1, 2, 3]" "call_in (pw_call ?ins []) 2 = le32 0"
    by (simp_all add: pw_call_def call_vec_def)
  have sm: "sizes_match ?m (call_in (pw_call ?ins [])) (call_room (pw_call ?ins []))" by (rule pw_call_sizes) simp_all
  show ?thesis using ps_set_request[OF pw_ok s(1), of ?m "[]", unfolded s(2) v, OF sm] s(1)
    by (auto simp: client_ok_def)
qed

text \<open>
  C9. A get request to Protected Storage returns what is stored: the bytes of the client's asset from the
  offset on, at most as many as the client asks for, or the error for an identifier of zero, an asset that
  does not exist or an offset behind its end; nothing stored changes.
\<close>
theorem ps_get_request:
  assumes "pp_ok P" "pp_consistent P s" "sizes_match m (call_in (ps_req s)) (call_room (ps_req s))"
    and "msg_type m = TFM_PS_GET" "length (call_in (ps_req s) 0) = 8" "length (call_in (ps_req s) 1) = 4"
    and "res = ps_get_result (pp_assets P s (client_id m) (de64 (call_in (ps_req s) 0))) (de64 (call_in (ps_req s) 0)) (de32 (call_in (ps_req s) 1)) (call_room (ps_req s) 0)"
  shows "\<exists>t. tfm_protected_storage_service_sfn (pp_env P) stack m s = Some (map_sum id (\<lambda>_. ()) res, t) \<and> pp_consistent P t \<and> pp_assets P t = pp_assets P s
    \<and> call_out (ps_req t) 0 = call_out (ps_req s) 0 @ (case res of Inl _ \<Rightarrow> [] | Inr bs \<Rightarrow> bs)"
proof -
  obtain t where t: "tfm_protected_storage_service_sfn (pp_env P) stack m s = Some (map_sum id (\<lambda>_. ()) res, t)" "pp_consistent P t" "pp_assets P t = pp_assets P s"
    "call_out (ps_req t) = (case res of Inl _ \<Rightarrow> call_out (ps_req s) | Inr bs \<Rightarrow> (call_out (ps_req s))(0 := call_out (ps_req s) 0 @ bs))"
    using ps_storage.ps_get_req_ok[OF pp_storage[OF assms(1)] assms(2)[unfolded pp_consistent_def pp_ready_def] assms(3-7)[unfolded pp_unfold], of stack]
    unfolding pp_unfold by blast
  then show ?thesis by (intro exI[of _ t]) (auto split: sum.split)
qed

theorem ps_get_request_witness:
  "\<exists>s t. pp_consistent pw s \<and> tfm_protected_storage_service_sfn (pp_env pw) [] (call_msg 3 TFM_PS_GET [le64 5, le32 0] [4]) s = Some (Inl PSA_ERROR_DOES_NOT_EXIST, t)
     \<and> pp_consistent pw t"
proof -
  let ?ins = "[le64 5, le32 0]" and ?m = "call_msg 3 TFM_PS_GET [le64 5, le32 0] [4]"
  obtain s where s: "pp_consistent pw s" "ps_req s = pw_call ?ins [4]" "pp_assets pw s 3 5 = None" using pw_consistent[of "pw_call ?ins [4]"] by auto
  have v: "call_in (pw_call ?ins [4]) 0 = le64 5" "call_in (pw_call ?ins [4]) 1 = le32 0" "call_room (pw_call ?ins [4]) 0 = 4"
    by (simp_all add: pw_call_def call_vec_def call_len_def)
  have sm: "sizes_match ?m (call_in (pw_call ?ins [4])) (call_room (pw_call ?ins [4]))" by (rule pw_call_sizes) simp_all
  have r: "ps_get_result (pp_assets pw s 3 5) 5 0 4 = Inl PSA_ERROR_DOES_NOT_EXIST" using s(3) by (simp add: ps_get_result_def)
  show ?thesis using ps_get_request[OF pw_ok s(1), of ?m "Inl PSA_ERROR_DOES_NOT_EXIST" "[]", unfolded s(2) v, OF sm] s(1) r by auto
qed

text \<open>
  C23. A remove request to Protected Storage is refused for an identifier of zero, an asset that does not
  exist and a write-once asset, and then changes nothing. Otherwise a success means that this asset is gone
  and every other one is as it was, in a consistent storage, and an error that every asset can still be
  decrypted to what it was.
\<close>
theorem ps_remove_request:
  assumes "pp_ok P" "pp_consistent P s" "sizes_match m (call_in (ps_req s)) (call_room (ps_req s))"
    and "msg_type m = TFM_PS_REMOVE" "length (call_in (ps_req s) 0) = 8" and "uid = de64 (call_in (ps_req s) 0)"
  shows "\<exists>r t. tfm_protected_storage_service_sfn (pp_env P) stack m s = Some (r, t) \<and> pp_ready P t
    \<and> (case ps_remove_refusal (pp_assets P s (client_id m) uid) uid of
         Some e \<Rightarrow> r = Inl e \<and> pp_consistent P t \<and> pp_assets P t = pp_assets P s
       | None \<Rightarrow> (case r of
           Inr _ \<Rightarrow> pp_consistent P t \<and> (\<forall>client uid'. uid' \<noteq> 0 \<longrightarrow> pp_assets P t client uid'
               = (if client = client_id m \<and> uid' = uid then None else pp_assets P s client uid'))
         | Inl _ \<Rightarrow> pp_assets P t = pp_assets P s))"
  using ps_storage.ps_remove_req_ok[OF pp_storage[OF assms(1)] assms(2)[unfolded pp_consistent_def pp_ready_def] assms(3-5), of stack]
  unfolding pp_unfold assms(6) by blast

theorem ps_remove_request_witness:
  "\<exists>s t. pp_consistent pw s \<and> tfm_protected_storage_service_sfn (pp_env pw) [] (call_msg 3 TFM_PS_REMOVE [le64 5] []) s = Some (Inl PSA_ERROR_DOES_NOT_EXIST, t)
     \<and> pp_assets pw t = pp_assets pw s"
proof -
  let ?m = "call_msg 3 TFM_PS_REMOVE [le64 5] []"
  obtain s where s: "pp_consistent pw s" "ps_req s = pw_call [le64 5] []" "pp_assets pw s 3 5 = None" using pw_consistent[of "pw_call [le64 5] []"] by auto
  have v: "call_in (pw_call [le64 5] []) 0 = le64 5" by (simp add: pw_call_def call_vec_def)
  have sm: "sizes_match ?m (call_in (pw_call [le64 5] [])) (call_room (pw_call [le64 5] []))" by (rule pw_call_sizes) simp_all
  have r: "ps_remove_refusal (pp_assets pw s 3 5) 5 = Some PSA_ERROR_DOES_NOT_EXIST" using s(3) by (simp add: ps_remove_refusal_def)
  show ?thesis using ps_remove_request[OF pw_ok s(1), of ?m 5 "[]", unfolded s(2) v, OF sm] s(1) r by auto
qed

section \<open>Starting\<close>

text \<open>
  C22. Protected Storage keeps its contents over a reset: whatever the variables of the partition are, with the
  files and the counters of a consistent state its initialisation succeeds, is consistent again and has
  the same table and the same assets.
\<close>
theorem ps_reset_keeps:
  assumes "pp_ok P" "pp_consistent P s" "pp_ready P s'" "ps_ram_ok (pp_env P) s'"
    and "pp_files P (ps_its s') = pp_files P (ps_its s)" "pp_count P (ps_nv s') = pp_count P (ps_nv s)"
  shows "\<exists>t. tfm_ps_init (pp_env P) s' = Some (Inr (), t) \<and> pp_consistent P t \<and> obj_table t = obj_table s \<and> pp_assets P t = pp_assets P s"
proof -
  obtain t where t: "tfm_ps_init (pp_env P) s' = Some (Inr (), t)" "pp_consistent P t" "pp_files P (ps_its t) = pp_files P (ps_its s)" "obj_table t = obj_table s"
    using ps_storage.reset_ok[OF pp_storage[OF assms(1)], of s s'] assms(2-6) unfolding pp_unfold by blast
  then show ?thesis by (intro exI[of _ t]) (simp add: pp_assets_def)
qed

theorem ps_reset_keeps_witness:
  "\<exists>s t. pp_consistent pw s \<and> tfm_ps_init (pp_env pw) (s\<lparr>obj_table := zero_table (pp_env pw)\<rparr>) = Some (Inr (), t) \<and> obj_table t = obj_table s"
proof -
  obtain s where s: "pp_consistent pw s" using pw_consistent[of "pw_call [] []"] by blast
  let ?s = "s\<lparr>obj_table := zero_table (pp_env pw)\<rparr>"
  have "pp_ready pw ?s" "ps_ram_ok (pp_env pw) ?s"
    using s by (auto simp: pp_unfold ps_ifs_ok_def ps_inv_def ps_ram_ok_def zero_table_def table_wf_def zero_crypto_def crypto_wf_def zero_entry_def entry_wf_def client_ok_def)
  then show ?thesis using ps_reset_keeps[OF pw_ok s, of ?s] s by auto
qed

text \<open>
  C7. No forged or old table is accepted: when the initialisation of the table succeeds, the table it uses
  carries a tag that the cipher accepts for the first counter, or for the third one, and for the third only
  while it equals the second and is not zero, that is when the save of the next table did not complete.
\<close>
theorem ps_init_authentic:
  assumes "pp_ok P" "pp_ready P s" "ps_ram_ok (pp_env P) s" "ps_object_table_init (pp_env P) s = Some (Inr (), t)"
  shows "table_valid (pp_env P) (pp_dec P) (obj_table t) (pp_count P (ps_nv s) 0)
    \<or> pp_count P (ps_nv s) 2 = pp_count P (ps_nv s) 1 \<and> pp_count P (ps_nv s) 2 \<noteq> 0 \<and> table_valid (pp_env P) (pp_dec P) (obj_table t) (pp_count P (ps_nv s) 2)"
  using ps_storage.init_authentic[OF pp_storage[OF assms(1)] assms(2)[unfolded pp_ready_def] assms(3,4)] .

theorem ps_init_authentic_witness:
  "\<exists>s t. pp_ready pw s \<and> ps_object_table_init (pp_env pw) s = Some (Inr (), t) \<and> (table_valid (pp_env pw) pw_dec (obj_table t) 2 \<or> table_valid (pp_env pw) pw_dec (obj_table t) 1)"
proof -
  obtain s where s: "pp_ready pw s" "ps_ram_ok (pp_env pw) s" "pp_files pw (ps_its s) (PS_TABLE_FS_ID 0) = Some (table_bytes (pw_table 1))"
    "pp_files pw (ps_its s) (PS_TABLE_FS_ID (1 - 0)) = None" "pp_count pw (ps_nv s) 0 = 1 + 1" "pp_count pw (ps_nv s) 1 = 1" "pp_count pw (ps_nv s) 2 = 1"
    using pw_interrupted by blast
  obtain t where t: "ps_object_table_init (pp_env pw) s = Some (Inr (), t)"
    using wps.interrupted_save[OF s(1)[unfolded pp_ready_def pw_sel] s(2) _ s(3,4) pw_table_facts(1,2) _ s(5-7) pw_table_next] by auto
  show ?thesis using ps_init_authentic[OF pw_ok s(1,2) t] s t by (auto simp: numeral_2_eq_2)
qed

section \<open>Power failures\<close>

text \<open>
  C10. A power failure while Protected Storage saves its table: let the save of the table \<open>T\<close> stop after any
  step (before or after the first counter is incremented, after the table is written, after the second
  counter has followed, or at the end). Then the next initialisation succeeds, with the old table when the
  new one had not been written and with the new one otherwise.
\<close>
theorem ps_save_cut:
  assumes "pp_ok P" "pp_consistent P s" "pp_count P (ps_nv s) 0 \<noteq> 0"
    and "\<not> table_valid (pp_env P) (pp_dec P) (obj_table s) (pp_count P (ps_nv s) 0 + 1)"
    and "table_wf (pp_env P) T" "table_label (pp_env P) T = T" "tb_version T = PS_OBJECT_SYSTEM_VERSION"
    and "save_prefix (pp_env P) k (s\<lparr>obj_table := T\<rparr>) = Some (Inr (), t)"
    and "pp_ready P s'" "ps_ram_ok (pp_env P) s'" "pp_files P (ps_its s') = pp_files P (ps_its t)" "pp_count P (ps_nv s') = pp_count P (ps_nv t)"
  shows "\<exists>u. ps_object_table_init (pp_env P) s' = Some (Inr (), u) \<and> pp_ready P u
    \<and> (if k \<le> 1 then obj_table u = obj_table s else obj_table u = obj_table t \<and> tb_obj_db (obj_table u) = tb_obj_db T)"
proof -
  from ps_storage.save_cut[OF pp_storage[OF assms(1)] _ _ assms(3-8), of s'] assms(2,9-12)
  obtain u where u: "ps_object_table_init (pp_env P) s' = Some (Inr (), u)" "pp_ready P u"
    "if k \<le> 1 then obj_table u = obj_table s else obj_table u = obj_table t \<and> resealed T (obj_table t)"
    unfolding pp_unfold by blast
  then show ?thesis using resealedD(1)[of T "obj_table t"] by (intro exI[of _ u]) (auto split: if_splits)
qed

theorem ps_save_cut_witness:
  "\<exists>s t u. pp_consistent pw s \<and> save_prefix (pp_env pw) 1 (s\<lparr>obj_table := pw_plain_table\<rparr>) = Some (Inr (), t)
     \<and> ps_object_table_init (pp_env pw) t = Some (Inr (), u) \<and> obj_table u = obj_table s"
proof -
  obtain s where s: "pp_consistent pw s" "pp_count pw (ps_nv s) 0 = 1" "obj_table s = pw_table 1" using pw_consistent[of "pw_call [] []"] by blast
  let ?s = "s\<lparr>obj_table := pw_plain_table\<rparr>"
  have r: "pp_ready pw s" "ps_ram_ok (pp_env pw) s" "pp_nv_ok pw (ps_nv s)" using s(1) by (auto simp: pp_unfold ps_ifs_ok_def ps_inv_def)
  obtain n where n: "tfm_platform_nv_counter_increment (pp_env pw) 0 (ps_nv s) = (True, n)" "pp_nv_ok pw n"
    using wps.nv.inc_nv[OF r(3), of 0] s(2) by auto
  have k: "save_prefix (pp_env pw) 1 ?s = Some (Inr (), ?s\<lparr>ps_nv := n\<rparr>)"
    using n(1) by (simp add: save_prefix_def ps_increment_nv_counter_def TFM_PS_NV_COUNTER_1_def)
  have "pp_ready pw (?s\<lparr>ps_nv := n\<rparr>)" "ps_ram_ok (pp_env pw) (?s\<lparr>ps_nv := n\<rparr>)"
    using r n(2) pw_plain_table_wf(1) by (auto simp: pp_ready_def ps_ifs_ok_def ps_ram_ok_def)
  moreover have "\<not> table_valid (pp_env pw) (pp_dec pw) (obj_table s) (pp_count pw (ps_nv s) 0 + 1)" unfolding s(2,3) pw_sel by (rule pw_table_next)
  ultimately obtain u where "ps_object_table_init (pp_env pw) (?s\<lparr>ps_nv := n\<rparr>) = Some (Inr (), u)" "obj_table u = obj_table s"
    using ps_save_cut[OF pw_ok s(1) _ _ pw_plain_table_wf(1,3,2) k, of "?s\<lparr>ps_nv := n\<rparr>"] s(2) by auto
  then show ?thesis using s(1) k by blast
qed

text \<open>
  C37. The power fails after the first counter is incremented and before the table is written. The first
  initialisation accepts the old table by the third counter and brings the counters into line, but it does
  not save the table again: the table is for the old counter, and every later initialisation fails.
\<close>
theorem ps_interrupted_save:
  assumes "pp_ok P" "pp_ready P s" "ps_ram_ok (pp_env P) s" "a < 2"
    and "pp_files P (ps_its s) (PS_TABLE_FS_ID a) = Some (table_bytes t)" "pp_files P (ps_its s) (PS_TABLE_FS_ID (1 - a)) = None"
    and "table_wf (pp_env P) t" "table_valid (pp_env P) (pp_dec P) t c" "\<not> table_valid (pp_env P) (pp_dec P) t (c + 1)"
    and "c \<noteq> 0" "pp_count P (ps_nv s) 0 = c + 1" "pp_count P (ps_nv s) 1 = c" "pp_count P (ps_nv s) 2 = c"
  shows "\<exists>u. ps_object_table_init (pp_env P) s = Some (Inr (), u) \<and> obj_table u = t
    \<and> (\<forall>s'. pp_ready P s' \<and> ps_ram_ok (pp_env P) s' \<and> pp_files P (ps_its s') = pp_files P (ps_its u) \<and> pp_count P (ps_nv s') = pp_count P (ps_nv u)
         \<longrightarrow> (\<exists>v. ps_object_table_init (pp_env P) s' = Some (Inl PSA_ERROR_GENERIC_ERROR, v)))"
  using ps_storage.interrupted_save[OF pp_storage[OF assms(1)] assms(2)[unfolded pp_ready_def] assms(3-8,10-13,9)]
  unfolding pp_unfold by blast

theorem ps_interrupted_save_witness:
  "\<exists>s u. pp_ready pw s \<and> pp_count pw (ps_nv s) 0 = 2 \<and> ps_object_table_init (pp_env pw) s = Some (Inr (), u) \<and> obj_table u = pw_table 1
     \<and> (\<forall>s'. pp_ready pw s' \<and> ps_ram_ok (pp_env pw) s' \<and> pp_files pw (ps_its s') = pp_files pw (ps_its u) \<and> pp_count pw (ps_nv s') = pp_count pw (ps_nv u)
          \<longrightarrow> (\<exists>v. ps_object_table_init (pp_env pw) s' = Some (Inl PSA_ERROR_GENERIC_ERROR, v)))"
proof -
  obtain s where s: "pp_ready pw s" "ps_ram_ok (pp_env pw) s" "pp_files pw (ps_its s) (PS_TABLE_FS_ID 0) = Some (table_bytes (pw_table 1))"
    "pp_files pw (ps_its s) (PS_TABLE_FS_ID (1 - 0)) = None" "pp_count pw (ps_nv s) 0 = 1 + 1" "pp_count pw (ps_nv s) 1 = 1" "pp_count pw (ps_nv s) 2 = 1"
    using pw_interrupted by blast
  have "pp_count pw (ps_nv s) 0 = 2" using s(5) by simp
  moreover have "\<exists>u. ps_object_table_init (pp_env pw) s = Some (Inr (), u) \<and> obj_table u = pw_table 1
     \<and> (\<forall>s'. pp_ready pw s' \<and> ps_ram_ok (pp_env pw) s' \<and> pp_files pw (ps_its s') = pp_files pw (ps_its u) \<and> pp_count pw (ps_nv s') = pp_count pw (ps_nv u)
          \<longrightarrow> (\<exists>v. ps_object_table_init (pp_env pw) s' = Some (Inl PSA_ERROR_GENERIC_ERROR, v)))"
    by (rule ps_interrupted_save[OF pw_ok s(1,2) _ s(3,4) pw_table_facts(1), unfolded pw_sel, OF _ pw_table_facts(2) pw_table_next _ s(5-7)]) simp_all
  ultimately show ?thesis using s(1) by blast
qed

end
