(* ===== verification/Platform_Properties.thy ===== *)
theory Platform_Properties
  imports Platform_Service ITS_Flash_Properties
begin

text \<open>
  The properties of the monotonic counters, of the platform partition and of the checksum. The instance is an
  RRAM of 32 blocks of 16 bytes with six counters, and the flash of \<open>ITS_Flash_Properties\<close>.
\<close>

section \<open>Instances\<close>

definition pc_cy :: "flash_mem cy_rram" where
  "pc_cy = \<lparr>CY_RRAM_BLOCK_SIZE_BYTES = 16, Cy_RRAM_NvmReadByteArray = (\<lambda>a n m. ((CY_RRAM_SUCCESS, mem_get m a n), m)),
     Cy_RRAM_NvmWriteByteArray = (\<lambda>a bs m. (CY_RRAM_SUCCESS, mem_set m a bs))\<rparr>"

definition pc_env :: nvc_env where
  "pc_env = \<lparr>PLAT_NV_COUNTER_MAX = 6, NV_COUNTERS_SECTOR_SIZE = 16, NV_COUNTERS_AREA_SIZE = 512, NV_COUNTERS_PROGRAM_UNIT = 4\<rparr>"

definition pc_obj :: ifx_driver_obj_t where "pc_obj = nv_counters_rram_obj pc_env 0x2000"

lemma pc_sizes: "drv_item (ifx_driver_rram pc_obj pc_cy) = 4" "ifx_size pc_obj = 512" "ifx_rram_ok pc_obj pc_cy m" "fi_program_unit (flash_info pc_obj) = 4"
  by (simp_all add: drv_item_def data_width_byte_def ifx_driver_rram_def ifx_size_def pc_obj_def nv_counters_rram_obj_def pc_env_def ifx_rram_ok_def cy_rram_ok_def pc_cy_def
      IFX_DRIVER_RRAM_PROGRAM_UNIT_def)

lemma pc_setup: "ifr.rram_setup pc_obj pc_cy pc_env"
  unfolding ifr.rram_setup_def unfolding pc_sizes
  by (simp add: rram_geom_def pc_env_def NV_COUNTERS_EXPECTED_AREA_SIZE_def IFX_ALIGN_UP_TO_def counter_size_def)
    (simp add: ifx_driver_rram_def ifx_driver_rram_initialize_def ifx_flash_driver_initialize_def pc_obj_def nv_counters_rram_obj_def pc_env_def pc_cy_def)

text \<open>The counters after the first initialisation of blank memory.\<close>

lemma pc_start: "\<exists>d. ifr.rram_ok pc_obj pc_cy pc_env d \<and> ifr.rram_val pc_obj pc_env d = (\<lambda>_. 0)"
proof -
  have "ifx_img pc_obj (\<lambda>_. 0) = replicate 512 0" by (simp add: ifx_img_def mem_get_def pc_sizes map_replicate_const)
  moreover have "NVM_INIT_DONE_FLAG_OFFSET pc_env = 96"
    by (simp add: NVM_INIT_DONE_FLAG_OFFSET_def NV_COUNTERS_BACKUP_AREA_OFFSET_def IFX_ALIGN_UP_TO_def pc_env_def counter_size_def)
  ultimately have "ifr.flag_word pc_obj pc_env (\<lambda>_. 0) \<noteq> IFX_NVM_INIT_DONE_FLAG"
    unfolding ifr.flag_word_def by (simp add: rd_def IFX_NVM_INIT_DONE_FLAG_def de32_def)
  from ifr.rram_init_first[OF pc_setup pc_sizes(3) this] show ?thesis by blast
qed

section \<open>Counters\<close>

text \<open>
  C11. A counter in RRAM survives a power failure in an update. The code of the update runs with a driver whose power
  fails: \<open>n\<close> programmings complete and of the next one \<open>j\<close> bytes reach the memory. They are whole words of four
  bytes, the program unit of the driver; if the backup of the counter was valid before, they may also stop within
  a word. From what is then in the memory, the initialisation succeeds, the counter has the value of the complete
  update, or its old one if the first programming was interrupted, and every other counter is as it was.
\<close>
theorem nv_rram_power_failure:
  assumes "ifr.rram_ok obj cy env d" "i < PLAT_NV_COUNTER_MAX env" "w < SIZE_MAX_P1" "ifr.cell obj env d True i \<noteq> None \<or> 4 dvd j"
  shows "\<exists>d'. tfm_plat_init_nv_counter_rram env (ifx_driver_rram obj cy)
        (left_by (tfm_plat_set_nv_counter_rram env (cut_drv (ifr.torn_write obj j) (ifx_driver_rram obj cy)) i w (Some n, d))) = (Inr (), d')
    \<and> ifr.rram_ok obj cy env d'
    \<and> (ifr.rram_val obj env d' = (ifr.rram_val obj env d)(i := max (ifr.rram_val obj env d i) w)
       \<or> n = 0 \<and> ifr.rram_val obj env d' = ifr.rram_val obj env d)"
  by (rule ifr.rram_set_power_failure[OF assms])

text \<open>The second programming of the update, of the counter itself, stops after its first word.\<close>

theorem nv_rram_power_failure_witness:
  "\<exists>d d'. ifr.rram_ok pc_obj pc_cy pc_env d
     \<and> tfm_plat_init_nv_counter_rram pc_env (ifx_driver_rram pc_obj pc_cy)
         (left_by (tfm_plat_set_nv_counter_rram pc_env (cut_drv (ifr.torn_write pc_obj 4) (ifx_driver_rram pc_obj pc_cy)) 2 7 (Some 1, d))) = (Inr (), d')
     \<and> ifr.rram_val pc_obj pc_env d' = (\<lambda>_. 0)(2 := 7)"
proof -
  obtain d where d: "ifr.rram_ok pc_obj pc_cy pc_env d" "ifr.rram_val pc_obj pc_env d = (\<lambda>_. 0)" using pc_start by blast
  from nv_rram_power_failure[OF d(1), of 2 7 4 1] d show ?thesis by (auto simp: pc_env_def)
qed

text \<open>
  C24. The counters in flash survive a power failure in an update. The code of the update runs with a driver whose
  power fails: \<open>n\<close> of its erasures and programmings complete, and the next one leaves any bytes \<open>x\<close> in its sector, of
  which the checksum must not make a valid sector, unless they are the old or the new bytes of the main sector.
  From what is then in the flash, the initialisation succeeds, and the counters have their old values if the
  backup was being written or the main sector was not changed yet, and otherwise those of the complete update.
\<close>
theorem nv_flash_power_failure:
  assumes "iff.flash_ok obj cy sector d" "i < IFX_NUM_NV_COUNTERS sector" "v < SIZE_MAX_P1" "length x = sector"
    and "ifx_flash_counters_valid (bytes_nc sector x) \<Longrightarrow> x = rd (ifx_img obj d) 0 sector \<or> x = nc_bytes (nc_set i v (iff.nc_at obj sector d 0))"
  shows "\<exists>d'. tfm_plat_init_nv_counter_flash sector (ifx_cmsis_driver_flash obj cy)
        (left_by (tfm_plat_set_nv_counter_flash sector (cut_drv (iff.torn_sector obj x) (ifx_cmsis_driver_flash obj cy)) i v (Some n, d))) = (Inr (), d')
    \<and> iff.flash_ok obj cy sector d'
    \<and> iff.flash_val obj sector d' = (if n < 2 \<or> n < 4 \<and> x = rd (ifx_img obj d) 0 sector then iff.flash_val obj sector d
        else (iff.flash_val obj sector d)(i := max (iff.flash_val obj sector d i) v))"
  by (rule iff.flash_set_power_failure[OF assms])

lemma pc_flash: "\<exists>d. iff.flash_ok nor_obj nor_cy 256 d"
proof -
  define c where "c = ifx_flash_counter_set_checksum \<lparr>nc_checksum = 0, nc_init_value = IFX_NV_COUNTERS_INITIALIZED, nc_counters = replicate 62 0\<rparr>"
  have c: "nc_wf 256 c" "ifx_flash_counters_valid c"
    by (simp_all add: c_def nc_wf_def ifx_flash_counter_set_checksum_def ifx_flash_counters_valid_def IFX_NUM_NV_COUNTERS_def IFX_NV_COUNTERS_INITIALIZED_def)
  have s: "iff.flash_setup nor_obj nor_cy 256"
    unfolding iff.flash_setup_def unfolding nor_flash_ok
    by (simp add: ifx_cmsis_driver_flash_def ifx_driver_flash_initialize_def ifx_flash_driver_initialize_def nor_obj_def nor_cy_def)
  define m where "m = ifx_put nor_obj (\<lambda>_. 0) (wr (ifx_img nor_obj (\<lambda>_. 0)) 0 (nc_bytes c))"
  have n: "length (nc_bytes c) = 256" using length_nc_bytes[OF c(1)] by (simp add: nc_size_def IFX_NUM_NV_COUNTERS_def)
  note t = iff.sector_torn[OF s nor_flash_ok(1) _ n m_def]
  have "ifx_flash_ok nor_obj nor_cy m" "iff.nc_at nor_obj 256 m 0 = c" using t(1,2) nc_back[OF c(1)] by simp_all
  then show ?thesis using s c(2) unfolding iff.flash_ok_def by auto
qed

text \<open>The erasure of the main sector completes and its programming is interrupted before the first byte.\<close>

theorem nv_flash_power_failure_witness:
  "\<exists>d d'. iff.flash_ok nor_obj nor_cy 256 d \<and> tfm_plat_init_nv_counter_flash 256 (ifx_cmsis_driver_flash nor_obj nor_cy)
       (left_by (tfm_plat_set_nv_counter_flash 256 (cut_drv (iff.torn_sector nor_obj (replicate 256 0xFF)) (ifx_cmsis_driver_flash nor_obj nor_cy)) 1 9 (Some 3, d))) = (Inr (), d')
     \<and> iff.flash_val nor_obj 256 d' 1 = max (iff.flash_val nor_obj 256 d 1) 9"
proof -
  obtain d where d: "iff.flash_ok nor_obj nor_cy 256 d" using pc_flash by blast
  have nv: "\<not> ifx_flash_counters_valid (bytes_nc 256 (replicate 256 0xFF))"
    by (simp add: ifx_flash_counters_valid_def bytes_nc_def rd_def de32_def IFX_NV_COUNTERS_INITIALIZED_def)
  have "replicate 256 0xFF \<noteq> rd (ifx_img nor_obj d) 0 256" using nv d by (auto simp: iff.flash_ok_def iff.nc_at_def)
  then show ?thesis using nv_flash_power_failure[OF d, of 1 9 "replicate 256 0xFF" 3] nv d by (auto simp: IFX_NUM_NV_COUNTERS_def)
qed

text \<open>
  C25. The counters in flash are monotonic: no sequence of reads, updates, increments and resets makes a counter
  smaller, and the sector stays valid.
\<close>
theorem nv_counters_never_decrease:
  assumes "iff.flash_ok obj cy sector d" "list_all (nv_op_ok (IFX_NUM_NV_COUNTERS sector)) as"
  shows "iff.flash_ok obj cy sector (fold (nvf.nv_run sector obj cy) as d) \<and> iff.flash_val obj sector d c \<le> iff.flash_val obj sector (fold (nvf.nv_run sector obj cy) as d) c"
  by (rule nvf.nv_run_monotone[OF assms])

theorem nv_counters_never_decrease_witness:
  "\<exists>d. iff.flash_ok nor_obj nor_cy 256 d
     \<and> iff.flash_val nor_obj 256 d 2 \<le> iff.flash_val nor_obj 256 (fold (nvf.nv_run 256 nor_obj nor_cy) [NV_Increment 2, NV_Set 2 1, NV_Reset, NV_Read 0] d) 2"
proof -
  obtain d where d: "iff.flash_ok nor_obj nor_cy 256 d" using pc_flash by blast
  have "list_all (nv_op_ok (IFX_NUM_NV_COUNTERS 256)) [NV_Increment 2, NV_Set 2 1, NV_Reset, NV_Read 0]" by (simp add: IFX_NUM_NV_COUNTERS_def)
  from nv_counters_never_decrease[OF d this, of 2] d show ?thesis by blast
qed

section \<open>The platform partition\<close>

text \<open>
  C12. The platform partition keeps the counters apart: a message that asks for an increment and is answered with
  success adds one to the counter that its input vector names, which is a counter of Protected Storage and the
  client is that partition, or a non-secure counter and the client is non-secure, and no other counter changes.
  No other message and no other answer changes a counter. That includes identifiers that wrap around when the base
  of the non-secure counters is added.
\<close>
theorem platform_counter_access:
  assumes "ifr.rram_ok obj cy nvenv (pl_nv s)" "3 \<le> PLAT_NV_COUNTER_NS_0 base" "PLAT_NV_COUNTER_NS_0 base + 3 \<le> PLAT_NV_COUNTER_MAX nvenv"
    and "tfm_platform_service_sfn (rram_platform nvenv obj cy base) m s = Some (st, t)"
  shows "ifr.rram_ok obj cy nvenv (pl_nv t)
    \<and> (if msg_type m = TFM_PLATFORM_API_ID_NV_INCREMENT \<and> st = Inr TFM_PLATFORM_ERR_SUCCESS
       then \<exists>bs r k. plat_psa_read base 0 4 (pl_req s) = Some (bs, r)
         \<and> k = (if client_id m < 0 then add32 (de32 bs) (PLAT_NV_COUNTER_NS_0 base) else de32 bs)
         \<and> (k < 3 \<and> client_id m = PS_CLIENT_ID base \<or> PLAT_NV_COUNTER_NS_0 base \<le> k \<and> k < PLAT_NV_COUNTER_NS_0 base + 3 \<and> client_id m < 0)
         \<and> ifr.rram_val obj nvenv (pl_nv t) = (ifr.rram_val obj nvenv (pl_nv s))(k := ifr.rram_val obj nvenv (pl_nv s) k + 1)
       else ifr.rram_val obj nvenv (pl_nv t) = ifr.rram_val obj nvenv (pl_nv s))"
proof -
  let ?env = "rram_platform nvenv obj cy base"
  have b: "PLAT_NV_COUNTER_NS_0 ?env = PLAT_NV_COUNTER_NS_0 base" "PS_CLIENT_ID ?env = PS_CLIENT_ID base" "plat_psa_read ?env = plat_psa_read base"
    by (simp_all add: rram_platform_def)
  have "ptr.counters_after nvenv obj cy base m s st t" by (rule ptr.service_counters) (use assms b in simp_all)
  moreover have "k = (if client < 0 then add32 n (PLAT_NV_COUNTER_NS_0 base) else n)" if "counter_of ?env client n = Some k" for client n k
    using that by (auto simp: counter_of_def Let_def b split: if_splits)
  ultimately show ?thesis using counter_of_Some[of ?env] assms(2) unfolding ptr.counters_after_def b by metis
qed

definition pc_base :: "(flash_mem, unit, its_call) platform_env" where
  "pc_base = \<lparr>plat_init = (\<lambda>n. (Inl TFM_PLAT_ERR_UNSUPPORTED, n)), plat_read = (\<lambda>_ _ n. (Inl TFM_PLAT_ERR_UNSUPPORTED, n)),
     plat_increment = (\<lambda>_ n. (Inl TFM_PLAT_ERR_UNSUPPORTED, n)), ifx_call_platform_uart_log = (\<lambda>_ h. (TFM_PLATFORM_ERR_SUCCESS, h)),
     ifx_call_platform_system_reset = id, Cy_SecureServices = None, ifx_platform_hal_ioctl = None, plat_psa_read = call_read, plat_psa_write = call_write,
     PS_CLIENT_ID = 260, PLAT_NV_COUNTER_NS_0 = 3, INPUT_BUFFER_SIZE = 64, OUTPUT_BUFFER_SIZE = 64\<rparr>"

definition pc_req :: its_call where
  "pc_req = \<lparr>call_in = call_vec [le32 (SIZE_MAX_P1 - 3)], call_out = (\<lambda>_. []), call_room = call_len []\<rparr>"

text \<open>A non-secure client asks for the counter whose identifier wraps around to the first one of Protected Storage.\<close>

theorem platform_counter_access_witness:
  "\<exists>d t. ifr.rram_ok pc_obj pc_cy pc_env d
     \<and> tfm_platform_service_sfn (rram_platform pc_env pc_obj pc_cy pc_base) (call_msg (- 1) TFM_PLATFORM_API_ID_NV_INCREMENT [le32 (SIZE_MAX_P1 - 3)] [])
         \<lparr>pl_nv = d, pl_hw = (), pl_req = pc_req\<rparr> = Some (Inr TFM_PLATFORM_ERR_SYSTEM_ERROR, t)
     \<and> ifr.rram_val pc_obj pc_env (pl_nv t) = (\<lambda>_. 0)"
proof -
  let ?m = "call_msg (- 1) TFM_PLATFORM_API_ID_NV_INCREMENT [le32 (SIZE_MAX_P1 - 3)] []"
  obtain d where d: "ifr.rram_ok pc_obj pc_cy pc_env d" "ifr.rram_val pc_obj pc_env d = (\<lambda>_. 0)" using pc_start by blast
  let ?s = "\<lparr>pl_nv = d, pl_hw = (), pl_req = pc_req\<rparr>"
  have z: "vec_count (in_size ?m) 4 = 1" "vec_count (out_size ?m) 4 = 0" "unat (in_size ?m ! 0) = 4"
    by (simp_all add: vec_count_4 call_msg_nth call_vec_def call_len_def)
  have a: "de32 (le32 (SIZE_MAX_P1 - 3)) = SIZE_MAX_P1 - 3" by (rule de32_le32) simp
  have w: "add32 (SIZE_MAX_P1 - 3) 3 = 0" by (simp add: add32_def)
  obtain t where t: "tfm_platform_service_sfn (rram_platform pc_env pc_obj pc_cy pc_base) ?m ?s = Some (Inr TFM_PLATFORM_ERR_SYSTEM_ERROR, t)"
    using z a w by (simp add: tfm_platform_service_sfn_def platform_ids platform_sp_nv_increment_psa_api_def NV_COUNTER_ID_SIZE_def rram_platform_def pc_base_def
        call_read_def pc_req_def call_vec_def nv_counter_permissions_check_def)
  from platform_counter_access[OF _ _ _ t] d t show ?thesis by (auto simp: pc_base_def pc_env_def)
qed

text \<open>
  C38. The log request reads its input vector without a check: when a client, which may be a non-secure one,
  passes only the request number, the pointer to the input is null and the access faults.
\<close>
theorem platform_log_request_faults:
  "tfm_platform_ioctl env client (word_of_int IFX_PLATFORM_IOCTL_LOG_MSG) None None s = None"
proof -
  have z: "vec_count (in_size (call_msg client ty [le32 0] [])) 4 = 1" "vec_count (out_size (call_msg client ty [le32 0] [])) 4 = 0" for ty
    by (simp_all add: vec_count_4 call_msg_nth call_vec_def call_len_def)
  have "de32 (le32 0) = 0" by (rule de32_le32) simp
  then show ?thesis using z
    by (simp add: tfm_platform_ioctl_def psa_call_platform_def tfm_platform_service_sfn_def platform_ids platform_sp_ioctl_psa_api_def tfm_platform_hal_ioctl_def
        IFX_PLATFORM_IOCTL_LOG_MSG_def call_read_def call_vec_def)
qed

section \<open>The checksum\<close>

text \<open>
  C39. The checksum without tables is polynomial division: both variants, a byte and a 16-bit word at a time, shift
  the message bit by bit into the remainder modulo the polynomial, a word as its two bytes, high byte first.
\<close>
theorem ifx_se_crc32_divides:
  "ifx_se_crc32d6a bs init = foldl (\<lambda>P b. (crc_bit ^^ 8) (P XOR push_bit 24 (ucast b))) init bs
   \<and> ifx_se_crc32d6b ws init = ifx_se_crc32d6a (concat (map crc_bytes_of ws)) init"
proof -
  have "ifx_se_crc32d6a_update = (\<lambda>P b. (crc_bit ^^ 8) (P XOR push_bit 24 (ucast b)))" by (simp add: fun_eq_iff update_a crc_byte_bits)
  moreover have "ifx_se_crc32d6b ws init = ifx_se_crc32d6a (concat (map crc_bytes_of ws)) init"
    by (induction ws arbitrary: init) (simp_all add: ifx_se_crc32d6b_def ifx_se_crc32d6a_def update_b_bytes)
  ultimately show ?thesis by (simp add: ifx_se_crc32d6a_def)
qed

end
