(* ===== verification/Mailbox_NS.thy ===== *)
theory Mailbox_NS
  imports SPM_State
begin

unbundle bit_operations_syntax

text \<open>
  The mailbox between the two cores (interface/include/multi_core/tfm_mailbox.h), and its non-secure side
  (tfm_ns_mailbox.h, tfm_ns_mailbox.c for an operating system without a mailbox thread). The queue has \<open>n\<close>
  slots (\<open>NUM_MAILBOX_QUEUE_SLOT\<close>); the status words have a bit per slot. Cache maintenance has no effect in
  this model. The parts of a routine between two locks are definitions of their own, so that the other core,
  interrupts and other tasks can run between them.
\<close>

section \<open>Messages and slots\<close>

datatype mailbox_status = MAILBOX_SUCCESS | MAILBOX_QUEUE_FULL | MAILBOX_INVAL_PARAMS | MAILBOX_NO_PERMS | MAILBOX_NO_PEND_EVENT
  | MAILBOX_CHAN_BUSY | MAILBOX_CALLBACK_REG_ERROR | MAILBOX_INIT_ERROR | MAILBOX_GENERIC_ERROR

definition MAILBOX_PSA_FRAMEWORK_VERSION :: u32 where "MAILBOX_PSA_FRAMEWORK_VERSION = 1"
definition MAILBOX_PSA_VERSION :: u32 where "MAILBOX_PSA_VERSION = 2"
definition MAILBOX_PSA_CONNECT :: u32 where "MAILBOX_PSA_CONNECT = 3"
definition MAILBOX_PSA_CALL :: u32 where "MAILBOX_PSA_CALL = 4"
definition MAILBOX_PSA_CLOSE :: u32 where "MAILBOX_PSA_CLOSE = 5"

lemmas mailbox_call_types = MAILBOX_PSA_FRAMEWORK_VERSION_def MAILBOX_PSA_VERSION_def MAILBOX_PSA_CONNECT_def
  MAILBOX_PSA_CALL_def MAILBOX_PSA_CLOSE_def

text \<open>
  The union of the parameters: its members begin with the handle or the service identifier, then comes the
  type or the version.
\<close>

record psa_client_params_t =
  cp_handle_sid :: u32
  cp_type_version :: u32
  cp_in_vec :: "(u32 \<times> u32) list"
  cp_in_len :: u32
  cp_out_vec :: "(u32 \<times> u32) list"
  cp_out_len :: u32

record mailbox_msg_t =
  mb_call_type :: u32
  mb_params :: psa_client_params_t
  mb_client_id :: int

record mailbox_reply_t =
  return_val :: psa_status_t
  out_vec_len :: "u32 list"

record mailbox_slot_t =
  slot_msg :: mailbox_msg_t
  slot_reply :: mailbox_reply_t

text \<open>The owner is the handle of a task, 0 for none.\<close>

record ns_mailbox_slot_t =
  slot_owner :: u32
  is_woken :: bool

text \<open>The first three fields are shared with the secure side.\<close>

record ns_mailbox_queue_t =
  pend_slots :: u32
  replied_slots :: u32
  mb_slots :: "mailbox_slot_t list"
  slots_ns :: "ns_mailbox_slot_t list"
  empty_slots :: u32

definition slot_bit :: "nat \<Rightarrow> u32" where "slot_bit idx = push_bit idx 1"

lemma bit_slot_bit [simp]: "bit (slot_bit j) i \<longleftrightarrow> i < 32 \<and> i = j"
  by (auto simp: slot_bit_def bit_exp_iff)

lemma and_slot_bit [simp]: "w AND slot_bit i = 0 \<longleftrightarrow> \<not> bit w i"
  using and_push_bit_1 [of w i] unfolding slot_bit_def by blast

section \<open>Flags\<close>

definition set_queue_slot_empty :: "nat \<Rightarrow> nat \<Rightarrow> ns_mailbox_queue_t \<Rightarrow> ns_mailbox_queue_t" where
  "set_queue_slot_empty n idx q = (if idx < n then q\<lparr>empty_slots := empty_slots q OR slot_bit idx\<rparr> else q)"

definition clear_queue_slot_empty :: "nat \<Rightarrow> nat \<Rightarrow> ns_mailbox_queue_t \<Rightarrow> ns_mailbox_queue_t" where
  "clear_queue_slot_empty n idx q = (if idx < n then q\<lparr>empty_slots := empty_slots q AND NOT (slot_bit idx)\<rparr> else q)"

definition set_queue_slot_pend :: "nat \<Rightarrow> nat \<Rightarrow> ns_mailbox_queue_t \<Rightarrow> ns_mailbox_queue_t" where
  "set_queue_slot_pend n idx q = (if idx < n then q\<lparr>pend_slots := pend_slots q OR slot_bit idx\<rparr> else q)"

definition clear_queue_slot_all_replied :: "ns_mailbox_queue_t \<Rightarrow> u32 \<times> ns_mailbox_queue_t" where
  "clear_queue_slot_all_replied q = (replied_slots q, q\<lparr>replied_slots := 0\<rparr>)"

definition set_queue_slot_woken :: "nat \<Rightarrow> nat \<Rightarrow> ns_mailbox_queue_t \<Rightarrow> ns_mailbox_queue_t" where
  "set_queue_slot_woken n idx q = (if idx < n then q\<lparr>slots_ns := (slots_ns q)[idx := (slots_ns q ! idx)\<lparr>is_woken := True\<rparr>]\<rparr> else q)"

definition is_queue_slot_woken :: "nat \<Rightarrow> nat \<Rightarrow> ns_mailbox_queue_t \<Rightarrow> bool" where
  "is_queue_slot_woken n idx q \<longleftrightarrow> idx < n \<and> is_woken (slots_ns q ! idx)"

definition clear_queue_slot_woken :: "nat \<Rightarrow> nat \<Rightarrow> ns_mailbox_queue_t \<Rightarrow> ns_mailbox_queue_t" where
  "clear_queue_slot_woken n idx q = (if idx < n then q\<lparr>slots_ns := (slots_ns q)[idx := (slots_ns q ! idx)\<lparr>is_woken := False\<rparr>]\<rparr> else q)"

definition set_msg_owner :: "nat \<Rightarrow> nat \<Rightarrow> u32 \<Rightarrow> ns_mailbox_queue_t \<Rightarrow> ns_mailbox_queue_t" where
  "set_msg_owner n idx owner q = (if idx < n then q\<lparr>slots_ns := (slots_ns q)[idx := (slots_ns q ! idx)\<lparr>slot_owner := owner\<rparr>]\<rparr> else q)"

section \<open>A client call\<close>

text \<open>The first empty slot, taken under the spin lock; \<open>n\<close> if there is none.\<close>

definition acquire_empty_slot :: "nat \<Rightarrow> ns_mailbox_queue_t \<Rightarrow> nat \<times> ns_mailbox_queue_t" where
  "acquire_empty_slot n q =
     (if empty_slots q = 0 then (n, q)
      else case find (\<lambda>idx. empty_slots q AND slot_bit idx \<noteq> 0) [0..<n] of
        None \<Rightarrow> (n, q)
      | Some idx \<Rightarrow> (idx, clear_queue_slot_empty n idx q))"

record ns_call =
  nc_call_type :: u32
  nc_params :: psa_client_params_t
  nc_client_id :: int
  nc_task :: u32
  nc_args :: bool   \<comment> \<open>neither \<open>params\<close> nor \<open>reply\<close> is \<open>NULL\<close>\<close>

definition call_message :: "ns_call \<Rightarrow> mailbox_msg_t" where
  "call_message c = \<lparr>mb_call_type = nc_call_type c, mb_params = nc_params c, mb_client_id = nc_client_id c\<rparr>"

definition mailbox_fill_slot :: "nat \<Rightarrow> ns_call \<Rightarrow> nat \<Rightarrow> ns_mailbox_queue_t \<Rightarrow> ns_mailbox_queue_t" where
  "mailbox_fill_slot n c idx q =
     set_msg_owner n idx (nc_task c) (q\<lparr>mb_slots := (mb_slots q)[idx := (mb_slots q ! idx)\<lparr>slot_msg := call_message c\<rparr>]\<rparr>)"

definition mailbox_tx_client_req :: "nat \<Rightarrow> ns_call \<Rightarrow> ns_mailbox_queue_t \<Rightarrow> (mailbox_status + nat) \<times> ns_mailbox_queue_t" where
  "mailbox_tx_client_req n c q =
     (case acquire_empty_slot n q of
        (idx, q) \<Rightarrow> if idx \<ge> n then (Inl MAILBOX_QUEUE_FULL, q)
                    else (Inr idx, set_queue_slot_pend n idx (mailbox_fill_slot n c idx q)))"

definition mailbox_wait_reply_signal :: "nat \<Rightarrow> nat \<Rightarrow> ns_mailbox_queue_t \<Rightarrow> bool \<times> ns_mailbox_queue_t" where
  "mailbox_wait_reply_signal n idx q =
     (if is_queue_slot_woken n idx q then (True, clear_queue_slot_woken n idx q) else (False, q))"

text \<open>The two parts of \<open>mailbox_rx_client_reply\<close>: the reply is copied, then the slot is given back.\<close>

definition mailbox_take_reply :: "nat \<Rightarrow> nat \<Rightarrow> ns_mailbox_queue_t \<Rightarrow> mailbox_reply_t \<times> ns_mailbox_queue_t" where
  "mailbox_take_reply n idx q = (slot_reply (mb_slots q ! idx), set_msg_owner n idx 0 q)"

definition mailbox_release_slot :: "nat \<Rightarrow> nat \<Rightarrow> ns_mailbox_queue_t \<Rightarrow> ns_mailbox_queue_t" where
  "mailbox_release_slot n idx q = set_queue_slot_empty n idx (clear_queue_slot_woken n idx q)"

definition mailbox_rx_client_reply :: "nat \<Rightarrow> nat \<Rightarrow> ns_mailbox_queue_t \<Rightarrow> mailbox_reply_t \<times> ns_mailbox_queue_t" where
  "mailbox_rx_client_reply n idx q = (case mailbox_take_reply n idx q of (reply, q) \<Rightarrow> (reply, mailbox_release_slot n idx q))"

text \<open>
  \<open>tfm_ns_mailbox_client_call\<close> as a program: the points between its atomic parts, and the part that follows. \<open>lock\<close>
  is the result of the operating system's lock at its acquisition and at its release. The loop of
  \<open>mailbox_wait_reply\<close> is at \<open>NS_Waiting\<close>.
\<close>

datatype ns_pc = NS_Idle | NS_Start | NS_Full | NS_Acquired nat | NS_Filled nat | NS_Waiting nat | NS_Replied nat
  | NS_Taken nat mailbox_reply_t | NS_Done "mailbox_status + mailbox_reply_t"

definition client_call_step :: "nat \<Rightarrow> ns_call \<Rightarrow> bool \<Rightarrow> ns_pc \<Rightarrow> ns_mailbox_queue_t \<Rightarrow> ns_pc \<times> ns_mailbox_queue_t" where
  "client_call_step n c lock pc q =
     (case pc of
        NS_Start \<Rightarrow>
          if \<not> nc_args c then (NS_Done (Inl MAILBOX_INVAL_PARAMS), q)
          else if \<not> lock then (NS_Done (Inl MAILBOX_QUEUE_FULL), q)
          else (case acquire_empty_slot n q of (idx, q) \<Rightarrow> (if idx \<ge> n then NS_Full else NS_Acquired idx, q))
      | NS_Full \<Rightarrow> (NS_Done (Inl (if lock then MAILBOX_QUEUE_FULL else MAILBOX_GENERIC_ERROR)), q)
      | NS_Acquired idx \<Rightarrow> (NS_Filled idx, mailbox_fill_slot n c idx q)
      | NS_Filled idx \<Rightarrow> (NS_Waiting idx, set_queue_slot_pend n idx q)
      | NS_Waiting idx \<Rightarrow> (case mailbox_wait_reply_signal n idx q of (is_replied, q) \<Rightarrow> (if is_replied then NS_Replied idx else NS_Waiting idx, q))
      | NS_Replied idx \<Rightarrow> (case mailbox_take_reply n idx q of (reply, q) \<Rightarrow> (NS_Taken idx reply, q))
      | NS_Taken idx reply \<Rightarrow> (NS_Done (if lock then Inr reply else Inl MAILBOX_GENERIC_ERROR), mailbox_release_slot n idx q)
      | NS_Idle \<Rightarrow> (NS_Idle, q)
      | NS_Done r \<Rightarrow> (NS_Done r, q))"

definition tfm_ns_mailbox_client_call :: "nat \<Rightarrow> ns_call \<Rightarrow> bool \<Rightarrow> ns_pc \<Rightarrow> ns_mailbox_queue_t option \<Rightarrow> ns_pc \<times> ns_mailbox_queue_t option" where
  "tfm_ns_mailbox_client_call n c lock pc mailbox_queue_ptr =
     (case mailbox_queue_ptr of
        None \<Rightarrow> (if pc = NS_Start then NS_Done (Inl MAILBOX_INIT_ERROR) else pc, None)
      | Some q \<Rightarrow> (case client_call_step n c lock pc q of (pc, q) \<Rightarrow> (pc, Some q)))"

section \<open>The interrupt\<close>

text \<open>
  The loop over the slots of the status word. An iteration names the task that is woken; the loop ends when no
  bit is left.
\<close>

definition wake_slot :: "nat \<Rightarrow> nat \<Rightarrow> u32 \<Rightarrow> ns_mailbox_queue_t \<Rightarrow> u32 option \<times> u32 \<times> ns_mailbox_queue_t" where
  "wake_slot n idx replied_status q =
     (if replied_status AND slot_bit idx = 0 then (None, replied_status, q)
      else
        let q = set_queue_slot_woken n idx q
        in (Some (slot_owner (slots_ns q ! idx)), replied_status AND NOT (slot_bit idx), q))"

fun wake_replied :: "nat \<Rightarrow> u32 \<Rightarrow> nat list \<Rightarrow> ns_mailbox_queue_t \<Rightarrow> u32 list \<times> ns_mailbox_queue_t" where
  "wake_replied n replied_status [] q = ([], q)"
| "wake_replied n replied_status (idx # is) q =
     (case wake_slot n idx replied_status q of
        (None, replied_status, q) \<Rightarrow> wake_replied n replied_status is q
      | (Some task, replied_status, q) \<Rightarrow>
          if replied_status = 0 then ([task], q)
          else case wake_replied n replied_status is q of (ts, q) \<Rightarrow> (task # ts, q))"

definition tfm_ns_mailbox_wake_reply_owner_isr :: "nat \<Rightarrow> ns_mailbox_queue_t option \<Rightarrow> (mailbox_status + u32 list) \<times> ns_mailbox_queue_t option" where
  "tfm_ns_mailbox_wake_reply_owner_isr n mailbox_queue_ptr =
     (case mailbox_queue_ptr of
        None \<Rightarrow> (Inl MAILBOX_INIT_ERROR, None)
      | Some q \<Rightarrow>
          (case clear_queue_slot_all_replied q of
             (replied_status, q) \<Rightarrow>
               if replied_status = 0 then (Inl MAILBOX_NO_PEND_EVENT, Some q)
               else case wake_replied n replied_status [0..<n] q of (ts, q) \<Rightarrow> (Inr ts, Some q)))"

section \<open>Initialisation\<close>

definition zero_params :: psa_client_params_t where
  "zero_params = \<lparr>cp_handle_sid = 0, cp_type_version = 0, cp_in_vec = replicate 4 (0, 0), cp_in_len = 0, cp_out_vec = replicate 4 (0, 0), cp_out_len = 0\<rparr>"

definition zero_message :: mailbox_msg_t where
  "zero_message = \<lparr>mb_call_type = 0, mb_params = zero_params, mb_client_id = 0\<rparr>"

definition zero_reply :: mailbox_reply_t where
  "zero_reply = \<lparr>return_val = 0, out_vec_len = replicate 4 0\<rparr>"

definition all_slots :: "nat \<Rightarrow> u32" where
  "all_slots n = (push_bit (n - 1) 1 - 1) + push_bit (n - 1) 1"

definition empty_queue :: "nat \<Rightarrow> ns_mailbox_queue_t" where
  "empty_queue n =
     \<lparr>pend_slots = 0, replied_slots = 0, mb_slots = replicate n \<lparr>slot_msg = zero_message, slot_reply = zero_reply\<rparr>,
      slots_ns = replicate n \<lparr>slot_owner = 0, is_woken = False\<rparr>, empty_slots = all_slots n\<rparr>"

text \<open>\<open>queue\<close> is whether the argument is not \<open>NULL\<close>; the results of the platform and of the operating system are arguments.\<close>

definition tfm_ns_mailbox_init :: "nat \<Rightarrow> bool \<Rightarrow> mailbox_status \<Rightarrow> mailbox_status \<Rightarrow> ns_mailbox_queue_t option \<Rightarrow> mailbox_status \<times> ns_mailbox_queue_t option" where
  "tfm_ns_mailbox_init n queue hal_init os_lock_init mailbox_queue_ptr =
     (if \<not> queue then (MAILBOX_INVAL_PARAMS, mailbox_queue_ptr)
      else (if hal_init \<noteq> MAILBOX_SUCCESS then hal_init else os_lock_init, Some (empty_queue n)))"

text \<open>The bits of the empty slots, written so that 32 slots do not overflow.\<close>

lemma bit_all_slots: "0 < n \<Longrightarrow> n \<le> 32 \<Longrightarrow> bit (all_slots n) i \<longleftrightarrow> i < n"
proof -
  assume n: "0 < n" "n \<le> 32"
  have "all_slots n = mask (n - 1) + push_bit (n - 1) 1" by (simp add: all_slots_def mask_eq_decr_exp push_bit_of_1)
  also have "\<dots> = mask (n - 1) OR push_bit (n - 1) 1"
    by (rule disjunctive_add) (auto simp: bit_mask_iff bit_exp_iff)
  also have "bit (\<dots>) i \<longleftrightarrow> i < n" using n by (auto simp: bit_or_iff bit_mask_iff bit_exp_iff)
  finally show ?thesis by simp
qed

section \<open>The client interface\<close>

text \<open>
  tfm_multi_core_psa_ns_api.c. \<open>call\<close> is \<open>tfm_ns_mailbox_client_call\<close> from start to end: the kind of the call, the
  parameters and the reply buffer give the status and the buffer; \<open>p0\<close> is what the local variable holds before
  it is filled.
\<close>

type_synonym ns_client_call = "u32 \<Rightarrow> psa_client_params_t \<Rightarrow> mailbox_reply_t \<Rightarrow> mailbox_status \<times> mailbox_reply_t"

definition PSA_INTER_CORE_COMM_ERR :: psa_status_t where "PSA_INTER_CORE_COMM_ERR = - (2 ^ 31) + 0xFF"

text \<open>The return value is set to \<open>MAILBOX_GENERIC_ERROR\<close>.\<close>

definition ns_reply0 :: mailbox_reply_t where
  "ns_reply0 = zero_reply\<lparr>return_val := - (2 ^ 31) + 8\<rparr>"

definition ns_psa_framework_version :: "ns_client_call \<Rightarrow> u32" where
  "ns_psa_framework_version call =
     (case call MAILBOX_PSA_FRAMEWORK_VERSION zero_params ns_reply0 of
        (ret, reply) \<Rightarrow> if ret \<noteq> MAILBOX_SUCCESS then 0 else word_of_int (return_val reply))"

definition ns_psa_version :: "ns_client_call \<Rightarrow> psa_client_params_t \<Rightarrow> u32 \<Rightarrow> u32" where
  "ns_psa_version call p0 rot_sid =
     (case call MAILBOX_PSA_VERSION (p0\<lparr>cp_handle_sid := rot_sid\<rparr>) ns_reply0 of
        (ret, reply) \<Rightarrow> if ret \<noteq> MAILBOX_SUCCESS then 0 else word_of_int (return_val reply))"

definition ns_psa_connect :: "ns_client_call \<Rightarrow> psa_client_params_t \<Rightarrow> u32 \<Rightarrow> u32 \<Rightarrow> u32" where
  "ns_psa_connect call p0 rot_sid version =
     (case call MAILBOX_PSA_CONNECT (p0\<lparr>cp_handle_sid := rot_sid, cp_type_version := version\<rparr>) ns_reply0 of
        (ret, reply) \<Rightarrow> if ret \<noteq> MAILBOX_SUCCESS then 0 else word_of_int (return_val reply))"

definition ns_call_params :: "psa_client_params_t \<Rightarrow> u32 \<Rightarrow> u32 \<Rightarrow> (u32 \<times> u32) list \<Rightarrow> (u32 \<times> u32) list \<Rightarrow> psa_client_params_t" where
  "ns_call_params p0 handle ty in_vec out_vec =
     p0\<lparr>cp_handle_sid := handle, cp_type_version := ty,
        cp_in_vec := in_vec @ drop (length in_vec) (cp_in_vec p0), cp_in_len := word_of_nat (length in_vec),
        cp_out_vec := out_vec @ drop (length out_vec) (cp_out_vec p0), cp_out_len := word_of_nat (length out_vec)\<rparr>"

definition ns_psa_call :: "ns_client_call \<Rightarrow> psa_client_params_t \<Rightarrow> u32 \<Rightarrow> u32 \<Rightarrow> (u32 \<times> u32) list \<Rightarrow> (u32 \<times> u32) list \<Rightarrow>
    psa_status_t \<times> (u32 \<times> u32) list" where
  "ns_psa_call call p0 handle ty in_vec out_vec =
     (if length in_vec > PSA_MAX_IOVEC \<or> length out_vec > PSA_MAX_IOVEC \<or> length in_vec + length out_vec > PSA_MAX_IOVEC
      then (psa_error_code PSA_ERROR_PROGRAMMER_ERROR, out_vec)
      else case call MAILBOX_PSA_CALL (ns_call_params p0 handle ty in_vec out_vec) ns_reply0 of
        (ret, reply) \<Rightarrow>
          (if ret \<noteq> MAILBOX_SUCCESS then PSA_INTER_CORE_COMM_ERR else return_val reply,
           map (\<lambda>i. (fst (out_vec ! i), out_vec_len reply ! i)) [0..<length out_vec]))"

definition ns_psa_close :: "ns_client_call \<Rightarrow> psa_client_params_t \<Rightarrow> u32 \<Rightarrow> mailbox_status \<times> mailbox_reply_t" where
  "ns_psa_close call p0 handle = call MAILBOX_PSA_CLOSE (p0\<lparr>cp_handle_sid := handle\<rparr>) ns_reply0"

end
