(* ===== verification/Mailbox_SPE.thy ===== *)
theory Mailbox_SPE
  imports Mailbox_NS SPM_IPC SPM_Service
begin

unbundle bit_operations_syntax

text \<open>
  The secure side of the mailbox (secure_fw/partitions/ns_agent_mailbox/tfm_spe_mailbox.c with the structures of
  platform/include/tfm_hal_mailbox.h) and the client identifiers of the other core
  (tfm_multi_core_client_id.c), for the IPC backend and connection-based services. \<open>None\<close> is a panic or an access
  outside an array. The calls of tfm_rpc.h are the argument \<open>rpc\<close>; \<open>Mailbox_RPC\<close> has those of the program.
\<close>

section \<open>Client identifiers\<close>

definition MAX_MAILBOX_NUMBER :: nat where "MAX_MAILBOX_NUMBER = 2"
definition CLIENT_ID_OWNER_MAGIC :: u32 where "CLIENT_ID_OWNER_MAGIC = 0xFFFFFFFF"

record client_id_region_t =
  cid_base :: int
  cid_limit :: int
  cid_owner :: u32

definition tfm_multi_core_register_client_id_range ::
  "u32 \<Rightarrow> int \<Rightarrow> int \<Rightarrow> client_id_region_t list \<Rightarrow> psa_status_t \<times> client_id_region_t list" where
  "tfm_multi_core_register_client_id_range owner client_id_base client_id_limit regions =
     (if owner = 0 then (SPM_ERROR_GENERIC, regions)
      else case find (\<lambda>i. cid_owner (regions ! i) = 0) [0..<MAX_MAILBOX_NUMBER] of
        None \<Rightarrow> (SPM_ERROR_GENERIC, regions)
      | Some i \<Rightarrow> (PSA_SUCCESS, regions[i := \<lparr>cid_base = client_id_base, cid_limit = client_id_limit, cid_owner = owner\<rparr>]))"

definition int32 :: "int \<Rightarrow> bool" where "int32 x \<longleftrightarrow> - (2 ^ 31) \<le> x \<and> x < 2 ^ 31"

text \<open>\<open>None\<close>: a sum leaves the range of \<open>int32_t\<close>. \<open>out\<close> is whether the pointer to the result is not \<open>NULL\<close>.\<close>

definition tfm_multi_core_hal_client_id_translate ::
  "u32 \<Rightarrow> int \<Rightarrow> bool \<Rightarrow> client_id_region_t list \<Rightarrow> (psa_status_t + int) option" where
  "tfm_multi_core_hal_client_id_translate owner client_id_in out regions =
     (if owner = 0 \<or> \<not> out then Some (Inl SPM_ERROR_GENERIC)
      else if client_id_in \<ge> 0 then Some (Inl SPM_ERROR_GENERIC)
      else case find (\<lambda>i. cid_owner (regions ! i) = owner) [0..<MAX_MAILBOX_NUMBER] of
        None \<Rightarrow> Some (Inl SPM_ERROR_GENERIC)
      | Some i \<Rightarrow>
          let base = cid_base (regions ! i); limit = cid_limit (regions ! i);
              min_client_id = -1 * (limit - base) - 1
          in if \<not> int32 (limit - base) \<or> \<not> int32 (-1 * (limit - base)) \<or> \<not> int32 min_client_id then None
             else if client_id_in < min_client_id then Some (Inl SPM_ERROR_GENERIC)
             else if \<not> int32 (limit + 1) \<or> \<not> int32 ((limit + 1) + client_id_in) then None
             else Some (Inr ((limit + 1) + client_id_in)))"

section \<open>State\<close>

record secure_mailbox_slot_t =
  spe_msg :: mailbox_msg_t
  ns_slot_idx :: nat
  spe_msg_handle :: u32

text \<open>The pointers to the non-secure status and slots are the field \<open>shm\<close> of the state below.\<close>

record secure_mailbox_queue_t =
  spe_empty_slots :: u32
  spe_queue :: "secure_mailbox_slot_t list"
  ns_slot_count :: nat

record vectors_t =
  v_in_vec :: "(u32 \<times> u32) list"
  v_out_vec :: "(u32 \<times> u32) list"
  v_out_len :: u32
  v_in_use :: bool

text \<open>The memory shared with the other core, the static data of the agent, and the state of the manager.\<close>

record 'q spe =
  shm :: ns_mailbox_queue_t
  spe_mailbox_queue :: secure_mailbox_queue_t
  mb_vectors :: "vectors_t list"
  client_id_regions :: "client_id_region_t list"
  spm :: 'q

definition upd_queue :: "(secure_mailbox_queue_t \<Rightarrow> secure_mailbox_queue_t) \<Rightarrow> 'q spe \<Rightarrow> 'q spe" where
  "upd_queue f s = s\<lparr>spe_mailbox_queue := f (spe_mailbox_queue s)\<rparr>"

definition upd_slot :: "nat \<Rightarrow> (secure_mailbox_slot_t \<Rightarrow> secure_mailbox_slot_t) \<Rightarrow> 'q spe \<Rightarrow> 'q spe" where
  "upd_slot idx f s = upd_queue (\<lambda>q. q\<lparr>spe_queue := (spe_queue q)[idx := f (spe_queue q ! idx)]\<rparr>) s"

lemma upd_simps [simp]:
  "shm (upd_queue f s) = shm s" "mb_vectors (upd_queue f s) = mb_vectors s"
  "client_id_regions (upd_queue f s) = client_id_regions s" "spm (upd_queue f s) = spm s"
  "spe_mailbox_queue (upd_queue f s) = f (spe_mailbox_queue s)"
  "shm (upd_slot i g s) = shm s" "mb_vectors (upd_slot i g s) = mb_vectors s"
  "client_id_regions (upd_slot i g s) = client_id_regions s" "spm (upd_slot i g s) = spm s"
  "spe_empty_slots (spe_mailbox_queue (upd_slot i g s)) = spe_empty_slots (spe_mailbox_queue s)"
  "ns_slot_count (spe_mailbox_queue (upd_slot i g s)) = ns_slot_count (spe_mailbox_queue s)"
  "spe_queue (spe_mailbox_queue (upd_slot i g s)) = (spe_queue (spe_mailbox_queue s))[i := g (spe_queue (spe_mailbox_queue s) ! i)]"
  by (simp_all add: upd_queue_def upd_slot_def)

section \<open>Flags and handles\<close>

definition set_spe_queue_empty_status :: "nat \<Rightarrow> nat \<Rightarrow> 'q spe \<Rightarrow> 'q spe" where
  "set_spe_queue_empty_status n idx s =
     (if idx < n then upd_queue (\<lambda>q. q\<lparr>spe_empty_slots := spe_empty_slots q OR slot_bit idx\<rparr>) s else s)"

definition clear_spe_queue_empty_status :: "nat \<Rightarrow> nat \<Rightarrow> 'q spe \<Rightarrow> 'q spe" where
  "clear_spe_queue_empty_status n idx s =
     (if idx < n then upd_queue (\<lambda>q. q\<lparr>spe_empty_slots := spe_empty_slots q AND NOT (slot_bit idx)\<rparr>) s else s)"

definition get_spe_queue_empty_status :: "nat \<Rightarrow> nat \<Rightarrow> 'q spe \<Rightarrow> bool" where
  "get_spe_queue_empty_status n idx s \<longleftrightarrow> idx < n \<and> spe_empty_slots (spe_mailbox_queue s) AND slot_bit idx \<noteq> 0"

definition get_nspe_queue_pend_status :: "ns_mailbox_queue_t \<Rightarrow> u32" where
  "get_nspe_queue_pend_status ns_status = pend_slots ns_status"

definition set_nspe_queue_replied_status :: "u32 \<Rightarrow> ns_mailbox_queue_t \<Rightarrow> ns_mailbox_queue_t" where
  "set_nspe_queue_replied_status slots q = q\<lparr>replied_slots := replied_slots q OR slots\<rparr>"

definition clear_nspe_queue_pend_status :: "u32 \<Rightarrow> ns_mailbox_queue_t \<Rightarrow> ns_mailbox_queue_t" where
  "clear_nspe_queue_pend_status slots q = q\<lparr>pend_slots := pend_slots q AND NOT slots\<rparr>"

definition get_spe_mailbox_msg_handle :: "nat \<Rightarrow> nat \<Rightarrow> mailbox_status + u32" where
  "get_spe_mailbox_msg_handle n idx = (if idx \<ge> n then Inl MAILBOX_INVAL_PARAMS else Inr (word_of_nat (idx + 1)))"

definition get_spe_mailbox_msg_idx :: "u32 \<Rightarrow> mailbox_status + nat" where
  "get_spe_mailbox_msg_idx handle =
     (if handle = 0 then Inl MAILBOX_INVAL_PARAMS else Inr (unat (ucast (handle - 1) :: 8 word)))"

section \<open>Replies\<close>

definition zero_spe_slot :: secure_mailbox_slot_t where
  "zero_spe_slot = \<lparr>spe_msg = zero_message, ns_slot_idx = 0, spe_msg_handle = 0\<rparr>"

definition mailbox_clean_queue_slot :: "nat \<Rightarrow> nat \<Rightarrow> 'q spe \<Rightarrow> 'q spe" where
  "mailbox_clean_queue_slot n idx s =
     (if idx \<ge> n then s else set_spe_queue_empty_status n idx (upd_slot idx (\<lambda>_. zero_spe_slot) s))"

text \<open>The index of the non-secure slot whose reply is written.\<close>

definition get_nspe_reply_addr :: "nat \<Rightarrow> nat \<Rightarrow> 'q spe \<Rightarrow> nat option" where
  "get_nspe_reply_addr n idx s =
     (if idx \<ge> n then None
      else let i = ns_slot_idx (spe_queue (spe_mailbox_queue s) ! idx)
           in if i \<ge> n \<or> i \<ge> ns_slot_count (spe_mailbox_queue s) then None else Some i)"

definition write_reply :: "nat \<Rightarrow> mailbox_reply_t \<Rightarrow> ns_mailbox_queue_t \<Rightarrow> ns_mailbox_queue_t" where
  "write_reply i r q = q\<lparr>mb_slots := (mb_slots q)[i := (mb_slots q ! i)\<lparr>slot_reply := r\<rparr>]\<rparr>"

definition mailbox_direct_reply :: "nat \<Rightarrow> nat \<Rightarrow> psa_status_t \<Rightarrow> 'q spe \<Rightarrow> 'q spe option" where
  "mailbox_direct_reply n idx result s =
     (case get_nspe_reply_addr n idx s of
        None \<Rightarrow> None
      | Some i \<Rightarrow>
          let old = slot_reply (mb_slots (shm s) ! i);
              v = mb_vectors s ! idx;
              r = (if v_in_use v then \<lparr>return_val = result, out_vec_len = map snd (v_out_vec v)\<rparr> else old\<lparr>return_val := result\<rparr>)
          in Some (mailbox_clean_queue_slot n idx
               (s\<lparr>shm := write_reply i r (shm s), mb_vectors := (mb_vectors s)[idx := v\<lparr>v_in_use := False\<rparr>]\<rparr>)))"

definition check_mailbox_msg :: "mailbox_msg_t \<Rightarrow> mailbox_status" where
  "check_mailbox_msg m = MAILBOX_SUCCESS"

section \<open>Requests\<close>

definition PARAM_SET_NS_INVEC :: "u32 \<Rightarrow> u32" where "PARAM_SET_NS_INVEC c = c OR push_bit 27 1"
definition PARAM_SET_NS_OUTVEC :: "u32 \<Rightarrow> u32" where "PARAM_SET_NS_OUTVEC c = c OR push_bit 19 1"

definition pad_vec :: "nat \<Rightarrow> (u32 \<times> u32) list \<Rightarrow> (u32 \<times> u32) list" where
  "pad_vec len v = map (\<lambda>i. if i < len then v ! i else (0, 0)) [0..<PSA_MAX_IOVEC]"

definition local_copy_vects :: "psa_client_params_t \<Rightarrow> nat \<Rightarrow> u32 \<Rightarrow> 'q spe \<Rightarrow> (mailbox_status + u32) \<times> 'q spe" where
  "local_copy_vects params idx control s =
     (let in_len = cp_in_len params; out_len = cp_out_len params in
      if unat in_len > PSA_MAX_IOVEC \<or> unat out_len > PSA_MAX_IOVEC \<or> unat (in_len + out_len) > PSA_MAX_IOVEC
      then (Inl MAILBOX_INVAL_PARAMS, s)
      else (Inr (PARAM_SET_NS_OUTVEC (PARAM_SET_NS_INVEC control)),
            s\<lparr>mb_vectors := (mb_vectors s)[idx :=
                \<lparr>v_in_vec = pad_vec (unat in_len) (cp_in_vec params), v_out_vec = pad_vec (unat out_len) (cp_out_vec params),
                 v_out_len = out_len, v_in_use = True\<rparr>]\<rparr>))"

text \<open>
  The requests to the manager (tfm_rpc.h). A call carries the client identifier and the local vectors of its
  \<open>struct client_params_t\<close>; a call and a connection carry the index of the slot whose handle is the client data.
\<close>

datatype rpc_req = RPC_Framework_Version | RPC_Version u32
  | RPC_Call u32 u32 int "(u32 \<times> u32) list" "(u32 \<times> u32) list" nat
  | RPC_Connect u32 u32 int nat
  | RPC_Close u32 int

type_synonym 'q rpc = "rpc_req \<Rightarrow> 'q \<Rightarrow> (psa_status_t \<times> 'q) option"

definition call_rpc :: "'q rpc \<Rightarrow> rpc_req \<Rightarrow> 'q spe \<Rightarrow> (psa_status_t \<times> 'q spe) option" where
  "call_rpc rpc r s = map_option (\<lambda>(st, q). (st, s\<lparr>spm := q\<rparr>)) (rpc r (spm s))"

text \<open>The client identifier of a message, or the error status of the synchronous reply.\<close>

definition with_client_id :: "mailbox_msg_t \<Rightarrow> 'q spe \<Rightarrow> (int \<Rightarrow> rpc_req) \<Rightarrow> 'q rpc \<Rightarrow> (bool \<times> psa_status_t \<times> 'q spe) option" where
  "with_client_id m s req rpc =
     (case tfm_multi_core_hal_client_id_translate CLIENT_ID_OWNER_MAGIC (mb_client_id m) True (client_id_regions s) of
        None \<Rightarrow> None
      | Some (Inl e) \<Rightarrow> Some (True, psa_error_code PSA_ERROR_INVALID_ARGUMENT, s)
      | Some (Inr cid) \<Rightarrow>
          (case call_rpc rpc (req cid) s of None \<Rightarrow> None | Some (psa_ret, s) \<Rightarrow> Some (psa_ret \<noteq> PSA_SUCCESS, psa_ret, s)))"

text \<open>The \<open>switch\<close>: whether the reply is synchronous, and its status; \<open>Inl\<close> for an unknown call.\<close>

definition dispatch_call :: "'q rpc \<Rightarrow> mailbox_msg_t \<Rightarrow> nat \<Rightarrow> 'q spe \<Rightarrow> (mailbox_status + bool \<times> psa_status_t \<times> 'q spe) option" where
  "dispatch_call rpc m idx s =
     (let params = mb_params m;
          control = PARAM_PACK (sint (cp_type_version params)) (unat (cp_in_len params)) (unat (cp_out_len params))
      in if mb_call_type m = MAILBOX_PSA_FRAMEWORK_VERSION then
           (case call_rpc rpc RPC_Framework_Version s of None \<Rightarrow> None | Some (r, s) \<Rightarrow> Some (Inr (True, r, s)))
         else if mb_call_type m = MAILBOX_PSA_VERSION then
           (case call_rpc rpc (RPC_Version (cp_handle_sid params)) s of None \<Rightarrow> None | Some (r, s) \<Rightarrow> Some (Inr (True, r, s)))
         else if mb_call_type m = MAILBOX_PSA_CALL then
           (case local_copy_vects params idx control s of
              (Inl e, s) \<Rightarrow> Some (Inr (True, psa_error_code PSA_ERROR_INVALID_ARGUMENT, s))
            | (Inr control, s) \<Rightarrow>
                map_option Inr (with_client_id m s
                  (\<lambda>client_id. RPC_Call (cp_handle_sid params) control client_id
                     (v_in_vec (mb_vectors s ! idx)) (v_out_vec (mb_vectors s ! idx)) idx) rpc))
         else if mb_call_type m = MAILBOX_PSA_CONNECT then
           map_option Inr (with_client_id m s (\<lambda>client_id. RPC_Connect (cp_handle_sid params) (cp_type_version params) client_id idx) rpc)
         else if mb_call_type m = MAILBOX_PSA_CLOSE then
           map_option Inr (with_client_id m s (\<lambda>client_id. RPC_Close (cp_handle_sid params) client_id) rpc)
         else Some (Inl MAILBOX_INVAL_PARAMS))"

definition tfm_mailbox_dispatch :: "nat \<Rightarrow> 'q rpc \<Rightarrow> mailbox_msg_t \<Rightarrow> nat \<Rightarrow> u32 \<Rightarrow> 'q spe \<Rightarrow> (mailbox_status \<times> u32 \<times> 'q spe) option" where
  "tfm_mailbox_dispatch n rpc m idx reply_slots s =
     (case dispatch_call rpc m idx s of
        None \<Rightarrow> None
      | Some (Inl e) \<Rightarrow> Some (e, reply_slots, s)
      | Some (Inr (sync, psa_ret, s)) \<Rightarrow>
          if sync then
            (case mailbox_direct_reply n idx psa_ret s of
               None \<Rightarrow> None | Some s \<Rightarrow> Some (MAILBOX_SUCCESS, reply_slots OR slot_bit idx, s))
          else Some (MAILBOX_SUCCESS, reply_slots, s))"

section \<open>The handler of messages\<close>

definition received_msg :: "bool \<Rightarrow> mailbox_msg_t \<Rightarrow> mailbox_msg_t" where
  "received_msg manage_nsid m = (if manage_nsid then m else m\<lparr>mb_client_id := -1\<rparr>)"

text \<open>
  An iteration of the loop. \<open>manage_nsid\<close> is the option \<open>TFM_NS_MANAGE_NSID\<close>. The slots of the secure queue are
  indexed by the count of the other core, and there are \<open>n\<close> of them.
\<close>

definition open_slot :: "nat \<Rightarrow> bool \<Rightarrow> nat \<Rightarrow> 'q spe \<Rightarrow> 'q spe" where
  "open_slot n manage_nsid idx s =
     upd_slot idx (\<lambda>_. \<lparr>spe_msg = received_msg manage_nsid (slot_msg (mb_slots (shm s) ! idx)), ns_slot_idx = idx,
                       spe_msg_handle = word_of_nat (idx + 1)\<rparr>) (clear_spe_queue_empty_status n idx s)"

definition handle_slot :: "nat \<Rightarrow> bool \<Rightarrow> 'q rpc \<Rightarrow> u32 \<Rightarrow> nat \<Rightarrow> u32 \<Rightarrow> 'q spe \<Rightarrow> (u32 \<times> 'q spe) option" where
  "handle_slot n manage_nsid rpc pend idx reply_slots s =
     (if pend AND slot_bit idx = 0 then Some (reply_slots, s)
      else if idx \<ge> n then None
      else
        let s = open_slot n manage_nsid idx s;
            m = spe_msg (spe_queue (spe_mailbox_queue s) ! idx)
        in if check_mailbox_msg m \<noteq> MAILBOX_SUCCESS then Some (reply_slots, mailbox_clean_queue_slot n idx s)
           else case tfm_mailbox_dispatch n rpc m idx reply_slots s of
             None \<Rightarrow> None
           | Some (st, reply_slots, s) \<Rightarrow>
               Some (reply_slots, if st \<noteq> MAILBOX_SUCCESS then mailbox_clean_queue_slot n idx s else s))"

fun handle_slots :: "nat \<Rightarrow> bool \<Rightarrow> 'q rpc \<Rightarrow> u32 \<Rightarrow> nat list \<Rightarrow> u32 \<Rightarrow> 'q spe \<Rightarrow> (u32 \<times> 'q spe) option" where
  "handle_slots n manage_nsid rpc pend [] reply_slots s = Some (reply_slots, s)"
| "handle_slots n manage_nsid rpc pend (idx # is) reply_slots s =
     (case handle_slot n manage_nsid rpc pend idx reply_slots s of
        None \<Rightarrow> None | Some (reply_slots, s) \<Rightarrow> handle_slots n manage_nsid rpc pend is reply_slots s)"

text \<open>The last critical section.\<close>

definition handle_msg_end :: "u32 \<Rightarrow> u32 \<Rightarrow> 'q spe \<Rightarrow> 'q spe" where
  "handle_msg_end pend reply_slots s =
     s\<lparr>shm := set_nspe_queue_replied_status reply_slots (clear_nspe_queue_pend_status pend (shm s))\<rparr>"

text \<open>The second component of the result is whether the other core is notified.\<close>

definition tfm_mailbox_handle_msg :: "nat \<Rightarrow> bool \<Rightarrow> 'q rpc \<Rightarrow> 'q spe \<Rightarrow> (mailbox_status \<times> bool \<times> 'q spe) option" where
  "tfm_mailbox_handle_msg n manage_nsid rpc s =
     (let pend = get_nspe_queue_pend_status (shm s) in
      if pend = 0 then Some (MAILBOX_NO_PEND_EVENT, False, s)
      else case handle_slots n manage_nsid rpc pend [0..<ns_slot_count (spe_mailbox_queue s)] 0 s of
        None \<Rightarrow> None
      | Some (reply_slots, s) \<Rightarrow> Some (MAILBOX_SUCCESS, reply_slots \<noteq> 0, handle_msg_end pend reply_slots s))"

text \<open>
  A reply has two parts: the reply is written to the slot, without a critical section, and then the status of the
  slot is set in one. Interrupts and the tasks of the other core may run between them.
\<close>

definition reply_begin :: "nat \<Rightarrow> u32 \<Rightarrow> psa_status_t \<Rightarrow> 'q spe \<Rightarrow> (mailbox_status + nat \<times> 'q spe) option" where
  "reply_begin n handle reply s =
     (case (if handle = 0 then Inr 0 else get_spe_mailbox_msg_idx handle) of
        Inl e \<Rightarrow> Some (Inl e)
      | Inr idx \<Rightarrow>
          if get_spe_queue_empty_status n idx s then Some (Inl MAILBOX_NO_PEND_EVENT)
          else map_option (\<lambda>s. Inr (idx, s)) (mailbox_direct_reply n idx reply s))"

definition reply_end :: "nat \<Rightarrow> 'q spe \<Rightarrow> 'q spe" where
  "reply_end idx s = s\<lparr>shm := set_nspe_queue_replied_status (slot_bit idx) (shm s)\<rparr>"

definition tfm_mailbox_reply_msg :: "nat \<Rightarrow> u32 \<Rightarrow> psa_status_t \<Rightarrow> 'q spe \<Rightarrow> (mailbox_status \<times> bool \<times> 'q spe) option" where
  "tfm_mailbox_reply_msg n handle reply s =
     (case reply_begin n handle reply s of
        None \<Rightarrow> None
      | Some (Inl e) \<Rightarrow> Some (e, False, s)
      | Some (Inr (idx, s)) \<Rightarrow> Some (MAILBOX_SUCCESS, True, reply_end idx s))"

section \<open>Initialisation\<close>

text \<open>
  \<open>tfm_mailbox_hal_init\<close> of the platform (infineon/common/spe/services/mailbox/platform_spe_mailbox.c): the count of slots
  that the other core sends is checked, and its memory is accessible to the non-secure side (\<open>ok\<close>).
\<close>

definition tfm_mailbox_hal_init :: "nat \<Rightarrow> (bool \<times> bool \<times> bool) \<Rightarrow> u32 \<Rightarrow> secure_mailbox_queue_t \<Rightarrow> (mailbox_status \<times> secure_mailbox_queue_t) option" where
  "tfm_mailbox_hal_init n ok slot_count q =
     (if \<not> fst ok then None
      else if slot_count = 0 \<or> unat slot_count > n then Some (MAILBOX_INIT_ERROR, q)
      else if \<not> fst (snd ok) then None
      else if \<not> snd (snd ok) then None
      else Some (MAILBOX_SUCCESS, q\<lparr>ns_slot_count := unat slot_count\<rparr>))"

end
