(* ===== verification/Mailbox_Frame.thy ===== *)
theory Mailbox_Frame
  imports Mailbox_SPE
begin

unbundle bit_operations_syntax

text \<open>
  What the secure side changes of the mailbox: a reply and the handling of a message touch one slot, and the
  handling ends in one of three ways (\<open>handle_slot_cases\<close>).
\<close>

section \<open>Only one slot changes\<close>

definition only_slot :: "nat \<Rightarrow> 'q spe \<Rightarrow> 'q spe \<Rightarrow> bool" where
  "only_slot idx a b \<longleftrightarrow>
     pend_slots (shm b) = pend_slots (shm a) \<and> replied_slots (shm b) = replied_slots (shm a) \<and>
     slots_ns (shm b) = slots_ns (shm a) \<and> empty_slots (shm b) = empty_slots (shm a) \<and>
     length (mb_slots (shm b)) = length (mb_slots (shm a)) \<and> length (mb_vectors b) = length (mb_vectors a) \<and>
     map slot_msg (mb_slots (shm b)) = map slot_msg (mb_slots (shm a)) \<and>
     (\<forall>j. j \<noteq> idx \<longrightarrow> mb_slots (shm b) ! j = mb_slots (shm a) ! j) \<and>
     length (spe_queue (spe_mailbox_queue b)) = length (spe_queue (spe_mailbox_queue a)) \<and>
     ns_slot_count (spe_mailbox_queue b) = ns_slot_count (spe_mailbox_queue a) \<and> client_id_regions b = client_id_regions a \<and>
     (\<forall>j. j \<noteq> idx \<longrightarrow> spe_queue (spe_mailbox_queue b) ! j = spe_queue (spe_mailbox_queue a) ! j \<and>
                     bit (spe_empty_slots (spe_mailbox_queue b)) j = bit (spe_empty_slots (spe_mailbox_queue a)) j)"

lemma only_slot_refl [simp]: "only_slot idx a a"
  by (simp add: only_slot_def)

lemma only_slot_trans: "only_slot idx a b \<Longrightarrow> only_slot idx b c \<Longrightarrow> only_slot idx a c"
  by (simp add: only_slot_def)

lemma bit_or_slot [simp]: "bit (w OR slot_bit i) j \<longleftrightarrow> bit w j \<or> (j < 32 \<and> j = i)"
  by (simp add: bit_or_iff)

lemma bit_and_not_slot [simp]: "bit (w AND NOT (slot_bit i)) j \<longleftrightarrow> bit w j \<and> j \<noteq> i"
  by (auto simp: bit_and_iff bit_not_iff dest: bit_imp_le_length)

lemma only_slot_clean [simp]: "only_slot idx s (mailbox_clean_queue_slot n idx s)"
  by (simp add: only_slot_def mailbox_clean_queue_slot_def set_spe_queue_empty_status_def)

lemma only_slot_open [simp]: "only_slot idx s (open_slot n m idx s)"
  by (simp add: only_slot_def open_slot_def clear_spe_queue_empty_status_def)

lemma only_slot_spm [simp]: "only_slot idx a (s\<lparr>spm := q\<rparr>) \<longleftrightarrow> only_slot idx a s"
  by (simp add: only_slot_def)

lemma only_slot_vectors [simp]:
  "length v = length (mb_vectors s) \<Longrightarrow> only_slot idx a (s\<lparr>mb_vectors := v\<rparr>) \<longleftrightarrow> only_slot idx a s"
  by (simp add: only_slot_def)

section \<open>Replies\<close>

lemma write_reply_simps [simp]:
  "pend_slots (write_reply i r q) = pend_slots q" "replied_slots (write_reply i r q) = replied_slots q"
  "slots_ns (write_reply i r q) = slots_ns q" "empty_slots (write_reply i r q) = empty_slots q"
  "length (mb_slots (write_reply i r q)) = length (mb_slots q)"
  "j \<noteq> i \<Longrightarrow> mb_slots (write_reply i r q) ! j = mb_slots q ! j"
  "map slot_msg (mb_slots (write_reply i r q)) = map slot_msg (mb_slots q)"
  by (simp_all add: write_reply_def map_update list_update_same_conv)
     (metis list_update_beyond list_update_id map_update not_le_imp_less nth_map length_map)

lemma mailbox_direct_reply_slot:
  assumes "mailbox_direct_reply n idx r s = Some t" "ns_slot_idx (spe_queue (spe_mailbox_queue s) ! idx) = idx" "n \<le> 32"
  shows "idx < n \<and> only_slot idx s t \<and> bit (spe_empty_slots (spe_mailbox_queue t)) idx"
  using assms
  by (auto simp: mailbox_direct_reply_def get_nspe_reply_addr_def Let_def only_slot_def mailbox_clean_queue_slot_def
        set_spe_queue_empty_status_def split: if_splits)

lemma mailbox_direct_reply_total:
  "idx < n \<Longrightarrow> ns_slot_idx (spe_queue (spe_mailbox_queue s) ! idx) = idx \<Longrightarrow> idx < ns_slot_count (spe_mailbox_queue s) \<Longrightarrow>
   \<exists>t. mailbox_direct_reply n idx r s = Some t"
  by (simp add: mailbox_direct_reply_def get_nspe_reply_addr_def Let_def)

section \<open>The handling of a message\<close>

definition known_call :: "mailbox_msg_t \<Rightarrow> bool" where
  "known_call m \<longleftrightarrow> mb_call_type m \<in> {MAILBOX_PSA_FRAMEWORK_VERSION, MAILBOX_PSA_VERSION, MAILBOX_PSA_CONNECT, MAILBOX_PSA_CALL, MAILBOX_PSA_CLOSE}"

lemma known_received [simp]: "known_call (received_msg manage m) = known_call m"
  by (simp add: known_call_def received_msg_def)

lemma with_client_id_frame: "with_client_id m s req rpc = Some (b, r, t) \<Longrightarrow> \<exists>q. t = s\<lparr>spm := q\<rparr>"
  by (auto simp: with_client_id_def call_rpc_def split: option.splits sum.splits intro: exI [of _ "spm s"])

lemma local_copy_vects_frame:
  "local_copy_vects p idx control s = (r, t) \<Longrightarrow> \<exists>v. t = s\<lparr>mb_vectors := v\<rparr> \<and> length v = length (mb_vectors s)"
  by (auto simp: local_copy_vects_def Let_def split: if_splits intro: exI [of _ "mb_vectors s"])

lemma dispatch_call_Inl: "dispatch_call rpc m idx s = Some (Inl e) \<longleftrightarrow> \<not> known_call m \<and> e = MAILBOX_INVAL_PARAMS"
  by (auto simp: dispatch_call_def known_call_def Let_def split: if_splits option.splits prod.splits sum.splits)

lemma dispatch_call_frame:
  assumes d: "dispatch_call rpc m idx s = Some (Inr (b, r, t))"
  shows "only_slot j s t \<and> spe_mailbox_queue t = spe_mailbox_queue s \<and> shm t = shm s"
proof (cases "mb_call_type m = MAILBOX_PSA_CALL")
  case True
  obtain r' s' where l: "local_copy_vects (mb_params m) idx
      (PARAM_PACK (sint (cp_type_version (mb_params m))) (unat (cp_in_len (mb_params m))) (unat (cp_out_len (mb_params m)))) s = (r', s')"
    by fastforce
  obtain v where v: "s' = s\<lparr>mb_vectors := v\<rparr>" "length v = length (mb_vectors s)" using local_copy_vects_frame [OF l] by blast
  have "\<exists>q. t = s'\<lparr>spm := q\<rparr>"
    using d True l by (auto simp: dispatch_call_def Let_def mailbox_call_types split: sum.splits dest: with_client_id_frame intro: exI [of _ "spm s'"])
  then show ?thesis using v by auto
next
  case False
  have "\<exists>q. t = s\<lparr>spm := q\<rparr>"
    using d False by (auto simp: dispatch_call_def Let_def call_rpc_def split: if_splits option.splits dest: with_client_id_frame)
  then show ?thesis by auto
qed

text \<open>A message is answered at once, is being served, or is dropped because its call is unknown.\<close>

lemma handle_slot_cases:
  assumes h: "handle_slot n manage rpc pend idx rs a = Some (rs', b)" and p: "bit pend idx" and n: "n \<le> 32"
    and l: "length (spe_queue (spe_mailbox_queue a)) = n"
  shows "idx < n" "only_slot idx a b"
    "rs' = rs OR slot_bit idx \<and> bit (spe_empty_slots (spe_mailbox_queue b)) idx \<and> known_call (slot_msg (mb_slots (shm a) ! idx)) \<or>
     rs' = rs \<and> \<not> bit (spe_empty_slots (spe_mailbox_queue b)) idx \<and>
       spe_msg (spe_queue (spe_mailbox_queue b) ! idx) = received_msg manage (slot_msg (mb_slots (shm a) ! idx)) \<and>
       ns_slot_idx (spe_queue (spe_mailbox_queue b) ! idx) = idx \<and>
       spe_msg_handle (spe_queue (spe_mailbox_queue b) ! idx) = word_of_nat (idx + 1) \<and> known_call (slot_msg (mb_slots (shm a) ! idx)) \<or>
     rs' = rs \<and> bit (spe_empty_slots (spe_mailbox_queue b)) idx \<and> \<not> known_call (slot_msg (mb_slots (shm a) ! idx))"
proof -
  define m where "m = received_msg manage (slot_msg (mb_slots (shm a) ! idx))"
  define o' where "o' = open_slot n manage idx a"
  show i: "idx < n" using h p by (auto simp: handle_slot_def split: if_splits)
  have q: "spe_queue (spe_mailbox_queue o') ! idx = \<lparr>spe_msg = m, ns_slot_idx = idx, spe_msg_handle = word_of_nat (idx + 1)\<rparr>"
    "\<not> bit (spe_empty_slots (spe_mailbox_queue o')) idx"
    using i l by (simp_all add: o'_def open_slot_def clear_spe_queue_empty_status_def m_def)
  have oo: "only_slot idx a o'" by (simp add: o'_def)
  obtain st c where d: "tfm_mailbox_dispatch n rpc m idx rs o' = Some (st, rs', c)"
    "b = (if st \<noteq> MAILBOX_SUCCESS then mailbox_clean_queue_slot n idx c else c)"
    using h p i q(1) by (auto simp: handle_slot_def Let_def check_mailbox_msg_def o'_def split: option.splits)
  have k: "known_call m \<longleftrightarrow> known_call (slot_msg (mb_slots (shm a) ! idx))" by (simp add: m_def)
  consider e where "dispatch_call rpc m idx o' = Some (Inl e)" | y r c' where "dispatch_call rpc m idx o' = Some (Inr (y, r, c'))"
    using d(1) by (auto simp: tfm_mailbox_dispatch_def split: option.splits sum.splits)
  then have "only_slot idx a b \<and> (rs' = rs OR slot_bit idx \<and> bit (spe_empty_slots (spe_mailbox_queue b)) idx \<and> known_call m \<or>
     rs' = rs \<and> \<not> bit (spe_empty_slots (spe_mailbox_queue b)) idx \<and> spe_msg (spe_queue (spe_mailbox_queue b) ! idx) = m \<and>
       ns_slot_idx (spe_queue (spe_mailbox_queue b) ! idx) = idx \<and>
       spe_msg_handle (spe_queue (spe_mailbox_queue b) ! idx) = word_of_nat (idx + 1) \<and> known_call m \<or>
     rs' = rs \<and> bit (spe_empty_slots (spe_mailbox_queue b)) idx \<and> \<not> known_call m)"
  proof cases
    case (1 e)
    then have "b = mailbox_clean_queue_slot n idx o'" "rs' = rs" "\<not> known_call m"
      using d dispatch_call_Inl [of rpc m idx o' e] by (auto simp: tfm_mailbox_dispatch_def)
    then show ?thesis using oo only_slot_trans [OF oo only_slot_clean [of idx o' n]] i n
      by (simp add: mailbox_clean_queue_slot_def set_spe_queue_empty_status_def)
  next
    case (2 y r c')
    have f: "only_slot idx o' c'" "spe_mailbox_queue c' = spe_mailbox_queue o'" using dispatch_call_frame [OF 2] by auto
    have kn: "known_call m" using 2 dispatch_call_Inl [of rpc m idx o'] by fastforce
    show ?thesis
    proof (cases y)
      case True
      then have c: "mailbox_direct_reply n idx r c' = Some b" "rs' = rs OR slot_bit idx"
        using d 2 by (auto simp: tfm_mailbox_dispatch_def split: option.splits)
      have "only_slot idx c' b \<and> bit (spe_empty_slots (spe_mailbox_queue b)) idx"
        using mailbox_direct_reply_slot [OF c(1) _ n] q(1) f(2) by simp
      then show ?thesis using only_slot_trans [OF oo only_slot_trans [OF f(1)]] c(2) kn by blast
    next
      case False
      then have "b = c'" "rs' = rs" using d 2 by (auto simp: tfm_mailbox_dispatch_def)
      then show ?thesis using only_slot_trans [OF oo f(1)] q f(2) kn by simp
    qed
  qed
  then show "only_slot idx a b"
    "rs' = rs OR slot_bit idx \<and> bit (spe_empty_slots (spe_mailbox_queue b)) idx \<and> known_call (slot_msg (mb_slots (shm a) ! idx)) \<or>
     rs' = rs \<and> \<not> bit (spe_empty_slots (spe_mailbox_queue b)) idx \<and>
       spe_msg (spe_queue (spe_mailbox_queue b) ! idx) = received_msg manage (slot_msg (mb_slots (shm a) ! idx)) \<and>
       ns_slot_idx (spe_queue (spe_mailbox_queue b) ! idx) = idx \<and>
       spe_msg_handle (spe_queue (spe_mailbox_queue b) ! idx) = word_of_nat (idx + 1) \<and> known_call (slot_msg (mb_slots (shm a) ! idx)) \<or>
     rs' = rs \<and> bit (spe_empty_slots (spe_mailbox_queue b)) idx \<and> \<not> known_call (slot_msg (mb_slots (shm a) ! idx))"
    by (auto simp: k m_def)
qed

section \<open>The reply to a message\<close>

definition reply_idx :: "u32 \<Rightarrow> nat" where
  "reply_idx handle = (if handle = 0 then 0 else unat (ucast (handle - 1) :: 8 word))"

lemma reply_begin_cases:
  assumes r: "reply_begin n handle ret a = Some x" and n: "n \<le> 32" and i: "idx = reply_idx handle"
    and q: "\<And>j. j < n \<Longrightarrow> \<not> bit (spe_empty_slots (spe_mailbox_queue a)) j \<Longrightarrow> ns_slot_idx (spe_queue (spe_mailbox_queue a) ! j) = j"
  obtains "x = Inl MAILBOX_NO_PEND_EVENT" "bit (spe_empty_slots (spe_mailbox_queue a)) idx"
  | c where "x = Inr (idx, c)" "idx < n" "\<not> bit (spe_empty_slots (spe_mailbox_queue a)) idx" "only_slot idx a c"
      "bit (spe_empty_slots (spe_mailbox_queue c)) idx"
proof (cases "get_spe_queue_empty_status n idx a")
  case True
  then have "x = Inl MAILBOX_NO_PEND_EVENT" "bit (spe_empty_slots (spe_mailbox_queue a)) idx"
    using r by (auto simp: reply_begin_def get_spe_mailbox_msg_idx_def get_spe_queue_empty_status_def i reply_idx_def split: if_splits)
  then show ?thesis using that by blast
next
  case False
  then obtain c where d: "mailbox_direct_reply n idx ret a = Some c" "x = Inr (idx, c)"
    using r by (auto simp: reply_begin_def get_spe_mailbox_msg_idx_def i reply_idx_def split: if_splits)
  have l: "idx < n" using d(1) by (auto simp: mailbox_direct_reply_def get_nspe_reply_addr_def split: if_splits option.splits)
  then have e: "\<not> bit (spe_empty_slots (spe_mailbox_queue a)) idx" using False by (simp add: get_spe_queue_empty_status_def)
  then show ?thesis using that(2) [of c] d l mailbox_direct_reply_slot [OF d(1) q [OF l e] n] by blast
qed

text \<open>The slot of a message that is being served takes any reply.\<close>

lemma reply_begin_total:
  assumes "idx < n" "n \<le> 32" "ns_slot_idx (spe_queue (spe_mailbox_queue s) ! idx) = idx" "idx < ns_slot_count (spe_mailbox_queue s)"
    and "\<not> bit (spe_empty_slots (spe_mailbox_queue s)) idx" "reply_idx handle = idx"
  shows "\<exists>a. reply_begin n handle ret s = Some (Inr (idx, a))"
  using mailbox_direct_reply_total [OF assms(1,3,4), of ret] assms(1,5,6)
  by (auto simp: reply_begin_def get_spe_mailbox_msg_idx_def reply_idx_def get_spe_queue_empty_status_def split: if_splits)

text \<open>The handle of a slot leads back to it.\<close>

lemma reply_idx_handle: "idx < n \<Longrightarrow> n \<le> 32 \<Longrightarrow> reply_idx (word_of_nat (idx + 1)) = idx"
proof -
  assume i: "idx < n" "n \<le> 32"
  have u: "unat (word_of_nat (idx + 1) :: u32) = idx + 1" using i by (simp add: unsigned_of_nat take_bit_nat_eq_self del: of_nat_add of_nat_Suc)
  then have "word_of_nat (idx + 1) \<noteq> (0 :: u32)" by (metis add_is_0 one_neq_zero unat_0)
  moreover have "(word_of_nat (idx + 1) - 1 :: u32) = word_of_nat idx" by simp
  moreover have "unat (word_of_nat idx :: 8 word) = idx" using i by (simp add: unsigned_of_nat take_bit_nat_eq_self)
  ultimately show ?thesis using i by (simp add: reply_idx_def unsigned_of_nat take_bit_nat_eq_self)
qed

end
