(* ===== verification/Mailbox_Protocol.thy ===== *)
theory Mailbox_Protocol
  imports Mailbox_Frame
begin

unbundle bit_operations_syntax

text \<open>
  The mailbox as a whole: any number of non-secure tasks that make client calls, the interrupt on the non-secure
  core, the handler of messages and the replies of the secure agent, interleaved between their atomic parts.

  Two ghosts follow a request. \<open>out\<close> has the messages that the manager has accepted and not yet answered, each with the
  slot whose handle it was given as client data; a close gives none. \<open>ans\<close> has, per slot, the replies that were
  written since the slot was taken, each with the message it answers.

  The option \<open>routed\<close> says which replies the manager sends. With it no task closes a connection, and a reply is for a message
  of \<open>out\<close> and carries the handle that the slot of this message then holds (\<open>rpc_call_owner\<close>, \<open>rpc_connect_owner\<close> and
  \<open>mailbox_reply_owner\<close> in \<open>Mailbox_Guard\<close>). Without it a reply has any
  handle at any time, as the replies to a close may (\<open>Mailbox_Guard.rpc_close_client_data\<close>), and is for any message.
\<close>

section \<open>Steps\<close>

datatype handler_pc = H_Idle | H_Loop u32 nat u32   \<comment> \<open>\<open>pend_slots\<close>, \<open>idx\<close>, \<open>reply_slots\<close>\<close>
  | H_Reply nat                                     \<comment> \<open>\<open>idx\<close>: the reply is written, the status is not yet set\<close>
datatype isr_pc = I_Idle | I_Loop u32 nat           \<comment> \<open>\<open>replied_status\<close>, \<open>idx\<close>\<close>

type_synonym answer = "mailbox_msg_t \<times> mailbox_reply_t"

record 'q mbox =
  agent :: "'q spe"
  hpc :: handler_pc
  ipc :: isr_pc
  task :: "nat \<Rightarrow> ns_call \<times> ns_pc"
  out :: "(mailbox_msg_t \<times> nat) list"
  ans :: "nat \<Rightarrow> answer list"

definition add_answer :: "nat \<Rightarrow> answer \<Rightarrow> 'q mbox \<Rightarrow> 'q mbox" where
  "add_answer idx x s = s\<lparr>ans := (ans s)(idx := ans s idx @ [x])\<rparr>"

definition upd_shm :: "ns_mailbox_queue_t \<Rightarrow> 'q mbox \<Rightarrow> 'q mbox" where
  "upd_shm q s = s\<lparr>agent := (agent s)\<lparr>shm := q\<rparr>\<rparr>"

text \<open>The message of a slot goes to the manager: the slot is not empty after its iteration.\<close>

definition handed_over :: "u32 \<Rightarrow> nat \<Rightarrow> mailbox_msg_t \<Rightarrow> 'q spe \<Rightarrow> (mailbox_msg_t \<times> nat) list" where
  "handed_over pend idx m a =
     (if bit pend idx \<and> \<not> bit (spe_empty_slots (spe_mailbox_queue a)) idx \<and> mb_call_type m \<noteq> MAILBOX_PSA_CLOSE then [(m, idx)] else [])"

definition handler_answer :: "bool \<Rightarrow> nat \<Rightarrow> u32 \<Rightarrow> 'q spe \<Rightarrow> 'q mbox \<Rightarrow> nat \<Rightarrow> answer list" where
  "handler_answer manage i rs' a s =
     (if bit rs' i then (ans s)(i := ans s i @ [(received_msg manage (slot_msg (mb_slots (shm (agent s)) ! i)), slot_reply (mb_slots (shm a) ! i))])
      else ans s)"

inductive mb_step :: "nat \<Rightarrow> bool \<Rightarrow> bool \<Rightarrow> 'q rpc \<Rightarrow> 'q mbox \<Rightarrow> 'q mbox \<Rightarrow> bool" for n manage routed rpc where
  call: "snd (task s t) = NS_Idle \<or> (\<exists>r. snd (task s t) = NS_Done r) \<Longrightarrow> routed \<longrightarrow> nc_call_type c \<noteq> MAILBOX_PSA_CLOSE \<Longrightarrow>
     mb_step n manage routed rpc s (s\<lparr>task := (task s)(t := (c, NS_Start))\<rparr>)"
| client: "task s t = (c, pc) \<Longrightarrow> client_call_step n c lock pc (shm (agent s)) = (pc', q) \<Longrightarrow>
     mb_step n manage routed rpc s (upd_shm q (s\<lparr>task := (task s)(t := (c, pc')),
       ans := (case (pc, pc') of (NS_Start, NS_Acquired idx) \<Rightarrow> (ans s)(idx := []) | _ \<Rightarrow> ans s)\<rparr>))"
| handler_begin: "hpc s = H_Idle \<Longrightarrow> get_nspe_queue_pend_status (shm (agent s)) \<noteq> 0 \<Longrightarrow>
     mb_step n manage routed rpc s (s\<lparr>hpc := H_Loop (get_nspe_queue_pend_status (shm (agent s))) 0 0\<rparr>)"
| handler_slot: "hpc s = H_Loop pend idx rs \<Longrightarrow> idx < ns_slot_count (spe_mailbox_queue (agent s)) \<Longrightarrow>
     handle_slot n manage rpc pend idx rs (agent s) = Some (rs', a) \<Longrightarrow>
     mb_step n manage routed rpc s (s\<lparr>agent := a, hpc := H_Loop pend (idx + 1) rs',
       out := out s @ handed_over pend idx (received_msg manage (slot_msg (mb_slots (shm (agent s)) ! idx))) a,
       ans := handler_answer manage idx rs' a s\<rparr>)"
| handler_end: "hpc s = H_Loop pend idx rs \<Longrightarrow> idx = ns_slot_count (spe_mailbox_queue (agent s)) \<Longrightarrow>
     mb_step n manage routed rpc s (s\<lparr>agent := handle_msg_end pend rs (agent s), hpc := H_Idle\<rparr>)"
| manager: "length v = length (mb_vectors (agent s)) \<Longrightarrow>
     mb_step n manage routed rpc s (s\<lparr>agent := (agent s)\<lparr>spm := x, mb_vectors := v\<rparr>\<rparr>)"
| reply_write: "hpc s = H_Idle \<Longrightarrow>
     routed \<longrightarrow> (m, k) \<in> set (out s) \<and> handle = spe_msg_handle (spe_queue (spe_mailbox_queue (agent s)) ! k) \<Longrightarrow>
     reply_begin n handle ret (agent s) = Some (Inr (idx, a)) \<Longrightarrow>
     mb_step n manage routed rpc s (add_answer idx (m, slot_reply (mb_slots (shm a) ! idx))
       (s\<lparr>agent := a, hpc := H_Reply idx, out := remove1 (m, k) (out s)\<rparr>))"
| reply_none: "hpc s = H_Idle \<Longrightarrow>
     routed \<longrightarrow> (m, k) \<in> set (out s) \<and> handle = spe_msg_handle (spe_queue (spe_mailbox_queue (agent s)) ! k) \<Longrightarrow>
     reply_begin n handle ret (agent s) = Some (Inl e) \<Longrightarrow>
     mb_step n manage routed rpc s (s\<lparr>out := remove1 (m, k) (out s)\<rparr>)"
| reply_publish: "hpc s = H_Reply idx \<Longrightarrow> mb_step n manage routed rpc s (s\<lparr>agent := reply_end idx (agent s), hpc := H_Idle\<rparr>)"
| isr_begin: "ipc s = I_Idle \<Longrightarrow> clear_queue_slot_all_replied (shm (agent s)) = (rs, q) \<Longrightarrow> rs \<noteq> 0 \<Longrightarrow>
     mb_step n manage routed rpc s (upd_shm q (s\<lparr>ipc := I_Loop rs 0\<rparr>))"
| isr_slot: "ipc s = I_Loop rs idx \<Longrightarrow> idx < n \<Longrightarrow> wake_slot n idx rs (shm (agent s)) = (w, rs', q) \<Longrightarrow>
     mb_step n manage routed rpc s (upd_shm q (s\<lparr>ipc := (if w \<noteq> None \<and> rs' = 0 then I_Idle else I_Loop rs' (idx + 1))\<rparr>))"
| isr_end: "ipc s = I_Loop rs n \<Longrightarrow> mb_step n manage routed rpc s (s\<lparr>ipc := I_Idle\<rparr>)"

text \<open>After the initialisation of both sides, with the count of slots that the non-secure side sends.\<close>

definition mb_init :: "nat \<Rightarrow> 'q mbox \<Rightarrow> bool" where
  "mb_init n s \<longleftrightarrow>
     shm (agent s) = empty_queue n \<and> spe_empty_slots (spe_mailbox_queue (agent s)) = all_slots n \<and>
     length (spe_queue (spe_mailbox_queue (agent s))) = n \<and> ns_slot_count (spe_mailbox_queue (agent s)) = n \<and>
     length (mb_vectors (agent s)) = n \<and> hpc s = H_Idle \<and> ipc s = I_Idle \<and> (\<forall>t. snd (task s t) = NS_Idle) \<and> out s = []"

inductive mb_reach :: "nat \<Rightarrow> bool \<Rightarrow> bool \<Rightarrow> 'q rpc \<Rightarrow> 'q mbox \<Rightarrow> bool" for n manage routed rpc where
  init: "mb_init n s \<Longrightarrow> mb_reach n manage routed rpc s"
| step: "mb_reach n manage routed rpc s \<Longrightarrow> mb_step n manage routed rpc s s' \<Longrightarrow> mb_reach n manage routed rpc s'"

section \<open>A slot\<close>

fun pc_slot :: "ns_pc \<Rightarrow> nat option" where
  "pc_slot (NS_Acquired i) = Some i" | "pc_slot (NS_Filled i) = Some i" | "pc_slot (NS_Waiting i) = Some i"
| "pc_slot (NS_Replied i) = Some i" | "pc_slot (NS_Taken i r) = Some i" | "pc_slot _ = None"

text \<open>What the components know of a slot: the tasks that hold it, its flags, its contents.\<close>

record view =
  v_hold :: "nat \<rightharpoonup> ns_call \<times> ns_pc"
  v_empty :: bool
  v_pend :: bool
  v_todo :: bool
  v_done :: bool
  v_sync :: bool
  v_wrote :: bool
  v_repl :: bool
  v_isr :: bool
  v_woken :: bool
  v_idle :: bool
  v_msg :: mailbox_msg_t
  v_smsg :: mailbox_msg_t
  v_idx :: nat
  v_handle :: u32
  v_reply :: mailbox_reply_t
  v_owner :: u32
  v_ans :: "answer list"
  v_out :: "mailbox_msg_t list"
  v_routed :: bool

definition holders :: "(nat \<Rightarrow> ns_call \<times> ns_pc) \<Rightarrow> nat \<Rightarrow> nat \<rightharpoonup> ns_call \<times> ns_pc" where
  "holders f idx t = (if pc_slot (snd (f t)) = Some idx then Some (f t) else None)"

fun h_todo :: "handler_pc \<Rightarrow> nat \<Rightarrow> bool" where
  "h_todo (H_Loop p i r) idx \<longleftrightarrow> bit p idx \<and> i \<le> idx" | "h_todo _ idx \<longleftrightarrow> False"

fun h_done :: "handler_pc \<Rightarrow> nat \<Rightarrow> bool" where
  "h_done (H_Loop p i r) idx \<longleftrightarrow> bit p idx \<and> idx < i" | "h_done _ idx \<longleftrightarrow> False"

fun h_sync :: "handler_pc \<Rightarrow> nat \<Rightarrow> bool" where
  "h_sync (H_Loop p i r) idx \<longleftrightarrow> bit r idx" | "h_sync _ idx \<longleftrightarrow> False"

definition out_of :: "(mailbox_msg_t \<times> nat) list \<Rightarrow> nat \<Rightarrow> mailbox_msg_t list" where
  "out_of xs idx = map fst (filter (\<lambda>x. snd x = idx) xs)"

definition view_of :: "bool \<Rightarrow> 'q mbox \<Rightarrow> nat \<Rightarrow> view" where
  "view_of routed s idx =
     (let q = shm (agent s); sq = spe_mailbox_queue (agent s) in
      \<lparr>v_hold = holders (task s) idx,
       v_empty = bit (empty_slots q) idx,
       v_pend = bit (pend_slots q) idx,
       v_todo = h_todo (hpc s) idx,
       v_done = h_done (hpc s) idx,
       v_sync = h_sync (hpc s) idx,
       v_wrote = (hpc s = H_Reply idx),
       v_repl = bit (replied_slots q) idx,
       v_isr = (case ipc s of I_Idle \<Rightarrow> False | I_Loop r i \<Rightarrow> bit r idx \<and> i \<le> idx),
       v_woken = is_woken (slots_ns q ! idx),
       v_idle = bit (spe_empty_slots sq) idx,
       v_msg = slot_msg (mb_slots q ! idx),
       v_smsg = spe_msg (spe_queue sq ! idx),
       v_idx = ns_slot_idx (spe_queue sq ! idx),
       v_handle = spe_msg_handle (spe_queue sq ! idx),
       v_reply = slot_reply (mb_slots q ! idx),
       v_owner = slot_owner (slots_ns q ! idx),
       v_ans = ans s idx,
       v_out = (if routed then out_of (out s) idx else []),
       v_routed = routed\<rparr>)"

text \<open>No component but the holder has business with the slot.\<close>

definition v_quiet :: "view \<Rightarrow> bool" where
  "v_quiet v \<longleftrightarrow> \<not> v_pend v \<and> \<not> v_todo v \<and> \<not> v_done v \<and> \<not> v_sync v \<and> \<not> v_wrote v \<and> \<not> v_repl v \<and> \<not> v_isr v \<and> \<not> v_woken v \<and>
     v_idle v \<and> v_out v = []"

text \<open>The phases of a request: to be read, being served, answered, dropped.\<close>

definition v_request :: "ns_call \<Rightarrow> view \<Rightarrow> bool" where
  "v_request c v \<longleftrightarrow> v_pend v \<and> \<not> v_done v \<and> \<not> v_sync v \<and> \<not> v_wrote v \<and> \<not> v_repl v \<and> \<not> v_isr v \<and> \<not> v_woken v \<and> v_idle v \<and>
     v_msg v = call_message c \<and> v_ans v = [] \<and> v_out v = []"

definition v_served :: "bool \<Rightarrow> nat \<Rightarrow> ns_call \<Rightarrow> view \<Rightarrow> bool" where
  "v_served manage idx c v \<longleftrightarrow> v_pend v = v_done v \<and> \<not> v_todo v \<and> \<not> v_sync v \<and> \<not> v_wrote v \<and> \<not> v_repl v \<and> \<not> v_isr v \<and> \<not> v_woken v \<and>
     \<not> v_idle v \<and> known_call (call_message c) \<and> v_smsg v = received_msg manage (call_message c) \<and> v_idx v = idx \<and>
     v_handle v = word_of_nat (idx + 1) \<and> v_ans v = [] \<and> v_out v = (if v_routed v then [received_msg manage (call_message c)] else [])"

text \<open>The reply \<open>r\<close> is the only answer, and with \<open>routed\<close> it is to the message of the call.\<close>

definition v_own :: "bool \<Rightarrow> ns_call \<Rightarrow> mailbox_reply_t \<Rightarrow> view \<Rightarrow> bool" where
  "v_own manage c r v \<longleftrightarrow> (\<exists>m. v_ans v = [(m, r)] \<and> (v_routed v \<longrightarrow> m = received_msg manage (call_message c)))"

definition v_answered :: "bool \<Rightarrow> ns_call \<Rightarrow> view \<Rightarrow> bool" where
  "v_answered manage c v \<longleftrightarrow> v_pend v = v_done v \<and> v_done v = v_sync v \<and> \<not> v_todo v \<and> v_idle v \<and> known_call (call_message c) \<and>
     v_own manage c (v_reply v) v \<and> v_out v = [] \<and>
     (v_sync v \<and> \<not> v_wrote v \<and> \<not> v_repl v \<and> \<not> v_isr v \<and> \<not> v_woken v \<or>
      \<not> v_sync v \<and> v_wrote v \<and> \<not> v_repl v \<and> \<not> v_isr v \<and> \<not> v_woken v \<or>
      \<not> v_sync v \<and> \<not> v_wrote v \<and> v_repl v \<and> \<not> v_isr v \<and> \<not> v_woken v \<or>
      \<not> v_sync v \<and> \<not> v_wrote v \<and> \<not> v_repl v \<and> v_isr v \<and> \<not> v_woken v \<or>
      \<not> v_sync v \<and> \<not> v_wrote v \<and> \<not> v_repl v \<and> \<not> v_isr v \<and> v_woken v)"

definition v_dropped :: "ns_call \<Rightarrow> view \<Rightarrow> bool" where
  "v_dropped c v \<longleftrightarrow> v_pend v = v_done v \<and> \<not> v_todo v \<and> \<not> v_sync v \<and> \<not> v_wrote v \<and> \<not> v_repl v \<and> \<not> v_isr v \<and> \<not> v_woken v \<and> v_idle v \<and>
     \<not> known_call (call_message c) \<and> v_ans v = [] \<and> v_out v = []"

definition v_held :: "bool \<Rightarrow> nat \<Rightarrow> ns_call \<Rightarrow> ns_pc \<Rightarrow> view \<Rightarrow> bool" where
  "v_held manage idx c pc v \<longleftrightarrow>
     (case pc of
        NS_Acquired _ \<Rightarrow> v_quiet v \<and> v_ans v = []
      | NS_Filled _ \<Rightarrow> v_quiet v \<and> v_ans v = [] \<and> v_msg v = call_message c \<and> v_owner v = nc_task c
      | NS_Waiting _ \<Rightarrow> v_owner v = nc_task c \<and> (v_request c v \<or> v_served manage idx c v \<or> v_answered manage c v \<or> v_dropped c v)
      | NS_Replied _ \<Rightarrow> v_quiet v \<and> v_own manage c (v_reply v) v
      | NS_Taken _ r \<Rightarrow> v_quiet v \<and> v_own manage c r v
      | _ \<Rightarrow> False)"

definition slot_inv :: "bool \<Rightarrow> nat \<Rightarrow> view \<Rightarrow> bool" where
  "slot_inv manage idx v \<longleftrightarrow>
     v_hold v = Map.empty \<and> v_empty v \<and> v_quiet v \<or>
     (\<exists>t c pc. v_hold v = [t \<mapsto> (c, pc)] \<and> pc_slot pc = Some idx \<and> \<not> v_empty v \<and> v_held manage idx c pc v)"

text \<open>A task makes no close, and the messages with the manager belong to slots.\<close>

definition no_close :: "bool \<Rightarrow> ns_call \<times> ns_pc \<Rightarrow> bool" where
  "no_close routed x \<longleftrightarrow> (routed \<and> snd x \<noteq> NS_Idle \<and> (\<forall>r. snd x \<noteq> NS_Done r) \<longrightarrow> nc_call_type (fst x) \<noteq> MAILBOX_PSA_CLOSE)"

definition mb_inv :: "nat \<Rightarrow> bool \<Rightarrow> bool \<Rightarrow> 'q mbox \<Rightarrow> bool" where
  "mb_inv n manage routed s \<longleftrightarrow>
     length (mb_slots (shm (agent s))) = n \<and> length (slots_ns (shm (agent s))) = n \<and>
     length (spe_queue (spe_mailbox_queue (agent s))) = n \<and> ns_slot_count (spe_mailbox_queue (agent s)) = n \<and>
     length (mb_vectors (agent s)) = n \<and>
     (\<forall>t i. pc_slot (snd (task s t)) = Some i \<longrightarrow> i < n) \<and> (\<forall>t. no_close routed (task s t)) \<and> snd ` set (out s) \<subseteq> {..<n} \<and>
     (\<forall>idx<n. slot_inv manage idx (view_of routed s idx))"

lemmas v_phases = v_quiet_def v_request_def v_served_def v_answered_def v_dropped_def v_own_def

lemma holders_upd:
  "holders (f(t := x)) j = (if pc_slot (snd x) = Some j then (holders f j)(t \<mapsto> x) else (holders f j)(t := None))"
  by (auto simp: holders_def fun_eq_iff)

lemma holders_None: "pc_slot (snd (f t)) \<noteq> Some j \<Longrightarrow> holders f j t = None"
  by (simp add: holders_def)

lemma holders_same: "pc_slot (snd (f t)) \<noteq> Some j \<Longrightarrow> pc_slot (snd x) \<noteq> Some j \<Longrightarrow> holders (f(t := x)) j = holders f j"
  by (auto simp: holders_upd fun_eq_iff holders_def)

text \<open>A task that is past the acquisition of a slot is its only holder.\<close>

lemma mb_inv_holder:
  assumes inv: "mb_inv n manage routed s" and t: "task s t = (c, pc)" and p: "pc_slot pc = Some i"
  shows "i < n" "v_hold (view_of routed s i) = [t \<mapsto> (c, pc)]" "\<not> v_empty (view_of routed s i)" "v_held manage i c pc (view_of routed s i)"
proof -
  show i: "i < n" using inv t p unfolding mb_inv_def by (metis snd_conv)
  have h: "v_hold (view_of routed s i) t = Some (c, pc)" using t p by (simp add: view_of_def Let_def holders_def)
  have "slot_inv manage i (view_of routed s i)" using inv i by (simp add: mb_inv_def)
  then obtain t' c' pc' where x: "v_hold (view_of routed s i) = [t' \<mapsto> (c', pc')]" "\<not> v_empty (view_of routed s i)" "v_held manage i c' pc' (view_of routed s i)"
    using h by (auto simp: slot_inv_def)
  then have "t' = t" "c' = c" "pc' = pc" using h by (auto split: if_splits)
  then show "v_hold (view_of routed s i) = [t \<mapsto> (c, pc)]" "\<not> v_empty (view_of routed s i)" "v_held manage i c pc (view_of routed s i)" using x by simp_all
qed

lemma slot_inv_hold: "\<not> v_empty v \<Longrightarrow> v_hold v = [t \<mapsto> (c, pc)] \<Longrightarrow> pc_slot pc = Some idx \<Longrightarrow> v_held manage idx c pc v \<Longrightarrow> slot_inv manage idx v"
  by (auto simp: slot_inv_def)

section \<open>Steps of a task\<close>

definition ns_frame :: "nat \<Rightarrow> ns_mailbox_queue_t \<Rightarrow> ns_mailbox_queue_t \<Rightarrow> bool" where
  "ns_frame i q q' \<longleftrightarrow> length (mb_slots q') = length (mb_slots q) \<and> length (slots_ns q') = length (slots_ns q) \<and>
     (\<forall>j. j \<noteq> i \<longrightarrow> bit (empty_slots q') j = bit (empty_slots q) j \<and> bit (pend_slots q') j = bit (pend_slots q) j \<and>
        bit (replied_slots q') j = bit (replied_slots q) j \<and> slots_ns q' ! j = slots_ns q ! j \<and> mb_slots q' ! j = mb_slots q ! j)"

lemmas ns_ops = set_queue_slot_empty_def clear_queue_slot_empty_def set_queue_slot_pend_def set_queue_slot_woken_def
  is_queue_slot_woken_def clear_queue_slot_woken_def set_msg_owner_def mailbox_fill_slot_def mailbox_wait_reply_signal_def
  mailbox_take_reply_def mailbox_release_slot_def

lemma client_frame:
  assumes "client_call_step n c lock pc q = (pc', q')" "pc_slot pc = Some i"
  shows "ns_frame i q q' \<and> (pc_slot pc' = Some i \<or> pc_slot pc' = None)"
  using assms by (cases pc) (auto simp: client_call_step_def ns_frame_def ns_ops split: if_splits prod.splits)

lemma client_no_close:
  "client_call_step n c lock pc q = (pc', q') \<Longrightarrow> no_close routed (c, pc) \<Longrightarrow> no_close routed (c, pc')"
  by (cases pc) (auto simp: client_call_step_def no_close_def split: if_splits prod.splits)

lemma view_of_other:
  assumes "ns_frame i (shm (agent s)) q" "j \<noteq> i" "pc_slot (snd (task s t)) \<noteq> Some j" "pc_slot pc' \<noteq> Some j" "A j = ans s j"
  shows "view_of routed (upd_shm q (s\<lparr>task := (task s)(t := (c, pc')), ans := A\<rparr>)) j = view_of routed s j"
  using assms holders_same [of "task s" t j "(c, pc')"] by (simp add: view_of_def Let_def upd_shm_def ns_frame_def cong: handler_pc.case_cong isr_pc.case_cong)

lemma mb_inv_task_step:
  assumes inv: "mb_inv n manage routed s" and f: "ns_frame i (shm (agent s)) q" and i: "i < n"
    and p: "pc_slot (snd (task s t)) \<in> {None, Some i}" "pc_slot pc' \<in> {None, Some i}" and A: "\<forall>j. j \<noteq> i \<longrightarrow> A j = ans s j"
    and nc: "no_close routed (c, pc')"
    and v: "slot_inv manage i (view_of routed (upd_shm q (s\<lparr>task := (task s)(t := (c, pc')), ans := A\<rparr>)) i)"
  shows "mb_inv n manage routed (upd_shm q (s\<lparr>task := (task s)(t := (c, pc')), ans := A\<rparr>))"
proof -
  let ?s = "upd_shm q (s\<lparr>task := (task s)(t := (c, pc')), ans := A\<rparr>)"
  have "slot_inv manage j (view_of routed ?s j)" if "j < n" for j
  proof (cases "j = i")
    case False
    then have "view_of routed ?s j = view_of routed s j" by (intro view_of_other [OF f]) (use p A in auto)
    then show ?thesis using inv that by (simp add: mb_inv_def)
  qed (use v in simp)
  then show ?thesis using inv f i p nc by (auto simp: mb_inv_def upd_shm_def ns_frame_def)
qed

lemma acquire_empty_slot_SomeD:
  assumes "acquire_empty_slot n q = (idx, q')" "idx < n"
  shows "bit (empty_slots q) idx" "q' = q\<lparr>empty_slots := empty_slots q AND NOT (slot_bit idx)\<rparr>"
  using assms
  by (auto simp: acquire_empty_slot_def clear_queue_slot_empty_def find_Some_iff split: if_splits option.splits)

lemma acquire_empty_slot_full: "acquire_empty_slot n q = (idx, q') \<Longrightarrow> \<not> idx < n \<Longrightarrow> q' = q"
  by (auto simp: acquire_empty_slot_def find_Some_iff split: if_splits option.splits)

lemma view_of_holder:
  "v_hold (view_of routed s i) = [t \<mapsto> (c, pc)] \<Longrightarrow> pc_slot pc' = Some i \<Longrightarrow> holders ((task s)(t := (c, pc'))) i = [t \<mapsto> (c, pc')]"
  by (auto simp: view_of_def Let_def holders_upd)

lemma view_of_released:
  "v_hold (view_of routed s i) = [t \<mapsto> (c, pc)] \<Longrightarrow> pc_slot pc' = None \<Longrightarrow> holders ((task s)(t := (c, pc'))) i = Map.empty"
  by (auto simp: view_of_def Let_def holders_upd)

lemma client_held_ok:
  assumes inv: "mb_inv n manage routed s" and n: "n \<le> 32" and t: "task s t = (c, pc)" and p: "pc_slot pc = Some i"
    and st: "client_call_step n c lock pc (shm (agent s)) = (pc', q)"
  shows "slot_inv manage i (view_of routed (upd_shm q (s\<lparr>task := (task s)(t := (c, pc')), ans := ans s\<rparr>)) i)"
proof -
  note h = mb_inv_holder [OF inv t p]
  have len: "length (mb_slots (shm (agent s))) = n" "length (slots_ns (shm (agent s))) = n" using inv by (auto simp: mb_inv_def)
  note vo = view_of_def Let_def upd_shm_def
  show ?thesis
  proof (cases pc)
    case (NS_Acquired j)
    then have "pc' = NS_Filled i" "q = mailbox_fill_slot n c i (shm (agent s))" using st p by (auto simp: client_call_step_def)
    then show ?thesis using h NS_Acquired p len n view_of_holder [OF h(2), of "NS_Filled i"]
      by (intro slot_inv_hold [where t = t and c = c and pc = pc']) (auto simp: v_held_def v_phases vo ns_ops)
  next
    case (NS_Filled j)
    then have "pc' = NS_Waiting i" "q = set_queue_slot_pend n i (shm (agent s))" using st p by (auto simp: client_call_step_def)
    then show ?thesis using h NS_Filled p len n view_of_holder [OF h(2), of "NS_Waiting i"]
      by (intro slot_inv_hold [where t = t and c = c and pc = pc']) (auto simp: v_held_def v_phases vo ns_ops)
  next
    case (NS_Waiting j)
    show ?thesis
    proof (cases "v_woken (view_of routed s i)")
      case True
      then have "pc' = NS_Replied i" "q = clear_queue_slot_woken n i (shm (agent s))"
        using st p NS_Waiting h(1) by (auto simp: client_call_step_def ns_ops vo)
      then show ?thesis using h NS_Waiting p len n True view_of_holder [OF h(2), of "NS_Replied i"]
        by (intro slot_inv_hold [where t = t and c = c and pc = pc']) (auto simp: v_held_def v_phases vo ns_ops)
    next
      case False
      then have "pc' = pc" "q = shm (agent s)" using st p NS_Waiting h(1) by (auto simp: client_call_step_def ns_ops vo)
      then have "view_of routed (upd_shm q (s\<lparr>task := (task s)(t := (c, pc')), ans := ans s\<rparr>)) i = view_of routed s i"
        using t fun_upd_triv [of "task s" t] by (simp add: vo)
      then show ?thesis using h p by (auto intro: slot_inv_hold)
    qed
  next
    case (NS_Replied j)
    then have "pc' = NS_Taken i (slot_reply (mb_slots (shm (agent s)) ! i))" "q = set_msg_owner n i 0 (shm (agent s))"
      using st p by (auto simp: client_call_step_def mailbox_take_reply_def)
    then show ?thesis using h NS_Replied p len n view_of_holder [OF h(2), of pc']
      by (intro slot_inv_hold [where t = t and c = c and pc = pc']) (auto simp: v_held_def v_phases vo ns_ops)
  next
    case (NS_Taken j r)
    then have "pc_slot pc' = None" "q = mailbox_release_slot n i (shm (agent s))" using st p by (auto simp: client_call_step_def)
    then show ?thesis using h NS_Taken p len n view_of_released [OF h(2), of pc']
      by (auto simp: slot_inv_def v_held_def v_phases vo ns_ops)
  qed (use p in auto)
qed

lemma client_acquire_ok:
  assumes inv: "mb_inv n manage routed s" and n: "n \<le> 32" and t: "task s t = (c, NS_Start)"
    and a: "acquire_empty_slot n (shm (agent s)) = (i, q)" and i: "i < n"
  shows "slot_inv manage i (view_of routed (upd_shm q (s\<lparr>task := (task s)(t := (c, NS_Acquired i)), ans := (ans s)(i := [])\<rparr>)) i)"
proof -
  note e = acquire_empty_slot_SomeD [OF a i]
  have "slot_inv manage i (view_of routed s i)" using inv i by (simp add: mb_inv_def)
  then have v: "v_hold (view_of routed s i) = Map.empty" "v_quiet (view_of routed s i)" using e(1) by (auto simp: slot_inv_def view_of_def Let_def)
  have "holders ((task s)(t := (c, NS_Acquired i))) i = [t \<mapsto> (c, NS_Acquired i)]"
    using v(1) by (simp add: holders_upd view_of_def Let_def)
  then show ?thesis using v(2) e n i
    by (intro slot_inv_hold [where t = t and c = c and pc = "NS_Acquired i"]) (auto simp: v_held_def v_phases view_of_def Let_def upd_shm_def)
qed

lemma mb_inv_client:
  assumes inv: "mb_inv n manage routed s" and n: "n \<le> 32" and t: "task s t = (c, pc)"
    and st: "client_call_step n c lock pc (shm (agent s)) = (pc', q)"
  shows "mb_inv n manage routed (upd_shm q (s\<lparr>task := (task s)(t := (c, pc')),
      ans := (case (pc, pc') of (NS_Start, NS_Acquired idx) \<Rightarrow> (ans s)(idx := []) | _ \<Rightarrow> ans s)\<rparr>))"
proof -
  have "no_close routed (c, pc)" using inv t unfolding mb_inv_def by metis
  then have nc: "no_close routed (c, pc')" by (rule client_no_close [OF st])
  show ?thesis
proof (cases "pc_slot pc")
  case (Some i)
  have f: "ns_frame i (shm (agent s)) q" "pc_slot pc' \<in> {None, Some i}" using client_frame [OF st Some] by auto
  have "(case (pc, pc') of (NS_Start, NS_Acquired idx) \<Rightarrow> (ans s)(idx := []) | _ \<Rightarrow> ans s) = ans s" using Some by (cases pc) auto
  then show ?thesis
    using mb_inv_task_step [OF inv f(1) mb_inv_holder(1) [OF inv t Some] _ f(2) _ nc, of t "ans s"] t Some client_held_ok [OF inv n t Some st] by simp
next
  case None
  consider (acq) i where "pc = NS_Start" "pc' = NS_Acquired i" "i < n" "acquire_empty_slot n (shm (agent s)) = (i, q)"
    | (no) "q = shm (agent s)" "pc_slot pc' = None"
    using st None by (cases pc) (auto simp: client_call_step_def acquire_empty_slot_full split: if_splits prod.splits)
  then show ?thesis
  proof cases
    case (acq i)
    have f: "ns_frame i (shm (agent s)) q" using acquire_empty_slot_SomeD [OF acq(4,3)] by (auto simp: ns_frame_def)
    have t': "task s t = (c, NS_Start)" using t acq(1) by simp
    show ?thesis using mb_inv_task_step [OF inv f acq(3) _ _ _ _ client_acquire_ok [OF inv n t' acq(4,3)]] nc t' acq(1,2) by simp
  next
    case no
    have a: "(case (pc, pc') of (NS_Start, NS_Acquired idx) \<Rightarrow> (ans s)(idx := []) | _ \<Rightarrow> ans s) = ans s"
      using no(2) by (auto split: ns_pc.splits)
    have "view_of routed (upd_shm q (s\<lparr>task := (task s)(t := (c, pc')), ans := ans s\<rparr>)) j = view_of routed s j" for j
      using t None no holders_same [of "task s" t j "(c, pc')"] by (simp add: view_of_def Let_def upd_shm_def)
    then show ?thesis unfolding a using inv no t None nc by (auto simp: mb_inv_def upd_shm_def)
  qed
qed
qed

section \<open>Steps of the secure side\<close>

text \<open>The view of a slot determines the invariant, so a step may be judged by what it does to the views.\<close>

lemma mb_invI:
  assumes "mb_inv n manage routed s" "task s' = task s" "snd ` set (out s') \<subseteq> snd ` set (out s) \<union> {..<n}"
    and "length (mb_slots (shm (agent s'))) = length (mb_slots (shm (agent s)))" "length (slots_ns (shm (agent s'))) = length (slots_ns (shm (agent s)))"
      "length (spe_queue (spe_mailbox_queue (agent s'))) = length (spe_queue (spe_mailbox_queue (agent s)))"
      "ns_slot_count (spe_mailbox_queue (agent s')) = ns_slot_count (spe_mailbox_queue (agent s))"
      "length (mb_vectors (agent s')) = length (mb_vectors (agent s))"
    and "\<And>j. j < n \<Longrightarrow> slot_inv manage j (view_of routed s j) \<Longrightarrow> slot_inv manage j (view_of routed s' j)"
  shows "mb_inv n manage routed s'"
proof -
  have "snd ` set (out s) \<subseteq> {..<n}" using assms(1) by (simp add: mb_inv_def)
  then have "snd ` set (out s') \<subseteq> {..<n}" using assms(3) by (rule subset_trans [OF _ Un_least [OF _ order_refl], rotated])
  then show ?thesis using assms by (simp add: mb_inv_def)
qed

text \<open>What the holders and the owner of a slot do not see.\<close>

lemma slot_inv_cong_waiting:
  assumes "slot_inv manage j v" "v_hold v' = v_hold v" "v_empty v' = v_empty v" "v_owner v' = v_owner v"
    and "v_quiet v \<Longrightarrow> v_quiet v' \<and> v_ans v' = v_ans v \<and> v_msg v' = v_msg v \<and> v_reply v' = v_reply v \<and> v_routed v' = v_routed v"
      "\<And>c. v_request c v \<Longrightarrow> v_request c v'" "\<And>c. v_served manage j c v \<Longrightarrow> v_served manage j c v'"
      "\<And>c. v_answered manage c v \<Longrightarrow> v_answered manage c v'" "\<And>c. v_dropped c v \<Longrightarrow> v_dropped c v'"
  shows "slot_inv manage j v'"
  using assms(1) unfolding slot_inv_def
proof (elim disjE exE conjE)
  assume "v_hold v = Map.empty" "v_empty v" "v_quiet v"
  then show "v_hold v' = Map.empty \<and> v_empty v' \<and> v_quiet v' \<or>
    (\<exists>t c pc. v_hold v' = [t \<mapsto> (c, pc)] \<and> pc_slot pc = Some j \<and> \<not> v_empty v' \<and> v_held manage j c pc v')"
    using assms(2-5) by simp
next
  fix t c pc assume h: "v_hold v = [t \<mapsto> (c, pc)]" "pc_slot pc = Some j" "\<not> v_empty v" "v_held manage j c pc v"
  then have "v_held manage j c pc v'" using assms(4-9) by (cases pc) (auto simp: v_held_def v_own_def)
  then show "v_hold v' = Map.empty \<and> v_empty v' \<and> v_quiet v' \<or>
    (\<exists>t c pc. v_hold v' = [t \<mapsto> (c, pc)] \<and> pc_slot pc = Some j \<and> \<not> v_empty v' \<and> v_held manage j c pc v')"
    using h assms(2,3) by auto
qed

text \<open>The steps that concern every slot.\<close>

lemma view_handler_begin:
  "hpc s = H_Idle \<Longrightarrow> view_of routed (s\<lparr>hpc := H_Loop (get_nspe_queue_pend_status (shm (agent s))) 0 0\<rparr>) j = (view_of routed s j)\<lparr>v_todo := v_pend (view_of routed s j)\<rparr>"
  by (simp add: view_of_def Let_def get_nspe_queue_pend_status_def)

lemma view_handler_end:
  "hpc s = H_Loop pend n rs \<Longrightarrow> j < n \<Longrightarrow> n \<le> 32 \<Longrightarrow>
   view_of routed (s\<lparr>agent := handle_msg_end pend rs (agent s), hpc := H_Idle\<rparr>) j =
     (view_of routed s j)\<lparr>v_pend := v_pend (view_of routed s j) \<and> \<not> v_done (view_of routed s j), v_todo := False, v_done := False, v_sync := False,
       v_repl := v_repl (view_of routed s j) \<or> v_sync (view_of routed s j)\<rparr>"
  by (auto simp: view_of_def Let_def handle_msg_end_def set_nspe_queue_replied_status_def
      clear_nspe_queue_pend_status_def bit_or_iff bit_and_iff bit_not_iff)

lemma view_isr_begin:
  "ipc s = I_Idle \<Longrightarrow> clear_queue_slot_all_replied (shm (agent s)) = (rs, q) \<Longrightarrow>
   view_of routed (upd_shm q (s\<lparr>ipc := I_Loop rs 0\<rparr>)) j = (view_of routed s j)\<lparr>v_isr := v_repl (view_of routed s j), v_repl := False\<rparr>"
  by (auto simp: view_of_def Let_def clear_queue_slot_all_replied_def upd_shm_def)

lemma mb_inv_handler_begin:
  assumes "mb_inv n manage routed s" "hpc s = H_Idle"
  shows "mb_inv n manage routed (s\<lparr>hpc := H_Loop (get_nspe_queue_pend_status (shm (agent s))) 0 0\<rparr>)"
proof (rule mb_invI [OF assms(1)])
  fix j assume "slot_inv manage j (view_of routed s j)"
  moreover have "\<not> v_done (view_of routed s j)" using assms(2) by (simp add: view_of_def Let_def)
  ultimately show "slot_inv manage j (view_of routed (s\<lparr>hpc := H_Loop (get_nspe_queue_pend_status (shm (agent s))) 0 0\<rparr>) j)"
    unfolding view_handler_begin [OF assms(2)] by (elim slot_inv_cong_waiting) (auto simp: v_phases)
qed simp_all

lemma mb_inv_handler_end:
  assumes "mb_inv n manage routed s" "hpc s = H_Loop pend n rs" "n \<le> 32"
  shows "mb_inv n manage routed (s\<lparr>agent := handle_msg_end pend rs (agent s), hpc := H_Idle\<rparr>)"
proof (rule mb_invI [OF assms(1)])
  fix j assume "slot_inv manage j (view_of routed s j)" and j: "j < n"
  then show "slot_inv manage j (view_of routed (s\<lparr>agent := handle_msg_end pend rs (agent s), hpc := H_Idle\<rparr>) j)"
    unfolding view_handler_end [OF assms(2) j assms(3)] by (elim slot_inv_cong_waiting) (auto simp: v_phases)
qed (simp_all add: handle_msg_end_def set_nspe_queue_replied_status_def clear_nspe_queue_pend_status_def)

lemma mb_inv_isr_begin:
  assumes "mb_inv n manage routed s" "ipc s = I_Idle" "clear_queue_slot_all_replied (shm (agent s)) = (rs, q)"
  shows "mb_inv n manage routed (upd_shm q (s\<lparr>ipc := I_Loop rs 0\<rparr>))"
proof (rule mb_invI [OF assms(1)])
  fix j assume "slot_inv manage j (view_of routed s j)"
  moreover have "\<not> v_isr (view_of routed s j)" using assms(2) by (simp add: view_of_def Let_def)
  ultimately show "slot_inv manage j (view_of routed (upd_shm q (s\<lparr>ipc := I_Loop rs 0\<rparr>)) j)"
    unfolding view_isr_begin [OF assms(2,3)] by (elim slot_inv_cong_waiting) (auto simp: v_phases)
qed (use assms(3) in \<open>auto simp: clear_queue_slot_all_replied_def upd_shm_def\<close>)

lemma mb_inv_isr_end:
  assumes "mb_inv n manage routed s" "ipc s = I_Loop rs n"
  shows "mb_inv n manage routed (s\<lparr>ipc := I_Idle\<rparr>)"
proof (rule mb_invI [OF assms(1)])
  fix j assume "slot_inv manage j (view_of routed s j)" "j < n"
  moreover have "view_of routed (s\<lparr>ipc := I_Idle\<rparr>) j = view_of routed s j" if "j < n" using assms(2) that by (simp add: view_of_def Let_def)
  ultimately show "slot_inv manage j (view_of routed (s\<lparr>ipc := I_Idle\<rparr>) j)" by simp
qed simp_all

lemma view_isr_slot:
  assumes i: "ipc s = I_Loop rs idx" "idx < n" and len: "length (slots_ns (shm (agent s))) = n"
    and w: "wake_slot n idx rs (shm (agent s)) = (w, rs', q)"
  shows "view_of routed (upd_shm q (s\<lparr>ipc := (if w \<noteq> None \<and> rs' = 0 then I_Idle else I_Loop rs' (idx + 1))\<rparr>)) j =
    (if j = idx \<and> bit rs idx then (view_of routed s j)\<lparr>v_isr := False, v_woken := True\<rparr> else view_of routed s j)"
proof (cases "bit rs idx")
  case False
  then have "w = None" "rs' = rs" "q = shm (agent s)" using w by (auto simp: wake_slot_def)
  moreover have "bit rs j \<and> Suc idx \<le> j \<longleftrightarrow> bit rs j \<and> idx \<le> j" using False by (auto simp: Suc_le_eq le_less)
  ultimately show ?thesis using i False by (simp add: view_of_def Let_def upd_shm_def)
next
  case True
  then have x: "w \<noteq> None" "rs' = rs AND NOT (slot_bit idx)" "q = set_queue_slot_woken n idx (shm (agent s))"
    using w by (auto simp: wake_slot_def Let_def)
  have b: "bit rs' j \<longleftrightarrow> bit rs j \<and> j \<noteq> idx" by (simp add: x(2))
  have y: "(case if rs' = 0 then I_Idle else I_Loop rs' (Suc idx) of I_Idle \<Rightarrow> False | I_Loop r i \<Rightarrow> bit r j \<and> i \<le> j) \<longleftrightarrow>
      bit rs j \<and> idx < j"
    using b by (auto simp: Suc_le_eq)
  show ?thesis using i len True y x(1)
    by (auto simp: view_of_def Let_def upd_shm_def x(3) set_queue_slot_woken_def le_less)
qed

lemma mb_inv_isr_slot:
  assumes inv: "mb_inv n manage routed s" and i: "ipc s = I_Loop rs idx" "idx < n" and w: "wake_slot n idx rs (shm (agent s)) = (w, rs', q)"
  shows "mb_inv n manage routed (upd_shm q (s\<lparr>ipc := (if w \<noteq> None \<and> rs' = 0 then I_Idle else I_Loop rs' (idx + 1))\<rparr>))"
proof (rule mb_invI [OF inv])
  let ?s = "upd_shm q (s\<lparr>ipc := (if w \<noteq> None \<and> rs' = 0 then I_Idle else I_Loop rs' (idx + 1))\<rparr>)"
  have len: "length (slots_ns (shm (agent s))) = n" using inv by (simp add: mb_inv_def)
  fix j assume sj: "slot_inv manage j (view_of routed s j)" "j < n"
  note eq = view_isr_slot [OF i len w, where j = j]
  show "slot_inv manage j (view_of routed ?s j)"
  proof (cases "j = idx \<and> bit rs idx")
    case True
    then have "v_isr (view_of routed s j)" using i by (simp add: view_of_def Let_def)
    then show ?thesis using sj(1) True unfolding eq by (elim slot_inv_cong_waiting) (auto simp: v_phases)
  next
    case False
    then have "view_of routed ?s j = view_of routed s j" using eq by auto
    then show ?thesis using sj(1) by simp
  qed
qed (use w in \<open>auto simp: wake_slot_def set_queue_slot_woken_def upd_shm_def Let_def split: if_splits\<close>)

text \<open>The steps of the secure side that concern one slot.\<close>

definition same_handler :: "handler_pc \<Rightarrow> handler_pc \<Rightarrow> nat \<Rightarrow> bool" where
  "same_handler h h' j \<longleftrightarrow> h_todo h j = h_todo h' j \<and> h_done h j = h_done h' j \<and> h_sync h j = h_sync h' j \<and> (h = H_Reply j) = (h' = H_Reply j)"

lemma view_only_slot:
  assumes f: "only_slot i (agent s) a" and j: "j \<noteq> i" and h: "same_handler h (hpc s) j" and A: "A j = ans s j"
    and u: "routed \<longrightarrow> out_of us j = out_of (out s) j"
  shows "view_of routed (s\<lparr>agent := a, hpc := h, out := us, ans := A\<rparr>) j = view_of routed s j"
  using f j h A u by (simp add: view_of_def Let_def only_slot_def same_handler_def)

lemma only_slot_msg: "only_slot i a b \<Longrightarrow> j < length (mb_slots (shm a)) \<Longrightarrow> slot_msg (mb_slots (shm b) ! j) = slot_msg (mb_slots (shm a) ! j)"
  unfolding only_slot_def by (metis nth_map)

lemma mb_inv_only_slot:
  assumes inv: "mb_inv n manage routed s" and f: "only_slot i (agent s) a"
    and h: "\<And>j. j < n \<Longrightarrow> j \<noteq> i \<Longrightarrow> same_handler h (hpc s) j" and A: "\<And>j. j \<noteq> i \<Longrightarrow> A j = ans s j"
    and u: "snd ` set us \<subseteq> snd ` set (out s) \<union> {..<n}" "\<And>j. j \<noteq> i \<Longrightarrow> routed \<Longrightarrow> out_of us j = out_of (out s) j"
    and v: "i < n \<Longrightarrow> slot_inv manage i (view_of routed s i) \<Longrightarrow>
      slot_inv manage i (view_of routed (s\<lparr>agent := a, hpc := h, out := us, ans := A\<rparr>) i)"
  shows "mb_inv n manage routed (s\<lparr>agent := a, hpc := h, out := us, ans := A\<rparr>)"
proof (rule mb_invI [OF inv])
  fix j assume j: "j < n" "slot_inv manage j (view_of routed s j)"
  show "slot_inv manage j (view_of routed (s\<lparr>agent := a, hpc := h, out := us, ans := A\<rparr>) j)"
  proof (cases "j = i")
    case False
    have "view_of routed (s\<lparr>agent := a, hpc := h, out := us, ans := A\<rparr>) j = view_of routed s j"
      using False j u h A by (intro view_only_slot [OF f False]) auto
    then show ?thesis using j by simp
  qed (use v j in simp)
qed (use f u in \<open>auto simp: only_slot_def\<close>)

text \<open>A slot that is not quiet has a task that waits.\<close>

lemma slot_inv_waiting:
  assumes "slot_inv manage j v" "\<not> v_quiet v"
  obtains t c where "v_hold v = [t \<mapsto> (c, NS_Waiting j)]" "v_owner v = nc_task c" "\<not> v_empty v"
    "v_request c v \<or> v_served manage j c v \<or> v_answered manage c v \<or> v_dropped c v"
proof -
  obtain t c pc where h: "v_hold v = [t \<mapsto> (c, pc)]" "pc_slot pc = Some j" "\<not> v_empty v" "v_held manage j c pc v"
    using assms by (auto simp: slot_inv_def)
  have "pc = NS_Waiting j" using h(2,4) assms(2) by (cases pc) (auto simp: v_held_def)
  then show ?thesis using that [of t c] h by (simp add: v_held_def)
qed

text \<open>A message that the handler has yet to read, and one that is with the manager.\<close>

lemma slot_inv_todo:
  assumes "slot_inv manage j v" "v_todo v"
  obtains t c where "v_hold v = [t \<mapsto> (c, NS_Waiting j)]" "v_owner v = nc_task c" "\<not> v_empty v" "v_request c v"
proof -
  have "\<not> v_quiet v" using assms(2) by (simp add: v_quiet_def)
  then show ?thesis
  proof (rule slot_inv_waiting [OF assms(1)])
    fix t c assume h: "v_hold v = [t \<mapsto> (c, NS_Waiting j)]" "v_owner v = nc_task c" "\<not> v_empty v"
      "v_request c v \<or> v_served manage j c v \<or> v_answered manage c v \<or> v_dropped c v"
    then have "v_request c v" using assms(2) by (auto simp: v_served_def v_answered_def v_dropped_def)
    then show ?thesis by (rule that [OF h(1-3)])
  qed
qed

lemma slot_inv_busy:
  assumes "slot_inv manage j v" "\<not> v_idle v"
  obtains t c where "v_hold v = [t \<mapsto> (c, NS_Waiting j)]" "v_owner v = nc_task c" "\<not> v_empty v" "v_served manage j c v"
proof -
  have "\<not> v_quiet v" using assms(2) by (simp add: v_quiet_def)
  then show ?thesis
  proof (rule slot_inv_waiting [OF assms(1)])
    fix t c assume h: "v_hold v = [t \<mapsto> (c, NS_Waiting j)]" "v_owner v = nc_task c" "\<not> v_empty v"
      "v_request c v \<or> v_served manage j c v \<or> v_answered manage c v \<or> v_dropped c v"
    then have "v_served manage j c v" using assms(2) by (auto simp: v_request_def v_answered_def v_dropped_def)
    then show ?thesis by (rule that [OF h(1-3)])
  qed
qed

lemma slot_inv_sync_done: "slot_inv manage j v \<Longrightarrow> v_sync v \<Longrightarrow> v_done v"
  by (rule slot_inv_waiting [of manage j v]) (auto simp: v_quiet_def v_request_def v_served_def v_answered_def v_dropped_def)

lemma slot_inv_out_busy: "slot_inv manage j v \<Longrightarrow> v_out v \<noteq> [] \<Longrightarrow> \<not> v_idle v"
  by (rule slot_inv_waiting [of manage j v]) (auto simp: v_quiet_def v_request_def v_served_def v_answered_def v_dropped_def)

lemma out_of_simps [simp]:
  "out_of [] i = []" "out_of (xs @ ys) i = out_of xs i @ out_of ys i" "out_of [(m, k)] i = (if k = i then [m] else [])"
  by (simp_all add: out_of_def)

lemma out_of_remove1:
  "k \<noteq> i \<Longrightarrow> out_of (remove1 (m, k) xs) i = out_of xs i" "out_of (remove1 (m, k) xs) k = remove1 m (out_of xs k)"
  by (induction xs) (auto simp: out_of_def)

lemma in_out_of: "m \<in> set (out_of xs k) \<longleftrightarrow> (m, k) \<in> set xs"
  by (force simp: out_of_def)

lemma handler_skip_ok:
  assumes inv: "mb_inv n manage routed s" and hp: "hpc s = H_Loop pend i rs" and i: "i < n" and b: "\<not> bit pend i"
  shows "mb_inv n manage routed (s\<lparr>hpc := H_Loop pend (i + 1) rs, ans := handler_answer manage i rs (agent s) s\<rparr>)"
proof -
  have si: "slot_inv manage i (view_of routed s i)" using inv i by (simp add: mb_inv_def)
  have "\<not> v_sync (view_of routed s i)"
    using slot_inv_sync_done [OF si] hp b by (auto simp: view_of_def Let_def)
  then have nb: "\<not> bit rs i" using hp by (simp add: view_of_def Let_def)
  have "bit pend j \<and> Suc i \<le> j \<longleftrightarrow> bit pend j \<and> i \<le> j" "bit pend j \<and> j < Suc i \<longleftrightarrow> bit pend j \<and> j < i" for j
    using b by (auto simp: Suc_le_eq le_less less_Suc_eq)
  then have "view_of routed (s\<lparr>hpc := H_Loop pend (i + 1) rs, ans := handler_answer manage i rs (agent s) s\<rparr>) j = view_of routed s j" for j
    using hp nb by (simp add: view_of_def Let_def handler_answer_def)
  then show ?thesis using inv by (simp add: mb_inv_def)
qed

lemma handler_held_ok:
  assumes inv: "mb_inv n manage routed s" and hp: "hpc s = H_Loop pend i rs" and i: "i < n" and n: "n \<le> 32" and b: "bit pend i"
    and h: "handle_slot n manage rpc pend i rs (agent s) = Some (rs', a)"
    and m: "m = received_msg manage (slot_msg (mb_slots (shm (agent s)) ! i))"
  shows "slot_inv manage i (view_of routed (s\<lparr>agent := a, hpc := H_Loop pend (i + 1) rs', out := out s @ handed_over pend i m a,
    ans := handler_answer manage i rs' a s\<rparr>) i)"
proof -
  have len: "length (spe_queue (spe_mailbox_queue (agent s))) = n" "length (mb_slots (shm (agent s))) = n" using inv by (auto simp: mb_inv_def)
  have si: "slot_inv manage i (view_of routed s i)" using inv i by (simp add: mb_inv_def)
  note c = handle_slot_cases [OF h b n len(1)]
  have todo: "v_todo (view_of routed s i)" using hp b by (simp add: view_of_def Let_def)
  obtain t d where w: "v_hold (view_of routed s i) = [t \<mapsto> (d, NS_Waiting i)]" "v_owner (view_of routed s i) = nc_task d" "\<not> v_empty (view_of routed s i)"
    "v_request d (view_of routed s i)"
    by (rule slot_inv_todo [OF si todo])
  have sm: "slot_msg (mb_slots (shm (agent s)) ! i) = call_message d" using w(4) by (auto simp: v_request_def view_of_def Let_def)
  have "task s t = (d, NS_Waiting i)" using w(1) by (simp add: view_of_def Let_def fun_eq_iff holders_def) (metis option.distinct(1) option.inject)
  then have "routed \<longrightarrow> nc_call_type d \<noteq> MAILBOX_PSA_CLOSE" using inv unfolding mb_inv_def no_close_def by (metis fst_conv ns_pc.distinct snd_conv)
  then have ty: "routed \<longrightarrow> mb_call_type m \<noteq> MAILBOX_PSA_CLOSE" by (simp add: m sm received_msg_def call_message_def)
  define v' where "v' = view_of routed (s\<lparr>agent := a, hpc := H_Loop pend (i + 1) rs', out := out s @ handed_over pend i m a,
    ans := handler_answer manage i rs' a s\<rparr>) i"
  have f: "v_hold v' = v_hold (view_of routed s i)" "v_empty v' = v_empty (view_of routed s i)" "v_owner v' = v_owner (view_of routed s i)"
    "v_pend v' = v_pend (view_of routed s i)" "v_repl v' = v_repl (view_of routed s i)" "v_isr v' = v_isr (view_of routed s i)"
    "v_woken v' = v_woken (view_of routed s i)" "\<not> v_todo v'" "v_done v'" "v_sync v' = bit rs' i" "\<not> v_wrote v'"
    "v_idle v' = bit (spe_empty_slots (spe_mailbox_queue a)) i" "v_smsg v' = spe_msg (spe_queue (spe_mailbox_queue a) ! i)"
    "v_idx v' = ns_slot_idx (spe_queue (spe_mailbox_queue a) ! i)" "v_handle v' = spe_msg_handle (spe_queue (spe_mailbox_queue a) ! i)"
    "v_reply v' = slot_reply (mb_slots (shm a) ! i)" "v_routed v' = routed"
    using c(2) b by (simp_all add: v'_def view_of_def Let_def only_slot_def)
  have nb: "\<not> bit rs i" using hp w(4) by (simp add: v_request_def view_of_def Let_def)
  have an: "v_ans v' = (if bit rs' i then [(m, v_reply v')] else [])"
    using w(4) f(16) by (simp add: v'_def handler_answer_def v_request_def view_of_def Let_def m)
  have uo: "v_out v' = (if routed \<and> \<not> v_idle v' then [m] else [])"
    using w(4) b ty by (auto simp: v'_def v_request_def view_of_def Let_def handed_over_def)
  have r: "v_pend (view_of routed s i)" "\<not> v_repl (view_of routed s i)" "\<not> v_isr (view_of routed s i)" "\<not> v_woken (view_of routed s i)"
    using w(4) by (simp_all add: v_request_def)
  have mm: "m = received_msg manage (call_message d)" by (simp add: m sm)
  have "v_served manage i d v' \<or> v_answered manage d v' \<or> v_dropped d v'"
    using c(3)
  proof (elim disjE)
    assume "rs' = rs OR slot_bit i \<and> bit (spe_empty_slots (spe_mailbox_queue a)) i \<and> known_call (slot_msg (mb_slots (shm (agent s)) ! i))"
    then have "v_answered manage d v'" using f r an uo i n sm mm by (simp add: v_answered_def v_own_def)
    then show ?thesis by simp
  next
    assume "rs' = rs \<and> \<not> bit (spe_empty_slots (spe_mailbox_queue a)) i \<and>
       spe_msg (spe_queue (spe_mailbox_queue a) ! i) = received_msg manage (slot_msg (mb_slots (shm (agent s)) ! i)) \<and>
       ns_slot_idx (spe_queue (spe_mailbox_queue a) ! i) = i \<and>
       spe_msg_handle (spe_queue (spe_mailbox_queue a) ! i) = word_of_nat (i + 1) \<and> known_call (slot_msg (mb_slots (shm (agent s)) ! i))"
    then have "v_served manage i d v'" using f r an uo nb sm mm by (simp add: v_served_def)
    then show ?thesis by simp
  next
    assume "rs' = rs \<and> bit (spe_empty_slots (spe_mailbox_queue a)) i \<and> \<not> known_call (slot_msg (mb_slots (shm (agent s)) ! i))"
    then have "v_dropped d v'" using f r an uo nb sm by (simp add: v_dropped_def)
    then show ?thesis by simp
  qed
  then have "v_held manage i d (NS_Waiting i) v'" using w(2) f(3) by (auto simp: v_held_def)
  then show ?thesis
    unfolding v'_def [symmetric] using w(1,3) f(1,2) by (intro slot_inv_hold [where t = t and c = d and pc = "NS_Waiting i"]) auto
qed

lemma mb_inv_handler_slot:
  assumes inv: "mb_inv n manage routed s" and hp: "hpc s = H_Loop pend i rs" and i: "i < n" and n: "n \<le> 32"
    and h: "handle_slot n manage rpc pend i rs (agent s) = Some (rs', a)"
    and m: "m = received_msg manage (slot_msg (mb_slots (shm (agent s)) ! i))"
  shows "mb_inv n manage routed (s\<lparr>agent := a, hpc := H_Loop pend (i + 1) rs', out := out s @ handed_over pend i m a,
    ans := handler_answer manage i rs' a s\<rparr>)"
proof (cases "bit pend i")
  case False
  then have "rs' = rs" "a = agent s" "handed_over pend i m a = []" using h by (auto simp: handle_slot_def handed_over_def)
  then show ?thesis using handler_skip_ok [OF inv hp i False] by simp
next
  case True
  have len: "length (spe_queue (spe_mailbox_queue (agent s))) = n" using inv by (auto simp: mb_inv_def)
  note c = handle_slot_cases [OF h True n len]
  show ?thesis
  proof (rule mb_inv_only_slot [OF inv c(2)])
    fix j assume j: "j < n" "j \<noteq> i"
    have r: "bit rs' j = bit rs j" using c(3) j by auto
    show "same_handler (H_Loop pend (i + 1) rs') (hpc s) j" using hp j r by (auto simp: same_handler_def Suc_le_eq le_less)
  qed (use handler_held_ok [OF inv hp i n True h m] i in \<open>auto simp: handler_answer_def handed_over_def\<close>)
qed

lemma mb_inv_slot_idx:
  "mb_inv n manage routed s \<Longrightarrow> j < n \<Longrightarrow> \<not> bit (spe_empty_slots (spe_mailbox_queue (agent s))) j \<Longrightarrow>
   ns_slot_idx (spe_queue (spe_mailbox_queue (agent s)) ! j) = j"
proof -
  assume a: "mb_inv n manage routed s" "j < n" "\<not> bit (spe_empty_slots (spe_mailbox_queue (agent s))) j"
  then have s: "slot_inv manage j (view_of routed s j)" "\<not> v_idle (view_of routed s j)" by (auto simp: mb_inv_def view_of_def Let_def)
  then have "v_idx (view_of routed s j) = j" by (rule slot_inv_busy) (simp add: v_served_def)
  then show ?thesis by (simp add: view_of_def Let_def)
qed

text \<open>A reply of the manager goes to the slot of the message it answers.\<close>

lemma mb_inv_out_slot:
  assumes inv: "mb_inv n manage routed s" and r: routed "(m, k) \<in> set (out s)"
  obtains t c where "k < n" "task s t = (c, NS_Waiting k)" "v_served manage k c (view_of routed s k)" "m = received_msg manage (call_message c)"
    "out_of (out s) k = [m]" "spe_msg_handle (spe_queue (spe_mailbox_queue (agent s)) ! k) = word_of_nat (k + 1)"
    "\<not> bit (spe_empty_slots (spe_mailbox_queue (agent s))) k"
proof -
  have k: "k < n" using inv r(2) unfolding mb_inv_def by (metis image_subset_iff lessThan_iff snd_conv)
  have si: "slot_inv manage k (view_of routed s k)" using inv k by (simp add: mb_inv_def)
  have m: "m \<in> set (v_out (view_of routed s k))" using r by (simp add: view_of_def Let_def in_out_of)
  then have "v_out (view_of routed s k) \<noteq> []" by auto
  then have "\<not> v_idle (view_of routed s k)" by (rule slot_inv_out_busy [OF si])
  then obtain t c where w: "v_hold (view_of routed s k) = [t \<mapsto> (c, NS_Waiting k)]" "v_served manage k c (view_of routed s k)"
    using slot_inv_busy [OF si] by metis
  have "holders (task s) k t = Some (c, NS_Waiting k)" using w(1) by (simp add: view_of_def Let_def)
  then have "task s t = (c, NS_Waiting k)" by (simp add: holders_def split: if_splits)
  then show ?thesis using that [of t c] k w(2) m r(1) by (simp add: v_served_def view_of_def Let_def)
qed

lemma mb_inv_reply_write:
  assumes inv: "mb_inv n manage routed s" and hp: "hpc s = H_Idle" and n: "n \<le> 32"
    and ro: "routed \<longrightarrow> (m, k) \<in> set (out s) \<and> handle = spe_msg_handle (spe_queue (spe_mailbox_queue (agent s)) ! k)"
    and r: "reply_begin n handle ret (agent s) = Some (Inr (i, a))"
  shows "mb_inv n manage routed (add_answer i (m, slot_reply (mb_slots (shm a) ! i)) (s\<lparr>agent := a, hpc := H_Reply i, out := remove1 (m, k) (out s)\<rparr>))"
proof -
  define A where "A = (ans s)(i := ans s i @ [(m, slot_reply (mb_slots (shm a) ! i))])"
  have c: "i = reply_idx handle" "i < n" "\<not> bit (spe_empty_slots (spe_mailbox_queue (agent s))) i" "only_slot i (agent s) a"
    "bit (spe_empty_slots (spe_mailbox_queue a)) i"
    using reply_begin_cases [OF r n refl mb_inv_slot_idx [OF inv]] by (metis Inr_inject old.sum.distinct(1) prod.inject)+
  have si: "slot_inv manage i (view_of routed s i)" using inv c(2) by (simp add: mb_inv_def)
  have ni: "\<not> v_idle (view_of routed s i)" using c(3) by (simp add: view_of_def Let_def)
  obtain t d where w: "v_hold (view_of routed s i) = [t \<mapsto> (d, NS_Waiting i)]" "v_owner (view_of routed s i) = nc_task d" "\<not> v_empty (view_of routed s i)"
    "v_served manage i d (view_of routed s i)"
    by (rule slot_inv_busy [OF si ni])
  have ki: "k = i \<and> out_of (out s) i = [m] \<and> m = received_msg manage (call_message d)" if ru: routed
  proof -
    obtain u e where o: "k < n" "out_of (out s) k = [m]" "spe_msg_handle (spe_queue (spe_mailbox_queue (agent s)) ! k) = word_of_nat (k + 1)"
      by (rule mb_inv_out_slot [OF inv ru, of m k]) (use ro ru in auto)
    have "k = i" using c(1) ro ru o(3) reply_idx_handle [OF o(1) n] by simp
    moreover have "v_out (view_of routed s i) = [received_msg manage (call_message d)]" using w(4) ru by (simp add: v_served_def view_of_def Let_def)
    ultimately show ?thesis using o(2) ru by (simp add: view_of_def Let_def)
  qed
  define v' where "v' = view_of routed (s\<lparr>agent := a, hpc := H_Reply i, out := remove1 (m, k) (out s), ans := A\<rparr>) i"
  have f: "v_hold v' = v_hold (view_of routed s i)" "v_empty v' = v_empty (view_of routed s i)" "v_owner v' = v_owner (view_of routed s i)"
    "v_pend v' = v_pend (view_of routed s i)" "v_repl v' = v_repl (view_of routed s i)" "v_isr v' = v_isr (view_of routed s i)"
    "v_woken v' = v_woken (view_of routed s i)" "v_idle v'" "\<not> v_todo v'" "\<not> v_done v'" "\<not> v_sync v'" "v_wrote v'"
    "\<not> v_done (view_of routed s i)" "v_ans v' = v_ans (view_of routed s i) @ [(m, v_reply v')]" "v_routed v' = routed"
    using c(4,5) hp by (simp_all add: v'_def view_of_def Let_def A_def only_slot_def)
  have uo: "v_out v' = []" using ki by (auto simp: v'_def view_of_def Let_def out_of_remove1(2))
  have "v_answered manage d v'" using w(4) f uo ki by (simp add: v_served_def v_answered_def v_own_def)
  then have "slot_inv manage i v'"
    using w(1,3) w(2) f(1-3) by (intro slot_inv_hold [where t = t and c = d and pc = "NS_Waiting i"]) (auto simp: v_held_def)
  then have "mb_inv n manage routed (s\<lparr>agent := a, hpc := H_Reply i, out := remove1 (m, k) (out s), ans := A\<rparr>)"
    using hp ki set_remove1_subset [of "(m, k)" "out s"]
    by (intro mb_inv_only_slot [OF inv c(4)]) (auto simp: same_handler_def A_def v'_def out_of_remove1(1))
  then show ?thesis by (simp add: add_answer_def A_def)
qed

lemma mb_inv_reply_none:
  assumes inv: "mb_inv n manage routed s" and n: "n \<le> 32"
    and ro: "routed \<longrightarrow> (m, k) \<in> set (out s) \<and> handle = spe_msg_handle (spe_queue (spe_mailbox_queue (agent s)) ! k)"
    and r: "reply_begin n handle ret (agent s) = Some (Inl e)"
  shows "\<not> routed" "mb_inv n manage routed (s\<lparr>out := remove1 (m, k) (out s)\<rparr>)"
proof -
  have c: "bit (spe_empty_slots (spe_mailbox_queue (agent s))) (reply_idx handle)"
    using reply_begin_cases [OF r n refl mb_inv_slot_idx [OF inv]] by (metis old.sum.distinct(1))
  show u: "\<not> routed"
  proof
    assume ru: routed
    obtain t e where "k < n" "spe_msg_handle (spe_queue (spe_mailbox_queue (agent s)) ! k) = word_of_nat (k + 1)"
      "\<not> bit (spe_empty_slots (spe_mailbox_queue (agent s))) k"
      by (rule mb_inv_out_slot [OF inv ru, of m k]) (use ro ru in auto)
    then show False using c ro ru reply_idx_handle [OF _ n, of k] by simp
  qed
  then have "view_of routed (s\<lparr>out := remove1 (m, k) (out s)\<rparr>) j = view_of routed s j" for j by (simp add: view_of_def)
  then show "mb_inv n manage routed (s\<lparr>out := remove1 (m, k) (out s)\<rparr>)"
    using set_remove1_subset [of "(m, k)" "out s"] by (intro mb_invI [OF inv]) auto
qed

lemma mb_inv_reply_publish:
  assumes inv: "mb_inv n manage routed s" and hp: "hpc s = H_Reply i" and n: "n \<le> 32"
  shows "mb_inv n manage routed (s\<lparr>agent := reply_end i (agent s), hpc := H_Idle\<rparr>)"
proof (rule mb_invI [OF inv])
  fix j assume j: "j < n" "slot_inv manage j (view_of routed s j)"
  have eq: "view_of routed (s\<lparr>agent := reply_end i (agent s), hpc := H_Idle\<rparr>) j =
      (view_of routed s j)\<lparr>v_wrote := False, v_repl := v_repl (view_of routed s j) \<or> v_wrote (view_of routed s j)\<rparr>"
    using j(1) hp n by (auto simp: view_of_def Let_def reply_end_def set_nspe_queue_replied_status_def)
  show "slot_inv manage j (view_of routed (s\<lparr>agent := reply_end i (agent s), hpc := H_Idle\<rparr>) j)"
    using j(2) unfolding eq by (elim slot_inv_cong_waiting) (auto simp: v_phases)
qed (simp_all add: reply_end_def set_nspe_queue_replied_status_def)

section \<open>The invariant\<close>

lemma mb_inv_call:
  assumes inv: "mb_inv n manage routed s" and p: "pc_slot (snd (task s t)) = None" and nc: "no_close routed (c, NS_Start)"
  shows "mb_inv n manage routed (s\<lparr>task := (task s)(t := (c, NS_Start))\<rparr>)"
proof -
  have "view_of routed (s\<lparr>task := (task s)(t := (c, NS_Start))\<rparr>) j = view_of routed s j" for j
    using p holders_same [of "task s" t j "(c, NS_Start)"] by (simp add: view_of_def Let_def)
  then show ?thesis using inv nc by (auto simp: mb_inv_def)
qed

lemma mb_inv_manager:
  "mb_inv n manage routed s \<Longrightarrow> length v = length (mb_vectors (agent s)) \<Longrightarrow> mb_inv n manage routed (s\<lparr>agent := (agent s)\<lparr>spm := x, mb_vectors := v\<rparr>\<rparr>)"
  by (rule mb_invI) (auto simp: view_of_def Let_def)

lemma mb_inv_step: "mb_step n manage routed rpc s s' \<Longrightarrow> n \<le> 32 \<Longrightarrow> mb_inv n manage routed s \<Longrightarrow> mb_inv n manage routed s'"
proof (induction rule: mb_step.induct)
  case (call s t c)
  then show ?case by (intro mb_inv_call) (auto simp: no_close_def)
next
  case (client s t c pc lock pc' q)
  then show ?case by (intro mb_inv_client)
next
  case (handler_begin s)
  then show ?case by (intro mb_inv_handler_begin)
next
  case (handler_slot s pend idx rs rs' a)
  have "idx < n" using handler_slot.prems(2) handler_slot.hyps(2) by (simp add: mb_inv_def)
  then show ?case using handler_slot by (intro mb_inv_handler_slot) simp_all
next
  case (handler_end s pend idx rs)
  then have "idx = n" by (simp add: mb_inv_def)
  then show ?case using handler_end by (intro mb_inv_handler_end) auto
next
  case (manager v s x)
  then show ?case by (intro mb_inv_manager)
next
  case (reply_write s m k handle ret idx a)
  then show ?case by (intro mb_inv_reply_write)
next
  case (reply_none s m k handle ret e)
  then show ?case by (intro mb_inv_reply_none(2))
next
  case (reply_publish s idx)
  then show ?case by (intro mb_inv_reply_publish)
next
  case (isr_begin s rs q)
  then show ?case by (intro mb_inv_isr_begin)
next
  case (isr_slot s rs idx w rs' q)
  then show ?case by (intro mb_inv_isr_slot)
next
  case (isr_end s rs)
  then show ?case by (intro mb_inv_isr_end)
qed

lemma mb_inv_init: "mb_init n s \<Longrightarrow> 0 < n \<Longrightarrow> n \<le> 32 \<Longrightarrow> mb_inv n manage routed s"
  by (auto simp: mb_init_def mb_inv_def empty_queue_def slot_inv_def v_quiet_def view_of_def Let_def bit_all_slots holders_def fun_eq_iff no_close_def)

lemma mb_reach_inv: "mb_reach n manage routed rpc s \<Longrightarrow> 0 < n \<Longrightarrow> n \<le> 32 \<Longrightarrow> mb_inv n manage routed s"
  by (induction rule: mb_reach.induct) (auto intro: mb_inv_init mb_inv_step)

section \<open>What the mailbox promises\<close>

text \<open>A task that has taken its reply has the only answer that was written to its slot.\<close>

lemma taken_reply_is_own:
  assumes r: "mb_reach n manage routed rpc s" "0 < n" "n \<le> 32" and t: "task s t = (c, NS_Taken idx reply)"
  shows "\<exists>m. ans s idx = [(m, reply)] \<and> (routed \<longrightarrow> m = received_msg manage (call_message c))"
  using mb_inv_holder(4) [OF mb_reach_inv [OF r] t] by (simp add: v_held_def v_own_def view_of_def Let_def)

text \<open>A slot has at most one holder.\<close>

lemma slot_exclusive:
  assumes r: "mb_reach n manage routed rpc s" "0 < n" "n \<le> 32" and p: "pc_slot (snd (task s t)) = Some idx" "pc_slot (snd (task s u)) = Some idx"
  shows "t = u"
proof -
  have "v_hold (view_of routed s idx) = [t \<mapsto> task s t]" "v_hold (view_of routed s idx) = [u \<mapsto> task s u]"
    using mb_inv_holder(2) [OF mb_reach_inv [OF r], of t "fst (task s t)" "snd (task s t)"] mb_inv_holder(2) [OF mb_reach_inv [OF r], of u "fst (task s u)" "snd (task s u)"] p
    by simp_all
  then show ?thesis by (metis fun_upd_apply option.distinct(1))
qed

text \<open>
  With \<open>routed\<close> no request and no reply is lost: when the agent and the interrupt are at rest and no status bit is set, a
  task that still waits has been woken and its answer is in the slot, or the manager has its message and the
  reply to it will reach the slot, or its call is of no known kind.
\<close>

lemma waiting_not_lost:
  assumes r: "mb_reach n manage True rpc s" "0 < n" "n \<le> 32" and t: "task s t = (c, NS_Waiting idx)"
    and q: "hpc s = H_Idle" "ipc s = I_Idle" "pend_slots (shm (agent s)) = 0" "replied_slots (shm (agent s)) = 0"
  shows "is_woken (slots_ns (shm (agent s)) ! idx) \<and> ans s idx = [(received_msg manage (call_message c), slot_reply (mb_slots (shm (agent s)) ! idx))] \<or>
    (received_msg manage (call_message c), idx) \<in> set (out s) \<and>
      (\<forall>ret. \<exists>a. reply_begin n (spe_msg_handle (spe_queue (spe_mailbox_queue (agent s)) ! idx)) ret (agent s) = Some (Inr (idx, a))) \<or>
    \<not> known_call (call_message c)"
proof -
  have inv: "mb_inv n manage True s" by (rule mb_reach_inv [OF r])
  note h = mb_inv_holder [OF inv t, unfolded pc_slot.simps, OF refl]
  consider "v_answered manage c (view_of True s idx)" | "v_served manage idx c (view_of True s idx)" | "\<not> known_call (call_message c)"
    using h(4) q(3) by (auto simp: v_held_def v_request_def v_dropped_def view_of_def Let_def)
  then show ?thesis
  proof cases
    case 1
    then show ?thesis using q by (simp add: v_answered_def v_own_def view_of_def Let_def)
  next
    case 2
    then have v: "out_of (out s) idx = [received_msg manage (call_message c)]"
      "spe_msg_handle (spe_queue (spe_mailbox_queue (agent s)) ! idx) = word_of_nat (idx + 1)"
      "ns_slot_idx (spe_queue (spe_mailbox_queue (agent s)) ! idx) = idx" "\<not> bit (spe_empty_slots (spe_mailbox_queue (agent s))) idx"
      by (simp_all add: v_served_def view_of_def Let_def)
    have "(received_msg manage (call_message c), idx) \<in> set (out s)" using v(1) by (simp flip: in_out_of)
    moreover have "ns_slot_count (spe_mailbox_queue (agent s)) = n" using inv by (simp add: mb_inv_def)
    ultimately show ?thesis using reply_begin_total [OF h(1) r(3) v(3) _ v(4) reply_idx_handle [OF h(1) r(3)]] v(2) h(1) by simp
  qed simp
qed

text \<open>The task that the interrupt wakes for a slot is the one that waits on it.\<close>

lemma mailbox_wakes_owner:
  assumes r: "mb_reach n manage routed rpc s" "0 < n" "n \<le> 32" and i: "ipc s = I_Loop rs idx" "idx < n" "bit rs idx"
  shows "\<exists>t c q. task s t = (c, NS_Waiting idx) \<and> wake_slot n idx rs (shm (agent s)) = (Some (nc_task c), rs AND NOT (slot_bit idx), q)"
proof -
  have inv: "mb_inv n manage routed s" by (rule mb_reach_inv [OF r])
  have si: "slot_inv manage idx (view_of routed s idx)" "length (slots_ns (shm (agent s))) = n" using inv i(2) by (simp_all add: mb_inv_def)
  have "v_isr (view_of routed s idx)" using i by (simp add: view_of_def Let_def)
  then have "\<not> v_quiet (view_of routed s idx)" by (simp add: v_quiet_def)
  then obtain t c where w: "v_hold (view_of routed s idx) = [t \<mapsto> (c, NS_Waiting idx)]" "v_owner (view_of routed s idx) = nc_task c"
    using slot_inv_waiting [OF si(1)] by metis
  have "holders (task s) idx t = Some (c, NS_Waiting idx)" using w(1) by (simp add: view_of_def Let_def)
  then have "task s t = (c, NS_Waiting idx)" by (simp add: holders_def split: if_splits)
  moreover have "slot_owner (slots_ns (shm (agent s)) ! idx) = nc_task c" using w(2) by (simp add: view_of_def Let_def)
  ultimately show ?thesis using i si(2) by (auto simp: wake_slot_def Let_def set_queue_slot_woken_def)
qed

text \<open>A call of an unknown kind is dropped without a reply: its task waits for ever.\<close>

lemma unknown_call_not_woken:
  assumes "mb_inv n manage routed s" "task s t = (c, NS_Waiting idx)" "\<not> known_call (call_message c)"
  shows "client_call_step n c lock (NS_Waiting idx) (shm (agent s)) = (NS_Waiting idx, shm (agent s))"
  using mb_inv_holder(4) [OF assms(1,2)] assms(3)
  by (auto simp: v_held_def v_phases view_of_def Let_def client_call_step_def mailbox_wait_reply_signal_def is_queue_slot_woken_def)

lemma unknown_call_step:
  assumes "mb_step n manage routed rpc s s'" "mb_inv n manage routed s" "task s t = (c, NS_Waiting idx)" "\<not> known_call (call_message c)"
  shows "task s' t = (c, NS_Waiting idx)"
  using assms unknown_call_not_woken [OF assms(2-4)]
  by (induction rule: mb_step.induct) (auto simp: upd_shm_def add_answer_def)

lemma unknown_call_waits:
  assumes r: "mb_reach n manage routed rpc s" "0 < n" "n \<le> 32" and t: "task s t = (c, NS_Waiting idx)"
    and k: "\<not> known_call (call_message c)" and m: "(mb_step n manage routed rpc)\<^sup>*\<^sup>* s s'"
  shows "task s' t = (c, NS_Waiting idx)"
proof -
  have "mb_reach n manage routed rpc s' \<and> task s' t = (c, NS_Waiting idx)"
    using m by (induction rule: rtranclp_induct) (use r t k in \<open>auto intro: mb_reach.step unknown_call_step mb_reach_inv\<close>)
  then show ?thesis by simp
qed

end
