(* ===== verification/Mailbox_RPC.thy ===== *)
theory Mailbox_RPC
  imports Mailbox_SPE
begin

unbundle bit_operations_syntax

text \<open>
  The calls between the mailbox agent and the manager (secure_fw/spm/core/tfm_rpc.c), the callbacks the agent registers
  and its initialisation (tfm_spe_mailbox.c). The agent's static data that the manager reads or keeps pointers to
  has addresses: the parameters of a call, the local vectors of a slot and the handle of a slot. The assertions of
  tfm_rpc.c that these are not \<open>NULL\<close> are empty in a release build.
\<close>

section \<open>Requests to the manager\<close>

record mailbox_layout =
  ml_params :: u32
  ml_in_vec :: "nat \<Rightarrow> u32"
  ml_out_vec :: "nat \<Rightarrow> u32"
  ml_msg_handle :: "nat \<Rightarrow> u32"

definition PSA_FRAMEWORK_VERSION :: u32 where "PSA_FRAMEWORK_VERSION = 0x0101"

definition tfm_spm_client_psa_framework_version :: u32 where
  "tfm_spm_client_psa_framework_version = PSA_FRAMEWORK_VERSION"

definition tfm_rpc_psa_framework_version :: u32 where
  "tfm_rpc_psa_framework_version = tfm_spm_client_psa_framework_version"

definition tfm_rpc_psa_version :: "u32 \<Rightarrow> u32 spm" where
  "tfm_rpc_psa_version rot_sid s = tfm_spm_client_psa_version rot_sid s"

definition tfm_rpc_psa_call :: "spm_env \<Rightarrow> u32 \<Rightarrow> u32 \<Rightarrow> u32 \<Rightarrow> u32 \<Rightarrow> psa_status_t spm" where
  "tfm_rpc_psa_call env handle control params client_data_stateless s =
     tfm_spm_agent_psa_call env handle control params client_data_stateless s"

definition tfm_rpc_psa_connect :: "spm_env \<Rightarrow> u32 \<Rightarrow> u32 \<Rightarrow> int \<Rightarrow> u32 \<Rightarrow> psa_status_t spm" where
  "tfm_rpc_psa_connect env rot_sid version ns_client_id data s =
     tfm_spm_agent_psa_connect env rot_sid version ns_client_id data s"

definition tfm_rpc_psa_close :: "spm_env \<Rightarrow> u32 \<Rightarrow> int \<Rightarrow> psa_status_t spm" where
  "tfm_rpc_psa_close env handle ns_client_id s = tfm_spm_agent_psa_close env handle ns_client_id s"

text \<open>The parameters and the vectors of a call in memory, as the manager reads them.\<close>

fun store_vec :: "u32 \<Rightarrow> (u32 \<times> u32) list \<Rightarrow> memory \<Rightarrow> memory" where
  "store_vec a [] m = m"
| "store_vec a ((b, l) # v) m = store_vec (a + 8) v (mem_wr32 (mem_wr32 m a b) (a + 4) l)"

definition store_params :: "mailbox_layout \<Rightarrow> int \<Rightarrow> nat \<Rightarrow> (u32 \<times> u32) list \<Rightarrow> (u32 \<times> u32) list \<Rightarrow> memory \<Rightarrow> memory" where
  "store_params ml cid idx invecs outvecs m =
     mem_wr32 (mem_wr32 (mem_wr32 (store_vec (ml_out_vec ml idx) outvecs (store_vec (ml_in_vec ml idx) invecs m))
       (ml_params ml) (word_of_int cid)) (ml_params ml + 4) (ml_in_vec ml idx)) (ml_params ml + 8) (ml_out_vec ml idx)"

fun spm_rpc :: "spm_env \<Rightarrow> mailbox_layout \<Rightarrow> spm_state rpc" where
  "spm_rpc env ml RPC_Framework_Version s = Some (sint tfm_rpc_psa_framework_version, s)"
| "spm_rpc env ml (RPC_Version rot_sid) s = map_option (\<lambda>(v, s). (sint v, s)) (tfm_rpc_psa_version rot_sid s)"
| "spm_rpc env ml (RPC_Call handle control cid invecs outvecs idx) s =
     tfm_rpc_psa_call env handle control (ml_params ml) (ml_msg_handle ml idx)
       (s\<lparr>ram := store_params ml cid idx invecs outvecs (ram s)\<rparr>)"
| "spm_rpc env ml (RPC_Connect rot_sid version cid idx) s = tfm_rpc_psa_connect env rot_sid version cid (ml_msg_handle ml idx) s"
| "spm_rpc env ml (RPC_Close handle cid) s = tfm_rpc_psa_close env handle cid s"

section \<open>Callbacks\<close>

text \<open>The registered operations are the default ones or those of the mailbox.\<close>

datatype rpc_callback = Default_Callback | Mailbox_Callback

record tfm_rpc_ops_t =
  op_handle_req :: rpc_callback
  op_reply :: rpc_callback

definition default_ops :: tfm_rpc_ops_t where
  "default_ops = \<lparr>op_handle_req = Default_Callback, op_reply = Default_Callback\<rparr>"

definition mailbox_rpc_ops :: tfm_rpc_ops_t where
  "mailbox_rpc_ops = \<lparr>op_handle_req = Mailbox_Callback, op_reply = Mailbox_Callback\<rparr>"

datatype rpc_status = TFM_RPC_SUCCESS | TFM_RPC_INVAL_PARAM | TFM_RPC_CONFLICT_CALLBACK

definition tfm_rpc_register_ops :: "tfm_rpc_ops_t option \<Rightarrow> tfm_rpc_ops_t \<Rightarrow> rpc_status \<times> tfm_rpc_ops_t" where
  "tfm_rpc_register_ops ops_ptr rpc_ops =
     (case ops_ptr of
        None \<Rightarrow> (TFM_RPC_INVAL_PARAM, rpc_ops)
      | Some ops \<Rightarrow>
          if op_handle_req rpc_ops \<noteq> Default_Callback \<or> op_reply rpc_ops \<noteq> Default_Callback
          then (TFM_RPC_CONFLICT_CALLBACK, rpc_ops)
          else (TFM_RPC_SUCCESS, rpc_ops\<lparr>op_handle_req := op_handle_req ops, op_reply := op_reply ops\<rparr>))"

definition tfm_rpc_unregister_ops :: "tfm_rpc_ops_t \<Rightarrow> tfm_rpc_ops_t" where
  "tfm_rpc_unregister_ops rpc_ops = rpc_ops\<lparr>op_handle_req := Default_Callback, op_reply := Default_Callback\<rparr>"

text \<open>The owner is an address: the handle that is read there is that of the slot with this address.\<close>

definition read_owner :: "nat \<Rightarrow> mailbox_layout \<Rightarrow> u32 \<Rightarrow> 'q spe \<Rightarrow> u32 option" where
  "read_owner n ml owner s =
     map_option (\<lambda>i. spe_msg_handle (spe_queue (spe_mailbox_queue s) ! i)) (find (\<lambda>i. ml_msg_handle ml i = owner) [0..<n])"

definition mailbox_reply :: "nat \<Rightarrow> mailbox_layout \<Rightarrow> u32 \<Rightarrow> psa_status_t \<Rightarrow> 'q spe \<Rightarrow> 'q spe option" where
  "mailbox_reply n ml owner ret s =
     (case (if owner = 0 then Some 0 else read_owner n ml owner s) of
        None \<Rightarrow> None
      | Some handle \<Rightarrow> map_option (\<lambda>(_, _, s). s) (tfm_mailbox_reply_msg n handle ret s))"

definition mailbox_handle_req :: "nat \<Rightarrow> bool \<Rightarrow> 'q rpc \<Rightarrow> 'q spe \<Rightarrow> 'q spe option" where
  "mailbox_handle_req n manage_nsid rpc s = map_option (\<lambda>(_, _, s). s) (tfm_mailbox_handle_msg n manage_nsid rpc s)"

definition tfm_rpc_client_call_handler :: "nat \<Rightarrow> bool \<Rightarrow> 'q rpc \<Rightarrow> tfm_rpc_ops_t \<Rightarrow> 'q spe \<Rightarrow> 'q spe option" where
  "tfm_rpc_client_call_handler n manage_nsid rpc rpc_ops s =
     (case op_handle_req rpc_ops of Default_Callback \<Rightarrow> Some s | Mailbox_Callback \<Rightarrow> mailbox_handle_req n manage_nsid rpc s)"

text \<open>
  A finished request: the message names the connection, whose client data is the owner. The connection is freed or
  goes back to idle after the callback. \<open>msgp\<close> is the address of the message.
\<close>

definition tfm_rpc_client_call_reply ::
  "nat \<Rightarrow> spm_env \<Rightarrow> mailbox_layout \<Rightarrow> u32 \<Rightarrow> tfm_rpc_ops_t \<Rightarrow> spm_state spe \<Rightarrow> spm_state spe option" where
  "tfm_rpc_client_call_reply n env ml msgp rpc_ops s =
     (case tfm_spm_partition_psa_get env ASYNC_MSG_REPLY msgp (spm s) of
        None \<Rightarrow> None
      | Some ((status, None), s1) \<Rightarrow> None
      | Some ((status, Some m), s1) \<Rightarrow>
          let c = rhandle m; s = s\<lparr>spm := s1\<rparr> in
          (case (case op_reply rpc_ops of
                   Default_Callback \<Rightarrow> Some s
                 | Mailbox_Callback \<Rightarrow> mailbox_reply n ml (client_data (conns s1 c)) status s) of
             None \<Rightarrow> None
           | Some s \<Rightarrow>
               Some (s\<lparr>spm := if conn_status (conns (spm s) c) = TFM_HANDLE_STATUS_TO_FREE then spm_free_connection c (spm s)
                              else set_status c TFM_HANDLE_STATUS_IDLE (spm s)\<rparr>)))"

section \<open>Initialisation\<close>

definition empty_spe_queue :: "nat \<Rightarrow> secure_mailbox_queue_t" where
  "empty_spe_queue n = \<lparr>spe_empty_slots = all_slots n, spe_queue = replicate n zero_spe_slot, ns_slot_count = 0\<rparr>"

definition tfm_mailbox_init ::
  "nat \<Rightarrow> (bool \<times> bool \<times> bool) \<Rightarrow> u32 \<Rightarrow> tfm_rpc_ops_t \<Rightarrow> 'q spe \<Rightarrow> (mailbox_status \<times> tfm_rpc_ops_t \<times> 'q spe) option" where
  "tfm_mailbox_init n ok slot_count rpc_ops s =
     (let s = s\<lparr>spe_mailbox_queue := empty_spe_queue n\<rparr> in
      case tfm_rpc_register_ops (Some mailbox_rpc_ops) rpc_ops of
        (ret, rpc_ops) \<Rightarrow>
          if ret \<noteq> TFM_RPC_SUCCESS then Some (MAILBOX_CALLBACK_REG_ERROR, rpc_ops, s)
          else case tfm_mailbox_hal_init n ok slot_count (spe_mailbox_queue s) of
            None \<Rightarrow> None
          | Some (ret, q) \<Rightarrow>
              if ret \<noteq> MAILBOX_SUCCESS then Some (ret, tfm_rpc_unregister_ops rpc_ops, s\<lparr>spe_mailbox_queue := q\<rparr>)
              else Some (MAILBOX_SUCCESS, rpc_ops, s\<lparr>spe_mailbox_queue := q\<rparr>))"

end
