(* ===== verification/Mailbox_Guard.thy ===== *)
theory Mailbox_Guard
  imports Mailbox_Frame Mailbox_RPC SPM_Reply
begin

unbundle bit_operations_syntax

text \<open>
  The requests that the mailbox passes to the manager: whatever the other core writes into the shared memory, a
  request has at most four vectors, they are marked as non-secure, and its client identifier is in the range that
  is registered for the mailbox. Then the requests that get no reply of their own.
\<close>

section \<open>Client identifiers\<close>

definition regions_ok :: "client_id_region_t list \<Rightarrow> bool" where
  "regions_ok regions \<longleftrightarrow> (\<forall>i<MAX_MAILBOX_NUMBER. cid_owner (regions ! i) \<noteq> 0 \<longrightarrow>
     int32 (cid_base (regions ! i)) \<and> cid_base (regions ! i) \<le> cid_limit (regions ! i) \<and> cid_limit (regions ! i) < 0)"

definition owner_region :: "u32 \<Rightarrow> client_id_region_t list \<Rightarrow> client_id_region_t option" where
  "owner_region owner regions = find (\<lambda>r. cid_owner r = owner) (take MAX_MAILBOX_NUMBER regions)"

lemma find_nth: "length xs = k \<Longrightarrow> find P xs = map_option ((!) xs) (find (\<lambda>i. P (xs ! i)) [0..<k])"
proof (induction xs arbitrary: k)
  case (Cons x xs)
  have "[0..<k] = 0 # map Suc [0..<length xs]" using Cons.prems by (simp add: upt_conv_Cons map_Suc_upt del: upt_Suc)
  moreover have "find (\<lambda>i. P ((x # xs) ! i)) (map Suc is) = map_option Suc (find (\<lambda>i. P (xs ! i)) is)" for "is"
    by (induction "is") auto
  ultimately show ?case using Cons.IH [OF refl] by (auto simp: option.map_comp o_def)
qed simp

lemma owner_region_find:
  "length regions = MAX_MAILBOX_NUMBER \<Longrightarrow>
   owner_region owner regions = map_option ((!) regions) (find (\<lambda>i. cid_owner (regions ! i) = owner) [0..<MAX_MAILBOX_NUMBER])"
  unfolding owner_region_def by (subst find_nth [of _ MAX_MAILBOX_NUMBER]) auto

lemma client_id_translate_eq:
  assumes r: "regions_ok regions" "length regions = MAX_MAILBOX_NUMBER" "owner \<noteq> 0" "owner_region owner regions = Some g" and x: "int32 x"
  shows "tfm_multi_core_hal_client_id_translate owner x True regions =
    Some (if x < 0 \<and> x + (cid_limit g - cid_base g) \<ge> -1 then Inr (cid_limit g + 1 + x) else Inl SPM_ERROR_GENERIC)"
proof -
  obtain i where i: "find (\<lambda>i. cid_owner (regions ! i) = owner) [0..<MAX_MAILBOX_NUMBER] = Some i" "g = regions ! i"
    using r(4) by (auto simp: owner_region_find [OF r(2)])
  then have "i < MAX_MAILBOX_NUMBER" "cid_owner (regions ! i) = owner" by (auto simp: find_Some_iff)
  then have "int32 (cid_base g)" "cid_base g \<le> cid_limit g" "cid_limit g < 0" using r(1,3) i(2) by (auto simp: regions_ok_def)
  then show ?thesis using i r(3) x
    by (auto simp: tfm_multi_core_hal_client_id_translate_def Let_def int32_def)
qed

lemma client_id_translate_range:
  assumes r: "regions_ok regions" "length regions = MAX_MAILBOX_NUMBER" "owner \<noteq> 0"
    and t: "tfm_multi_core_hal_client_id_translate owner x True regions = Some (Inr c)"
  obtains g where "owner_region owner regions = Some g" "cid_base g \<le> c" "c \<le> cid_limit g" "cid_limit g < 0"
proof -
  obtain i where i: "find (\<lambda>i. cid_owner (regions ! i) = owner) [0..<MAX_MAILBOX_NUMBER] = Some i"
      "x < 0" "c = cid_limit (regions ! i) + 1 + x" "- (cid_limit (regions ! i) - cid_base (regions ! i)) - 1 \<le> x"
    using t by (auto simp: tfm_multi_core_hal_client_id_translate_def Let_def split: option.splits if_splits)
  moreover have "i < MAX_MAILBOX_NUMBER" "cid_owner (regions ! i) \<noteq> 0" using i(1) r(3) by (auto simp: find_Some_iff)
  ultimately show ?thesis using that [of "regions ! i"] r(1,2) by (auto simp: owner_region_find regions_ok_def)
qed

section \<open>Requests\<close>

definition client_id_ok :: "client_id_region_t list \<Rightarrow> int \<Rightarrow> bool" where
  "client_id_ok regions cid \<longleftrightarrow> (case owner_region CLIENT_ID_OWNER_MAGIC regions of
     None \<Rightarrow> False | Some g \<Rightarrow> cid_base g \<le> cid \<and> cid \<le> cid_limit g \<and> cid < 0)"

fun request_ok :: "nat \<Rightarrow> client_id_region_t list \<Rightarrow> rpc_req \<Rightarrow> bool" where
  "request_ok n regions RPC_Framework_Version = True"
| "request_ok n regions (RPC_Version s) = True"
| "request_ok n regions (RPC_Call h control cid iv ov idx) \<longleftrightarrow>
     idx < n \<and> client_id_ok regions cid \<and> PARAM_IS_NS_INVEC control \<and> PARAM_IS_NS_OUTVEC control \<and>
     PARAM_UNPACK_IN_LEN control + PARAM_UNPACK_OUT_LEN control \<le> PSA_MAX_IOVEC \<and>
     length iv = PSA_MAX_IOVEC \<and> length ov = PSA_MAX_IOVEC \<and>
     (\<forall>k<PSA_MAX_IOVEC. PARAM_UNPACK_IN_LEN control \<le> k \<longrightarrow> iv ! k = (0, 0)) \<and>
     (\<forall>k<PSA_MAX_IOVEC. PARAM_UNPACK_OUT_LEN control \<le> k \<longrightarrow> ov ! k = (0, 0))"
| "request_ok n regions (RPC_Connect s v cid idx) \<longleftrightarrow> idx < n \<and> client_id_ok regions cid"
| "request_ok n regions (RPC_Close h cid) \<longleftrightarrow> client_id_ok regions cid"

text \<open>A manager that stops on any other request.\<close>

definition guard_rpc :: "(rpc_req \<Rightarrow> bool) \<Rightarrow> 'q rpc \<Rightarrow> 'q rpc" where
  "guard_rpc P rpc r q = (if P r then rpc r q else None)"

lemma call_rpc_guard [simp]: "P r \<Longrightarrow> call_rpc (guard_rpc P rpc) r s = call_rpc rpc r s"
  by (simp add: call_rpc_def guard_rpc_def)

lemma with_client_id_guard:
  assumes "regions_ok (client_id_regions s)" "length (client_id_regions s) = MAX_MAILBOX_NUMBER"
    and "\<And>cid. client_id_ok (client_id_regions s) cid \<Longrightarrow> P (req cid)"
  shows "with_client_id m s req (guard_rpc P rpc) = with_client_id m s req rpc"
proof -
  have "P (req c)" if "tfm_multi_core_hal_client_id_translate CLIENT_ID_OWNER_MAGIC (mb_client_id m) True (client_id_regions s) = Some (Inr c)" for c
    by (rule client_id_translate_range [OF assms(1,2) _ that]) (auto simp: CLIENT_ID_OWNER_MAGIC_def client_id_ok_def intro!: assms(3))
  then show ?thesis by (auto simp: with_client_id_def split: option.splits sum.splits)
qed


text \<open>The marks leave the lengths in the control word alone.\<close>

lemma param_in_len_type: "PARAM_UNPACK_IN_LEN (PARAM_PACK ty i k) = PARAM_UNPACK_IN_LEN (PARAM_PACK 0 i k)"
  and param_out_len_type: "PARAM_UNPACK_OUT_LEN (PARAM_PACK ty i k) = PARAM_UNPACK_OUT_LEN (PARAM_PACK 0 i k)"
proof -
  have e: "(7 :: u32) = mask 3" by (simp add: mask_eq_exp_minus_1)
  have "PARAM_PACK ty i k AND push_bit 24 7 = PARAM_PACK 0 i k AND push_bit 24 7"
    unfolding e by (intro bit_word_eqI) (auto simp: bit_and_iff param_pack_bit bit_push_bit_iff bit_mask_iff)
  then show "PARAM_UNPACK_IN_LEN (PARAM_PACK ty i k) = PARAM_UNPACK_IN_LEN (PARAM_PACK 0 i k)" by (simp add: PARAM_UNPACK_IN_LEN_def)
  have "PARAM_PACK ty i k AND push_bit 16 7 = PARAM_PACK 0 i k AND push_bit 16 7"
    unfolding e by (intro bit_word_eqI) (auto simp: bit_and_iff param_pack_bit bit_push_bit_iff bit_mask_iff)
  then show "PARAM_UNPACK_OUT_LEN (PARAM_PACK ty i k) = PARAM_UNPACK_OUT_LEN (PARAM_PACK 0 i k)" by (simp add: PARAM_UNPACK_OUT_LEN_def)
qed

definition ns_control :: "u32 \<Rightarrow> u32" where
  "ns_control c = PARAM_SET_NS_OUTVEC (PARAM_SET_NS_INVEC c)"

lemma ns_control_marks: "PARAM_IS_NS_INVEC (ns_control c)" "PARAM_IS_NS_OUTVEC (ns_control c)"
  unfolding PARAM_IS_NS_INVEC_def PARAM_IS_NS_OUTVEC_def and_push_bit_1
  by (simp_all add: ns_control_def PARAM_SET_NS_INVEC_def PARAM_SET_NS_OUTVEC_def bit_or_iff bit_exp_iff)

lemma ns_control_lens: "PARAM_UNPACK_IN_LEN (ns_control c) = PARAM_UNPACK_IN_LEN c" "PARAM_UNPACK_OUT_LEN (ns_control c) = PARAM_UNPACK_OUT_LEN c"
proof -
  have e: "(7 :: u32) = mask 3" by (simp add: mask_eq_exp_minus_1)
  have b: "bit (ns_control c) k \<longleftrightarrow> bit c k \<or> k = 27 \<or> k = 19" for k
    unfolding ns_control_def PARAM_SET_NS_INVEC_def PARAM_SET_NS_OUTVEC_def slot_bit_def [symmetric] by auto
  have "ns_control c AND push_bit 24 7 = c AND push_bit 24 7"
    unfolding e by (intro bit_word_eqI) (auto simp: bit_and_iff b bit_push_bit_iff bit_mask_iff)
  then show "PARAM_UNPACK_IN_LEN (ns_control c) = PARAM_UNPACK_IN_LEN c" by (simp add: PARAM_UNPACK_IN_LEN_def)
  have "ns_control c AND push_bit 16 7 = c AND push_bit 16 7"
    unfolding e by (intro bit_word_eqI) (auto simp: bit_and_iff b bit_push_bit_iff bit_mask_iff)
  then show "PARAM_UNPACK_OUT_LEN (ns_control c) = PARAM_UNPACK_OUT_LEN c" by (simp add: PARAM_UNPACK_OUT_LEN_def)
qed

lemma local_copy_vects_request:
  assumes l: "local_copy_vects p idx (PARAM_PACK ty (unat (cp_in_len p)) (unat (cp_out_len p))) s = (Inr control, t)"
    and i: "idx < n" "length (mb_vectors s) = n" and c: "client_id_ok regions cid"
  shows "request_ok n regions (RPC_Call h control cid (v_in_vec (mb_vectors t ! idx)) (v_out_vec (mb_vectors t ! idx)) idx)"
proof -
  let ?i = "unat (cp_in_len p)" and ?o = "unat (cp_out_len p)"
  have b: "?i \<le> 4" "?o \<le> 4" "unat (cp_in_len p + cp_out_len p) \<le> 4" "control = ns_control (PARAM_PACK ty ?i ?o)"
    "mb_vectors t ! idx = \<lparr>v_in_vec = pad_vec ?i (cp_in_vec p), v_out_vec = pad_vec ?o (cp_out_vec p), v_out_len = cp_out_len p, v_in_use = True\<rparr>"
    using l i by (auto simp: local_copy_vects_def Let_def PSA_MAX_IOVEC_def ns_control_def split: if_splits)
  have s: "?i + ?o \<le> 4" using b(1-3) unat_add_lem [of "cp_in_len p" "cp_out_len p"] by simp
  have l': "PARAM_UNPACK_IN_LEN control = ?i" "PARAM_UNPACK_OUT_LEN control = ?o"
    unfolding b(4) ns_control_lens param_in_len_type [of ty] param_out_len_type [of ty]
    using param_pack_unpack(2,3) [of 0 ?i ?o] b(1,2) by simp_all
  show ?thesis using i(1) c s b(5) l' ns_control_marks [of "PARAM_PACK ty ?i ?o"] b(4)
    by (simp add: pad_vec_def PSA_MAX_IOVEC_def)
qed

text \<open>The parameters of the client interface pass the check of the secure side, which copies their vectors.\<close>

lemma ns_call_params_accepted:
  assumes "length iv + length ov \<le> PSA_MAX_IOVEC"
  shows "\<exists>control v. local_copy_vects (ns_call_params p0 h ty iv ov) idx c s = (Inr control, s\<lparr>mb_vectors := (mb_vectors s)[idx := v]\<rparr>)
     \<and> take (length iv) (v_in_vec v) = iv \<and> take (length ov) (v_out_vec v) = ov"
proof -
  have l: "length iv < 2 ^ 32" "length ov < 2 ^ 32" "length iv + length ov < 2 ^ 32" using assms by (simp_all add: PSA_MAX_IOVEC_def)
  have u: "unat (word_of_nat (length iv) :: u32) = length iv" "unat (word_of_nat (length ov) :: u32) = length ov"
    "unat (word_of_nat (length iv) + word_of_nat (length ov) :: u32) = length iv + length ov"
    using l by (simp_all add: unsigned_of_nat take_bit_nat_eq_self flip: of_nat_add)
  have p: "take (length v) (pad_vec (length v) (v @ w)) = v" if "length v \<le> PSA_MAX_IOVEC" for v w :: "(u32 \<times> u32) list"
    using that by (intro nth_equalityI) (auto simp: pad_vec_def nth_append)
  show ?thesis using assms u by (auto simp: local_copy_vects_def Let_def ns_call_params_def p)
qed

lemma dispatch_call_guard:
  assumes r: "regions_ok (client_id_regions s)" "length (client_id_regions s) = MAX_MAILBOX_NUMBER" and i: "idx < n" "length (mb_vectors s) = n"
  shows "dispatch_call (guard_rpc (request_ok n (client_id_regions s)) rpc) m idx s = dispatch_call rpc m idx s"
proof (cases "mb_call_type m = MAILBOX_PSA_CALL")
  case True
  obtain u t where l: "local_copy_vects (mb_params m) idx
      (PARAM_PACK (sint (cp_type_version (mb_params m))) (unat (cp_in_len (mb_params m))) (unat (cp_out_len (mb_params m)))) s = (u, t)"
    by fastforce
  have t: "client_id_regions t = client_id_regions s" using local_copy_vects_frame [OF l] by auto
  show ?thesis
  proof (cases u)
    case (Inr control)
    have "with_client_id m t (\<lambda>cid. RPC_Call h control cid (v_in_vec (mb_vectors t ! idx)) (v_out_vec (mb_vectors t ! idx)) idx)
        (guard_rpc (request_ok n (client_id_regions s)) rpc) =
      with_client_id m t (\<lambda>cid. RPC_Call h control cid (v_in_vec (mb_vectors t ! idx)) (v_out_vec (mb_vectors t ! idx)) idx) rpc" for h
      by (rule with_client_id_guard) (use r t local_copy_vects_request [OF l [unfolded Inr] i] in auto)
    then show ?thesis using True l Inr by (simp add: dispatch_call_def mailbox_call_types Let_def)
  qed (use True l in \<open>simp add: dispatch_call_def mailbox_call_types Let_def\<close>)
next
  case False
  have "with_client_id m s (\<lambda>cid. RPC_Connect x v cid idx) (guard_rpc (request_ok n (client_id_regions s)) rpc) = with_client_id m s (\<lambda>cid. RPC_Connect x v cid idx) rpc"
    "with_client_id m s (\<lambda>cid. RPC_Close x cid) (guard_rpc (request_ok n (client_id_regions s)) rpc) = with_client_id m s (\<lambda>cid. RPC_Close x cid) rpc" for x v
    by (rule with_client_id_guard; use r i in simp)+
  then show ?thesis using False by (simp add: dispatch_call_def Let_def)
qed

lemma handle_slot_guard:
  assumes "regions_ok (client_id_regions s)" "length (client_id_regions s) = MAX_MAILBOX_NUMBER" "length (mb_vectors s) = n"
  shows "handle_slot n manage (guard_rpc (request_ok n (client_id_regions s)) rpc) pend idx rs s = handle_slot n manage rpc pend idx rs s"
proof (cases "idx < n")
  case True
  have o: "client_id_regions (open_slot n manage idx s) = client_id_regions s" "mb_vectors (open_slot n manage idx s) = mb_vectors s"
    by (simp_all add: open_slot_def clear_spe_queue_empty_status_def)
  have "dispatch_call (guard_rpc (request_ok n (client_id_regions s)) rpc) m idx (open_slot n manage idx s) = dispatch_call rpc m idx (open_slot n manage idx s)" for m
    using dispatch_call_guard [of "open_slot n manage idx s" idx n rpc m] assms True o by simp
  then show ?thesis by (simp add: handle_slot_def tfm_mailbox_dispatch_def Let_def)
qed (simp add: handle_slot_def)

lemma handle_slots_guard:
  assumes "regions_ok (client_id_regions s)" "length (client_id_regions s) = MAX_MAILBOX_NUMBER" "length (mb_vectors s) = n"
    "length (spe_queue (spe_mailbox_queue s)) = n" "n \<le> 32"
  shows "handle_slots n manage (guard_rpc (request_ok n (client_id_regions s)) rpc) pend is rs s = handle_slots n manage rpc pend is rs s"
  using assms
proof (induction "is" arbitrary: rs s)
  case (Cons idx "is")
  show ?case
  proof (cases "handle_slot n manage rpc pend idx rs s")
    case (Some p)
    obtain rs' t where p: "p = (rs', t)" by fastforce
    have "only_slot idx s t"
      using Some p Cons.prems handle_slot_cases(2) [of n manage rpc pend idx rs s rs' t] by (cases "bit pend idx") (auto simp: handle_slot_def)
    then have t: "client_id_regions t = client_id_regions s" "length (mb_vectors t) = n" "length (spe_queue (spe_mailbox_queue t)) = n"
      using Cons.prems by (auto simp: only_slot_def)
    show ?thesis using Cons.IH [of t rs'] Cons.prems t Some p handle_slot_guard [OF Cons.prems(1-3)] by simp
  qed (use handle_slot_guard [OF Cons.prems(1-3)] in simp)
qed simp

section \<open>Requests without a reply of their own\<close>

text \<open>A close of the null handle succeeds at once, and then no reply is sent.\<close>

lemma dispatch_null_close:
  assumes m: "mb_call_type m = MAILBOX_PSA_CLOSE" "cp_handle_sid (mb_params m) = 0"
    and t: "tfm_multi_core_hal_client_id_translate CLIENT_ID_OWNER_MAGIC (mb_client_id m) True (client_id_regions s) = Some (Inr cid)" "cid < 0"
    and c: "current (spm s) = Some cur" "IS_NS_AGENT_MAILBOX (partitions (spm s) cur)"
  shows "tfm_mailbox_dispatch n (spm_rpc env ml) m idx reply_slots s = Some (MAILBOX_SUCCESS, reply_slots, s)"
  using m t c
  by (simp add: tfm_mailbox_dispatch_def dispatch_call_def mailbox_call_types with_client_id_def call_rpc_def tfm_rpc_psa_close_def
      tfm_spm_agent_psa_close_def spm_psa_close_client_id_associated_def)

text \<open>A close keeps the client data of every connection: the reply goes to the slot of the request before.\<close>

lemma backend_assert_signal_conns: "backend_assert_signal p sig s = Some (r, t) \<Longrightarrow> conns t = conns s"
  by (auto simp: backend_assert_signal_def Let_def bind_eq_Some_conv)

lemma backend_wait_signals_conns: "backend_wait_signals p sig s = Some (r, t) \<Longrightarrow> conns t = conns s"
  by (auto simp: backend_wait_signals_def Let_def bind_eq_Some_conv)

lemma backend_messaging_client_data: "backend_messaging c s = Some (r, t) \<Longrightarrow> client_data (conns t x) = client_data (conns s x)"
  by (auto simp: backend_messaging_def bind_eq_Some_conv dest!: backend_assert_signal_conns backend_wait_signals_conns
      split: option.splits if_splits)

lemma rpc_close_client_data:
  assumes c: "tfm_rpc_psa_close env handle cid s = Some (r, t)"
  shows "client_data (conns t x) = client_data (conns s x)"
proof -
  have idle: "u = s" if "spm_get_idle_connection env handle cid s = Some (e, u)" "\<not> IS_STATIC_HANDLE handle" for e u
    using that by (auto simp: spm_get_idle_connection_def bind_eq_Some_conv Let_def split: if_splits)
  have k: "spm_psa_close_client_id_associated env handle cid s = Some (r, t)"
    using c by (auto simp: tfm_rpc_psa_close_def tfm_spm_agent_psa_close_def bind_eq_Some_conv split: if_splits)
  show ?thesis
  proof (cases "handle = 0 \<or> IS_STATIC_HANDLE handle")
    case False
    then obtain e where g: "spm_get_idle_connection env handle cid s = Some (e, s)"
      using k idle by (auto simp: spm_psa_close_client_id_associated_def bind_eq_Some_conv)
    show ?thesis
    proof (cases e)
      case (Inr p)
      have "backend_messaging p (upd_conn p (\<lambda>c. c\<lparr>msg := (msg c)\<lparr>msg_type := PSA_IPC_DISCONNECT\<rparr>\<rparr>) s) = Some (r, t)"
        using k g False Inr by (simp add: spm_psa_close_client_id_associated_def)
      then show ?thesis by (auto dest!: backend_messaging_client_data [where x = x])
    qed (use k g False in \<open>simp add: spm_psa_close_client_id_associated_def\<close>)
  qed (use k in \<open>auto simp: spm_psa_close_client_id_associated_def split: if_splits\<close>)
qed

section \<open>The route of a reply\<close>

text \<open>
  A call or a connection that the manager accepts leaves the address of the slot's handle in the active connection,
  and the reply callback reads there the handle that the slot then holds.
\<close>

lemma error_not_success: "psa_error_code e \<noteq> PSA_SUCCESS"
  by (cases e) (simp_all add: PSA_SUCCESS_def)

lemma backend_messaging_active:
  "backend_messaging c s = Some (PSA_SUCCESS, t) \<Longrightarrow> client_data (conns t c) = client_data (conns s c) \<and> conn_status (conns t c) = TFM_HANDLE_STATUS_ACTIVE"
  using backend_messaging_client_data [of c s PSA_SUCCESS t c]
  by (auto simp: backend_messaging_def bind_eq_Some_conv PSA_SUCCESS_def split: option.splits if_splits)

lemma rpc_call_owner:
  assumes "tfm_rpc_psa_call env handle control params owner s = Some (PSA_SUCCESS, t)"
  shows "\<exists>c. client_data (conns t c) = owner \<and> conn_status (conns t c) = TFM_HANDLE_STATUS_ACTIVE"
proof -
  let ?call = "\<lambda>r s1. case r of Inl e \<Rightarrow> Some (psa_error_code e, s1)
    | Inr c \<Rightarrow> spm_associate_call_params env c control (mem_rd32 (ram s1) (params + 4)) (mem_rd32 (ram s1) (params + 8)) s1 \<bind>
        (\<lambda>(r, s2). case r of Inl e \<Rightarrow> Some (psa_error_code e, if IS_STATIC_HANDLE handle then spm_free_connection c s2 else s2)
           | Inr _ \<Rightarrow> backend_messaging c (upd_conn c (\<lambda>c. c\<lparr>client_data := owner\<rparr>) s2))"
  obtain r s1 where r: "?call r s1 = Some (PSA_SUCCESS, t)"
    using assms [unfolded tfm_rpc_psa_call_def tfm_spm_agent_psa_call_def Let_def] error_not_success [of PSA_ERROR_PROGRAMMER_ERROR]
    by (auto simp: bind_eq_Some_conv simp del: psa_error_code.simps split: if_split_asm)
  then obtain c where c: "r = Inr c" using error_not_success by (cases r) auto
  then obtain r' :: "psa_error + unit" and s2 where r': "(case r' of Inl e \<Rightarrow> Some (psa_error_code e, if IS_STATIC_HANDLE handle then spm_free_connection c s2 else s2)
           | Inr _ \<Rightarrow> backend_messaging c (upd_conn c (\<lambda>c. c\<lparr>client_data := owner\<rparr>) s2)) = Some (PSA_SUCCESS, t)"
    using r by (auto simp: bind_eq_Some_conv)
  then have "backend_messaging c (upd_conn c (\<lambda>c. c\<lparr>client_data := owner\<rparr>) s2) = Some (PSA_SUCCESS, t)"
    using error_not_success by (cases r') auto
  then show ?thesis using backend_messaging_active by force
qed

lemma rpc_connect_owner:
  assumes "tfm_rpc_psa_connect env rot_sid version cid owner s = Some (PSA_SUCCESS, t)"
  shows "\<exists>c. client_data (conns t c) = owner \<and> conn_status (conns t c) = TFM_HANDLE_STATUS_ACTIVE"
proof -
  obtain r s1 where r: "(case r of Inl e \<Rightarrow> Some (psa_error_code e, s1)
      | Inr c \<Rightarrow> backend_messaging c (upd_conn c (\<lambda>c. c\<lparr>client_data := owner\<rparr>) s1)) = Some (PSA_SUCCESS, t)"
    using assms by (auto simp: tfm_rpc_psa_connect_def tfm_spm_agent_psa_connect_def bind_eq_Some_conv Let_def split: if_split_asm)
  then obtain c where "backend_messaging c (upd_conn c (\<lambda>c. c\<lparr>client_data := owner\<rparr>) s1) = Some (PSA_SUCCESS, t)"
    using error_not_success by (cases r) auto
  then show ?thesis using backend_messaging_active by force
qed

lemma mailbox_reply_owner:
  assumes "inj_on (ml_msg_handle ml) {..<n}" "k < n" "ml_msg_handle ml k \<noteq> 0"
  shows "mailbox_reply n ml (ml_msg_handle ml k) ret s =
    map_option (\<lambda>(_, _, s). s) (tfm_mailbox_reply_msg n (spe_msg_handle (spe_queue (spe_mailbox_queue s) ! k)) ret s)"
proof -
  have "ml_msg_handle ml j \<noteq> ml_msg_handle ml k" if "j < k" for j using assms(1,2) that by (auto dest!: inj_onD)
  then have "find (\<lambda>i. ml_msg_handle ml i = ml_msg_handle ml k) [0..<n] = Some k"
    using assms by (auto simp: find_Some_iff intro!: exI [of _ k])
  then show ?thesis using assms(3) by (simp add: mailbox_reply_def read_owner_def)
qed

end
