(* ===== verification/Mailbox_Properties.thy ===== *)
theory Mailbox_Properties
  imports Mailbox_Protocol Mailbox_Guard
begin

unbundle bit_operations_syntax

text \<open>
  The properties of the mailbox between the cores, and runs of it with a single slot on which they are
  evaluated.
\<close>

section \<open>Runs\<close>

text \<open>The steps as functions: a step that is not enabled changes nothing.\<close>

definition run_client :: "nat \<Rightarrow> nat \<Rightarrow> 'q mbox \<Rightarrow> 'q mbox" where
  "run_client n t s = (case task s t of (c, pc) \<Rightarrow> (case client_call_step n c True pc (shm (agent s)) of (pc', q) \<Rightarrow>
     upd_shm q (s\<lparr>task := (task s)(t := (c, pc')),
       ans := (case (pc, pc') of (NS_Start, NS_Acquired idx) \<Rightarrow> (ans s)(idx := []) | _ \<Rightarrow> ans s)\<rparr>)))"




lemma run_client_reach: "mb_reach n manage routed rpc s \<Longrightarrow> mb_reach n manage routed rpc (run_client n t s)"
proof -
  assume r: "mb_reach n manage routed rpc s"
  obtain c pc where t: "task s t = (c, pc)" by fastforce
  obtain pc' q where st: "client_call_step n c True pc (shm (agent s)) = (pc', q)" by fastforce
  show ?thesis using mb_reach.step [OF r mb_step.client [OF t st]] by (simp add: run_client_def t st)
qed




text \<open>One slot, a manager that accepts every request and answers that for the framework version at once.\<close>

definition mw_rpc :: "unit rpc" where
  "mw_rpc r q = Some (case r of RPC_Framework_Version \<Rightarrow> 0x0101 | _ \<Rightarrow> PSA_SUCCESS, ())"

definition mw_regions :: "client_id_region_t list" where
  "mw_regions = [\<lparr>cid_base = -10, cid_limit = -1, cid_owner = CLIENT_ID_OWNER_MAGIC\<rparr>, \<lparr>cid_base = 0, cid_limit = 0, cid_owner = 0\<rparr>]"

definition mw_spe :: "unit spe" where
  "mw_spe = \<lparr>shm = empty_queue 1,
     spe_mailbox_queue = \<lparr>spe_empty_slots = all_slots 1, spe_queue = [zero_spe_slot], ns_slot_count = 1\<rparr>,
     mb_vectors = [\<lparr>v_in_vec = replicate 4 (0, 0), v_out_vec = replicate 4 (0, 0), v_out_len = 0, v_in_use = False\<rparr>],
     client_id_regions = mw_regions, spm = ()\<rparr>"

definition mw_call :: "u32 \<Rightarrow> ns_call" where
  "mw_call ty = \<lparr>nc_call_type = ty, nc_params = zero_params, nc_client_id = -1, nc_task = 7, nc_args = True\<rparr>"

definition mw_init :: "unit mbox" where
  "mw_init = \<lparr>agent = mw_spe, hpc = H_Idle, ipc = I_Idle, task = (\<lambda>_. (mw_call 1, NS_Idle)), out = [], ans = (\<lambda>_. [])\<rparr>"

definition mw_called :: "u32 \<Rightarrow> unit mbox" where
  "mw_called ty = run_client 1 0 (run_client 1 0 (run_client 1 0 (mw_init\<lparr>task := (task mw_init)(0 := (mw_call ty, NS_Start))\<rparr>)))"





lemma mw_init_reach: "mb_reach 1 False routed mw_rpc mw_init"
  by (intro mb_reach.init) (simp add: mb_init_def mw_init_def mw_spe_def)

lemma mw_called_reach: "ty \<noteq> MAILBOX_PSA_CLOSE \<Longrightarrow> mb_reach 1 False routed mw_rpc (mw_called ty)"
  unfolding mw_called_def
  by (intro run_client_reach mb_reach.step [OF mw_init_reach mb_step.call]) (simp_all add: mw_init_def mw_call_def)






lemma mw_unknown: "\<not> known_call (call_message (mw_call 9))" "task (mw_called 9) 0 = (mw_call 9, NS_Waiting 0)"
  by code_simp+

section \<open>The protocol\<close>





text \<open>
  C40. A call of an unknown kind is never answered: its task stays in the loop that waits for the reply, whatever
  steps follow.
\<close>
theorem mailbox_unknown_call_waits:
  assumes "mb_reach n manage routed rpc s" "0 < n" "n \<le> 32" "task s t = (c, NS_Waiting idx)"
    and "\<not> known_call (call_message c)" "(mb_step n manage routed rpc)\<^sup>*\<^sup>* s s'"
  shows "task s' t = (c, NS_Waiting idx)"
  by (rule unknown_call_waits [OF assms])

theorem mailbox_unknown_call_waits_witness:
  "task ((mw_called 9)\<lparr>hpc := H_Loop (pend_slots (shm (agent (mw_called 9)))) 0 0\<rparr>) 0 = (mw_call 9, NS_Waiting 0)"
proof (rule mailbox_unknown_call_waits [where routed = False, OF mw_called_reach _ _ mw_unknown(2,1)])
  have "hpc (mw_called 9) = H_Idle" "pend_slots (shm (agent (mw_called 9))) \<noteq> 0" by code_simp+
  then show "(mb_step 1 False False mw_rpc)\<^sup>*\<^sup>* (mw_called 9) ((mw_called 9)\<lparr>hpc := H_Loop (pend_slots (shm (agent (mw_called 9)))) 0 0\<rparr>)"
    using mb_step.handler_begin [of "mw_called 9"] by (intro r_into_rtranclp) (simp add: get_nspe_queue_pend_status_def)
qed (simp_all add: mailbox_call_types)

section \<open>Requests to the manager\<close>

text \<open>
  C14. Whatever the other core has written into the shared memory, the handler behaves as with a manager that stops
  on any request but these: at most four vectors in all, marked as non-secure and padded with zeros, the index of
  a slot as client data, and a negative client identifier in the range registered for the mailbox.
\<close>
theorem mailbox_requests_bounded:
  assumes "regions_ok (client_id_regions s)" "length (client_id_regions s) = MAX_MAILBOX_NUMBER" "length (mb_vectors s) = n"
    "length (spe_queue (spe_mailbox_queue s)) = n" "n \<le> 32"
  shows "tfm_mailbox_handle_msg n manage (guard_rpc (request_ok n (client_id_regions s)) rpc) s = tfm_mailbox_handle_msg n manage rpc s"
  by (simp add: tfm_mailbox_handle_msg_def Let_def handle_slots_guard [OF assms])

text \<open>The other core has written a call with vectors into the first slot.\<close>

definition mw_full :: "unit spe" where
  "mw_full = mw_spe\<lparr>shm := (empty_queue 1)\<lparr>pend_slots := 1, mb_slots := [\<lparr>slot_msg =
     \<lparr>mb_call_type = MAILBOX_PSA_CALL, mb_params = zero_params\<lparr>cp_in_len := 1, cp_out_len := 3\<rparr>, mb_client_id = 0\<rparr>, slot_reply = zero_reply\<rparr>]\<rparr>\<rparr>"

theorem mailbox_requests_bounded_witness:
  "tfm_mailbox_handle_msg 1 False (guard_rpc (request_ok 1 mw_regions) mw_rpc) mw_full = tfm_mailbox_handle_msg 1 False mw_rpc mw_full
   \<and> tfm_mailbox_handle_msg 1 False (guard_rpc (\<lambda>_. False) mw_rpc) mw_full = None \<and> tfm_mailbox_handle_msg 1 False mw_rpc mw_full \<noteq> None"
proof -
  have "regions_ok (client_id_regions mw_full)"
    by (auto simp: regions_ok_def mw_full_def mw_spe_def mw_regions_def MAX_MAILBOX_NUMBER_def less_2_cases_iff int32_def)
  then have "tfm_mailbox_handle_msg 1 False (guard_rpc (request_ok 1 (client_id_regions mw_full)) mw_rpc) mw_full = tfm_mailbox_handle_msg 1 False mw_rpc mw_full"
    by (rule mailbox_requests_bounded) (simp_all add: mw_full_def mw_spe_def mw_regions_def MAX_MAILBOX_NUMBER_def)
  moreover have "tfm_mailbox_handle_msg 1 False (guard_rpc (\<lambda>_. False) mw_rpc) mw_full = None" "tfm_mailbox_handle_msg 1 False mw_rpc mw_full \<noteq> None"
    by code_simp+
  ultimately show ?thesis by (simp add: mw_full_def mw_spe_def)
qed

end
