(* ===== verification/Spec2Isabelle.thy ===== *)
theory Spec2Isabelle
  imports ITS_Properties SPM_Properties ITS_Service_Properties ITS_Flash_Properties FWU_Properties PS_Properties Platform_Properties Mailbox_Properties
begin

text \<open>
  Trusted Firmware-M for Infineon devices: a verification development of the Secure Partition Manager and of
  its storage, firmware update and platform services, down to the flash drivers.

  \<^bold>\<open>The program.\<close> Trusted Firmware-M runs security services in isolated partitions. Clients reach a
  service by \<^emph>\<open>psa_call\<close> with up to four input and four output vectors; the Secure Partition Manager
  (SPM, src/secure_fw/spm/core) checks the call, queues it as a message, schedules the partition of
  the service, moves the bytes of the vectors when the service asks for them, and carries the reply
  back. Non-secure tasks on another core send their calls through a mailbox in shared memory, whose secure side
  is an agent partition. The services are under src/secure_fw/partitions. Internal Trusted Storage (ITS) keeps assets, each a
  byte string with flags, owned by a client and named by a 64-bit identifier; a flash file system stores
  them in blocks of a flash device, with copy-on-write of metadata and data blocks. Protected Storage (PS)
  is a client of ITS: it keeps encrypted objects in files of ITS, a table of them in another, and binds the
  table to three monotonic counters of the platform service, so that old or forged contents are refused.
  Firmware Update moves images through a state machine into the areas MCUboot reads, through the flash map of
  the boot loader (src/bl2). The platform code of Infineon (src/platform/ext/target/infineon/common) provides
  the flash and RRAM drivers and the counters.

  \<^bold>\<open>Conventions.\<close> A C routine is a function of the same name (with a suffix where two files define the
  same one, such as \<open>tfm_plat_set_nv_counter_rram\<close> and \<open>tfm_plat_set_nv_counter_flash\<close>). Routines that return
  \<open>psa_status_t\<close> and change state are state transformers \<open>'s \<Rightarrow> (psa_error + 'a) \<times> 's\<close> (\<open>io\<close>, in
  \<open>TFM_Prelude\<close>) in the file system, and \<open>'s \<Rightarrow> ((psa_error + 'a) \<times> 's) option\<close> (\<open>pio\<close>, in \<open>PS_Crypto\<close>) in PS;
  in the SPM they are \<open>'s \<Rightarrow> ('a \<times> 's) option\<close>. \<open>None\<close> is a panic, a fault or a loop that does not end. In the
  storage code sizes are naturals with wrap-around at 32 bits written out (\<open>add32\<close>, \<open>sub32\<close>, \<open>mul32\<close>); in the
  SPM addresses, handles, sizes and signals are 32-bit words, and so is the state of the checksum. Structures
  on flash are encoded to bytes and decoded (little endian, natural alignment). Pointers to objects of the SPM
  are addresses of the connection pool or indices; intrusive lists are lists. Loops over arrays are
  recursions on the index list; the loops of the services whose end depends on the buffer size are
  \<open>partial_function (option)\<close>, with the proof that they return part of the properties. One loop has fuel:
  \<open>ifx_flash_program_rows\<close>, with the number of bytes to program, which is enough because every turn programs at
  least one.

  \<^bold>\<open>Theories and sources.\<close>

  \<^item> \<open>TFM_Prelude\<close>: errors (interface/include/psa/error.h), the state transformers and their proof
    rules, bytes, little-endian words, reading and writing of ranges.
  \<^item> \<open>ITS_Utils\<close> (its_utils.c/.h), \<open>ITS_Flash\<close> (flash/its_flash_hal.h, flash/its_flash_ram.c): the
    helpers, the driver interface, the RAM driver. The locale \<open>flash_device\<close> is the contract of a
    driver (a block device with read, write, flush and erase); the RAM driver is an instance.
  \<^item> \<open>ITS_Mblock\<close>, \<open>ITS_FS\<close> (flash_fs/its_flash_fs_mblock.c, _dblock.c, its_flash_fs.c): every
    function of the file system without encryption.
  \<^item> \<open>ITS_Mblock_Props\<close>, \<open>ITS_FS_Inv\<close>, \<open>ITS_FS_Views\<close>, \<open>ITS_FS_Layout\<close>, \<open>ITS_FS_Commit\<close>, \<open>ITS_FS_Ops\<close>,
    \<open>ITS_FS_Write\<close>, \<open>ITS_FS_Delete\<close>, \<open>ITS_FS_Refine\<close>, \<open>ITS_FS_Mount\<close>: the proof over the contract of the
    driver. The invariant says that the active metadata describes disjoint files that tile their
    logical blocks, that the free sizes add up, that physical blocks are used once, and that the
    checksum and the swap counter agree with the bytes. The abstract view is a map from file
    identifiers to maximum size, flags and contents; every operation refines an operation on the map.
  \<^item> \<open>ITS_Storage\<close>, \<open>ITS_Properties\<close>: the file system over the RAM driver, runs of operations and
    resets, and the properties.
  \<^item> \<open>CMSIS_Flash\<close> (platform/ext/driver/Driver_Flash.h, Driver_Common.h): the driver table of the platform and
    its contract, the locale \<open>cmsis_flash\<close>; \<open>IFX_Flash\<close>, \<open>IFX_RRAM\<close> (infineon/common/drivers/flash): the drivers
    for flash with rows and for RRAM, as its instances. \<open>ITS_Flash_Nor\<close>, \<open>ITS_Flash_Nand\<close> (flash/its_flash_nor.c,
    its_flash_nand.c): the drivers of ITS over that table; the NOR driver is an instance of \<open>flash_device\<close>, and
    \<open>ITS_Flash_Properties\<close> has the file system on it.
  \<^item> \<open>SPM_Base\<close>, \<open>SPM_Pool\<close> (tfm_pools.c), \<open>SPM_State\<close> (spm.h, spm_connection_pool.c, load/*.h),
    \<open>SPM_IPC\<close> (spm_ipc.c, psa_call_api.c, psa_connection_api.c, psa_version_api.c,
    mailbox_agent_api.c, backend_ipc.c), \<open>SPM_Service\<close> (psa_api.c, psa_read_write_skip_api.c,
    psa_mmiovec_api.c), \<open>SPM_Thread\<close> (thread.c, the schedule of backend_ipc.c): the model. The pool
    is an instance of the locale \<open>allocator\<close>.
  \<^item> \<open>SPM_Vectors\<close>, \<open>SPM_Invariant\<close>, \<open>SPM_Run\<close>, \<open>SPM_Messages\<close>, \<open>SPM_Reply\<close>: the invariant of the SPM
    (sound pool, bounded counters, well-formed queues, connections in a queue are active) and that
    every operation keeps it; the queues as first-in first-out queues (locale \<open>message_queue\<close>); the
    vectors as byte strings; replies. \<open>SPM_Wit\<close> holds a small system for the concrete instances, and
    \<open>SPM_Properties\<close> the properties.
  \<^item> \<open>SPM_Request\<close>: what a service sees of a request, as the locale \<open>request_vectors\<close>, and the SPM as
    its provider; \<open>SPM_Request_Wit\<close>: a request in the small system.
  \<^item> \<open>ITS_Service\<close> (tfm_internal_trusted_storage.c, tfm_its_req_mngr.c): the service;
    \<open>ITS_Service_Props\<close>, \<open>ITS_Requests\<close>: its operations as operations on a table of assets, over the
    contract of the vectors (locale \<open>its_requests\<close>); \<open>ITS_Service_Properties\<close>: the properties of the
    service on top of the SPM.
  \<^item> \<open>BL2_Flash_Map\<close> (bl2/src/flash_map.c, flash_map_extended.c): the flash map. \<open>FWU_Image\<close> (psa/update.h,
    tfm_fwu_defs.h, boot/tfm_boot_status.h), \<open>FWU_Mcuboot\<close> (tfm_mcuboot_fwu.c), \<open>FWU_Service\<close>
    (tfm_fwu_req_mngr.c): Firmware Update. \<open>FWU_Machine\<close>: the state machine of a component as a step relation;
    \<open>FWU_Requests\<close>, \<open>FWU_Properties\<close>: the requests as its steps, and the way of an image into the flash.
  \<^item> \<open>PS_Crypto\<close> (ps_encrypted_object.c, crypto/ps_crypto_interface.c, nv_counters), \<open>PS_Object_Table\<close>
    (ps_object_table.c), \<open>PS_Service\<close> (ps_object_system.c, tfm_protected_storage.c, tfm_ps_req_mngr.c): the model
    of PS. \<open>PS_Contracts\<close>: what it relies on, as the locales \<open>its_client\<close>, \<open>nv_counters\<close> and \<open>aead_keys\<close>;
    \<open>PS_Layout\<close>, \<open>PS_Storage\<close>, \<open>PS_Change\<close>, \<open>PS_Set\<close>, \<open>PS_Remove\<close>, \<open>PS_Boot\<close>, \<open>PS_Requests\<close>: the operations as
    operations on a table of assets, over these contracts (locale \<open>ps_storage\<close>). The invariant says that the
    table in memory is the one in the active file, that its tag is for the value all three counters have, and
    that every entry has a file that decrypts with its tag.
  \<^item> \<open>ITS_Client\<close> (interface/src/tfm_its_api.c): the client calls of ITS, an instance of \<open>its_client\<close> on the model of
    the service. \<open>IFX_CRC32\<close> (infineon/common/utils/se/ifx_se_crc32.c): the checksum. \<open>NV_Counters\<close>: the contract of
    the counters (locale \<open>plat_nv_counters\<close>); \<open>NV_Counters_RRAM\<close>, \<open>NV_Counters_Flash\<close> (nv_counters_rram.c,
    nv_counters_flash.c): the two implementations, as its instances on the drivers. \<open>Power_Cut\<close>: a driver whose power fails
    in one of its operations, on which the updates of the counters run for the properties on power failures.
    \<open>Platform_Service\<close>
    (platform_sp.c, tfm_platform_api.c, tfm_platform_system.c): the platform partition and its client library; its
    calls are an instance of \<open>nv_counters\<close>. \<open>Platform_Properties\<close>: the properties of these.
  \<^item> \<open>PS_Platform\<close>: PS on these instances, from its clients to the files of ITS and the counters in flash, with the
    PSA Crypto calls as the only parameter. \<open>PS_Wit\<close>: a concrete system, with a cipher for the instances;
    \<open>PS_Properties\<close>: the properties.
  \<^item> \<open>Mailbox_NS\<close> (interface/include/multi_core, interface/src/multi_core/tfm_ns_mailbox.c,
    tfm_multi_core_psa_ns_api.c): the non-secure side of the mailbox between the cores; \<open>Mailbox_SPE\<close>
    (ns_agent_mailbox/tfm_spe_mailbox.c, tfm_multi_core_client_id.c) its secure side; \<open>Mailbox_RPC\<close> (tfm_rpc.c) its calls
    to the SPM. Routines are split at their locks; \<open>Mailbox_Protocol\<close> interleaves the parts as a step relation, with
    the phases of a request as invariant of each slot, for replies with any handle and for runs without a close, in
    which each reply carries the handle of the slot of its message; \<open>Mailbox_Frame\<close>: what a step changes; \<open>Mailbox_Guard\<close>: what
    reaches the SPM; \<open>Mailbox_Properties\<close>: the properties.

  \<^bold>\<open>What is shown.\<close> Storage: after any run of operations and resets the files are those the
  successful operations leave, except that a write that ends before the end of its file loses the bytes behind
  it; writes, deletions, reads and mounts behave as the table says on every
  branch; a corrupted byte of the metadata is detected at the mount; free space does not leak; the same holds
  on NOR flash behind the Infineon driver. SPM: the invariant holds in every run of calls of secure clients and
  partitions in which a partition replies to delivered messages only (the code does not check this, and a reply
  to a queued message breaks the invariant); messages reach
  the service in order and replies their client; reads and writes stay in the vectors the client passed, and
  these were checked; rejected calls leak no connection; handles give access to connections of their owner
  only; the scheduler picks a ready thread of the highest priority. ITS: set, get and remove act on exactly one
  asset of the calling client; what is set is what is got; a write-once asset is never changed; every
  message is answered. PS: successful requests act on exactly one encrypted asset of the calling client, and a
  remove or get that fails changes none; a set that fails is not covered (it can lose the asset it names, lemma
  \<open>refused_set_loses\<close> of \<open>PS_Remove\<close>); contents survive a reset; no forged or old table is
  accepted; a power failure during a save leaves the old or the new table, and what happens to it at the second
  start after that. Counters: they never decrease, survive a power failure at any operation of the driver in an
  update, and an increment changes exactly the counter it names, which its client may use. Firmware Update: messages
  follow the state machine; a block arrives in the flash where it belongs; with the MCUboot interface every
  message is answered, given that the dependency entries of the images fit their structure, which the code does
  not check. The checksum is polynomial division. Mailbox: in every interleaving a task gets the one reply that was
  written to its slot; if no task closes a connection it is the answer to its own message, and no request or reply is
  lost, except a call of an unknown kind, which is never answered. With a close this fails: its reply goes to
  the slot of an earlier request, and a close of the null handle gets none (\<open>Mailbox_Guard\<close>). The
  requests that reach the SPM are bounded whatever the other core writes.

  \<^bold>\<open>Assumptions.\<close> The platform's memory check, the client id of the non-secure side, the flash areas
  and the partition id of Protected Storage are parameters; so are the functions of code outside the repository
  (MCUboot, PSA Crypto, the peripheral driver library), with their documented behaviour as named hypotheses of
  locales. Authenticated encryption is assumed to decrypt what it encrypted, not to be unforgeable: the
  properties say that the tag of an accepted table is valid. \<open>SPM_ASSERT\<close> is empty, as in release
  builds. The properties of the file system are for a byte-aligned flash (\<open>max_alignment = 1\<close>), and
  those that mount require an erase value other than 1 and 2, which the code does not treat right
  (deployed values are 0x00 and 0xFF). The service writes up to the end of a file only, so the loss behind an
  overwrite does not reach its assets. A set request of PS may also fail for lack of space in ITS or because a
  counter is at its maximum; the property says what holds after a success and which requests are refused.

  \<^bold>\<open>Not modelled.\<close> Resets in the middle of an operation of the file system (the order of flash writes is
  modelled, the loss of power between them is not; for the counters and the save of PS it is); encryption of
  ITS assets; the variants of PS without encryption or rollback protection and with a limit on the use of
  keys; the SFN backend and interrupts; boot-time loading of partitions; the architecture layer
  (assembler); cache maintenance and the mailbox without an operating system or with a mailbox thread; crypto and attestation, which wrap libraries that are not part of the
  repository; the integration of MCUboot; device set-up and protection units, which are memory-mapped
  registers; the external memory driver (SMIF).
\<close>

end
